(* ===== verification/Prelude.thy ===== *)
theory Prelude
  imports Complex_Main "HOL-Library.AList" "HOL-Library.Sublist"
begin

text \<open>
  What every component of the gateway shares: Python's strings, integers in text, dictionaries,
  raised exceptions and JSON values, with the facts about them that the component proofs use.

  A Python string is a \<^typ>\<open>string\<close>: a list of code points below 256 (Latin-1). Within that
  range lowering, white space and digits are Python's own; text outside it is not represented.
  A \<open>float\<close> is an exact rational \<^typ>\<open>rat\<close>: rounding is not modelled. An \<open>int\<close> is
  \<^typ>\<open>int\<close>. A \<open>dict\<close> is an association list in insertion order, updated in place by
  \<open>AList.update\<close> as Python does. A clock reading is a \<^typ>\<open>rat\<close> passed as an argument.
\<close>

named_theorems py_simps \<open>unfolding and rewriting of Python's string and container operations\<close>
named_theorems inv_intros \<open>preservation of the components' invariants\<close>

subsection \<open>Exceptions and results\<close>

datatype py_exn =
    ValueError string
  | KeyError string
  | TypeError string
  | PermissionError string
  | RuntimeError string
  | OtherError string

type_synonym 'a result = "py_exn + 'a"

definition is_ok :: "'e + 'a \<Rightarrow> bool" where
  "is_ok r = (case r of Inl _ \<Rightarrow> False | Inr _ \<Rightarrow> True)"

lemma is_ok_simps [simp]: "is_ok (Inr x)" "\<not> is_ok (Inl e)"
  by (simp_all add: is_ok_def)

lemma is_ok_iff: "is_ok r \<longleftrightarrow> (\<exists>x. r = Inr x)"
  by (cases r) auto

subsection \<open>JSON values\<close>

text \<open>The values the code's \<open>as_dict\<close> methods build and its JSON records hold.\<close>

datatype json =
    JNull
  | JBool bool
  | JInt int
  | JNum rat
  | JStr string
  | JList "json list"
  | JDict "(string \<times> json) list"

text \<open>Truth of a value, and \<open>a or b\<close>.\<close>

fun truthy :: "json \<Rightarrow> bool" where
  "truthy JNull = False"
| "truthy (JBool b) = b"
| "truthy (JInt i) = (i \<noteq> 0)"
| "truthy (JNum x) = (x \<noteq> 0)"
| "truthy (JStr s) = (s \<noteq> [])"
| "truthy (JList xs) = (xs \<noteq> [])"
| "truthy (JDict d) = (d \<noteq> [])"

definition or_else :: "json \<Rightarrow> json \<Rightarrow> json" where
  "or_else a b = (if truthy a then a else b)"

subsection \<open>Dictionaries\<close>

type_synonym ('k, 'v) dict = "('k \<times> 'v) list"

abbreviation dget :: "('k, 'v) dict \<Rightarrow> 'k \<Rightarrow> 'v option" where
  "dget d k \<equiv> map_of d k"

abbreviation dset :: "('k, 'v) dict \<Rightarrow> 'k \<Rightarrow> 'v \<Rightarrow> ('k, 'v) dict" where
  "dset d k v \<equiv> AList.update k v d"

abbreviation ddel :: "('k, 'v) dict \<Rightarrow> 'k \<Rightarrow> ('k, 'v) dict" where
  "ddel d k \<equiv> AList.delete k d"

abbreviation dkeys :: "('k, 'v) dict \<Rightarrow> 'k list" where
  "dkeys d \<equiv> map fst d"

text \<open>\<open>d.get(k, default)\<close>\<close>

definition dgetd :: "('k, 'v) dict \<Rightarrow> 'k \<Rightarrow> 'v \<Rightarrow> 'v" where
  "dgetd d k v = (case map_of d k of None \<Rightarrow> v | Some w \<Rightarrow> w)"

text \<open>A Python dictionary never holds a key twice.\<close>

definition dict_ok :: "('k, 'v) dict \<Rightarrow> bool" where
  "dict_ok d \<longleftrightarrow> distinct (map fst d)"

lemma dget_dset [simp]: "dget (dset d k v) = (dget d)(k \<mapsto> v)"
  by (rule AList.update_conv')

lemma dget_ddel [simp]: "dget (ddel d k) = (dget d)(k := None)"
  by (rule AList.delete_conv')

lemma dgetd_dset [simp]: "dgetd (dset d k v) k' w = (if k' = k then v else dgetd d k' w)"
  by (simp add: dgetd_def)

lemma dgetd_Nil [simp]: "dgetd [] k v = v"
  by (simp add: dgetd_def)

lemma dict_ok_Nil [simp]: "dict_ok []"
  by (simp add: dict_ok_def)

lemma dict_ok_dset [simp]: "dict_ok d \<Longrightarrow> dict_ok (dset d k v)"
  unfolding dict_ok_def by (rule AList.distinct_update)

lemma dict_ok_ddel [simp]: "dict_ok d \<Longrightarrow> dict_ok (ddel d k)"
  unfolding dict_ok_def by (rule AList.distinct_delete)

lemma dict_ok_filter [simp]: "dict_ok d \<Longrightarrow> dict_ok (filter P d)"
  unfolding dict_ok_def by (rule distinct_map_filter)

lemma dict_ok_mem: "dict_ok d \<Longrightarrow> (k, v) \<in> set d \<longleftrightarrow> dget d k = Some v"
  unfolding dict_ok_def by (rule map_of_eq_Some_iff [symmetric])

lemma set_ddel: "set (ddel d k) = {p \<in> set d. fst p \<noteq> k}"
  by (auto simp: AList.delete_eq)

lemma dkeys_ddel: "set (dkeys (ddel d k)) = set (dkeys d) - {k}"
  by (auto simp: AList.delete_eq image_iff)

lemma dget_filter_key:
  "dget (filter (\<lambda>p. P (fst p)) d) k = (if P k then dget d k else None)"
  by (induction d) auto

lemma dget_filter_case [simp]:
  "dget (filter (\<lambda>(k, v). P k) d) k = (if P k then dget d k else None)"
  by (induction d) auto

subsection \<open>Characters\<close>

definition is_space :: "char \<Rightarrow> bool" where
  "is_space c = (let n = (of_char c :: nat) in
     (9 \<le> n \<and> n \<le> 13) \<or> (28 \<le> n \<and> n \<le> 32) \<or> n = 133 \<or> n = 160)"

definition is_digit :: "char \<Rightarrow> bool" where
  "is_digit c = (let n = (of_char c :: nat) in 48 \<le> n \<and> n \<le> 57)"

text \<open>\<open>str.isdigit\<close> also accepts the three superscript digits of Latin-1.\<close>

definition is_py_digit :: "char \<Rightarrow> bool" where
  "is_py_digit c = (is_digit c \<or> (of_char c :: nat) \<in> {178, 179, 185})"

definition is_ascii_letter :: "char \<Rightarrow> bool" where
  "is_ascii_letter c = (let n = (of_char c :: nat) in
     (65 \<le> n \<and> n \<le> 90) \<or> (97 \<le> n \<and> n \<le> 122))"

text \<open>\<open>\w\<close> of a \<open>str\<close> pattern: letters, numeric characters and the underscore.\<close>

definition is_word :: "char \<Rightarrow> bool" where
  "is_word c = (let n = (of_char c :: nat) in
     is_digit c \<or> is_ascii_letter c \<or> n = 95 \<or> n = 170 \<or> n = 181 \<or> n = 186 \<or>
     n \<in> {178, 179, 185, 188, 189, 190} \<or> (192 \<le> n \<and> n \<noteq> 215 \<and> n \<noteq> 247))"

definition lower_char :: "char \<Rightarrow> char" where
  "lower_char c = (let n = (of_char c :: nat) in
     if (65 \<le> n \<and> n \<le> 90) \<or> (192 \<le> n \<and> n \<le> 222 \<and> n \<noteq> 215)
     then char_of (n + 32) else c)"

text \<open>The three Latin-1 letters whose upper case lies outside Latin-1 are left as they are.\<close>

definition upper_char :: "char \<Rightarrow> char" where
  "upper_char c = (let n = (of_char c :: nat) in
     if (97 \<le> n \<and> n \<le> 122) \<or> (224 \<le> n \<and> n \<le> 254 \<and> n \<noteq> 247)
     then char_of (n - 32) else c)"

lemma lower_char_idem [simp]: "lower_char (lower_char c) = lower_char c"
  by (auto simp: lower_char_def Let_def)

lemma is_space_lower_char [simp]: "is_space (lower_char c) = is_space c"
  by (auto simp: lower_char_def is_space_def Let_def)

subsection \<open>Strings\<close>

definition lower :: "string \<Rightarrow> string" where
  "lower s = map lower_char s"

definition upper :: "string \<Rightarrow> string" where
  "upper s = map upper_char s"

lemma lower_idem [simp]: "lower (lower s) = lower s"
  by (simp add: lower_def)

lemma lower_simps [simp]: "lower [] = []" "lower (s @ t) = lower s @ lower t"
  "length (lower s) = length s" "lower s = [] \<longleftrightarrow> s = []"
  by (simp_all add: lower_def)

text \<open>Text in single quotes, as the messages of the code print it.\<close>

definition quoted :: "string \<Rightarrow> string" where
  "quoted s = CHR 0x27 # s @ [CHR 0x27]"

text \<open>\<open>s.lstrip\<close>, \<open>s.rstrip\<close> and \<open>s.strip\<close> for a class of characters.\<close>

definition lstrip_by :: "(char \<Rightarrow> bool) \<Rightarrow> string \<Rightarrow> string" where
  "lstrip_by P s = dropWhile P s"

definition rstrip_by :: "(char \<Rightarrow> bool) \<Rightarrow> string \<Rightarrow> string" where
  "rstrip_by P s = rev (dropWhile P (rev s))"

definition strip :: "string \<Rightarrow> string" where
  "strip s = rstrip_by is_space (lstrip_by is_space s)"

definition rstrip_char :: "char \<Rightarrow> string \<Rightarrow> string" where
  "rstrip_char c s = rstrip_by (\<lambda>x. x = c) s"

definition strip_char :: "char \<Rightarrow> string \<Rightarrow> string" where
  "strip_char c s = rstrip_by (\<lambda>x. x = c) (lstrip_by (\<lambda>x. x = c) s)"

definition starts_with :: "string \<Rightarrow> string \<Rightarrow> bool" where
  "starts_with p s = (take (length p) s = p)"

definition ends_with :: "string \<Rightarrow> string \<Rightarrow> bool" where
  "ends_with p s = (length p \<le> length s \<and> drop (length s - length p) s = p)"

text \<open>\<open>sub in s\<close>\<close>

fun contains :: "string \<Rightarrow> string \<Rightarrow> bool" where
  "contains p [] = (p = [])"
| "contains p (c # s) = (starts_with p (c # s) \<or> contains p s)"

lemma starts_with_iff: "starts_with p s \<longleftrightarrow> (\<exists>r. s = p @ r)"
  unfolding starts_with_def by (metis append_eq_conv_conj append_take_drop_id)

lemma starts_with_append [simp]: "starts_with p (p @ s)"
  by (simp add: starts_with_iff)

lemma ends_with_iff: "ends_with p s \<longleftrightarrow> (\<exists>r. s = r @ p)"
proof
  assume "ends_with p s"
  then have "s = take (length s - length p) s @ p"
    unfolding ends_with_def by (metis append_take_drop_id)
  then show "\<exists>r. s = r @ p" ..
next
  assume "\<exists>r. s = r @ p"
  then show "ends_with p s" by (auto simp: ends_with_def)
qed

lemma contains_iff: "contains p s \<longleftrightarrow> sublist p s"
proof (induction s)
  case Nil
  show ?case by simp
next
  case (Cons c s)
  then show ?case
    by (simp add: sublist_Cons_right starts_with_iff prefix_def)
qed

lemma contains_append: "contains p (a @ p @ b)"
  by (simp add: contains_iff)

text \<open>\<open>s.split(c)\<close> for a one-character separator, and \<open>c.join(parts)\<close>.\<close>

fun split_char :: "char \<Rightarrow> string \<Rightarrow> string list" where
  "split_char c [] = [[]]"
| "split_char c (x # xs) =
     (if x = c then [] # split_char c xs
      else (case split_char c xs of [] \<Rightarrow> [[x]] | y # ys \<Rightarrow> (x # y) # ys))"

fun join :: "string \<Rightarrow> string list \<Rightarrow> string" where
  "join sep [] = []"
| "join sep [s] = s"
| "join sep (s # t # ts) = s @ sep @ join sep (t # ts)"

lemma split_char_nonempty [simp]: "split_char c s \<noteq> []"
  by (cases s) (auto split: list.splits)

lemma join_Cons: "ts \<noteq> [] \<Longrightarrow> join sep (s # ts) = s @ sep @ join sep ts"
  by (cases ts) auto

lemma join_split_char: "join [c] (split_char c s) = s"
proof (induction s)
  case Nil
  show ?case by simp
next
  case (Cons x s)
  obtain y ys where "split_char c s = y # ys"
    by (cases "split_char c s") auto
  with Cons show ?case by (cases ys) auto
qed

lemma split_char_no_sep: "p \<in> set (split_char c s) \<Longrightarrow> c \<notin> set p"
proof (induction s arbitrary: p)
  case Nil
  then show ?case by simp
next
  case (Cons x s)
  obtain y ys where ys: "split_char c s = y # ys"
    by (cases "split_char c s") auto
  with Cons show ?case by (auto split: if_splits)
qed

lemma split_char_chars: "p \<in> set (split_char c s) \<Longrightarrow> set p \<subseteq> set s"
proof (induction s arbitrary: p)
  case Nil
  then show ?case by simp
next
  case (Cons x s)
  obtain y ys where ys: "split_char c s = y # ys"
    by (cases "split_char c s") auto
  from Cons.IH have IH: "q \<in> set (split_char c s) \<Longrightarrow> set q \<subseteq> set s" for q .
  from Cons.prems ys IH show ?case by (auto split: if_splits) blast+
qed

lemma split_char_single: "c \<notin> set s \<Longrightarrow> split_char c s = [s]"
  by (induction s) auto

lemma split_char_append: "c \<notin> set a \<Longrightarrow> split_char c (a @ c # b) = a # split_char c b"
  by (induction a) auto

lemma split_char_join:
  "ps \<noteq> [] \<Longrightarrow> (\<And>p. p \<in> set ps \<Longrightarrow> c \<notin> set p) \<Longrightarrow> split_char c (join [c] ps) = ps"
proof (induction ps)
  case Nil
  then show ?case by simp
next
  case (Cons p ps)
  show ?case
  proof (cases ps)
    case Nil
    with Cons.prems show ?thesis by (simp add: split_char_single)
  next
    case (Cons q qs)
    then have "split_char c (join [c] ps) = ps"
      using Cons.IH Cons.prems by simp
    with Cons Cons.prems show ?thesis by (simp add: split_char_append)
  qed
qed

text \<open>\<open>s.split(c)[-1]\<close>, which is also \<open>s.rsplit(c, 1)[-1]\<close>: what follows the last \<open>c\<close>.\<close>

definition after_last :: "char \<Rightarrow> string \<Rightarrow> string" where
  "after_last c s = last (split_char c s)"

lemma after_last_no_sep: "c \<notin> set (after_last c s)"
  unfolding after_last_def by (rule split_char_no_sep [where s = s]) simp

lemma after_last_append: "c \<notin> set b \<Longrightarrow> after_last c (a @ c # b) = b"
proof (induction a)
  case Nil
  then show ?case by (simp add: after_last_def split_char_single)
next
  case (Cons x a)
  obtain y ys where ys: "split_char c (a @ c # b) = y # ys"
    by (cases "split_char c (a @ c # b)") auto
  show ?case
  proof (cases "x = c")
    case True
    with Cons show ?thesis by (simp add: after_last_def)
  next
    case False
    have "ys \<noteq> []"
    proof
      assume "ys = []"
      with ys have "join [c] (split_char c (a @ c # b)) = y" by simp
      then have "a @ c # b = y" by (simp only: join_split_char)
      moreover from ys have "c \<notin> set y" using split_char_no_sep [of y c "a @ c # b"] by simp
      ultimately show False by auto
    qed
    with Cons ys False show ?thesis by (simp add: after_last_def)
  qed
qed

text \<open>\<open>s.split(c, 1)\<close> and \<open>s.rsplit(c, 1)\<close>: the two parts around the first or the last \<open>c\<close>.\<close>

definition cut :: "char \<Rightarrow> string \<Rightarrow> (string \<times> string) option" where
  "cut c s = (if c \<in> set s
     then Some (takeWhile (\<lambda>x. x \<noteq> c) s, tl (dropWhile (\<lambda>x. x \<noteq> c) s)) else None)"

definition rcut :: "char \<Rightarrow> string \<Rightarrow> (string \<times> string) option" where
  "rcut c s = (case cut c (rev s) of None \<Rightarrow> None | Some (a, b) \<Rightarrow> Some (rev b, rev a))"

lemma cut_append: "c \<notin> set a \<Longrightarrow> cut c (a @ c # b) = Some (a, b)"
proof -
  assume "c \<notin> set a"
  then have "takeWhile (\<lambda>x. x \<noteq> c) (a @ c # b) = a" "dropWhile (\<lambda>x. x \<noteq> c) (a @ c # b) = c # b"
    by (induction a) auto
  then show ?thesis by (simp add: cut_def)
qed

lemma cut_Some: "cut c s = Some (a, b) \<Longrightarrow> s = a @ c # b \<and> c \<notin> set a"
proof -
  assume h: "cut c s = Some (a, b)"
  then have "c \<in> set s" by (simp add: cut_def split: if_splits)
  then obtain a' b' where "s = a' @ c # b'" "c \<notin> set a'"
    by (meson split_list_first)
  with h show ?thesis by (simp add: cut_append)
qed

lemma cut_None_iff: "cut c s = None \<longleftrightarrow> c \<notin> set s"
  by (simp add: cut_def)

text \<open>\<open>s.replace(old, new)\<close> for a non-empty \<open>old\<close>.\<close>

function replace_str :: "string \<Rightarrow> string \<Rightarrow> string \<Rightarrow> string" where
  "replace_str old new [] = []"
| "replace_str old new (c # s) =
     (if old \<noteq> [] \<and> starts_with old (c # s)
      then new @ replace_str old new (drop (length old) (c # s))
      else c # replace_str old new s)"
  by pat_completeness auto
termination
  by (relation "measure (\<lambda>(old, new, s). length s)") auto

lemma replace_str_absent: "\<not> contains old s \<Longrightarrow> replace_str old new s = s"
  by (induction s) auto

text \<open>\<open>s.split()\<close>: the maximal runs of characters that are not white space.\<close>

function words :: "string \<Rightarrow> string list" where
  "words s = (case dropWhile is_space s of
       [] \<Rightarrow> []
     | c # r \<Rightarrow> takeWhile (\<lambda>x. \<not> is_space x) (c # r)
                # words (dropWhile (\<lambda>x. \<not> is_space x) (c # r)))"
  by pat_completeness auto
termination
proof (relation "measure length", simp)
  fix s c r
  assume h: "dropWhile is_space s = c # r"
  then have "\<not> is_space c" by (metis hd_dropWhile list.distinct(1) list.sel(1))
  moreover have "length (c # r) \<le> length s"
    using h by (metis length_dropWhile_le)
  moreover have "length (dropWhile (\<lambda>x. \<not> is_space x) r) \<le> length r"
    by (rule length_dropWhile_le)
  ultimately show "(dropWhile (\<lambda>x. \<not> is_space x) (c # r), s) \<in> measure length" by simp
qed

declare words.simps [simp del]

text \<open>\<open>s.splitlines()\<close>, and \<open>s.split(sep)[0]\<close> for a separator of several characters.\<close>

definition is_linebreak :: "char \<Rightarrow> bool" where
  "is_linebreak c = (let n = (of_char c :: nat) in
     (10 \<le> n \<and> n \<le> 13) \<or> (28 \<le> n \<and> n \<le> 30) \<or> n = 133)"

fun splitlines :: "string \<Rightarrow> string list" where
  "splitlines [] = []"
| "splitlines [c] = (if is_linebreak c then [[]] else [[c]])"
| "splitlines (c # d # s) =
     (if of_char c = (13::nat) \<and> of_char d = (10::nat) then [] # splitlines s
      else if is_linebreak c then [] # splitlines (d # s)
      else (case splitlines (d # s) of [] \<Rightarrow> [[c]] | l # ls \<Rightarrow> (c # l) # ls))"

fun before_sub :: "string \<Rightarrow> string \<Rightarrow> string" where
  "before_sub sep [] = []"
| "before_sub sep (c # s) = (if starts_with sep (c # s) then [] else c # before_sub sep s)"

text \<open>Non-overlapping occurrences, \<open>s.count(sub)\<close> for a non-empty \<open>sub\<close>.\<close>

function count_sub :: "string \<Rightarrow> string \<Rightarrow> nat" where
  "count_sub p [] = 0"
| "count_sub p (c # s) =
     (if p \<noteq> [] \<and> starts_with p (c # s)
      then Suc (count_sub p (drop (length p) (c # s)))
      else count_sub p s)"
  by pat_completeness auto
termination
  by (relation "measure (\<lambda>(p, s). length s)") auto

lemma count_sub_pos: "p \<noteq> [] \<Longrightarrow> contains p s \<Longrightarrow> 0 < count_sub p s"
  by (induction s) auto

subsection \<open>Integers in text\<close>

definition digit_char :: "nat \<Rightarrow> char" where
  "digit_char d = char_of (48 + d)"

definition digit_val :: "char \<Rightarrow> nat" where
  "digit_val c = of_char c - 48"

fun nat_str :: "nat \<Rightarrow> string" where
  "nat_str n = (if n < 10 then [digit_char n] else nat_str (n div 10) @ [digit_char (n mod 10)])"

declare nat_str.simps [simp del]

text \<open>\<open>str(i)\<close>\<close>

definition int_str :: "int \<Rightarrow> string" where
  "int_str i = (if i < 0 then CHR ''-'' # nat_str (nat (- i)) else nat_str (nat i))"

definition digits_val :: "string \<Rightarrow> nat" where
  "digits_val s = foldl (\<lambda>acc c. 10 * acc + digit_val c) 0 s"

text \<open>
  \<open>int(s)\<close>: white space around, an optional sign, then digits in groups separated by single
  underscores; \<^term>\<open>None\<close> where Python raises \<open>ValueError\<close>.
\<close>

definition py_nat :: "string \<Rightarrow> nat option" where
  "py_nat s = (if list_all (\<lambda>g. g \<noteq> [] \<and> list_all is_digit g) (split_char (CHR ''_'') s)
     then Some (digits_val (concat (split_char (CHR ''_'') s))) else None)"

definition py_int :: "string \<Rightarrow> int option" where
  "py_int s = (case strip s of
       [] \<Rightarrow> None
     | c # r \<Rightarrow>
         if c = CHR ''-'' then map_option (\<lambda>n. - int n) (py_nat r)
         else if c = CHR ''+'' then map_option int (py_nat r)
         else map_option int (py_nat (c # r)))"

lemma digit_char_props:
  assumes "d < 10"
  shows "is_digit (digit_char d)" "digit_val (digit_char d) = d"
    "\<not> is_space (digit_char d)" "digit_char d \<noteq> CHR ''_''"
    "digit_char d \<noteq> CHR ''-''" "digit_char d \<noteq> CHR ''+''"
proof -
  have of: "of_char (digit_char d) = (48 + d :: nat)"
    using assms by (simp add: digit_char_def)
  show "is_digit (digit_char d)" "digit_val (digit_char d) = d" "\<not> is_space (digit_char d)"
    using of assms by (simp_all add: is_digit_def digit_val_def is_space_def Let_def)
  show "digit_char d \<noteq> CHR ''_''" "digit_char d \<noteq> CHR ''-''" "digit_char d \<noteq> CHR ''+''"
    using of assms by auto
qed

lemma nat_str_chars: "c \<in> set (nat_str n) \<Longrightarrow> \<exists>d < 10. c = digit_char d"
proof (induction n rule: nat_str.induct)
  case (1 n)
  show ?case
  proof (cases "n < 10")
    case True
    with 1 show ?thesis by (auto simp: nat_str.simps [of n])
  next
    case False
    with "1.prems" have "c \<in> set (nat_str (n div 10)) \<or> c = digit_char (n mod 10)"
      by (auto simp: nat_str.simps [of n])
    with False "1.IH" show ?thesis by (auto intro: exI [of _ "n mod 10"])
  qed
qed

lemma nat_str_nonempty [simp]: "nat_str n \<noteq> []"
  by (subst nat_str.simps) simp

lemma digits_val_snoc: "digits_val (s @ [c]) = 10 * digits_val s + digit_val c"
  by (simp add: digits_val_def)

lemma digits_val_nat_str [simp]: "digits_val (nat_str n) = n"
proof (induction n rule: nat_str.induct)
  case (1 n)
  show ?case
  proof (cases "n < 10")
    case True
    then show ?thesis by (simp add: nat_str.simps [of n] digits_val_def digit_char_props)
  next
    case False
    with 1 show ?thesis
      by (simp add: nat_str.simps [of n] digits_val_snoc digit_char_props)
  qed
qed

lemma nat_str_inject [simp]: "nat_str m = nat_str n \<longleftrightarrow> m = n"
  by (metis digits_val_nat_str)

lemma py_nat_nat_str [simp]: "py_nat (nat_str n) = Some n"
proof -
  have "CHR ''_'' \<notin> set (nat_str n)"
    using nat_str_chars digit_char_props(4) by metis
  then have sp: "split_char (CHR ''_'') (nat_str n) = [nat_str n]"
    by (rule split_char_single)
  have "list_all is_digit (nat_str n)"
    unfolding list_all_iff using nat_str_chars digit_char_props(1) by metis
  then show ?thesis by (simp add: py_nat_def sp)
qed

lemma dropWhile_none: "(\<And>c. c \<in> set s \<Longrightarrow> \<not> P c) \<Longrightarrow> dropWhile P s = s"
  by (cases s) auto

lemma strip_none:
  assumes "\<And>c. c \<in> set s \<Longrightarrow> \<not> is_space c"
  shows "strip s = s"
proof -
  have "dropWhile is_space s = s" "dropWhile is_space (rev s) = rev s"
    using assms by (auto intro: dropWhile_none)
  then show ?thesis by (simp add: strip_def lstrip_by_def rstrip_by_def)
qed

lemma py_int_int_str [simp]: "py_int (int_str i) = Some i"
proof -
  have ns: "\<not> is_space c" if "c \<in> set (int_str i)" for c
  proof -
    from that have "c = CHR ''-'' \<or> (\<exists>d < 10. c = digit_char d)"
      using nat_str_chars by (auto simp: int_str_def split: if_splits)
    then show ?thesis using digit_char_props(3) by (auto simp: is_space_def)
  qed
  have hd: "nat_str n = c # r \<Longrightarrow> c \<noteq> CHR ''-'' \<and> c \<noteq> CHR ''+''" for n c r
    using nat_str_chars [of c n] digit_char_props(5,6) by (metis list.set_intros(1))
  show ?thesis
  proof (cases "i < 0")
    case True
    then have "int_str i = CHR ''-'' # nat_str (nat (- i))" by (simp add: int_str_def)
    moreover have "strip (int_str i) = int_str i" using ns by (rule strip_none)
    ultimately show ?thesis using True by (simp add: py_int_def)
  next
    case False
    obtain c r where cr: "nat_str (nat i) = c # r"
      by (cases "nat_str (nat i)") auto
    have "strip (int_str i) = int_str i" using ns by (rule strip_none)
    with False cr have "strip (int_str i) = c # r"
      by (simp add: int_str_def)
    with hd [OF cr] cr False show ?thesis
      by (simp add: py_int_def) (metis py_nat_nat_str option.map(2) nat_0_le not_less)
  qed
qed

lemma int_str_inject [simp]: "int_str i = int_str j \<longleftrightarrow> i = j"
  by (metis option.inject py_int_int_str)

lemma int_str_one: "int_str 1 = ''1''"
  by code_simp

lemma py_int_one: "py_int ''1'' = Some 1"
  by code_simp

text \<open>The value of a hexadecimal digit.\<close>

definition hex_val :: "char \<Rightarrow> nat option" where
  "hex_val c = (let n = (of_char c :: nat) in
     if 48 \<le> n \<and> n \<le> 57 then Some (n - 48)
     else if 65 \<le> n \<and> n \<le> 70 then Some (n - 55)
     else if 97 \<le> n \<and> n \<le> 102 then Some (n - 87)
     else None)"

text \<open>\<open>str(b)\<close> of a bool.\<close>

definition bool_str :: "bool \<Rightarrow> string" where
  "bool_str b = (if b then ''True'' else ''False'')"

text \<open>\<open>int(x)\<close> of a float truncates towards zero.\<close>

definition trunc_rat :: "rat \<Rightarrow> int" where
  "trunc_rat x = (if x < 0 then \<lceil>x\<rceil> else \<lfloor>x\<rfloor>)"

lemma trunc_rat_of_int [simp]: "trunc_rat (of_int i) = i"
  by (simp add: trunc_rat_def)

lemma trunc_rat_mono: "x \<le> y \<Longrightarrow> trunc_rat x \<le> trunc_rat y"
proof (cases "x < 0 \<and> 0 \<le> y")
  case True
  then have "\<lceil>x\<rceil> \<le> 0" "0 \<le> \<lfloor>y\<rfloor>" by simp_all
  then have "\<lceil>x\<rceil> \<le> \<lfloor>y\<rfloor>" by (rule order_trans)
  with True show ?thesis by (simp add: trunc_rat_def)
next
  case False
  moreover assume "x \<le> y"
  ultimately show ?thesis by (auto simp: trunc_rat_def ceiling_mono floor_mono)
qed

subsection \<open>Stripping a padded text\<close>

definition trimmed :: "string \<Rightarrow> bool" where
  "trimmed s \<longleftrightarrow> s = [] \<or> \<not> is_space (hd s) \<and> \<not> is_space (last s)"

lemma strip_padded:
  assumes "list_all is_space pad" "trimmed s"
  shows "strip (pad @ s) = s"
proof -
  have "dropWhile is_space (pad @ s) = dropWhile is_space s"
    using assms(1) by (simp add: dropWhile_append list_all_iff)
  moreover from assms(2) have "dropWhile is_space s = s" by (cases s) (auto simp: trimmed_def)
  moreover from assms(2) have "dropWhile is_space (rev s) = rev s"
    by (cases s rule: rev_cases) (auto simp: trimmed_def)
  ultimately show ?thesis by (simp add: strip_def lstrip_by_def rstrip_by_def)
qed

lemma strip_trimmed: "trimmed s \<Longrightarrow> strip s = s"
  using strip_padded [of "[]" s] by simp

subsection \<open>Building a dict key by key\<close>

lemma dset_fresh: "k \<notin> set (dkeys d) \<Longrightarrow> dset d k v = d @ [(k, v)]"
  by (induction d) auto

lemma set_dset_subset: "set (dset d k v) \<subseteq> insert (k, v) (set d)"
  by (induction d) auto

lemma dset_all:
  "(\<And>p. p \<in> set d \<Longrightarrow> P p) \<Longrightarrow> P (k, v) \<Longrightarrow> p \<in> set (dset d k v) \<Longrightarrow> P p"
  using set_dset_subset [of k v d] by blast

lemma foldl_dset_distinct:
  "distinct (dkeys d @ map fst kvs) \<Longrightarrow> foldl (\<lambda>d p. dset d (fst p) (snd p)) d kvs = d @ kvs"
proof (induction kvs arbitrary: d)
  case (Cons p kvs)
  then have "p = (fst p, snd p)" "fst p \<notin> set (dkeys d)" by auto
  with Cons show ?case by (simp add: dset_fresh)
qed simp

lemma in_map_filter: "y \<in> set (List.map_filter f xs) \<longleftrightarrow> (\<exists>x \<in> set xs. f x = Some y)"
  by (induction xs) (auto simp: map_filter_simps split: option.splits)

subsection \<open>Bounds on a fold\<close>

lemma sum_list_nonneg_int: "(\<And>x. x \<in> set xs \<Longrightarrow> (0::int) \<le> x) \<Longrightarrow> 0 \<le> sum_list xs"
  by (rule sum_list_nonneg)

end
