(* ===== verification/Resilience.thy ===== *)
theory Resilience
  imports Prelude
begin

text \<open>
  \<open>resilience/\<close>: the circuit breaker (\<open>circuit_breaker.py\<close>) as a record with its private fields, its
  \<open>state\<close> property and \<open>call\<close>, first for one caller and then as a transition system of
  concurrent callers (an \<open>await\<close> inside \<open>call\<close> lets other callers in); and the retry
  decorator (\<open>retry.py\<close>) with its back-off. The wrapped function is a function on the outside world
  that either raises (\<open>Inl\<close>) or returns (\<open>Inr\<close>), so that not calling it leaves the world alone.
\<close>

subsection \<open>CircuitBreaker\<close>

datatype circuit_state = CLOSED | OPEN | HALF_OPEN

record circuit_breaker =
  cb_name :: string
  failure_threshold :: int
  reset_timeout :: rat
  cb_st :: circuit_state
  consecutive_failures :: int
  opened_at :: "rat option"

definition cb_new :: "string \<Rightarrow> int \<Rightarrow> rat \<Rightarrow> circuit_breaker" where
  "cb_new name threshold timeout = \<lparr>cb_name = name, failure_threshold = threshold,
     reset_timeout = timeout, cb_st = CLOSED, consecutive_failures = 0, opened_at = None\<rparr>"

text \<open>The property \<open>state\<close>, which moves an expired \<open>OPEN\<close> to \<open>HALF_OPEN\<close> as a side effect.\<close>

definition cb_state :: "circuit_breaker \<Rightarrow> rat \<Rightarrow> circuit_state \<times> circuit_breaker" where
  "cb_state cb now =
     (let cb' = (case opened_at cb of
          None \<Rightarrow> cb
        | Some t \<Rightarrow> if cb_st cb = OPEN \<and> now - t \<ge> reset_timeout cb
                   then cb\<lparr>cb_st := HALF_OPEN\<rparr> else cb)
      in (cb_st cb', cb'))"

definition record_success :: "circuit_breaker \<Rightarrow> circuit_breaker" where
  "record_success cb = cb\<lparr>consecutive_failures := 0, cb_st := CLOSED, opened_at := None\<rparr>"

definition record_failure :: "circuit_breaker \<Rightarrow> rat \<Rightarrow> circuit_breaker" where
  "record_failure cb now =
     (let cb' = cb\<lparr>consecutive_failures := consecutive_failures cb + 1\<rparr> in
      if consecutive_failures cb' \<ge> failure_threshold cb'
      then cb'\<lparr>cb_st := OPEN, opened_at := Some now\<rparr> else cb')"

datatype 'e call_error =
    CircuitOpenError string rat
  | Raised 'e

text \<open>\<open>call\<close>, entered at \<open>t\<close>, with a failure of the wrapped function recorded at \<open>t'\<close>.\<close>

definition cb_call ::
  "circuit_breaker \<Rightarrow> rat \<Rightarrow> rat \<Rightarrow> ('w \<Rightarrow> ('e + 'a) \<times> 'w) \<Rightarrow> 'w \<Rightarrow>
   ('e call_error + 'a) \<times> circuit_breaker \<times> 'w" where
  "cb_call cb t t' func w =
     (let (current_state, cb1) = cb_state cb t in
      if current_state = OPEN then
        let opened = (case opened_at cb1 of None \<Rightarrow> 0 | Some o1 \<Rightarrow> o1);
            retry_after = reset_timeout cb1 - (t - opened)
        in (Inl (CircuitOpenError (cb_name cb1) (max 0 retry_after)), cb1, w)
      else
        (case func w of
           (Inl exc, w') \<Rightarrow> (Inl (Raised exc), record_failure cb1 t', w')
         | (Inr result, w') \<Rightarrow> (Inr result, record_success cb1, w')))"

text \<open>The breaker's fields agree: open or trial exactly when the failures have reached the threshold.\<close>

definition cb_inv :: "circuit_breaker \<Rightarrow> bool" where
  "cb_inv cb \<longleftrightarrow> 1 \<le> failure_threshold cb \<and> 0 \<le> consecutive_failures cb \<and>
     (if cb_st cb = CLOSED
      then consecutive_failures cb < failure_threshold cb \<and> opened_at cb = None
      else failure_threshold cb \<le> consecutive_failures cb \<and> opened_at cb \<noteq> None)"

lemma cb_inv_new [inv_intros]: "1 \<le> n \<Longrightarrow> cb_inv (cb_new name n timeout)"
  by (simp add: cb_inv_def cb_new_def)

lemma cb_inv_state [inv_intros]: "cb_inv cb \<Longrightarrow> cb_inv (snd (cb_state cb now))"
  by (auto simp: cb_inv_def cb_state_def Let_def split: option.splits if_splits)

lemma cb_inv_success [inv_intros]: "cb_inv cb \<Longrightarrow> cb_inv (record_success cb)"
  by (auto simp: cb_inv_def record_success_def)

lemma cb_inv_failure [inv_intros]: "cb_inv cb \<Longrightarrow> cb_inv (record_failure cb now)"
  by (auto simp: cb_inv_def record_failure_def Let_def split: if_splits)

lemma cb_inv_call [inv_intros]:
  "cb_inv cb \<Longrightarrow> cb_inv (fst (snd (cb_call cb t t' func w)))"
  using cb_inv_state [of cb t] cb_inv_success [of "snd (cb_state cb t)"]
    cb_inv_failure [of "snd (cb_state cb t)" t']
  by (auto simp: cb_call_def Let_def split: prod.splits sum.splits if_splits)

lemma cb_state_fixed [simp]:
  "failure_threshold (snd (cb_state cb now)) = failure_threshold cb"
  "reset_timeout (snd (cb_state cb now)) = reset_timeout cb"
  "opened_at (snd (cb_state cb now)) = opened_at cb"
  "consecutive_failures (snd (cb_state cb now)) = consecutive_failures cb"
  by (auto simp: cb_state_def Let_def split: option.splits)

lemma cb_state_open:
  "fst (cb_state cb now) = OPEN \<longleftrightarrow>
   cb_st cb = OPEN \<and> (\<forall>t. opened_at cb = Some t \<longrightarrow> now - t < reset_timeout cb)"
  by (auto simp: cb_state_def Let_def split: option.splits)

lemma cb_state_closed: "cb_st cb = CLOSED \<Longrightarrow> cb_state cb now = (CLOSED, cb)"
  by (auto simp: cb_state_def Let_def split: option.splits)

lemma cb_call_open:
  assumes "cb_st cb = OPEN" "opened_at cb = Some t0" "t - t0 < reset_timeout cb"
  shows "cb_call cb t t' func w =
     (Inl (CircuitOpenError (cb_name cb) (max 0 (reset_timeout cb - (t - t0)))), cb, w)"
  using assms by (simp add: cb_call_def cb_state_def)

lemma cb_call_closed_raises:
  assumes "cb_st cb = CLOSED" "func w = (Inl e, w')"
  shows "cb_call cb t t' func w = (Inl (Raised e), record_failure cb t', w')"
  using assms by (simp add: cb_call_def cb_state_closed)

subsection \<open>A run of calls\<close>

text \<open>
  Calls made one after the other; each is its times and the outcome of the wrapped function. The
  world is the number of times the wrapped function ran.
\<close>

definition counted :: "('e + 'a) \<Rightarrow> nat \<Rightarrow> ('e + 'a) \<times> nat" where
  "counted out n = (out, Suc n)"

fun cb_run ::
  "circuit_breaker \<Rightarrow> (rat \<times> rat \<times> ('e + 'a)) list \<Rightarrow> nat \<Rightarrow> circuit_breaker \<times> nat" where
  "cb_run cb [] n = (cb, n)"
| "cb_run cb ((t, t', out) # calls) n =
     (let (_, cb', n') = cb_call cb t t' (counted out) n in cb_run cb' calls n')"

text \<open>Calls do not overlap and the clock does not go back.\<close>

fun timed :: "rat \<Rightarrow> (rat \<times> rat \<times> 'o) list \<Rightarrow> bool" where
  "timed t0 [] = True"
| "timed t0 ((t, t', _) # calls) = (t0 \<le> t \<and> t \<le> t' \<and> timed t' calls)"

lemma timed_mono: "t1 \<le> t0 \<Longrightarrow> timed t0 calls \<Longrightarrow> timed t1 calls"
  by (cases calls) auto

lemma run_open:
  assumes "cb_st cb = OPEN" "opened_at cb = Some t0" "t0 \<le> t1" "timed t1 calls"
    and "\<forall>(t, _, _)\<in>set calls. t < t0 + reset_timeout cb"
  shows "cb_run cb calls n = (cb, n)"
  using assms
proof (induction calls arbitrary: t1)
  case Nil
  then show ?case by simp
next
  case (Cons c calls)
  obtain t t' out where c: "c = (t, t', out)" by (cases c)
  from Cons.prems c have lt: "t - t0 < reset_timeout cb" by auto
  have "cb_run cb calls n = (cb, n)"
    using Cons.IH [of t'] Cons.prems c by auto
  with cb_call_open [OF Cons.prems(1,2) lt, of t' "counted out" n] c show ?case by simp
qed

lemma run_failing:
  assumes "cb_inv cb" "cb_st cb = CLOSED" "timed t0 calls"
    and "\<forall>(t, t', out)\<in>set calls. t0 \<le> t \<and> t < t0 + reset_timeout cb \<and> \<not> is_ok out"
  shows "snd (cb_run cb calls n) =
     n + min (nat (failure_threshold cb - consecutive_failures cb)) (length calls)"
  using assms
proof (induction calls arbitrary: cb n t0)
  case Nil
  then show ?case by simp
next
  case (Cons c calls)
  obtain t t' out where c: "c = (t, t', out)" by (cases c)
  from Cons.prems(4) c obtain e where out: "out = Inl e" by (cases out) auto
  have times: "t0 \<le> t" "t \<le> t'" "timed t' calls" using Cons.prems(3) c by auto
  have call: "cb_call cb t t' (counted out) n = (Inl (Raised e), record_failure cb t', Suc n)"
    using Cons.prems(2) by (simp add: cb_call_closed_raises counted_def out)
  have rest: "\<forall>(t, t', out)\<in>set calls. t0 \<le> t \<and> t < t0 + reset_timeout cb \<and> \<not> is_ok out"
    using Cons.prems(4) by auto
  show ?case
  proof (cases "consecutive_failures cb + 1 \<ge> failure_threshold cb")
    case True
    let ?cb = "record_failure cb t'"
    have op: "cb_st ?cb = OPEN" "opened_at ?cb = Some t'" "reset_timeout ?cb = reset_timeout cb"
      using True by (simp_all add: record_failure_def Let_def)
    have "\<forall>(t, _, _)\<in>set calls. t < t' + reset_timeout ?cb"
      using rest times op by fastforce
    then have "cb_run ?cb calls (Suc n) = (?cb, Suc n)"
      using op times by (intro run_open [of ?cb t' t']) auto
    moreover have "nat (failure_threshold cb - consecutive_failures cb) = 1"
      using True Cons.prems(1,2) by (auto simp: cb_inv_def)
    ultimately show ?thesis using c call by simp
  next
    case False
    let ?cb = "record_failure cb t'"
    have cl: "cb_st ?cb = CLOSED" "consecutive_failures ?cb = consecutive_failures cb + 1"
      "failure_threshold ?cb = failure_threshold cb" "reset_timeout ?cb = reset_timeout cb"
      using False Cons.prems(2) by (simp_all add: record_failure_def Let_def)
    have "snd (cb_run ?cb calls (Suc n)) =
        Suc n + min (nat (failure_threshold ?cb - consecutive_failures ?cb)) (length calls)"
    proof (rule Cons.IH)
      show "cb_inv ?cb" using Cons.prems(1) by (rule cb_inv_failure)
      show "timed t0 calls" using timed_mono times by (meson order_trans)
    qed (use cl rest in auto)
    with False c call cl show ?thesis by simp
  qed
qed

text \<open>C4: Against an upstream that fails every time, a new breaker runs the wrapped function exactly
  \<open>failure_threshold\<close> times within one reset timeout of the first call; every later call in that time
  fails fast without running it.\<close>
theorem breaker_stops_hammering:
  assumes "1 \<le> threshold" and "timed t0 calls"
    and "\<forall>(t, t', out)\<in>set calls. t < t0 + timeout \<and> \<not> is_ok out"
  shows "snd (cb_run (cb_new name threshold timeout) calls 0) = min (nat threshold) (length calls)"
proof -
  have "\<forall>(t, t', out)\<in>set calls. t0 \<le> t"
    using assms(2)
  proof (induction calls arbitrary: t0)
    case (Cons c calls)
    obtain t t' out where c: "c = (t, t', out)" by (cases c)
    with Cons show ?case using timed_mono [of t0 t' calls] by auto
  qed simp
  with assms(3) have "\<forall>(t, t', out)\<in>set calls.
      t0 \<le> t \<and> t < t0 + reset_timeout (cb_new name threshold timeout) \<and> \<not> is_ok out"
    by (auto simp: cb_new_def)
  from run_failing [OF cb_inv_new [OF assms(1)] _ assms(2) this, of 0]
  show ?thesis by (simp add: cb_new_def)
qed

theorem breaker_stops_hammering_witness:
  "snd (cb_run (cb_new ''vt'' 2 30) [(1, 2, Inl ''down''), (3, 4, Inl ''down''),
     (5, 6, Inl ''down''), (7, 8, Inl ''down'' :: string + unit)] 0) = 2"
  using breaker_stops_hammering [of 2 1 "[(1, 2, Inl ''down''), (3, 4, Inl ''down''),
     (5, 6, Inl ''down''), (7, 8, Inl ''down'' :: string + unit)]" 30 "''vt''"]
  by simp

subsection \<open>Concurrent callers\<close>

text \<open>
  The breaker with the calls that have passed its check and not yet returned, and the clock. A
  caller enters (or is refused), its call later succeeds, fails or is cancelled (\<open>CancelledError\<close> is no
  \<open>Exception\<close>, so nothing is recorded), and the clock moves on; any number of callers may be inside at once.
\<close>

record cb_sys =
  breaker :: circuit_breaker
  in_flight :: nat
  clock :: rat

inductive cb_step :: "cb_sys \<Rightarrow> cb_sys \<Rightarrow> bool" where
  tick: "clock s \<le> t \<Longrightarrow> cb_step s (s\<lparr>clock := t\<rparr>)"
| admit: "cb_state (breaker s) (clock s) = (st, cb) \<Longrightarrow> st \<noteq> OPEN \<Longrightarrow>
    cb_step s (s\<lparr>breaker := cb, in_flight := Suc (in_flight s)\<rparr>)"
| refuse: "cb_state (breaker s) (clock s) = (OPEN, cb) \<Longrightarrow> cb_step s (s\<lparr>breaker := cb\<rparr>)"
| succeed: "in_flight s = Suc n \<Longrightarrow>
    cb_step s (s\<lparr>breaker := record_success (breaker s), in_flight := n\<rparr>)"
| fail: "in_flight s = Suc n \<Longrightarrow>
    cb_step s (s\<lparr>breaker := record_failure (breaker s) (clock s), in_flight := n\<rparr>)"
| cancel: "in_flight s = Suc n \<Longrightarrow> cb_step s (s\<lparr>in_flight := n\<rparr>)"

inductive_cases cb_stepE: "cb_step s s'"

inductive cb_reachable :: "circuit_breaker \<Rightarrow> cb_sys \<Rightarrow> bool" for cb0 where
  start: "cb_reachable cb0 \<lparr>breaker = cb0, in_flight = 0, clock = t\<rparr>"
| step: "cb_reachable cb0 s \<Longrightarrow> cb_step s s' \<Longrightarrow> cb_reachable cb0 s'"

lemma cb_step_inv: "cb_step s s' \<Longrightarrow> cb_inv (breaker s) \<Longrightarrow> cb_inv (breaker s')"
  by (erule cb_stepE) (auto intro: inv_intros dest: cb_inv_state [where now = "clock s"])

lemma opened_before_now:
  "cb_reachable cb0 s \<Longrightarrow> opened_at cb0 = None \<Longrightarrow> opened_at (breaker s) = Some t \<Longrightarrow> t \<le> clock s"
proof (induction arbitrary: t rule: cb_reachable.induct)
  case (start t0)
  then show ?case by simp
next
  case (step s s')
  have IH: "opened_at (breaker s) = Some u \<Longrightarrow> u \<le> clock s" for u
    using step.IH step.prems(1) by blast
  from step.hyps(2) show ?case
  proof (cases rule: cb_step.cases)
    case (tick u)
    with IH [of t] step.prems(2) show ?thesis by simp
  next
    case (admit st cb)
    have "opened_at cb = opened_at (breaker s)"
      using admit cb_state_fixed(3) by (metis snd_conv)
    with admit step.prems(2) IH [of t] show ?thesis by simp
  next
    case (refuse cb)
    have "opened_at cb = opened_at (breaker s)"
      using refuse cb_state_fixed(3) by (metis snd_conv)
    with refuse step.prems(2) IH [of t] show ?thesis by simp
  next
    case (succeed n)
    with step.prems(2) show ?thesis by (simp add: record_success_def)
  next
    case (fail n)
    with step.prems(2) IH [of t] show ?thesis by (auto simp: record_failure_def Let_def split: if_splits)
  next
    case (cancel n)
    with step.prems(2) IH [of t] show ?thesis by simp
  qed
qed

text \<open>C3: However callers interleave, a reachable breaker keeps its fields consistent: it is closed
  exactly while its consecutive failures are below the threshold, and otherwise remembers a time of
  opening that has passed; an open breaker whose timeout has not elapsed admits nobody.\<close>
theorem breaker_reachable_consistent:
  assumes "cb_reachable (cb_new name threshold timeout) s" and "1 \<le> threshold"
  shows "cb_inv (breaker s) \<and>
     (\<forall>t. opened_at (breaker s) = Some t \<longrightarrow> t \<le> clock s) \<and>
     (\<forall>t s'. cb_st (breaker s) = OPEN \<and> opened_at (breaker s) = Some t \<and>
        clock s < t + reset_timeout (breaker s) \<and> cb_step s s' \<longrightarrow> in_flight s' \<le> in_flight s)"
proof (intro conjI allI impI)
  show "cb_inv (breaker s)"
    using assms
  proof (induction rule: cb_reachable.induct)
    case (step s s')
    then show ?case by (blast intro: cb_step_inv)
  qed (simp add: cb_inv_new)
  show "t \<le> clock s" if "opened_at (breaker s) = Some t" for t
    using opened_before_now [OF assms(1) _ that] by (simp add: cb_new_def)
  fix t s'
  assume h: "cb_st (breaker s) = OPEN \<and> opened_at (breaker s) = Some t \<and>
        clock s < t + reset_timeout (breaker s) \<and> cb_step s s'"
  then have "fst (cb_state (breaker s) (clock s)) = OPEN" by (auto simp: cb_state_open)
  with h show "in_flight s' \<le> in_flight s"
    by (auto elim!: cb_stepE)
qed

theorem breaker_reachable_consistent_witness:
  "cb_inv (breaker \<lparr>breaker = cb_new ''vt'' 5 30, in_flight = 0, clock = 0\<rparr>)"
  using breaker_reachable_consistent [OF cb_reachable.start [of "cb_new ''vt'' 5 30" 0]] by simp

subsection \<open>with_retry\<close>

record retry_policy =
  max_attempts :: int
  base_delay :: rat
  max_delay :: rat

datatype 'e retry_error =
    RetryExhausted int "'e option"
  | Propagated 'e

definition backoff :: "retry_policy \<Rightarrow> nat \<Rightarrow> rat" where
  "backoff p attempt = min (base_delay p * 2 ^ attempt) (max_delay p)"

text \<open>
  \<open>delay += random.uniform(0, delay * 0.5)\<close>; the draw of each attempt is a parameter between 0
  and 1.
\<close>

definition jittered :: "retry_policy \<Rightarrow> (nat \<Rightarrow> rat) \<Rightarrow> nat \<Rightarrow> rat" where
  "jittered p draw attempt = backoff p attempt + draw attempt * (backoff p attempt * (1 / 2))"

text \<open>The loop over \<open>range(max_attempts)\<close>: the result, the sleeps taken, and the world.\<close>

function retry_loop ::
  "retry_policy \<Rightarrow> ('e \<Rightarrow> bool) \<Rightarrow> (nat \<Rightarrow> rat) \<Rightarrow> ('w \<Rightarrow> ('e + 'a) \<times> 'w) \<Rightarrow>
   nat \<Rightarrow> 'e option \<Rightarrow> 'w \<Rightarrow> ('e retry_error + 'a) \<times> rat list \<times> 'w" where
  "retry_loop p retry_on draw func attempt last_exc w =
     (if int attempt \<ge> max_attempts p then (Inl (RetryExhausted (max_attempts p) last_exc), [], w)
      else
        (case func w of
           (Inr x, w') \<Rightarrow> (Inr x, [], w')
         | (Inl exc, w') \<Rightarrow>
             if \<not> retry_on exc then (Inl (Propagated exc), [], w')
             else if int attempt = max_attempts p - 1
             then (Inl (RetryExhausted (max_attempts p) (Some exc)), [], w')
             else
               let (r, sleeps, w'') = retry_loop p retry_on draw func (Suc attempt) (Some exc) w'
               in (r, jittered p draw attempt # sleeps, w'')))"
  by pat_completeness auto
termination
  by (relation "measure (\<lambda>(p, _, _, _, attempt, _, _). nat (max_attempts p - int attempt))") auto

declare retry_loop.simps [simp del]

definition with_retry ::
  "retry_policy \<Rightarrow> ('e \<Rightarrow> bool) \<Rightarrow> (nat \<Rightarrow> rat) \<Rightarrow> ('w \<Rightarrow> ('e + 'a) \<times> 'w) \<Rightarrow>
   'w \<Rightarrow> ('e retry_error + 'a) \<times> rat list \<times> 'w" where
  "with_retry p retry_on draw func w = retry_loop p retry_on draw func 0 None w"

text \<open>A function whose \<open>n\<close>-th run has the given outcome; the world counts the runs.\<close>

definition scripted :: "(nat \<Rightarrow> 'e + 'a) \<Rightarrow> nat \<Rightarrow> ('e + 'a) \<times> nat" where
  "scripted out n = (out n, Suc n)"

lemma retry_loop_success:
  assumes "k < nat (max_attempts p)" "i \<le> k" "out k = Inr x"
    and "\<forall>j. i \<le> j \<and> j < k \<longrightarrow> (\<exists>e. out j = Inl e \<and> retry_on e)"
  shows "retry_loop p retry_on draw (scripted out) i last_exc i =
     (Inr x, map (jittered p draw) [i..<k], Suc k)"
  using assms
proof (induction "k - i" arbitrary: i last_exc)
  case 0
  then show ?case by (simp add: retry_loop.simps [of p retry_on draw _ i] scripted_def)
next
  case (Suc m)
  then obtain e where e: "out i = Inl e" "retry_on e" and ik: "i < k"
    by (metis le_refl less_Suc_eq_le zero_less_Suc zero_less_diff)
  have "retry_loop p retry_on draw (scripted out) (Suc i) (Some e) (Suc i) =
     (Inr x, map (jittered p draw) [Suc i..<k], Suc k)"
    using Suc ik by (intro Suc.hyps(1)) auto
  moreover have "\<not> int i \<ge> max_attempts p" "int i \<noteq> max_attempts p - 1"
    using ik Suc.prems(1) by auto
  ultimately show ?case using e ik
    by (simp add: retry_loop.simps [of p retry_on draw _ i] scripted_def upt_conv_Cons)
qed

lemma retry_loop_exhausted:
  assumes "i < nat (max_attempts p)"
    and "\<forall>j. i \<le> j \<and> j < nat (max_attempts p) \<longrightarrow> (\<exists>e. out j = Inl e \<and> retry_on e)"
  shows "retry_loop p retry_on draw (scripted out) i last_exc i =
     (Inl (RetryExhausted (max_attempts p) (Some (projl (out (nat (max_attempts p) - 1))))),
      map (jittered p draw) [i..<nat (max_attempts p) - 1], nat (max_attempts p))"
  using assms
proof (induction "nat (max_attempts p) - i" arbitrary: i last_exc)
  case 0
  then show ?case by simp
next
  case (Suc m)
  from Suc.prems obtain e where e: "out i = Inl e" "retry_on e" by blast
  show ?case
  proof (cases "Suc i = nat (max_attempts p)")
    case True
    then have "int i = max_attempts p - 1" "nat (max_attempts p) - 1 = i" by auto
    with e True show ?thesis
      by (simp add: retry_loop.simps [of p retry_on draw _ i] scripted_def)
  next
    case False
    then have i: "Suc i < nat (max_attempts p)" "int i \<noteq> max_attempts p - 1" "\<not> int i \<ge> max_attempts p"
      using Suc.prems(1) by auto
    have "i < nat (max_attempts p) - 1" using i by simp
    moreover have "retry_loop p retry_on draw (scripted out) (Suc i) (Some e) (Suc i) =
      (Inl (RetryExhausted (max_attempts p) (Some (projl (out (nat (max_attempts p) - 1))))),
       map (jittered p draw) [Suc i..<nat (max_attempts p) - 1], nat (max_attempts p))"
      using Suc i by (intro Suc.hyps(1)) auto
    ultimately show ?thesis using e i
      by (simp add: retry_loop.simps [of p retry_on draw _ i] scripted_def upt_conv_Cons)
  qed
qed

lemma jittered_bounds:
  assumes "0 \<le> base_delay p" "0 \<le> max_delay p" "0 \<le> draw i" "draw i \<le> 1"
  shows "backoff p i \<le> jittered p draw i \<and> jittered p draw i \<le> 3 / 2 * max_delay p"
proof -
  have b: "0 \<le> backoff p i" "backoff p i \<le> max_delay p"
    using assms by (auto simp: backoff_def)
  then have d: "0 \<le> draw i * (backoff p i * (1 / 2))"
    "draw i * (backoff p i * (1 / 2)) \<le> backoff p i * (1 / 2)"
    using assms by (auto intro: mult_left_le_one_le)
  with b show ?thesis by (simp add: jittered_def)
qed

text \<open>If the wrapped function fails retryably \<open>k\<close> times and then returns, within the allowed attempts,
  the decorator returns that result after exactly \<open>k + 1\<close> runs and \<open>k\<close> sleeps, each at least the
  exponential back-off of its attempt and at most one and a half times the cap.\<close>
theorem retry_eventual_success:
  assumes "int k < max_attempts p" and "out k = Inr x"
    and "\<forall>j < k. \<exists>e. out j = Inl e \<and> retry_on e"
    and "0 \<le> base_delay p" and "0 \<le> max_delay p" and "\<forall>i. 0 \<le> draw i \<and> draw i \<le> 1"
  shows "\<exists>sleeps. with_retry p retry_on draw (scripted out) 0 = (Inr x, sleeps, Suc k) \<and>
     length sleeps = k \<and>
     (\<forall>i < k. backoff p i \<le> sleeps ! i \<and> sleeps ! i \<le> 3 / 2 * max_delay p)"
proof -
  have "with_retry p retry_on draw (scripted out) 0 = (Inr x, map (jittered p draw) [0..<k], Suc k)"
    unfolding with_retry_def using assms(1-3) by (intro retry_loop_success) auto
  then show ?thesis using jittered_bounds [of p draw] assms(4-6) by simp
qed

theorem retry_eventual_success_witness:
  "\<exists>sleeps. with_retry \<lparr>max_attempts = 3, base_delay = 1 / 4, max_delay = 5\<rparr> (\<lambda>_. True) (\<lambda>_. 1 / 2)
     (scripted (\<lambda>n. if n < 2 then Inl ''timeout'' else Inr (7::int))) 0 = (Inr 7, sleeps, Suc 2) \<and>
   length sleeps = 2"
  using retry_eventual_success [of 2 "\<lparr>max_attempts = 3, base_delay = 1 / 4, max_delay = 5\<rparr>"
      "\<lambda>n. if n < 2 then Inl ''timeout'' else Inr (7::int)" 7 "\<lambda>_. True" "\<lambda>_. 1 / 2"]
  by auto

text \<open>If every one of the allowed attempts fails retryably, the decorator gives up with
  \<open>RetryExhausted\<close> carrying the last failure, after exactly \<open>max_attempts\<close> runs.\<close>
theorem retry_gives_up:
  assumes "0 < max_attempts p" and "\<forall>j < nat (max_attempts p). \<exists>e. out j = Inl e \<and> retry_on e"
  shows "\<exists>sleeps e. with_retry p retry_on draw (scripted out) 0 =
       (Inl (RetryExhausted (max_attempts p) (Some e)), sleeps, nat (max_attempts p)) \<and>
     out (nat (max_attempts p) - 1) = Inl e \<and> length sleeps = nat (max_attempts p) - 1"
proof -
  obtain e where e: "out (nat (max_attempts p) - 1) = Inl e"
    using assms by (metis diff_less zero_less_nat_eq zero_less_one)
  have "with_retry p retry_on draw (scripted out) 0 =
     (Inl (RetryExhausted (max_attempts p) (Some (projl (out (nat (max_attempts p) - 1))))),
      map (jittered p draw) [0..<nat (max_attempts p) - 1], nat (max_attempts p))"
    unfolding with_retry_def using assms by (intro retry_loop_exhausted) auto
  with e show ?thesis by simp
qed

theorem retry_gives_up_witness:
  "\<exists>sleeps e. with_retry \<lparr>max_attempts = 3, base_delay = 1, max_delay = 5\<rparr> (\<lambda>_. True) (\<lambda>_. 0)
     (scripted (\<lambda>n. Inl n :: nat + unit)) 0 = (Inl (RetryExhausted 3 (Some e)), sleeps, 3) \<and> e = 2"
  using retry_gives_up [of "\<lparr>max_attempts = 3, base_delay = 1, max_delay = 5\<rparr>"
      "\<lambda>n. Inl n :: nat + unit" "\<lambda>_. True" "\<lambda>_. 0"]
  by auto

end
