(* ===== verification/KVStore.thy ===== *)
theory KVStore
  imports Prelude
begin

text \<open>
  \<open>storage/\<close>: the key-value interface every shared counter, cache and duplicate check of the
  gateway is built on (\<open>storage/base.py\<close>), as the locale \<open>kv_store\<close>, and the single-process
  implementation \<open>InMemoryStore\<close> (\<open>storage/memory.py\<close>), which interprets it. The store is the
  private dictionary \<open>_data\<close> of values with an optional expiry; expired entries are deleted lazily
  by \<open>_is_live\<close>. Each operation runs under the store's lock and reads the monotonic clock
  once here (the code's two readings inside one locked section are taken to be equal).
\<close>

subsection \<open>InMemoryStore\<close>

type_synonym store = "(string, string \<times> rat option) dict"

definition empty_store :: store where
  "empty_store = []"

text \<open>\<open>time.monotonic() + ttl_seconds if ttl_seconds else None\<close>\<close>

definition deadline :: "rat \<Rightarrow> int option \<Rightarrow> rat option" where
  "deadline now ttl = (case ttl of None \<Rightarrow> None
     | Some n \<Rightarrow> if n = 0 then None else Some (now + of_int n))"

definition is_live :: "store \<Rightarrow> rat \<Rightarrow> string \<Rightarrow> bool \<times> store" where
  "is_live d now key = (case dget d key of
       None \<Rightarrow> (False, d)
     | Some (_, expiry) \<Rightarrow>
         (case expiry of
            None \<Rightarrow> (True, d)
          | Some e \<Rightarrow> if now \<ge> e then (False, ddel d key) else (True, d)))"

definition mem_get :: "store \<Rightarrow> rat \<Rightarrow> string \<Rightarrow> string option \<times> store" where
  "mem_get d now key = (let (live, d') = is_live d now key in
     if \<not> live then (None, d') else (map_option fst (dget d' key), d'))"

definition mem_set :: "store \<Rightarrow> rat \<Rightarrow> string \<Rightarrow> string \<Rightarrow> int option \<Rightarrow> store" where
  "mem_set d now key value ttl = dset d key (value, deadline now ttl)"

definition mem_set_if_not_exists ::
  "store \<Rightarrow> rat \<Rightarrow> string \<Rightarrow> string \<Rightarrow> int option \<Rightarrow> bool \<times> store" where
  "mem_set_if_not_exists d now key value ttl = (let (live, d') = is_live d now key in
     if live then (False, d') else (True, dset d' key (value, deadline now ttl)))"

definition int_error :: "string \<Rightarrow> py_exn" where
  "int_error s = ValueError (''invalid literal for int() with base 10: '' @ s)"

definition mem_incr :: "store \<Rightarrow> rat \<Rightarrow> string \<Rightarrow> int option \<Rightarrow> int result \<times> store" where
  "mem_incr d now key ttl = (let (live, d') = is_live d now key in
     if live then
       (case dget d' key of
          None \<Rightarrow> (Inl (KeyError key), d')
        | Some (v, expiry) \<Rightarrow>
            (case py_int v of
               None \<Rightarrow> (Inl (int_error v), d')
             | Some current \<Rightarrow>
                 (Inr (current + 1), dset d' key (int_str (current + 1), expiry))))
     else (Inr 1, dset d' key (''1'', deadline now ttl)))"

definition mem_delete :: "store \<Rightarrow> rat \<Rightarrow> string \<Rightarrow> store" where
  "mem_delete d now key = ddel d key"

subsection \<open>The interface\<close>

text \<open>What is left of an entry at time \<open>t\<close>: nothing once its deadline has come.\<close>

definition fresh :: "rat \<Rightarrow> string \<times> rat option \<Rightarrow> (string \<times> rat option) option" where
  "fresh t e = (case snd e of None \<Rightarrow> Some e | Some d \<Rightarrow> if t \<ge> d then None else Some e)"

lemma fresh_Some: "fresh t e = Some e' \<Longrightarrow> e' = e"
  by (auto simp: fresh_def split: option.splits if_splits)

lemma fresh_mono: "t \<le> t' \<Longrightarrow> fresh t e = None \<Longrightarrow> fresh t' e = None"
  by (auto simp: fresh_def split: option.splits if_splits)

lemma fresh_no_deadline [simp]: "fresh t (v, None) = Some (v, None)"
  by (simp add: fresh_def)

lemma fresh_before [simp]: "t < d \<Longrightarrow> fresh t (v, Some d) = Some (v, Some d)"
  by (simp add: fresh_def)

lemma fresh_after [simp]: "d \<le> t \<Longrightarrow> fresh t (v, Some d) = None"
  by (simp add: fresh_def)

text \<open>
  \<open>entry s t k\<close> is the live value and deadline under \<open>k\<close> at time \<open>t\<close>. The laws are those
  \<open>storage/base.py\<close> promises: reads see the last write until it expires, \<open>set_if_not_exists\<close>
  writes only where nothing lives, \<open>incr\<close> keeps the deadline of an existing counter.
\<close>

locale kv_store =
  fixes get :: "'s \<Rightarrow> rat \<Rightarrow> string \<Rightarrow> string option \<times> 's"
    and set_value :: "'s \<Rightarrow> rat \<Rightarrow> string \<Rightarrow> string \<Rightarrow> int option \<Rightarrow> 's"
    and setnx :: "'s \<Rightarrow> rat \<Rightarrow> string \<Rightarrow> string \<Rightarrow> int option \<Rightarrow> bool \<times> 's"
    and incr :: "'s \<Rightarrow> rat \<Rightarrow> string \<Rightarrow> int option \<Rightarrow> int result \<times> 's"
    and del :: "'s \<Rightarrow> rat \<Rightarrow> string \<Rightarrow> 's"
    and entry :: "'s \<Rightarrow> rat \<Rightarrow> string \<Rightarrow> (string \<times> rat option) option"
  assumes entry_later: "t \<le> t' \<Longrightarrow> entry s t' k = Option.bind (entry s t k) (fresh t')"
    and get_value: "fst (get s t k) = map_option fst (entry s t k)"
    and get_entry: "t \<le> t' \<Longrightarrow> entry (snd (get s t k)) t' k' = entry s t' k'"
    and set_entry: "t \<le> t' \<Longrightarrow> entry (set_value s t k v ttl) t' k' =
        (if k' = k then fresh t' (v, deadline t ttl) else entry s t' k')"
    and setnx_result: "fst (setnx s t k v ttl) = (entry s t k = None)"
    and setnx_entry: "t \<le> t' \<Longrightarrow> entry (snd (setnx s t k v ttl)) t' k' =
        (if k' = k \<and> entry s t k = None then fresh t' (v, deadline t ttl) else entry s t' k')"
    and incr_new: "entry s t k = None \<Longrightarrow> fst (incr s t k ttl) = Inr 1"
    and incr_new_entry: "entry s t k = None \<Longrightarrow> t \<le> t' \<Longrightarrow> entry (snd (incr s t k ttl)) t' k' =
        (if k' = k then fresh t' (''1'', deadline t ttl) else entry s t' k')"
    and incr_old: "entry s t k = Some (int_str n, e) \<Longrightarrow> fst (incr s t k ttl) = Inr (n + 1)"
    and incr_old_entry: "entry s t k = Some (int_str n, e) \<Longrightarrow> t \<le> t' \<Longrightarrow>
        entry (snd (incr s t k ttl)) t' k' =
        (if k' = k then fresh t' (int_str (n + 1), e) else entry s t' k')"
    and incr_other: "t \<le> t' \<Longrightarrow> k' \<noteq> k \<Longrightarrow> entry (snd (incr s t k ttl)) t' k' = entry s t' k'"
    and del_entry: "t \<le> t' \<Longrightarrow> entry (del s t k) t' k' = (if k' = k then None else entry s t' k')"
begin

lemma read_your_write:
  "t \<le> t' \<Longrightarrow> deadline t ttl = None \<or> (\<exists>d. deadline t ttl = Some d \<and> t' < d) \<Longrightarrow>
   fst (get (set_value s t k v ttl) t' k) = Some v"
  by (auto simp: get_value set_entry)

lemma read_deleted: "t \<le> t' \<Longrightarrow> fst (get (del s t k) t' k) = None"
  by (simp add: get_value del_entry)

lemma expired_read:
  "t \<le> t' \<Longrightarrow> deadline t ttl = Some d \<Longrightarrow> d \<le> t' \<Longrightarrow> fst (get (set_value s t k v ttl) t' k) = None"
  by (simp add: get_value set_entry)

end

subsection \<open>Claiming a key\<close>

text \<open>
  A sequence of \<open>set_if_not_exists\<close> calls for one key at the given times, as the duplicate
  check of the receiver makes one per delivery attempt; the list of their answers.
\<close>

fun claim_run ::
  "('s \<Rightarrow> rat \<Rightarrow> string \<Rightarrow> string \<Rightarrow> int option \<Rightarrow> bool \<times> 's) \<Rightarrow>
   's \<Rightarrow> string \<Rightarrow> string \<Rightarrow> int option \<Rightarrow> rat list \<Rightarrow> bool list" where
  "claim_run setnx s k v ttl [] = []"
| "claim_run setnx s k v ttl (t # ts) =
     (let (b, s') = setnx s t k v ttl in b # claim_run setnx s' k v ttl ts)"

context kv_store
begin

lemma claim_taken:
  assumes "entry s t0 k = Some (w, Some d)" and "sorted (t0 # ts)" and "\<forall>t\<in>set ts. t < d"
  shows "claim_run setnx s k v ttl ts = replicate (length ts) False"
  using assms
proof (induction ts arbitrary: s t0)
  case Nil
  then show ?case by simp
next
  case (Cons t ts)
  have e: "entry s t k = Some (w, Some d)"
    using Cons.prems entry_later [of t0 t s k] by simp
  obtain b s' where bs: "setnx s t k v ttl = (b, s')" by (cases "setnx s t k v ttl")
  have "\<not> b" using setnx_result [of s t k v ttl] e bs by simp
  moreover have "entry s' t k = Some (w, Some d)"
    using setnx_entry [of t t s k v ttl k] e bs by simp
  then have "claim_run setnx s' k v ttl ts = replicate (length ts) False"
    using Cons.IH Cons.prems by simp
  ultimately show ?case using bs by simp
qed

lemma claim_once:
  assumes "entry s t k = None" and "sorted (t # ts)" and "0 < n" and "\<forall>u\<in>set ts. u < t + of_int n"
  shows "claim_run setnx s k v (Some n) (t # ts) = True # replicate (length ts) False"
proof -
  obtain b s' where bs: "setnx s t k v (Some n) = (b, s')" by (cases "setnx s t k v (Some n)")
  have "b" using setnx_result [of s t k v "Some n"] assms(1) bs by simp
  moreover have "entry s' t k = Some (v, Some (t + of_int n))"
    using setnx_entry [of t t s k v "Some n" k] assms(1,3) bs by (simp add: deadline_def)
  then have "claim_run setnx s' k v (Some n) ts = replicate (length ts) False"
    using assms(2,4) by (rule claim_taken)
  ultimately show ?thesis using bs by simp
qed

end

subsection \<open>InMemoryStore provides the interface\<close>

definition mem_entry :: "store \<Rightarrow> rat \<Rightarrow> string \<Rightarrow> (string \<times> rat option) option" where
  "mem_entry d t k = Option.bind (dget d k) (fresh t)"

lemma is_live_iff: "fst (is_live d t k) \<longleftrightarrow> mem_entry d t k \<noteq> None"
  by (auto simp: is_live_def mem_entry_def fresh_def split: option.splits)

lemma is_live_entry: "t \<le> t' \<Longrightarrow> mem_entry (snd (is_live d t k)) t' k' = mem_entry d t' k'"
  by (auto simp: is_live_def mem_entry_def fresh_def split: option.splits)

lemma is_live_lookup: "fst (is_live d t k) \<Longrightarrow> dget (snd (is_live d t k)) k = mem_entry d t k"
  by (auto simp: is_live_def mem_entry_def fresh_def split: option.splits if_splits)

lemma mem_entry_dset:
  "mem_entry (dset d k e) t k' = (if k' = k then fresh t e else mem_entry d t k')"
  by (simp add: mem_entry_def)

lemma mem_entry_ddel: "mem_entry (ddel d k) t k' = (if k' = k then None else mem_entry d t k')"
  by (simp add: mem_entry_def)

lemmas mem_defs = mem_get_def mem_set_def mem_set_if_not_exists_def mem_incr_def mem_delete_def

lemma mem_incr_other:
  "t \<le> t' \<Longrightarrow> k' \<noteq> k \<Longrightarrow> mem_entry (snd (mem_incr d t k ttl)) t' k' = mem_entry d t' k'"
  using is_live_entry [of t t' d k k']
  by (cases "is_live d t k")
     (auto simp: mem_incr_def mem_entry_dset split: option.splits)

lemma mem_incr_live:
  assumes "mem_entry d t k = Some (int_str n, e)"
  shows "mem_incr d t k ttl = (Inr (n + 1), dset (snd (is_live d t k)) k (int_str (n + 1), e))"
proof -
  from assms have live: "fst (is_live d t k)" by (simp add: is_live_iff)
  with assms have "dget (snd (is_live d t k)) k = Some (int_str n, e)"
    by (simp add: is_live_lookup)
  with live show ?thesis by (simp add: mem_incr_def split_beta)
qed

lemma mem_incr_absent:
  "mem_entry d t k = None \<Longrightarrow>
   mem_incr d t k ttl = (Inr 1, dset (snd (is_live d t k)) k (''1'', deadline t ttl))"
  using is_live_iff [of d t k] by (simp add: mem_incr_def split_beta)

lemma mem_entry_later: "t \<le> t' \<Longrightarrow> mem_entry d t' k = Option.bind (mem_entry d t k) (fresh t')"
  by (cases "dget d k") (auto simp: mem_entry_def fresh_def split: option.splits if_splits)

lemma mem_get_result: "fst (mem_get d t k) = map_option fst (mem_entry d t k)"
  using is_live_iff [of d t k] is_live_lookup [of d t k] by (auto simp: mem_get_def split_beta)

lemma mem_get_state: "snd (mem_get d t k) = snd (is_live d t k)"
  by (simp add: mem_get_def split_beta)

lemma mem_setnx_eq:
  "mem_set_if_not_exists d t k v ttl =
     (if mem_entry d t k = None then (True, dset (snd (is_live d t k)) k (v, deadline t ttl))
      else (False, snd (is_live d t k)))"
  using is_live_iff [of d t k] by (simp add: mem_set_if_not_exists_def split_beta)

interpretation mem: kv_store mem_get mem_set mem_set_if_not_exists mem_incr mem_delete mem_entry
proof unfold_locales
  fix s :: store and t t' :: rat and k k' v :: string and ttl :: "int option" and n :: int
    and e :: "rat option"
  show "mem_entry s t' k = Option.bind (mem_entry s t k) (fresh t')" if "t \<le> t'"
    using that by (rule mem_entry_later)
  show "fst (mem_get s t k) = map_option fst (mem_entry s t k)"
    by (rule mem_get_result)
  show "mem_entry (snd (mem_get s t k)) t' k' = mem_entry s t' k'" if "t \<le> t'"
    using that by (simp add: mem_get_state is_live_entry)
  show "mem_entry (mem_set s t k v ttl) t' k' =
      (if k' = k then fresh t' (v, deadline t ttl) else mem_entry s t' k')" if "t \<le> t'"
    by (simp add: mem_set_def mem_entry_dset)
  show "fst (mem_set_if_not_exists s t k v ttl) = (mem_entry s t k = None)"
    by (simp add: mem_setnx_eq)
  show "mem_entry (snd (mem_set_if_not_exists s t k v ttl)) t' k' =
      (if k' = k \<and> mem_entry s t k = None then fresh t' (v, deadline t ttl) else mem_entry s t' k')"
    if "t \<le> t'"
    using that by (auto simp: mem_setnx_eq mem_entry_dset is_live_entry)
  show "fst (mem_incr s t k ttl) = Inr 1" if "mem_entry s t k = None"
    using that by (simp add: mem_incr_absent)
  show "mem_entry (snd (mem_incr s t k ttl)) t' k' =
      (if k' = k then fresh t' (''1'', deadline t ttl) else mem_entry s t' k')"
    if "mem_entry s t k = None" "t \<le> t'"
    using that by (simp add: mem_incr_absent mem_entry_dset is_live_entry)
  show "fst (mem_incr s t k ttl) = Inr (n + 1)" if "mem_entry s t k = Some (int_str n, e)"
    using that by (simp add: mem_incr_live)
  show "mem_entry (snd (mem_incr s t k ttl)) t' k' =
      (if k' = k then fresh t' (int_str (n + 1), e) else mem_entry s t' k')"
    if "mem_entry s t k = Some (int_str n, e)" "t \<le> t'"
    using that by (simp add: mem_incr_live mem_entry_dset is_live_entry)
  show "mem_entry (snd (mem_incr s t k ttl)) t' k' = mem_entry s t' k'" if "t \<le> t'" "k' \<noteq> k"
    using that by (rule mem_incr_other)
  show "mem_entry (mem_delete s t k) t' k' = (if k' = k then None else mem_entry s t' k')"
    if "t \<le> t'"
    by (simp add: mem_delete_def mem_entry_ddel)
qed

lemma empty_store_entry [simp]: "mem_entry empty_store t k = None"
  by (simp add: empty_store_def mem_entry_def)

text \<open>The store never holds a key twice.\<close>

lemma is_live_dict_ok: "dict_ok d \<Longrightarrow> dict_ok (snd (is_live d t k))"
  by (auto simp: is_live_def split: option.splits)

lemma mem_ops_dict_ok [inv_intros]:
  assumes "dict_ok d"
  shows "dict_ok (snd (mem_get d t k))" "dict_ok (mem_set d t k v ttl)"
    "dict_ok (snd (mem_set_if_not_exists d t k v ttl))" "dict_ok (snd (mem_incr d t k ttl))"
    "dict_ok (mem_delete d t k)"
  using assms is_live_dict_ok [of d t k]
  by (auto simp: mem_get_state mem_set_def mem_setnx_eq mem_delete_def mem_incr_def split_beta
      split: option.splits)

text \<open>Of any number of delivery attempts that claim one key in \<open>InMemoryStore\<close> within the key's
  time to live, exactly the first succeeds.\<close>
theorem claim_exactly_once:
  assumes "mem_entry s t k = None" and "sorted (t # ts)" and "0 < n"
    and "\<forall>u\<in>set ts. u < t + of_int n"
  shows "claim_run mem_set_if_not_exists s k v (Some n) (t # ts) = True # replicate (length ts) False"
  using assms by (rule mem.claim_once)

theorem claim_exactly_once_witness:
  "claim_run mem_set_if_not_exists empty_store ''msg'' ''1'' (Some 10) [0, 3, 9] = [True, False, False]"
  using claim_exactly_once [of empty_store 0 "''msg''" "[3, 9]" 10 "''1''"]
  by (simp add: numeral_2_eq_2)

end
