(* ===== verification/RateLimit.thy ===== *)
theory RateLimit
  imports KVStore
begin

text \<open>
  \<open>security/rate_limit.py\<close>: the fixed-window limiter over any store with an atomic \<open>incr\<close>, and
  \<open>multi_tenancy/rate_limiter.py\<close>: the per-tenant, per-minute quota in front of it. The limiter's
  lemmas are proved once, for every \<open>kv_store\<close>, and used on \<open>InMemoryStore\<close>.
\<close>

subsection \<open>RateLimiter\<close>

record rate_limiter =
  max_requests :: int
  window_seconds :: int
  key_prefix :: string

datatype limit_error =
    RateLimitExceeded string int int
  | StoreError py_exn

definition rl_key :: "rate_limiter \<Rightarrow> string \<Rightarrow> string" where
  "rl_key rl identifier = key_prefix rl @ '':'' @ identifier"

definition rl_check ::
  "('s \<Rightarrow> rat \<Rightarrow> string \<Rightarrow> int option \<Rightarrow> int result \<times> 's) \<Rightarrow>
   rate_limiter \<Rightarrow> 's \<Rightarrow> rat \<Rightarrow> string \<Rightarrow> (limit_error + unit) \<times> 's" where
  "rl_check incr rl s now identifier =
     (case incr s now (rl_key rl identifier) (Some (window_seconds rl)) of
        (Inl e, s') \<Rightarrow> (Inl (StoreError e), s')
      | (Inr current, s') \<Rightarrow>
          (if current > max_requests rl
           then (Inl (RateLimitExceeded identifier (max_requests rl) (window_seconds rl)), s')
           else (Inr (), s')))"

text \<open>A sequence of requests, each a time and an identifier, and the limiter's answers.\<close>

fun rl_run ::
  "('s \<Rightarrow> rat \<Rightarrow> string \<Rightarrow> int option \<Rightarrow> int result \<times> 's) \<Rightarrow>
   rate_limiter \<Rightarrow> 's \<Rightarrow> (rat \<times> string) list \<Rightarrow> (limit_error + unit) list" where
  "rl_run incr rl s [] = []"
| "rl_run incr rl s ((t, i) # evs) =
     (let (r, s') = rl_check incr rl s t i in r # rl_run incr rl s' evs)"

text \<open>How many of the requests of one identifier were let through.\<close>

definition admitted :: "string \<Rightarrow> (rat \<times> string) list \<Rightarrow> (limit_error + unit) list \<Rightarrow> nat" where
  "admitted i evs rs = length (filter (\<lambda>(ev, r). snd ev = i \<and> is_ok r) (zip evs rs))"

definition requests_of :: "string \<Rightarrow> (rat \<times> string) list \<Rightarrow> nat" where
  "requests_of i evs = length (filter (\<lambda>ev. snd ev = i) evs)"

lemma rl_key_inject [simp]: "rl_key rl i = rl_key rl j \<longleftrightarrow> i = j"
  by (simp add: rl_key_def)

lemma length_rl_run [simp]: "length (rl_run incr rl s evs) = length evs"
  by (induction evs arbitrary: s) (auto split: prod.splits)

lemma admitted_Cons:
  "admitted i (ev # evs) (r # rs) = (if snd ev = i \<and> is_ok r then 1 else 0) + admitted i evs rs"
  by (simp add: admitted_def)

lemma requests_of_Cons:
  "requests_of i (ev # evs) = (if snd ev = i then 1 else 0) + requests_of i evs"
  by (simp add: requests_of_def)

lemma admitted_Nil [simp]: "admitted i [] rs = 0"
  by (simp add: admitted_def)

lemma requests_of_Nil [simp]: "requests_of i [] = 0"
  by (simp add: requests_of_def)

context kv_store
begin

lemma check_first:
  assumes "entry s t (rl_key rl i) = None"
  shows "is_ok (fst (rl_check incr rl s t i)) \<longleftrightarrow> 1 \<le> max_requests rl"
proof -
  obtain r s' where rs: "incr s t (rl_key rl i) (Some (window_seconds rl)) = (r, s')"
    by (cases "incr s t (rl_key rl i) (Some (window_seconds rl))")
  with incr_new [OF assms, of "Some (window_seconds rl)"] have "r = Inr 1" by simp
  with rs show ?thesis by (simp add: rl_check_def)
qed

lemma check_next:
  assumes "entry s t (rl_key rl i) = Some (int_str n, e)"
  shows "is_ok (fst (rl_check incr rl s t i)) \<longleftrightarrow> n + 1 \<le> max_requests rl"
proof -
  obtain r s' where rs: "incr s t (rl_key rl i) (Some (window_seconds rl)) = (r, s')"
    by (cases "incr s t (rl_key rl i) (Some (window_seconds rl))")
  with incr_old [OF assms, of "Some (window_seconds rl)"] have "r = Inr (n + 1)" by simp
  with rs show ?thesis by (simp add: rl_check_def)
qed

lemma check_state:
  "snd (rl_check incr rl s t i) = snd (incr s t (rl_key rl i) (Some (window_seconds rl)))"
  by (auto simp: rl_check_def split: prod.splits sum.splits)

text \<open>Once the window has a counter, it admits what is left of the limit, whoever else asks.\<close>

lemma run_counted:
  assumes "entry s t0 (rl_key rl i) = Some (int_str (int n), Some d)"
    and "sorted (t0 # map fst evs)" and "\<forall>ev\<in>set evs. fst ev < d" and "0 \<le> max_requests rl"
  shows "admitted i evs (rl_run incr rl s evs) = min (nat (max_requests rl) - n) (requests_of i evs)"
  using assms
proof (induction evs arbitrary: s t0 n)
  case Nil
  then show ?case by simp
next
  case (Cons ev evs)
  obtain t j where ev: "ev = (t, j)" by (cases ev)
  have tt: "t0 \<le> t" "t < d" and so: "sorted (t # map fst evs)"
    and later: "\<forall>ev\<in>set evs. fst ev < d"
    using Cons.prems(2,3) ev by auto
  have e: "entry s t (rl_key rl i) = Some (int_str (int n), Some d)"
    using entry_later [OF tt(1), of s "rl_key rl i"] Cons.prems(1) tt by simp
  obtain r s' where rs: "rl_check incr rl s t j = (r, s')" by (cases "rl_check incr rl s t j")
  have s': "s' = snd (incr s t (rl_key rl j) (Some (window_seconds rl)))"
    using check_state [of rl s t j] rs by simp
  show ?case
  proof (cases "j = i")
    case True
    have "entry s' t (rl_key rl i) = Some (int_str (int (Suc n)), Some d)"
      using incr_old_entry [OF e, of t "Some (window_seconds rl)" "rl_key rl i"] s' True tt
      by (simp add: add.commute)
    from Cons.IH [OF this so later Cons.prems(4)] have IH:
      "admitted i evs (rl_run incr rl s' evs) = min (nat (max_requests rl) - Suc n) (requests_of i evs)" .
    have "is_ok r \<longleftrightarrow> int n + 1 \<le> max_requests rl"
      using check_next [OF e] rs True by simp
    with IH ev rs True show ?thesis by (auto simp: admitted_Cons requests_of_Cons)
  next
    case False
    then have "entry s' t (rl_key rl i) = Some (int_str (int n), Some d)"
      using incr_other [of t t "rl_key rl i" "rl_key rl j" s] s' e by simp
    from Cons.IH [OF this so later Cons.prems(4)] ev rs False show ?thesis
      by (simp add: admitted_Cons requests_of_Cons)
  qed
qed

text \<open>From an idle identifier on, one window admits exactly the limit, or all if there are fewer.\<close>

lemma run_window:
  assumes "entry s t0 (rl_key rl i) = None" and "0 < window_seconds rl" and "0 \<le> max_requests rl"
    and "sorted (t0 # map fst evs)" and "\<forall>ev\<in>set evs. fst ev < t0 + of_int (window_seconds rl)"
  shows "admitted i evs (rl_run incr rl s evs) = min (nat (max_requests rl)) (requests_of i evs)"
  using assms
proof (induction evs arbitrary: s t0)
  case Nil
  then show ?case by simp
next
  case (Cons ev evs)
  obtain t j where ev: "ev = (t, j)" by (cases ev)
  have tt: "t0 \<le> t" and so: "sorted (t # map fst evs)"
    and later: "\<forall>ev\<in>set evs. fst ev < t + of_int (window_seconds rl)"
    using Cons.prems(4,5) ev by force+
  have e: "entry s t (rl_key rl i) = None"
    using entry_later [OF tt, of s "rl_key rl i"] Cons.prems(1) by simp
  obtain r s' where rs: "rl_check incr rl s t j = (r, s')" by (cases "rl_check incr rl s t j")
  have s': "s' = snd (incr s t (rl_key rl j) (Some (window_seconds rl)))"
    using check_state [of rl s t j] rs by simp
  show ?case
  proof (cases "j = i")
    case True
    have "entry s' t (rl_key rl i) = Some (int_str (int 1), Some (t + of_int (window_seconds rl)))"
      using incr_new_entry [OF e, of t "Some (window_seconds rl)" "rl_key rl i"] s' True Cons.prems(2)
      by (simp add: deadline_def int_str_one)
    from run_counted [OF this so later Cons.prems(3)] have IH:
      "admitted i evs (rl_run incr rl s' evs) = min (nat (max_requests rl) - 1) (requests_of i evs)" .
    have "is_ok r \<longleftrightarrow> 1 \<le> max_requests rl"
      using check_first [OF e] rs True by simp
    with IH ev rs True show ?thesis by (auto simp: admitted_Cons requests_of_Cons)
  next
    case False
    then have "entry s' t (rl_key rl i) = None"
      using incr_other [of t t "rl_key rl i" "rl_key rl j" s] s' e by simp
    from Cons.IH [OF this Cons.prems(2,3) so later] ev rs False show ?thesis
      by (simp add: admitted_Cons requests_of_Cons)
  qed
qed

end

text \<open>C5: Over \<open>InMemoryStore\<close>, within one window after an identifier was idle the limiter admits exactly
  the configured number of its requests (all of them if there are fewer), whatever requests of
  other identifiers are interleaved.\<close>
theorem window_admits_limit:
  assumes "mem_entry s t0 (rl_key rl i) = None" and "0 < window_seconds rl" and "0 \<le> max_requests rl"
    and "sorted (t0 # map fst evs)" and "\<forall>ev\<in>set evs. fst ev < t0 + of_int (window_seconds rl)"
  shows "admitted i evs (rl_run mem_incr rl s evs) = min (nat (max_requests rl)) (requests_of i evs)"
  using assms by (rule mem.run_window)

theorem window_admits_limit_witness:
  "admitted ''ip'' [(1, ''ip''), (2, ''other''), (3, ''ip''), (4, ''ip'')]
     (rl_run mem_incr \<lparr>max_requests = 2, window_seconds = 60, key_prefix = ''rl''\<rparr> empty_store
        [(1, ''ip''), (2, ''other''), (3, ''ip''), (4, ''ip'')]) = 2"
  using window_admits_limit [of empty_store 0
      "\<lparr>max_requests = 2, window_seconds = 60, key_prefix = ''rl''\<rparr>" "''ip''"
      "[(1, ''ip''), (2, ''other''), (3, ''ip''), (4, ''ip'')]"]
  by (simp add: requests_of_def)

subsection \<open>TenantRateLimiter\<close>

text \<open>\<open>_tenant_counts\<close>: the requests of a tenant in a minute, keyed by both.\<close>

type_synonym tenant_counts = "(string \<times> int, int) dict"

definition minute_window :: "rat \<Rightarrow> int" where
  "minute_window now = \<lfloor>now / 60\<rfloor>"

definition check_tenant_rate_limit ::
  "tenant_counts \<Rightarrow> rat \<Rightarrow> string \<Rightarrow> int \<Rightarrow> (limit_error + unit) \<times> tenant_counts" where
  "check_tenant_rate_limit counts now tenant_id max_rpm =
     (let mw = minute_window now;
          key = (tenant_id, mw);
          counts' = filter (\<lambda>(k, _). \<not> snd k < mw - 2) counts;
          current = dgetd counts' key 0
      in if current \<ge> max_rpm then (Inl (RateLimitExceeded tenant_id max_rpm 60), counts')
         else (Inr (), dset counts' key (current + 1)))"

text \<open>\<open>check_rate_limit\<close>: the source address first, then the tenant, if one is named.\<close>

definition check_rate_limit ::
  "('s \<Rightarrow> rat \<Rightarrow> string \<Rightarrow> int option \<Rightarrow> int result \<times> 's) \<Rightarrow> rate_limiter option \<Rightarrow>
   's \<Rightarrow> tenant_counts \<Rightarrow> rat \<Rightarrow> string \<Rightarrow> string option \<Rightarrow> int \<Rightarrow>
   (limit_error + unit) \<times> 's \<times> tenant_counts" where
  "check_rate_limit incr fallback s counts now source_ip tenant_id max_rpm =
     (let (r, s') = (case fallback of None \<Rightarrow> (Inr (), s) | Some rl \<Rightarrow> rl_check incr rl s now source_ip)
      in case r of
           Inl e \<Rightarrow> (Inl e, s', counts)
         | Inr _ \<Rightarrow>
             (case tenant_id of
                None \<Rightarrow> (Inr (), s', counts)
              | Some t \<Rightarrow>
                  if t = [] then (Inr (), s', counts)
                  else let (r', counts') = check_tenant_rate_limit counts now t max_rpm
                       in (r', s', counts')))"

definition tenant_count :: "tenant_counts \<Rightarrow> string \<Rightarrow> int \<Rightarrow> int" where
  "tenant_count counts t mw = dgetd counts (t, mw) 0"

lemma tenant_count_after:
  assumes "minute_window now - 2 \<le> mw"
  shows "tenant_count (snd (check_tenant_rate_limit counts now t m)) t' mw =
     tenant_count counts t' mw +
     (if t' = t \<and> mw = minute_window now \<and> is_ok (fst (check_tenant_rate_limit counts now t m))
      then 1 else 0)"
  using assms by (auto simp: check_tenant_rate_limit_def tenant_count_def Let_def dgetd_def)

lemma tenant_check_ok:
  "is_ok (fst (check_tenant_rate_limit counts now t m)) \<longleftrightarrow>
   tenant_count counts t (minute_window now) < m"
  by (auto simp: check_tenant_rate_limit_def tenant_count_def Let_def dgetd_def)

text \<open>Every counter stays between zero and the quota, however often a tenant asks.\<close>

definition quota_inv :: "int \<Rightarrow> tenant_counts \<Rightarrow> bool" where
  "quota_inv m counts \<longleftrightarrow> (\<forall>t mw. 0 \<le> tenant_count counts t mw \<and> tenant_count counts t mw \<le> m)"

lemma tenant_count_dropped:
  "mw < minute_window now - 2 \<Longrightarrow>
   tenant_count (snd (check_tenant_rate_limit counts now t m)) t' mw = 0"
  by (auto simp: check_tenant_rate_limit_def tenant_count_def Let_def dgetd_def)

lemma quota_inv_step [inv_intros]:
  assumes "quota_inv m counts"
  shows "quota_inv m (snd (check_tenant_rate_limit counts now t m))"
  unfolding quota_inv_def
proof (intro allI)
  fix t' mw
  have b: "0 \<le> tenant_count counts t' mw" "tenant_count counts t' mw \<le> m"
    using assms by (simp_all add: quota_inv_def)
  show "0 \<le> tenant_count (snd (check_tenant_rate_limit counts now t m)) t' mw \<and>
        tenant_count (snd (check_tenant_rate_limit counts now t m)) t' mw \<le> m"
  proof (cases "mw < minute_window now - 2")
    case True
    with b show ?thesis by (simp add: tenant_count_dropped)
  next
    case False
    then show ?thesis
      using b tenant_check_ok [of counts now t m] by (auto simp: tenant_count_after)
  qed
qed

fun tenant_run ::
  "tenant_counts \<Rightarrow> int \<Rightarrow> (rat \<times> string) list \<Rightarrow> (limit_error + unit) list" where
  "tenant_run counts m [] = []"
| "tenant_run counts m ((now, t) # evs) =
     (let (r, c) = check_tenant_rate_limit counts now t m in r # tenant_run c m evs)"

lemma length_tenant_run [simp]: "length (tenant_run counts m evs) = length evs"
  by (induction evs arbitrary: counts) (auto split: prod.splits)

text \<open>In any one clock minute a tenant gets exactly its quota of admitted messages (all of them if it
  sends fewer), no matter how many messages other tenants send in that minute.\<close>
theorem tenant_quota_per_minute:
  assumes "\<forall>ev\<in>set evs. minute_window (fst ev) = mw" and "0 \<le> m" and "tenant_count counts t mw = int n"
  shows "admitted t evs (tenant_run counts m evs) = min (nat m - n) (requests_of t evs)"
  using assms
proof (induction evs arbitrary: counts n)
  case Nil
  then show ?case by simp
next
  case (Cons ev evs)
  obtain now u where ev: "ev = (now, u)" by (cases ev)
  obtain r c where rc: "check_tenant_rate_limit counts now u m = (r, c)"
    by (cases "check_tenant_rate_limit counts now u m")
  have mw: "minute_window now = mw" and rest: "\<forall>ev\<in>set evs. minute_window (fst ev) = mw"
    using Cons.prems(1) ev by auto
  have cnt: "tenant_count c t mw = int n + (if t = u \<and> is_ok r then 1 else 0)"
    using tenant_count_after [of now mw counts u m t] mw rc Cons.prems(3) by simp
  have ok: "is_ok r \<longleftrightarrow> tenant_count counts u mw < m"
    using tenant_check_ok [of counts now u m] mw rc by simp
  show ?case
  proof (cases "u = t \<and> is_ok r")
    case True
    with cnt have "tenant_count c t mw = int (Suc n)" by simp
    from Cons.IH [OF rest Cons.prems(2) this] True ok Cons.prems(3) ev rc show ?thesis
      by (auto simp: admitted_Cons requests_of_Cons)
  next
    case False
    with cnt have "tenant_count c t mw = int n" by auto
    from Cons.IH [OF rest Cons.prems(2) this] False ok Cons.prems(3) ev rc show ?thesis
      by (auto simp: admitted_Cons requests_of_Cons)
  qed
qed

theorem tenant_quota_per_minute_witness:
  "admitted ''a'' [(61, ''a''), (62, ''b''), (63, ''a'')]
     (tenant_run [] 1 [(61, ''a''), (62, ''b''), (63, ''a'')]) = 1"
proof -
  have mw: "minute_window 61 = 1" "minute_window 62 = 1" "minute_window 63 = 1"
    by (simp_all add: minute_window_def floor_eq_iff)
  show ?thesis
    using tenant_quota_per_minute [of "[(61, ''a''), (62, ''b''), (63, ''a'')]" 1 1 "[]" "''a''" 0] mw
    by (simp add: requests_of_def tenant_count_def)
qed

end
