(* ===== verification/IPAddress.thy ===== *)
theory IPAddress
  imports Prelude "HOL-Library.Word"
begin

text \<open>
  What the gateway uses of Python's \<open>ipaddress\<close>: \<open>ip_address\<close>, \<open>ip_network(..., strict=False)\<close>
  and membership, for both versions, and the printed form of IPv4 addresses. Addresses are words
  of 32 and 128 bits; \<^term>\<open>None\<close> stands for the \<open>ValueError\<close> of the parser. The users are
  \<open>auth_checker/spf.py\<close>, \<open>decision_engine/allow_block.py\<close>, \<open>security/webhook_auth.py\<close> and
  \<open>auth_checker/sender_baseline.py\<close>.
\<close>

unbundle bit_operations_syntax

subsection \<open>Addresses\<close>

datatype ip_addr =
    IPv4 "32 word"
  | IPv6 "128 word" "string option"

definition parse_octet :: "string \<Rightarrow> nat option" where
  "parse_octet s =
     (if s \<noteq> [] \<and> list_all is_digit s \<and> length s \<le> 3 \<and>
         (s = ''0'' \<or> hd s \<noteq> CHR ''0'') \<and> digits_val s \<le> 255
      then Some (digits_val s) else None)"

definition parse_ipv4 :: "string \<Rightarrow> 32 word option" where
  "parse_ipv4 s = (case map parse_octet (split_char (CHR ''.'') s) of
       [Some a, Some b, Some c, Some d] \<Rightarrow>
         Some (((word_of_nat a * 256 + word_of_nat b) * 256 + word_of_nat c) * 256 + word_of_nat d)
     | _ \<Rightarrow> None)"

text \<open>One part between colons: empty, a hextet, or text that is neither.\<close>

datatype hextet = HEmpty | HVal "128 word" | HBad

definition parse_hextet :: "string \<Rightarrow> hextet" where
  "parse_hextet s =
     (if s = [] then HEmpty
      else if length s \<le> 4 \<and> list_all (\<lambda>c. hex_val c \<noteq> None) s
      then HVal (foldl (\<lambda>acc c. 16 * acc + word_of_nat (the (hex_val c))) 0 s)
      else HBad)"

fun hextets_val :: "hextet list \<Rightarrow> 128 word \<Rightarrow> 128 word option" where
  "hextets_val [] acc = Some acc"
| "hextets_val (HVal v # hs) acc = hextets_val hs (push_bit 16 acc OR v)"
| "hextets_val (_ # hs) acc = None"

text \<open>The parts of an IPv6 address; a dotted last part counts as two hextets.\<close>

definition ipv6_parts :: "string list \<Rightarrow> hextet list option" where
  "ipv6_parts strs =
     (if CHR ''.'' \<in> set (last strs)
      then (case parse_ipv4 (last strs) of
              None \<Rightarrow> None
            | Some w \<Rightarrow> Some (map parse_hextet (butlast strs) @
                             [HVal (ucast (drop_bit 16 w)), HVal (ucast (w AND 65535))]))
      else Some (map parse_hextet strs))"

definition ipv6_val :: "hextet list \<Rightarrow> 128 word option" where
  "ipv6_val parts =
     (if length parts > 9 then None else
      case filter (\<lambda>i. parts ! i = HEmpty) [1..<length parts - 1] of
        [] \<Rightarrow> if length parts = 8 \<and> hd parts \<noteq> HEmpty \<and> last parts \<noteq> HEmpty
              then hextets_val parts 0 else None
      | [k] \<Rightarrow>
          let hi = (if hd parts = HEmpty then k - 1 else k);
              lo = (if last parts = HEmpty then length parts - k - 2 else length parts - k - 1)
          in if (hd parts = HEmpty \<and> hi \<noteq> 0) \<or> (last parts = HEmpty \<and> lo \<noteq> 0) \<or> hi + lo > 7
             then None
             else (case hextets_val (take hi parts) 0 of
                     None \<Rightarrow> None
                   | Some h \<Rightarrow>
                       hextets_val (drop (length parts - lo) parts) (push_bit (16 * (8 - (hi + lo))) h))
      | _ \<Rightarrow> None)"

definition parse_ipv6 :: "string \<Rightarrow> (128 word \<times> string option) option" where
  "parse_ipv6 s =
     (let (addr, scope) = (case cut (CHR ''%'') s of None \<Rightarrow> (s, None) | Some (a, z) \<Rightarrow> (a, Some z));
          strs = split_char (CHR '':'') addr
      in if CHR ''/'' \<in> set s \<or> scope = Some [] \<or>
            (case scope of None \<Rightarrow> False | Some z \<Rightarrow> CHR ''%'' \<in> set z) \<or> length strs < 3
         then None
         else (case Option.bind (ipv6_parts strs) ipv6_val of
                 None \<Rightarrow> None
               | Some w \<Rightarrow> Some (w, scope)))"

text \<open>\<open>ipaddress.ip_address(s)\<close>\<close>

definition ip_address :: "string \<Rightarrow> ip_addr option" where
  "ip_address s = (case parse_ipv4 s of
       Some w \<Rightarrow> Some (IPv4 w)
     | None \<Rightarrow> map_option (\<lambda>(w, scope). IPv6 w scope) (parse_ipv6 s))"

subsection \<open>Networks\<close>

text \<open>\<open>_ip_int_from_prefix\<close>: \<open>_ALL_ONES ^ (_ALL_ONES >> prefixlen)\<close>\<close>

definition netmask :: "nat \<Rightarrow> 'w::len word" where
  "netmask p = (- 1) XOR drop_bit p (- 1)"

datatype ip_network =
    Net4 "32 word" nat
  | Net6 "128 word" nat

definition parse_prefix :: "nat \<Rightarrow> string \<Rightarrow> nat option" where
  "parse_prefix maximum s =
     (if s \<noteq> [] \<and> list_all is_digit s \<and> digits_val s \<le> maximum then Some (digits_val s) else None)"

text \<open>A dotted netmask or, failing that, a dotted host mask (\<open>_prefix_from_ip_string\<close>).\<close>

definition prefix_of_mask :: "32 word \<Rightarrow> nat option" where
  "prefix_of_mask w = find (\<lambda>p. netmask p = w) [0..<33]"

definition parse_netmask4 :: "string \<Rightarrow> nat option" where
  "parse_netmask4 s = (case parse_prefix 32 s of
       Some p \<Rightarrow> Some p
     | None \<Rightarrow> (case parse_ipv4 s of
          None \<Rightarrow> None
        | Some w \<Rightarrow> (case prefix_of_mask w of
             Some p \<Rightarrow> Some p
           | None \<Rightarrow> prefix_of_mask (NOT w))))"

text \<open>\<open>ipaddress.ip_network(s, strict=False)\<close>\<close>

definition ip_network :: "string \<Rightarrow> ip_network option" where
  "ip_network s =
     (let parts = split_char (CHR ''/'') s in
      if length parts > 2 then None else
      let addr = hd parts;
          p4 = (if length parts = 1 then Some 32 else parse_netmask4 (parts ! 1));
          p6 = (if length parts = 1 then Some 128 else parse_prefix 128 (parts ! 1))
      in case (parse_ipv4 addr, p4) of
           (Some w, Some p) \<Rightarrow> Some (Net4 (w AND netmask p) p)
         | _ \<Rightarrow> (case (parse_ipv6 addr, p6) of
                  (Some (w, _), Some p) \<Rightarrow> Some (Net6 (w AND netmask p) p)
                | _ \<Rightarrow> None))"

text \<open>\<open>addr in network\<close>\<close>

fun in_network :: "ip_addr \<Rightarrow> ip_network \<Rightarrow> bool" where
  "in_network (IPv4 a) (Net4 n p) = (a AND netmask p = n)"
| "in_network (IPv6 a _) (Net6 n p) = (a AND netmask p = n)"
| "in_network _ _ = False"

lemma bit_netmask: "bit (netmask p :: 'w::len word) i \<longleftrightarrow> i < LENGTH('w) \<and> LENGTH('w) \<le> i + p"
  by (auto simp: netmask_def bit_simps)

text \<open>Two addresses agree under the mask exactly when their leading \<open>p\<close> bits agree.\<close>

lemma netmask_and_eq_iff:
  fixes a b :: "'w::len word"
  assumes "p \<le> LENGTH('w)"
  shows "a AND netmask p = b AND netmask p \<longleftrightarrow>
     drop_bit (LENGTH('w) - p) a = drop_bit (LENGTH('w) - p) b"
proof
  assume h: "a AND netmask p = b AND netmask p"
  have hb: "bit (a AND netmask p) i = bit (b AND netmask p) i" for i using h by simp
  show "drop_bit (LENGTH('w) - p) a = drop_bit (LENGTH('w) - p) b"
  proof (rule bit_word_eqI)
    fix n
    assume "n < LENGTH('w)"
    show "bit (drop_bit (LENGTH('w) - p) a) n = bit (drop_bit (LENGTH('w) - p) b) n"
      using hb [of "LENGTH('w) - p + n"] assms
      by (auto simp: bit_drop_bit_eq bit_and_iff bit_netmask dest: bit_imp_le_length)
  qed
next
  assume h: "drop_bit (LENGTH('w) - p) a = drop_bit (LENGTH('w) - p) b"
  have hb: "bit (drop_bit (LENGTH('w) - p) a) i = bit (drop_bit (LENGTH('w) - p) b) i" for i
    using h by simp
  show "a AND netmask p = b AND netmask p"
  proof (rule bit_word_eqI)
    fix n
    assume "n < LENGTH('w)"
    then show "bit (a AND netmask p) n = bit (b AND netmask p) n"
      using hb [of "n - (LENGTH('w) - p)"] assms
      by (auto simp: bit_drop_bit_eq bit_and_iff bit_netmask)
  qed
qed

subsection \<open>Printing IPv4 addresses\<close>

definition octets :: "32 word \<Rightarrow> nat list" where
  "octets w = (let n = unat w in
     [n div 16777216, n div 65536 mod 256, n div 256 mod 256, n mod 256])"

definition ipv4_str :: "32 word \<Rightarrow> string" where
  "ipv4_str w = join ''.'' (map nat_str (octets w))"

lemma nat_str_hd: "nat_str n = c # r \<Longrightarrow> c = CHR ''0'' \<Longrightarrow> n = 0"
proof (induction n arbitrary: c r rule: nat_str.induct)
  case (1 n)
  show ?case
  proof (cases "n < 10")
    case True
    with "1.prems" have "digit_char n = CHR ''0''"
      by (simp add: nat_str.simps [of n])
    then have "of_char (digit_char n) = (of_char (CHR ''0'') :: nat)" by (simp only:)
    with True show ?thesis by (simp add: digit_char_def)
  next
    case False
    obtain d ds where ds: "nat_str (n div 10) = d # ds"
      by (cases "nat_str (n div 10)") auto
    with False "1.prems" have "d = c" by (simp add: nat_str.simps [of n])
    with "1.IH" [OF False ds] "1.prems"(2) have "n div 10 = 0" by simp
    with False show ?thesis by simp
  qed
qed

lemma nat_str_zero: "nat_str 0 = ''0''"
  by code_simp

lemma length_nat_str: "n < 10 ^ Suc k \<Longrightarrow> length (nat_str n) \<le> Suc k"
proof (induction k arbitrary: n)
  case 0
  then show ?case by (simp add: nat_str.simps [of n])
next
  case (Suc k)
  show ?case
  proof (cases "n < 10")
    case True
    then show ?thesis by (simp add: nat_str.simps [of n])
  next
    case False
    from Suc.prems have "n div 10 < 10 ^ Suc k" by (simp add: less_mult_imp_div_less)
    from Suc.IH [OF this] False show ?thesis by (simp add: nat_str.simps [of n])
  qed
qed

lemma parse_octet_nat_str:
  assumes "n < 256"
  shows "parse_octet (nat_str n) = Some n"
proof -
  have dig: "list_all is_digit (nat_str n)"
    unfolding list_all_iff using nat_str_chars digit_char_props(1) by metis
  have len: "length (nat_str n) \<le> 3"
    using length_nat_str [of n 2] assms by (simp add: numeral_3_eq_3)
  have "nat_str n = ''0'' \<or> hd (nat_str n) \<noteq> CHR ''0''"
  proof (cases "hd (nat_str n) = CHR ''0''")
    case True
    then have "nat_str n = CHR ''0'' # tl (nat_str n)"
      by (metis list.collapse nat_str_nonempty)
    then have "n = 0" by (rule nat_str_hd) simp
    then show ?thesis by (simp add: nat_str_zero)
  qed simp
  with dig len assms show ?thesis by (simp add: parse_octet_def)
qed

lemma octets_val:
  "((word_of_nat (unat w div 16777216) * 256 + word_of_nat (unat w div 65536 mod 256)) * 256 +
     word_of_nat (unat w div 256 mod 256)) * 256 + word_of_nat (unat w mod 256) = (w :: 32 word)"
proof -
  have step: "n div (k * 256) * 256 + n div k mod 256 = n div k" for n k :: nat
    by (simp add: div_mult2_eq)
  have "unat w div 16777216 * 256 + unat w div 65536 mod 256 = unat w div 65536"
    "unat w div 65536 * 256 + unat w div 256 mod 256 = unat w div 256"
    using step [of "unat w" 65536] step [of "unat w" 256] by simp_all
  then have "((unat w div 16777216 * 256 + unat w div 65536 mod 256) * 256 +
     unat w div 256 mod 256) * 256 + unat w mod 256 = unat w" by simp
  then have "word_of_nat (((unat w div 16777216 * 256 + unat w div 65536 mod 256) * 256 +
     unat w div 256 mod 256) * 256 + unat w mod 256) = (word_of_nat (unat w) :: 32 word)"
    by (simp only:)
  moreover have "(word_of_nat (unat w) :: 32 word) = w" by simp
  ultimately show ?thesis by (simp only: of_nat_add of_nat_mult of_nat_numeral)
qed

lemma nat_str_no_dot: "CHR ''.'' \<notin> set (nat_str n)"
proof
  assume "CHR ''.'' \<in> set (nat_str n)"
  then obtain d where "d < 10" "CHR ''.'' = digit_char d" using nat_str_chars by blast
  then have "(of_char (CHR ''.'') :: nat) = 48 + d" by (simp add: digit_char_def)
  then show False by simp
qed

lemma parse_ipv4_str: "parse_ipv4 (ipv4_str w) = Some w"
proof -
  have "split_char (CHR ''.'') (ipv4_str w) = map nat_str (octets w)"
    unfolding ipv4_str_def using nat_str_no_dot
    by (intro split_char_join) (auto simp: octets_def Let_def)
  moreover have "unat w div 16777216 < 256"
    using unsigned_less [of w, where ?'a = nat] by (simp add: less_mult_imp_div_less)
  ultimately have "map parse_octet (split_char (CHR ''.'') (ipv4_str w)) = map Some (octets w)"
    by (simp add: octets_def Let_def parse_octet_nat_str)
  then have "map parse_octet (split_char (CHR ''.'') (ipv4_str w)) =
     [Some (unat w div 16777216), Some (unat w div 65536 mod 256),
      Some (unat w div 256 mod 256), Some (unat w mod 256)]"
    by (simp add: octets_def Let_def)
  then show ?thesis
    by (simp only: parse_ipv4_def list.case option.case octets_val)
qed

text \<open>Printing an IPv4 address and parsing the text gives the address back.\<close>
theorem ip_address_ipv4_str: "ip_address (ipv4_str w) = Some (IPv4 w)"
  by (simp add: ip_address_def parse_ipv4_str)

end
