(* ===== verification/DecisionModel.thy ===== *)
theory DecisionModel
  imports IPAddress
begin

text \<open>
  \<open>decision_engine/\<close> without the final \<open>decide\<close>: the shared result types (\<open>models.py\<close>), the
  allow and block lists (\<open>allow_block.py\<close>), the VIP policy (\<open>vip_policy.py\<close>), tenant thresholds
  (\<open>tenant_config.py\<close>), shadow evaluation (\<open>shadow_mode.py\<close>), the analyst feedback store
  (\<open>feedback_loop.py\<close>) and the explainability report (\<open>explainability.py\<close>).
\<close>

subsection \<open>models.py\<close>

datatype action = FORWARD | WARN_AND_STRIP | QUARANTINE

fun action_value :: "action \<Rightarrow> string" where
  "action_value FORWARD = ''forward''"
| "action_value WARN_AND_STRIP = ''warn_and_strip''"
| "action_value QUARANTINE = ''quarantine''"

text \<open>Actions are ordered by severity.\<close>

fun severity :: "action \<Rightarrow> nat" where
  "severity FORWARD = 0"
| "severity WARN_AND_STRIP = 1"
| "severity QUARANTINE = 2"

lemma severity_inject: "severity a = severity b \<longleftrightarrow> a = b"
  by (cases a; cases b) auto

instantiation action :: linorder
begin

definition less_eq_action :: "action \<Rightarrow> action \<Rightarrow> bool" where
  "less_eq_action a b \<longleftrightarrow> severity a \<le> severity b"

definition less_action :: "action \<Rightarrow> action \<Rightarrow> bool" where
  "less_action a b \<longleftrightarrow> severity a < severity b"

instance
  by standard (auto simp: less_eq_action_def less_action_def severity_inject)

end

record stage_score =
  stage :: string
  score_delta :: int
  stage_reasons :: "string list"

record explain_report =
  summary_verdict :: string
  report_action :: string
  report_score :: int
  thresholds :: "int \<times> int"
  stage_breakdown :: "(string, int \<times> string list) dict"
  policy_overrides :: "string list"
  top_risk_drivers :: "string list"
  narrative :: string

record shadow_result =
  shadow_rule_name :: string
  shadow_score :: int
  shadow_action :: action
  diverges_from_primary :: bool
  shadow_reasons :: "string list"

record vip_info =
  vi_name :: string
  vi_boost :: int
  vi_threshold :: "int option"

record campaign_info =
  ci_cluster_id :: string
  ci_cluster_size :: nat
  ci_is_campaign :: bool

record routing_decision =
  total_score :: int
  decision_action :: action
  stage_scores :: "stage_score list"
  all_reasons :: "string list"
  explainability :: "explain_report option"
  decision_shadow :: "shadow_result option"
  decision_vip :: "vip_info option"
  decision_campaign :: "campaign_info option"

definition jstrs :: "string list \<Rightarrow> json" where
  "jstrs ss = JList (map JStr ss)"

definition explain_as_dict :: "explain_report \<Rightarrow> json" where
  "explain_as_dict r = JDict [
     (''summary_verdict'', JStr (summary_verdict r)),
     (''action'', JStr (report_action r)),
     (''total_score'', JInt (report_score r)),
     (''thresholds'', JDict [(''warn_threshold'', JInt (fst (thresholds r))),
                             (''quarantine_threshold'', JInt (snd (thresholds r)))]),
     (''stage_breakdown'', JDict (map (\<lambda>(s, d, rs).
        (s, JDict [(''score_delta'', JInt d), (''reasons'', jstrs rs)])) (stage_breakdown r))),
     (''policy_overrides'', jstrs (policy_overrides r)),
     (''top_risk_drivers'', jstrs (top_risk_drivers r)),
     (''narrative'', JStr (narrative r))]"

definition shadow_as_dict :: "shadow_result \<Rightarrow> json" where
  "shadow_as_dict r = JDict [
     (''shadow_rule_name'', JStr (shadow_rule_name r)),
     (''shadow_score'', JInt (shadow_score r)),
     (''shadow_action'', JStr (action_value (shadow_action r))),
     (''diverges_from_primary'', JBool (diverges_from_primary r)),
     (''reasons'', jstrs (shadow_reasons r))]"

definition optional_field :: "string \<Rightarrow> ('a \<Rightarrow> json) \<Rightarrow> 'a option \<Rightarrow> (string \<times> json) list" where
  "optional_field k f v = (case v of None \<Rightarrow> [] | Some x \<Rightarrow> [(k, f x)])"

definition decision_as_dict :: "routing_decision \<Rightarrow> json" where
  "decision_as_dict d = JDict ([
     (''total_score'', JInt (total_score d)),
     (''action'', JStr (action_value (decision_action d))),
     (''stages'', JList (map (\<lambda>s. JDict [(''stage'', JStr (stage s)),
        (''score_delta'', JInt (score_delta s)), (''reasons'', jstrs (stage_reasons s))])
        (stage_scores d))),
     (''reasons'', jstrs (all_reasons d))]
     @ optional_field ''explainability'' explain_as_dict (explainability d)
     @ optional_field ''shadow_result'' shadow_as_dict (decision_shadow d)
     @ optional_field ''vip_info'' (\<lambda>v. JDict [(''vip_name'', JStr (vi_name v)),
          (''score_boost'', JInt (vi_boost v)),
          (''lowered_quarantine_threshold'',
             case vi_threshold v of None \<Rightarrow> JNull | Some t \<Rightarrow> JInt t)]) (decision_vip d)
     @ optional_field ''campaign_info'' (\<lambda>c. JDict [(''cluster_id'', JStr (ci_cluster_id c)),
          (''cluster_size'', JInt (int (ci_cluster_size c))),
          (''is_campaign'', JBool (ci_is_campaign c))]) (decision_campaign d))"

subsection \<open>allow_block.py\<close>

record allow_block_result =
  is_allowed :: bool
  is_blocked :: bool
  ab_reason :: string

record allow_block_engine =
  allow_domains :: "string list"
  allow_emails :: "string list"
  allow_ips :: "string list"
  block_domains :: "string list"
  block_emails :: "string list"
  block_ips :: "string list"

definition clean_list :: "string list \<Rightarrow> string list" where
  "clean_list ds = map (\<lambda>d. strip (lower d)) (filter (\<lambda>d. d \<noteq> []) ds)"

definition make_allow_block ::
  "string list \<Rightarrow> string list \<Rightarrow> string list \<Rightarrow> string list \<Rightarrow> string list \<Rightarrow> string list \<Rightarrow>
   allow_block_engine" where
  "make_allow_block ad ae ai bd be bi = \<lparr>
     allow_domains = clean_list ad, allow_emails = clean_list ae,
     allow_ips = map strip (filter (\<lambda>i. i \<noteq> []) ai),
     block_domains = clean_list bd, block_emails = clean_list be,
     block_ips = map strip (filter (\<lambda>i. i \<noteq> []) bi)\<rparr>"

text \<open>The first match of the pattern \<open>[\w\.-]+@[\w\.-]+\<close>.\<close>

definition is_addr_char :: "char \<Rightarrow> bool" where
  "is_addr_char c \<longleftrightarrow> is_word c \<or> c = CHR ''.'' \<or> c = CHR ''-''"

fun find_email :: "string \<Rightarrow> string option" where
  "find_email [] = None"
| "find_email (c # s) =
     (if is_addr_char c then
        (case dropWhile is_addr_char (c # s) of
           a # r \<Rightarrow> if a = CHR ''@'' \<and> takeWhile is_addr_char r \<noteq> []
                    then Some (takeWhile is_addr_char (c # s) @ a # takeWhile is_addr_char r)
                    else find_email s
         | [] \<Rightarrow> None)
      else find_email s)"

definition ip_matches :: "string \<Rightarrow> string list \<Rightarrow> bool" where
  "ip_matches client_ip ip_set =
     (if client_ip = [] \<or> client_ip = ''0.0.0.0'' then False
      else case ip_address client_ip of
        None \<Rightarrow> False
      | Some target \<Rightarrow>
          list_ex (\<lambda>item.
            if CHR ''/'' \<in> set item
            then (case ip_network item of None \<Rightarrow> False | Some net \<Rightarrow> in_network target net)
            else ip_address item = Some target) ip_set)"

definition blocked :: "string \<Rightarrow> allow_block_result" where
  "blocked r = \<lparr>is_allowed = False, is_blocked = True, ab_reason = r\<rparr>"

definition allowed :: "string \<Rightarrow> allow_block_result" where
  "allowed r = \<lparr>is_allowed = True, is_blocked = False, ab_reason = r\<rparr>"

definition neither_list :: allow_block_result where
  "neither_list = \<lparr>is_allowed = False, is_blocked = False, ab_reason = []\<rparr>"

definition header_email :: "string \<Rightarrow> string" where
  "header_email from_header = (case find_email from_header of
     None \<Rightarrow> [] | Some m \<Rightarrow> strip (lower m))"

definition email_domain :: "string \<Rightarrow> string" where
  "email_domain e = (if CHR ''@'' \<in> set e then after_last (CHR ''@'') e else [])"

definition ab_evaluate ::
  "allow_block_engine \<Rightarrow> string \<Rightarrow> string \<Rightarrow> string \<Rightarrow> allow_block_result" where
  "ab_evaluate ab envelope_from client_ip from_header =
     (let env = strip (lower envelope_from);
          env_domain = email_domain env;
          hdr = header_email from_header;
          hdr_domain = (if hdr = [] then [] else after_last (CHR ''@'') hdr)
      in if env \<noteq> [] \<and> env \<in> set (block_emails ab)
         then blocked (''envelope-from '' @ quoted envelope_from @ '' is in blocklist'')
         else if hdr \<noteq> [] \<and> hdr \<in> set (block_emails ab)
         then blocked (''From-header email '' @ quoted hdr @ '' is in blocklist'')
         else if env_domain \<noteq> [] \<and> env_domain \<in> set (block_domains ab)
         then blocked (''domain '' @ quoted env_domain @ '' is in blocklist'')
         else if hdr_domain \<noteq> [] \<and> hdr_domain \<in> set (block_domains ab)
         then blocked (''From-header domain '' @ quoted hdr_domain @ '' is in blocklist'')
         else if client_ip \<noteq> [] \<and> ip_matches client_ip (block_ips ab)
         then blocked (''client IP '' @ quoted client_ip @ '' is in blocklist'')
         else if env \<noteq> [] \<and> env \<in> set (allow_emails ab)
         then allowed (''envelope-from '' @ quoted envelope_from @ '' is in allowlist'')
         else if hdr \<noteq> [] \<and> hdr \<in> set (allow_emails ab)
         then allowed (''From-header email '' @ quoted hdr @ '' is in allowlist'')
         else if env_domain \<noteq> [] \<and> env_domain \<in> set (allow_domains ab)
         then allowed (''domain '' @ quoted env_domain @ '' is in allowlist'')
         else if hdr_domain \<noteq> [] \<and> hdr_domain \<in> set (allow_domains ab)
         then allowed (''From-header domain '' @ quoted hdr_domain @ '' is in allowlist'')
         else if client_ip \<noteq> [] \<and> ip_matches client_ip (allow_ips ab)
         then allowed (''client IP '' @ quoted client_ip @ '' is in allowlist'')
         else neither_list)"

lemma ab_simps [simp]:
  "is_blocked (blocked r)" "\<not> is_allowed (blocked r)"
  "is_allowed (allowed r)" "\<not> is_blocked (allowed r)"
  "\<not> is_allowed neither_list" "\<not> is_blocked neither_list"
  by (simp_all add: blocked_def allowed_def neither_list_def)

text \<open>Whether any of the sender's identities is on a list.\<close>

definition listed ::
  "string list \<Rightarrow> string list \<Rightarrow> string list \<Rightarrow> string \<Rightarrow> string \<Rightarrow> string \<Rightarrow> bool" where
  "listed emails domains ips envelope_from client_ip from_header \<longleftrightarrow>
     (let env = strip (lower envelope_from); hdr = header_email from_header in
      (\<exists>e \<in> {env, hdr}. e \<noteq> [] \<and> e \<in> set emails) \<or>
      (\<exists>d \<in> {email_domain env, if hdr = [] then [] else after_last (CHR ''@'') hdr}.
         d \<noteq> [] \<and> d \<in> set domains) \<or>
      ip_matches client_ip ips)"

lemma ip_matches_nonempty: "client_ip \<noteq> [] \<and> ip_matches client_ip ips \<longleftrightarrow> ip_matches client_ip ips"
  by (auto simp: ip_matches_def)

lemma block_chain:
  "is_blocked (if p then blocked r else x) \<longleftrightarrow> p \<or> is_blocked x"
  "is_blocked (if p then allowed r else x) \<longleftrightarrow> \<not> p \<and> is_blocked x"
  "is_allowed (if p then blocked r else x) \<longleftrightarrow> \<not> p \<and> is_allowed x"
  "is_allowed (if p then allowed r else x) \<longleftrightarrow> p \<or> is_allowed x"
  by simp_all

text \<open>The block list decides first: a sender with any identity on it is blocked and not allowed,
  whatever the allow list says, and only a sender with no identity on it can be allowed.\<close>
theorem block_list_precedence:
  "is_blocked (ab_evaluate ab env ip hdr) =
     listed (block_emails ab) (block_domains ab) (block_ips ab) env ip hdr \<and>
   is_allowed (ab_evaluate ab env ip hdr) =
     (\<not> listed (block_emails ab) (block_domains ab) (block_ips ab) env ip hdr \<and>
      listed (allow_emails ab) (allow_domains ab) (allow_ips ab) env ip hdr)"
  unfolding ab_evaluate_def listed_def Let_def block_chain ip_matches_nonempty
  by (simp only: ab_simps bex_simps) blast

subsection \<open>vip_policy.py\<close>

record vip_result =
  vip_detected :: bool
  vip_name :: string
  vip_score_boost :: int
  lowered_quarantine_threshold :: "int option"
  vip_reasons :: "string list"

record vip_engine =
  default_score_boost :: int
  default_quarantine_threshold :: int

definition no_vip :: vip_result where
  "no_vip = \<lparr>vip_detected = False, vip_name = [], vip_score_boost = 0,
     lowered_quarantine_threshold = None, vip_reasons = []\<rparr>"

definition vip_evaluate ::
  "vip_engine \<Rightarrow> string \<Rightarrow> string list \<Rightarrow> string list \<Rightarrow> vip_result" where
  "vip_evaluate eng from_header display_names reasons =
     (let names = map (\<lambda>v. strip (lower v)) (filter (\<lambda>v. v \<noteq> []) display_names)
      in if names = [] \<and> from_header = [] then no_vip
         else
           let detected = (case find (\<lambda>v. contains v (lower from_header)) names of
                 None \<Rightarrow> [] | Some v \<Rightarrow> v);
               triggered = list_ex (\<lambda>r. contains ''vip display name'' (lower r) \<or>
                 contains ''display-name spoofing'' (lower r)) reasons
           in if detected \<noteq> [] \<or> triggered
              then let ident = (if detected \<noteq> [] then detected else ''protected identity'')
                   in \<lparr>vip_detected = True, vip_name = ident,
                       vip_score_boost = default_score_boost eng,
                       lowered_quarantine_threshold = Some (default_quarantine_threshold eng),
                       vip_reasons =
                         [''VIP Policy Enforcement: detected impersonation of '' @ quoted ident]\<rparr>
              else no_vip)"

subsection \<open>tenant_config.py\<close>

record tenant_config =
  cfg_tenant_id :: string
  cfg_warn_threshold :: int
  cfg_quarantine_threshold :: int
  stage_weights :: "(string, rat) dict"
  vip_protection_enabled :: bool
  shadow_mode_enabled :: bool

definition default_weights :: "(string, rat) dict" where
  "default_weights = [(''auth'', 1), (''content'', 1), (''attachments'', 1)]"

type_synonym config_store = "(string, tenant_config) dict"

definition set_config :: "config_store \<Rightarrow> tenant_config \<Rightarrow> config_store" where
  "set_config store config = dset store (cfg_tenant_id config) config"

text \<open>The process settings' thresholds are the first two arguments.\<close>

definition get_config :: "int \<Rightarrow> int \<Rightarrow> config_store \<Rightarrow> string option \<Rightarrow> tenant_config" where
  "get_config warn quarantine store tenant_id =
     (let t = (case tenant_id of None \<Rightarrow> [] | Some t \<Rightarrow> t) in
      case (if t = [] then None else dget store t) of
        Some c \<Rightarrow> c
      | None \<Rightarrow> \<lparr>cfg_tenant_id = (if t = [] then ''default'' else t), cfg_warn_threshold = warn,
          cfg_quarantine_threshold = quarantine, stage_weights = default_weights,
          vip_protection_enabled = True, shadow_mode_enabled = False\<rparr>)"

lemma get_config_set:
  "t \<noteq> [] \<Longrightarrow> get_config w q (set_config store c) (Some t) =
     (if t = cfg_tenant_id c then c else get_config w q store (Some t))"
  by (simp add: get_config_def set_config_def)

subsection \<open>shadow_mode.py\<close>

record shadow_engine =
  candidate_warn_threshold :: int
  candidate_quarantine_threshold :: int
  shadow_name :: string

text \<open>The threshold cascade that \<open>decide\<close> and the shadow engine share.\<close>

definition classify :: "int \<Rightarrow> int \<Rightarrow> int \<Rightarrow> action" where
  "classify warn quarantine score =
     (if score \<ge> quarantine then QUARANTINE
      else if score \<ge> warn then WARN_AND_STRIP
      else FORWARD)"

definition total_of :: "stage_score list \<Rightarrow> int" where
  "total_of ss = sum_list (map score_delta ss)"

definition shadow_evaluate ::
  "shadow_engine \<Rightarrow> stage_score list \<Rightarrow> action \<Rightarrow> int \<Rightarrow> shadow_result" where
  "shadow_evaluate eng ss primary_action primary_score =
     (let score = total_of ss;
          reasons = concat (map stage_reasons ss);
          act = classify (candidate_warn_threshold eng) (candidate_quarantine_threshold eng) score;
          diverges = (act \<noteq> primary_action)
      in \<lparr>shadow_rule_name = shadow_name eng, shadow_score = score, shadow_action = act,
          diverges_from_primary = diverges,
          shadow_reasons = reasons @
            (if diverges then [''Shadow divergence: primary action '' @ quoted (action_value primary_action) @
               '' vs candidate '' @ quoted (action_value act)] else [])\<rparr>)"

lemma classify_mono: "a \<le> b \<Longrightarrow> classify w q a \<le> classify w q b"
  by (auto simp: classify_def less_eq_action_def)

lemma classify_antimono_quarantine:
  "q' \<le> q \<Longrightarrow> classify w q a \<le> classify w q' a"
  by (auto simp: classify_def less_eq_action_def)

subsection \<open>feedback_loop.py\<close>

record feedback_record =
  quarantine_id :: string
  fb_envelope_from :: string
  fb_domain :: string
  fb_action :: string
  fb_note :: string
  fb_timestamp :: rat

record feedback_loop =
  fb_records :: "feedback_record list"
  domain_scores :: "(string, int) dict"

definition feedback_new :: feedback_loop where
  "feedback_new = \<lparr>fb_records = [], domain_scores = []\<rparr>"

definition feedback_domain :: "string \<Rightarrow> string" where
  "feedback_domain envelope_from =
     (if CHR ''@'' \<in> set envelope_from
      then strip (lower (after_last (CHR ''@'') envelope_from))
      else strip (lower envelope_from))"

definition record_feedback ::
  "feedback_loop \<Rightarrow> rat \<Rightarrow> string \<Rightarrow> string \<Rightarrow> string \<Rightarrow> string \<Rightarrow> feedback_record \<times> feedback_loop" where
  "record_feedback fl now qid envelope_from act note =
     (let domain = feedback_domain envelope_from;
          rec = \<lparr>quarantine_id = qid, fb_envelope_from = envelope_from, fb_domain = domain,
                 fb_action = lower act, fb_note = note, fb_timestamp = now\<rparr>;
          fl' = fl\<lparr>fb_records := fb_records fl @ [rec]\<rparr>;
          current = dgetd (domain_scores fl) domain 0
      in (rec,
          if domain = [] then fl'
          else if lower act = ''release''
          then fl'\<lparr>domain_scores := dset (domain_scores fl) domain (max (current - 15) (- 40))\<rparr>
          else if lower act = ''reject''
          then fl'\<lparr>domain_scores := dset (domain_scores fl) domain (min (current + 15) 50)\<rparr>
          else fl'))"

definition get_domain_adjustment :: "feedback_loop \<Rightarrow> string \<Rightarrow> int" where
  "get_domain_adjustment fl domain = dgetd (domain_scores fl) (strip (lower domain)) 0"

record feedback_stats =
  total_feedback :: nat
  false_positives_released :: nat
  true_positives_rejected :: nat
  false_positive_rate :: rat
  domains_tracked :: nat

definition feedback_get_stats :: "feedback_loop \<Rightarrow> feedback_stats" where
  "feedback_get_stats fl =
     (let total = length (fb_records fl);
          releases = length (filter (\<lambda>r. fb_action r = ''release'') (fb_records fl));
          rejects = length (filter (\<lambda>r. fb_action r = ''reject'') (fb_records fl))
      in \<lparr>total_feedback = total, false_positives_released = releases,
          true_positives_rejected = rejects,
          false_positive_rate = (if total > 0 then of_nat releases / of_nat total else 0),
          domains_tracked = length (domain_scores fl)\<rparr>)"

text \<open>The scores learned from analysts stay between -40 and 50.\<close>

definition feedback_inv :: "feedback_loop \<Rightarrow> bool" where
  "feedback_inv fl \<longleftrightarrow> dict_ok (domain_scores fl) \<and>
     (\<forall>d. - 40 \<le> dgetd (domain_scores fl) d 0 \<and> dgetd (domain_scores fl) d 0 \<le> 50)"

lemma feedback_inv_new [inv_intros]: "feedback_inv feedback_new"
  by (simp add: feedback_inv_def feedback_new_def)

lemma feedback_inv_record [inv_intros]:
  "feedback_inv fl \<Longrightarrow> feedback_inv (snd (record_feedback fl now qid env act note))"
proof -
  assume inv: "feedback_inv fl"
  then have b: "- 40 \<le> dgetd (domain_scores fl) d 0" "dgetd (domain_scores fl) d 0 \<le> 50" for d
    by (simp_all add: feedback_inv_def)
  let ?cur = "dgetd (domain_scores fl) (feedback_domain env) 0"
  have "- 40 \<le> max (?cur - 15) (- 40)" "max (?cur - 15) (- 40) \<le> 50"
    "- 40 \<le> min (?cur + 15) 50" "min (?cur + 15) 50 \<le> 50"
    using b [of "feedback_domain env"] by (auto simp: max_def min_def)
  with inv show ?thesis
    by (auto simp: feedback_inv_def record_feedback_def Let_def)
qed

fun feedback_run ::
  "feedback_loop \<Rightarrow> (rat \<times> string \<times> string \<times> string \<times> string) list \<Rightarrow> feedback_loop" where
  "feedback_run fl [] = fl"
| "feedback_run fl ((now, qid, env, act, note) # evs) =
     feedback_run (snd (record_feedback fl now qid env act note)) evs"

lemma feedback_run_inv [inv_intros]: "feedback_inv fl \<Longrightarrow> feedback_inv (feedback_run fl evs)"
  by (induction evs arbitrary: fl) (auto simp: feedback_inv_record)

text \<open>However analysts release and reject, the adjustment learned for any domain stays between
  \<open>-40\<close> and \<open>50\<close>.\<close>
theorem feedback_adjustment_bounded:
  "- 40 \<le> get_domain_adjustment (feedback_run feedback_new evs) d \<and>
   get_domain_adjustment (feedback_run feedback_new evs) d \<le> 50"
  using feedback_run_inv [OF feedback_inv_new, of evs]
  by (simp add: feedback_inv_def get_domain_adjustment_def)

subsection \<open>explainability.py\<close>

definition stage_dict :: "stage_score list \<Rightarrow> (string, int \<times> string list) dict" where
  "stage_dict ss = fold (\<lambda>s d. dset d (stage s) (score_delta s, stage_reasons s)) ss []"

definition risk_drivers :: "stage_score list \<Rightarrow> string list" where
  "risk_drivers ss = concat (map (\<lambda>s. if score_delta s > 0
     then map (\<lambda>r. ''['' @ upper (stage s) @ ''] '' @ r) (stage_reasons s) else []) ss)"

definition is_override :: "string \<Rightarrow> bool" where
  "is_override reason = (contains ''override'' (lower reason) \<or> contains ''policy'' (lower reason))"

definition explain_generate ::
  "routing_decision \<Rightarrow> int \<Rightarrow> int \<Rightarrow> string \<Rightarrow> explain_report" where
  "explain_generate d warn quarantine tenant_id =
     (let drivers = risk_drivers (stage_scores d);
          overrides = filter is_override (all_reasons d);
          act = action_value (decision_action d);
          total = int_str (total_score d);
          text =
            (if overrides \<noteq> [] then ''Message evaluated for tenant '' @ quoted tenant_id @
               ''. Decision forced to '' @ upper act @ '' via policy override: '' @
               join ''; '' overrides @ ''.''
             else if act = ''quarantine'' then ''Message score of '' @ total @
               '' met or exceeded quarantine threshold ('' @ int_str quarantine @
               ''). Primary risk drivers: '' @
               (if drivers \<noteq> [] then join ''; '' (take 3 drivers)
                else ''accumulated threat signals'') @ ''.''
             else if act = ''warn_and_strip'' then ''Message score of '' @ total @
               '' exceeded warning threshold ('' @ int_str warn @
               '') but remained below quarantine ('' @ int_str quarantine @
               ''). Delivering with link defanging and warning banner.''
             else ''Message score of '' @ total @ '' is clean (below warning threshold '' @
               int_str warn @ ''). Delivering as-is.'')
      in \<lparr>summary_verdict = upper act, report_action = act, report_score = total_score d,
          thresholds = (warn, quarantine), stage_breakdown = stage_dict (stage_scores d),
          policy_overrides = overrides, top_risk_drivers = drivers, narrative = text\<rparr>)"

end
