(* ===== verification/Campaign.thy ===== *)
theory Campaign
  imports DecisionModel
begin

text \<open>
  \<open>decision_engine/campaign_clustering.py\<close>: the 64-bit SimHash of a message, the Hamming distance
  and the engine that clusters similar messages seen within a window. The hash of one feature (the
  first 16 hex digits of its MD5) and the short digest that names a new cluster (the first 12 hex
  digits of a SHA-256) are parameters: \<open>feature_hash\<close> and \<open>cluster_name\<close>.
\<close>

subsection \<open>SimHash\<close>

text \<open>\<open>re.sub(r'\d+', 'num', s)\<close>: every maximal run of decimal digits becomes \<open>num\<close>.\<close>

fun sub_digits :: "bool \<Rightarrow> string \<Rightarrow> string" where
  "sub_digits in_run [] = []"
| "sub_digits in_run (c # s) =
     (if is_digit c then (if in_run then sub_digits True s else ''num'' @ sub_digits True s)
      else c # sub_digits False s)"

text \<open>\<open>re.findall(r'\w+', s)\<close>\<close>

function word_tokens :: "string \<Rightarrow> string list" where
  "word_tokens s = (case dropWhile (\<lambda>c. \<not> is_word c) s of
       [] \<Rightarrow> []
     | c # r \<Rightarrow> takeWhile is_word (c # r) # word_tokens (dropWhile is_word (c # r)))"
  by pat_completeness auto
termination
proof (relation "measure length", simp)
  fix s c r
  assume h: "dropWhile (\<lambda>c. \<not> is_word c) s = c # r"
  then have "is_word c" by (metis hd_dropWhile list.distinct(1) list.sel(1))
  moreover have "length (c # r) \<le> length s"
    using h by (metis length_dropWhile_le)
  moreover have "length (dropWhile is_word r) \<le> length r"
    by (rule length_dropWhile_le)
  ultimately show "(dropWhile is_word (c # r), s) \<in> measure length" by simp
qed

declare word_tokens.simps [simp del]

fun bigrams :: "string list \<Rightarrow> string list" where
  "bigrams (s # t # ts) = (s @ ''_'' @ t) # bigrams (t # ts)"
| "bigrams _ = []"

definition features :: "string \<Rightarrow> string list" where
  "features content = (let tokens = word_tokens (sub_digits False (lower content)) in
     tokens @ bigrams tokens)"

text \<open>The vote of one feature on each bit, and the bits with a non-negative sum.\<close>

definition vote :: "64 word \<Rightarrow> int list \<Rightarrow> int list" where
  "vote h v = map (\<lambda>i. if bit h i then v ! i + 1 else v ! i - 1) [0..<64]"

definition fingerprint_of :: "int list \<Rightarrow> 64 word" where
  "fingerprint_of v = fold (\<lambda>i fp. if v ! i \<ge> 0 then fp OR push_bit i 1 else fp) [0..<64] 0"

definition compute_simhash :: "(string \<Rightarrow> 64 word) \<Rightarrow> string \<Rightarrow> 64 word" where
  "compute_simhash feature_hash content =
     (if word_tokens (sub_digits False (lower content)) = [] then 0
      else fingerprint_of (fold (\<lambda>f. vote (feature_hash f)) (features content) (replicate 64 0)))"

definition hamming_distance :: "64 word \<Rightarrow> 64 word \<Rightarrow> nat" where
  "hamming_distance a b = length (filter (bit (a XOR b)) [0..<64])"

lemma hamming_card: "hamming_distance a b = card {i. i < 64 \<and> bit a i \<noteq> bit b i}"
proof -
  have "hamming_distance a b = card (set (filter (bit (a XOR b)) [0..<64]))"
    unfolding hamming_distance_def by (rule distinct_card [symmetric]) simp
  also have "set (filter (bit (a XOR b)) [0..<64]) = {i. i < 64 \<and> bit a i \<noteq> bit b i}"
    by (auto simp: bit_xor_iff)
  finally show ?thesis .
qed

text \<open>The Hamming distance of fingerprints is a metric bounded by 64: zero exactly on equal
  fingerprints, symmetric, and subject to the triangle inequality.\<close>
theorem hamming_metric:
  "(hamming_distance a b = 0) = (a = b) \<and> hamming_distance a b = hamming_distance b a \<and>
   hamming_distance a c \<le> hamming_distance a b + hamming_distance b c \<and> hamming_distance a b \<le> 64"
proof (intro conjI)
  have "hamming_distance a b = 0 \<longleftrightarrow> (\<forall>i < 64. bit a i = bit b i)"
    by (auto simp: hamming_card card_eq_0_iff)
  also have "\<dots> \<longleftrightarrow> a = b" by (auto intro: bit_word_eqI)
  finally show "(hamming_distance a b = 0) = (a = b)" .
  show "hamming_distance a b = hamming_distance b a"
    unfolding hamming_card by (rule arg_cong [where f = card]) auto
  have "card {i. i < 64 \<and> bit a i \<noteq> bit c i} \<le>
      card ({i. i < 64 \<and> bit a i \<noteq> bit b i} \<union> {i. i < 64 \<and> bit b i \<noteq> bit c i})"
    by (rule card_mono) auto
  also have "\<dots> \<le> card {i. i < 64 \<and> bit a i \<noteq> bit b i} + card {i. i < 64 \<and> bit b i \<noteq> bit c i}"
    by (rule card_Un_le)
  finally show "hamming_distance a c \<le> hamming_distance a b + hamming_distance b c"
    unfolding hamming_card .
  show "hamming_distance a b \<le> 64"
    using length_filter_le [of "bit (a XOR b)" "[0..<64]"] by (simp add: hamming_distance_def)
qed

subsection \<open>CampaignClusterEngine\<close>

record campaign_result =
  is_campaign :: bool
  cluster_id :: string
  cluster_size :: nat
  campaign_boost :: int
  campaign_reasons :: "string list"

record campaign_engine =
  cc_window_seconds :: int
  similarity_max_distance :: nat
  campaign_threshold :: nat
  cc_score_boost :: int
  cc_entries :: "(string \<times> 64 word \<times> rat) list"

definition no_campaign :: campaign_result where
  "no_campaign = \<lparr>is_campaign = False, cluster_id = [], cluster_size = 1, campaign_boost = 0,
     campaign_reasons = []\<rparr>"

text \<open>The scan over the live entries: the last similar entry's cluster, and one more than their number.\<close>

definition match_entries ::
  "nat \<Rightarrow> 64 word \<Rightarrow> (string \<times> 64 word \<times> rat) list \<Rightarrow> string \<times> nat" where
  "match_entries maxd fp es =
     fold (\<lambda>(cid, h, ts) (m, n). if hamming_distance fp h \<le> maxd then (cid, n + 1) else (m, n))
       es ([], 1)"

definition evaluate_and_register ::
  "(string \<Rightarrow> 64 word) \<Rightarrow> (64 word \<Rightarrow> rat \<Rightarrow> string) \<Rightarrow> campaign_engine \<Rightarrow> rat \<Rightarrow>
   string \<Rightarrow> string \<Rightarrow> string \<Rightarrow> campaign_result \<times> campaign_engine" where
  "evaluate_and_register feature_hash cluster_name eng now text_body subject from_domain =
     (let live = filter (\<lambda>(_, _, ts). now - ts \<le> of_int (cc_window_seconds eng)) (cc_entries eng);
          eng1 = eng\<lparr>cc_entries := live\<rparr>;
          fp = compute_simhash feature_hash (subject @ '' '' @ from_domain @ '' '' @ text_body)
      in if fp = 0 then (no_campaign, eng1)
         else
           let (matched, count) = match_entries (similarity_max_distance eng) fp live;
               cid = (if matched = [] then cluster_name fp now else matched);
               eng2 = eng1\<lparr>cc_entries := live @ [(cid, fp, now)]\<rparr>
           in if count \<ge> campaign_threshold eng
              then (\<lparr>is_campaign = True, cluster_id = cid, cluster_size = count,
                     campaign_boost = cc_score_boost eng,
                     campaign_reasons = [''Campaign Alert: high-velocity fuzzy match (cluster '' @ quoted cid @
                       '', '' @ nat_str count @ '' occurrences in last hour)'']\<rparr>, eng2)
              else (\<lparr>is_campaign = False, cluster_id = cid, cluster_size = count,
                     campaign_boost = 0, campaign_reasons = []\<rparr>, eng2))"

lemma match_entries_count:
  "snd (match_entries maxd fp es) =
   Suc (length (filter (\<lambda>(_, h, _). hamming_distance fp h \<le> maxd) es))"
proof -
  have "snd (fold (\<lambda>(cid, h, ts) (m, n). if hamming_distance fp h \<le> maxd then (cid, n + 1) else (m, n))
       es (m, n)) = n + length (filter (\<lambda>(_, h, _). hamming_distance fp h \<le> maxd) es)" for m n
    by (induction es arbitrary: m n) auto
  then show ?thesis by (simp add: match_entries_def)
qed

text \<open>A message is reported as a campaign exactly when its fingerprint is not empty and, counting
  itself, at least \<open>campaign_threshold\<close> messages of the window lie within the similarity distance;
  only then does the verdict carry the score boost.\<close>
theorem campaign_iff_similar_enough:
  assumes "evaluate_and_register fh cn eng now body subject from_domain = (res, eng')"
  shows "is_campaign res =
     (let fp = compute_simhash fh (subject @ '' '' @ from_domain @ '' '' @ body) in
      fp \<noteq> 0 \<and> campaign_threshold eng \<le>
        Suc (length (filter (\<lambda>(_, h, ts). now - ts \<le> of_int (cc_window_seconds eng) \<and>
                       hamming_distance fp h \<le> similarity_max_distance eng) (cc_entries eng)))) \<and>
     (is_campaign res \<or> campaign_boost res = 0 \<and> campaign_reasons res = [])"
proof (intro conjI)
  let ?fp = "compute_simhash fh (subject @ '' '' @ from_domain @ '' '' @ body)"
  let ?live = "filter (\<lambda>(_, _, ts). now - ts \<le> of_int (cc_window_seconds eng)) (cc_entries eng)"
  have len: "snd (match_entries (similarity_max_distance eng) ?fp ?live) =
     Suc (length (filter (\<lambda>(_, h, ts). now - ts \<le> of_int (cc_window_seconds eng) \<and>
                       hamming_distance ?fp h \<le> similarity_max_distance eng) (cc_entries eng)))"
    by (simp add: match_entries_count split_def)
  show "is_campaign res = (let fp = ?fp in fp \<noteq> 0 \<and> campaign_threshold eng \<le>
        Suc (length (filter (\<lambda>(_, h, ts). now - ts \<le> of_int (cc_window_seconds eng) \<and>
                       hamming_distance fp h \<le> similarity_max_distance eng) (cc_entries eng))))"
    using assms len
    by (auto simp: evaluate_and_register_def no_campaign_def Let_def split: prod.splits if_splits)
  show "is_campaign res \<or> campaign_boost res = 0 \<and> campaign_reasons res = []"
    using assms
    by (auto simp: evaluate_and_register_def no_campaign_def Let_def split: prod.splits if_splits)
qed

theorem campaign_iff_similar_enough_witness:
  "is_campaign (fst (evaluate_and_register (\<lambda>_. 5) (\<lambda>_ _. ''c'')
     \<lparr>cc_window_seconds = 3600, similarity_max_distance = 5, campaign_threshold = 2,
      cc_score_boost = 20, cc_entries = [(''c'', 4, 0)]\<rparr> 60 ''hi'' [] []))"
proof -
  let ?eng = "\<lparr>cc_window_seconds = 3600, similarity_max_distance = 5, campaign_threshold = 2,
      cc_score_boost = 20, cc_entries = [(''c'', 4, 0)]\<rparr>"
  have "compute_simhash (\<lambda>_. 5) ''  hi'' = 5" "hamming_distance 5 4 = 1" by code_simp+
  with campaign_iff_similar_enough [OF surjective_pairing, of "\<lambda>_. 5" "\<lambda>_ _. ''c''" ?eng 60 "''hi''" "[]" "[]"]
  show ?thesis by simp
qed

end
