(* ===== verification/Decide.thy ===== *)
theory Decide
  imports Campaign
begin

text \<open>
  \<open>decision_engine/scorer.py\<close>: the function \<open>decide\<close> that turns the stage scores and the policy
  layers into one routing decision. Its sections are definitions of their own, composed in the
  order of the code; the exception it can raise is the \<open>Inl\<close> of its result.
\<close>

subsection \<open>The sections of decide\<close>

definition base_warn :: "tenant_config option \<Rightarrow> int \<Rightarrow> int" where
  "base_warn cfg warn = (case cfg of None \<Rightarrow> warn | Some c \<Rightarrow> cfg_warn_threshold c)"

definition base_quarantine :: "tenant_config option \<Rightarrow> int \<Rightarrow> int" where
  "base_quarantine cfg q = (case cfg of None \<Rightarrow> q | Some c \<Rightarrow> cfg_quarantine_threshold c)"

definition active_vip :: "vip_result option \<Rightarrow> vip_result option" where
  "active_vip vip = (case vip of Some v \<Rightarrow> if vip_detected v then Some v else None | None \<Rightarrow> None)"

text \<open>VIP policy: the quarantine threshold may only be lowered, and stays above the warn threshold.\<close>

definition vip_quarantine :: "vip_result option \<Rightarrow> int \<Rightarrow> int \<Rightarrow> int" where
  "vip_quarantine vip warn q = (case active_vip vip of
       None \<Rightarrow> q
     | Some v \<Rightarrow> (case lowered_quarantine_threshold v of
          None \<Rightarrow> q
        | Some l \<Rightarrow> max (warn + 1) (min q l)))"

definition weigh :: "tenant_config option \<Rightarrow> stage_score \<Rightarrow> stage_score" where
  "weigh cfg s =
     (let weight = (case cfg of None \<Rightarrow> 1 | Some c \<Rightarrow> dgetd (stage_weights c) (stage s) 1)
      in \<lparr>stage = stage s, score_delta = trunc_rat (of_int (score_delta s) * weight),
          stage_reasons = stage_reasons s\<rparr>)"

definition active_campaign :: "campaign_result option \<Rightarrow> campaign_result option" where
  "active_campaign cmp = (case cmp of Some c \<Rightarrow> if is_campaign c then Some c else None | None \<Rightarrow> None)"

definition risk_total ::
  "stage_score list \<Rightarrow> int \<Rightarrow> vip_result option \<Rightarrow> campaign_result option \<Rightarrow> int" where
  "risk_total weighted feedback vip cmp =
     total_of weighted + feedback +
     (case active_vip vip of None \<Rightarrow> 0 | Some v \<Rightarrow> vip_score_boost v) +
     (case active_campaign cmp of None \<Rightarrow> 0 | Some c \<Rightarrow> campaign_boost c)"

definition risk_reasons ::
  "stage_score list \<Rightarrow> int \<Rightarrow> vip_result option \<Rightarrow> campaign_result option \<Rightarrow> string list" where
  "risk_reasons weighted feedback vip cmp =
     concat (map stage_reasons weighted) @
     (if feedback \<noteq> 0 then [''Feedback loop adjustment: domain reputation '' @
        (if feedback > 0 then ''increased'' else ''reduced'') @ '' risk score by '' @
        int_str \<bar>feedback\<bar>] else []) @
     (case active_vip vip of None \<Rightarrow> [] | Some v \<Rightarrow> vip_reasons v) @
     (case active_campaign cmp of None \<Rightarrow> [] | Some c \<Rightarrow> campaign_reasons c)"

definition has_malware :: "stage_score list \<Rightarrow> bool" where
  "has_malware weighted = list_ex (\<lambda>s. score_delta s \<ge> 100) weighted"

text \<open>The precedence overrides: the score, the action and the reasons of the decision.\<close>

definition route ::
  "allow_block_result option \<Rightarrow> stage_score list \<Rightarrow> int \<Rightarrow> string list \<Rightarrow> int \<Rightarrow> int \<Rightarrow>
   int \<times> action \<times> string list" where
  "route ab weighted score reasons warn q =
     (case ab of
        None \<Rightarrow> (score, classify warn q score, reasons)
      | Some r \<Rightarrow>
          if is_blocked r
          then (max score q, QUARANTINE, (''policy override: '' @ ab_reason r) # reasons)
          else if is_allowed r
          then (if \<not> has_malware weighted
                then (0, FORWARD, (''policy override: '' @ ab_reason r) # reasons)
                else (score, classify warn q score, reasons))
          else (score, classify warn q score, reasons))"

definition decide ::
  "stage_score list \<Rightarrow> int \<Rightarrow> int \<Rightarrow> allow_block_result option \<Rightarrow> tenant_config option \<Rightarrow>
   vip_result option \<Rightarrow> campaign_result option \<Rightarrow> int \<Rightarrow> shadow_engine option \<Rightarrow> string \<Rightarrow>
   routing_decision result" where
  "decide ss warn_threshold quarantine_threshold ab cfg vip cmp feedback shadow tenant_id =
     (let warn = base_warn cfg warn_threshold;
          q0 = base_quarantine cfg quarantine_threshold
      in if q0 \<le> warn
         then Inl (ValueError ''quarantine_threshold must be greater than warn_threshold'')
         else
           let q = vip_quarantine vip warn q0;
               weighted = map (weigh cfg) ss;
               score = risk_total weighted feedback vip cmp;
               reasons = risk_reasons weighted feedback vip cmp;
               (final, act, reasons') = route ab weighted score reasons warn q;
               d = \<lparr>total_score = final, decision_action = act, stage_scores = weighted,
                    all_reasons = reasons', explainability = None, decision_shadow = None,
                    decision_vip = None, decision_campaign = None\<rparr>
           in Inr (d\<lparr>explainability := Some (explain_generate d warn q tenant_id),
                decision_shadow := map_option (\<lambda>e. shadow_evaluate e weighted act final) shadow,
                decision_vip := map_option (\<lambda>v. \<lparr>vi_name = vip_name v,
                    vi_boost = vip_score_boost v,
                    vi_threshold = lowered_quarantine_threshold v\<rparr>) (active_vip vip),
                decision_campaign := (case cmp of
                    Some c \<Rightarrow> if cluster_id c \<noteq> []
                       then Some \<lparr>ci_cluster_id = cluster_id c, ci_cluster_size = cluster_size c,
                                  ci_is_campaign = is_campaign c\<rparr> else None
                  | None \<Rightarrow> None)\<rparr>))"

subsection \<open>Facts about the sections\<close>

text \<open>The thresholds a decision is made against.\<close>

definition effective_thresholds ::
  "tenant_config option \<Rightarrow> vip_result option \<Rightarrow> int \<Rightarrow> int \<Rightarrow> int \<times> int" where
  "effective_thresholds cfg vip w q =
     (base_warn cfg w, vip_quarantine vip (base_warn cfg w) (base_quarantine cfg q))"

lemma vip_quarantine_bounds:
  "warn < q \<Longrightarrow> warn < vip_quarantine vip warn q \<and> vip_quarantine vip warn q \<le> q"
  by (auto simp: vip_quarantine_def split: option.splits)

lemma decide_error_iff:
  "\<not> is_ok (decide ss w q ab cfg vip cmp fb sh t) \<longleftrightarrow> base_quarantine cfg q \<le> base_warn cfg w"
  by (simp add: decide_def Let_def split_beta)

lemma decide_core:
  assumes "decide ss w q ab cfg vip cmp fb sh t = Inr d"
  shows "(total_score d, decision_action d, all_reasons d) =
     route ab (map (weigh cfg) ss) (risk_total (map (weigh cfg) ss) fb vip cmp)
       (risk_reasons (map (weigh cfg) ss) fb vip cmp)
       (fst (effective_thresholds cfg vip w q)) (snd (effective_thresholds cfg vip w q))"
  using assms
  by (auto simp: decide_def effective_thresholds_def Let_def split_beta split: if_splits)

lemma decide_Inr_thresholds:
  assumes "decide ss w q ab cfg vip cmp fb sh t = Inr d"
  shows "fst (effective_thresholds cfg vip w q) < snd (effective_thresholds cfg vip w q) \<and>
     snd (effective_thresholds cfg vip w q) \<le> base_quarantine cfg q"
proof -
  have "base_warn cfg w < base_quarantine cfg q"
    using decide_error_iff [of ss w q ab cfg vip cmp fb sh t] assms by simp
  then show ?thesis
    using vip_quarantine_bounds [of "base_warn cfg w" "base_quarantine cfg q" vip]
    by (simp add: effective_thresholds_def)
qed

text \<open>C1: A blocked sender is always quarantined, with a score at or above the quarantine threshold
  that applied, whatever the stages, the tenant, the VIP policy, the campaign, the feedback or the
  shadow rules say.\<close>
theorem blocked_is_quarantined:
  assumes "decide ss w q (Some r) cfg vip cmp fb sh t = Inr d" and "is_blocked r"
  shows "decision_action d = QUARANTINE \<and>
     snd (effective_thresholds cfg vip w q) \<le> total_score d \<and>
     hd (all_reasons d) = ''policy override: '' @ ab_reason r"
  using decide_core [OF assms(1)] assms(2) by (simp add: route_def)

theorem blocked_is_quarantined_witness:
  "\<exists>d. decide [] 30 70 (Some (blocked ''bad'')) None None None 0 None ''default'' = Inr d \<and>
     decision_action d = QUARANTINE"
proof -
  have "is_ok (decide [] 30 70 (Some (blocked ''bad'')) None None None 0 None ''default'')"
    using decide_error_iff [of "[]" 30 70 "Some (blocked ''bad'')" None None None 0 None "''default''"]
    by (simp add: base_quarantine_def base_warn_def)
  then obtain d where "decide [] 30 70 (Some (blocked ''bad'')) None None None 0 None ''default'' = Inr d"
    by (auto simp: is_ok_iff)
  with blocked_is_quarantined [OF this] show ?thesis by simp
qed

text \<open>An allow-listed sender is forwarded with score zero exactly as long as no single weighted stage
  reaches 100; once one does (malware), the allow list changes nothing: score, action and reasons
  are those of a sender on no list.\<close>
theorem allow_list_yields_to_malware:
  assumes "decide ss w q (Some r) cfg vip cmp fb sh t = Inr d"
    and "decide ss w q None cfg vip cmp fb sh t = Inr d0"
    and "is_allowed r" and "\<not> is_blocked r"
  shows "if has_malware (map (weigh cfg) ss)
     then total_score d = total_score d0 \<and> decision_action d = decision_action d0 \<and>
          all_reasons d = all_reasons d0
     else total_score d = 0 \<and> decision_action d = FORWARD"
  using decide_core [OF assms(1)] decide_core [OF assms(2)] assms(3,4) by (auto simp: route_def)

theorem allow_list_yields_to_malware_witness:
  "\<exists>d d0. decide [\<lparr>stage = ''attachments'', score_delta = 100, stage_reasons = [''malware'']\<rparr>] 30 70
      (Some (allowed ''partner'')) None None None 0 None ''default'' = Inr d \<and>
    decide [\<lparr>stage = ''attachments'', score_delta = 100, stage_reasons = [''malware'']\<rparr>] 30 70
      None None None None 0 None ''default'' = Inr d0 \<and> decision_action d = decision_action d0"
proof -
  let ?ss = "[\<lparr>stage = ''attachments'', score_delta = 100, stage_reasons = [''malware'']\<rparr>]"
  have ok: "is_ok (decide ?ss 30 70 ab None None None 0 None ''default'')" for ab
    using decide_error_iff [of ?ss 30 70 ab None None None 0 None "''default''"]
    by (simp add: base_quarantine_def base_warn_def)
  obtain d where d: "decide ?ss 30 70 (Some (allowed ''partner'')) None None None 0 None ''default'' = Inr d"
    using ok by (auto simp: is_ok_iff)
  obtain d0 where d0: "decide ?ss 30 70 None None None None 0 None ''default'' = Inr d0"
    using ok by (auto simp: is_ok_iff)
  have "has_malware (map (weigh None) ?ss)"
    by (simp add: has_malware_def weigh_def trunc_rat_def)
  with allow_list_yields_to_malware [OF d d0] d d0 show ?thesis by simp
qed

text \<open>Weights scale a stage's score monotonically.\<close>

definition nonneg_weights :: "tenant_config option \<Rightarrow> bool" where
  "nonneg_weights cfg \<longleftrightarrow> (case cfg of None \<Rightarrow> True | Some c \<Rightarrow> (\<forall>s. 0 \<le> dgetd (stage_weights c) s 1))"

lemma weigh_mono:
  assumes "nonneg_weights cfg" and "stage s = stage s'" and "score_delta s \<le> score_delta s'"
  shows "score_delta (weigh cfg s) \<le> score_delta (weigh cfg s')"
proof -
  let ?w = "case cfg of None \<Rightarrow> 1 | Some c \<Rightarrow> dgetd (stage_weights c) (stage s') 1"
  have "0 \<le> ?w" using assms(1) by (auto simp: nonneg_weights_def split: option.splits)
  moreover have "(of_int (score_delta s) :: rat) \<le> of_int (score_delta s')" using assms(3) by simp
  ultimately have "of_int (score_delta s) * ?w \<le> of_int (score_delta s') * ?w"
    by (rule mult_right_mono [rotated])
  then show ?thesis unfolding weigh_def Let_def assms(2) by (simp add: trunc_rat_mono)
qed

definition riskier :: "stage_score \<Rightarrow> stage_score \<Rightarrow> bool" where
  "riskier s s' \<longleftrightarrow> stage s = stage s' \<and> score_delta s \<le> score_delta s'"

lemma total_of_mono:
  assumes "nonneg_weights cfg" and "list_all2 riskier ss ss'"
  shows "total_of (map (weigh cfg) ss) \<le> total_of (map (weigh cfg) ss')"
  using assms(2)
proof induction
  case Nil
  then show ?case by simp
next
  case (Cons s ss s' ss')
  then show ?case
    using weigh_mono [OF assms(1), of s s'] by (simp add: total_of_def riskier_def)
qed

lemma has_malware_mono:
  assumes "nonneg_weights cfg" and "list_all2 riskier ss ss'" and "has_malware (map (weigh cfg) ss)"
  shows "has_malware (map (weigh cfg) ss')"
  using assms(2,3)
proof induction
  case Nil
  then show ?case by (simp add: has_malware_def)
next
  case (Cons s ss s' ss')
  then show ?case
    using weigh_mono [OF assms(1), of s s'] by (auto simp: has_malware_def riskier_def)
qed

text \<open>C2: More risk never means a milder action: raising any stage scores, with non-negative weights and
  everything else the same, gives the same or a more severe action.\<close>
theorem decide_monotone:
  assumes "decide ss w q ab cfg vip cmp fb sh t = Inr d"
    and "decide ss' w q ab cfg vip cmp fb sh t = Inr d'"
    and "list_all2 riskier ss ss'" and "nonneg_weights cfg"
  shows "decision_action d \<le> decision_action d'"
proof -
  let ?s = "risk_total (map (weigh cfg) ss) fb vip cmp"
  let ?s' = "risk_total (map (weigh cfg) ss') fb vip cmp"
  have le: "?s \<le> ?s'"
    using total_of_mono [OF assms(4,3)] by (simp add: risk_total_def)
  have fwd: "FORWARD \<le> a" for a by (simp add: less_eq_action_def)
  show ?thesis
    using decide_core [OF assms(1)] decide_core [OF assms(2)]
      has_malware_mono [OF assms(4,3)] classify_mono [OF le] fwd
    by (auto simp: route_def split: option.splits if_splits)
qed

theorem decide_monotone_witness:
  "\<exists>d d'. decide [\<lparr>stage = ''auth'', score_delta = 10, stage_reasons = []\<rparr>] 30 70
        None None None None 0 None ''default'' = Inr d \<and>
     decide [\<lparr>stage = ''auth'', score_delta = 80, stage_reasons = []\<rparr>] 30 70
        None None None None 0 None ''default'' = Inr d' \<and> decision_action d \<le> decision_action d'"
proof -
  let ?ss = "\<lambda>n. [\<lparr>stage = ''auth'', score_delta = n, stage_reasons = []\<rparr>]"
  have ok: "is_ok (decide (?ss n) 30 70 None None None None 0 None ''default'')" for n
    using decide_error_iff [of "?ss n" 30 70 None None None None 0 None "''default''"]
    by (simp add: base_quarantine_def base_warn_def)
  obtain d where d: "decide (?ss 10) 30 70 None None None None 0 None ''default'' = Inr d"
    using ok by (auto simp: is_ok_iff)
  obtain d' where d': "decide (?ss 80) 30 70 None None None None 0 None ''default'' = Inr d'"
    using ok by (auto simp: is_ok_iff)
  from decide_monotone [OF d d'] d d' show ?thesis
    by (simp add: riskier_def nonneg_weights_def)
qed

text \<open>Shadow rules never touch live mail: with any shadow engine the decision differs from the one
  without it in the attached shadow result only.\<close>
theorem shadow_does_not_interfere:
  "decide ss w q ab cfg vip cmp fb None t =
   map_sum id (\<lambda>d. d\<lparr>decision_shadow := None\<rparr>) (decide ss w q ab cfg vip cmp fb (Some eng) t)"
  by (simp add: decide_def Let_def split_beta)

text \<open>VIP protection only ever tightens: with any VIP verdict the applied quarantine threshold stays
  above the warn threshold and at or below the tenant's, and the decision without overrides is at
  least as severe as with the verdict's boost but the tenant's own threshold.\<close>
theorem vip_only_tightens:
  assumes "decide ss w q None cfg vip cmp fb sh t = Inr d"
  shows "base_warn cfg w < snd (effective_thresholds cfg vip w q) \<and>
     snd (effective_thresholds cfg vip w q) \<le> base_quarantine cfg q \<and>
     classify (base_warn cfg w) (base_quarantine cfg q) (total_score d) \<le> decision_action d"
proof -
  have b: "base_warn cfg w < snd (effective_thresholds cfg vip w q)"
    "snd (effective_thresholds cfg vip w q) \<le> base_quarantine cfg q"
    using decide_Inr_thresholds [OF assms] by (simp_all add: effective_thresholds_def)
  have "decision_action d =
     classify (base_warn cfg w) (snd (effective_thresholds cfg vip w q)) (total_score d)"
    using decide_core [OF assms] by (simp add: route_def effective_thresholds_def)
  then have "classify (base_warn cfg w) (base_quarantine cfg q) (total_score d) \<le> decision_action d"
    using classify_antimono_quarantine [OF b(2)] by simp
  with b show ?thesis by blast
qed

theorem vip_only_tightens_witness:
  "\<exists>d. decide [] 30 70 None None (Some \<lparr>vip_detected = True, vip_name = ''ceo'',
        vip_score_boost = 25, lowered_quarantine_threshold = Some 10, vip_reasons = []\<rparr>)
        None 0 None ''default'' = Inr d \<and> classify 30 70 (total_score d) \<le> decision_action d"
proof -
  let ?v = "Some \<lparr>vip_detected = True, vip_name = ''ceo'', vip_score_boost = 25,
     lowered_quarantine_threshold = Some 10, vip_reasons = []\<rparr>"
  have "is_ok (decide [] 30 70 None None ?v None 0 None ''default'')"
    using decide_error_iff [of "[]" 30 70 None None ?v None 0 None "''default''"]
    by (simp add: base_quarantine_def base_warn_def)
  then obtain d where d: "decide [] 30 70 None None ?v None 0 None ''default'' = Inr d"
    by (auto simp: is_ok_iff)
  from vip_only_tightens [OF d] d show ?thesis
    by (simp add: base_quarantine_def base_warn_def)
qed

text \<open>The malware override is not unconditional: with the default thresholds, a stage score of 100 and
  the strongest trust an analyst's releases can earn a domain, the message is delivered (stripped),
  not quarantined.\<close>
theorem malware_can_be_delivered:
  "\<exists>d. decide [\<lparr>stage = ''attachments'', score_delta = 100, stage_reasons = [''malware'']\<rparr>] 30 70
        None None None None (- 40) None ''default'' = Inr d \<and>
     has_malware (stage_scores d) \<and> decision_action d = WARN_AND_STRIP"
proof -
  let ?ss = "[\<lparr>stage = ''attachments'', score_delta = 100, stage_reasons = [''malware'']\<rparr>]"
  have w: "map (weigh None) ?ss = ?ss" by (simp add: weigh_def trunc_rat_def)
  have "is_ok (decide ?ss 30 70 None None None None (- 40) None ''default'')"
    using decide_error_iff [of ?ss 30 70 None None None None "- 40" None "''default''"]
    by (simp add: base_quarantine_def base_warn_def)
  then obtain d where d: "decide ?ss 30 70 None None None None (- 40) None ''default'' = Inr d"
    by (auto simp: is_ok_iff)
  have "stage_scores d = ?ss"
    using d w by (auto simp: decide_def Let_def split_beta split: if_splits)
  moreover have "decision_action d = WARN_AND_STRIP"
    using decide_core [OF d] unfolding w
    by (simp add: route_def effective_thresholds_def base_warn_def base_quarantine_def
        vip_quarantine_def active_vip_def active_campaign_def risk_total_def total_of_def classify_def)
  ultimately show ?thesis using d by (auto simp: has_malware_def)
qed

end
