(* ===== verification/SPF.thy ===== *)
theory SPF
  imports IPAddress
begin

text \<open>
  \<open>auth_checker/spf.py\<close>: SPF evaluation with its shared budget of DNS lookups, the macro expansion
  of RFC 7208 section 7, and \<open>check_spf\<close>. The DNS resolver is a parameter: what each query returns.
  A query either finds nothing (\<open>NXDOMAIN\<close>, \<open>NoAnswer\<close>), fails with another DNS exception, or
  answers. Domain names and records are ASCII, so \<open>isdigit\<close> is read as the ten decimal digits.
\<close>

subsection \<open>DNS\<close>

datatype 'a dns =
    NoRecords
  | DnsError string
  | Answers "'a list"

record resolver =
  query_txt :: "string \<Rightarrow> string dns"
  query_a :: "string \<Rightarrow> string dns"
  query_aaaa :: "string \<Rightarrow> string dns"
  query_mx :: "string \<Rightarrow> string dns"
  query_ptr :: "string \<Rightarrow> string dns"

subsection \<open>Result codes and the lookup budget\<close>

datatype spf_code =
    SPF_PASS | SPF_FAIL | SPF_SOFTFAIL | SPF_NEUTRAL | SPF_NONE | SPF_TEMPERROR | SPF_PERMERROR

fun spf_value :: "spf_code \<Rightarrow> string" where
  "spf_value SPF_PASS = ''pass''"
| "spf_value SPF_FAIL = ''fail''"
| "spf_value SPF_SOFTFAIL = ''softfail''"
| "spf_value SPF_NEUTRAL = ''neutral''"
| "spf_value SPF_NONE = ''none''"
| "spf_value SPF_TEMPERROR = ''temperror''"
| "spf_value SPF_PERMERROR = ''permerror''"

record spf_result =
  spf_rcode :: spf_code
  spf_domain :: string
  spf_client_ip :: string
  spf_explanation :: string
  dns_lookups_used :: nat

definition max_dns_lookups :: nat where
  "max_dns_lookups = 10"

text \<open>\<open>_LookupBudget.spend\<close> on the number of lookups used: the new number, or \<^term>\<open>None\<close> when exhausted.\<close>

definition spend :: "nat \<Rightarrow> nat option" where
  "spend used = (if used \<ge> max_dns_lookups then None else Some (used + 1))"

subsection \<open>Macro expansion\<close>

record macro_env =
  me_sender :: string
  me_domain :: string
  me_client_ip :: string
  me_helo :: string

definition is_v6_text :: "string \<Rightarrow> bool" where
  "is_v6_text ip \<longleftrightarrow> CHR '':'' \<in> set ip"

definition local_part :: "macro_env \<Rightarrow> string" where
  "local_part env = (case rcut (CHR ''@'') (me_sender env) of None \<Rightarrow> me_sender env | Some (a, _) \<Rightarrow> a)"

definition sender_domain :: "macro_env \<Rightarrow> string" where
  "sender_domain env = (case rcut (CHR ''@'') (me_sender env) of None \<Rightarrow> me_domain env | Some (_, b) \<Rightarrow> b)"

definition macro_letter :: "macro_env \<Rightarrow> char \<Rightarrow> string" where
  "macro_letter env letter =
     (if letter = CHR ''s'' then me_sender env
      else if letter = CHR ''l'' then local_part env
      else if letter = CHR ''o'' then sender_domain env
      else if letter = CHR ''d'' then me_domain env
      else if letter = CHR ''i'' then me_client_ip env
      else if letter = CHR ''p'' then ''unknown''
      else if letter = CHR ''v'' then (if is_v6_text (me_client_ip env) then ''ip6'' else ''in-addr'')
      else if letter = CHR ''h'' then me_helo env
      else [letter])"

definition last_n :: "nat \<Rightarrow> 'a list \<Rightarrow> 'a list" where
  "last_n n xs = drop (length xs - n) xs"

definition apply_modifier :: "string \<Rightarrow> string \<Rightarrow> string" where
  "apply_modifier modifier val =
     (if modifier = [] then val
      else
        let reverse = (CHR ''r'' \<in> set (lower modifier));
            digits = filter is_digit modifier;
            count = digits_val digits;
            delims = filter (\<lambda>c. \<not> is_digit c \<and> lower_char c \<noteq> CHR ''r'') modifier;
            delim = (case delims of [] \<Rightarrow> CHR ''.'' | c # _ \<Rightarrow> c);
            parts = split_char delim val;
            parts1 = (if reverse then rev parts else parts);
            parts2 = (if count \<noteq> 0 \<and> count < length parts1 then last_n count parts1 else parts1)
        in join [delim] parts2)"

definition sub_macro :: "macro_env \<Rightarrow> string \<Rightarrow> string" where
  "sub_macro env inner = (case inner of [] \<Rightarrow> []
     | c # modifier \<Rightarrow> apply_modifier modifier (macro_letter env (lower_char c)))"

text \<open>\<open>re.sub(r'%\{[^}]+\}', ...)\<close>\<close>

function sub_macros :: "macro_env \<Rightarrow> string \<Rightarrow> string" where
  "sub_macros env [] = []"
| "sub_macros env (c # s) =
     (if c = CHR ''%'' \<and> starts_with ''{'' s then
        let inner = takeWhile (\<lambda>x. x \<noteq> CHR ''}'') (tl s);
            rest = dropWhile (\<lambda>x. x \<noteq> CHR ''}'') (tl s)
        in if inner \<noteq> [] \<and> rest \<noteq> [] then sub_macro env inner @ sub_macros env (tl rest)
           else c # sub_macros env s
      else c # sub_macros env s)"
  by pat_completeness auto
termination
proof (relation "measure (\<lambda>(env, s). length s)", simp_all)
  fix s :: string
  have "length (dropWhile (\<lambda>x. x \<noteq> CHR ''}'') (tl s)) \<le> length (tl s)" by (rule length_dropWhile_le)
  then show "length (dropWhile (\<lambda>x. x \<noteq> CHR ''}'') (tl s)) - Suc 0 < Suc (length s)" by simp
qed

definition expand_spf_macros :: "string \<Rightarrow> macro_env \<Rightarrow> string" where
  "expand_spf_macros txt env =
     (if CHR ''%'' \<notin> set txt then txt
      else sub_macros env
        (replace_str ''%-'' ''%20'' (replace_str ''%_'' '' '' (replace_str ''%%'' ''%'' txt))))"

lemma expand_spf_macros_plain: "CHR ''%'' \<notin> set txt \<Longrightarrow> expand_spf_macros txt env = txt"
  by (simp add: expand_spf_macros_def)

subsection \<open>Records and address matching\<close>

definition get_txt_records :: "resolver \<Rightarrow> string \<Rightarrow> string + string list" where
  "get_txt_records r domain = (case query_txt r domain of
     NoRecords \<Rightarrow> Inr [] | DnsError e \<Rightarrow> Inl e | Answers txts \<Rightarrow> Inr txts)"

datatype spf_lookup = NoSpfRecord | MultipleRecords | SpfRecord string

definition is_spf_text :: "string \<Rightarrow> bool" where
  "is_spf_text t = starts_with ''v=spf1'' (lower (strip t))"

definition find_spf_record :: "resolver \<Rightarrow> string \<Rightarrow> spf_lookup" where
  "find_spf_record r domain = (case get_txt_records r domain of
       Inl _ \<Rightarrow> NoSpfRecord
     | Inr txts \<Rightarrow> (case filter is_spf_text txts of
          [] \<Rightarrow> NoSpfRecord
        | [t] \<Rightarrow> SpfRecord t
        | _ \<Rightarrow> MultipleRecords))"

definition ip_matches_cidr :: "string \<Rightarrow> string \<Rightarrow> nat \<Rightarrow> bool" where
  "ip_matches_cidr ip cidr default_prefix =
     (let c = (if CHR ''/'' \<notin> set cidr then cidr @ ''/'' @ nat_str default_prefix else cidr) in
      case (ip_address ip, ip_network c) of
        (Some a, Some n) \<Rightarrow> in_network a n
      | _ \<Rightarrow> False)"

definition resolve_matches :: "resolver \<Rightarrow> string \<Rightarrow> string \<Rightarrow> bool \<Rightarrow> bool" where
  "resolve_matches r target client_ip is_ipv6 =
     (case (if is_ipv6 then query_aaaa r target else query_a r target) of
        Answers as \<Rightarrow> client_ip \<in> set as
      | _ \<Rightarrow> False)"

text \<open>The loop over the MX answers; each one spends a lookup, and running out means no match.\<close>

fun mx_loop :: "resolver \<Rightarrow> string list \<Rightarrow> string \<Rightarrow> bool \<Rightarrow> nat \<Rightarrow> bool \<times> nat" where
  "mx_loop r [] client_ip is_ipv6 used = (False, used)"
| "mx_loop r (mx # mxs) client_ip is_ipv6 used =
     (case spend used of
        None \<Rightarrow> (False, used)
      | Some used' \<Rightarrow>
          if resolve_matches r (rstrip_char (CHR ''.'') mx) client_ip is_ipv6 then (True, used')
          else mx_loop r mxs client_ip is_ipv6 used')"

definition mx_matches :: "resolver \<Rightarrow> string \<Rightarrow> string \<Rightarrow> bool \<Rightarrow> nat \<Rightarrow> bool \<times> nat" where
  "mx_matches r target client_ip is_ipv6 used = (case query_mx r target of
     Answers mxs \<Rightarrow> mx_loop r mxs client_ip is_ipv6 used
   | _ \<Rightarrow> (False, used))"

subsection \<open>_evaluate\<close>

definition qualifier_to_result :: "char \<Rightarrow> spf_code" where
  "qualifier_to_result q =
     (if q = CHR ''+'' then SPF_PASS
      else if q = CHR ''-'' then SPF_FAIL
      else if q = CHR ''~'' then SPF_SOFTFAIL
      else SPF_NEUTRAL)"

definition split_term :: "string \<Rightarrow> char \<times> string" where
  "split_term term = (case term of
       c # rest \<Rightarrow> if c \<in> {CHR ''+'', CHR ''-'', CHR ''~'', CHR ''?''} then (c, rest) else (CHR ''+'', term)
     | [] \<Rightarrow> (CHR ''+'', term))"

text \<open>\<open>mech.split(':', 1)[1].split('/')[0] if ':' in mech else domain\<close>, expanded.\<close>

definition mech_target :: "string \<Rightarrow> macro_env \<Rightarrow> string" where
  "mech_target mech env =
     expand_spf_macros (case cut (CHR '':'') mech of
         None \<Rightarrow> me_domain env
       | Some (_, t) \<Rightarrow> hd (split_char (CHR ''/'') t)) env"

definition is_mech :: "string \<Rightarrow> string \<Rightarrow> bool" where
  "is_mech name mech \<longleftrightarrow>
     mech = name \<or> starts_with (name @ '':'') mech \<or> starts_with (name @ ''/'') mech"

text \<open>What one term does: return a result, or go on with the budget and the redirect target.\<close>

datatype term_step = Return spf_code nat | Continue nat "string option"

text \<open>
  One iteration of the loop. \<open>sub dom used\<close> is the recursive evaluation of an included domain: its
  result and the budget afterwards.
\<close>

definition term_step ::
  "resolver \<Rightarrow> (string \<Rightarrow> nat \<Rightarrow> spf_code \<times> nat) \<Rightarrow> macro_env \<Rightarrow> string \<Rightarrow> nat \<Rightarrow> string option \<Rightarrow>
   term_step" where
  "term_step r sub env term used redirect =
     (let (qualifier, mech) = split_term term;
          ip = me_client_ip env;
          is_ipv6 = is_v6_text ip;
          result = qualifier_to_result qualifier
      in if mech = ''all'' then Return result used
         else if starts_with ''ip4:'' mech \<and> \<not> is_ipv6 then
           (if ip_matches_cidr ip (drop 4 mech) 32 then Return result used else Continue used redirect)
         else if starts_with ''ip6:'' mech \<and> is_ipv6 then
           (if ip_matches_cidr ip (drop 4 mech) 128 then Return result used else Continue used redirect)
         else if starts_with ''include:'' mech then
           (case spend used of
              None \<Rightarrow> Return SPF_PERMERROR used
            | Some used1 \<Rightarrow>
                (let (sub_result, used2) = sub (expand_spf_macros (drop 8 mech) env) used1 in
                 if sub_result = SPF_PASS then Return result used2
                 else if sub_result = SPF_PERMERROR then Return SPF_PERMERROR used2
                 else Continue used2 redirect))
         else if is_mech ''a'' mech then
           (case spend used of
              None \<Rightarrow> Return SPF_PERMERROR used
            | Some used1 \<Rightarrow>
                if resolve_matches r (mech_target mech env) ip is_ipv6 then Return result used1
                else Continue used1 redirect)
         else if is_mech ''mx'' mech then
           (case spend used of
              None \<Rightarrow> Return SPF_PERMERROR used
            | Some used1 \<Rightarrow>
                (let (matched, used2) = mx_matches r (mech_target mech env) ip is_ipv6 used1 in
                 if matched then Return result used2 else Continue used2 redirect))
         else if starts_with ''exists:'' mech then
           (case spend used of
              None \<Rightarrow> Return SPF_PERMERROR used
            | Some used1 \<Rightarrow>
                (case query_a r (expand_spf_macros (drop 7 mech) env) of
                   Answers (a # as) \<Rightarrow> Return result used1
                 | _ \<Rightarrow> Continue used1 redirect))
         else if starts_with ''redirect='' mech then
           Continue used (Some (expand_spf_macros (drop 9 mech) env))
         else Continue used redirect)"

fun spf_terms ::
  "resolver \<Rightarrow> (string \<Rightarrow> nat \<Rightarrow> spf_code \<times> nat) \<Rightarrow> macro_env \<Rightarrow> string list \<Rightarrow> nat \<Rightarrow>
   string option \<Rightarrow> spf_code \<times> nat" where
  "spf_terms r sub env [] used redirect =
     (case redirect of
        Some d \<Rightarrow>
          if d = [] then (SPF_NEUTRAL, used)
          else (case spend used of
                  None \<Rightarrow> (SPF_PERMERROR, used)
                | Some used1 \<Rightarrow> sub d used1)
      | None \<Rightarrow> (SPF_NEUTRAL, used))"
| "spf_terms r sub env (t # ts) used redirect =
     (case term_step r sub env t used redirect of
        Return c used' \<Rightarrow> (c, used')
      | Continue used' redirect' \<Rightarrow> spf_terms r sub env ts used' redirect')"

definition eval_env :: "string \<Rightarrow> string \<Rightarrow> string \<Rightarrow> macro_env" where
  "eval_env domain client_ip sender =
     \<lparr>me_sender = (if sender = [] then ''user@'' @ domain else sender), me_domain = domain,
      me_client_ip = client_ip, me_helo = ''unknown''\<rparr>"

text \<open>
  \<open>_evaluate\<close>. Its argument \<open>depth\<close> counts down here: \<open>left\<close> is \<open>11 - depth\<close>, so the guard
  \<open>depth > 10\<close> is \<open>left = 0\<close>.
\<close>

fun spf_evaluate ::
  "resolver \<Rightarrow> nat \<Rightarrow> string \<Rightarrow> string \<Rightarrow> nat \<Rightarrow> string \<Rightarrow> spf_code \<times> nat" where
  "spf_evaluate r 0 domain client_ip used sender = (SPF_PERMERROR, used)"
| "spf_evaluate r (Suc left) domain client_ip used sender =
     (case find_spf_record r domain of
        MultipleRecords \<Rightarrow> (SPF_PERMERROR, used)
      | NoSpfRecord \<Rightarrow> (SPF_NONE, used)
      | SpfRecord rec \<Rightarrow>
          (let env = eval_env domain client_ip sender in
           spf_terms r (\<lambda>d u. spf_evaluate r left d client_ip u (me_sender env)) env
             (tl (words rec)) used None))"

definition check_spf :: "resolver \<Rightarrow> string \<Rightarrow> string \<Rightarrow> string \<Rightarrow> spf_result" where
  "check_spf r domain client_ip sender =
     (let (code, used) = spf_evaluate r 11 domain client_ip 0 sender in
      \<lparr>spf_rcode = code, spf_domain = domain, spf_client_ip = client_ip,
       spf_explanation = spf_value code @ '' for '' @ client_ip @ '' against '' @ domain @
         CHR 0x27 # ''s SPF record'',
       dns_lookups_used = used\<rparr>)"

subsection \<open>The budget is never exceeded\<close>

lemma spend_Some: "spend used = Some u \<Longrightarrow> used < max_dns_lookups \<and> u = Suc used"
  by (auto simp: spend_def split: if_splits)

lemma mx_loop_budget:
  "used \<le> max_dns_lookups \<Longrightarrow> used \<le> snd (mx_loop r mxs ip v6 used) \<and>
   snd (mx_loop r mxs ip v6 used) \<le> max_dns_lookups"
proof (induction mxs arbitrary: used)
  case Nil
  then show ?case by simp
next
  case (Cons mx mxs)
  show ?case
  proof (cases "spend used")
    case None
    with Cons.prems show ?thesis by simp
  next
    case (Some u)
    with spend_Some [OF Some] Cons.IH [of u] show ?thesis by auto
  qed
qed

lemma mx_matches_budget:
  "used \<le> max_dns_lookups \<Longrightarrow> used \<le> snd (mx_matches r t ip v6 used) \<and>
   snd (mx_matches r t ip v6 used) \<le> max_dns_lookups"
  by (auto simp: mx_matches_def mx_loop_budget split: dns.splits)

fun step_used :: "term_step \<Rightarrow> nat" where
  "step_used (Return _ u) = u"
| "step_used (Continue u _) = u"

definition keeps_budget :: "(string \<Rightarrow> nat \<Rightarrow> spf_code \<times> nat) \<Rightarrow> bool" where
  "keeps_budget sub \<longleftrightarrow> (\<forall>d u. u \<le> max_dns_lookups \<longrightarrow>
     u \<le> snd (sub d u) \<and> snd (sub d u) \<le> max_dns_lookups)"

lemma term_step_budget:
  assumes "keeps_budget sub" and "used \<le> max_dns_lookups"
  shows "used \<le> step_used (term_step r sub env t used redirect) \<and>
     step_used (term_step r sub env t used redirect) \<le> max_dns_lookups"
proof (cases "spend used")
  case None
  with assms show ?thesis
    by (simp add: term_step_def Let_def split_beta split: dns.split list.split)
next
  case (Some u)
  then have u: "used \<le> u" "u \<le> max_dns_lookups" using spend_Some [OF Some] by auto
  then have "u \<le> snd (sub d u)" "snd (sub d u) \<le> max_dns_lookups" for d
    using assms(1) by (auto simp: keeps_budget_def)
  moreover have "u \<le> snd (mx_matches r d ip v6 u)" "snd (mx_matches r d ip v6 u) \<le> max_dns_lookups"
    for d ip v6 using mx_matches_budget [OF u(2)] by auto
  ultimately show ?thesis using Some u assms(2)
    by (auto simp: term_step_def Let_def split_beta intro: order_trans split: dns.split list.split)
qed

lemma spf_terms_budget:
  assumes "keeps_budget sub"
  shows "used \<le> max_dns_lookups \<Longrightarrow> used \<le> snd (spf_terms r sub env ts used redirect) \<and>
     snd (spf_terms r sub env ts used redirect) \<le> max_dns_lookups"
proof (induction ts arbitrary: used redirect)
  case Nil
  show ?case
  proof (cases "spend used")
    case None
    with Nil show ?thesis by (auto split: option.split)
  next
    case (Some u)
    then have u: "used \<le> u" "u \<le> max_dns_lookups" using spend_Some [OF Some] by auto
    then have "u \<le> snd (sub d u) \<and> snd (sub d u) \<le> max_dns_lookups" for d
      using assms(1) by (auto simp: keeps_budget_def)
    with u Some Nil show ?thesis by (auto split: option.split intro: order_trans)
  qed
next
  case (Cons t ts)
  have b: "used \<le> step_used (term_step r sub env t used redirect) \<and>
     step_used (term_step r sub env t used redirect) \<le> max_dns_lookups"
    using assms Cons.prems by (rule term_step_budget)
  show ?case
  proof (cases "term_step r sub env t used redirect")
    case (Return c u)
    with b show ?thesis by simp
  next
    case (Continue u red)
    with b Cons.IH [of u red] show ?thesis by auto
  qed
qed

lemma spf_evaluate_budget:
  "used \<le> max_dns_lookups \<Longrightarrow> used \<le> snd (spf_evaluate r left d ip used s) \<and>
     snd (spf_evaluate r left d ip used s) \<le> max_dns_lookups"
proof (induction left arbitrary: d used s)
  case 0
  then show ?case by simp
next
  case (Suc left)
  have "keeps_budget (\<lambda>d u. spf_evaluate r left d ip u s)" for s
    unfolding keeps_budget_def using Suc.IH by blast
  from spf_terms_budget [OF this Suc.prems] Suc.prems show ?case
    by (auto simp: Let_def split: spf_lookup.split)
qed

subsection \<open>How many questions a check asks\<close>

text \<open>A question to the resolver, and its answer. \<open>asks n r f\<close>: under the resolver \<open>r\<close>, what \<open>f\<close> computes is settled by at
  most \<open>n\<close> answers; however another resolver answers all other questions, the result is the same.\<close>

datatype question = AskTXT string | AskA string | AskAAAA string | AskMX string

fun dns_answer :: "resolver \<Rightarrow> question \<Rightarrow> string dns" where
  "dns_answer r (AskTXT d) = query_txt r d"
| "dns_answer r (AskA d) = query_a r d"
| "dns_answer r (AskAAAA d) = query_aaaa r d"
| "dns_answer r (AskMX d) = query_mx r d"

definition same_answers :: "question list \<Rightarrow> resolver \<Rightarrow> resolver \<Rightarrow> bool" where
  "same_answers qs r r' \<longleftrightarrow> map (dns_answer r') qs = map (dns_answer r) qs"

definition asks :: "nat \<Rightarrow> resolver \<Rightarrow> (resolver \<Rightarrow> 'a) \<Rightarrow> bool" where
  "asks n r f \<longleftrightarrow> (\<exists>qs. length qs \<le> n \<and> (\<forall>r'. same_answers qs r r' \<longrightarrow> f r' = f r))"

lemma asks_const: "asks n r (\<lambda>_. c)"
  by (auto simp: asks_def intro!: exI [of _ "[]"])

lemma asks_answer: "asks 1 r (\<lambda>r. dns_answer r q)"
  by (auto simp: asks_def same_answers_def intro!: exI [of _ "[q]"])

lemma asks_mono: "asks m r f \<Longrightarrow> m \<le> n \<Longrightarrow> asks n r f"
  unfolding asks_def by (meson order_trans)

lemma asks_bind:
  assumes "asks m r f" "asks k r (g (f r))" "m + k \<le> n"
  shows "asks n r (\<lambda>r'. g (f r') r')"
proof -
  from assms(1) obtain qs where qs: "length qs \<le> m" "\<And>r'. same_answers qs r r' \<Longrightarrow> f r' = f r" unfolding asks_def by blast
  from assms(2) obtain ps where ps: "length ps \<le> k" "\<And>r'. same_answers ps r r' \<Longrightarrow> g (f r) r' = g (f r) r" unfolding asks_def by blast
  have "g (f r') r' = g (f r) r" if "same_answers (qs @ ps) r r'" for r'
  proof -
    from that have "same_answers qs r r'" "same_answers ps r r'" by (simp_all add: same_answers_def)
    with qs(2) ps(2) show ?thesis by metis
  qed
  with qs(1) ps(1) assms(3) show ?thesis unfolding asks_def by (intro exI [of _ "qs @ ps"]) simp
qed

lemma asks_map: "asks n r f \<Longrightarrow> asks n r (\<lambda>r'. g (f r'))"
  unfolding asks_def by metis

lemma asks_resolve_matches: "asks 1 r (\<lambda>r. resolve_matches r t ip v6)"
  using asks_map [OF asks_answer [of r "AskAAAA t"], of "\<lambda>a. case a of Answers as \<Rightarrow> ip \<in> set as | _ \<Rightarrow> False"]
    asks_map [OF asks_answer [of r "AskA t"], of "\<lambda>a. case a of Answers as \<Rightarrow> ip \<in> set as | _ \<Rightarrow> False"]
  by (cases v6) (simp_all add: resolve_matches_def)

lemma asks_record: "asks 1 r (\<lambda>r. find_spf_record r d)"
  using asks_map [OF asks_answer [of r "AskTXT d"], of "\<lambda>a. case (case a of NoRecords \<Rightarrow> Inr [] | DnsError e \<Rightarrow> Inl e | Answers txts \<Rightarrow> Inr txts) of
       Inl _ \<Rightarrow> NoSpfRecord
     | Inr txts \<Rightarrow> (case filter is_spf_text txts of [] \<Rightarrow> NoSpfRecord | [t] \<Rightarrow> SpfRecord t | _ \<Rightarrow> MultipleRecords)"]
  by (simp add: find_spf_record_def get_txt_records_def)

text \<open>Every question after a record's own is paid for.\<close>

lemma asks_mx_loop:
  "used \<le> max_dns_lookups \<Longrightarrow> asks (snd (mx_loop r mxs ip v6 used) - used) r (\<lambda>r. mx_loop r mxs ip v6 used)"
proof (induction mxs arbitrary: used)
  case Nil
  then show ?case by (simp add: asks_const)
next
  case (Cons mx mxs)
  show ?case
  proof (cases "spend used")
    case None
    then show ?thesis by (simp add: asks_const)
  next
    case (Some u)
    from spend_Some [OF Some] have u: "u = Suc used" "u \<le> max_dns_lookups" by auto
    let ?m = "\<lambda>r. resolve_matches r (rstrip_char (CHR ''.'') mx) ip v6"
    have "asks (snd (if ?m r then (True, u) else mx_loop r mxs ip v6 u) - used) r
        (\<lambda>r'. if ?m r' then (True, u) else mx_loop r' mxs ip v6 u)"
    proof (rule asks_bind [OF asks_resolve_matches [of r "rstrip_char (CHR ''.'') mx" ip v6],
          where g = "\<lambda>b r'. if b then (True, u) else mx_loop r' mxs ip v6 u"])
      show "asks (snd (if ?m r then (True, u) else mx_loop r mxs ip v6 u) - u) r (\<lambda>r'. if ?m r then (True, u) else mx_loop r' mxs ip v6 u)"
        using Cons.IH [OF u(2)] by (simp add: asks_const)
    qed (use u mx_loop_budget [OF u(2), of r mxs ip v6] in auto)
    with Some show ?thesis by simp
  qed
qed

lemma asks_mx_matches:
  assumes "used \<le> max_dns_lookups"
  shows "asks (Suc (snd (mx_matches r t ip v6 used)) - used) r (\<lambda>r. mx_matches r t ip v6 used)"
proof -
  have "asks (Suc (snd (case dns_answer r (AskMX t) of Answers mxs \<Rightarrow> mx_loop r mxs ip v6 used | _ \<Rightarrow> (False, used))) - used) r
      (\<lambda>r'. case dns_answer r' (AskMX t) of Answers mxs \<Rightarrow> mx_loop r' mxs ip v6 used | _ \<Rightarrow> (False, used))"
  proof (rule asks_bind [OF asks_answer [of r "AskMX t"],
        where g = "\<lambda>a r'. case a of Answers mxs \<Rightarrow> mx_loop r' mxs ip v6 used | _ \<Rightarrow> (False, used)"])
    show "asks (snd (case dns_answer r (AskMX t) of Answers mxs \<Rightarrow> mx_loop r mxs ip v6 used | _ \<Rightarrow> (False, used)) - used) r
        (\<lambda>r'. case dns_answer r (AskMX t) of Answers mxs \<Rightarrow> mx_loop r' mxs ip v6 used | _ \<Rightarrow> (False, used))"
      using asks_mx_loop [OF assms] by (auto split: dns.split simp: asks_const)
  qed (use mx_loop_budget [OF assms] in \<open>auto split: dns.split simp: Suc_diff_le\<close>)
  then show ?thesis by (simp add: mx_matches_def)
qed

lemma asks_If:
  assumes "c \<Longrightarrow> asks (step_used (f r) - used) r f" "\<not> c \<Longrightarrow> asks (step_used (g r) - used) r g"
  shows "asks (step_used (if c then f r else g r) - used) r (\<lambda>r. if c then f r else g r)"
  using assms by (cases c) simp_all

definition paid_sub :: "resolver \<Rightarrow> (resolver \<Rightarrow> string \<Rightarrow> nat \<Rightarrow> spf_code \<times> nat) \<Rightarrow> bool" where
  "paid_sub r sub \<longleftrightarrow> keeps_budget (sub r) \<and>
     (\<forall>d u. u \<le> max_dns_lookups \<longrightarrow> asks (Suc (snd (sub r d u)) - u) r (\<lambda>r. sub r d u))"

lemma asks_term_step:
  assumes "paid_sub r sub" "used \<le> max_dns_lookups"
  shows "asks (step_used (term_step r (sub r) env t used red) - used) r (\<lambda>r. term_step r (sub r) env t used red)"
proof (cases "spend used")
  case None
  then show ?thesis
    unfolding term_step_def Let_def split_beta by (intro asks_If) (simp_all add: asks_const)
next
  case (Some u)
  from spend_Some [OF Some] have u: "u = Suc used" "u \<le> max_dns_lookups" by auto
  let ?R = "qualifier_to_result (fst (split_term t))"
  have incl: "asks (step_used (f (sub r d u)) - used) r (\<lambda>r. f (sub r d u))"
    if "\<And>x. step_used (f x) = snd x" for f d
  proof -
    have "asks (Suc (snd (sub r d u)) - u) r (\<lambda>r. sub r d u)" using assms(1) u(2) by (simp add: paid_sub_def)
    from asks_map [OF this, where g = f] u(1) that show ?thesis by simp
  qed
  have mx: "asks (step_used (f (mx_matches r d ip v6 u)) - used) r (\<lambda>r. f (mx_matches r d ip v6 u))"
    if "\<And>x. step_used (f x) = snd x" for f d ip v6
    using asks_map [OF asks_mx_matches [OF u(2), of r d ip v6], where g = f] u(1) that by simp
  have a: "asks (step_used (f (resolve_matches r d ip v6)) - used) r (\<lambda>r. f (resolve_matches r d ip v6))"
    if "\<And>x. step_used (f x) = u" for f d ip v6
    using asks_map [OF asks_resolve_matches [of r d ip v6], where g = f] u(1) that by simp
  have ex: "asks (step_used (f (query_a r d)) - used) r (\<lambda>r. f (query_a r d))"
    if "\<And>x. step_used (f x) = u" for f d
    using asks_map [OF asks_answer [of r "AskA d"], where g = f] u(1) that by simp
  note branches =
    incl [of "\<lambda>x. if fst x = SPF_PASS then Return ?R (snd x) else if fst x = SPF_PERMERROR then Return SPF_PERMERROR (snd x)
      else Continue (snd x) red"]
    a [of "\<lambda>x. if x then Return ?R u else Continue u red"]
    mx [of "\<lambda>x. if fst x then Return ?R (snd x) else Continue (snd x) red"]
    ex [of "\<lambda>x. case x of Answers (a # as) \<Rightarrow> Return ?R u | _ \<Rightarrow> Continue u red"]
  show ?thesis
    unfolding term_step_def Let_def split_beta Some option.case
    by (intro asks_If; (rule asks_const | rule branches, simp split: dns.split list.split))
qed

lemma asks_terms:
  assumes sub: "paid_sub r sub"
  shows "used \<le> max_dns_lookups \<Longrightarrow>
    asks (snd (spf_terms r (sub r) env ts used red) - used) r (\<lambda>r. spf_terms r (sub r) env ts used red)"
proof (induction ts arbitrary: used red)
  case Nil
  show ?case
  proof (cases "spend used")
    case None
    then show ?thesis by (cases red; cases "the red") (simp_all add: asks_const)
  next
    case (Some u)
    from spend_Some [OF Some] have u: "u = Suc used" "u \<le> max_dns_lookups" by auto
    have "asks (snd (sub r d u) - used) r (\<lambda>r. sub r d u)" for d
    proof -
      from sub u(2) have "asks (Suc (snd (sub r d u)) - u) r (\<lambda>r. sub r d u)" by (simp add: paid_sub_def)
      with u(1) show ?thesis by simp
    qed
    with Some show ?thesis by (cases red; cases "the red") (simp_all add: asks_const)
  qed
next
  case (Cons t ts)
  let ?s = "term_step r (sub r) env t used red"
  define rest where "rest = (\<lambda>st r. case st of Return c u \<Rightarrow> (c, u) | Continue u red' \<Rightarrow> spf_terms r (sub r) env ts u red')"
  have kb: "keeps_budget (sub r)" using sub by (simp add: paid_sub_def)
  have b: "used \<le> step_used ?s" "step_used ?s \<le> max_dns_lookups"
    using term_step_budget [OF kb Cons.prems] by auto
  have "step_used ?s \<le> snd (rest ?s r)"
    using b(2) spf_terms_budget [OF kb] by (cases ?s) (auto simp: rest_def)
  moreover have "asks (snd (rest ?s r) - step_used ?s) r (rest ?s)"
    using b(2) Cons.IH by (cases ?s) (auto simp: rest_def asks_const)
  ultimately have "asks (snd (rest ?s r) - used) r (\<lambda>r. rest (term_step r (sub r) env t used red) r)"
    using b(1) by (intro asks_bind [OF asks_term_step [OF sub Cons.prems], where g = rest]) auto
  then show ?case by (simp add: rest_def cong: term_step.case_cong)
qed

lemma asks_evaluate:
  "used \<le> max_dns_lookups \<Longrightarrow>
    asks (Suc (snd (spf_evaluate r left d ip used s)) - used) r (\<lambda>r. spf_evaluate r left d ip used s)"
proof (induction left arbitrary: d used s)
  case 0
  then show ?case by (simp add: asks_const)
next
  case (Suc left)
  define rest where "rest = (\<lambda>found r. case found of MultipleRecords \<Rightarrow> (SPF_PERMERROR, used) | NoSpfRecord \<Rightarrow> (SPF_NONE, used)
    | SpfRecord rec \<Rightarrow> (let env = eval_env d ip s in
        spf_terms r (\<lambda>d u. spf_evaluate r left d ip u (me_sender env)) env (tl (words rec)) used None))"
  have kb: "keeps_budget (\<lambda>d u. spf_evaluate r left d ip u s)" for s
    unfolding keeps_budget_def using spf_evaluate_budget by blast
  then have "paid_sub r (\<lambda>r d u. spf_evaluate r left d ip u s)" for s
    using Suc.IH by (simp add: paid_sub_def)
  note terms = asks_terms [OF this Suc.prems]
  have "asks (snd (rest f r) - used) r (rest f)" for f
    by (cases f) (simp_all add: rest_def Let_def asks_const terms)
  moreover have "used \<le> snd (rest f r)" for f
    using spf_terms_budget [OF kb Suc.prems] by (cases f) (auto simp: rest_def Let_def)
  moreover have "1 + (snd (rest f r) - used) \<le> Suc (snd (rest f r)) - used" if "used \<le> snd (rest f r)" for f
    using that by linarith
  ultimately have "asks (Suc (snd (rest (find_spf_record r d) r)) - used) r (\<lambda>r. rest (find_spf_record r d) r)"
    by (metis asks_bind [OF asks_record, where g = rest])
  then show ?case by (simp add: rest_def)
qed

text \<open>C7: Whatever records an attacker publishes and however they include and redirect to each other, one SPF check
  asks the resolver at most one question more than the lookups it counts, and counts at most ten: eleven answers
  settle its result, whatever the resolver would have said to any other question.\<close>
theorem spf_lookups_bounded:
  "asks (1 + dns_lookups_used (check_spf r domain ip sender)) r (\<lambda>r. check_spf r domain ip sender) \<and>
   dns_lookups_used (check_spf r domain ip sender) \<le> 10"
  using spf_evaluate_budget [of 0 r 11 domain ip sender]
    asks_map [OF asks_evaluate [of 0 r 11 domain ip sender], where g = "\<lambda>(code, used).
      \<lparr>spf_rcode = code, spf_domain = domain, spf_client_ip = ip,
       spf_explanation = spf_value code @ '' for '' @ ip @ '' against '' @ domain @ CHR 0x27 # ''s SPF record'',
       dns_lookups_used = used\<rparr>"]
  by (simp add: check_spf_def split_beta max_dns_lookups_def)

definition two_spf_records :: resolver where
  "two_spf_records = \<lparr>query_txt = (\<lambda>d. if d = ''a.io'' then Answers [''v=spf1 include:b.io -all''] else Answers [''v=spf1 a -all'']),
     query_a = (\<lambda>_. Answers [''10.0.0.1'']), query_aaaa = (\<lambda>_. NoRecords), query_mx = (\<lambda>_. NoRecords), query_ptr = (\<lambda>_. NoRecords)\<rparr>"

theorem spf_lookups_bounded_witness:
  "asks 3 two_spf_records (\<lambda>r. check_spf r ''a.io'' ''10.0.0.1'' [])"
proof -
  have "dns_lookups_used (check_spf two_spf_records ''a.io'' ''10.0.0.1'' []) = 2" by code_simp
  with spf_lookups_bounded [of two_spf_records "''a.io''" "''10.0.0.1''" "[]"] show ?thesis by (simp add: numeral_3_eq_3)
qed

subsection \<open>Errors of the resolver\<close>

lemma qualifier_no_temperror: "qualifier_to_result q \<noteq> SPF_TEMPERROR"
  by (simp add: qualifier_to_result_def)

lemma term_step_no_temperror: "term_step r sub env t used redirect \<noteq> Return SPF_TEMPERROR u"
  by (auto simp: term_step_def Let_def split_beta qualifier_no_temperror split: option.splits dns.splits list.splits)

lemma spf_terms_no_temperror:
  "(\<And>d u. fst (sub d u) \<noteq> SPF_TEMPERROR) \<Longrightarrow>
   fst (spf_terms r sub env ts used redirect) \<noteq> SPF_TEMPERROR"
proof (induction ts arbitrary: used redirect)
  case Nil
  then show ?case by (auto split: option.split)
next
  case (Cons t ts)
  show ?case
  proof (cases "term_step r sub env t used redirect")
    case (Return c u)
    with term_step_no_temperror [of r sub env t used redirect u] show ?thesis by auto
  next
    case (Continue u red)
    with Cons show ?thesis by simp
  qed
qed

lemma spf_evaluate_no_temperror: "fst (spf_evaluate r left d ip used s) \<noteq> SPF_TEMPERROR"
proof (induction left arbitrary: d used s)
  case (Suc left)
  then show ?case by (auto simp: Let_def spf_terms_no_temperror split: spf_lookup.split)
qed simp

text \<open>A DNS failure is never reported as a temporary error: a check never answers \<open>temperror\<close>, and
  when the query for the record itself fails it answers \<open>none\<close>, as if the domain had published no
  SPF record.\<close>
theorem spf_dns_failure_is_none:
  assumes "query_txt r domain = DnsError e"
  shows "spf_rcode (check_spf r domain ip sender) = SPF_NONE \<and>
    (\<forall>r' domain' ip' sender'. spf_rcode (check_spf r' domain' ip' sender') \<noteq> SPF_TEMPERROR)"
proof -
  have "fst (spf_evaluate r' 11 domain' ip' 0 sender') \<noteq> SPF_TEMPERROR" for r' domain' ip' sender'
    by (rule spf_evaluate_no_temperror)
  moreover have "spf_evaluate r (Suc 10) domain ip 0 sender = (SPF_NONE, 0)"
    using assms by (simp only: spf_evaluate.simps) (simp add: find_spf_record_def get_txt_records_def)
  ultimately show ?thesis by (simp add: check_spf_def split_beta)
qed

definition failing_resolver :: resolver where
  "failing_resolver = \<lparr>query_txt = (\<lambda>_. DnsError ''SERVFAIL''), query_a = (\<lambda>_. NoRecords),
     query_aaaa = (\<lambda>_. NoRecords), query_mx = (\<lambda>_. NoRecords), query_ptr = (\<lambda>_. NoRecords)\<rparr>"

theorem spf_dns_failure_is_none_witness:
  "spf_rcode (check_spf failing_resolver ''a.io'' ''10.1.2.3'' ''joe@a.io'') = SPF_NONE"
  using spf_dns_failure_is_none [of failing_resolver "''a.io''" "''SERVFAIL''" "''10.1.2.3''" "''joe@a.io''"]
  by (simp add: failing_resolver_def)

subsection \<open>A pass is earned\<close>

text \<open>
  What the published records authorise, without budget or order: a domain permits the client when
  one of its terms with a pass qualifier matches it, or when the domain of an \<open>include\<close> with a pass
  qualifier or of a \<open>redirect\<close> permits it.
\<close>

definition spf_terms_of :: "resolver \<Rightarrow> string \<Rightarrow> string list" where
  "spf_terms_of r domain = (case find_spf_record r domain of
     SpfRecord rec \<Rightarrow> tl (words rec) | _ \<Rightarrow> [])"

definition direct_match :: "resolver \<Rightarrow> macro_env \<Rightarrow> string \<Rightarrow> bool" where
  "direct_match r env mech \<longleftrightarrow>
     (let ip = me_client_ip env; v6 = is_v6_text ip in
      mech = ''all'' \<or>
      (starts_with ''ip4:'' mech \<and> ip_matches_cidr ip (drop 4 mech) 32) \<or>
      (starts_with ''ip6:'' mech \<and> ip_matches_cidr ip (drop 4 mech) 128) \<or>
      (is_mech ''a'' mech \<and> resolve_matches r (mech_target mech env) ip v6) \<or>
      (is_mech ''mx'' mech \<and> (\<exists>mxs mx. query_mx r (mech_target mech env) = Answers mxs \<and>
         mx \<in> set mxs \<and> resolve_matches r (rstrip_char (CHR ''.'') mx) ip v6)) \<or>
      (starts_with ''exists:'' mech \<and>
         (\<exists>a as. query_a r (expand_spf_macros (drop 7 mech) env) = Answers (a # as))))"

inductive permits :: "resolver \<Rightarrow> string \<Rightarrow> string \<Rightarrow> string \<Rightarrow> bool" for r ip where
  direct: "t \<in> set (spf_terms_of r d) \<Longrightarrow> split_term t = (CHR ''+'', mech) \<Longrightarrow>
     direct_match r (eval_env d ip s) mech \<Longrightarrow> permits r ip s d"
| included: "t \<in> set (spf_terms_of r d) \<Longrightarrow> split_term t = (CHR ''+'', mech) \<Longrightarrow>
     starts_with ''include:'' mech \<Longrightarrow>
     permits r ip (me_sender (eval_env d ip s)) (expand_spf_macros (drop 8 mech) (eval_env d ip s)) \<Longrightarrow>
     permits r ip s d"
| redirected: "t \<in> set (spf_terms_of r d) \<Longrightarrow> split_term t = (q, mech) \<Longrightarrow>
     starts_with ''redirect='' mech \<Longrightarrow>
     permits r ip (me_sender (eval_env d ip s)) (expand_spf_macros (drop 9 mech) (eval_env d ip s)) \<Longrightarrow>
     permits r ip s d"

lemma qualifier_pass: "split_term t = (q, m) \<Longrightarrow> qualifier_to_result q = SPF_PASS \<longleftrightarrow> q = CHR ''+''"
  by (simp add: qualifier_to_result_def)

lemma mx_loop_match:
  "fst (mx_loop r mxs ip v6 used) \<Longrightarrow>
   \<exists>mx \<in> set mxs. resolve_matches r (rstrip_char (CHR ''.'') mx) ip v6"
  by (induction mxs arbitrary: used) (auto split: option.splits if_splits)

lemma mx_matches_match:
  "fst (mx_matches r target ip v6 used) \<Longrightarrow>
   \<exists>mxs mx. query_mx r target = Answers mxs \<and> mx \<in> set mxs \<and>
     resolve_matches r (rstrip_char (CHR ''.'') mx) ip v6"
  using mx_loop_match by (fastforce simp: mx_matches_def split: dns.splits)

text \<open>A pass returned by one term: it has a pass qualifier, and matches or includes a pass.\<close>

definition passing_term ::
  "resolver \<Rightarrow> (string \<Rightarrow> nat \<Rightarrow> spf_code \<times> nat) \<Rightarrow> macro_env \<Rightarrow> string \<Rightarrow> bool" where
  "passing_term r sub env t \<longleftrightarrow> (\<exists>mech. split_term t = (CHR ''+'', mech) \<and>
     (direct_match r env mech \<or>
      (starts_with ''include:'' mech \<and>
       (\<exists>v. fst (sub (expand_spf_macros (drop 8 mech) env) v) = SPF_PASS))))"

definition redirect_target :: "macro_env \<Rightarrow> string \<Rightarrow> string \<Rightarrow> bool" where
  "redirect_target env t d \<longleftrightarrow> (\<exists>q mech. split_term t = (q, mech) \<and>
     starts_with ''redirect='' mech \<and> d = expand_spf_macros (drop 9 mech) env)"

lemma term_step_pass:
  assumes "term_step r sub env t used redirect = Return SPF_PASS u"
  shows "passing_term r sub env t"
proof -
  obtain q mech where t: "split_term t = (q, mech)" by (cases "split_term t")
  have q: "q = CHR ''+''"
    using assms t qualifier_pass [OF t]
    by (auto simp: term_step_def Let_def split_beta split: if_splits option.splits dns.splits list.splits)
  have "direct_match r env mech \<or> (starts_with ''include:'' mech \<and>
       (\<exists>v. fst (sub (expand_spf_macros (drop 8 mech) env) v) = SPF_PASS))"
  proof (cases "spend used")
    case None
    with assms t show ?thesis
      by (auto simp: term_step_def direct_match_def Let_def split_beta split: if_splits)
  next
    case (Some v)
    with assms t show ?thesis
      by (auto simp: term_step_def direct_match_def Let_def split_beta dest!: mx_matches_match
          split: if_splits dns.splits list.splits)
  qed
  with t q show ?thesis unfolding passing_term_def by blast
qed

lemma term_step_redirect:
  assumes "term_step r sub env t used redirect = Continue u redirect'"
  shows "redirect' = redirect \<or> (\<exists>d. redirect' = Some d \<and> redirect_target env t d)"
proof -
  obtain q mech where t: "split_term t = (q, mech)" by (cases "split_term t")
  with assms show ?thesis
    by (auto simp: term_step_def redirect_target_def Let_def split_beta
        split: if_splits option.splits dns.splits list.splits)
qed

lemma spf_terms_pass:
  assumes "fst (spf_terms r sub env ts used redirect) = SPF_PASS"
  shows "(\<exists>t\<in>set ts. passing_term r sub env t) \<or>
     (\<exists>d v. fst (sub d v) = SPF_PASS \<and>
        (redirect = Some d \<or> (\<exists>t\<in>set ts. redirect_target env t d)))"
  using assms
proof (induction ts arbitrary: used redirect)
  case Nil
  then show ?case by (auto split: option.splits if_splits)
next
  case (Cons t ts)
  show ?case
  proof (cases "term_step r sub env t used redirect")
    case (Return c u)
    with Cons.prems have "term_step r sub env t used redirect = Return SPF_PASS u" by simp
    from term_step_pass [OF this] show ?thesis by simp
  next
    case (Continue u red)
    with Cons.prems have "fst (spf_terms r sub env ts u red) = SPF_PASS" by simp
    from Cons.IH [OF this] term_step_redirect [OF Continue] show ?thesis by auto
  qed
qed

lemma spf_evaluate_pass:
  "fst (spf_evaluate r left d ip used s) = SPF_PASS \<Longrightarrow> permits r ip s d"
proof (induction left arbitrary: d used s)
  case (Suc left)
  let ?env = "eval_env d ip s"
  from Suc.prems obtain rec where rec: "find_spf_record r d = SpfRecord rec"
    and pass: "fst (spf_terms r (\<lambda>d u. spf_evaluate r left d ip u (me_sender ?env)) ?env
      (tl (words rec)) used None) = SPF_PASS"
    by (auto simp: Let_def split: spf_lookup.splits)
  have terms: "spf_terms_of r d = tl (words rec)" by (simp add: spf_terms_of_def rec)
  from spf_terms_pass [OF pass] terms consider
    (a) t where "t \<in> set (spf_terms_of r d)"
      "passing_term r (\<lambda>d u. spf_evaluate r left d ip u (me_sender ?env)) ?env t"
  | (b) t d' v where "t \<in> set (spf_terms_of r d)" "redirect_target ?env t d'"
      "fst (spf_evaluate r left d' ip v (me_sender ?env)) = SPF_PASS"
    by auto
  then show ?case
  proof cases
    case a
    then show ?thesis
      unfolding passing_term_def using Suc.IH permits.direct permits.included by blast
  next
    case b
    then show ?thesis
      unfolding redirect_target_def using Suc.IH permits.redirected by blast
  qed
qed simp

text \<open>C6: SPF answers pass only for a client the published records authorise: some term with a pass
  qualifier matches it, in the domain's own record or in one reached from it by passing includes
  and redirects.\<close>
theorem spf_pass_sound:
  assumes "spf_rcode (check_spf r domain ip sender) = SPF_PASS"
  shows "permits r ip sender domain"
  using assms spf_evaluate_pass [of r 11 domain ip 0 sender] by (simp add: check_spf_def split_beta)

definition example_resolver :: resolver where
  "example_resolver = \<lparr>query_txt = (\<lambda>d. if d = ''a.io'' then Answers [''v=spf1 ip4:10.0.0.0/8 -all''] else NoRecords),
     query_a = (\<lambda>_. NoRecords), query_aaaa = (\<lambda>_. NoRecords), query_mx = (\<lambda>_. NoRecords),
     query_ptr = (\<lambda>_. NoRecords)\<rparr>"

theorem spf_pass_sound_witness:
  "permits example_resolver ''10.1.2.3'' ''joe@a.io'' ''a.io''"
proof (rule spf_pass_sound)
  show "spf_rcode (check_spf example_resolver ''a.io'' ''10.1.2.3'' ''joe@a.io'') = SPF_PASS"
    by code_simp
qed

end
