(* ===== verification/DMARC.thy ===== *)
theory DMARC
  imports SPF
begin

text \<open>
  \<open>auth_checker/dmarc.py\<close> and \<open>auth_checker/alignment.py\<close> with the result types of
  \<open>auth_checker/models.py\<close> they use: the lookup and parsing of DMARC records, and the alignment of
  the SPF and DKIM identifiers with the From domain. The optional package \<open>publicsuffix2\<close> is a
  parameter \<open>psl\<close>: \<^term>\<open>None\<close> when it is not installed, else its \<open>get_public_suffix\<close>, which
  answers the empty text for "no answer".
\<close>

subsection \<open>Result types\<close>

datatype dkim_code = DKIM_PASS | DKIM_FAIL | DKIM_NONE | DKIM_TEMPERROR | DKIM_PERMERROR

fun dkim_value :: "dkim_code \<Rightarrow> string" where
  "dkim_value DKIM_PASS = ''pass''"
| "dkim_value DKIM_FAIL = ''fail''"
| "dkim_value DKIM_NONE = ''none''"
| "dkim_value DKIM_TEMPERROR = ''temperror''"
| "dkim_value DKIM_PERMERROR = ''permerror''"

datatype dmarc_policy = P_NONE | P_QUARANTINE | P_REJECT

fun policy_value :: "dmarc_policy \<Rightarrow> string" where
  "policy_value P_NONE = ''none''"
| "policy_value P_QUARANTINE = ''quarantine''"
| "policy_value P_REJECT = ''reject''"

datatype dmarc_code = DMARC_PASS | DMARC_FAIL | DMARC_NONE | DMARC_TEMPERROR | DMARC_PERMERROR

fun dmarc_value :: "dmarc_code \<Rightarrow> string" where
  "dmarc_value DMARC_PASS = ''pass''"
| "dmarc_value DMARC_FAIL = ''fail''"
| "dmarc_value DMARC_NONE = ''none''"
| "dmarc_value DMARC_TEMPERROR = ''temperror''"
| "dmarc_value DMARC_PERMERROR = ''permerror''"

record dkim_result =
  dkim_rcode :: dkim_code
  signing_domain :: string
  dkim_selector :: string
  dkim_explanation :: string

record dmarc_result =
  dmarc_rcode :: dmarc_code
  record_found :: bool
  dmarc_pol :: dmarc_policy
  subdomain_policy :: "dmarc_policy option"
  pct :: int
  spf_alignment_mode :: string
  dkim_alignment_mode :: string
  spf_aligned :: bool
  dkim_aligned :: bool
  organizational_domain :: string
  dmarc_explanation :: string

text \<open>A \<open>DMARCResult\<close> with the defaults of its optional fields.\<close>

definition dmarc_default :: "dmarc_code \<Rightarrow> dmarc_result" where
  "dmarc_default c = \<lparr>dmarc_rcode = c, record_found = False, dmarc_pol = P_NONE,
     subdomain_policy = None, pct = 100, spf_alignment_mode = ''r'', dkim_alignment_mode = ''r'',
     spf_aligned = False, dkim_aligned = False, organizational_domain = [], dmarc_explanation = []\<rparr>"

subsection \<open>Organizational domains\<close>

definition last_two_labels :: "string \<Rightarrow> string" where
  "last_two_labels d =
     (let labels = split_char (CHR ''.'') d in
      if length labels \<ge> 2 then join ''.'' (last_n 2 labels) else d)"

definition org_domain :: "(string \<Rightarrow> string) option \<Rightarrow> string \<Rightarrow> string" where
  "org_domain psl domain =
     (let domain_clean = lower (strip_char (CHR ''.'') domain) in
      case psl of
        None \<Rightarrow> last_two_labels domain_clean
      | Some get \<Rightarrow> (let res = get domain_clean in
          if res \<noteq> [] then res else last_two_labels domain_clean))"

subsection \<open>Fetching and parsing the record\<close>

definition fetch_dmarc_txt :: "resolver \<Rightarrow> string \<Rightarrow> string + string option" where
  "fetch_dmarc_txt r domain = (case query_txt r (''_dmarc.'' @ domain) of
       NoRecords \<Rightarrow> Inr None
     | DnsError e \<Rightarrow> Inl e
     | Answers txts \<Rightarrow>
         (let records = filter (\<lambda>t. starts_with ''v=dmarc1'' (lower (strip t))) txts in
          if length records \<noteq> 1 then Inr None else Inr (Some (hd records))))"

definition add_tag :: "(string, string) dict \<Rightarrow> string \<Rightarrow> (string, string) dict" where
  "add_tag tags part = (case cut (CHR ''='') (strip part) of
       None \<Rightarrow> tags
     | Some (k, v) \<Rightarrow> dset tags (lower (strip k)) (strip v))"

definition parse_tags :: "string \<Rightarrow> (string, string) dict" where
  "parse_tags record = foldl add_tag [] (split_char (CHR '';'') record)"

definition policy_of :: "string \<Rightarrow> dmarc_policy" where
  "policy_of v =
     (if lower v = ''quarantine'' then P_QUARANTINE
      else if lower v = ''reject'' then P_REJECT else P_NONE)"

definition alignment_tag :: "(string, string) dict \<Rightarrow> string \<Rightarrow> string" where
  "alignment_tag tags k = (if lower (dgetd tags k ''r'') = ''s'' then ''s'' else ''r'')"

definition pct_tag :: "(string, string) dict \<Rightarrow> int" where
  "pct_tag tags = (case py_int (dgetd tags ''pct'' ''100'') of None \<Rightarrow> 100 | Some n \<Rightarrow> n)"

definition dmarc_of_tags :: "(string, string) dict \<Rightarrow> string \<Rightarrow> dmarc_result" where
  "dmarc_of_tags tags org = (case dget tags ''p'' of
       None \<Rightarrow> (dmarc_default DMARC_PERMERROR)
         \<lparr>dmarc_explanation := ''DMARC record missing required p= tag''\<rparr>
     | Some p \<Rightarrow> (dmarc_default DMARC_NONE)
         \<lparr>record_found := True,
          dmarc_pol := policy_of p,
          subdomain_policy := map_option policy_of (dget tags ''sp''),
          pct := max 0 (min 100 (pct_tag tags)),
          spf_alignment_mode := alignment_tag tags ''aspf'',
          dkim_alignment_mode := alignment_tag tags ''adkim'',
          organizational_domain := org,
          dmarc_explanation := ''policy='' @ policy_value (policy_of p) @ '' pct='' @ int_str (pct_tag tags)\<rparr>)"

text \<open>The record of the From domain, else the one of its organizational domain.\<close>

definition find_dmarc_record ::
    "(string \<Rightarrow> string) option \<Rightarrow> resolver \<Rightarrow> string \<Rightarrow> string + string option \<times> string" where
  "find_dmarc_record psl r from_domain = (case fetch_dmarc_txt r from_domain of
       Inl e \<Rightarrow> Inl e
     | Inr (Some t) \<Rightarrow> Inr (Some t, from_domain)
     | Inr None \<Rightarrow>
         (let org = org_domain psl from_domain in
          if org = from_domain then Inr (None, org)
          else (case fetch_dmarc_txt r org of Inl e \<Rightarrow> Inl e | Inr t \<Rightarrow> Inr (t, org))))"

definition fetch_dmarc_policy :: "(string \<Rightarrow> string) option \<Rightarrow> resolver \<Rightarrow> string \<Rightarrow> dmarc_result" where
  "fetch_dmarc_policy psl r from_domain = (case find_dmarc_record psl r from_domain of
       Inl e \<Rightarrow> (dmarc_default DMARC_TEMPERROR)\<lparr>dmarc_explanation := ''DNS error: '' @ e\<rparr>
     | Inr (None, org) \<Rightarrow> (dmarc_default DMARC_NONE)
         \<lparr>dmarc_explanation := ''no DMARC record published'', organizational_domain := org\<rparr>
     | Inr (Some t, org) \<Rightarrow> dmarc_of_tags (parse_tags t) org)"

subsection \<open>alignment.py\<close>

definition domain_key :: "string \<Rightarrow> string" where
  "domain_key d = rstrip_char (CHR ''.'') (lower d)"

definition domains_aligned :: "(string \<Rightarrow> string) option \<Rightarrow> string \<Rightarrow> string \<Rightarrow> string \<Rightarrow> bool" where
  "domains_aligned psl candidate from_domain mode =
     (if candidate = [] then False
      else if mode = ''s'' then domain_key candidate = domain_key from_domain
      else org_domain psl (domain_key candidate) = org_domain psl (domain_key from_domain))"

definition evaluate_dmarc ::
    "(string \<Rightarrow> string) option \<Rightarrow> string \<Rightarrow> spf_result \<Rightarrow> dkim_result \<Rightarrow> dmarc_result \<Rightarrow> dmarc_result" where
  "evaluate_dmarc psl from_domain spf dkim rec =
     (if \<not> record_found rec \<or> dmarc_rcode rec \<in> {DMARC_PERMERROR, DMARC_TEMPERROR} then rec
      else
        let sa = (spf_rcode spf = SPF_PASS \<and>
              domains_aligned psl (spf_domain spf) from_domain (spf_alignment_mode rec));
            da = (dkim_rcode dkim = DKIM_PASS \<and>
              domains_aligned psl (signing_domain dkim) from_domain (dkim_alignment_mode rec))
        in rec\<lparr>spf_aligned := sa, dkim_aligned := da,
             dmarc_rcode := (if sa \<or> da then DMARC_PASS else DMARC_FAIL),
             dmarc_explanation := ''policy='' @ policy_value (dmarc_pol rec) @ '' spf_aligned='' @
               bool_str sa @ '' dkim_aligned='' @ bool_str da\<rparr>)"

subsection \<open>Facts\<close>

lemma aligned_same_org:
  "domains_aligned psl c d mode \<Longrightarrow> org_domain psl (domain_key c) = org_domain psl (domain_key d)"
  by (auto simp: domains_aligned_def split: if_splits)

lemma dmarc_of_tags_code: "dmarc_rcode (dmarc_of_tags tags org) \<in> {DMARC_NONE, DMARC_PERMERROR}"
  by (auto simp: dmarc_of_tags_def dmarc_default_def split: option.splits)

lemma fetch_dmarc_code:
  "dmarc_rcode (fetch_dmarc_policy psl r d) \<in> {DMARC_NONE, DMARC_PERMERROR, DMARC_TEMPERROR}"
  using dmarc_of_tags_code
  by (auto simp: fetch_dmarc_policy_def dmarc_default_def split: sum.splits option.splits)

lemma fetch_dmarc_found:
  "record_found (fetch_dmarc_policy psl r d) \<longleftrightarrow>
     (\<exists>t org. find_dmarc_record psl r d = Inr (Some t, org) \<and> dget (parse_tags t) ''p'' \<noteq> None)"
  by (auto simp: fetch_dmarc_policy_def dmarc_of_tags_def dmarc_default_def
      split: sum.splits option.splits)

text \<open>C8: A message passes DMARC only if SPF passed, or a DKIM signature verified, for a domain with the
  organizational domain of the visible From address; and under a strict alignment mode only for
  the From domain itself. Whatever the published record says, an attacker who authenticates only
  foreign domains does not pass.\<close>
theorem dmarc_pass_sound:
  assumes "dmarc_rcode (evaluate_dmarc psl from_domain spf dkim (fetch_dmarc_policy psl r from_domain)) = DMARC_PASS"
  shows "\<exists>d. (spf_rcode spf = SPF_PASS \<and> d = spf_domain spf \<or>
              dkim_rcode dkim = DKIM_PASS \<and> d = signing_domain dkim) \<and> d \<noteq> [] \<and>
     org_domain psl (domain_key d) = org_domain psl (domain_key from_domain) \<and>
     (spf_alignment_mode (fetch_dmarc_policy psl r from_domain) = ''s'' \<and>
      dkim_alignment_mode (fetch_dmarc_policy psl r from_domain) = ''s'' \<longrightarrow>
        domain_key d = domain_key from_domain)"
proof -
  let ?f = "fetch_dmarc_policy psl r from_domain"
  have "dmarc_rcode ?f \<noteq> DMARC_PASS" using fetch_dmarc_code [of psl r from_domain] by auto
  with assms have "spf_rcode spf = SPF_PASS \<and> domains_aligned psl (spf_domain spf) from_domain (spf_alignment_mode ?f)
    \<or> dkim_rcode dkim = DKIM_PASS \<and> domains_aligned psl (signing_domain dkim) from_domain (dkim_alignment_mode ?f)"
    by (auto simp: evaluate_dmarc_def Let_def split: if_splits)
  then show ?thesis
    using aligned_same_org by (auto simp: domains_aligned_def split: if_splits)
qed

definition example_dkim :: "dkim_code \<Rightarrow> string \<Rightarrow> dkim_result" where
  "example_dkim c d = \<lparr>dkim_rcode = c, signing_domain = d, dkim_selector = ''s1'', dkim_explanation = []\<rparr>"

definition example_spf :: "spf_code \<Rightarrow> string \<Rightarrow> spf_result" where
  "example_spf c d = \<lparr>spf_rcode = c, spf_domain = d, spf_client_ip = ''10.0.0.1'', spf_explanation = [],
     dns_lookups_used = 1\<rparr>"

text \<open>A zone with one DMARC record.\<close>

definition dmarc_zone :: "string \<Rightarrow> string \<Rightarrow> resolver" where
  "dmarc_zone d t = example_resolver\<lparr>query_txt := (\<lambda>q. if q = ''_dmarc.'' @ d then Answers [t] else NoRecords)\<rparr>"

theorem dmarc_pass_sound_witness:
  "\<exists>d. (SPF_FAIL = SPF_PASS \<and> d = ''b.io'' \<or> DKIM_PASS = DKIM_PASS \<and> d = ''A.io'') \<and> d \<noteq> [] \<and>
     org_domain None (domain_key d) = org_domain None (domain_key ''a.io'') \<and>
     domain_key d = domain_key ''a.io''"
proof -
  let ?r = "dmarc_zone ''a.io'' ''v=DMARC1; p=reject; aspf=s; adkim=s''"
  have "dmarc_rcode (evaluate_dmarc None ''a.io'' (example_spf SPF_FAIL ''b.io'') (example_dkim DKIM_PASS ''A.io'')
      (fetch_dmarc_policy None ?r ''a.io'')) = DMARC_PASS" by code_simp
  moreover have "spf_alignment_mode (fetch_dmarc_policy None ?r ''a.io'') = ''s''"
    "dkim_alignment_mode (fetch_dmarc_policy None ?r ''a.io'') = ''s''" by code_simp+
  ultimately show ?thesis
    using dmarc_pass_sound [of None "''a.io''" "example_spf SPF_FAIL ''b.io''"
        "example_dkim DKIM_PASS ''A.io''" ?r]
    by (auto simp: example_spf_def example_dkim_def)
qed

subsection \<open>Relaxed alignment of subdomains\<close>

definition plain_domain :: "string \<Rightarrow> bool" where
  "plain_domain d \<longleftrightarrow> d \<noteq> [] \<and> lower d = d \<and> hd d \<noteq> CHR ''.'' \<and> last d \<noteq> CHR ''.''"

lemma split_char_two: "split_char c (a @ c # b) = split_char c a @ split_char c b"
proof (induction a)
  case (Cons x a)
  then show ?case by (cases "split_char c a") auto
qed simp

lemma plain_domain_clean:
  assumes "plain_domain d"
  shows "domain_key d = d" "lower (strip_char (CHR ''.'') d) = d"
proof -
  have "dropWhile (\<lambda>x. x = CHR ''.'') (rev d) = rev d"
    using assms by (cases d rule: rev_cases) (auto simp: plain_domain_def)
  moreover have "dropWhile (\<lambda>x. x = CHR ''.'') d = d"
    using assms by (cases d) (auto simp: plain_domain_def)
  ultimately show "domain_key d = d" "lower (strip_char (CHR ''.'') d) = d"
    using assms by (simp_all add: domain_key_def strip_char_def rstrip_char_def rstrip_by_def
        lstrip_by_def plain_domain_def)
qed

lemma plain_domain_sub:
  "plain_domain sub \<Longrightarrow> plain_domain d \<Longrightarrow> plain_domain (sub @ CHR ''.'' # d)"
  by (auto simp: plain_domain_def lower_def lower_char_def)

lemma org_domain_sub:
  assumes "plain_domain sub" "plain_domain d" "2 \<le> length (split_char (CHR ''.'') d)"
  shows "org_domain None (sub @ CHR ''.'' # d) = org_domain None d"
  using assms plain_domain_clean(2) [OF plain_domain_sub [OF assms(1,2)]]
  by (simp add: org_domain_def last_two_labels_def split_char_two plain_domain_clean last_n_def Let_def)

text \<open>Under relaxed alignment a signature by a subdomain of the From domain, or by its parent with
  at least two labels, passes DMARC once the domain publishes a policy (organizational domains by
  the two-label rule used without the public suffix list).\<close>
theorem subdomain_signature_passes:
  assumes "plain_domain sub" "plain_domain d" "2 \<le> length (split_char (CHR ''.'') d)"
    and "(from_domain, signer) = (d, sub @ CHR ''.'' # d) \<or> (from_domain, signer) = (sub @ CHR ''.'' # d, d)"
    and "rec = fetch_dmarc_policy None r from_domain" "record_found rec" "dkim_alignment_mode rec = ''r''"
    and "dkim_rcode dkim = DKIM_PASS" "signing_domain dkim = signer"
  shows "dmarc_rcode (evaluate_dmarc None from_domain spf dkim rec) = DMARC_PASS"
proof -
  have key: "domain_key (sub @ CHR ''.'' # d) = sub @ CHR ''.'' # d" "domain_key d = d"
    using plain_domain_clean(1) plain_domain_sub assms(1,2) by blast+
  have "domains_aligned None signer from_domain ''r''"
    using assms(2,4) org_domain_sub [OF assms(1-3)] key
    by (auto simp: domains_aligned_def plain_domain_def)
  moreover have "dmarc_rcode rec = DMARC_NONE"
    using assms(5,6) fetch_dmarc_found [of None r from_domain]
    by (auto simp: fetch_dmarc_policy_def dmarc_of_tags_def dmarc_default_def split: option.splits)
  ultimately show ?thesis using assms(6-) by (simp add: evaluate_dmarc_def Let_def)
qed

theorem subdomain_signature_passes_witness:
  "dmarc_rcode (evaluate_dmarc None ''a.io'' (example_spf SPF_NONE ''a.io'') (example_dkim DKIM_PASS ''mail.a.io'')
     (fetch_dmarc_policy None (dmarc_zone ''a.io'' ''v=DMARC1; p=none'') ''a.io'')) = DMARC_PASS"
proof (rule subdomain_signature_passes [where sub = "''mail''" and d = "''a.io''" and signer = "''mail.a.io''"])
  show "record_found (fetch_dmarc_policy None (dmarc_zone ''a.io'' ''v=DMARC1; p=none'') ''a.io'')"
    "dkim_alignment_mode (fetch_dmarc_policy None (dmarc_zone ''a.io'' ''v=DMARC1; p=none'') ''a.io'') = ''r''"
    "plain_domain ''mail''" "plain_domain ''a.io''" "2 \<le> length (split_char (CHR ''.'') ''a.io'')"
    by code_simp+
qed (simp_all add: example_dkim_def)

subsection \<open>Printing and parsing a record\<close>

text \<open>One tag as it is written: padding, name, equals sign, value.\<close>

definition tag_text :: "string \<times> string \<times> string \<Rightarrow> string" where
  "tag_text t = fst t @ fst (snd t) @ CHR ''='' # snd (snd t)"

definition good_tag :: "string \<times> string \<times> string \<Rightarrow> bool" where
  "good_tag t \<longleftrightarrow> (case t of (pad, k, v) \<Rightarrow>
     list_all is_space pad \<and> trimmed k \<and> lower k = k \<and> CHR ''='' \<notin> set k \<and> trimmed v \<and>
     CHR '';'' \<notin> set k \<union> set v)"

lemma trimmed_tag:
  "trimmed k \<Longrightarrow> trimmed v \<Longrightarrow> trimmed (k @ CHR ''='' # v)"
  by (cases k; cases v) (auto simp: trimmed_def is_space_def)

lemma add_tag_text: "good_tag t \<Longrightarrow> add_tag tags (tag_text t) = dset tags (fst (snd t)) (snd (snd t))"
  by (auto simp: good_tag_def add_tag_def tag_text_def strip_padded trimmed_tag cut_append strip_trimmed
      split: prod.splits)

text \<open>Parsing a written DMARC or BIMI record gives back its tags in order, whatever spaces
  precede the names.\<close>
theorem parse_tags_roundtrip:
  assumes "list_all good_tag ts" "ts \<noteq> []" "distinct (map (fst \<circ> snd) ts)"
  shows "parse_tags (join '';'' (map tag_text ts)) = map snd ts"
proof -
  have sep: "CHR '';'' \<notin> set (tag_text t)" if "t \<in> set ts" for t
  proof -
    from assms(1) that have "good_tag t" by (simp add: list_all_iff)
    moreover have "\<not> is_space (CHR '';'')" by code_simp
    ultimately show ?thesis by (auto simp: good_tag_def tag_text_def list_all_iff split: prod.splits)
  qed
  have "foldl add_tag d (map tag_text ts) = foldl (\<lambda>d p. dset d (fst p) (snd p)) d (map snd ts)" for d
    using assms(1) by (induction ts arbitrary: d) (auto simp: add_tag_text)
  moreover have "split_char (CHR '';'') (join '';'' (map tag_text ts)) = map tag_text ts"
    using sep assms(2) by (intro split_char_join) auto
  ultimately show ?thesis
    using foldl_dset_distinct [of "[]" "map snd ts"] assms(3) by (simp add: parse_tags_def comp_def)
qed

theorem parse_tags_roundtrip_witness:
  "parse_tags ''v=DMARC1; p=reject; pct=50'' = [(''v'', ''DMARC1''), (''p'', ''reject''), (''pct'', ''50'')]"
proof -
  let ?ts = "[([], ''v'', ''DMARC1''), ('' '', ''p'', ''reject''), ('' '', ''pct'', ''50'')]"
  have "list_all good_tag ?ts" "?ts \<noteq> []" "distinct (map (fst \<circ> snd) ?ts)"
    "join '';'' (map tag_text ?ts) = ''v=DMARC1; p=reject; pct=50''" by code_simp+
  from parse_tags_roundtrip [OF this(1-3)] this(4) show ?thesis by simp
qed

end
