(* ===== verification/Regex.thy ===== *)
theory Regex
  imports Prelude
begin

text \<open>
  The part of Python's \<open>re\<close> the gateway's patterns use: a backtracking matcher that lists the ends
  of the matches from a position in the order Python tries them, with numbered groups. \<open>rsearch\<close> is
  \<open>re.search\<close>, \<open>rsub\<close> is \<open>Pattern.sub\<close>. A star stops when its body consumes nothing, as Python's does.
\<close>

subsection \<open>Patterns\<close>

datatype re =
    Sat "char \<Rightarrow> bool"
  | Eps
  | Seq re re
  | Alt re re
  | Star re
  | LazyStar re
  | Opt re
  | Cap nat re
  | WordBoundary
  | Ahead re
  | NotAhead re
  | AtEnd

type_synonym captures = "(nat \<times> nat \<times> nat) list"

text \<open>The iterations of a star from one position, at most \<open>n\<close> of them.\<close>

fun greedy :: "(nat \<times> captures \<Rightarrow> (nat \<times> captures) list) \<Rightarrow> nat \<Rightarrow> nat \<times> captures \<Rightarrow>
    (nat \<times> captures) list" where
  "greedy f 0 x = [x]"
| "greedy f (Suc n) x =
     concat (map (\<lambda>y. if fst y > fst x then greedy f n y else []) (f x)) @ [x]"

fun lazy :: "(nat \<times> captures \<Rightarrow> (nat \<times> captures) list) \<Rightarrow> nat \<Rightarrow> nat \<times> captures \<Rightarrow>
    (nat \<times> captures) list" where
  "lazy f 0 x = [x]"
| "lazy f (Suc n) x =
     x # concat (map (\<lambda>y. if fst y > fst x then lazy f n y else []) (f x))"

definition word_at :: "string \<Rightarrow> nat \<Rightarrow> bool" where
  "word_at s i \<longleftrightarrow> i < length s \<and> is_word (s ! i)"

definition at_boundary :: "string \<Rightarrow> nat \<Rightarrow> bool" where
  "at_boundary s i \<longleftrightarrow> (0 < i \<and> word_at s (i - 1)) \<noteq> word_at s i"

primrec rmatch :: "re \<Rightarrow> string \<Rightarrow> nat \<times> captures \<Rightarrow> (nat \<times> captures) list" where
  "rmatch (Sat P) s x =
     (if fst x < length s \<and> P (s ! fst x) then [(Suc (fst x), snd x)] else [])"
| "rmatch Eps s x = [x]"
| "rmatch (Seq r q) s x = concat (map (rmatch q s) (rmatch r s x))"
| "rmatch (Alt r q) s x = rmatch r s x @ rmatch q s x"
| "rmatch (Star r) s x = greedy (rmatch r s) (Suc (length s - fst x)) x"
| "rmatch (LazyStar r) s x = lazy (rmatch r s) (Suc (length s - fst x)) x"
| "rmatch (Opt r) s x = rmatch r s x @ [x]"
| "rmatch (Cap n r) s x = map (\<lambda>y. (fst y, (n, fst x, fst y) # snd y)) (rmatch r s x)"
| "rmatch WordBoundary s x = (if at_boundary s (fst x) then [x] else [])"
| "rmatch (Ahead r) s x = (if rmatch r s x \<noteq> [] then [x] else [])"
| "rmatch (NotAhead r) s x = (if rmatch r s x = [] then [x] else [])"
| "rmatch AtEnd s x = (if fst x = length s then [x] else [])"

subsection \<open>Searching and substituting\<close>

definition match_at :: "re \<Rightarrow> string \<Rightarrow> nat \<Rightarrow> (nat \<times> captures) option" where
  "match_at r s i = (case rmatch r s (i, []) of [] \<Rightarrow> None | m # _ \<Rightarrow> Some m)"

function search_from :: "re \<Rightarrow> string \<Rightarrow> nat \<Rightarrow> (nat \<times> nat \<times> captures) option" where
  "search_from r s i =
     (if i > length s then None
      else case match_at r s i of
        Some (j, caps) \<Rightarrow> Some (i, j, caps)
      | None \<Rightarrow> search_from r s (Suc i))"
  by pat_completeness auto
termination
  by (relation "measure (\<lambda>(r, s, i). Suc (length s) - i)") auto

declare search_from.simps [simp del]

definition rsearch :: "re \<Rightarrow> string \<Rightarrow> (nat \<times> nat \<times> captures) option" where
  "rsearch r s = search_from r s 0"

definition found :: "re \<Rightarrow> string \<Rightarrow> bool" where
  "found r s \<longleftrightarrow> rsearch r s \<noteq> None"

definition slice :: "string \<Rightarrow> nat \<Rightarrow> nat \<Rightarrow> string" where
  "slice s i j = take (j - i) (drop i s)"

text \<open>\<open>m.group(0)\<close> and \<open>m.group(n)\<close>, the last text a group matched.\<close>

definition group0 :: "string \<Rightarrow> nat \<times> nat \<times> captures \<Rightarrow> string" where
  "group0 s m = slice s (fst m) (fst (snd m))"

definition group :: "string \<Rightarrow> nat \<times> nat \<times> captures \<Rightarrow> nat \<Rightarrow> string option" where
  "group s m n = map_option (\<lambda>(i, j). slice s i j) (map_of (snd (snd m)) n)"

function rsub_from :: "re \<Rightarrow> string \<Rightarrow> string \<Rightarrow> nat \<Rightarrow> string" where
  "rsub_from r new s i =
     (if i \<ge> length s then []
      else case match_at r s i of
        Some (j, _) \<Rightarrow> if j > i then new @ rsub_from r new s j else s ! i # rsub_from r new s (Suc i)
      | None \<Rightarrow> s ! i # rsub_from r new s (Suc i))"
  by pat_completeness auto
termination
  by (relation "measure (\<lambda>(r, new, s, i). length s - i)") auto

declare rsub_from.simps [simp del]

text \<open>\<open>pattern.sub(new, s)\<close> for a pattern that matches no empty text and a literal \<open>new\<close>.\<close>

definition rsub :: "re \<Rightarrow> string \<Rightarrow> string \<Rightarrow> string" where
  "rsub r new s = rsub_from r new s 0"

text \<open>\<open>pattern.finditer(s)\<close>, the matches as pairs of positions with their groups.\<close>

function find_from :: "re \<Rightarrow> string \<Rightarrow> nat \<Rightarrow> (nat \<times> nat \<times> captures) list" where
  "find_from r s i =
     (if i \<ge> length s then []
      else case match_at r s i of
        Some (j, caps) \<Rightarrow> if j > i then (i, j, caps) # find_from r s j else find_from r s (Suc i)
      | None \<Rightarrow> find_from r s (Suc i))"
  by pat_completeness auto
termination
  by (relation "measure (\<lambda>(r, s, i). length s - i)") auto

declare find_from.simps [simp del]

definition find_all :: "re \<Rightarrow> string \<Rightarrow> (nat \<times> nat \<times> captures) list" where
  "find_all r s = find_from r s 0"

subsection \<open>Building patterns\<close>

fun seqs :: "re list \<Rightarrow> re" where
  "seqs [] = Eps"
| "seqs [r] = r"
| "seqs (r # rs) = Seq r (seqs rs)"

fun alts :: "re list \<Rightarrow> re" where
  "alts [] = Sat (\<lambda>_. False)"
| "alts [r] = r"
| "alts (r # rs) = Alt r (alts rs)"

definition lit :: "string \<Rightarrow> re" where
  "lit s = seqs (map (\<lambda>c. Sat (\<lambda>x. x = c)) s)"

text \<open>A literal under \<open>re.IGNORECASE\<close>, given in lower case.\<close>

definition lit_ci :: "string \<Rightarrow> re" where
  "lit_ci s = seqs (map (\<lambda>c. Sat (\<lambda>x. lower_char x = c)) s)"

definition plus :: "re \<Rightarrow> re" where
  "plus r = Seq r (Star r)"

definition times :: "nat \<Rightarrow> re \<Rightarrow> re" where
  "times n r = seqs (replicate n r)"

text \<open>\<open>r{m,n}\<close>, greedy.\<close>

fun up_to :: "nat \<Rightarrow> re \<Rightarrow> re" where
  "up_to 0 r = Eps"
| "up_to (Suc n) r = Opt (Seq r (up_to n r))"

definition between :: "nat \<Rightarrow> nat \<Rightarrow> re \<Rightarrow> re" where
  "between m n r = Seq (times m r) (up_to (n - m) r)"

definition any_char :: re where
  "any_char = Sat (\<lambda>_. True)"

definition dot :: re where
  "dot = Sat (\<lambda>c. of_char c \<noteq> (10::nat))"

definition one_of :: "string \<Rightarrow> re" where
  "one_of cs = Sat (\<lambda>c. c \<in> set cs)"

definition digit :: re where
  "digit = Sat is_digit"

definition space :: re where
  "space = Sat is_space"

definition non_space :: re where
  "non_space = Sat (\<lambda>c. \<not> is_space c)"

subsection \<open>Facts\<close>

lemma iteration_bounds:
  assumes "\<And>x y. y \<in> set (f x) \<Longrightarrow> fst x \<le> fst y \<and> fst y \<le> max (fst x) m"
  shows "y \<in> set (greedy f n x) \<union> set (lazy f n x) \<Longrightarrow> fst x \<le> fst y \<and> fst y \<le> max (fst x) m"
proof (induction n arbitrary: x)
  case (Suc n)
  then consider "y = x" | z where "z \<in> set (f x)" "y \<in> set (greedy f n z) \<union> set (lazy f n z)"
    by (auto split: if_splits)
  then show ?case
  proof cases
    case (2 z)
    show ?thesis using Suc.IH [OF 2(2)] assms [OF 2(1)] by linarith
  qed simp
qed simp

text \<open>A match ends at or after its start and within the text.\<close>

lemma rmatch_bounds:
  "y \<in> set (rmatch r s x) \<Longrightarrow> fst x \<le> fst y \<and> fst y \<le> max (fst x) (length s)"
proof (induction r arbitrary: x y)
  case (Seq r q)
  then obtain z where "z \<in> set (rmatch r s x)" "y \<in> set (rmatch q s z)" by auto
  with Seq.IH(1) [of z x] Seq.IH(2) [of y z] show ?case by auto
next
  case (Star r)
  from Star.prems have "y \<in> set (greedy (rmatch r s) (Suc (length s - fst x)) x)"
    by (simp only: rmatch.simps)
  then show ?case by (intro iteration_bounds [OF Star.IH] UnI1)
next
  case (LazyStar r)
  from LazyStar.prems have "y \<in> set (lazy (rmatch r s) (Suc (length s - fst x)) x)"
    by (simp only: rmatch.simps)
  then show ?case by (intro iteration_bounds [OF LazyStar.IH] UnI2)
qed (auto split: if_splits)

lemma match_at_bounds: "match_at r s i = Some (j, c) \<Longrightarrow> i \<le> j \<and> j \<le> max i (length s)"
  using rmatch_bounds [of "(j, c)" r s "(i, [])"] by (auto simp: match_at_def split: list.splits)

lemma rsub_from_none:
  "(\<And>j. match_at r s j = None) \<Longrightarrow> rsub_from r new s i = drop i s"
proof (induction "length s - i" arbitrary: i)
  case 0
  then show ?case by (simp add: rsub_from.simps [of r new s i])
next
  case (Suc n)
  then show ?case by (simp add: rsub_from.simps [of r new s i] Cons_nth_drop_Suc)
qed

lemma search_from_none_iff:
  "search_from r s i = None \<longleftrightarrow> (\<forall>j \<in> {i..length s}. match_at r s j = None)"
proof (induction "Suc (length s) - i" arbitrary: i)
  case 0
  then show ?case by (simp add: search_from.simps [of r s i])
next
  case (Suc n)
  then have IH: "search_from r s (Suc i) = None \<longleftrightarrow>
      (\<forall>j \<in> {Suc i..length s}. match_at r s j = None)" and "i \<le> length s" by simp_all
  then have "{i..length s} = insert i {Suc i..length s}" by auto
  with IH \<open>i \<le> length s\<close> show ?case
    by (simp add: search_from.simps [of r s i] split: option.split)
qed

lemma found_iff: "found r s \<longleftrightarrow> (\<exists>i \<in> {0..length s}. match_at r s i \<noteq> None)"
  by (simp add: found_def rsearch_def search_from_none_iff)

subsection \<open>What a match needs\<close>

text \<open>Every match of the pattern consumes a character of the class.\<close>

primrec needs :: "(char \<Rightarrow> bool) \<Rightarrow> re \<Rightarrow> bool" where
  "needs P (Sat Q) = (\<forall>c. Q c \<longrightarrow> P c)"
| "needs P Eps = False"
| "needs P (Seq r q) = (needs P r \<or> needs P q)"
| "needs P (Alt r q) = (needs P r \<and> needs P q)"
| "needs P (Star r) = False"
| "needs P (LazyStar r) = False"
| "needs P (Opt r) = False"
| "needs P (Cap n r) = needs P r"
| "needs P WordBoundary = False"
| "needs P (Ahead r) = False"
| "needs P (NotAhead r) = False"
| "needs P AtEnd = False"

lemma rmatch_needs: "y \<in> set (rmatch r s x) \<Longrightarrow> needs P r \<Longrightarrow> \<exists>c \<in> set s. P c"
proof (induction r arbitrary: x y)
  case (Sat Q)
  then have "P (s ! fst x)" "fst x < length s" by (auto split: if_splits)
  then show ?case by (intro bexI [of _ "s ! fst x"]) auto
next
  case (Seq r q)
  then obtain z where z: "z \<in> set (rmatch r s x)" "y \<in> set (rmatch q s z)" by auto
  show ?case
  proof (cases "needs P r")
    case True
    with Seq.IH(1) [OF z(1)] show ?thesis by blast
  next
    case False
    with Seq.prems Seq.IH(2) [OF z(2)] show ?thesis by simp
  qed
next
  case (Alt r q)
  then have "y \<in> set (rmatch r s x) \<or> y \<in> set (rmatch q s x)" "needs P r" "needs P q" by simp_all
  with Alt.IH [of y x] show ?case by blast
next
  case (Cap n r)
  then obtain z where "z \<in> set (rmatch r s x)" "needs P r" by auto
  with Cap.IH show ?case by blast
qed simp_all

text \<open>The longest text a pattern can match, when it is bounded.\<close>

primrec max_len :: "re \<Rightarrow> nat option" where
  "max_len (Sat Q) = Some 1"
| "max_len Eps = Some 0"
| "max_len (Seq r q) = (case (max_len r, max_len q) of (Some a, Some b) \<Rightarrow> Some (a + b) | _ \<Rightarrow> None)"
| "max_len (Alt r q) = (case (max_len r, max_len q) of (Some a, Some b) \<Rightarrow> Some (max a b) | _ \<Rightarrow> None)"
| "max_len (Star r) = None"
| "max_len (LazyStar r) = None"
| "max_len (Opt r) = max_len r"
| "max_len (Cap n r) = max_len r"
| "max_len WordBoundary = Some 0"
| "max_len (Ahead r) = Some 0"
| "max_len (NotAhead r) = Some 0"
| "max_len AtEnd = Some 0"

lemma rmatch_max_len: "y \<in> set (rmatch r s x) \<Longrightarrow> max_len r = Some m \<Longrightarrow> fst y \<le> fst x + m"
proof (induction r arbitrary: x y m)
  case (Seq r q)
  then obtain z a b where z: "z \<in> set (rmatch r s x)" "y \<in> set (rmatch q s z)"
    and m: "max_len r = Some a" "max_len q = Some b" "m = a + b"
    by (auto split: option.splits)
  from Seq.IH(1) [OF z(1) m(1)] Seq.IH(2) [OF z(2) m(2)] m(3) show ?case by simp
next
  case (Alt r q)
  then show ?case by (auto split: option.splits simp: le_max_iff_disj dest: Alt.IH)
qed (auto split: if_splits)

text \<open>Patterns between word boundaries.\<close>

primrec starts_at_boundary :: "re \<Rightarrow> bool" where
  "starts_at_boundary (Sat Q) = False"
| "starts_at_boundary Eps = False"
| "starts_at_boundary (Seq r q) = starts_at_boundary r"
| "starts_at_boundary (Alt r q) = False"
| "starts_at_boundary (Star r) = False"
| "starts_at_boundary (LazyStar r) = False"
| "starts_at_boundary (Opt r) = False"
| "starts_at_boundary (Cap n r) = False"
| "starts_at_boundary WordBoundary = True"
| "starts_at_boundary (Ahead r) = False"
| "starts_at_boundary (NotAhead r) = False"
| "starts_at_boundary AtEnd = False"

primrec ends_at_boundary :: "re \<Rightarrow> bool" where
  "ends_at_boundary (Sat Q) = False"
| "ends_at_boundary Eps = False"
| "ends_at_boundary (Seq r q) = ends_at_boundary q"
| "ends_at_boundary (Alt r q) = False"
| "ends_at_boundary (Star r) = False"
| "ends_at_boundary (LazyStar r) = False"
| "ends_at_boundary (Opt r) = False"
| "ends_at_boundary (Cap n r) = False"
| "ends_at_boundary WordBoundary = True"
| "ends_at_boundary (Ahead r) = False"
| "ends_at_boundary (NotAhead r) = False"
| "ends_at_boundary AtEnd = False"

lemma rmatch_starts: "y \<in> set (rmatch r s x) \<Longrightarrow> starts_at_boundary r \<Longrightarrow> at_boundary s (fst x)"
  by (induction r arbitrary: x y) (auto split: if_splits)

lemma rmatch_ends: "y \<in> set (rmatch r s x) \<Longrightarrow> ends_at_boundary r \<Longrightarrow> at_boundary s (fst y)"
  by (induction r arbitrary: x y) (auto split: if_splits)

lemma boundary_of_word:
  assumes "list_all is_word s" "at_boundary s i" "i \<le> length s"
  shows "i = 0 \<or> i = length s"
  using assms by (auto simp: at_boundary_def word_at_def list_all_length)

lemma rsub_from_stuck:
  "(\<And>i j c. i < length s \<Longrightarrow> match_at r s i = Some (j, c) \<Longrightarrow> j \<le> i) \<Longrightarrow> rsub_from r new s i = drop i s"
proof (induction "length s - i" arbitrary: i)
  case 0
  then show ?case by (simp add: rsub_from.simps [of r new s i])
next
  case (Suc n)
  then have IH: "rsub_from r new s (Suc i) = drop (Suc i) s" and i: "i < length s" by simp_all
  show ?case
  proof (cases "match_at r s i")
    case None
    with IH i show ?thesis by (simp add: rsub_from.simps [of r new s i] Cons_nth_drop_Suc)
  next
    case (Some m)
    obtain j c where m: "m = (j, c)" by (cases m)
    with Suc.prems i Some have "\<not> j > i" by (simp add: leD)
    with IH i Some m show ?thesis by (simp add: rsub_from.simps [of r new s i] Cons_nth_drop_Suc)
  qed
qed

lemma match_at_in: "match_at r s i = Some y \<Longrightarrow> y \<in> set (rmatch r s (i, []))"
  by (auto simp: match_at_def split: list.splits)

lemma rsub_needs:
  assumes "needs P r" "\<forall>c \<in> set s. \<not> P c"
  shows "rsub r new s = s"
proof -
  have "match_at r s i \<noteq> Some m" for i m
    using rmatch_needs [OF match_at_in assms(1), of s i m] assms(2) by blast
  then show ?thesis unfolding rsub_def by (subst rsub_from_stuck) auto
qed

text \<open>A bounded pattern between word boundaries leaves a longer single word alone.\<close>

lemma rsub_long_word:
  assumes "list_all is_word s" "starts_at_boundary r" "ends_at_boundary r" "max_len r = Some m" "m < length s"
  shows "rsub r new s = s"
proof -
  have "j \<le> i" if i: "i < length s" and "match_at r s i = Some (j, c)" for i j c
  proof -
    note y = match_at_in [OF that(2)]
    have "i = 0" using boundary_of_word [OF assms(1) rmatch_starts [OF y assms(2)]] i by simp
    moreover have "j \<le> length s" using rmatch_bounds [OF y] i by simp
    then have "j = 0 \<or> j = length s" using boundary_of_word [OF assms(1) rmatch_ends [OF y assms(3)]] by simp
    moreover have "j \<le> i + m" using rmatch_max_len [OF y assms(4)] by simp
    ultimately show ?thesis using assms(5) by auto
  qed
  then show ?thesis unfolding rsub_def by (subst rsub_from_stuck) auto
qed

lemma rmatch_times_sat:
  "list_all P s \<Longrightarrow> rmatch (times k (Sat P)) s (i, c) = (if i + k \<le> length s \<or> k = 0 then [(i + k, c)] else [])"
proof (induction k arbitrary: i)
  case (Suc k)
  show ?case
  proof (cases k)
    case 0
    with Suc.prems show ?thesis by (auto simp: times_def list_all_length)
  next
    case (Suc n)
    then have "times (Suc k) (Sat P) = Seq (Sat P) (times k (Sat P))" by (simp add: times_def)
    with Suc.IH [OF Suc.prems, of "Suc i"] Suc.prems Suc show ?thesis by (auto simp: list_all_length)
  qed
qed (simp add: times_def)

lemma greedy_steps:
  assumes "\<And>i. f (i, c) = (if i < m then [(Suc i, c)] else [])" "i \<le> m" "m - i \<le> n"
  shows "\<exists>rest. greedy f n (i, c) = (m, c) # rest"
  using assms(2,3)
proof (induction n arbitrary: i)
  case (Suc n)
  show ?case
  proof (cases "i < m")
    case True
    with Suc.prems have "Suc i \<le> m" "m - Suc i \<le> n" by simp_all
    from Suc.IH [OF this] obtain rest where "greedy f n (Suc i, c) = (m, c) # rest" ..
    with True show ?thesis by (simp add: assms(1))
  next
    case False
    with Suc.prems show ?thesis by (simp add: assms(1))
  qed
qed simp

lemma star_sat:
  "list_all P s \<Longrightarrow> i \<le> length s \<Longrightarrow> \<exists>rest. rmatch (Star (Sat P)) s (i, c) = (length s, c) # rest"
  unfolding rmatch.simps(5)
  by (rule greedy_steps) (auto simp: list_all_length)

end
