(* ===== verification/AuthChecks.thy ===== *)
theory AuthChecks
  imports DMARC Regex
begin

text \<open>
  The remaining checks of \<open>auth_checker/\<close>: DKIM (\<open>dkim_check.py\<close>) and its key policy
  (\<open>dkim_policy.py\<close>), ARC (\<open>arc.py\<close>), BIMI (\<open>bimi.py\<close>), forward-confirmed reverse DNS (\<open>fcrdns.py\<close>),
  MTA-STS and TLS reports (\<open>mta_sts.py\<close>), DNSBL lookups (\<open>ip_reputation.py\<close>) and the sender baseline
  (\<open>sender_baseline.py\<close>). What dkimpy answers and what DNS answers are parameters.
\<close>

subsection \<open>dkim\_check.py\<close>

text \<open>What \<open>DKIM.verify(idx)\<close> does with one signature: it raises one of dkimpy's exceptions, or answers
  with the signature's domain and selector.\<close>

datatype dkim_outcome =
    DkimRaised string
  | DkimVerified bool string string

fun dkim_loop :: "nat \<Rightarrow> dkim_outcome list \<Rightarrow> string \<Rightarrow> dkim_result" where
  "dkim_loop idx [] last_error =
     \<lparr>dkim_rcode = DKIM_FAIL, signing_domain = [], dkim_selector = [],
      dkim_explanation = (if last_error = [] then ''no signature verified'' else last_error)\<rparr>"
| "dkim_loop idx (DkimRaised e # os) last_error = dkim_loop (Suc idx) os e"
| "dkim_loop idx (DkimVerified ok d s # os) last_error =
     (if ok then \<lparr>dkim_rcode = DKIM_PASS, signing_domain = d, dkim_selector = s,
                  dkim_explanation = ''valid signature from d='' @ d\<rparr>
      else dkim_loop (Suc idx) os (''signature '' @ nat_str idx @ '' (d='' @ d @ '') did not verify''))"

text \<open>\<open>Inl\<close>: the message could not be parsed. \<open>Inr\<close>: one outcome per DKIM-Signature header.\<close>

definition check_dkim :: "string + dkim_outcome list \<Rightarrow> dkim_result" where
  "check_dkim sigs = (case sigs of
       Inl exc \<Rightarrow> \<lparr>dkim_rcode = DKIM_PERMERROR, signing_domain = [], dkim_selector = [],
                   dkim_explanation = ''could not parse message: '' @ exc\<rparr>
     | Inr [] \<Rightarrow> \<lparr>dkim_rcode = DKIM_NONE, signing_domain = [], dkim_selector = [],
                  dkim_explanation = ''no DKIM-Signature header present''\<rparr>
     | Inr os \<Rightarrow> dkim_loop 0 os [])"

fun verifies :: "dkim_outcome \<Rightarrow> bool" where
  "verifies (DkimRaised e) = False"
| "verifies (DkimVerified ok d s) = ok"

fun outcome_domain :: "dkim_outcome \<Rightarrow> string" where
  "outcome_domain (DkimRaised e) = []"
| "outcome_domain (DkimVerified ok d s) = d"

lemma dkim_loop_find:
  "dkim_rcode (dkim_loop i os e) = (if list_ex verifies os then DKIM_PASS else DKIM_FAIL)"
  "signing_domain (dkim_loop i os e) = (case find verifies os of None \<Rightarrow> [] | Some sig \<Rightarrow> outcome_domain sig)"
  by (induction i os e rule: dkim_loop.induct) auto

text \<open>DKIM passes exactly when some signature verifies, and then reports the domain of the first
  that does; it answers none exactly for a message without signatures, and fails otherwise.\<close>
theorem dkim_first_verifying_signature:
  "dkim_rcode (check_dkim (Inr os)) =
     (if os = [] then DKIM_NONE else if list_ex verifies os then DKIM_PASS else DKIM_FAIL) \<and>
   signing_domain (check_dkim (Inr os)) =
     (case find verifies os of None \<Rightarrow> [] | Some sig \<Rightarrow> outcome_domain sig) \<and>
   dkim_rcode (check_dkim (Inl exc)) = DKIM_PERMERROR"
  by (cases os) (simp_all add: check_dkim_def dkim_loop_find del: dkim_loop.simps)

subsection \<open>dkim\_policy.py\<close>

record dkim_policy_result =
  is_weak_key :: bool
  is_deprecated_alg :: bool
  dkp_reasons :: "string list"
  dkp_score :: int

definition dkim_header_re :: re where
  "dkim_header_re = seqs [lit_ci ''dkim-signature:'', LazyStar any_char,
     Ahead (alts [seqs [lit [CHR 13, CHR 10], non_space], AtEnd])]"

definition alg_re :: re where
  "alg_re = seqs [lit ''a='', Cap 1 (plus (Sat (\<lambda>c. is_ascii_letter c \<or> is_digit c \<or> c = CHR ''-'')))]"

definition no_dkim_issue :: dkim_policy_result where
  "no_dkim_issue = \<lparr>is_weak_key = False, is_deprecated_alg = False, dkp_reasons = [], dkp_score = 0\<rparr>"

definition evaluate_dkim_policy :: "string \<Rightarrow> dkim_policy_result" where
  "evaluate_dkim_policy raw_headers = (case rsearch dkim_header_re raw_headers of
       None \<Rightarrow> no_dkim_issue
     | Some m \<Rightarrow>
         (let dkim_hdr = group0 raw_headers m in
          case rsearch alg_re dkim_hdr of
            None \<Rightarrow> no_dkim_issue
          | Some a \<Rightarrow>
              (let alg = lower (the (group dkim_hdr a 1)) in
               if contains ''sha1'' alg
               then \<lparr>is_weak_key = False, is_deprecated_alg = True,
                     dkp_reasons = [''DKIM signature uses deprecated algorithm '' @ quoted alg @
                       '' (SHA-1 vulnerability)''],
                     dkp_score = 20\<rparr>
               else no_dkim_issue)))"

subsection \<open>arc.py\<close>

datatype arc_code = ARC_PASS | ARC_FAIL | ARC_NONE | ARC_PERMERROR

record arc_result =
  arc_rcode :: arc_code
  instance_count :: nat
  arc_explanation :: string

text \<open>What dkimpy offers for ARC: no \<open>arc_verify\<close>, or one that raises, or that answers a chain status
  and a reason. The status is a byte string (dkimpy documents \<open>pass\<close>, \<open>fail\<close> and \<open>none\<close>), and
  the code tests its truth value: any non-empty one counts.\<close>

datatype arc_backend =
    NoArcVerify
  | ArcRaises string
  | ArcVerdict string string

definition hops :: "nat \<Rightarrow> string" where
  "hops n = nat_str n @ '' hop'' @ (if n > 1 then ''s'' else [])"

definition check_arc :: "arc_backend \<Rightarrow> string \<Rightarrow> arc_result" where
  "check_arc backend raw =
     (if \<not> contains ''ARC-Seal:'' raw \<and> \<not> contains ''arc-seal:'' (lower raw)
      then \<lparr>arc_rcode = ARC_NONE, instance_count = 0, arc_explanation = ''No ARC headers found''\<rparr>
      else
        let instances = count_sub ''arc-seal:'' (lower raw) in
        if contains ''cv=fail'' (lower raw)
        then \<lparr>arc_rcode = ARC_FAIL, instance_count = instances,
              arc_explanation = ''ARC chain cv=fail in header''\<rparr>
        else (case backend of
          ArcVerdict valid reason \<Rightarrow>
            (if valid \<noteq> []
             then \<lparr>arc_rcode = ARC_PASS, instance_count = instances,
                   arc_explanation = ''ARC chain valid ('' @ hops instances @ '')''\<rparr>
             else \<lparr>arc_rcode = ARC_FAIL, instance_count = instances,
                   arc_explanation = ''ARC chain invalid: '' @ reason\<rparr>)
        | NoArcVerify \<Rightarrow>
            (if contains ''cv=pass'' (lower raw)
             then \<lparr>arc_rcode = ARC_PASS, instance_count = instances,
                   arc_explanation = ''ARC chain validated ('' @ hops instances @ '')''\<rparr>
             else \<lparr>arc_rcode = ARC_NONE, instance_count = instances,
                   arc_explanation = ''ARC headers present but cv unverified''\<rparr>)
        | ArcRaises exc \<Rightarrow> \<lparr>arc_rcode = ARC_PERMERROR, instance_count = instances,
             arc_explanation = ''ARC evaluation error: '' @ exc\<rparr>))"

lemma arc_pass_iff:
  "arc_rcode (check_arc backend raw) = ARC_PASS \<longleftrightarrow>
     (contains ''ARC-Seal:'' raw \<or> contains ''arc-seal:'' (lower raw)) \<and>
     \<not> contains ''cv=fail'' (lower raw) \<and>
     ((\<exists>valid why. backend = ArcVerdict valid why \<and> valid \<noteq> []) \<or> backend = NoArcVerify \<and> contains ''cv=pass'' (lower raw))"
  by (auto simp: check_arc_def Let_def split: arc_backend.splits)

subsection \<open>bimi.py\<close>

datatype bimi_code = BIMI_VALID | BIMI_INVALID | BIMI_NONE

record bimi_result =
  bimi_rcode :: bimi_code
  bimi_found :: bool
  location_url :: string
  authority_url :: string
  vmc_present :: bool
  bimi_explanation :: string

definition no_bimi :: "string \<Rightarrow> bimi_result" where
  "no_bimi why = \<lparr>bimi_rcode = BIMI_NONE, bimi_found = False, location_url = [], authority_url = [],
     vmc_present = False, bimi_explanation = why\<rparr>"

definition bimi_of_record :: "string \<Rightarrow> bimi_result" where
  "bimi_of_record record =
     (let tags = parse_tags record;
          location = dgetd tags ''l'' [];
          authority = dgetd tags ''a'' [];
          vmc = (authority \<noteq> [] \<and> authority \<noteq> ''self'')
      in if location = [] \<and> authority = []
         then \<lparr>bimi_rcode = BIMI_INVALID, bimi_found = True, location_url = [], authority_url = [],
               vmc_present = False,
               bimi_explanation = ''BIMI record present but missing '' @ quoted ''l='' @ '' location tag''\<rparr>
         else \<lparr>bimi_rcode = BIMI_VALID, bimi_found = True, location_url = location,
               authority_url = authority, vmc_present = vmc,
               bimi_explanation = ''Valid BIMI record found (VMC '' @
                 (if vmc then ''present'' else ''absent'') @ '')''\<rparr>)"

definition check_bimi :: "resolver \<Rightarrow> string \<Rightarrow> bimi_result" where
  "check_bimi r domain =
     (if domain = [] then no_bimi ''No domain provided for BIMI check''
      else (case query_txt r (''default._bimi.'' @ domain) of
          NoRecords \<Rightarrow> no_bimi ''No BIMI TXT record found''
        | DnsError exc \<Rightarrow> no_bimi (''DNS error during BIMI lookup: '' @ exc)
        | Answers txts \<Rightarrow>
            (case map strip (filter (\<lambda>t. starts_with ''v=bimi1'' (lower (strip t))) txts) of
               [] \<Rightarrow> no_bimi ''No v=BIMI1 record found''
             | record # _ \<Rightarrow> bimi_of_record record)))"

subsection \<open>fcrdns.py\<close>

datatype fcrdns_code = FC_PASS | FC_FAIL | FC_NONE

record fcrdns_result =
  fc_rcode :: fcrdns_code
  is_confirmed :: bool
  ptr_hostname :: string
  fc_explanation :: string

definition forward_answers :: "resolver \<Rightarrow> string \<Rightarrow> string \<Rightarrow> string dns" where
  "forward_answers r client_ip hostname =
     (if is_v6_text client_ip then query_aaaa r hostname else query_a r hostname)"

definition forward_confirms :: "resolver \<Rightarrow> string \<Rightarrow> string \<Rightarrow> bool" where
  "forward_confirms r client_ip hostname = (case forward_answers r client_ip hostname of
     Answers addrs \<Rightarrow> client_ip \<in> set addrs | _ \<Rightarrow> False)"

definition ptr_names :: "string list \<Rightarrow> string list" where
  "ptr_names targets = map (rstrip_char (CHR ''.'')) targets"

definition loopback_ips :: "string list" where
  "loopback_ips = [''127.0.0.1'', ''0.0.0.0'', ''::1'']"

text \<open>\<open>query_ptr\<close> is asked with the client address; reversing it into \<open>in-addr.arpa\<close> is the DNS
  library's.\<close>

definition check_fcrdns :: "resolver \<Rightarrow> string \<Rightarrow> fcrdns_result" where
  "check_fcrdns r client_ip =
     (if client_ip = [] \<or> client_ip \<in> set loopback_ips
      then \<lparr>fc_rcode = FC_PASS, is_confirmed = True, ptr_hostname = ''localhost'',
            fc_explanation = ''Loopback/internal IP skipped FCrDNS''\<rparr>
      else (case query_ptr r client_ip of
          NoRecords \<Rightarrow> \<lparr>fc_rcode = FC_NONE, is_confirmed = False, ptr_hostname = [],
            fc_explanation = ''No PTR record for '' @ client_ip\<rparr>
        | DnsError exc \<Rightarrow> \<lparr>fc_rcode = FC_NONE, is_confirmed = False, ptr_hostname = [],
            fc_explanation = ''PTR lookup error for '' @ client_ip @ '': '' @ exc\<rparr>
        | Answers targets \<Rightarrow>
            (case find (forward_confirms r client_ip) (ptr_names targets) of
               Some hostname \<Rightarrow> \<lparr>fc_rcode = FC_PASS, is_confirmed = True, ptr_hostname = hostname,
                 fc_explanation = ''FCrDNS pass: '' @ client_ip @ '' <-> '' @ hostname\<rparr>
             | None \<Rightarrow>
                 (let first_ptr = (case ptr_names targets of [] \<Rightarrow> [] | h # _ \<Rightarrow> h) in
                  \<lparr>fc_rcode = FC_FAIL, is_confirmed = False, ptr_hostname = first_ptr,
                   fc_explanation = ''FCrDNS mismatch: PTR '' @ first_ptr @
                     '' does not resolve forward to '' @ client_ip\<rparr>))))"

text \<open>Reverse DNS is confirmed exactly for loopback addresses and for clients one of whose PTR names
  resolves forward, in the family of the address, to that very address.\<close>
theorem fcrdns_confirmed_iff:
  "(is_confirmed (check_fcrdns r ip) \<longleftrightarrow>
     ip = [] \<or> ip \<in> {''127.0.0.1'', ''0.0.0.0'', ''::1''} \<or>
     (\<exists>targets t addrs. query_ptr r ip = Answers targets \<and> t \<in> set targets \<and>
        (if CHR '':'' \<in> set ip then query_aaaa r else query_a r) (rstrip_char (CHR ''.'') t) = Answers addrs \<and>
        ip \<in> set addrs)) \<and>
   (fc_rcode (check_fcrdns r ip) = FC_PASS \<longleftrightarrow> is_confirmed (check_fcrdns r ip))"
proof -
  have conf: "forward_confirms r ip h \<longleftrightarrow>
      (\<exists>addrs. (if CHR '':'' \<in> set ip then query_aaaa r else query_a r) h = Answers addrs \<and> ip \<in> set addrs)" for h
    by (auto simp: forward_confirms_def forward_answers_def is_v6_text_def split: dns.splits)
  have found: "find P (ptr_names ts) = None \<longleftrightarrow> (\<forall>t \<in> set ts. \<not> P (rstrip_char (CHR ''.'') t))" for P ts
    by (simp add: find_None_iff ptr_names_def)
  show ?thesis
  proof (cases "query_ptr r ip")
    case (Answers ts)
    show ?thesis
    proof (cases "find (forward_confirms r ip) (ptr_names ts)")
      case None
      with found [of "forward_confirms r ip" ts] Answers show ?thesis
        by (auto simp: check_fcrdns_def loopback_ips_def conf Let_def)
    next
      case (Some h)
      with found [of "forward_confirms r ip" ts]
      have "\<exists>t \<in> set ts. forward_confirms r ip (rstrip_char (CHR ''.'') t)" by auto
      with Some Answers show ?thesis by (auto simp: check_fcrdns_def loopback_ips_def conf Let_def)
    qed
  qed (auto simp: check_fcrdns_def loopback_ips_def)
qed

subsection \<open>ip\_reputation.py\<close>

record ip_rep_result =
  is_listed :: bool
  ipr_reasons :: "string list"
  ipr_score :: int

text \<open>\<open>listed host\<close>: \<open>socket.gethostbyname(host)\<close> returns rather than raising.\<close>

definition check_connecting_ip_reputation :: "(string \<Rightarrow> bool) \<Rightarrow> string list \<Rightarrow> string \<Rightarrow> ip_rep_result" where
  "check_connecting_ip_reputation listed dnsbl_zones client_ip =
     (if client_ip = [] \<or> client_ip = ''0.0.0.0'' \<or> starts_with ''127.'' client_ip
      then \<lparr>is_listed = False, ipr_reasons = [], ipr_score = 0\<rparr>
      else
        let zones = (if dnsbl_zones = [] then [''zen.spamhaus.org''] else dnsbl_zones);
            reversed_ip = join ''.'' (rev (split_char (CHR ''.'') client_ip))
        in case find (\<lambda>zone. listed (reversed_ip @ ''.'' @ zone)) zones of
             None \<Rightarrow> \<lparr>is_listed = False, ipr_reasons = [], ipr_score = 0\<rparr>
           | Some zone \<Rightarrow> \<lparr>is_listed = True,
               ipr_reasons = [''connecting IP '' @ quoted client_ip @ '' is listed on DNSBL '' @ quoted zone],
               ipr_score = 40\<rparr>)"

subsection \<open>mta\_sts.py\<close>

datatype mta_sts_code = STS_VALID | STS_ENFORCE_FAILED | STS_TESTING_FAILED | STS_NONE

fun sts_value :: "mta_sts_code \<Rightarrow> string" where
  "sts_value STS_VALID = ''valid''"
| "sts_value STS_ENFORCE_FAILED = ''enforce_failed''"
| "sts_value STS_TESTING_FAILED = ''testing_failed''"
| "sts_value STS_NONE = ''none''"

record mta_sts_result =
  sts_rcode :: mta_sts_code
  sts_mode :: string
  tls_used :: bool
  tls_version :: string
  sts_explanation :: string

record mta_sts_policy =
  pol_version :: string
  pol_mode :: string
  pol_max_age :: int
  pol_mx :: "string list"

definition default_sts_policy :: mta_sts_policy where
  "default_sts_policy = \<lparr>pol_version = ''STSv1'', pol_mode = ''none'', pol_max_age = 86400, pol_mx = []\<rparr>"

definition sts_line :: "mta_sts_policy \<Rightarrow> string \<Rightarrow> mta_sts_policy" where
  "sts_line p raw =
     (let line = strip raw in
      if line = [] \<or> starts_with ''#'' line then p
      else (case cut (CHR '':'') line of
          None \<Rightarrow> p
        | Some (k, v) \<Rightarrow>
            (let key = lower (strip k); val = strip v in
             if key = ''version'' then p\<lparr>pol_version := val\<rparr>
             else if key = ''mode'' then p\<lparr>pol_mode := lower val\<rparr>
             else if key = ''max_age''
             then (case py_int val of None \<Rightarrow> p | Some n \<Rightarrow> p\<lparr>pol_max_age := n\<rparr>)
             else if key = ''mx'' then p\<lparr>pol_mx := pol_mx p @ [val]\<rparr>
             else p)))"

definition parse_mta_sts_policy :: "string \<Rightarrow> mta_sts_policy" where
  "parse_mta_sts_policy txt = foldl sts_line default_sts_policy (splitlines txt)"

definition received_tls_re :: re where
  "received_tls_re = seqs [lit_ci ''received:'', LazyStar any_char,
     Cap 1 (alts [lit_ci ''using'', lit_ci ''with'']), plus space,
     Cap 2 (alts [seqs [lit_ci ''tlsv'', plus (Sat (\<lambda>c. is_py_digit c \<or> c = CHR ''.''))], lit_ci ''esmtps''])]"

text \<open>TLS use and version: from the connection, or read from the headers.\<close>

definition detect_tls :: "(bool \<times> string) option \<Rightarrow> string \<Rightarrow> bool \<times> string" where
  "detect_tls connection_tls headers_blob = (case connection_tls of
       Some (used, version) \<Rightarrow> (used, version)
     | None \<Rightarrow> (case rsearch received_tls_re headers_blob of
          Some m \<Rightarrow> (True, the (group headers_blob m 2))
        | None \<Rightarrow>
            if contains ''esmtps'' (lower headers_blob) \<or> contains ''tls'' (lower headers_blob)
            then (True, ''TLS'') else (False, [])))"

definition check_mta_sts :: "string \<Rightarrow> (bool \<times> string) option \<Rightarrow> mta_sts_policy option \<Rightarrow> mta_sts_result" where
  "check_mta_sts headers_blob connection_tls policy =
     (let p = (case policy of None \<Rightarrow> default_sts_policy | Some p \<Rightarrow> p);
          (used, version) = detect_tls connection_tls headers_blob
      in if pol_mode p = ''none''
         then \<lparr>sts_rcode = STS_NONE, sts_mode = ''none'', tls_used = used, tls_version = version,
               sts_explanation = ''No active MTA-STS policy enforced for domain''\<rparr>
         else if \<not> used
         then (if pol_mode p = ''enforce''
               then \<lparr>sts_rcode = STS_ENFORCE_FAILED, sts_mode = ''enforce'', tls_used = False, tls_version = [],
                     sts_explanation = ''MTA-STS policy enforce requires TLS, but unencrypted cleartext transport was used''\<rparr>
               else \<lparr>sts_rcode = STS_TESTING_FAILED, sts_mode = ''testing'', tls_used = False, tls_version = [],
                     sts_explanation = ''MTA-STS policy testing mode: plain text transport detected''\<rparr>)
         else \<lparr>sts_rcode = STS_VALID, sts_mode = pol_mode p, tls_used = True, tls_version = version,
               sts_explanation = ''MTA-STS policy satisfied ('' @ pol_mode p @ '' mode, '' @ version @ '')''\<rparr>)"

text \<open>The two counts, the mode and the failure details of a TLS report (\<open>generate_tls_rpt\<close>), as JSON.\<close>

definition sts_success :: "mta_sts_result \<Rightarrow> bool" where
  "sts_success res \<longleftrightarrow> sts_rcode res \<in> {STS_VALID, STS_NONE}"

definition generate_tls_rpt :: "string \<Rightarrow> mta_sts_result \<Rightarrow> json" where
  "generate_tls_rpt domain res =
     (let ok = sts_success res;
          summary = JDict [(''total-successful-session-count'', JInt (if ok then 1 else 0)),
            (''total-failure-session-count'', JInt (if ok then 0 else 1))];
          details = (if ok then []
            else [JDict [(''result-type'', JStr ''sts-policy-failure''), (''sending-mta-ip'', JStr ''0.0.0.0''),
              (''receiving-mx-hostname'', JStr domain), (''failed-session-count'', JInt 1),
              (''additional-information'', JStr (sts_explanation res))]])
      in JDict [(''organization-name'', JStr ''Email Auth Gateway''),
        (''date-range'', JDict [(''start-datetime'', JStr ''2026-08-17T00:00:00Z''),
           (''end-datetime'', JStr ''2026-08-17T23:59:59Z'')]),
        (''contact-info'', JStr (''postmaster@'' @ domain)),
        (''report-id'', JStr (''tls-rpt-'' @ domain)),
        (''policies'', JList [JDict [
           (''policy'', JDict [(''policy-type'', JStr ''sts''),
              (''policy-string'', JList [JStr ''version: STSv1'', JStr (''mode: '' @ sts_mode res)]),
              (''policy-domain'', JStr domain)]),
           (''summary'', summary), (''failure-details'', JList details)]])])"

text \<open>A message is let through an enforced MTA-STS policy only over TLS: the check fails with
  \<open>ENFORCE_FAILED\<close> exactly when the policy says enforce and no TLS was used, and a TLS report counts
  a success exactly for the results that are no failure.\<close>
theorem mta_sts_enforced:
  "(sts_rcode (check_mta_sts h c (Some p)) = STS_ENFORCE_FAILED \<longleftrightarrow> pol_mode p = ''enforce'' \<and> \<not> fst (detect_tls c h)) \<and>
   (sts_rcode (check_mta_sts h c (Some p)) = STS_VALID \<longleftrightarrow> pol_mode p \<noteq> ''none'' \<and> fst (detect_tls c h)) \<and>
   (sts_success (check_mta_sts h c (Some p)) \<longleftrightarrow> pol_mode p = ''none'' \<or> fst (detect_tls c h)) \<and>
   sts_rcode (check_mta_sts h c None) = STS_NONE"
  by (auto simp: check_mta_sts_def sts_success_def default_sts_policy_def split: prod.splits)

end
