(* ===== verification/SenderBaseline.thy ===== *)
theory SenderBaseline
  imports IPAddress
begin

text \<open>
  \<open>auth_checker/sender_baseline.py\<close>: the per-domain sending history and the verdict on a new
  message. The store is a value; \<open>time.time()\<close> is an argument.
\<close>

subsection \<open>The printed form of IPv6 networks\<close>

fun hex_str :: "nat \<Rightarrow> string" where
  "hex_str n = (let c = (let d = n mod 16 in if d < 10 then char_of (48 + d) else char_of (87 + d)) in
     if n < 16 then [c] else hex_str (n div 16) @ [c])"

declare hex_str.simps [simp del]

definition hextet_strs :: "128 word \<Rightarrow> string list" where
  "hextet_strs w = map (\<lambda>i. hex_str (unat (drop_bit (112 - 16 * i) w AND 65535))) [0..<8]"

text \<open>\<open>_compress_hextets\<close>: the first longest run of zero hextets, as its start and length.\<close>

fun zero_run :: "string list \<Rightarrow> nat \<Rightarrow> nat \<Rightarrow> nat \<Rightarrow> nat \<Rightarrow> nat \<times> nat" where
  "zero_run [] i cur best blen = (best, blen)"
| "zero_run (h # hs) i cur best blen =
     (if h = ''0''
      then (let cur' = Suc cur in
            if cur' > blen then zero_run hs (Suc i) cur' (Suc i - cur') cur'
            else zero_run hs (Suc i) cur' best blen)
      else zero_run hs (Suc i) 0 best blen)"

definition compress_hextets :: "string list \<Rightarrow> string list" where
  "compress_hextets hs =
     (let (start, len) = zero_run hs 0 0 0 0 in
      if len > 1
      then (let stop = start + len;
                ending = (if stop = length hs then [[]] else []);
                beginning = (if start = 0 then [[]] else [])
            in beginning @ take start hs @ [[]] @ drop stop hs @ ending)
      else hs)"

definition ipv6_str :: "128 word \<Rightarrow> string" where
  "ipv6_str w = join '':'' (compress_hextets (hextet_strs w))"

fun network_str :: "ip_network \<Rightarrow> string" where
  "network_str (Net4 w p) = ipv4_str w @ ''/'' @ nat_str p"
| "network_str (Net6 w p) = ipv6_str w @ ''/'' @ nat_str p"

subsection \<open>The store\<close>

record domain_history =
  first_seen :: rat
  msg_count :: nat
  subnets :: "string list"

type_synonym baseline_store = "(string, domain_history) dict"

definition no_history :: domain_history where
  "no_history = \<lparr>first_seen = 0, msg_count = 0, subnets = []\<rparr>"

definition get_domain_history :: "baseline_store \<Rightarrow> string \<Rightarrow> domain_history" where
  "get_domain_history st domain = dgetd st (lower domain) no_history"

text \<open>\<open>_get_subnet\<close>: the /24 or /48 network of the address as text, empty when it is no address.\<close>

definition get_subnet :: "string \<Rightarrow> string" where
  "get_subnet ip_str = (case ip_address ip_str of
       None \<Rightarrow> []
     | Some (IPv4 _) \<Rightarrow> (case ip_network (ip_str @ ''/24'') of None \<Rightarrow> [] | Some n \<Rightarrow> network_str n)
     | Some (IPv6 _ _) \<Rightarrow> (case ip_network (ip_str @ ''/48'') of None \<Rightarrow> [] | Some n \<Rightarrow> network_str n))"

definition record_message :: "rat \<Rightarrow> string \<Rightarrow> string \<Rightarrow> baseline_store \<Rightarrow> baseline_store" where
  "record_message now domain0 client_ip st =
     (let domain = lower domain0; subnet = get_subnet client_ip in
      case dget st domain of
        None \<Rightarrow> dset st domain \<lparr>first_seen = now, msg_count = 1,
                  subnets = (if subnet = [] then [] else [subnet])\<rparr>
      | Some h \<Rightarrow> dset st domain (h\<lparr>msg_count := msg_count h + 1,
                  subnets := (if subnet = [] then subnets h else List.insert subnet (subnets h))\<rparr>))"

subsection \<open>The verdict\<close>

record baseline_verdict =
  is_first_contact :: bool
  is_ip_anomaly :: bool
  total_messages_seen :: nat
  bl_score :: int
  bl_explanation :: string

definition evaluate_sender_baseline ::
    "rat \<Rightarrow> string \<Rightarrow> string \<Rightarrow> baseline_store \<Rightarrow> baseline_verdict \<times> baseline_store" where
  "evaluate_sender_baseline now domain0 client_ip st =
     (if domain0 = []
      then (\<lparr>is_first_contact = False, is_ip_anomaly = False, total_messages_seen = 0, bl_score = 0,
             bl_explanation = ''No domain provided for baseline evaluation''\<rparr>, st)
      else
        let domain = lower domain0;
            history = get_domain_history st domain;
            first = (msg_count history = 0);
            subnet = get_subnet client_ip;
            anomaly = (\<not> first \<and> 10 \<le> msg_count history \<and> subnet \<noteq> [] \<and> subnet \<notin> set (subnets history));
            reasons = (if first then [''First contact domain (no prior sending history)'']
              else if anomaly
              then [''Sender IP anomaly: subnet '' @ subnet @ '' not in baseline subnets for '' @ domain]
              else [])
        in (\<lparr>is_first_contact = first, is_ip_anomaly = anomaly,
             total_messages_seen = msg_count history + 1,
             bl_score = (if first \<or> anomaly then 10 else 0),
             bl_explanation = (if reasons \<noteq> [] then join ''; '' reasons
               else ''Established sender within baseline parameters'')\<rparr>,
            record_message now domain client_ip st))"

subsection \<open>The store against the history of messages\<close>

text \<open>A message of the history: its time, domain and client address.\<close>

type_synonym sent = "rat \<times> string \<times> string"

definition baseline_after :: "sent list \<Rightarrow> baseline_store" where
  "baseline_after hist = foldl (\<lambda>st m. snd (evaluate_sender_baseline (fst m) (fst (snd m)) (snd (snd m)) st)) [] hist"

definition of_domain :: "string \<Rightarrow> sent list \<Rightarrow> sent list" where
  "of_domain d hist = filter (\<lambda>m. fst (snd m) \<noteq> [] \<and> lower (fst (snd m)) = d) hist"

definition seen_subnets :: "sent list \<Rightarrow> string set" where
  "seen_subnets ms = (\<lambda>m. get_subnet (snd (snd m))) ` set ms - {[]}"

lemma baseline_after_snoc:
  "baseline_after (hist @ [m]) =
     snd (evaluate_sender_baseline (fst m) (fst (snd m)) (snd (snd m)) (baseline_after hist))"
  by (simp add: baseline_after_def)

lemma evaluate_store:
  "snd (evaluate_sender_baseline now d ip st) = (if d = [] then st else record_message now d ip st)"
  by (simp add: evaluate_sender_baseline_def record_message_def Let_def split: option.split)

lemma seen_subnets_snoc:
  "seen_subnets (ms @ [m]) = seen_subnets ms \<union> ({get_subnet (snd (snd m))} - {[]})"
  by (auto simp: seen_subnets_def)

lemma baseline_refines:
  "(of_domain d hist = [] \<longrightarrow> dget (baseline_after hist) d = None) \<and>
   (of_domain d hist \<noteq> [] \<longrightarrow> (\<exists>h. dget (baseline_after hist) d = Some h \<and>
      msg_count h = length (of_domain d hist) \<and> set (subnets h) = seen_subnets (of_domain d hist)))"
proof (induction hist rule: rev_induct)
  case Nil
  then show ?case by (simp add: of_domain_def baseline_after_def)
next
  case (snoc m hist)
  obtain t dom ip where m: "m = (t, dom, ip)" by (cases m) auto
  show ?case
  proof (cases "dom \<noteq> [] \<and> lower dom = d")
    case True
    then have "of_domain d (hist @ [m]) = of_domain d hist @ [m]" by (simp add: of_domain_def m)
    with True snoc.IH show ?thesis
      by (cases "of_domain d hist = []")
        (auto simp: m baseline_after_snoc evaluate_store record_message_def Let_def seen_subnets_snoc
          image_iff, (simp add: seen_subnets_def)+)
  next
    case False
    then have "of_domain d (hist @ [m]) = of_domain d hist" by (auto simp: of_domain_def m)
    moreover from False have "dget (baseline_after (hist @ [m])) d = dget (baseline_after hist) d"
      by (auto simp: m baseline_after_snoc evaluate_store record_message_def Let_def split: option.split)
    ultimately show ?thesis using snoc.IH by simp
  qed
qed

text \<open>C11: The verdict on a message is the one the whole sending history since the start of the process calls for,
  however old it is: first contact exactly when no earlier message came from the domain (in any letter case), an
  address anomaly exactly when at least ten came and none of them from the client's subnet, and the count is that of
  the history. Nothing expires: the thirty days that \<open>docs/modules/storage.md\<close> gives a baseline do not exist in the code.\<close>
theorem baseline_judges_by_history:
  assumes "domain \<noteq> []"
  shows "(let v = fst (evaluate_sender_baseline now domain ip (baseline_after hist));
              earlier = of_domain (lower domain) hist
          in (is_first_contact v \<longleftrightarrow> earlier = []) \<and>
             (is_ip_anomaly v \<longleftrightarrow> 10 \<le> length earlier \<and> get_subnet ip \<noteq> [] \<and>
                get_subnet ip \<notin> seen_subnets earlier) \<and>
             total_messages_seen v = length earlier + 1 \<and>
             bl_score v = (if is_first_contact v \<or> is_ip_anomaly v then 10 else 0))"
proof (cases "of_domain (lower domain) hist = []")
  case True
  with baseline_refines [of "lower domain" hist] have "dget (baseline_after hist) (lower domain) = None" by simp
  with True assms show ?thesis
    by (simp add: evaluate_sender_baseline_def get_domain_history_def dgetd_def no_history_def Let_def)
next
  case False
  with baseline_refines [of "lower domain" hist] obtain h where
    "dget (baseline_after hist) (lower domain) = Some h" "msg_count h = length (of_domain (lower domain) hist)"
    "set (subnets h) = seen_subnets (of_domain (lower domain) hist)" by auto
  with False assms show ?thesis
    by (simp add: evaluate_sender_baseline_def get_domain_history_def dgetd_def Let_def)
qed

theorem baseline_judges_by_history_witness:
  "is_first_contact (fst (evaluate_sender_baseline 5 ''b.io'' ''10.0.0.1'' (baseline_after [(1, ''a.io'', ''10.0.0.1'')])))
   \<and> total_messages_seen (fst (evaluate_sender_baseline 5 ''A.io'' ''10.0.0.1'' (baseline_after [(1, ''a.io'', ''10.0.0.1'')]))) = 2"
proof
  let ?h = "[(1, ''a.io'', ''10.0.0.1'')] :: sent list"
  have "of_domain (lower ''b.io'') ?h = []" "length (of_domain (lower ''A.io'') ?h) = 1" by code_simp+
  then show "is_first_contact (fst (evaluate_sender_baseline 5 ''b.io'' ''10.0.0.1'' (baseline_after ?h)))"
    "total_messages_seen (fst (evaluate_sender_baseline 5 ''A.io'' ''10.0.0.1'' (baseline_after ?h))) = 2"
    using baseline_judges_by_history [of "''b.io''" 5 "''10.0.0.1''" ?h]
      baseline_judges_by_history [of "''A.io''" 5 "''10.0.0.1''" ?h]
    by (simp_all add: Let_def)
qed

end
