(* ===== verification/AuthPipeline.thy ===== *)
theory AuthPipeline
  imports AuthChecks SenderBaseline
begin

text \<open>
  \<open>auth_checker/pipeline.py\<close>: the order of the checks, the points each result adds and the aggregate
  \<open>AuthVerdict\<close> of \<open>auth_checker/models.py\<close>. The message is its text (its bytes decoded); the
  address \<open>parseaddr\<close> finds in its From header, and what DNS, dkimpy, the public suffix list and the
  clock answer, are the fields of \<open>auth_world\<close>.
\<close>

record auth_world =
  w_resolver :: resolver
  w_psl :: "(string \<Rightarrow> string) option"
  w_from_addr :: "string \<Rightarrow> string"
  w_signatures :: "string \<Rightarrow> string + dkim_outcome list"
  w_arc :: "string \<Rightarrow> arc_backend"
  w_dnsbl :: "string \<Rightarrow> bool"
  w_now :: rat

record auth_verdict =
  from_domain :: string
  av_spf :: spf_result
  av_dkim :: dkim_result
  av_dmarc :: dmarc_result
  av_mta_sts :: "mta_sts_result option"
  av_arc :: "arc_result option"
  av_bimi :: "bimi_result option"
  av_fcrdns :: "fcrdns_result option"
  av_baseline :: "baseline_verdict option"
  dnssec_valid :: bool
  av_score :: int
  av_reasons :: "string list"

definition extract_from_domain :: "auth_world \<Rightarrow> string \<Rightarrow> string" where
  "extract_from_domain w raw =
     (case rcut (CHR ''@'') (w_from_addr w raw) of None \<Rightarrow> [] | Some (_, d) \<Rightarrow> lower d)"

definition envelope_domain :: "string \<Rightarrow> string \<Rightarrow> string" where
  "envelope_domain from_dom envelope_from =
     (case rcut (CHR ''@'') envelope_from of None \<Rightarrow> from_dom | Some (_, d) \<Rightarrow> lower d)"

subsection \<open>Points\<close>

definition score_spf :: "spf_code \<Rightarrow> int \<times> string option" where
  "score_spf c =
     (if c = SPF_FAIL then (30, Some ''SPF hard fail'')
      else if c = SPF_SOFTFAIL then (15, Some ''SPF softfail'')
      else if c \<in> {SPF_PERMERROR, SPF_TEMPERROR}
      then (5, Some (''SPF evaluation error ('' @ spf_value c @ '')''))
      else (0, None))"

definition score_dkim :: "dkim_code \<Rightarrow> int \<times> string option" where
  "score_dkim c =
     (if c = DKIM_FAIL then (30, Some ''DKIM signature present but invalid'')
      else if c = DKIM_NONE then (15, Some ''no DKIM signature'')
      else if c \<in> {DKIM_PERMERROR, DKIM_TEMPERROR}
      then (5, Some (''DKIM evaluation error ('' @ dkim_value c @ '')''))
      else (0, None))"

definition score_dmarc :: "dmarc_code \<Rightarrow> dmarc_policy \<Rightarrow> int \<times> string option" where
  "score_dmarc c p =
     (if c \<noteq> DMARC_FAIL then (0, None)
      else if p = P_REJECT then (50, Some ''DMARC fail under p=reject'')
      else if p = P_QUARANTINE then (35, Some ''DMARC fail under p=quarantine'')
      else (10, Some ''DMARC fail under p=none (monitoring only)''))"

type_synonym tally = "int \<times> string list"

definition add_points :: "tally \<Rightarrow> int \<times> string option \<Rightarrow> tally" where
  "add_points t pr = (case snd pr of
     None \<Rightarrow> t | Some reason \<Rightarrow> (fst t + fst pr, snd t @ [reason]))"

definition arc_mitigates :: "arc_result \<Rightarrow> spf_result \<Rightarrow> dmarc_result \<Rightarrow> bool" where
  "arc_mitigates arc spf dmarc \<longleftrightarrow> arc_rcode arc = ARC_PASS \<and>
     (spf_rcode spf = SPF_FAIL \<or> dmarc_rcode dmarc = DMARC_FAIL)"

definition sender_points :: "arc_result \<Rightarrow> spf_result \<Rightarrow> dkim_result \<Rightarrow> dmarc_result \<Rightarrow> tally" where
  "sender_points arc spf dkim dmarc =
     (if arc_mitigates arc spf dmarc
      then (5, [''ARC chain valid ('' @ nat_str (instance_count arc) @ '' hops) - mitigated SPF/DMARC failure''])
      else foldl add_points (0, [])
             [score_spf (spf_rcode spf), score_dkim (dkim_rcode dkim),
              score_dmarc (dmarc_rcode dmarc) (dmarc_pol dmarc)])"

definition extra_points ::
    "fcrdns_result \<Rightarrow> baseline_verdict \<Rightarrow> dkim_policy_result \<Rightarrow> ip_rep_result \<Rightarrow> mta_sts_result \<Rightarrow> tally \<Rightarrow> tally" where
  "extra_points fc bl dkp ipr sts t0 =
     (let t1 = (if fc_rcode fc = FC_FAIL then (fst t0 + 15, snd t0 @ [fc_explanation fc]) else t0);
          t2 = (if bl_score bl > 0 then (fst t1 + bl_score bl, snd t1 @ [bl_explanation bl]) else t1);
          t3 = (if dkp_reasons dkp \<noteq> [] then (fst t2 + dkp_score dkp, snd t2 @ dkp_reasons dkp) else t2);
          t4 = (if is_listed ipr then (fst t3 + ipr_score ipr, snd t3 @ ipr_reasons ipr) else t3)
      in if sts_rcode sts = STS_ENFORCE_FAILED then (fst t4 + 20, snd t4 @ [sts_explanation sts]) else t4)"

text \<open>\<open>raw.split("\r\n\r\n")[0]\<close>\<close>

definition header_part :: "string \<Rightarrow> string" where
  "header_part raw = before_sub [CHR 13, CHR 10, CHR 13, CHR 10] raw"

definition run_auth_checks ::
    "auth_world \<Rightarrow> baseline_store \<Rightarrow> string \<Rightarrow> string \<Rightarrow> string \<Rightarrow> auth_verdict \<times> baseline_store" where
  "run_auth_checks w st raw client_ip envelope_from =
     (let r = w_resolver w;
          from_dom = extract_from_domain w raw;
          env_dom = envelope_domain from_dom envelope_from;
          spf = check_spf r env_dom client_ip envelope_from;
          dkim = check_dkim (w_signatures w raw);
          rec = fetch_dmarc_policy (w_psl w) r from_dom;
          dmarc = evaluate_dmarc (w_psl w) from_dom spf dkim rec;
          arc = check_arc (w_arc w raw) raw;
          bimi = check_bimi r from_dom;
          fc = check_fcrdns r client_ip;
          (bl, st') = evaluate_sender_baseline (w_now w) (if from_dom \<noteq> [] then from_dom else env_dom) client_ip st;
          dkp = evaluate_dkim_policy (header_part raw);
          ipr = check_connecting_ip_reputation (w_dnsbl w) [] client_ip;
          sts = check_mta_sts (header_part raw) None None;
          (score, reasons) = extra_points fc bl dkp ipr sts (sender_points arc spf dkim dmarc)
      in (\<lparr>from_domain = from_dom, av_spf = spf, av_dkim = dkim, av_dmarc = dmarc, av_mta_sts = Some sts,
           av_arc = Some arc, av_bimi = Some bimi, av_fcrdns = Some fc, av_baseline = Some bl,
           dnssec_valid = True, av_score = score, av_reasons = reasons\<rparr>, st'))"

subsection \<open>AuthVerdict.as\_dict\<close>

fun arc_value :: "arc_code \<Rightarrow> string" where
  "arc_value ARC_PASS = ''pass''" | "arc_value ARC_FAIL = ''fail''"
| "arc_value ARC_NONE = ''none''" | "arc_value ARC_PERMERROR = ''permerror''"

fun bimi_value :: "bimi_code \<Rightarrow> string" where
  "bimi_value BIMI_VALID = ''valid''" | "bimi_value BIMI_INVALID = ''invalid''"
| "bimi_value BIMI_NONE = ''none''"

fun fcrdns_value :: "fcrdns_code \<Rightarrow> string" where
  "fcrdns_value FC_PASS = ''pass''" | "fcrdns_value FC_FAIL = ''fail''" | "fcrdns_value FC_NONE = ''none''"

definition opt_entry :: "string \<Rightarrow> ('a \<Rightarrow> (string \<times> json) list) \<Rightarrow> 'a option \<Rightarrow> (string \<times> json) list" where
  "opt_entry k f x = (case x of None \<Rightarrow> [] | Some y \<Rightarrow> [(k, JDict (f y))])"

definition verdict_as_dict :: "auth_verdict \<Rightarrow> json" where
  "verdict_as_dict v = JDict (
     [(''from_domain'', JStr (from_domain v)),
      (''spf'', JDict [(''result'', JStr (spf_value (spf_rcode (av_spf v)))), (''domain'', JStr (spf_domain (av_spf v)))]),
      (''dkim'', JDict [(''result'', JStr (dkim_value (dkim_rcode (av_dkim v)))),
         (''signing_domain'', JStr (signing_domain (av_dkim v)))]),
      (''dmarc'', JDict [(''result'', JStr (dmarc_value (dmarc_rcode (av_dmarc v)))),
         (''policy'', JStr (policy_value (dmarc_pol (av_dmarc v)))),
         (''spf_aligned'', JBool (spf_aligned (av_dmarc v))), (''dkim_aligned'', JBool (dkim_aligned (av_dmarc v)))]),
      (''dnssec_valid'', JBool (dnssec_valid v)),
      (''score_delta'', JInt (av_score v)),
      (''reasons'', JList (map JStr (av_reasons v)))] @
     opt_entry ''mta_sts'' (\<lambda>s. [(''result'', JStr (sts_value (sts_rcode s))), (''mode'', JStr (sts_mode s))]) (av_mta_sts v) @
     opt_entry ''arc'' (\<lambda>a. [(''result'', JStr (arc_value (arc_rcode a))),
       (''instance_count'', JInt (int (instance_count a)))]) (av_arc v) @
     opt_entry ''bimi'' (\<lambda>b. [(''result'', JStr (bimi_value (bimi_rcode b))), (''record_found'', JBool (bimi_found b))]) (av_bimi v) @
     opt_entry ''fcrdns'' (\<lambda>f. [(''result'', JStr (fcrdns_value (fc_rcode f))), (''is_confirmed'', JBool (is_confirmed f))]) (av_fcrdns v) @
     opt_entry ''baseline'' (\<lambda>b. [(''is_first_contact'', JBool (is_first_contact b)),
       (''total_messages'', JInt (int (total_messages_seen b)))]) (av_baseline v))"

subsection \<open>Facts\<close>

lemma check_mta_sts_no_policy [simp]: "sts_rcode (check_mta_sts h c None) = STS_NONE"
  by (auto simp: check_mta_sts_def default_sts_policy_def split: prod.splits)

lemma baseline_score_range: "bl_score (fst (evaluate_sender_baseline t d ip st)) \<in> {0, 10}"
  by (simp add: evaluate_sender_baseline_def Let_def)

lemma dkim_policy_score_range: "dkp_score (evaluate_dkim_policy h) \<in> {0, 20}"
  by (simp add: evaluate_dkim_policy_def no_dkim_issue_def Let_def split: option.split)

lemma ip_rep_score_range: "ipr_score (check_connecting_ip_reputation f z ip) \<in> {0, 40}"
  by (simp add: check_connecting_ip_reputation_def Let_def split: option.split)

lemma score_ranges:
  "fst (score_spf c) \<in> {0, 5, 15, 30}" "fst (score_dkim d) \<in> {0, 5, 15, 30}" "fst (score_dmarc e p) \<in> {0, 10, 35, 50}"
  by (simp_all add: score_spf_def score_dkim_def score_dmarc_def)

lemma add_points_fst: "fst (add_points t pr) = fst t + (if snd pr = None then 0 else fst pr)"
  by (auto simp: add_points_def split: option.split)

lemma score_none: "snd (score_spf c) = None \<longleftrightarrow> fst (score_spf c) = 0"
  "snd (score_dkim d) = None \<longleftrightarrow> fst (score_dkim d) = 0" "snd (score_dmarc e p) = None \<longleftrightarrow> fst (score_dmarc e p) = 0"
  by (simp_all add: score_spf_def score_dkim_def score_dmarc_def)

lemma sender_points_fst:
  "fst (sender_points arc spf dkim dmarc) =
     (if arc_mitigates arc spf dmarc then 5
      else fst (score_spf (spf_rcode spf)) + fst (score_dkim (dkim_rcode dkim)) +
        fst (score_dmarc (dmarc_rcode dmarc) (dmarc_pol dmarc)))"
  by (simp add: sender_points_def add_points_fst score_none)

lemma extra_points_bounds:
  assumes "bl_score bl \<in> {0, 10}" "dkp_score dkp \<in> {0, 20}" "ipr_score ipr \<in> {0, 40}"
    and "sts_rcode sts \<noteq> STS_ENFORCE_FAILED"
  shows "fst t \<le> fst (extra_points fc bl dkp ipr sts t) \<and> fst (extra_points fc bl dkp ipr sts t) \<le> fst t + 85"
  using assms by (auto simp: extra_points_def Let_def)

lemma run_auth_checks_fields:
  fixes w st raw ip ef
  defines "v \<equiv> fst (run_auth_checks w st raw ip ef)"
  shows "fst (sender_points (the (av_arc v)) (av_spf v) (av_dkim v) (av_dmarc v)) \<le> av_score v \<and>
     av_score v \<le> fst (sender_points (the (av_arc v)) (av_spf v) (av_dkim v) (av_dmarc v)) + 85"
  using extra_points_bounds [OF baseline_score_range dkim_policy_score_range ip_rep_score_range]
  unfolding v_def by (simp add: run_auth_checks_def Let_def split_beta)

lemma sender_points_range:
  "0 \<le> fst (sender_points arc spf dkim dmarc) \<and> fst (sender_points arc spf dkim dmarc) \<le> 110"
  using score_ranges(1) [of "spf_rcode spf"] score_ranges(2) [of "dkim_rcode dkim"]
    score_ranges(3) [of "dmarc_rcode dmarc" "dmarc_pol dmarc"]
  by (auto simp: sender_points_fst)

lemma sender_points_reject:
  assumes "dmarc_rcode dmarc = DMARC_FAIL" "dmarc_pol dmarc = P_REJECT" "arc_rcode arc \<noteq> ARC_PASS"
  shows "50 \<le> fst (sender_points arc spf dkim dmarc)"
  using assms score_ranges(1) [of "spf_rcode spf"] score_ranges(2) [of "dkim_rcode dkim"]
  by (auto simp: sender_points_fst arc_mitigates_def score_dmarc_def)

text \<open>C10: The authentication stage adds between 0 and 195 points to a message's risk score, and MTA-STS
  contributes none of them: the pipeline consults no policy, so its result is always \<open>NONE\<close>.\<close>
theorem auth_score_bounds:
  "0 \<le> av_score (fst (run_auth_checks w st raw ip ef)) \<and> av_score (fst (run_auth_checks w st raw ip ef)) \<le> 195 \<and>
   map_option sts_rcode (av_mta_sts (fst (run_auth_checks w st raw ip ef))) = Some STS_NONE"
  using run_auth_checks_fields [of w st raw ip ef]
    sender_points_range [of "the (av_arc (fst (run_auth_checks w st raw ip ef)))"
      "av_spf (fst (run_auth_checks w st raw ip ef))" "av_dkim (fst (run_auth_checks w st raw ip ef))"
      "av_dmarc (fst (run_auth_checks w st raw ip ef))"]
  by (simp add: run_auth_checks_def Let_def split_beta)

definition example_world :: "string \<Rightarrow> arc_backend \<Rightarrow> auth_world" where
  "example_world txt arc = \<lparr>w_resolver = dmarc_zone ''a.io'' txt, w_psl = None, w_from_addr = (\<lambda>_. ''boss@a.io''),
     w_signatures = (\<lambda>_. Inr []), w_arc = (\<lambda>_. arc), w_dnsbl = (\<lambda>_. False), w_now = 0\<rparr>"

definition failed_chain_world :: auth_world where
  "failed_chain_world = example_world ''v=DMARC1; p=reject'' (ArcVerdict ''fail'' ''bad seal'')"

definition example_verdict :: "string \<Rightarrow> auth_verdict" where
  "example_verdict raw = fst (run_auth_checks failed_chain_world [] raw ''10.0.0.1'' ''x@b.io'')"

lemma example_verdict_dmarc:
  "dmarc_rcode (av_dmarc (example_verdict raw)) = DMARC_FAIL"
  "dmarc_pol (av_dmarc (example_verdict raw)) = P_REJECT"
  "av_arc (example_verdict raw) = Some (check_arc (ArcVerdict ''fail'' ''bad seal'') raw)"
proof -
  let ?r = "dmarc_zone ''a.io'' ''v=DMARC1; p=reject''"
  have dom: "extract_from_domain failed_chain_world raw = ''a.io''"
    unfolding extract_from_domain_def failed_chain_world_def example_world_def auth_world.simps by code_simp
  have "av_dmarc (example_verdict raw) = evaluate_dmarc None ''a.io'' (check_spf ?r ''b.io'' ''10.0.0.1'' ''x@b.io'')
      (check_dkim (Inr [])) (fetch_dmarc_policy None ?r ''a.io'')"
  proof -
    have "envelope_domain ''a.io'' ''x@b.io'' = ''b.io''" by code_simp
    then show ?thesis
      by (simp add: example_verdict_def run_auth_checks_def Let_def split_beta dom)
        (simp add: failed_chain_world_def example_world_def)
  qed
  moreover have "dmarc_rcode (evaluate_dmarc None ''a.io'' (check_spf ?r ''b.io'' ''10.0.0.1'' ''x@b.io'')
      (check_dkim (Inr [])) (fetch_dmarc_policy None ?r ''a.io'')) = DMARC_FAIL \<and>
    dmarc_pol (evaluate_dmarc None ''a.io'' (check_spf ?r ''b.io'' ''10.0.0.1'' ''x@b.io'')
      (check_dkim (Inr [])) (fetch_dmarc_policy None ?r ''a.io'')) = P_REJECT" by code_simp
  ultimately show "dmarc_rcode (av_dmarc (example_verdict raw)) = DMARC_FAIL"
    "dmarc_pol (av_dmarc (example_verdict raw)) = P_REJECT" by simp_all
  show "av_arc (example_verdict raw) = Some (check_arc (ArcVerdict ''fail'' ''bad seal'') raw)"
    by (simp add: example_verdict_def run_auth_checks_def Let_def split_beta)
      (simp add: failed_chain_world_def example_world_def)
qed

lemma example_verdict_checks:
  "spf_rcode (av_spf (example_verdict raw)) = SPF_NONE" "dkim_rcode (av_dkim (example_verdict raw)) = DKIM_NONE"
proof -
  have "envelope_domain d ''x@b.io'' = ''b.io''" for d by code_simp
  then have "av_spf (example_verdict raw) = check_spf (dmarc_zone ''a.io'' ''v=DMARC1; p=reject'') ''b.io'' ''10.0.0.1'' ''x@b.io''"
    "av_dkim (example_verdict raw) = check_dkim (Inr [])"
    by (simp_all add: example_verdict_def run_auth_checks_def Let_def split_beta)
      (simp_all add: failed_chain_world_def example_world_def)
  moreover have "spf_rcode (check_spf (dmarc_zone ''a.io'' ''v=DMARC1; p=reject'') ''b.io'' ''10.0.0.1'' ''x@b.io'') = SPF_NONE"
    "dkim_rcode (check_dkim (Inr [])) = DKIM_NONE" by code_simp+
  ultimately show "spf_rcode (av_spf (example_verdict raw)) = SPF_NONE" "dkim_rcode (av_dkim (example_verdict raw)) = DKIM_NONE"
    by simp_all
qed

text \<open>A message failing DMARC under a published \<open>p=reject\<close> gets at least 50 points unless an ARC
  chain is accepted for it.\<close>
theorem reject_failure_scores:
  assumes "dmarc_rcode (av_dmarc (fst (run_auth_checks w st raw ip ef))) = DMARC_FAIL"
    and "dmarc_pol (av_dmarc (fst (run_auth_checks w st raw ip ef))) = P_REJECT"
    and "map_option arc_rcode (av_arc (fst (run_auth_checks w st raw ip ef))) \<noteq> Some ARC_PASS"
  shows "50 \<le> av_score (fst (run_auth_checks w st raw ip ef))"
proof -
  let ?v = "fst (run_auth_checks w st raw ip ef)"
  have "av_arc ?v \<noteq> None" by (simp add: run_auth_checks_def Let_def split_beta)
  with assms(3) have "arc_rcode (the (av_arc ?v)) \<noteq> ARC_PASS" by auto
  from sender_points_reject [OF assms(1,2) this, of "av_spf ?v" "av_dkim ?v"]
    run_auth_checks_fields [of w st raw ip ef]
  show ?thesis by linarith
qed

theorem reject_failure_scores_witness: "50 \<le> av_score (example_verdict ''Subject: hi'')"
proof -
  have "arc_rcode (check_arc (ArcVerdict ''fail'' ''bad seal'') ''Subject: hi'') \<noteq> ARC_PASS" by code_simp
  with example_verdict_dmarc [of "''Subject: hi''"] show ?thesis
    unfolding example_verdict_def by (intro reject_failure_scores) auto
qed

lemma extra_points_shift:
  "fst (extra_points fc bl dkp ipr sts t) = fst t + fst (extra_points fc bl dkp ipr sts (0, []))"
  by (simp add: extra_points_def Let_def)

text \<open>The same world, in which dkimpy answers an empty status, as no valid chain should count.\<close>

definition chain_refused :: "string \<Rightarrow> auth_world \<Rightarrow> auth_world" where
  "chain_refused why w = w\<lparr>w_arc := (\<lambda>_. ArcVerdict [] why)\<rparr>"

lemma chain_refused_same:
  "w_resolver (chain_refused why w) = w_resolver w" "w_psl (chain_refused why w) = w_psl w"
  "w_signatures (chain_refused why w) = w_signatures w" "w_dnsbl (chain_refused why w) = w_dnsbl w"
  "w_now (chain_refused why w) = w_now w" "extract_from_domain (chain_refused why w) raw = extract_from_domain w raw"
  "w_arc (chain_refused why w) raw = ArcVerdict [] why"
  by (simp_all add: chain_refused_def extract_from_domain_def)

text \<open>The points besides those for SPF, DKIM and DMARC.\<close>

definition other_points :: "auth_world \<Rightarrow> string \<Rightarrow> string \<Rightarrow> auth_verdict \<Rightarrow> int" where
  "other_points w raw ip v = fst (extra_points (the (av_fcrdns v)) (the (av_baseline v)) (evaluate_dkim_policy (header_part raw))
     (check_connecting_ip_reputation (w_dnsbl w) [] ip) (check_mta_sts (header_part raw) None None) (0, []))"

lemma run_auth_score:
  "av_score (fst (run_auth_checks w st raw ip ef)) =
     fst (sender_points (check_arc (w_arc w raw) raw) (av_spf (fst (run_auth_checks w st raw ip ef)))
       (av_dkim (fst (run_auth_checks w st raw ip ef))) (av_dmarc (fst (run_auth_checks w st raw ip ef)))) +
     other_points w raw ip (fst (run_auth_checks w st raw ip ef))"
  unfolding other_points_def run_auth_checks_def Let_def split_beta fst_conv auth_verdict.simps option.sel
  by (rule extra_points_shift)

lemma run_auth_same:
  "av_spf (fst (run_auth_checks (chain_refused why w) st raw ip ef)) = av_spf (fst (run_auth_checks w st raw ip ef))"
  "av_dkim (fst (run_auth_checks (chain_refused why w) st raw ip ef)) = av_dkim (fst (run_auth_checks w st raw ip ef))"
  "av_dmarc (fst (run_auth_checks (chain_refused why w) st raw ip ef)) = av_dmarc (fst (run_auth_checks w st raw ip ef))"
  "other_points (chain_refused why w) raw ip (fst (run_auth_checks (chain_refused why w) st raw ip ef)) =
     other_points w raw ip (fst (run_auth_checks w st raw ip ef))"
  by (simp_all add: other_points_def run_auth_checks_def Let_def split_beta chain_refused_same)

text \<open>C9: A message with an \<open>ARC-Seal\<close> header whose chain dkimpy reports as failed is taken for a message with a valid
  chain, because the status \<open>b"fail"\<close> is a true value in Python, unless the text itself says \<open>cv=fail\<close>. If SPF or
  DMARC fails, the points for SPF, DKIM and DMARC together are replaced by 5: the score differs by exactly that from
  the score of the same message in a world that refuses the chain.\<close>
theorem failed_arc_chain_mitigates:
  assumes "w_arc w raw = ArcVerdict ''fail'' why" "contains ''ARC-Seal:'' raw" "\<not> contains ''cv=fail'' (lower raw)"
    and "v = fst (run_auth_checks w st raw ip ef)" "v0 = fst (run_auth_checks (chain_refused why w) st raw ip ef)"
    and "spf_rcode (av_spf v) = SPF_FAIL \<or> dmarc_rcode (av_dmarc v) = DMARC_FAIL"
  shows "map_option arc_rcode (av_arc v) = Some ARC_PASS \<and> map_option arc_rcode (av_arc v0) = Some ARC_FAIL \<and>
     av_score v - 5 = av_score v0 - (fst (score_spf (spf_rcode (av_spf v))) + fst (score_dkim (dkim_rcode (av_dkim v))) +
       fst (score_dmarc (dmarc_rcode (av_dmarc v)) (dmarc_pol (av_dmarc v))))"
proof -
  have arc: "av_arc v = Some (check_arc (w_arc w raw) raw)" "av_arc v0 = Some (check_arc (ArcVerdict [] why) raw)"
    by (simp_all add: assms(4,5) run_auth_checks_def Let_def split_beta chain_refused_same)
  have pass: "arc_rcode (check_arc (w_arc w raw) raw) = ARC_PASS" using assms(1-3) by (simp add: arc_pass_iff)
  have refused: "arc_rcode (check_arc (ArcVerdict [] why) raw) = ARC_FAIL"
    using assms(2,3) by (simp add: check_arc_def Let_def)
  note score = run_auth_score [where w = w and raw = raw and st = st and ip = ip and ef = ef]
    run_auth_score [where w = "chain_refused why w" and raw = raw and st = st and ip = ip and ef = ef]
  note same = run_auth_same [where why = why and w = w and raw = raw and st = st and ip = ip and ef = ef]
  have "fst (sender_points (check_arc (w_arc w raw) raw) (av_spf v) (av_dkim v) (av_dmarc v)) = 5"
    using assms(6) pass by (simp add: sender_points_fst arc_mitigates_def)
  moreover have "\<not> arc_mitigates (check_arc (ArcVerdict [] why) raw) (av_spf v) (av_dmarc v)"
    using refused by (simp add: arc_mitigates_def)
  ultimately show ?thesis
    using score arc pass refused same by (simp add: sender_points_fst assms(4,5) chain_refused_same arc_mitigates_def)
qed

theorem failed_arc_chain_mitigates_witness:
  "av_score (fst (run_auth_checks (chain_refused ''bad seal'' failed_chain_world) [] ''ARC-Seal: i=1; cv=none'' ''10.0.0.1'' ''x@b.io'')) =
   av_score (example_verdict ''ARC-Seal: i=1; cv=none'') + 60"
proof -
  let ?m = "''ARC-Seal: i=1; cv=none''"
  have "contains ''ARC-Seal:'' ?m" "\<not> contains ''cv=fail'' (lower ?m)" by code_simp+
  moreover have "w_arc failed_chain_world ?m = ArcVerdict ''fail'' ''bad seal''"
    by (simp add: failed_chain_world_def example_world_def)
  moreover have "spf_rcode (av_spf (example_verdict ?m)) = SPF_NONE" "dkim_rcode (av_dkim (example_verdict ?m)) = DKIM_NONE"
    using example_verdict_checks by simp_all
  ultimately show ?thesis
    using failed_arc_chain_mitigates [of failed_chain_world ?m "''bad seal''" "example_verdict ?m" "[]" "''10.0.0.1''" "''x@b.io''"]
      example_verdict_dmarc(1,2) [of ?m]
    by (simp add: example_verdict_def score_spf_def score_dkim_def score_dmarc_def)
qed

end
