(* ===== verification/Quarantine.thy ===== *)
theory Quarantine
  imports DecisionModel "HOL-Library.List_Lexorder" "HOL-Library.Char_ord"
begin

text \<open>
  \<open>delivery/quarantine.py\<close> with the record types of \<open>delivery/models.py\<close> and the cipher of
  \<open>security/encryption.py\<close>. A quarantine directory is its files: metadata as JSON values
  (\<^term>\<open>None\<close> is a file that is not JSON) and messages as bytes. Fernet is a parameter: encryption
  takes a key, a nonce and the data, decryption raises or answers. Ids come from \<open>uuid4\<close>.
\<close>

subsection \<open>models.py\<close>

datatype delivery_outcome = RELAYED | RELAYED_MODIFIED | QUARANTINED | RELAY_FAILED

fun outcome_value :: "delivery_outcome \<Rightarrow> string" where
  "outcome_value RELAYED = ''relayed''"
| "outcome_value RELAYED_MODIFIED = ''relayed_modified''"
| "outcome_value QUARANTINED = ''quarantined''"
| "outcome_value RELAY_FAILED = ''relay_failed''"

record delivery_result =
  dr_outcome :: delivery_outcome
  dr_detail :: string
  dr_quarantine_id :: string
  dr_notified :: bool

definition delivery_as_dict :: "delivery_result \<Rightarrow> json" where
  "delivery_as_dict d = JDict [(''outcome'', JStr (outcome_value (dr_outcome d))), (''detail'', JStr (dr_detail d)),
     (''quarantine_id'', JStr (dr_quarantine_id d)), (''notified'', JBool (dr_notified d))]"

record quarantine_record =
  quarantine_id :: string
  q_message_id :: string
  envelope_from :: string
  envelope_to :: "string list"
  q_total_score :: int
  q_action :: string
  q_reasons :: "string list"
  quarantined_at :: rat
  q_status :: string
  resolved_at :: "rat option"
  resolved_by :: string
  resolution_note :: string

definition record_as_dict :: "quarantine_record \<Rightarrow> json" where
  "record_as_dict r = JDict
     [(''quarantine_id'', JStr (quarantine_id r)), (''message_id'', JStr (q_message_id r)),
      (''envelope_from'', JStr (envelope_from r)), (''envelope_to'', jstrs (envelope_to r)),
      (''total_score'', JInt (q_total_score r)), (''action'', JStr (q_action r)),
      (''reasons'', jstrs (q_reasons r)), (''quarantined_at'', JNum (quarantined_at r)),
      (''status'', JStr (q_status r)),
      (''resolved_at'', case resolved_at r of None \<Rightarrow> JNull | Some t \<Rightarrow> JNum t),
      (''resolved_by'', JStr (resolved_by r)), (''resolution_note'', JStr (resolution_note r))]"

text \<open>\<open>QuarantineRecord(**d)\<close> of a decoded file: a \<open>TypeError\<close> for other keys than the fields or a missing
  required one. Values of another type than the store writes are not modelled and count as such an error.\<close>

definition str_items :: "json \<Rightarrow> string list option" where
  "str_items j = (case j of
     JList xs \<Rightarrow> (if list_all (\<lambda>x. case x of JStr _ \<Rightarrow> True | _ \<Rightarrow> False) xs
       then Some (map (\<lambda>x. case x of JStr s \<Rightarrow> s | _ \<Rightarrow> []) xs) else None)
   | _ \<Rightarrow> None)"

definition str_field :: "(string, json) dict \<Rightarrow> string \<Rightarrow> string option \<Rightarrow> string option" where
  "str_field d k absent = (case dget d k of None \<Rightarrow> absent | Some (JStr s) \<Rightarrow> Some s | Some _ \<Rightarrow> None)"

definition record_fields :: "string list" where
  "record_fields = [''quarantine_id'', ''message_id'', ''envelope_from'', ''envelope_to'', ''total_score'', ''action'',
     ''reasons'', ''quarantined_at'', ''status'', ''resolved_at'', ''resolved_by'', ''resolution_note'']"

definition record_from_dict :: "json \<Rightarrow> quarantine_record option" where
  "record_from_dict j = (case j of
     JDict d \<Rightarrow>
       (if \<not> list_all (\<lambda>p. fst p \<in> set record_fields) d then None
        else (case (str_field d ''quarantine_id'' None, str_field d ''message_id'' None,
                    str_field d ''envelope_from'' None, Option.bind (dget d ''envelope_to'') str_items,
                    dget d ''total_score'', str_field d ''action'' None, Option.bind (dget d ''reasons'') str_items) of
            (Some qid, Some mid, Some from, Some to, Some (JInt score), Some act, Some reasons) \<Rightarrow>
              (case (dget d ''quarantined_at'', str_field d ''status'' (Some ''pending''),
                     dgetd d ''resolved_at'' JNull, str_field d ''resolved_by'' (Some []),
                     str_field d ''resolution_note'' (Some [])) of
                 (Some (JNum since), Some st, res, Some who, Some note) \<Rightarrow>
                   (case res of
                      JNull \<Rightarrow> Some \<lparr>quarantine_id = qid, q_message_id = mid, envelope_from = from, envelope_to = to,
                        q_total_score = score, q_action = act, q_reasons = reasons, quarantined_at = since, q_status = st,
                        resolved_at = None, resolved_by = who, resolution_note = note\<rparr>
                    | JNum t \<Rightarrow> Some \<lparr>quarantine_id = qid, q_message_id = mid, envelope_from = from, envelope_to = to,
                        q_total_score = score, q_action = act, q_reasons = reasons, quarantined_at = since, q_status = st,
                        resolved_at = Some t, resolved_by = who, resolution_note = note\<rparr>
                    | _ \<Rightarrow> None)
               | _ \<Rightarrow> None)
          | _ \<Rightarrow> None))
   | _ \<Rightarrow> None)"

lemma str_items_jstrs [simp]: "str_items (jstrs xs) = Some xs"
  by (simp add: str_items_def jstrs_def list_all_iff comp_def)

lemma record_roundtrip [simp]: "record_from_dict (record_as_dict r) = Some r"
proof -
  have "list_all (\<lambda>p. fst p \<in> set record_fields)
    (case record_as_dict r of JDict d \<Rightarrow> d | _ \<Rightarrow> [])" by (simp add: record_as_dict_def record_fields_def)
  then show ?thesis
    by (cases "resolved_at r") (simp_all add: record_from_dict_def record_as_dict_def str_field_def dgetd_def)
qed

subsection \<open>security/encryption.py\<close>

record fernet =
  f_encrypt :: "string \<Rightarrow> string \<Rightarrow> string \<Rightarrow> string"
  f_decrypt :: "string \<Rightarrow> string \<Rightarrow> string option"

text \<open>A \<open>RawMailCipher\<close> is its key; the empty key disables it.\<close>

definition cipher_enabled :: "string \<Rightarrow> bool" where
  "cipher_enabled key \<longleftrightarrow> key \<noteq> []"

definition cipher_encrypt :: "fernet \<Rightarrow> string \<Rightarrow> string \<Rightarrow> string \<Rightarrow> string" where
  "cipher_encrypt f key nonce data = (if \<not> cipher_enabled key then data else f_encrypt f key nonce data)"

definition cipher_decrypt :: "fernet \<Rightarrow> string \<Rightarrow> string \<Rightarrow> string option" where
  "cipher_decrypt f key data = (if \<not> cipher_enabled key then Some data else f_decrypt f key data)"

text \<open>What Fernet documents: decryption under the key undoes encryption.\<close>

definition fernet_ok :: "fernet \<Rightarrow> bool" where
  "fernet_ok f \<longleftrightarrow> (\<forall>k n d. f_decrypt f k (f_encrypt f k n d) = Some d)"

lemma cipher_roundtrip: "fernet_ok f \<Longrightarrow> cipher_decrypt f key (cipher_encrypt f key nonce data) = Some data"
  by (simp add: cipher_decrypt_def cipher_encrypt_def fernet_ok_def)

subsection \<open>QuarantineStore\<close>

record quarantine_dir =
  metas :: "(string, json option) dict"
  emls :: "(string, string) dict"

record quarantine_store =
  qs_dir :: quarantine_dir
  qs_key :: string

definition empty_dir :: quarantine_dir where
  "empty_dir = \<lparr>metas = [], emls = []\<rparr>"

text \<open>\<open>cipher or RawMailCipher(key="")\<close>\<close>

definition store_new :: "quarantine_dir \<Rightarrow> string option \<Rightarrow> quarantine_store" where
  "store_new d cipher = \<lparr>qs_dir = d, qs_key = (case cipher of None \<Rightarrow> [] | Some k \<Rightarrow> k)\<rparr>"

definition eml_path :: "quarantine_store \<Rightarrow> string \<Rightarrow> string" where
  "eml_path st qid = qid @ (if cipher_enabled (qs_key st) then ''.eml.enc'' else ''.eml'')"

definition meta_path :: "string \<Rightarrow> string" where
  "meta_path qid = qid @ ''.json''"

record mail =
  m_raw :: string
  m_id :: string
  m_from :: string
  m_to :: "string list"
  m_score :: int
  m_action :: string
  m_reasons :: "string list"

definition new_record :: "string \<Rightarrow> rat \<Rightarrow> mail \<Rightarrow> quarantine_record" where
  "new_record qid now m = \<lparr>quarantine_id = qid, q_message_id = m_id m, envelope_from = m_from m, envelope_to = m_to m,
     q_total_score = m_score m, q_action = m_action m, q_reasons = m_reasons m, quarantined_at = now,
     q_status = ''pending'', resolved_at = None, resolved_by = [], resolution_note = []\<rparr>"

definition write_meta :: "string \<Rightarrow> quarantine_record \<Rightarrow> quarantine_store \<Rightarrow> quarantine_store" where
  "write_meta qid r st = st\<lparr>qs_dir := (qs_dir st)\<lparr>metas := dset (metas (qs_dir st)) (meta_path qid) (Some (record_as_dict r))\<rparr>\<rparr>"

definition q_store :: "fernet \<Rightarrow> string \<Rightarrow> string \<Rightarrow> rat \<Rightarrow> mail \<Rightarrow> quarantine_store \<Rightarrow> quarantine_record \<times> quarantine_store" where
  "q_store f nonce qid now m st =
     (let r = new_record qid now m;
          body = cipher_encrypt f (qs_key st) nonce (m_raw m);
          st1 = st\<lparr>qs_dir := (qs_dir st)\<lparr>emls := dset (emls (qs_dir st)) (eml_path st qid) body\<rparr>\<rparr>
      in (r, write_meta qid r st1))"

text \<open>\<open>_load_record\<close>: no file, or a record, or the exception of a broken file.\<close>

definition get_record :: "quarantine_store \<Rightarrow> string \<Rightarrow> quarantine_record option result" where
  "get_record st qid = (case dget (metas (qs_dir st)) (meta_path qid) of
       None \<Rightarrow> Inr None
     | Some content \<Rightarrow> (case Option.bind content record_from_dict of
          None \<Rightarrow> Inl (ValueError ''broken metadata'')
        | Some r \<Rightarrow> Inr (Some r)))"

definition get_raw_message :: "fernet \<Rightarrow> quarantine_store \<Rightarrow> string \<Rightarrow> string option result" where
  "get_raw_message f st qid = (case dget (emls (qs_dir st)) (eml_path st qid) of
       None \<Rightarrow> Inr None
     | Some body \<Rightarrow> (case cipher_decrypt f (qs_key st) body of
          None \<Rightarrow> Inl (OtherError ''InvalidToken'') | Some raw \<Rightarrow> Inr (Some raw)))"

definition list_pending :: "quarantine_store \<Rightarrow> quarantine_record list" where
  "list_pending st = List.map_filter (\<lambda>(path, content). case Option.bind content record_from_dict of
       None \<Rightarrow> None
     | Some r \<Rightarrow> if q_status r = ''pending'' then Some r else None)
     (sort_key fst (metas (qs_dir st)))"

definition resolve :: "string \<Rightarrow> string \<Rightarrow> string \<Rightarrow> rat \<Rightarrow> string \<Rightarrow> quarantine_store \<Rightarrow>
    quarantine_record option result \<times> quarantine_store" where
  "resolve status who note now qid st = (case get_record st qid of
       Inl e \<Rightarrow> (Inl e, st)
     | Inr None \<Rightarrow> (Inr None, st)
     | Inr (Some r) \<Rightarrow>
         (let r' = r\<lparr>q_status := status, resolved_at := Some now, resolved_by := who, resolution_note := note\<rparr>
          in (Inr (Some r'), write_meta qid r' st)))"

definition release :: "string \<Rightarrow> string \<Rightarrow> rat \<Rightarrow> string \<Rightarrow> quarantine_store \<Rightarrow> quarantine_record option result \<times> quarantine_store" where
  "release who note now qid st = resolve ''released'' who note now qid st"

definition reject :: "string \<Rightarrow> string \<Rightarrow> rat \<Rightarrow> string \<Rightarrow> quarantine_store \<Rightarrow> quarantine_record option result \<times> quarantine_store" where
  "reject who note now qid st = resolve ''rejected'' who note now qid st"

subsection \<open>Facts\<close>

lemma meta_path_inj [simp]: "meta_path a = meta_path b \<longleftrightarrow> a = b"
  by (simp add: meta_path_def)

lemma eml_path_inj [simp]: "eml_path st a = eml_path st b \<longleftrightarrow> a = b"
  by (simp add: eml_path_def)

lemma write_meta_fixed [simp]:
  "qs_key (write_meta qid r st) = qs_key st" "emls (qs_dir (write_meta qid r st)) = emls (qs_dir st)"
  "metas (qs_dir (write_meta qid r st)) = dset (metas (qs_dir st)) (meta_path qid) (Some (record_as_dict r))"
  "eml_path (write_meta qid r st) = eml_path st"
  by (simp_all add: write_meta_def eml_path_def fun_eq_iff)

lemma get_record_write [simp]:
  "get_record (write_meta qid r st) i = (if i = qid then Inr (Some r) else get_record st i)"
  by (simp add: get_record_def)

subsection \<open>The store as a map\<close>

datatype q_op =
    OpStore string string rat mail
  | OpRelease string string rat string
  | OpReject string string rat string

fun q_apply :: "fernet \<Rightarrow> quarantine_store \<Rightarrow> q_op \<Rightarrow> quarantine_store" where
  "q_apply f st (OpStore nonce qid now m) = snd (q_store f nonce qid now m st)"
| "q_apply f st (OpRelease who note now qid) = snd (release who note now qid st)"
| "q_apply f st (OpReject who note now qid) = snd (reject who note now qid st)"

text \<open>The abstract store: the message and the record of each id.\<close>

definition resolve_record :: "string \<Rightarrow> string \<Rightarrow> string \<Rightarrow> rat \<Rightarrow> quarantine_record \<Rightarrow> quarantine_record" where
  "resolve_record status who note now r =
     r\<lparr>q_status := status, resolved_at := Some now, resolved_by := who, resolution_note := note\<rparr>"

fun spec_apply :: "(string \<rightharpoonup> string \<times> quarantine_record) \<Rightarrow> q_op \<Rightarrow> (string \<rightharpoonup> string \<times> quarantine_record)" where
  "spec_apply m (OpStore nonce qid now mail) = m(qid \<mapsto> (m_raw mail, new_record qid now mail))"
| "spec_apply m (OpRelease who note now qid) = m(qid := map_option (apsnd (resolve_record ''released'' who note now)) (m qid))"
| "spec_apply m (OpReject who note now qid) = m(qid := map_option (apsnd (resolve_record ''rejected'' who note now)) (m qid))"

definition q_run :: "fernet \<Rightarrow> quarantine_store \<Rightarrow> q_op list \<Rightarrow> quarantine_store" where
  "q_run f st ops = foldl (q_apply f) st ops"

definition spec_run :: "q_op list \<Rightarrow> (string \<rightharpoonup> string \<times> quarantine_record)" where
  "spec_run ops = foldl spec_apply Map.empty ops"

definition meta_ok :: "string \<times> json option \<Rightarrow> bool" where
  "meta_ok p \<longleftrightarrow> (\<exists>qid r. p = (meta_path qid, Some (record_as_dict r)))"

definition implements :: "fernet \<Rightarrow> quarantine_store \<Rightarrow> (string \<rightharpoonup> string \<times> quarantine_record) \<Rightarrow> bool" where
  "implements f st m \<longleftrightarrow> dict_ok (metas (qs_dir st)) \<and> (\<forall>p \<in> set (metas (qs_dir st)). meta_ok p) \<and>
     (\<forall>qid. get_record st qid = Inr (map_option snd (m qid)) \<and> get_raw_message f st qid = Inr (map_option fst (m qid)))"

lemma implements_new: "implements f (store_new empty_dir cipher) Map.empty"
  by (simp add: implements_def store_new_def empty_dir_def get_record_def get_raw_message_def)

lemma get_raw_write [simp]: "get_raw_message f (write_meta qid r st) i = get_raw_message f st i"
  by (simp add: get_raw_message_def split: option.split)

lemma write_meta_ok:
  assumes "dict_ok (metas (qs_dir st))" "\<forall>p \<in> set (metas (qs_dir st)). meta_ok p"
  shows "dict_ok (metas (qs_dir (write_meta qid r st)))" "\<forall>p \<in> set (metas (qs_dir (write_meta qid r st))). meta_ok p"
  using assms set_dset_subset [of "meta_path qid" "Some (record_as_dict r)" "metas (qs_dir st)"]
  by (auto simp: meta_ok_def)

lemma implements_store:
  assumes "fernet_ok f" "implements f st m"
  shows "implements f (snd (q_store f nonce qid now mail st)) (m(qid \<mapsto> (m_raw mail, new_record qid now mail)))"
proof -
  let ?st1 = "st\<lparr>qs_dir := (qs_dir st)\<lparr>emls := dset (emls (qs_dir st)) (eml_path st qid)
      (cipher_encrypt f (qs_key st) nonce (m_raw mail))\<rparr>\<rparr>"
  have "get_record ?st1 i = get_record st i" for i by (simp add: get_record_def)
  moreover have "eml_path ?st1 = eml_path st" by (simp add: eml_path_def fun_eq_iff)
  then have "get_raw_message f ?st1 i = (if i = qid then Inr (Some (m_raw mail)) else get_raw_message f st i)" for i
    using cipher_roundtrip [OF assms(1)] by (simp add: get_raw_message_def split: option.split)
  ultimately show ?thesis
    using assms(2) write_meta_ok [of ?st1 qid "new_record qid now mail"]
    by (simp add: implements_def q_store_def Let_def)
qed

lemma implements_resolve:
  assumes "implements f st m"
  shows "implements f (snd (resolve status who note now qid st))
     (m(qid := map_option (apsnd (resolve_record status who note now)) (m qid)))"
proof (cases "m qid")
  case None
  then have "get_record st qid = Inr None" using assms by (simp add: implements_def)
  with None assms show ?thesis by (simp add: resolve_def fun_upd_idem)
next
  case (Some x)
  then have "get_record st qid = Inr (Some (snd x))" using assms by (simp add: implements_def)
  with Some assms write_meta_ok [of st qid "resolve_record status who note now (snd x)"] show ?thesis
    by (auto simp: resolve_def implements_def resolve_record_def Let_def)
qed

lemma implements_apply:
  "fernet_ok f \<Longrightarrow> implements f st m \<Longrightarrow> implements f (q_apply f st op) (spec_apply m op)"
  by (cases op) (simp_all add: implements_store implements_resolve release_def reject_def)

lemma implements_run:
  assumes "fernet_ok f" "implements f st m"
  shows "implements f (q_run f st ops) (foldl spec_apply m ops)"
  using assms unfolding q_run_def by (induction ops arbitrary: st m) (auto intro: implements_apply)

lemma get_record_ok:
  assumes "\<forall>p \<in> set (metas (qs_dir st)). meta_ok p"
  shows "get_record st qid = Inr (Some r) \<longleftrightarrow> dget (metas (qs_dir st)) (meta_path qid) = Some (Some (record_as_dict r))"
proof (cases "dget (metas (qs_dir st)) (meta_path qid)")
  case (Some c)
  then have "meta_ok (meta_path qid, c)" using assms map_of_SomeD by fastforce
  then obtain r2 where "c = Some (record_as_dict r2)" by (auto simp: meta_ok_def)
  with Some show ?thesis by (auto simp: get_record_def dest: arg_cong [where f = record_from_dict])
qed (simp add: get_record_def)

lemma pending_of_map:
  assumes "implements f st m"
  shows "set (list_pending st) = {r. \<exists>qid raw. m qid = Some (raw, r) \<and> q_status r = ''pending''}"
proof -
  have rec: "dget (metas (qs_dir st)) (meta_path qid) = Some (Some (record_as_dict r)) \<longleftrightarrow> (\<exists>raw. m qid = Some (raw, r))" for qid r
  proof -
    have "dget (metas (qs_dir st)) (meta_path qid) = Some (Some (record_as_dict r)) \<longleftrightarrow> get_record st qid = Inr (Some r)"
      using assms get_record_ok unfolding implements_def by blast
    also have "get_record st qid = Inr (map_option snd (m qid))" using assms by (simp add: implements_def)
    finally show ?thesis by (cases "m qid") auto
  qed
  have ok: "dict_ok (metas (qs_dir st))" "\<forall>p \<in> set (metas (qs_dir st)). meta_ok p"
    using assms by (simp_all add: implements_def)
  show ?thesis
  proof (intro set_eqI iffI)
    fix r
    assume "r \<in> set (list_pending st)"
    then obtain path c where "(path, c) \<in> set (metas (qs_dir st))" "Option.bind c record_from_dict = Some r"
      "q_status r = ''pending''"
      by (auto simp: list_pending_def in_map_filter split: option.splits if_splits)
    moreover from this(1) ok(2) obtain qid r2 where "path = meta_path qid" "c = Some (record_as_dict r2)"
      by (auto simp: meta_ok_def)
    ultimately show "r \<in> {r. \<exists>qid raw. m qid = Some (raw, r) \<and> q_status r = ''pending''}"
      using rec [of qid r] dict_ok_mem [OF ok(1)] by auto
  next
    fix r
    assume "r \<in> {r. \<exists>qid raw. m qid = Some (raw, r) \<and> q_status r = ''pending''}"
    then obtain qid where "dget (metas (qs_dir st)) (meta_path qid) = Some (Some (record_as_dict r))"
      and "q_status r = ''pending''" using rec by auto
    moreover from this(1) have "(meta_path qid, Some (record_as_dict r)) \<in> set (sort_key fst (metas (qs_dir st)))"
      by (simp add: map_of_SomeD)
    ultimately show "r \<in> set (list_pending st)"
      unfolding list_pending_def in_map_filter by (intro bexI) auto
  qed
qed

text \<open>C12: After any sequence of stores, releases and rejections the quarantine is the map those operations
  describe: every stored message is read back byte for byte through the encryption, every record is
  the one last written, and the pending list holds exactly the records no one has resolved.\<close>
theorem quarantine_refines_map:
  assumes "fernet_ok f"
  shows "(let st = q_run f (store_new empty_dir cipher) ops; m = spec_run ops in
     (\<forall>qid. get_record st qid = Inr (map_option snd (m qid)) \<and>
        get_raw_message f st qid = Inr (map_option fst (m qid))) \<and>
     set (list_pending st) = {r. \<exists>qid raw. m qid = Some (raw, r) \<and> q_status r = ''pending''})"
proof -
  have impl: "implements f (q_run f (store_new empty_dir cipher) ops) (spec_run ops)"
    using implements_run [OF assms implements_new] by (simp add: spec_run_def)
  then show ?thesis using pending_of_map [OF impl] by (simp add: Let_def implements_def)
qed

definition toy_fernet :: fernet where
  "toy_fernet = \<lparr>f_encrypt = (\<lambda>k n d. rev d), f_decrypt = (\<lambda>k d. Some (rev d))\<rparr>"

definition example_mail :: mail where
  "example_mail = \<lparr>m_raw = ''Subject: x'', m_id = ''m1'', m_from = ''a@b.io'', m_to = [''c@d.io''], m_score = 80,
     m_action = ''quarantine'', m_reasons = [''r'']\<rparr>"

theorem quarantine_refines_map_witness:
  "get_raw_message toy_fernet (q_run toy_fernet (store_new empty_dir (Some ''key'')) [OpStore ''n'' ''q1'' 5 example_mail,
      OpRelease ''joe'' ''ok'' 6 ''q1'']) ''q1'' = Inr (Some ''Subject: x'')"
proof -
  have "fernet_ok toy_fernet" by (simp add: fernet_ok_def toy_fernet_def)
  from quarantine_refines_map [OF this, of "Some ''key''" "[OpStore ''n'' ''q1'' 5 example_mail, OpRelease ''joe'' ''ok'' 6 ''q1'']"]
  show ?thesis by (simp add: Let_def spec_run_def example_mail_def)
qed

text \<open>A resolved item can be resolved again: rejecting a message that was released (and so delivered)
  overwrites its record with the rejection.\<close>
theorem released_item_can_be_rejected:
  "map_option q_status (case get_record (q_run toy_fernet (store_new empty_dir None)
     [OpStore ''n'' ''q1'' 5 example_mail, OpRelease ''joe'' ''ok'' 6 ''q1'', OpReject ''eve'' ''no'' 7 ''q1'']) ''q1'' of
     Inr r \<Rightarrow> r | Inl _ \<Rightarrow> None) = Some ''rejected''"
  by (simp add: q_run_def release_def reject_def resolve_def q_store_def Let_def)

end
