(* ===== verification/Delivery.thy ===== *)
theory Delivery
  imports Quarantine Resilience Regex
begin

text \<open>
  \<open>delivery/pipeline.py\<close> (what happens to a message after the decision), with the relay
  (\<open>relay.py\<close>, over the retry decorator), the defanging of links in \<open>modify.py\<close>, and the delivery
  tracker (\<open>confirmation.py\<close>). The SMTP library, the notifier's channel and the rewriting of whole
  messages, which the theory \<open>Rewriting\<close> supplies, are parameters.
\<close>

subsection \<open>relay.py\<close>

text \<open>What \<open>aiosmtplib.send\<close> raises: a connection failure, which is retried, a rejection, or anything else.\<close>

datatype smtp_exn =
    SmtpConnection string
  | SmtpRejected int string
  | SmtpOther string

type_synonym 'w smtp = "string \<Rightarrow> string \<Rightarrow> string list \<Rightarrow> 'w \<Rightarrow> (smtp_exn + unit) \<times> 'w"

record smtp_relay =
  r_host :: string
  r_port :: nat
  r_max_attempts :: int
  r_backoff :: rat

datatype relay_error =
    RelayError string
  | RelayCrash string

definition is_connection_failure :: "smtp_exn \<Rightarrow> bool" where
  "is_connection_failure e = (case e of SmtpConnection _ \<Rightarrow> True | _ \<Rightarrow> False)"

fun smtp_text :: "smtp_exn \<Rightarrow> string" where
  "smtp_text (SmtpConnection s) = s"
| "smtp_text (SmtpRejected c s) = int_str c @ '' '' @ s"
| "smtp_text (SmtpOther s) = s"

definition relay_send ::
    "smtp_relay \<Rightarrow> (nat \<Rightarrow> rat) \<Rightarrow> 'w smtp \<Rightarrow> string \<Rightarrow> string \<Rightarrow> string list \<Rightarrow> 'w \<Rightarrow> (relay_error + unit) \<times> 'w" where
  "relay_send r draw smtp raw mail_from rcpt_to w =
     (let (res, _, w') = with_retry \<lparr>max_attempts = r_max_attempts r, base_delay = r_backoff r, max_delay = 5\<rparr>
            is_connection_failure draw (smtp raw mail_from rcpt_to) w
      in (case res of
            Inr _ \<Rightarrow> Inr ()
          | Inl (RetryExhausted _ final) \<Rightarrow> Inl (RelayError (''failed to relay to '' @ r_host r @ '':'' @ nat_str (r_port r) @
              '' after retries: '' @ (case final of None \<Rightarrow> ''None'' | Some e \<Rightarrow> smtp_text e)))
          | Inl (Propagated (SmtpRejected c m)) \<Rightarrow>
              Inl (RelayError (''destination server rejected the message: '' @ int_str c @ '' '' @ m))
          | Inl (Propagated e) \<Rightarrow> Inl (RelayCrash (smtp_text e)), w'))"

subsection \<open>modify.py: links\<close>

definition href_re :: re where
  "href_re = seqs [lit_ci ''href'', Star space, lit ''='', Star space,
     alts [seqs [lit [CHR 0x22], Cap 2 (LazyStar dot), lit [CHR 0x22]],
           seqs [lit [CHR 0x27], Cap 2 (LazyStar dot), lit [CHR 0x27]]]]"

definition plain_url_re :: re where
  "plain_url_re = seqs [lit_ci ''http'', Opt (lit_ci ''s''), lit ''://'',
     plus (Sat (\<lambda>c. \<not> is_space c \<and> c \<notin> set ([CHR 0x22, CHR 0x27] @ ''<>)]'')))]"

definition defang :: "string \<Rightarrow> string" where
  "defang url = replace_str ''.'' ''[.]''
     (replace_str ''https://'' ''hxxps[://]'' (replace_str ''http://'' ''hxxp[://]'' url))"

text \<open>\<open>_replace_href\<close> of a match: its quote is the last character of the match.\<close>

definition replace_href :: "string \<Rightarrow> nat \<times> nat \<times> captures \<Rightarrow> string" where
  "replace_href s m =
     (let whole = group0 s m; url = the (group s m 2); quote = [last whole] in
      if \<not> starts_with ''http://'' (lower url) \<and> \<not> starts_with ''https://'' (lower url) then whole
      else ''href='' @ quote @ ''#'' @ quote @ '' data-original-link-removed='' @ [CHR 0x22] @ defang url @ [CHR 0x22])"

text \<open>\<open>pattern.sub(f, s)\<close> for a pattern that matches no empty text.\<close>

fun paste :: "string \<Rightarrow> (nat \<times> nat \<times> captures \<Rightarrow> string) \<Rightarrow> nat \<Rightarrow> (nat \<times> nat \<times> captures) list \<Rightarrow> string" where
  "paste s f i [] = drop i s"
| "paste s f i (m # ms) = slice s i (fst m) @ f m @ paste s f (fst (snd m)) ms"

definition defang_html_links :: "string \<Rightarrow> string" where
  "defang_html_links html = paste html (replace_href html) 0 (find_all href_re html)"

definition defang_text_links :: "string \<Rightarrow> string" where
  "defang_text_links t = paste t (\<lambda>m. ''[LINK REMOVED: '' @ defang (group0 t m) @ '']'') 0 (find_all plain_url_re t)"

definition subject_warning :: "string \<Rightarrow> string \<Rightarrow> string" where
  "subject_warning pre subject =
     (if starts_with pre subject then subject
      else if subject = [] then rstrip_by is_space pre else pre @ subject)"

lemma subject_warning_prefixed: "starts_with (rstrip_by is_space pre) (subject_warning pre subject)"
proof -
  have "\<exists>r. pre = rstrip_by is_space pre @ r"
    unfolding rstrip_by_def by (metis rev_append rev_rev_ident takeWhile_dropWhile_id)
  then obtain r where r: "pre = rstrip_by is_space pre @ r" ..
  show ?thesis
  proof (cases "starts_with pre subject")
    case True
    then obtain q where "subject = pre @ q" by (auto simp: starts_with_iff)
    with r True show ?thesis unfolding subject_warning_def by (simp only: if_True) (metis append_assoc starts_with_append)
  next
    case False
    with r show ?thesis unfolding subject_warning_def starts_with_iff
      by (simp only: if_False split: if_split) (metis append_Nil2 append_assoc)
  qed
qed

subsection \<open>pipeline.py\<close>

text \<open>What the outside offers: the MIME rewriting of \<open>apply_warn_and_strip\<close> (an exception, or the new message
  and the names removed) and of \<open>apply_tag_only\<close>, the relay, and the notifier.\<close>

record 'w outside =
  o_warn_and_strip :: "string \<Rightarrow> string + string \<times> string list"
  o_tag_only :: "string \<Rightarrow> int \<Rightarrow> string \<Rightarrow> string list \<Rightarrow> string result"
  o_send :: "(string \<Rightarrow> string \<Rightarrow> string list \<Rightarrow> 'w \<Rightarrow> (relay_error + unit) \<times> 'w) option"
  o_notify :: "string \<Rightarrow> string \<Rightarrow> int \<Rightarrow> string list \<Rightarrow> bool"

text \<open>The world a delivery changes, with the quarantine store.\<close>

record 'w scene =
  sc_store :: quarantine_store
  sc_world :: 'w

definition result_of :: "delivery_outcome \<Rightarrow> string \<Rightarrow> delivery_result" where
  "result_of out detail = \<lparr>dr_outcome = out, dr_detail = detail, dr_quarantine_id = [], dr_notified = False\<rparr>"

text \<open>\<open>await relay.send(...)\<close> with its \<open>except RelayError\<close>; another exception escapes.\<close>

definition send_or_fail ::
    "(string \<Rightarrow> string \<Rightarrow> string list \<Rightarrow> 'w \<Rightarrow> (relay_error + unit) \<times> 'w) \<Rightarrow> string \<Rightarrow> mail \<Rightarrow>
     delivery_outcome \<Rightarrow> string \<Rightarrow> 'w scene \<Rightarrow> delivery_result result \<times> 'w scene" where
  "send_or_fail send body m out detail sc =
     (case send body (m_from m) (m_to m) (sc_world sc) of
        (Inr _, w) \<Rightarrow> (Inr (result_of out detail), sc\<lparr>sc_world := w\<rparr>)
      | (Inl (RelayError e), w) \<Rightarrow> (Inr (result_of RELAY_FAILED e), sc\<lparr>sc_world := w\<rparr>)
      | (Inl (RelayCrash e), w) \<Rightarrow> (Inl (OtherError e), sc\<lparr>sc_world := w\<rparr>))"

definition hold ::
    "fernet \<Rightarrow> string \<Rightarrow> string \<Rightarrow> rat \<Rightarrow> 'w outside \<Rightarrow> mail \<Rightarrow> string list \<Rightarrow> string \<Rightarrow> 'w scene \<Rightarrow>
     delivery_result result \<times> 'w scene" where
  "hold f nonce qid now out m reasons detail sc =
     (let (r, st') = q_store f nonce qid now (m\<lparr>m_reasons := reasons\<rparr>) (sc_store sc);
          notified = o_notify out (quarantine_id r) (m_from m) (m_score m) (m_reasons m)
      in (Inr \<lparr>dr_outcome = QUARANTINED, dr_detail = detail, dr_quarantine_id = quarantine_id r, dr_notified = notified\<rparr>,
          sc\<lparr>sc_store := st'\<rparr>))"

definition stripped_count :: "string list \<Rightarrow> string" where
  "stripped_count removed = nat_str (length removed) @ '' attachment(s) stripped''"

definition mirror_to_soc :: "'w outside \<Rightarrow> string option \<Rightarrow> mail \<Rightarrow> 'w scene \<Rightarrow> 'w scene" where
  "mirror_to_soc out soc_bcc m sc = (case (soc_bcc, o_send out) of
       (Some (c # cs), Some send) \<Rightarrow> sc\<lparr>sc_world := snd (send (m_raw m) (m_from m) [c # cs] (sc_world sc))\<rparr>
     | _ \<Rightarrow> sc)"

text \<open>\<open>deliver\<close> of the mail \<open>m\<close>, whose \<open>m_action\<close> is the action's value.\<close>

definition deliver ::
    "fernet \<Rightarrow> string \<Rightarrow> string \<Rightarrow> rat \<Rightarrow> 'w outside \<Rightarrow> action \<Rightarrow> mail \<Rightarrow> bool \<Rightarrow> string option \<Rightarrow> 'w scene \<Rightarrow>
     delivery_result result \<times> 'w scene" where
  "deliver f nonce qid now out act m0 tag_only soc_bcc sc =
     (let m = m0\<lparr>m_action := action_value act\<rparr> in
      if tag_only \<and> act \<noteq> FORWARD then
        (case o_tag_only out (m_raw m) (m_score m) (action_value act) (m_reasons m) of
           Inl e \<Rightarrow> (Inl e, sc)
         | Inr tagged \<Rightarrow>
             (let note = ''(original action='' @ action_value act @ '')''
              in case o_send out of
                   None \<Rightarrow> (Inr (result_of RELAYED (''tag-only dry-run: would relay tagged message '' @ note)), sc)
                 | Some send \<Rightarrow> send_or_fail send tagged m RELAYED (''tag-only: relayed tagged message '' @ note) sc))
      else if act = QUARANTINE then hold f nonce qid now out m (m_reasons m) ''held for review'' sc
      else if act = WARN_AND_STRIP then
        (case o_warn_and_strip out (m_raw m) of
           Inl exc \<Rightarrow> hold f nonce qid now out m
             (m_reasons m @ [''escalated: could not apply warn_and_strip ('' @ exc @ '')''])
             ''escalated from warn_and_strip: modification failed'' sc
         | Inr (modified, removed) \<Rightarrow>
             (case o_send out of
                None \<Rightarrow> (Inr (result_of RELAYED_MODIFIED (''dry-run: would relay with '' @ stripped_count removed)), sc)
              | Some send \<Rightarrow> send_or_fail send modified m RELAYED_MODIFIED (''relayed with '' @ stripped_count removed) sc))
      else
        let sc' = mirror_to_soc out soc_bcc m sc in
        (case o_send out of
           None \<Rightarrow> (Inr (result_of RELAYED ''dry-run: would relay unmodified''), sc')
         | Some send \<Rightarrow> send_or_fail send (m_raw m) m RELAYED ''relayed unmodified'' sc'))"

subsection \<open>Facts\<close>

text \<open>A relay that keeps a log of the messages it got through.\<close>

definition logging_send :: "(nat \<Rightarrow> relay_error + unit) \<Rightarrow> string \<Rightarrow> string \<Rightarrow> string list \<Rightarrow>
    nat \<times> (string \<times> string list) list \<Rightarrow> (relay_error + unit) \<times> nat \<times> (string \<times> string list) list" where
  "logging_send script body sender rcpts w =
     (script (fst w), Suc (fst w), if is_ok (script (fst w)) then snd w @ [(body, rcpts)] else snd w)"

definition delivered_log :: "(nat \<times> (string \<times> string list) list) scene \<Rightarrow> (string \<times> string list) list" where
  "delivered_log sc = snd (sc_world sc)"

lemma hold_stores:
  assumes "fernet_ok f" "hold f nonce qid now out m rs detail sc = (Inr d, sc')"
  shows "dr_outcome d = QUARANTINED" "dr_quarantine_id d = qid" "sc_world sc' = sc_world sc"
    "get_raw_message f (sc_store sc') qid = Inr (Some (m_raw m))"
    "get_record (sc_store sc') qid = Inr (Some (new_record qid now (m\<lparr>m_reasons := rs\<rparr>)))"
proof -
  from assms(2) show "dr_outcome d = QUARANTINED" "dr_quarantine_id d = qid" "sc_world sc' = sc_world sc"
    "get_record (sc_store sc') qid = Inr (Some (new_record qid now (m\<lparr>m_reasons := rs\<rparr>)))"
    by (auto simp: hold_def q_store_def Let_def new_record_def)
  from assms(2) show "get_raw_message f (sc_store sc') qid = Inr (Some (m_raw m))"
    using cipher_roundtrip [OF assms(1)]
    by (auto simp: hold_def q_store_def Let_def get_raw_message_def eml_path_def)
qed

lemma send_or_fail_log:
  assumes "send_or_fail (logging_send script) body m out detail sc = (Inr d, sc')" "out \<noteq> RELAY_FAILED"
  shows "sc_store sc' = sc_store sc" "dr_outcome d \<in> {out, RELAY_FAILED}"
    "delivered_log sc' = delivered_log sc @ (if dr_outcome d = out then [(body, m_to m)] else [])"
  using assms by (auto simp: send_or_fail_def logging_send_def delivered_log_def result_of_def
      split: sum.splits relay_error.splits)

text \<open>The body a relayed message goes out with.\<close>

definition outgoing_body :: "'w outside \<Rightarrow> action \<Rightarrow> mail \<Rightarrow> bool \<Rightarrow> string" where
  "outgoing_body out act m tag_only =
     (if tag_only \<and> act \<noteq> FORWARD
      then (case o_tag_only out (m_raw m) (m_score m) (action_value act) (m_reasons m) of Inl _ \<Rightarrow> [] | Inr body \<Rightarrow> body)
      else if act = FORWARD then m_raw m
      else (case o_warn_and_strip out (m_raw m) of Inl _ \<Rightarrow> [] | Inr (body, _) \<Rightarrow> body))"

definition held_back :: "'w outside \<Rightarrow> action \<Rightarrow> mail \<Rightarrow> bool \<Rightarrow> bool" where
  "held_back out act m tag_only \<longleftrightarrow> \<not> tag_only \<and>
     (act = QUARANTINE \<or> act = WARN_AND_STRIP \<and> (\<exists>e. o_warn_and_strip out (m_raw m) = Inl e))"

lemma mirror_log:
  assumes "o_send out = Some (logging_send script)"
  shows "\<exists>extra. delivered_log (mirror_to_soc out soc m sc) = delivered_log sc @ extra \<and>
      sc_store (mirror_to_soc out soc m sc) = sc_store sc"
  using assms by (auto simp: mirror_to_soc_def delivered_log_def logging_send_def split: option.split list.split)

lemma deliver_held:
  assumes "held_back out act m tag_only"
  shows "\<exists>rs detail. deliver f nonce qid now out act m tag_only soc sc =
     hold f nonce qid now out (m\<lparr>m_action := action_value act\<rparr>) rs detail sc"
proof (cases "act = QUARANTINE")
  case False
  with assms obtain e where "\<not> tag_only" "act = WARN_AND_STRIP" "o_warn_and_strip out (m_raw m) = Inl e"
    by (auto simp: held_back_def)
  then show ?thesis by (simp add: deliver_def Let_def) (intro exI, rule refl)
next
  case True
  with assms have "\<not> tag_only" by (simp add: held_back_def)
  with True show ?thesis by (simp add: deliver_def Let_def) (intro exI, rule refl)
qed

text \<open>A message that cannot be tagged makes \<open>deliver\<close> raise.\<close>

definition taggable :: "'w outside \<Rightarrow> action \<Rightarrow> mail \<Rightarrow> bool \<Rightarrow> bool" where
  "taggable out act m tag_only \<longleftrightarrow>
     (tag_only \<and> act \<noteq> FORWARD \<longrightarrow> is_ok (o_tag_only out (m_raw m) (m_score m) (action_value act) (m_reasons m)))"

lemma delivered_taggable: "deliver f nonce qid now out act m tag_only soc sc = (Inr d, sc') \<Longrightarrow> taggable out act m tag_only"
  unfolding taggable_def
proof
  assume d: "deliver f nonce qid now out act m tag_only soc sc = (Inr d, sc')" and t: "tag_only \<and> act \<noteq> FORWARD"
  show "is_ok (o_tag_only out (m_raw m) (m_score m) (action_value act) (m_reasons m))"
    by (cases "o_tag_only out (m_raw m) (m_score m) (action_value act) (m_reasons m)") (use d t in \<open>simp_all add: deliver_def\<close>)
qed

lemma deliver_sent:
  assumes "o_send out = Some send" "\<not> held_back out act m tag_only" "taggable out act m tag_only"
  shows "\<exists>outc detail. outc \<in> {RELAYED, RELAYED_MODIFIED} \<and> deliver f nonce qid now out act m tag_only soc sc =
     send_or_fail send (outgoing_body out act m tag_only) (m\<lparr>m_action := action_value act\<rparr>) outc detail
       (if act = FORWARD then mirror_to_soc out soc (m\<lparr>m_action := action_value act\<rparr>) sc else sc)"
proof (cases "tag_only \<and> act \<noteq> FORWARD")
  case True
  then obtain body where body: "o_tag_only out (m_raw m) (m_score m) (action_value act) (m_reasons m) = Inr body"
    using assms(3) by (auto simp: taggable_def is_ok_iff)
  show ?thesis
    by (intro exI [of _ RELAYED] exI [of _ "''tag-only: relayed tagged message '' @ ''(original action='' @ action_value act @ '')''"])
      (use True body assms(1) in \<open>simp add: deliver_def outgoing_body_def\<close>)
next
  case False
  show ?thesis
  proof (cases act)
    case WARN_AND_STRIP
    with assms False show ?thesis
      by (cases "o_warn_and_strip out (m_raw m)") (auto simp: deliver_def held_back_def outgoing_body_def Let_def)
  qed (use assms False in \<open>auto simp: deliver_def held_back_def outgoing_body_def Let_def\<close>)
qed

text \<open>Without a mirror, delivery has one effect.\<close>

lemma deliver_alone:
  assumes "fernet_ok f" "o_send out = Some (logging_send script)"
    and "deliver f nonce qid now out act m tag_only None sc = (Inr d, sc')"
  shows "if held_back out act m tag_only
    then dr_outcome d = QUARANTINED \<and> delivered_log sc' = delivered_log sc \<and>
      get_raw_message f (sc_store sc') qid = Inr (Some (m_raw m)) \<and>
      (\<exists>q. get_record (sc_store sc') qid = Inr (Some q) \<and> q_status q = ''pending'')
    else dr_outcome d \<in> {RELAYED, RELAYED_MODIFIED, RELAY_FAILED} \<and> sc_store sc' = sc_store sc \<and>
      delivered_log sc' = delivered_log sc @
        (if dr_outcome d = RELAY_FAILED then [] else [(outgoing_body out act m tag_only, m_to m)])"
proof (cases "held_back out act m tag_only")
  case True
  with deliver_held obtain rs detail where
    "hold f nonce qid now out (m\<lparr>m_action := action_value act\<rparr>) rs detail sc = (Inr d, sc')"
    using assms(3) by metis
  from hold_stores [OF assms(1) this] True show ?thesis by (simp add: delivered_log_def new_record_def)
next
  case False
  let ?m = "m\<lparr>m_action := action_value act\<rparr>"
  from deliver_sent [OF assms(2) False delivered_taggable [OF assms(3)]] assms(3) obtain outc detail where
    o: "outc \<in> {RELAYED, RELAYED_MODIFIED}" and
    s: "send_or_fail (logging_send script) (outgoing_body out act m tag_only) ?m outc detail
      (if act = FORWARD then mirror_to_soc out None ?m sc else sc) = (Inr d, sc')"
    by metis
  have "mirror_to_soc out None ?m sc = sc" by (simp add: mirror_to_soc_def)
  with s have s: "send_or_fail (logging_send script) (outgoing_body out act m tag_only) ?m outc detail sc = (Inr d, sc')"
    by (simp split: if_splits)
  from o have "outc \<noteq> RELAY_FAILED" by auto
  from send_or_fail_log [OF s this] o False show ?thesis by auto
qed

text \<open>C13: Delivery accounts for every message. A message to be held (by its action, or because it could not
  be made safe) is stored pending, with its very bytes, and nothing is sent; any other is reported
  relayed exactly when its outgoing body went to its recipients, and else as failed; it is then in
  neither place, the store being unchanged. So a quarantined message is never delivered and a
  message to be stripped is never delivered as it came.\<close>
theorem delivered_or_held:
  assumes "fernet_ok f" "o_send out = Some (logging_send script)"
    and "deliver f nonce qid now out act m tag_only soc sc = (Inr d, sc')"
  shows "if held_back out act m tag_only
    then dr_outcome d = QUARANTINED \<and> delivered_log sc' = delivered_log sc \<and> dr_quarantine_id d = qid \<and>
      get_raw_message f (sc_store sc') qid = Inr (Some (m_raw m)) \<and>
      (\<exists>r. get_record (sc_store sc') qid = Inr (Some r) \<and> q_status r = ''pending'' \<and> envelope_to r = m_to m)
    else dr_outcome d \<in> {RELAYED, RELAYED_MODIFIED, RELAY_FAILED} \<and> sc_store sc' = sc_store sc \<and>
      (\<exists>mirrored. (act \<noteq> FORWARD \<longrightarrow> mirrored = []) \<and> delivered_log sc' = delivered_log sc @ mirrored @
        (if dr_outcome d = RELAY_FAILED then [] else [(outgoing_body out act m tag_only, m_to m)]))"
proof (cases "held_back out act m tag_only")
  case True
  with deliver_held obtain rs detail where
    "hold f nonce qid now out (m\<lparr>m_action := action_value act\<rparr>) rs detail sc = (Inr d, sc')"
    using assms(3) by metis
  from hold_stores [OF assms(1) this] True show ?thesis by (simp add: delivered_log_def new_record_def)
next
  case False
  let ?m = "m\<lparr>m_action := action_value act\<rparr>"
  let ?sc = "if act = FORWARD then mirror_to_soc out soc ?m sc else sc"
  from deliver_sent [OF assms(2) False delivered_taggable [OF assms(3)]] assms(3) obtain outc detail where
    o: "outc \<in> {RELAYED, RELAYED_MODIFIED}" and
    s: "send_or_fail (logging_send script) (outgoing_body out act m tag_only) ?m outc detail ?sc = (Inr d, sc')"
    by metis
  from o have "outc \<noteq> RELAY_FAILED" by auto
  note log = send_or_fail_log [OF s this]
  obtain extra where extra: "delivered_log ?sc = delivered_log sc @ extra" "sc_store ?sc = sc_store sc"
    "act \<noteq> FORWARD \<longrightarrow> extra = []"
    using mirror_log [OF assms(2), of soc ?m sc] by (cases "act = FORWARD") auto
  have d: "dr_outcome d = outc \<longleftrightarrow> dr_outcome d \<noteq> RELAY_FAILED" "dr_outcome d \<in> {RELAYED, RELAYED_MODIFIED, RELAY_FAILED}"
    using o log(2) by auto
  have "delivered_log sc' = delivered_log sc @ extra @
      (if dr_outcome d = RELAY_FAILED then [] else [(outgoing_body out act m tag_only, m_to m)])"
    using log(3) extra(1) d(1) by auto
  with d(2) log(1) extra False show ?thesis by auto
qed

definition example_outside :: "(nat \<times> (string \<times> string list) list) outside" where
  "example_outside = \<lparr>o_warn_and_strip = (\<lambda>raw. if raw = [] then Inl ''empty'' else Inr (''safe'', [])),
     o_tag_only = (\<lambda>raw s a rs. Inr raw), o_send = Some (logging_send (\<lambda>n. Inr ())), o_notify = (\<lambda>i s n rs. True)\<rparr>"

definition example_scene :: "(nat \<times> (string \<times> string list) list) scene" where
  "example_scene = \<lparr>sc_store = store_new empty_dir None, sc_world = (0, [])\<rparr>"

theorem delivered_or_held_witness:
  "delivered_log (snd (deliver toy_fernet ''n'' ''q1'' 5 example_outside WARN_AND_STRIP example_mail False None example_scene)) =
     [(''safe'', [''c@d.io''])] \<and>
   delivered_log (snd (deliver toy_fernet ''n'' ''q1'' 5 example_outside QUARANTINE example_mail False None example_scene)) = []"
proof -
  have f: "fernet_ok toy_fernet" by (simp add: fernet_ok_def toy_fernet_def)
  have o: "o_send example_outside = Some (logging_send (\<lambda>n. Inr ()))" by (simp add: example_outside_def)
  obtain d sc' where d: "deliver toy_fernet ''n'' ''q1'' 5 example_outside WARN_AND_STRIP example_mail False None example_scene = (Inr d, sc')"
    "dr_outcome d \<noteq> RELAY_FAILED"
    by (simp add: deliver_def example_outside_def example_mail_def send_or_fail_def logging_send_def example_scene_def result_of_def)
  obtain e sc'' where e: "deliver toy_fernet ''n'' ''q1'' 5 example_outside QUARANTINE example_mail False None example_scene = (Inr e, sc'')"
    by (simp add: deliver_def hold_def q_store_def Let_def)
  show ?thesis
    using delivered_or_held [OF f o d(1)] delivered_or_held [OF f o e] d e
    by (auto simp: held_back_def example_outside_def example_mail_def example_scene_def delivered_log_def outgoing_body_def)
qed

subsection \<open>confirmation.py\<close>

record receipt =
  rc_message_id :: string
  rc_recipient :: string
  rc_status :: string
  rc_dsn :: string
  rc_time :: rat
  rc_detail :: string

definition record_receipt :: "receipt \<Rightarrow> receipt list \<Rightarrow> receipt list" where
  "record_receipt r rs = rs @ [r]"

definition receipts_for_message :: "receipt list \<Rightarrow> string \<Rightarrow> receipt list" where
  "receipts_for_message rs i = filter (\<lambda>r. rc_message_id r = i) rs"

definition receipt_stats :: "receipt list \<Rightarrow> (string, nat) dict" where
  "receipt_stats rs = foldl (\<lambda>d r. dset d (rc_status r) (dgetd d (rc_status r) 0 + 1)) [] rs"

lemma receipt_stats_count: "dgetd (receipt_stats rs) s 0 = count_list (map rc_status rs) s"
proof -
  have "dgetd (foldl (\<lambda>d r. dset d (rc_status r) (dgetd d (rc_status r) 0 + 1)) d rs) s 0 =
      dgetd d s 0 + count_list (map rc_status rs) s" for d
    by (induction rs arbitrary: d) auto
  then show ?thesis by (simp add: receipt_stats_def)
qed

end
