(* ===== verification/Codec.thy ===== *)
theory Codec
  imports Prelude
begin

text \<open>
  The codecs of the Python standard library the gateway uses: \<open>bytes.hex\<close> and \<open>bytes.fromhex\<close>,
  \<open>base64.urlsafe_b64encode\<close> and \<open>urlsafe_b64decode\<close> (the non-strict decoder of \<open>binascii\<close>, which
  skips foreign characters and stops at the padding), and \<open>base64.b32decode\<close>. Byte strings are
  character lists. \<^term>\<open>None\<close> is the exception of a decoder.
\<close>

subsection \<open>Hexadecimal\<close>

definition hex_digit :: "nat \<Rightarrow> char" where
  "hex_digit n = (if n < 10 then char_of (48 + n) else char_of (87 + n))"

definition hex_of :: "string \<Rightarrow> string" where
  "hex_of bs = concat (map (\<lambda>b. [hex_digit (of_char b div 16), hex_digit (of_char b mod 16)]) bs)"

definition is_ascii_space :: "char \<Rightarrow> bool" where
  "is_ascii_space c = (let n = (of_char c :: nat) in 9 \<le> n \<and> n \<le> 13 \<or> n = 32)"

fun from_hex :: "string \<Rightarrow> string option" where
  "from_hex [] = Some []"
| "from_hex (c # s) =
     (if is_ascii_space c then from_hex s
      else (case s of
          [] \<Rightarrow> None
        | d # t \<Rightarrow> (case (hex_val c, hex_val d) of
            (Some a, Some b) \<Rightarrow> map_option (\<lambda>r. char_of (16 * a + b) # r) (from_hex t)
          | _ \<Rightarrow> None)))"

lemma of_hex_digit: "n < 16 \<Longrightarrow> of_char (hex_digit n) = (if n < 10 then 48 + n else 87 + n :: nat)"
  by (simp add: hex_digit_def)

lemma hex_digit_props:
  assumes "n < 16"
  shows "hex_val (hex_digit n) = Some n" "\<not> is_ascii_space (hex_digit n)" "hex_digit n \<noteq> CHR '':''"
    "hex_digit n \<noteq> CHR ''.''"
proof -
  note of = of_hex_digit [OF assms]
  show "hex_val (hex_digit n) = Some n" using assms of by (auto simp: hex_val_def Let_def split: if_splits)
  show "\<not> is_ascii_space (hex_digit n)" using of by (simp add: is_ascii_space_def Let_def)
  show "hex_digit n \<noteq> CHR '':''" "hex_digit n \<noteq> CHR ''.''"
    using of assms by (auto split: if_splits)
qed

lemma char_nibbles: "of_char (b :: char) div 16 < (16::nat)" "of_char b mod 16 < (16::nat)"
  by (simp_all add: less_mult_imp_div_less)

lemma from_hex_hex_of [simp]: "from_hex (hex_of bs) = Some bs"
proof (induction bs)
  case (Cons b bs)
  have "16 * (of_char b div 16) + of_char b mod 16 = (of_char b :: nat)" by simp
  with Cons show ?case
    using hex_digit_props [OF char_nibbles(1) [of b]] hex_digit_props [OF char_nibbles(2) [of b]]
    by (simp add: hex_of_def)
qed (simp add: hex_of_def)

lemma hex_of_chars: "c \<in> set (hex_of bs) \<Longrightarrow> \<exists>n < 16. c = hex_digit n"
proof -
  assume "c \<in> set (hex_of bs)"
  then obtain b where "c = hex_digit (of_char b div 16) \<or> c = hex_digit (of_char b mod 16)"
    by (auto simp: hex_of_def)
  with char_nibbles [of b] show ?thesis by blast
qed

lemma hex_of_no_sep: "CHR '':'' \<notin> set (hex_of bs)" "CHR ''.'' \<notin> set (hex_of bs)"
proof -
  show "CHR '':'' \<notin> set (hex_of bs)"
    using hex_of_chars [of "CHR '':''" bs] hex_digit_props(3) by fastforce
  show "CHR ''.'' \<notin> set (hex_of bs)"
    using hex_of_chars [of "CHR ''.''" bs] hex_digit_props(4) by fastforce
qed

lemma length_hex_of [simp]: "length (hex_of bs) = 2 * length bs"
  by (induction bs) (simp_all add: hex_of_def)

subsection \<open>URL-safe base 64\<close>

definition b64_char :: "nat \<Rightarrow> char" where
  "b64_char n =
     (if n < 26 then char_of (65 + n) else if n < 52 then char_of (71 + n)
      else if n < 62 then char_of (n - 4) else if n = 62 then CHR ''-'' else CHR ''_'')"

text \<open>The decoder also knows the plain alphabet's \<open>+\<close> and \<open>/\<close>.\<close>

definition b64_val :: "char \<Rightarrow> nat option" where
  "b64_val c = (let n = (of_char c :: nat) in
     if 65 \<le> n \<and> n \<le> 90 then Some (n - 65)
     else if 97 \<le> n \<and> n \<le> 122 then Some (n - 71)
     else if 48 \<le> n \<and> n \<le> 57 then Some (n + 4)
     else if c = CHR ''-'' \<or> c = CHR ''+'' then Some 62
     else if c = CHR ''_'' \<or> c = CHR ''/'' then Some 63
     else None)"

fun b64_encode :: "string \<Rightarrow> string" where
  "b64_encode [] = []"
| "b64_encode [a] =
     [b64_char (of_char a div 4), b64_char ((of_char a mod 4) * 16), CHR ''='', CHR ''='']"
| "b64_encode [a, b] =
     [b64_char (of_char a div 4), b64_char ((of_char a mod 4) * 16 + of_char b div 16),
      b64_char ((of_char b mod 16) * 4), CHR ''='']"
| "b64_encode (a # b # c # r) =
     b64_char (of_char a div 4) # b64_char ((of_char a mod 4) * 16 + of_char b div 16) #
     b64_char ((of_char b mod 16) * 4 + of_char c div 64) # b64_char (of_char c mod 64) # b64_encode r"

text \<open>\<open>binascii.a2b_base64\<close>: the position in the quad, the bits left over and the padding seen.\<close>

fun a2b :: "nat \<Rightarrow> nat \<Rightarrow> nat \<Rightarrow> string \<Rightarrow> string option" where
  "a2b q l p [] = (if q = 0 then Some [] else None)"
| "a2b q l p (c # s) =
     (if c = CHR ''='' then
        (if q \<ge> 2 \<and> q + Suc p \<ge> 4 then Some [] else a2b q l (if q \<ge> 2 then Suc p else p) s)
      else (case b64_val c of
          None \<Rightarrow> a2b q l p s
        | Some v \<Rightarrow>
            (if q = 0 then a2b 1 v 0 s
             else if q = 1 then map_option (\<lambda>r. char_of (l * 4 + v div 16) # r) (a2b 2 (v mod 16) 0 s)
             else if q = 2 then map_option (\<lambda>r. char_of (l * 16 + v div 4) # r) (a2b 3 (v mod 4) 0 s)
             else map_option (\<lambda>r. char_of (l * 64 + v) # r) (a2b 0 0 0 s))))"

definition is_ascii :: "string \<Rightarrow> bool" where
  "is_ascii s = list_all (\<lambda>c. of_char c < (128::nat)) s"

definition urlsafe_b64decode :: "string \<Rightarrow> string option" where
  "urlsafe_b64decode s = (if is_ascii s then a2b 0 0 0 s else None)"

lemma of_b64_char:
  "n < 64 \<Longrightarrow> of_char (b64_char n) = (if n < 26 then 65 + n else if n < 52 then 71 + n
     else if n < 62 then n - 4 else if n = 62 then 45 else 95 :: nat)"
  by (simp add: b64_char_def)

lemma b64_char_props:
  assumes "n < 64"
  shows "b64_val (b64_char n) = Some n" "b64_char n \<noteq> CHR ''=''" "b64_char n \<noteq> CHR ''.''"
    "of_char (b64_char n) < (128::nat)" "\<not> is_space (b64_char n)"
proof -
  note of = of_b64_char [OF assms]
  consider "n < 62" | "n = 62" | "n = 63" using assms by linarith
  then show "b64_val (b64_char n) = Some n"
  proof cases
    case 1
    with of show ?thesis by (auto simp: b64_val_def Let_def split: if_splits)
  qed (simp_all add: b64_val_def b64_char_def)
  show "of_char (b64_char n) < (128::nat)" "\<not> is_space (b64_char n)"
    using of assms by (auto simp: is_space_def Let_def)
  show "b64_char n \<noteq> CHR ''=''" "b64_char n \<noteq> CHR ''.''"
    using of assms by (auto split: if_splits)
qed

text \<open>The encoding without its padding.\<close>

fun b64_body :: "string \<Rightarrow> string" where
  "b64_body [] = []"
| "b64_body [a] = [b64_char (of_char a div 4), b64_char ((of_char a mod 4) * 16)]"
| "b64_body [a, b] =
     [b64_char (of_char a div 4), b64_char ((of_char a mod 4) * 16 + of_char b div 16),
      b64_char ((of_char b mod 16) * 4)]"
| "b64_body (a # b # c # r) =
     b64_char (of_char a div 4) # b64_char ((of_char a mod 4) * 16 + of_char b div 16) #
     b64_char ((of_char b mod 16) * 4 + of_char c div 64) # b64_char (of_char c mod 64) # b64_body r"

lemma sextet_bounds:
  fixes x y :: nat
  assumes "x < 256" "y < 256"
  shows "x div 4 < 64" "x mod 4 * 16 < 64" "x mod 16 * 4 < 64" "x mod 4 * 16 + y div 16 < 64"
    "x mod 16 * 4 + y div 64 < 64" "x mod 64 < 64" "y div 16 < 16" "y div 64 < 4"
proof -
  have "x mod 4 < 4" "x mod 16 < 16" by simp_all
  moreover show "x div 4 < 64" "y div 16 < 16" "y div 64 < 4"
    using assms by (simp_all add: less_mult_imp_div_less)
  ultimately show "x mod 4 * 16 < 64" "x mod 16 * 4 < 64" "x mod 4 * 16 + y div 16 < 64"
    "x mod 16 * 4 + y div 64 < 64" by linarith+
  show "x mod 64 < 64" by simp
qed

lemma byte_bound: "of_char (c :: char) < (256::nat)"
  by simp

lemmas sextets = sextet_bounds [OF byte_bound byte_bound]

lemma b64_encode_body: "\<exists>k. b64_encode bs = b64_body bs @ replicate k (CHR ''='')"
proof (induction bs rule: b64_body.induct)
  case (2 a)
  have "b64_encode [a] = b64_body [a] @ replicate 2 (CHR ''='')" by (simp add: numeral_2_eq_2)
  then show ?case by blast
next
  case (3 a b)
  have "b64_encode [a, b] = b64_body [a, b] @ replicate 1 (CHR ''='')" by simp
  then show ?case by blast
qed (auto intro: exI [of _ 0])

lemma b64_body_chars: "c \<in> set (b64_body bs) \<Longrightarrow> \<exists>n < 64. c = b64_char n"
proof (induction bs rule: b64_body.induct)
  case (2 a)
  then obtain n where "c = b64_char n" "n \<in> {of_char a div 4, of_char a mod 4 * 16}" by auto
  moreover from this(2) sextets(1) [of a] sextets(2) [of a] have "n < 64" by (elim insertE) simp_all
  ultimately show ?case by blast
next
  case (3 a b)
  then obtain n where "c = b64_char n"
    "n \<in> {of_char a div 4, of_char a mod 4 * 16 + of_char b div 16, of_char b mod 16 * 4}" by auto
  moreover from this(2) sextets(1) [of a] sextets(4) [of a b] sextets(3) [of b] have "n < 64" by (elim insertE) simp_all
  ultimately show ?case by blast
next
  case (4 a b d r)
  then consider "c \<in> set (b64_body r)" | n where "c = b64_char n" "n \<in> {of_char a div 4,
    of_char a mod 4 * 16 + of_char b div 16, of_char b mod 16 * 4 + of_char d div 64, of_char d mod 64}"
    by auto
  then show ?case
  proof cases
    case (2 n)
    from 2(2) sextets(1) [of a] sextets(4) [of a b] sextets(5) [of b d] sextets(6) [of d] have "n < 64"
      by (elim insertE) simp_all
    with 2(1) show ?thesis by blast
  qed (rule "4.IH")
qed simp

lemma b64_body_ok:
  assumes "c \<in> set (b64_body bs)"
  shows "c \<noteq> CHR ''=''" "c \<noteq> CHR ''.''" "of_char c < (128::nat)"
proof -
  obtain n where "n < 64" "c = b64_char n" using b64_body_chars [OF assms] by blast
  with b64_char_props(2-4) show "c \<noteq> CHR ''=''" "c \<noteq> CHR ''.''" "of_char c < (128::nat)"
    by simp_all
qed

lemma b64_encode_rstrip: "rstrip_char (CHR ''='') (b64_encode bs) = b64_body bs"
proof -
  obtain k where "b64_encode bs = b64_body bs @ replicate k (CHR ''='')" using b64_encode_body by blast
  moreover have "dropWhile (\<lambda>x. x = CHR ''='') (rev (b64_body bs)) = rev (b64_body bs)"
    using b64_body_ok(1) by (intro dropWhile_none) auto
  moreover have "dropWhile (\<lambda>x. x = CHR ''='') (replicate k (CHR ''='') @ xs) = dropWhile (\<lambda>x. x = CHR ''='') xs" for xs
    by (induction k) auto
  ultimately show ?thesis by (simp add: rstrip_char_def rstrip_by_def)
qed

lemma octet_join:
  fixes x y z :: nat
  assumes "x < 256" "y < 256" "z < 256"
  shows "x div 4 * 4 + (x mod 4 * 16 + y div 16) div 16 = x"
    "(x mod 4 * 16 + y div 16) mod 16 * 16 + (y mod 16 * 4 + z div 64) div 4 = y"
    "(y mod 16 * 4 + z div 64) mod 4 * 64 + z mod 64 = z"
    "x div 4 * 4 + x mod 4 * 16 div 16 = x"
    "(x mod 4 * 16 + y div 16) mod 16 * 16 + y mod 16 * 4 div 4 = y"
proof -
  have y: "y div 16 < 16" and z: "z div 64 < 4" using sextet_bounds(7,8) assms by simp_all
  have a: "(x mod 4 * 16 + y div 16) div 16 = x mod 4" "(x mod 4 * 16 + y div 16) mod 16 = y div 16"
    using y by simp_all
  have b: "(y mod 16 * 4 + z div 64) div 4 = y mod 16" "(y mod 16 * 4 + z div 64) mod 4 = z div 64"
    using z by simp_all
  show "x div 4 * 4 + (x mod 4 * 16 + y div 16) div 16 = x"
    "(x mod 4 * 16 + y div 16) mod 16 * 16 + (y mod 16 * 4 + z div 64) div 4 = y"
    "(y mod 16 * 4 + z div 64) mod 4 * 64 + z mod 64 = z"
    "x div 4 * 4 + x mod 4 * 16 div 16 = x"
    "(x mod 4 * 16 + y div 16) mod 16 * 16 + y mod 16 * 4 div 4 = y"
    unfolding a b by (simp_all only: nonzero_mult_div_cancel_right div_mult_mod_eq numeral_neq_zero not_False_eq_True)
qed

lemma a2b_digits:
  assumes "n < 64"
  shows "a2b 0 l p (b64_char n # s) = a2b 1 n 0 s"
    "a2b 1 l p (b64_char n # s) = map_option (\<lambda>r. char_of (l * 4 + n div 16) # r) (a2b 2 (n mod 16) 0 s)"
    "a2b 2 l p (b64_char n # s) = map_option (\<lambda>r. char_of (l * 16 + n div 4) # r) (a2b 3 (n mod 4) 0 s)"
    "a2b 3 l p (b64_char n # s) = map_option (\<lambda>r. char_of (l * 64 + n) # r) (a2b 0 0 0 s)"
  by (simp_all only: a2b.simps b64_char_props [OF assms] option.case if_False if_True refl
      zero_neq_numeral one_neq_zero numeral_eq_iff numeral_eq_one_iff semiring_norm num.distinct num.inject)

lemma a2b_three:
  "a2b 0 l p (b64_body (a # b # c # r) @ s) = map_option (\<lambda>t. a # b # c # t) (a2b 0 0 0 (b64_body r @ s))"
proof -
  note n = sextets(1) [of a] sextets(4) [of a b] sextets(5) [of b c] sextets(6) [of c]
  have "char_of (of_char x :: nat) = x" for x :: char by simp
  then show ?thesis
    unfolding b64_body.simps append_Cons a2b_digits(1) [OF n(1)] a2b_digits(2) [OF n(2)]
      a2b_digits(3) [OF n(3)] a2b_digits(4) [OF n(4)] octet_join(1-3) [OF byte_bound byte_bound byte_bound]
    by (simp add: option.map_comp comp_def)
qed

lemma replicate_small: "replicate 1 x = [x]" "replicate 2 x = [x, x]" "replicate 4 x = [x, x, x, x]"
  by (simp_all add: numeral_eq_Suc)

lemma a2b_b64_body:
  "k = 4 - length (b64_body bs) mod 4 \<Longrightarrow> a2b 0 l p (b64_body bs @ replicate k (CHR ''='')) = Some bs"
proof (induction bs arbitrary: l p rule: b64_body.induct)
  case 1
  then have "replicate k (CHR ''='') = replicate 4 (CHR ''='')" by simp
  then show ?case by (simp add: replicate_small)
next
  case (2 a)
  then have "k = 2" by simp
  then have k: "replicate k (CHR ''='') = [CHR ''='', CHR ''='']" by (simp only: replicate_small)
  have "char_of (of_char a :: nat) = a" by simp
  then show ?case
    unfolding b64_body.simps append_Cons append_Nil k a2b_digits(1) [OF sextets(1)]
      a2b_digits(2) [OF sextets(2)] octet_join(4) [OF byte_bound byte_bound byte_bound]
    by simp
next
  case (3 a b)
  then have "k = 1" by simp
  then have k: "replicate k (CHR ''='') = [CHR ''='']" by (simp only: replicate_small)
  have "char_of (of_char x :: nat) = x" for x :: char by simp
  then show ?case
    unfolding b64_body.simps append_Cons append_Nil k a2b_digits(1) [OF sextets(1)]
      a2b_digits(2) [OF sextets(4)] a2b_digits(3) [OF sextets(3)]
      octet_join(1,5) [OF byte_bound byte_bound byte_bound]
    by simp
next
  case (4 a b c r)
  then have "k = 4 - length (b64_body r) mod 4" by simp
  from "4.IH" [OF this] show ?case unfolding a2b_three by simp
qed

lemma urlsafe_roundtrip:
  "urlsafe_b64decode (b64_body bs @ replicate (4 - length (b64_body bs) mod 4) (CHR ''='')) = Some bs"
  using b64_body_ok(3) by (auto simp: urlsafe_b64decode_def is_ascii_def list_all_iff a2b_b64_body)

subsection \<open>Base 32\<close>

definition b32_val :: "char \<Rightarrow> nat option" where
  "b32_val c = (let n = (of_char c :: nat) in
     if 65 \<le> n \<and> n \<le> 90 then Some (n - 65) else if 50 \<le> n \<and> n \<le> 55 then Some (n - 24) else None)"

text \<open>The five bytes of a group of eight digits.\<close>

definition b32_group :: "nat list \<Rightarrow> string" where
  "b32_group ds = (let acc = foldl (\<lambda>a d. 32 * a + int d) 0 ds in
     map (\<lambda>i. char_of (acc div 256 ^ (4 - i) mod 256)) [0..<5])"

function b32_groups :: "nat list \<Rightarrow> string" where
  "b32_groups [] = []"
| "b32_groups (d # ds) = b32_group (take 8 (d # ds)) @ b32_groups (drop 8 (d # ds))"
  by pat_completeness auto
termination by (relation "measure length") auto

definition b32decode :: "string \<Rightarrow> string option" where
  "b32decode s =
     (let body = rstrip_char (CHR ''='') s; pad = length s - length body in
      if length s mod 8 \<noteq> 0 \<or> pad \<notin> {0, 1, 3, 4, 6} \<or> \<not> list_all (\<lambda>c. b32_val c \<noteq> None) body
      then None
      else Some (take (length body * 5 div 8)
             (b32_groups (map (\<lambda>c. the (b32_val c)) body @ replicate pad 0))))"

end
