(* ===== verification/Identity.thy ===== *)
theory Identity
  imports Codec
begin

text \<open>
  \<open>identity/\<close> without sessions: roles and scopes (\<open>rbac.py\<close>), user records and password hashes
  (\<open>models.py\<close>), one-time codes (\<open>mfa.py\<close>) and the mapping of identity-provider claims (\<open>sso.py\<close>).
  The keyed hash functions are parameters; random bytes and the clock are arguments. Values of
  decoded claims are JSON.
\<close>

record crypto =
  hmac_sha256 :: "string \<Rightarrow> string \<Rightarrow> string"
  hmac_sha1 :: "string \<Rightarrow> string \<Rightarrow> string"
  pbkdf2 :: "string \<Rightarrow> string \<Rightarrow> string"

subsection \<open>rbac.py\<close>

definition role_table :: "(string, string list) dict" where
  "role_table =
     [(''admin'', [''quarantine:read'', ''quarantine:write'', ''report:submit'', ''tenant:manage'',
         ''user:manage'', ''audit:read'', ''stats:read'', ''system:admin'']),
      (''analyst'', [''quarantine:read'', ''quarantine:write'', ''report:submit'', ''audit:read'', ''stats:read'']),
      (''read_only'', [''quarantine:read'', ''audit:read'', ''stats:read''])]"

definition get_role_scopes :: "string \<Rightarrow> string list" where
  "get_role_scopes role = dgetd role_table role []"

definition has_permission :: "string \<Rightarrow> string list \<Rightarrow> string \<Rightarrow> bool" where
  "has_permission user_role custom required =
     (if user_role = ''admin'' then True
      else if required \<in> set (get_role_scopes user_role) then True
      else custom \<noteq> [] \<and> required \<in> set custom)"

definition validate_role :: "string \<Rightarrow> bool" where
  "validate_role role = (dget role_table role \<noteq> None)"

lemma validate_role_iff: "validate_role role \<longleftrightarrow> role \<in> {''admin'', ''analyst'', ''read_only''}"
  by (auto simp: validate_role_def role_table_def)

lemma unknown_role: "role \<noteq> ''admin'' \<Longrightarrow> role \<noteq> ''analyst'' \<Longrightarrow> role \<noteq> ''read_only'' \<Longrightarrow> get_role_scopes role = []"
  by (simp add: get_role_scopes_def role_table_def dgetd_def)

lemma has_permission_plain: "has_permission r [] scope \<longleftrightarrow> r = ''admin'' \<or> scope \<in> set (get_role_scopes r)"
  by (simp add: has_permission_def)

lemma permission_facts:
  "set (get_role_scopes ''read_only'') \<subset> set (get_role_scopes ''analyst'')"
  "set (get_role_scopes ''analyst'') \<subset> set (get_role_scopes ''admin'')"
  "list_all (\<lambda>s. s \<notin> set (get_role_scopes ''analyst'') \<and> s \<notin> set (get_role_scopes ''read_only''))
     [''user:manage'', ''tenant:manage'', ''system:admin'']"
  "''quarantine:write'' \<in> set (get_role_scopes ''analyst'')"
  "''quarantine:write'' \<notin> set (get_role_scopes ''read_only'')"
  by code_simp+

definition admin_scopes :: "string list" where
  "admin_scopes = [''user:manage'', ''tenant:manage'', ''system:admin'']"

lemma admin_only: "scope \<in> set admin_scopes \<Longrightarrow> has_permission role [] scope \<longleftrightarrow> role = ''admin''"
proof -
  assume s: "scope \<in> set admin_scopes"
  with permission_facts(3) have "scope \<notin> set (get_role_scopes ''analyst'')" "scope \<notin> set (get_role_scopes ''read_only'')"
    by (auto simp: admin_scopes_def)
  then show ?thesis
    using unknown_role [of role]
    by (cases "role = ''admin''"; cases "role = ''analyst''"; cases "role = ''read_only''") (auto simp: has_permission_plain)
qed

lemma quarantine_writers: "has_permission role [] ''quarantine:write'' \<longleftrightarrow> role \<in> {''admin'', ''analyst''}"
  using permission_facts(4,5) unknown_role [of role]
  by (cases "role = ''admin''"; cases "role = ''analyst''"; cases "role = ''read_only''") (auto simp: has_permission_plain)

text \<open>The roles form a hierarchy of least privilege: what a read-only user may do an analyst may, and
  what anyone may do an administrator may; without extra scopes only administrators manage users,
  tenants and the system, only they and analysts change the quarantine, and an unknown role grants
  nothing.\<close>
theorem role_hierarchy:
  "set (get_role_scopes ''read_only'') \<subset> set (get_role_scopes ''analyst'') \<and>
   set (get_role_scopes ''analyst'') \<subset> set (get_role_scopes ''admin'') \<and>
   has_permission ''admin'' custom scope \<and>
   list_all (\<lambda>s. has_permission r [] s = (r = ''admin'')) [''user:manage'', ''tenant:manage'', ''system:admin''] \<and>
   (has_permission r [] ''quarantine:write'' \<longleftrightarrow> r \<in> {''admin'', ''analyst''}) \<and>
   (validate_role r \<or> get_role_scopes r = [])"
proof (intro conjI)
  show "list_all (\<lambda>s. has_permission r [] s = (r = ''admin'')) [''user:manage'', ''tenant:manage'', ''system:admin'']"
    using admin_only [of _ r] by (simp add: admin_scopes_def)
  show "validate_role r \<or> get_role_scopes r = []" using unknown_role by (auto simp: validate_role_iff)
  show "has_permission ''admin'' custom scope" by (simp add: has_permission_def)
qed (rule permission_facts quarantine_writers)+

subsection \<open>models.py\<close>

definition hash_password :: "crypto \<Rightarrow> string \<Rightarrow> string \<Rightarrow> string" where
  "hash_password cr salt password = hex_of salt @ '':'' @ hex_of (pbkdf2 cr password salt)"

definition verify_password :: "crypto \<Rightarrow> string \<Rightarrow> string \<Rightarrow> bool" where
  "verify_password cr password password_hash =
     (case split_char (CHR '':'') password_hash of
        [salt_hex, key_hex] \<Rightarrow>
          (case (from_hex salt_hex, from_hex key_hex) of
             (Some salt, Some expected_key) \<Rightarrow> pbkdf2 cr password salt = expected_key
           | _ \<Rightarrow> False)
      | _ \<Rightarrow> False)"

record user =
  user_id :: string
  username :: json
  password_hash :: string
  role :: string
  tenant_id :: json
  mfa_enabled :: bool
  mfa_secret :: "string option"
  is_active :: bool
  scopes :: "string list"
  created_at :: rat

definition json_opt :: "string option \<Rightarrow> json" where
  "json_opt x = (case x of None \<Rightarrow> JNull | Some s \<Rightarrow> JStr s)"

definition user_to_dict :: "user \<Rightarrow> (string, json) dict" where
  "user_to_dict u =
     [(''user_id'', JStr (user_id u)), (''username'', username u), (''role'', JStr (role u)),
      (''tenant_id'', tenant_id u), (''mfa_enabled'', JBool (mfa_enabled u))] @
     (if mfa_secret u \<noteq> None \<and> mfa_secret u \<noteq> Some [] then [] else [(''mfa_secret'', json_opt (mfa_secret u))]) @
     [(''is_active'', JBool (is_active u)), (''scopes'', JList (map JStr (scopes u))),
      (''created_at'', JNum (created_at u))]"

text \<open>A stored password hash accepts exactly the passwords whose derived key, under the stored salt, is
  the stored key.\<close>
theorem password_hash_accepts:
  "verify_password cr password (hash_password cr salt chosen) \<longleftrightarrow> pbkdf2 cr password salt = pbkdf2 cr chosen salt"
  by (simp add: verify_password_def hash_password_def split_char_append split_char_single hex_of_no_sep)

lemma user_dict_hides_secrets:
  "''password_hash'' \<notin> set (dkeys (user_to_dict u)) \<and>
   (mfa_secret u = Some (c # s) \<longrightarrow> ''mfa_secret'' \<notin> set (dkeys (user_to_dict u)))"
  by (simp add: user_to_dict_def)

subsection \<open>mfa.py\<close>

definition b32_char :: "nat \<Rightarrow> char" where
  "b32_char n = (if n < 26 then char_of (65 + n) else char_of (24 + n))"

function b32_digits :: "string \<Rightarrow> string" where
  "b32_digits [] = []"
| "b32_digits (b # bs) =
     (let grp = take 5 ((b # bs) @ replicate 4 (CHR 0x00));
          acc = foldl (\<lambda>a c. 256 * a + of_char c) (0::int) grp
      in map (\<lambda>i. b32_char (nat (acc div 32 ^ (7 - i) mod 32))) [0..<8] @ b32_digits (drop 5 (b # bs)))"
  by pat_completeness auto
termination by (relation "measure length") auto

text \<open>\<open>generate_secret\<close> of the random bytes: the base 32 digits without padding.\<close>

definition generate_secret :: "string \<Rightarrow> string" where
  "generate_secret raw = take ((length raw * 8 + 4) div 5) (b32_digits raw)"

text \<open>\<open>struct.pack(">Q", n)\<close>\<close>

definition pack_u64 :: "int \<Rightarrow> string option" where
  "pack_u64 n = (if 0 \<le> n \<and> n < 2 ^ 64
     then Some (map (\<lambda>i. char_of (n div 256 ^ (7 - i) mod 256)) [0..<8]) else None)"

text \<open>\<open>f"{code:06d}"\<close> for a code below a million.\<close>

definition zero_pad6 :: "int \<Rightarrow> string" where
  "zero_pad6 n = map (\<lambda>i. char_of (48 + n div 10 ^ (5 - i) mod 10)) [0..<6]"

definition truncate_digest :: "string \<Rightarrow> string option" where
  "truncate_digest d =
     (if d = [] then None
      else
        let offset = of_char (last d) mod 16;
            word4 = take 4 (drop offset d)
        in if length word4 \<noteq> 4 then None
           else Some (zero_pad6 (foldl (\<lambda>a c. 256 * a + of_char c) (0::int) word4 mod 2 ^ 31 mod 1000000)))"

text \<open>The code of one counter value.\<close>

definition hotp :: "crypto \<Rightarrow> string \<Rightarrow> int \<Rightarrow> string option" where
  "hotp cr key counter =
     (case pack_u64 counter of None \<Rightarrow> None | Some msg \<Rightarrow> truncate_digest (hmac_sha1 cr key msg))"

definition totp_key :: "string \<Rightarrow> string option" where
  "totp_key secret = b32decode (upper secret @ replicate ((8 - length secret mod 8) mod 8) (CHR ''=''))"

definition generate_totp_code :: "crypto \<Rightarrow> string \<Rightarrow> int \<Rightarrow> rat \<Rightarrow> string option" where
  "generate_totp_code cr secret time_step timestamp =
     (if time_step = 0 then None
      else (case totp_key secret of
          None \<Rightarrow> None
        | Some key \<Rightarrow> hotp cr key \<lfloor>timestamp / of_int time_step\<rfloor>))"

text \<open>The loop over the drift window; \<^term>\<open>None\<close> when a code cannot be computed or compared.\<close>

fun totp_window :: "crypto \<Rightarrow> string \<Rightarrow> string \<Rightarrow> int \<Rightarrow> rat \<Rightarrow> int list \<Rightarrow> bool option" where
  "totp_window cr secret code step now [] = Some False"
| "totp_window cr secret code step now (d # ds) =
     (case generate_totp_code cr secret step (now + of_int (d * step)) of
        None \<Rightarrow> None
      | Some expected \<Rightarrow>
          if \<not> is_ascii code then None
          else if expected = code then Some True
          else totp_window cr secret code step now ds)"

definition verify_totp_code :: "crypto \<Rightarrow> string \<Rightarrow> string \<Rightarrow> int \<Rightarrow> int \<Rightarrow> rat \<Rightarrow> bool option" where
  "verify_totp_code cr secret code window step now =
     (if secret = [] \<or> code = [] then Some False
      else totp_window cr secret (strip code) step now [- window..window])"

lemma totp_window_iff:
  assumes "is_ascii code" "\<And>d. d \<in> set ds \<Longrightarrow> generate_totp_code cr secret step (now + of_int (d * step)) = Some (f d)"
  shows "totp_window cr secret code step now ds = Some (code \<in> f ` set ds)"
  using assms by (induction ds) auto

lemma totp_step: "step \<noteq> 0 \<Longrightarrow> \<lfloor>(now + of_int (d * step)) / of_int step :: rat\<rfloor> = \<lfloor>now / of_int step\<rfloor> + d"
  by (simp add: add_divide_distrib)

lemma truncate_digest_some:
  assumes "length d = 20"
  shows "\<exists>n. 0 \<le> n \<and> n < 1000000 \<and> truncate_digest d = Some (zero_pad6 n)"
proof -
  have "of_char (last d) mod 16 + 4 \<le> (20::nat)" using mod_less_divisor [of 16 "of_char (last d) :: nat"] by linarith
  with assms have "length (take 4 (drop (of_char (last d) mod 16) d)) = 4" "d \<noteq> []" by auto
  then have "truncate_digest d = Some (zero_pad6 (foldl (\<lambda>a c. 256 * a + of_char c) 0
      (take 4 (drop (of_char (last d) mod 16) d)) mod 2 ^ 31 mod 1000000))"
    by (simp add: truncate_digest_def Let_def del: length_take length_drop)
  moreover have "0 \<le> k mod 1000000" "k mod 1000000 < (1000000 :: int)" for k by simp_all
  ultimately show ?thesis by blast
qed

lemma hotp_some:
  assumes "\<And>k m. length (hmac_sha1 cr k m) = 20" "0 \<le> c" "c < 2 ^ 64"
  shows "hotp cr key c \<noteq> None"
proof -
  have "pack_u64 c \<noteq> None" unfolding pack_u64_def using assms(2,3) by (simp only: if_True simp_thms option.distinct)
  then obtain msg where "pack_u64 c = Some msg" by blast
  with truncate_digest_some [OF assms(1)] show ?thesis unfolding hotp_def by fastforce
qed

text \<open>Within the default window a one-time code is accepted exactly when, stripped of spaces, it is the
  code of the current 30-second step or of one of its two neighbours, whatever the time within the
  step. (HMAC-SHA1 digests have 20 bytes.)\<close>
theorem totp_accepts_adjacent_steps:
  assumes "\<And>k m. length (hmac_sha1 cr k m) = 20"
    and "totp_key secret = Some key" "secret \<noteq> []" "code \<noteq> []" "is_ascii (strip code)"
    and "c = \<lfloor>now / 30\<rfloor>" "1 \<le> c" "c < 2 ^ 64 - 1"
  shows "verify_totp_code cr secret code 1 30 now =
    Some (Some (strip code) \<in> {hotp cr key (c - 1), hotp cr key c, hotp cr key (c + 1)})"
proof -
  have "\<forall>d \<in> {-1, 0, 1}. \<exists>v. hotp cr key (c + d) = Some v"
  proof
    fix d :: int
    assume "d \<in> {-1, 0, 1}"
    with assms(7,8) have "0 \<le> c + d" "c + d < 2 ^ 64" by auto
    from hotp_some [OF assms(1) this] show "\<exists>v. hotp cr key (c + d) = Some v" by blast
  qed
  then have "\<exists>w. \<forall>d \<in> {-1, 0, 1}. hotp cr key (c + d) = Some (w d)" by (rule bchoice)
  then obtain w where w: "d \<in> {-1, 0, 1} \<Longrightarrow> hotp cr key (c + d) = Some (w d)" for d by blast
  have gen: "generate_totp_code cr secret 30 (now + of_int (d * 30)) = hotp cr key (c + d)" for d
    using assms(2,6) totp_step [of 30 now d] by (simp add: generate_totp_code_def)
  have ds: "set [- 1..1] = {-1, 0, 1 :: int}" by auto
  have "verify_totp_code cr secret code 1 30 now = totp_window cr secret (strip code) 30 now [- 1..1]"
    using assms(3,4) by (simp add: verify_totp_code_def)
  also have "\<dots> = Some (strip code \<in> w ` set [- 1..1])"
  proof (rule totp_window_iff [OF assms(5)])
    fix d :: int
    assume "d \<in> set [- 1..1]"
    then show "generate_totp_code cr secret 30 (now + of_int (d * 30)) = Some (w d)"
      unfolding gen ds by (rule w)
  qed
  also have "\<dots> = Some (Some (strip code) \<in> {hotp cr key (c + (-1)), hotp cr key (c + 0), hotp cr key (c + 1)})"
    unfolding ds by (simp only: w insert_iff simp_thms option.inject image_insert image_empty empty_iff)
  finally show ?thesis by simp
qed

definition toy_crypto :: crypto where
  "toy_crypto = \<lparr>hmac_sha256 = (\<lambda>k m. k @ ''/'' @ m),
     hmac_sha1 = (\<lambda>k m. replicate 19 (last m) @ [CHR 0x00]), pbkdf2 = (\<lambda>pw salt. salt @ pw)\<rparr>"

theorem totp_accepts_adjacent_steps_witness:
  "verify_totp_code toy_crypto ''AAAAAAAA'' '' 529027'' 1 30 100 = Some True"
proof -
  let ?key = "replicate 5 (CHR 0x00)"
  have key: "totp_key ''AAAAAAAA'' = Some ?key" and ascii: "is_ascii (strip '' 529027'')" by code_simp+
  have step: "(3 :: int) = \<lfloor>(100 :: rat) / 30\<rfloor>" by code_simp
  have len: "length (hmac_sha1 toy_crypto k m) = 20" for k m by (simp add: toy_crypto_def)
  have "verify_totp_code toy_crypto ''AAAAAAAA'' '' 529027'' 1 30 100 =
      Some (Some (strip '' 529027'') \<in> {hotp toy_crypto ?key (3 - 1), hotp toy_crypto ?key 3, hotp toy_crypto ?key (3 + 1)})"
    by (rule totp_accepts_adjacent_steps [OF len key _ _ ascii step]) simp_all
  moreover have "hotp toy_crypto ?key 3 = Some (strip '' 529027'')" by code_simp
  ultimately show ?thesis by (simp only: insert_iff simp_thms)
qed

subsection \<open>sso.py\<close>

definition default_role_mapping :: "(string, string) dict" where
  "default_role_mapping =
     [(''GatewayAdmins'', ''admin''), (''SOCAnalysts'', ''analyst''), (''Auditors'', ''read_only'')]"

definition role_mapping :: "(string, string) dict \<Rightarrow> (string, string) dict" where
  "role_mapping given = (if given \<noteq> [] then given else default_role_mapping)"

text \<open>\<open>self.role_mapping.get(group)\<close>: a list or dict is not hashable, other values are no key.\<close>

fun mapped_role :: "(string, string) dict \<Rightarrow> json \<Rightarrow> string option result" where
  "mapped_role m (JStr g) = Inr (dget m g)"
| "mapped_role m (JList xs) = Inl (TypeError ''unhashable type: list'')"
| "mapped_role m (JDict d) = Inl (TypeError ''unhashable type: dict'')"
| "mapped_role m _ = Inr None"

fun map_claims_to_role :: "(string, string) dict \<Rightarrow> json list \<Rightarrow> string \<Rightarrow> string result" where
  "map_claims_to_role m [] assigned = Inr assigned"
| "map_claims_to_role m (g # gs) assigned =
     (case mapped_role m g of
        Inl e \<Rightarrow> Inl e
      | Inr r \<Rightarrow>
          if r = Some ''admin'' then Inr ''admin''
          else map_claims_to_role m gs (if r = Some ''analyst'' then ''analyst'' else assigned))"

text \<open>What iterating over a claim visits.\<close>

fun iter_json :: "json \<Rightarrow> json list result" where
  "iter_json (JList xs) = Inr xs"
| "iter_json (JStr s) = Inr (map (\<lambda>c. JStr [c]) s)"
| "iter_json (JDict d) = Inr (map (\<lambda>p. JStr (fst p)) d)"
| "iter_json _ = Inl (TypeError ''object is not iterable'')"

definition sso_user :: "crypto \<Rightarrow> string \<Rightarrow> rat \<Rightarrow> (string, json) dict \<Rightarrow> string \<Rightarrow> string \<Rightarrow> user" where
  "sso_user cr salt now claims email r =
     \<lparr>user_id = ''sso_'' @ take 8 (hash_password cr salt email),
      username = or_else (dgetd claims ''preferred_username'' JNull)
        (or_else (dgetd claims ''name'' JNull) (JStr email)),
      password_hash = ''SSO_EXTERNAL_AUTH'', role = r, tenant_id = dgetd claims ''tenant_id'' JNull,
      mfa_enabled = True, mfa_secret = None, is_active = True, scopes = get_role_scopes r, created_at = now\<rparr>"

definition authenticate_oidc_claims ::
    "crypto \<Rightarrow> string \<Rightarrow> rat \<Rightarrow> (string, string) dict \<Rightarrow> (string, json) dict \<Rightarrow> user result" where
  "authenticate_oidc_claims cr salt now given claims =
     (let email = or_else (dgetd claims ''email'' JNull) (dgetd claims ''sub'' JNull) in
      if \<not> truthy email
      then Inl (ValueError (''OIDC claims missing required '' @ quoted ''email'' @ '' or '' @ quoted ''sub''))
      else (case iter_json (dgetd claims ''groups'' (JList [])) of
          Inl e \<Rightarrow> Inl e
        | Inr gs \<Rightarrow> (case map_claims_to_role (role_mapping given) gs ''read_only'' of
            Inl e \<Rightarrow> Inl e
          | Inr r \<Rightarrow> (case email of
              JStr mail \<Rightarrow> Inr (sso_user cr salt now claims mail r)
            | _ \<Rightarrow> Inl (OtherError ''object has no attribute encode'')))))"

definition grants :: "(string, string) dict \<Rightarrow> string \<Rightarrow> json \<Rightarrow> bool" where
  "grants m r g \<longleftrightarrow> mapped_role m g = Inr (Some r)"

lemma take_hex_of: "take (2 * n) (hex_of bs) = hex_of (take n bs)"
proof (induction bs arbitrary: n)
  case (Cons b bs)
  then show ?case by (cases n) (simp_all add: hex_of_def)
qed (simp add: hex_of_def)

lemma map_claims_role:
  "map_claims_to_role m gs a = Inr r \<Longrightarrow>
     r = (if \<exists>g \<in> set gs. grants m ''admin'' g then ''admin''
          else if \<exists>g \<in> set gs. grants m ''analyst'' g then ''analyst'' else a)"
proof (induction gs arbitrary: a)
  case (Cons g gs)
  then obtain x where x: "mapped_role m g = Inr x" by (cases "mapped_role m g") auto
  show ?case
  proof (cases "x = Some ''admin''")
    case True
    with x Cons.prems show ?thesis by (simp add: grants_def)
  next
    case False
    let ?a = "if x = Some ''analyst'' then ''analyst'' else a"
    from False x Cons.prems have "map_claims_to_role m gs ?a = Inr r" by simp
    note IH = Cons.IH [OF this]
    from x False have "\<not> grants m ''admin'' g" "grants m ''analyst'' g \<longleftrightarrow> x = Some ''analyst''"
      by (auto simp: grants_def)
    with IH show ?thesis by simp
  qed
qed simp

lemma oidc_result:
  assumes "authenticate_oidc_claims cr salt now given claims = Inr u"
    and "iter_json (dgetd claims ''groups'' (JList [])) = Inr gs"
  obtains r mail where "map_claims_to_role (role_mapping given) gs ''read_only'' = Inr r"
    "u = sso_user cr salt now claims mail r"
proof -
  let ?e = "or_else (dgetd claims ''email'' JNull) (dgetd claims ''sub'' JNull)"
  from assms(1) have t: "truthy ?e" by (simp add: authenticate_oidc_claims_def Let_def split: if_splits)
  show ?thesis
  proof (cases "map_claims_to_role (role_mapping given) gs ''read_only''")
    case (Inl e)
    with assms t show ?thesis by (simp add: authenticate_oidc_claims_def Let_def)
  next
    case (Inr r)
    with assms t have "(case ?e of JStr mail \<Rightarrow> Inr (sso_user cr salt now claims mail r)
        | _ \<Rightarrow> Inl (OtherError ''object has no attribute encode'')) = Inr u"
      by (simp add: authenticate_oidc_claims_def Let_def)
    then show ?thesis by (cases ?e) (auto intro: that Inr)
  qed
qed

text \<open>A user signed on from identity-provider claims has no more rights than the groups give: the role
  is admin exactly when some group maps to admin, else analyst exactly when some maps to analyst,
  else read-only, with just that role's scopes. The account id, though, is made of the first bytes
  of the random salt and not of the identity.\<close>
theorem sso_least_privilege:
  assumes "authenticate_oidc_claims cr salt now given claims = Inr u" "length salt = 16"
    and "iter_json (dgetd claims ''groups'' (JList [])) = Inr gs"
  shows "role u = (if \<exists>g \<in> set gs. grants (role_mapping given) ''admin'' g then ''admin''
          else if \<exists>g \<in> set gs. grants (role_mapping given) ''analyst'' g then ''analyst'' else ''read_only'') \<and>
     scopes u = get_role_scopes (role u) \<and> user_id u = ''sso_'' @ hex_of (take 4 salt)"
proof -
  from assms(1,3) obtain r mail where r: "map_claims_to_role (role_mapping given) gs ''read_only'' = Inr r"
    and u: "u = sso_user cr salt now claims mail r"
    by (rule oidc_result)
  have "take 8 (hash_password cr salt mail) = hex_of (take 4 salt)"
    using assms(2) take_hex_of [of 4 salt] by (simp add: hash_password_def)
  then have "user_id u = ''sso_'' @ hex_of (take 4 salt)" by (simp only: u sso_user_def user.simps)
  moreover have "role u = r" "scopes u = get_role_scopes r" by (simp_all only: u sso_user_def user.simps)
  ultimately show ?thesis using map_claims_role [OF r] by (simp only: simp_thms)
qed

definition example_salt :: string where
  "example_salt = ''0123456789abcdef''"

definition example_claims :: "(string, json) dict" where
  "example_claims = [(''email'', JStr ''a@b.io''), (''groups'', JList [JStr ''SOCAnalysts'', JInt 3])]"

theorem sso_least_privilege_witness:
  "map_option role (case authenticate_oidc_claims toy_crypto example_salt 0 [] example_claims of
     Inl _ \<Rightarrow> None | Inr u \<Rightarrow> Some u) = Some ''analyst''"
proof -
  let ?u = "sso_user toy_crypto example_salt 0 example_claims ''a@b.io'' ''analyst''"
  have ok: "authenticate_oidc_claims toy_crypto example_salt 0 [] example_claims = Inr ?u"
    "iter_json (dgetd example_claims ''groups'' (JList [])) = Inr [JStr ''SOCAnalysts'', JInt 3]"
    "length example_salt = 16" by (simp_all add: authenticate_oidc_claims_def example_claims_def dgetd_def or_else_def
        role_mapping_def default_role_mapping_def example_salt_def)
  have "(\<exists>g \<in> set [JStr ''SOCAnalysts'', JInt 3]. grants (role_mapping []) ''admin'' g) = False"
    "(\<exists>g \<in> set [JStr ''SOCAnalysts'', JInt 3]. grants (role_mapping []) ''analyst'' g) = True"
    by (simp_all add: grants_def role_mapping_def default_role_mapping_def)
  with sso_least_privilege [OF ok(1,3,2)] have "role ?u = ''analyst''" by (simp only: if_True if_False)
  then show ?thesis by (simp only: ok sum.case option.map)
qed

end
