(* ===== verification/WebhookSecurity.thy ===== *)
theory WebhookSecurity
  imports IPAddress Regex Identity
begin

text \<open>
  What an inbound webhook has to pass: the path secret and source addresses (\<open>security/webhook_auth.py\<close>),
  the providers' signatures (\<open>security/provider_auth.py\<close>), and the bounce filter of the pipeline
  (\<open>security/bounce_detector.py\<close>). The clock is an argument, HMAC a parameter. A floating-point text is
  read exactly, without rounding to a double.
\<close>

subsection \<open>webhook\_auth.py\<close>

text \<open>\<open>WebhookAuthError\<close> with its status, or another exception.\<close>

datatype web_error = AuthError string int | Crash string

text \<open>\<open>hmac.compare_digest\<close> of two texts: a \<open>TypeError\<close> unless both are ASCII.\<close>

definition compare_digest :: "string \<Rightarrow> string \<Rightarrow> bool option" where
  "compare_digest a b = (if is_ascii a \<and> is_ascii b then Some (a = b) else None)"

definition verify_secret :: "string \<Rightarrow> string \<Rightarrow> web_error + unit" where
  "verify_secret provided expected =
     (if expected = [] then Inr ()
      else case compare_digest provided expected of
        None \<Rightarrow> Inl (Crash ''TypeError'')
      | Some True \<Rightarrow> Inr ()
      | Some False \<Rightarrow> Inl (AuthError ''invalid webhook secret'' 404))"

definition in_range :: "ip_addr \<Rightarrow> string \<Rightarrow> bool" where
  "in_range addr cidr = (case ip_network cidr of None \<Rightarrow> False | Some net \<Rightarrow> in_network addr net)"

definition verify_source_ip :: "string option \<Rightarrow> string list \<Rightarrow> web_error + unit" where
  "verify_source_ip client_ip ranges =
     (if ranges = [] then Inr ()
      else case client_ip of
        None \<Rightarrow> Inl (AuthError ''could not determine client IP'' 403)
      | Some ip \<Rightarrow>
          if ip = [] then Inl (AuthError ''could not determine client IP'' 403)
          else (case ip_address ip of
            None \<Rightarrow> Inl (AuthError (''invalid client IP: '' @ quoted ip) 403)
          | Some addr \<Rightarrow>
              if list_ex (in_range addr) ranges then Inr ()
              else Inl (AuthError (''source IP '' @ ip @ '' not in allowlist'') 403)))"

subsection \<open>provider\_auth.py\<close>

text \<open>\<open>float(s)\<close>\<close>

datatype py_float = Finite rat | Infinite | NotANumber

definition float_digits :: "string \<Rightarrow> (nat \<times> nat) option" where
  "float_digits s = (if s = [] then Some (0, 0)
     else map_option (\<lambda>n. (n, length (filter is_digit s))) (py_nat s))"

definition float_mantissa :: "string \<Rightarrow> rat option" where
  "float_mantissa s = (case cut (CHR ''.'') s of
       None \<Rightarrow> map_option of_nat (py_nat s)
     | Some (a, b) \<Rightarrow>
         if a = [] \<and> b = [] then None
         else (case (float_digits a, float_digits b) of
             (Some (x, _), Some (y, k)) \<Rightarrow> Some (of_nat x + of_nat y / 10 ^ k)
           | _ \<Rightarrow> None))"

definition float_exponent :: "string \<Rightarrow> int option" where
  "float_exponent s = (if s \<noteq> [] \<and> (is_digit (hd s) \<or> hd s \<in> set ''+-'') \<and> \<not> is_space (last s) then py_int s else None)"

definition float_unsigned :: "string \<Rightarrow> py_float option" where
  "float_unsigned s =
     (if s \<in> {''inf'', ''infinity''} then Some Infinite
      else if s = ''nan'' then Some NotANumber
      else case cut (CHR ''e'') s of
        None \<Rightarrow> map_option Finite (float_mantissa s)
      | Some (m, e) \<Rightarrow> (case (float_mantissa m, float_exponent e) of
            (Some x, Some k) \<Rightarrow> Some (Finite (if k \<ge> 0 then x * 10 ^ nat k else x / 10 ^ nat (- k)))
          | _ \<Rightarrow> None))"

definition py_float_of :: "string \<Rightarrow> py_float option" where
  "py_float_of s = (case lower (strip s) of
       [] \<Rightarrow> None
     | c # r \<Rightarrow>
         if c = CHR ''-'' then map_option (\<lambda>f. case f of Finite x \<Rightarrow> Finite (- x) | g \<Rightarrow> g) (float_unsigned r)
         else if c = CHR ''+'' then float_unsigned r
         else float_unsigned (c # r))"

text \<open>\<open>abs(now - ts) > max_age\<close>; a comparison with a NaN is false.\<close>

definition stale :: "rat \<Rightarrow> int \<Rightarrow> py_float \<Rightarrow> bool" where
  "stale now max_age ts = (case ts of
     Finite t \<Rightarrow> \<bar>now - t\<bar> > of_int max_age | Infinite \<Rightarrow> True | NotANumber \<Rightarrow> False)"

definition verify_mailgun ::
    "crypto \<Rightarrow> rat \<Rightarrow> string \<Rightarrow> string \<Rightarrow> string \<Rightarrow> string \<Rightarrow> int \<Rightarrow> web_error + unit" where
  "verify_mailgun cr now timestamp token signature signing_key max_age =
     (if signing_key = [] then Inr ()
      else if timestamp = [] \<or> token = [] \<or> signature = []
      then Inl (AuthError ''missing Mailgun authentication parameters (timestamp, token, or signature)'' 401)
      else case py_float_of timestamp of
        None \<Rightarrow> Inl (AuthError ''invalid Mailgun timestamp format'' 401)
      | Some ts \<Rightarrow>
          if stale now max_age ts then Inl (AuthError ''Mailgun webhook timestamp expired (replay attack defense)'' 401)
          else (case compare_digest (hex_of (hmac_sha256 cr signing_key (timestamp @ token))) signature of
              None \<Rightarrow> Inl (Crash ''TypeError'')
            | Some True \<Rightarrow> Inr ()
            | Some False \<Rightarrow> Inl (AuthError ''invalid Mailgun HMAC signature'' 401)))"

text \<open>The fields of an SNS message the check reads; absent ones are empty. \<open>url\<close> splits a URL into its scheme
  and network location.\<close>

record sns_message =
  sns_type :: string
  sns_topic :: string
  sns_cert_url :: string

definition verify_sns_message ::
    "(string \<Rightarrow> string \<times> string) \<Rightarrow> string list \<Rightarrow> sns_message option \<Rightarrow> web_error + unit" where
  "verify_sns_message url allowed msg = (case msg of
       None \<Rightarrow> Inl (AuthError ''empty AWS SNS notification body'' 400)
     | Some m \<Rightarrow>
         if sns_type m \<notin> {''Notification'', ''SubscriptionConfirmation''}
         then Inl (AuthError (''unsupported AWS SNS message type: '' @ sns_type m) 400)
         else if allowed \<noteq> [] \<and> sns_topic m \<notin> set allowed
         then Inl (AuthError (''unauthorized AWS SNS TopicArn: '' @ sns_topic m) 403)
         else if sns_cert_url m \<noteq> [] \<and>
           (fst (url (sns_cert_url m)) \<noteq> ''https'' \<or> \<not> ends_with ''.amazonaws.com'' (snd (url (sns_cert_url m))))
         then Inl (AuthError ''invalid AWS SNS SigningCertURL domain'' 401)
         else Inr ())"

subsection \<open>bounce\_detector.py\<close>

definition auto_submitted_re :: re where
  "auto_submitted_re = seqs [lit ''auto-submitted:'', Star space,
     Cap 1 (plus (Sat (\<lambda>c. c \<notin> {CHR 0x0D, CHR 0x0A})))]"

definition bounce_subject_re :: re where
  "bounce_subject_re = seqs [lit ''subject:'', Star space,
     alts [lit ''undeliverable:'', lit ''delivery status notification'', lit ''mail delivery failed'']]"

definition system_sender :: "string \<Rightarrow> bool" where
  "system_sender s \<longleftrightarrow> s \<in> {[], ''<>'', ''<mailer-daemon>'', ''mailer-daemon@''} \<or>
     starts_with ''postmaster@'' s \<or> starts_with ''mailer-daemon@'' s"

definition auto_submitted_value :: "string \<Rightarrow> string option" where
  "auto_submitted_value h =
     (if contains ''auto-submitted:'' h
      then Option.bind (rsearch auto_submitted_re h) (\<lambda>m. map_option strip (group h m 1)) else None)"

definition is_bounce_or_ndr :: "string \<Rightarrow> string \<Rightarrow> bool \<times> string" where
  "is_bounce_or_ndr envelope_from headers_blob =
     (if system_sender (lower (strip envelope_from))
      then (True, ''empty or system envelope sender ('' @ envelope_from @ '')'')
      else if headers_blob = [] then (False, [])
      else
        let h = lower headers_blob in
        case auto_submitted_value h of
          Some v \<Rightarrow>
            if v \<noteq> ''no'' then (True, ''Auto-Submitted header present: '' @ v)
            else if contains ''report-type=delivery-status'' h \<or> contains ''multipart/report'' h
            then (True, ''delivery-status notification (multipart/report) header'')
            else if found bounce_subject_re h
            then (True, ''subject indicates non-delivery report / mail failure notification'')
            else (False, [])
        | None \<Rightarrow>
            if contains ''report-type=delivery-status'' h \<or> contains ''multipart/report'' h
            then (True, ''delivery-status notification (multipart/report) header'')
            else if found bounce_subject_re h
            then (True, ''subject indicates non-delivery report / mail failure notification'')
            else (False, []))"

lemma is_ascii_hex: "is_ascii (hex_of s)"
proof -
  have "of_char (hex_digit n) < (128::nat)" if "n < 16" for n
    using that by (simp add: hex_digit_def)
  moreover have "(of_char c :: nat) div 16 < 16" "(of_char c :: nat) mod 16 < 16" for c :: char
    using byte_bound [of c] by (simp_all add: div_less_iff_less_mult)
  ultimately show ?thesis by (auto simp: is_ascii_def hex_of_def list_all_iff)
qed

text \<open>A Mailgun webhook is accepted under a signing key exactly when its timestamp is a number not further from
  the clock than allowed (or the text \<open>nan\<close>) and its signature is the HMAC of timestamp and token.\<close>
theorem mailgun_accepts_iff:
  "verify_mailgun cr now timestamp token signature (k # ks) max_age = Inr () \<longleftrightarrow>
     timestamp \<noteq> [] \<and> token \<noteq> [] \<and> signature \<noteq> [] \<and> is_ascii signature \<and>
     (\<exists>ts. py_float_of timestamp = Some ts \<and> \<not> stale now max_age ts) \<and>
     signature = hex_of (hmac_sha256 cr (k # ks) (timestamp @ token))"
  using is_ascii_hex [of "hmac_sha256 cr (k # ks) (timestamp @ token)"]
  by (auto simp: verify_mailgun_def compare_digest_def split: option.splits if_splits bool.splits)

text \<open>An allowlist lets through exactly the addresses inside one of its well-formed ranges.\<close>

lemma source_ip_allowed_iff:
  "verify_source_ip (Some ip) (r # rs) = Inr () \<longleftrightarrow> ip \<noteq> [] \<and>
     (\<exists>addr. ip_address ip = Some addr \<and> (\<exists>cidr \<in> set (r # rs). \<exists>net. ip_network cidr = Some net \<and> in_network addr net))"
  by (auto simp: verify_source_ip_def in_range_def list_ex_iff split: option.splits)

text \<open>A message whose type is right and that names no certificate passes the SNS check: no signature is verified.\<close>

lemma unsigned_sns_accepted:
  "verify_sns_message url [] (Some \<lparr>sns_type = ''Notification'', sns_topic = topic, sns_cert_url = []\<rparr>) = Inr ()"
  by (simp add: verify_sns_message_def)

end
