(* ===== verification/AuditLog.thy ===== *)
theory AuditLog
  imports WebhookSecurity DecisionModel "HOL-Library.List_Lexorder" "HOL-Library.Char_ord"
begin

text \<open>
  Redaction (\<open>security/redact.py\<close>) and the audit trail (\<open>audit/logger.py\<close>). A line of the audit file is the
  JSON object it encodes, with sorted keys; the clock is an argument.
\<close>

subsection \<open>Patterns\<close>

definition alnum :: "char \<Rightarrow> bool" where
  "alnum c \<longleftrightarrow> is_digit c \<or> is_ascii_letter c"

definition upper_letter :: "char \<Rightarrow> bool" where
  "upper_letter c \<longleftrightarrow> 65 \<le> (of_char c :: nat) \<and> of_char c \<le> (90 :: nat)"

definition secret_re :: re where
  "secret_re = seqs [
     Cap 1 (alts [seqs [lit_ci ''api'', Opt (one_of ''_-''), lit_ci ''key''], lit_ci ''apikey'', lit_ci ''secret'',
       lit_ci ''token'', lit_ci ''password'', lit_ci ''passwd'', lit_ci ''pwd'']),
     Star space, one_of '':='', Star space, plus non_space]"

definition bearer_re :: re where
  "bearer_re = seqs [lit_ci ''bearer'', plus space, plus (Sat (\<lambda>c. alnum c \<or> c \<in> set ''-._~+/'')), Star (lit ''='')]"

definition pem_re :: re where
  "pem_re = seqs [lit ''-----BEGIN '', Star (Sat (\<lambda>c. upper_letter c \<or> c = CHR '' '')), lit ''PRIVATE KEY-----'',
     LazyStar any_char,
     lit ''-----END '', Star (Sat (\<lambda>c. upper_letter c \<or> c = CHR '' '')), lit ''PRIVATE KEY-----'']"

definition ssn_re :: re where
  "ssn_re = seqs [WordBoundary, NotAhead (alts [lit ''000'', lit ''666'', seqs [lit ''9'', digit, digit]]), times 3 digit,
     lit ''-'', NotAhead (lit ''00''), times 2 digit, lit ''-'', NotAhead (lit ''0000''), times 4 digit, WordBoundary]"

definition payment_card_re :: re where
  "payment_card_re = seqs [WordBoundary,
     alts [seqs [lit ''4'', times 12 digit, Opt (times 3 digit)],
       seqs [lit ''5'', one_of ''12345'', times 14 digit],
       seqs [lit ''3'', one_of ''47'', times 13 digit],
       seqs [lit ''3'', alts [seqs [lit ''0'', one_of ''012345''], seqs [one_of ''68'', digit]], times 11 digit],
       seqs [lit ''6'', alts [lit ''011'', seqs [lit ''5'', times 2 digit]], times 12 digit],
       seqs [alts [lit ''2131'', lit ''1800'', seqs [lit ''35'', times 3 digit]], times 11 digit]],
     WordBoundary]"

definition iban_re :: re where
  "iban_re = seqs [WordBoundary, times 2 (Sat upper_letter), times 2 digit,
     between 12 30 (Sat (\<lambda>c. upper_letter c \<or> is_digit c)), WordBoundary]"

definition phone_re :: re where
  "phone_re = (let sep = Opt (Sat (\<lambda>c. c \<in> set ''-.'' \<or> is_space c)) in
     seqs [WordBoundary, Opt (seqs [Opt (lit ''+''), between 1 3 digit, sep]),
       Opt (lit ''(''), times 3 digit, Opt (lit '')''), sep, times 3 digit, sep, times 4 digit, WordBoundary])"

definition long_token_re :: re where
  "long_token_re = seqs [WordBoundary, times 32 (Sat alnum), Star (Sat alnum), WordBoundary]"

definition sensitive_key_re :: re where
  "sensitive_key_re = Cap 1 (alts (map lit_ci [''key'', ''secret'', ''token'', ''password'', ''passwd'', ''pwd'', ''authorization'',
     ''cookie'', ''ssn'', ''credit_card'', ''card_number'']))"

subsection \<open>Redaction\<close>

abbreviation REDACTED :: string where
  "REDACTED \<equiv> ''[REDACTED]''"

definition redact :: "string \<Rightarrow> bool \<Rightarrow> string" where
  "redact text pii =
     (if text = [] then text
      else
        let out = rsub pem_re REDACTED (rsub bearer_re REDACTED (rsub secret_re REDACTED text));
            out = (if pii
              then rsub phone_re ''[REDACTED_PHONE]'' (rsub iban_re ''[REDACTED_IBAN]''
                (rsub payment_card_re ''[REDACTED_CC]'' (rsub ssn_re ''[REDACTED_SSN]'' out)))
              else out)
        in rsub long_token_re REDACTED out)"

definition sensitive_key :: "string list \<Rightarrow> string \<Rightarrow> bool" where
  "sensitive_key extra k \<longleftrightarrow> found sensitive_key_re k \<or> k \<in> set extra"

text \<open>\<open>redact_dict\<close>: a list inside a list is passed through.\<close>

fun redact_value :: "string list \<Rightarrow> bool \<Rightarrow> json \<Rightarrow> json" where
  "redact_value extra pii (JStr s) = JStr (redact s pii)"
| "redact_value extra pii (JDict d) =
     JDict (map (\<lambda>(k, v). (k, if sensitive_key extra k then JStr REDACTED else redact_value extra pii v)) d)"
| "redact_value extra pii (JList xs) =
     JList (map (\<lambda>x. case x of JList ys \<Rightarrow> JList ys | _ \<Rightarrow> redact_value extra pii x) xs)"
| "redact_value extra pii j = j"

definition redact_dict :: "string list \<Rightarrow> bool \<Rightarrow> (string, json) dict \<Rightarrow> (string, json) dict" where
  "redact_dict extra pii d = map (\<lambda>(k, v). (k, if sensitive_key extra k then JStr REDACTED else redact_value extra pii v)) d"

subsection \<open>audit/logger.py\<close>

type_synonym audit_log = "(string, json) dict list"

definition audit_line :: "(string, json) dict \<Rightarrow> (string, json) dict" where
  "audit_line entry = sort_key fst (redact_dict [] True entry)"

definition audit_entry :: "rat \<Rightarrow> string \<Rightarrow> string \<Rightarrow> string \<Rightarrow> string \<Rightarrow> int \<Rightarrow> string list \<Rightarrow> (string, json) dict" where
  "audit_entry now mid hash from act score reasons =
     [(''timestamp'', JNum now), (''message_id'', JStr mid), (''message_hash'', JStr hash), (''envelope_from'', JStr from),
      (''action'', JStr act), (''total_score'', JInt score), (''reasons'', jstrs reasons)]"

definition audit_record :: "rat \<Rightarrow> string \<Rightarrow> string \<Rightarrow> string \<Rightarrow> string \<Rightarrow> int \<Rightarrow> string list \<Rightarrow> audit_log \<Rightarrow> audit_log" where
  "audit_record now mid hash from act score reasons lg = lg @ [audit_line (audit_entry now mid hash from act score reasons)]"

definition record_admin_action :: "rat \<Rightarrow> string \<Rightarrow> string \<Rightarrow> string \<Rightarrow> string \<Rightarrow> audit_log \<Rightarrow> audit_log" where
  "record_admin_action now operator act target note_text lg = lg @ [audit_line
     [(''timestamp'', JNum now), (''event_type'', JStr ''admin_action''), (''operator'', JStr operator),
      (''action'', JStr act), (''target_id'', JStr target), (''note'', JStr note_text)]]"

definition read_all :: "audit_log \<Rightarrow> (string, json) dict list" where
  "read_all lg = lg"

subsection \<open>A digest in the lg\<close>

lemma digit_is_word: "is_digit c \<Longrightarrow> is_word c"
  by (simp add: is_word_def Let_def)

lemma alnum_word: "list_all alnum s \<Longrightarrow> list_all is_word s"
  unfolding list_all_iff alnum_def is_word_def Let_def by blast

lemma bounded_patterns:
  "max_len ssn_re = Some 11" "max_len payment_card_re = Some 16" "max_len iban_re = Some 34" "max_len phone_re = Some 19"
  by code_simp+

lemma word_patterns:
  "starts_at_boundary ssn_re" "ends_at_boundary ssn_re" "starts_at_boundary payment_card_re" "ends_at_boundary payment_card_re"
  "starts_at_boundary iban_re" "ends_at_boundary iban_re" "starts_at_boundary phone_re" "ends_at_boundary phone_re"
  by code_simp+

lemma needed_characters:
  "needs (\<lambda>c. c \<in> set '':='') secret_re" "needs is_space bearer_re" "needs (\<lambda>c. c = CHR ''-'') pem_re"
  by (simp_all add: secret_re_def bearer_re_def pem_re_def one_of_def plus_def space_def lit_def)

lemma alnum_not: "alnum c \<Longrightarrow> c \<notin> set '':=''" "alnum c \<Longrightarrow> \<not> is_space c" "alnum c \<Longrightarrow> c \<noteq> CHR ''-''"
proof -
  show "\<not> is_space c" if "alnum c"
    using that by (auto simp: is_space_def alnum_def is_digit_def is_ascii_letter_def Let_def)
  have "\<not> alnum (CHR '':'')" "\<not> alnum (CHR ''='')" "\<not> alnum (CHR ''-'')" by code_simp+
  then show "c \<notin> set '':=''" "c \<noteq> CHR ''-''" if "alnum c" using that by auto
qed

lemma boundary_ends:
  assumes "list_all is_word s" "s \<noteq> []"
  shows "at_boundary s 0" "at_boundary s (length s)"
  using assms by (auto simp: at_boundary_def word_at_def list_all_length)

lemma long_token_matches:
  assumes "list_all alnum s" "32 \<le> length s"
  shows "match_at long_token_re s 0 = Some (length s, [])"
proof -
  have w: "list_all is_word s" "s \<noteq> []" using assms alnum_word by auto
  obtain rest where star: "rmatch (Star (Sat alnum)) s (32, []) = (length s, []) # rest"
    using star_sat [OF assms(1), of 32] assms(2) by auto
  have "rmatch long_token_re s (0, []) =
      concat (map (rmatch (Seq (Star (Sat alnum)) WordBoundary) s) (rmatch (times 32 (Sat alnum)) s (0, [])))"
    using boundary_ends [OF w] by (simp add: long_token_re_def)
  also have "rmatch (times 32 (Sat alnum)) s (0, []) = [(32, [])]"
    using rmatch_times_sat [OF assms(1), of 32 0] assms(2) by simp
  finally have "rmatch long_token_re s (0, []) = concat (map (rmatch WordBoundary s) ((length s, []) # rest))"
    by (simp add: star del: rmatch.simps(5))
  then show ?thesis using boundary_ends [OF w] by (simp add: match_at_def)
qed

lemma redact_long_token:
  assumes "list_all alnum s" "34 < length s"
  shows "redact s True = REDACTED"
proof -
  note w = alnum_word [OF assms(1)]
  have alnum: "alnum c" if "c \<in> set s" for c using assms(1) that by (simp add: list_all_iff)
  have "rsub secret_re x s = s" "rsub bearer_re x s = s" "rsub pem_re x s = s" for x
    using needed_characters [THEN rsub_needs, of s x] alnum alnum_not by blast+
  moreover have "rsub ssn_re x s = s" "rsub payment_card_re x s = s" "rsub iban_re x s = s" "rsub phone_re x s = s" for x
    using bounded_patterns word_patterns rsub_long_word [OF w] assms(2) by simp_all
  moreover have "rsub long_token_re REDACTED s = REDACTED"
    using long_token_matches [OF assms(1)] assms(2)
    by (cases "s = []")
      (simp_all add: rsub_def rsub_from.simps [of long_token_re REDACTED s 0] rsub_from.simps [of long_token_re REDACTED s "length s"])
  ultimately show ?thesis using assms(2) by (auto simp: redact_def Let_def)
qed

lemma dget_sorted: "dict_ok d \<Longrightarrow> dget (sort_key fst d) k = dget d k"
proof -
  assume d: "dict_ok d"
  then have "dict_ok (sort_key fst d)" unfolding dict_ok_def by (simp flip: set_map add: distinct_map)
  then have "dget (sort_key fst d) k = Some v \<longleftrightarrow> dget d k = Some v" for v
    using dict_ok_mem [OF d] dict_ok_mem [of "sort_key fst d"] by (metis set_sort)
  then show ?thesis by (metis option.exhaust)
qed

lemma dget_redact: "dget (redact_dict extra pii d) k =
    (if sensitive_key extra k then map_option (\<lambda>_. JStr REDACTED) (dget d k) else map_option (redact_value extra pii) (dget d k))"
  unfolding redact_dict_def by (induction d) auto

text \<open>The audit log does not keep the content hash it is meant to keep: a SHA-256 digest in hex looks like a
  long token, so every entry's \<open>message_hash\<close> is redacted.\<close>
theorem audit_hash_redacted:
  assumes "list_all alnum hash" "length hash = 64"
  shows "dget (last (audit_record now mid hash from act score reasons lg)) ''message_hash'' = Some (JStr REDACTED)"
proof -
  let ?e = "audit_entry now mid hash from act score reasons"
  have ok: "dict_ok (redact_dict [] True ?e)"
    by (simp add: redact_dict_def dict_ok_def audit_entry_def)
  have "\<not> sensitive_key [] ''message_hash''" by code_simp
  moreover have "dget ?e ''message_hash'' = Some (JStr hash)" by (simp add: audit_entry_def)
  ultimately have "dget (redact_dict [] True ?e) ''message_hash'' = Some (JStr (redact hash True))"
    by (simp add: dget_redact)
  then show ?thesis
    using redact_long_token [OF assms(1)] assms(2) by (simp add: audit_record_def audit_line_def dget_sorted [OF ok])
qed

theorem audit_hash_redacted_witness:
  "dget (last (audit_record 0 ''m1'' (replicate 64 (CHR ''a'')) ''a@b.io'' ''forward'' 0 [] [])) ''message_hash'' = Some (JStr REDACTED)"
proof (rule audit_hash_redacted)
  have "alnum (CHR ''a'')" by code_simp
  then show "list_all alnum (replicate 64 (CHR ''a''))" by (simp add: list_all_iff)
qed simp

subsection \<open>Secrets by key\<close>

text \<open>No value under a sensitive key survives, at any depth the redaction reaches.\<close>

fun hides :: "string list \<Rightarrow> json \<Rightarrow> bool" where
  "hides extra (JDict d) = (\<forall>(k, v) \<in> set d. if sensitive_key extra k then v = JStr REDACTED else hides extra v)"
| "hides extra (JList xs) = (\<forall>x \<in> set xs. case x of JList ys \<Rightarrow> True | _ \<Rightarrow> hides extra x)"
| "hides extra j = True"

lemma redact_value_hides: "hides extra (redact_value extra pii j)"
proof (induction extra pii j rule: redact_value.induct)
  case (3 extra pii xs)
  then show ?case by (fastforce split: json.split json.split_asm)
qed auto

end
