(* ===== verification/Gateway.thy ===== *)
theory Gateway
  imports RateLimit Decide AuthPipeline Delivery AuditLog
begin

text \<open>
  \<open>process_message\<close> of \<open>webhook_receiver/app.py\<close>: one message through the bounce check, the duplicate check, the
  stages, \<open>decide\<close>, \<open>deliver\<close> and the audit log. The process-wide objects of \<open>app.py\<close> that a message changes are the
  state, those it only reads are the site. The content and attachment stages are functions of what they are called
  with and of the key-value store their caches are in; a stage may raise. The clock is read once per message.
\<close>

subsection \<open>The process\<close>

record verdict =
  v_score :: int
  v_reasons :: "string list"
  v_dict :: json

record inbound =
  in_id :: string
  in_raw :: string
  in_ip :: string
  in_from :: string
  in_to :: "string list"
  in_text :: string
  in_html :: string
  in_from_header :: string
  in_reply_to :: string
  in_watchlist :: "string list"
  in_vips :: "string list"
  in_tenant :: string

text \<open>The content stage gets the message with the list of protected names it is to use.\<close>

record 'w site =
  dedupe_ttl :: int
  site_warn :: int
  site_quarantine :: int
  site_vips :: "string list"
  site_tag_only :: bool
  site_configs :: config_store
  site_vip_engine :: vip_engine
  site_shadow :: shadow_engine
  raw_key :: string
  site_fernet :: fernet
  site_sha256 :: "string \<Rightarrow> string"
  site_feature :: "string \<Rightarrow> 64 word"
  site_cluster :: "64 word \<Rightarrow> rat \<Rightarrow> string"
  site_auth :: auth_world
  content_stage :: "rat \<Rightarrow> inbound \<Rightarrow> store \<Rightarrow> verdict result \<times> store"
  attachment_stage :: "rat \<Rightarrow> string \<Rightarrow> verdict result"
  site_out :: "'w outside"

record 'w gateway =
  gw_kv :: store
  gw_raw :: "(string, string) dict"
  gw_baseline :: baseline_store
  gw_campaigns :: campaign_engine
  gw_feedback :: feedback_loop
  gw_scene :: "'w scene"
  gw_audit :: audit_log

text \<open>What a message draws from outside: the time, two nonces for encryption and the quarantine id.\<close>

record tick =
  tk_now :: rat
  tk_raw_nonce :: string
  tk_q_nonce :: string
  tk_qid :: string

subsection \<open>The response\<close>

datatype response =
    SkippedBounce string string
  | SkippedDuplicate string
  | Processed string string routing_decision delivery_result auth_verdict verdict verdict

fun response_as_dict :: "response \<Rightarrow> (string, json) dict" where
  "response_as_dict (SkippedBounce mid why) =
     [(''message_id'', JStr mid), (''action'', JStr ''skipped_bounce''), (''detail'', JStr why)]"
| "response_as_dict (SkippedDuplicate mid) =
     [(''message_id'', JStr mid), (''duplicate'', JBool True), (''action'', JStr ''skipped_duplicate'')]"
| "response_as_dict (Processed mid hash d r au co att) =
     [(''message_id'', JStr mid), (''message_hash'', JStr hash), (''action'', JStr (action_value (decision_action d))),
      (''decision'', decision_as_dict d), (''delivery'', delivery_as_dict r), (''auth'', verdict_as_dict au),
      (''content'', v_dict co), (''attachments'', v_dict att)]"

subsection \<open>process\_message\<close>

definition message_hash :: "'w site \<Rightarrow> string \<Rightarrow> string" where
  "message_hash s raw = hex_of (site_sha256 s raw)"

definition dedupe_key :: "'w site \<Rightarrow> string \<Rightarrow> string" where
  "dedupe_key s raw = ''dedupe:'' @ message_hash s raw"

definition raw_file :: "'w site \<Rightarrow> string \<Rightarrow> string" where
  "raw_file s mid = mid @ (if cipher_enabled (raw_key s) then ''.eml.enc'' else ''.eml'')"

definition store_raw_message :: "'w site \<Rightarrow> string \<Rightarrow> string \<Rightarrow> string \<Rightarrow> 'w gateway \<Rightarrow> 'w gateway" where
  "store_raw_message s nonce mid raw g =
     g\<lparr>gw_raw := dset (gw_raw g) (raw_file s mid) (cipher_encrypt (site_fernet s) (raw_key s) nonce raw)\<rparr>"

definition vip_names :: "'w site \<Rightarrow> inbound \<Rightarrow> string list" where
  "vip_names s m = (if in_vips m = [] then site_vips s else in_vips m)"

definition campaign_check :: "'w site \<Rightarrow> rat \<Rightarrow> inbound \<Rightarrow> 'w gateway \<Rightarrow> campaign_result option \<times> 'w gateway" where
  "campaign_check s now m g =
     (if strip (in_text m) \<noteq> [] \<or> strip (in_html m) \<noteq> [] then
        let (c, eng) = evaluate_and_register (site_feature s) (site_cluster s) (gw_campaigns g) now
              (if in_text m \<noteq> [] then in_text m else in_html m) (in_from_header m) (email_domain (in_from m))
        in (Some c, g\<lparr>gw_campaigns := eng\<rparr>)
      else (None, g))"

text \<open>The decision, from the three verdicts.\<close>

definition decide_message ::
    "'w site \<Rightarrow> inbound \<Rightarrow> auth_verdict \<Rightarrow> verdict \<Rightarrow> verdict \<Rightarrow> campaign_result option \<Rightarrow> feedback_loop \<Rightarrow>
     routing_decision result" where
  "decide_message s m au co att cmp fl =
     (let cfg = get_config (site_warn s) (site_quarantine s) (site_configs s) (Some (in_tenant m));
          vip = vip_evaluate (site_vip_engine s) (in_from_header m) (vip_names s m) (v_reasons co)
      in decide
           [\<lparr>stage = ''auth'', score_delta = av_score au, stage_reasons = av_reasons au\<rparr>,
            \<lparr>stage = ''content'', score_delta = v_score co, stage_reasons = v_reasons co\<rparr>,
            \<lparr>stage = ''attachments'', score_delta = v_score att, stage_reasons = v_reasons att\<rparr>]
           (site_warn s) (site_quarantine s) None (Some cfg) (Some vip) cmp
           (get_domain_adjustment fl (email_domain (in_from m)))
           (if shadow_mode_enabled cfg then Some (site_shadow s) else None) (in_tenant m))"

definition decided_mail :: "inbound \<Rightarrow> routing_decision \<Rightarrow> mail" where
  "decided_mail m d = \<lparr>m_raw = in_raw m, m_id = in_id m, m_from = in_from m, m_to = in_to m,
     m_score = total_score d, m_action = action_value (decision_action d), m_reasons = all_reasons d\<rparr>"

definition audit_decision ::
    "'w site \<Rightarrow> rat \<Rightarrow> inbound \<Rightarrow> routing_decision \<Rightarrow> delivery_result \<Rightarrow> audit_log \<Rightarrow> audit_log" where
  "audit_decision s now m d r =
     audit_record now (in_id m) (message_hash s (in_raw m)) (in_from m) (action_value (decision_action d)) (total_score d)
       (all_reasons d @ [''delivery_outcome:'' @ outcome_value (dr_outcome r)])"

text \<open>From the decision on.\<close>

definition act_on ::
    "'w site \<Rightarrow> tick \<Rightarrow> inbound \<Rightarrow> auth_verdict \<Rightarrow> verdict \<Rightarrow> verdict \<Rightarrow> routing_decision \<Rightarrow> 'w gateway \<Rightarrow>
     response result \<times> 'w gateway" where
  "act_on s k m au co att d g =
     (case deliver (site_fernet s) (tk_q_nonce k) (tk_qid k) (tk_now k) (site_out s) (decision_action d)
             (decided_mail m d) (site_tag_only s) None (gw_scene g) of
        (Inl e, sc) \<Rightarrow> (Inl e, g\<lparr>gw_scene := sc\<rparr>)
      | (Inr r, sc) \<Rightarrow>
          (Inr (Processed (in_id m) (message_hash s (in_raw m)) d r au co att),
           g\<lparr>gw_scene := sc, gw_audit := audit_decision s (tk_now k) m d r (gw_audit g)\<rparr>))"

text \<open>From the raw file on: the stages and what follows.\<close>

definition run_stages ::
    "'w site \<Rightarrow> tick \<Rightarrow> inbound \<Rightarrow> 'w gateway \<Rightarrow> response result \<times> 'w gateway" where
  "run_stages s k m g =
     (let (au, bl) = run_auth_checks (site_auth s) (gw_baseline g) (in_raw m) (in_ip m) (in_from m);
          g1 = g\<lparr>gw_baseline := bl\<rparr>;
          (co, kv) = content_stage s (tk_now k) (m\<lparr>in_vips := vip_names s m\<rparr>) (gw_kv g1);
          g2 = g1\<lparr>gw_kv := kv\<rparr>
      in case co of Inl e \<Rightarrow> (Inl e, g2) | Inr co \<Rightarrow>
         case attachment_stage s (tk_now k) (in_raw m) of Inl e \<Rightarrow> (Inl e, g2) | Inr att \<Rightarrow>
         let (cmp, g3) = campaign_check s (tk_now k) m g2 in
         case decide_message s m au co att cmp (gw_feedback g3) of
           Inl e \<Rightarrow> (Inl e, g3)
         | Inr d \<Rightarrow> act_on s k m au co att d g3)"

definition process_message ::
    "'w site \<Rightarrow> tick \<Rightarrow> inbound \<Rightarrow> 'w gateway \<Rightarrow> response result \<times> 'w gateway" where
  "process_message s k m g =
     (case is_bounce_or_ndr (in_from m) (in_from_header m) of
        (True, why) \<Rightarrow> (Inr (SkippedBounce (in_id m) why), g)
      | (False, _) \<Rightarrow>
          let (is_new, kv) = mem_set_if_not_exists (gw_kv g) (tk_now k) (dedupe_key s (in_raw m)) (in_id m) (Some (dedupe_ttl s));
              g1 = g\<lparr>gw_kv := kv\<rparr>
          in if \<not> is_new then (Inr (SkippedDuplicate (in_id m)), g1)
             else run_stages s k m (store_raw_message s (tk_raw_nonce k) (in_id m) (in_raw m) g1))"

subsection \<open>Runs\<close>

text \<open>A sequence of messages: each with the process before it, the response and the process after it.\<close>

fun gateway_trace ::
    "'w site \<Rightarrow> (tick \<times> inbound) list \<Rightarrow> 'w gateway \<Rightarrow> (inbound \<times> 'w gateway \<times> response result \<times> 'w gateway) list" where
  "gateway_trace s [] g = []"
| "gateway_trace s ((k, m) # ms) g =
     (let (r, g') = process_message s k m g in (m, g, r, g') # gateway_trace s ms g')"

fun skipped :: "response result \<Rightarrow> bool" where
  "skipped (Inr (SkippedBounce _ _)) = True"
| "skipped (Inr (SkippedDuplicate _)) = True"
| "skipped _ = False"

text \<open>What the duplicate check relies on: the caches of the content stage use keys of their own.\<close>

definition keeps_dedupe :: "'w site \<Rightarrow> bool" where
  "keeps_dedupe s \<longleftrightarrow> (\<forall>now m kv t k. now \<le> t \<longrightarrow> starts_with ''dedupe:'' k \<longrightarrow>
     mem_entry (snd (content_stage s now m kv)) t k = mem_entry kv t k)"

lemma keeps_dedupeD:
  "keeps_dedupe s \<Longrightarrow> now \<le> t \<Longrightarrow> mem_entry (snd (content_stage s now m kv)) t (dedupe_key s raw) = mem_entry kv t (dedupe_key s raw)"
  using starts_with_append [of "''dedupe:''" "message_hash s raw"] by (simp add: keeps_dedupe_def dedupe_key_def del: append.simps)

lemma act_on_kv [simp]: "gw_kv (snd (act_on s k m au co att d g)) = gw_kv g"
  by (simp add: act_on_def split: prod.split sum.split)

lemma campaign_check_kv [simp]: "gw_kv (snd (campaign_check s now m g)) = gw_kv g"
  by (simp add: campaign_check_def Let_def case_prod_beta)

lemma run_stages_kv: "gw_kv (snd (run_stages s k m g)) =
    snd (content_stage s (tk_now k) (m\<lparr>in_vips := vip_names s m\<rparr>) (gw_kv g))"
proof -
  obtain au bl where au: "run_auth_checks (site_auth s) (gw_baseline g) (in_raw m) (in_ip m) (in_from m) = (au, bl)"
    by (cases "run_auth_checks (site_auth s) (gw_baseline g) (in_raw m) (in_ip m) (in_from m)")
  obtain co kv where co: "content_stage s (tk_now k) (m\<lparr>in_vips := vip_names s m\<rparr>) (gw_kv g) = (co, kv)"
    by (cases "content_stage s (tk_now k) (m\<lparr>in_vips := vip_names s m\<rparr>) (gw_kv g)")
  obtain cmp g3 where g3: "campaign_check s (tk_now k) m (g\<lparr>gw_baseline := bl, gw_kv := kv\<rparr>) = (cmp, g3)"
    by (cases "campaign_check s (tk_now k) m (g\<lparr>gw_baseline := bl, gw_kv := kv\<rparr>)")
  have "gw_kv g3 = kv" using campaign_check_kv [of s "tk_now k" m "g\<lparr>gw_baseline := bl, gw_kv := kv\<rparr>"] by (simp add: g3)
  then show ?thesis by (simp add: run_stages_def Let_def au co g3 split: sum.split)
qed

lemma store_raw_kv [simp]: "gw_kv (store_raw_message s n mid raw g) = gw_kv g"
  by (simp add: store_raw_message_def)

lemma process_bounce:
  "fst (is_bounce_or_ndr (in_from m) (in_from_header m)) \<Longrightarrow>
   process_message s k m g = (Inr (SkippedBounce (in_id m) (snd (is_bounce_or_ndr (in_from m) (in_from_header m)))), g)"
  by (cases "is_bounce_or_ndr (in_from m) (in_from_header m)") (simp add: process_message_def)

lemma process_duplicate:
  assumes "\<not> fst (is_bounce_or_ndr (in_from m) (in_from_header m))"
    and "mem_entry (gw_kv g) (tk_now k) (dedupe_key s (in_raw m)) \<noteq> None"
  shows "process_message s k m g = (Inr (SkippedDuplicate (in_id m)),
     g\<lparr>gw_kv := snd (is_live (gw_kv g) (tk_now k) (dedupe_key s (in_raw m)))\<rparr>)"
  using assms by (cases "is_bounce_or_ndr (in_from m) (in_from_header m)") (auto simp: process_message_def mem_setnx_eq)

lemma process_new:
  assumes "\<not> fst (is_bounce_or_ndr (in_from m) (in_from_header m))"
    and "mem_entry (gw_kv g) (tk_now k) (dedupe_key s (in_raw m)) = None"
  obtains kv where "process_message s k m g =
      run_stages s k m (store_raw_message s (tk_raw_nonce k) (in_id m) (in_raw m) (g\<lparr>gw_kv := kv\<rparr>))"
    "kv = snd (mem_set_if_not_exists (gw_kv g) (tk_now k) (dedupe_key s (in_raw m)) (in_id m) (Some (dedupe_ttl s)))"
  using assms by (cases "is_bounce_or_ndr (in_from m) (in_from_header m)") (auto simp: process_message_def mem_setnx_eq)

text \<open>A claimed hash stays claimed, whatever is processed meanwhile.\<close>

lemma claim_kept:
  assumes "keeps_dedupe s" "mem_entry (gw_kv g) (tk_now k) (dedupe_key s raw) = Some e" "tk_now k \<le> t"
    and "fresh t e = Some e"
  shows "mem_entry (gw_kv (snd (process_message s k m g))) t (dedupe_key s raw) = Some e"
proof -
  have e: "mem_entry (gw_kv g) t (dedupe_key s raw) = Some e"
    using assms mem_entry_later [of "tk_now k" t "gw_kv g" "dedupe_key s raw"] by simp
  show ?thesis
  proof (cases "fst (is_bounce_or_ndr (in_from m) (in_from_header m))")
    case True
    then show ?thesis using e by (simp add: process_bounce)
  next
    case False
    show ?thesis
    proof (cases "mem_entry (gw_kv g) (tk_now k) (dedupe_key s (in_raw m))")
      case (Some x)
      then show ?thesis using e False assms(3) by (simp add: process_duplicate is_live_entry)
    next
      case None
      from process_new [OF False None] obtain kv where kv: "process_message s k m g =
          run_stages s k m (store_raw_message s (tk_raw_nonce k) (in_id m) (in_raw m) (g\<lparr>gw_kv := kv\<rparr>))"
        "kv = snd (mem_set_if_not_exists (gw_kv g) (tk_now k) (dedupe_key s (in_raw m)) (in_id m) (Some (dedupe_ttl s)))" .
      then show ?thesis using e None assms(2)
        by (auto simp: run_stages_kv keeps_dedupeD [OF assms(1,3)] mem.setnx_entry [OF assms(3)])
    qed
  qed
qed

lemma claim_made:
  assumes "keeps_dedupe s" "\<not> fst (is_bounce_or_ndr (in_from m) (in_from_header m))" "tk_now k \<le> t"
    and "mem_entry (gw_kv g) (tk_now k) (dedupe_key s (in_raw m)) = None" "t < tk_now k + of_int (dedupe_ttl s)"
  shows "mem_entry (gw_kv (snd (process_message s k m g))) t (dedupe_key s (in_raw m)) =
    Some (in_id m, Some (tk_now k + of_int (dedupe_ttl s)))"
proof -
  from process_new [OF assms(2,4)] obtain kv where kv: "process_message s k m g =
      run_stages s k m (store_raw_message s (tk_raw_nonce k) (in_id m) (in_raw m) (g\<lparr>gw_kv := kv\<rparr>))"
    "kv = snd (mem_set_if_not_exists (gw_kv g) (tk_now k) (dedupe_key s (in_raw m)) (in_id m) (Some (dedupe_ttl s)))" .
  have "(0::rat) < of_int (dedupe_ttl s)" using assms(3,5) by linarith
  then have "0 < dedupe_ttl s" by simp
  then show ?thesis using assms(4,5)
    by (simp add: kv run_stages_kv keeps_dedupeD [OF assms(1,3)] mem.setnx_entry [OF assms(3)] deadline_def)
qed

lemma claimed_skipped:
  assumes "mem_entry (gw_kv g) (tk_now k) (dedupe_key s (in_raw m)) \<noteq> None"
  shows "skipped (fst (process_message s k m g)) \<and>
    snd (process_message s k m g) = g\<lparr>gw_kv := gw_kv (snd (process_message s k m g))\<rparr>"
  using assms process_bounce [of m s k g] process_duplicate [of m g k s]
  by (cases "fst (is_bounce_or_ndr (in_from m) (in_from_header m))") auto

lemma claimed_trace:
  assumes "keeps_dedupe s" "mem_entry (gw_kv g) t0 (dedupe_key s raw) = Some (v, Some d)"
    and "sorted (t0 # map (tk_now \<circ> fst) ms)" "\<forall>(k, m) \<in> set ms. tk_now k < d"
  shows "\<forall>(m, g, r, g') \<in> set (gateway_trace s ms g). in_raw m = raw \<longrightarrow> skipped r \<and> g' = g\<lparr>gw_kv := gw_kv g'\<rparr>"
  using assms(2-)
proof (induction ms arbitrary: g t0)
  case (Cons x ms)
  obtain k m where x: "x = (k, m)" by (cases x)
  obtain r g' where p: "process_message s k m g = (r, g')" by (cases "process_message s k m g")
  have e: "mem_entry (gw_kv g) (tk_now k) (dedupe_key s raw) = Some (v, Some d)"
    using Cons.prems x mem_entry_later [of t0 "tk_now k" "gw_kv g" "dedupe_key s raw"] by simp
  then have "mem_entry (gw_kv g') (tk_now k) (dedupe_key s raw) = Some (v, Some d)"
    using claim_kept [OF assms(1) e, of "tk_now k" m] Cons.prems(3) x p by simp
  then have "\<forall>(m, g, r, g') \<in> set (gateway_trace s ms g'). in_raw m = raw \<longrightarrow> skipped r \<and> g' = g\<lparr>gw_kv := gw_kv g'\<rparr>"
    using Cons.IH [of g' "tk_now k"] Cons.prems x by simp
  moreover have "in_raw m = raw \<Longrightarrow> skipped r \<and> g' = g\<lparr>gw_kv := gw_kv g'\<rparr>"
    using claimed_skipped [of g k s m] e p by auto
  ultimately show ?case using x p by simp
qed simp

text \<open>A message is attempted once. Once a message that is no bounce has been seen, every message with the same bytes
  within the time to live is skipped without effect: for other recipients, and also when the attempt failed.\<close>
theorem one_attempt_per_message:
  assumes "keeps_dedupe s" and "\<not> fst (is_bounce_or_ndr (in_from m) (in_from_header m))"
    and "mem_entry (gw_kv g) (tk_now k) (dedupe_key s (in_raw m)) = None" and "0 < dedupe_ttl s"
    and "sorted (tk_now k # map (tk_now \<circ> fst) ms)"
    and "\<forall>(k', m') \<in> set ms. tk_now k' < tk_now k + of_int (dedupe_ttl s)"
  shows "\<forall>(m', g1, r, g2) \<in> set (gateway_trace s ms (snd (process_message s k m g))).
     in_raw m' = in_raw m \<longrightarrow> skipped r \<and> g2 = g1\<lparr>gw_kv := gw_kv g2\<rparr>"
proof (rule claimed_trace [OF assms(1) claim_made assms(5,6)])
  show "tk_now k < tk_now k + of_int (dedupe_ttl s)" using assms(4) by simp
qed (use assms in auto)

lemma act_on_Processed:
  assumes "act_on s k m au co att d g = (Inr (Processed mid h d' r au' co' att'), g')"
  obtains sc where "deliver (site_fernet s) (tk_q_nonce k) (tk_qid k) (tk_now k) (site_out s) (decision_action d')
      (decided_mail m d') (site_tag_only s) None (gw_scene g) = (Inr r, sc)"
    "g' = g\<lparr>gw_scene := sc, gw_audit := audit_decision s (tk_now k) m d' r (gw_audit g)\<rparr>"
    "d' = d" "mid = in_id m" "h = message_hash s (in_raw m)" "au' = au" "co' = co" "att' = att"
proof -
  obtain x sc where x: "deliver (site_fernet s) (tk_q_nonce k) (tk_qid k) (tk_now k) (site_out s) (decision_action d)
      (decided_mail m d) (site_tag_only s) None (gw_scene g) = (x, sc)"
    by (cases "deliver (site_fernet s) (tk_q_nonce k) (tk_qid k) (tk_now k) (site_out s) (decision_action d)
      (decided_mail m d) (site_tag_only s) None (gw_scene g)")
  from assms have "x = Inr r" "d' = d" "mid = in_id m" "h = message_hash s (in_raw m)" "au' = au" "co' = co" "att' = att"
    "g' = g\<lparr>gw_scene := sc, gw_audit := audit_decision s (tk_now k) m d r (gw_audit g)\<rparr>"
    by (cases x; force simp: act_on_def x)+
  with x show ?thesis by (intro that) simp_all
qed

lemma campaign_check_frame: "gw_scene (snd (campaign_check s now m g)) = gw_scene g \<and>
    gw_audit (snd (campaign_check s now m g)) = gw_audit g \<and> gw_raw (snd (campaign_check s now m g)) = gw_raw g \<and>
    gw_feedback (snd (campaign_check s now m g)) = gw_feedback g"
  by (cases "strip (in_text m) \<noteq> [] \<or> strip (in_html m) \<noteq> []") (simp_all add: campaign_check_def Let_def case_prod_beta)

lemma run_stages_crash:
  assumes "\<And>kv. fst (content_stage s (tk_now k) (m\<lparr>in_vips := vip_names s m\<rparr>) kv) = Inl e"
  shows "fst (run_stages s k m g) = Inl e \<and> gw_scene (snd (run_stages s k m g)) = gw_scene g"
proof -
  obtain kv where "content_stage s (tk_now k) (m\<lparr>in_vips := vip_names s m\<rparr>) (gw_kv g) = (Inl e, kv)"
    using assms [of "gw_kv g"] by (metis prod.collapse)
  then show ?thesis by (simp add: run_stages_def Let_def case_prod_beta)
qed

lemma run_stages_Processed:
  assumes "run_stages s k m g = (Inr (Processed mid h d r au co att), g')"
  obtains cmp sc where "decide_message s m au co att cmp (gw_feedback g) = Inr d"
    "attachment_stage s (tk_now k) (in_raw m) = Inr att"
    "deliver (site_fernet s) (tk_q_nonce k) (tk_qid k) (tk_now k) (site_out s) (decision_action d)
       (decided_mail m d) (site_tag_only s) None (gw_scene g) = (Inr r, sc)"
    "gw_scene g' = sc" "gw_audit g' = audit_decision s (tk_now k) m d r (gw_audit g)" "gw_raw g' = gw_raw g"
proof -
  obtain au0 bl where au: "run_auth_checks (site_auth s) (gw_baseline g) (in_raw m) (in_ip m) (in_from m) = (au0, bl)"
    by (cases "run_auth_checks (site_auth s) (gw_baseline g) (in_raw m) (in_ip m) (in_from m)")
  obtain co0 kv where co: "content_stage s (tk_now k) (m\<lparr>in_vips := vip_names s m\<rparr>) (gw_kv g) = (co0, kv)"
    by (cases "content_stage s (tk_now k) (m\<lparr>in_vips := vip_names s m\<rparr>) (gw_kv g)")
  define g2 where "g2 = g\<lparr>gw_baseline := bl, gw_kv := kv\<rparr>"
  obtain cmp g3 where g3: "campaign_check s (tk_now k) m g2 = (cmp, g3)"
    by (cases "campaign_check s (tk_now k) m g2")
  have f: "gw_scene g3 = gw_scene g" "gw_audit g3 = gw_audit g" "gw_raw g3 = gw_raw g" "gw_feedback g3 = gw_feedback g"
    using campaign_check_frame [of s "tk_now k" m g2, unfolded g3 snd_conv] by (simp_all add: g2_def)
  from assms obtain co1 att1 d1 where c: "co0 = Inr co1" "attachment_stage s (tk_now k) (in_raw m) = Inr att1"
    "decide_message s m au0 co1 att1 cmp (gw_feedback g3) = Inr d1"
    and act: "act_on s k m au0 co1 att1 d1 g3 = (Inr (Processed mid h d r au co att), g')"
    by (auto simp: run_stages_def Let_def au co g3 g2_def [symmetric] split: sum.splits)
  from act obtain sc where "deliver (site_fernet s) (tk_q_nonce k) (tk_qid k) (tk_now k) (site_out s) (decision_action d)
      (decided_mail m d) (site_tag_only s) None (gw_scene g3) = (Inr r, sc)"
    "g' = g3\<lparr>gw_scene := sc, gw_audit := audit_decision s (tk_now k) m d r (gw_audit g3)\<rparr>"
    "d = d1" "au = au0" "co = co1" "att = att1"
    by (rule act_on_Processed) auto
  with c f show ?thesis by (intro that) auto
qed

lemma decided_mail_fields: "m_raw (decided_mail m d) = in_raw m" "m_to (decided_mail m d) = in_to m"
  by (simp_all add: decided_mail_def)

lemma process_Processed:
  assumes "process_message s k m g = (Inr (Processed mid h d r au co att), g')"
  obtains g1 where "run_stages s k m (store_raw_message s (tk_raw_nonce k) (in_id m) (in_raw m) g1) =
      (Inr (Processed mid h d r au co att), g')" "gw_scene g1 = gw_scene g" "gw_audit g1 = gw_audit g"
    "gw_feedback g1 = gw_feedback g"
proof (cases "fst (is_bounce_or_ndr (in_from m) (in_from_header m))")
  case True
  then show ?thesis using assms by (simp add: process_bounce)
next
  case False
  show ?thesis
  proof (cases "mem_entry (gw_kv g) (tk_now k) (dedupe_key s (in_raw m))")
    case None
    from process_new [OF False None] obtain kv where "process_message s k m g =
        run_stages s k m (store_raw_message s (tk_raw_nonce k) (in_id m) (in_raw m) (g\<lparr>gw_kv := kv\<rparr>))" by metis
    with assms show ?thesis by (intro that [of "g\<lparr>gw_kv := kv\<rparr>"]) simp_all
  next
    case (Some e)
    then show ?thesis using assms False by (simp add: process_duplicate)
  qed
qed

text \<open>A relay that keeps a log, or none at all: \<open>relay=None\<close>, the dry run.\<close>

definition relays :: "(nat \<Rightarrow> relay_error + unit) \<Rightarrow> (nat \<times> (string \<times> string list) list) outside \<Rightarrow> bool" where
  "relays script out \<longleftrightarrow> o_send out = None \<or> o_send out = Some (logging_send script)"

definition relay_up :: "(nat \<Rightarrow> relay_error + unit) \<Rightarrow> (nat \<times> (string \<times> string list) list) outside \<Rightarrow>
    (nat \<times> (string \<times> string list) list) scene \<Rightarrow> bool" where
  "relay_up script out sc \<longleftrightarrow> o_send out \<noteq> None \<and> is_ok (script (fst (sc_world sc)))"

lemma deliver_dry_run:
  assumes "o_send out = None" "\<not> held_back out act m tag_only"
    and "deliver f nonce qid now out act m tag_only None sc = (Inr d, sc')"
  shows "dr_outcome d \<in> {RELAYED, RELAYED_MODIFIED} \<and> sc' = sc"
  using assms
  by (cases act) (auto simp: deliver_def held_back_def result_of_def mirror_to_soc_def Let_def split: sum.splits if_splits)

lemma send_or_fail_up:
  assumes "send_or_fail (logging_send script) body m out detail sc = (Inr d, sc')" "out \<noteq> RELAY_FAILED"
  shows "dr_outcome d = RELAY_FAILED \<longleftrightarrow> \<not> is_ok (script (fst (sc_world sc)))"
  using assms by (auto simp: send_or_fail_def logging_send_def result_of_def split: sum.splits relay_error.splits)

lemma deliver_accounted:
  assumes "fernet_ok f" "relays script out"
    and "deliver f nonce qid now out act m tag_only None sc = (Inr d, sc')"
  shows "if held_back out act m tag_only
    then dr_outcome d = QUARANTINED \<and> delivered_log sc' = delivered_log sc \<and>
      get_raw_message f (sc_store sc') qid = Inr (Some (m_raw m)) \<and>
      (\<exists>q. get_record (sc_store sc') qid = Inr (Some q) \<and> q_status q = ''pending'')
    else sc_store sc' = sc_store sc \<and>
      dr_outcome d \<in> {RELAYED, RELAYED_MODIFIED, RELAY_FAILED} \<and>
      (dr_outcome d = RELAY_FAILED \<longleftrightarrow> o_send out \<noteq> None \<and> \<not> relay_up script out sc) \<and>
      delivered_log sc' = delivered_log sc @
        (if relay_up script out sc then [(outgoing_body out act m tag_only, m_to m)] else [])"
proof (cases "held_back out act m tag_only")
  case True
  with deliver_held obtain rs detail where
    "hold f nonce qid now out (m\<lparr>m_action := action_value act\<rparr>) rs detail sc = (Inr d, sc')"
    using assms(3) by metis
  from hold_stores [OF assms(1) this] True show ?thesis by (simp add: delivered_log_def new_record_def)
next
  case False
  show ?thesis
  proof (cases "o_send out")
    case None
    from deliver_dry_run [OF None False assms(3)] show ?thesis using False None by (auto simp: relay_up_def)
  next
    case (Some send)
    with assms(2) have send: "o_send out = Some (logging_send script)" by (auto simp: relays_def)
    let ?m = "m\<lparr>m_action := action_value act\<rparr>"
    from deliver_sent [OF send False delivered_taggable [OF assms(3)]] assms(3) obtain outc detail where
      o: "outc \<in> {RELAYED, RELAYED_MODIFIED}" and
      s: "send_or_fail (logging_send script) (outgoing_body out act m tag_only) ?m outc detail
        (if act = FORWARD then mirror_to_soc out None ?m sc else sc) = (Inr d, sc')"
      by metis
    have "mirror_to_soc out None ?m sc = sc" by (simp add: mirror_to_soc_def)
    with s have s: "send_or_fail (logging_send script) (outgoing_body out act m tag_only) ?m outc detail sc = (Inr d, sc')"
      by (simp split: if_splits)
    from o have no: "outc \<noteq> RELAY_FAILED" by auto
    from send_or_fail_log [OF s no] send_or_fail_up [OF s no] o False send show ?thesis by (auto simp: relay_up_def)
  qed
qed

text \<open>C26: Every processed message is accounted for. Its bytes are on disk and one audit line has its decision and the
  outcome. A message to be held is pending in the quarantine with its very bytes and relayed to nobody. Any other
  leaves the quarantine unchanged and is relayed, alone, to its recipients if a relay is configured and accepts it.
  If the relay refuses it, the outcome says so and the message is in neither place; without a relay (the dry run) the
  outcome is that of a relayed message, and it is in neither place either.\<close>
theorem processed_message_accounted:
  assumes "fernet_ok (site_fernet s)" and "relays script (site_out s)"
    and "process_message s k m g = (Inr (Processed mid h d r au co att), g')"
  shows "gw_audit g' = audit_decision s (tk_now k) m d r (gw_audit g) \<and>
    map_option (cipher_decrypt (site_fernet s) (raw_key s)) (dget (gw_raw g') (raw_file s (in_id m))) = Some (Some (in_raw m)) \<and>
    (if held_back (site_out s) (decision_action d) (decided_mail m d) (site_tag_only s)
     then dr_outcome r = QUARANTINED \<and> delivered_log (gw_scene g') = delivered_log (gw_scene g) \<and>
       get_raw_message (site_fernet s) (sc_store (gw_scene g')) (tk_qid k) = Inr (Some (in_raw m)) \<and>
       (\<exists>q. get_record (sc_store (gw_scene g')) (tk_qid k) = Inr (Some q) \<and> q_status q = ''pending'')
     else sc_store (gw_scene g') = sc_store (gw_scene g) \<and>
       dr_outcome r \<in> {RELAYED, RELAYED_MODIFIED, RELAY_FAILED} \<and>
       (dr_outcome r = RELAY_FAILED \<longleftrightarrow> o_send (site_out s) \<noteq> None \<and> \<not> relay_up script (site_out s) (gw_scene g)) \<and>
       delivered_log (gw_scene g') = delivered_log (gw_scene g) @
         (if relay_up script (site_out s) (gw_scene g)
          then [(outgoing_body (site_out s) (decision_action d) (decided_mail m d) (site_tag_only s), in_to m)] else []))"
proof -
  from process_Processed [OF assms(3)] obtain g1 where
    run: "run_stages s k m (store_raw_message s (tk_raw_nonce k) (in_id m) (in_raw m) g1) =
      (Inr (Processed mid h d r au co att), g')" and
    g1: "gw_scene g1 = gw_scene g" "gw_audit g1 = gw_audit g" by metis
  have store: "gw_scene (store_raw_message s n mid raw g) = gw_scene g" "gw_audit (store_raw_message s n mid raw g) = gw_audit g"
    "dget (gw_raw (store_raw_message s n mid raw g)) (raw_file s mid) = Some (cipher_encrypt (site_fernet s) (raw_key s) n raw)"
    for n mid raw and g :: "(nat \<times> (string \<times> string list) list) gateway"
    by (simp_all add: store_raw_message_def)
  from run_stages_Processed [OF run, unfolded store g1] obtain sc where
    del: "deliver (site_fernet s) (tk_q_nonce k) (tk_qid k) (tk_now k) (site_out s) (decision_action d)
       (decided_mail m d) (site_tag_only s) None (gw_scene g) = (Inr r, sc)" and
    g': "gw_scene g' = sc" "gw_audit g' = audit_decision s (tk_now k) m d r (gw_audit g)"
    "dget (gw_raw g') (raw_file s (in_id m)) = Some (cipher_encrypt (site_fernet s) (raw_key s) (tk_raw_nonce k) (in_raw m))"
    by (metis store(3))
  show ?thesis
    using g' cipher_roundtrip [OF assms(1)] deliver_accounted [OF assms(1,2) del]
    by (cases "held_back (site_out s) (decision_action d) (decided_mail m d) (site_tag_only s)")
      (auto simp: decided_mail_fields)
qed

subsection \<open>Instances\<close>

text \<open>A site that relays everything it may, with a content stage that raises or that finds nothing.\<close>

definition example_site :: "verdict result \<Rightarrow> (nat \<times> (string \<times> string list) list) site" where
  "example_site co = \<lparr>dedupe_ttl = 100, site_warn = 30, site_quarantine = 70, site_vips = [], site_tag_only = False,
     site_configs = [], site_vip_engine = \<lparr>default_score_boost = 25, default_quarantine_threshold = 50\<rparr>,
     site_shadow = \<lparr>candidate_warn_threshold = 30, candidate_quarantine_threshold = 70, shadow_name = ''s''\<rparr>,
     raw_key = ''k'', site_fernet = toy_fernet, site_sha256 = id, site_feature = (\<lambda>_. 0), site_cluster = (\<lambda>_ _. ''c''),
     site_auth = failed_chain_world, content_stage = (\<lambda>_ _ kv. (co, kv)),
     attachment_stage = (\<lambda>_ _. Inr \<lparr>v_score = 0, v_reasons = [], v_dict = JNull\<rparr>), site_out = example_outside\<rparr>"

definition example_gateway :: "(nat \<times> (string \<times> string list) list) gateway" where
  "example_gateway = \<lparr>gw_kv = empty_store, gw_raw = [], gw_baseline = [],
     gw_campaigns = \<lparr>cc_window_seconds = 3600, similarity_max_distance = 3, campaign_threshold = 5, cc_score_boost = 35, cc_entries = []\<rparr>,
     gw_feedback = feedback_new, gw_scene = example_scene, gw_audit = []\<rparr>"

definition example_inbound :: "string list \<Rightarrow> inbound" where
  "example_inbound rcpts = \<lparr>in_id = ''m1'', in_raw = ''hi'', in_ip = ''1.2.3.4'', in_from = ''a@b.io'', in_to = rcpts, in_text = [],
     in_html = [], in_from_header = [], in_reply_to = [], in_watchlist = [], in_vips = [], in_tenant = ''default''\<rparr>"

definition example_tick :: "rat \<Rightarrow> tick" where
  "example_tick now = \<lparr>tk_now = now, tk_raw_nonce = ''n'', tk_q_nonce = ''n'', tk_qid = ''q1''\<rparr>"

lemma example_not_bounce: "\<not> fst (is_bounce_or_ndr (in_from (example_inbound rcpts)) (in_from_header (example_inbound rcpts)))"
proof -
  have "\<not> fst (is_bounce_or_ndr ''a@b.io'' [])" by code_simp
  then show ?thesis by (simp add: example_inbound_def)
qed

lemma example_new: "mem_entry (gw_kv example_gateway) t k = None"
  by (simp add: example_gateway_def)

text \<open>The provider is down for the first recipient's copy; the second recipient's is skipped.\<close>

theorem one_attempt_per_message_witness:
  "let s = example_site (Inl (OtherError ''provider down''));
       (r, g) = process_message s (example_tick 5) (example_inbound [''c@d.io'']) example_gateway;
       (r', g') = process_message s (example_tick 9) (example_inbound [''e@d.io'']) g
   in r = Inl (OtherError ''provider down'') \<and> skipped r' \<and> delivered_log (gw_scene g') = []"
proof -
  let ?s = "example_site (Inl (OtherError ''provider down''))"
  let ?m = "example_inbound [''c@d.io'']" and ?m' = "example_inbound [''e@d.io'']"
  obtain r g where p: "process_message ?s (example_tick 5) ?m example_gateway = (r, g)"
    by (cases "process_message ?s (example_tick 5) ?m example_gateway")
  obtain r' g' where p': "process_message ?s (example_tick 9) ?m' g = (r', g')"
    by (cases "process_message ?s (example_tick 9) ?m' g")
  have "keeps_dedupe ?s" by (simp add: keeps_dedupe_def example_site_def)
  from one_attempt_per_message [OF this example_not_bounce [of "[''c@d.io'']"] example_new, of "example_tick 5" "[(example_tick 9, ?m')]"]
  have "skipped r' \<and> g' = g\<lparr>gw_kv := gw_kv g'\<rparr>"
    using p p' by (simp add: example_tick_def example_site_def example_inbound_def)
  moreover from process_new [where s = ?s and k = "example_tick 5", OF example_not_bounce [of "[''c@d.io'']"] example_new]
  obtain kv where kv: "process_message ?s (example_tick 5) ?m example_gateway =
      run_stages ?s (example_tick 5) ?m (store_raw_message ?s (tk_raw_nonce (example_tick 5)) (in_id ?m) (in_raw ?m) (example_gateway\<lparr>gw_kv := kv\<rparr>))"
    by blast
  have "fst (content_stage ?s now m kv) = Inl (OtherError ''provider down'')" for now m kv
    by (simp add: example_site_def)
  from run_stages_crash [OF this, of "example_tick 5" ?m] p [unfolded kv]
  have "r = Inl (OtherError ''provider down'') \<and> gw_scene g = example_scene"
    by (auto simp: prod_eq_iff store_raw_message_def example_gateway_def)
  ultimately have "r = Inl (OtherError ''provider down'') \<and> skipped r' \<and> delivered_log (gw_scene g') = []"
    by (auto simp: delivered_log_def example_scene_def) (metis gateway.select_convs(6) gateway.surjective gateway.update_convs(1) scene.select_convs(2) snd_conv)
  then show ?thesis by (simp add: p p')
qed

text \<open>The relaying site on a message with nothing found: it is decided and delivered, and the log has one line.\<close>

abbreviation "clean_site \<equiv> example_site (Inr \<lparr>v_score = 0, v_reasons = [], v_dict = JNull\<rparr>)"

lemma example_deliver_ok: "\<exists>r sc. deliver f nonce qid now example_outside act m tag_only None sc0 = (Inr r, sc)"
proof (cases "held_back example_outside act m tag_only")
  case True
  from deliver_held [OF True] obtain rs detail where "deliver f nonce qid now example_outside act m tag_only None sc0 =
      hold f nonce qid now example_outside (m\<lparr>m_action := action_value act\<rparr>) rs detail sc0" by blast
  then show ?thesis by (simp add: hold_def Let_def case_prod_beta)
next
  case False
  have o: "o_send example_outside = Some (logging_send (\<lambda>n. Inr ()))" by (simp add: example_outside_def)
  have sent: "\<exists>r sc. send_or_fail (logging_send (\<lambda>n. Inr ())) body m outc detail sc1 = (Inr r, sc)" for body m outc detail sc1
    by (simp add: send_or_fail_def logging_send_def)
  have "taggable example_outside act m tag_only" by (simp add: taggable_def example_outside_def)
  from deliver_sent [OF o False this] obtain outc detail where "deliver f nonce qid now example_outside act m tag_only None sc0 =
      send_or_fail (logging_send (\<lambda>n. Inr ())) (outgoing_body example_outside act m tag_only) (m\<lparr>m_action := action_value act\<rparr>) outc detail
        (if act = FORWARD then mirror_to_soc example_outside None (m\<lparr>m_action := action_value act\<rparr>) sc0 else sc0)" by blast
  with sent show ?thesis by (simp only:)
qed

lemma run_stages_delivers:
  assumes "fst (content_stage s (tk_now k) (m\<lparr>in_vips := vip_names s m\<rparr>) (gw_kv g)) = Inr co"
    and "attachment_stage s (tk_now k) (in_raw m) = Inr att"
    and "base_warn (Some (get_config (site_warn s) (site_quarantine s) (site_configs s) (Some (in_tenant m)))) (site_warn s)
      < base_quarantine (Some (get_config (site_warn s) (site_quarantine s) (site_configs s) (Some (in_tenant m)))) (site_quarantine s)"
    and "\<And>act m' sc. \<exists>r sc'. deliver (site_fernet s) (tk_q_nonce k) (tk_qid k) (tk_now k) (site_out s) act m' (site_tag_only s) None sc = (Inr r, sc')"
  shows "\<exists>d r au g'. run_stages s k m g = (Inr (Processed (in_id m) (message_hash s (in_raw m)) d r au co att), g')"
proof -
  obtain au bl where au: "run_auth_checks (site_auth s) (gw_baseline g) (in_raw m) (in_ip m) (in_from m) = (au, bl)"
    by (cases "run_auth_checks (site_auth s) (gw_baseline g) (in_raw m) (in_ip m) (in_from m)")
  obtain kv where kv: "content_stage s (tk_now k) (m\<lparr>in_vips := vip_names s m\<rparr>) (gw_kv g) = (Inr co, kv)"
    using assms(1) by (metis prod.collapse)
  define g2 where "g2 = g\<lparr>gw_baseline := bl, gw_kv := kv\<rparr>"
  obtain cmp g3 where g3: "campaign_check s (tk_now k) m g2 = (cmp, g3)"
    by (cases "campaign_check s (tk_now k) m g2")
  have "is_ok (decide_message s m au co att cmp fl)" for fl
    using assms(3) decide_error_iff by (metis decide_message_def not_less)
  then obtain d where d: "decide_message s m au co att cmp (gw_feedback g3) = Inr d"
    by (auto simp: is_ok_iff)
  obtain r sc where "deliver (site_fernet s) (tk_q_nonce k) (tk_qid k) (tk_now k) (site_out s) (decision_action d)
      (decided_mail m d) (site_tag_only s) None (gw_scene g3) = (Inr r, sc)"
    using assms(4) by blast
  then show ?thesis
    by (simp add: run_stages_def Let_def au kv g3 d assms(2) act_on_def g2_def [symmetric])
qed

theorem processed_message_accounted_witness:
  "length (gw_audit (snd (process_message clean_site (example_tick 5) (example_inbound [''c@d.io'']) example_gateway))) = 1"
proof -
  let ?m = "example_inbound [''c@d.io'']" and ?k = "example_tick 5"
  from process_new [where s = clean_site and k = ?k, OF example_not_bounce [of "[''c@d.io'']"] example_new]
  obtain kv where kv: "process_message clean_site ?k ?m example_gateway =
      run_stages clean_site ?k ?m (store_raw_message clean_site (tk_raw_nonce ?k) (in_id ?m) (in_raw ?m) (example_gateway\<lparr>gw_kv := kv\<rparr>))"
    by blast
  have "\<exists>d r au g'. run_stages clean_site ?k ?m g = (Inr (Processed (in_id ?m) (message_hash clean_site (in_raw ?m)) d r au
      \<lparr>v_score = 0, v_reasons = [], v_dict = JNull\<rparr> \<lparr>v_score = 0, v_reasons = [], v_dict = JNull\<rparr>), g')" for g
    by (rule run_stages_delivers)
      (use example_deliver_ok in \<open>simp_all add: example_site_def base_warn_def base_quarantine_def get_config_def Let_def\<close>)
  then obtain mid h d r au co att g' where p: "process_message clean_site ?k ?m example_gateway = (Inr (Processed mid h d r au co att), g')"
    unfolding kv by blast
  have "fernet_ok (site_fernet clean_site)" "relays (\<lambda>n. Inr ()) (site_out clean_site)"
    by (simp_all add: relays_def example_site_def fernet_ok_def toy_fernet_def example_outside_def)
  moreover have "gw_audit example_gateway = []" by (simp add: example_gateway_def)
  ultimately show ?thesis
    using processed_message_accounted [OF _ _ p] by (simp add: p audit_decision_def audit_record_def)
qed

end
