(* ===== verification/Parsers.thy ===== *)
theory Parsers
  imports Codec Regex
begin

text \<open>
  The inbound payload parsers (\<open>webhook_receiver/parsers\<close>): the form or JSON document of a provider becomes one
  \<open>ParsedInboundMessage\<close>. A form value is a text or an uploaded file, of which only \<open>str()\<close> is used.
  \<open>json.loads\<close> is an argument that answers \<^term>\<open>None\<close> when it raises, and so is \<open>repr\<close> of a float. A payload
  field whose JSON type the code does not test raises the exception the code raises.
\<close>

subsection \<open>Python's view of a JSON value\<close>

text \<open>\<open>repr\<close> of a text: double quotes when it has single quotes and no double ones.\<close>

definition repr_char :: "char \<Rightarrow> char \<Rightarrow> string" where
  "repr_char q c = (let n = (of_char c :: nat) in
     if c = q \<or> c = CHR 0x5C then [CHR 0x5C, c]
     else if n = 10 then [CHR 0x5C, CHR ''n''] else if n = 13 then [CHR 0x5C, CHR ''r''] else if n = 9 then [CHR 0x5C, CHR ''t'']
     else if n < 32 \<or> (127 \<le> n \<and> n \<le> 160) \<or> n = 173 then CHR 0x5C # CHR ''x'' # hex_of [c]
     else [c])"

definition repr_str :: "string \<Rightarrow> string" where
  "repr_str s = (let q = (if CHR 0x27 \<in> set s \<and> CHR 0x22 \<notin> set s then CHR 0x22 else CHR 0x27)
     in q # concat (map (repr_char q) s) @ [q])"

fun py_repr :: "(rat \<Rightarrow> string) \<Rightarrow> json \<Rightarrow> string" where
  "py_repr fr JNull = ''None''"
| "py_repr fr (JBool b) = (if b then ''True'' else ''False'')"
| "py_repr fr (JInt i) = int_str i"
| "py_repr fr (JNum q) = fr q"
| "py_repr fr (JStr s) = repr_str s"
| "py_repr fr (JList xs) = ''['' @ join '', '' (map (py_repr fr) xs) @ '']''"
| "py_repr fr (JDict d) = ''{'' @ join '', '' (map (\<lambda>(k, v). repr_str k @ '': '' @ py_repr fr v) d) @ ''}''"

definition py_str :: "(rat \<Rightarrow> string) \<Rightarrow> json \<Rightarrow> string" where
  "py_str fr j = (case j of JStr s \<Rightarrow> s | _ \<Rightarrow> py_repr fr j)"

definition is_list :: "json \<Rightarrow> bool" where
  "is_list j = (case j of JList _ \<Rightarrow> True | _ \<Rightarrow> False)"

definition is_dict :: "json \<Rightarrow> bool" where
  "is_dict j = (case j of JDict _ \<Rightarrow> True | _ \<Rightarrow> False)"

text \<open>\<open>j.get(k, default)\<close>\<close>

definition no_get :: py_exn where
  "no_get = OtherError ''object has no attribute get''"

definition jget :: "json \<Rightarrow> string \<Rightarrow> json \<Rightarrow> json result" where
  "jget j k d = (case j of JDict kvs \<Rightarrow> Inr (dgetd kvs k d) | _ \<Rightarrow> Inl no_get)"

definition bind :: "'a result \<Rightarrow> ('a \<Rightarrow> 'b result) \<Rightarrow> 'b result" where
  "bind r f = (case r of Inl e \<Rightarrow> Inl e | Inr x \<Rightarrow> f x)"

lemma bind_simps [simp]: "bind (Inl e) f = Inl e" "bind (Inr x) f = f x"
  by (simp_all add: bind_def)

text \<open>\<open>d.get(k)\<close> of a value known to be a dictionary.\<close>

definition dfield :: "json \<Rightarrow> string \<Rightarrow> json" where
  "dfield j k = (case j of JDict d \<Rightarrow> dgetd d k JNull | _ \<Rightarrow> JNull)"

text \<open>\<open>str.encode("utf-8")\<close>\<close>

definition utf8 :: "string \<Rightarrow> string" where
  "utf8 s = concat (map (\<lambda>c. let n = (of_char c :: nat) in
     if n < 128 then [c] else [char_of (192 + n div 64), char_of (128 + n mod 64)]) s)"

definition crlf :: string where
  "crlf = [CHR 0x0D, CHR 0x0A]"

text \<open>\<open>raw.encode("utf-8") if isinstance(raw, str) else raw\<close>; the bytes are a \<^const>\<open>JStr\<close>.\<close>

definition raw_bytes :: "json \<Rightarrow> json" where
  "raw_bytes j = (case j of JStr s \<Rightarrow> JStr (utf8 s) | _ \<Rightarrow> j)"

definition rebuilt :: "string \<Rightarrow> string \<Rightarrow> json" where
  "rebuilt headers body = JStr (utf8 (headers @ crlf @ crlf @ body))"

subsection \<open>base.py\<close>

record parsed =
  p_from :: json
  p_to :: json
  p_from_header :: string
  p_reply_to :: string
  p_text :: string
  p_html :: string
  p_headers :: string
  p_raw :: json
  p_has_mime :: bool
  p_meta :: "(string, json) dict"

subsection \<open>Forms: SendGrid and Mailgun\<close>

datatype form_value = FText string | FFile string

fun form_str :: "form_value \<Rightarrow> string" where
  "form_str (FText s) = s"
| "form_str (FFile r) = r"

definition form_field :: "(string, form_value) dict \<Rightarrow> string \<Rightarrow> string" where
  "form_field fd k = form_str (dgetd fd k (FText []))"

text \<open>The raw message, or the one rebuilt from the headers and the text part.\<close>

definition form_raw :: "form_value option \<Rightarrow> string \<Rightarrow> string \<Rightarrow> bool \<times> json" where
  "form_raw v headers text = (case v of
       Some (FText (c # cs)) \<Rightarrow> (True, JStr (utf8 (c # cs)))
     | _ \<Rightarrow> (False, rebuilt headers text))"

definition form_or :: "form_value option \<Rightarrow> form_value option \<Rightarrow> form_value option" where
  "form_or a b = (case a of None \<Rightarrow> b | Some (FText []) \<Rightarrow> b | _ \<Rightarrow> a)"

definition sendgrid_envelope :: "(string \<Rightarrow> json option) \<Rightarrow> (string, form_value) dict \<Rightarrow> json" where
  "sendgrid_envelope loads fd = (case dgetd fd ''envelope'' (FText ''{}'') of
       FText s \<Rightarrow> (case loads s of None \<Rightarrow> JDict [] | Some j \<Rightarrow> j)
     | FFile _ \<Rightarrow> JNull)"

definition parse_sendgrid_payload :: "(rat \<Rightarrow> string) \<Rightarrow> (string \<Rightarrow> json option) \<Rightarrow> (string, form_value) dict \<Rightarrow> parsed" where
  "parse_sendgrid_payload fr loads fd =
     (let env = sendgrid_envelope loads fd;
          (sender, rcpts) = (case env of
             JDict d \<Rightarrow> (JStr (py_str fr (dgetd d ''from'' (JStr []))), dgetd d ''to'' (JList []))
           | _ \<Rightarrow> (JStr [], JList []));
          rcpts = (case rcpts of JStr s \<Rightarrow> JList [JStr s] | _ \<Rightarrow> rcpts);
          headers = form_field fd ''headers'';
          text = form_field fd ''text'';
          (has, raw) = form_raw (form_or (dget fd ''email'') (dget fd ''raw'')) headers text
      in \<lparr>p_from = sender, p_to = rcpts, p_from_header = form_field fd ''from'', p_reply_to = form_field fd ''reply-to'',
          p_text = text, p_html = form_field fd ''html'', p_headers = headers, p_raw = raw, p_has_mime = has,
          p_meta = [(''provider'', JStr ''sendgrid'')]\<rparr>)"

definition parse_mailgun_payload :: "(string, form_value) dict \<Rightarrow> parsed" where
  "parse_mailgun_payload fd =
     (let rcpt = form_field fd ''recipient'';
          headers = form_field fd ''message-headers'';
          text = form_field fd ''body-plain'';
          (has, raw) = form_raw (dget fd ''body-mime'') headers text
      in \<lparr>p_from = JStr (form_field fd ''sender''), p_to = JList (if rcpt = [] then [] else [JStr rcpt]),
          p_from_header = form_field fd ''from'',
          p_reply_to = form_str (dgetd fd ''reply-to'' (dgetd fd ''Reply-To'' (FText []))),
          p_text = text, p_html = form_field fd ''body-html'', p_headers = headers, p_raw = raw, p_has_mime = has,
          p_meta = [(''provider'', JStr ''mailgun'')]\<rparr>)"

subsection \<open>AWS SES over SNS\<close>

text \<open>\<open>", ".join\<close> of a list raises for an element that is not a text.\<close>

fun join_texts :: "json list \<Rightarrow> string list result" where
  "join_texts [] = Inr []"
| "join_texts (JStr s # js) = bind (join_texts js) (\<lambda>ss. Inr (s # ss))"
| "join_texts (_ # js) = Inl (TypeError ''sequence item: expected str instance'')"

definition header_text :: "(rat \<Rightarrow> string) \<Rightarrow> json \<Rightarrow> string \<Rightarrow> string result" where
  "header_text fr common k = bind (jget common k (JStr [])) (\<lambda>j. case j of
       JList xs \<Rightarrow> bind (join_texts xs) (\<lambda>ss. Inr (join '', '' ss))
     | _ \<Rightarrow> Inr (py_str fr j))"

definition ses_header_lines :: "(rat \<Rightarrow> string) \<Rightarrow> json \<Rightarrow> string list result" where
  "ses_header_lines fr hs =
     (let line = (\<lambda>h. py_str fr (case h of JDict d \<Rightarrow> dgetd d ''name'' (JStr []) | _ \<Rightarrow> JNull) @ '': '' @
            py_str fr (case h of JDict d \<Rightarrow> dgetd d ''value'' (JStr []) | _ \<Rightarrow> JNull))
      in case hs of
         JList xs \<Rightarrow> Inr (map line (filter is_dict xs))
       | JDict d \<Rightarrow> Inr []
       | JStr s \<Rightarrow> Inr []
       | _ \<Rightarrow> Inl (TypeError ''object is not iterable''))"

definition ses_message :: "(string \<Rightarrow> json option) \<Rightarrow> json \<Rightarrow> json result" where
  "ses_message loads body = bind (jget body ''Message'' (JStr ''{}'')) (\<lambda>m. Inr (case m of
       JStr s \<Rightarrow> (case loads s of None \<Rightarrow> JDict [] | Some j \<Rightarrow> j)
     | _ \<Rightarrow> body))"

definition parse_aws_ses_payload :: "(rat \<Rightarrow> string) \<Rightarrow> (string \<Rightarrow> json option) \<Rightarrow> json \<Rightarrow> parsed result" where
  "parse_aws_ses_payload fr loads body =
     bind (ses_message loads body) (\<lambda>msg.
     bind (jget msg ''mail'' (JDict [])) (\<lambda>mail.
     bind (jget mail ''source'' (JStr [])) (\<lambda>sender.
     bind (jget mail ''destination'' (JList [])) (\<lambda>rcpts.
     bind (jget mail ''commonHeaders'' (JDict [])) (\<lambda>common.
     bind (header_text fr common ''from'') (\<lambda>from_header.
     bind (header_text fr common ''replyTo'') (\<lambda>reply_to.
     bind (jget mail ''headers'' (JList [])) (\<lambda>hs.
     bind (ses_header_lines fr hs) (\<lambda>lines.
     bind (jget msg ''content'' (JStr [])) (\<lambda>content.
     let headers = join crlf lines;
         raw = (if truthy content then raw_bytes content else rebuilt headers [])
     in Inr \<lparr>p_from = sender, p_to = rcpts, p_from_header = from_header, p_reply_to = reply_to, p_text = [], p_html = [],
          p_headers = headers, p_raw = raw, p_has_mime = truthy content,
          p_meta = [(''provider'', JStr ''aws_ses''), (''message_id'', dfield mail ''messageId'')]\<rparr>))))))))))"

subsection \<open>Postmark\<close>

text \<open>A list of addresses under a key of each entry, the entries that lack it left out.\<close>

definition texts_at :: "(rat \<Rightarrow> string) \<Rightarrow> string \<Rightarrow> json \<Rightarrow> string list" where
  "texts_at fr k j = (case j of
       JList xs \<Rightarrow> map (\<lambda>x. py_str fr (dfield x k)) (filter (\<lambda>x. is_dict x \<and> truthy (dfield x k)) xs)
     | _ \<Rightarrow> [])"

definition header_lines :: "(rat \<Rightarrow> string) \<Rightarrow> string \<Rightarrow> string \<Rightarrow> json \<Rightarrow> string list" where
  "header_lines fr name value j = (case j of
       JList xs \<Rightarrow> map (\<lambda>h. py_str fr (dfield h name) @ '': '' @ py_str fr (dfield h value))
         (filter (\<lambda>h. is_dict h \<and> truthy (dfield h name) \<and> truthy (dfield h value)) xs)
     | _ \<Rightarrow> [])"

definition parse_postmark_payload :: "(rat \<Rightarrow> string) \<Rightarrow> json \<Rightarrow> parsed result" where
  "parse_postmark_payload fr j = (case j of
     JDict d \<Rightarrow>
       (let field = (\<lambda>k. dgetd d k (JStr []));
            sender = py_str fr (field ''From'');
            full = texts_at fr ''Email'' (dgetd d ''ToFull'' (JList []));
            rcpts = (if full \<noteq> [] then full
              else if truthy (dgetd d ''To'' JNull) then [py_str fr (field ''To'')]
              else if truthy (dgetd d ''OriginalRecipient'' JNull) then [py_str fr (field ''OriginalRecipient'')]
              else []);
            from_header = (if truthy (field ''FromName'') \<and> truthy (field ''From'')
              then py_str fr (field ''FromName'') @ '' <'' @ py_str fr (field ''From'') @ ''>''
              else py_str fr (or_else (field ''From'') (field ''FromName'')));
            headers = join crlf (header_lines fr ''Name'' ''Value'' (dgetd d ''Headers'' (JList [])));
            text = py_str fr (field ''TextBody'');
            raw = field ''RawEmail''
        in Inr \<lparr>p_from = JStr sender, p_to = JList (map JStr rcpts), p_from_header = from_header,
            p_reply_to = py_str fr (field ''ReplyTo''), p_text = text, p_html = py_str fr (field ''HtmlBody''),
            p_headers = headers, p_raw = (if truthy raw then raw_bytes raw else rebuilt headers text), p_has_mime = truthy raw,
            p_meta = [(''provider'', JStr ''postmark''), (''message_id'', dgetd d ''MessageID'' JNull),
              (''tag'', dgetd d ''Tag'' JNull)]\<rparr>)
   | _ \<Rightarrow> Inl no_get)"

subsection \<open>Microsoft 365\<close>

text \<open>\<open>x.get("emailAddress", {})\<close> of an entry that has a dictionary there.\<close>

definition email_address :: "json \<Rightarrow> json" where
  "email_address j = (if is_dict j then (case j of JDict d \<Rightarrow> dgetd d ''emailAddress'' (JDict []) | _ \<Rightarrow> JDict []) else JDict [])"

definition graph_addresses :: "(rat \<Rightarrow> string) \<Rightarrow> json \<Rightarrow> string list" where
  "graph_addresses fr j = (case j of
       JList xs \<Rightarrow> map (\<lambda>x. py_str fr (dfield (dfield x ''emailAddress'') ''address''))
         (filter (\<lambda>x. is_dict x \<and> is_dict (dfield x ''emailAddress'') \<and> truthy (dfield (dfield x ''emailAddress'') ''address'')) xs)
     | _ \<Rightarrow> [])"

definition graph_item :: "json \<Rightarrow> json result" where
  "graph_item j = bind (jget j ''value'' (JList [])) (\<lambda>v.
     let item = (case v of JList (x # xs) \<Rightarrow> x | _ \<Rightarrow> j) in Inr (if is_dict item then item else JDict []))"

definition graph_resource :: "json \<Rightarrow> json result" where
  "graph_resource item = bind (jget item ''resourceData'' item) (\<lambda>r. Inr (if is_dict r then r else JDict []))"

definition graph_body :: "(rat \<Rightarrow> string) \<Rightarrow> json \<Rightarrow> string \<times> string" where
  "graph_body fr b = (case b of
       JDict d \<Rightarrow>
         (let content = py_str fr (dgetd d ''content'' (JStr []))
          in if contains ''html'' (lower (py_str fr (dgetd d ''contentType'' (JStr [])))) then ([], content) else (content, []))
     | _ \<Rightarrow> ([], []))"

definition parse_m365_graph_payload :: "(rat \<Rightarrow> string) \<Rightarrow> json \<Rightarrow> parsed result" where
  "parse_m365_graph_payload fr j =
     bind (graph_item j) (\<lambda>item.
     bind (graph_resource item) (\<lambda>res.
     let sender = email_address (dfield res ''sender''); author = email_address (dfield res ''from'') in
     bind (jget sender ''address'' JNull) (\<lambda>sa.
     bind (jget author ''address'' JNull) (\<lambda>aa.
     let get = (\<lambda>k dflt. case res of JDict d \<Rightarrow> dgetd d k dflt | _ \<Rightarrow> dflt);
         env_from = py_str fr (or_else (or_else sa aa) (get ''from_address'' (JStr [])));
         tos = graph_addresses fr (get ''toRecipients'' (JList []));
         rcpts = (if tos \<noteq> [] then tos else if truthy (get ''to_address'' JNull) then [py_str fr (get ''to_address'' JNull)] else []);
         name = (case author of JDict d \<Rightarrow> dgetd d ''name'' (JStr []) | _ \<Rightarrow> JStr []);
         addr = (case author of JDict d \<Rightarrow> dgetd d ''address'' (JStr env_from) | _ \<Rightarrow> JStr env_from);
         from_header = (if truthy name \<and> truthy addr then py_str fr name @ '' <'' @ py_str fr addr @ ''>'' else py_str fr addr);
         (text, html) = graph_body fr (get ''body'' (JDict []));
         headers = join crlf (header_lines fr ''name'' ''value'' (get ''internetMessageHeaders'' (JList [])));
         mime = or_else (dfield res ''mimeContent'') (dfield item ''mimeContent'')
     in Inr \<lparr>p_from = JStr env_from, p_to = JList (map JStr rcpts), p_from_header = from_header,
          p_reply_to = join '', '' (graph_addresses fr (get ''replyTo'' (JList []))), p_text = text, p_html = html,
          p_headers = headers,
          p_raw = (if truthy mime then raw_bytes mime else rebuilt headers (if text \<noteq> [] then text else html)),
          p_has_mime = truthy mime,
          p_meta = [(''provider'', JStr ''m365_graph''), (''subscription_id'', dfield item ''subscriptionId''),
            (''message_id'', or_else (dfield res ''id'') (dfield item ''resource'')), (''tenant_id'', dfield item ''tenantId'')]\<rparr>))))"

subsection \<open>Google Workspace\<close>

text \<open>The notification's data: base64 of UTF-8 of JSON, a failure of any of them being the empty dictionary.
  \<open>decode\<close> is \<open>base64.b64decode(s).decode("utf-8")\<close> with \<open>json.loads\<close>.\<close>

definition pubsub_data :: "(string \<Rightarrow> json option) \<Rightarrow> json \<Rightarrow> json" where
  "pubsub_data decode data = (case data of
       JStr (c # cs) \<Rightarrow> (case decode (c # cs) of None \<Rightarrow> JDict [] | Some j \<Rightarrow> j)
     | _ \<Rightarrow> JDict [])"

definition google_recipients :: "(rat \<Rightarrow> string) \<Rightarrow> json \<Rightarrow> json \<Rightarrow> string list" where
  "google_recipients fr rcpt account = (case rcpt of
       JList (x # xs) \<Rightarrow> map (py_str fr) (x # xs)
     | _ \<Rightarrow> if is_list rcpt then [] else if truthy rcpt then [py_str fr rcpt]
            else if truthy account then [py_str fr account] else [])"

definition parse_google_workspace_payload :: "(rat \<Rightarrow> string) \<Rightarrow> (string \<Rightarrow> json option) \<Rightarrow> json \<Rightarrow> parsed result" where
  "parse_google_workspace_payload fr decode j =
     bind (jget j ''message'' (JDict [])) (\<lambda>msg.
     bind (jget msg ''data'' (JStr [])) (\<lambda>data.
     let decoded = pubsub_data decode data;
         details = or_else (or_else (dfield j ''emailDetails'') (dfield j ''email_details'')) decoded in
     if \<not> is_dict details \<or> \<not> is_dict decoded then Inl no_get
     else
       let get = dfield details;
           env_from = py_str fr (or_else (or_else (get ''sender'') (get ''from_address''))
             (case decoded of JDict d \<Rightarrow> dgetd d ''emailAddress'' (JStr []) | _ \<Rightarrow> JStr []));
           rcpts = google_recipients fr (or_else (get ''recipient'') (get ''to_address'')) (dfield decoded ''emailAddress'');
           text = py_str fr (or_else (or_else (get ''text'') (get ''body_plain'')) (JStr []));
           html = py_str fr (or_else (or_else (get ''html'') (get ''body_html'')) (JStr []));
           headers = py_str fr (or_else (get ''headers'') (JStr []));
           mime = or_else (get ''raw'') (dfield j ''raw'')
       in Inr \<lparr>p_from = JStr env_from, p_to = JList (map JStr rcpts),
            p_from_header = py_str fr (or_else (or_else (get ''from'') (get ''from_header'')) (JStr env_from)),
            p_reply_to = py_str fr (or_else (or_else (get ''reply_to'') (get ''reply-to'')) (JStr [])),
            p_text = text, p_html = html, p_headers = headers,
            p_raw = (if truthy mime then raw_bytes mime else rebuilt headers (if text \<noteq> [] then text else html)),
            p_has_mime = truthy mime,
            p_meta = [(''provider'', JStr ''google_workspace''), (''history_id'', dfield decoded ''historyId''),
              (''email_address'', dfield decoded ''emailAddress''), (''pubsub_message_id'', dfield msg ''messageId'')]\<rparr>))"

subsection \<open>Facts\<close>

lemma utf8_ascii: "is_ascii s \<Longrightarrow> utf8 s = s"
  unfolding utf8_def is_ascii_def by (induction s) (simp_all add: Let_def)

lemma form_raw_given: "s \<noteq> [] \<Longrightarrow> form_raw (Some (FText s)) h t = (True, JStr (utf8 s))"
  by (cases s) (simp_all add: form_raw_def)

lemma py_str_JStr [simp]: "py_str fr (JStr s) = s"
  by (simp add: py_str_def)

lemma raw_bytes_JStr [simp]: "raw_bytes (JStr s) = JStr (utf8 s)"
  by (simp add: raw_bytes_def)

text \<open>A raw message a provider passes on reaches the checks byte for byte, so that a DKIM signature over it can verify;
  the parsed texts play no part in it.\<close>
theorem raw_mime_passthrough:
  assumes "is_ascii raw" and "raw \<noteq> []"
  shows "p_raw (parse_sendgrid_payload fr loads (dset fd ''email'' (FText raw))) = JStr raw \<and>
    p_raw (parse_mailgun_payload (dset fd ''body-mime'' (FText raw))) = JStr raw \<and>
    map_sum id p_raw (parse_postmark_payload fr (JDict (dset d ''RawEmail'' (JStr raw)))) = Inr (JStr raw)"
proof (cases raw)
  case (Cons c cs)
  with utf8_ascii [OF assms(1)] show ?thesis
    by (simp add: parse_sendgrid_payload_def parse_mailgun_payload_def parse_postmark_payload_def form_or_def form_raw_def
        Let_def split: prod.split)
qed (use assms in simp)

theorem raw_mime_passthrough_witness:
  "p_raw (parse_sendgrid_payload (\<lambda>_. []) (\<lambda>_. None) [(''email'', FText ''Subject: x'')]) = JStr ''Subject: x''"
  using raw_mime_passthrough [of "''Subject: x''" "\<lambda>_. []" "\<lambda>_. None" "[]"] by (simp add: is_ascii_def)

end
