(* ===== verification/Receiver.thy ===== *)
theory Receiver
  imports Gateway Parsers
begin

text \<open>
  The webhook handlers of \<open>webhook_receiver/app.py\<close>: each checks the caller, parses the payload and hands it to
  \<open>process_message\<close>. The rate limiter counts in the same key-value store as the duplicate check. A request body that
  is not JSON is \<^term>\<open>None\<close>. A recipient entry that is no text is read as its \<open>str()\<close>.
\<close>

subsection \<open>Requests and answers\<close>

record receiver_conf =
  rc_secret :: string
  rc_allowed_ips :: "string list"
  rc_mailgun_key :: string
  rc_max_bytes :: int
  rc_watchlist :: "string list"
  rc_limiter :: rate_limiter
  rc_crypto :: crypto
  rc_float :: "rat \<Rightarrow> string"
  rc_loads :: "string \<Rightarrow> json option"
  rc_pubsub :: "string \<Rightarrow> json option"
  rc_url :: "string \<Rightarrow> string \<times> string"

record request =
  rq_peer :: "string option"
  rq_length :: "string option"
  rq_form :: "(string, form_value) dict"
  rq_json :: "json option"
  rq_token :: "string option"

text \<open>An \<open>HTTPException\<close>, or another exception, which the framework answers with status 500.\<close>

datatype http_error = HttpError int string | ServerError py_exn

datatype answer = Json response | Plain string

definition client_ip :: "request \<Rightarrow> string" where
  "client_ip rq = (case rq_peer rq of None \<Rightarrow> ''0.0.0.0'' | Some h \<Rightarrow> h)"

definition web_http :: "web_error \<Rightarrow> http_error" where
  "web_http e = (case e of AuthError msg code \<Rightarrow> HttpError code msg | Crash s \<Rightarrow> ServerError (TypeError s))"

definition limit_http :: "limit_error \<Rightarrow> http_error" where
  "limit_http e = (case e of RateLimitExceeded i n w \<Rightarrow> HttpError 429 ''rate limit exceeded'' | StoreError x \<Rightarrow> ServerError x)"

subsection \<open>Before the payload\<close>

definition count_request :: "receiver_conf \<Rightarrow> rat \<Rightarrow> string \<Rightarrow> 'w gateway \<Rightarrow> (http_error + unit) \<times> 'w gateway" where
  "count_request cf now ip g = (case rl_check mem_incr (rc_limiter cf) (gw_kv g) now ip of
       (Inl e, kv) \<Rightarrow> (Inl (limit_http e), g\<lparr>gw_kv := kv\<rparr>)
     | (Inr _, kv) \<Rightarrow> (Inr (), g\<lparr>gw_kv := kv\<rparr>))"

definition admit :: "receiver_conf \<Rightarrow> rat \<Rightarrow> request \<Rightarrow> 'w gateway \<Rightarrow> (http_error + unit) \<times> 'w gateway" where
  "admit cf now rq g = (case verify_source_ip (Some (client_ip rq)) (rc_allowed_ips cf) of
       Inl e \<Rightarrow> (Inl (web_http e), g)
     | Inr _ \<Rightarrow> count_request cf now (client_ip rq) g)"

definition received_re :: re where
  "received_re = seqs [lit ''Received:'', LazyStar any_char, lit ''['',
     Cap 1 (seqs [between 1 3 digit, times 3 (seqs [lit ''.'', between 1 3 digit])]), lit '']'']"

definition ip_from_headers :: "string \<Rightarrow> string" where
  "ip_from_headers blob = (case Option.bind (rsearch received_re blob) (\<lambda>m. group blob m 1) of
       None \<Rightarrow> ''0.0.0.0'' | Some ip \<Rightarrow> ip)"

definition recipients :: "receiver_conf \<Rightarrow> json \<Rightarrow> string list" where
  "recipients cf j = (case j of JList xs \<Rightarrow> map (py_str (rc_float cf)) xs | _ \<Rightarrow> if truthy j then [py_str (rc_float cf) j] else [])"

definition webhook_inbound :: "receiver_conf \<Rightarrow> 'w site \<Rightarrow> string \<Rightarrow> string \<Rightarrow> string \<Rightarrow> string \<Rightarrow> parsed \<Rightarrow> inbound" where
  "webhook_inbound cf s mid ip raw sender p = \<lparr>in_id = mid, in_raw = raw, in_ip = ip, in_from = sender,
     in_to = recipients cf (p_to p), in_text = p_text p, in_html = p_html p, in_from_header = p_from_header p,
     in_reply_to = p_reply_to p, in_watchlist = rc_watchlist cf, in_vips = site_vips s, in_tenant = ''default''\<rparr>"

text \<open>The call of \<open>process_message\<close>: hashing a raw message that is no bytes raises, and so does stripping an envelope
  sender that is neither a text nor false.\<close>

definition process_parsed ::
    "receiver_conf \<Rightarrow> 'w site \<Rightarrow> tick \<Rightarrow> string \<Rightarrow> string \<Rightarrow> parsed \<Rightarrow> 'w gateway \<Rightarrow> (http_error + answer) \<times> 'w gateway" where
  "process_parsed cf s k mid ip p g = (case p_raw p of
     JStr raw \<Rightarrow>
       (case p_from p of
          JStr sender \<Rightarrow>
            (case process_message s k (webhook_inbound cf s mid ip raw sender p) g of
               (Inl e, g') \<Rightarrow> (Inl (ServerError e), g')
             | (Inr r, g') \<Rightarrow> (Inr (Json r), g'))
        | j \<Rightarrow> if truthy j then (Inl (ServerError (OtherError ''object has no attribute strip'')), g)
               else (Inr (Json (SkippedBounce mid (''empty or system envelope sender ('' @ py_str (rc_float cf) j @ '')''))), g))
   | _ \<Rightarrow> (Inl (ServerError (TypeError ''object supporting the buffer API required'')), g))"

definition process_result ::
    "receiver_conf \<Rightarrow> 'w site \<Rightarrow> tick \<Rightarrow> string \<Rightarrow> (parsed \<Rightarrow> string) \<Rightarrow> parsed result \<Rightarrow> 'w gateway \<Rightarrow>
     (http_error + answer) \<times> 'w gateway" where
  "process_result cf s k mid ip r g = (case r of
     Inl e \<Rightarrow> (Inl (ServerError e), g) | Inr p \<Rightarrow> process_parsed cf s k mid (ip p) p g)"

abbreviation header_ip :: "parsed \<Rightarrow> string" where
  "header_ip p \<equiv> ip_from_headers (p_headers p)"

subsection \<open>The handlers\<close>

definition sendgrid_inbound ::
    "receiver_conf \<Rightarrow> 'w site \<Rightarrow> tick \<Rightarrow> string \<Rightarrow> string \<Rightarrow> request \<Rightarrow> 'w gateway \<Rightarrow> (http_error + answer) \<times> 'w gateway" where
  "sendgrid_inbound cf s k mid secret rq g =
     (case verify_secret secret (rc_secret cf) of Inl e \<Rightarrow> (Inl (web_http e), g) | Inr _ \<Rightarrow>
      case admit cf (tk_now k) rq g of (Inl e, g1) \<Rightarrow> (Inl e, g1) | (Inr _, g1) \<Rightarrow>
      let parse = parse_sendgrid_payload (rc_float cf) (rc_loads cf) (rq_form rq);
          go = process_parsed cf s k mid (header_ip parse) parse g1
      in case rq_length rq of
           None \<Rightarrow> go
         | Some [] \<Rightarrow> go
         | Some n \<Rightarrow> (case py_int n of
             None \<Rightarrow> (Inl (ServerError (int_error n)), g1)
           | Some i \<Rightarrow> if i > rc_max_bytes cf then (Inl (HttpError 413 ''payload exceeds max_message_size_bytes''), g1) else go))"

definition mailgun_inbound ::
    "receiver_conf \<Rightarrow> 'w site \<Rightarrow> tick \<Rightarrow> string \<Rightarrow> request \<Rightarrow> 'w gateway \<Rightarrow> (http_error + answer) \<times> 'w gateway" where
  "mailgun_inbound cf s k mid rq g =
     (case admit cf (tk_now k) rq g of (Inl e, g1) \<Rightarrow> (Inl e, g1) | (Inr _, g1) \<Rightarrow>
      let fd = rq_form rq; parse = parse_mailgun_payload fd;
          go = process_parsed cf s k mid (header_ip parse) parse g1
      in if rc_mailgun_key cf = [] then go
         else case verify_mailgun (rc_crypto cf) (tk_now k) (form_field fd ''timestamp'') (form_field fd ''token'')
                (form_field fd ''signature'') (rc_mailgun_key cf) 900 of
           Inl e \<Rightarrow> (Inl (web_http e), g1) | Inr _ \<Rightarrow> go)"

text \<open>The fields the SNS check reads, of a body that is a dictionary.\<close>

definition sns_view :: "receiver_conf \<Rightarrow> json \<Rightarrow> sns_message option" where
  "sns_view cf j = (if truthy j
     then let get = (\<lambda>k. py_str (rc_float cf) (case j of JDict d \<Rightarrow> dgetd d k (JStr []) | _ \<Rightarrow> JStr []))
       in Some \<lparr>sns_type = get ''Type'', sns_topic = get ''TopicArn'',
            sns_cert_url = (if truthy (dfield j ''SigningCertURL'') then get ''SigningCertURL'' else [])\<rparr>
     else None)"

definition aws_ses_inbound ::
    "receiver_conf \<Rightarrow> 'w site \<Rightarrow> tick \<Rightarrow> string \<Rightarrow> request \<Rightarrow> 'w gateway \<Rightarrow> (http_error + answer) \<times> 'w gateway" where
  "aws_ses_inbound cf s k mid rq g =
     (case admit cf (tk_now k) rq g of (Inl e, g1) \<Rightarrow> (Inl e, g1) | (Inr _, g1) \<Rightarrow>
      case rq_json rq of None \<Rightarrow> (Inl (HttpError 400 ''invalid SNS JSON payload''), g1) | Some j \<Rightarrow>
      if truthy j \<and> \<not> is_dict j then (Inl (ServerError no_get), g1)
      else case verify_sns_message (rc_url cf) [] (sns_view cf j) of Inl e \<Rightarrow> (Inl (web_http e), g1) | Inr _ \<Rightarrow>
        process_result cf s k mid (\<lambda>_. client_ip rq) (parse_aws_ses_payload (rc_float cf) (rc_loads cf) j) g1)"

definition postmark_inbound ::
    "receiver_conf \<Rightarrow> 'w site \<Rightarrow> tick \<Rightarrow> string \<Rightarrow> request \<Rightarrow> 'w gateway \<Rightarrow> (http_error + answer) \<times> 'w gateway" where
  "postmark_inbound cf s k mid rq g =
     (case admit cf (tk_now k) rq g of (Inl e, g1) \<Rightarrow> (Inl e, g1) | (Inr _, g1) \<Rightarrow>
      case rq_json rq of None \<Rightarrow> (Inl (HttpError 400 ''invalid Postmark JSON payload''), g1) | Some j \<Rightarrow>
      process_result cf s k mid header_ip (parse_postmark_payload (rc_float cf) j) g1)"

definition m365_graph_inbound ::
    "receiver_conf \<Rightarrow> 'w site \<Rightarrow> tick \<Rightarrow> string \<Rightarrow> request \<Rightarrow> 'w gateway \<Rightarrow> (http_error + answer) \<times> 'w gateway" where
  "m365_graph_inbound cf s k mid rq g =
     (case admit cf (tk_now k) rq g of (Inl e, g1) \<Rightarrow> (Inl e, g1) | (Inr _, g1) \<Rightarrow>
      case rq_token rq of Some (c # cs) \<Rightarrow> (Inr (Plain (c # cs)), g1) | _ \<Rightarrow>
      case rq_json rq of None \<Rightarrow> (Inl (HttpError 400 ''invalid M365 Graph JSON payload''), g1) | Some j \<Rightarrow>
      process_result cf s k mid (\<lambda>_. client_ip rq) (parse_m365_graph_payload (rc_float cf) j) g1)"

definition google_pubsub_inbound ::
    "receiver_conf \<Rightarrow> 'w site \<Rightarrow> tick \<Rightarrow> string \<Rightarrow> request \<Rightarrow> 'w gateway \<Rightarrow> (http_error + answer) \<times> 'w gateway" where
  "google_pubsub_inbound cf s k mid rq g =
     (case admit cf (tk_now k) rq g of (Inl e, g1) \<Rightarrow> (Inl e, g1) | (Inr _, g1) \<Rightarrow>
      case rq_json rq of None \<Rightarrow> (Inl (HttpError 400 ''invalid Google Pub/Sub JSON payload''), g1) | Some j \<Rightarrow>
      process_result cf s k mid (\<lambda>_. client_ip rq) (parse_google_workspace_payload (rc_float cf) (rc_pubsub cf) j) g1)"

subsection \<open>Who may post mail\<close>

lemma secret_irrelevant:
  "count_request (cf\<lparr>rc_secret := x\<rparr>) now ip g = count_request cf now ip g"
  "admit (cf\<lparr>rc_secret := x\<rparr>) now rq g = admit cf now rq g"
  "process_parsed (cf\<lparr>rc_secret := x\<rparr>) s k mid ip p g = process_parsed cf s k mid ip p g"
  "process_result (cf\<lparr>rc_secret := x\<rparr>) s k mid ipf r g = process_result cf s k mid ipf r g"
proof -
  show c: "count_request (cf\<lparr>rc_secret := x\<rparr>) now ip g = count_request cf now ip g" for now ip and g :: "'w gateway"
    by (simp add: count_request_def)
  show "admit (cf\<lparr>rc_secret := x\<rparr>) now rq g = admit cf now rq g" by (simp add: admit_def c split: sum.split)
  show p: "process_parsed (cf\<lparr>rc_secret := x\<rparr>) s k mid ip p g = process_parsed cf s k mid ip p g" for ip p g
  proof -
    have "webhook_inbound (cf\<lparr>rc_secret := x\<rparr>) s mid ip raw sender p = webhook_inbound cf s mid ip raw sender p" for raw sender
      by (simp add: webhook_inbound_def recipients_def split: json.split)
    then show ?thesis by (simp add: process_parsed_def split: json.split)
  qed
  show "process_result (cf\<lparr>rc_secret := x\<rparr>) s k mid ipf r g = process_result cf s k mid ipf r g"
    by (simp add: process_result_def p split: sum.split)
qed

text \<open>The shared webhook secret protects the SendGrid endpoint only: there, a request with another secret changes nothing,
  not even the rate limiter's count. The other five endpoints answer alike whatever the secret is; without an
  address allowlist whoever reaches Postmark's, Microsoft's, Google's or Amazon's can inject mail.\<close>
theorem secret_guards_sendgrid_only:
  "(rc_secret cf \<noteq> [] \<longrightarrow> is_ascii secret \<longrightarrow> is_ascii (rc_secret cf) \<longrightarrow> secret \<noteq> rc_secret cf \<longrightarrow>
      sendgrid_inbound cf s k mid secret rq g = (Inl (HttpError 404 ''invalid webhook secret''), g)) \<and>
    mailgun_inbound (cf\<lparr>rc_secret := x\<rparr>) s k mid rq g = mailgun_inbound cf s k mid rq g \<and>
    aws_ses_inbound (cf\<lparr>rc_secret := x\<rparr>) s k mid rq g = aws_ses_inbound cf s k mid rq g \<and>
    postmark_inbound (cf\<lparr>rc_secret := x\<rparr>) s k mid rq g = postmark_inbound cf s k mid rq g \<and>
    m365_graph_inbound (cf\<lparr>rc_secret := x\<rparr>) s k mid rq g = m365_graph_inbound cf s k mid rq g \<and>
    google_pubsub_inbound (cf\<lparr>rc_secret := x\<rparr>) s k mid rq g = google_pubsub_inbound cf s k mid rq g"
proof (intro conjI)
  show "rc_secret cf \<noteq> [] \<longrightarrow> is_ascii secret \<longrightarrow> is_ascii (rc_secret cf) \<longrightarrow> secret \<noteq> rc_secret cf \<longrightarrow>
      sendgrid_inbound cf s k mid secret rq g = (Inl (HttpError 404 ''invalid webhook secret''), g)"
    by (simp add: sendgrid_inbound_def verify_secret_def compare_digest_def web_http_def)
qed (simp_all add: mailgun_inbound_def aws_ses_inbound_def postmark_inbound_def m365_graph_inbound_def
    google_pubsub_inbound_def secret_irrelevant sns_view_def Let_def split: prod.split sum.split option.split list.split)

definition example_conf :: receiver_conf where
  "example_conf = \<lparr>rc_secret = ''s3cret'', rc_allowed_ips = [], rc_mailgun_key = [], rc_max_bytes = 1000, rc_watchlist = [],
     rc_limiter = \<lparr>max_requests = 120, window_seconds = 60, key_prefix = ''ratelimit''\<rparr>, rc_crypto = toy_crypto,
     rc_float = (\<lambda>_. []), rc_loads = (\<lambda>_. None), rc_pubsub = (\<lambda>_. None), rc_url = (\<lambda>_. ([], []))\<rparr>"

definition example_request :: request where
  "example_request = \<lparr>rq_peer = Some ''1.2.3.4'', rq_length = None, rq_form = [], rq_json = Some (JDict []), rq_token = None\<rparr>"

theorem secret_guards_sendgrid_only_witness:
  "sendgrid_inbound example_conf clean_site (example_tick 5) ''m'' ''guess'' example_request example_gateway =
     (Inl (HttpError 404 ''invalid webhook secret''), example_gateway)"
proof -
  have "rc_secret example_conf \<noteq> []" "is_ascii ''guess''" "is_ascii (rc_secret example_conf)" "''guess'' \<noteq> rc_secret example_conf"
    by (simp_all add: example_conf_def is_ascii_def)
  with secret_guards_sendgrid_only [of example_conf "''guess''" clean_site "example_tick 5" "''m''" example_request example_gateway]
  show ?thesis by blast
qed

text \<open>What a message without text and HTML leaves alone.\<close>

lemma no_text_no_campaign:
  "in_text m = [] \<Longrightarrow> in_html m = [] \<Longrightarrow> campaign_check s now m g = (None, g)"
  by (simp add: campaign_check_def strip_def lstrip_by_def rstrip_by_def)

lemma act_on_campaigns: "gw_campaigns (snd (act_on s k m au co att d g)) = gw_campaigns g"
  by (simp add: act_on_def split: prod.split sum.split)

lemma run_stages_no_text:
  assumes "in_text m = []" "in_html m = []"
  shows "gw_campaigns (snd (run_stages s k m g)) = gw_campaigns g"
  using no_text_no_campaign [OF assms, of s "tk_now k"]
  by (simp add: run_stages_def Let_def act_on_campaigns split: prod.split sum.split)

lemma process_no_text:
  assumes "in_text m = []" "in_html m = []"
  shows "gw_campaigns (snd (process_message s k m g)) = gw_campaigns g"
proof (cases "fst (is_bounce_or_ndr (in_from m) (in_from_header m))")
  case False
  then show ?thesis
    by (cases "mem_entry (gw_kv g) (tk_now k) (dedupe_key s (in_raw m))")
      (auto simp: process_duplicate run_stages_no_text [OF assms] store_raw_message_def elim: process_new [of m g k s, OF False])
qed (simp add: process_bounce)

lemma count_request_campaigns: "gw_campaigns (snd (count_request cf now ip g)) = gw_campaigns g"
  by (simp add: count_request_def split: prod.split sum.split)

lemma admit_campaigns: "gw_campaigns (snd (admit cf now rq g)) = gw_campaigns g"
  by (simp add: admit_def count_request_campaigns split: sum.split)

lemma bind_Inr: "bind r f = Inr x \<longleftrightarrow> (\<exists>y. r = Inr y \<and> f y = Inr x)"
  by (cases r) simp_all

lemma ses_parse_empty: "parse_aws_ses_payload fr loads j = Inr p \<Longrightarrow> p_text p = [] \<and> p_html p = []"
  by (auto simp: parse_aws_ses_payload_def bind_Inr Let_def)

lemma process_parsed_no_text:
  assumes "p_text p = []" "p_html p = []"
  shows "gw_campaigns (snd (process_parsed cf s k mid ip p g)) = gw_campaigns g"
  using process_no_text [of "webhook_inbound cf s mid ip raw sender p" s k g for raw sender] assms
  by (simp add: process_parsed_def webhook_inbound_def split: json.split prod.split sum.split)
    (metis snd_conv)

text \<open>Mail that comes through Amazon SES has no text for the stages that read it: whatever the message and however often
  it comes, the campaign detection does not see it.\<close>
theorem ses_mail_is_in_no_campaign:
  "gw_campaigns (snd (aws_ses_inbound cf s k mid rq g)) = gw_campaigns g"
proof -
  have "gw_campaigns (snd (process_result cf s k mid ipf (parse_aws_ses_payload fr loads j) g')) = gw_campaigns g'" for ipf fr loads j g'
    using ses_parse_empty [of fr loads j] process_parsed_no_text [of _ cf s k mid _ g']
    by (cases "parse_aws_ses_payload fr loads j") (simp_all add: process_result_def)
  moreover obtain a g1 where "admit cf (tk_now k) rq g = (a, g1)" by (cases "admit cf (tk_now k) rq g")
  ultimately show ?thesis using admit_campaigns [of cf "tk_now k" rq g]
    by (simp add: aws_ses_inbound_def Let_def split: sum.split option.split)
qed

end
