(* ===== verification/Tokens.thy ===== *)
theory Tokens
  imports Identity
begin

text \<open>
  \<open>identity/tokens.py\<close>: signed session tokens, their verification, revocation and refresh. HMAC is the
  \<open>crypto\<close> parameter; \<open>json.dumps\<close> (whose text is ASCII) and the decoding of a payload's bytes by
  \<open>json.loads\<close> are the fields of \<open>json_codec\<close>, and \<open>set_order\<close> is the order in which Python lists the
  elements of a set. The clock is an argument. The messages of exceptions raised inside the
  libraries are not modelled.
\<close>

record json_codec =
  json_dumps :: "json \<Rightarrow> string"
  json_loads :: "string \<Rightarrow> json option"
  set_order :: "string list \<Rightarrow> string list"

datatype token_error =
    InvalidToken string
  | TokenExpired string

record token_manager =
  secret_key :: string
  default_ttl :: int
  revoked_tokens :: "string list"

definition new_token_manager :: "string \<Rightarrow> int \<Rightarrow> token_manager" where
  "new_token_manager key ttl = \<lparr>secret_key = key, default_ttl = ttl, revoked_tokens = []\<rparr>"

definition tk_b64encode :: "string \<Rightarrow> string" where
  "tk_b64encode data = rstrip_char (CHR ''='') (b64_encode data)"

definition tk_b64decode :: "string \<Rightarrow> string option" where
  "tk_b64decode s = urlsafe_b64decode (s @ replicate (4 - length s mod 4) (CHR ''=''))"

definition sign :: "crypto \<Rightarrow> token_manager \<Rightarrow> string \<Rightarrow> string" where
  "sign cr tm msg = tk_b64encode (hmac_sha256 cr (secret_key tm) msg)"

definition token_payload ::
    "json_codec \<Rightarrow> token_manager \<Rightarrow> rat \<Rightarrow> string \<Rightarrow> json \<Rightarrow> string \<Rightarrow> json \<Rightarrow> bool \<Rightarrow> string list \<Rightarrow> int option \<Rightarrow>
     (string, json) dict" where
  "token_payload jc tm clock uid uname r tenant mfa extra ttl_seconds =
     (let now = trunc_rat clock;
          ttl = (case ttl_seconds of None \<Rightarrow> default_ttl tm | Some t \<Rightarrow> if t \<noteq> 0 then t else default_ttl tm);
          all_scopes = set_order jc (remdups (get_role_scopes r @ extra))
      in [(''sub'', JStr uid), (''username'', uname), (''role'', JStr r), (''tenant_id'', tenant),
          (''mfa_verified'', JBool mfa), (''scopes'', JList (map JStr all_scopes)),
          (''iat'', JInt now), (''exp'', JInt (now + ttl))])"

definition token_header :: json where
  "token_header = JDict [(''alg'', JStr ''HS256''), (''typ'', JStr ''JWT'')]"

definition token_of :: "crypto \<Rightarrow> json_codec \<Rightarrow> token_manager \<Rightarrow> (string, json) dict \<Rightarrow> string" where
  "token_of cr jc tm payload =
     (let body = tk_b64encode (json_dumps jc token_header) @ ''.'' @ tk_b64encode (json_dumps jc (JDict payload))
      in body @ ''.'' @ sign cr tm body)"

definition create_session_token ::
    "crypto \<Rightarrow> json_codec \<Rightarrow> token_manager \<Rightarrow> rat \<Rightarrow> string \<Rightarrow> json \<Rightarrow> string \<Rightarrow> json \<Rightarrow> bool \<Rightarrow> string list \<Rightarrow>
     int option \<Rightarrow> string" where
  "create_session_token cr jc tm clock uid uname r tenant mfa extra ttl_seconds =
     token_of cr jc tm (token_payload jc tm clock uid uname r tenant mfa extra ttl_seconds)"

text \<open>\<open>payload.get("exp", 0) < now\<close>: an error when the payload is no dict or \<open>exp\<close> no number.\<close>

definition expired :: "json \<Rightarrow> int \<Rightarrow> bool option" where
  "expired payload now = (case payload of
       JDict d \<Rightarrow> (case dgetd d ''exp'' (JInt 0) of
           JInt e \<Rightarrow> Some (e < now)
         | JNum x \<Rightarrow> Some (x < of_int now)
         | JBool b \<Rightarrow> Some ((if b then 1 else 0) < now)
         | _ \<Rightarrow> None)
     | _ \<Rightarrow> None)"

definition verify_token ::
    "crypto \<Rightarrow> json_codec \<Rightarrow> token_manager \<Rightarrow> rat \<Rightarrow> string \<Rightarrow> token_error + (string, json) dict" where
  "verify_token cr jc tm clock token =
     (if token \<in> set (revoked_tokens tm) then Inl (InvalidToken ''Session token has been revoked'')
      else (case split_char (CHR ''.'') token of
         [header_b64, payload_b64, signature_b64] \<Rightarrow>
           (let expected_sig = sign cr tm (header_b64 @ ''.'' @ payload_b64) in
            if \<not> is_ascii signature_b64 then Inl (InvalidToken ''Token verification failed'')
            else if signature_b64 \<noteq> expected_sig then Inl (InvalidToken ''Invalid token signature'')
            else (case Option.bind (tk_b64decode payload_b64) (json_loads jc) of
                None \<Rightarrow> Inl (InvalidToken ''Token verification failed'')
              | Some payload \<Rightarrow> (case expired payload (trunc_rat clock) of
                  None \<Rightarrow> Inl (InvalidToken ''Token verification failed'')
                | Some True \<Rightarrow> Inl (TokenExpired ''Session token expired'')
                | Some False \<Rightarrow> (case payload of JDict d \<Rightarrow> Inr d
                    | _ \<Rightarrow> Inl (InvalidToken ''Token verification failed'')))))
       | _ \<Rightarrow> Inl (InvalidToken ''Malformed token structure'')))"

definition revoke_token :: "token_manager \<Rightarrow> string \<Rightarrow> token_manager" where
  "revoke_token tm token = tm\<lparr>revoked_tokens := List.insert token (revoked_tokens tm)\<rparr>"

definition json_strings :: "json \<Rightarrow> string list" where
  "json_strings j = (case j of
     JList xs \<Rightarrow> List.map_filter (\<lambda>x. case x of JStr s \<Rightarrow> Some s | _ \<Rightarrow> None) xs | _ \<Rightarrow> [])"

text \<open>\<open>refresh_session_token\<close>: the old token is revoked before the new one is made; \<open>payload["sub"]\<close> and
  the other required entries may be missing. The payload is one the manager signed, so \<open>sub\<close> and
  \<open>role\<close> are texts and \<open>scopes\<close> a list of texts.\<close>

definition refresh_session_token ::
    "crypto \<Rightarrow> json_codec \<Rightarrow> token_manager \<Rightarrow> rat \<Rightarrow> string \<Rightarrow> int option \<Rightarrow>
     (token_error + py_exn + string) \<times> token_manager" where
  "refresh_session_token cr jc tm clock token ttl_seconds =
     (case verify_token cr jc tm clock token of
        Inl e \<Rightarrow> (Inl e, tm)
      | Inr payload \<Rightarrow>
          (let tm' = revoke_token tm token in
           (case (dget payload ''sub'', dget payload ''username'', dget payload ''role'') of
              (Some (JStr uid), Some uname, Some (JStr r)) \<Rightarrow>
                Inr (Inr (create_session_token cr jc tm' clock uid uname r (dgetd payload ''tenant_id'' JNull)
                  (truthy (dgetd payload ''mfa_verified'' (JBool False)))
                  (json_strings (dgetd payload ''scopes'' (JList []))) ttl_seconds))
            | _ \<Rightarrow> Inr (Inl (KeyError ''sub'')), tm')))"

subsection \<open>Facts\<close>

lemma tk_b64encode_body: "tk_b64encode data = b64_body data"
  by (simp add: tk_b64encode_def b64_encode_rstrip)

lemma tk_b64_roundtrip [simp]: "tk_b64decode (tk_b64encode data) = Some data"
  by (simp add: tk_b64decode_def tk_b64encode_body urlsafe_roundtrip)

lemma tk_b64encode_clean: "CHR ''.'' \<notin> set (tk_b64encode data)" "is_ascii (tk_b64encode data)"
  using b64_body_ok(2,3) by (auto simp: tk_b64encode_body is_ascii_def list_all_iff)

lemma split_token:
  "split_char (CHR ''.'') (token_of cr jc tm payload) =
     [tk_b64encode (json_dumps jc token_header), tk_b64encode (json_dumps jc (JDict payload)),
      sign cr tm (tk_b64encode (json_dumps jc token_header) @ ''.'' @ tk_b64encode (json_dumps jc (JDict payload)))]"
  by (simp add: token_of_def Let_def split_char_append split_char_single tk_b64encode_clean sign_def)

lemma payload_exp: "dgetd (token_payload jc tm clock uid uname r tenant mfa extra ttl) ''exp'' x =
   JInt (trunc_rat clock + (case ttl of None \<Rightarrow> default_ttl tm | Some t \<Rightarrow> if t \<noteq> 0 then t else default_ttl tm))"
  by (simp add: token_payload_def Let_def dgetd_def)

lemma verify_created:
  assumes "json_loads jc (json_dumps jc (JDict payload)) = Some (JDict payload)"
  shows "verify_token cr jc tm clock (token_of cr jc tm payload) =
     (if token_of cr jc tm payload \<in> set (revoked_tokens tm) then Inl (InvalidToken ''Session token has been revoked'')
      else (case expired (JDict payload) (trunc_rat clock) of
          None \<Rightarrow> Inl (InvalidToken ''Token verification failed'')
        | Some e \<Rightarrow> if e then Inl (TokenExpired ''Session token expired'') else Inr payload))"
proof (cases "token_of cr jc tm payload \<in> set (revoked_tokens tm)")
  case True
  then show ?thesis by (simp only: verify_token_def if_True)
next
  case False
  have "is_ascii (sign cr tm m)" for m by (simp add: sign_def tk_b64encode_clean)
  with False assms show ?thesis
    by (simp add: verify_token_def split_token split: option.split bool.split)
qed

text \<open>C21: A session token verifies, and gives back the payload it was made from, up to and including the
  second its lifetime ends, then is refused as expired; once revoked it is always refused. (The
  payload survives \<open>json.dumps\<close> and \<open>json.loads\<close>.)\<close>
theorem session_token_lifetime:
  assumes "payload = token_payload jc tm clock uid uname r tenant mfa extra (Some ttl)" "ttl \<noteq> 0"
    and "json_loads jc (json_dumps jc (JDict payload)) = Some (JDict payload)"
    and "token = create_session_token cr jc tm clock uid uname r tenant mfa extra (Some ttl)"
    and "token \<notin> set (revoked_tokens tm)"
  shows "verify_token cr jc tm later token =
      (if trunc_rat later \<le> trunc_rat clock + ttl then Inr payload
       else Inl (TokenExpired ''Session token expired'')) \<and>
    verify_token cr jc (revoke_token tm token) later token = Inl (InvalidToken ''Session token has been revoked'')"
proof
  have tok: "token = token_of cr jc tm payload" using assms(1,4) by (simp add: create_session_token_def)
  have "expired (JDict payload) (trunc_rat later) = Some (trunc_rat clock + ttl < trunc_rat later)"
    using assms(1,2) by (simp add: expired_def payload_exp)
  with verify_created [OF assms(3), of cr tm later] assms(5) tok
  show "verify_token cr jc tm later token =
      (if trunc_rat later \<le> trunc_rat clock + ttl then Inr payload
       else Inl (TokenExpired ''Session token expired''))" by simp
  show "verify_token cr jc (revoke_token tm token) later token = Inl (InvalidToken ''Session token has been revoked'')"
    by (simp add: verify_token_def revoke_token_def)
qed

text \<open>A serializer that knows one payload, for concrete examples.\<close>

definition one_codec :: "(string, json) dict \<Rightarrow> json_codec" where
  "one_codec payload = \<lparr>json_dumps = (\<lambda>_. ''{}''), json_loads = (\<lambda>_. Some (JDict payload)), set_order = id\<rparr>"

definition example_manager :: token_manager where
  "example_manager = new_token_manager ''key'' 3600"

definition example_payload :: "(string, json) dict" where
  "example_payload = token_payload (one_codec []) example_manager 1000 ''user_1'' (JStr ''joe'') ''analyst'' JNull False [] (Some 60)"

definition example_token :: string where
  "example_token = create_session_token toy_crypto (one_codec example_payload) example_manager 1000 ''user_1''
     (JStr ''joe'') ''analyst'' JNull False [] (Some 60)"

lemma example_payload_codec:
  "example_payload = token_payload (one_codec example_payload) example_manager 1000 ''user_1'' (JStr ''joe'') ''analyst'' JNull False [] (Some 60)"
  by (simp add: example_payload_def [unfolded one_codec_def] example_payload_def token_payload_def one_codec_def Let_def)

theorem session_token_lifetime_witness:
  "verify_token toy_crypto (one_codec example_payload) example_manager 1060 example_token = Inr example_payload \<and>
   verify_token toy_crypto (one_codec example_payload) example_manager 1061 example_token = Inl (TokenExpired ''Session token expired'')"
proof -
  have times: "trunc_rat 1060 \<le> trunc_rat 1000 + 60" "\<not> trunc_rat 1061 \<le> trunc_rat 1000 + 60"
    using trunc_rat_of_int [of 1060] trunc_rat_of_int [of 1000] trunc_rat_of_int [of 1061] by simp_all
  have "example_token \<notin> set (revoked_tokens example_manager)"
    by (simp add: example_manager_def new_token_manager_def)
  note life = session_token_lifetime [OF example_payload_codec _ _ example_token_def this, THEN conjunct1]
  show ?thesis
    using life [of 1060] life [of 1061] times by (simp add: one_codec_def)
qed

text \<open>A token is accepted only if it has not been revoked, is a header, a payload and the HMAC of the two
  under the manager's key, and carries an unexpired payload: without the key nobody makes or changes
  an accepted token.\<close>
theorem accepted_token_is_signed:
  assumes "verify_token cr jc tm clock token = Inr payload"
  shows "token \<notin> set (revoked_tokens tm) \<and>
    (\<exists>h p. token = h @ ''.'' @ p @ ''.'' @ tk_b64encode (hmac_sha256 cr (secret_key tm) (h @ ''.'' @ p)) \<and>
       Option.bind (tk_b64decode p) (json_loads jc) = Some (JDict payload)) \<and>
    expired (JDict payload) (trunc_rat clock) = Some False"
proof -
  have live: "token \<notin> set (revoked_tokens tm)"
    using assms by (auto simp: verify_token_def split: if_splits)
  then obtain h p sg where parts: "split_char (CHR ''.'') token = [h, p, sg]"
    using assms by (auto simp: verify_token_def split: list.splits)
  have "sg = sign cr tm (h @ ''.'' @ p)" "Option.bind (tk_b64decode p) (json_loads jc) = Some (JDict payload)"
    "expired (JDict payload) (trunc_rat clock) = Some False"
    using assms live parts
    by (auto simp: verify_token_def Let_def split: if_splits option.splits bool.splits json.splits)
  moreover have "token = h @ ''.'' @ p @ ''.'' @ sg"
    using join_split_char [of "CHR ''.''" token] parts by simp
  ultimately show ?thesis using live by (auto simp: sign_def)
qed

theorem accepted_token_is_signed_witness:
  "example_token \<notin> set (revoked_tokens example_manager) \<and> expired (JDict example_payload) 1060 = Some False"
proof -
  have "verify_token toy_crypto (one_codec example_payload) example_manager 1060 example_token = Inr example_payload"
    by code_simp
  from accepted_token_is_signed [OF this] show ?thesis
    using trunc_rat_of_int [of 1060] by simp
qed

text \<open>A token refreshed in the very second it was issued, with the same lifetime, comes back dead: the new
  token has the text of the old one, which the refresh has just revoked. (The payload survives JSON,
  and listing the same set of scopes again gives the same order.)\<close>
theorem refresh_in_same_second_is_dead:
  assumes "payload = token_payload jc tm clock uid uname r tenant mfa extra ttl"
    and "token = create_session_token cr jc tm clock uid uname r tenant mfa extra ttl"
    and "json_loads jc (json_dumps jc (JDict payload)) = Some (JDict payload)"
    and "all_scopes = set_order jc (remdups (get_role_scopes r @ extra))"
    and "set_order jc (remdups (get_role_scopes r @ all_scopes)) = all_scopes"
    and "trunc_rat later = trunc_rat clock" "refresh_session_token cr jc tm later token ttl = (Inr (Inr new), tm')"
  shows "new = token \<and> verify_token cr jc tm' anytime new = Inl (InvalidToken ''Session token has been revoked'')"
proof -
  have tok: "token = token_of cr jc tm payload" using assms(1,2) by (simp add: create_session_token_def)
  from assms(7) obtain d where v: "verify_token cr jc tm later token = Inr d"
    by (cases "verify_token cr jc tm later token") (simp_all add: refresh_session_token_def)
  then have d: "d = payload"
    using verify_created [OF assms(3), of cr tm later] tok by (auto split: if_splits option.splits)
  have strs: "json_strings (JList (map JStr xs)) = xs" for xs
    by (induction xs) (simp_all add: json_strings_def map_filter_simps)
  have "create_session_token cr jc (revoke_token tm token) later uid uname r tenant mfa all_scopes ttl =
      create_session_token cr jc tm clock uid uname r tenant mfa extra ttl"
    using assms(4,5,6)
    by (cases ttl) (simp_all add: create_session_token_def token_payload_def token_of_def sign_def revoke_token_def Let_def)
  moreover have "dget payload ''sub'' = Some (JStr uid)" "dget payload ''username'' = Some uname"
    "dget payload ''role'' = Some (JStr r)" "dgetd payload ''tenant_id'' JNull = tenant"
    "dgetd payload ''mfa_verified'' (JBool False) = JBool mfa"
    "dgetd payload ''scopes'' (JList []) = JList (map JStr all_scopes)"
    using assms(1,4) by (simp_all add: token_payload_def Let_def dgetd_def)
  ultimately have "new = token \<and> tm' = revoke_token tm token"
    using assms(2,7) v d by (auto simp: refresh_session_token_def Let_def strs)
  then show ?thesis by (simp add: verify_token_def revoke_token_def)
qed

theorem refresh_in_same_second_is_dead_witness:
  "\<exists>new tm'. refresh_session_token toy_crypto (one_codec example_payload) example_manager 1000 example_token (Some 60) =
      (Inr (Inr new), tm') \<and>
    verify_token toy_crypto (one_codec example_payload) tm' 1001 new = Inl (InvalidToken ''Session token has been revoked'')"
proof -
  let ?jc = "one_codec example_payload"
  obtain new tm' where r: "refresh_session_token toy_crypto ?jc example_manager 1000 example_token (Some 60) = (Inr (Inr new), tm')"
  proof -
    have "(case refresh_session_token toy_crypto ?jc example_manager 1000 example_token (Some 60) of
        (Inr (Inr n), _) \<Rightarrow> True | _ \<Rightarrow> False)" by code_simp
    then show ?thesis using that by (auto split: prod.splits sum.splits)
  qed
  have "set_order ?jc (remdups (get_role_scopes ''analyst'' @ set_order ?jc (remdups (get_role_scopes ''analyst'' @ [])))) =
      set_order ?jc (remdups (get_role_scopes ''analyst'' @ []))" by code_simp
  moreover have "json_loads ?jc (json_dumps ?jc (JDict example_payload)) = Some (JDict example_payload)"
    by (simp add: one_codec_def)
  ultimately have "verify_token toy_crypto ?jc tm' 1001 new = Inl (InvalidToken ''Session token has been revoked'')"
    using refresh_in_same_second_is_dead [OF example_payload_codec example_token_def _ refl _ refl r] by blast
  with r show ?thesis by blast
qed

end
