(* ===== verification/AuthManager.thy ===== *)
theory AuthManager
  imports Tokens
begin

text \<open>
  \<open>identity/middleware.py\<close>: the user store and the authentication manager that logs users in and
  checks requests. The salt and the secret bytes drawn for a new account, and the clock, are
  arguments.
\<close>

subsection \<open>UserManager\<close>

type_synonym user_store = "(string, user) dict"

text \<open>The random bytes and the time a new account takes.\<close>

record draw =
  draw_salt :: string
  draw_secret :: string
  draw_time :: rat

definition create_user ::
    "crypto \<Rightarrow> draw \<Rightarrow> string \<Rightarrow> string \<Rightarrow> string \<Rightarrow> json \<Rightarrow> bool \<Rightarrow> string list \<Rightarrow> user_store \<Rightarrow> (user \<times> user_store) result" where
  "create_user cr dr name password r tenant mfa extra us =
     (if dget us (lower name) \<noteq> None then Inl (ValueError (''User '' @ quoted name @ '' already exists''))
      else if \<not> validate_role r then Inl (ValueError (''Invalid role '' @ quoted r))
      else
        let u = \<lparr>user_id = ''user_'' @ nat_str (length us + 1), username = JStr name,
                 password_hash = hash_password cr (draw_salt dr) password, role = r, tenant_id = tenant,
                 mfa_enabled = mfa,
                 mfa_secret = (if mfa then Some (generate_secret (draw_secret dr)) else None),
                 is_active = True, scopes = extra, created_at = draw_time dr\<rparr>
        in Inr (u, dset us (lower name) u))"

definition get_user :: "user_store \<Rightarrow> string \<Rightarrow> user option" where
  "get_user us name = dget us (lower name)"

definition authenticate :: "crypto \<Rightarrow> user_store \<Rightarrow> string \<Rightarrow> string \<Rightarrow> user option" where
  "authenticate cr us name password = (case dget us (lower name) of
       None \<Rightarrow> None
     | Some u \<Rightarrow> if is_active u \<and> verify_password cr password (password_hash u) then Some u else None)"

definition list_users :: "user_store \<Rightarrow> user list" where
  "list_users us = map snd us"

definition delete_user :: "user_store \<Rightarrow> string \<Rightarrow> bool \<times> user_store" where
  "delete_user us name =
     (if dget us (lower name) \<noteq> None then (True, ddel us (lower name)) else (False, us))"

subsection \<open>IdentityAuthManager\<close>

record auth_manager =
  users :: user_store
  tokens :: token_manager

definition new_auth_manager :: "crypto \<Rightarrow> draw \<Rightarrow> string \<Rightarrow> auth_manager" where
  "new_auth_manager cr dr key =
     \<lparr>users = (case create_user cr dr ''admin'' ''AdminPassword123!'' ''admin'' JNull False [] [] of
        Inl _ \<Rightarrow> [] | Inr (_, us) \<Rightarrow> us),
      tokens = new_token_manager key 3600\<rparr>"

text \<open>The second factor: passed, or the error raised.\<close>

definition check_mfa :: "crypto \<Rightarrow> rat \<Rightarrow> user \<Rightarrow> string option \<Rightarrow> unit result" where
  "check_mfa cr now u totp_code =
     (if \<not> mfa_enabled u then Inr ()
      else if totp_code = None \<or> totp_code = Some []
      then Inl (ValueError ''MFA TOTP code required for this account'')
      else (case verify_totp_code cr (case mfa_secret u of None \<Rightarrow> [] | Some s \<Rightarrow> s) (the totp_code) 1 30 now of
          None \<Rightarrow> Inl (OtherError ''TOTP'')
        | Some ok \<Rightarrow> if ok then Inr () else Inl (ValueError ''Invalid MFA TOTP code'')))"

definition login ::
    "crypto \<Rightarrow> json_codec \<Rightarrow> auth_manager \<Rightarrow> rat \<Rightarrow> string \<Rightarrow> string \<Rightarrow> string option \<Rightarrow> (string, json) dict result" where
  "login cr jc am now name password totp_code =
     (case authenticate cr (users am) name password of
        None \<Rightarrow> Inl (ValueError ''Invalid username or password'')
      | Some u \<Rightarrow> (case check_mfa cr now u totp_code of
          Inl e \<Rightarrow> Inl e
        | Inr _ \<Rightarrow>
            Inr [(''status'', JStr ''authenticated''),
              (''access_token'', JStr (create_session_token cr jc (tokens am) now (user_id u) (username u) (role u)
                 (tenant_id u) (mfa_enabled u) (scopes u) None)),
              (''token_type'', JStr ''Bearer''),
              (''user'', JDict (user_to_dict u))]))"

definition root_payload :: "json_codec \<Rightarrow> string \<Rightarrow> bool \<Rightarrow> (string, json) dict" where
  "root_payload jc name mfa =
     [(''sub'', JStr ''root_admin''), (''username'', JStr name), (''role'', JStr ''admin''), (''tenant_id'', JNull),
      (''mfa_verified'', JBool mfa), (''scopes'', JList (map JStr (set_order jc (get_role_scopes ''admin''))))]"

datatype auth_error = AuthToken string | AuthPermission string

text \<open>The role of a payload; a token the manager signed carries a text.\<close>

definition payload_role :: "(string, json) dict \<Rightarrow> string" where
  "payload_role d = (case dgetd d ''role'' (JStr ''analyst'') of JStr r \<Rightarrow> r | _ \<Rightarrow> [])"

definition check_rights :: "(string, json) dict \<Rightarrow> string option \<Rightarrow> string option \<Rightarrow> auth_error + (string, json) dict" where
  "check_rights payload required_role required_scope =
     (let r = payload_role payload in
      if required_role = Some ''admin'' \<and> r \<noteq> ''admin''
      then Inl (AuthPermission (''Role '' @ quoted r @ '' insufficient for required role '' @ quoted ''admin''))
      else (case required_scope of
          Some (c # cs) \<Rightarrow>
            if \<not> has_permission r (json_strings (dgetd payload ''scopes'' (JList []))) (c # cs)
            then Inl (AuthPermission (''Insufficient permissions: required scope '' @ quoted (c # cs)))
            else Inr payload
        | _ \<Rightarrow> Inr payload))"

definition bearer_token :: "string \<Rightarrow> string" where
  "bearer_token header = (case cut (CHR '' '') header of None \<Rightarrow> [] | Some (_, t) \<Rightarrow> strip t)"

definition legacy_match :: "string option \<Rightarrow> string \<Rightarrow> bool" where
  "legacy_match fallback_secret token = (case fallback_secret of
       None \<Rightarrow> False
     | Some s \<Rightarrow> s \<noteq> [] \<and> token = s \<or> s = [] \<and> token \<in> {''admin_secret'', []})"

definition verify_request ::
    "crypto \<Rightarrow> json_codec \<Rightarrow> auth_manager \<Rightarrow> rat \<Rightarrow> string option \<Rightarrow> string option \<Rightarrow> string option \<Rightarrow> string option \<Rightarrow>
     auth_error + (string, json) dict" where
  "verify_request cr jc am now auth_header fallback_secret required_role required_scope =
     (case auth_header of
        Some header \<Rightarrow>
          if starts_with ''Bearer '' header
          then (let token = bearer_token header in
            case verify_token cr jc (tokens am) now token of
              Inr payload \<Rightarrow> check_rights payload required_role required_scope
            | Inl _ \<Rightarrow>
                if legacy_match fallback_secret token then Inr (root_payload jc ''legacy_admin'' True)
                else Inl (AuthToken ''Invalid or missing session token''))
          else if fallback_secret = Some [] then Inr (root_payload jc ''unauthenticated_admin'' False)
          else Inl (AuthToken ''Missing or malformed Authorization header'')
      | None \<Rightarrow>
          if fallback_secret = Some [] then Inr (root_payload jc ''unauthenticated_admin'' False)
          else Inl (AuthToken ''Missing or malformed Authorization header''))"

subsection \<open>Facts\<close>

text \<open>Against a deployment with a configured admin secret (or none at all), a request is let through only
  with that very secret, or with a token signed by the manager, not revoked and not expired, whose
  role and scopes grant what the route asks for.\<close>
theorem request_needs_credentials:
  assumes "verify_request cr jc am now header secret required_role required_scope = Inr payload"
    and "secret \<noteq> Some []"
  shows "\<exists>h. header = Some h \<and> starts_with ''Bearer '' h \<and>
    (secret = Some (bearer_token h) \<and> payload = root_payload jc ''legacy_admin'' True \<or>
     verify_token cr jc (tokens am) now (bearer_token h) = Inr payload \<and>
       (required_role = Some ''admin'' \<longrightarrow> payload_role payload = ''admin'') \<and>
       (\<forall>sc. required_scope = Some sc \<and> sc \<noteq> [] \<longrightarrow>
          has_permission (payload_role payload) (json_strings (dgetd payload ''scopes'' (JList []))) sc))"
proof -
  from assms obtain h where h: "header = Some h" "starts_with ''Bearer '' h"
    by (auto simp: verify_request_def split: option.splits if_splits)
  show ?thesis
  proof (cases "verify_token cr jc (tokens am) now (bearer_token h)")
    case (Inl e)
    with assms h have "secret = Some (bearer_token h)" "payload = root_payload jc ''legacy_admin'' True"
      by (auto simp: verify_request_def legacy_match_def Let_def split: if_splits option.splits)
    with h show ?thesis by blast
  next
    case (Inr p)
    with assms(1) h have c: "check_rights p required_role required_scope = Inr payload"
      by (simp add: verify_request_def Let_def)
    then have "payload = p" by (auto simp: check_rights_def Let_def split: if_splits option.splits list.splits)
    moreover have "required_role = Some ''admin'' \<longrightarrow> payload_role p = ''admin''"
      using c by (auto simp: check_rights_def Let_def split: if_splits)
    moreover have "has_permission (payload_role p) (json_strings (dgetd p ''scopes'' (JList []))) sc"
      if "required_scope = Some sc" "sc \<noteq> []" for sc
      using c that by (cases sc) (auto simp: check_rights_def Let_def split: if_splits)
    ultimately show ?thesis using h Inr by blast
  qed
qed

definition example_draw :: draw where
  "example_draw = \<lparr>draw_salt = example_salt, draw_secret = ''01234567890123456789'', draw_time = 0\<rparr>"

definition example_auth :: auth_manager where
  "example_auth = new_auth_manager toy_crypto example_draw ''key''"

theorem request_needs_credentials_witness:
  "\<exists>h. Some ''Bearer s3cret'' = Some h \<and> (Some ''s3cret'' = Some (bearer_token h) \<or>
     verify_token toy_crypto (one_codec []) (tokens example_auth) 5 (bearer_token h) =
       Inr (root_payload (one_codec []) ''legacy_admin'' True))"
proof -
  have "verify_request toy_crypto (one_codec []) example_auth 5 (Some ''Bearer s3cret'') (Some ''s3cret'')
      (Some ''admin'') (Some ''user:manage'') = Inr (root_payload (one_codec []) ''legacy_admin'' True)"
    by code_simp
  from request_needs_credentials [OF this] show ?thesis by auto
qed

text \<open>With the admin secret configured as the empty text, a request without any credentials is the root
  administrator, whatever the route requires.\<close>
theorem empty_secret_admits_everyone:
  "verify_request cr jc am now None (Some []) required_role required_scope =
     Inr (root_payload jc ''unauthenticated_admin'' False)"
  by (simp add: verify_request_def)

text \<open>C20: Logging in takes the account's password and, where the account has a second factor, a valid
  one-time code; the token handed out is for that account's role, and the answer shows no hash.\<close>
theorem login_needs_all_factors:
  assumes "login cr jc am now name password totp = Inr answer"
  shows "\<exists>u. dget (users am) (lower name) = Some u \<and> is_active u \<and> verify_password cr password (password_hash u) \<and>
    (mfa_enabled u \<longrightarrow> (\<exists>code secret. totp = Some code \<and> mfa_secret u = Some secret \<and>
       verify_totp_code cr secret code 1 30 now = Some True)) \<and>
    dget answer ''access_token'' = Some (JStr (create_session_token cr jc (tokens am) now (user_id u) (username u)
      (role u) (tenant_id u) (mfa_enabled u) (scopes u) None)) \<and>
    dget answer ''user'' = Some (JDict (user_to_dict u)) \<and> ''password_hash'' \<notin> set (dkeys (user_to_dict u))"
proof -
  from assms obtain u where u: "authenticate cr (users am) name password = Some u"
    by (auto simp: login_def split: option.splits)
  with assms obtain x where mfa: "check_mfa cr now u totp = Inr x"
    by (auto simp: login_def split: sum.splits)
  have empty: "verify_totp_code cr [] code w st t = Some False" for code w st t by (simp add: verify_totp_code_def)
  have "mfa_enabled u \<longrightarrow> (\<exists>code secret. totp = Some code \<and> mfa_secret u = Some secret \<and>
       verify_totp_code cr secret code 1 30 now = Some True)"
    using mfa by (auto simp: check_mfa_def empty split: if_splits option.splits)
  moreover have "dget (users am) (lower name) = Some u \<and> is_active u \<and> verify_password cr password (password_hash u)"
    using u by (auto simp: authenticate_def split: option.splits if_splits)
  moreover have "dget answer ''access_token'' = Some (JStr (create_session_token cr jc (tokens am) now (user_id u) (username u)
      (role u) (tenant_id u) (mfa_enabled u) (scopes u) None)) \<and> dget answer ''user'' = Some (JDict (user_to_dict u))"
    using assms u mfa by (auto simp: login_def)
  moreover have "''password_hash'' \<notin> set (dkeys (user_to_dict u))" using user_dict_hides_secrets by blast
  ultimately show ?thesis by blast
qed

theorem login_needs_all_factors_witness:
  "\<exists>u. dget (users example_auth) ''admin'' = Some u \<and> is_active u"
proof -
  obtain answer where "login toy_crypto (one_codec []) example_auth 5 ''Admin'' ''AdminPassword123!'' None = Inr answer"
  proof -
    have "is_ok (login toy_crypto (one_codec []) example_auth 5 ''Admin'' ''AdminPassword123!'' None)" by code_simp
    then show ?thesis using that by (auto simp: is_ok_iff)
  qed
  from login_needs_all_factors [OF this] obtain u where "dget (users example_auth) (lower ''Admin'') = Some u" "is_active u"
    by blast
  moreover have "lower ''Admin'' = ''admin''" by code_simp
  ultimately show ?thesis by auto
qed

subsection \<open>Account ids\<close>

definition user_ids :: "user_store \<Rightarrow> string list" where
  "user_ids us = map user_id (list_users us)"

definition add_plain_user :: "string \<Rightarrow> user_store \<Rightarrow> user_store" where
  "add_plain_user name us = (case create_user toy_crypto example_draw name ''pw'' ''analyst'' JNull False [] us of
     Inl _ \<Rightarrow> us | Inr (_, us') \<Rightarrow> us')"

text \<open>Account ids are numbered by the size of the store, so deleting an account lets the next new one
  take the id of another live account.\<close>
theorem user_ids_can_collide:
  "\<not> distinct (user_ids (add_plain_user ''carol''
     (snd (delete_user (add_plain_user ''bob'' (add_plain_user ''alice'' [])) ''alice''))))"
  by code_simp

definition user_entry_ok :: "string \<times> user \<Rightarrow> bool" where
  "user_entry_ok p \<longleftrightarrow> (\<exists>n. username (snd p) = JStr n \<and> lower n = fst p) \<and> validate_role (role (snd p))"

definition users_ok :: "user_store \<Rightarrow> bool" where
  "users_ok us \<longleftrightarrow> dict_ok us \<and> (\<forall>p \<in> set us. user_entry_ok p)"

lemma users_ok_dset:
  "users_ok us \<Longrightarrow> username u = JStr n \<Longrightarrow> validate_role (role u) \<Longrightarrow> users_ok (dset us (lower n) u)"
  using set_dset_subset [of "lower n" u us] by (fastforce simp: users_ok_def user_entry_ok_def)

lemma create_user_ok:
  assumes "users_ok us" "create_user cr dr name password r tenant mfa extra us = Inr (u, us')"
  shows "users_ok us'"
proof -
  from assms(2) have u: "us' = dset us (lower name) u" "username u = JStr name" "role u = r" "validate_role r"
    by (auto simp: create_user_def Let_def split: if_splits)
  with users_ok_dset [OF assms(1) u(2)] show ?thesis by simp
qed

lemma delete_user_ok: "users_ok us \<Longrightarrow> users_ok (snd (delete_user us name))"
  by (auto simp: users_ok_def delete_user_def set_ddel)

end
