(* ===== verification/Tenancy.thy ===== *)
theory Tenancy
  imports Quarantine
begin

text \<open>
  \<open>multi_tenancy/tenant_manager.py\<close> with the record of \<open>models.py\<close>, the per-tenant quarantines of
  \<open>isolation.py\<close> and the aggregate view of \<open>msp_view.py\<close>. A generated Fernet key and the clock are
  arguments. Directories are named by their path after resolution, as the list of its components; the base directory is
  given by its absolute path, and there are no symbolic links.
\<close>

subsection \<open>models.py\<close>

record tenant =
  t_id :: string
  t_name :: string
  t_domains :: "string list"
  t_status :: string
  t_encryption_key :: string
  t_warn :: int
  t_quarantine :: int
  t_watchlist :: "string list"
  t_vt_key :: "string option"
  t_gsb_key :: "string option"
  t_relay_host :: "string option"
  t_max_requests :: int
  t_timezone :: string
  t_created :: rat

definition opt_json :: "string option \<Rightarrow> json" where
  "opt_json x = (case x of None \<Rightarrow> JNull | Some s \<Rightarrow> JStr s)"

definition tenant_to_dict :: "tenant \<Rightarrow> json" where
  "tenant_to_dict t = JDict
     [(''tenant_id'', JStr (t_id t)), (''name'', JStr (t_name t)), (''domains'', jstrs (t_domains t)),
      (''status'', JStr (t_status t)), (''encryption_key'', JStr (t_encryption_key t)),
      (''warn_threshold'', JInt (t_warn t)), (''quarantine_threshold'', JInt (t_quarantine t)),
      (''watchlist_domains'', jstrs (t_watchlist t)), (''vt_api_key'', opt_json (t_vt_key t)),
      (''gsb_api_key'', opt_json (t_gsb_key t)), (''relay_host'', opt_json (t_relay_host t)),
      (''max_requests_per_minute'', JInt (t_max_requests t)), (''timezone'', JStr (t_timezone t)),
      (''created_at'', JNum (t_created t))]"

text \<open>\<open>from_dict\<close> of a mapping with values of the types \<open>to_dict\<close> writes; a value of another type, which
  Python would store as it is, is an error here.\<close>

definition typed_get :: "(string, json) dict \<Rightarrow> string \<Rightarrow> (json \<Rightarrow> 'a option) \<Rightarrow> 'a \<Rightarrow> 'a option" where
  "typed_get d k as absent = (case dget d k of None \<Rightarrow> Some absent | Some j \<Rightarrow> as j)"

definition as_str :: "json \<Rightarrow> string option" where
  "as_str j = (case j of JStr s \<Rightarrow> Some s | _ \<Rightarrow> None)"

definition as_int :: "json \<Rightarrow> int option" where
  "as_int j = (case j of JInt i \<Rightarrow> Some i | _ \<Rightarrow> None)"

definition as_num :: "json \<Rightarrow> rat option" where
  "as_num j = (case j of JNum r \<Rightarrow> Some r | _ \<Rightarrow> None)"

definition as_opt_str :: "json \<Rightarrow> string option option" where
  "as_opt_str j = (case j of JNull \<Rightarrow> Some None | JStr s \<Rightarrow> Some (Some s) | _ \<Rightarrow> None)"

definition tenant_from_dict :: "string \<Rightarrow> rat \<Rightarrow> (string, json) dict \<Rightarrow> tenant result" where
  "tenant_from_dict fresh_key now d = (case dget d ''tenant_id'' of
       None \<Rightarrow> Inl (KeyError ''tenant_id'')
     | Some j \<Rightarrow> (case as_str j of None \<Rightarrow> Inl (TypeError ''tenant_id'') | Some tid \<Rightarrow>
         (case (typed_get d ''name'' as_str tid, typed_get d ''domains'' str_items [],
                typed_get d ''status'' as_str ''active'', typed_get d ''encryption_key'' as_opt_str None,
                typed_get d ''warn_threshold'' as_int 40, typed_get d ''quarantine_threshold'' as_int 70,
                typed_get d ''watchlist_domains'' str_items []) of
            (Some name, Some doms, Some status, Some key, Some warn, Some quar, Some watch) \<Rightarrow>
              (case (typed_get d ''vt_api_key'' as_opt_str None, typed_get d ''gsb_api_key'' as_opt_str None,
                     typed_get d ''relay_host'' as_opt_str None, typed_get d ''max_requests_per_minute'' as_int 500,
                     typed_get d ''timezone'' as_str ''UTC'', typed_get d ''created_at'' as_num now) of
                 (Some vt, Some gsb, Some relay, Some quota, Some tz, Some since) \<Rightarrow>
                   Inr \<lparr>t_id = tid, t_name = name, t_domains = doms, t_status = status,
                     t_encryption_key = (case key of Some (c # cs) \<Rightarrow> c # cs | _ \<Rightarrow> fresh_key),
                     t_warn = warn, t_quarantine = quar, t_watchlist = watch, t_vt_key = vt, t_gsb_key = gsb,
                     t_relay_host = relay, t_max_requests = quota, t_timezone = tz, t_created = since\<rparr>
               | _ \<Rightarrow> Inl (TypeError ''Tenant''))
          | _ \<Rightarrow> Inl (TypeError ''Tenant''))))"

lemma opt_json_back [simp]: "as_opt_str (opt_json x) = Some x"
  by (cases x) (simp_all add: as_opt_str_def opt_json_def)

lemma as_opt_JStr: "as_opt_str (JStr s) = Some (Some s)"
  by (simp add: as_opt_str_def)

text \<open>A tenant with an encryption key survives being written to a dictionary and read back.\<close>
theorem tenant_dict_roundtrip:
  assumes "t_encryption_key t \<noteq> []"
  shows "(case tenant_to_dict t of JDict d \<Rightarrow> tenant_from_dict fresh_key now d = Inr t | _ \<Rightarrow> False)"
  using assms
  by (cases "t_encryption_key t")
    (simp_all add: tenant_to_dict_def tenant_from_dict_def typed_get_def as_str_def as_int_def as_num_def as_opt_JStr)

subsection \<open>tenant\_manager.py\<close>

record tenant_manager =
  tenants :: "(string, tenant) dict"
  domain_map :: "(string, string) dict"

definition no_tenants :: tenant_manager where
  "no_tenants = \<lparr>tenants = [], domain_map = []\<rparr>"

definition map_domains :: "string \<Rightarrow> string list \<Rightarrow> (string, string) dict \<Rightarrow> (string, string) dict" where
  "map_domains tid ds dm = foldl (\<lambda>dm d. dset dm d tid) dm ds"

definition unmap_domains :: "string \<Rightarrow> string list \<Rightarrow> (string, string) dict \<Rightarrow> (string, string) dict" where
  "unmap_domains tid ds dm = foldl (\<lambda>dm d. if dget dm d = Some tid then ddel dm d else dm) dm ds"

text \<open>The arguments of \<open>create_tenant\<close> beside the id, with the key that would be generated.\<close>

record tenant_spec =
  s_name :: string
  s_domains :: "string list"
  s_key :: "string option"
  s_fresh_key :: string
  s_warn :: int
  s_quarantine :: int
  s_max_requests :: int
  s_vt :: "string option"
  s_gsb :: "string option"
  s_timezone :: string
  s_now :: rat

definition create_tenant :: "string \<Rightarrow> tenant_spec \<Rightarrow> tenant_manager \<Rightarrow> (tenant \<times> tenant_manager) result" where
  "create_tenant tid sp tm =
     (if dget (tenants tm) tid \<noteq> None then Inl (ValueError (''Tenant '' @ quoted tid @ '' already exists''))
      else
        let ds = map lower (s_domains sp);
            t = \<lparr>t_id = tid, t_name = s_name sp, t_domains = ds, t_status = ''active'',
                 t_encryption_key = (case s_key sp of Some (c # cs) \<Rightarrow> c # cs | _ \<Rightarrow> s_fresh_key sp),
                 t_warn = s_warn sp, t_quarantine = s_quarantine sp, t_watchlist = [], t_vt_key = s_vt sp,
                 t_gsb_key = s_gsb sp, t_relay_host = None, t_max_requests = s_max_requests sp,
                 t_timezone = s_timezone sp, t_created = s_now sp\<rparr>
        in Inr (t, \<lparr>tenants = dset (tenants tm) tid t, domain_map = map_domains tid ds (domain_map tm)\<rparr>))"

definition get_tenant :: "tenant_manager \<Rightarrow> string \<Rightarrow> tenant option" where
  "get_tenant tm tid = dget (tenants tm) tid"

text \<open>\<open>if tenant_id: return self._tenants.get(tenant_id)\<close>: an empty id counts as none.\<close>

definition mapped_tenant :: "tenant_manager \<Rightarrow> string \<Rightarrow> tenant option option" where
  "mapped_tenant tm d = (case dget (domain_map tm) d of
     Some (c # cs) \<Rightarrow> Some (dget (tenants tm) (c # cs)) | _ \<Rightarrow> None)"

definition get_tenant_by_domain :: "tenant_manager \<Rightarrow> string \<Rightarrow> tenant option" where
  "get_tenant_by_domain tm domain =
     (let d0 = strip (lower domain);
          d = (if CHR ''@'' \<in> set d0 then after_last (CHR ''@'') d0 else d0)
      in case mapped_tenant tm d of
           Some r \<Rightarrow> r
         | None \<Rightarrow>
             (let parts = split_char (CHR ''.'') d in
              if length parts > 2
              then (case mapped_tenant tm (join ''.'' (tl parts)) of Some r \<Rightarrow> r | None \<Rightarrow> None)
              else None))"

text \<open>A keyword argument of \<open>update_tenant\<close> other than \<open>domains\<close> that names an attribute and is not \<open>None\<close>.\<close>

datatype tenant_field =
    FName string | FStatus string | FKey string | FWarn int | FQuarantine int | FWatchlist "string list"
  | FVt string | FGsb string | FRelayHost string | FMaxRequests int | FTimezone string | FCreated rat

fun set_field :: "tenant_field \<Rightarrow> tenant \<Rightarrow> tenant" where
  "set_field (FName x) t = t\<lparr>t_name := x\<rparr>"
| "set_field (FStatus x) t = t\<lparr>t_status := x\<rparr>"
| "set_field (FKey x) t = t\<lparr>t_encryption_key := x\<rparr>"
| "set_field (FWarn x) t = t\<lparr>t_warn := x\<rparr>"
| "set_field (FQuarantine x) t = t\<lparr>t_quarantine := x\<rparr>"
| "set_field (FWatchlist x) t = t\<lparr>t_watchlist := x\<rparr>"
| "set_field (FVt x) t = t\<lparr>t_vt_key := Some x\<rparr>"
| "set_field (FGsb x) t = t\<lparr>t_gsb_key := Some x\<rparr>"
| "set_field (FRelayHost x) t = t\<lparr>t_relay_host := Some x\<rparr>"
| "set_field (FMaxRequests x) t = t\<lparr>t_max_requests := x\<rparr>"
| "set_field (FTimezone x) t = t\<lparr>t_timezone := x\<rparr>"
| "set_field (FCreated x) t = t\<lparr>t_created := x\<rparr>"

definition update_tenant ::
    "string \<Rightarrow> string list option \<Rightarrow> tenant_field list \<Rightarrow> tenant_manager \<Rightarrow> (tenant \<times> tenant_manager) result" where
  "update_tenant tid given fs tm = (case get_tenant tm tid of
       None \<Rightarrow> Inl (ValueError (''Tenant '' @ quoted tid @ '' not found''))
     | Some t \<Rightarrow>
         (let (t1, dm) = (case given of
                None \<Rightarrow> (t, domain_map tm)
              | Some ds \<Rightarrow> (t\<lparr>t_domains := map lower ds\<rparr>,
                  map_domains tid (map lower ds) (unmap_domains tid (t_domains t) (domain_map tm))));
              t2 = fold set_field fs t1
          in Inr (t2, \<lparr>tenants = dset (tenants tm) tid t2, domain_map = dm\<rparr>)))"

text \<open>The directory removed, when data is purged, is part of the answer.\<close>

definition deprovision_tenant :: "string \<Rightarrow> bool \<Rightarrow> string option \<Rightarrow> tenant_manager \<Rightarrow>
    bool \<times> (string \<times> string) option \<times> tenant_manager" where
  "deprovision_tenant tid purge base tm = (case get_tenant tm tid of
       None \<Rightarrow> (False, None, tm)
     | Some t \<Rightarrow> (True,
         (case base of Some (c # cs) \<Rightarrow> if purge then Some (c # cs, tid) else None | _ \<Rightarrow> None),
         \<lparr>tenants = ddel (tenants tm) tid, domain_map = unmap_domains tid (t_domains t) (domain_map tm)\<rparr>))"

definition list_tenants :: "tenant_manager \<Rightarrow> tenant list" where
  "list_tenants tm = map snd (tenants tm)"

subsection \<open>The domain map\<close>

lemma dget_map_domains: "dget (map_domains tid ds dm) d = (if d \<in> set ds then Some tid else dget dm d)"
  unfolding map_domains_def by (induction ds arbitrary: dm) auto

lemma dget_unmap_domains:
  "dget (unmap_domains tid ds dm) d = (if d \<in> set ds \<and> dget dm d = Some tid then None else dget dm d)"
  unfolding unmap_domains_def by (induction ds arbitrary: dm) auto

text \<open>Every mapped domain belongs to a live tenant that lists it, in lower case.\<close>

definition domains_ok :: "tenant_manager \<Rightarrow> bool" where
  "domains_ok tm \<longleftrightarrow> (\<forall>d tid. dget (domain_map tm) d = Some tid \<longrightarrow>
     (\<exists>t. get_tenant tm tid = Some t \<and> d \<in> set (t_domains t)) \<and> lower d = d) \<and>
     (\<forall>tid t. get_tenant tm tid = Some t \<longrightarrow> t_id t = tid)"

lemma domains_okE:
  assumes "domains_ok tm" "dget (domain_map tm) d = Some x"
  obtains t where "get_tenant tm x = Some t" "t_id t = x" "d \<in> set (t_domains t)" "lower d = d"
  using assms unfolding domains_ok_def by metis

lemma domains_ok_id: "domains_ok tm \<Longrightarrow> get_tenant tm x = Some t \<Longrightarrow> t_id t = x"
  by (simp add: domains_ok_def)

lemma domains_okI:
  assumes "\<And>d x. dget (domain_map tm) d = Some x \<Longrightarrow> lower d = d \<and> (\<exists>t. get_tenant tm x = Some t \<and> d \<in> set (t_domains t))"
    and "\<And>x t. get_tenant tm x = Some t \<Longrightarrow> t_id t = x"
  shows "domains_ok tm"
  using assms unfolding domains_ok_def by blast

lemma set_fields_keep: "t_domains (fold set_field fs t) = t_domains t \<and> t_id (fold set_field fs t) = t_id t"
proof (induction fs arbitrary: t)
  case (Cons f fs)
  have "t_domains (set_field f t) = t_domains t \<and> t_id (set_field f t) = t_id t" by (cases f) auto
  with Cons show ?case by simp
qed simp

text \<open>Storing a tenant whose domains are the ones mapped to its id keeps the map right.\<close>

lemma domains_ok_store:
  assumes ok: "domains_ok tm" and id: "t_id t = tid"
    and new: "\<And>d x. dget dm d = Some x \<Longrightarrow>
      (x = tid \<and> d \<in> set (t_domains t) \<and> lower d = d) \<or> (x \<noteq> tid \<and> dget (domain_map tm) d = Some x)"
  shows "domains_ok \<lparr>tenants = dset (tenants tm) tid t, domain_map = dm\<rparr>"
proof (rule domains_okI)
  fix d x
  assume "dget (domain_map \<lparr>tenants = dset (tenants tm) tid t, domain_map = dm\<rparr>) d = Some x"
  then have "dget dm d = Some x" by simp
  from new [OF this] show "lower d = d \<and> (\<exists>t'. get_tenant \<lparr>tenants = dset (tenants tm) tid t, domain_map = dm\<rparr> x = Some t' \<and> d \<in> set (t_domains t'))"
    by (elim disjE conjE domains_okE [OF ok]) (auto simp: get_tenant_def)
next
  fix x u
  assume "get_tenant \<lparr>tenants = dset (tenants tm) tid t, domain_map = dm\<rparr> x = Some u"
  then show "t_id u = x" using domains_ok_id [OF ok, of x u] id by (simp add: get_tenant_def split: if_splits)
qed

lemma domains_ok_create:
  assumes "domains_ok tm" "create_tenant tid sp tm = Inr (t, tm')"
  shows "domains_ok tm'"
proof -
  from assms(2) have new: "get_tenant tm tid = None"
    and tm': "tm' = \<lparr>tenants = dset (tenants tm) tid t, domain_map = map_domains tid (t_domains t) (domain_map tm)\<rparr>"
    and t: "t_id t = tid" "t_domains t = map lower (s_domains sp)"
    by (auto simp: create_tenant_def get_tenant_def Let_def split: if_splits)
  have "dget (domain_map tm) d \<noteq> Some tid" for d using new by (auto elim: domains_okE [OF assms(1)])
  then show ?thesis
    unfolding tm' by (intro domains_ok_store assms(1) t(1)) (auto simp: dget_map_domains t(2) split: if_splits)
qed

lemma domains_ok_update:
  assumes ok: "domains_ok tm" and u: "update_tenant tid ds fs tm = Inr (t', tm')"
  shows "domains_ok tm'"
proof -
  from u obtain t where t: "get_tenant tm tid = Some t"
    by (cases "get_tenant tm tid") (simp_all add: update_tenant_def)
  have listed: "d \<in> set (t_domains t) \<and> lower d = d" if "dget (domain_map tm) d = Some tid" for d
    using that t by (auto elim: domains_okE [OF ok])
  show ?thesis
  proof (cases ds)
    case None
    then have tm': "tm' = \<lparr>tenants = dset (tenants tm) tid (fold set_field fs t), domain_map = domain_map tm\<rparr>"
      using u t by (auto simp: update_tenant_def Let_def)
    show ?thesis
      unfolding tm' using listed domains_ok_id [OF ok t] by (intro domains_ok_store ok) (auto simp: set_fields_keep)
  next
    case (Some l)
    let ?t1 = "t\<lparr>t_domains := map lower l\<rparr>"
    have tm': "tm' = \<lparr>tenants = dset (tenants tm) tid (fold set_field fs ?t1),
        domain_map = map_domains tid (map lower l) (unmap_domains tid (t_domains t) (domain_map tm))\<rparr>"
      using u t Some by (auto simp: update_tenant_def Let_def)
    show ?thesis
      unfolding tm' using listed domains_ok_id [OF ok t]
      by (intro domains_ok_store ok) (auto simp: set_fields_keep dget_map_domains dget_unmap_domains split: if_splits)
  qed
qed

lemma domains_ok_deprovision:
  assumes ok: "domains_ok tm"
  shows "domains_ok (snd (snd (deprovision_tenant tid purge base tm)))"
proof (cases "get_tenant tm tid")
  case (Some t)
  let ?tm = "snd (snd (deprovision_tenant tid purge base tm))"
  have tm': "domain_map ?tm = unmap_domains tid (t_domains t) (domain_map tm)"
    "get_tenant ?tm x = (if x = tid then None else get_tenant tm x)" for x
    using Some by (simp_all add: deprovision_tenant_def get_tenant_def)
  show ?thesis
  proof (rule domains_okI)
    fix d x
    assume "dget (domain_map ?tm) d = Some x"
    then have "dget (domain_map tm) d = Some x" "\<not> (d \<in> set (t_domains t) \<and> x = tid)"
      by (auto simp: tm' dget_unmap_domains split: if_splits)
    from domains_okE [OF ok this(1)] this(2) Some
    show "lower d = d \<and> (\<exists>t. get_tenant ?tm x = Some t \<and> d \<in> set (t_domains t))"
      unfolding tm' by (metis option.inject)
  next
    fix x u
    assume "get_tenant ?tm x = Some u"
    then show "t_id u = x" using domains_ok_id [OF ok] by (simp add: tm' split: if_splits)
  qed
qed (use ok in \<open>simp add: deprovision_tenant_def\<close>)

datatype tenant_op =
    Create string tenant_spec
  | Update string "string list option" "tenant_field list"
  | Deprovision string bool "string option"

fun tenant_apply :: "tenant_manager \<Rightarrow> tenant_op \<Rightarrow> tenant_manager" where
  "tenant_apply tm (Create tid sp) = (case create_tenant tid sp tm of Inl _ \<Rightarrow> tm | Inr (_, tm') \<Rightarrow> tm')"
| "tenant_apply tm (Update tid ds fs) = (case update_tenant tid ds fs tm of Inl _ \<Rightarrow> tm | Inr (_, tm') \<Rightarrow> tm')"
| "tenant_apply tm (Deprovision tid purge base) = snd (snd (deprovision_tenant tid purge base tm))"

definition tenant_run :: "tenant_op list \<Rightarrow> tenant_manager" where
  "tenant_run ops = foldl tenant_apply no_tenants ops"

lemma domains_ok_step:
  assumes ok: "domains_ok tm"
  shows "domains_ok (tenant_apply tm op)"
proof (cases op)
  case (Create tid sp)
  then show ?thesis
    using ok domains_ok_create [OF ok, of tid sp "fst (projr (create_tenant tid sp tm))" "snd (projr (create_tenant tid sp tm))"]
    by (cases "create_tenant tid sp tm") (simp_all add: split_beta)
next
  case (Update tid ds fs)
  then show ?thesis
    using ok domains_ok_update [OF ok, of tid ds fs "fst (projr (update_tenant tid ds fs tm))" "snd (projr (update_tenant tid ds fs tm))"]
    by (cases "update_tenant tid ds fs tm") (simp_all add: split_beta)
qed (simp add: domains_ok_deprovision ok)

lemma domains_ok_none: "domains_ok no_tenants"
  by (simp add: domains_ok_def no_tenants_def get_tenant_def)

lemma domains_ok_run: "domains_ok (tenant_run ops)"
proof -
  have "domains_ok tm \<Longrightarrow> domains_ok (foldl tenant_apply tm ops)" for tm
    by (induction ops arbitrary: tm) (auto intro: domains_ok_step)
  then show ?thesis by (simp add: tenant_run_def domains_ok_none)
qed

text \<open>What \<open>get_tenant_by_domain\<close> looks at: the domain part of the address, then its parent domain.\<close>

definition lookup_domains :: "string \<Rightarrow> string list" where
  "lookup_domains addr =
     (let d0 = strip (lower addr);
          d = (if CHR ''@'' \<in> set d0 then after_last (CHR ''@'') d0 else d0);
          parts = split_char (CHR ''.'') d
      in d # (if length parts > 2 then [join ''.'' (tl parts)] else []))"

text \<open>C22: However tenants are created, updated and removed, mail is attributed only to a live tenant that lists
  the address's domain or its parent domain: a removed tenant, or one that gave a domain up, gets none
  of its mail.\<close>
theorem mail_goes_to_owner:
  assumes "get_tenant_by_domain (tenant_run ops) addr = Some t"
  shows "get_tenant (tenant_run ops) (t_id t) = Some t \<and> (\<exists>d \<in> set (lookup_domains addr). d \<in> set (t_domains t))"
proof -
  have own: "get_tenant (tenant_run ops) (t_id t) = Some t \<and> d \<in> set (t_domains t)"
    if "mapped_tenant (tenant_run ops) d = Some (Some t)" for d
  proof -
    from that obtain tid where "dget (domain_map (tenant_run ops)) d = Some tid" "get_tenant (tenant_run ops) tid = Some t"
      by (auto simp: mapped_tenant_def get_tenant_def split: option.splits list.splits)
    then show ?thesis by (elim domains_okE [OF domains_ok_run]) simp
  qed
  from assms obtain d where "d \<in> set (lookup_domains addr)" "mapped_tenant (tenant_run ops) d = Some (Some t)"
    by (auto simp: get_tenant_by_domain_def lookup_domains_def Let_def split: option.splits if_splits)
  with own show ?thesis by blast
qed

definition example_tenant :: tenant_spec where
  "example_tenant = \<lparr>s_name = ''Acme'', s_domains = [''Acme.io''], s_key = None, s_fresh_key = ''k1'', s_warn = 40,
     s_quarantine = 70, s_max_requests = 500, s_vt = None, s_gsb = None, s_timezone = ''UTC'', s_now = 0\<rparr>"

definition acme :: tenant where
  "acme = \<lparr>t_id = ''acme'', t_name = ''Acme'', t_domains = [''acme.io''], t_status = ''active'',
     t_encryption_key = ''k1'', t_warn = 40, t_quarantine = 70, t_watchlist = [], t_vt_key = None, t_gsb_key = None,
     t_relay_host = None, t_max_requests = 500, t_timezone = ''UTC'', t_created = 0\<rparr>"

lemma acme_created: "create_tenant ''acme'' example_tenant no_tenants =
    Inr (acme, \<lparr>tenants = [(''acme'', acme)], domain_map = [(''acme.io'', ''acme'')]\<rparr>)"
proof -
  have "lower ''Acme.io'' = ''acme.io''" by code_simp
  then show ?thesis
    by (simp add: create_tenant_def no_tenants_def example_tenant_def acme_def map_domains_def Let_def)
qed

lemma acme_run: "tenant_run [Create ''acme'' example_tenant] =
    \<lparr>tenants = [(''acme'', acme)], domain_map = [(''acme.io'', ''acme'')]\<rparr>"
  by (simp add: tenant_run_def acme_created)

theorem mail_goes_to_owner_witness:
  "get_tenant (tenant_run [Create ''acme'' example_tenant]) ''acme'' = Some acme \<and>
     (\<exists>d \<in> set (lookup_domains ''joe@mail.acme.io''). d \<in> set (t_domains acme))"
proof -
  have "get_tenant_by_domain \<lparr>tenants = [(''acme'', acme)], domain_map = [(''acme.io'', ''acme'')]\<rparr> ''joe@mail.acme.io'' = Some acme"
  proof -
    have "lookup_domains ''joe@mail.acme.io'' = [''mail.acme.io'', ''acme.io'']" by code_simp
    then show ?thesis by (simp add: get_tenant_by_domain_def lookup_domains_def mapped_tenant_def Let_def split: if_splits)
  qed
  from mail_goes_to_owner [of "[Create ''acme'' example_tenant]", unfolded acme_run, OF this] show ?thesis
    unfolding acme_run by (simp add: acme_def)
qed

theorem tenant_dict_roundtrip_witness:
  "(case tenant_to_dict acme of JDict d \<Rightarrow> tenant_from_dict ''k2'' 9 d = Inr acme | _ \<Rightarrow> False)"
  by (rule tenant_dict_roundtrip) (simp add: acme_def)

subsection \<open>isolation.py\<close>

text \<open>\<open>os.path.join\<close>, and the directory the operating system finds under a path.\<close>

definition path_join :: "string \<Rightarrow> string \<Rightarrow> string" where
  "path_join base name =
     (if starts_with ''/'' name then name
      else if base = [] \<or> ends_with ''/'' base then base @ name
      else base @ ''/'' @ name)"

fun walk_path :: "string list \<Rightarrow> string list \<Rightarrow> string list" where
  "walk_path done [] = done"
| "walk_path done (c # cs) =
     (if c = [] \<or> c = ''.'' then walk_path done cs
      else if c = ''..'' then walk_path (butlast done) cs
      else walk_path (done @ [c]) cs)"

definition resolve_path :: "string \<Rightarrow> string list" where
  "resolve_path p = walk_path [] (split_char (CHR ''/'') p)"

text \<open>The cached ciphers and stores hold a key each; \<open>disk\<close> has the quarantine directories by their resolved paths.
  \<open>valid\<close> says which keys Fernet accepts.\<close>

record isolation =
  iso_base :: string
  iso_ciphers :: "(string, string) dict"
  iso_stores :: "(string, string) dict"
  disk :: "(string list, quarantine_dir) dict"

definition isolation_new :: "string \<Rightarrow> (string list, quarantine_dir) dict \<Rightarrow> isolation" where
  "isolation_new base d = \<lparr>iso_base = base, iso_ciphers = [], iso_stores = [], disk = d\<rparr>"

definition tenant_dir :: "isolation \<Rightarrow> string \<Rightarrow> string list" where
  "tenant_dir s tid = resolve_path (path_join (iso_base s) tid)"

definition get_cipher_for_tenant :: "(string \<Rightarrow> bool) \<Rightarrow> tenant \<Rightarrow> isolation \<Rightarrow> string result \<times> isolation" where
  "get_cipher_for_tenant valid t s = (case dget (iso_ciphers s) (t_id t) of
       Some key \<Rightarrow> (Inr key, s)
     | None \<Rightarrow> (let key = t_encryption_key t in
         if key \<noteq> [] \<and> \<not> valid key then (Inl (ValueError ''Fernet key''), s)
         else (Inr key, s\<lparr>iso_ciphers := dset (iso_ciphers s) (t_id t) key\<rparr>)))"

definition make_store :: "string \<Rightarrow> string option \<Rightarrow> isolation \<Rightarrow> quarantine_store result \<times> isolation" where
  "make_store tid cipher s =
     (let d = dgetd (disk s) (tenant_dir s tid) empty_dir;
          st = store_new d cipher
      in (Inr st, s\<lparr>iso_stores := dset (iso_stores s) tid (qs_key st), disk := dset (disk s) (tenant_dir s tid) d\<rparr>))"

definition get_store_for_tenant ::
    "(string \<Rightarrow> bool) \<Rightarrow> tenant_manager \<Rightarrow> string \<Rightarrow> isolation \<Rightarrow> quarantine_store result \<times> isolation" where
  "get_store_for_tenant valid tm tid s = (case dget (iso_stores s) tid of
       Some key \<Rightarrow> (Inr \<lparr>qs_dir = dgetd (disk s) (tenant_dir s tid) empty_dir, qs_key = key\<rparr>, s)
     | None \<Rightarrow> (case get_tenant tm tid of
           None \<Rightarrow> make_store tid None s
         | Some t \<Rightarrow> (case get_cipher_for_tenant valid t s of
             (Inl e, s1) \<Rightarrow> (Inl e, s1)
           | (Inr key, s1) \<Rightarrow> make_store tid (Some key) s1)))"

text \<open>Writing into a directory that was removed meanwhile is an error; listing it gives nothing.\<close>

definition iso_store :: "(string \<Rightarrow> bool) \<Rightarrow> fernet \<Rightarrow> string \<Rightarrow> string \<Rightarrow> rat \<Rightarrow> tenant_manager \<Rightarrow> string \<Rightarrow> mail \<Rightarrow> isolation \<Rightarrow>
    quarantine_record result \<times> isolation" where
  "iso_store valid f nonce qid now tm tid m s = (case get_store_for_tenant valid tm tid s of
       (Inl e, s1) \<Rightarrow> (Inl e, s1)
     | (Inr st, s1) \<Rightarrow>
         (if dget (disk s1) (tenant_dir s1 tid) = None then (Inl (OtherError ''FileNotFoundError''), s1)
          else (let (r, st') = q_store f nonce qid now m st
                in (Inr r, s1\<lparr>disk := dset (disk s1) (tenant_dir s1 tid) (qs_dir st')\<rparr>))))"

definition iso_list_pending ::
    "(string \<Rightarrow> bool) \<Rightarrow> tenant_manager \<Rightarrow> string \<Rightarrow> isolation \<Rightarrow> quarantine_record list result \<times> isolation" where
  "iso_list_pending valid tm tid s = (case get_store_for_tenant valid tm tid s of
       (Inl e, s1) \<Rightarrow> (Inl e, s1) | (Inr st, s1) \<Rightarrow> (Inr (list_pending st), s1))"

text \<open>\<open>shutil.rmtree\<close> of the directory a deprovisioned tenant leaves; a name that ends in a dot component cannot
  be removed itself, only what it holds.\<close>

definition remove_tree :: "string \<times> string \<Rightarrow> isolation \<Rightarrow> isolation" where
  "remove_tree bt s =
     (let p = resolve_path (path_join (fst bt) (snd bt));
          dotted = (after_last (CHR ''/'') (snd bt) \<in> {''.'', ''..''})
      in s\<lparr>disk := List.map_filter (\<lambda>(q, d). if take (length p) q \<noteq> p then Some (q, d)
           else if q = p \<and> dotted then Some (q, empty_dir) else None) (disk s)\<rparr>)"

subsection \<open>msp\_view.py\<close>

definition record_message_processed :: "string \<Rightarrow> (string, int) dict \<Rightarrow> (string, int) dict" where
  "record_message_processed tid c = dset c tid (dgetd c tid 0 + 1)"

definition tenant_summary :: "(string, int) dict \<Rightarrow> tenant \<Rightarrow> int \<Rightarrow> json" where
  "tenant_summary counts t n = JDict
     [(''tenant_id'', JStr (t_id t)), (''name'', JStr (t_name t)), (''status'', JStr (t_status t)),
      (''domains_count'', JInt (int (length (t_domains t)))),
      (''messages_processed'', JInt (dgetd counts (t_id t) 0)), (''pending_quarantine_count'', JInt n),
      (''created_at'', JNum (t_created t))]"

fun summary_loop :: "(string \<Rightarrow> bool) \<Rightarrow> tenant_manager \<Rightarrow> (string, int) dict \<Rightarrow> tenant list \<Rightarrow> isolation \<Rightarrow> json list \<Rightarrow> int \<Rightarrow>
    (json list \<times> int) result \<times> isolation" where
  "summary_loop valid tm counts [] s acc tot = (Inr (acc, tot), s)"
| "summary_loop valid tm counts (t # ts) s acc tot = (case iso_list_pending valid tm (t_id t) s of
     (Inl e, s1) \<Rightarrow> (Inl e, s1)
   | (Inr pending, s1) \<Rightarrow>
       (let n = int (length pending)
        in summary_loop valid tm counts ts s1 (acc @ [tenant_summary counts t n]) (tot + n)))"

definition generate_dashboard_summary ::
    "(string \<Rightarrow> bool) \<Rightarrow> tenant_manager \<Rightarrow> (string, int) dict \<Rightarrow> rat \<Rightarrow> isolation \<Rightarrow> json result \<times> isolation" where
  "generate_dashboard_summary valid tm counts now s =
     (let ts = list_tenants tm in
      case summary_loop valid tm counts ts s [] 0 of
        (Inl e, s1) \<Rightarrow> (Inl e, s1)
      | (Inr (rows, held), s1) \<Rightarrow> (Inr (JDict
          [(''generated_at'', JNum now),
           (''aggregate_metrics'', JDict
             [(''total_tenants'', JInt (int (length ts))),
              (''active_tenants'', JInt (int (length (filter (\<lambda>t. t_status t = ''active'') ts)))),
              (''total_messages_processed'', JInt (sum_list (map snd counts))),
              (''total_pending_quarantine'', JInt held)]),
           (''tenants'', JList rows)]), s1))"

subsection \<open>Isolation\<close>

text \<open>The directory of an id that is a plain name.\<close>

definition plain_id :: "string \<Rightarrow> bool" where
  "plain_id tid \<longleftrightarrow> tid \<notin> {[], ''.'', ''..''} \<and> CHR ''/'' \<notin> set tid"

lemma walk_append: "walk_path d (as @ bs) = walk_path (walk_path d as) bs"
  by (induction d as rule: walk_path.induct) simp_all

lemma split_char_at: "split_char c (a @ c # b) = split_char c a @ split_char c b"
  by (induction a) (auto split: list.split)

lemma joined_dir:
  assumes "\<not> starts_with ''/'' tid"
  shows "resolve_path (path_join base tid) = walk_path (resolve_path base) (split_char (CHR ''/'') tid)"
proof (cases "base = [] \<or> ends_with ''/'' base")
  case True
  then consider "base = []" | b where "base = b @ ''/''" by (auto simp: ends_with_iff)
  then show ?thesis
    using assms True by cases (simp_all add: path_join_def resolve_path_def split_char_at walk_append)
next
  case False
  then show ?thesis using assms by (simp add: path_join_def resolve_path_def split_char_at walk_append)
qed

lemma plain_dir:
  assumes "plain_id tid"
  shows "tenant_dir s tid = resolve_path (iso_base s) @ [tid]"
proof -
  have "\<not> starts_with ''/'' tid" using assms by (cases tid) (auto simp: plain_id_def starts_with_def)
  then show ?thesis using assms by (simp add: tenant_dir_def joined_dir plain_id_def split_char_single)
qed

lemma plain_dirs_differ: "plain_id x \<Longrightarrow> plain_id y \<Longrightarrow> x \<noteq> y \<Longrightarrow> tenant_dir s x \<noteq> tenant_dir s y"
  by (simp add: plain_dir)


text \<open>A site from its start: tenants come and go, their stores are used, and what a tenant leaves may be purged.\<close>

datatype site_op =
    Tenants tenant_op
  | StoreMail string string rat string mail
  | ListPending string

fun site_apply :: "(string \<Rightarrow> bool) \<Rightarrow> fernet \<Rightarrow> tenant_manager \<times> isolation \<Rightarrow> site_op \<Rightarrow> tenant_manager \<times> isolation" where
  "site_apply valid f (tm, s) (Tenants op) = (tenant_apply tm op,
     (case op of
        Deprovision tid purge base \<Rightarrow> (case fst (snd (deprovision_tenant tid purge base tm)) of
            None \<Rightarrow> s | Some bt \<Rightarrow> remove_tree bt s)
      | _ \<Rightarrow> s))"
| "site_apply valid f (tm, s) (StoreMail nonce qid now tid m) = (tm, snd (iso_store valid f nonce qid now tm tid m s))"
| "site_apply valid f (tm, s) (ListPending tid) = (tm, snd (iso_list_pending valid tm tid s))"

definition site_run :: "(string \<Rightarrow> bool) \<Rightarrow> fernet \<Rightarrow> site_op list \<Rightarrow> tenant_manager \<times> isolation \<Rightarrow> tenant_manager \<times> isolation" where
  "site_run valid f ops w = foldl (site_apply valid f) w ops"

text \<open>Operations that neither remove a tenant nor set its key.\<close>

fun sets_key :: "tenant_field \<Rightarrow> bool" where
  "sets_key (FKey k) = True"
| "sets_key _ = False"

fun keeps_key :: "string \<Rightarrow> site_op \<Rightarrow> bool" where
  "keeps_key tid (Tenants (Update x ds fs)) = (x = tid \<longrightarrow> list_all (\<lambda>g. \<not> sets_key g) fs)"
| "keeps_key tid (Tenants (Deprovision x purge base)) = (x \<noteq> tid)"
| "keeps_key tid _ = True"

text \<open>What asking for a tenant's store changes.\<close>

lemma get_store_effect:
  assumes "get_store_for_tenant valid tm tid s = (r, s')" "domains_ok tm"
  shows "iso_base s' = iso_base s"
    and "x \<noteq> tid \<Longrightarrow> dget (iso_stores s') x = dget (iso_stores s) x \<and> dget (iso_ciphers s') x = dget (iso_ciphers s) x"
    and "dget (disk s') p = (if p = tenant_dir s tid \<and> is_ok r \<and> dget (iso_stores s) tid = None
      then Some (dgetd (disk s) p empty_dir) else dget (disk s) p)"
    and "r = Inr st \<Longrightarrow> dget (iso_stores s') tid = Some (qs_key st) \<and> qs_dir st = dgetd (disk s) (tenant_dir s tid) empty_dir"
  using assms
  by (auto simp: get_store_for_tenant_def make_store_def get_cipher_for_tenant_def Let_def store_new_def tenant_dir_def
      domains_ok_id split: option.splits if_splits)

lemma iso_store_effect:
  assumes "iso_store valid f nonce qid now tm tid m s = (Inr r, s')"
  obtains st s1 where "get_store_for_tenant valid tm tid s = (Inr st, s1)"
    "s' = s1\<lparr>disk := dset (disk s1) (tenant_dir s1 tid) (qs_dir (snd (q_store f nonce qid now m st)))\<rparr>"
  using assms by (cases "get_store_for_tenant valid tm tid s")
    (auto simp: iso_store_def split_def Let_def split: sum.splits if_splits)

lemma iso_list_effect:
  "snd (iso_list_pending valid tm tid s) = snd (get_store_for_tenant valid tm tid s)"
  by (simp add: iso_list_pending_def split: prod.split sum.split)

lemma iso_store_caches:
  "iso_stores (snd (iso_store valid f nonce qid now tm tid m s)) = iso_stores (snd (get_store_for_tenant valid tm tid s))"
  "iso_ciphers (snd (iso_store valid f nonce qid now tm tid m s)) = iso_ciphers (snd (get_store_for_tenant valid tm tid s))"
  by (auto simp: iso_store_def split_def Let_def split: prod.split sum.split)

lemma remove_tree_caches [simp]:
  "iso_stores (remove_tree bt s) = iso_stores s" "iso_ciphers (remove_tree bt s) = iso_ciphers s"
  by (simp_all add: remove_tree_def Let_def)

text \<open>A key is cached for a tenant only with its store, and then it is the key the store writes with.\<close>

definition caches_ok :: "isolation \<Rightarrow> bool" where
  "caches_ok s \<longleftrightarrow> (\<forall>x. dget (iso_stores s) x = None \<longrightarrow> dget (iso_ciphers s) x = None)"

definition key_kept :: "string \<Rightarrow> string \<Rightarrow> tenant_manager \<Rightarrow> isolation \<Rightarrow> bool" where
  "key_kept tid key tm s \<longleftrightarrow> (\<exists>t. get_tenant tm tid = Some t \<and> t_encryption_key t = key) \<and>
     dget (iso_stores s) tid \<in> {None, Some key} \<and> dget (iso_ciphers s) tid \<in> {None, Some key}"

lemma caches_ok_get_store:
  assumes "domains_ok tm" "caches_ok s"
  shows "caches_ok (snd (get_store_for_tenant valid tm tid s))"
  using assms
  by (auto simp: caches_ok_def get_store_for_tenant_def make_store_def get_cipher_for_tenant_def Let_def domains_ok_id
      split: option.splits if_splits)

lemma key_kept_get_store:
  assumes "domains_ok tm" "key_kept tid key tm s"
  shows "key_kept tid key tm (snd (get_store_for_tenant valid tm x s))"
  using assms
  by (auto simp: key_kept_def get_store_for_tenant_def make_store_def get_cipher_for_tenant_def Let_def domains_ok_id
      store_new_def split: option.splits if_splits)

lemma keys_unset: "list_all (\<lambda>g. \<not> sets_key g) fs \<Longrightarrow> t_encryption_key (fold set_field fs t) = t_encryption_key t"
proof (induction fs arbitrary: t)
  case (Cons g fs)
  then show ?case by (cases g) simp_all
qed simp

lemma site_manager:
  "fst (site_apply valid f (tm, s) op) = (case op of Tenants act \<Rightarrow> tenant_apply tm act | _ \<Rightarrow> tm)"
  by (cases op) simp_all

lemma domains_ok_site: "domains_ok (fst w) \<Longrightarrow> domains_ok (fst (site_apply valid f w op))"
  by (cases w) (simp add: site_manager domains_ok_step split: site_op.split)

lemma caches_ok_same:
  "iso_stores s' = iso_stores s \<Longrightarrow> iso_ciphers s' = iso_ciphers s \<Longrightarrow> caches_ok s \<Longrightarrow> caches_ok s'"
  by (simp add: caches_ok_def)

lemma key_kept_same:
  "iso_stores s' = iso_stores s \<Longrightarrow> iso_ciphers s' = iso_ciphers s \<Longrightarrow> key_kept tid key tm s \<Longrightarrow> key_kept tid key tm s'"
  by (simp add: key_kept_def)

lemma site_tenants_caches:
  "iso_stores (snd (site_apply valid f (tm, s) (Tenants act))) = iso_stores s"
  "iso_ciphers (snd (site_apply valid f (tm, s) (Tenants act))) = iso_ciphers s"
  by (auto split: tenant_op.split option.split)

lemma caches_ok_site:
  assumes "domains_ok tm" "caches_ok s"
  shows "caches_ok (snd (site_apply valid f (tm, s) op))"
proof (cases op)
  case (Tenants act)
  then show ?thesis using caches_ok_same [OF site_tenants_caches assms(2)] by simp
next
  case (StoreMail nonce qid now tid m)
  then show ?thesis using caches_ok_same [OF iso_store_caches caches_ok_get_store [OF assms]] by simp
next
  case (ListPending tid)
  then show ?thesis using caches_ok_get_store [OF assms] by (simp add: iso_list_effect)
qed

lemma key_kept_manager:
  assumes "get_tenant tm' tid = map_option h (get_tenant tm tid)" "\<And>t. t_encryption_key (h t) = t_encryption_key t"
    and "key_kept tid key tm s"
  shows "key_kept tid key tm' s"
  using assms by (auto simp: key_kept_def)

lemma tenant_step_key:
  assumes "keeps_key tid (Tenants act)" "key_kept tid key tm s"
  shows "key_kept tid key (tenant_apply tm act) s"
proof -
  have "\<exists>t'. get_tenant (tenant_apply tm act) tid = Some t' \<and> t_encryption_key t' = t_encryption_key t"
    if t: "get_tenant tm tid = Some t" for t
    using assms(1) t
    by (cases act) (auto simp: create_tenant_def update_tenant_def deprovision_tenant_def get_tenant_def Let_def keys_unset
        split: sum.splits option.splits if_splits prod.splits)
  with assms(2) show ?thesis by (auto simp: key_kept_def)
qed

lemma key_kept_site:
  assumes "domains_ok tm" "keeps_key tid op" "key_kept tid key tm s"
  shows "key_kept tid key (fst (site_apply valid f (tm, s) op)) (snd (site_apply valid f (tm, s) op))"
proof (cases op)
  case (Tenants act)
  then show ?thesis
    using key_kept_same [OF site_tenants_caches tenant_step_key [of tid act key tm s]] assms by (simp add: site_manager)
next
  case (StoreMail nonce qid now x m)
  then show ?thesis using key_kept_same [OF iso_store_caches key_kept_get_store [OF assms(1,3)]] by simp
next
  case (ListPending x)
  then show ?thesis using key_kept_get_store [OF assms(1,3)] by (simp add: iso_list_effect)
qed

lemma site_run_ok:
  assumes "domains_ok (fst w)" "caches_ok (snd w)"
  shows "domains_ok (fst (site_run valid f ops w)) \<and> caches_ok (snd (site_run valid f ops w))"
  using assms
proof (induction ops arbitrary: w)
  case (Cons op ops)
  have "domains_ok (fst (site_apply valid f w op))" "caches_ok (snd (site_apply valid f w op))"
    using domains_ok_site [of w] caches_ok_site [of "fst w" "snd w"] Cons.prems by simp_all
  from Cons.IH [OF this] show ?case by (simp add: site_run_def)
qed (simp add: site_run_def)

lemma site_run_key:
  assumes "domains_ok (fst w)" "key_kept tid key (fst w) (snd w)" "list_all (keeps_key tid) ops"
  shows "domains_ok (fst (site_run valid f ops w)) \<and> key_kept tid key (fst (site_run valid f ops w)) (snd (site_run valid f ops w))"
  using assms
proof (induction ops arbitrary: w)
  case (Cons op ops)
  have "domains_ok (fst (site_apply valid f w op))"
    "key_kept tid key (fst (site_apply valid f w op)) (snd (site_apply valid f w op))"
    using domains_ok_site [of w] key_kept_site [of "fst w" tid op key "snd w"] Cons.prems by simp_all
  from Cons.IH [OF this] Cons.prems show ?case by (simp add: site_run_def)
qed (simp add: site_run_def)

lemma site_start_ok: "domains_ok (fst (no_tenants, isolation_new base d)) \<and> caches_ok (snd (no_tenants, isolation_new base d))"
  by (simp add: domains_ok_none caches_ok_def isolation_new_def)

lemma created_key_kept:
  assumes "create_tenant tid sp tm = Inr (t, tm')" "caches_ok s" "dget (iso_stores s) tid = None"
  shows "key_kept tid (t_encryption_key t) tm' s"
  using assms by (auto simp: create_tenant_def key_kept_def caches_ok_def get_tenant_def Let_def split: if_splits)

lemma created_key_nonempty:
  "create_tenant tid sp tm = Inr (t, tm') \<Longrightarrow> s_fresh_key sp \<noteq> [] \<Longrightarrow> t_encryption_key t \<noteq> []"
  by (auto simp: create_tenant_def Let_def split: if_splits option.splits list.splits)

text \<open>A store that was asked for keeps its key, and lists what its directory holds.\<close>

lemma listed_same:
  assumes "dget (iso_stores s') x = dget (iso_stores s) x" "dget (iso_ciphers s') x = dget (iso_ciphers s) x"
    and "dget (disk s') (tenant_dir s' x) = dget (disk s) (tenant_dir s x)" "domains_ok tm"
  shows "fst (iso_list_pending valid tm x s') = fst (iso_list_pending valid tm x s)"
  using assms
  by (auto simp: iso_list_pending_def get_store_for_tenant_def make_store_def get_cipher_for_tenant_def Let_def store_new_def
      tenant_dir_def dgetd_def domains_ok_id split: option.split)

text \<open>C23: Tenants are isolated, from the start of the site on: a tenant created before anything asked for its store
  has every message quarantined for it written under its own key, encrypted, whatever all tenants do
  meanwhile (short of removing it or setting its key); and no other tenant's directory, nor what is listed of it,
  changes, for tenants whose ids are plain names.\<close>
theorem quarantine_isolated:
  assumes "site_run valid f hist (no_tenants, isolation_new base d) = (tm, s)"
    and "dget (iso_stores s) tid = None" "s_fresh_key sp \<noteq> []" "create_tenant tid sp tm = Inr (t, tm')"
    and "site_run valid f ops (tm', s) = (tm2, s2)" "list_all (keeps_key tid) ops"
    and "iso_store valid f nonce qid now tm2 tid m s2 = (Inr r, s3)"
  shows "(\<exists>dir. dget (disk s3) (tenant_dir s3 tid) = Some dir \<and>
       dget (emls dir) (qid @ ''.eml.enc'') = Some (f_encrypt f (t_encryption_key t) nonce (m_raw m))) \<and>
    (plain_id tid \<longrightarrow> (\<forall>x. plain_id x \<and> x \<noteq> tid \<longrightarrow>
       dget (disk s3) (tenant_dir s3 x) = dget (disk s2) (tenant_dir s2 x) \<and>
       fst (iso_list_pending valid tm2 x s3) = fst (iso_list_pending valid tm2 x s2)))"
proof -
  let ?key = "t_encryption_key t"
  have hist: "domains_ok tm" "caches_ok s"
    using site_run_ok [of "(no_tenants, isolation_new base d)" valid f hist] site_start_ok assms(1) by simp_all
  have "domains_ok tm'" using domains_ok_create [OF hist(1) assms(4)] .
  with created_key_kept [OF assms(4) hist(2) assms(2)] assms(5,6)
  have dom: "domains_ok tm2" and kept: "key_kept tid ?key tm2 s2"
    using site_run_key [of "(tm', s)" tid ?key ops valid f] by simp_all
  obtain st s1 where g: "get_store_for_tenant valid tm2 tid s2 = (Inr st, s1)"
    and s3: "s3 = s1\<lparr>disk := dset (disk s1) (tenant_dir s1 tid) (qs_dir (snd (q_store f nonce qid now m st)))\<rparr>"
    using assms(7) by (rule iso_store_effect)
  note eff = get_store_effect [OF g dom]
  have base: "tenant_dir s3 x = tenant_dir s2 x" "tenant_dir s1 x = tenant_dir s2 x" for x
    using eff(1) by (simp_all add: s3 tenant_dir_def)
  have "qs_key st = ?key"
    using key_kept_get_store [OF dom kept, of valid tid] eff(4) [OF refl] g by (simp add: key_kept_def)
  then have body: "dget (emls (qs_dir (snd (q_store f nonce qid now m st)))) (qid @ ''.eml.enc'') =
      Some (f_encrypt f ?key nonce (m_raw m))"
    using created_key_nonempty [OF assms(4,3)] by (simp add: q_store_def Let_def eml_path_def cipher_enabled_def cipher_encrypt_def)
  have other: "dget (disk s3) (tenant_dir s3 x) = dget (disk s2) (tenant_dir s2 x)"
    if "plain_id tid" "plain_id x" "x \<noteq> tid" for x
    using eff(3) plain_dirs_differ [OF that(2,1,3), of s2] by (simp add: base) (simp add: s3 base)
  moreover have "fst (iso_list_pending valid tm2 x s3) = fst (iso_list_pending valid tm2 x s2)"
    if "plain_id tid" "plain_id x" "x \<noteq> tid" for x
    using listed_same [OF _ _ other [OF that] dom] eff(2) [OF that(3)] by (simp add: s3)
  moreover have "dget (disk s3) (tenant_dir s3 tid) = Some (qs_dir (snd (q_store f nonce qid now m st)))"
    unfolding base(1) by (simp add: s3 base(2))
  ultimately show ?thesis using body by blast
qed

text \<open>Listing a stranger's quarantine first, then a tenant: both write what they should.\<close>

definition example_site :: "tenant_manager \<times> isolation" where
  "example_site = site_run (\<lambda>_. True) toy_fernet [ListPending ''other''] (no_tenants, isolation_new ''/q'' [])"

definition with_acme :: "tenant_manager \<times> isolation" where
  "with_acme = (tenant_run [Create ''acme'' example_tenant], snd example_site)"

definition acme_at_work :: "tenant_manager \<times> isolation" where
  "acme_at_work = site_run (\<lambda>_. True) toy_fernet
     [StoreMail ''n'' ''q0'' 1 ''other'' example_mail, Tenants (Update ''acme'' None [FName ''Acme Inc''])] with_acme"

lemma example_dirs:
  "tenant_dir s ''acme'' = resolve_path (iso_base s) @ [''acme'']" "tenant_dir s ''other'' = resolve_path (iso_base s) @ [''other'']"
  by (simp_all add: plain_dir plain_id_def)

lemma acme_stores: "is_ok (fst (iso_store (\<lambda>_. True) toy_fernet ''n'' ''q1'' 5 (fst acme_at_work) ''acme'' example_mail (snd acme_at_work)))"
  by (simp add: acme_at_work_def with_acme_def example_site_def site_run_def acme_run iso_store_def iso_list_pending_def
      get_store_for_tenant_def get_tenant_def no_tenants_def isolation_new_def make_store_def get_cipher_for_tenant_def
      Let_def split_def example_dirs update_tenant_def acme_def)

theorem quarantine_isolated_witness:
  "(let (r, s3) = iso_store (\<lambda>_. True) toy_fernet ''n'' ''q1'' 5 (fst acme_at_work) ''acme'' example_mail (snd acme_at_work)
    in (\<exists>dir. dget (disk s3) (tenant_dir s3 ''acme'') = Some dir \<and>
         dget (emls dir) ''q1.eml.enc'' = Some (f_encrypt toy_fernet ''k1'' ''n'' ''Subject: x'')) \<and>
       dget (disk s3) (tenant_dir s3 ''other'') = dget (disk (snd acme_at_work)) (tenant_dir (snd acme_at_work) ''other''))"
proof -
  obtain r s3 where e: "iso_store (\<lambda>_. True) toy_fernet ''n'' ''q1'' 5 (fst acme_at_work) ''acme'' example_mail (snd acme_at_work) = (Inr r, s3)"
    using acme_stores
    by (cases "iso_store (\<lambda>_. True) toy_fernet ''n'' ''q1'' 5 (fst acme_at_work) ''acme'' example_mail (snd acme_at_work)"; cases "fst (iso_store (\<lambda>_. True) toy_fernet ''n'' ''q1'' 5 (fst acme_at_work) ''acme'' example_mail (snd acme_at_work))") simp_all
  have hist: "site_run (\<lambda>_. True) toy_fernet [ListPending ''other''] (no_tenants, isolation_new ''/q'' []) = (no_tenants, snd example_site)"
    by (simp add: example_site_def site_run_def)
  have fresh: "dget (iso_stores (snd example_site)) ''acme'' = None"
    by (simp add: example_site_def site_run_def iso_list_pending_def get_store_for_tenant_def get_tenant_def no_tenants_def
        isolation_new_def make_store_def Let_def)
  have made: "create_tenant ''acme'' example_tenant no_tenants = Inr (acme, tenant_run [Create ''acme'' example_tenant])"
    by (simp add: acme_created acme_run)
  have work: "site_run (\<lambda>_. True) toy_fernet [StoreMail ''n'' ''q0'' 1 ''other'' example_mail, Tenants (Update ''acme'' None [FName ''Acme Inc''])]
      (tenant_run [Create ''acme'' example_tenant], snd example_site) = (fst acme_at_work, snd acme_at_work)"
    by (simp add: acme_at_work_def with_acme_def)
  have "s_fresh_key example_tenant \<noteq> []" by (simp add: example_tenant_def)
  from quarantine_isolated [OF hist fresh this made work _ e]
  have "(\<exists>dir. dget (disk s3) (tenant_dir s3 ''acme'') = Some dir \<and>
      dget (emls dir) ''q1.eml.enc'' = Some (f_encrypt toy_fernet (t_encryption_key acme) ''n'' (m_raw example_mail))) \<and>
    dget (disk s3) (tenant_dir s3 ''other'') = dget (disk (snd acme_at_work)) (tenant_dir (snd acme_at_work) ''other'')"
    by (simp add: plain_id_def)
  moreover have "t_encryption_key acme = ''k1''" "m_raw example_mail = ''Subject: x''" by (simp_all add: acme_def example_mail_def)
  ultimately show ?thesis by (simp add: e)
qed

text \<open>A store that is asked for before its tenant exists stays unencrypted: whatever key the tenant is then
  created with, its messages are written to disk as they are.\<close>
theorem early_store_stays_plaintext:
  assumes "get_tenant tm tid = None" "dget (iso_stores s) tid = None" "dget (disk s) (tenant_dir s tid) = None"
    and "create_tenant tid sp tm = Inr (t, tm')"
  shows "(let (_, s1) = iso_list_pending valid tm tid s;
              (_, s2) = iso_store valid f nonce qid now tm' tid m s1
          in Option.bind (dget (disk s2) (tenant_dir s tid)) (\<lambda>d. dget (emls d) (qid @ ''.eml'')) = Some (m_raw m))"
  using assms
  by (simp add: iso_list_pending_def get_store_for_tenant_def make_store_def store_new_def iso_store_def q_store_def Let_def
      eml_path_def cipher_enabled_def cipher_encrypt_def dgetd_def tenant_dir_def)

theorem early_store_stays_plaintext_witness:
  "(let (_, s1) = iso_list_pending (\<lambda>_. True) no_tenants ''acme'' (isolation_new ''/q'' []);
        (_, s2) = iso_store (\<lambda>_. True) toy_fernet ''n'' ''q1'' 5 (tenant_run [Create ''acme'' example_tenant]) ''acme'' example_mail s1
    in Option.bind (dget (disk s2) (tenant_dir (isolation_new ''/q'' []) ''acme'')) (\<lambda>d. dget (emls d) ''q1.eml'')) = Some ''Subject: x''"
proof -
  have "create_tenant ''acme'' example_tenant no_tenants = Inr (acme, tenant_run [Create ''acme'' example_tenant])"
    by (simp add: acme_created acme_run)
  from early_store_stays_plaintext [OF _ _ _ this, of "isolation_new ''/q'' []" "\<lambda>_. True" toy_fernet "''n''" "''q1''" 5 example_mail]
  show ?thesis by (simp add: get_tenant_def no_tenants_def isolation_new_def Let_def split_def example_mail_def)
qed

text \<open>An id is not checked, so one that walks through the path has the directory of another tenant, and lists what
  is held there.\<close>

lemma walking_id_shares_directory:
  "plain_id x \<Longrightarrow> plain_id tid \<Longrightarrow> tenant_dir s (x @ ''/../'' @ tid) = tenant_dir s tid"
proof -
  assume x: "plain_id x" and t: "plain_id tid"
  have one: "split_char (CHR ''/'') (x @ ''/../'' @ tid) = [x, ''..'', tid]"
    using x t by (simp add: plain_id_def split_char_append split_char_single)
  have n: "\<not> starts_with ''/'' (x @ ''/../'' @ tid)" using x by (cases x) (auto simp: plain_id_def starts_with_def)
  have w: "walk_path d [x, ''..'', tid] = d @ [tid]" for d using x t by (simp add: plain_id_def)
  have "tenant_dir s (x @ ''/../'' @ tid) = resolve_path (iso_base s) @ [tid]"
    by (simp only: tenant_dir_def joined_dir [OF n] one w)
  then show ?thesis by (simp only: plain_dir [OF t])
qed

lemma walking_id_reads_other:
  assumes "plain_id x" "plain_id tid" "get_tenant tm (x @ ''/../'' @ tid) = None"
    and "dget (iso_stores s) (x @ ''/../'' @ tid) = None" "dget (disk s) (tenant_dir s tid) = Some dir"
  shows "fst (iso_list_pending valid tm (x @ ''/../'' @ tid) s) = Inr (list_pending \<lparr>qs_dir = dir, qs_key = []\<rparr>)"
  using assms walking_id_shares_directory [OF assms(1,2), of s]
  by (simp add: iso_list_pending_def get_store_for_tenant_def make_store_def store_new_def Let_def dgetd_def)

text \<open>Setting a new key changes nothing for a tenant whose store is in use.\<close>

lemma rotated_key_unused:
  assumes "dget (iso_stores s) tid = Some key"
  shows "iso_store valid f nonce qid now tm tid m s = iso_store valid f nonce qid now tm' tid m s"
  using assms by (simp add: iso_store_def get_store_for_tenant_def)

text \<open>Removing the tenant of an empty id, or of \<open>.\<close>, purges every tenant's directory.\<close>

lemma dot_tenant_purges_all:
  assumes "tid \<in> {[], ''.''}" "plain_id x"
  shows "dget (disk (remove_tree (iso_base s, tid) s)) (tenant_dir s x) = None"
proof -
  have p: "resolve_path (path_join (iso_base s) tid) = resolve_path (iso_base s)"
    using assms(1) joined_dir [of tid "iso_base s"] by (auto simp: starts_with_def)
  have "dget (List.map_filter (\<lambda>(q, d). if take (length p) q \<noteq> p then Some (q, d) else if q = p \<and> b then Some (q, e) else None) xs)
      (p @ [x]) = None" for p b e and xs :: "(string list, quarantine_dir) dict"
    by (induction xs) (auto simp: List.map_filter_simps split: if_splits)
  then show ?thesis by (simp add: remove_tree_def Let_def p plain_dir [OF assms(2)])
qed

end
