(* ===== verification/PostDelivery.thy ===== *)
theory PostDelivery
  imports Delivery Identity
begin

text \<open>
  What happens to mail after delivery: \<open>delivery/mailbox_actions.py\<close>, \<open>auto_zap.py\<close>,
  \<open>user_reports.py\<close>, \<open>quarantine_digest.py\<close> and \<open>notify.py\<close>. The mailbox providers' clients and the
  HTTP client act on a world \<open>'w\<close>; SHA-256, HMAC and the clock are parameters. The operations are run
  one after the other.
\<close>

subsection \<open>mailbox\_actions.py\<close>

type_synonym 'w mailbox_call = "string \<Rightarrow> string \<Rightarrow> 'w \<Rightarrow> bool result \<times> 'w"

record 'w mailbox_client =
  mc_move :: "string \<Rightarrow> string \<Rightarrow> 'w \<Rightarrow> (string, json) dict result \<times> 'w"
  mc_trash :: "'w mailbox_call"
  mc_delete :: "'w mailbox_call"

record 'w mailbox_service =
  m365_client :: "'w mailbox_client option"
  google_client :: "'w mailbox_client option"

definition m365_names :: "string list" where
  "m365_names = [''m365'', ''graph'', ''microsoft'']"

definition google_names :: "string list" where
  "google_names = [''google'', ''workspace'', ''gmail'']"

definition move_report :: "string \<Rightarrow> string \<Rightarrow> (string, json) dict" where
  "move_report status provider =
     [(''status'', JStr status), (''provider'', JStr provider), (''action'', JStr ''move_to_junk'')]"

definition move_to_junk ::
    "'w mailbox_service \<Rightarrow> string \<Rightarrow> string \<Rightarrow> string \<Rightarrow> 'w \<Rightarrow> (string, json) dict result \<times> 'w" where
  "move_to_junk ms provider user mid w =
     (if lower provider \<in> set m365_names then
        (case m365_client ms of
           None \<Rightarrow> (Inr (move_report ''simulated'' ''m365''), w)
         | Some c \<Rightarrow> mc_move c user mid w)
      else if lower provider \<in> set google_names then
        (case google_client ms of
           None \<Rightarrow> (Inr (move_report ''simulated'' ''google''), w)
         | Some c \<Rightarrow> (case mc_trash c user mid w of
             (Inl e, w') \<Rightarrow> (Inl e, w')
           | (Inr ok, w') \<Rightarrow> (Inr (move_report (if ok then ''success'' else ''failed'') ''google''), w')))
      else (Inl (ValueError (''Unsupported mailbox provider: '' @ provider)), w))"

definition delete_message :: "'w mailbox_service \<Rightarrow> string \<Rightarrow> string \<Rightarrow> string \<Rightarrow> 'w \<Rightarrow> bool result \<times> 'w" where
  "delete_message ms provider user mid w =
     (if lower provider \<in> set m365_names then
        (case m365_client ms of None \<Rightarrow> (Inr True, w) | Some c \<Rightarrow> mc_delete c user mid w)
      else if lower provider \<in> set google_names then
        (case google_client ms of None \<Rightarrow> (Inr True, w) | Some c \<Rightarrow> mc_delete c user mid w)
      else (Inl (ValueError (''Unsupported mailbox provider: '' @ provider)), w))"

subsection \<open>auto\_zap.py\<close>

record delivered =
  dm_id :: string
  dm_recipients :: "(string \<times> string \<times> string) list"
  dm_urls :: "string list"
  dm_hashes :: "string list"
  dm_content_hash :: string
  dm_at :: rat
  zapped :: bool
  zap_reason :: string

type_synonym zap_records = "(string, delivered) dict"

definition register_delivery ::
    "string \<Rightarrow> (string \<times> string \<times> string) list \<Rightarrow> string list \<Rightarrow> string list \<Rightarrow> string \<Rightarrow> rat \<Rightarrow> zap_records \<Rightarrow> zap_records" where
  "register_delivery mid rcpts urls hashes content_hash now recs = dset recs mid
     \<lparr>dm_id = mid, dm_recipients = rcpts, dm_urls = urls, dm_hashes = hashes, dm_content_hash = content_hash,
      dm_at = now, zapped = False, zap_reason = []\<rparr>"

text \<open>The deletions of one record: whether all were reported as done.\<close>

fun delete_copies :: "'w mailbox_service \<Rightarrow> (string \<times> string \<times> string) list \<Rightarrow> bool \<Rightarrow> 'w \<Rightarrow> bool \<times> 'w" where
  "delete_copies ms [] ok w = (ok, w)"
| "delete_copies ms ((provider, user, mid) # rs) ok w =
     (case delete_message ms provider user mid w of
        (Inr True, w') \<Rightarrow> delete_copies ms rs ok w'
      | (_, w') \<Rightarrow> delete_copies ms rs False w')"

definition execute_zap :: "'w mailbox_service \<Rightarrow> string \<Rightarrow> delivered \<Rightarrow> 'w \<Rightarrow> bool \<times> delivered \<times> 'w" where
  "execute_zap ms reason rec w =
     (let (ok, w') = delete_copies ms (dm_recipients rec) True w
      in (ok, rec\<lparr>zapped := ok, zap_reason := reason\<rparr>, w'))"

fun zap_matching :: "'w mailbox_service \<Rightarrow> (delivered \<Rightarrow> bool) \<Rightarrow> string \<Rightarrow> zap_records \<Rightarrow> 'w \<Rightarrow>
    string list \<times> zap_records \<times> 'w" where
  "zap_matching ms hit reason [] w = ([], [], w)"
| "zap_matching ms hit reason ((k, rec) # rs) w =
     (if zapped rec \<or> \<not> hit rec then
        (let (ids, rs', w') = zap_matching ms hit reason rs w in (ids, (k, rec) # rs', w'))
      else
        (let (ok, rec', w1) = execute_zap ms reason rec w;
             (ids, rs', w2) = zap_matching ms hit reason rs w1
         in (if ok then k # ids else ids, (k, rec') # rs', w2)))"

definition url_hit :: "string \<Rightarrow> delivered \<Rightarrow> bool" where
  "url_hit target rec = list_ex (\<lambda>u. contains target u \<or> contains u target) (dm_urls rec)"

definition trigger_zap_by_url ::
    "'w mailbox_service \<Rightarrow> string \<Rightarrow> string \<Rightarrow> zap_records \<Rightarrow> 'w \<Rightarrow> string list \<times> zap_records \<times> 'w" where
  "trigger_zap_by_url ms target reason recs w = zap_matching ms (url_hit target) reason recs w"

definition trigger_zap_by_hash ::
    "'w mailbox_service \<Rightarrow> string \<Rightarrow> string \<Rightarrow> zap_records \<Rightarrow> 'w \<Rightarrow> string list \<times> zap_records \<times> 'w" where
  "trigger_zap_by_hash ms hash reason recs w =
     zap_matching ms (\<lambda>rec. list_ex (\<lambda>h. lower h = lower hash) (dm_hashes rec)) reason recs w"

definition trigger_zap_by_message_id ::
    "'w mailbox_service \<Rightarrow> string \<Rightarrow> string \<Rightarrow> zap_records \<Rightarrow> 'w \<Rightarrow> bool \<times> zap_records \<times> 'w" where
  "trigger_zap_by_message_id ms mid reason recs w = (case dget recs mid of
       None \<Rightarrow> (False, recs, w)
     | Some rec \<Rightarrow>
         if zapped rec then (False, recs, w)
         else (let (ok, rec', w') = execute_zap ms reason rec w in (ok, dset recs mid rec', w')))"

definition zap_stats :: "zap_records \<Rightarrow> (string, nat) dict" where
  "zap_stats recs = [(''tracked_messages'', length recs),
     (''zapped_messages'', length (filter (\<lambda>p. zapped (snd p)) recs))]"

subsection \<open>user\_reports.py\<close>

record phish_report =
  pr_id :: string
  pr_reporter :: string
  pr_message_id :: string
  pr_sender :: string
  pr_subject :: string
  pr_snippet :: string
  pr_urls :: "string list"
  pr_at :: rat
  pr_action :: string

record 'w report_handler =
  rh_feedback :: feedback_loop
  rh_zap :: "('w mailbox_service \<times> zap_records) option"
  rh_reports :: "phish_report list"

definition report_url_re :: re where
  "report_url_re = seqs [lit ''http'', Opt (lit ''s''), lit ''://'',
     plus (Sat (\<lambda>c. \<not> is_space c \<and> c \<notin> set ([CHR 0x22, CHR 0x27] @ ''<>'')))]"

definition extract_urls :: "string \<Rightarrow> string list" where
  "extract_urls text = map (group0 text) (find_all report_url_re text)"

fun zap_urls :: "'w mailbox_service \<Rightarrow> string \<Rightarrow> string list \<Rightarrow> zap_records \<Rightarrow> nat \<Rightarrow> 'w \<Rightarrow> nat \<times> zap_records \<times> 'w" where
  "zap_urls ms reason [] recs n w = (n, recs, w)"
| "zap_urls ms reason (u # us) recs n w =
     (let (ids, recs', w') = trigger_zap_by_url ms u reason recs w
      in zap_urls ms reason us recs' (n + length ids) w')"

record report_input =
  ri_reporter :: string
  ri_message_id :: string
  ri_sender :: string
  ri_subject :: string
  ri_raw :: string
  ri_body :: string
  ri_auto_zap :: bool

definition process_report ::
    "string \<Rightarrow> rat \<Rightarrow> report_input \<Rightarrow> 'w report_handler \<Rightarrow> 'w \<Rightarrow> (string, json) dict \<times> 'w report_handler \<times> 'w" where
  "process_report digest now ri rh w =
     (let report_id = ''report_'' @ take 12 digest;
          urls = extract_urls (if ri_body ri \<noteq> [] then ri_body ri else ri_raw ri);
          report = \<lparr>pr_id = report_id, pr_reporter = ri_reporter ri, pr_message_id = ri_message_id ri,
            pr_sender = ri_sender ri, pr_subject = ri_subject ri, pr_snippet = take 200 (ri_body ri), pr_urls = urls,
            pr_at = now, pr_action = ''quarantined_for_review''\<rparr>;
          from_domain = (if CHR ''@'' \<in> set (ri_sender ri) then after_last (CHR ''@'') (ri_sender ri) else []);
          fl = (if from_domain \<noteq> []
            then snd (record_feedback (rh_feedback rh) now report_id (ri_sender ri) ''reject''
              (''End-user phish report from '' @ ri_reporter ri))
            else rh_feedback rh);
          (n, zap, w') = (case rh_zap rh of
              Some (ms, recs) \<Rightarrow>
                if ri_auto_zap ri
                then (let (n, recs', w') = zap_urls ms (''User report by '' @ ri_reporter ri) urls recs 0 w in (n, Some (ms, recs'), w'))
                else (0, Some (ms, recs), w)
            | None \<Rightarrow> (0, None, w))
      in ([(''report_id'', JStr report_id), (''status'', JStr ''processed''), (''urls_extracted'', JInt (int (length urls))),
           (''zapped_messages_count'', JInt (int n)), (''feedback_recorded'', JBool (from_domain \<noteq> []))],
          \<lparr>rh_feedback = fl, rh_zap = zap, rh_reports = rh_reports rh @ [report]\<rparr>, w'))"

definition list_reports :: "'w report_handler \<Rightarrow> json list" where
  "list_reports rh = map (\<lambda>r. JDict
     [(''report_id'', JStr (pr_id r)), (''reporter_email'', JStr (pr_reporter r)), (''message_id'', JStr (pr_message_id r)),
      (''sender'', JStr (pr_sender r)), (''subject'', JStr (pr_subject r)), (''urls_count'', JInt (int (length (pr_urls r)))),
      (''reported_at'', JNum (pr_at r))]) (rh_reports rh)"

subsection \<open>quarantine\_digest.py\<close>

record digest_entry =
  de_id :: string
  de_from :: string
  de_subject :: string
  de_score :: int
  de_reasons :: "string list"
  de_at :: rat
  de_token :: string

record digest =
  dg_recipient :: string
  dg_count :: nat
  dg_html :: string
  dg_text :: string
  dg_entries :: "digest_entry list option"

definition release_token :: "crypto \<Rightarrow> string \<Rightarrow> string \<Rightarrow> string \<Rightarrow> string" where
  "release_token cr key qid recipient = take 16 (hex_of (hmac_sha256 cr key (qid @ '':'' @ recipient)))"

definition verify_release_token :: "crypto \<Rightarrow> string \<Rightarrow> string \<Rightarrow> string \<Rightarrow> string \<Rightarrow> bool" where
  "verify_release_token cr key qid recipient token \<longleftrightarrow> release_token cr key qid recipient = token"

definition addressed_to :: "string \<Rightarrow> quarantine_record \<Rightarrow> bool" where
  "addressed_to recipient r \<longleftrightarrow> lower recipient \<in> set (map lower (envelope_to r))"

text \<open>A record has no subject, so the default stands.\<close>

definition digest_entry_of :: "crypto \<Rightarrow> string \<Rightarrow> string \<Rightarrow> quarantine_record \<Rightarrow> digest_entry" where
  "digest_entry_of cr key recipient r =
     \<lparr>de_id = quarantine_id r, de_from = envelope_from r,
      de_subject = ''Quarantined Email ('' @ quarantine_id r @ '')'', de_score = q_total_score r, de_reasons = q_reasons r,
      de_at = quarantined_at r, de_token = release_token cr key (quarantine_id r) (lower recipient)\<rparr>"

text \<open>HTML text with backquotes for double quotes, one line at a depth of indentation.\<close>

definition markup :: "string \<Rightarrow> string" where
  "markup s = map (\<lambda>c. if c = CHR 0x60 then CHR 0x22 else c) s"

definition indented :: "nat \<Rightarrow> string \<Rightarrow> string" where
  "indented n s = CHR 0x0A # replicate n (CHR '' '') @ s"

definition digest_row :: "string \<Rightarrow> string \<Rightarrow> digest_entry \<Rightarrow> string" where
  "digest_row base user e =
     (let link = rstrip_char (CHR ''/'') base @ ''/admin/quarantine/'' @ de_id e @ ''/release_request?token='' @ de_token e @
            ''&user='' @ user
      in indented 12 (markup ''<tr style=`border-bottom: 1px solid #e0e0e0;`>'') @
         indented 16 (markup ''<td style=`padding: 10px;`><strong>'' @ de_from e @ ''</strong></td>'') @
         indented 16 (markup ''<td style=`padding: 10px;`>'' @
           (if de_subject e = [] then ''(No Subject)'' else de_subject e) @ ''</td>'') @
         indented 16 (markup ''<td style=`padding: 10px; color: #d9534f;`>Score: '' @ int_str (de_score e) @ ''</td>'') @
         indented 16 (markup ''<td style=`padding: 10px;`><a href=`'' @ link @
           markup ''` style=`background: #0275d8; color: #fff; padding: 6px 12px; text-decoration: none; border-radius: 4px;`>'' @
           ''Request Release</a></td>'') @
         indented 12 ''</tr>'' @ indented 12 [])"

text \<open>The page as UTF-8: the heading begins with an envelope sign of four bytes.\<close>

definition digest_head :: "string \<Rightarrow> string" where
  "digest_head recipient =
     indented 8 ''<html>'' @
     indented 12 (markup ''<body style=`font-family: sans-serif; padding: 20px;`>'') @
     indented 16 (''<h2>'' @ [CHR 0xF0, CHR 0x9F, CHR 0x93, CHR 0xA7] @ '' Email Security Quarantine Digest for '' @
       recipient @ ''</h2>'') @
     indented 16 (''<p>The following messages were held in quarantine by your Email Auth Gateway. '' @
       ''If you recognize a legitimate sender, click <strong>Request Release</strong>.</p>'') @
     indented 16 (markup ''<table style=`width: 100%; border-collapse: collapse; text-align: left;`>'') @
     indented 20 ''<thead>'' @
     indented 24 (markup ''<tr style=`background: #f5f5f5;`>'') @
     indented 28 (markup ''<th style=`padding: 10px;`>Sender</th>'') @
     indented 28 (markup ''<th style=`padding: 10px;`>Subject</th>'') @
     indented 28 (markup ''<th style=`padding: 10px;`>Risk Score</th>'') @
     indented 28 (markup ''<th style=`padding: 10px;`>Action</th>'') @
     indented 24 ''</tr>'' @ indented 20 ''</thead>'' @ indented 20 ''<tbody>'' @
     indented 24 []"

definition digest_tail :: string where
  "digest_tail =
     indented 20 ''</tbody>'' @ indented 16 ''</table>'' @ indented 12 ''</body>'' @ indented 8 ''</html>'' @
     indented 8 []"

definition digest_page :: "string \<Rightarrow> string \<Rightarrow> string" where
  "digest_page recipient rows = digest_head recipient @ rows @ digest_tail"

definition build_digest_for_recipient ::
    "crypto \<Rightarrow> string \<Rightarrow> quarantine_store \<Rightarrow> string \<Rightarrow> string \<Rightarrow> digest" where
  "build_digest_for_recipient cr key st recipient base =
     (let items = map (digest_entry_of cr key recipient) (filter (addressed_to recipient) (list_pending st)) in
      if items = [] then \<lparr>dg_recipient = recipient, dg_count = 0, dg_html = [], dg_text = [], dg_entries = None\<rparr>
      else \<lparr>dg_recipient = recipient, dg_count = length items,
        dg_html = digest_page recipient (concat (map (digest_row base (lower recipient)) items)),
        dg_text = ''Quarantine Digest for '' @ recipient @ [CHR 0x0A] @ join [CHR 0x0A]
          (map (\<lambda>e. ''- '' @ de_from e @ '' | '' @ de_subject e @ '' (Score: '' @ int_str (de_score e) @ '')'') items),
        dg_entries = Some items\<rparr>)"

subsection \<open>notify.py\<close>

text \<open>\<open>client.post\<close> answers a status or raises; \<open>httpx.RequestError\<close> is retried.\<close>

datatype http_exn = RequestError string | HttpOther string

type_synonym 'w http_post = "string \<Rightarrow> json \<Rightarrow> 'w \<Rightarrow> (http_exn + int) \<times> 'w"

record webhook_notifier =
  wn_url :: string
  wn_attempts :: int
  wn_backoff :: rat

definition webhook_payload :: "string \<Rightarrow> string \<Rightarrow> int \<Rightarrow> string list \<Rightarrow> json" where
  "webhook_payload qid from score reasons = JDict [(''text'', JStr
     ('':rotating_light: Email quarantined (id `'' @ qid @ ''`)'' @ [CHR 0x0A] @
      ''From: '' @ from @ ''  Score: '' @ int_str score @ [CHR 0x0A] @
      ''Reasons: '' @ (if reasons = [] then ''(no specific reasons recorded)'' else join ''; '' reasons)))]"

definition notify_quarantine ::
    "webhook_notifier \<Rightarrow> (nat \<Rightarrow> rat) \<Rightarrow> 'w http_post \<Rightarrow> string \<Rightarrow> string \<Rightarrow> int \<Rightarrow> string list \<Rightarrow> 'w \<Rightarrow> bool result \<times> 'w" where
  "notify_quarantine wn draw post qid from score reasons w =
     (if wn_url wn = [] then (Inr False, w)
      else
        let (res, _, w') = with_retry \<lparr>max_attempts = wn_attempts wn, base_delay = wn_backoff wn, max_delay = 5\<rparr>
              (\<lambda>e. case e of RequestError _ \<Rightarrow> True | HttpOther _ \<Rightarrow> False) draw
              (post (wn_url wn) (webhook_payload qid from score reasons)) w
        in (case res of
              Inr status \<Rightarrow> Inr (status < 300)
            | Inl (RetryExhausted _ _) \<Rightarrow> Inr False
            | Inl (Propagated (RequestError e)) \<Rightarrow> Inl (OtherError e)
            | Inl (Propagated (HttpOther e)) \<Rightarrow> Inl (OtherError e), w'))"

subsection \<open>Zapping\<close>

text \<open>What makes a deletion reported as done good for something: it leaves the copy gone, and no later deletion brings
  it back.\<close>

definition service_ok :: "(string \<Rightarrow> string \<Rightarrow> string \<Rightarrow> 'w \<Rightarrow> bool) \<Rightarrow> 'w mailbox_service \<Rightarrow> bool" where
  "service_ok gone ms \<longleftrightarrow> (\<forall>p u m w w'. delete_message ms p u m w = (Inr True, w') \<longrightarrow> gone p u m w') \<and>
     (\<forall>p u m p' u' m' w. gone p u m w \<longrightarrow> gone p u m (snd (delete_message ms p' u' m' w)))"

lemma delete_message_gone:
  assumes "service_ok gone ms"
  shows "delete_message ms p u m w = (Inr True, w') \<Longrightarrow> gone p u m w'"
    and "gone p' u' m' w \<Longrightarrow> gone p' u' m' (snd (delete_message ms p u m w))"
  using assms by (auto simp: service_ok_def)

lemma delete_copies_stay:
  "service_ok gone ms \<Longrightarrow> gone p u m w \<Longrightarrow> gone p u m (snd (delete_copies ms rs ok w))"
proof (induction ms rs ok w rule: delete_copies.induct)
  case (2 ms provider user mid rs ok w)
  from delete_message_gone(2) [OF 2(4,5), of provider user mid] 2 show ?case
    by (cases "delete_message ms provider user mid w") (auto split: sum.splits bool.splits)
qed simp

lemma delete_copies_False [simp]: "\<not> fst (delete_copies ms rs False w)"
  by (induction rs arbitrary: w) (auto split: prod.splits sum.splits bool.splits)

lemma delete_copies_gone:
  assumes ms: "service_ok gone ms"
  shows "fst (delete_copies ms rs ok w) \<Longrightarrow> (p, u, m) \<in> set rs \<Longrightarrow> gone p u m (snd (delete_copies ms rs ok w))"
proof (induction rs arbitrary: ok w)
  case (Cons x rs)
  obtain pr us mi where x: "x = (pr, us, mi)" by (cases x)
  obtain r w1 where d: "delete_message ms pr us mi w = (r, w1)" by (cases "delete_message ms pr us mi w")
  with Cons.prems(1) x have r: "r = Inr True" by (cases r) (auto split: bool.splits)
  have tail: "delete_copies ms (x # rs) ok w = delete_copies ms rs ok w1" using x d r by simp
  have "gone pr us mi w1" using delete_message_gone(1) [OF ms] d r by blast
  then have "gone pr us mi (snd (delete_copies ms rs ok w1))" by (rule delete_copies_stay [OF ms])
  with Cons x tail show ?case by auto
qed simp

lemma zap_matching_stay: "service_ok gone ms \<Longrightarrow> gone p u m w \<Longrightarrow> gone p u m (snd (snd (zap_matching ms hit reason rs w)))"
proof (induction rs arbitrary: w)
  case (Cons x rs)
  then show ?case
    using delete_copies_stay [OF Cons.prems, of "dm_recipients (snd x)" True]
    by (cases x) (simp add: execute_zap_def split_beta Let_def)
qed simp

lemma zap_matching_gone:
  assumes ms: "service_ok gone ms"
  shows "k \<in> set (fst (zap_matching ms hit reason rs w)) \<Longrightarrow>
    \<exists>rec. (k, rec) \<in> set rs \<and> \<not> zapped rec \<and> hit rec \<and>
      (k, rec\<lparr>zapped := True, zap_reason := reason\<rparr>) \<in> set (fst (snd (zap_matching ms hit reason rs w))) \<and>
      (\<forall>(p, u, m) \<in> set (dm_recipients rec). gone p u m (snd (snd (zap_matching ms hit reason rs w))))"
proof (induction rs arbitrary: w)
  case (Cons x rs)
  obtain k1 rec where x: "x = (k1, rec)" by (cases x)
  show ?case
  proof (cases "zapped rec \<or> \<not> hit rec")
    case True
    with Cons.prems x have "k \<in> set (fst (zap_matching ms hit reason rs w))" by (auto simp: split_beta Let_def)
    from Cons.IH [OF this] True x show ?thesis by (auto simp: split_beta Let_def)
  next
    case False
    let ?d = "delete_copies ms (dm_recipients rec) True w"
    let ?r = "zap_matching ms hit reason rs (snd ?d)"
    have z: "zap_matching ms hit reason (x # rs) w = (if fst ?d then k1 # fst ?r else fst ?r,
        (k1, rec\<lparr>zapped := fst ?d, zap_reason := reason\<rparr>) # fst (snd ?r), snd (snd ?r))"
      using False x by (simp add: execute_zap_def split_beta Let_def)
    show ?thesis
    proof (cases "k \<in> set (fst ?r)")
      case True
      from Cons.IH [OF True] show ?thesis unfolding z by auto
    next
      case notin: False
      with Cons.prems z have d: "fst ?d" "k = k1" by (auto split: if_splits)
      have "gone p u m (snd (snd ?r))" if "(p, u, m) \<in> set (dm_recipients rec)" for p u m
        using zap_matching_stay [OF ms delete_copies_gone [OF ms d(1) that]] .
      with d False x show ?thesis unfolding z by auto
    qed
  qed
qed simp

definition example_delivered :: zap_records where
  "example_delivered = register_delivery ''m1'' [(''m365'', ''joe'', ''x1''), (''gmail'', ''ann'', ''x2'')] [''https://evil.io/a''] [] [] 0 []"

text \<open>Without clients every deletion at a known provider counts as done.\<close>

definition known_providers :: "delivered \<Rightarrow> bool" where
  "known_providers rec \<longleftrightarrow> (\<forall>(p, u, m) \<in> set (dm_recipients rec). lower p \<in> set (m365_names @ google_names))"

lemma zap_without_clients:
  assumes "known_providers rec"
  shows "execute_zap \<lparr>m365_client = None, google_client = None\<rparr> reason rec w =
    (True, rec\<lparr>zapped := True, zap_reason := reason\<rparr>, w)"
proof -
  have "delete_copies \<lparr>m365_client = None, google_client = None\<rparr> rs True w = (True, w)"
    if "\<forall>(p, u, m) \<in> set rs. lower p \<in> set (m365_names @ google_names)" for rs
    using that by (induction rs) (auto simp: delete_message_def)
  with assms show ?thesis by (simp add: execute_zap_def known_providers_def)
qed

lemma zap_matching_without_clients:
  assumes "\<forall>p \<in> set recs. known_providers (snd p)"
  shows "zap_matching \<lparr>m365_client = None, google_client = None\<rparr> hit reason recs w =
    (map fst (filter (\<lambda>p. \<not> zapped (snd p) \<and> hit (snd p)) recs),
     map (\<lambda>(k, rec). if zapped rec \<or> \<not> hit rec then (k, rec) else (k, rec\<lparr>zapped := True, zap_reason := reason\<rparr>)) recs, w)"
  using assms by (induction recs) (auto simp: zap_without_clients)

subsection \<open>Reports\<close>

text \<open>The same report, sent again and again.\<close>

fun report_times :: "nat \<Rightarrow> string \<Rightarrow> rat \<Rightarrow> report_input \<Rightarrow> 'w report_handler \<Rightarrow> 'w \<Rightarrow> 'w report_handler \<times> 'w" where
  "report_times 0 digest now ri rh w = (rh, w)"
| "report_times (Suc n) digest now ri rh w =
     (let (_, rh', w') = process_report digest now ri rh w in report_times n digest now ri rh' w')"

lemma process_report_feedback:
  assumes "CHR ''@'' \<in> set (ri_sender ri)" "after_last (CHR ''@'') (ri_sender ri) \<noteq> []"
  shows "\<exists>qid note. rh_feedback (fst (snd (process_report digest now ri rh w))) =
    snd (record_feedback (rh_feedback rh) now qid (ri_sender ri) ''reject'' note)"
  using assms by (auto simp: process_report_def Let_def split_beta)

lemma reject_raises:
  assumes "feedback_domain s \<noteq> []"
  shows "dgetd (domain_scores (snd (record_feedback fl now qid s ''reject'' note))) (feedback_domain s) 0 =
    min (dgetd (domain_scores fl) (feedback_domain s) 0 + 15) 50"
proof -
  have "lower ''reject'' = ''reject''" by code_simp
  with assms show ?thesis by (simp add: record_feedback_def Let_def)
qed

text \<open>Reports are not tied to their reporter: \<open>n\<close> reports, all of the same message by the same user, move the
  reported domain's score from 0 to \<open>min (15 n) 50\<close>, so four suffice for the highest penalty.\<close>
theorem one_reporter_condemns_domain:
  assumes "CHR ''@'' \<in> set (ri_sender ri)" "strip (lower (after_last (CHR ''@'') (ri_sender ri))) \<noteq> []"
    and "rh_feedback rh = feedback_new"
  shows "get_domain_adjustment (rh_feedback (fst (report_times n digest now ri rh w))) (after_last (CHR ''@'') (ri_sender ri)) =
    min (15 * int n) 50"
proof -
  let ?d = "feedback_domain (ri_sender ri)"
  have d: "?d = strip (lower (after_last (CHR ''@'') (ri_sender ri)))" "?d \<noteq> []" using assms by (simp_all add: feedback_domain_def)
  have a: "after_last (CHR ''@'') (ri_sender ri) \<noteq> []" using assms(2) by (auto simp: strip_def lstrip_by_def rstrip_by_def)
  have "dgetd (domain_scores (rh_feedback (fst (report_times n digest now ri rh w)))) ?d 0 =
      min (dgetd (domain_scores (rh_feedback rh)) ?d 0 + 15 * int n) 50"
    if "dgetd (domain_scores (rh_feedback rh)) ?d 0 \<le> 50" for rh w
    using that
  proof (induction n arbitrary: rh w)
    case (Suc n)
    let ?p = "process_report digest now ri rh w"
    obtain qid nt where "rh_feedback (fst (snd ?p)) = snd (record_feedback (rh_feedback rh) now qid (ri_sender ri) ''reject'' nt)"
      using process_report_feedback [OF assms(1) a, of digest now rh w] by auto
    then have "dgetd (domain_scores (rh_feedback (fst (snd ?p)))) ?d 0 = min (dgetd (domain_scores (rh_feedback rh)) ?d 0 + 15) 50"
      using reject_raises [OF d(2)] by simp
    with Suc.IH [of "fst (snd ?p)" "snd (snd ?p)"] Suc.prems show ?case by (simp add: split_beta)
  qed simp
  from this [of rh w] assms(3) show ?thesis by (simp add: get_domain_adjustment_def feedback_new_def d(1))
qed

definition example_report :: report_input where
  "example_report = \<lparr>ri_reporter = ''eve@x.io'', ri_message_id = ''m1'', ri_sender = ''news@shop.io'', ri_subject = [],
     ri_raw = [], ri_body = ''hello'', ri_auto_zap = False\<rparr>"

theorem one_reporter_condemns_domain_witness:
  "get_domain_adjustment (rh_feedback (fst (report_times 4 ''00'' 0 example_report
     \<lparr>rh_feedback = feedback_new, rh_zap = None, rh_reports = []\<rparr> ()))) ''shop.io'' = 50"
proof -
  have "after_last (CHR ''@'') ''news@shop.io'' = ''shop.io''" "strip (lower ''shop.io'') = ''shop.io''" by code_simp+
  with one_reporter_condemns_domain [of example_report "\<lparr>rh_feedback = feedback_new, rh_zap = None, rh_reports = []\<rparr>" 4 "''00''" 0 "()"]
  show ?thesis by (simp add: example_report_def)
qed

subsection \<open>The digest\<close>

lemma contains_in_append: "contains s y \<Longrightarrow> contains s (x @ y)" "contains s x \<Longrightarrow> contains s (x @ y)"
  "contains s x \<Longrightarrow> contains s (c # x)" "contains s s"
  by (auto simp: contains_iff sublist_def) (metis append.assoc append_Cons)+

lemma contains_concat_map: "x \<in> set xs \<Longrightarrow> contains s (f x) \<Longrightarrow> contains s (concat (map f xs))"
  by (induction xs) (auto intro: contains_in_append)

lemma digest_row_contains: "contains (de_from e) (digest_row base user e)"
  unfolding digest_row_def Let_def
  by (rule contains_in_append(1), rule contains_in_append(2), unfold indented_def)
    (intro contains_in_append(3) contains_in_append(1) [OF contains_in_append(1) [OF contains_in_append(2) [OF contains_in_append(4)]]])

lemma digest_page_contains: "contains s rows \<Longrightarrow> contains s (digest_page recipient rows)"
  unfolding digest_page_def by (intro contains_in_append(1) [OF contains_in_append(2)])

lemma digest_entry_back: "de_id (digest_entry_of cr key recipient r) = quarantine_id r"
    "de_from (digest_entry_of cr key recipient r) = envelope_from r"
    "verify_release_token cr key (quarantine_id r) (lower recipient) (de_token (digest_entry_of cr key recipient r))"
  by (simp_all add: digest_entry_of_def verify_release_token_def)

text \<open>The digest of a recipient lists exactly the pending messages of the quarantine that were addressed to
  them, each with a token that releases it for that recipient only when verified; and every listed
  sender address stands in the page as it is, unescaped.\<close>
theorem digest_lists_own_pending:
  assumes "fernet_ok f"
  shows "(let d = build_digest_for_recipient cr key (q_run f (store_new empty_dir cipher) ops) recipient base;
              es = (case dg_entries d of None \<Rightarrow> [] | Some es \<Rightarrow> es) in
     set (map de_id es) = {quarantine_id r | qid raw r. spec_run ops qid = Some (raw, r) \<and> q_status r = ''pending'' \<and> addressed_to recipient r} \<and>
     dg_count d = length es \<and>
     (\<forall>e \<in> set es. verify_release_token cr key (de_id e) (lower recipient) (de_token e) \<and> contains (de_from e) (dg_html d)))"
proof -
  let ?st = "q_run f (store_new empty_dir cipher) ops"
  let ?d = "build_digest_for_recipient cr key ?st recipient base"
  let ?items = "map (digest_entry_of cr key recipient) (filter (addressed_to recipient) (list_pending ?st))"
  have pending: "set (list_pending ?st) = {r. \<exists>qid raw. spec_run ops qid = Some (raw, r) \<and> q_status r = ''pending''}"
    using pending_of_map [OF implements_run [OF assms implements_new]] by (simp add: spec_run_def)
  have es: "(case dg_entries ?d of None \<Rightarrow> [] | Some es \<Rightarrow> es) = ?items" and n: "dg_count ?d = length ?items"
    by (auto simp: build_digest_for_recipient_def Let_def)
  have html: "contains (de_from e) (dg_html ?d)" if "e \<in> set ?items" for e
  proof -
    from that have "?items \<noteq> []" unfolding length_greater_0_conv [symmetric] by (rule length_pos_if_in_set)
    then have "dg_html ?d = digest_page recipient (concat (map (digest_row base (lower recipient)) ?items))"
      unfolding build_digest_for_recipient_def Let_def by (simp only: if_False digest.simps)
    with digest_page_contains [OF contains_concat_map [OF that, of "de_from e" "digest_row base (lower recipient)", OF digest_row_contains]]
    show ?thesis by (simp only:)
  qed
  have "set (map de_id ?items) =
      {quarantine_id r | qid raw r. spec_run ops qid = Some (raw, r) \<and> q_status r = ''pending'' \<and> addressed_to recipient r}"
    using pending by (auto simp: digest_entry_back)
  moreover have "verify_release_token cr key (de_id e) (lower recipient) (de_token e)" if "e \<in> set ?items" for e
    using that by (auto simp: digest_entry_back)
  ultimately show ?thesis unfolding Let_def es n using html by blast
qed

theorem digest_lists_own_pending_witness:
  "set (map de_id (case dg_entries (build_digest_for_recipient toy_crypto ''k'' (q_run toy_fernet (store_new empty_dir None)
     [OpStore ''n'' ''q1'' 5 example_mail]) ''c@d.io'' ''https://gw.io'') of None \<Rightarrow> [] | Some es \<Rightarrow> es)) = {''q1''}"
proof -
  have "fernet_ok toy_fernet" by (simp add: fernet_ok_def toy_fernet_def)
  from digest_lists_own_pending [OF this, of toy_crypto "''k''" None "[OpStore ''n'' ''q1'' 5 example_mail]" "''c@d.io''" "''https://gw.io''"]
  show ?thesis by (simp add: Let_def spec_run_def new_record_def addressed_to_def example_mail_def)
qed

end
