(* ===== verification/AdminAPI.thy ===== *)
theory AdminAPI
  imports Receiver AuthManager Tenancy PostDelivery
begin

text \<open>
  The administration endpoints of \<open>webhook_receiver/app.py\<close>: the check every one makes, and their operations on the
  quarantine, the tenants, the accounts and the delivered mail. A request body is given by its fields, with the
  types the handlers expect; what the handlers read when a field is absent is in the caller's hands.
\<close>

subsection \<open>The process, and a request\<close>

record admin_conf =
  ac_secret :: string
  ac_limiter :: rate_limiter
  ac_crypto :: crypto
  ac_codec :: json_codec
  ac_mapping :: "(string, string) dict"
  ac_fernet :: fernet
  ac_digest_key :: string
  ac_base_url :: string
  ac_store_dir :: string

record 'w admin =
  ad_gw :: "'w gateway"
  ad_auth :: auth_manager
  ad_tenants :: tenant_manager
  ad_zap :: "'w mailbox_service \<times> zap_records"
  ad_reports :: "phish_report list"
  ad_purged :: "(string \<times> string) list"

text \<open>The time, the caller's address and the \<open>authorization\<close> header, empty when there is none.\<close>

record call =
  cl_now :: rat
  cl_ip :: string
  cl_auth :: string

datatype reply = RJson json | RDigest digest

type_synonym 'w handler = "'w admin \<Rightarrow> (http_error + reply) \<times> 'w admin"

definition in_gw :: "('w gateway \<Rightarrow> 'w gateway) \<Rightarrow> 'w admin \<Rightarrow> 'w admin" where
  "in_gw f st = st\<lparr>ad_gw := f (ad_gw st)\<rparr>"

abbreviation q_of :: "'w admin \<Rightarrow> quarantine_store" where
  "q_of st \<equiv> sc_store (gw_scene (ad_gw st))"

definition set_q :: "quarantine_store \<Rightarrow> 'w admin \<Rightarrow> 'w admin" where
  "set_q q = in_gw (\<lambda>g. g\<lparr>gw_scene := (gw_scene g)\<lparr>sc_store := q\<rparr>\<rparr>)"

definition set_world :: "'w \<Rightarrow> 'w admin \<Rightarrow> 'w admin" where
  "set_world w = in_gw (\<lambda>g. g\<lparr>gw_scene := (gw_scene g)\<lparr>sc_world := w\<rparr>\<rparr>)"

definition ok :: "(string, json) dict \<Rightarrow> http_error + reply" where
  "ok d = Inr (RJson (JDict d))"

subsection \<open>\_verify\_admin\<close>

definition auth_http :: "auth_error \<Rightarrow> http_error" where
  "auth_http e = (case e of AuthToken s \<Rightarrow> HttpError 401 s | AuthPermission s \<Rightarrow> HttpError 403 s)"

definition verify_admin ::
    "admin_conf \<Rightarrow> call \<Rightarrow> string option \<Rightarrow> string option \<Rightarrow> 'w admin \<Rightarrow>
     (http_error + (string, json) dict) \<times> 'w admin" where
  "verify_admin cf c req_role req_scope st =
     (case rl_check mem_incr (ac_limiter cf) (gw_kv (ad_gw st)) (cl_now c) (cl_ip c) of
        (Inl e, kv) \<Rightarrow> (Inl (limit_http e), in_gw (gw_kv_update (\<lambda>_. kv)) st)
      | (Inr _, kv) \<Rightarrow>
          ((case verify_request (ac_crypto cf) (ac_codec cf) (ad_auth st) (cl_now c) (Some (cl_auth c)) (Some (ac_secret cf))
                   req_role req_scope of
              Inl e \<Rightarrow> Inl (auth_http e)
            | Inr payload \<Rightarrow> Inr payload),
           in_gw (gw_kv_update (\<lambda>_. kv)) st))"

text \<open>\<open>await _verify_admin(request, ...)\<close> at the head of a handler.\<close>

definition guarded :: "admin_conf \<Rightarrow> call \<Rightarrow> string option \<Rightarrow> string option \<Rightarrow> 'w handler \<Rightarrow> 'w handler" where
  "guarded cf c req_role req_scope h st = (case verify_admin cf c req_role req_scope st of
     (Inl e, st') \<Rightarrow> (Inl e, st') | (Inr _, st') \<Rightarrow> h st')"

subsection \<open>Quarantine\<close>

definition list_quarantine :: "admin_conf \<Rightarrow> call \<Rightarrow> 'w handler" where
  "list_quarantine cf c = guarded cf c None None (\<lambda>st.
     (ok [(''pending'', JList (map record_as_dict (list_pending (q_of st))))], st))"

definition get_quarantine_item :: "admin_conf \<Rightarrow> call \<Rightarrow> string \<Rightarrow> 'w handler" where
  "get_quarantine_item cf c qid = guarded cf c None None (\<lambda>st. (case get_record (q_of st) qid of
       Inl e \<Rightarrow> Inl (ServerError e)
     | Inr None \<Rightarrow> Inl (HttpError 404 ''no such quarantine item'')
     | Inr (Some r) \<Rightarrow> Inr (RJson (record_as_dict r)), st))"

text \<open>What a resolution leaves behind: the feedback on the sender and a line of the audit log.\<close>

definition note_resolution :: "rat \<Rightarrow> string \<Rightarrow> string \<Rightarrow> string \<Rightarrow> string \<Rightarrow> quarantine_record \<Rightarrow> 'w admin \<Rightarrow> 'w admin" where
  "note_resolution now act qid who why r = in_gw (\<lambda>g. g\<lparr>
     gw_feedback := snd (record_feedback (gw_feedback g) now qid (quarantine_record.envelope_from r) act why),
     gw_audit := record_admin_action now who act qid why (gw_audit g)\<rparr>)"

text \<open>The relay of a released message.\<close>

definition relay_released ::
    "admin_conf \<Rightarrow> (string \<Rightarrow> string \<Rightarrow> string list \<Rightarrow> 'w \<Rightarrow> (relay_error + unit) \<times> 'w) option \<Rightarrow> string \<Rightarrow>
     quarantine_record \<Rightarrow> 'w handler" where
  "relay_released cf relay qid r st = (case get_raw_message (ac_fernet cf) (q_of st) qid of
       Inl e \<Rightarrow> (Inl (ServerError e), st)
     | Inr None \<Rightarrow> (Inl (HttpError 500 ''quarantine metadata found but message content missing''), st)
     | Inr (Some raw) \<Rightarrow> (case relay of
         None \<Rightarrow> (ok [(''status'', JStr ''released''), (''relayed'', JBool False),
             (''detail'', JStr ''dry-run mode: RELAY_HOST not configured, message was not actually sent'')], st)
       | Some send \<Rightarrow> (case send raw (quarantine_record.envelope_from r) (envelope_to r) (sc_world (gw_scene (ad_gw st))) of
           (Inl (RelayError e), w) \<Rightarrow> (Inl (HttpError 502 (''released but relay failed: '' @ e)), set_world w st)
         | (Inl (RelayCrash e), w) \<Rightarrow> (Inl (ServerError (OtherError e)), set_world w st)
         | (Inr _, w) \<Rightarrow> (ok [(''status'', JStr ''released''), (''relayed'', JBool True)], set_world w st))))"

definition release_quarantine_item ::
    "admin_conf \<Rightarrow> (string \<Rightarrow> string \<Rightarrow> string list \<Rightarrow> 'w \<Rightarrow> (relay_error + unit) \<times> 'w) option \<Rightarrow> call \<Rightarrow>
     string \<Rightarrow> string \<Rightarrow> string \<Rightarrow> 'w handler" where
  "release_quarantine_item cf relay c qid who why = guarded cf c None None (\<lambda>st.
     case release who why (cl_now c) qid (q_of st) of
       (Inl e, q) \<Rightarrow> (Inl (ServerError e), set_q q st)
     | (Inr None, q) \<Rightarrow> (Inl (HttpError 404 ''no such quarantine item''), set_q q st)
     | (Inr (Some r), q) \<Rightarrow>
         relay_released cf relay qid r (note_resolution (cl_now c) ''release'' qid who why r (set_q q st)))"

definition reject_quarantine_item :: "admin_conf \<Rightarrow> call \<Rightarrow> string \<Rightarrow> string \<Rightarrow> string \<Rightarrow> 'w handler" where
  "reject_quarantine_item cf c qid who why = guarded cf c None None (\<lambda>st.
     case reject who why (cl_now c) qid (q_of st) of
       (Inl e, q) \<Rightarrow> (Inl (ServerError e), set_q q st)
     | (Inr None, q) \<Rightarrow> (Inl (HttpError 404 ''no such quarantine item''), set_q q st)
     | (Inr (Some r), q) \<Rightarrow>
         (ok [(''status'', JStr ''rejected'')], note_resolution (cl_now c) ''reject'' qid who why r (set_q q st)))"

text \<open>The loop of the bulk action: an item whose metadata is broken ends it with the exception.\<close>

fun bulk_loop :: "string \<Rightarrow> string \<Rightarrow> rat \<Rightarrow> string list \<Rightarrow> quarantine_store \<Rightarrow> string list result \<times> quarantine_store" where
  "bulk_loop act why now [] q = (Inr [], q)"
| "bulk_loop act why now (i # is) q =
     (case (if act = ''release'' then release ''admin_ui'' why now i q else reject ''admin_ui'' why now i q) of
        (Inl e, q') \<Rightarrow> (Inl e, q')
      | (Inr r, q') \<Rightarrow> (case bulk_loop act why now is q' of
          (Inl e, q'') \<Rightarrow> (Inl e, q'')
        | (Inr ids, q'') \<Rightarrow> (Inr (if r = None then ids else i # ids), q'')))"

definition bulk_quarantine_action :: "admin_conf \<Rightarrow> call \<Rightarrow> string \<Rightarrow> string list \<Rightarrow> string \<Rightarrow> 'w handler" where
  "bulk_quarantine_action cf c act ids why = guarded cf c None (Some ''quarantine:write'') (\<lambda>st.
     if act \<notin> {''release'', ''reject''} \<or> ids = []
     then (Inl (HttpError 400 (''Valid action ('' @ quoted ''release'' @ '' or '' @ quoted ''reject'' @ '') and quarantine_ids list required'')), st)
     else case bulk_loop act why (cl_now c) ids (q_of st) of
       (Inl e, q) \<Rightarrow> (Inl (ServerError e), set_q q st)
     | (Inr done_ids, q) \<Rightarrow> (ok [(''status'', JStr ''success''), (''action'', JStr act),
         (''processed_count'', JInt (int (length done_ids))), (''processed_ids'', jstrs done_ids)], set_q q st))"

definition send_quarantine_digest :: "admin_conf \<Rightarrow> call \<Rightarrow> string \<Rightarrow> 'w handler" where
  "send_quarantine_digest cf c recipient = guarded cf c None None (\<lambda>st.
     if recipient = [] then (Inl (HttpError 400 ''recipient_email is required''), st)
     else (Inr (RDigest (build_digest_for_recipient (ac_crypto cf) (ac_digest_key cf) (q_of st) recipient (ac_base_url cf))), st))"

subsection \<open>Delivered mail\<close>

definition report_phish_endpoint :: "string \<Rightarrow> rat \<Rightarrow> report_input \<Rightarrow> 'w handler" where
  "report_phish_endpoint digest now ri st =
     (if ri_reporter ri = [] \<or> ri_message_id ri = []
      then (Inl (HttpError 400 ''reporter_email and message_id are required''), st)
      else let (d, rh, w) = process_report digest now ri
             \<lparr>rh_feedback = gw_feedback (ad_gw st), rh_zap = Some (ad_zap st), rh_reports = ad_reports st\<rparr>
             (sc_world (gw_scene (ad_gw st)))
           in (ok d, (set_world w (in_gw (gw_feedback_update (\<lambda>_. rh_feedback rh)) st))\<lparr>
                ad_zap := (case rh_zap rh of None \<Rightarrow> ad_zap st | Some z \<Rightarrow> z), ad_reports := rh_reports rh\<rparr>))"

datatype zap_target = ZapUrl string | ZapHash string | ZapMessage string | ZapNothing

definition zapped_reply :: "string \<Rightarrow> string list \<Rightarrow> http_error + reply" where
  "zapped_reply mode ids = ok [(''status'', JStr ''success''), (''mode'', JStr mode),
     (''zapped_count'', JInt (int (length ids))), (''zapped_message_ids'', jstrs ids)]"

definition admin_zap_endpoint :: "admin_conf \<Rightarrow> call \<Rightarrow> zap_target \<Rightarrow> string \<Rightarrow> 'w handler" where
  "admin_zap_endpoint cf c target reason = guarded cf c None None (\<lambda>st.
     let (ms, recs) = ad_zap st; w = sc_world (gw_scene (ad_gw st)) in
     case target of
       ZapUrl u \<Rightarrow> (let (ids, recs', w') = trigger_zap_by_url ms u reason recs w
         in (zapped_reply ''by_url'' ids, (set_world w' st)\<lparr>ad_zap := (ms, recs')\<rparr>))
     | ZapHash h \<Rightarrow> (let (ids, recs', w') = trigger_zap_by_hash ms h reason recs w
         in (zapped_reply ''by_hash'' ids, (set_world w' st)\<lparr>ad_zap := (ms, recs')\<rparr>))
     | ZapMessage m \<Rightarrow> (let (zap_ok, recs', w') = trigger_zap_by_message_id ms m reason recs w
         in (ok [(''status'', JStr (if zap_ok then ''success'' else ''failed'')), (''mode'', JStr ''by_message_id''),
               (''zapped_message_id'', JStr m)], (set_world w' st)\<lparr>ad_zap := (ms, recs')\<rparr>))
     | ZapNothing \<Rightarrow> (Inl (HttpError 400 ''Must provide url, file_hash, or message_id to zap''), st))"

subsection \<open>Tenants\<close>

definition value_error_http :: "int \<Rightarrow> py_exn \<Rightarrow> http_error" where
  "value_error_http code e = (case e of ValueError s \<Rightarrow> HttpError code s | _ \<Rightarrow> ServerError e)"

definition list_tenants_endpoint :: "admin_conf \<Rightarrow> call \<Rightarrow> 'w handler" where
  "list_tenants_endpoint cf c = guarded cf c None None (\<lambda>st.
     (Inr (RJson (JList (map tenant_to_dict (list_tenants (ad_tenants st))))), st))"

definition create_tenant_endpoint :: "admin_conf \<Rightarrow> call \<Rightarrow> string \<Rightarrow> tenant_spec \<Rightarrow> 'w handler" where
  "create_tenant_endpoint cf c tid sp = guarded cf c None None (\<lambda>st.
     if tid = [] \<or> s_name sp = [] then (Inl (HttpError 400 ''tenant_id and name are required''), st)
     else case create_tenant tid sp (ad_tenants st) of
       Inl e \<Rightarrow> (Inl (value_error_http 400 e), st)
     | Inr (t, tm) \<Rightarrow> (Inr (RJson (tenant_to_dict t)), st\<lparr>ad_tenants := tm\<rparr>))"

definition get_tenant_endpoint :: "admin_conf \<Rightarrow> call \<Rightarrow> string \<Rightarrow> 'w handler" where
  "get_tenant_endpoint cf c tid = guarded cf c None None (\<lambda>st. (case get_tenant (ad_tenants st) tid of
       None \<Rightarrow> Inl (HttpError 404 ''Tenant not found'') | Some t \<Rightarrow> Inr (RJson (tenant_to_dict t)), st))"

definition update_tenant_endpoint ::
    "admin_conf \<Rightarrow> call \<Rightarrow> string \<Rightarrow> string list option \<Rightarrow> tenant_field list \<Rightarrow> 'w handler" where
  "update_tenant_endpoint cf c tid ds fs = guarded cf c None None (\<lambda>st. case update_tenant tid ds fs (ad_tenants st) of
       Inl e \<Rightarrow> (Inl (value_error_http 400 e), st)
     | Inr (t, tm) \<Rightarrow> (Inr (RJson (tenant_to_dict t)), st\<lparr>ad_tenants := tm\<rparr>))"

definition deprovision_tenant_endpoint :: "admin_conf \<Rightarrow> call \<Rightarrow> string \<Rightarrow> bool \<Rightarrow> 'w handler" where
  "deprovision_tenant_endpoint cf c tid purge = guarded cf c None None (\<lambda>st.
     let (done, dir, tm) = deprovision_tenant tid purge (Some (ac_store_dir cf)) (ad_tenants st) in
     if \<not> done then (Inl (HttpError 404 ''Tenant not found''), st)
     else (ok [(''status'', JStr ''deprovisioned''), (''tenant_id'', JStr tid), (''data_purged'', JBool purge)],
           st\<lparr>ad_tenants := tm, ad_purged := ad_purged st @ (case dir of None \<Rightarrow> [] | Some p \<Rightarrow> [p])\<rparr>))"

subsection \<open>Accounts\<close>

definition login_endpoint :: "admin_conf \<Rightarrow> rat \<Rightarrow> string \<Rightarrow> string \<Rightarrow> string option \<Rightarrow> 'w handler" where
  "login_endpoint cf now name password totp st =
     (if name = [] \<or> password = [] then (Inl (HttpError 400 ''username and password are required''), st)
      else case login (ac_crypto cf) (ac_codec cf) (ad_auth st) now name password totp of
        Inl e \<Rightarrow> (Inl (value_error_http 401 e), st)
      | Inr d \<Rightarrow> (ok d, st))"

definition refresh_token_endpoint :: "admin_conf \<Rightarrow> rat \<Rightarrow> string \<Rightarrow> 'w handler" where
  "refresh_token_endpoint cf now header st =
     (if \<not> starts_with ''Bearer '' header then (Inl (HttpError 400 ''Bearer authorization header required''), st)
      else case refresh_session_token (ac_crypto cf) (ac_codec cf) (tokens (ad_auth st)) now (bearer_token header) None of
        (Inr (Inr t), tm) \<Rightarrow> (ok [(''access_token'', JStr t), (''token_type'', JStr ''Bearer'')],
          st\<lparr>ad_auth := (ad_auth st)\<lparr>tokens := tm\<rparr>\<rparr>)
      | (_, tm) \<Rightarrow> (Inl (HttpError 401 ''refresh failed''), st\<lparr>ad_auth := (ad_auth st)\<lparr>tokens := tm\<rparr>\<rparr>))"

definition sso_token :: "admin_conf \<Rightarrow> auth_manager \<Rightarrow> rat \<Rightarrow> user \<Rightarrow> string" where
  "sso_token cf am now u = create_session_token (ac_crypto cf) (ac_codec cf) (tokens am) now (user_id u) (username u)
     (role u) (user.tenant_id u) True (scopes u) None"

definition sso_callback :: "admin_conf \<Rightarrow> string \<Rightarrow> rat \<Rightarrow> (string, json) dict \<Rightarrow> 'w handler" where
  "sso_callback cf salt now claims st =
     (if claims = [] then (Inl (HttpError 400 ''OIDC claims payload required''), st)
      else case authenticate_oidc_claims (ac_crypto cf) salt now (ac_mapping cf) claims of
        Inl e \<Rightarrow> (Inl (value_error_http 400 e), st)
      | Inr u \<Rightarrow> (ok [(''status'', JStr ''authenticated''), (''access_token'', JStr (sso_token cf (ad_auth st) now u)),
          (''token_type'', JStr ''Bearer''), (''user'', JDict (user_to_dict u))], st))"

definition list_users_endpoint :: "admin_conf \<Rightarrow> call \<Rightarrow> 'w handler" where
  "list_users_endpoint cf c = guarded cf c (Some ''admin'') (Some ''user:manage'') (\<lambda>st.
     (Inr (RJson (JList (map (\<lambda>u. JDict (user_to_dict u)) (list_users (users (ad_auth st)))))), st))"

definition create_user_endpoint ::
    "admin_conf \<Rightarrow> call \<Rightarrow> draw \<Rightarrow> string \<Rightarrow> string \<Rightarrow> string \<Rightarrow> json \<Rightarrow> bool \<Rightarrow> string list \<Rightarrow> 'w handler" where
  "create_user_endpoint cf c dr name password r tenant mfa extra = guarded cf c (Some ''admin'') (Some ''user:manage'') (\<lambda>st.
     if name = [] \<or> password = [] then (Inl (HttpError 400 ''username and password are required''), st)
     else case create_user (ac_crypto cf) dr name password r tenant mfa extra (users (ad_auth st)) of
       Inl e \<Rightarrow> (Inl (value_error_http 400 e), st)
     | Inr (u, us) \<Rightarrow>
         (ok (case mfa_secret u of None \<Rightarrow> user_to_dict u | Some [] \<Rightarrow> user_to_dict u
              | Some (x # xs) \<Rightarrow> dset (user_to_dict u) ''mfa_secret'' (JStr (x # xs))),
          st\<lparr>ad_auth := (ad_auth st)\<lparr>users := us\<rparr>\<rparr>))"

definition delete_user_endpoint :: "admin_conf \<Rightarrow> call \<Rightarrow> string \<Rightarrow> 'w handler" where
  "delete_user_endpoint cf c name = guarded cf c (Some ''admin'') (Some ''user:manage'') (\<lambda>st.
     let (done, us) = delete_user (users (ad_auth st)) name in
     if \<not> done then (Inl (HttpError 404 ''User not found''), st)
     else (ok [(''status'', JStr ''deleted''), (''username'', JStr name)], st\<lparr>ad_auth := (ad_auth st)\<lparr>users := us\<rparr>\<rparr>))"

subsection \<open>The guarded routes\<close>

datatype operation =
    ListQuarantine | GetItem string | ReleaseItem string string string | RejectItem string string string
  | BulkAction string "string list" string | SendDigest string | Zap zap_target string
  | ListTenants | CreateTenant string tenant_spec | GetTenant string
  | UpdateTenant string "string list option" "tenant_field list" | Deprovision string bool
  | ListUsers | CreateUser draw string string string json bool "string list" | DeleteUser string

fun admin_route ::
    "admin_conf \<Rightarrow> (string \<Rightarrow> string \<Rightarrow> string list \<Rightarrow> 'w \<Rightarrow> (relay_error + unit) \<times> 'w) option \<Rightarrow> call \<Rightarrow> operation \<Rightarrow> 'w handler" where
  "admin_route cf relay c ListQuarantine = list_quarantine cf c"
| "admin_route cf relay c (GetItem qid) = get_quarantine_item cf c qid"
| "admin_route cf relay c (ReleaseItem qid who why) = release_quarantine_item cf relay c qid who why"
| "admin_route cf relay c (RejectItem qid who why) = reject_quarantine_item cf c qid who why"
| "admin_route cf relay c (BulkAction act ids why) = bulk_quarantine_action cf c act ids why"
| "admin_route cf relay c (SendDigest rcpt) = send_quarantine_digest cf c rcpt"
| "admin_route cf relay c (Zap target why) = admin_zap_endpoint cf c target why"
| "admin_route cf relay c ListTenants = list_tenants_endpoint cf c"
| "admin_route cf relay c (CreateTenant tid sp) = create_tenant_endpoint cf c tid sp"
| "admin_route cf relay c (GetTenant tid) = get_tenant_endpoint cf c tid"
| "admin_route cf relay c (UpdateTenant tid ds fs) = update_tenant_endpoint cf c tid ds fs"
| "admin_route cf relay c (Deprovision tid purge) = deprovision_tenant_endpoint cf c tid purge"
| "admin_route cf relay c ListUsers = list_users_endpoint cf c"
| "admin_route cf relay c (CreateUser dr name pw r tenant mfa extra) = create_user_endpoint cf c dr name pw r tenant mfa extra"
| "admin_route cf relay c (DeleteUser name) = delete_user_endpoint cf c name"

text \<open>The role and the scope a route asks for.\<close>

fun route_rights :: "operation \<Rightarrow> string option \<times> string option" where
  "route_rights ListUsers = (Some ''admin'', Some ''user:manage'')"
| "route_rights (CreateUser _ _ _ _ _ _ _) = (Some ''admin'', Some ''user:manage'')"
| "route_rights (DeleteUser _) = (Some ''admin'', Some ''user:manage'')"
| "route_rights (BulkAction _ _ _) = (None, Some ''quarantine:write'')"
| "route_rights _ = (None, None)"

lemmas handler_defs = list_quarantine_def get_quarantine_item_def release_quarantine_item_def reject_quarantine_item_def
  bulk_quarantine_action_def send_quarantine_digest_def admin_zap_endpoint_def list_tenants_endpoint_def
  create_tenant_endpoint_def get_tenant_endpoint_def update_tenant_endpoint_def deprovision_tenant_endpoint_def
  list_users_endpoint_def create_user_endpoint_def delete_user_endpoint_def

lemma route_guarded: "\<exists>h. admin_route cf relay c r = guarded cf c (fst (route_rights r)) (snd (route_rights r)) h"
  by (cases r) (auto simp: handler_defs fun_eq_iff)

lemma verify_admin_state: "snd (verify_admin cf c a b st) = in_gw (gw_kv_update (\<lambda>_. gw_kv (ad_gw (snd (verify_admin cf c a b st))))) st"
  by (simp add: verify_admin_def in_gw_def split: prod.split sum.split)

lemma verify_admin_Inr:
  assumes "verify_admin cf c a b st = (Inr p, st')"
  shows "verify_request (ac_crypto cf) (ac_codec cf) (ad_auth st) (cl_now c) (Some (cl_auth c)) (Some (ac_secret cf)) a b = Inr p"
  using assms by (auto simp: verify_admin_def split: prod.splits sum.splits)

lemma guarded_refused:
  assumes "fst (verify_admin cf c a b st) = Inl e"
  shows "guarded cf c a b h st = (Inl e, in_gw (gw_kv_update (\<lambda>_. gw_kv (ad_gw (snd (verify_admin cf c a b st))))) st)"
  using assms verify_admin_state [of cf c a b st]
  by (cases "verify_admin cf c a b st") (simp add: guarded_def)

text \<open>C27: With an admin secret configured, a guarded route does more than count the request only for a caller who sends
  that secret or a live token of the manager with the role and scope the route asks for.\<close>
theorem admin_needs_credentials:
  assumes "ac_secret cf \<noteq> []" and "admin_route cf relay c r st = (answer, st')"
    and "is_ok answer \<or> st' \<noteq> in_gw (gw_kv_update (\<lambda>_. gw_kv (ad_gw st'))) st"
  shows "starts_with ''Bearer '' (cl_auth c) \<and> (bearer_token (cl_auth c) = ac_secret cf \<or>
    (\<exists>p. verify_token (ac_crypto cf) (ac_codec cf) (tokens (ad_auth st)) (cl_now c) (bearer_token (cl_auth c)) = Inr p \<and>
      (fst (route_rights r) = Some ''admin'' \<longrightarrow> payload_role p = ''admin'') \<and>
      (\<forall>sc. snd (route_rights r) = Some sc \<and> sc \<noteq> [] \<longrightarrow>
         has_permission (payload_role p) (json_strings (dgetd p ''scopes'' (JList []))) sc)))"
proof -
  obtain a b where ab: "route_rights r = (a, b)" by (cases "route_rights r")
  obtain h where h: "admin_route cf relay c r = guarded cf c a b h"
    using route_guarded [of cf relay c r] ab by auto
  obtain p st1 where "verify_admin cf c a b st = (Inr p, st1)"
  proof (cases "fst (verify_admin cf c a b st)")
    case (Inl e)
    from guarded_refused [OF this, of h] assms(2,3) h show ?thesis by (auto simp: in_gw_def)
  qed (use that in \<open>metis prod.collapse\<close>)
  from verify_admin_Inr [OF this] show ?thesis
    using request_needs_credentials [of _ _ _ _ "Some (cl_auth c)" "Some (ac_secret cf)" a b p] assms(1) ab by fastforce
qed

subsection \<open>Single sign-on\<close>

lemma token_no_space: "c \<in> set (token_of cr jc tm payload) \<Longrightarrow> \<not> is_space c"
proof -
  have "\<not> is_space c" if "c \<in> set (tk_b64encode x)" for x
    using b64_body_chars [of c x] that b64_char_props(5) by (auto simp: tk_b64encode_body)
  moreover have "\<not> is_space (CHR ''.'')" by code_simp
  ultimately show "c \<in> set (token_of cr jc tm payload) \<Longrightarrow> \<not> is_space c"
    by (auto simp: token_of_def sign_def Let_def)
qed

lemma bearer_of_token: "bearer_token (''Bearer '' @ token_of cr jc tm payload) = token_of cr jc tm payload"
proof -
  have "strip (token_of cr jc tm payload) = token_of cr jc tm payload"
    using token_no_space by (intro strip_none)
  then show ?thesis using cut_append [of "CHR '' ''" "''Bearer''"] by (simp add: bearer_token_def)
qed

text \<open>What anyone can send to the callback: a name and the group that maps to admin.\<close>

definition forged_claims :: "string \<Rightarrow> (string, json) dict" where
  "forged_claims name = [(''email'', JStr name), (''groups'', JList [JStr ''GatewayAdmins''])]"

lemma forged_admin:
  "name \<noteq> [] \<Longrightarrow> authenticate_oidc_claims cr salt now [] (forged_claims name) =
     Inr (sso_user cr salt now (forged_claims name) name ''admin'')"
  by (simp add: authenticate_oidc_claims_def forged_claims_def role_mapping_def default_role_mapping_def or_else_def dgetd_def)

definition forged_payload :: "admin_conf \<Rightarrow> auth_manager \<Rightarrow> string \<Rightarrow> rat \<Rightarrow> string \<Rightarrow> (string, json) dict" where
  "forged_payload cf am salt now name =
     (let u = sso_user (ac_crypto cf) salt now (forged_claims name) name ''admin''
      in token_payload (ac_codec cf) (tokens am) now (user_id u) (username u) ''admin'' (user.tenant_id u) True (scopes u) None)"

lemma forged_token: "sso_token cf am now (sso_user (ac_crypto cf) salt now (forged_claims name) name ''admin'') =
    token_of (ac_crypto cf) (ac_codec cf) (tokens am) (forged_payload cf am salt now name)"
  by (simp add: sso_token_def create_session_token_def forged_payload_def Let_def sso_user_def)

lemma forged_payload_fields:
  "dgetd (forged_payload cf am salt now name) ''role'' x = JStr ''admin''"
  "dgetd (forged_payload cf am salt now name) ''exp'' y = JInt (trunc_rat now + default_ttl (tokens am))"
  by (simp_all add: forged_payload_def token_payload_def Let_def dgetd_def)

text \<open>C28: The single sign-on callback gives anyone an administrator's token. It believes the claims in the request, so
  an unauthenticated caller who names the administrators' group is answered with a token that, until it expires,
  passes the check of the routes reserved to administrators.\<close>
theorem sso_callback_admits_anyone:
  assumes "ac_mapping cf = []" and "name \<noteq> []"
    and "payload = forged_payload cf (ad_auth st) salt now name"
    and "json_loads (ac_codec cf) (json_dumps (ac_codec cf) (JDict payload)) = Some (JDict payload)"
    and "token = token_of (ac_crypto cf) (ac_codec cf) (tokens (ad_auth st)) payload"
    and "token \<notin> set (revoked_tokens (tokens (ad_auth st)))"
    and "trunc_rat (cl_now c) \<le> trunc_rat now + default_ttl (tokens (ad_auth st))"
    and "is_ok (fst (rl_check mem_incr (ac_limiter cf) (gw_kv (ad_gw st)) (cl_now c) (cl_ip c)))"
  shows "\<exists>d. sso_callback cf salt now (forged_claims name) st = (Inr (RJson (JDict d)), st) \<and>
    dget d ''access_token'' = Some (JStr token) \<and>
    fst (verify_admin cf (c\<lparr>cl_auth := ''Bearer '' @ token\<rparr>) (Some ''admin'') (Some ''user:manage'') st) = Inr payload"
proof -
  let ?u = "sso_user (ac_crypto cf) salt now (forged_claims name) name ''admin''"
  have "\<exists>d. sso_callback cf salt now (forged_claims name) st = (Inr (RJson (JDict d)), st) \<and> dget d ''access_token'' = Some (JStr token)"
    using forged_admin [OF assms(2), of "ac_crypto cf" salt now] assms(1)
    by (simp add: sso_callback_def ok_def assms(3,5) forged_token) (simp add: forged_claims_def)
  moreover have "verify_token (ac_crypto cf) (ac_codec cf) (tokens (ad_auth st)) (cl_now c) token = Inr payload"
    using verify_created [OF assms(4), of "ac_crypto cf" "tokens (ad_auth st)" "cl_now c"] assms(6,7)
    by (simp add: assms(5) expired_def forged_payload_fields assms(3))
  then have "verify_request (ac_crypto cf) (ac_codec cf) (ad_auth st) (cl_now c) (Some (''Bearer '' @ token)) (Some (ac_secret cf))
      (Some ''admin'') (Some ''user:manage'') = check_rights payload (Some ''admin'') (Some ''user:manage'')"
    using bearer_of_token by (simp add: verify_request_def Let_def assms(5) starts_with_append [of "''Bearer ''", simplified])
  moreover have "check_rights payload (Some ''admin'') (Some ''user:manage'') = Inr payload"
    by (simp add: check_rights_def Let_def payload_role_def forged_payload_fields assms(3) has_permission_def)
  ultimately show ?thesis using assms(8)
    by (auto simp: verify_admin_def is_ok_iff split: prod.split sum.split)
qed

subsection \<open>Rights\<close>

lemma check_rights_none: "check_rights p None None = Inr p"
  by (simp add: check_rights_def Let_def)

text \<open>On the routes that ask for no role or scope, which are all but the accounts' and the bulk action's, any live
  session will do: what is done does not depend on who the session belongs to, so a read-only auditor can release
  and reject messages, zap mailboxes, and create, read (with its encryption key) and delete tenants.\<close>
theorem any_session_has_full_rights:
  assumes "route_rights r = (None, None)"
    and "c2 = c1\<lparr>cl_auth := cl_auth c2\<rparr>" and "starts_with ''Bearer '' (cl_auth c1)" and "starts_with ''Bearer '' (cl_auth c2)"
    and "verify_token (ac_crypto cf) (ac_codec cf) (tokens (ad_auth st)) (cl_now c1) (bearer_token (cl_auth c1)) = Inr p1"
    and "verify_token (ac_crypto cf) (ac_codec cf) (tokens (ad_auth st)) (cl_now c1) (bearer_token (cl_auth c2)) = Inr p2"
  shows "admin_route cf relay c1 r st = admin_route cf relay c2 r st"
proof -
  have same: "cl_now c2 = cl_now c1" "cl_ip c2 = cl_ip c1" using assms(2) by (metis call.select_convs call.surjective call.update_convs(3))+
  have "guarded cf c1 None None h st = guarded cf c2 None None h st" for h
    using assms(3-6) by (simp add: guarded_def verify_admin_def same verify_request_def Let_def check_rights_none
        split: prod.split sum.split)
  note g = this
  have "release_quarantine_item cf relay c1 qid who why st = release_quarantine_item cf relay c2 qid who why st"
    "reject_quarantine_item cf c1 qid who why st = reject_quarantine_item cf c2 qid who why st" for qid who why
    unfolding release_quarantine_item_def reject_quarantine_item_def same by (rule g)+
  with g assms(1) show ?thesis
    by (cases r) (simp_all add: handler_defs same del: release_quarantine_item_def reject_quarantine_item_def)
qed

subsection \<open>Releasing\<close>

lemma guarded_Inr:
  assumes "guarded cf c a b h st = (Inr x, st')"
  obtains kv where "h (in_gw (gw_kv_update (\<lambda>_. kv)) st) = (Inr x, st')"
proof -
  have "\<exists>kv. snd (verify_admin cf c a b st) = in_gw (gw_kv_update (\<lambda>_. kv)) st"
    using verify_admin_state by blast
  with assms that show ?thesis by (auto simp: guarded_def split: prod.splits sum.splits)
qed

lemma q_of_fixed [simp]: "q_of (in_gw (gw_kv_update f) st) = q_of st" "q_of (note_resolution now act qid who why r st) = q_of st"
  "q_of (set_world w st) = q_of st" "q_of (set_q q st) = q"
  by (simp_all add: in_gw_def note_resolution_def set_world_def set_q_def)

lemma world_fixed [simp]: "sc_world (gw_scene (ad_gw (in_gw (gw_kv_update f) st))) = sc_world (gw_scene (ad_gw st))"
  "sc_world (gw_scene (ad_gw (note_resolution now act qid who why r st))) = sc_world (gw_scene (ad_gw st))"
  "sc_world (gw_scene (ad_gw (set_q q st))) = sc_world (gw_scene (ad_gw st))"
  "sc_world (gw_scene (ad_gw (set_world w st))) = w"
  by (simp_all add: in_gw_def note_resolution_def set_world_def set_q_def)

lemma relay_released_Inr:
  assumes "relay_released cf (Some (logging_send script)) qid r st = (Inr x, st')"
  shows "\<exists>raw. get_raw_message (ac_fernet cf) (q_of st) qid = Inr (Some raw) \<and> q_of st' = q_of st \<and>
    delivered_log (gw_scene (ad_gw st')) = delivered_log (gw_scene (ad_gw st)) @ [(raw, envelope_to r)]"
proof -
  from assms obtain raw where raw: "get_raw_message (ac_fernet cf) (q_of st) qid = Inr (Some raw)"
    by (auto simp: relay_released_def split: sum.splits option.splits)
  obtain y w where y: "logging_send script raw (quarantine_record.envelope_from r) (envelope_to r) (sc_world (gw_scene (ad_gw st))) = (y, w)"
    by (cases "logging_send script raw (quarantine_record.envelope_from r) (envelope_to r) (sc_world (gw_scene (ad_gw st)))")
  with assms raw have "st' = set_world w st" "is_ok y"
    by (auto simp: relay_released_def ok_def split: sum.splits relay_error.splits)
  with y raw show ?thesis by (auto simp: logging_send_def delivered_log_def)
qed

text \<open>One successful release.\<close>

lemma release_item_Inr:
  assumes "release_quarantine_item cf (Some (logging_send script)) c qid who why st = (Inr x, st')"
  shows "\<exists>r raw. get_record (q_of st) qid = Inr (Some r) \<and> get_raw_message (ac_fernet cf) (q_of st) qid = Inr (Some raw) \<and>
    delivered_log (gw_scene (ad_gw st')) = delivered_log (gw_scene (ad_gw st)) @ [(raw, envelope_to r)] \<and>
    (\<exists>r'. get_record (q_of st') qid = Inr (Some r') \<and> envelope_to r' = envelope_to r) \<and>
    get_raw_message (ac_fernet cf) (q_of st') qid = Inr (Some raw)"
proof -
  from assms obtain kv where h: "(case release who why (cl_now c) qid (q_of (in_gw (gw_kv_update (\<lambda>_. kv)) st)) of
       (Inl e, q) \<Rightarrow> (Inl (ServerError e), set_q q (in_gw (gw_kv_update (\<lambda>_. kv)) st))
     | (Inr None, q) \<Rightarrow> (Inl (HttpError 404 ''no such quarantine item''), set_q q (in_gw (gw_kv_update (\<lambda>_. kv)) st))
     | (Inr (Some r), q) \<Rightarrow> relay_released cf (Some (logging_send script)) qid r
         (note_resolution (cl_now c) ''release'' qid who why r (set_q q (in_gw (gw_kv_update (\<lambda>_. kv)) st)))) = (Inr x, st')"
    unfolding release_quarantine_item_def by (rule guarded_Inr)
  then obtain r q where r: "release who why (cl_now c) qid (q_of st) = (Inr (Some r), q)"
    by (auto split: prod.splits sum.splits option.splits)
  then obtain r0 where r0: "get_record (q_of st) qid = Inr (Some r0)" "envelope_to r = envelope_to r0" "q = write_meta qid r (q_of st)"
    by (auto simp: release_def resolve_def Let_def split: sum.splits option.splits)
  from h r relay_released_Inr [of cf script qid r] obtain raw where
    "get_raw_message (ac_fernet cf) q qid = Inr (Some raw)" "q_of st' = q"
    "delivered_log (gw_scene (ad_gw st')) = delivered_log (gw_scene (ad_gw st)) @ [(raw, envelope_to r)]"
    by (fastforce simp: delivered_log_def)
  with r0 show ?thesis by auto
qed

text \<open>Releasing is not idempotent: every successful release of one item sends the message again, to all its
  recipients, also when it was released (or rejected) before.\<close>
theorem each_release_sends_again:
  assumes "release_quarantine_item cf (Some (logging_send script)) c1 qid who1 why1 st = (Inr x1, st1)"
    and "release_quarantine_item cf (Some (logging_send script)) c2 qid who2 why2 st1 = (Inr x2, st2)"
  shows "\<exists>raw rcpts. delivered_log (gw_scene (ad_gw st2)) = delivered_log (gw_scene (ad_gw st)) @ [(raw, rcpts), (raw, rcpts)]"
proof -
  from release_item_Inr [OF assms(1)] obtain r r' :: quarantine_record and raw where
    1: "delivered_log (gw_scene (ad_gw st1)) = delivered_log (gw_scene (ad_gw st)) @ [(raw, envelope_to r)]"
      "get_record (q_of st1) qid = Inr (Some r')" "envelope_to r' = envelope_to r"
      "get_raw_message (ac_fernet cf) (q_of st1) qid = Inr (Some raw)" by blast
  with release_item_Inr [OF assms(2)] show ?thesis by auto
qed

definition resolution :: "string \<Rightarrow> string" where
  "resolution act = (if act = ''release'' then ''released'' else ''rejected'')"

lemma bulk_step: "(if act = ''release'' then release who why now i q else reject who why now i q) = resolve (resolution act) who why now i q"
  by (simp add: resolution_def release_def reject_def)

lemma resolve_other: "i \<noteq> j \<Longrightarrow> get_record (snd (resolve s who why now j q)) i = get_record q i"
  by (auto simp: resolve_def Let_def split: sum.split option.split)

lemma resolve_same: "get_record q i = Inr (Some r) \<Longrightarrow>
    \<exists>r'. get_record (snd (resolve s who why now i q)) i = Inr (Some r') \<and> q_status r' = s"
  by (simp add: resolve_def Let_def)

lemma bulk_loop_status:
  assumes "bulk_loop act why now is q = (Inr ids, q')" "get_record q i = Inr (Some r)"
    and "i \<in> set is \<or> q_status r = resolution act"
  shows "\<exists>r'. get_record q' i = Inr (Some r') \<and> q_status r' = resolution act"
  using assms
proof (induction "is" arbitrary: q r ids)
  case (Cons j js)
  let ?q = "snd (resolve (resolution act) ''admin_ui'' why now j q)"
  from Cons.prems(1) obtain ids' where rest: "bulk_loop act why now js ?q = (Inr ids', q')"
    by (auto simp: bulk_step split: prod.splits sum.splits)
  show ?case
  proof (cases "i = j")
    case True
    with resolve_same [OF Cons.prems(2)] Cons.IH [OF rest] show ?thesis by blast
  next
    case False
    with resolve_other [of i j "resolution act" "''admin_ui''" why now q] Cons.IH [OF rest] Cons.prems(2,3)
    show ?thesis by auto
  qed
qed auto

lemma set_q_others: "ad_zap (set_q q st) = ad_zap st" "sc_world (gw_scene (ad_gw (set_q q st))) = sc_world (gw_scene (ad_gw st))"
  "gw_audit (ad_gw (set_q q st)) = gw_audit (ad_gw st)" "gw_feedback (ad_gw (set_q q st)) = gw_feedback (ad_gw st)"
  by (simp_all add: set_q_def in_gw_def)

text \<open>The bulk action of the dashboard only writes a status: after a successful bulk release every item that existed
  is recorded as released, and none was sent to anybody; nor does the audit log or the feedback on the senders
  have a trace of it.\<close>
theorem bulk_release_sends_nothing:
  assumes "bulk_quarantine_action cf c ''release'' ids why st = (Inr x, st')"
    and "i \<in> set ids" and "get_record (q_of st) i = Inr (Some r)"
  shows "(\<exists>r'. get_record (q_of st') i = Inr (Some r') \<and> q_status r' = ''released'') \<and>
    sc_world (gw_scene (ad_gw st')) = sc_world (gw_scene (ad_gw st)) \<and>
    gw_audit (ad_gw st') = gw_audit (ad_gw st) \<and> gw_feedback (ad_gw st') = gw_feedback (ad_gw st)"
proof -
  let ?st = "\<lambda>kv. in_gw (gw_kv_update (\<lambda>_. kv)) st"
  have "\<exists>kv q ids'. bulk_loop ''release'' why (cl_now c) ids (q_of st) = (Inr ids', q) \<and> st' = set_q q (?st kv)"
    using assms(1) unfolding bulk_quarantine_action_def
    by (rule guarded_Inr) (auto split: if_splits prod.splits sum.splits)
  then obtain kv q ids' where q: "bulk_loop ''release'' why (cl_now c) ids (q_of st) = (Inr ids', q)" "st' = set_q q (?st kv)"
    by blast
  from bulk_loop_status [OF q(1) assms(3)] assms(2) show ?thesis
    by (simp add: q(2) set_q_others resolution_def) (simp add: in_gw_def)
qed

subsection \<open>One counter for two limiters\<close>

text \<open>A webhook caller's requests at the given times.\<close>

fun webhook_traffic :: "receiver_conf \<Rightarrow> string \<Rightarrow> rat list \<Rightarrow> 'w gateway \<Rightarrow> 'w gateway" where
  "webhook_traffic cf ip [] g = g"
| "webhook_traffic cf ip (t # ts) g = webhook_traffic cf ip ts (snd (count_request cf t ip g))"

lemma count_request_kv: "gw_kv (snd (count_request cf now ip g)) =
    snd (mem_incr (gw_kv g) now (rl_key (rc_limiter cf) ip) (Some (window_seconds (rc_limiter cf))))"
  using mem.check_state [of "rc_limiter cf" "gw_kv g" now ip]
  by (auto simp: count_request_def split: prod.split sum.split)

lemma traffic_counted:
  assumes "mem_entry (gw_kv g) t0 (rl_key (rc_limiter cf) ip) = Some (int_str (int n), Some d)"
    and "sorted (t0 # ts @ [t])" "\<forall>u \<in> set ts. u < d" "t < d"
  shows "mem_entry (gw_kv (webhook_traffic cf ip ts g)) t (rl_key (rc_limiter cf) ip) = Some (int_str (int (n + length ts)), Some d)"
  using assms
proof (induction ts arbitrary: g t0 n)
  case Nil
  then show ?case using mem_entry_later [of t0 t "gw_kv g" "rl_key (rc_limiter cf) ip"] by simp
next
  case (Cons u us)
  have "mem_entry (gw_kv g) u (rl_key (rc_limiter cf) ip) = Some (int_str (int n), Some d)"
    using Cons.prems mem_entry_later [of t0 u "gw_kv g" "rl_key (rc_limiter cf) ip"] by simp
  from mem.incr_old_entry [OF this, of u "Some (window_seconds (rc_limiter cf))" "rl_key (rc_limiter cf) ip"]
  have "mem_entry (gw_kv (snd (count_request cf u ip g))) u (rl_key (rc_limiter cf) ip) = Some (int_str (int (Suc n)), Some d)"
    using Cons.prems by (simp add: count_request_kv add.commute)
  from Cons.IH [OF this] Cons.prems show ?case by simp
qed

text \<open>The limiters of the webhooks and of the administration count under the same keys. As many webhook requests as the
  administration's limit is, from one address within a window, make every administration request from there
  refused with status 429, whatever its credentials.\<close>
theorem webhook_traffic_blocks_admin:
  assumes "key_prefix (ac_limiter cfa) = key_prefix (rc_limiter cf)" and "0 < window_seconds (rc_limiter cf)"
    and "mem_entry (gw_kv g) t0 (rl_key (rc_limiter cf) (cl_ip c)) = None" and "sorted (t0 # ts @ [cl_now c])"
    and "cl_now c < t0 + of_int (window_seconds (rc_limiter cf))" and "max_requests (ac_limiter cfa) \<le> int (Suc (length ts))"
    and "ad_gw st = webhook_traffic cf (cl_ip c) (t0 # ts) g"
  shows "fst (verify_admin cfa c req_role req_scope st) = Inl (HttpError 429 ''rate limit exceeded'')"
proof -
  let ?k = "rl_key (rc_limiter cf) (cl_ip c)" and ?d = "t0 + of_int (window_seconds (rc_limiter cf))"
  have first: "mem_entry (gw_kv (snd (count_request cf t0 (cl_ip c) g))) t0 ?k = Some (int_str (int 1), Some ?d)"
    using mem.incr_new_entry [OF assms(3), of t0 "Some (window_seconds (rc_limiter cf))" ?k] assms(2)
    by (simp add: count_request_kv deadline_def int_str_one)
  have times: "\<forall>u \<in> set ts. u < ?d" using assms(4,5) by (auto simp: sorted_append)
  have "mem_entry (gw_kv (ad_gw st)) (cl_now c) ?k = Some (int_str (int (1 + length ts)), Some ?d)"
    using traffic_counted [OF first assms(4) times assms(5)] by (simp add: assms(7))
  moreover have "rl_key (ac_limiter cfa) (cl_ip c) = ?k" by (simp add: rl_key_def assms(1))
  ultimately have "fst (rl_check mem_incr (ac_limiter cfa) (gw_kv (ad_gw st)) (cl_now c) (cl_ip c)) =
      Inl (RateLimitExceeded (cl_ip c) (max_requests (ac_limiter cfa)) (window_seconds (ac_limiter cfa)))"
    using mem_incr_live [of "gw_kv (ad_gw st)" "cl_now c" ?k "int (1 + length ts)"] assms(6)
    by (simp add: rl_check_def)
  then show ?thesis by (auto simp: verify_admin_def limit_http_def split: prod.split)
qed

subsection \<open>Instances\<close>

definition example_admin_conf :: "json_codec \<Rightarrow> admin_conf" where
  "example_admin_conf jc = \<lparr>ac_secret = ''s3cret'', ac_limiter = \<lparr>max_requests = 60, window_seconds = 60, key_prefix = ''ratelimit''\<rparr>,
     ac_crypto = toy_crypto, ac_codec = jc, ac_mapping = [], ac_fernet = toy_fernet, ac_digest_key = ''k'', ac_base_url = [],
     ac_store_dir = ''/q''\<rparr>"

definition example_store :: quarantine_store where
  "example_store = q_run toy_fernet (store_new empty_dir None) [OpStore ''n'' ''q1'' 5 example_mail]"

definition example_admin :: "(nat \<times> (string \<times> string list) list) admin" where
  "example_admin = \<lparr>ad_gw = example_gateway\<lparr>gw_scene := example_scene\<lparr>sc_store := example_store\<rparr>\<rparr>, ad_auth = example_auth,
     ad_tenants = no_tenants, ad_zap = (\<lparr>m365_client = None, google_client = None\<rparr>, []), ad_reports = [], ad_purged = []\<rparr>"

definition root_call :: call where
  "root_call = \<lparr>cl_now = 7, cl_ip = ''1.2.3.4'', cl_auth = ''Bearer s3cret''\<rparr>"

abbreviation "working_relay \<equiv> logging_send (\<lambda>n. Inr ())"

lemma root_call_verified:
  assumes "ac_secret cf = ''s3cret''" "is_ok (fst (rl_check mem_incr (ac_limiter cf) (gw_kv (ad_gw st)) 7 ''1.2.3.4''))"
  shows "is_ok (fst (verify_admin cf root_call a b st))"
proof -
  have "bearer_token ''Bearer s3cret'' = ''s3cret''" "split_char (CHR ''.'') ''s3cret'' = [''s3cret'']" "starts_with ''Bearer '' ''Bearer s3cret''"
    by code_simp+
  then have "is_ok (verify_request cr jc am 7 (Some ''Bearer s3cret'') (Some ''s3cret'') a b)" for cr jc am
    by (simp add: verify_request_def verify_token_def Let_def legacy_match_def del: split_char.simps)
  from this [of "ac_crypto cf" "ac_codec cf" "ad_auth st"] assms show ?thesis
    by (auto simp: verify_admin_def root_call_def split: prod.split sum.split)
qed

lemma fresh_limiter: "is_ok (fst (rl_check mem_incr (ac_limiter (example_admin_conf jc)) (gw_kv (ad_gw example_admin)) 7 ''1.2.3.4''))"
  using mem.check_first [of empty_store 7 "ac_limiter (example_admin_conf jc)" "''1.2.3.4''"]
  by (simp add: example_admin_def example_gateway_def) (simp add: example_admin_conf_def)

lemma example_secret: "ac_secret (example_admin_conf jc) = ''s3cret''"
  by (simp add: example_admin_conf_def)

lemma guarded_root:
  assumes "\<And>kv. is_ok (fst (h (in_gw (gw_kv_update (\<lambda>_. kv)) example_admin)))"
  shows "is_ok (fst (guarded (example_admin_conf jc) root_call a b h example_admin))"
proof -
  obtain p st1 where v: "verify_admin (example_admin_conf jc) root_call a b example_admin = (Inr p, st1)"
    using root_call_verified [OF example_secret fresh_limiter, of jc a b]
    by (cases "verify_admin (example_admin_conf jc) root_call a b example_admin") (auto simp: is_ok_iff)
  with verify_admin_state [of "example_admin_conf jc" root_call a b example_admin]
  have "st1 = in_gw (gw_kv_update (\<lambda>_. gw_kv (ad_gw st1))) example_admin" by simp
  then show ?thesis using assms [of "gw_kv (ad_gw st1)"] by (simp add: guarded_def v)
qed

theorem admin_needs_credentials_witness:
  "bearer_token (cl_auth root_call) = ac_secret (example_admin_conf (one_codec [])) \<or>
    (\<exists>p. verify_token toy_crypto (one_codec []) (tokens example_auth) 7 (bearer_token (cl_auth root_call)) = Inr p)"
proof -
  let ?cf = "example_admin_conf (one_codec [])"
  obtain answer st' where st': "admin_route ?cf (Some working_relay) root_call ListTenants example_admin = (answer, st')"
    by (cases "admin_route ?cf (Some working_relay) root_call ListTenants example_admin")
  have "is_ok (fst (admin_route ?cf (Some working_relay) root_call ListTenants example_admin))"
    by (simp add: list_tenants_endpoint_def guarded_root)
  with st' have "is_ok answer" by simp
  moreover have "ac_secret ?cf \<noteq> []" by (simp add: example_admin_conf_def)
  ultimately show ?thesis using admin_needs_credentials [OF _ st']
    by (auto simp: example_admin_conf_def example_admin_def root_call_def)
qed

text \<open>A release that gets through, with what it leaves of the counters and the accounts.\<close>

lemma release_item_ok:
  assumes "is_ok (fst (verify_admin cf c None None st))" "\<exists>r. get_record (q_of st) qid = Inr (Some r)"
    and "\<exists>raw. get_raw_message (ac_fernet cf) (q_of st) qid = Inr (Some raw)"
  shows "is_ok (fst (release_quarantine_item cf (Some working_relay) c qid who why st)) \<and>
    gw_kv (ad_gw (snd (release_quarantine_item cf (Some working_relay) c qid who why st))) =
      gw_kv (ad_gw (snd (verify_admin cf c None None st))) \<and>
    ad_auth (snd (release_quarantine_item cf (Some working_relay) c qid who why st)) = ad_auth st"
proof -
  obtain p st1 where v: "verify_admin cf c None None st = (Inr p, st1)"
    using assms(1) by (cases "verify_admin cf c None None st") (auto simp: is_ok_iff)
  with verify_admin_state [of cf c None None st] obtain kv where st1: "st1 = in_gw (gw_kv_update (\<lambda>_. kv)) st" by auto
  then have auth: "ad_auth st1 = ad_auth st" "q_of st1 = q_of st" by (simp_all add: in_gw_def)
  from assms(2,3) obtain r raw where r: "get_record (q_of st) qid = Inr (Some r)"
    "get_raw_message (ac_fernet cf) (q_of st) qid = Inr (Some raw)" by blast
  have keep: "ad_auth (set_world w s) = ad_auth s" "ad_auth (set_q q s) = ad_auth s"
    "ad_auth (note_resolution now act i who2 why2 r2 s) = ad_auth s" "gw_kv (ad_gw (set_world w s)) = gw_kv (ad_gw s)"
    "gw_kv (ad_gw (set_q q s)) = gw_kv (ad_gw s)" "gw_kv (ad_gw (note_resolution now act i who2 why2 r2 s)) = gw_kv (ad_gw s)"
    for w q now act i who2 why2 r2 and s :: "(nat \<times> (string \<times> string list) list) admin"
    by (simp_all add: set_world_def set_q_def note_resolution_def in_gw_def)
  show ?thesis
    using r auth by (simp add: release_quarantine_item_def guarded_def v release_def resolve_def Let_def relay_released_def
        logging_send_def keep ok_def)
qed

theorem each_release_sends_again_witness:
  "let rel = release_quarantine_item (example_admin_conf (one_codec [])) (Some working_relay) root_call ''q1'' ''joe'' ''ok'';
       st1 = snd (rel example_admin); st2 = snd (rel st1)
   in \<exists>raw rcpts. delivered_log (gw_scene (ad_gw st2)) = [(raw, rcpts), (raw, rcpts)]"
proof -
  let ?cf = "example_admin_conf (one_codec [])"
  let ?rel = "release_quarantine_item ?cf (Some working_relay) root_call ''q1'' ''joe'' ''ok''"
  obtain r1 st1 where 1: "?rel example_admin = (r1, st1)" by (cases "?rel example_admin")
  obtain r2 st2 where 2: "?rel st1 = (r2, st2)" by (cases "?rel st1")
  let ?lim = "ac_limiter ?cf"
  have after: "gw_kv (ad_gw (snd (verify_admin ?cf root_call None None st))) =
      snd (rl_check mem_incr ?lim (gw_kv (ad_gw st)) 7 ''1.2.3.4'')" for st :: "(nat \<times> (string \<times> string list) list) admin"
    by (simp add: verify_admin_def in_gw_def root_call_def split: prod.split sum.split)
  have second: "is_ok (fst (rl_check mem_incr ?lim (snd (rl_check mem_incr ?lim empty_store 7 ''1.2.3.4'')) 7 ''1.2.3.4''))"
    by code_simp
  have ex: "gw_kv (ad_gw example_admin) = empty_store" by (simp add: example_admin_def example_gateway_def)
  have q: "\<exists>r. get_record (q_of example_admin) ''q1'' = Inr (Some r)"
    by (simp add: example_admin_def example_store_def q_run_def q_store_def Let_def)
  have raw: "\<exists>raw. get_raw_message (ac_fernet ?cf) (q_of example_admin) ''q1'' = Inr (Some raw)"
    by (simp add: example_admin_def example_store_def q_run_def q_store_def Let_def)
      (simp add: get_raw_message_def eml_path_def store_new_def cipher_decrypt_def cipher_enabled_def)
  have r1: "is_ok r1" "gw_kv (ad_gw st1) = snd (rl_check mem_incr ?lim empty_store 7 ''1.2.3.4'')"
    using release_item_ok [OF root_call_verified [OF example_secret fresh_limiter] q raw, of "''joe''" "''ok''"] after [of example_admin] ex
    by (simp_all add: 1)
  then obtain x1 where x1: "r1 = Inr x1" by (auto simp: is_ok_iff)
  with release_item_Inr 1 have two: "\<exists>r. get_record (q_of st1) ''q1'' = Inr (Some r)"
    "\<exists>raw. get_raw_message (ac_fernet ?cf) (q_of st1) ''q1'' = Inr (Some raw)" by blast+
  have "is_ok (fst (verify_admin ?cf root_call None None st1))"
    using root_call_verified [OF example_secret, of "one_codec []" st1] second r1(2) by simp
  from release_item_ok [OF this two, of "''joe''" "''ok''"] have "is_ok r2" by (simp add: 2)
  then obtain x2 where "r2 = Inr x2" by (auto simp: is_ok_iff)
  with each_release_sends_again [of ?cf] 1 2 x1
  have "\<exists>raw rcpts. delivered_log (gw_scene (ad_gw st2)) = delivered_log (gw_scene (ad_gw example_admin)) @ [(raw, rcpts), (raw, rcpts)]"
    by blast
  moreover have "delivered_log (gw_scene (ad_gw example_admin)) = []"
    by (simp add: example_admin_def delivered_log_def example_scene_def)
  ultimately show ?thesis using 1 2 by simp
qed

theorem bulk_release_sends_nothing_witness:
  "let st' = snd (bulk_quarantine_action (example_admin_conf (one_codec [])) root_call ''release'' [''q1''] ''ok'' example_admin)
   in (\<exists>r. get_record (q_of st') ''q1'' = Inr (Some r) \<and> q_status r = ''released'') \<and> delivered_log (gw_scene (ad_gw st')) = []"
proof -
  let ?bulk = "bulk_quarantine_action (example_admin_conf (one_codec [])) root_call ''release'' [''q1''] ''ok'' example_admin"
  have "get_record example_store ''q1'' = Inr (Some (new_record ''q1'' 5 example_mail))"
    by (simp add: example_store_def q_run_def q_store_def Let_def)
  then have "is_ok (fst ?bulk)" unfolding bulk_quarantine_action_def
    by (intro guarded_root) (simp add: example_admin_def in_gw_def release_def resolve_def Let_def ok_def)
  then obtain x st' where b: "?bulk = (Inr x, st')" by (cases ?bulk) (auto simp: is_ok_iff)
  have "\<exists>r. get_record (q_of example_admin) ''q1'' = Inr (Some r)"
    by (simp add: example_admin_def example_store_def q_run_def q_store_def Let_def)
  then obtain r where r: "get_record (q_of example_admin) ''q1'' = Inr (Some r)" by blast
  from bulk_release_sends_nothing [OF b _ r] b show ?thesis
    by (simp add: delivered_log_def) (simp add: example_admin_def example_scene_def)
qed

theorem webhook_traffic_blocks_admin_witness:
  "fst (verify_admin ((example_admin_conf (one_codec []))\<lparr>ac_limiter := \<lparr>max_requests = 2, window_seconds = 60, key_prefix = ''ratelimit''\<rparr>\<rparr>)
     root_call (Some ''admin'') None (example_admin\<lparr>ad_gw := webhook_traffic example_conf ''1.2.3.4'' [1, 3] example_gateway\<rparr>)) =
     Inl (HttpError 429 ''rate limit exceeded'')"
  by (rule webhook_traffic_blocks_admin [where cf = example_conf and ?t0.0 = 1 and ts = "[3]" and g = example_gateway])
    (simp_all add: example_admin_conf_def example_conf_def root_call_def example_gateway_def)

text \<open>A serializer for two payloads, and the sessions of an administrator and of an auditor.\<close>

definition session_payload :: "string \<Rightarrow> (string, json) dict" where
  "session_payload r = [(''role'', JStr r), (''exp'', JInt 9999)]"

definition two_codec :: json_codec where
  "two_codec = \<lparr>json_dumps = (\<lambda>j. if j = JDict (session_payload ''admin'') then ''1'' else ''2''),
     json_loads = (\<lambda>s. Some (JDict (session_payload (if s = ''1'' then ''admin'' else ''read_only'')))), set_order = id\<rparr>"

definition session_call :: "string \<Rightarrow> call" where
  "session_call r = \<lparr>cl_now = 7, cl_ip = ''1.2.3.4'',
     cl_auth = ''Bearer '' @ token_of toy_crypto two_codec (tokens example_auth) (session_payload r)\<rparr>"

lemma session_verifies:
  assumes "r \<in> {''admin'', ''read_only''}"
  shows "verify_token toy_crypto two_codec (tokens example_auth) 7 (bearer_token (cl_auth (session_call r))) = Inr (session_payload r)"
proof -
  have "json_loads two_codec (json_dumps two_codec (JDict (session_payload r))) = Some (JDict (session_payload r))"
    using assms by (auto simp: two_codec_def session_payload_def)
  moreover have "bearer_token (cl_auth (session_call r)) = token_of toy_crypto two_codec (tokens example_auth) (session_payload r)"
    by (simp only: session_call_def call.select_convs bearer_of_token)
  moreover have "expired (JDict (session_payload r)) (trunc_rat 7) = Some False" "revoked_tokens (tokens example_auth) = []"
    using trunc_rat_of_int [of 7]
    by (simp_all add: expired_def session_payload_def dgetd_def example_auth_def new_auth_manager_def new_token_manager_def)
  ultimately show ?thesis using verify_created [of two_codec "session_payload r" toy_crypto "tokens example_auth" 7] by simp
qed

theorem any_session_has_full_rights_witness:
  "admin_route (example_admin_conf two_codec) (Some working_relay) (session_call ''admin'') (ReleaseItem ''q1'' ''x'' ''y'') example_admin =
   admin_route (example_admin_conf two_codec) (Some working_relay) (session_call ''read_only'') (ReleaseItem ''q1'' ''x'' ''y'') example_admin"
proof (rule any_session_has_full_rights)
  show "verify_token (ac_crypto (example_admin_conf two_codec)) (ac_codec (example_admin_conf two_codec)) (tokens (ad_auth example_admin))
      (cl_now (session_call ''admin'')) (bearer_token (cl_auth (session_call ''admin''))) = Inr (session_payload ''admin'')"
    "verify_token (ac_crypto (example_admin_conf two_codec)) (ac_codec (example_admin_conf two_codec)) (tokens (ad_auth example_admin))
      (cl_now (session_call ''admin'')) (bearer_token (cl_auth (session_call ''read_only''))) = Inr (session_payload ''read_only'')"
    using session_verifies [of "''admin''"] session_verifies [of "''read_only''"]
    by (simp_all add: example_admin_conf_def example_admin_def) (simp_all add: session_call_def)
qed (simp_all add: session_call_def starts_with_append [of "''Bearer ''", simplified])

definition forger_codec :: json_codec where
  "forger_codec = one_codec (forged_payload (example_admin_conf (one_codec [])) example_auth example_salt 5 ''x'')"

theorem sso_callback_admits_anyone_witness:
  "fst (verify_admin (example_admin_conf forger_codec)
     (root_call\<lparr>cl_auth := ''Bearer '' @ token_of toy_crypto forger_codec (tokens example_auth)
        (forged_payload (example_admin_conf forger_codec) example_auth example_salt 5 ''x'')\<rparr>)
     (Some ''admin'') (Some ''user:manage'') example_admin) =
   Inr (forged_payload (example_admin_conf forger_codec) example_auth example_salt 5 ''x'')"
proof -
  let ?cf = "example_admin_conf forger_codec" and ?p = "forged_payload (example_admin_conf forger_codec) example_auth example_salt 5 ''x''"
  have same: "?p = forged_payload (example_admin_conf (one_codec [])) example_auth example_salt 5 ''x''"
    by (simp add: forged_payload_def example_admin_conf_def token_payload_def forger_codec_def one_codec_def)
  have f: "ac_crypto ?cf = toy_crypto" "ac_codec ?cf = forger_codec" "ac_mapping ?cf = []"
    by (simp_all add: example_admin_conf_def)
  have auth: "ad_auth example_admin = example_auth" by (simp add: example_admin_def)
  have rt: "json_loads (ac_codec ?cf) (json_dumps (ac_codec ?cf) (JDict ?p)) = Some (JDict ?p)"
    by (simp add: same) (simp add: example_admin_conf_def forger_codec_def one_codec_def)
  have lim: "is_ok (fst (rl_check mem_incr (ac_limiter ?cf) (gw_kv (ad_gw example_admin)) (cl_now root_call) (cl_ip root_call)))"
    using mem.check_first [of empty_store 7 "ac_limiter ?cf" "''1.2.3.4''"]
    by (simp add: example_admin_def example_gateway_def root_call_def) (simp add: example_admin_conf_def)
  have "trunc_rat (cl_now root_call) \<le> trunc_rat 5 + default_ttl (tokens example_auth)"
    using trunc_rat_of_int [of 7] trunc_rat_of_int [of 5]
    by (simp add: root_call_def example_auth_def new_auth_manager_def new_token_manager_def)
  moreover have "token_of toy_crypto forger_codec (tokens example_auth) ?p \<notin> set (revoked_tokens (tokens example_auth))"
    by (simp add: example_auth_def new_auth_manager_def new_token_manager_def)
  ultimately show ?thesis
    using sso_callback_admits_anyone [of ?cf "''x''" ?p example_admin example_salt 5 "token_of toy_crypto forger_codec (tokens example_auth) ?p" root_call]
      rt lim by (auto simp: auth f)
qed

end
