(* ===== verification/MessageQueue.thy ===== *)
theory MessageQueue
  imports Prelude "HOL-Library.Multiset"
begin

text \<open>
  \<open>scalability/message_queue.py\<close>: a queue with a dead-letter list served by a pool of workers. Its operations are
  functions on the queue, and the pool is a transition system in which a worker's step is what it does between two
  \<open>await\<close>s that may suspend it. Task ids are drawn by \<open>uuid4\<close> and taken to be fresh. \<open>_pending\<close> maps
  an id to the same task object the queue holds and is only ever inserted to and popped, so it is
  the list of its keys.
\<close>

subsection \<open>AsyncMessageQueue of message\_queue.py\<close>

record 'p task =
  task_id :: string
  task_payload :: 'p
  task_created :: rat
  retries :: int
  max_retries :: int
  last_error :: string

record 'p mq =
  maxsize :: int
  mq_queue :: "'p task list"
  pending :: "string list"
  dlq :: "'p task list"

definition mq_new :: "int \<Rightarrow> 'p mq" where
  "mq_new cap = \<lparr>maxsize = cap, mq_queue = [], pending = [], dlq = []\<rparr>"

text \<open>\<open>asyncio.Queue.put\<close> goes on only when there is room; a size of zero or less means no bound.\<close>

definition has_room :: "'p mq \<Rightarrow> bool" where
  "has_room q \<longleftrightarrow> maxsize q \<le> 0 \<or> int (length (mq_queue q)) < maxsize q"

definition mq_put :: "'p task \<Rightarrow> 'p mq \<Rightarrow> 'p mq" where
  "mq_put t q = q\<lparr>mq_queue := mq_queue q @ [t]\<rparr>"

definition mq_enqueue :: "string \<Rightarrow> 'p \<Rightarrow> int \<Rightarrow> rat \<Rightarrow> 'p mq \<Rightarrow> 'p mq" where
  "mq_enqueue i p mr now q =
     (let t = \<lparr>task_id = i, task_payload = p, task_created = now, retries = 0, max_retries = mr, last_error = []\<rparr>;
          q' = mq_put t q
      in q'\<lparr>pending := List.insert i (pending q')\<rparr>)"

definition mq_ack :: "string \<Rightarrow> 'p mq \<Rightarrow> 'p mq" where
  "mq_ack i q = q\<lparr>pending := removeAll i (pending q)\<rparr>"

text \<open>\<open>nack\<close> up to the \<open>await\<close> of the \<open>put\<close>: the updated task, the queue, and whether the task is to be
  put back.\<close>

definition mq_nack :: "'p task \<Rightarrow> string \<Rightarrow> 'p mq \<Rightarrow> 'p task \<times> 'p mq \<times> bool" where
  "mq_nack t err q =
     (let t' = t\<lparr>retries := retries t + 1, last_error := err\<rparr> in
      if retries t' \<ge> max_retries t'
      then (t', q\<lparr>pending := removeAll (task_id t') (pending q), dlq := dlq q @ [t']\<rparr>, False)
      else (t', q, True))"

definition queue_depth :: "'p mq \<Rightarrow> nat" where
  "queue_depth q = length (mq_queue q)"

subsection \<open>WorkerPool of message\_queue.py\<close>

text \<open>A worker between two points where it may be suspended: waiting for a task, with a task in hand, awaiting the
  coroutine its handler gave, waiting for room to put a failed task back.\<close>

datatype 'p worker =
    Idle
  | Handling "'p task"
  | Awaiting "'p task"
  | Requeueing "'p task"
  | Stopped

text \<open>The pool, with the history of what became of the tasks: enqueued, done, abandoned by a cancelled
  worker; and of the handler's calls, with those made again with the payload as one argument.\<close>

record 'p pool =
  pq :: "'p mq"
  workers :: "'p worker list"
  processed_count :: nat
  failed_count :: nat
  h_enqueued :: "string list"
  h_done :: "'p task list"
  h_lost :: "'p task list"
  h_runs :: "string list"
  h_fallbacks :: "string list"

definition pool_new :: "int \<Rightarrow> nat \<Rightarrow> 'p pool" where
  "pool_new cap n = \<lparr>pq = mq_new cap, workers = replicate n Idle, processed_count = 0, failed_count = 0,
     h_enqueued = [], h_done = [], h_lost = [], h_runs = [], h_fallbacks = []\<rparr>"

text \<open>What a call of the handler gives. A payload that is a dictionary is passed as keyword arguments; any \<open>TypeError\<close> of
  that call, the handler's own included, makes the worker call it a second time with the dictionary as its argument.\<close>

datatype call = Returned | Coroutine | RaisedTypeError string | RaisedOther string

definition is_dict :: "json \<Rightarrow> bool" where
  "is_dict j = (case j of JDict _ \<Rightarrow> True | _ \<Rightarrow> False)"

definition handler_calls :: "json \<Rightarrow> call \<Rightarrow> call \<Rightarrow> nat \<times> call" where
  "handler_calls payload first second = (case first of
     RaisedTypeError _ \<Rightarrow> if is_dict payload then (2, second) else (1, first)
   | _ \<Rightarrow> (1, first))"

fun call_error :: "call \<Rightarrow> string option" where
  "call_error (RaisedTypeError e) = Some e"
| "call_error (RaisedOther e) = Some e"
| "call_error _ = None"

definition ran :: "nat \<Rightarrow> 'p task \<Rightarrow> 'p pool \<Rightarrow> 'p pool" where
  "ran n t s = s\<lparr>h_runs := h_runs s @ replicate n (task_id t), h_fallbacks := h_fallbacks s @ replicate (n - 1) (task_id t)\<rparr>"

text \<open>The end of a turn: \<open>ack\<close>, or \<open>nack\<close> up to the \<open>await\<close> of its \<open>put\<close>.\<close>

definition settle :: "nat \<Rightarrow> 'p task \<Rightarrow> string option \<Rightarrow> 'p pool \<Rightarrow> 'p pool" where
  "settle k t res s = (case res of
     None \<Rightarrow> s\<lparr>pq := mq_ack (task_id t) (pq s), workers := (workers s)[k := Idle],
        processed_count := processed_count s + 1, h_done := h_done s @ [t]\<rparr>
   | Some err \<Rightarrow> (case mq_nack t err (pq s) of (t', q', again) \<Rightarrow>
        s\<lparr>pq := q', workers := (workers s)[k := if again then Requeueing t' else Idle],
          failed_count := failed_count s + 1\<rparr>))"

inductive pool_step :: "json pool \<Rightarrow> json pool \<Rightarrow> bool" where
  enqueued: "has_room (pq s) \<Longrightarrow> i \<notin> set (h_enqueued s) \<Longrightarrow>
     pool_step s (s\<lparr>pq := mq_enqueue i p mr now (pq s), h_enqueued := h_enqueued s @ [i]\<rparr>)"
| dequeued: "k < length (workers s) \<Longrightarrow> workers s ! k = Idle \<Longrightarrow> mq_queue (pq s) = t # ts \<Longrightarrow>
     pool_step s (s\<lparr>pq := (pq s)\<lparr>mq_queue := ts\<rparr>, workers := (workers s)[k := Handling t]\<rparr>)"
| suspended: "k < length (workers s) \<Longrightarrow> workers s ! k = Handling t \<Longrightarrow>
     handler_calls (task_payload t) c1 c2 = (n, Coroutine) \<Longrightarrow>
     pool_step s ((ran n t s)\<lparr>workers := (workers s)[k := Awaiting t]\<rparr>)"
| answered: "k < length (workers s) \<Longrightarrow> workers s ! k = Handling t \<Longrightarrow>
     handler_calls (task_payload t) c1 c2 = (n, c) \<Longrightarrow> c \<noteq> Coroutine \<Longrightarrow>
     pool_step s (settle k t (call_error c) (ran n t s))"
| awaited: "k < length (workers s) \<Longrightarrow> workers s ! k = Awaiting t \<Longrightarrow> pool_step s (settle k t res s)"
| requeued: "k < length (workers s) \<Longrightarrow> workers s ! k = Requeueing t \<Longrightarrow> has_room (pq s) \<Longrightarrow>
     pool_step s (s\<lparr>pq := mq_put t (pq s), workers := (workers s)[k := Idle]\<rparr>)"
| cancelled: "k < length (workers s) \<Longrightarrow> workers s ! k \<in> {Idle, Stopped} \<Longrightarrow>
     pool_step s (s\<lparr>workers := (workers s)[k := Stopped]\<rparr>)"
| cancelled_busy: "k < length (workers s) \<Longrightarrow> workers s ! k \<in> {Handling t, Awaiting t, Requeueing t} \<Longrightarrow>
     pool_step s (s\<lparr>workers := (workers s)[k := Stopped], h_lost := h_lost s @ [t]\<rparr>)"

inductive pool_reachable :: "int \<Rightarrow> nat \<Rightarrow> json pool \<Rightarrow> bool" for cap n where
  start: "pool_reachable cap n (pool_new cap n)"
| step: "pool_reachable cap n s \<Longrightarrow> pool_step s s' \<Longrightarrow> pool_reachable cap n s'"

subsection \<open>What becomes of every task\<close>

fun held :: "'p worker \<Rightarrow> 'p task list" where
  "held (Handling t) = [t]"
| "held (Awaiting t) = [t]"
| "held (Requeueing t) = [t]"
| "held _ = []"

definition held_of :: "'p worker list \<Rightarrow> 'p task multiset" where
  "held_of ws = (\<Sum>w \<in># mset ws. mset (held w))"

definition open_tasks :: "'p pool \<Rightarrow> 'p task multiset" where
  "open_tasks s = mset (mq_queue (pq s)) + held_of (workers s)"

definition all_tasks :: "'p pool \<Rightarrow> 'p task multiset" where
  "all_tasks s = open_tasks s + mset (dlq (pq s)) + mset (h_done s) + mset (h_lost s)"

text \<open>The turns a task has had: the calls of the handler without the repeated ones. What they must be for a task that
  waits, whose coroutine runs, that is dead, done, or was abandoned.\<close>

definition turns :: "'p pool \<Rightarrow> string \<Rightarrow> int" where
  "turns s i = int (count_list (h_runs s) i) - int (count_list (h_fallbacks s) i)"

definition open_ok :: "int \<Rightarrow> 'p task \<Rightarrow> bool" where
  "open_ok n t \<longleftrightarrow> n = retries t \<and> 0 \<le> n \<and> (retries t = 0 \<or> retries t < max_retries t)"

definition running_ok :: "int \<Rightarrow> 'p task \<Rightarrow> bool" where
  "running_ok n t \<longleftrightarrow> open_ok (n - 1) t"

definition dead_ok :: "int \<Rightarrow> 'p task \<Rightarrow> bool" where
  "dead_ok n t \<longleftrightarrow> n = max 1 (max_retries t)"

definition done_ok :: "int \<Rightarrow> 'p task \<Rightarrow> bool" where
  "done_ok n t \<longleftrightarrow> 1 \<le> n \<and> n \<le> max 1 (max_retries t)"

fun worker_ok :: "(string \<Rightarrow> int) \<Rightarrow> 'p worker \<Rightarrow> bool" where
  "worker_ok f (Handling t) = open_ok (f (task_id t)) t"
| "worker_ok f (Awaiting t) = running_ok (f (task_id t)) t"
| "worker_ok f (Requeueing t) = open_ok (f (task_id t)) t"
| "worker_ok f _ = True"

definition counts_ok :: "'p pool \<Rightarrow> bool" where
  "counts_ok s \<longleftrightarrow> set (h_runs s) \<subseteq> set (h_enqueued s) \<and> set (h_fallbacks s) \<subseteq> set (h_enqueued s) \<and>
     (\<forall>i. int (count_list (h_fallbacks s) i) \<le> turns s i)"

definition pool_inv :: "'p pool \<Rightarrow> bool" where
  "pool_inv s \<longleftrightarrow> distinct (h_enqueued s) \<and> image_mset task_id (all_tasks s) = mset (h_enqueued s) \<and> counts_ok s \<and>
     (\<forall>t \<in> set (mq_queue (pq s)). open_ok (turns s (task_id t)) t) \<and> (\<forall>w \<in> set (workers s). worker_ok (turns s) w) \<and>
     (\<forall>t \<in> set (h_lost s). open_ok (turns s (task_id t)) t \<or> running_ok (turns s (task_id t)) t) \<and>
     (\<forall>t \<in> set (dlq (pq s)). dead_ok (turns s (task_id t)) t) \<and> (\<forall>t \<in> set (h_done s). done_ok (turns s (task_id t)) t) \<and>
     set (pending (pq s)) = task_id ` (set_mset (open_tasks s) \<union> set (h_lost s)) \<and>
     length (h_lost s) \<le> count_list (workers s) Stopped"

lemma held_of_simps [simp]: "held_of [] = {#}" "held_of (w # ws) = mset (held w) + held_of ws"
  "held_of (us @ vs) = held_of us + held_of vs"
  by (simp_all add: held_of_def)

lemma held_of_idle [simp]: "held_of (replicate n Idle) = {#}"
  by (induction n) simp_all

lemma held_of_iff: "u \<in># held_of ws \<longleftrightarrow> (\<exists>w \<in> set ws. u \<in> set (held w))"
  by (induction ws) auto

lemma worker_at:
  assumes "k < length ws" "ws ! k = w0"
  obtains us vs where "ws = us @ w0 # vs" "\<And>w. ws[k := w] = us @ w # vs"
  using assms id_take_nth_drop [of k ws] upd_conv_take_nth_drop [of k ws] that [of "take k ws" "drop (Suc k) ws"] by simp

lemma worker_ok_cong:
  "(\<And>u. u \<in> set (held w) \<Longrightarrow> f (task_id u) = g (task_id u)) \<Longrightarrow> worker_ok f w = worker_ok g w"
  by (cases w) simp_all

lemma other_ids:
  assumes "image_mset task_id (add_mset t A) = mset xs" "distinct xs" "u \<in># A"
  shows "task_id u \<noteq> task_id t"
proof
  assume "task_id u = task_id t"
  with assms(3) have "count (image_mset task_id (add_mset t A)) (task_id t) \<ge> 2"
    by (auto simp: dest!: multi_member_split)
  with assms(1,2) show False by (simp add: distinct_count_atmost_1 split: if_splits)
qed

text \<open>A worker with a task in hand: the other tasks have other ids.\<close>

lemma task_in_hand:
  assumes inv: "pool_inv s" and k: "k < length (workers s)" "workers s ! k = w0" "held w0 = [t]"
  obtains us vs where "workers s = us @ w0 # vs" "\<And>w. (workers s)[k := w] = us @ w # vs" "task_id t \<in> set (h_enqueued s)"
    "\<And>u. u \<in># mset (mq_queue (pq s)) + held_of us + held_of vs + mset (dlq (pq s)) + mset (h_done s) + mset (h_lost s) \<Longrightarrow>
       task_id u \<noteq> task_id t"
proof -
  obtain us vs where ws: "workers s = us @ w0 # vs" "\<And>w. (workers s)[k := w] = us @ w # vs" using worker_at [OF k(1,2)] by blast
  let ?B = "mset (mq_queue (pq s)) + held_of us + held_of vs + mset (dlq (pq s)) + mset (h_done s) + mset (h_lost s)"
  have "all_tasks s = add_mset t ?B" using ws(1) k(3) by (simp add: all_tasks_def open_tasks_def)
  with inv have ids: "image_mset task_id (add_mset t ?B) = mset (h_enqueued s)" "distinct (h_enqueued s)"
    by (simp_all add: pool_inv_def)
  have "task_id t \<in># image_mset task_id (add_mset t ?B)" by simp
  then have "task_id t \<in> set (h_enqueued s)" unfolding ids(1) by simp
  then show ?thesis using that ws other_ids [OF ids] by blast
qed

lemma turns_same [simp]: "turns (pq_update f s) = turns s" "turns (workers_update f' s) = turns s"
  "turns (processed_count_update g s) = turns s" "turns (failed_count_update g s) = turns s"
  "turns (h_done_update h s) = turns s" "turns (h_lost_update h s) = turns s" "turns (h_enqueued_update h' s) = turns s"
  by (simp_all add: turns_def fun_eq_iff)

lemma pool_inv_new: "pool_inv (pool_new cap n)"
  by (simp add: pool_inv_def pool_new_def mq_new_def all_tasks_def open_tasks_def counts_ok_def turns_def)

lemma inv_enqueued:
  assumes inv: "pool_inv s" and i: "i \<notin> set (h_enqueued s)"
  shows "pool_inv (s\<lparr>pq := mq_enqueue i p mr now (pq s), h_enqueued := h_enqueued s @ [i]\<rparr>)"
proof -
  have "i \<notin> set (h_runs s)" "i \<notin> set (h_fallbacks s)" using inv i by (auto simp: pool_inv_def counts_ok_def)
  then have "turns s i = 0" by (simp add: turns_def)
  with inv i show ?thesis
    by (auto simp: pool_inv_def all_tasks_def open_tasks_def counts_ok_def mq_enqueue_def mq_put_def Let_def open_ok_def)
qed

lemma inv_dequeued:
  assumes inv: "pool_inv s" and k: "k < length (workers s)" "workers s ! k = Idle" and q: "mq_queue (pq s) = t # ts"
  shows "pool_inv (s\<lparr>pq := (pq s)\<lparr>mq_queue := ts\<rparr>, workers := (workers s)[k := Handling t]\<rparr>)"
proof -
  obtain us vs where ws: "workers s = us @ Idle # vs" "\<And>w. (workers s)[k := w] = us @ w # vs" using worker_at [OF k] by blast
  with inv q show ?thesis
    by (simp add: pool_inv_def all_tasks_def open_tasks_def counts_ok_def)
qed

lemma inv_requeued:
  assumes inv: "pool_inv s" and k: "k < length (workers s)" "workers s ! k = Requeueing t"
  shows "pool_inv (s\<lparr>pq := mq_put t (pq s), workers := (workers s)[k := Idle]\<rparr>)"
proof -
  obtain us vs where ws: "workers s = us @ Requeueing t # vs" "\<And>w. (workers s)[k := w] = us @ w # vs" using worker_at [OF k] by blast
  with inv show ?thesis
    by (simp add: pool_inv_def all_tasks_def open_tasks_def counts_ok_def mq_put_def)
qed

lemma inv_cancelled:
  assumes inv: "pool_inv s" and k: "k < length (workers s)" "workers s ! k \<in> {Idle, Stopped}"
  shows "pool_inv (s\<lparr>workers := (workers s)[k := Stopped]\<rparr>)"
proof -
  define w0 where "w0 = workers s ! k"
  obtain us vs where ws: "workers s = us @ w0 # vs" "\<And>w. (workers s)[k := w] = us @ w # vs"
    using worker_at [OF k(1)] w0_def by metis
  have "held w0 = []" using k(2) by (auto simp: w0_def)
  with inv ws show ?thesis
    by (auto simp: pool_inv_def all_tasks_def open_tasks_def counts_ok_def split: if_splits)
qed

lemma inv_cancelled_busy:
  assumes inv: "pool_inv s" and k: "k < length (workers s)" "workers s ! k \<in> {Handling t, Awaiting t, Requeueing t}"
  shows "pool_inv (s\<lparr>workers := (workers s)[k := Stopped], h_lost := h_lost s @ [t]\<rparr>)"
proof -
  define w0 where "w0 = workers s ! k"
  obtain us vs where ws: "workers s = us @ w0 # vs" "\<And>w. (workers s)[k := w] = us @ w # vs"
    using worker_at [OF k(1)] w0_def by metis
  have "held w0 = [t]" "w0 \<noteq> Stopped" using k(2) by (auto simp: w0_def)
  moreover have "open_ok (turns s (task_id t)) t \<or> running_ok (turns s (task_id t)) t"
  proof -
    have "worker_ok (turns s) w0" using inv ws(1) by (simp add: pool_inv_def)
    moreover have "w0 \<in> {Handling t, Awaiting t, Requeueing t}" using k(2) by (simp add: w0_def)
    ultimately show ?thesis by auto
  qed
  ultimately show ?thesis using inv ws
    by (simp add: pool_inv_def all_tasks_def open_tasks_def counts_ok_def)
qed

lemma turns_ran: "1 \<le> n \<Longrightarrow> turns (ran n t s) i = turns s i + (if i = task_id t then 1 else 0)"
proof -
  have "count_list (replicate m x) y = (if y = x then m else 0)" for m and x y :: string by (induction m) auto
  then show "1 \<le> n \<Longrightarrow> turns (ran n t s) i = turns s i + (if i = task_id t then 1 else 0)"
    by (simp add: turns_def ran_def)
qed

lemma handler_calls_once_or_twice: "handler_calls p c1 c2 = (n, c) \<Longrightarrow> n = 1 \<or> n = 2"
  by (auto simp: handler_calls_def split: call.splits if_splits)

text \<open>The turn begins: whatever the handler's first answers are, the task counts as one more turn.\<close>

lemma inv_called:
  assumes inv: "pool_inv s" and k: "k < length (workers s)" "workers s ! k = Handling t" and n: "n = 1 \<or> n = 2"
  shows "pool_inv ((ran n t s)\<lparr>workers := (workers s)[k := Awaiting t]\<rparr>)"
proof -
  from task_in_hand [OF inv k] obtain us vs where ws: "workers s = us @ Handling t # vs" "\<And>w. (workers s)[k := w] = us @ w # vs"
    and t: "task_id t \<in> set (h_enqueued s)" and
    other: "\<And>u. u \<in># mset (mq_queue (pq s)) + held_of us + held_of vs + mset (dlq (pq s)) + mset (h_done s) + mset (h_lost s) \<Longrightarrow>
       task_id u \<noteq> task_id t" by (metis held.simps(1))
  let ?s = "ran n t s"
  have n1: "1 \<le> n" using n by auto
  note turns = turns_ran [OF n1]
  have f: "h_enqueued ?s = h_enqueued s" "pq ?s = pq s" "h_done ?s = h_done s" "h_lost ?s = h_lost s" by (simp_all add: ran_def)
  have counts: "counts_ok ?s"
  proof -
    have c: "counts_ok s" using inv by (simp add: pool_inv_def)
    have sets: "set (h_runs ?s) = insert (task_id t) (set (h_runs s))" "set (h_fallbacks ?s) \<subseteq> insert (task_id t) (set (h_fallbacks s))"
      using n by (auto simp: ran_def)
    have "int (count_list (h_fallbacks ?s) i) \<le> turns ?s i" for i
    proof -
      have "int (count_list (h_fallbacks s) i) \<le> turns s i" using c by (simp add: counts_ok_def)
      then show ?thesis using n by (auto simp: turns [of t s i]) (auto simp: ran_def)
    qed
    then show ?thesis using c sets t f(1) by (auto simp: counts_ok_def)
  qed
  have same: "worker_ok (turns ?s) w = worker_ok (turns s) w" if "w \<in> set us \<union> set vs" for w
  proof (rule worker_ok_cong)
    fix u assume "u \<in> set (held w)"
    with that have "u \<in># held_of us + held_of vs" by (auto simp: held_of_iff)
    then show "turns ?s (task_id u) = turns s (task_id u)" using other [of u] by (auto simp: turns)
  qed
  have "running_ok (turns ?s (task_id t)) t"
    using inv ws(1) by (simp add: pool_inv_def running_ok_def turns)
  then show ?thesis
    using inv ws counts same other
    by (simp add: pool_inv_def all_tasks_def open_tasks_def f counts_ok_def turns)
qed

text \<open>The turn ends.\<close>

lemma settle_overwrites: "settle k t res (s\<lparr>workers := (workers s)[k := w]\<rparr>) = settle k t res s"
  by (cases s) (simp add: settle_def split: option.split prod.split)

lemma inv_settled:
  assumes inv: "pool_inv s" and k: "k < length (workers s)" "workers s ! k = Awaiting t"
  shows "pool_inv (settle k t res s)"
proof -
  from task_in_hand [OF inv k] obtain us vs where ws: "workers s = us @ Awaiting t # vs" "\<And>w. (workers s)[k := w] = us @ w # vs"
    and other: "\<And>u. u \<in># mset (mq_queue (pq s)) + held_of us + held_of vs + mset (dlq (pq s)) + mset (h_done s) + mset (h_lost s) \<Longrightarrow>
       task_id u \<noteq> task_id t" by (metis held.simps(2))
  have run: "running_ok (turns s (task_id t)) t" using inv ws(1) by (simp add: pool_inv_def)
  have pend: "set (pending (pq s)) = insert (task_id t)
      (task_id ` (set (mq_queue (pq s)) \<union> set_mset (held_of us) \<union> set_mset (held_of vs) \<union> set (h_lost s)))"
    using inv ws(1) by (simp add: pool_inv_def open_tasks_def Un_assoc)
  have removed: "set (removeAll (task_id t) (pending (pq s))) =
      task_id ` (set (mq_queue (pq s)) \<union> set_mset (held_of us) \<union> set_mset (held_of vs) \<union> set (h_lost s))"
    using other by (auto simp: pend)
  show ?thesis
  proof (cases res)
    case None
    have "done_ok (turns s (task_id t)) t" using run by (auto simp: running_ok_def open_ok_def done_ok_def)
    with None inv ws removed show ?thesis
      by (simp add: settle_def pool_inv_def all_tasks_def open_tasks_def counts_ok_def mq_ack_def Un_assoc)
  next
    case (Some err)
    obtain t' q' again where n: "mq_nack t err (pq s) = (t', q', again)" by (metis prod_cases3)
    show ?thesis
    proof (cases again)
      case True
      with n have t': "q' = pq s" "task_id t' = task_id t" "retries t' = retries t + 1" "max_retries t' = max_retries t"
        "retries t + 1 < max_retries t" by (auto simp: mq_nack_def Let_def split: if_splits)
      then have "open_ok (turns s (task_id t)) t'" using run by (auto simp: running_ok_def open_ok_def)
      with Some True n inv ws t'(1,2) pend show ?thesis
        by (simp add: settle_def pool_inv_def all_tasks_def open_tasks_def counts_ok_def Un_assoc)
    next
      case False
      with n have t': "q' = (pq s)\<lparr>pending := removeAll (task_id t) (pending (pq s)), dlq := dlq (pq s) @ [t']\<rparr>"
        "task_id t' = task_id t" "max_retries t' = max_retries t" "max_retries t \<le> retries t + 1"
        by (auto simp: mq_nack_def Let_def split: if_splits)
      then have "dead_ok (turns s (task_id t)) t'" using run by (auto simp: running_ok_def open_ok_def dead_ok_def)
      with Some False n inv ws t'(1,2) removed show ?thesis
        by (simp add: settle_def pool_inv_def all_tasks_def open_tasks_def counts_ok_def Un_assoc)
    qed
  qed
qed

lemma inv_answered:
  assumes inv: "pool_inv s" and k: "k < length (workers s)" "workers s ! k = Handling t" and n: "n = 1 \<or> n = 2"
  shows "pool_inv (settle k t res (ran n t s))"
proof -
  have w: "workers (ran n t s) = workers s" by (simp add: ran_def)
  have "pool_inv (settle k t res ((ran n t s)\<lparr>workers := (workers s)[k := Awaiting t]\<rparr>))"
    using inv_called [OF inv k n] k(1) by (intro inv_settled) simp_all
  then show ?thesis using settle_overwrites [of k t res "ran n t s"] by (simp add: w)
qed

lemma pool_inv_step: "pool_inv s \<Longrightarrow> pool_step s s' \<Longrightarrow> pool_inv s'"
  by (erule pool_step.cases; hypsubst)
    (rule inv_enqueued inv_dequeued inv_called inv_answered inv_settled inv_requeued inv_cancelled inv_cancelled_busy;
      (assumption | erule handler_calls_once_or_twice))+

lemma pool_inv_reachable: "pool_reachable cap n s \<Longrightarrow> pool_inv s"
  by (induction rule: pool_reachable.induct) (blast intro: pool_inv_new pool_inv_step)+

text \<open>C17: However producers and workers interleave and whenever workers are cancelled, every enqueued id is exactly one
  of queued, held by a worker, dead-lettered, done, or abandoned, and no more tasks are abandoned than workers were
  cancelled. A message has at most \<open>max 1 max_retries\<close> turns, exactly that many when it is dead-lettered, and the
  handler is called once or, after a \<open>TypeError\<close>, twice in a turn.\<close>
theorem messages_accounted:
  assumes "pool_reachable cap n s"
  shows "mset (h_enqueued s) = image_mset task_id (mset (mq_queue (pq s)) + held_of (workers s) +
       mset (dlq (pq s)) + mset (h_done s) + mset (h_lost s)) \<and>
     distinct (h_enqueued s) \<and> length (h_lost s) \<le> count_list (workers s) Stopped \<and>
     (\<forall>t \<in># all_tasks s. turns s (task_id t) \<le> max 1 (max_retries t) \<and>
        int (count_list (h_runs s) (task_id t)) \<le> 2 * turns s (task_id t)) \<and>
     (\<forall>t \<in> set (dlq (pq s)). turns s (task_id t) = max 1 (max_retries t))"
proof -
  have inv: "pool_inv s" using assms by (rule pool_inv_reachable)
  have "turns s (task_id t) \<le> max 1 (max_retries t)" if "t \<in># all_tasks s" for t
  proof -
    have "worker_ok (turns s) w \<Longrightarrow> t \<in> set (held w) \<Longrightarrow> turns s (task_id t) \<le> max 1 (max_retries t)" for w
      by (cases w) (auto simp: open_ok_def running_ok_def)
    then show ?thesis using that inv
      by (auto simp: pool_inv_def all_tasks_def open_tasks_def held_of_iff open_ok_def running_ok_def dead_ok_def done_ok_def)
  qed
  moreover have "int (count_list (h_runs s) i) \<le> 2 * turns s i" for i
  proof -
    have "int (count_list (h_fallbacks s) i) \<le> turns s i" using inv by (simp add: pool_inv_def counts_ok_def)
    then show ?thesis by (simp add: turns_def)
  qed
  ultimately show ?thesis using inv by (simp add: pool_inv_def all_tasks_def open_tasks_def dead_ok_def)
qed

theorem messages_accounted_witness:
  "\<exists>s :: json pool. h_enqueued s = [''a''] \<and>
     {#''a''#} = image_mset task_id (mset (mq_queue (pq s)) + held_of (workers s) + mset (dlq (pq s)) + mset (h_done s) + mset (h_lost s))"
proof -
  let ?n = "pool_new 1 1 :: json pool"
  let ?s = "?n\<lparr>pq := mq_enqueue ''a'' JNull 3 0 (pq ?n), h_enqueued := h_enqueued ?n @ [''a'']\<rparr>"
  have "pool_reachable 1 1 ?s"
    by (rule pool_reachable.step [OF pool_reachable.start], rule pool_step.enqueued)
      (simp_all add: pool_new_def mq_new_def has_room_def)
  from messages_accounted [OF this] have "mset (h_enqueued ?s) = image_mset task_id (mset (mq_queue (pq ?s)) +
     held_of (workers ?s) + mset (dlq (pq ?s)) + mset (h_done ?s) + mset (h_lost ?s))" by (rule conjunct1)
  then show ?thesis by (intro exI [of _ ?s]) (simp add: pool_new_def)
qed

subsection \<open>A handler that is called twice\<close>

text \<open>A \<open>TypeError\<close> from inside the handler, after it has done part of its work, makes the worker run it again within
  the same turn; if the second call returns, the task counts as processed once.\<close>

theorem type_error_runs_handler_again:
  assumes "k < length (workers s)" "workers s ! k = Handling t" "is_dict (task_payload t)"
  shows "\<exists>s'. pool_step s s' \<and> h_runs s' = h_runs s @ [task_id t, task_id t] \<and> processed_count s' = processed_count s + 1 \<and>
    h_done s' = h_done s @ [t]"
proof -
  have "handler_calls (task_payload t) (RaisedTypeError e) Returned = (2, Returned)" for e
    using assms(3) by (simp add: handler_calls_def)
  from pool_step.answered [OF assms(1,2) this]
  have "pool_step s (settle k t None (ran 2 t s))" by simp
  then show ?thesis by (intro exI [of _ "settle k t None (ran 2 t s)"]) (simp add: settle_def ran_def numeral_2_eq_2)
qed

subsection \<open>A full queue\<close>

text \<open>C18: The pool can deadlock: with the queue full and every worker waiting to put a failed task back,
  nothing but cancelling a worker can happen. One worker and a queue of one suffice.\<close>
theorem full_queue_deadlock:
  "\<exists>s :: json pool. pool_reachable 1 1 s \<and> mq_queue (pq s) \<noteq> [] \<and>
     {s'. pool_step s s'} = {s\<lparr>workers := [Stopped], h_lost := h_lost s @ [t]\<rparr> | t. workers s = [Requeueing t]}"
proof -
  let ?a = "\<lparr>task_id = ''a'', task_payload = JDict [], task_created = 0, retries = 0, max_retries = 3, last_error = []\<rparr>"
  let ?b = "\<lparr>task_id = ''b'', task_payload = JDict [], task_created = 0, retries = 0, max_retries = 3, last_error = []\<rparr>"
  let ?a' = "?a\<lparr>retries := 1, last_error := ''x''\<rparr>"
  let ?q = "\<lambda>qu. \<lparr>maxsize = 1, mq_queue = qu, pending = [''b'', ''a''], dlq = []\<rparr>"
  let ?s = "\<lparr>pq = ?q [?b], workers = [Requeueing ?a'], processed_count = 0, failed_count = 1,
     h_enqueued = [''a'', ''b''], h_done = [], h_lost = [], h_runs = [''a''], h_fallbacks = []\<rparr> :: json pool"
  let ?s1 = "(pool_new 1 1)\<lparr>pq := mq_enqueue ''a'' (JDict []) 3 0 (mq_new 1), h_enqueued := [''a'']\<rparr> :: json pool"
  let ?s2 = "?s1\<lparr>pq := (pq ?s1)\<lparr>mq_queue := []\<rparr>, workers := [Handling ?a]\<rparr>"
  let ?s3 = "?s2\<lparr>pq := mq_enqueue ''b'' (JDict []) 3 0 (pq ?s2), h_enqueued := [''a'', ''b'']\<rparr>"
  have 1: "pool_step (pool_new 1 1) ?s1"
    using pool_step.enqueued [of "pool_new 1 1" "''a''" "JDict []" 3 0] by (simp add: pool_new_def mq_new_def has_room_def)
  have 2: "pool_step ?s1 ?s2"
    using pool_step.dequeued [of 0 ?s1 ?a "[]"] by (simp add: pool_new_def mq_new_def mq_enqueue_def mq_put_def)
  have 3: "pool_step ?s2 ?s3"
    using pool_step.enqueued [of ?s2 "''b''" "JDict []" 3 0] by (simp add: has_room_def mq_enqueue_def mq_new_def mq_put_def)
  have 4: "pool_step ?s3 ?s"
    using pool_step.answered [of 0 ?s3 ?a "RaisedOther ''x''" Returned 1 "RaisedOther ''x''"]
    by (simp add: handler_calls_def settle_def ran_def mq_nack_def mq_enqueue_def mq_put_def mq_new_def pool_new_def List.insert_def)
  have "pool_reachable 1 1 ?s" using 1 2 3 4 by (meson pool_reachable.intros)
  moreover have "\<not> has_room (pq ?s)" by (simp add: has_room_def)
  have "pool_step ?s s' \<longleftrightarrow> s' = ?s\<lparr>workers := [Stopped], h_lost := [?a']\<rparr>" for s'
  proof
    show "pool_step ?s s'" if "s' = ?s\<lparr>workers := [Stopped], h_lost := [?a']\<rparr>"
      using that pool_step.cancelled_busy [of 0 ?s ?a'] by simp
  next
    assume "pool_step ?s s'"
    then show "s' = ?s\<lparr>workers := [Stopped], h_lost := [?a']\<rparr>"
      by cases (auto simp: has_room_def)
  qed
  ultimately show ?thesis by (intro exI [of _ ?s]) simp
qed

end
