(* ===== verification/WorkQueue.thy ===== *)
theory WorkQueue
  imports Prelude
begin

text \<open>
  \<open>scalability/queue.py\<close>: the queue whose workers retry an item in place, with exponential back-off,
  before giving it up to the dead-letter queue; and \<open>scalability/autoscaler.py\<close>. The handler is a
  function from the number of the attempt to the error it raises, if any.
\<close>

subsection \<open>queue.py\<close>

record 'p queue_item =
  item_id :: string
  item_payload :: 'p
  item_max_retries :: int
  retry_count :: int
  enqueued_at :: rat
  item_error :: "string option"

record 'p work_queue =
  wq_size :: int
  wq_items :: "'p queue_item list"
  wq_dlq :: "'p queue_item list"
  wq_processed :: nat

definition wq_new :: "int \<Rightarrow> 'p work_queue" where
  "wq_new cap = \<lparr>wq_size = cap, wq_items = [], wq_dlq = [], wq_processed = 0\<rparr>"

text \<open>\<open>enqueue\<close>, once the underlying queue has room.\<close>

definition wq_enqueue :: "string \<Rightarrow> rat \<Rightarrow> 'p \<Rightarrow> int \<Rightarrow> 'p work_queue \<Rightarrow> 'p work_queue" where
  "wq_enqueue i now p mr q = q\<lparr>wq_items := wq_items q @ [\<lparr>item_id = i, item_payload = p, item_max_retries = mr,
     retry_count = 0, enqueued_at = now, item_error = None\<rparr>]\<rparr>"

definition wq_dequeue :: "'p work_queue \<Rightarrow> ('p queue_item \<times> 'p work_queue) option" where
  "wq_dequeue q = (case wq_items q of [] \<Rightarrow> None | it # r \<Rightarrow> Some (it, q\<lparr>wq_items := r\<rparr>))"

definition mark_done :: "'p work_queue \<Rightarrow> 'p work_queue" where
  "mark_done q = q\<lparr>wq_processed := wq_processed q + 1\<rparr>"

definition move_to_dlq :: "'p queue_item \<Rightarrow> string \<Rightarrow> 'p work_queue \<Rightarrow> 'p work_queue" where
  "move_to_dlq it msg q = q\<lparr>wq_dlq := wq_dlq q @ [it\<lparr>item_error := Some msg\<rparr>]\<rparr>"

definition wq_depth :: "'p work_queue \<Rightarrow> nat" where
  "wq_depth q = length (wq_items q)"

text \<open>The retry loop: whether it succeeded, the item after it, the sleeps and the handler's runs.\<close>

function item_loop :: "('p \<Rightarrow> nat \<Rightarrow> string option) \<Rightarrow> 'p queue_item \<Rightarrow> rat list \<Rightarrow> nat \<Rightarrow>
    bool \<times> 'p queue_item \<times> rat list \<times> nat" where
  "item_loop h it sleeps runs =
     (if retry_count it \<le> item_max_retries it
      then (case h (item_payload it) runs of
          None \<Rightarrow> (True, it, sleeps, Suc runs)
        | Some exc \<Rightarrow>
            (let it' = it\<lparr>retry_count := retry_count it + 1, item_error := Some exc\<rparr>;
                 sleeps' = (if retry_count it' \<le> item_max_retries it'
                   then sleeps @ [1 / 100 * 2 ^ nat (retry_count it' - 1)] else sleeps)
             in item_loop h it' sleeps' (Suc runs)))
      else (False, it, sleeps, runs))"
  by pat_completeness auto
termination
  by (relation "measure (\<lambda>(h, it, sleeps, runs). nat (item_max_retries it + 1 - retry_count it))") auto

declare item_loop.simps [simp del]

text \<open>One turn of \<open>_worker_loop\<close>; nothing happens when the dequeue times out.\<close>

definition worker_turn :: "('p \<Rightarrow> nat \<Rightarrow> string option) \<Rightarrow> 'p work_queue \<Rightarrow> 'p work_queue \<times> rat list \<times> nat" where
  "worker_turn h q = (case wq_dequeue q of
       None \<Rightarrow> (q, [], 0)
     | Some (it, q1) \<Rightarrow>
         (let (success, it', sleeps, runs) = item_loop h it [] 0 in
          if success then (mark_done q1, sleeps, runs)
          else (move_to_dlq it' (''Exceeded max retries: '' @
                  (case item_error it' of None \<Rightarrow> ''None'' | Some e \<Rightarrow> e)) q1, sleeps, runs)))"

text \<open>A worker cancelled in its turn (\<open>stop\<close> cancels every worker): \<open>CancelledError\<close> is no \<open>Exception\<close>, so it leaves the
  loop during the handler's call or the back-off, and nothing is recorded of the item it had taken.\<close>

definition cancelled_turn :: "'p work_queue \<Rightarrow> 'p work_queue" where
  "cancelled_turn q = (case wq_dequeue q of None \<Rightarrow> q | Some (it, q1) \<Rightarrow> q1)"

lemma cancelled_turn_loses_item:
  assumes "wq_items q = it # r"
  shows "wq_items (cancelled_turn q) = r \<and> wq_dlq (cancelled_turn q) = wq_dlq q \<and>
    wq_processed (cancelled_turn q) = wq_processed q"
  using assms by (simp add: cancelled_turn_def wq_dequeue_def)

lemma item_loop_runs:
  assumes "\<And>i. i < k \<Longrightarrow> h (item_payload it) (runs + i) \<noteq> None"
    and "int k \<le> item_max_retries it + 1 - retry_count it" "0 \<le> retry_count it"
  shows "\<exists>it'. item_loop h it sleeps runs =
      item_loop h it' (sleeps @ map (\<lambda>i. 1 / 100 * 2 ^ nat (retry_count it + int i))
        [0..<min k (nat (item_max_retries it - retry_count it))]) (runs + k) \<and>
      retry_count it' = retry_count it + int k \<and> item_max_retries it' = item_max_retries it \<and>
      item_payload it' = item_payload it \<and>
      item_error it' = (if k = 0 then item_error it else h (item_payload it) (runs + k - 1))"
  using assms
proof (induction k)
  case 0
  then show ?case by (intro exI [of _ it]) simp
next
  case (Suc k)
  let ?m = "nat (item_max_retries it - retry_count it)"
  let ?sl = "\<lambda>k. sleeps @ map (\<lambda>i. 1 / 100 * 2 ^ nat (retry_count it + int i)) [0..<min k ?m]"
  from Suc obtain it' where IH: "item_loop h it sleeps runs = item_loop h it' (?sl k) (runs + k)"
    and it': "retry_count it' = retry_count it + int k" "item_max_retries it' = item_max_retries it"
      "item_payload it' = item_payload it" by auto
  from Suc.prems(1) [of k] obtain e where e: "h (item_payload it) (runs + k) = Some e" by auto
  let ?it = "it'\<lparr>retry_count := retry_count it' + 1, item_error := Some e\<rparr>"
  have "item_loop h it' (?sl k) (runs + k) = item_loop h ?it (if k < ?m then ?sl k @ [1 / 100 * 2 ^ nat (retry_count it + int k)] else ?sl k) (Suc (runs + k))"
  proof -
    have "retry_count it' + 1 \<le> item_max_retries it' \<longleftrightarrow> k < ?m" "retry_count it' \<le> item_max_retries it'"
      using it'(1,2) Suc.prems(2,3) by linarith+
    with e it'(1,3) show ?thesis by (simp add: item_loop.simps [of h it'] Let_def)
  qed
  also have "(if k < ?m then ?sl k @ [1 / 100 * 2 ^ nat (retry_count it + int k)] else ?sl k) = ?sl (Suc k)"
    by (simp add: min_def)
  finally show ?case using IH it' e by (intro exI [of _ ?it]) simp
qed

text \<open>C19: A worker that is not cancelled runs the handler on an item until it first succeeds, at most \<open>max_retries + 1\<close> times, waiting
  10 ms and then twice as long before each retry; the item counts as processed exactly when some run
  succeeded and is dead-lettered with the last error otherwise.\<close>
theorem worker_turn_outcome:
  assumes "wq_items q = it # r" "retry_count it = 0" "item_max_retries it = int n"
  shows "(\<forall>k \<le> n. h (item_payload it) k = None \<and> (\<forall>i < k. h (item_payload it) i \<noteq> None) \<longrightarrow>
      worker_turn h q = (q\<lparr>wq_items := r, wq_processed := wq_processed q + 1\<rparr>,
        map (\<lambda>i. 1 / 100 * 2 ^ i) [0..<k], Suc k)) \<and>
    ((\<forall>i \<le> n. h (item_payload it) i \<noteq> None) \<longrightarrow>
      (\<exists>it'. worker_turn h q = (q\<lparr>wq_items := r, wq_dlq := wq_dlq q @ [it']\<rparr>, map (\<lambda>i. 1 / 100 * 2 ^ i) [0..<n], Suc n) \<and>
        item_error it' = Some (''Exceeded max retries: '' @ the (h (item_payload it) n)) \<and>
        item_payload it' = item_payload it))"
proof (intro conjI allI impI)
  fix k
  assume k: "k \<le> n" and h: "h (item_payload it) k = None \<and> (\<forall>i < k. h (item_payload it) i \<noteq> None)"
  with assms item_loop_runs [of k h it 0 "[]"] obtain it' where
    "item_loop h it [] 0 = item_loop h it' (map (\<lambda>i. 1 / 100 * 2 ^ i) [0..<min k n]) k"
    "retry_count it' = int k" "item_max_retries it' = int n" "item_payload it' = item_payload it" by auto
  with k h have "item_loop h it [] 0 = (True, it', map (\<lambda>i. 1 / 100 * 2 ^ i) [0..<k], Suc k)"
    by (simp add: item_loop.simps [of h it'] min_def)
  with assms(1) show "worker_turn h q = (q\<lparr>wq_items := r, wq_processed := wq_processed q + 1\<rparr>,
        map (\<lambda>i. 1 / 100 * 2 ^ i) [0..<k], Suc k)"
    by (simp add: worker_turn_def wq_dequeue_def mark_done_def)
next
  assume h: "\<forall>i \<le> n. h (item_payload it) i \<noteq> None"
  with assms item_loop_runs [of "Suc n" h it 0 "[]"] obtain it' where it':
    "item_loop h it [] 0 = item_loop h it' (map (\<lambda>i. 1 / 100 * 2 ^ i) [0..<n]) (Suc n)"
    "retry_count it' = int (Suc n)" "item_max_retries it' = int n" "item_payload it' = item_payload it"
    "item_error it' = h (item_payload it) n" by (auto simp: less_Suc_eq_le)
  from it'(1-3) have "item_loop h it [] 0 = (False, it', map (\<lambda>i. 1 / 100 * 2 ^ i) [0..<n], Suc n)"
    by (simp add: item_loop.simps [of h it'])
  moreover obtain e where "h (item_payload it) n = Some e" using h by blast
  ultimately show "\<exists>it'. worker_turn h q = (q\<lparr>wq_items := r, wq_dlq := wq_dlq q @ [it']\<rparr>, map (\<lambda>i. 1 / 100 * 2 ^ i) [0..<n], Suc n) \<and>
        item_error it' = Some (''Exceeded max retries: '' @ the (h (item_payload it) n)) \<and>
        item_payload it' = item_payload it"
    using assms(1) it'(4,5)
    by (intro exI [of _ "it'\<lparr>item_error := Some (''Exceeded max retries: '' @ e)\<rparr>"])
      (simp add: worker_turn_def wq_dequeue_def move_to_dlq_def)
qed

definition example_queue :: "unit work_queue" where
  "example_queue = wq_enqueue ''a'' 0 () 2 (wq_new 10)"

theorem worker_turn_outcome_witness:
  "worker_turn (\<lambda>_ k. if k < 1 then Some ''boom'' else None) example_queue =
     (example_queue\<lparr>wq_items := [], wq_processed := 1\<rparr>, [1 / 100], 2)"
proof -
  let ?it = "\<lparr>item_id = ''a'', item_payload = (), item_max_retries = 2, retry_count = 0, enqueued_at = 0, item_error = None\<rparr>"
  let ?h = "\<lambda>_ k :: nat. if k < 1 then Some ''boom'' else None"
  have q: "wq_items example_queue = ?it # []" by (simp add: example_queue_def wq_enqueue_def wq_new_def)
  have "worker_turn ?h example_queue = (example_queue\<lparr>wq_items := [], wq_processed := wq_processed example_queue + 1\<rparr>,
      map (\<lambda>i. 1 / 100 * 2 ^ i) [0..<1], Suc 1)"
    using worker_turn_outcome [OF q, of 2 ?h, THEN conjunct1, rule_format, of 1] by simp
  then show ?thesis by (simp add: example_queue_def wq_enqueue_def wq_new_def)
qed

subsection \<open>autoscaler.py\<close>

record autoscaler_config =
  min_workers :: int
  max_workers :: int
  target_queue_per_worker :: int
  scale_up_threshold :: int
  scale_down_threshold :: int

definition autoscaler_new :: "int \<Rightarrow> int \<Rightarrow> int \<Rightarrow> autoscaler_config option \<Rightarrow> autoscaler_config" where
  "autoscaler_new lo hi high given = (case given of
       Some c \<Rightarrow> c
     | None \<Rightarrow> \<lparr>min_workers = lo, max_workers = hi, target_queue_per_worker = 5, scale_up_threshold = high,
                scale_down_threshold = 2\<rparr>)"

definition evaluate_desired_workers :: "autoscaler_config \<Rightarrow> int \<Rightarrow> int \<Rightarrow> int" where
  "evaluate_desired_workers c depth current =
     (if depth > scale_up_threshold c then min (current + 2) (max_workers c)
      else if depth < scale_down_threshold c \<and> current > min_workers c then max (current - 1) (min_workers c)
      else current)"

text \<open>\<open>evaluate_scale\<close>: the queue's depth and the pool's size, when there are such.\<close>

definition evaluate_scale :: "autoscaler_config \<Rightarrow> int option \<Rightarrow> int option \<Rightarrow> int" where
  "evaluate_scale c queue_depth worker_count =
     evaluate_desired_workers c (case queue_depth of None \<Rightarrow> 0 | Some d \<Rightarrow> d)
       (case worker_count of None \<Rightarrow> min_workers c | Some n \<Rightarrow> n)"

lemma scale_up_iterate:
  assumes "scale_up_threshold c < depth" "current \<le> max_workers c"
  shows "(evaluate_desired_workers c depth ^^ n) current = min (current + 2 * int n) (max_workers c)"
  using assms by (induction n) (auto simp: evaluate_desired_workers_def)

lemma scale_down_iterate:
  assumes "depth < scale_down_threshold c" "depth \<le> scale_up_threshold c" "min_workers c \<le> current"
  shows "(evaluate_desired_workers c depth ^^ n) current = max (current - int n) (min_workers c)"
  using assms by (induction n) (auto simp: evaluate_desired_workers_def)

text \<open>The number of workers stays within its limits; while the queue stays above the high threshold it
  climbs by two to the maximum and stays there, and while it stays below the low one it falls by one
  to the minimum.\<close>
theorem autoscaler_converges:
  assumes "min_workers c \<le> w" "w \<le> max_workers c" "scale_down_threshold c \<le> scale_up_threshold c + 1"
  shows "min_workers c \<le> evaluate_desired_workers c depth w \<and> evaluate_desired_workers c depth w \<le> max_workers c \<and>
    (depth > scale_up_threshold c \<longrightarrow> (\<forall>n. max_workers c - w \<le> 2 * int n \<longrightarrow>
       (evaluate_desired_workers c depth ^^ n) w = max_workers c)) \<and>
    (depth < scale_down_threshold c \<longrightarrow> (\<forall>n. w - min_workers c \<le> int n \<longrightarrow>
       (evaluate_desired_workers c depth ^^ n) w = min_workers c))"
  using assms scale_up_iterate [OF _ assms(2)] scale_down_iterate [OF _ _ assms(1)]
  by (auto simp: evaluate_desired_workers_def)

theorem autoscaler_converges_witness:
  "(evaluate_desired_workers (autoscaler_new 2 20 10 None) 50 ^^ 9) 2 = 20"
  using autoscaler_converges [of "autoscaler_new 2 20 10 None" 2 50, THEN conjunct2, THEN conjunct2, THEN conjunct1]
  by (simp add: autoscaler_new_def)

end
