(* ===== verification/SMTPReceiver.thy ===== *)
theory SMTPReceiver
  imports Codec
begin

text \<open>
  \<open>delivery/smtp_receiver.py\<close>: the protocol object of one connection. Bytes are characters; decoding a
  command line, the MIME parser and the processor are parameters. The recipient list is an object the
  session shares with the messages it handed out, so lists live in \<open>ss_boxes\<close> and are named by their
  index. Messages are processed by tasks: a task starts in the order of creation, runs to its one
  \<open>await\<close> and finishes later; bytes may arrive in between.
\<close>

subsection \<open>Session state\<close>

datatype smtp_state = COMMAND | DATA

record inbound =
  in_from :: string
  in_box :: nat
  from_header :: string
  reply_to_header :: string
  text_body :: string
  html_body :: string
  headers_blob :: string
  in_raw :: string
  in_helo :: string

record smtp_session =
  ss_state :: smtp_state
  ss_helo :: string
  ss_from :: string
  ss_rcpt :: nat
  ss_boxes :: "string list list"
  ss_data :: "string list"
  ss_count :: nat
  ss_closing :: bool
  ss_replies :: "(int \<times> string) list"
  ss_spawned :: "string list"
  ss_running :: "inbound list"

definition rcpt_to :: "smtp_session \<Rightarrow> string list" where
  "rcpt_to s = ss_boxes s ! ss_rcpt s"

definition new_rcpt_list :: "smtp_session \<Rightarrow> smtp_session" where
  "new_rcpt_list s = s\<lparr>ss_rcpt := length (ss_boxes s), ss_boxes := ss_boxes s @ [[]]\<rparr>"

definition add_rcpt :: "string \<Rightarrow> smtp_session \<Rightarrow> smtp_session" where
  "add_rcpt a s = s\<lparr>ss_boxes := (ss_boxes s)[ss_rcpt s := rcpt_to s @ [a]]\<rparr>"

definition send_reply :: "int \<Rightarrow> string \<Rightarrow> smtp_session \<Rightarrow> smtp_session" where
  "send_reply code text s = (if ss_closing s then s else s\<lparr>ss_replies := ss_replies s @ [(code, text)]\<rparr>)"

record smtp_conf =
  sc_hostname :: string
  sc_max :: nat
  sc_decode :: "string \<Rightarrow> string"

definition connection_made :: "smtp_conf \<Rightarrow> smtp_session" where
  "connection_made cf = send_reply 220 (sc_hostname cf @ '' ESMTP Inbound Receiver Ready'')
     \<lparr>ss_state = COMMAND, ss_helo = [], ss_from = [], ss_rcpt = 0, ss_boxes = [[]], ss_data = [], ss_count = 0,
      ss_closing = False, ss_replies = [], ss_spawned = [], ss_running = []\<rparr>"

subsection \<open>Commands\<close>

text \<open>\<open>.strip().strip("<>")\<close>\<close>

definition path_of :: "string \<Rightarrow> string" where
  "path_of s = rstrip_by (\<lambda>c. c \<in> set ''<>'') (lstrip_by (\<lambda>c. c \<in> set ''<>'') (strip s))"

text \<open>\<open>parts[1]\<close> of \<open>line.split(maxsplit=1)\<close>, or the empty text\<close>

definition second_word :: "string \<Rightarrow> string" where
  "second_word line = lstrip_by is_space (dropWhile (\<lambda>c. \<not> is_space c) (lstrip_by is_space line))"

definition handle_command_line :: "smtp_conf \<Rightarrow> string \<Rightarrow> smtp_session \<Rightarrow> smtp_session" where
  "handle_command_line cf line s =
     (let cmd = upper (strip line) in
      if cmd = [] then s
      else if starts_with ''HELO'' cmd \<or> starts_with ''EHLO'' cmd then
        (let d = second_word line in send_reply 250 (sc_hostname cf @ '' Hello '' @ d) (s\<lparr>ss_helo := d\<rparr>))
      else if starts_with ''MAIL FROM:'' cmd then
        send_reply 250 ''2.1.0 Sender OK'' (new_rcpt_list (s\<lparr>ss_from := path_of (drop 10 line)\<rparr>))
      else if starts_with ''RCPT TO:'' cmd then
        (if ss_from s = [] then send_reply 503 ''5.5.1 Error: need MAIL command first'' s
         else send_reply 250 ''2.1.5 Recipient OK'' (add_rcpt (path_of (drop 8 line)) s))
      else if cmd = ''DATA'' then
        (if rcpt_to s = [] then send_reply 503 ''5.5.1 Error: need RCPT command first'' s
         else send_reply 354 ''Start mail input; end with <CR><LF>.<CR><LF>''
           (s\<lparr>ss_state := DATA, ss_data := [], ss_count := 0\<rparr>))
      else if cmd = ''RSET'' then
        send_reply 250 ''2.0.0 Reset OK''
          (new_rcpt_list (s\<lparr>ss_from := [], ss_data := [], ss_state := COMMAND\<rparr>))
      else if cmd = ''QUIT'' then
        (send_reply 221 (sc_hostname cf @ '' Service closing transmission channel'') s)\<lparr>ss_closing := True\<rparr>
      else if cmd = ''NOOP'' then send_reply 250 ''2.0.0 OK'' s
      else send_reply 500 ''5.5.2 Command unrecognized'' s)"

subsection \<open>Message data\<close>

abbreviation CRLF :: string where
  "CRLF \<equiv> [CHR 0x0D, CHR 0x0A]"

definition undot :: "string \<Rightarrow> string" where
  "undot line = (if starts_with ''..'' line then drop 1 line else line)"

definition handle_data_line :: "smtp_conf \<Rightarrow> string \<Rightarrow> smtp_session \<Rightarrow> smtp_session" where
  "handle_data_line cf line s =
     (if line = ''.''
      then s\<lparr>ss_state := COMMAND, ss_spawned := ss_spawned s @ [join CRLF (ss_data s)]\<rparr>
      else
        let body = undot line; n = ss_count s + (length body + 2) in
        if n > sc_max cf
        then (send_reply 552 ''5.3.4 Message size exceeds fixed limit'' (s\<lparr>ss_count := n\<rparr>))
          \<lparr>ss_state := COMMAND, ss_data := []\<rparr>
        else s\<lparr>ss_count := n, ss_data := ss_data s @ [body]\<rparr>)"

definition handle_line :: "smtp_conf \<Rightarrow> string \<Rightarrow> smtp_session \<Rightarrow> smtp_session" where
  "handle_line cf line s = (if ss_state s = DATA then handle_data_line cf line s
     else handle_command_line cf (sc_decode cf line) s)"

text \<open>\<open>buffer.split(b"\r\n", 1)\<close>, when the separator is there\<close>

fun cut_crlf :: "string \<Rightarrow> (string \<times> string) option" where
  "cut_crlf (a # b # s) = (if a = CHR 0x0D \<and> b = CHR 0x0A then Some ([], s)
     else map_option (apfst ((#) a)) (cut_crlf (b # s)))"
| "cut_crlf _ = None"

lemma cut_crlf_Some: "cut_crlf buf = Some (line, rest) \<Longrightarrow> buf = line @ CRLF @ rest"
  by (induction buf arbitrary: line rule: cut_crlf.induct) (auto split: if_splits)

function crlf_loop :: "smtp_conf \<Rightarrow> string \<Rightarrow> smtp_session \<Rightarrow> string \<times> smtp_session" where
  "crlf_loop cf buf s = (case cut_crlf buf of
     None \<Rightarrow> (buf, s)
   | Some (line, rest) \<Rightarrow> crlf_loop cf rest (handle_line cf line s))"
  by auto
termination
  by (relation "measure (\<lambda>(cf, buf, s). length buf)") (auto dest!: cut_crlf_Some)

declare crlf_loop.simps [simp del]

definition data_received :: "smtp_conf \<Rightarrow> string \<Rightarrow> string \<times> smtp_session \<Rightarrow> string \<times> smtp_session" where
  "data_received cf data c = (case c of (buf, s) \<Rightarrow> crlf_loop cf (buf @ data) s)"

subsection \<open>Processing a message\<close>

text \<open>What the MIME parser answers: the header items, and the parts in the order of \<open>walk()\<close> with their
  content type and decoded text. \<^term>\<open>None\<close> is an exception of the decoding.\<close>

record mime =
  mime_headers :: "(string \<times> string) list"
  mime_multipart :: bool
  mime_parts :: "(string \<times> string option) list"
  mime_text :: "string option"

definition mime_header :: "mime \<Rightarrow> string \<Rightarrow> string" where
  "mime_header m name = (case find (\<lambda>p. lower (fst p) = lower name) (mime_headers m) of
     None \<Rightarrow> [] | Some p \<Rightarrow> snd p)"

fun part_bodies :: "(string \<times> string option) list \<Rightarrow> string \<Rightarrow> string \<Rightarrow> (string \<times> string) option" where
  "part_bodies [] text html = Some (text, html)"
| "part_bodies ((ct, body) # ps) text html =
     (if ct = ''text/plain'' \<and> text = [] then (case body of None \<Rightarrow> None | Some b \<Rightarrow> part_bodies ps b html)
      else if ct = ''text/html'' \<and> html = [] then (case body of None \<Rightarrow> None | Some b \<Rightarrow> part_bodies ps text b)
      else part_bodies ps text html)"

definition mime_bodies :: "mime \<Rightarrow> (string \<times> string) option" where
  "mime_bodies m = (if mime_multipart m then part_bodies (mime_parts m) [] []
     else map_option (\<lambda>t. (t, [])) (mime_text m))"

definition inbound_of :: "smtp_session \<Rightarrow> string \<Rightarrow> mime \<Rightarrow> inbound option" where
  "inbound_of s raw m = (case mime_bodies m of
     None \<Rightarrow> None
   | Some (text, html) \<Rightarrow> Some \<lparr>in_from = ss_from s, in_box = ss_rcpt s, from_header = mime_header m ''From'',
       reply_to_header = mime_header m ''Reply-To'', text_body = text, html_body = html,
       headers_blob = join CRLF (map (\<lambda>(k, v). k @ '': '' @ v) (mime_headers m)), in_raw = raw, in_helo = ss_helo s\<rparr>)"

text \<open>The \<open>finally\<close> block, and what the processor does.\<close>

definition clear_envelope :: "smtp_session \<Rightarrow> smtp_session" where
  "clear_envelope s = new_rcpt_list (s\<lparr>ss_from := [], ss_data := []\<rparr>)"

datatype processed = Raised | Answered "string option" string

definition answer :: "processed \<Rightarrow> smtp_session \<Rightarrow> smtp_session" where
  "answer r s = (case r of
     Raised \<Rightarrow> send_reply 451 ''4.3.0 Local error in processing'' s
   | Answered (Some a) mid \<Rightarrow>
       if a \<in> {''quarantine'', ''reject''} then send_reply 550 (''5.7.1 Message policy rejection: '' @ a) s
       else send_reply 250 (''2.0.0 OK queued as '' @ mid) s
   | Answered None mid \<Rightarrow> send_reply 250 (''2.0.0 OK queued as '' @ mid) s)"

definition start_task :: "(string \<Rightarrow> mime option) \<Rightarrow> string \<Rightarrow> smtp_session \<Rightarrow> smtp_session" where
  "start_task parse raw s = (case Option.bind (parse raw) (inbound_of s raw) of
     None \<Rightarrow> clear_envelope (answer Raised s)
   | Some i \<Rightarrow> s\<lparr>ss_running := ss_running s @ [i]\<rparr>)"

definition finish_task :: "nat \<Rightarrow> processed \<Rightarrow> smtp_session \<Rightarrow> smtp_session" where
  "finish_task k r s = clear_envelope (answer r (s\<lparr>ss_running := take k (ss_running s) @ drop (Suc k) (ss_running s)\<rparr>))"

inductive smtp_step :: "smtp_conf \<Rightarrow> (string \<Rightarrow> mime option) \<Rightarrow> string \<times> smtp_session \<Rightarrow> string \<times> smtp_session \<Rightarrow> bool"
  for cf parse where
  received: "smtp_step cf parse c (data_received cf data c)"
| started: "ss_spawned s = raw # rest \<Longrightarrow> smtp_step cf parse (buf, s) (buf, start_task parse raw (s\<lparr>ss_spawned := rest\<rparr>))"
| finished: "k < length (ss_running s) \<Longrightarrow> smtp_step cf parse (buf, s) (buf, finish_task k r s)"

inductive smtp_reachable :: "smtp_conf \<Rightarrow> (string \<Rightarrow> mime option) \<Rightarrow> string \<times> smtp_session \<Rightarrow> bool" for cf parse where
  start: "smtp_reachable cf parse ([], connection_made cf)"
| step: "smtp_reachable cf parse c \<Longrightarrow> smtp_step cf parse c c' \<Longrightarrow> smtp_reachable cf parse c'"

subsection \<open>Reading lines\<close>

lemma cut_crlf_append: "cut_crlf buf = Some (line, rest) \<Longrightarrow> cut_crlf (buf @ b) = Some (line, rest @ b)"
  by (induction buf arbitrary: line rule: cut_crlf.induct) (auto split: if_splits)

definition no_crlf :: "string \<Rightarrow> bool" where
  "no_crlf s \<longleftrightarrow> cut_crlf s = None"

lemma cut_crlf_line: "no_crlf line \<Longrightarrow> cut_crlf (line @ CRLF @ rest) = Some (line, rest)"
  unfolding no_crlf_def
proof (induction line rule: cut_crlf.induct)
  case (1 a b s)
  then have "cut_crlf ((b # s) @ CRLF @ rest) = Some (b # s, rest)" by (auto split: if_splits)
  with 1(2) show ?case by (auto split: if_splits)
qed auto

lemma crlf_loop_line [simp]:
  "no_crlf line \<Longrightarrow> crlf_loop cf (line @ CRLF @ rest) s = crlf_loop cf rest (handle_line cf line s)"
  by (subst crlf_loop.simps) (simp add: cut_crlf_line [simplified])

lemmas crlf_loop_line_Cons [simp] = crlf_loop_line [simplified]

lemma crlf_loop_Nil [simp]: "crlf_loop cf [] s = ([], s)"
  by (subst crlf_loop.simps) simp

lemma no_cr_no_crlf: "CHR 0x0D \<notin> set s \<Longrightarrow> no_crlf s"
  unfolding no_crlf_def by (induction s rule: cut_crlf.induct) auto

text \<open>Between two tasks the network may cut the bytes as it likes: receiving \<open>a\<close> and then \<open>b\<close> leaves the session and the
  unread rest as receiving \<open>a @ b\<close> at once does. A task that runs in between may see and change the session.\<close>

lemma data_received_append:
  "data_received cf (a @ b) c = data_received cf b (data_received cf a c)"
proof -
  have "crlf_loop cf (buf @ b) s = (case crlf_loop cf buf s of (r, s') \<Rightarrow> crlf_loop cf (r @ b) s')" for buf s
  proof (induction cf buf s rule: crlf_loop.induct)
    case (1 cf buf s)
    show ?case
    proof (cases "cut_crlf buf")
      case None
      then show ?thesis by (simp add: crlf_loop.simps [of cf buf])
    next
      case (Some p)
      obtain line rest where p: "p = (line, rest)" by (cases p)
      with Some 1 show ?thesis
        by (simp add: crlf_loop.simps [of cf buf] crlf_loop.simps [of cf "buf @ b"] cut_crlf_append)
    qed
  qed
  from this [of "fst c @ a" "snd c"] show ?thesis by (cases c) (simp add: data_received_def split_beta)
qed

subsection \<open>What a client sends\<close>

definition dot_stuff :: "string \<Rightarrow> string" where
  "dot_stuff line = (if starts_with ''.'' line then CHR ''.'' # line else line)"

definition wire :: "string list \<Rightarrow> string" where
  "wire ls = concat (map (\<lambda>l. dot_stuff l @ CRLF) ls) @ ''.'' @ CRLF"

definition wire_size :: "string list \<Rightarrow> nat" where
  "wire_size ls = sum_list (map (\<lambda>l. length l + 2) ls)"

lemma undot_stuff [simp]: "undot (dot_stuff l) = l"
  by (cases l) (auto simp: undot_def dot_stuff_def starts_with_def)

lemma dot_stuff_not_end: "dot_stuff l \<noteq> ''.''"
  by (cases l) (auto simp: dot_stuff_def starts_with_def)

lemma dot_stuff_no_crlf [simp]: "no_crlf (dot_stuff l) = no_crlf l"
  by (cases l) (auto simp: dot_stuff_def starts_with_def no_crlf_def)

text \<open>A dot-stuffed message of lines within the limit is taken as it was.\<close>

lemma wire_received:
  assumes "ss_state s = DATA" "\<forall>l \<in> set ls. no_crlf l" "ss_count s + wire_size ls \<le> sc_max cf"
  shows "crlf_loop cf (wire ls @ rest) s = crlf_loop cf rest
     (s\<lparr>ss_state := COMMAND, ss_data := ss_data s @ ls, ss_count := ss_count s + wire_size ls,
        ss_spawned := ss_spawned s @ [join CRLF (ss_data s @ ls)]\<rparr>)"
  using assms
proof (induction ls arbitrary: s)
  case Nil
  have "no_crlf ''.''" by (simp add: no_crlf_def)
  from crlf_loop_line [OF this, of cf rest s] Nil show ?case
    by (simp add: wire_def wire_size_def handle_line_def handle_data_line_def)
next
  case (Cons l ls)
  let ?s1 = "s\<lparr>ss_count := ss_count s + (length l + 2), ss_data := ss_data s @ [l]\<rparr>"
  have "crlf_loop cf (dot_stuff l @ CRLF @ wire ls @ rest) s = crlf_loop cf (wire ls @ rest) ?s1"
    using Cons.prems dot_stuff_not_end [of l]
    by (subst crlf_loop_line) (simp_all add: handle_line_def handle_data_line_def wire_size_def Let_def)
  moreover have "wire (l # ls) = dot_stuff l @ CRLF @ wire ls" by (simp add: wire_def)
  ultimately show ?case using Cons.IH [of ?s1] Cons.prems by (simp add: wire_size_def add.assoc)
qed

text \<open>An address as it stands between the angle brackets, and a session from \<open>MAIL FROM\<close> to the final dot.\<close>

definition plain_path :: "string \<Rightarrow> bool" where
  "plain_path a \<longleftrightarrow> a \<noteq> [] \<and> is_ascii a \<and> list_all (\<lambda>c. \<not> is_space c \<and> c \<notin> set ''<>'') a"

definition transaction :: "string \<Rightarrow> string list \<Rightarrow> string list \<Rightarrow> string" where
  "transaction a bs ls = (''MAIL FROM:<'' @ a @ ''>'') @ CRLF @
     concat (map (\<lambda>b. (''RCPT TO:<'' @ b @ ''>'') @ CRLF) bs) @ ''DATA'' @ CRLF @ wire ls"

definition ascii_decoder :: "smtp_conf \<Rightarrow> bool" where
  "ascii_decoder cf \<longleftrightarrow> (\<forall>s. is_ascii s \<longrightarrow> sc_decode cf s = s)"

lemma upper_append [simp]: "upper (a @ b) = upper a @ upper b"
  by (simp add: upper_def)

lemma is_space_chars [simp]: "is_space (CHR 0x0D)" "\<not> is_space (CHR ''<'')" "\<not> is_space (CHR ''>'')"
  "\<not> is_space (CHR ''M'')" "\<not> is_space (CHR ''R'')" "\<not> is_space (CHR ''D'')" "\<not> is_space (CHR ''A'')"
  by code_simp+

lemma path_of_brackets:
  assumes "plain_path a"
  shows "path_of (''<'' @ a @ ''>'') = a"
proof -
  have "strip (''<'' @ a @ ''>'') = ''<'' @ a @ ''>''" by (rule strip_trimmed) (simp add: trimmed_def)
  moreover have "dropWhile (\<lambda>c. c \<in> set ''<>'') (a @ ''>'') = a @ ''>''"
  proof -
    from assms obtain c cs where "a = c # cs" by (cases a) (auto simp: plain_path_def)
    with assms show ?thesis by (simp add: plain_path_def)
  qed
  moreover have "dropWhile (\<lambda>c. c \<in> set ''<>'') (rev a) = rev a"
  proof -
    from assms obtain c cs where "a = cs @ [c]" by (cases a rule: rev_cases) (simp add: plain_path_def)
    with assms show ?thesis by (simp add: plain_path_def)
  qed
  ultimately show ?thesis by (simp add: path_of_def lstrip_by_def rstrip_by_def)
qed

lemma plain_command:
  assumes "plain_path a" "is_ascii p" "p \<noteq> []" "\<not> is_space (hd p)" "CHR 0x0D \<notin> set p"
  shows "no_crlf (p @ ''<'' @ a @ ''>'')" "is_ascii (p @ ''<'' @ a @ ''>'')"
    "strip (p @ ''<'' @ a @ ''>'') = p @ ''<'' @ a @ ''>''"
proof -
  have "CHR 0x0D \<notin> set a"
  proof
    assume "CHR 0x0D \<in> set a"
    with assms(1) have "\<not> is_space (CHR 0x0D)" unfolding plain_path_def list_all_iff by blast
    then show False by simp
  qed
  with assms(5) show "no_crlf (p @ ''<'' @ a @ ''>'')" by (intro no_cr_no_crlf) simp
  show "is_ascii (p @ ''<'' @ a @ ''>'')" using assms(1,2) unfolding plain_path_def is_ascii_def by simp
  show "strip (p @ ''<'' @ a @ ''>'') = p @ ''<'' @ a @ ''>''"
    using assms(3,4) by (intro strip_trimmed) (simp add: trimmed_def)
qed

lemma mail_line:
  assumes "ascii_decoder cf" "plain_path a" "ss_state s = COMMAND"
  shows "crlf_loop cf ((''MAIL FROM:<'' @ a @ ''>'') @ CRLF @ rest) s =
    crlf_loop cf rest (send_reply 250 ''2.1.0 Sender OK'' (new_rcpt_list (s\<lparr>ss_from := a\<rparr>)))"
proof -
  let ?l = "''MAIL FROM:'' @ ''<'' @ a @ ''>''"
  note l = plain_command [OF assms(2), of "''MAIL FROM:''", simplified]
  have "upper ''MAIL FROM:<'' = ''MAIL FROM:<''" by code_simp
  then have "upper ?l = ''MAIL FROM:<'' @ upper (a @ ''>'')" by (simp add: upper_def)
  with l assms path_of_brackets [OF assms(2)] have "handle_line cf ?l s =
      send_reply 250 ''2.1.0 Sender OK'' (new_rcpt_list (s\<lparr>ss_from := a\<rparr>))"
    by (simp add: handle_line_def handle_command_line_def ascii_decoder_def is_ascii_def starts_with_def Let_def)
  with crlf_loop_line [of ?l cf rest s] l show ?thesis by (simp add: is_ascii_def)
qed

lemma send_reply_replies: "\<exists>r. send_reply code text s = s\<lparr>ss_replies := r\<rparr>"
proof (cases "ss_closing s")
  case True
  then have "send_reply code text s = s\<lparr>ss_replies := ss_replies s\<rparr>" by (simp add: send_reply_def)
  then show ?thesis ..
qed (auto simp: send_reply_def)

lemma rcpt_line:
  assumes "ascii_decoder cf" "plain_path b" "ss_state s = COMMAND" "ss_from s \<noteq> []"
  shows "crlf_loop cf ((''RCPT TO:<'' @ b @ ''>'') @ CRLF @ rest) s =
    crlf_loop cf rest (send_reply 250 ''2.1.5 Recipient OK'' (add_rcpt b s))"
proof -
  let ?l = "''RCPT TO:'' @ ''<'' @ b @ ''>''"
  note l = plain_command [OF assms(2), of "''RCPT TO:''", simplified]
  have "upper ''RCPT TO:<'' = ''RCPT TO:<''" by code_simp
  then have "upper ?l = ''RCPT TO:<'' @ upper (b @ ''>'')" by (simp add: upper_def)
  with l assms path_of_brackets [OF assms(2)] have "handle_line cf ?l s =
      send_reply 250 ''2.1.5 Recipient OK'' (add_rcpt b s)"
    by (simp add: handle_line_def handle_command_line_def ascii_decoder_def is_ascii_def starts_with_def Let_def)
  with crlf_loop_line [of ?l cf rest s] l show ?thesis by (simp add: is_ascii_def)
qed

lemma rcpt_lines:
  assumes "ascii_decoder cf" "\<forall>b \<in> set bs. plain_path b" "ss_state s = COMMAND" "ss_from s \<noteq> []"
    "ss_rcpt s < length (ss_boxes s)"
  shows "\<exists>r. crlf_loop cf (concat (map (\<lambda>b. (''RCPT TO:<'' @ b @ ''>'') @ CRLF) bs) @ rest) s =
    crlf_loop cf rest (s\<lparr>ss_boxes := (ss_boxes s)[ss_rcpt s := rcpt_to s @ bs], ss_replies := r\<rparr>)"
  using assms(2-)
proof (induction bs arbitrary: s)
  case Nil
  then have "s = s\<lparr>ss_boxes := (ss_boxes s)[ss_rcpt s := rcpt_to s @ []], ss_replies := ss_replies s\<rparr>"
    by (simp add: rcpt_to_def)
  then have "crlf_loop cf rest s =
      crlf_loop cf rest (s\<lparr>ss_boxes := (ss_boxes s)[ss_rcpt s := rcpt_to s @ []], ss_replies := ss_replies s\<rparr>)" by simp
  then show ?case by (intro exI [of _ "ss_replies s"]) simp
next
  case (Cons b bs)
  obtain r1 where r1: "send_reply 250 ''2.1.5 Recipient OK'' (add_rcpt b s) = (add_rcpt b s)\<lparr>ss_replies := r1\<rparr>"
    using send_reply_replies by blast
  let ?s1 = "(add_rcpt b s)\<lparr>ss_replies := r1\<rparr>"
  from Cons.IH [of ?s1] Cons.prems obtain r where
    "crlf_loop cf (concat (map (\<lambda>b. (''RCPT TO:<'' @ b @ ''>'') @ CRLF) bs) @ rest) ?s1 =
      crlf_loop cf rest (?s1\<lparr>ss_boxes := (ss_boxes ?s1)[ss_rcpt ?s1 := rcpt_to ?s1 @ bs], ss_replies := r\<rparr>)"
    by (auto simp: add_rcpt_def)
  moreover have "crlf_loop cf (concat (map (\<lambda>b. (''RCPT TO:<'' @ b @ ''>'') @ CRLF) (b # bs)) @ rest) s =
      crlf_loop cf (concat (map (\<lambda>b. (''RCPT TO:<'' @ b @ ''>'') @ CRLF) bs) @ rest) ?s1"
    using rcpt_line [OF assms(1), of b s "concat (map (\<lambda>b. (''RCPT TO:<'' @ b @ ''>'') @ CRLF) bs) @ rest"] Cons.prems r1
    by simp
  ultimately show ?case using Cons.prems by (intro exI [of _ r]) (simp add: add_rcpt_def rcpt_to_def)
qed

lemma data_line:
  assumes "ascii_decoder cf" "ss_state s = COMMAND" "rcpt_to s \<noteq> []"
  shows "\<exists>r. crlf_loop cf (''DATA'' @ CRLF @ rest) s =
    crlf_loop cf rest (s\<lparr>ss_state := DATA, ss_data := [], ss_count := 0, ss_replies := r\<rparr>)"
proof -
  have "no_crlf ''DATA''" "upper (strip ''DATA'') = ''DATA''" "is_ascii ''DATA''" by code_simp+
  with assms crlf_loop_line [of "''DATA''" cf rest s] obtain t where
    "crlf_loop cf (''DATA'' @ CRLF @ rest) s =
      crlf_loop cf rest (send_reply 354 t (s\<lparr>ss_state := DATA, ss_data := [], ss_count := 0\<rparr>))"
    by (simp add: handle_line_def handle_command_line_def ascii_decoder_def starts_with_def Let_def)
  then show ?thesis using send_reply_replies [of 354 t] by metis
qed

text \<open>Sender, recipients and message of a transaction, as a client sends them.\<close>

definition sendable :: "smtp_conf \<Rightarrow> string \<Rightarrow> string list \<Rightarrow> string list \<Rightarrow> bool" where
  "sendable cf a bs ls \<longleftrightarrow> ascii_decoder cf \<and> plain_path a \<and> (\<forall>b \<in> set bs. plain_path b) \<and> bs \<noteq> [] \<and>
     (\<forall>l \<in> set ls. no_crlf l) \<and> wire_size ls \<le> sc_max cf"

definition envelope :: "string \<Rightarrow> string list \<Rightarrow> string" where
  "envelope a bs = (''MAIL FROM:<'' @ a @ ''>'') @ CRLF @ concat (map (\<lambda>b. (''RCPT TO:<'' @ b @ ''>'') @ CRLF) bs) @
     ''DATA'' @ CRLF"

lemma envelope_received:
  assumes ok: "sendable cf a bs ls" and s: "ss_state s = COMMAND"
  shows "\<exists>r. crlf_loop cf (envelope a bs @ rest) s = crlf_loop cf rest
    (s\<lparr>ss_state := DATA, ss_from := a, ss_rcpt := length (ss_boxes s), ss_boxes := ss_boxes s @ [bs], ss_data := [],
       ss_count := 0, ss_replies := r\<rparr>)"
proof -
  let ?rcpts = "concat (map (\<lambda>b. (''RCPT TO:<'' @ b @ ''>'') @ CRLF) bs)"
  let ?data = "''DATA'' @ CRLF @ rest"
  have a: "a \<noteq> []" using ok by (auto simp: sendable_def plain_path_def)
  let ?m = "new_rcpt_list (s\<lparr>ss_from := a\<rparr>)"
  obtain r1 where r1: "send_reply 250 ''2.1.0 Sender OK'' ?m = ?m\<lparr>ss_replies := r1\<rparr>" using send_reply_replies by blast
  let ?s1 = "?m\<lparr>ss_replies := r1\<rparr>"
  have "crlf_loop cf (envelope a bs @ rest) s = crlf_loop cf (?rcpts @ ?data) ?s1"
    using mail_line [of cf a s "?rcpts @ ?data"] ok s r1 by (simp add: sendable_def envelope_def)
  moreover obtain r2 where "crlf_loop cf (?rcpts @ ?data) ?s1 =
      crlf_loop cf ?data (?s1\<lparr>ss_boxes := (ss_boxes ?s1)[ss_rcpt ?s1 := rcpt_to ?s1 @ bs], ss_replies := r2\<rparr>)"
    using rcpt_lines [of cf bs ?s1 ?data] ok s a by (auto simp: sendable_def new_rcpt_list_def)
  moreover let ?s2 = "?s1\<lparr>ss_boxes := (ss_boxes ?s1)[ss_rcpt ?s1 := rcpt_to ?s1 @ bs], ss_replies := r2\<rparr>"
  have s2: "?s2 = s\<lparr>ss_from := a, ss_rcpt := length (ss_boxes s), ss_boxes := ss_boxes s @ [bs], ss_replies := r2\<rparr>"
    by (simp add: new_rcpt_list_def rcpt_to_def)
  moreover obtain r3 where "crlf_loop cf ?data ?s2 =
      crlf_loop cf rest (?s2\<lparr>ss_state := DATA, ss_data := [], ss_count := 0, ss_replies := r3\<rparr>)"
    using data_line [of cf ?s2 rest] ok s unfolding s2 by (auto simp: sendable_def rcpt_to_def)
  moreover have "(s\<lparr>ss_from := a, ss_rcpt := length (ss_boxes s), ss_boxes := ss_boxes s @ [bs], ss_replies := r2\<rparr>)
      \<lparr>ss_state := DATA, ss_data := [], ss_count := 0, ss_replies := r3\<rparr> =
    s\<lparr>ss_state := DATA, ss_from := a, ss_rcpt := length (ss_boxes s), ss_boxes := ss_boxes s @ [bs], ss_data := [],
       ss_count := 0, ss_replies := r3\<rparr>" by (cases s) simp
  ultimately show ?thesis unfolding s2 by (intro exI [of _ r3]) (simp only:)
qed

lemma transaction_received:
  assumes ok: "sendable cf a bs ls" and s: "ss_state s = COMMAND"
  shows "\<exists>r. crlf_loop cf (transaction a bs ls @ rest) s = crlf_loop cf rest
    (s\<lparr>ss_state := COMMAND, ss_from := a, ss_rcpt := length (ss_boxes s), ss_boxes := ss_boxes s @ [bs], ss_data := ls,
       ss_count := wire_size ls, ss_replies := r, ss_spawned := ss_spawned s @ [join CRLF ls]\<rparr>)"
proof -
  obtain r where "crlf_loop cf (envelope a bs @ wire ls @ rest) s = crlf_loop cf (wire ls @ rest)
    (s\<lparr>ss_state := DATA, ss_from := a, ss_rcpt := length (ss_boxes s), ss_boxes := ss_boxes s @ [bs], ss_data := [],
       ss_count := 0, ss_replies := r\<rparr>)" using envelope_received [OF assms] by metis
  moreover have "crlf_loop cf (wire ls @ rest) (s\<lparr>ss_state := DATA, ss_from := a, ss_rcpt := length (ss_boxes s),
      ss_boxes := ss_boxes s @ [bs], ss_data := [], ss_count := 0, ss_replies := r\<rparr>) = crlf_loop cf rest
    (s\<lparr>ss_state := COMMAND, ss_from := a, ss_rcpt := length (ss_boxes s), ss_boxes := ss_boxes s @ [bs], ss_data := ls,
       ss_count := wire_size ls, ss_replies := r, ss_spawned := ss_spawned s @ [join CRLF ls]\<rparr>)"
    using ok by (subst wire_received) (cases s; simp add: sendable_def)+
  moreover have "transaction a bs ls @ rest = envelope a bs @ wire ls @ rest" by (simp add: transaction_def envelope_def)
  ultimately show ?thesis by (intro exI [of _ r]) (simp only:)
qed

text \<open>C14: A transaction hands the processor what the client sent: whatever the lines of the message (dots at
  their beginning included), after the final dot one message is waiting, and its task passes on the
  sender, all recipients in order, the message byte for byte, and the bodies the parser finds.\<close>
theorem transaction_delivers_message:
  assumes "sendable cf a bs ls" "ss_state s = COMMAND" "ss_spawned s = []"
    and "parse (join CRLF ls) = Some m" "mime_bodies m = Some (t, h)"
  shows "(let (buf, s1) = data_received cf (transaction a bs ls) ([], s);
              s2 = start_task parse (hd (ss_spawned s1)) (s1\<lparr>ss_spawned := []\<rparr>)
     in buf = [] \<and> ss_spawned s1 = [join CRLF ls] \<and> ss_state s1 = COMMAND \<and>
        (\<exists>i. ss_running s2 = ss_running s @ [i] \<and> in_from i = a \<and> ss_boxes s2 ! in_box i = bs \<and>
           in_raw i = join CRLF ls \<and> text_body i = t \<and> html_body i = h))"
proof -
  from transaction_received [OF assms(1,2), of "[]"] obtain r where
    "data_received cf (transaction a bs ls) ([], s) = ([], s\<lparr>ss_state := COMMAND, ss_from := a, ss_rcpt := length (ss_boxes s),
       ss_boxes := ss_boxes s @ [bs], ss_data := ls, ss_count := wire_size ls, ss_replies := r,
       ss_spawned := ss_spawned s @ [join CRLF ls]\<rparr>)"
    by (auto simp: data_received_def)
  with assms(2-) show ?thesis by (simp add: start_task_def inbound_of_def)
qed

definition example_conf :: smtp_conf where
  "example_conf = \<lparr>sc_hostname = ''gw'', sc_max = 20, sc_decode = (\<lambda>s. s)\<rparr>"

definition example_mime :: mime where
  "example_mime = \<lparr>mime_headers = [], mime_multipart = False, mime_parts = [], mime_text = Some ''hi''\<rparr>"

lemma example_sendable: "sendable example_conf ''a@b.io'' [''c@d.io''] [''.hi'']"
proof -
  have "plain_path ''a@b.io''" "plain_path ''c@d.io''" "no_crlf ''.hi''" by (code_simp | simp add: no_crlf_def)+
  then show ?thesis by (simp add: sendable_def example_conf_def ascii_decoder_def wire_size_def)
qed

lemma example_start [simp]: "ss_state (connection_made cf) = COMMAND" "ss_spawned (connection_made cf) = []"
    "ss_running (connection_made cf) = []" "ss_count (connection_made cf) = 0" "ss_data (connection_made cf) = []"
    "mime_bodies example_mime = Some (''hi'', [])"
  by (simp_all add: connection_made_def send_reply_def mime_bodies_def example_mime_def)

theorem transaction_delivers_message_witness:
  "(let (buf, s1) = data_received example_conf (transaction ''a@b.io'' [''c@d.io''] [''.hi'']) ([], connection_made example_conf);
        s2 = start_task (\<lambda>_. Some example_mime) (hd (ss_spawned s1)) (s1\<lparr>ss_spawned := []\<rparr>)
     in buf = [] \<and> ss_spawned s1 = [''.hi''] \<and>
        (\<exists>i. ss_running s2 = [i] \<and> in_from i = ''a@b.io'' \<and> ss_boxes s2 ! in_box i = [''c@d.io''] \<and> in_raw i = ''.hi''))"
  using transaction_delivers_message [OF example_sendable, of "connection_made example_conf" "\<lambda>_. Some example_mime" example_mime "''hi''" "[]"]
  by (auto simp: Let_def split_beta)

subsection \<open>A task that ends during the next message\<close>

text \<open>The first part of a transaction: the envelope, \<open>DATA\<close> and some lines of the message.\<close>

definition first_half :: "string \<Rightarrow> string list \<Rightarrow> string list \<Rightarrow> string" where
  "first_half a bs ls = envelope a bs @ concat (map (\<lambda>l. dot_stuff l @ CRLF) ls)"

lemma transaction_first_half: "transaction a bs (ls1 @ ls2) = first_half a bs ls1 @ wire ls2"
  by (simp add: transaction_def first_half_def envelope_def wire_def)

lemma lines_received:
  assumes "ss_state s = DATA" "\<forall>l \<in> set ls. no_crlf l" "ss_count s + wire_size ls \<le> sc_max cf"
  shows "crlf_loop cf (concat (map (\<lambda>l. dot_stuff l @ CRLF) ls)) s =
     ([], s\<lparr>ss_data := ss_data s @ ls, ss_count := ss_count s + wire_size ls\<rparr>)"
  using assms
proof (induction ls arbitrary: s)
  case Nil
  then show ?case by (simp add: wire_size_def)
next
  case (Cons l ls)
  let ?s1 = "s\<lparr>ss_count := ss_count s + (length l + 2), ss_data := ss_data s @ [l]\<rparr>"
  have "crlf_loop cf (dot_stuff l @ CRLF @ concat (map (\<lambda>l. dot_stuff l @ CRLF) ls)) s =
      crlf_loop cf (concat (map (\<lambda>l. dot_stuff l @ CRLF) ls)) ?s1"
    using Cons.prems dot_stuff_not_end [of l]
    by (subst crlf_loop_line) (simp_all add: handle_line_def handle_data_line_def wire_size_def Let_def)
  then show ?case using Cons.IH [of ?s1] Cons.prems by (simp add: wire_size_def add.assoc)
qed

lemma wire_size_append: "wire_size (ls @ ms) = wire_size ls + wire_size ms"
  by (simp add: wire_size_def)

lemma first_half_received:
  assumes ok: "sendable cf a bs (ls1 @ ls2)" and s: "ss_state s = COMMAND"
  shows "\<exists>r. data_received cf (first_half a bs ls1) ([], s) = ([], s\<lparr>ss_state := DATA, ss_from := a,
     ss_rcpt := length (ss_boxes s), ss_boxes := ss_boxes s @ [bs], ss_data := ls1, ss_count := wire_size ls1, ss_replies := r\<rparr>)"
proof -
  obtain r where "crlf_loop cf (first_half a bs ls1) s = crlf_loop cf (concat (map (\<lambda>l. dot_stuff l @ CRLF) ls1))
    (s\<lparr>ss_state := DATA, ss_from := a, ss_rcpt := length (ss_boxes s), ss_boxes := ss_boxes s @ [bs], ss_data := [],
       ss_count := 0, ss_replies := r\<rparr>)"
    using envelope_received [OF assms] unfolding first_half_def by metis
  then show ?thesis
    using ok by (intro exI [of _ r]) (simp add: data_received_def lines_received sendable_def wire_size_append)
qed

text \<open>C15: A client that sends its next message before the reply to the one before can have it mutilated. When the task of
  an earlier message ends while the lines of the next one arrive, its \<open>finally\<close> block resets the envelope and the
  lines of the session: the next message is handed on without the lines received so far, from nobody and to nobody.
  Sent with no task ending in between, the same bytes give the whole message.\<close>
theorem ending_task_mutilates_next_message:
  assumes "sendable cf a bs (ls1 @ ls2)" "ss_state s = COMMAND" "k < length (ss_running s)"
    and "data_received cf (first_half a bs ls1) ([], s) = (buf, s1)"
    and "data_received cf (wire ls2) (buf, finish_task k res s1) = (buf2, s2)"
  shows "ss_spawned s2 = ss_spawned s @ [join CRLF ls2] \<and> ss_from s2 = [] \<and> rcpt_to s2 = [] \<and>
     (let (_, s3) = data_received cf (wire ls2) (buf, s1)
      in ss_spawned s3 = ss_spawned s @ [join CRLF (ls1 @ ls2)] \<and> ss_from s3 = a \<and> rcpt_to s3 = bs)"
proof -
  from first_half_received [OF assms(1,2)] assms(4) obtain r where s1: "buf = []"
    "s1 = s\<lparr>ss_state := DATA, ss_from := a, ss_rcpt := length (ss_boxes s), ss_boxes := ss_boxes s @ [bs], ss_data := ls1,
       ss_count := wire_size ls1, ss_replies := r\<rparr>" by auto
  have fin: "ss_state (finish_task k res s1) = DATA" "ss_data (finish_task k res s1) = []"
    "ss_count (finish_task k res s1) = wire_size ls1" "ss_from (finish_task k res s1) = []"
    "ss_spawned (finish_task k res s1) = ss_spawned s" "rcpt_to (finish_task k res s1) = []"
    by (simp_all add: s1(2) finish_task_def clear_envelope_def new_rcpt_list_def rcpt_to_def answer_def send_reply_def
        split: processed.split option.split)
  have ok: "\<forall>l \<in> set ls2. no_crlf l" "wire_size ls1 + wire_size ls2 \<le> sc_max cf"
    using assms(1) by (auto simp: sendable_def wire_size_append)
  have "crlf_loop cf (wire ls2 @ []) (finish_task k res s1) = crlf_loop cf []
     ((finish_task k res s1)\<lparr>ss_state := COMMAND, ss_data := ls2, ss_count := wire_size ls1 + wire_size ls2,
        ss_spawned := ss_spawned s @ [join CRLF ls2]\<rparr>)"
    using wire_received [OF fin(1) ok(1), of cf "[]"] ok(2) fin by simp
  then have "s2 = (finish_task k res s1)\<lparr>ss_state := COMMAND, ss_data := ls2, ss_count := wire_size ls1 + wire_size ls2,
        ss_spawned := ss_spawned s @ [join CRLF ls2]\<rparr>"
    using assms(5) s1(1) by (simp add: data_received_def)
  moreover have "crlf_loop cf (wire ls2 @ []) s1 = crlf_loop cf [] (s1\<lparr>ss_state := COMMAND, ss_data := ls1 @ ls2,
      ss_count := wire_size ls1 + wire_size ls2, ss_spawned := ss_spawned s @ [join CRLF (ls1 @ ls2)]\<rparr>)"
    using wire_received [of s1 ls2 cf "[]"] ok s1(2) by simp
  ultimately show ?thesis
    using fin s1 by (simp add: data_received_def rcpt_to_def)
qed

definition earlier_inbound :: inbound where
  "earlier_inbound = \<lparr>in_from = ''x@y.io'', in_box = 0, from_header = [], reply_to_header = [], text_body = [], html_body = [],
     headers_blob = [], in_raw = ''old'', in_helo = []\<rparr>"

theorem ending_task_mutilates_next_message_witness:
  "(let (buf, s1) = data_received example_conf (first_half ''a@b.io'' [''c@d.io''] [''.hi''])
          ([], (connection_made example_conf)\<lparr>ss_running := [earlier_inbound]\<rparr>);
        (_, s2) = data_received example_conf (wire [''you'']) (buf, finish_task 0 Raised s1)
    in ss_spawned s2 = [''you''] \<and> ss_from s2 = [] \<and> rcpt_to s2 = [])"
proof -
  let ?s = "(connection_made example_conf)\<lparr>ss_running := [earlier_inbound]\<rparr>"
  have "plain_path ''a@b.io''" "plain_path ''c@d.io''" "no_crlf ''.hi''" "no_crlf ''you''" by (code_simp | simp add: no_crlf_def)+
  then have ok: "sendable example_conf ''a@b.io'' [''c@d.io''] ([''.hi''] @ [''you''])"
    by (simp add: sendable_def example_conf_def ascii_decoder_def wire_size_def)
  obtain buf s1 where d1: "data_received example_conf (first_half ''a@b.io'' [''c@d.io''] [''.hi'']) ([], ?s) = (buf, s1)" by fastforce
  obtain b2 s2 where d2: "data_received example_conf (wire [''you'']) (buf, finish_task 0 Raised s1) = (b2, s2)" by fastforce
  from ending_task_mutilates_next_message [OF ok _ _ d1 d2] d1 d2 show ?thesis by (simp add: Let_def)
qed

subsection \<open>The size limit\<close>

text \<open>Exceeding the size limit ends the data phase at the offending line, so the rest of the message is
  executed as commands: a message whose body holds an SMTP transaction sends that transaction's message
  under the sender and recipients it names.\<close>
theorem oversize_body_is_executed:
  assumes "ss_state s = DATA" "no_crlf line" "line \<noteq> ''.''" "sc_max cf < ss_count s + length (undot line) + 2"
    and "sendable cf a bs ls"
  shows "(let (buf, s1) = data_received cf (line @ CRLF @ transaction a bs ls) ([], s)
     in ss_spawned s1 = ss_spawned s @ [join CRLF ls] \<and> ss_from s1 = a \<and> rcpt_to s1 = bs)"
proof -
  let ?s1 = "handle_line cf line s"
  have s1: "ss_state ?s1 = COMMAND" "ss_spawned ?s1 = ss_spawned s"
    using assms(1,3,4) by (simp_all add: handle_line_def handle_data_line_def send_reply_def Let_def)
  from transaction_received [OF assms(5) s1(1), of "[]"] assms(2) s1(2) show ?thesis
    by (auto simp: data_received_def rcpt_to_def)
qed

theorem oversize_body_is_executed_witness:
  "(let s = (connection_made example_conf)\<lparr>ss_state := DATA\<rparr>;
        (buf, s1) = data_received example_conf (''aaaaaaaaaaaaaaaaaaaaaaaa'' @ CRLF @ transaction ''a@b.io'' [''c@d.io''] [''.hi'']) ([], s)
     in ss_spawned s1 = [''.hi''] \<and> ss_from s1 = ''a@b.io'')"
proof -
  have "no_crlf ''aaaaaaaaaaaaaaaaaaaaaaaa''" by (simp add: no_crlf_def)
  from oversize_body_is_executed [OF _ this _ _ example_sendable, of "(connection_made example_conf)\<lparr>ss_state := DATA\<rparr>"]
  show ?thesis by (simp add: example_conf_def undot_def starts_with_def Let_def split_beta)
qed

subsection \<open>Commands sent before the reply\<close>

text \<open>A message is processed under the envelope of the moment its task starts: a \<open>MAIL FROM\<close> that arrives in
  the same chunk as the final dot replaces the sender of the message before it and takes its
  recipients away.\<close>
theorem next_mail_replaces_envelope:
  assumes "sendable cf a bs ls" "plain_path a'" "ss_state s = COMMAND" "ss_spawned s = []"
    and "parse (join CRLF ls) = Some m" "mime_bodies m \<noteq> None"
  shows "(let (buf, s1) = data_received cf (transaction a bs ls @ (''MAIL FROM:<'' @ a' @ ''>'') @ CRLF) ([], s);
              s2 = start_task parse (hd (ss_spawned s1)) (s1\<lparr>ss_spawned := []\<rparr>)
     in \<exists>i. ss_running s2 = ss_running s @ [i] \<and> in_raw i = join CRLF ls \<and> in_from i = a' \<and> ss_boxes s2 ! in_box i = [])"
proof -
  have dec: "ascii_decoder cf" using assms(1) by (simp add: sendable_def)
  from assms(6) obtain t h where b: "mime_bodies m = Some (t, h)" by auto
  obtain r where "data_received cf (transaction a bs ls @ (''MAIL FROM:<'' @ a' @ ''>'') @ CRLF) ([], s) =
    crlf_loop cf ((''MAIL FROM:<'' @ a' @ ''>'') @ CRLF @ []) (s\<lparr>ss_state := COMMAND, ss_from := a,
      ss_rcpt := length (ss_boxes s), ss_boxes := ss_boxes s @ [bs], ss_data := ls, ss_count := wire_size ls,
      ss_replies := r, ss_spawned := ss_spawned s @ [join CRLF ls]\<rparr>)"
    using transaction_received [OF assms(1,3), of "(''MAIL FROM:<'' @ a' @ ''>'') @ CRLF @ []"]
    by (auto simp: data_received_def)
  then show ?thesis
    using assms(4,5) b by (subst (asm) mail_line [OF dec assms(2)])
      (auto simp: start_task_def inbound_of_def new_rcpt_list_def send_reply_def nth_append)
qed

theorem next_mail_replaces_envelope_witness:
  "(let (buf, s1) = data_received example_conf (transaction ''a@b.io'' [''c@d.io''] [''.hi''] @ (''MAIL FROM:<'' @ ''eve@x.io'' @ ''>'') @ CRLF)
          ([], connection_made example_conf);
        s2 = start_task (\<lambda>_. Some example_mime) (hd (ss_spawned s1)) (s1\<lparr>ss_spawned := []\<rparr>)
     in \<exists>i. ss_running s2 = [i] \<and> in_raw i = ''.hi'' \<and> in_from i = ''eve@x.io'' \<and> ss_boxes s2 ! in_box i = [])"
proof -
  have "plain_path ''eve@x.io''" by code_simp
  from next_mail_replaces_envelope [OF example_sendable this, of "connection_made example_conf" "\<lambda>_. Some example_mime" example_mime]
  show ?thesis by (simp add: Let_def)
qed

text \<open>The lines collected so far fit in the count, and a session in the data phase has not passed the limit.\<close>

definition size_ok :: "smtp_conf \<Rightarrow> smtp_session \<Rightarrow> bool" where
  "size_ok cf s \<longleftrightarrow> (ss_state s = DATA \<longrightarrow> wire_size (ss_data s) \<le> ss_count s \<and> ss_count s \<le> sc_max cf) \<and>
     (\<forall>raw \<in> set (ss_spawned s). length raw \<le> sc_max cf) \<and> (\<forall>i \<in> set (ss_running s). length (in_raw i) \<le> sc_max cf)"

lemma length_join_wire: "length (join CRLF ls) \<le> wire_size ls"
  by (induction CRLF ls rule: join.induct) (auto simp: wire_size_def)

lemma size_ok_reply [simp]: "size_ok cf (send_reply code text s) = size_ok cf s"
  by (simp add: size_ok_def send_reply_def)

lemma size_ok_command:
  assumes "size_ok cf s" "ss_state s = COMMAND"
  shows "size_ok cf (handle_command_line cf line s)"
  using assms
  by (simp add: handle_command_line_def Let_def)
    (simp add: size_ok_def new_rcpt_list_def add_rcpt_def send_reply_def wire_size_def)

lemma size_ok_data:
  assumes "size_ok cf s" "ss_state s = DATA"
  shows "size_ok cf (handle_data_line cf line s)"
proof (cases "line = ''.''")
  case True
  with assms length_join_wire [of "ss_data s"] show ?thesis by (auto simp: size_ok_def handle_data_line_def)
next
  case False
  with assms show ?thesis by (auto simp: size_ok_def handle_data_line_def Let_def wire_size_def send_reply_def)
qed

lemma size_ok_line: "size_ok cf s \<Longrightarrow> size_ok cf (handle_line cf line s)"
  by (cases "ss_state s") (simp_all add: handle_line_def size_ok_data size_ok_command)

lemma size_ok_loop: "size_ok cf s \<Longrightarrow> size_ok cf (snd (crlf_loop cf buf s))"
proof (induction cf buf s rule: crlf_loop.induct)
  case (1 cf buf s)
  then show ?case by (subst crlf_loop.simps) (auto simp: size_ok_line split: option.split)
qed

lemma size_ok_clear: "size_ok cf s \<Longrightarrow> size_ok cf (clear_envelope s)"
  by (simp add: size_ok_def clear_envelope_def new_rcpt_list_def wire_size_def)

lemma size_ok_answer [simp]: "size_ok cf (answer r s) = size_ok cf s"
  by (simp add: answer_def split: processed.split option.split)

lemma size_ok_step: "smtp_step cf parse c c' \<Longrightarrow> size_ok cf (snd c) \<Longrightarrow> size_ok cf (snd c')"
proof (induction rule: smtp_step.induct)
  case (received c data)
  then show ?case by (cases c) (simp add: data_received_def size_ok_loop)
next
  case (started s raw rest buf)
  then have "size_ok cf (s\<lparr>ss_spawned := rest\<rparr>)" "length raw \<le> sc_max cf" by (simp_all add: size_ok_def)
  then show ?case
    by (auto simp: start_task_def inbound_of_def size_ok_clear split: option.splits bind_splits) (simp add: size_ok_def)
next
  case (finished k s buf r)
  then have "size_ok cf (s\<lparr>ss_running := take k (ss_running s) @ drop (Suc k) (ss_running s)\<rparr>)"
    by (auto simp: size_ok_def dest: in_set_takeD in_set_dropD)
  then show ?case by (simp add: finish_task_def size_ok_clear)
qed

text \<open>C16: No message larger than the limit is ever handed to a task or to the processor, however chunks, task
  starts and task ends interleave.\<close>
theorem messages_within_limit:
  assumes "smtp_reachable cf parse (buf, s)"
  shows "(\<forall>raw \<in> set (ss_spawned s). length raw \<le> sc_max cf) \<and>
    (\<forall>i \<in> set (ss_running s). length (in_raw i) \<le> sc_max cf)"
proof -
  have "size_ok cf (snd c)" if "smtp_reachable cf parse c" for c
    using that
  proof (induction rule: smtp_reachable.induct)
    case start
    then show ?case by (simp add: size_ok_def)
  qed (rule size_ok_step)
  from this [OF assms] show ?thesis by (simp add: size_ok_def)
qed

lemma example_conf_sizes: "sc_max example_conf = 20"
  by (simp add: example_conf_def)

theorem messages_within_limit_witness:
  "(let s = snd (data_received example_conf (transaction ''a@b.io'' [''c@d.io''] [''.hi'']) ([], connection_made example_conf))
    in ss_spawned s = [''.hi''] \<and> (\<forall>raw \<in> set (ss_spawned s). length raw \<le> 20))"
proof -
  let ?c = "data_received example_conf (transaction ''a@b.io'' [''c@d.io''] [''.hi'']) ([], connection_made example_conf)"
  have "smtp_reachable example_conf (\<lambda>_. None) ?c"
    by (rule smtp_reachable.step [OF smtp_reachable.start]) (rule smtp_step.received)
  then have "smtp_reachable example_conf (\<lambda>_. None) (fst ?c, snd ?c)" by simp
  note limit = messages_within_limit [OF this]
  have "ss_spawned (snd ?c) = [''.hi'']"
    using transaction_received [OF example_sendable, of "connection_made example_conf" "[]"]
    by (auto simp: data_received_def)
  with limit show ?thesis by (simp add: example_conf_sizes)
qed

end
