(* ===== verification/URLs.thy ===== *)
theory URLs
  imports IPAddress Regex "HOL-Library.List_Lexorder" "HOL-Library.Char_ord"
begin

text \<open>
  \<open>content_analysis/urls.py\<close>, \<open>url_redirects.py\<close> and \<open>visual_brand.py\<close>: the links of a message,
  the host a link names, the edit distance that finds names close to a watched brand, and the
  redirect resolver with its guard against server-side request forgery. \<open>urlsplit\<close> is the standard
  library's splitter (Python 3.12), of which the code uses the scheme, the \<open>netloc\<close> and \<open>hostname\<close>.
  The tokens of an HTML document (\<open>html.parser\<close>), the public suffix list (\<open>publicsuffix2\<close>), the
  name resolver, the HTTP client and \<open>httpx.URL.join\<close> are parameters.
\<close>

subsection \<open>\<open>urllib.parse\<close>\<close>

definition is_c0_or_space :: "char \<Rightarrow> bool" where
  "is_c0_or_space c = ((of_char c :: nat) \<le> 32)"

definition is_scheme_char :: "char \<Rightarrow> bool" where
  "is_scheme_char c = (is_ascii_letter c \<or> is_digit c \<or> c \<in> set ''+-.'')"

text \<open>\<open>s.partition(c)\<close> without the separator, and \<open>s.rpartition(c)[2]\<close>.\<close>

definition partition_char :: "char \<Rightarrow> string \<Rightarrow> string \<times> string" where
  "partition_char c s = (case cut c s of None \<Rightarrow> (s, []) | Some p \<Rightarrow> p)"

definition split_scheme :: "string \<Rightarrow> string \<times> string" where
  "split_scheme url = (case cut (CHR '':'') url of
       Some (a, b) \<Rightarrow>
         if a \<noteq> [] \<and> is_ascii_letter (hd a) \<and> list_all is_scheme_char a then (lower a, b)
         else ([], url)
     | None \<Rightarrow> ([], url))"

definition netloc_delim :: "char \<Rightarrow> bool" where
  "netloc_delim c = (c \<in> set ''/?#'')"

definition is_hex_char :: "char \<Rightarrow> bool" where
  "is_hex_char c = (hex_val c \<noteq> None)"

definition vfuture :: re where
  "vfuture = seqs [Sat (\<lambda>c. c = CHR ''v''), plus (Sat is_hex_char), Sat (\<lambda>c. c = CHR ''.''), plus dot, AtEnd]"

text \<open>\<open>_check_bracketed_host\<close>: what stands in brackets is an IPv6 address or an \<open>IPvFuture\<close>.\<close>

definition bracketed_host_ok :: "string \<Rightarrow> bool" where
  "bracketed_host_ok h =
     (if starts_with ''v'' h then match_at vfuture h 0 \<noteq> None
      else case ip_address h of Some (IPv6 _ _) \<Rightarrow> True | _ \<Rightarrow> False)"

definition netloc_ok :: "string \<Rightarrow> bool" where
  "netloc_ok n =
     (let o1 = CHR ''['' \<in> set n; c1 = CHR '']'' \<in> set n in
      o1 = c1 \<and> (o1 \<longrightarrow> bracketed_host_ok
        (fst (partition_char (CHR '']'') (snd (partition_char (CHR ''['') n))))))"

text \<open>\<open>urlparse(url)\<close>: the scheme and the \<open>netloc\<close>; \<^term>\<open>None\<close> where it raises \<open>ValueError\<close>.\<close>

definition urlsplit :: "string \<Rightarrow> (string \<times> string) option" where
  "urlsplit url =
     (let u = filter (\<lambda>c. c \<notin> {CHR 0x09, CHR 0x0D, CHR 0x0A}) (lstrip_by is_c0_or_space url);
          (sch, r) = split_scheme u;
          netloc = (if starts_with ''//'' r
                    then takeWhile (\<lambda>c. \<not> netloc_delim c) (drop 2 r) else [])
      in if netloc_ok netloc then Some (sch, netloc) else None)"

text \<open>The property \<open>hostname\<close>: empty where Python gives \<open>None\<close>, which the code tests alike.\<close>

definition hostname :: "string \<Rightarrow> string" where
  "hostname netloc =
     (let hostinfo = after_last (CHR ''@'') netloc;
          host = (case cut (CHR ''['') hostinfo of
              Some (_, b) \<Rightarrow> fst (partition_char (CHR '']'') b)
            | None \<Rightarrow> fst (partition_char (CHR '':'') hostinfo))
      in case cut (CHR ''%'') host of
           None \<Rightarrow> lower host
         | Some (a, zone) \<Rightarrow> lower a @ ''%'' @ zone)"

subsection \<open>Extracting links\<close>

record extracted_url =
  url_raw :: string
  url_domain :: string
  is_ip_literal :: bool

definition url_re :: re where
  "url_re = seqs [lit_ci ''http'', Opt (lit_ci ''s''), lit ''://'',
     plus (Sat (\<lambda>c. \<not> is_space c \<and> c \<notin> set [CHR 0x22, CHR 0x27, CHR ''<'', CHR ''>'', CHR '')'', CHR '']'']))]"

definition strip_brackets :: "string \<Rightarrow> string" where
  "strip_brackets s = (let P = (\<lambda>c. c \<in> set ''[]'') in rstrip_by P (lstrip_by P s))"

definition domain_of :: "string \<Rightarrow> string \<times> bool" where
  "domain_of url = (case urlsplit url of
       None \<Rightarrow> ([], False)
     | Some (_, netloc) \<Rightarrow>
         let host = hd (split_char (CHR '':'') (after_last (CHR ''@'') netloc));
             h = strip_brackets (lower host)
         in (h, ip_address h \<noteq> None))"

text \<open>
  The callbacks of an HTML parser: a start tag with its attributes (a bare attribute has no value),
  an end tag, a run of text. Parsing gives the callbacks made and whether \<open>feed\<close> then raised.
\<close>

datatype html_event =
    StartTag string "(string \<times> string option) list"
  | EndTag string
  | Text string

type_synonym html_parser = "string \<Rightarrow> html_event list \<times> bool"

fun href_values :: "html_event \<Rightarrow> string list" where
  "href_values (StartTag tag attrs) =
     (if lower tag = ''a''
      then concat (map (\<lambda>(n, v). case v of
               Some u \<Rightarrow> if lower n = ''href'' \<and> u \<noteq> [] then [u] else []
             | None \<Rightarrow> []) attrs)
      else [])"
| "href_values _ = []"

definition hrefs :: "html_event list \<Rightarrow> string list" where
  "hrefs evs = concat (map href_values evs)"

definition is_web_link :: "string \<Rightarrow> bool" where
  "is_web_link href = (starts_with ''http://'' (lower href) \<or> starts_with ''https://'' (lower href))"

definition find_urls :: "string \<Rightarrow> string list" where
  "find_urls s = map (group0 s) (find_all url_re s)"

definition raw_urls :: "html_parser \<Rightarrow> string \<Rightarrow> string \<Rightarrow> string list" where
  "raw_urls parse text html =
     find_urls text @
     (if html = [] then [] else filter is_web_link (hrefs (fst (parse html))) @ find_urls html)"

definition extracted :: "string \<Rightarrow> extracted_url option" where
  "extracted url = (let (d, ip) = domain_of url in
     if d = [] then None else Some \<lparr>url_raw = url, url_domain = d, is_ip_literal = ip\<rparr>)"

definition extract_urls :: "html_parser \<Rightarrow> string \<Rightarrow> string \<Rightarrow> extracted_url list" where
  "extract_urls parse text html =
     List.map_filter extracted (sort (remdups (raw_urls parse text html)))"

subsection \<open>Edit distance\<close>

text \<open>
  One row of the table: \<open>cur\<close> starts as \<open>[i, 0, \<dots>, 0]\<close>, its cells are assigned from the left.
\<close>

definition lev_cell :: "nat list \<Rightarrow> char \<Rightarrow> nat list \<Rightarrow> nat \<times> char \<Rightarrow> nat list" where
  "lev_cell prev ca cur jc =
     (let (j, cb) = jc; cost = (if ca = cb then 0 else 1)
      in cur[j := min (min (prev ! j + 1) (cur ! (j - 1) + 1)) (prev ! (j - 1) + cost)])"

definition lev_row :: "string \<Rightarrow> nat list \<Rightarrow> nat \<times> char \<Rightarrow> nat list" where
  "lev_row b prev ia =
     foldl (lev_cell prev (snd ia)) (fst ia # replicate (length b) 0) (enumerate 1 b)"

definition levenshtein :: "string \<Rightarrow> string \<Rightarrow> nat" where
  "levenshtein a b =
     (if a = b then 0 else if a = [] then length b else if b = [] then length a
      else last (foldl (lev_row b) [0..<Suc (length b)] (enumerate 1 a)))"

text \<open>What it should be: the fewest single-character edits that turn one string into the other.\<close>

inductive edit :: "string \<Rightarrow> string \<Rightarrow> bool" where
  insertion: "edit (u @ v) (u @ c # v)"
| deletion: "edit (u @ c # v) (u @ v)"
| substitution: "edit (u @ c # v) (u @ d # v)"

text \<open>The recursive equations of the distance, and alignments as its certificates.\<close>

fun ed :: "string \<Rightarrow> string \<Rightarrow> nat" where
  "ed [] ys = length ys"
| "ed xs [] = length xs"
| "ed (x # xs) (y # ys) =
     min (min (ed xs (y # ys) + 1) (ed (x # xs) ys + 1)) (ed xs ys + (if x = y then 0 else 1))"

inductive align :: "string \<Rightarrow> string \<Rightarrow> nat \<Rightarrow> bool" where
  nil: "align [] [] 0"
| keep: "align xs ys n \<Longrightarrow> align (x # xs) (x # ys) n"
| change: "align xs ys n \<Longrightarrow> align (x # xs) (y # ys) (Suc n)"
| drop: "align xs ys n \<Longrightarrow> align (x # xs) ys (Suc n)"
| add: "align xs ys n \<Longrightarrow> align xs (y # ys) (Suc n)"

inductive_cases align_ConsE: "align (x # xs) ys n"

lemma align_add_all: "align [] ys (length ys)"
  by (induction ys) (auto intro: align.intros)

lemma align_drop_all: "align xs [] (length xs)"
  by (induction xs) (auto intro: align.intros)

lemma align_refl: "align xs xs 0"
  by (induction xs) (auto intro: align.intros)

lemma align_ed: "align xs ys (ed xs ys)"
proof (induction xs ys rule: ed.induct)
  case (3 x xs y ys)
  show ?case
    using align.drop [OF 3(1), of x] align.add [OF 3(2), of y]
      align.change [OF 3(3), of x y] align.keep [OF 3(3), of x]
    by (auto simp: min_def)
next
  case (2 v va)
  then show ?case using align_drop_all [of "v # va"] by simp
qed (simp add: align_add_all)

lemma ed_Nil2 [simp]: "ed xs [] = length xs"
  by (cases xs) auto

lemma ed_Cons_le: "ed (x # xs) ys \<le> Suc (ed xs ys)" "ed xs (y # ys) \<le> Suc (ed xs ys)"
proof -
  show "ed (x # xs) ys \<le> Suc (ed xs ys)" by (cases ys) auto
  show "ed xs (y # ys) \<le> Suc (ed xs ys)" by (cases xs) auto
qed

lemma ed_least: "align xs ys n \<Longrightarrow> ed xs ys \<le> n"
proof (induction rule: align.induct)
  case (drop xs ys n x)
  then show ?case using ed_Cons_le(1) [of x xs ys] by linarith
next
  case (add xs ys n y)
  then show ?case using ed_Cons_le(2) [of xs y ys] by linarith
qed auto

lemma align_append: "align xs ys n \<Longrightarrow> align us vs m \<Longrightarrow> align (xs @ us) (ys @ vs) (n + m)"
  by (induction rule: align.induct) (auto intro: align.intros)

lemma align_rev: "align xs ys n \<Longrightarrow> align (rev xs) (rev ys) n"
proof (induction rule: align.induct)
  case (keep xs ys n x)
  then show ?case using align_append [OF keep.IH, of "[x]" "[x]" 0] by (auto intro: align.intros)
next
  case (change xs ys n x y)
  then show ?case using align_append [OF change.IH, of "[x]" "[y]" 1] by (auto intro: align.intros)
next
  case (drop xs ys n x)
  then show ?case using align_append [OF drop.IH, of "[x]" "[]" 1] by (auto intro: align.intros)
next
  case (add xs ys n y)
  then show ?case using align_append [OF add.IH, of "[]" "[y]" 1] by (auto intro: align.intros)
qed (auto intro: align.intros)

lemma ed_rev: "ed (rev xs) (rev ys) = ed xs ys"
proof (rule antisym)
  show "ed (rev xs) (rev ys) \<le> ed xs ys" by (rule ed_least, rule align_rev, rule align_ed)
  have "ed (rev (rev xs)) (rev (rev ys)) \<le> ed (rev xs) (rev ys)"
    by (rule ed_least, rule align_rev, rule align_ed)
  then show "ed xs ys \<le> ed (rev xs) (rev ys)" by simp
qed

lemma ed_snoc: "ed (xs @ [x]) (ys @ [y]) =
    min (min (ed xs (ys @ [y]) + 1) (ed (xs @ [x]) ys + 1)) (ed xs ys + (if x = y then 0 else 1))"
  using ed.simps(3) [of x "rev xs" y "rev ys"] ed_rev [of xs ys] ed_rev [of "xs @ [x]" ys]
    ed_rev [of xs "ys @ [y]"] ed_rev [of "xs @ [x]" "ys @ [y]"]
  by simp

text \<open>The triangle inequality.\<close>

lemma ed_length: "length xs \<le> ed xs ys + length ys" "length ys \<le> ed xs ys + length xs"
  by (induction xs ys rule: ed.induct) auto

lemma ed_Cons_cases:
  "ed (x # xs) (y # ys) = ed xs (y # ys) + 1 \<or> ed (x # xs) (y # ys) = ed (x # xs) ys + 1 \<or>
   ed (x # xs) (y # ys) = ed xs ys + (if x = y then 0 else 1)"
  by (simp add: min_def)

lemma ed_Cons_bounds:
  "ed (x # xs) (y # ys) \<le> ed xs (y # ys) + 1" "ed (x # xs) (y # ys) \<le> ed (x # xs) ys + 1"
  "ed (x # xs) (y # ys) \<le> ed xs ys + (if x = y then 0 else 1)"
  by (simp_all add: min_def)

lemma ed_triangle: "ed xs zs \<le> ed xs ys + ed ys zs"
proof (induction "length xs + length ys + length zs" arbitrary: xs ys zs rule: less_induct)
  case less
  note IH = less.hyps
  show ?case
  proof (cases "xs = [] \<or> ys = [] \<or> zs = []")
    case True
    then show ?thesis
      using ed_length [of ys zs] ed_length [of zs ys] ed_length [of xs ys]
        ed_least [OF align_append [OF align_drop_all [of xs] align_add_all [of zs]]]
      by (elim disjE) auto
  next
    case False
    then obtain x xs' y ys' z zs' where l: "xs = x # xs'" "ys = y # ys'" "zs = z # zs'"
      by (auto simp: neq_Nil_conv)
    have "ed xs' zs \<le> ed xs' ys + ed ys zs" "ed xs zs' \<le> ed xs ys + ed ys zs'"
      "ed xs zs \<le> ed xs ys' + ed ys' zs" "ed xs' zs' \<le> ed xs' ys' + ed ys' zs'"
      "ed xs' zs \<le> ed xs' ys' + ed ys' zs" "ed xs zs' \<le> ed xs ys' + ed ys' zs'"
      by (rule IH, simp add: l)+
    with ed_Cons_cases [of x xs' y ys'] ed_Cons_cases [of y ys' z zs']
      ed_Cons_bounds [of x xs' z zs'] show ?thesis
      unfolding l by (elim disjE) (simp_all del: ed.simps split: if_splits)
  qed
qed

lemma ed_edit: "edit xs ys \<Longrightarrow> ed xs ys \<le> 1"
proof (rule ed_least, induction rule: edit.induct)
  case (insertion u v c)
  show ?case using align_append [OF align_refl align.add [OF align_refl], of u] by simp
next
  case (deletion u c v)
  show ?case using align_append [OF align_refl align.drop [OF align_refl], of u] by simp
next
  case (substitution u c v d)
  show ?case using align_append [OF align_refl align.change [OF align_refl], of u] by simp
qed

lemma ed_edits: "(edit ^^ n) xs ys \<Longrightarrow> ed xs ys \<le> n"
proof (induction n arbitrary: ys)
  case 0
  then show ?case using ed_least [OF align_refl] by simp
next
  case (Suc n)
  then obtain us where "(edit ^^ n) xs us" "edit us ys" by auto
  with Suc.IH ed_edit ed_triangle [of xs ys us] show ?case by fastforce
qed

lemma edit_Cons: "edit xs ys \<Longrightarrow> edit (c # xs) (c # ys)"
  by (erule edit.cases) (metis append_Cons edit.intros)+

lemma edits_Cons: "(edit ^^ n) xs ys \<Longrightarrow> (edit ^^ n) (c # xs) (c # ys)"
  by (induction n arbitrary: ys) (auto intro: edit_Cons relcomppI)

lemma align_edits: "align xs ys n \<Longrightarrow> (edit ^^ n) xs ys"
proof (induction rule: align.induct)
  case (keep xs ys n x)
  from edits_Cons [OF keep.IH] show ?case .
next
  case (change xs ys n x y)
  have "edit (x # ys) (y # ys)" using edit.substitution [of "[]"] by simp
  with edits_Cons [OF change.IH, of x] show ?case by auto
next
  case (drop xs ys n x)
  have "edit (x # xs) xs" using edit.deletion [of "[]"] by simp
  then show ?case using drop.IH by (rule relpowp_Suc_I2)
next
  case (add xs ys n y)
  have "edit ys (y # ys)" using edit.insertion [of "[]"] by simp
  with add.IH show ?case by auto
qed simp

lemma ed_iff: "(\<exists>k \<le> n. (edit ^^ k) xs ys) \<longleftrightarrow> ed xs ys \<le> n"
  using ed_edits align_edits [OF align_ed [of xs ys]] by fastforce

subsection \<open>The table computes it\<close>

definition row_ok :: "string \<Rightarrow> string \<Rightarrow> nat \<Rightarrow> nat list \<Rightarrow> bool" where
  "row_ok b p n row \<longleftrightarrow> length row = Suc (length b) \<and> (\<forall>j < n. row ! j = ed p (take j b))"

lemma lev_cells:
  assumes "row_ok b p (Suc (length b)) prev" "k \<le> length b"
    and "row_ok b (p @ [ca]) (Suc (length b - k)) cur"
  shows "row_ok b (p @ [ca]) (Suc (length b))
    (foldl (lev_cell prev ca) cur (enumerate (Suc (length b - k)) (drop (length b - k) b)))"
  using assms(2,3)
proof (induction k arbitrary: cur)
  case 0
  then show ?case by simp
next
  case (Suc k)
  let ?j = "length b - Suc k"
  have j: "?j < length b" and sj: "Suc ?j = length b - k" using Suc.prems(1) by auto
  have dr: "drop ?j b = b ! ?j # drop (Suc ?j) b" using j by (rule Cons_nth_drop_Suc [symmetric])
  let ?cur = "lev_cell prev ca cur (Suc ?j, b ! ?j)"
  have tk: "take (Suc ?j) b = take ?j b @ [b ! ?j]" using j by (rule take_Suc_conv_app_nth)
  have "row_ok b (p @ [ca]) (Suc (length b - k)) ?cur"
    unfolding row_ok_def sj [symmetric]
  proof (intro conjI allI impI)
    show "length ?cur = Suc (length b)"
      using Suc.prems(2) by (simp add: lev_cell_def row_ok_def Let_def)
    fix i assume "i < Suc (Suc ?j)"
    then consider "i \<le> ?j" | "i = Suc ?j" by linarith
    then show "?cur ! i = ed (p @ [ca]) (take i b)"
    proof cases
      case 1
      then show ?thesis using Suc.prems(2) by (simp add: lev_cell_def row_ok_def Let_def)
    next
      case 2
      have "prev ! Suc ?j = ed p (take (Suc ?j) b)" "prev ! ?j = ed p (take ?j b)"
        using assms(1) j by (auto simp: row_ok_def)
      moreover have "cur ! ?j = ed (p @ [ca]) (take ?j b)" "length cur = Suc (length b)"
        using Suc.prems(2) by (auto simp: row_ok_def)
      ultimately show ?thesis
        using 2 j by (simp add: lev_cell_def tk ed_snoc Let_def)
    qed
  qed
  with Suc.IH [of ?cur] Suc.prems(1) show ?case unfolding dr sj [symmetric] by simp
qed

lemma lev_row_ok:
  assumes "row_ok b p (Suc (length b)) prev"
  shows "row_ok b (p @ [ca]) (Suc (length b)) (lev_row b prev (Suc (length p), ca))"
  using lev_cells [OF assms order_refl, of ca "Suc (length p) # replicate (length b) 0"]
  by (simp add: lev_row_def row_ok_def)

lemma lev_rows:
  "row_ok b p (Suc (length b)) prev \<Longrightarrow>
   row_ok b (p @ q) (Suc (length b)) (foldl (lev_row b) prev (enumerate (Suc (length p)) q))"
proof (induction q arbitrary: p prev)
  case (Cons c q)
  from Cons.IH [OF lev_row_ok [OF Cons.prems, of c]] show ?case by simp
qed simp

lemma levenshtein_ed: "levenshtein a b = ed a b"
proof -
  have refl: "ed a a = 0" using ed_least [OF align_refl] by simp
  let ?rows = "foldl (lev_row b) [0..<Suc (length b)] (enumerate (Suc (length ([] :: string))) a)"
  have "row_ok b [] (Suc (length b)) [0..<Suc (length b)]"
    by (auto simp: row_ok_def simp del: upt_Suc)
  from lev_rows [OF this, of a] have "row_ok b a (Suc (length b)) ?rows" by simp
  then have "length ?rows = Suc (length b)" "?rows ! length b = ed a b"
    by (simp_all add: row_ok_def)
  then have "last ?rows = ed a b" by (subst last_conv_nth) auto
  with refl show ?thesis by (auto simp: levenshtein_def simp del: upt_Suc)
qed

text \<open>C35: The row-by-row \<open>_levenshtein\<close> computes the edit distance: \<open>b\<close> can be reached from \<open>a\<close> by at
  most \<open>n\<close> insertions, deletions and substitutions of one character exactly when the result is at
  most \<open>n\<close>, whatever the strings.\<close>
theorem levenshtein_is_edit_distance:
  "levenshtein a b \<le> n \<longleftrightarrow> (\<exists>k \<le> n. (edit ^^ k) a b)"
  by (simp add: ed_iff levenshtein_ed)

subsection \<open>Typosquatting\<close>

text \<open>
  The label the distance is computed on. \<open>psl\<close> is \<open>publicsuffix2.get_public_suffix\<close> where that
  package is installed.
\<close>

definition first_label :: "string \<Rightarrow> string" where
  "first_label d = hd (split_char (CHR ''.'') d)"

definition registrable_label :: "(string \<Rightarrow> string) option \<Rightarrow> string \<Rightarrow> string" where
  "registrable_label psl d = (case psl of
       Some get_public_suffix \<Rightarrow>
         (let reg = get_public_suffix d in
          if CHR ''.'' \<in> set reg then first_label reg else first_label d)
     | None \<Rightarrow> if CHR ''.'' \<in> set d then first_label d else d)"

definition resembles :: "(string \<Rightarrow> string) option \<Rightarrow> nat \<Rightarrow> string \<Rightarrow> string \<Rightarrow> bool" where
  "resembles psl max_distance domain watched =
     (if domain = watched then False
      else if contains watched domain \<and> domain \<noteq> watched then True
      else levenshtein (registrable_label psl domain) (registrable_label psl watched) \<le> max_distance \<and>
        registrable_label psl domain \<noteq> registrable_label psl watched)"

fun typosquat_scan :: "(string \<Rightarrow> string) option \<Rightarrow> nat \<Rightarrow> string \<Rightarrow> string list \<Rightarrow> string option" where
  "typosquat_scan psl max_distance domain [] = None"
| "typosquat_scan psl max_distance domain (w # ws) =
     (if resembles psl max_distance domain (lower w) then Some (lower w)
      else typosquat_scan psl max_distance domain ws)"

definition find_typosquat_target ::
  "(string \<Rightarrow> string) option \<Rightarrow> string \<Rightarrow> string list \<Rightarrow> nat \<Rightarrow> string option" where
  "find_typosquat_target psl domain watchlist max_distance =
     typosquat_scan psl max_distance (lower domain) watchlist"

lemma first_label_no_dot: "CHR ''.'' \<notin> set d \<Longrightarrow> first_label d = d"
  by (simp add: first_label_def split_char_single)

lemma first_label_append: "CHR ''.'' \<notin> set a \<Longrightarrow> first_label (a @ CHR ''.'' # b) = a"
  by (simp add: first_label_def split_char_append)

lemma typosquat_scan_find:
  "typosquat_scan psl k d ws = find (resembles psl k d) (map lower ws)"
  by (induction ws) auto

lemma resembles_iff:
  "resembles psl k d w \<longleftrightarrow> d \<noteq> w \<and> (sublist w d \<or>
     registrable_label psl d \<noteq> registrable_label psl w \<and>
     (\<exists>n \<le> k. (edit ^^ n) (registrable_label psl d) (registrable_label psl w)))"
  by (auto simp: resembles_def contains_iff levenshtein_ed ed_iff)

text \<open>The domain is reported for the first watched domain that it properly contains, or whose label
  its own label misses by one to \<open>max_distance\<close> single-character edits, and for no other.\<close>
theorem typosquat_is_first_near_miss:
  "find_typosquat_target psl d ws k =
   find (\<lambda>w. lower d \<noteq> w \<and> (sublist w (lower d) \<or>
       registrable_label psl (lower d) \<noteq> registrable_label psl w \<and>
       (\<exists>n \<le> k. (edit ^^ n) (registrable_label psl (lower d)) (registrable_label psl w))))
     (map lower ws)"
  unfolding find_typosquat_target_def typosquat_scan_find resembles_iff [abs_def] ..

text \<open>Every subdomain of a watched domain is reported as an imitation of it.\<close>

lemma subdomain_reported:
  "find_typosquat_target psl (s @ CHR ''.'' # w) [w] k = Some (lower w)"
proof -
  have "contains (lower w) (lower s @ lower_char (CHR ''.'') # lower w)"
    using contains_append [of "lower w" "lower s @ [lower_char (CHR ''.'')]" "[]"] by simp
  then show ?thesis
    by (auto simp: find_typosquat_target_def resembles_def lower_def)
qed

text \<open>The same label under another top-level domain is not, whatever the distance allowed.\<close>

lemma tld_swap_unreported:
  assumes "CHR ''.'' \<notin> set l" "lower l = l" "lower a = a" "lower b = b" "length a = length b"
  shows "find_typosquat_target None (l @ CHR ''.'' # a) [l @ CHR ''.'' # b] k = None"
proof -
  have d: "lower (CHR ''.'' # s) = CHR ''.'' # lower s" for s
    by (simp add: lower_def) code_simp
  have "\<not> contains (l @ CHR ''.'' # b) (l @ CHR ''.'' # a) \<or> a = b"
  proof (rule disjCI)
    assume "\<not> a = b"
    { fix ps ss assume eq: "l @ CHR ''.'' # a = ps @ (l @ CHR ''.'' # b) @ ss"
      from arg_cong [OF this, of length] assms(5) have "ps = []" "ss = []" by simp_all
      with eq \<open>a \<noteq> b\<close> have False by simp }
    then show "\<not> contains (l @ CHR ''.'' # b) (l @ CHR ''.'' # a)"
      unfolding contains_iff sublist_def by blast
  qed
  then show ?thesis
    using assms by (auto simp: find_typosquat_target_def resembles_def d registrable_label_def
        first_label_append)
qed

subsection \<open>Redirects\<close>

definition forbidden_networks :: "ip_network list" where
  "forbidden_networks = List.map_filter ip_network
     [''127.0.0.0/8'', ''10.0.0.0/8'', ''172.16.0.0/12'', ''192.168.0.0/16'', ''169.254.0.0/16'',
      ''0.0.0.0/8'', ''::1/128'', ''fe80::/10'', ''fc00::/7'']"

lemma forbidden_networks_eq [code]:
  "forbidden_networks = [Net4 0x7F000000 8, Net4 0x0A000000 8, Net4 0xAC100000 12, Net4 0xC0A80000 16,
     Net4 0xA9FE0000 16, Net4 0 8, Net6 1 128, Net6 0xFE800000000000000000000000000000 10,
     Net6 0xFC000000000000000000000000000000 7]"
  by code_simp

definition is_ssrf_safe_ip :: "string \<Rightarrow> bool result" where
  "is_ssrf_safe_ip ip_str = (case ip_address ip_str of
       Some ip \<Rightarrow> Inr (\<not> list_ex (in_network ip) forbidden_networks)
     | None \<Rightarrow> Inr False)"

text \<open>\<open>getaddrinfo\<close> gives the addresses of a name, or \<^term>\<open>None\<close> for \<open>socket.gaierror\<close>.\<close>

definition all_safe :: "string list \<Rightarrow> bool" where
  "all_safe addrs = list_all (\<lambda>a. is_ssrf_safe_ip a = Inr True) addrs"

definition is_ssrf_safe_host :: "(string \<Rightarrow> string list option) \<Rightarrow> string \<Rightarrow> bool" where
  "is_ssrf_safe_host getaddrinfo host =
     (let h = strip (lower host) in
      if h \<in> {''localhost'', ''metadata.google.internal'', ''169.254.169.254''} then False
      else case is_ssrf_safe_ip h of
        Inr b \<Rightarrow> b
      | Inl _ \<Rightarrow> (case getaddrinfo h of Some addrs \<Rightarrow> all_safe addrs | None \<Rightarrow> False))"

record http_reply =
  status_code :: int
  location :: "string option"

record 'w http_client =
  http_head :: "string \<Rightarrow> 'w \<Rightarrow> http_reply option \<times> 'w"
  http_get :: "string \<Rightarrow> 'w \<Rightarrow> http_reply option \<times> 'w"
  url_join :: "string \<Rightarrow> string \<Rightarrow> string result"

definition is_redirect :: "int \<Rightarrow> bool" where
  "is_redirect code = (code \<in> {301, 302, 303, 307, 308})"

text \<open>\<open>parsed.hostname and is_ssrf_safe_host(parsed.hostname)\<close> for a URL that parses.\<close>

definition target_safe :: "(string \<Rightarrow> string list option) \<Rightarrow> string \<Rightarrow> bool option" where
  "target_safe dns url = map_option
     (\<lambda>(_, netloc). hostname netloc \<noteq> [] \<and> is_ssrf_safe_host dns (hostname netloc)) (urlsplit url)"

text \<open>\<open>client.head\<close>, then \<open>client.get\<close> unless the answer redirects; \<^term>\<open>None\<close> for \<open>RequestError\<close>.\<close>

definition fetch :: "'w http_client \<Rightarrow> string \<Rightarrow> 'w \<Rightarrow> http_reply option \<times> 'w" where
  "fetch client url w = (case http_head client url w of
       (None, w1) \<Rightarrow> (None, w1)
     | (Some resp, w1) \<Rightarrow>
         if is_redirect (status_code resp) then (Some resp, w1) else http_get client url w1)"

definition parse_error :: py_exn where
  "parse_error = ValueError ''Invalid IPv6 URL''"

fun follow :: "(string \<Rightarrow> string list option) \<Rightarrow> 'w http_client \<Rightarrow> nat \<Rightarrow> string \<Rightarrow> string list \<Rightarrow> 'w \<Rightarrow>
    (string \<times> string list) result \<times> 'w" where
  "follow dns client 0 current hops w = (Inr (current, hops), w)"
| "follow dns client (Suc n) current hops w =
     (case target_safe dns current of
        None \<Rightarrow> (Inl parse_error, w)
      | Some False \<Rightarrow> (Inr (current, hops), w)
      | Some True \<Rightarrow>
          (case fetch client current w of
             (None, w') \<Rightarrow> (Inr (current, hops), w')
           | (Some resp, w') \<Rightarrow>
               if is_redirect (status_code resp) then
                 (case location resp of
                    None \<Rightarrow> (Inr (current, hops), w')
                  | Some loc \<Rightarrow>
                      if loc = [] then (Inr (current, hops), w')
                      else (case url_join client current loc of
                         Inl e \<Rightarrow> (Inl e, w')
                       | Inr next_url \<Rightarrow>
                           (case target_safe dns next_url of
                              None \<Rightarrow> (Inl parse_error, w')
                            | Some False \<Rightarrow> (Inr (current, hops), w')
                            | Some True \<Rightarrow> follow dns client n next_url (hops @ [current]) w')))
               else (Inr (current, hops), w')))"

definition resolve_url_redirect_chain ::
  "(string \<Rightarrow> string list option) \<Rightarrow> 'w http_client \<Rightarrow> string \<Rightarrow> int \<Rightarrow> 'w \<Rightarrow>
   (string \<times> string list) result \<times> 'w" where
  "resolve_url_redirect_chain dns client initial_url max_redirects w =
     (case urlsplit initial_url of
        None \<Rightarrow> (Inl parse_error, w)
      | Some (sch, netloc) \<Rightarrow>
          if sch \<notin> {''http'', ''https''} then (Inr (initial_url, []), w)
          else if hostname netloc = [] \<or> \<not> is_ssrf_safe_host dns (hostname netloc)
          then (Inr (initial_url, []), w)
          else follow dns client (nat max_redirects) initial_url [] w)"

text \<open>A client that keeps the list of the URLs it was asked to request.\<close>

definition logging ::
  "(string \<Rightarrow> string list \<Rightarrow> http_reply option) \<Rightarrow> (string \<Rightarrow> string list \<Rightarrow> http_reply option) \<Rightarrow>
   (string \<Rightarrow> string \<Rightarrow> string result) \<Rightarrow> string list http_client" where
  "logging head_answer get_answer join_url = \<lparr>http_head = (\<lambda>u reqs. (head_answer u reqs, reqs @ [u])),
     http_get = (\<lambda>u reqs. (get_answer u reqs, reqs @ [u])), url_join = join_url\<rparr>"

lemma logged_fetch: "set (snd (fetch (logging h g j) url reqs)) \<subseteq> insert url (set reqs)"
  by (auto simp: fetch_def logging_def split: option.splits)

lemma follow_logs:
  "set (snd (follow dns (logging h g j) n cur hops reqs)) \<subseteq> set reqs \<union> {u. target_safe dns u = Some True}"
proof (induction n arbitrary: cur hops reqs)
  case (Suc n)
  obtain r w' where f: "fetch (logging h g j) cur reqs = (r, w')" by (cases "fetch (logging h g j) cur reqs")
  have w: "set w' \<subseteq> insert cur (set reqs)" using logged_fetch [of h g j cur reqs] f by simp
  have IH: "set (snd (follow dns (logging h g j) n u hs w')) \<subseteq> set w' \<union> {u. target_safe dns u = Some True}"
    for u hs by (rule Suc.IH)
  show ?case
    using w subset_trans [OF IH Un_mono [OF w subset_refl]]
    by (auto simp: f split: option.splits bool.splits sum.splits)
qed simp

lemma follow_hops:
  "fst (follow dns c n cur hops w) = Inr (final, hs) \<Longrightarrow> length hs \<le> length hops + n"
proof (induction n arbitrary: cur hops w)
  case (Suc n)
  have "fst (follow dns c n u (hops @ [cur]) w') = Inr (final, hs) \<Longrightarrow> length hs \<le> length hops + Suc n"
    for u w' using Suc.IH [of u "hops @ [cur]" w'] by simp
  with Suc.prems show ?case
    by (auto split: option.splits bool.splits prod.splits sum.splits if_splits)
qed simp

lemma safe_host_literal:
  assumes "is_ssrf_safe_host dns h"
  obtains a where "ip_address (strip (lower h)) = Some a" "\<not> list_ex (in_network a) forbidden_networks"
  using assms that
  by (auto simp: is_ssrf_safe_host_def is_ssrf_safe_ip_def Let_def split: if_splits option.splits)

lemma safe_host_iff:
  "is_ssrf_safe_host dns h \<longleftrightarrow>
     (\<exists>a. ip_address (strip (lower h)) = Some a \<and> \<not> list_ex (in_network a) forbidden_networks)"
proof
  assume "\<exists>a. ip_address (strip (lower h)) = Some a \<and> \<not> list_ex (in_network a) forbidden_networks"
  then have safe: "is_ssrf_safe_ip (strip (lower h)) = Inr True" by (auto simp: is_ssrf_safe_ip_def)
  moreover have "is_ssrf_safe_ip ''localhost'' = Inr False" "is_ssrf_safe_ip ''metadata.google.internal'' = Inr False"
    "is_ssrf_safe_ip ''169.254.169.254'' = Inr False" by code_simp+
  ultimately have "strip (lower h) \<notin> {''localhost'', ''metadata.google.internal'', ''169.254.169.254''}" by auto
  with safe show "is_ssrf_safe_host dns h" by (simp add: is_ssrf_safe_host_def)
qed (meson safe_host_literal)

text \<open>A URL whose host is written as an IP address outside the nine networks of the list.\<close>

definition outside_listed :: "string \<Rightarrow> bool" where
  "outside_listed u = (case urlsplit u of None \<Rightarrow> False | Some (sch, netloc) \<Rightarrow> hostname netloc \<noteq> [] \<and>
     (case ip_address (strip (lower (hostname netloc))) of None \<Rightarrow> False
      | Some a \<Rightarrow> \<not> list_ex (in_network a) forbidden_networks))"

definition web_scheme :: "string \<Rightarrow> bool" where
  "web_scheme u = (case urlsplit u of None \<Rightarrow> False | Some (sch, netloc) \<Rightarrow> sch \<in> {''http'', ''https''})"

lemma target_safe_iff: "target_safe dns u = Some True \<longleftrightarrow> outside_listed u"
  by (auto simp: target_safe_def outside_listed_def safe_host_iff split: option.splits prod.splits)

lemma follow_keeps_log: "set reqs \<subseteq> set (snd (follow dns (logging h g j) n cur hops reqs))"
proof (induction n arbitrary: cur hops reqs)
  case (Suc n)
  obtain r w' where f: "fetch (logging h g j) cur reqs = (r, w')" by (cases "fetch (logging h g j) cur reqs")
  then have "set reqs \<subseteq> set w'" by (auto simp: fetch_def logging_def split: option.splits if_splits)
  moreover have "set w' \<subseteq> set (snd (follow dns (logging h g j) n u hs w'))" for u hs by (rule Suc.IH)
  ultimately have "set reqs \<subseteq> set (snd (follow dns (logging h g j) n u hs w'))" for u hs by blast
  with \<open>set reqs \<subseteq> set w'\<close> show ?case by (simp add: f split: option.split bool.split sum.split)
qed simp

lemma follow_requests_first:
  assumes "target_safe dns url = Some True"
  shows "url \<in> set (snd (follow dns (logging h g j) (Suc n) url hops reqs))"
proof -
  obtain r w' where f: "fetch (logging h g j) url reqs = (r, w')" by (cases "fetch (logging h g j) url reqs")
  then have u: "url \<in> set w'" by (auto simp: fetch_def logging_def split: option.splits if_splits)
  then have "url \<in> set (snd (follow dns (logging h g j) n v hs w'))" for v hs using follow_keeps_log by blast
  with u show ?thesis by (simp add: f assms split: option.split bool.split sum.split)
qed

text \<open>C37: Which hosts the redirect resolver requests: whatever the servers answer and whatever the name resolver
  says, each URL it requests names its host by an IP address outside the nine networks of the list, and a web link to
  any such address is requested. So the list is all that keeps it from internal hosts: a host given by name is never
  asked, and an internal address the list lacks is (the loopback address as \<open>::ffff:127.0.0.1\<close>, or
  the shared range \<open>100.64.0.0/10\<close>).\<close>
theorem redirects_stay_outside_listed_networks:
  assumes "resolve_url_redirect_chain dns (logging h g j) url n [] = (res, reqs)"
  shows "(\<forall>u \<in> set reqs. outside_listed u) \<and> (0 < n \<and> web_scheme url \<and> outside_listed url \<longrightarrow> url \<in> set reqs)"
proof -
  have safe: "target_safe dns u = Some True" if "u \<in> set reqs" for u
  proof -
    have "snd (resolve_url_redirect_chain dns (logging h g j) url n []) = []
        \<or> snd (resolve_url_redirect_chain dns (logging h g j) url n []) =
            snd (follow dns (logging h g j) (nat n) url [] [])"
      by (simp add: resolve_url_redirect_chain_def split: option.split prod.split)
    with follow_logs [of dns h g j "nat n" url "[]" "[]"] assms that show ?thesis by auto
  qed
  have "url \<in> set reqs" if n: "0 < n" and web: "web_scheme url" and out: "outside_listed url"
  proof -
    obtain sch netloc where u: "urlsplit url = Some (sch, netloc)" "sch \<in> {''http'', ''https''}"
      using web by (auto simp: web_scheme_def split: option.splits)
    then have "hostname netloc \<noteq> []" "is_ssrf_safe_host dns (hostname netloc)"
      using out target_safe_iff [of dns url] by (simp_all add: target_safe_def)
    with u have "resolve_url_redirect_chain dns (logging h g j) url n [] = follow dns (logging h g j) (nat n) url [] []"
      by (auto simp: resolve_url_redirect_chain_def simp del: follow.simps)
    moreover obtain i where "nat n = Suc i" using n by (metis gr0_implies_Suc zero_less_nat_eq)
    ultimately show ?thesis
      using follow_requests_first [OF target_safe_iff [THEN iffD2, OF out], of dns h g j i "[]" "[]"] assms by (metis snd_conv)
  qed
  with safe show ?thesis by (simp add: target_safe_iff)
qed

text \<open>The other side of that guard: the name resolver is never asked, and a link to a host given by
  name is never followed.\<close>

lemma named_host_never_followed:
  assumes "urlsplit url = Some (sch, netloc)" "ip_address (strip (lower (hostname netloc))) = None"
  shows "resolve_url_redirect_chain dns c url n w = (Inr (url, []), w)"
  using assms by (auto simp: resolve_url_redirect_chain_def is_ssrf_safe_host_def is_ssrf_safe_ip_def Let_def)

text \<open>And what it lets through: an IPv4 address written as IPv6 is in none of the networks.\<close>

lemma mapped_loopback_safe: "is_ssrf_safe_host dns ''::ffff:127.0.0.1''"
proof -
  have "strip (lower ''::ffff:127.0.0.1'') = ''::ffff:127.0.0.1''" by code_simp
  moreover have "is_ssrf_safe_ip ''::ffff:127.0.0.1'' = Inr True" by code_simp
  ultimately show ?thesis by (simp add: is_ssrf_safe_host_def)
qed

definition loopback_head :: "string \<Rightarrow> string list \<Rightarrow> http_reply option" where
  "loopback_head u reqs = (if u = ''http://1.2.3.4/''
     then Some \<lparr>status_code = 302, location = Some ''http://127.0.0.1/admin''\<rparr> else None)"

lemma redirect_example:
  "resolve_url_redirect_chain (\<lambda>_. None) (logging loopback_head loopback_head (\<lambda>_ l. Inr l))
     ''http://1.2.3.4/'' 5 [] = (Inr (''http://1.2.3.4/'', []), [''http://1.2.3.4/''])"
  by code_simp

text \<open>Internal addresses that pass.\<close>

lemma internal_but_unlisted:
  "outside_listed ''http://[::ffff:127.0.0.1]/admin''" "outside_listed ''http://100.64.0.1/''"
  "\<not> outside_listed ''http://127.0.0.1/admin''"
  by code_simp+

theorem redirects_stay_outside_listed_networks_witness:
  "snd (resolve_url_redirect_chain (\<lambda>_. None) (logging loopback_head loopback_head (\<lambda>_ l. Inr l)) ''http://1.2.3.4/'' 5 []) = [''http://1.2.3.4/''] \<and>
   outside_listed ''http://1.2.3.4/'' \<and>
   ''http://[::ffff:127.0.0.1]/admin'' \<in> set (snd (resolve_url_redirect_chain (\<lambda>_. None)
     (logging loopback_head loopback_head (\<lambda>_ l. Inr l)) ''http://[::ffff:127.0.0.1]/admin'' 5 []))"
proof -
  obtain res reqs where r: "resolve_url_redirect_chain (\<lambda>_. None) (logging loopback_head loopback_head (\<lambda>_ l. Inr l))
      ''http://[::ffff:127.0.0.1]/admin'' 5 [] = (res, reqs)" by fastforce
  have "web_scheme ''http://[::ffff:127.0.0.1]/admin''" by code_simp
  with redirects_stay_outside_listed_networks [OF r] internal_but_unlisted(1)
  have "''http://[::ffff:127.0.0.1]/admin'' \<in> set reqs" by simp
  moreover have "outside_listed ''http://1.2.3.4/''"
    using redirects_stay_outside_listed_networks [OF redirect_example] by simp
  ultimately show ?thesis by (simp add: r redirect_example)
qed

subsection \<open>Visual brands\<close>

definition protected_brands :: "(string \<times> string list) list" where
  "protected_brands =
     [(''microsoft'', [''microsoft online'', ''sign in to your account'', ''outlook365'', ''office365'']),
      (''google'', [''sign in - google accounts'', ''google workspace'', ''gmail login'']),
      (''docusign'', [''docusign - view document'', ''sign your document'']),
      (''paypal'', [''log in to your paypal account'', ''paypal security alert'']),
      (''apple'', [''apple id login'', ''sign in with apple id''])]"

record visual_brand_finding =
  is_impersonating :: bool
  target_brand :: string
  vb_score :: int
  vb_explanation :: string

definition no_brand :: visual_brand_finding where
  "no_brand = \<lparr>is_impersonating = False, target_brand = [], vb_score = 0, vb_explanation = []\<rparr>"

definition capitalize :: "string \<Rightarrow> string" where
  "capitalize s = (case s of [] \<Rightarrow> [] | c # r \<Rightarrow> upper_char c # lower r)"

definition brand_domain :: "string \<Rightarrow> string" where
  "brand_domain url = (if contains ''://'' url then lower (split_char (CHR ''/'') url ! 2) else lower url)"

definition official :: "string \<Rightarrow> string \<Rightarrow> bool" where
  "official brand d \<longleftrightarrow> contains brand d \<and> (contains (brand @ ''.com'') d \<or> contains (brand @ ''.net'') d)"

fun brand_scan :: "string \<Rightarrow> string \<Rightarrow> (string \<times> string list) list \<Rightarrow> visual_brand_finding" where
  "brand_scan content d [] = no_brand"
| "brand_scan content d ((brand, markers) # brands) =
     (if official brand d then brand_scan content d brands
      else if list_ex (\<lambda>marker. contains marker content \<and> \<not> contains brand d) markers
      then \<lparr>is_impersonating = True, target_brand = capitalize brand, vb_score = 30,
            vb_explanation = ''Visual brand impersonation detected for '' @ capitalize brand @
              '' on untrusted domain '' @ d\<rparr>
      else brand_scan content d brands)"

definition check_visual_brand_impersonation :: "string \<Rightarrow> string \<Rightarrow> visual_brand_finding" where
  "check_visual_brand_impersonation url html =
     (if html = [] \<and> url = [] then no_brand
      else brand_scan (lower (html @ '' '' @ url)) (brand_domain url) protected_brands)"

lemma brand_scan_iff:
  "is_impersonating (brand_scan content d bs) \<longleftrightarrow>
   (\<exists>(brand, markers) \<in> set bs. \<not> contains brand d \<and> (\<exists>m \<in> set markers. contains m content))"
proof (induction bs)
  case Nil
  show ?case by (simp add: no_brand_def)
next
  case (Cons b bs)
  then show ?case by (cases b) (auto simp: official_def list_ex_iff)
qed

text \<open>A page is reported exactly if it shows a brand's marker and its domain does not contain the
  brand's name; a domain that only contains the name is trusted.\<close>

lemma brand_in_domain_trusted:
  "\<not> is_impersonating (check_visual_brand_impersonation ''https://paypal-login.evil.ru/''
     ''<h1>Log in to your PayPal account</h1>'')"
  by code_simp

lemma visual_brand_score: "vb_score (brand_scan content d bs) = (if is_impersonating (brand_scan content d bs) then 30 else 0)"
proof (induction bs)
  case (Cons b bs)
  then show ?case by (cases b) simp
qed (simp add: no_brand_def)

end
