(* ===== verification/UnicodeText.thy ===== *)
theory UnicodeText
  imports Prelude
begin

text \<open>
  \<open>content_analysis/homoglyphs.py\<close>, \<open>rtl_detector.py\<close> and \<open>multilang_keywords.py\<close>: the checks that
  look at characters outside Latin-1. Their texts are lists of code points; \<open>points\<close> embeds a
  Latin-1 string. The Unicode Character Database behind \<open>unicodedata\<close>, \<open>str.lower\<close> and \<open>\w\<close>
  is the record \<^emph>\<open>unicode_db\<close>, the package \<open>confusable_homoglyphs\<close> a parameter.
\<close>

type_synonym utext = "int list"

definition points :: "string \<Rightarrow> utext" where
  "points s = map of_char s"

abbreviation u :: "string \<Rightarrow> utext" where
  "u \<equiv> points"

lemma points_simps [simp]: "points [] = []" "points (s @ t) = points s @ points t"
  by (simp_all add: points_def)

lemma points_latin: "c \<in> set (points s) \<Longrightarrow> c < 256"
proof -
  assume "c \<in> set (points s)"
  then obtain x where "c = of_char x" by (auto simp: points_def)
  moreover have "(of_char x :: int) mod 256 = of_char x" by simp
  ultimately show ?thesis by presburger
qed

lemma points_inject [simp]: "points s = points t \<longleftrightarrow> s = t"
  unfolding points_def by (rule inj_map_eq_map) (simp add: inj_def)

subsection \<open>Zero-width characters and look-alikes\<close>

definition is_zero_width :: "int \<Rightarrow> bool" where
  "is_zero_width c = ((0x200B \<le> c \<and> c \<le> 0x200D) \<or> c = 0xFEFF \<or> c = 0x200E \<or> c = 0x200F \<or>
     (0x202A \<le> c \<and> c \<le> 0x202E))"

definition strip_zero_width :: "utext \<Rightarrow> utext" where
  "strip_zero_width text = filter (\<lambda>c. \<not> is_zero_width c) text"

lemma strip_zero_width_points [simp]: "strip_zero_width (points s) = points s"
  unfolding strip_zero_width_def by (rule filter_True) (auto simp: is_zero_width_def dest!: points_latin)

record homoglyph_finding =
  hg_target :: utext
  hg_reason :: utext
  is_punycode :: bool
  has_confusables :: bool
  has_zero_width :: bool

text \<open>An item of \<open>confusables.is_confusable\<close>: a character and the dictionaries of its look-alikes.\<close>

type_synonym confusable = "utext \<times> (string, string) dict list"

definition scripts_repr :: "string list \<Rightarrow> string" where
  "scripts_repr ss = ''['' @ join '', '' (map quoted ss) @ '']''"

definition confusable_finding :: "utext \<Rightarrow> confusable \<Rightarrow> homoglyph_finding" where
  "confusable_finding t item =
     (let scripts = map (\<lambda>h. dgetd h ''script'' []) (snd item) in
      \<lparr>hg_target = t,
       hg_reason = u ''contains homoglyph char '' @ [0x27] @ fst item @ [0x27] @
         u '' confusable with Latin in scripts '' @ u (scripts_repr scripts),
       is_punycode = False, has_confusables = True, has_zero_width = False\<rparr>)"

definition ascii_lower :: "int \<Rightarrow> int" where
  "ascii_lower c = (if 65 \<le> c \<and> c \<le> 90 then c + 32 else c)"

text \<open>
  \<open>"xn--" in target.lower()\<close>: no other character lowers to a text with an \<open>x\<close>, \<open>n\<close> or \<open>-\<close>, so
  lowering the ASCII letters is enough. \<open>confusables\<close> is \<^term>\<open>None\<close> where the package is not installed.
\<close>

definition detect_homoglyphs_and_idn ::
  "(utext \<Rightarrow> confusable list) option \<Rightarrow> utext \<Rightarrow> homoglyph_finding list" where
  "detect_homoglyphs_and_idn confusables t =
     (if list_ex is_zero_width t
      then [\<lparr>hg_target = t, hg_reason = u ''contains zero-width / invisible Unicode characters'',
             is_punycode = False, has_confusables = False, has_zero_width = True\<rparr>] else []) @
     (if sublist (u ''xn--'') (map ascii_lower t)
      then [\<lparr>hg_target = t, hg_reason = u ''IDN Punycode domain detected ('' @ t @ u '')'',
             is_punycode = True, has_confusables = False, has_zero_width = False\<rparr>] else []) @
     (case confusables of None \<Rightarrow> [] | Some is_confusable \<Rightarrow> map (confusable_finding t) (is_confusable t))"

text \<open>The text the keyword patterns see is free of the characters the detector reports, and loses
  nothing else.\<close>

lemma zero_width_detected_iff:
  "(\<exists>f \<in> set (detect_homoglyphs_and_idn cs t). has_zero_width f) \<longleftrightarrow> strip_zero_width t \<noteq> t"
proof -
  have "strip_zero_width t = t \<longleftrightarrow> \<not> list_ex is_zero_width t"
    unfolding strip_zero_width_def filter_id_conv by (auto simp: list_ex_iff)
  then show ?thesis
    by (auto simp: detect_homoglyphs_and_idn_def confusable_finding_def Let_def split: option.splits)
qed

subsection \<open>Directional overrides\<close>

definition rtl_control_chars :: "(int \<times> string) list" where
  "rtl_control_chars =
     [(0x202E, ''RIGHT-TO-LEFT OVERRIDE (RLO)''), (0x202B, ''RIGHT-TO-LEFT EMBEDDING (RLE)''),
      (0x202C, ''POP DIRECTIONAL FORMATTING (PDF)''), (0x202D, ''LEFT-TO-RIGHT OVERRIDE (LRO)''),
      (0x2066, ''LEFT-TO-RIGHT ISOLATE (LRI)''), (0x2067, ''RIGHT-TO-LEFT ISOLATE (RLI)''),
      (0x2068, ''FIRST STRONG ISOLATE (FSI)''), (0x2069, ''POP DIRECTIONAL ISOLATE (PDI)'')]"

definition rtl_regex :: "int \<Rightarrow> bool" where
  "rtl_regex c = (c \<in> {0x202B, 0x202C, 0x202D, 0x202E, 0x2066, 0x2067, 0x2068, 0x2069})"

record rtl_finding =
  has_rtl_override :: bool
  is_filename_spoof :: bool
  detected_chars :: "string list"
  clean_text :: utext
  rtl_explanation :: utext

definition rtl_found :: "utext \<Rightarrow> utext \<Rightarrow> string list" where
  "rtl_found t filename =
     foldl (\<lambda>found (c, name). if (c \<in> set t \<or> c \<in> set filename) \<and> name \<notin> set found
        then found @ [name] else found) [] rtl_control_chars"

definition detect_rtl_override :: "utext \<Rightarrow> utext \<Rightarrow> rtl_finding" where
  "detect_rtl_override t filename =
     (let found = rtl_found t filename;
          override = list_ex (\<lambda>(c, _). c \<in> set t \<or> c \<in> set filename) rtl_control_chars;
          spoof = (filename \<noteq> [] \<and> list_ex (\<lambda>(c, _). c \<in> set filename) rtl_control_chars);
          reasons = (if spoof then [u ''Filename extension spoofing using RTL override: '' @ filename] else []) @
            (if override \<and> \<not> spoof
             then [u (''RTL directional override character(s) detected: '' @ join '', '' found)] else [])
      in \<lparr>has_rtl_override = override, is_filename_spoof = spoof, detected_chars = found,
          clean_text = filter (\<lambda>c. \<not> rtl_regex c) t,
          rtl_explanation = (case reasons of [] \<Rightarrow> [] | r # _ \<Rightarrow> r)\<rparr>)"

lemma rtl_keys: "fst ` set rtl_control_chars = Collect rtl_regex"
  by (auto simp: rtl_control_chars_def rtl_regex_def)

lemma list_ex_rtl: "list_ex (\<lambda>(c, _). P c) rtl_control_chars \<longleftrightarrow> (\<exists>c. rtl_regex c \<and> P c)"
proof -
  have "list_ex (\<lambda>(c, _). P c) rtl_control_chars \<longleftrightarrow> (\<exists>c \<in> fst ` set rtl_control_chars. P c)"
    by (force simp: list_ex_iff)
  then show ?thesis by (simp add: rtl_keys)
qed

text \<open>The table of control characters and the pattern that removes them name the same characters: a
  text is reported exactly if removing them changes it or one is in the file name.\<close>

lemma rtl_reported_iff:
  "has_rtl_override (detect_rtl_override t f) \<longleftrightarrow>
     clean_text (detect_rtl_override t f) \<noteq> t \<or> is_filename_spoof (detect_rtl_override t f)"
  by (auto simp: detect_rtl_override_def Let_def list_ex_rtl filter_id_conv)

lemma rtl_spoof_iff: "is_filename_spoof (detect_rtl_override t f) \<longleftrightarrow> (\<exists>c \<in> set f. rtl_regex c)"
  by (auto simp: detect_rtl_override_def Let_def list_ex_rtl)

subsection \<open>Languages\<close>

record unicode_db =
  nfkc :: "utext \<Rightarrow> utext"
  nfkd :: "utext \<Rightarrow> utext"
  is_mn :: "int \<Rightarrow> bool"
  to_lower :: "utext \<Rightarrow> utext"
  word_char :: "int \<Rightarrow> bool"

definition strip_diacritics :: "unicode_db \<Rightarrow> utext \<Rightarrow> utext" where
  "strip_diacritics db t = filter (\<lambda>c. \<not> is_mn db c) (nfkd db t)"

type_synonym phrase_dict = "(string \<times> (utext \<times> int) list) list"

definition german_phrases :: phrase_dict where
  "german_phrases =
    [(''financial_urgency'',
      [(u ''dringende zahlung'', 15),
       (u ''rechnung '' @ [0xFC] @ u ''berf'' @ [0xE4] @ u ''llig'', 20),
       (u ''rechnung uberfallig'', 20), ([0xFC] @ u ''berweisung ausstehend'', 15),
       (u ''uberweisung ausstehend'', 15), (u ''bankverbindung ge'' @ [0xE4] @ u ''ndert'', 25),
       (u ''bankverbindung geandert'', 25), (u ''sofortige bezahlung'', 20),
       (u ''letzte mahnung'', 20)]),
     (''credential_harvesting'',
      [(u ''konto bestaetigen'', 20), (u ''konto best'' @ [0xE4] @ u ''tigen'', 20),
       (u ''passwort abgelaufen'', 15), (u ''zugang gesperrt'', 20),
       (u ''sicherheits'' @ [0xFC] @ u ''berpr'' @ [0xFC] @ u ''fung'', 20),
       (u ''sicherheitsprufung'', 20),
       (u ''ihr konto wurde eingeschr'' @ [0xE4] @ u ''nkt'', 25)]),
     (''executive_urgency'',
      [(u ''bitte diskret behandeln'', 20), (u ''gutscheinkarten kaufen'', 25),
       (u ''sind sie am arbeitsplatz'', 15)])]"

definition french_phrases :: phrase_dict where
  "french_phrases =
    [(''financial_urgency'',
      [(u ''paiement urgent'', 15), (u ''facture impay'' @ [0xE9] @ u ''e'', 20),
       (u ''facture impayee'', 20), (u ''virement en attente'', 15),
       (u ''changement de coordonn'' @ [0xE9] @ u ''es bancaires'', 25),
       (u ''changement de coordonnees bancaires'', 25),
       (u ''r'' @ [0xE8] @ u ''glement imm'' @ [0xE9] @ u ''diat'', 20),
       (u ''relance de paiement'', 15)]),
     (''credential_harvesting'',
      [(u ''confirmer votre compte'', 20), (u ''mot de passe expir'' @ [0xE9], 15),
       (u ''mot de passe expire'', 15), (u ''compte suspendu'', 20),
       (u ''v'' @ [0xE9] @ u ''rification d'' @ [0x27] @ u ''identit'' @ [0xE9], 20),
       (u ''action requise imm'' @ [0xE9] @ u ''diatement'', 20)]),
     (''executive_urgency'',
      [(u ''demande confidentielle'', 20), (u ''acheter des cartes cadeaux'', 25),
       ([0xEA] @ u ''tes-vous disponible'', 15)])]"

definition spanish_phrases :: phrase_dict where
  "spanish_phrases =
    [(''financial_urgency'',
      [(u ''pago urgente'', 15), (u ''factura vencida'', 20),
       (u ''transferencia pendiente'', 15), (u ''cambio de cuenta bancaria'', 25),
       (u ''aviso de cobro'', 15), (u ''pago inmediato'', 20)]),
     (''credential_harvesting'',
      [(u ''confirmar su cuenta'', 20), (u ''contrase'' @ [0xF1] @ u ''a expirada'', 15),
       (u ''contrasena expirada'', 15), (u ''cuenta suspendida'', 20),
       (u ''verificaci'' @ [0xF3] @ u ''n de seguridad'', 20),
       (u ''verificacion de seguridad'', 20), (u ''acceso bloqueado'', 20)]),
     (''executive_urgency'',
      [(u ''solicitud confidencial'', 20), (u ''comprar tarjetas de regalo'', 25),
       (u ''est'' @ [0xE1] @ u '' disponible en este momento'', 15)])]"

definition italian_phrases :: phrase_dict where
  "italian_phrases =
    [(''financial_urgency'',
      [(u ''pagamento urgente'', 15), (u ''fattura scaduta'', 20),
       (u ''bonifico in sospeso'', 15), (u ''modifica coordinate bancarie'', 25),
       (u ''sollecito di pagamento'', 15)]),
     (''credential_harvesting'',
      [(u ''conferma il tuo account'', 20), (u ''password scaduta'', 15),
       (u ''account sospeso'', 20), (u ''accesso bloccato'', 20),
       (u ''verifica di sicurezza'', 20)]),
     (''executive_urgency'',
      [(u ''richiesta confidenziale'', 20), (u ''acquistare carte regalo'', 25),
       (u ''sei disponibile adesso'', 15)])]"

definition portuguese_phrases :: phrase_dict where
  "portuguese_phrases =
    [(''financial_urgency'',
      [(u ''pagamento urgente'', 15), (u ''fatura vencida'', 20),
       (u ''transfer'' @ [0xEA] @ u ''ncia pendente'', 15), (u ''transferencia pendente'', 15),
       (u ''altera'' @ [0xE7, 0xE3] @ u ''o de dados banc'' @ [0xE1] @ u ''rios'', 25),
       (u ''alteracao de dados bancarios'', 25),
       (u ''comprovante de transfer'' @ [0xEA] @ u ''ncia'', 15)]),
     (''credential_harvesting'',
      [(u ''confirmar sua conta'', 20), (u ''senha expirada'', 15), (u ''conta bloqueada'', 20),
       (u ''verifica'' @ [0xE7, 0xE3] @ u ''o de seguran'' @ [0xE7] @ u ''a'', 20),
       (u ''atualiza'' @ [0xE7, 0xE3] @ u ''o cadastral obrigat'' @ [0xF3] @ u ''ria'', 25)]),
     (''executive_urgency'',
      [(u ''pedido confidencial'', 20), (u ''comprar cart'' @ [0xF5] @ u ''es presente'', 25),
       (u ''voc'' @ [0xEA] @ u '' est'' @ [0xE1] @ u '' dispon'' @ [0xED] @ u ''vel agora'', 15)])]"

definition dutch_phrases :: phrase_dict where
  "dutch_phrases =
    [(''financial_urgency'',
      [(u ''dringende betaling'', 15), (u ''factuur achterstallig'', 20),
       (u ''openstaande rekening'', 15), (u ''wijziging bankgegevens'', 25),
       (u ''onmiddellijke betaling'', 20)]),
     (''credential_harvesting'',
      [(u ''bevestig uw account'', 20), (u ''wachtwoord verlopen'', 15),
       (u ''account geblokkeerd'', 20), (u ''beveiligingswaarschuwing'', 20),
       (u ''toegang opgeschort'', 20)]),
     (''executive_urgency'',
      [(u ''vertrouwelijk verzoek'', 20), (u ''cadeaubonnen kopen'', 25),
       (u ''bent u momenteel beschikbaar'', 15)])]"

definition japanese_phrases :: phrase_dict where
  "japanese_phrases =
    [(''financial_urgency'',
      [([0x81F3, 0x6025, 0x306E, 0x652F, 0x6255, 0x3044], 20),
       ([0x8ACB, 0x6C42, 0x66F8, 0x306E, 0x672A, 0x6255, 0x3044], 20),
       ([0x632F, 0x8FBC, 0x306E, 0x304A, 0x9858, 0x3044], 15),
       ([0x632F, 0x8FBC, 0x5148, 0x5909, 0x66F4], 25),
       ([0x9001, 0x91D1, 0x624B, 0x7D9A, 0x304D], 15)]),
     (''credential_harvesting'',
      [([0x30A2, 0x30AB, 0x30A6, 0x30F3, 0x30C8, 0x306E, 0x505C, 0x6B62], 25),
       ([0x30D1, 0x30B9, 0x30EF, 0x30FC, 0x30C9, 0x306E, 0x6709, 0x52B9, 0x671F, 0x9650], 20),
       ([0x672C, 0x4EBA, 0x78BA, 0x8A8D, 0x306E, 0x624B, 0x7D9A, 0x304D], 20),
       ([0x30ED, 0x30B0, 0x30A4, 0x30F3, 0x5236, 0x9650], 20),
       ([0x30BB, 0x30AD, 0x30E5, 0x30EA, 0x30C6, 0x30A3, 0x8B66, 0x544A], 20)]),
     (''executive_urgency'',
      [([0x81F3, 0x6025, 0x5BFE, 0x5FDC, 0x9858, 0x3044, 0x307E, 0x3059], 20),
       ([0x30AE, 0x30D5, 0x30C8, 0x30AB, 0x30FC, 0x30C9, 0x8CFC, 0x5165], 25),
       ([0x793E, 0x5916, 0x79D8], 15)])]"

definition russian_phrases :: phrase_dict where
  "russian_phrases =
    [(''financial_urgency'',
      [([0x441, 0x440, 0x43E, 0x447, 0x43D, 0x430, 0x44F] @ u '' '' @ [0x43E, 0x43F, 0x43B, 0x430, 0x442, 0x430], 20),
       ([0x43F, 0x440, 0x43E, 0x441, 0x440, 0x43E, 0x447, 0x435, 0x43D, 0x43D, 0x44B, 0x439] @ u '' '' @ [0x441, 0x447, 0x435, 0x442], 20),
       ([0x438, 0x437, 0x43C, 0x435, 0x43D, 0x435, 0x43D, 0x438, 0x435] @ u '' '' @ [0x431, 0x430, 0x43D, 0x43A, 0x43E, 0x432, 0x441, 0x43A, 0x438, 0x445] @ u '' '' @ [0x440, 0x435, 0x43A, 0x432, 0x438, 0x437, 0x438, 0x442, 0x43E, 0x432], 25),
       ([0x43F, 0x43E, 0x434, 0x442, 0x432, 0x435, 0x440, 0x436, 0x434, 0x435, 0x43D, 0x438, 0x435] @ u '' '' @ [0x43F, 0x435, 0x440, 0x435, 0x432, 0x43E, 0x434, 0x430], 15)]),
     (''credential_harvesting'',
      [([0x443, 0x447, 0x435, 0x442, 0x43D, 0x430, 0x44F] @ u '' '' @ [0x437, 0x430, 0x43F, 0x438, 0x441, 0x44C] @ u '' '' @ [0x437, 0x430, 0x431, 0x43B, 0x43E, 0x43A, 0x438, 0x440, 0x43E, 0x432, 0x430, 0x43D, 0x430], 25),
       ([0x441, 0x440, 0x43E, 0x43A] @ u '' '' @ [0x434, 0x435, 0x439, 0x441, 0x442, 0x432, 0x438, 0x44F] @ u '' '' @ [0x43F, 0x430, 0x440, 0x43E, 0x43B, 0x44F] @ u '' '' @ [0x438, 0x441, 0x442, 0x435, 0x43A], 20),
       ([0x43F, 0x43E, 0x434, 0x442, 0x432, 0x435, 0x440, 0x434, 0x438, 0x442, 0x435] @ u '' '' @ [0x432, 0x430, 0x448] @ u '' '' @ [0x430, 0x43A, 0x43A, 0x430, 0x443, 0x43D, 0x442], 20),
       ([0x43F, 0x43E, 0x434, 0x43E, 0x437, 0x440, 0x438, 0x442, 0x435, 0x43B, 0x44C, 0x43D, 0x430, 0x44F] @ u '' '' @ [0x430, 0x43A, 0x442, 0x438, 0x432, 0x43D, 0x43E, 0x441, 0x442, 0x44C], 20)]),
     (''executive_urgency'',
      [([0x43A, 0x43E, 0x43D, 0x444, 0x438, 0x434, 0x435, 0x43D, 0x446, 0x438, 0x430, 0x43B, 0x44C, 0x43D, 0x43E, 0x435] @ u '' '' @ [0x43F, 0x43E, 0x440, 0x443, 0x447, 0x435, 0x43D, 0x438, 0x435], 20),
       ([0x43A, 0x443, 0x43F, 0x438, 0x442, 0x44C] @ u '' '' @ [0x43F, 0x43E, 0x434, 0x430, 0x440, 0x43E, 0x447, 0x43D, 0x44B, 0x435] @ u '' '' @ [0x43A, 0x430, 0x440, 0x442, 0x44B], 25)])]"

definition chinese_phrases :: phrase_dict where
  "chinese_phrases =
    [(''financial_urgency'',
      [([0x7D27, 0x6025, 0x4ED8, 0x6B3E], 20), ([0x903E, 0x671F, 0x8D26, 0x5355], 20),
       ([0x94F6, 0x884C, 0x8D26, 0x6237, 0x53D8, 0x66F4], 25),
       ([0x6C47, 0x6B3E, 0x901A, 0x77E5], 15), ([0x7ACB, 0x5373, 0x8F6C, 0x8D26], 20)]),
     (''credential_harvesting'',
      [([0x8D26, 0x53F7, 0x5DF2, 0x88AB, 0x51BB, 0x7ED3], 25),
       ([0x5BC6, 0x7801, 0x5DF2, 0x8FC7, 0x671F], 20), ([0x5B89, 0x5168, 0x9A8C, 0x8BC1], 20),
       ([0x8EAB, 0x4EFD, 0x6838, 0x5B9E], 20),
       ([0x91CD, 0x65B0, 0x6FC0, 0x6D3B, 0x8D26, 0x6237], 25)]),
     (''executive_urgency'',
      [([0x8BF7, 0x534F, 0x52A9, 0x4FDD, 0x5BC6], 20),
       ([0x91C7, 0x8D2D, 0x793C, 0x54C1, 0x5361], 25),
       ([0x8BF7, 0x95EE, 0x5728, 0x516C, 0x53F8, 0x5417], 15)])]"

definition multilang_dictionaries :: "(string \<times> phrase_dict) list" where
  "multilang_dictionaries = [(''de'', german_phrases), (''fr'', french_phrases), (''es'', spanish_phrases), (''it'', italian_phrases), (''pt'', portuguese_phrases), (''nl'', dutch_phrases), (''ja'', japanese_phrases), (''ru'', russian_phrases), (''zh'', chinese_phrases)]"

definition lang_indicators :: "(string \<times> utext list) list" where
  "lang_indicators =
    [(''de'', [u ''und'', u ''der'', u ''die'', u ''das'', u ''bitte'', u ''rechnung'', [0xFC] @ u ''berweisung'', u ''uberweisung'', u ''dringende'', u ''zahlung'', u ''f'' @ [0xFC] @ u ''hrungs'']),
     (''fr'', [u ''et'', u ''le'', u ''la'', u ''les'', u ''votre'', u ''facture'', u ''paiement'', u ''urgent'', u ''virement'', u ''compte'']),
     (''es'', [u ''y'', u ''el'', u ''la'', u ''los'', u ''su'', u ''factura'', u ''pago'', u ''urgente'', u ''transferencia'', u ''cuenta'']),
     (''it'', [u ''e'', u ''il'', u ''la'', u ''i'', u ''le'', u ''suo'', u ''vostro'', u ''fattura'', u ''pagamento'', u ''urgente'', u ''bonifico'']),
     (''pt'', [u ''e'', u ''o'', u ''a'', u ''os'', u ''as'', u ''seu'', u ''sua'', u ''fatura'', u ''pagamento'', u ''urgente'', u ''transferencia'']),
     (''nl'', [u ''en'', u ''de'', u ''het'', u ''van'', u ''een'', u ''voor'', u ''factuur'', u ''betaling'', u ''dringende'', u ''rekening''])]"

text \<open>\<open>re.findall(r"\b\w+\b", text)\<close>: the maximal runs of word characters.\<close>

function word_runs :: "('a \<Rightarrow> bool) \<Rightarrow> 'a list \<Rightarrow> 'a list list" where
  "word_runs w t = (case dropWhile (\<lambda>c. \<not> w c) t of
       [] \<Rightarrow> []
     | c # r \<Rightarrow> takeWhile w (c # r) # word_runs w (dropWhile w (c # r)))"
  by pat_completeness auto
termination
proof (relation "measure (\<lambda>(w, t). length t)", simp)
  fix w :: "'a \<Rightarrow> bool" and t c r
  assume h: "dropWhile (\<lambda>c. \<not> w c) t = c # r"
  then have "w c" by (metis hd_dropWhile list.distinct(1) list.sel(1))
  moreover have "length (c # r) \<le> length t" using h by (metis length_dropWhile_le)
  moreover have "length (dropWhile w r) \<le> length r" by (rule length_dropWhile_le)
  ultimately show "((w, dropWhile w (c # r)), w, t) \<in> measure (\<lambda>(w, t). length t)" by simp
qed

declare word_runs.simps [simp del]

definition is_kana :: "int \<Rightarrow> bool" where
  "is_kana c = ((0x3040 \<le> c \<and> c \<le> 0x309F) \<or> (0x30A0 \<le> c \<and> c \<le> 0x30FF))"

definition is_cyrillic :: "int \<Rightarrow> bool" where
  "is_cyrillic c = (0x0400 \<le> c \<and> c \<le> 0x04FF)"

definition is_han :: "int \<Rightarrow> bool" where
  "is_han c = (0x4E00 \<le> c \<and> c \<le> 0x9FFF)"

definition indicator_score :: "unicode_db \<Rightarrow> utext list \<Rightarrow> utext list \<Rightarrow> nat" where
  "indicator_score db ws indicators = length (filter (\<lambda>ind. strip_diacritics db ind \<in> set ws) indicators)"

text \<open>\<open>max(scores.items(), key=...)\<close>: the first of the best.\<close>

fun best_score :: "string \<times> nat \<Rightarrow> (string \<times> nat) list \<Rightarrow> string \<times> nat" where
  "best_score b [] = b"
| "best_score b (s # ss) = best_score (if snd s > snd b then s else b) ss"

definition detect_language :: "unicode_db \<Rightarrow> utext \<Rightarrow> string" where
  "detect_language db t =
     (if list_ex is_kana t then ''ja''
      else if list_ex is_cyrillic t then ''ru''
      else if list_ex is_han t then ''zh''
      else
        let ws = word_runs (word_char db) (strip_diacritics db (to_lower db t));
            scores = map (\<lambda>(lang, inds). (lang, indicator_score db ws inds)) lang_indicators
        in case scores of
             [] \<Rightarrow> ''en''
           | s # ss \<Rightarrow> (let (lang, n) = best_score s ss in if n \<ge> 1 then lang else ''en''))"

type_synonym ukeyword_match = "utext \<times> string"

definition phrase_hits ::
  "unicode_db \<Rightarrow> utext \<Rightarrow> utext \<Rightarrow> phrase_dict \<Rightarrow> (utext \<times> int \<times> string) list" where
  "phrase_hits db text_nfkc text_stripped dictionary =
     concat (map (\<lambda>(category, phrases).
       map (\<lambda>(phrase, weight). (phrase, weight, category))
         (filter (\<lambda>(phrase, weight).
            let phrase_norm = to_lower db phrase; phrase_stripped = strip_diacritics db phrase_norm
            in sublist phrase_norm text_nfkc \<or> sublist phrase_stripped text_stripped) phrases))
       dictionary)"

definition scan_multilang_keywords :: "unicode_db \<Rightarrow> utext \<Rightarrow> ukeyword_match list \<times> int" where
  "scan_multilang_keywords db t =
     (let text_nfkc = to_lower db (nfkc db t);
          text_stripped = strip_diacritics db text_nfkc;
          lang = detect_language db t
      in case dget multilang_dictionaries lang of
           None \<Rightarrow> ([], 0)
         | Some dictionary \<Rightarrow>
             (let hits = phrase_hits db text_nfkc text_stripped dictionary
              in (map (\<lambda>(phrase, _, category). (phrase, category @ ''_'' @ lang)) hits,
                  sum_list (map (\<lambda>(_, weight, _). weight) hits))))"

lemma dictionary_weights:
  assumes "dget multilang_dictionaries lang = Some d" "(c, ps) \<in> set d" "(p, n) \<in> set ps"
  shows "15 \<le> n \<and> n \<le> 25"
proof -
  have "\<forall>(l, d) \<in> set multilang_dictionaries. \<forall>(c, ps) \<in> set d. \<forall>(p, n) \<in> set ps. 15 \<le> n \<and> n \<le> (25::int)"
    unfolding multilang_dictionaries_def german_phrases_def french_phrases_def spanish_phrases_def
      italian_phrases_def portuguese_phrases_def dutch_phrases_def japanese_phrases_def
      russian_phrases_def chinese_phrases_def
    by simp
  with assms show ?thesis by (fastforce dest: map_of_SomeD)
qed

lemma phrase_hits_in: "(p, n, c) \<in> set (phrase_hits db a b d) \<Longrightarrow> \<exists>ps. (c, ps) \<in> set d \<and> (p, n) \<in> set ps"
  by (auto simp: phrase_hits_def)

lemma sum_bounds:
  assumes "\<And>x. x \<in> set xs \<Longrightarrow> a \<le> f x \<and> f x \<le> (b::int)"
  shows "a * int (length xs) \<le> sum_list (map f xs) \<and> sum_list (map f xs) \<le> b * int (length xs)"
  using assms
proof (induction xs)
  case (Cons x xs)
  from Cons.prems [of x] have "a \<le> f x" "f x \<le> b" by simp_all
  with Cons show ?case by (simp add: distrib_left add_mono)
qed simp

text \<open>Every reported phrase adds 15 to 25 points.\<close>

lemma multilang_score_bounds:
  assumes "scan_multilang_keywords db t = (ms, s)"
  shows "15 * int (length ms) \<le> s \<and> s \<le> 25 * int (length ms)"
proof (cases "dget multilang_dictionaries (detect_language db t)")
  case None
  with assms show ?thesis by (simp add: scan_multilang_keywords_def Let_def)
next
  case (Some d)
  let ?hits = "phrase_hits db (to_lower db (nfkc db t)) (strip_diacritics db (to_lower db (nfkc db t))) d"
  have "15 \<le> (case h of (_, w, _) \<Rightarrow> w) \<and> (case h of (_, w, _) \<Rightarrow> w) \<le> 25" if "h \<in> set ?hits" for h
  proof -
    obtain p w c where h: "h = (p, w, c)" by (cases h)
    with that obtain ps where "(c, ps) \<in> set d" "(p, w) \<in> set ps" using phrase_hits_in by blast
    with dictionary_weights [OF Some] h show ?thesis by simp
  qed
  from sum_bounds [of ?hits 15 "\<lambda>(_, w, _). w" 25, OF this] show ?thesis
    using assms Some by (auto simp: scan_multilang_keywords_def Let_def)
qed

text \<open>One kana character anywhere makes the text Japanese: no phrase of another language is then
  looked for.\<close>

lemma kana_hides_other_languages:
  assumes "\<exists>k \<in> set t. is_kana k" "(p, c) \<in> set (fst (scan_multilang_keywords db t))"
  shows "\<exists>cat ps n. (cat, ps) \<in> set japanese_phrases \<and> (p, n) \<in> set ps \<and> c = cat @ ''_ja''"
proof -
  have "detect_language db t = ''ja''" using assms(1) by (auto simp: detect_language_def list_ex_iff)
  moreover have "dget multilang_dictionaries ''ja'' = Some japanese_phrases"
    by (simp add: multilang_dictionaries_def)
  ultimately show ?thesis using assms(2)
    by (fastforce simp: scan_multilang_keywords_def Let_def dest: phrase_hits_in)
qed

text \<open>
  A small database: the two German umlauts decompose, the combining diacritics are marks. With it,
  an English article is Portuguese, and a phrase listed with and without its umlaut counts twice.
\<close>

definition small_db :: unicode_db where
  "small_db = \<lparr>nfkc = (\<lambda>t. t),
     nfkd = (\<lambda>t. concat (map (\<lambda>c. if c = 0xFC then [0x75, 0x308] else if c = 0xE4 then [0x61, 0x308] else [c]) t)),
     is_mn = (\<lambda>c. 0x300 \<le> c \<and> c < 0x370), to_lower = map ascii_lower,
     word_char = (\<lambda>c. (97 \<le> c \<and> c \<le> 122) \<or> 0xC0 \<le> c)\<rparr>"

lemma english_article_is_portuguese: "detect_language small_db (u ''send a payment'') = ''pt''"
  by code_simp

lemma umlaut_counts_twice:
  "scan_multilang_keywords small_db (u ''bitte die rechnung uberfallig'') =
     ([(u ''rechnung '' @ [0xFC] @ u ''berf'' @ [0xE4] @ u ''llig'', ''financial_urgency_de''),
       (u ''rechnung uberfallig'', ''financial_urgency_de'')], 40)"
  by code_simp

end
