(* ===== verification/Decimals.thy ===== *)
theory Decimals
  imports Prelude
begin

text \<open>
  \<open>round(x, n)\<close> and the format \<open>.nf\<close> of Python for exact rationals: the nearest decimal with \<open>n\<close>
  digits, a tie going to the even one.
\<close>

definition round_even :: "rat \<Rightarrow> int" where
  "round_even x = (let f = \<lfloor>x\<rfloor>; d = x - of_int f in
     if d < 1 / 2 then f else if d > 1 / 2 then f + 1 else if even f then f else f + 1)"

definition round_to :: "nat \<Rightarrow> rat \<Rightarrow> rat" where
  "round_to n x = of_int (round_even (x * 10 ^ n)) / 10 ^ n"

fun zeros_to :: "nat \<Rightarrow> string \<Rightarrow> string" where
  "zeros_to n s = replicate (n - length s) (CHR ''0'') @ s"

definition fixed_str :: "nat \<Rightarrow> rat \<Rightarrow> string" where
  "fixed_str n x =
     (let m = round_even (\<bar>x\<bar> * 10 ^ n); k = nat m;
          body = nat_str (k div 10 ^ n) @ (if n = 0 then [] else ''.'' @ zeros_to n (nat_str (k mod 10 ^ n)))
      in if x < 0 then CHR ''-'' # body else body)"

text \<open>The format \<open>.2%\<close>.\<close>

definition percent_str :: "rat \<Rightarrow> string" where
  "percent_str x = fixed_str 2 (x * 100) @ ''%''"

lemma round_even_bounds: "\<bar>of_int (round_even x) - x\<bar> \<le> 1 / 2"
proof -
  have "of_int \<lfloor>x\<rfloor> \<le> x" "x < of_int \<lfloor>x\<rfloor> + 1" by linarith+
  then show ?thesis by (auto simp: round_even_def Let_def abs_le_iff)
qed

lemma round_to_bounds: "\<bar>round_to n x - x\<bar> \<le> 1 / (2 * 10 ^ n)"
proof -
  let ?p = "10 ^ n :: rat"
  have "\<bar>round_to n x - x\<bar> = \<bar>(of_int (round_even (x * ?p)) - x * ?p) / ?p\<bar>"
    by (simp add: round_to_def diff_divide_distrib)
  also have "\<dots> = \<bar>of_int (round_even (x * ?p)) - x * ?p\<bar> / ?p" by (simp add: abs_divide)
  also have "\<dots> \<le> (1 / 2) / ?p" by (rule divide_right_mono [OF round_even_bounds]) simp
  finally show ?thesis by simp
qed

lemma round_even_mono: "x \<le> y \<Longrightarrow> round_even x \<le> round_even y"
proof -
  assume xy: "x \<le> y"
  then have f: "\<lfloor>x\<rfloor> \<le> \<lfloor>y\<rfloor>" by (rule floor_mono)
  show ?thesis
  proof (cases "\<lfloor>x\<rfloor> = \<lfloor>y\<rfloor>")
    case True
    with xy show ?thesis by (auto simp: round_even_def Let_def)
  next
    case False
    with f have "\<lfloor>x\<rfloor> + 1 \<le> \<lfloor>y\<rfloor>" by simp
    moreover have "round_even x \<le> \<lfloor>x\<rfloor> + 1" "\<lfloor>y\<rfloor> \<le> round_even y" by (auto simp: round_even_def Let_def)
    ultimately show ?thesis by linarith
  qed
qed

lemma round_even_of_int [simp]: "round_even (of_int i) = i"
  by (simp add: round_even_def)

end
