(* ===== verification/ContentSignals.thy ===== *)
theory ContentSignals
  imports URLs UnicodeText Decimals
begin

text \<open>
  The scanners of \<open>content_analysis/\<close> that look at one part of a message each: pressure phrases
  (\<open>keywords.py\<close>), the names in the headers (\<open>display_name.py\<close>), hidden HTML (\<open>html_evasion.py\<close>
  and the text extractor of \<open>pipeline.py\<close>), the history of correspondents (\<open>relationship_graph.py\<close>),
  the linear classifier (\<open>ml_classifier.py\<close>) and the two image scanners (\<open>qr_detector.py\<close>,
  \<open>ocr_scanner.py\<close>). \<open>parseaddr\<close>, the HTML parser, the exponential function and the image libraries
  are parameters.
\<close>

subsection \<open>Pressure phrases\<close>

definition sp :: re where
  "sp = Sat (\<lambda>c. c = CHR '' '')"

text \<open>\<open>\b\<close>, the given parts, \<open>\b\<close>; and a choice of literals, case ignored.\<close>

definition bounded :: "re list \<Rightarrow> re" where
  "bounded rs = seqs (WordBoundary # rs @ [WordBoundary])"

definition choice :: "string list \<Rightarrow> re" where
  "choice ss = alts (map lit_ci ss)"

definition urgency_patterns :: "(re \<times> string \<times> int) list" where
  "urgency_patterns =
     [(bounded [lit_ci ''act'', Opt (lit_ci ''ion''), sp, choice [''now'', ''immediately'', ''required'']],
         ''urgency'', 6),
      (bounded [choice [''within'', ''in''], sp,
         alts [lit ''24'', seqs [lit_ci ''twenty'', one_of ''- '', lit_ci ''four'']], lit_ci '' hours''],
         ''urgency'', 6),
      (bounded [lit_ci ''your account '', choice [''will be'', ''has been''], sp,
         choice [''suspended'', ''locked'', ''closed'', ''disabled'']], ''urgency'', 10),
      (bounded [lit_ci ''final '', choice [''notice'', ''warning'', ''reminder'']], ''urgency'', 8),
      (bounded [lit_ci ''verify your '', choice [''account'', ''identity'', ''information''], sp,
         choice [''immediately'', ''now'', ''today'']], ''urgency'', 10),
      (bounded [lit_ci ''unusual '', alts [seqs [lit_ci ''sign'', Opt (lit ''-''), lit_ci ''in''], lit_ci ''login''],
         lit_ci '' activity''], ''urgency'', 6),
      (bounded [lit_ci ''suspicious activity '', choice [''detected'', ''on your account'']], ''urgency'', 6)]"

definition credential_patterns :: "(re \<times> string \<times> int) list" where
  "credential_patterns =
     [(bounded [choice [''confirm'', ''update'', ''verify''], lit_ci '' your password''], ''credential_harvest'', 8),
      (bounded [lit_ci ''click here to '', choice [''login'', ''log in'', ''sign in'']], ''credential_harvest'', 8),
      (bounded [lit_ci ''re'', Opt (lit ''-''), lit_ci ''enter your '', choice [''credentials'', ''password'', ''login'']],
         ''credential_harvest'', 10),
      (bounded [lit_ci ''your '', choice [''mailbox'', ''inbox''], sp,
         choice [''is full'', ''will be closed'', ''storage exceeded'']], ''credential_harvest'', 8)]"

definition financial_patterns :: "(re \<times> string \<times> int) list" where
  "financial_patterns =
     [(bounded [lit_ci ''wire transfer''], ''financial'', 8),
      (bounded [lit_ci ''update'', Opt (lit_ci ''d''), sp, choice [''banking'', ''payment''], sp,
         choice [''details'', ''information'']], ''financial'', 10),
      (seqs [WordBoundary, lit_ci ''gift card'', Opt (lit_ci ''s''), WordBoundary, between 0 40 dot, WordBoundary,
         choice [''purchase'', ''buy'', ''need''], WordBoundary], ''financial'', 10),
      (bounded [lit_ci ''outstanding '', choice [''invoice'', ''payment'']], ''financial'', 6),
      (bounded [lit_ci ''kindly '', choice [''send'', ''forward'', ''process''], sp,
         choice [''payment'', ''the funds'']], ''financial'', 8),
      (seqs [WordBoundary, lit_ci ''this is confidential'', WordBoundary, between 0 60 dot, WordBoundary,
         alts [seqs [lit_ci ''don'', Opt (Sat (\<lambda>c. c = CHR 0x27)), lit_ci ''t''], lit_ci ''do not''], sp,
         choice [''tell'', ''discuss'', ''mention''], WordBoundary], ''financial'', 12)]"

definition generic_patterns :: "(re \<times> string \<times> int) list" where
  "generic_patterns =
     [(bounded [lit_ci ''dear '', alts [lit_ci ''customer'', lit_ci ''user'',
         seqs [lit_ci ''valued '', choice [''customer'', ''member'']]]], ''generic_phishing'', 4),
      (bounded [lit_ci ''congratulations'', Opt (lit '',''), lit_ci '' you'',
         alts [seqs [Sat (\<lambda>c. c = CHR 0x27), lit_ci ''ve''], lit_ci '' have''], sp,
         choice [''won'', ''been selected'']], ''generic_phishing'', 10),
      (bounded [lit_ci ''claim your '', choice [''prize'', ''reward'', ''refund'']], ''generic_phishing'', 10)]"

definition keyword_patterns :: "(re \<times> string \<times> int) list" where
  "keyword_patterns = urgency_patterns @ credential_patterns @ financial_patterns @ generic_patterns"

text \<open>A Latin-1 text holds none of the characters \<open>strip_zero_width\<close> removes
  (\<open>strip_zero_width_points\<close>), so the text is searched as it is.\<close>

definition keyword_hits :: "string \<Rightarrow> (string \<times> string \<times> int) list" where
  "keyword_hits s = List.map_filter
     (\<lambda>(r, category, n). map_option (\<lambda>m. (group0 s m, category, n)) (rsearch r s)) keyword_patterns"

definition scan_keywords :: "string \<Rightarrow> ukeyword_match list \<times> int" where
  "scan_keywords s = (map (\<lambda>(phrase, category, _). (points phrase, category)) (keyword_hits s),
     sum_list (map (\<lambda>(_, _, n). n) (keyword_hits s)))"

lemma keyword_points: "(r, c, n) \<in> set keyword_patterns \<Longrightarrow> 4 \<le> n \<and> n \<le> 12"
  by (auto simp: keyword_patterns_def urgency_patterns_def credential_patterns_def
      financial_patterns_def generic_patterns_def)

lemma keyword_hits_points: "(p, c, n) \<in> set (keyword_hits s) \<Longrightarrow> 4 \<le> n \<and> n \<le> 12"
  using keyword_points by (fastforce simp: keyword_hits_def in_map_filter)

lemma length_map_filter_le: "length (List.map_filter f xs) \<le> length xs"
  by (induction xs) (auto simp: map_filter_simps split: option.splits)

lemma length_patterns: "length keyword_patterns = 20"
  by (simp add: keyword_patterns_def urgency_patterns_def credential_patterns_def
      financial_patterns_def generic_patterns_def)

text \<open>Each pattern counts once, however often it occurs; a match adds 4 to 12 points.\<close>

lemma keyword_score_bounds:
  "length (fst (scan_keywords s)) \<le> 20"
  "4 * int (length (fst (scan_keywords s))) \<le> snd (scan_keywords s)"
  "snd (scan_keywords s) \<le> 12 * int (length (fst (scan_keywords s)))"
proof -
  show "length (fst (scan_keywords s)) \<le> 20"
    using length_map_filter_le [of _ keyword_patterns] by (simp add: scan_keywords_def keyword_hits_def length_patterns)
  have "4 \<le> (case h of (_, _, n) \<Rightarrow> n) \<and> (case h of (_, _, n) \<Rightarrow> n) \<le> 12" if "h \<in> set (keyword_hits s)" for h
  proof -
    obtain p c n where "h = (p, c, n)" by (cases h)
    with that keyword_hits_points [of p c n s] show ?thesis by simp
  qed
  from sum_bounds [of "keyword_hits s" 4 "\<lambda>(_, _, n). n" 12, OF this]
  show "4 * int (length (fst (scan_keywords s))) \<le> snd (scan_keywords s)"
    "snd (scan_keywords s) \<le> 12 * int (length (fst (scan_keywords s)))"
    by (simp_all add: scan_keywords_def)
qed

lemma scan_nothing: "fst (scan_keywords s) = [] \<Longrightarrow> snd (scan_keywords s) = 0"
  using keyword_score_bounds(2,3) [of s] by simp

subsection \<open>Names in headers\<close>

text \<open>\<open>email.utils.parseaddr\<close> gives the display name and the address.\<close>

definition parse_name_and_email :: "(string \<Rightarrow> string \<times> string) \<Rightarrow> string \<Rightarrow> string \<times> string \<times> string" where
  "parse_name_and_email parseaddr h =
     (let (name, addr) = parseaddr h;
          dom = (if CHR ''@'' \<in> set addr then lower (after_last (CHR ''@'') addr) else [])
      in (strip name, lower (strip addr), dom))"

definition check_display_name_spoofing ::
  "(string \<Rightarrow> string \<times> string) \<Rightarrow> string \<Rightarrow> string list \<Rightarrow> bool \<times> string" where
  "check_display_name_spoofing parseaddr from_header vips =
     (if vips = [] \<or> from_header = [] then (False, [])
      else let (name, addr, dom) = parse_name_and_email parseaddr from_header in
        if name = [] then (False, [])
        else case find (\<lambda>vip. contains (lower vip) (lower name)) vips of
          Some vip \<Rightarrow> (True, ''From header display name '' @ quoted name @ '' matches protected identity '' @
            quoted vip @ '' (actual address: '' @ addr @ '')'')
        | None \<Rightarrow> (False, []))"

definition check_reply_to_mismatch ::
  "(string \<Rightarrow> string \<times> string) \<Rightarrow> string \<Rightarrow> string \<Rightarrow> bool \<times> string" where
  "check_reply_to_mismatch parseaddr from_header reply_to =
     (if from_header = [] \<or> reply_to = [] then (False, [])
      else let (_, from_addr, from_domain) = parse_name_and_email parseaddr from_header;
               (_, reply_addr, reply_domain) = parse_name_and_email parseaddr reply_to
        in if from_domain = [] \<or> reply_domain = [] then (False, [])
           else if from_domain \<noteq> reply_domain
           then (True, ''Reply-To domain mismatch: From is @'' @ from_domain @ '' ('' @ from_addr @
             ''), but Reply-To is @'' @ reply_domain @ '' ('' @ reply_addr @ '')'')
           else (False, []))"

text \<open>The protected person's own mail is reported too: the sender's domain is never looked at.\<close>

lemma display_name_ignores_domain:
  assumes "parseaddr h = (name, addr)" "strip name \<noteq> []" "h \<noteq> []" "vip \<in> set vips"
    and "contains (lower vip) (lower (strip name))"
  shows "fst (check_display_name_spoofing parseaddr h vips)"
proof -
  have "find (\<lambda>v. contains (lower v) (lower (strip name))) vips \<noteq> None"
    using assms(4,5) by (auto simp: find_None_iff)
  with assms show ?thesis
    by (auto simp: check_display_name_spoofing_def parse_name_and_email_def Let_def split: option.splits)
qed

lemma reply_to_mismatch_sym:
  "fst (check_reply_to_mismatch p a b) = fst (check_reply_to_mismatch p b a)"
  by (auto simp: check_reply_to_mismatch_def Let_def split: prod.splits)

subsection \<open>Hidden HTML\<close>

type_synonym styles = "(string, string) dict"

definition strip_lower :: "string \<Rightarrow> string" where
  "strip_lower s = lower (strip s)"

definition parse_style :: "string \<Rightarrow> styles" where
  "parse_style attr = foldl (\<lambda>st rule. case cut (CHR '':'') rule of
       None \<Rightarrow> st
     | Some (k, v) \<Rightarrow> dset st (strip_lower k) (strip_lower v)) [] (split_char (CHR '';'') attr)"

definition is_hidden :: "styles \<Rightarrow> string option" where
  "is_hidden st =
     (if dget st ''display'' \<in> {Some ''none'', Some ''inline-none''} then Some ''display:none''
      else if dget st ''visibility'' = Some ''hidden'' then Some ''visibility:hidden''
      else if dget st ''font-size'' \<in> {Some ''0'', Some ''0px'', Some ''0pt'', Some ''0em''} then Some ''font-size:0''
      else if dget st ''opacity'' \<in> {Some ''0'', Some ''0.0''} then Some ''opacity:0''
      else if contains ''left:-'' (dgetd st ''left'' []) \<or> contains ''top:-999'' (dgetd st ''top'' [])
      then Some ''off-screen positioning''
      else if dget st ''color'' = Some ''transparent'' then Some ''color:transparent''
      else if dgetd st ''color'' [] \<noteq> [] \<and> dget st ''color'' = dget st ''background-color''
      then Some ''color matching background''
      else None)"

text \<open>The parser's state; the top of a stack is its first element.\<close>

record evasion_state =
  visible_chunks :: "string list"
  hidden_chunks :: "string list"
  techniques :: "string list"
  style_stack :: "styles list"
  tag_stack :: "string list"

definition evasion_init :: evasion_state where
  "evasion_init = \<lparr>visible_chunks = [], hidden_chunks = [], techniques = [], style_stack = [], tag_stack = []\<rparr>"

text \<open>\<open>dict(attrs).get("style", "")\<close>: the last value given, \<^term>\<open>None\<close> for a bare attribute.\<close>

definition style_attr :: "(string \<times> string option) list \<Rightarrow> string option" where
  "style_attr attrs = (case map_of (rev attrs) ''style'' of None \<Rightarrow> Some [] | Some v \<Rightarrow> v)"

text \<open>A callback; \<^term>\<open>None\<close> where it raises, as \<open>None.split\<close> does.\<close>

fun evasion_event :: "html_event \<Rightarrow> evasion_state \<Rightarrow> evasion_state option" where
  "evasion_event (StartTag tag attrs) s = map_option
     (\<lambda>attr. s\<lparr>tag_stack := tag # tag_stack s, style_stack := parse_style attr # style_stack s\<rparr>)
     (style_attr attrs)"
| "evasion_event (EndTag tag) s = Some (s\<lparr>tag_stack := tl (tag_stack s), style_stack := tl (style_stack s)\<rparr>)"
| "evasion_event (Text d) s = Some
     (if strip d = [] then s
      else case List.map_filter is_hidden (style_stack s) of
        tech # _ \<Rightarrow> s\<lparr>hidden_chunks := hidden_chunks s @ [strip d], techniques := List.insert tech (techniques s)\<rparr>
      | [] \<Rightarrow> s\<lparr>visible_chunks := visible_chunks s @ [strip d]\<rparr>)"

fun evasion_run :: "html_event list \<Rightarrow> evasion_state \<Rightarrow> evasion_state option" where
  "evasion_run [] s = Some s"
| "evasion_run (e # es) s = Option.bind (evasion_event e s) (evasion_run es)"

record evasion_finding =
  has_evasion :: bool
  hidden_text :: string
  visible_text :: string
  evasion_techniques :: "string list"
  evasion_explanation :: string

definition no_evasion :: evasion_finding where
  "no_evasion = \<lparr>has_evasion = False, hidden_text = [], visible_text = [], evasion_techniques = [],
     evasion_explanation = []\<rparr>"

definition evasion_report :: "evasion_state \<Rightarrow> evasion_finding" where
  "evasion_report s =
     (let hidden = strip (join '' '' (hidden_chunks s)); techs = sort (techniques s);
          has = (hidden \<noteq> [] \<and> techs \<noteq> [])
      in \<lparr>has_evasion = has, hidden_text = hidden, visible_text = strip (join '' '' (visible_chunks s)),
          evasion_techniques = techs,
          evasion_explanation = (if has
            then ''HTML CSS evasion detected using '' @ join '', '' techs @ '' ('' @ nat_str (length hidden) @
              '' chars hidden text)'' else [])\<rparr>)"

definition detect_html_evasion :: "html_parser \<Rightarrow> string \<Rightarrow> evasion_finding" where
  "detect_html_evasion parse html =
     (if html = [] \<or> CHR ''<'' \<notin> set html then no_evasion
      else let (evs, raised) = parse html in
        case evasion_run evs evasion_init of
          None \<Rightarrow> no_evasion
        | Some s \<Rightarrow> if raised then no_evasion else evasion_report s)"

text \<open>
  The reference: a tree of elements and texts. A text is hidden if some element around it hides.
\<close>

datatype html_node =
    Element string "(string \<times> string option) list" "html_node list"
  | TextNode string

fun node_events :: "html_node \<Rightarrow> html_event list" where
  "node_events (Element tag attrs kids) = StartTag tag attrs # concat (map node_events kids) @ [EndTag tag]"
| "node_events (TextNode d) = [Text d]"

text \<open>The declarations of a \<open>style\<close> attribute; the last one of a property counts.\<close>

definition declarations :: "string \<Rightarrow> (string \<times> string) list" where
  "declarations attr = List.map_filter
     (\<lambda>rule. map_option (\<lambda>(k, v). (strip_lower k, strip_lower v)) (cut (CHR '':'') rule)) (split_char (CHR '';'') attr)"

definition declared :: "(string \<times> string option) list \<Rightarrow> string \<rightharpoonup> string" where
  "declared attrs = (case style_attr attrs of None \<Rightarrow> Map.empty | Some a \<Rightarrow> map_of (rev (declarations a)))"

definition concealing_values :: "(string \<times> string) list" where
  "concealing_values = [(''display'', ''none''), (''display'', ''inline-none''), (''visibility'', ''hidden''),
     (''font-size'', ''0''), (''font-size'', ''0px''), (''font-size'', ''0pt''), (''font-size'', ''0em''),
     (''opacity'', ''0''), (''opacity'', ''0.0''), (''color'', ''transparent'')]"

definition hides :: "(string \<times> string option) list \<Rightarrow> bool" where
  "hides attrs \<longleftrightarrow> list_ex (\<lambda>(p, v). declared attrs p = Some v) concealing_values \<or>
     (case declared attrs ''color'' of None \<Rightarrow> False | Some c \<Rightarrow> c \<noteq> [] \<and> declared attrs ''background-color'' = Some c)"

text \<open>Positioning off the screen, which the module means to detect too.\<close>

definition off_screen :: "(string \<times> string option) list \<Rightarrow> bool" where
  "off_screen attrs \<longleftrightarrow> (case declared attrs ''left'' of None \<Rightarrow> False | Some v \<Rightarrow> starts_with ''-'' v) \<or>
     (case declared attrs ''top'' of None \<Rightarrow> False | Some v \<Rightarrow> starts_with ''-999'' v)"

definition plain_offsets :: "(string \<times> string option) list \<Rightarrow> bool" where
  "plain_offsets attrs \<longleftrightarrow> (\<forall>v. declared attrs ''left'' = Some v \<or> declared attrs ''top'' = Some v \<longrightarrow> CHR '':'' \<notin> set v)"

lemma dget_parse_style: "dget (parse_style a) p = map_of (rev (declarations a)) p"
proof -
  have "dget (foldl (\<lambda>st rule. case cut (CHR '':'') rule of None \<Rightarrow> st
      | Some (k, v) \<Rightarrow> dset st (strip_lower k) (strip_lower v)) st rules) p =
    (case map_of (rev (List.map_filter (\<lambda>rule. map_option (\<lambda>(k, v). (strip_lower k, strip_lower v))
       (cut (CHR '':'') rule)) rules)) p of None \<Rightarrow> dget st p | Some v \<Rightarrow> Some v)" for st rules
    by (induction rules arbitrary: st) (auto simp: map_filter_simps map_add_def split: option.split)
  from this [of "[]"] show ?thesis by (simp add: parse_style_def declarations_def split: option.split)
qed

text \<open>What the code tests, beside the reference: its test for positions looks for a property name in a value.\<close>

lemma hidden_iff_hides:
  assumes "style_attr attrs = Some a" "plain_offsets attrs"
  shows "is_hidden (parse_style a) \<noteq> None \<longleftrightarrow> hides attrs"
proof -
  have d: "dget (parse_style a) p = declared attrs p" for p
    by (simp add: dget_parse_style declared_def assms(1))
  have "CHR '':'' \<in> set v" if "sublist ''left:-'' v \<or> sublist ''top:-999'' v" for v
    using that by (auto simp: sublist_def)
  then have "\<not> contains ''left:-'' (dgetd (parse_style a) ''left'' [])" "\<not> contains ''top:-999'' (dgetd (parse_style a) ''top'' [])"
    using assms(2) by (auto simp: dgetd_def d plain_offsets_def contains_iff split: option.splits)
  then show ?thesis
    by (auto simp: is_hidden_def hides_def d dgetd_def concealing_values_def split: option.split)
qed

fun node_texts :: "bool \<Rightarrow> html_node \<Rightarrow> (bool \<times> string) list" where
  "node_texts h (Element tag attrs kids) = concat (map (node_texts (h \<or> hides attrs)) kids)"
| "node_texts h (TextNode d) = (if strip d = [] then [] else [(h, strip d)])"

fun styles_valued :: "html_node \<Rightarrow> bool" where
  "styles_valued (Element tag attrs kids) = (style_attr attrs \<noteq> None \<and> plain_offsets attrs \<and> list_all styles_valued kids)"
| "styles_valued (TextNode d) = True"

definition hidden_of :: "(bool \<times> string) list \<Rightarrow> string list" where
  "hidden_of ts = map snd (filter fst ts)"

definition visible_of :: "(bool \<times> string) list \<Rightarrow> string list" where
  "visible_of ts = map snd (filter (Not \<circ> fst) ts)"

lemma hidden_of_simps [simp]: "hidden_of [] = []" "hidden_of (xs @ ys) = hidden_of xs @ hidden_of ys"
  "visible_of [] = []" "visible_of (xs @ ys) = visible_of xs @ visible_of ys"
  by (simp_all add: hidden_of_def visible_of_def)

lemma evasion_run_append:
  "evasion_run (es @ fs) s = (case evasion_run es s of None \<Rightarrow> None | Some s' \<Rightarrow> evasion_run fs s')"
  by (induction es arbitrary: s) (auto split: bind_splits option.split)

text \<open>
  \<open>es\<close> adds the texts \<open>ts\<close> to whatever state it starts in, and leaves the stacks as they were.
\<close>

definition adds :: "bool \<Rightarrow> html_event list \<Rightarrow> (bool \<times> string) list \<Rightarrow> bool" where
  "adds h es ts \<longleftrightarrow> (\<forall>s. (\<exists>st \<in> set (style_stack s). is_hidden st \<noteq> None) = h \<longrightarrow>
     (\<exists>techs. evasion_run es s = Some (s\<lparr>visible_chunks := visible_chunks s @ visible_of ts,
        hidden_chunks := hidden_chunks s @ hidden_of ts, techniques := techs\<rparr>) \<and>
       (techs = [] \<longleftrightarrow> techniques s = [] \<and> hidden_of ts = [])))"

lemma adds_Nil: "adds h [] []"
  by (simp add: adds_def) (metis evasion_state.surjective evasion_state.update_convs(3))

lemma adds_append:
  assumes "adds h es ts" "adds h fs us"
  shows "adds h (es @ fs) (ts @ us)"
  unfolding adds_def
proof (intro allI impI)
  fix s :: evasion_state assume h: "(\<exists>st \<in> set (style_stack s). is_hidden st \<noteq> None) = h"
  from assms(1) h obtain techs where
    1: "evasion_run es s = Some (s\<lparr>visible_chunks := visible_chunks s @ visible_of ts,
        hidden_chunks := hidden_chunks s @ hidden_of ts, techniques := techs\<rparr>)"
      "techs = [] \<longleftrightarrow> techniques s = [] \<and> hidden_of ts = []" unfolding adds_def by blast
  let ?s = "s\<lparr>visible_chunks := visible_chunks s @ visible_of ts,
        hidden_chunks := hidden_chunks s @ hidden_of ts, techniques := techs\<rparr>"
  have "(\<exists>st \<in> set (style_stack ?s). is_hidden st \<noteq> None) = h" using h by simp
  with assms(2) obtain techs' where
    "evasion_run fs ?s = Some (?s\<lparr>visible_chunks := visible_chunks ?s @ visible_of us,
        hidden_chunks := hidden_chunks ?s @ hidden_of us, techniques := techs'\<rparr>)"
      "techs' = [] \<longleftrightarrow> techniques ?s = [] \<and> hidden_of us = []" unfolding adds_def by blast
  with 1 show "\<exists>techs. evasion_run (es @ fs) s = Some (s\<lparr>visible_chunks := visible_chunks s @ visible_of (ts @ us),
        hidden_chunks := hidden_chunks s @ hidden_of (ts @ us), techniques := techs\<rparr>) \<and>
       (techs = [] \<longleftrightarrow> techniques s = [] \<and> hidden_of (ts @ us) = [])"
    by (auto simp: evasion_run_append)
qed

lemma adds_text: "adds h [Text d] (node_texts h (TextNode d))"
  unfolding adds_def
proof (intro allI impI)
  fix s :: evasion_state assume h: "(\<exists>st \<in> set (style_stack s). is_hidden st \<noteq> None) = h"
  let ?m = "List.map_filter is_hidden (style_stack s)"
  have m: "?m = [] \<longleftrightarrow> \<not> h"
    using h by (auto simp: map_filter_def filter_empty_conv)
  consider "strip d = []" | "strip d \<noteq> []" "?m = []" | tech r where "strip d \<noteq> []" "?m = tech # r"
    by (cases ?m) auto
  then show "\<exists>techs. evasion_run [Text d] s = Some (s\<lparr>visible_chunks := visible_chunks s @ visible_of (node_texts h (TextNode d)),
        hidden_chunks := hidden_chunks s @ hidden_of (node_texts h (TextNode d)), techniques := techs\<rparr>) \<and>
       (techs = [] \<longleftrightarrow> techniques s = [] \<and> hidden_of (node_texts h (TextNode d)) = [])"
  proof cases
    case 1
    then show ?thesis by (intro exI [of _ "techniques s"]) simp
  next
    case 2
    then show ?thesis using m
      by (intro exI [of _ "techniques s"]) (simp add: visible_of_def hidden_of_def)
  next
    case (3 tech r)
    then have "List.insert tech (techniques s) \<noteq> []" by (auto simp: List.insert_def)
    with 3 show ?thesis using m
      by (intro exI [of _ "List.insert tech (techniques s)"]) (simp add: visible_of_def hidden_of_def)
  qed
qed

lemma adds_element:
  assumes "adds (h \<or> hides attrs) es ts" "style_attr attrs = Some a" "plain_offsets attrs"
  shows "adds h (StartTag tag attrs # es @ [EndTag tag]) ts"
  unfolding adds_def
proof (intro allI impI)
  fix s :: evasion_state assume h: "(\<exists>st \<in> set (style_stack s). is_hidden st \<noteq> None) = h"
  let ?s = "s\<lparr>tag_stack := tag # tag_stack s, style_stack := parse_style a # style_stack s\<rparr>"
  have "(\<exists>st \<in> set (style_stack ?s). is_hidden st \<noteq> None) = (h \<or> hides attrs)"
    using h hidden_iff_hides [OF assms(2,3)] by auto
  with assms(1) obtain techs where
    "evasion_run es ?s = Some (?s\<lparr>visible_chunks := visible_chunks ?s @ visible_of ts,
        hidden_chunks := hidden_chunks ?s @ hidden_of ts, techniques := techs\<rparr>)"
      "techs = [] \<longleftrightarrow> techniques ?s = [] \<and> hidden_of ts = []" unfolding adds_def by blast
  then show "\<exists>techs. evasion_run (StartTag tag attrs # es @ [EndTag tag]) s =
      Some (s\<lparr>visible_chunks := visible_chunks s @ visible_of ts,
        hidden_chunks := hidden_chunks s @ hidden_of ts, techniques := techs\<rparr>) \<and>
       (techs = [] \<longleftrightarrow> techniques s = [] \<and> hidden_of ts = [])"
    by (intro exI [of _ techs]) (simp add: assms(2) evasion_run_append)
qed

lemma adds_node: "styles_valued n \<Longrightarrow> adds h (node_events n) (node_texts h n)"
proof (induction n arbitrary: h)
  case (Element tag attrs kids)
  from Element.prems obtain a where a: "style_attr attrs = Some a" by auto
  have "list_all styles_valued ks \<Longrightarrow> set ks \<subseteq> set kids \<Longrightarrow>
      adds h' (concat (map node_events ks)) (concat (map (node_texts h') ks))" for ks h'
    by (induction ks) (simp_all add: adds_Nil adds_append Element.IH)
  with Element.prems have "adds (h \<or> hides attrs) (concat (map node_events kids))
      (concat (map (node_texts (h \<or> hides attrs)) kids))" by simp
  from adds_element [OF this a, of tag] Element.prems show ?case by simp
next
  case (TextNode d)
  show ?case using adds_text [of h d] by simp
qed

lemma adds_nodes:
  "list_all styles_valued ns \<Longrightarrow> adds h (concat (map node_events ns)) (concat (map (node_texts h) ns))"
  by (induction ns) (simp_all add: adds_Nil adds_append adds_node)

text \<open>C38: For a document whose elements are closed in order, whose \<open>style\<close> attributes have values and whose
  \<open>left\<close> and \<open>top\<close> declarations are free of colons, the detector's two texts are those of the reference: what stands below an
  element that is concealed by its last declarations (display, visibility, font size, opacity, or a colour that is
  transparent or that of the background), and the rest; and it reports the document exactly if some text is
  hidden. So text placed off the screen counts as visible, although the module means to find it
  (\<open>off_screen_text_visible\<close>).\<close>
theorem evasion_matches_reference:
  assumes "parse html = (concat (map node_events ns), False)" "list_all styles_valued ns"
    and "CHR ''<'' \<in> set html"
  shows "hidden_text (detect_html_evasion parse html) =
      strip (join '' '' (hidden_of (concat (map (node_texts False) ns)))) \<and>
    visible_text (detect_html_evasion parse html) =
      strip (join '' '' (visible_of (concat (map (node_texts False) ns)))) \<and>
    has_evasion (detect_html_evasion parse html) =
      (strip (join '' '' (hidden_of (concat (map (node_texts False) ns)))) \<noteq> [])"
proof -
  have "adds False (concat (map node_events ns)) (concat (map (node_texts False) ns))"
    using assms(2) by (rule adds_nodes)
  moreover have "(\<exists>st \<in> set (style_stack evasion_init). is_hidden st \<noteq> None) = False"
    by (simp add: evasion_init_def)
  ultimately obtain techs where "evasion_run (concat (map node_events ns)) evasion_init =
      Some (evasion_init\<lparr>visible_chunks := visible_of (concat (map (node_texts False) ns)),
        hidden_chunks := hidden_of (concat (map (node_texts False) ns)), techniques := techs\<rparr>)"
      "techs = [] \<longleftrightarrow> hidden_of (concat (map (node_texts False) ns)) = []"
    unfolding adds_def by (metis append_Nil evasion_init_def evasion_state.select_convs(1,2,3))
  moreover have "strip (join '' '' []) = []" by (simp add: strip_def lstrip_by_def rstrip_by_def)
  moreover have "sort techs = [] \<longleftrightarrow> techs = []" by (metis length_0_conv length_sort)
  ultimately show ?thesis
    using assms(1,3) by (auto simp: detect_html_evasion_def evasion_report_def Let_def)
qed

text \<open>One bare \<open>style\<close> attribute anywhere switches the detector off.\<close>

lemma evasion_run_bare:
  "StartTag tag attrs \<in> set es \<Longrightarrow> style_attr attrs = None \<Longrightarrow> evasion_run es s = None"
  by (induction es arbitrary: s) (auto split: bind_splits)

lemma bare_style_hides_everything:
  assumes "StartTag tag attrs \<in> set (fst (parse html))" "style_attr attrs = None"
  shows "detect_html_evasion parse html = no_evasion"
  using evasion_run_bare [OF assms] by (auto simp: detect_html_evasion_def split: prod.splits)

text \<open>A closing tag without an opening one reveals hidden text to the detector; a browser ignores it.\<close>

lemma stray_end_tag_reveals:
  assumes "parse html = ([StartTag t [(''style'', Some ''display:none'')], EndTag x, Text d, EndTag t], False)"
  shows "\<not> has_evasion (detect_html_evasion parse html)"
  using assms
  by (auto simp: detect_html_evasion_def style_attr_def evasion_init_def evasion_report_def map_filter_simps
      no_evasion_def Let_def strip_def lstrip_by_def rstrip_by_def)

text \<open>Positioning off the screen is what the module's docstring lists among its targets; the test never sees it.\<close>

definition off_screen_document :: "html_node list" where
  "off_screen_document = [Element ''div'' [(''style'', Some ''position:absolute; left:-9999px'')] [TextNode ''wire transfer'']]"

lemma off_screen_text_visible:
  assumes "parse html = (concat (map node_events off_screen_document), False)" "CHR ''<'' \<in> set html"
  shows "off_screen [(''style'', Some ''position:absolute; left:-9999px'')]"
    and "\<not> has_evasion (detect_html_evasion parse html)" "visible_text (detect_html_evasion parse html) = ''wire transfer''"
proof -
  show "off_screen [(''style'', Some ''position:absolute; left:-9999px'')]" by code_simp
  have "evasion_run (concat (map node_events off_screen_document)) evasion_init =
    Some (evasion_init\<lparr>visible_chunks := [''wire transfer'']\<rparr>)" by code_simp
  moreover have "strip (join '' '' [''wire transfer'']) = ''wire transfer''" "strip (join '' '' []) = []" by code_simp+
  ultimately show "\<not> has_evasion (detect_html_evasion parse html)" "visible_text (detect_html_evasion parse html) = ''wire transfer''"
    using assms by (auto simp: detect_html_evasion_def evasion_report_def evasion_init_def Let_def)
qed

text \<open>A void element (\<open><br>\<close>) has no end tag, but stays on the stack: the end tag of the element around it removes
  it instead, and that element's style hides, for the detector, what follows it.\<close>

lemma void_tag_shifts_stack:
  assumes "parse html = ([StartTag ''p'' [(''style'', Some ''display:none'')], Text ''a'', StartTag ''br'' [], Text ''b'',
      EndTag ''p'', Text ''c''], False)" "CHR ''<'' \<in> set html"
  shows "hidden_text (detect_html_evasion parse html) = ''a b c''"
proof -
  have "map_option hidden_chunks (evasion_run [StartTag ''p'' [(''style'', Some ''display:none'')], Text ''a'', StartTag ''br'' [],
      Text ''b'', EndTag ''p'', Text ''c''] evasion_init) = Some [''a'', ''b'', ''c'']" by code_simp
  moreover have "strip (join '' '' [''a'', ''b'', ''c'']) = ''a b c''" by code_simp
  ultimately show ?thesis
    using assms by (auto simp: detect_html_evasion_def evasion_report_def Let_def)
qed

text \<open>A font one pixel high and deeply nested elements, which \<open>docs/modules/content_analysis.md\<close> lists, are no evasion.\<close>

lemma one_pixel_font_visible: "\<not> hides [(''style'', Some ''font-size:1px'')]"
  by code_simp

subsection \<open>Text of an HTML document\<close>

definition data_chunks :: "html_event list \<Rightarrow> string list" where
  "data_chunks evs = List.map_filter (\<lambda>e. case e of Text d \<Rightarrow> Some d | _ \<Rightarrow> None) evs"

text \<open>\<open>re.sub(r"\s+", " ", s)\<close>\<close>

fun squeeze :: "bool \<Rightarrow> string \<Rightarrow> string" where
  "squeeze in_run [] = []"
| "squeeze in_run (c # s) =
     (if is_space c then (if in_run then squeeze True s else CHR '' '' # squeeze True s)
      else c # squeeze False s)"

definition html_to_text :: "html_parser \<Rightarrow> string \<Rightarrow> string" where
  "html_to_text parse html = (let (evs, raised) = parse html in
     if raised then html else strip (squeeze False (join '' '' (data_chunks evs))))"

definition hidden_example :: "html_node list" where
  "hidden_example = [Element ''div'' [(''style'', Some ''display: none'')] [TextNode '' wire transfer ''], TextNode ''Hello'']"

definition example_parser :: html_parser where
  "example_parser html = (concat (map node_events hidden_example), False)"

theorem evasion_matches_reference_witness:
  "hidden_text (detect_html_evasion example_parser ''<div>'') = ''wire transfer'' \<and>
   visible_text (detect_html_evasion example_parser ''<div>'') = ''Hello''"
proof -
  have "list_all styles_valued hidden_example"
  proof -
    have "declared [(''style'', Some ''display: none'')] = [''display'' \<mapsto> ''none'']"
    proof -
      have "declarations ''display: none'' = [(''display'', ''none'')]" by code_simp
      then show ?thesis by (simp add: declared_def style_attr_def)
    qed
    then show ?thesis by (simp add: hidden_example_def style_attr_def plain_offsets_def)
  qed
  moreover have "strip (join '' '' (hidden_of (concat (map (node_texts False) hidden_example)))) = ''wire transfer''"
    "strip (join '' '' (visible_of (concat (map (node_texts False) hidden_example)))) = ''Hello''"
    by code_simp+
  ultimately show ?thesis
    using evasion_matches_reference [of example_parser "''<div>''" hidden_example]
    by (simp add: example_parser_def)
qed

subsection \<open>Correspondents\<close>

record relationship_finding =
  is_first_contact_pair :: bool
  is_thread_hijack :: bool
  financial_change_detected :: bool
  rel_score :: int
  rel_explanation :: string

definition no_relationship :: relationship_finding where
  "no_relationship = \<lparr>is_first_contact_pair = False, is_thread_hijack = False,
     financial_change_detected = False, rel_score = 0, rel_explanation = []\<rparr>"

text \<open>The count and the time of the first contact, by pair.\<close>

type_synonym relationship_store = "(string, int \<times> rat) dict"

definition pair_key :: "string \<Rightarrow> string \<Rightarrow> string" where
  "pair_key sender recipient = strip_lower sender @ ''->'' @ strip_lower recipient"

definition get_pair_history :: "relationship_store \<Rightarrow> string \<Rightarrow> string \<Rightarrow> int \<times> rat" where
  "get_pair_history st sender recipient = dgetd st (pair_key sender recipient) (0, 0)"

definition record_interaction :: "relationship_store \<Rightarrow> rat \<Rightarrow> string \<Rightarrow> string \<Rightarrow> relationship_store" where
  "record_interaction st now sender recipient =
     (let key = pair_key sender recipient in
      case dget st key of
        None \<Rightarrow> dset st key (1, now)
      | Some (count, first_seen) \<Rightarrow> dset st key (count + 1, first_seen))"

definition words_re :: "string list \<Rightarrow> re" where
  "words_re ss = alts (map lit ss)"

definition financial_change_patterns :: "re list" where
  "financial_change_patterns =
     [seqs [lit ''new bank '', words_re [''account'', ''details'', ''information'']],
      seqs [lit ''changed '', Opt (lit ''our ''), lit ''bank '', words_re [''account'', ''details'']],
      seqs [lit ''updated '', words_re [''wire'', ''payment''], sp, words_re [''instructions'', ''details'']],
      seqs [lit ''payment '', words_re [''to'', ''via''], sp, words_re [''new'', ''different''], sp,
        words_re [''account'', ''iban'', ''routing'']],
      seqs [WordBoundary, words_re [''iban'', ''swift'', ''routing number'', ''sort code''], WordBoundary]]"

definition is_reply_thread :: "string \<Rightarrow> string \<Rightarrow> string \<Rightarrow> bool" where
  "is_reply_thread in_reply_to references body =
     (strip in_reply_to \<noteq> [] \<or> strip references \<noteq> [] \<or> contains ''re:'' (take 30 (lower body)))"

definition relationship_check ::
  "relationship_store \<Rightarrow> rat \<Rightarrow> string \<Rightarrow> string \<Rightarrow> string \<Rightarrow> string \<Rightarrow> string \<Rightarrow>
   relationship_finding \<times> relationship_store" where
  "relationship_check st now sender recipient in_reply_to references body =
     (if sender = [] \<or> recipient = [] then (no_relationship, st)
      else
        let first_contact = (fst (get_pair_history st sender recipient) = 0);
            st' = record_interaction st now sender recipient;
            reply = is_reply_thread in_reply_to references body;
            change = (reply \<and> body \<noteq> [] \<and> list_ex (\<lambda>r. found r (lower body)) financial_change_patterns);
            hijack = (reply \<and> change)
        in (\<lparr>is_first_contact_pair = first_contact, is_thread_hijack = hijack,
              financial_change_detected = change,
              rel_score = (if hijack then 40 else if first_contact then 10 else 0),
              rel_explanation =
                (if hijack then ''Thread-hijacking BEC pattern: financial payment detail change in reply thread''
                 else if first_contact
                 then ''First-contact interaction between '' @ sender @ '' and '' @ recipient else [])\<rparr>, st'))"

text \<open>Only the first message of a pair is a first contact, whatever else is recorded in between.\<close>

fun interactions :: "relationship_store \<Rightarrow> (rat \<times> string \<times> string) list \<Rightarrow> relationship_store" where
  "interactions st [] = st"
| "interactions st ((now, a, b) # es) = interactions (record_interaction st now a b) es"

lemma record_count:
  "fst (get_pair_history (record_interaction st now a b) c d) =
     fst (get_pair_history st c d) + (if pair_key c d = pair_key a b then 1 else 0)"
  by (auto simp: record_interaction_def get_pair_history_def dgetd_def Let_def split: option.splits)

lemma interactions_count:
  "fst (get_pair_history (interactions st es) c d) = fst (get_pair_history st c d) +
     int (length (filter (\<lambda>(_, a, b). pair_key a b = pair_key c d) es))"
  by (induction st es rule: interactions.induct) (auto simp: record_count)

lemma first_contact_iff:
  assumes "s \<noteq> []" "r \<noteq> []"
  shows "is_first_contact_pair (fst (relationship_check (interactions [] es) now s r irt refs body)) \<longleftrightarrow>
    (\<forall>(_, a, b) \<in> set es. pair_key a b \<noteq> pair_key s r)"
  using assms interactions_count [of "[]" es s r]
  by (auto simp: relationship_check_def Let_def get_pair_history_def filter_empty_conv split: prod.splits)

subsection \<open>The classifier\<close>

definition urgency_tokens :: "string list" where
  "urgency_tokens = [''urgent'', ''immediately'', ''asap'', ''suspended'', ''verify'', ''expire'',
     ''action required'', ''alert'', ''security'']"

definition financial_tokens :: "string list" where
  "financial_tokens = [''invoice'', ''payment'', ''wire'', ''transfer'', ''bank'', ''account'', ''fund'',
     ''payroll'', ''gift card'', ''routing'']"

definition action_tokens :: "string list" where
  "action_tokens = [''click here'', ''login'', ''confirm'', ''update'', ''sign in'', ''verify now'', ''access'']"

record ml_finding =
  phishing_probability :: rat
  is_phishing :: bool
  ml_score :: int
  ml_explanation :: string

definition no_ml :: ml_finding where
  "no_ml = \<lparr>phishing_probability = 0, is_phishing = False, ml_score = 0, ml_explanation = []\<rparr>"

definition hits :: "string list \<Rightarrow> string list \<Rightarrow> nat" where
  "hits tokens ws = length (filter (\<lambda>w. w \<in> set tokens) ws)"

definition logits :: "string \<Rightarrow> nat \<Rightarrow> bool \<Rightarrow> rat" where
  "logits text url_count first_contact =
     (let t = lower text; ws = word_runs is_word t;
          action_hits = length (filter (\<lambda>p. contains p t) action_tokens)
      in - 7 / 2 + of_nat (hits urgency_tokens ws) * (8 / 10) + of_nat (hits financial_tokens ws) * (9 / 10) +
         of_nat action_hits * (12 / 10) + (if url_count > 0 then 1 else 0) + (if first_contact then 8 / 10 else 0))"

text \<open>\<open>mexp\<close> is \<open>math.exp\<close>.\<close>

definition predict_phishing_probability ::
  "(rat \<Rightarrow> rat) \<Rightarrow> string \<Rightarrow> nat \<Rightarrow> bool \<Rightarrow> ml_finding" where
  "predict_phishing_probability mexp text url_count first_contact =
     (if strip text = [] then no_ml
      else
        let prob = 1 / (1 + mexp (- logits text url_count first_contact));
            phishing = (prob \<ge> 70 / 100)
        in \<lparr>phishing_probability = round_to 4 prob, is_phishing = phishing,
            ml_score = (if phishing then 25 else if prob \<ge> 50 / 100 then 10 else 0),
            ml_explanation =
              (if phishing then ''ML classifier: high phishing intent probability ('' @ percent_str prob @ '')''
               else if prob \<ge> 50 / 100
               then ''ML classifier: moderate suspicious intent probability ('' @ percent_str prob @ '')'' else [])\<rparr>)"

lemma word_runs_words: "w \<in> set (word_runs P t) \<Longrightarrow> list_all P w"
proof (induction P t rule: word_runs.induct)
  case (1 P t)
  show ?case
  proof (cases "dropWhile (\<lambda>c. \<not> P c) t")
    case Nil
    with 1(2) show ?thesis by (simp add: word_runs.simps [of P t])
  next
    case (Cons c r)
    with 1(2) have "w = takeWhile P (c # r) \<or> w \<in> set (word_runs P (dropWhile P (c # r)))"
      by (subst (asm) word_runs.simps) simp
    then show ?thesis
    proof
      assume "w = takeWhile P (c # r)"
      then show ?thesis by (simp add: list_all_iff del: takeWhile.simps) (meson set_takeWhileD)
    next
      assume "w \<in> set (word_runs P (dropWhile P (c # r)))"
      with 1(1) [OF Cons] show ?thesis by simp
    qed
  qed
qed

text \<open>A token of two words never counts: the words of a text hold no space.\<close>

lemma spaced_token_never_hits:
  assumes "CHR '' '' \<in> set tok"
  shows "hits (tok # toks) (word_runs is_word t) = hits toks (word_runs is_word t)"
proof -
  have "\<not> is_word (CHR '' '')" by code_simp
  then have "w \<noteq> tok" if "w \<in> set (word_runs is_word t)" for w
    using word_runs_words [OF that] assms by (auto simp: list_all_iff)
  then show ?thesis unfolding hits_def by (intro arg_cong [of _ _ length] filter_cong) auto
qed

text \<open>The score follows the logits: with a decreasing exponential of the negated logits, a message with
  higher logits never scores less.\<close>

lemma ml_score_mono:
  assumes "\<And>x y. x \<le> y \<Longrightarrow> mexp (- y) \<le> mexp (- x)" "\<And>x. 0 < mexp x"
    and "strip t1 \<noteq> []" "strip t2 \<noteq> []" "logits t1 n1 f1 \<le> logits t2 n2 f2"
  shows "ml_score (predict_phishing_probability mexp t1 n1 f1) \<le> ml_score (predict_phishing_probability mexp t2 n2 f2)"
proof -
  have "mexp (- logits t2 n2 f2) \<le> mexp (- logits t1 n1 f1)" using assms(1,5) by blast
  then have "1 / (1 + mexp (- logits t1 n1 f1)) \<le> 1 / (1 + mexp (- logits t2 n2 f2))"
    using assms(2) by (intro divide_left_mono mult_pos_pos add_pos_pos) simp_all
  then show ?thesis using assms(3,4) by (simp add: predict_phishing_probability_def Let_def)
qed

subsection \<open>Images\<close>

text \<open>
  What the image libraries make of a payload: the texts of its QR codes, \<^term>\<open>Inr None\<close> where they are
  not installed, \<^term>\<open>Inl ()\<close> where they raise; the text Tesseract reads, \<^term>\<open>None\<close> where it is not
  installed or raises; and the payload read as UTF-8 with errors ignored.
\<close>

record image_libs =
  decode_qr :: "string \<Rightarrow> unit + string list option"
  read_text :: "string \<Rightarrow> string option"
  decode_utf8 :: "string \<Rightarrow> string"

record qr_finding =
  has_qr_code :: bool
  decoded_urls :: "string list"
  qr_explanation :: string

definition stream_url_re :: re where
  "stream_url_re = seqs [lit ''http'', Opt (lit ''s''), lit ''://'',
     plus (Sat (\<lambda>c. \<not> is_space c \<and> c \<notin> set [CHR ''<'', CHR ''>'', CHR 0x22, CHR 0x27]))]"

definition is_qr_url :: "string \<Rightarrow> bool" where
  "is_qr_url d = list_ex (\<lambda>p. starts_with p (lower d)) [''http://'', ''https://'', ''www.'']"

definition add_new :: "string list \<Rightarrow> string \<Rightarrow> string list" where
  "add_new us m = (if m \<in> set us then us else us @ [m])"

definition scan_qr :: "image_libs \<Rightarrow> string list \<Rightarrow> string \<Rightarrow> string list" where
  "scan_qr libs urls img =
     (if img = [] then urls
      else case decode_qr libs img of
        Inl _ \<Rightarrow> urls
      | Inr (Some results) \<Rightarrow> urls @ filter is_qr_url (map strip results)
      | Inr None \<Rightarrow> (let s = decode_utf8 libs img in foldl add_new urls (map (group0 s) (find_all stream_url_re s))))"

definition detect_qr_codes :: "image_libs \<Rightarrow> string list \<Rightarrow> qr_finding" where
  "detect_qr_codes libs images =
     (let urls = foldl (scan_qr libs) [] images
      in \<lparr>has_qr_code = (urls \<noteq> []), decoded_urls = urls,
          qr_explanation = (if urls \<noteq> []
            then ''Quishing (QR-code phishing) detected: '' @ nat_str (length urls) @ '' embedded QR URL(s) extracted''
            else [])\<rparr>)"

record ocr_finding =
  has_text :: bool
  extracted_text :: string
  ocr_explanation :: string

definition is_printable :: "char \<Rightarrow> bool" where
  "is_printable c = (let n = (of_char c :: nat) in (32 \<le> n \<and> n \<le> 126) \<or> n = 10 \<or> n = 13)"

text \<open>The words of the printable bytes of a payload; at least five of them make a text.\<close>

definition printable_words :: "string \<Rightarrow> string list" where
  "printable_words img = filter (\<lambda>w. length w > 3 \<and> list_all is_ascii_letter w) (words (filter is_printable img))"

definition ocr_chunk :: "image_libs \<Rightarrow> string \<Rightarrow> string list" where
  "ocr_chunk libs img =
     (if img = [] then []
      else case read_text libs img of
        Some t \<Rightarrow> if strip t \<noteq> [] then [strip t] else []
      | None \<Rightarrow> (let ws = printable_words img in if length ws \<ge> 5 then [join '' '' (take 20 ws)] else []))"

definition scan_image_ocr :: "image_libs \<Rightarrow> string list \<Rightarrow> ocr_finding" where
  "scan_image_ocr libs images =
     (let full = strip (join [CHR 0x0A] (concat (map (ocr_chunk libs) images)))
      in \<lparr>has_text = (full \<noteq> []), extracted_text = full,
          ocr_explanation = (if full \<noteq> []
            then ''OCR extracted '' @ nat_str (length full) @ '' characters of text from image(s)'' else [])\<rparr>)"

end
