(* ===== verification/Reputation.thy ===== *)
theory Reputation
  imports Resilience KVStore Parsers
begin

text \<open>
  \<open>content_analysis/reputation.py\<close> and \<open>caching.py\<close>: the age of a domain and the reputation of a URL,
  asked of a remote service behind the retry decorator and a circuit breaker, and the wrapper that
  keeps the answers in the key-value store. The HTTP client is a function of the URL requested and the
  outside world; \<open>datetime.fromisoformat\<close> is a parameter.
\<close>

subsection \<open>A guarded request\<close>

text \<open>\<open>httpx\<close> raises \<open>RequestError\<close>s, which are retried, and a few others; a reply has a status and the
  value of \<open>json()\<close>, \<^term>\<open>None\<close> where that raises \<open>ValueError\<close>.\<close>

datatype http_exn = RequestError string | OtherHttpError string

record reply =
  reply_status :: int
  reply_json :: "json option"

fun is_request_error :: "http_exn \<Rightarrow> bool" where
  "is_request_error (RequestError _) = True"
| "is_request_error (OtherHttpError _) = False"

text \<open>What a call draws from outside: the time it starts and fails, and the jitter of its retries.\<close>

record moment =
  mo_now :: rat
  mo_fail :: rat
  mo_jitter :: "nat \<Rightarrow> rat"

record 'w upstream =
  up_breaker :: circuit_breaker
  up_world :: 'w

datatype outage = Circuit_Open | Retries_Exhausted | Escapes http_exn

definition lookup_policy :: retry_policy where
  "lookup_policy = \<lparr>max_attempts = 3, base_delay = 1 / 4, max_delay = 5\<rparr>"

definition outage_of :: "http_exn retry_error call_error \<Rightarrow> outage" where
  "outage_of e = (case e of
       CircuitOpenError _ _ \<Rightarrow> Circuit_Open
     | Raised (RetryExhausted _ _) \<Rightarrow> Retries_Exhausted
     | Raised (Propagated x) \<Rightarrow> Escapes x)"

text \<open>\<open>await breaker.call(_fetch)\<close> with \<open>_fetch\<close> decorated by \<open>with_retry\<close>.\<close>

definition guarded_fetch ::
  "('w \<Rightarrow> (http_exn + reply) \<times> 'w) \<Rightarrow> moment \<Rightarrow> 'w upstream \<Rightarrow> (outage + reply) \<times> 'w upstream" where
  "guarded_fetch request mo st =
     (let (r, cb, w) = cb_call (up_breaker st) (mo_now mo) (mo_fail mo)
            (\<lambda>w. let (r, _, w') = with_retry lookup_policy is_request_error (mo_jitter mo) request w in (r, w'))
            (up_world st)
      in (case r of Inl e \<Rightarrow> Inl (outage_of e) | Inr x \<Rightarrow> Inr x, \<lparr>up_breaker = cb, up_world = w\<rparr>))"

text \<open>An exception of the client the providers do not catch.\<close>

definition escaped :: "http_exn \<Rightarrow> py_exn" where
  "escaped x = (case x of RequestError m \<Rightarrow> OtherError m | OtherHttpError m \<Rightarrow> OtherError m)"

subsection \<open>Domain age\<close>

datatype iso_date = Naive | Aware rat

definition attribute_error :: py_exn where
  "attribute_error = OtherError ''AttributeError''"

text \<open>\<open>max(0, (now - registered).days)\<close>: a naive date cannot be subtracted, and \<open>replace\<close> is a method of
  texts only.\<close>

definition registered_age :: "(string \<Rightarrow> iso_date option) \<Rightarrow> rat \<Rightarrow> json option \<Rightarrow> int option result" where
  "registered_age fromiso now d = (case d of
       Some (JStr s) \<Rightarrow>
         (case fromiso (replace_str ''Z'' ''+00:00'' s) of
            Some (Aware t) \<Rightarrow> Inr (Some (max 0 \<lfloor>(now - t) / 86400\<rfloor>))
          | _ \<Rightarrow> Inr None)
     | Some _ \<Rightarrow> Inl attribute_error
     | None \<Rightarrow> Inr None)"

fun rdap_events :: "(string \<Rightarrow> iso_date option) \<Rightarrow> rat \<Rightarrow> json list \<Rightarrow> int option result" where
  "rdap_events fromiso now [] = Inr None"
| "rdap_events fromiso now (JDict ev # evs) =
     (if dget ev ''eventAction'' = Some (JStr ''registration'')
      then registered_age fromiso now (dget ev ''eventDate'')
      else rdap_events fromiso now evs)"
| "rdap_events fromiso now (_ # evs) = Inl attribute_error"

text \<open>\<open>for event in data.get("events", [])\<close>: a text or a dictionary yields texts, other values raise
  \<open>TypeError\<close>, which is caught; \<open>get\<close> of a document that is no dictionary raises uncaught.\<close>

definition rdap_age :: "(string \<Rightarrow> iso_date option) \<Rightarrow> rat \<Rightarrow> json \<Rightarrow> int option result" where
  "rdap_age fromiso now data = (case data of
       JDict d \<Rightarrow> (case dgetd d ''events'' (JList []) of
           JList evs \<Rightarrow> rdap_events fromiso now evs
         | JStr s \<Rightarrow> if s = [] then Inr None else Inl attribute_error
         | JDict e \<Rightarrow> if e = [] then Inr None else Inl attribute_error
         | _ \<Rightarrow> Inr None)
     | _ \<Rightarrow> Inl attribute_error)"

definition rdap_check ::
  "(string \<Rightarrow> iso_date option) \<Rightarrow> (string \<Rightarrow> 'w \<Rightarrow> (http_exn + reply) \<times> 'w) \<Rightarrow>
   moment \<Rightarrow> string \<Rightarrow> 'w upstream \<Rightarrow> int option result \<times> 'w upstream" where
  "rdap_check fromiso http mo d st =
     (case guarded_fetch (http (''https://rdap.org/domain/'' @ d)) mo st of
        (Inl (Escapes x), st') \<Rightarrow> (Inl (escaped x), st')
      | (Inl _, st') \<Rightarrow> (Inr None, st')
      | (Inr resp, st') \<Rightarrow>
          (if reply_status resp \<noteq> 200 then Inr None
           else case reply_json resp of None \<Rightarrow> Inr None | Some j \<Rightarrow> rdap_age fromiso (mo_now mo) j, st'))"

subsection \<open>URL reputation\<close>

definition verdicts :: "string list" where
  "verdicts = [''malicious'', ''suspicious'', ''clean'', ''unknown'']"

definition null_check :: "moment \<Rightarrow> string \<Rightarrow> 's \<Rightarrow> (string \<times> string) result \<times> 's" where
  "null_check mo url st = (Inr (''unknown'', ''no reputation provider configured''), st)"

text \<open>\<open>base64.urlsafe_b64encode(url.encode()).decode().strip("=")\<close>\<close>

definition urlsafe_char :: "char \<Rightarrow> char" where
  "urlsafe_char c = (if c = CHR ''+'' then CHR ''-'' else if c = CHR ''/'' then CHR ''_'' else c)"

definition url_id :: "string \<Rightarrow> string" where
  "url_id url = strip_char (CHR ''='') (map urlsafe_char (b64_encode (utf8 url)))"

text \<open>\<open>j[k]\<close>; and \<open>j.get(k, 0) > 0\<close>.\<close>

definition jindex :: "json \<Rightarrow> string \<Rightarrow> json result" where
  "jindex j k = (case j of
       JDict d \<Rightarrow> (case dget d k of Some v \<Rightarrow> Inr v | None \<Rightarrow> Inl (KeyError k))
     | _ \<Rightarrow> Inl (TypeError ''not subscriptable by a string''))"

fun positive :: "json \<Rightarrow> bool result" where
  "positive (JBool b) = Inr b"
| "positive (JInt i) = Inr (i > 0)"
| "positive (JNum x) = Inr (x > 0)"
| "positive _ = Inl (TypeError ''unorderable types'')"

definition stat_positive :: "json \<Rightarrow> string \<Rightarrow> bool result" where
  "stat_positive stats k = bind (jget stats k (JInt 0)) positive"

definition vt_stats :: "json option \<Rightarrow> json result" where
  "vt_stats j = (case j of
       None \<Rightarrow> Inl (ValueError ''no JSON'')
     | Some v \<Rightarrow> bind (jindex v ''data'') (\<lambda>d. bind (jindex d ''attributes'') (\<lambda>a. jindex a ''last_analysis_stats'')))"

definition vt_verdict :: "json option \<Rightarrow> (string \<times> string) result" where
  "vt_verdict j = (case vt_stats j of
       Inl (ValueError _) \<Rightarrow> Inr (''unknown'', ''virustotal (unexpected response shape)'')
     | Inl (KeyError _) \<Rightarrow> Inr (''unknown'', ''virustotal (unexpected response shape)'')
     | Inl e \<Rightarrow> Inl e
     | Inr stats \<Rightarrow>
         bind (stat_positive stats ''malicious'') (\<lambda>m.
         if m then Inr (''malicious'', ''virustotal'')
         else bind (stat_positive stats ''suspicious'') (\<lambda>s.
           Inr (if s then ''suspicious'' else ''clean'', ''virustotal''))))"

definition vt_check ::
  "string \<Rightarrow> (string \<Rightarrow> 'w \<Rightarrow> (http_exn + reply) \<times> 'w) \<Rightarrow>
   moment \<Rightarrow> string \<Rightarrow> 'w upstream \<Rightarrow> (string \<times> string) result \<times> 'w upstream" where
  "vt_check api_key http mo url st =
     (if api_key = [] then (Inr (''unknown'', ''virustotal (no API key configured)''), st)
      else case guarded_fetch (http (''https://www.virustotal.com/api/v3/urls/'' @ url_id url)) mo st of
        (Inl Circuit_Open, st') \<Rightarrow>
          (Inr (''unknown'', ''virustotal (circuit open -- too many recent failures, skipping call)''), st')
      | (Inl Retries_Exhausted, st') \<Rightarrow> (Inr (''unknown'', ''virustotal (lookup error after retries)''), st')
      | (Inl (Escapes x), st') \<Rightarrow> (Inl (escaped x), st')
      | (Inr resp, st') \<Rightarrow>
          (if reply_status resp = 404
           then Inr (''unknown'', ''virustotal (not yet analyzed -- consider submitting it)'')
           else if reply_status resp \<noteq> 200
           then Inr (''unknown'', ''virustotal (http '' @ int_str (reply_status resp) @ '')'')
           else vt_verdict (reply_json resp), st'))"

definition gsb_verdict :: "json option \<Rightarrow> (string \<times> string) result" where
  "gsb_verdict j = (case j of
       None \<Rightarrow> Inr (''unknown'', ''safe_browsing (unexpected response shape)'')
     | Some v \<Rightarrow> bind (jget v ''matches'' JNull) (\<lambda>m.
         Inr (if truthy m then ''malicious'' else ''clean'', ''safe_browsing'')))"

text \<open>The body posted is made from the URL and otherwise fixed; \<open>post\<close> gets the address and the URL.\<close>

definition gsb_check ::
  "string \<Rightarrow> (string \<Rightarrow> string \<Rightarrow> 'w \<Rightarrow> (http_exn + reply) \<times> 'w) \<Rightarrow>
   moment \<Rightarrow> string \<Rightarrow> 'w upstream \<Rightarrow> (string \<times> string) result \<times> 'w upstream" where
  "gsb_check api_key post mo url st =
     (if api_key = [] then (Inr (''unknown'', ''safe_browsing (no API key configured)''), st)
      else case guarded_fetch
          (post (''https://safebrowsing.googleapis.com/v4/threatMatches:find?key='' @ api_key) url) mo st of
        (Inl Circuit_Open, st') \<Rightarrow>
          (Inr (''unknown'', ''safe_browsing (circuit open -- too many recent failures, skipping call)''), st')
      | (Inl Retries_Exhausted, st') \<Rightarrow> (Inr (''unknown'', ''safe_browsing (lookup error after retries)''), st')
      | (Inl (Escapes x), st') \<Rightarrow> (Inl (escaped x), st')
      | (Inr resp, st') \<Rightarrow>
          (if reply_status resp \<noteq> 200
           then Inr (''unknown'', ''safe_browsing (http '' @ int_str (reply_status resp) @ '')'')
           else gsb_verdict (reply_json resp), st'))"

subsection \<open>The caches\<close>

definition age_key :: "string \<Rightarrow> string" where
  "age_key d = ''domain_age:'' @ d"

definition cached_age ::
  "(moment \<Rightarrow> string \<Rightarrow> 's \<Rightarrow> int option result \<times> 's) \<Rightarrow> int \<Rightarrow> moment \<Rightarrow> string \<Rightarrow>
   store \<times> 's \<Rightarrow> int option result \<times> store \<times> 's" where
  "cached_age wrapped ttl mo d = (\<lambda>(kv, st).
     (case mem_get kv (mo_now mo) (age_key d) of
        (Some c, kv1) \<Rightarrow>
          (if c = [] then Inr None
           else case py_int c of Some n \<Rightarrow> Inr (Some n) | None \<Rightarrow> Inl (int_error c), kv1, st)
      | (None, kv1) \<Rightarrow>
          (case wrapped mo d st of
             (Inl e, st') \<Rightarrow> (Inl e, kv1, st')
           | (Inr None, st') \<Rightarrow> (Inr None, mem_set kv1 (mo_now mo) (age_key d) [] (Some (min 300 ttl)), st')
           | (Inr (Some n), st') \<Rightarrow>
               (Inr (Some n), mem_set kv1 (mo_now mo) (age_key d) (int_str n) (Some ttl), st'))))"

definition reputation_key :: "string \<Rightarrow> string" where
  "reputation_key url = ''url_reputation:'' @ url"

abbreviation nul :: char where
  "nul \<equiv> CHR 0x00"

definition cached_check ::
  "(moment \<Rightarrow> string \<Rightarrow> 's \<Rightarrow> (string \<times> string) result \<times> 's) \<Rightarrow> int \<Rightarrow> moment \<Rightarrow> string \<Rightarrow>
   store \<times> 's \<Rightarrow> (string \<times> string) result \<times> store \<times> 's" where
  "cached_check wrapped ttl mo url = (\<lambda>(kv, st).
     (case mem_get kv (mo_now mo) (reputation_key url) of
        (Some c, kv1) \<Rightarrow>
          (let (verdict, source) = (case cut nul c of Some p \<Rightarrow> p | None \<Rightarrow> (c, []))
           in (Inr (verdict, source @ '' (cached)''), kv1, st))
      | (None, kv1) \<Rightarrow>
          (case wrapped mo url st of
             (Inl e, st') \<Rightarrow> (Inl e, kv1, st')
           | (Inr (verdict, source), st') \<Rightarrow>
               (Inr (verdict, source),
                mem_set kv1 (mo_now mo) (reputation_key url) (verdict @ nul # source)
                  (Some (if verdict \<noteq> ''unknown'' then ttl else min 120 ttl)), st'))))"

subsection \<open>What a provider promises\<close>

text \<open>\<open>check_url\<close> answers one of the four verdicts, in every state it can get into.\<close>

locale reputation_provider =
  fixes check :: "moment \<Rightarrow> string \<Rightarrow> 's \<Rightarrow> (string \<times> string) result \<times> 's"
    and inv :: "'s \<Rightarrow> bool"
  assumes verdict: "inv s \<Longrightarrow> fst (check mo url s) = Inr (v, src) \<Longrightarrow> v \<in> set verdicts"
    and keeps: "inv s \<Longrightarrow> inv (snd (check mo url s))"
begin

definition cache_inv :: "store \<times> 's \<Rightarrow> bool" where
  "cache_inv s \<longleftrightarrow> inv (snd s) \<and> (\<forall>url c e. dget (fst s) (reputation_key url) = Some (c, e) \<longrightarrow>
     (\<exists>v src. c = v @ nul # src \<and> v \<in> set verdicts))"

lemma verdict_no_nul: "v \<in> set verdicts \<Longrightarrow> nul \<notin> set v"
  by (auto simp: verdicts_def)

lemma encoded_cut: "v \<in> set verdicts \<Longrightarrow> cut nul (v @ nul # src) = Some (v, src)"
  by (rule cut_append) (rule verdict_no_nul)

lemma cache_inv_set:
  assumes "cache_inv (kv, st)" "v \<in> set verdicts"
  shows "cache_inv (mem_set kv now (reputation_key url) (v @ nul # src) ttl, st)"
  using assms unfolding cache_inv_def mem_set_def fst_conv snd_conv dget_dset fun_upd_apply
  by (metis (no_types) option.inject prod.inject)

lemma cached_provider: "reputation_provider (cached_check check ttl) cache_inv"
proof
  fix s :: "store \<times> 's" and mo :: moment and url v src
  assume inv: "cache_inv s"
  obtain kv st where s: "s = (kv, st)" by (cases s)
  obtain hit kv1 where g: "mem_get kv (mo_now mo) (reputation_key url) = (hit, kv1)"
    by (cases "mem_get kv (mo_now mo) (reputation_key url)")
  have kv1: "dget kv1 k = Some ce \<Longrightarrow> dget kv k = Some ce" for k ce
    using g by (auto simp: mem_get_def is_live_def split: option.splits if_splits prod.splits)
  have inv1: "cache_inv (kv1, st')" if "inv st'" for st'
    using inv that kv1 unfolding cache_inv_def s by (metis fst_conv snd_conv)
  have hit: "\<exists>v src. c = v @ nul # src \<and> v \<in> set verdicts" if "hit = Some c" for c
  proof -
    from g that have "\<exists>e. dget kv (reputation_key url) = Some (c, e)"
      by (auto simp: mem_get_def is_live_def split: option.splits if_splits prod.splits)
    with inv show ?thesis unfolding cache_inv_def s by auto
  qed
  have st: "inv st" using inv by (simp add: cache_inv_def s)
  show "v \<in> set verdicts" if "fst (cached_check check ttl mo url s) = Inr (v, src)"
  proof (cases hit)
    case None
    with that g s verdict [OF st, of mo url] show ?thesis
      by (auto simp: cached_check_def split: prod.splits sum.splits)
  next
    case (Some c)
    from hit [OF this] obtain v' s' where "c = v' @ nul # s'" "v' \<in> set verdicts" by blast
    with that g s Some show ?thesis by (simp add: cached_check_def encoded_cut)
  qed
  show "cache_inv (snd (cached_check check ttl mo url s))"
  proof (cases hit)
    case None
    obtain r st' where c: "check mo url st = (r, st')" by (cases "check mo url st")
    have st': "inv st'" using keeps [OF st, of mo url] c by simp
    show ?thesis
    proof (cases r)
      case (Inl e)
      with None g s c inv1 [OF st'] show ?thesis by (simp add: cached_check_def)
    next
      case (Inr p)
      obtain v' s' where p: "p = (v', s')" by (cases p)
      have "v' \<in> set verdicts" using verdict [OF st, of mo url] c Inr p by simp
      from cache_inv_set [OF inv1 [OF st'] this] None g s c Inr p show ?thesis
        by (simp add: cached_check_def)
    qed
  next
    case (Some c)
    with g s inv1 [OF st] show ?thesis by (simp add: cached_check_def split: prod.splits)
  qed
qed

text \<open>Until it expires, a cached answer is the provider's own, marked as cached, and the provider is not
  asked again.\<close>

lemma replayed:
  assumes "mem_entry kv t0 (reputation_key url) = None" "mo_now mo0 = t0" "inv st"
    and "check mo0 url st = (Inr (v, src), st')"
    and "life = (if v \<noteq> ''unknown'' then ttl else min 120 ttl)" "0 < ttl"
    and "t0 \<le> mo_now mo" "mo_now mo < t0 + of_int life"
  shows "fst (cached_check check ttl mo url (snd (cached_check check ttl mo0 url (kv, st)))) =
       Inr (v, src @ '' (cached)'') \<and>
     snd (snd (cached_check check ttl mo url (snd (cached_check check ttl mo0 url (kv, st))))) = st'"
proof -
  let ?k = "reputation_key url"
  have g0: "fst (mem_get kv t0 ?k) = None" using assms(1) by (simp add: mem_get_result)
  let ?kv = "mem_set (snd (mem_get kv t0 ?k)) t0 ?k (v @ nul # src) (Some life)"
  have first: "snd (cached_check check ttl mo0 url (kv, st)) = (?kv, st')"
    using g0 assms(2,4,5) by (cases "mem_get kv t0 ?k") (simp add: cached_check_def)
  have "life \<noteq> 0" "0 < life" using assms(5,6) by (auto split: if_splits)
  then have "fst (mem_get ?kv (mo_now mo) ?k) = Some (v @ nul # src)"
    using assms(7,8) by (intro mem.read_your_write) (simp_all add: deadline_def)
  moreover have "v \<in> set verdicts" using verdict [OF assms(3), of mo0 url] assms(4) by simp
  ultimately show ?thesis unfolding first
    by (cases "mem_get ?kv (mo_now mo) ?k") (simp add: cached_check_def encoded_cut)
qed

end

lemma null_verdict: "fst (null_check mo url s) = Inr (v, src) \<Longrightarrow> v \<in> set verdicts"
  by (simp add: null_check_def verdicts_def)

lemma bind_InrD: "bind r f = Inr y \<longleftrightarrow> (\<exists>x. r = Inr x \<and> f x = Inr y)"
  by (cases r) auto

lemma vt_check_verdict: "fst (vt_check key http mo url s) = Inr (v, src) \<Longrightarrow> v \<in> set verdicts"
  by (auto simp: vt_check_def vt_verdict_def verdicts_def bind_InrD
      split: if_splits sum.splits prod.splits outage.splits py_exn.splits)

lemma gsb_check_verdict: "fst (gsb_check key post mo url s) = Inr (v, src) \<Longrightarrow> v \<in> set verdicts"
  by (auto simp: gsb_check_def gsb_verdict_def verdicts_def bind_InrD
      split: if_splits sum.splits prod.splits outage.splits option.splits)

interpretation null: reputation_provider null_check "\<lambda>_. True"
  by unfold_locales (rule null_verdict)

interpretation vt: reputation_provider "vt_check key http" "\<lambda>_. True" for key http
  by unfold_locales (rule vt_check_verdict)

interpretation gsb: reputation_provider "gsb_check key post" "\<lambda>_. True" for key post
  by unfold_locales (rule gsb_check_verdict)

interpretation cached_vt: reputation_provider "cached_check (vt_check key http) ttl" "vt.cache_inv"
  for key http ttl by (rule vt.cached_provider)

interpretation cached_gsb: reputation_provider "cached_check (gsb_check key post) ttl" "gsb.cache_inv"
  for key post ttl by (rule gsb.cached_provider)

text \<open>\<open>get_domain_age_days\<close> answers a number of days that is not negative, or nothing.\<close>

locale age_provider =
  fixes age :: "moment \<Rightarrow> string \<Rightarrow> 's \<Rightarrow> int option result \<times> 's"
    and inv :: "'s \<Rightarrow> bool"
  assumes nonneg: "inv s \<Longrightarrow> fst (age mo d s) = Inr (Some n) \<Longrightarrow> 0 \<le> n"
    and keeps: "inv s \<Longrightarrow> inv (snd (age mo d s))"
begin

definition cache_inv :: "store \<times> 's \<Rightarrow> bool" where
  "cache_inv s \<longleftrightarrow> inv (snd s) \<and> (\<forall>d c e. dget (fst s) (age_key d) = Some (c, e) \<longrightarrow>
     c = [] \<or> (\<exists>n \<ge> 0. c = int_str n))"

lemma cache_inv_set:
  assumes "cache_inv (kv, st)" "c = [] \<or> (\<exists>n \<ge> 0. c = int_str n)"
  shows "cache_inv (mem_set kv now (age_key d) c ttl, st)"
  using assms unfolding cache_inv_def mem_set_def fst_conv snd_conv dget_dset fun_upd_apply
  by (metis (no_types) option.inject prod.inject)

lemma int_str_nonempty [simp]: "int_str n \<noteq> []"
  by (simp add: int_str_def)

lemma cached_step:
  assumes inv: "cache_inv (kv, st)" and r: "cached_age age ttl mo d (kv, st) = (r, kv', st')"
  shows "cache_inv (kv', st')"
    and "r = Inr (Some n) \<Longrightarrow> 0 \<le> n"
    and "r = Inl e \<Longrightarrow> fst (age mo d st) = Inl e"
proof -
  obtain hit kv1 where g: "mem_get kv (mo_now mo) (age_key d) = (hit, kv1)"
    by (cases "mem_get kv (mo_now mo) (age_key d)")
  have kv1: "dget kv1 k = Some ce \<Longrightarrow> dget kv k = Some ce" for k ce
    using g by (auto simp: mem_get_def is_live_def split: option.splits if_splits prod.splits)
  have inv1: "cache_inv (kv1, st2)" if "inv st2" for st2
    using inv that kv1 unfolding cache_inv_def by (metis fst_conv snd_conv)
  have st: "inv st" using inv by (simp add: cache_inv_def)
  have "cache_inv (kv', st') \<and> (\<forall>n. r = Inr (Some n) \<longrightarrow> 0 \<le> n) \<and> (\<forall>e. r = Inl e \<longrightarrow> fst (age mo d st) = Inl e)"
  proof (cases hit)
    case None
    obtain a st2 where c: "age mo d st = (a, st2)" by (cases "age mo d st")
    have st2: "inv st2" using keeps [OF st, of mo d] c by simp
    consider e where "a = Inl e" | "a = Inr None" | m where "a = Inr (Some m)"
      by (metis not_None_eq old.sum.exhaust)
    then show ?thesis
    proof cases
      case (1 e)
      with None g c r inv1 [OF st2] show ?thesis by (auto simp: cached_age_def)
    next
      case 2
      with None g c r cache_inv_set [OF inv1 [OF st2]] show ?thesis by (auto simp: cached_age_def)
    next
      case (3 m)
      have "0 \<le> m" using nonneg [OF st, of mo d] c 3 by simp
      with 3 None g c r cache_inv_set [OF inv1 [OF st2]] show ?thesis by (auto simp: cached_age_def)
    qed
  next
    case (Some c)
    from g Some have "\<exists>e. dget kv (age_key d) = Some (c, e)"
      by (auto simp: mem_get_def is_live_def split: option.splits if_splits prod.splits)
    with inv have "c = [] \<or> (\<exists>n \<ge> 0. c = int_str n)" unfolding cache_inv_def by auto
    with g Some r inv1 [OF st] show ?thesis by (auto simp: cached_age_def)
  qed
  then show "cache_inv (kv', st')" "r = Inr (Some n) \<Longrightarrow> 0 \<le> n" "r = Inl e \<Longrightarrow> fst (age mo d st) = Inl e"
    by blast+
qed

lemma cached_provider: "age_provider (cached_age age ttl) cache_inv"
proof
  fix s :: "store \<times> 's" and mo :: moment and d n
  assume inv: "cache_inv s"
  obtain r kv' st' where r: "cached_age age ttl mo d s = (r, kv', st')"
    by (cases "cached_age age ttl mo d s") auto
  obtain kv st where s: "s = (kv, st)" by (cases s)
  show "0 \<le> n" if "fst (cached_age age ttl mo d s) = Inr (Some n)"
    using cached_step(2) [OF inv [unfolded s] r [unfolded s]] that r by simp
  show "cache_inv (snd (cached_age age ttl mo d s))"
    using cached_step(1) [OF inv [unfolded s] r [unfolded s]] r by simp
qed

end

lemma rdap_events_nonneg: "rdap_events f now evs = Inr (Some n) \<Longrightarrow> 0 \<le> n"
  by (induction f now evs rule: rdap_events.induct)
     (auto simp: registered_age_def split: option.splits json.splits iso_date.splits if_splits)

lemma rdap_check_nonneg: "fst (rdap_check f http mo d s) = Inr (Some n) \<Longrightarrow> 0 \<le> n"
  using rdap_events_nonneg
  by (auto simp: rdap_check_def rdap_age_def split: prod.splits sum.splits outage.splits if_splits option.splits json.splits)

interpretation rdap: age_provider "rdap_check fromiso http" "\<lambda>_. True" for fromiso http
  by unfold_locales (rule rdap_check_nonneg)

interpretation cached_rdap: age_provider "cached_age (rdap_check fromiso http) ttl" "rdap.cache_inv"
  for fromiso http ttl by (rule rdap.cached_provider)

subsection \<open>The configured providers\<close>

text \<open>
  \<open>app.py\<close>: VirusTotal where its key is set, else Safe Browsing where its key is, else the provider that
  knows nothing, behind the cache.
\<close>

definition configured_check ::
  "string \<Rightarrow> string \<Rightarrow> (string \<Rightarrow> 'w \<Rightarrow> (http_exn + reply) \<times> 'w) \<Rightarrow>
   (string \<Rightarrow> string \<Rightarrow> 'w \<Rightarrow> (http_exn + reply) \<times> 'w) \<Rightarrow>
   moment \<Rightarrow> string \<Rightarrow> 'w upstream \<Rightarrow> (string \<times> string) result \<times> 'w upstream" where
  "configured_check vt_key gsb_key http post =
     (if vt_key \<noteq> [] then vt_check vt_key http
      else if gsb_key \<noteq> [] then gsb_check gsb_key post else null_check)"

interpretation configured: reputation_provider "configured_check vt_key gsb_key http post" "\<lambda>_. True"
  for vt_key gsb_key http post
  by unfold_locales
     (auto simp: configured_check_def split: if_splits dest: vt_check_verdict gsb_check_verdict null_verdict)

fun lookups ::
  "(moment \<Rightarrow> string \<Rightarrow> 's \<Rightarrow> (string \<times> string) result \<times> 's) \<Rightarrow> (moment \<times> string) list \<Rightarrow> 's \<Rightarrow>
   (string \<times> string) result list \<times> 's" where
  "lookups check [] s = ([], s)"
| "lookups check ((mo, url) # ls) s =
     (let (r, s1) = check mo url s; (rs, s2) = lookups check ls s1 in (r # rs, s2))"


context reputation_provider
begin

lemma lookups_verdicts:
  "inv s \<Longrightarrow> Inr (v, src) \<in> set (fst (lookups check ls s)) \<Longrightarrow> v \<in> set verdicts"
proof (induction ls arbitrary: s)
  case (Cons l ls)
  obtain mo url where l: "l = (mo, url)" by (cases l)
  obtain r s1 where c: "check mo url s = (r, s1)" by (cases "check mo url s")
  have "inv s1" using keeps [OF Cons.prems(1), of mo url] c by simp
  moreover have "r = Inr (v, src) \<Longrightarrow> v \<in> set verdicts"
    using verdict [OF Cons.prems(1), of mo url] c by simp
  moreover have "Inr (v, src) = r \<or> Inr (v, src) \<in> set (fst (lookups check ls s1))"
    using Cons.prems(2) by (simp add: l c split_beta)
  ultimately show ?case using Cons.IH [of s1] by auto
qed simp

end

text \<open>C39: Whatever the remote services answer and however the lookups hit the cache, every verdict the
  gateway's URL reputation provider gives is \<open>malicious\<close>, \<open>suspicious\<close>, \<open>clean\<close> or \<open>unknown\<close>.\<close>
theorem url_verdicts_typed:
  assumes "Inr (v, src) \<in> set (fst (lookups
     (cached_check (configured_check vt_key gsb_key http post) ttl) ls (empty_store, up)))"
  shows "v \<in> {''malicious'', ''suspicious'', ''clean'', ''unknown''}"
proof -
  have "configured.cache_inv (empty_store, up)"
    by (simp add: configured.cache_inv_def empty_store_def)
  from reputation_provider.lookups_verdicts [OF configured.cached_provider this assms]
  show ?thesis by (auto simp: verdicts_def)
qed

text \<open>An example: VirusTotal answers a report once, then fails.\<close>

definition vt_report :: json where
  "vt_report = JDict [(''data'', JDict [(''attributes'', JDict [(''last_analysis_stats'',
     JDict [(''malicious'', JInt 0), (''suspicious'', JInt 2)])])])]"

definition report_once :: "string \<Rightarrow> nat \<Rightarrow> (http_exn + reply) \<times> nat" where
  "report_once url n = (if n = 0 then Inr \<lparr>reply_status = 200, reply_json = Some vt_report\<rparr>
     else Inl (RequestError ''timeout''), Suc n)"

definition at_time :: "rat \<Rightarrow> moment" where
  "at_time t = \<lparr>mo_now = t, mo_fail = t, mo_jitter = (\<lambda>_. 0)\<rparr>"

definition vt_upstream :: "nat upstream" where
  "vt_upstream = \<lparr>up_breaker = cb_new ''virustotal_url'' 5 30, up_world = 0\<rparr>"

lemma report_once_example:
  "fst (lookups (cached_check (configured_check ''key'' '''' report_once (\<lambda>_. report_once)) 1800)
     [(at_time 0, ''http://a.b/''), (at_time 60, ''http://a.b/''), (at_time 70, ''http://c.d/'')]
     (empty_store, vt_upstream)) =
   [Inr (''suspicious'', ''virustotal''), Inr (''suspicious'', ''virustotal (cached)''),
    Inr (''unknown'', ''virustotal (lookup error after retries)'')]"
  by code_simp

theorem url_verdicts_typed_witness:
  "''suspicious'' \<in> {''malicious'', ''suspicious'', ''clean'', ''unknown''}"
  by (rule url_verdicts_typed [of _ "''virustotal''" "''key''" "''''" report_once "\<lambda>_. report_once" 1800
        "[(at_time 0, ''http://a.b/''), (at_time 60, ''http://a.b/''), (at_time 70, ''http://c.d/'')]" vt_upstream])
     (simp only: report_once_example, simp)

text \<open>While the circuit is open nothing is requested: the answer is \<open>unknown\<close> and the outside world is
  untouched.\<close>

lemma vt_open_circuit:
  assumes "key \<noteq> []" "cb_st (up_breaker up) = OPEN" "opened_at (up_breaker up) = Some t"
    and "mo_now mo - t < reset_timeout (up_breaker up)"
  shows "vt_check key http mo url up =
    (Inr (''unknown'', ''virustotal (circuit open -- too many recent failures, skipping call)''), up)"
  using assms by (simp add: vt_check_def guarded_fetch_def cb_call_open outage_of_def)

text \<open>"These methods never raise": a document of another shape does make them raise.\<close>

lemma vt_verdict_raises: "vt_verdict (Some (JList [])) = Inl (TypeError ''not subscriptable by a string'')"
  by (simp add: vt_verdict_def vt_stats_def jindex_def)

lemma gsb_verdict_raises: "gsb_verdict (Some JNull) = Inl no_get"
  by (simp add: gsb_verdict_def jget_def)

lemma rdap_age_raises: "rdap_age f now (JList []) = Inl attribute_error"
  by (simp add: rdap_age_def)

text \<open>A cached answer replaces the provider for its whole life; with a life of 0 that is for ever.\<close>
theorem cached_verdict_replayed:
  assumes "mem_entry kv (mo_now mo0) (reputation_key url) = None"
    and "configured_check vt_key gsb_key http post mo0 url st = (Inr (v, src), st')"
    and "0 < ttl" "mo_now mo0 \<le> mo_now mo"
    and "mo_now mo < mo_now mo0 + of_int (if v \<noteq> ''unknown'' then ttl else min 120 ttl)"
  shows "let check = cached_check (configured_check vt_key gsb_key http post) ttl;
      (r, kv', st2) = check mo url (snd (check mo0 url (kv, st)))
    in r = Inr (v, src @ '' (cached)'') \<and> st2 = st'"
  using configured.replayed [OF assms(1) refl TrueI assms(2) refl assms(3,4,5)]
  by (simp add: split_beta Let_def)

theorem cached_verdict_replayed_witness:
  "let check = cached_check (configured_check ''key'' '''' report_once (\<lambda>_. report_once)) 1800;
     (r, kv', st2) = check (at_time 60) ''http://a.b/'' (snd (check (at_time 0) ''http://a.b/'' (empty_store, vt_upstream)))
   in r = Inr (''suspicious'', ''virustotal (cached)'') \<and> up_world st2 = 1"
proof -
  have "configured_check ''key'' '''' report_once (\<lambda>_. report_once) (at_time 0) ''http://a.b/'' vt_upstream =
    (Inr (''suspicious'', ''virustotal''), \<lparr>up_breaker = cb_new ''virustotal_url'' 5 30, up_world = 1\<rparr>)"
    by code_simp
  from cached_verdict_replayed [OF _ this, of empty_store 1800 "at_time 60"]
  show ?thesis by (simp add: at_time_def split_beta Let_def)
qed

lemma zero_ttl_never_expires:
  assumes "mem_entry kv (mo_now mo0) (reputation_key url) = None"
    and "check mo0 url st = (Inr (v, src), st')" "v \<in> set verdicts" "mo_now mo0 \<le> mo_now mo"
  shows "fst (cached_check check 0 mo url (snd (cached_check check 0 mo0 url (kv, st)))) =
    Inr (v, src @ '' (cached)'')"
proof -
  let ?k = "reputation_key url"
  have g0: "fst (mem_get kv (mo_now mo0) ?k) = None" using assms(1) by (simp add: mem_get_result)
  let ?kv = "mem_set (snd (mem_get kv (mo_now mo0) ?k)) (mo_now mo0) ?k (v @ nul # src) (Some 0)"
  have first: "snd (cached_check check 0 mo0 url (kv, st)) = (?kv, st')"
    using g0 assms(2) by (cases "mem_get kv (mo_now mo0) ?k") (simp add: cached_check_def)
  have "fst (mem_get ?kv (mo_now mo) ?k) = Some (v @ nul # src)"
    using assms(4) by (intro mem.read_your_write) (simp_all add: deadline_def)
  then show ?thesis using null.encoded_cut [OF assms(3), of src] unfolding first
    by (cases "mem_get ?kv (mo_now mo) ?k") (simp add: cached_check_def)
qed

text \<open>The two caches write no key but their own.\<close>

lemma cached_age_other:
  assumes "cached_age age ttl mo d (kv, st) = (r, kv', st')" "mo_now mo \<le> t" "k \<noteq> age_key d"
  shows "mem_entry kv' t k = mem_entry kv t k"
proof -
  obtain hit kv1 where g: "mem_get kv (mo_now mo) (age_key d) = (hit, kv1)"
    by (cases "mem_get kv (mo_now mo) (age_key d)")
  have "mem_entry kv1 t k = mem_entry kv t k" using mem.get_entry [OF assms(2), of kv "age_key d" k] g by simp
  with assms g show ?thesis
    by (auto simp: cached_age_def mem.set_entry split: option.splits prod.splits sum.splits if_splits)
qed

lemma cached_check_other:
  assumes "cached_check check ttl mo url (kv, st) = (r, kv', st')" "mo_now mo \<le> t" "k \<noteq> reputation_key url"
  shows "mem_entry kv' t k = mem_entry kv t k"
proof -
  obtain hit kv1 where g: "mem_get kv (mo_now mo) (reputation_key url) = (hit, kv1)"
    by (cases "mem_get kv (mo_now mo) (reputation_key url)")
  have "mem_entry kv1 t k = mem_entry kv t k"
    using mem.get_entry [OF assms(2), of kv "reputation_key url" k] g by simp
  with assms g show ?thesis
    by (auto simp: cached_check_def mem.set_entry split: option.splits prod.splits sum.splits)
qed

end
