(* ===== verification/Scores.thy ===== *)
theory Scores
  imports Prelude
begin

text \<open>
  Points with the reasons for them, as both analysis pipelines add them up: a part is a number of points
  and the reasons that go with it, and a verdict sums its parts in order.
\<close>

type_synonym 'r part = "int \<times> 'r list"

definition part_if :: "bool \<Rightarrow> int \<Rightarrow> 'r \<Rightarrow> 'r part" where
  "part_if b n reason = (if b then (n, [reason]) else (0, []))"

definition total_parts :: "'r part list \<Rightarrow> 'r part" where
  "total_parts ps = (sum_list (map fst ps), concat (map snd ps))"

lemma part_if_nonneg [simp]: "0 \<le> n \<Longrightarrow> 0 \<le> fst (part_if b n r)"
  by (simp add: part_if_def)

lemma sum_list_member: "(\<And>y. y \<in> set xs \<Longrightarrow> (0::int) \<le> y) \<Longrightarrow> x \<in> set xs \<Longrightarrow> x \<le> sum_list xs"
proof (induction xs)
  case (Cons y ys)
  have "0 \<le> y" "0 \<le> sum_list ys" using Cons.prems(1) by (auto intro: sum_list_nonneg)
  with Cons show ?case by fastforce
qed simp

lemma total_parts_simps [simp]:
  "fst (total_parts []) = 0" "fst (total_parts (p # ps)) = fst p + fst (total_parts ps)"
  "fst (total_parts (ps @ qs)) = fst (total_parts ps) + fst (total_parts qs)"
  by (simp_all add: total_parts_def)

lemma total_parts_nonneg: "(\<And>p. p \<in> set ps \<Longrightarrow> 0 \<le> fst p) \<Longrightarrow> 0 \<le> fst (total_parts ps)"
  by (induction ps) (simp_all add: total_parts_def)

lemma total_parts_member:
  assumes "\<And>q. q \<in> set ps \<Longrightarrow> 0 \<le> fst q" "p \<in> set ps"
  shows "fst p \<le> fst (total_parts ps)"
proof -
  have "fst p \<in> set (map fst ps)" using assms(2) by simp
  then show ?thesis using assms(1) unfolding total_parts_def fst_conv by (intro sum_list_member) auto
qed

end
