(* ===== verification/ContentPipeline.thy ===== *)
theory ContentPipeline
  imports ContentSignals Reputation Scores
begin

text \<open>
  \<open>content_analysis/pipeline.py\<close> and \<open>models.py\<close>: \<open>analyze_content\<close>, which runs every scanner over one
  message, asks the age and reputation providers about every link and adds up the points. The state is
  that of the providers and the history of correspondents. A reason is a list of code points (the
  quotation marks around a phrase lie outside Latin-1); the message is Latin-1.
\<close>

subsection \<open>Results\<close>

record url_finding =
  uf_url :: extracted_url
  uf_age :: "int option"
  uf_new :: bool
  uf_reputation :: string
  uf_source :: string
  uf_typosquat :: bool
  uf_target :: string

record content_verdict =
  cv_matches :: "ukeyword_match list"
  cv_urls :: "url_finding list"
  cv_score :: int
  cv_reasons :: "utext list"
  cv_rtl :: rtl_finding
  cv_evasion :: evasion_finding
  cv_qr :: qr_finding
  cv_ocr :: ocr_finding
  cv_ml :: ml_finding
  cv_brand :: "visual_brand_finding option"
  cv_relationship :: relationship_finding

text \<open>A character outside Latin-1 is written as a JSON escape.\<close>

definition escape_point :: "int \<Rightarrow> string" where
  "escape_point c = (if c < 256 then [char_of c]
     else CHR 0x5C # ''u'' @ hex_of [char_of (c div 256), char_of c])"

definition utext_str :: "utext \<Rightarrow> string" where
  "utext_str t = concat (map escape_point t)"

definition jopt_int :: "int option \<Rightarrow> json" where
  "jopt_int x = (case x of None \<Rightarrow> JNull | Some n \<Rightarrow> JInt n)"

definition url_finding_dict :: "url_finding \<Rightarrow> json" where
  "url_finding_dict f = JDict
     [(''url'', JStr (url_raw (uf_url f))), (''domain'', JStr (url_domain (uf_url f))),
      (''domain_age_days'', jopt_int (uf_age f)), (''is_newly_registered'', JBool (uf_new f)),
      (''reputation'', JStr (uf_reputation f)), (''is_typosquat_candidate'', JBool (uf_typosquat f)),
      (''typosquat_target'', JStr (uf_target f))]"

definition content_as_dict :: "content_verdict \<Rightarrow> json" where
  "content_as_dict v = JDict
     ([(''keyword_matches'', JList (map (\<lambda>(phrase, category).
          JDict [(''phrase'', JStr (utext_str phrase)), (''category'', JStr category)]) (cv_matches v))),
       (''url_findings'', JList (map url_finding_dict (cv_urls v))),
       (''score_delta'', JInt (cv_score v)),
       (''reasons'', JList (map (JStr \<circ> utext_str) (cv_reasons v))),
       (''rtl'', JDict [(''has_rtl_override'', JBool (has_rtl_override (cv_rtl v))),
          (''is_filename_spoof'', JBool (is_filename_spoof (cv_rtl v)))]),
       (''html_evasion'', JDict [(''has_evasion'', JBool (has_evasion (cv_evasion v))),
          (''techniques'', JList (map JStr (evasion_techniques (cv_evasion v))))]),
       (''quishing'', JDict [(''has_qr_code'', JBool (has_qr_code (cv_qr v))),
          (''urls'', JList (map JStr (decoded_urls (cv_qr v))))]),
       (''ocr'', JDict [(''has_text'', JBool (has_text (cv_ocr v)))]),
       (''ml'', JDict [(''phishing_probability'', JNum (phishing_probability (cv_ml v))),
          (''is_phishing'', JBool (is_phishing (cv_ml v)))])] @
      (case cv_brand v of None \<Rightarrow> []
       | Some b \<Rightarrow> [(''visual_brand'', JDict [(''is_impersonating'', JBool (is_impersonating b)),
           (''brand'', JStr (target_brand b))])]) @
      [(''relationship'', JDict [(''is_thread_hijack'', JBool (is_thread_hijack (cv_relationship v)))])])"

subsection \<open>What the analysis is given\<close>

record content_env =
  ce_html :: html_parser
  ce_parseaddr :: "string \<Rightarrow> string \<times> string"
  ce_exp :: "rat \<Rightarrow> rat"
  ce_images :: image_libs
  ce_confusables :: "(utext \<Rightarrow> confusable list) option"
  ce_unicode :: unicode_db
  ce_suffixes :: "(string \<Rightarrow> string) option"

record content_input =
  ci_text :: string
  ci_html :: string
  ci_from :: string
  ci_reply_to :: string
  ci_to :: string
  ci_in_reply_to :: string
  ci_references :: string
  ci_filenames :: "string list"
  ci_images :: "string list"
  ci_watchlist :: "string list"
  ci_vips :: "string list"

text \<open>The two providers, over their common state.\<close>

record 's providers =
  pr_age :: "moment \<Rightarrow> string \<Rightarrow> 's \<Rightarrow> int option result \<times> 's"
  pr_reputation :: "moment \<Rightarrow> string \<Rightarrow> 's \<Rightarrow> (string \<times> string) result \<times> 's"

subsection \<open>Points and reasons\<close>

definition match_reason :: "ukeyword_match \<Rightarrow> utext" where
  "match_reason m = u ''keyword match ('' @ u (snd m) @ u ''): '' @ [0x201C] @ fst m @ [0x201D]"

definition spoof_part :: "content_env \<Rightarrow> content_input \<Rightarrow> utext part" where
  "spoof_part env ci =
     (let (b, why) = check_display_name_spoofing (ce_parseaddr env) (ci_from ci) (ci_vips ci)
      in part_if b 40 (u (''display-name spoofing: '' @ why)))"

definition reply_part :: "content_env \<Rightarrow> content_input \<Rightarrow> utext part" where
  "reply_part env ci =
     (let (b, why) = check_reply_to_mismatch (ce_parseaddr env) (ci_from ci) (ci_reply_to ci)
      in part_if b 25 (u (''reply-to mismatch: '' @ why)))"

definition rtl_part :: "rtl_finding \<Rightarrow> utext part" where
  "rtl_part r = part_if (has_rtl_override r) (if \<not> is_filename_spoof r then 20 else 45) (rtl_explanation r)"

definition evasion_part :: "evasion_finding \<Rightarrow> utext part" where
  "evasion_part e =
     (if has_evasion e then
        (let (ms, s) = scan_keywords (hidden_text e)
         in if hidden_text e \<noteq> [] \<and> ms \<noteq> []
            then (25 + (s + 15), [u (evasion_explanation e), u ''hidden HTML text contains suspicious keyword match''])
            else (25, [u (evasion_explanation e)]))
      else (0, []))"

definition qr_part :: "qr_finding \<Rightarrow> utext part" where
  "qr_part q = part_if (has_qr_code q) 30 (u (qr_explanation q))"

definition ocr_part :: "ocr_finding \<Rightarrow> utext part" where
  "ocr_part f =
     (if has_text f then
        (case scan_keywords (extracted_text f) of
           ([], _) \<Rightarrow> (0, [])
         | (m # _, s) \<Rightarrow> (s + 20, [u ''OCR extracted suspicious text from image: '' @ fst m]))
      else (0, []))"

definition relationship_part :: "relationship_finding \<Rightarrow> utext part" where
  "relationship_part r = part_if (rel_score r > 0) (rel_score r) (u (rel_explanation r))"

definition zero_width_part :: "content_env \<Rightarrow> string \<Rightarrow> utext part" where
  "zero_width_part env s =
     part_if (list_ex has_zero_width (detect_homoglyphs_and_idn (ce_confusables env) (points s))) 15
       (u ''body content contains hidden zero-width unicode characters'')"

definition ml_part :: "ml_finding \<Rightarrow> utext part" where
  "ml_part f = part_if (ml_score f > 0) (ml_score f) (u (ml_explanation f))"

text \<open>One link, before the providers are asked.\<close>

definition ip_part :: "extracted_url \<Rightarrow> utext part" where
  "ip_part url = part_if (is_ip_literal url) 15
     (u (''link uses a raw IP address instead of a domain: '' @ url_raw url))"

definition look_alike_part :: "content_env \<Rightarrow> extracted_url \<Rightarrow> utext part" where
  "look_alike_part env url =
     (case find (\<lambda>hg. is_punycode hg \<or> has_confusables hg)
          (detect_homoglyphs_and_idn (ce_confusables env) (points (url_domain url))) of
        Some hg \<Rightarrow> (35, [u (''URL domain '' @ url_domain url) @ u '' '' @ hg_reason hg])
      | None \<Rightarrow> (0, []))"

definition watched_target :: "content_env \<Rightarrow> content_input \<Rightarrow> extracted_url \<Rightarrow> string option" where
  "watched_target env ci url =
     (case find_typosquat_target (ce_suffixes env) (url_domain url) (ci_watchlist ci) 2 of
        Some t \<Rightarrow> if t \<noteq> [] then Some t else None
      | None \<Rightarrow> None)"

definition typosquat_part :: "extracted_url \<Rightarrow> string option \<Rightarrow> utext part" where
  "typosquat_part url target = (case target of
       Some t \<Rightarrow> (20, [u (url_domain url @ '' closely resembles watched domain '' @ t)])
     | None \<Rightarrow> (0, []))"

definition brand_part :: "visual_brand_finding \<Rightarrow> utext part" where
  "brand_part b = part_if (is_impersonating b) (vb_score b) (u (vb_explanation b))"

definition newly_registered_threshold_days :: int where
  "newly_registered_threshold_days = 30"

definition is_new :: "int option \<Rightarrow> bool" where
  "is_new age = (case age of Some n \<Rightarrow> n < newly_registered_threshold_days | None \<Rightarrow> False)"

definition age_part :: "extracted_url \<Rightarrow> int option \<Rightarrow> utext part" where
  "age_part url age = part_if (is_new age) 15
     (u (url_domain url @ '' was registered only '' @ (case age of Some n \<Rightarrow> int_str n | None \<Rightarrow> []) @ '' day(s) ago''))"

definition reputation_part :: "extracted_url \<Rightarrow> string \<Rightarrow> string \<Rightarrow> utext part" where
  "reputation_part url verdict source =
     (if verdict = ''malicious'' then (100, [u (url_domain url @ '' flagged malicious by '' @ source)])
      else if verdict = ''suspicious'' then (40, [u (url_domain url @ '' flagged suspicious by '' @ source)])
      else (0, []))"

text \<open>The loop body of one link: its finding, its points and the brand it imitates.\<close>

definition check_link ::
  "content_env \<Rightarrow> 's providers \<Rightarrow> content_input \<Rightarrow> moment \<Rightarrow> extracted_url \<Rightarrow> 's \<Rightarrow>
   (url_finding \<times> utext part \<times> visual_brand_finding option) result \<times> 's" where
  "check_link env pr ci mo url st =
     (let target = watched_target env ci url;
          vb = check_visual_brand_impersonation (url_raw url) (ci_html ci)
      in case pr_age pr mo (url_domain url) st of
           (Inl e, st1) \<Rightarrow> (Inl e, st1)
         | (Inr age, st1) \<Rightarrow>
             (case pr_reputation pr mo (url_raw url) st1 of
                (Inl e, st2) \<Rightarrow> (Inl e, st2)
              | (Inr (verdict, source), st2) \<Rightarrow>
                  (Inr (\<lparr>uf_url = url, uf_age = age, uf_new = is_new age, uf_reputation = verdict,
                         uf_source = source, uf_typosquat = (target \<noteq> None),
                         uf_target = (case target of Some t \<Rightarrow> t | None \<Rightarrow> [])\<rparr>,
                        total_parts [ip_part url, look_alike_part env url, typosquat_part url target,
                          brand_part vb, age_part url age, reputation_part url verdict source],
                        if is_impersonating vb then Some vb else None), st2)))"

fun check_links ::
  "content_env \<Rightarrow> 's providers \<Rightarrow> content_input \<Rightarrow> moment \<Rightarrow> extracted_url list \<Rightarrow> 's \<Rightarrow>
   (url_finding \<times> utext part \<times> visual_brand_finding option) list result \<times> 's" where
  "check_links env pr ci mo [] st = (Inr [], st)"
| "check_links env pr ci mo (url # urls) st =
     (case check_link env pr ci mo url st of
        (Inl e, st1) \<Rightarrow> (Inl e, st1)
      | (Inr f, st1) \<Rightarrow>
          (case check_links env pr ci mo urls st1 of
             (Inl e, st2) \<Rightarrow> (Inl e, st2)
           | (Inr fs, st2) \<Rightarrow> (Inr (f # fs), st2)))"

text \<open>A link found in a QR code: its domain is what stands between the slashes, and it is never taken
  for an IP address.\<close>

definition qr_url :: "string \<Rightarrow> extracted_url" where
  "qr_url raw_u = \<lparr>url_raw = raw_u,
     url_domain = (if contains ''://'' raw_u then split_char (CHR ''/'') raw_u ! 2 else raw_u),
     is_ip_literal = False\<rparr>"

definition plain_text_of :: "content_env \<Rightarrow> content_input \<Rightarrow> string" where
  "plain_text_of env ci = (if ci_text ci \<noteq> [] then ci_text ci
     else if ci_html ci \<noteq> [] then html_to_text (ce_html env) (ci_html ci) else [])"

text \<open>The last brand imitated.\<close>

definition last_brand :: "visual_brand_finding option list \<Rightarrow> visual_brand_finding option" where
  "last_brand bs = foldl (\<lambda>acc b. case b of None \<Rightarrow> acc | Some _ \<Rightarrow> b) None bs"

definition analyze_content ::
  "content_env \<Rightarrow> 's providers \<Rightarrow> content_input \<Rightarrow> moment \<Rightarrow> 's \<times> relationship_store \<Rightarrow>
   content_verdict result \<times> 's \<times> relationship_store" where
  "analyze_content env pr ci mo = (\<lambda>(st, rel).
     (let plain = plain_text_of env ci;
          (kws, kw_score) = scan_keywords plain;
          (mls, ml_kw_score) = scan_multilang_keywords (ce_unicode env) (points plain);
          matches = kws @ mls;
          fn_string = join '' '' (ci_filenames ci);
          rtl = detect_rtl_override (points (plain @ '' '' @ fn_string)) (points fn_string);
          ev = detect_html_evasion (ce_html env) (ci_html ci);
          qr = detect_qr_codes (ce_images env) (ci_images ci);
          ocr = scan_image_ocr (ce_images env) (ci_images ci);
          (rf, rel') = relationship_check rel (mo_now mo) (ci_from ci) (ci_to ci) (ci_in_reply_to ci)
                         (ci_references ci) plain;
          urls = extract_urls (ce_html env) (ci_text ci) (ci_html ci) @
                   (if has_qr_code qr then map qr_url (decoded_urls qr) else [])
      in case check_links env pr ci mo urls st of
           (Inl e, st') \<Rightarrow> (Inl e, st', rel')
         | (Inr links, st') \<Rightarrow>
             (let mlf = predict_phishing_probability (ce_exp env) plain (length urls) (is_first_contact_pair rf);
                  (score, reasons) = total_parts
                    ([(kw_score + ml_kw_score, map match_reason matches), spoof_part env ci, reply_part env ci,
                      rtl_part rtl, evasion_part ev, qr_part qr, ocr_part ocr, relationship_part rf,
                      zero_width_part env plain] @
                     map (\<lambda>(_, p, _). p) links @ [ml_part mlf])
              in (Inr \<lparr>cv_matches = matches, cv_urls = map fst links, cv_score = score, cv_reasons = reasons,
                    cv_rtl = rtl, cv_evasion = ev, cv_qr = qr, cv_ocr = ocr, cv_ml = mlf,
                    cv_brand = last_brand (map (\<lambda>(_, _, b). b) links), cv_relationship = rf\<rparr>, st', rel'))))"

subsection \<open>The score\<close>

lemma scan_keywords_nonneg: "0 \<le> snd (scan_keywords s)"
  using keyword_score_bounds(2) [of s] by linarith

lemma multilang_nonneg: "0 \<le> snd (scan_multilang_keywords db t)"
  using multilang_score_bounds [of db t] by (cases "scan_multilang_keywords db t") auto

lemma evasion_part_nonneg: "0 \<le> fst (evasion_part e)"
  using scan_keywords_nonneg [of "hidden_text e"] by (auto simp: evasion_part_def split: prod.split)

lemma ocr_part_nonneg: "0 \<le> fst (ocr_part f)"
  using scan_keywords_nonneg [of "extracted_text f"]
  by (auto simp: ocr_part_def split: prod.split list.split)

lemma brand_part_nonneg: "0 \<le> fst (brand_part (check_visual_brand_impersonation url html))"
  by (simp add: brand_part_def part_if_def check_visual_brand_impersonation_def visual_brand_score no_brand_def)

lemmas part_defs = spoof_part_def reply_part_def rtl_part_def qr_part_def relationship_part_def
  zero_width_part_def ml_part_def ip_part_def age_part_def

lemma parts_nonneg:
  "0 \<le> fst (spoof_part env ci)" "0 \<le> fst (reply_part env ci)" "0 \<le> fst (rtl_part r)" "0 \<le> fst (qr_part q)"
  "0 \<le> fst (relationship_part rf)" "0 \<le> fst (zero_width_part env s)" "0 \<le> fst (ml_part m)"
  "0 \<le> fst (ip_part url)" "0 \<le> fst (age_part url age)"
  by (simp_all add: part_defs part_if_def split: prod.split)

lemma link_parts_nonneg:
  "0 \<le> fst (look_alike_part env url)" "0 \<le> fst (typosquat_part url target)"
  "0 \<le> fst (reputation_part url verdict source)"
  by (simp_all add: look_alike_part_def typosquat_part_def reputation_part_def split: option.split)

lemma check_link_ok:
  assumes "check_link env pr ci mo url st = (Inr (f, p, b), st')"
  shows "uf_url f = url \<and> 0 \<le> fst p \<and>
    (uf_reputation f = ''malicious'' \<longrightarrow> 100 \<le> fst p) \<and> (uf_reputation f = ''suspicious'' \<longrightarrow> 40 \<le> fst p) \<and>
    (uf_typosquat f \<longrightarrow> 20 \<le> fst p) \<and> (is_ip_literal url \<longrightarrow> 15 \<le> fst p)"
proof -
  from assms obtain age verdict source where f:
    "uf_url f = url" "uf_reputation f = verdict" "uf_typosquat f \<longleftrightarrow> watched_target env ci url \<noteq> None"
    "fst p = fst (ip_part url) + fst (look_alike_part env url) + fst (typosquat_part url (watched_target env ci url)) +
       fst (brand_part (check_visual_brand_impersonation (url_raw url) (ci_html ci))) + fst (age_part url age) +
       fst (reputation_part url verdict source)"
    by (auto simp: check_link_def total_parts_def Let_def split: prod.splits sum.splits)
  note nonneg = parts_nonneg(8) [of url] parts_nonneg(9) [of url age] link_parts_nonneg(1) [of env url]
    link_parts_nonneg(2) [of url "watched_target env ci url"] link_parts_nonneg(3) [of url verdict source]
    brand_part_nonneg [of "url_raw url" "ci_html ci"]
  have "0 \<le> fst p" using f(4) nonneg by linarith
  moreover have "100 \<le> fst p" if "verdict = ''malicious''"
  proof -
    from that have "fst (reputation_part url verdict source) = 100" by (simp add: reputation_part_def)
    with f(4) nonneg show ?thesis by linarith
  qed
  moreover have "40 \<le> fst p" if "verdict = ''suspicious''"
  proof -
    from that have "fst (reputation_part url verdict source) = 40" by (simp add: reputation_part_def)
    with f(4) nonneg show ?thesis by linarith
  qed
  moreover have "20 \<le> fst p" if "watched_target env ci url \<noteq> None"
  proof -
    from that have "fst (typosquat_part url (watched_target env ci url)) = 20" by (auto simp: typosquat_part_def)
    with f(4) nonneg show ?thesis by linarith
  qed
  moreover have "15 \<le> fst p" if "is_ip_literal url"
  proof -
    from that have "fst (ip_part url) = 15" by (simp add: ip_part_def part_if_def)
    with f(4) nonneg show ?thesis by linarith
  qed
  ultimately show ?thesis using f(1,2,3) by blast
qed

lemma check_links_ok:
  "check_links env pr ci mo urls st = (Inr links, st') \<Longrightarrow>
   map (\<lambda>l. uf_url (fst l)) links = urls \<and> (\<forall>(f, p, b) \<in> set links. 0 \<le> fst p \<and>
     (uf_reputation f = ''malicious'' \<longrightarrow> 100 \<le> fst p) \<and> (uf_reputation f = ''suspicious'' \<longrightarrow> 40 \<le> fst p) \<and>
     (uf_typosquat f \<longrightarrow> 20 \<le> fst p) \<and> (is_ip_literal (uf_url f) \<longrightarrow> 15 \<le> fst p))"
proof (induction urls arbitrary: st links st')
  case (Cons url urls)
  from Cons.prems obtain l st1 ls where l: "check_link env pr ci mo url st = (Inr l, st1)"
    "check_links env pr ci mo urls st1 = (Inr ls, st')" "links = l # ls"
    by (auto split: prod.splits sum.splits)
  obtain f p b where fpb: "l = (f, p, b)" by (cases l)
  from check_link_ok [OF l(1) [unfolded fpb]] Cons.IH [OF l(2)] l(3) fpb show ?case by auto
qed simp

text \<open>What the analysis is made of, once the links are checked.\<close>

lemma analyze_parts:
  assumes "analyze_content env pr ci mo (st, rel) = (Inr v, st', rel')"
  obtains urls links rest where
    "urls = extract_urls (ce_html env) (ci_text ci) (ci_html ci) @
       (if has_qr_code (cv_qr v) then map qr_url (decoded_urls (cv_qr v)) else [])"
    "check_links env pr ci mo urls st = (Inr links, st')" "cv_urls v = map fst links"
    "cv_score v = rest + fst (total_parts (map (\<lambda>(_, p, _). p) links))" "0 \<le> rest"
proof -
  let ?plain = "plain_text_of env ci"
  obtain kws s1 where k: "scan_keywords ?plain = (kws, s1)" by (cases "scan_keywords ?plain")
  obtain mls s2 where m: "scan_multilang_keywords (ce_unicode env) (points ?plain) = (mls, s2)"
    by (cases "scan_multilang_keywords (ce_unicode env) (points ?plain)")
  obtain rf rel2 where r: "relationship_check rel (mo_now mo) (ci_from ci) (ci_to ci) (ci_in_reply_to ci)
      (ci_references ci) ?plain = (rf, rel2)"
    by (cases "relationship_check rel (mo_now mo) (ci_from ci) (ci_to ci) (ci_in_reply_to ci) (ci_references ci) ?plain")
  define urls where "urls = extract_urls (ce_html env) (ci_text ci) (ci_html ci) @
    (if has_qr_code (detect_qr_codes (ce_images env) (ci_images ci))
     then map qr_url (decoded_urls (detect_qr_codes (ce_images env) (ci_images ci))) else [])"
  obtain links where c: "check_links env pr ci mo urls st = (Inr links, st')"
    using assms by (auto simp: analyze_content_def k m r Let_def urls_def [symmetric] split: prod.splits sum.splits)
  have s: "0 \<le> s1" "0 \<le> s2"
    using scan_keywords_nonneg [of ?plain] multilang_nonneg [of "ce_unicode env" "points ?plain"] by (simp_all add: k m)
  have v: "cv_qr v = detect_qr_codes (ce_images env) (ci_images ci)" "cv_urls v = map fst links"
    using assms by (auto simp: analyze_content_def k m r Let_def urls_def [symmetric] c split_beta)
  let ?fn = "join '' '' (ci_filenames ci)"
  let ?a = "detect_rtl_override (points (?plain @ '' '' @ ?fn)) (points ?fn)"
  let ?b = "detect_html_evasion (ce_html env) (ci_html ci)"
  let ?d = "scan_image_ocr (ce_images env) (ci_images ci)"
  let ?e = "predict_phishing_probability (ce_exp env) ?plain (length urls) (is_first_contact_pair rf)"
  have "cv_score v = fst (total_parts ([(s1 + s2, map match_reason (kws @ mls)), spoof_part env ci,
      reply_part env ci, rtl_part ?a, evasion_part ?b, qr_part (cv_qr v), ocr_part ?d, relationship_part rf,
      zero_width_part env ?plain] @ map (\<lambda>(_, p, _). p) links @ [ml_part ?e]))"
    using assms v(1) by (auto simp: analyze_content_def k m r Let_def urls_def [symmetric] c split_beta)
  then have "cv_score v = (fst (total_parts ([(s1 + s2, map match_reason (kws @ mls)), spoof_part env ci,
      reply_part env ci, rtl_part ?a, evasion_part ?b, qr_part (cv_qr v), ocr_part ?d, relationship_part rf,
      zero_width_part env ?plain, ml_part ?e]))) + fst (total_parts (map (\<lambda>(_, p, _). p) links))" by simp
  moreover have "0 \<le> fst (total_parts ([(s1 + s2, map match_reason (kws @ mls)), spoof_part env ci,
      reply_part env ci, rtl_part ?a, evasion_part ?b, qr_part (cv_qr v), ocr_part ?d, relationship_part rf,
      zero_width_part env ?plain, ml_part ?e]))"
    using s by (intro total_parts_nonneg) (auto simp: parts_nonneg evasion_part_nonneg ocr_part_nonneg)
  ultimately show ?thesis using that [of urls links] c v unfolding urls_def by metis
qed

lemma link_score_at_least:
  assumes "analyze_content env pr ci mo (st, rel) = (Inr v, st', rel')"
  shows "map uf_url (cv_urls v) = extract_urls (ce_html env) (ci_text ci) (ci_html ci) @
      (if has_qr_code (cv_qr v) then map qr_url (decoded_urls (cv_qr v)) else []) \<and> 0 \<le> cv_score v \<and>
    (\<forall>f \<in> set (cv_urls v).
      (uf_reputation f = ''malicious'' \<longrightarrow> 100 \<le> cv_score v) \<and>
      (uf_reputation f = ''suspicious'' \<longrightarrow> 40 \<le> cv_score v) \<and>
      (uf_typosquat f \<longrightarrow> 20 \<le> cv_score v) \<and> (is_ip_literal (uf_url f) \<longrightarrow> 15 \<le> cv_score v))"
proof -
  from analyze_parts [OF assms] obtain urls links rest where
    u: "urls = extract_urls (ce_html env) (ci_text ci) (ci_html ci) @
       (if has_qr_code (cv_qr v) then map qr_url (decoded_urls (cv_qr v)) else [])"
    and c: "check_links env pr ci mo urls st = (Inr links, st')" and f: "cv_urls v = map fst links"
    and s: "cv_score v = rest + fst (total_parts (map (\<lambda>(_, p, _). p) links))" "0 \<le> rest" by metis
  note ok = check_links_ok [OF c]
  have nn: "0 \<le> fst q" if "q \<in> set (map (\<lambda>(_, p, _). p) links)" for q using that ok by fastforce
  have le: "fst p \<le> cv_score v" if "(g, p, b) \<in> set links" for g p b
  proof -
    from that have "p \<in> set (map (\<lambda>(_, p, _). p) links)" by force
    from total_parts_member [OF nn this] s show ?thesis by linarith
  qed
  have "map uf_url (cv_urls v) = urls" using ok f by (simp add: comp_def)
  moreover have "0 \<le> fst (total_parts (map (\<lambda>(_, p, _). p) links))" using nn by (rule total_parts_nonneg)
  then have "0 \<le> cv_score v" using s by linarith
  moreover have "(uf_reputation g = ''malicious'' \<longrightarrow> 100 \<le> cv_score v) \<and>
      (uf_reputation g = ''suspicious'' \<longrightarrow> 40 \<le> cv_score v) \<and>
      (uf_typosquat g \<longrightarrow> 20 \<le> cv_score v) \<and> (is_ip_literal (uf_url g) \<longrightarrow> 15 \<le> cv_score v)"
    if "g \<in> set (cv_urls v)" for g
  proof -
    from that f obtain p b where l: "(g, p, b) \<in> set links" by auto
    with ok have "(uf_reputation g = ''malicious'' \<longrightarrow> 100 \<le> fst p) \<and> (uf_reputation g = ''suspicious'' \<longrightarrow> 40 \<le> fst p) \<and>
     (uf_typosquat g \<longrightarrow> 20 \<le> fst p) \<and> (is_ip_literal (uf_url g) \<longrightarrow> 15 \<le> fst p)" by fast
    with le [OF l] show ?thesis by (meson order_trans)
  qed
  ultimately show ?thesis using u by blast
qed

text \<open>C29: Every link of the text, of the HTML and of the QR codes is examined, in order and without a cap (the setting
  \<open>MAX_URLS_ANALYZED_PER_MESSAGE\<close> of \<open>config/__init__.py\<close>, 25 links by default, is read by nothing); the score of a
  message is at least that of its worst link: 100 if one is flagged malicious, 40 if suspicious, 20 if it
  resembles a watched domain, 15 if it names its host by number; and it is never negative.\<close>
theorem worst_link_scores:
  assumes "analyze_content env pr ci mo (st, rel) = (Inr v, st', rel')"
  shows "map uf_url (cv_urls v) = extract_urls (ce_html env) (ci_text ci) (ci_html ci) @
      (if has_qr_code (cv_qr v) then map qr_url (decoded_urls (cv_qr v)) else []) \<and> 0 \<le> cv_score v \<and>
    (\<forall>f \<in> set (cv_urls v).
      (uf_reputation f = ''malicious'' \<longrightarrow> 100 \<le> cv_score v) \<and>
      (uf_reputation f = ''suspicious'' \<longrightarrow> 40 \<le> cv_score v) \<and>
      (uf_typosquat f \<longrightarrow> 20 \<le> cv_score v) \<and> (is_ip_literal (uf_url f) \<longrightarrow> 15 \<le> cv_score v))"
  using assms by (rule link_score_at_least)

text \<open>An exception of a provider ends the analysis.\<close>

lemma provider_error_ends_analysis:
  assumes "extract_urls (ce_html env) (ci_text ci) (ci_html ci) = url # urls"
    and "pr_age pr mo (url_domain url) st = (Inr age, st1)"
    and "pr_reputation pr mo (url_raw url) st1 = (Inl e, st2)"
  shows "fst (analyze_content env pr ci mo (st, rel)) = Inl e"
  using assms by (simp add: analyze_content_def check_link_def Let_def split: prod.split)

text \<open>A message with one link, which the provider knows to be malicious.\<close>

definition example_env :: content_env where
  "example_env = \<lparr>ce_html = (\<lambda>_. ([], False)), ce_parseaddr = (\<lambda>h. ([], h)), ce_exp = (\<lambda>_. 1),
     ce_images = \<lparr>decode_qr = (\<lambda>_. Inr None), read_text = (\<lambda>_. None), decode_utf8 = (\<lambda>b. b)\<rparr>,
     ce_confusables = None, ce_unicode = small_db, ce_suffixes = None\<rparr>"

definition example_content :: "string \<Rightarrow> content_input" where
  "example_content text = \<lparr>ci_text = text, ci_html = [], ci_from = ''a@b.c'', ci_reply_to = [], ci_to = [],
     ci_in_reply_to = [], ci_references = [], ci_filenames = [], ci_images = [], ci_watchlist = [], ci_vips = []\<rparr>"

definition example_providers :: "unit providers" where
  "example_providers = \<lparr>pr_age = (\<lambda>_ _ s. (Inr None, s)), pr_reputation = (\<lambda>_ _ s. (Inr (''malicious'', ''vt''), s))\<rparr>"

definition example_verdict :: content_verdict where
  "example_verdict = projr (fst (analyze_content example_env example_providers (example_content ''http://e.ru'')
     (at_time 0) ((), [])))"

lemma example_links:
  "extract_urls (ce_html example_env) ''http://e.ru'' [] = [\<lparr>url_raw = ''http://e.ru'', url_domain = ''e.ru'', is_ip_literal = False\<rparr>]"
  by code_simp

lemma example_analysis:
  "\<exists>v st' rel'. analyze_content example_env example_providers (example_content ''http://e.ru'') (at_time 0) ((), []) =
     (Inr v, st', rel') \<and> v = example_verdict \<and> map uf_reputation (cv_urls v) = [''malicious'']"
proof -
  let ?ci = "example_content ''http://e.ru''"
  have q: "detect_qr_codes (ce_images example_env) (ci_images ?ci) =
      \<lparr>has_qr_code = False, decoded_urls = [], qr_explanation = []\<rparr>"
    by (simp add: detect_qr_codes_def example_content_def)
  obtain f p b where l: "check_link example_env example_providers ?ci (at_time 0)
      \<lparr>url_raw = ''http://e.ru'', url_domain = ''e.ru'', is_ip_literal = False\<rparr> () = (Inr (f, p, b), ())"
    "uf_reputation f = ''malicious''"
    by (simp add: check_link_def example_providers_def Let_def)
  have u: "extract_urls (ce_html example_env) (ci_text ?ci) (ci_html ?ci) =
      [\<lparr>url_raw = ''http://e.ru'', url_domain = ''e.ru'', is_ip_literal = False\<rparr>]"
    using example_links by (simp add: example_content_def)
  show ?thesis
    using l by (simp add: analyze_content_def example_verdict_def u q Let_def case_prod_beta)
qed

theorem worst_link_scores_witness:
  "\<exists>f \<in> set (cv_urls example_verdict). uf_reputation f = ''malicious'' \<and> 100 \<le> cv_score example_verdict"
proof -
  obtain st' rel' where a: "analyze_content example_env example_providers (example_content ''http://e.ru'') (at_time 0) ((), []) =
      (Inr example_verdict, st', rel')" and r: "map uf_reputation (cv_urls example_verdict) = [''malicious'']"
    using example_analysis by auto
  from r obtain f where "f \<in> set (cv_urls example_verdict)" "uf_reputation f = ''malicious''"
    by (cases "cv_urls example_verdict") auto
  with worst_link_scores [OF a] show ?thesis by blast
qed

end
