(* ===== verification/ContentStage.thy ===== *)
theory ContentStage
  imports Gateway ContentPipeline
begin

text \<open>
  The gateway with its own content stage: \<open>process_message\<close> of \<open>webhook_receiver/app.py\<close> calling
  \<open>analyze_content\<close> with the cached providers \<open>app.py\<close> sets up. The duplicate check, the rate limiter and
  both caches share one key-value store; what the remote services have come to at a call is given by
  the time and the message.
\<close>

subsection \<open>The stage\<close>

record 'w content_site =
  cs_env :: content_env
  cs_iso :: "string \<Rightarrow> iso_date option"
  cs_http :: "string \<Rightarrow> 'w \<Rightarrow> (http_exn + reply) \<times> 'w"
  cs_post :: "string \<Rightarrow> string \<Rightarrow> 'w \<Rightarrow> (http_exn + reply) \<times> 'w"
  cs_vt_key :: string
  cs_gsb_key :: string
  cs_age_ttl :: int
  cs_reputation_ttl :: int
  cs_services :: "rat \<Rightarrow> inbound \<Rightarrow> 'w upstream \<times> 'w upstream"

text \<open>The providers of \<open>app.py\<close>, over the store and the two services.\<close>

definition site_age ::
  "'w content_site \<Rightarrow> moment \<Rightarrow> string \<Rightarrow> store \<times> 'w upstream \<times> 'w upstream \<Rightarrow>
   int option result \<times> store \<times> 'w upstream \<times> 'w upstream" where
  "site_age cs mo d = (\<lambda>(kv, rdap, rep).
     (let (r, kv', rdap') = cached_age (rdap_check (cs_iso cs) (cs_http cs)) (cs_age_ttl cs) mo d (kv, rdap)
      in (r, kv', rdap', rep)))"

definition site_reputation ::
  "'w content_site \<Rightarrow> moment \<Rightarrow> string \<Rightarrow> store \<times> 'w upstream \<times> 'w upstream \<Rightarrow>
   (string \<times> string) result \<times> store \<times> 'w upstream \<times> 'w upstream" where
  "site_reputation cs mo url = (\<lambda>(kv, rdap, rep).
     (let (r, kv', rep') = cached_check (configured_check (cs_vt_key cs) (cs_gsb_key cs) (cs_http cs) (cs_post cs))
            (cs_reputation_ttl cs) mo url (kv, rep)
      in (r, kv', rdap, rep')))"

definition site_providers :: "'w content_site \<Rightarrow> (store \<times> 'w upstream \<times> 'w upstream) providers" where
  "site_providers cs = \<lparr>pr_age = site_age cs, pr_reputation = site_reputation cs\<rparr>"

text \<open>The arguments \<open>process_message\<close> passes; it passes no recipient, thread header, file or image.\<close>

definition message_content :: "inbound \<Rightarrow> content_input" where
  "message_content m = \<lparr>ci_text = in_text m, ci_html = in_html m, ci_from = in_from_header m,
     ci_reply_to = in_reply_to m, ci_to = [], ci_in_reply_to = [], ci_references = [], ci_filenames = [],
     ci_images = [], ci_watchlist = in_watchlist m, ci_vips = in_vips m\<rparr>"

definition verdict_of :: "content_verdict \<Rightarrow> verdict" where
  "verdict_of v = \<lparr>v_score = cv_score v, v_reasons = map utext_str (cv_reasons v), v_dict = content_as_dict v\<rparr>"

definition analyzed_stage :: "'w content_site \<Rightarrow> rat \<Rightarrow> inbound \<Rightarrow> store \<Rightarrow> verdict result \<times> store" where
  "analyzed_stage cs now m kv =
     (let (r, (kv', _, _), _) = analyze_content (cs_env cs) (site_providers cs) (message_content m) (at_time now)
            ((kv, cs_services cs now m), [])
      in (map_sum id verdict_of r, kv'))"

text \<open>The history of correspondents is never written: without a recipient there is no pair.\<close>

lemma history_unused:
  "snd (snd (analyze_content env pr (message_content m) mo (st, rel))) = rel"
  by (simp add: analyze_content_def message_content_def relationship_check_def Let_def
      split: prod.split sum.split)

subsection \<open>The store\<close>

lemma site_age_other:
  assumes "mo_now mo \<le> t" "starts_with ''dedupe:'' k"
  shows "mem_entry (fst (snd (site_age cs mo d (kv, a, b)))) t k = mem_entry kv t k"
proof -
  obtain r kv' a' where c: "cached_age (rdap_check (cs_iso cs) (cs_http cs)) (cs_age_ttl cs) mo d (kv, a) = (r, kv', a')"
    by (metis prod_cases3)
  have "k \<noteq> age_key d" using assms(2) by (auto simp: age_key_def starts_with_iff)
  from cached_age_other [OF c assms(1) this] c show ?thesis by (simp add: site_age_def)
qed

lemma site_reputation_other:
  assumes "mo_now mo \<le> t" "starts_with ''dedupe:'' k"
  shows "mem_entry (fst (snd (site_reputation cs mo url (kv, a, b)))) t k = mem_entry kv t k"
proof -
  obtain r kv' b' where c: "cached_check (configured_check (cs_vt_key cs) (cs_gsb_key cs) (cs_http cs) (cs_post cs))
      (cs_reputation_ttl cs) mo url (kv, b) = (r, kv', b')"
    by (metis prod_cases3)
  have "k \<noteq> reputation_key url" using assms(2) by (auto simp: reputation_key_def starts_with_iff)
  from cached_check_other [OF c assms(1) this] c show ?thesis by (simp add: site_reputation_def)
qed

lemma check_link_other:
  assumes "mo_now mo \<le> t" "starts_with ''dedupe:'' k"
  shows "mem_entry (fst (snd (check_link env (site_providers cs) ci mo url st))) t k = mem_entry (fst st) t k"
proof -
  obtain kv a b where st: "st = (kv, a, b)" by (cases st)
  obtain r1 kv1 a1 b1 where p1: "site_age cs mo (url_domain url) (kv, a, b) = (r1, kv1, a1, b1)"
    by (metis prod_cases4)
  obtain r2 kv2 a2 b2 where p2: "site_reputation cs mo (url_raw url) (kv1, a1, b1) = (r2, kv2, a2, b2)"
    by (metis prod_cases4)
  have "mem_entry kv1 t k = mem_entry kv t k"
    using site_age_other [OF assms, of cs "url_domain url" kv a b] p1 by simp
  moreover have "mem_entry kv2 t k = mem_entry kv1 t k"
    using site_reputation_other [OF assms, of cs "url_raw url" kv1 a1 b1] p2 by simp
  ultimately show ?thesis
    by (simp add: check_link_def site_providers_def st p1 p2 Let_def split: sum.split prod.split)
qed

lemma check_links_other:
  assumes "mo_now mo \<le> t" "starts_with ''dedupe:'' k"
  shows "mem_entry (fst (snd (check_links env (site_providers cs) ci mo urls st))) t k = mem_entry (fst st) t k"
proof (induction urls arbitrary: st)
  case (Cons url urls)
  obtain r st1 where l: "check_link env (site_providers cs) ci mo url st = (r, st1)"
    by (cases "check_link env (site_providers cs) ci mo url st")
  obtain rs st2 where ls: "check_links env (site_providers cs) ci mo urls st1 = (rs, st2)"
    by (cases "check_links env (site_providers cs) ci mo urls st1")
  show ?case
    using check_link_other [OF assms, of env cs ci url st] Cons.IH [of st1] l ls
    by (simp split: sum.split)
qed simp

lemma analyze_other:
  assumes "mo_now mo \<le> t" "starts_with ''dedupe:'' k"
  shows "mem_entry (fst (fst (snd (analyze_content env (site_providers cs) ci mo (st, rel))))) t k = mem_entry (fst st) t k"
proof -
  define urls where "urls = extract_urls (ce_html env) (ci_text ci) (ci_html ci) @
    (if has_qr_code (detect_qr_codes (ce_images env) (ci_images ci))
     then map qr_url (decoded_urls (detect_qr_codes (ce_images env) (ci_images ci))) else [])"
  obtain r st' where c: "check_links env (site_providers cs) ci mo urls st = (r, st')"
    by (cases "check_links env (site_providers cs) ci mo urls st")
  have "fst (snd (analyze_content env (site_providers cs) ci mo (st, rel))) = st'"
    by (cases r) (simp_all add: analyze_content_def Let_def urls_def [symmetric] c case_prod_beta)
  with check_links_other [OF assms, of env cs ci urls st] c show ?thesis by simp
qed

text \<open>The caches of the stage leave the claims of the duplicate check alone.\<close>

lemma analyzed_stage_keeps_dedupe: "content_stage s = analyzed_stage cs \<Longrightarrow> keeps_dedupe s"
proof -
  assume s: "content_stage s = analyzed_stage cs"
  show ?thesis
    unfolding keeps_dedupe_def s
  proof (intro allI impI)
    fix now t :: rat and m kv k
    assume "now \<le> t" "starts_with ''dedupe:'' k"
    then show "mem_entry (snd (analyzed_stage cs now m kv)) t k = mem_entry kv t k"
      using analyze_other [of "at_time now" t k "cs_env cs" cs "message_content m" "(kv, cs_services cs now m)" "[]"]
      by (simp add: analyzed_stage_def at_time_def case_prod_beta)
  qed
qed

lemma claimed_after_attempt:
  assumes "content_stage s = analyzed_stage cs" and "\<not> fst (is_bounce_or_ndr (in_from m) (in_from_header m))"
    and "mem_entry (gw_kv g) (tk_now k) (dedupe_key s (in_raw m)) = None" and "0 < dedupe_ttl s"
    and "sorted (tk_now k # map (tk_now \<circ> fst) ms)"
    and "\<forall>(k', m') \<in> set ms. tk_now k' < tk_now k + of_int (dedupe_ttl s)"
  shows "\<forall>(m', g1, r, g2) \<in> set (gateway_trace s ms (snd (process_message s k m g))).
     in_raw m' = in_raw m \<longrightarrow> skipped r \<and> g2 = g1\<lparr>gw_kv := gw_kv g2\<rparr>"
proof -
  note keep = analyzed_stage_keeps_dedupe [OF assms(1)]
  show ?thesis
  proof (rule claimed_trace [OF keep claim_made assms(5,6)])
    show "tk_now k < tk_now k + of_int (dedupe_ttl s)" using assms(4) by simp
  qed (use assms keep in auto)
qed

text \<open>C34: Once a message that is no bounce has been seen, no message with the same bytes is processed again within the
  time to live, the providers' caches sharing the store with the claims: whatever the first attempt came to.\<close>
theorem one_attempt_with_caches:
  assumes "content_stage s = analyzed_stage cs" and "\<not> fst (is_bounce_or_ndr (in_from m) (in_from_header m))"
    and "mem_entry (gw_kv g) (tk_now k) (dedupe_key s (in_raw m)) = None" and "0 < dedupe_ttl s"
    and "sorted (tk_now k # map (tk_now \<circ> fst) ms)"
    and "\<forall>(k', m') \<in> set ms. tk_now k' < tk_now k + of_int (dedupe_ttl s)"
  shows "\<forall>(m', g1, r, g2) \<in> set (gateway_trace s ms (snd (process_message s k m g))).
     in_raw m' = in_raw m \<longrightarrow> skipped r \<and> g2 = g1\<lparr>gw_kv := gw_kv g2\<rparr>"
  using assms by (rule claimed_after_attempt)

subsection \<open>A malicious link\<close>

text \<open>The response's report of the content stage lists a link flagged malicious.\<close>

definition lists_malicious :: "json \<Rightarrow> bool" where
  "lists_malicious j = (case dfield j ''url_findings'' of
       JList fs \<Rightarrow> list_ex (\<lambda>f. dfield f ''reputation'' = JStr ''malicious'') fs
     | _ \<Rightarrow> False)"

lemma lists_malicious_iff:
  "lists_malicious (content_as_dict v) \<longleftrightarrow> (\<exists>f \<in> set (cv_urls v). uf_reputation f = ''malicious'')"
  by (auto simp: lists_malicious_def content_as_dict_def dfield_def dgetd_def url_finding_dict_def list_ex_iff)

lemma auth_score_nonneg: "0 \<le> av_score (fst (run_auth_checks w st raw ip ef))"
  using run_auth_checks_fields [of w st raw ip ef]
    sender_points_range [of "the (av_arc (fst (run_auth_checks w st raw ip ef)))"
      "av_spf (fst (run_auth_checks w st raw ip ef))" "av_dkim (fst (run_auth_checks w st raw ip ef))"
      "av_dmarc (fst (run_auth_checks w st raw ip ef))"]
  by (simp add: Let_def)

lemma vip_boost:
  "0 \<le> default_score_boost eng \<Longrightarrow>
   0 \<le> (case active_vip (Some (vip_evaluate eng h ns rs)) of None \<Rightarrow> 0 | Some v \<Rightarrow> vip_score_boost v)"
  by (auto simp: active_vip_def vip_evaluate_def no_vip_def Let_def)

lemma campaign_boost_nonneg:
  assumes "0 \<le> cc_score_boost eng"
  shows "0 \<le> campaign_boost (fst (evaluate_and_register fh cn eng now b sub d))"
  using assms by (simp add: evaluate_and_register_def no_campaign_def Let_def case_prod_beta)

lemma campaign_check_boost:
  assumes "0 \<le> cc_score_boost (gw_campaigns g)"
  shows "0 \<le> (case active_campaign (fst (campaign_check s now m g)) of None \<Rightarrow> 0 | Some c \<Rightarrow> campaign_boost c)"
  using campaign_boost_nonneg [OF assms, of "site_feature s" "site_cluster s" now]
  by (auto simp: campaign_check_def active_campaign_def Let_def case_prod_beta)

lemma default_config_weigh:
  assumes "cfg = get_config w q cs (Some t)" "dget cs t = None" "stage x \<in> {''auth'', ''content'', ''attachments''}"
  shows "score_delta (weigh (Some cfg) x) = score_delta x"
  using assms by (auto simp: weigh_def get_config_def default_weights_def dgetd_def Let_def)

text \<open>What the stages gave a processed message.\<close>

lemma run_stages_given:
  assumes "run_stages s k m g = (Inr (Processed mid h d r au co att), g')"
  obtains cmp kv bl where
    "fst (content_stage s (tk_now k) (m\<lparr>in_vips := vip_names s m\<rparr>) (gw_kv g)) = Inr co"
    "attachment_stage s (tk_now k) (in_raw m) = Inr att"
    "au = fst (run_auth_checks (site_auth s) (gw_baseline g) (in_raw m) (in_ip m) (in_from m))"
    "cmp = fst (campaign_check s (tk_now k) m (g\<lparr>gw_baseline := bl, gw_kv := kv\<rparr>))"
    "decide_message s m au co att cmp (gw_feedback g) = Inr d"
proof -
  obtain au0 bl where au: "run_auth_checks (site_auth s) (gw_baseline g) (in_raw m) (in_ip m) (in_from m) = (au0, bl)"
    by (cases "run_auth_checks (site_auth s) (gw_baseline g) (in_raw m) (in_ip m) (in_from m)")
  obtain co0 kv where co: "content_stage s (tk_now k) (m\<lparr>in_vips := vip_names s m\<rparr>) (gw_kv g) = (co0, kv)"
    by (cases "content_stage s (tk_now k) (m\<lparr>in_vips := vip_names s m\<rparr>) (gw_kv g)")
  define g2 where "g2 = g\<lparr>gw_baseline := bl, gw_kv := kv\<rparr>"
  obtain cmp g3 where g3: "campaign_check s (tk_now k) m g2 = (cmp, g3)"
    by (cases "campaign_check s (tk_now k) m g2")
  have f: "gw_feedback g3 = gw_feedback g"
    using campaign_check_frame [of s "tk_now k" m g2, unfolded g3 snd_conv] by (simp add: g2_def)
  from assms obtain co1 att1 d1 where c: "co0 = Inr co1" "attachment_stage s (tk_now k) (in_raw m) = Inr att1"
    "decide_message s m au0 co1 att1 cmp (gw_feedback g3) = Inr d1"
    and act: "act_on s k m au0 co1 att1 d1 g3 = (Inr (Processed mid h d r au co att), g')"
    by (auto simp: run_stages_def Let_def au co g3 g2_def [symmetric] split: sum.splits)
  from act have "d = d1" "au = au0" "co = co1" "att = att1" by (auto elim: act_on_Processed)
  with c f co au g3 show ?thesis by (intro that [of cmp kv bl]) (simp_all add: g2_def)
qed

lemma sum_three: "total_of (map (weigh cfg) [x, y, z]) =
   score_delta (weigh cfg x) + score_delta (weigh cfg y) + score_delta (weigh cfg z)"
  by (simp add: total_of_def)

lemma process_Processed_kv:
  assumes "process_message s k m g = (Inr (Processed mid h d r au co att), g')"
  obtains kv where "run_stages s k m (store_raw_message s (tk_raw_nonce k) (in_id m) (in_raw m) (g\<lparr>gw_kv := kv\<rparr>)) =
      (Inr (Processed mid h d r au co att), g')"
proof (cases "fst (is_bounce_or_ndr (in_from m) (in_from_header m))")
  case True
  then show ?thesis using assms by (simp add: process_bounce)
next
  case False
  show ?thesis
  proof (cases "mem_entry (gw_kv g) (tk_now k) (dedupe_key s (in_raw m))")
    case None
    from process_new [OF False None] assms that show ?thesis by metis
  next
    case (Some e)
    then show ?thesis using assms False by (simp add: process_duplicate)
  qed
qed

lemma classify_quarantine: "q \<le> score \<Longrightarrow> classify w q score = QUARANTINE"
  by (simp add: classify_def)

text \<open>The score of the content stage.\<close>

lemma content_stage_score:
  assumes "content_stage s = analyzed_stage cs"
    and "process_message s k m g = (Inr (Processed mid h d r au co att), g')"
  shows "0 \<le> v_score co \<and> (lists_malicious (v_dict co) \<longrightarrow> 100 \<le> v_score co)"
proof -
  from process_Processed_kv [OF assms(2)] obtain kv0 where
    run: "run_stages s k m (store_raw_message s (tk_raw_nonce k) (in_id m) (in_raw m) (g\<lparr>gw_kv := kv0\<rparr>)) =
      (Inr (Processed mid h d r au co att), g')" .
  define g0 where "g0 = store_raw_message s (tk_raw_nonce k) (in_id m) (in_raw m) (g\<lparr>gw_kv := kv0\<rparr>)"
  let ?a = "analyze_content (cs_env cs) (site_providers cs) (message_content (m\<lparr>in_vips := vip_names s m\<rparr>))
    (at_time (tk_now k)) ((gw_kv g0, cs_services cs (tk_now k) (m\<lparr>in_vips := vip_names s m\<rparr>)), [])"
  from run_stages_given [OF run [folded g0_def]] have
    co: "fst (analyzed_stage cs (tk_now k) (m\<lparr>in_vips := vip_names s m\<rparr>) (gw_kv g0)) = Inr co"
    unfolding assms(1) by metis
  obtain v0 st' rel' where a: "?a = (v0, st', rel')" by (metis prod_cases3)
  with co obtain v where "v0 = Inr v" "co = verdict_of v"
    by (cases v0) (auto simp: analyzed_stage_def case_prod_beta)
  with a link_score_at_least [of "cs_env cs" "site_providers cs" "message_content (m\<lparr>in_vips := vip_names s m\<rparr>)"]
  show ?thesis by (fastforce simp: verdict_of_def lists_malicious_iff)
qed

text \<open>Under a tenant's default configuration with a quarantine threshold of at most 100, a hundred points of the
  content and attachment stages quarantine the message, unless the sender's domain has earned a negative feedback
  adjustment.\<close>

lemma quarantined_at_hundred:
  assumes "process_message s k m g = (Inr (Processed mid h d r au co att), g')"
    and "100 \<le> v_score co + v_score att"
    and "dget (site_configs s) (in_tenant m) = None" and "site_quarantine s \<le> 100"
    and "0 \<le> get_domain_adjustment (gw_feedback g) (email_domain (in_from m))"
    and "0 \<le> default_score_boost (site_vip_engine s)" and "0 \<le> cc_score_boost (gw_campaigns g)"
  shows "decision_action d = QUARANTINE"
proof -
  from process_Processed_kv [OF assms(1)] obtain kv0 where
    run: "run_stages s k m (store_raw_message s (tk_raw_nonce k) (in_id m) (in_raw m) (g\<lparr>gw_kv := kv0\<rparr>)) =
      (Inr (Processed mid h d r au co att), g')" .
  define g0 where "g0 = store_raw_message s (tk_raw_nonce k) (in_id m) (in_raw m) (g\<lparr>gw_kv := kv0\<rparr>)"
  have g0: "gw_feedback g0 = gw_feedback g" "gw_campaigns g0 = gw_campaigns g"
    by (simp_all add: g0_def store_raw_message_def)
  from run_stages_given [OF run [folded g0_def]] obtain cmp kv bl where
    au: "au = fst (run_auth_checks (site_auth s) (gw_baseline g0) (in_raw m) (in_ip m) (in_from m))"
    and cmp: "cmp = fst (campaign_check s (tk_now k) m (g0\<lparr>gw_baseline := bl, gw_kv := kv\<rparr>))"
    and d: "decide_message s m au co att cmp (gw_feedback g0) = Inr d"
    by metis
  have "0 \<le> av_score au" unfolding au by (rule auth_score_nonneg)
  moreover have "0 \<le> (case active_campaign cmp of None \<Rightarrow> 0 | Some c \<Rightarrow> campaign_boost c)"
    unfolding cmp using assms(7) g0 by (intro campaign_check_boost) simp
  moreover have "0 \<le> (case active_vip (Some (vip_evaluate (site_vip_engine s) (in_from_header m) (vip_names s m) (v_reasons co))) of
      None \<Rightarrow> 0 | Some v \<Rightarrow> vip_score_boost v)" by (rule vip_boost [OF assms(6)])
  moreover let ?cfg = "get_config (site_warn s) (site_quarantine s) (site_configs s) (Some (in_tenant m))"
  let ?vip = "Some (vip_evaluate (site_vip_engine s) (in_from_header m) (vip_names s m) (v_reasons co))"
  let ?ss = "[\<lparr>stage = ''auth'', score_delta = av_score au, stage_reasons = av_reasons au\<rparr>,
            \<lparr>stage = ''content'', score_delta = v_score co, stage_reasons = v_reasons co\<rparr>,
            \<lparr>stage = ''attachments'', score_delta = v_score att, stage_reasons = v_reasons att\<rparr>]"
  have "total_of (map (weigh (Some ?cfg)) ?ss) = av_score au + v_score co + v_score att"
    unfolding sum_three by (simp add: default_config_weigh [OF refl assms(3)])
  ultimately have total: "100 \<le> risk_total (map (weigh (Some ?cfg)) ?ss)
      (get_domain_adjustment (gw_feedback g0) (email_domain (in_from m))) ?vip cmp"
    using assms(2,5) g0 by (simp only: risk_total_def)
  note d' = d [unfolded decide_message_def Let_def]
  have "base_quarantine (Some ?cfg) (site_quarantine s) \<le> 100"
    using assms(3,4) by (simp add: base_quarantine_def get_config_def Let_def)
  with decide_Inr_thresholds [OF d'] have "snd (effective_thresholds (Some ?cfg) ?vip (site_warn s) (site_quarantine s)) \<le> 100"
    by linarith
  with total decide_core [OF d'] show ?thesis
    by (simp add: route_def classify_quarantine)
qed

subsection \<open>Instances\<close>

text \<open>A site whose VirusTotal knows every URL to be malicious and whose RDAP is down.\<close>

definition phish_http :: "string \<Rightarrow> unit \<Rightarrow> (http_exn + reply) \<times> unit" where
  "phish_http url w = (if starts_with ''https://rdap'' url then Inl (RequestError ''down'')
     else Inr \<lparr>reply_status = 200, reply_json = Some (JDict [(''data'', JDict [(''attributes'', JDict
       [(''last_analysis_stats'', JDict [(''malicious'', JInt 3)])])])])\<rparr>, w)"

definition phish_content :: "unit content_site" where
  "phish_content = \<lparr>cs_env = example_env, cs_iso = (\<lambda>_. None), cs_http = phish_http, cs_post = (\<lambda>_. phish_http),
     cs_vt_key = ''key'', cs_gsb_key = [], cs_age_ttl = 21600, cs_reputation_ttl = 1800,
     cs_services = (\<lambda>_ _. (\<lparr>up_breaker = cb_new ''rdap'' 5 30, up_world = ()\<rparr>,
       \<lparr>up_breaker = cb_new ''virustotal_url'' 5 30, up_world = ()\<rparr>))\<rparr>"

definition phish_site_with :: "(rat \<Rightarrow> string \<Rightarrow> verdict result) \<Rightarrow> (nat \<times> (string \<times> string list) list) site" where
  "phish_site_with scan = (example_site (Inl (OtherError ''unused'')))
     \<lparr>content_stage := analyzed_stage phish_content, attachment_stage := scan\<rparr>"

abbreviation phish_site :: "(nat \<times> (string \<times> string list) list) site" where
  "phish_site \<equiv> phish_site_with (\<lambda>_ _. Inr \<lparr>v_score = 0, v_reasons = [], v_dict = JNull\<rparr>)"

definition phish_message :: inbound where
  "phish_message = (example_inbound [''c@d.io''])\<lparr>in_text := ''http://e.ru''\<rparr>"

lemma phish_lookups:
  "fst (rdap_check (cs_iso phish_content) (cs_http phish_content) (at_time 5) ''e.ru'' (fst (cs_services phish_content 5 m))) = Inr None"
  "fst (configured_check (cs_vt_key phish_content) (cs_gsb_key phish_content) (cs_http phish_content) (cs_post phish_content)
     (at_time 5) ''http://e.ru'' (snd (cs_services phish_content 5 m))) = Inr (''malicious'', ''virustotal'')"
  unfolding phish_content_def content_site.select_convs fst_conv snd_conv by code_simp+

lemma cached_age_miss:
  assumes "mem_entry kv (mo_now mo) (age_key d) = None" "fst (age mo d st) = Inr None"
  shows "\<exists>kv' st'. cached_age age ttl mo d (kv, st) = (Inr None, kv', st') \<and>
    (\<forall>t k. mo_now mo \<le> t \<longrightarrow> k \<noteq> age_key d \<longrightarrow> mem_entry kv' t k = mem_entry kv t k)"
proof -
  obtain r kv' st' where c: "cached_age age ttl mo d (kv, st) = (r, kv', st')" by (metis prod_cases3)
  have "fst (mem_get kv (mo_now mo) (age_key d)) = None" using assms(1) by (simp add: mem_get_result)
  with c assms(2) have "r = Inr None"
    by (auto simp: cached_age_def split: prod.splits sum.splits option.splits)
  with c cached_age_other [OF c] show ?thesis by blast
qed

lemma cached_check_miss:
  assumes "mem_entry kv (mo_now mo) (reputation_key url) = None" "fst (check mo url st) = Inr p"
  shows "\<exists>s'. cached_check check ttl mo url (kv, st) = (Inr p, s')"
proof -
  have "fst (mem_get kv (mo_now mo) (reputation_key url)) = None" using assms(1) by (simp add: mem_get_result)
  with assms(2) show ?thesis
    by (cases "mem_get kv (mo_now mo) (reputation_key url)"; cases "check mo url st"; cases p) (simp add: cached_check_def)
qed

lemma phish_stage:
  assumes "mem_entry kv 5 (age_key ''e.ru'') = None" "mem_entry kv 5 (reputation_key ''http://e.ru'') = None"
  shows "\<exists>v. fst (analyzed_stage phish_content 5 (phish_message\<lparr>in_vips := []\<rparr>) kv) = Inr (verdict_of v) \<and>
    lists_malicious (content_as_dict v)"
proof -
  let ?m = "phish_message\<lparr>in_vips := []\<rparr>"
  let ?ci = "message_content ?m"
  let ?url = "\<lparr>url_raw = ''http://e.ru'', url_domain = ''e.ru'', is_ip_literal = False\<rparr>"
  let ?st = "(kv, cs_services phish_content 5 ?m)"
  have now: "mo_now (at_time 5) = 5" by (simp add: at_time_def)
  obtain a b where s: "cs_services phish_content 5 ?m = (a, b)" by (cases "cs_services phish_content 5 ?m")
  obtain kv1 a1 where age: "cached_age (rdap_check (cs_iso phish_content) (cs_http phish_content)) (cs_age_ttl phish_content)
      (at_time 5) ''e.ru'' (kv, a) = (Inr None, kv1, a1)"
    and kv1: "mem_entry kv1 5 (reputation_key ''http://e.ru'') = None"
    using cached_age_miss [of kv "at_time 5" "''e.ru''" "rdap_check (cs_iso phish_content) (cs_http phish_content)" a
        "cs_age_ttl phish_content", unfolded now, OF assms(1) phish_lookups(1) [of ?m, unfolded s fst_conv]]
      assms(2) by (fastforce simp: age_key_def reputation_key_def)
  obtain s2 where rep: "cached_check (configured_check (cs_vt_key phish_content) (cs_gsb_key phish_content)
      (cs_http phish_content) (cs_post phish_content)) (cs_reputation_ttl phish_content) (at_time 5) ''http://e.ru'' (kv1, b) =
      (Inr (''malicious'', ''virustotal''), s2)"
    using cached_check_miss [of kv1 "at_time 5" "''http://e.ru''" "configured_check (cs_vt_key phish_content)
        (cs_gsb_key phish_content) (cs_http phish_content) (cs_post phish_content)" b, unfolded now,
        OF kv1 phish_lookups(2) [of ?m, unfolded s snd_conv]]
    by blast
  obtain f p br st' where l: "check_link example_env (site_providers phish_content) ?ci (at_time 5) ?url ?st = (Inr (f, p, br), st')"
    and f: "uf_reputation f = ''malicious''"
    by (simp add: check_link_def site_providers_def site_age_def site_reputation_def s age rep case_prod_beta Let_def)
  have u: "extract_urls (ce_html example_env) (ci_text ?ci) (ci_html ?ci) = [?url]"
    using example_links by (simp add: message_content_def phish_message_def example_inbound_def)
  have q: "detect_qr_codes (ce_images example_env) (ci_images ?ci) =
      \<lparr>has_qr_code = False, decoded_urls = [], qr_explanation = []\<rparr>"
    by (simp add: detect_qr_codes_def message_content_def)
  have env: "cs_env phish_content = example_env" by (simp add: phish_content_def)
  have "\<exists>v. fst (analyze_content example_env (site_providers phish_content) ?ci (at_time 5) (?st, [])) = Inr v \<and> cv_urls v = [f]"
    by (simp add: analyze_content_def u q l Let_def case_prod_beta)
  with f show ?thesis
    by (auto simp: analyzed_stage_def env lists_malicious_iff case_prod_beta)
qed

lemma phish_processed:
  assumes "scan 5 (in_raw phish_message) = Inr att"
  shows "\<exists>mid h d r au co g'. process_message (phish_site_with scan) (example_tick 5) phish_message example_gateway =
     (Inr (Processed mid h d r au co att), g') \<and> lists_malicious (v_dict co)"
proof -
  let ?s = "phish_site_with scan"
  let ?k = "example_tick 5"
  have nb: "\<not> fst (is_bounce_or_ndr (in_from phish_message) (in_from_header phish_message))"
    using example_not_bounce [of "[]"] by (simp add: phish_message_def example_inbound_def)
  have k: "tk_now ?k = 5" by (simp add: example_tick_def)
  define claim where "claim = mem_set_if_not_exists (gw_kv example_gateway) 5 (dedupe_key ?s (in_raw phish_message))
      (in_id phish_message) (Some (dedupe_ttl ?s))"
  define g where "g = store_raw_message ?s (tk_raw_nonce ?k) (in_id phish_message) (in_raw phish_message)
      (example_gateway\<lparr>gw_kv := snd claim\<rparr>)"
  have "fst claim" unfolding claim_def by (simp add: mem.setnx_result example_new)
  then have run: "process_message ?s ?k phish_message example_gateway = run_stages ?s ?k phish_message g"
    using nb by (cases claim) (auto simp: process_message_def k claim_def [symmetric] g_def split: prod.splits)
  have other: "mem_entry (gw_kv g) 5 key = None" if "\<not> starts_with ''dedupe:'' key" for key
  proof -
    have "key \<noteq> dedupe_key ?s (in_raw phish_message)" using that starts_with_append unfolding dedupe_key_def by metis
    then show ?thesis
      by (simp add: g_def store_raw_message_def claim_def mem.setnx_entry example_new)
  qed
  have "mem_entry (gw_kv g) 5 (age_key ''e.ru'') = None" "mem_entry (gw_kv g) 5 (reputation_key ''http://e.ru'') = None"
    by (rule other; simp add: age_key_def reputation_key_def starts_with_def)+
  from phish_stage [OF this] obtain v where v:
    "fst (analyzed_stage phish_content 5 (phish_message\<lparr>in_vips := []\<rparr>) (gw_kv g)) = Inr (verdict_of v)"
    "lists_malicious (content_as_dict v)" by blast
  have "\<exists>d r au g'. run_stages ?s ?k phish_message g = (Inr (Processed (in_id phish_message)
      (message_hash ?s (in_raw phish_message)) d r au (verdict_of v) att), g')"
    by (rule run_stages_delivers)
      (use example_deliver_ok v(1) assms in \<open>simp_all add: phish_site_with_def example_site_def base_warn_def base_quarantine_def
        get_config_def Let_def vip_names_def phish_message_def example_inbound_def example_tick_def\<close>)
  with run v(2) show ?thesis by (fastforce simp: verdict_of_def)
qed

text \<open>A second delivery of that message.\<close>

theorem one_attempt_with_caches_witness:
  "let (r, g) = process_message phish_site (example_tick 5) phish_message example_gateway;
       (r', g') = process_message phish_site (example_tick 9) phish_message g
   in skipped r' \<and> gw_scene g' = gw_scene g"
proof -
  obtain r g where p: "process_message phish_site (example_tick 5) phish_message example_gateway = (r, g)"
    by (cases "process_message phish_site (example_tick 5) phish_message example_gateway")
  obtain r' g' where p': "process_message phish_site (example_tick 9) phish_message g = (r', g')"
    by (cases "process_message phish_site (example_tick 9) phish_message g")
  have nb: "\<not> fst (is_bounce_or_ndr (in_from phish_message) (in_from_header phish_message))"
    using example_not_bounce [of "[]"] by (simp add: phish_message_def example_inbound_def)
  have "content_stage phish_site = analyzed_stage phish_content" by (simp add: phish_site_with_def)
  from one_attempt_with_caches [OF this nb example_new, of "example_tick 5" "[(example_tick 9, phish_message)]"]
  have "skipped r' \<and> g' = g\<lparr>gw_kv := gw_kv g'\<rparr>"
    using p p' by (simp add: example_tick_def phish_site_with_def example_site_def)
  then have "skipped r'" "gw_scene g' = gw_scene g"
    by (simp_all, metis gateway.select_convs(6) gateway.surjective gateway.update_convs(1))
  then show ?thesis by (simp add: p p')
qed

end
