(* ===== verification/Attachments.thy ===== *)
theory Attachments
  imports Regex
begin

text \<open>
  The checks of \<open>attachment_analysis\<close> that look at one file: \<open>extract.py\<close>, \<open>extensions.py\<close>, \<open>magic_bytes.py\<close>,
  \<open>polyglot.py\<close>, \<open>archives.py\<close>, \<open>document_links.py\<close>, \<open>document_analysis.py\<close>, \<open>policy.py\<close> and \<open>sandbox.py\<close>.
  The \<open>email\<close>, \<open>zipfile\<close> and \<open>tarfile\<close> modules are parameters: what they make of a text of bytes, their
  exceptions included.
\<close>

subsection \<open>Attachments of a message\<close>

record attachment =
  at_name :: string
  at_data :: string
  at_type :: string

text \<open>One part of the walk over a parsed message; the payload is \<^term>\<open>None\<close> where decoding raises or gives
  \<open>None\<close>. The parser answers whether the message is multipart, and its parts, or raises.\<close>

record mime_part =
  mp_multipart :: bool
  mp_disposition :: "string option"
  mp_filename :: "string option"
  mp_type :: string
  mp_payload :: "string option"

type_synonym mail_parser = "string \<Rightarrow> (bool \<times> mime_part list) option"

definition or_empty :: "string option \<Rightarrow> string" where
  "or_empty x = (case x of None \<Rightarrow> [] | Some s \<Rightarrow> s)"

definition part_attachment :: "mime_part \<Rightarrow> attachment option" where
  "part_attachment p =
     (let disposition = or_empty (mp_disposition p); filename = or_empty (mp_filename p); payload = or_empty (mp_payload p)
      in if mp_multipart p then None
         else if disposition \<noteq> ''attachment'' \<and> filename = [] then None
         else if payload = [] then None
         else Some \<lparr>at_name = (if filename \<noteq> [] then filename else ''unnamed-attachment''),
                    at_data = payload, at_type = mp_type p\<rparr>)"

definition extract_attachments :: "mail_parser \<Rightarrow> string \<Rightarrow> attachment list" where
  "extract_attachments parse raw_message = (case parse raw_message of
       None \<Rightarrow> []
     | Some (multipart, parts) \<Rightarrow> if \<not> multipart then [] else List.map_filter part_attachment parts)"

text \<open>A message that is itself one file has no attachments, whatever its headers say.\<close>

lemma single_part_file_ignored:
  "parse raw = Some (False, [p]) \<Longrightarrow> extract_attachments parse raw = []"
  by (simp add: extract_attachments_def)

subsection \<open>Extensions\<close>

definition dangerous_extensions :: "string list" where
  "dangerous_extensions =
     [''.exe'', ''.scr'', ''.bat'', ''.cmd'', ''.com'', ''.pif'', ''.vbs'', ''.vbe'', ''.js'', ''.jse'',
      ''.ws'', ''.wsf'', ''.msi'', ''.msp'', ''.ps1'', ''.psm1'', ''.jar'', ''.lnk'', ''.hta'', ''.chm'',
      ''.reg'', ''.dll'', ''.cpl'', ''.sys'']"

definition extensions :: "string \<Rightarrow> string list" where
  "extensions filename =
     (let name = after_last (CHR ''/'') (lower filename)
      in map (\<lambda>p. CHR ''.'' # p) (tl (split_char (CHR ''.'') name)))"

definition is_dangerous_extension :: "string \<Rightarrow> bool" where
  "is_dangerous_extension filename =
     (let exts = extensions filename in exts \<noteq> [] \<and> last exts \<in> set dangerous_extensions)"

definition is_double_extension :: "string \<Rightarrow> bool" where
  "is_double_extension filename =
     (let exts = extensions filename
      in length exts \<ge> 2 \<and> last exts \<in> set dangerous_extensions \<and>
         last (butlast exts) \<notin> set dangerous_extensions)"

lemma double_is_dangerous: "is_double_extension f \<Longrightarrow> is_dangerous_extension f"
  by (auto simp: is_double_extension_def is_dangerous_extension_def Let_def)

lemma split_char_tl: "tl (split_char c s) = [] \<longleftrightarrow> c \<notin> set s"
proof (induction s)
  case (Cons x s)
  then show ?case by (cases "split_char c s") auto
qed simp

text \<open>The last extension decides; a dot or a blank after it, which Windows drops, hides it.\<close>

lemma dangerous_extension_iff:
  "is_dangerous_extension filename \<longleftrightarrow>
     (let name = after_last (CHR ''/'') (lower filename)
      in CHR ''.'' \<in> set name \<and> CHR ''.'' # after_last (CHR ''.'') name \<in> set dangerous_extensions)"
proof -
  define name where "name = after_last (CHR ''/'') (lower filename)"
  define ps where "ps = split_char (CHR ''.'') name"
  have "CHR ''.'' \<in> set name \<longleftrightarrow> tl ps \<noteq> []" by (simp add: ps_def split_char_tl)
  moreover have "tl ps \<noteq> [] \<Longrightarrow> last (tl ps) = last ps" by (simp add: last_tl)
  ultimately show ?thesis
    by (auto simp: is_dangerous_extension_def extensions_def Let_def after_last_def [of "CHR ''.''"] last_map
        simp flip: name_def ps_def)
qed

lemma trailing_dot_hides_extension: "\<not> is_dangerous_extension ''invoice.exe.''"
  by (simp add: is_dangerous_extension_def extensions_def dangerous_extensions_def lower_def lower_char_def
      after_last_def Let_def)

text \<open>\<open>os.path.basename\<close> and \<open>os.path.splitext(p)[1]\<close> on POSIX: leading dots of the name start no extension.\<close>

definition basename :: "string \<Rightarrow> string" where
  "basename p = after_last (CHR ''/'') p"

definition splitext :: "string \<Rightarrow> string" where
  "splitext p = (let name = dropWhile (\<lambda>c. c = CHR ''.'') (basename p)
     in if CHR ''.'' \<in> set name then CHR ''.'' # after_last (CHR ''.'') name else [])"

subsection \<open>Magic bytes\<close>

definition bytes :: "nat list \<Rightarrow> string" where
  "bytes ns = map char_of ns"

definition magic_signatures :: "(string \<times> string \<times> string list) list" where
  "magic_signatures =
     [(''MZ'', ''Windows Executable (PE)'', [''.exe'', ''.dll'', ''.scr'', ''.pif'', ''.cpl'', ''.sys'']),
      (CHR 0x7F # ''ELF'', ''Linux Executable (ELF)'', [''.elf'', ''.bin'', ''.so'', ''.out'']),
      (bytes [0xCA, 0xFE, 0xBA, 0xBE], ''Java/Mach-O Executable'', [''.class'', ''.macho'']),
      (bytes [0xFE, 0xED, 0xFA, 0xCE], ''Mach-O 32-bit Executable'', [''.macho'']),
      (bytes [0xFE, 0xED, 0xFA, 0xCF], ''Mach-O 64-bit Executable'', [''.macho'']),
      (bytes [0xCE, 0xFA, 0xED, 0xFE], ''Mach-O Executable'', [''.macho''])]"

definition png_header :: string where
  "png_header = bytes [0x89] @ ''PNG'' @ bytes [0x0D, 0x0A, 0x1A, 0x0A]"

definition pk :: "nat \<Rightarrow> nat \<Rightarrow> string" where
  "pk a b = ''PK'' @ bytes [a, b]"

definition safe_signatures :: "(string, string list) dict" where
  "safe_signatures =
     [(''.pdf'', [''%PDF-'']), (''.png'', [png_header]), (''.jpg'', [bytes [0xFF, 0xD8, 0xFF]]),
      (''.jpeg'', [bytes [0xFF, 0xD8, 0xFF]]), (''.gif'', [''GIF87a'', ''GIF89a'']),
      (''.zip'', [pk 3 4, pk 5 6, pk 7 8])]"

record magic_result =
  is_extension_spoofed :: bool
  detected_type :: string
  magic_reason :: string

definition starts_any :: "string list \<Rightarrow> string \<Rightarrow> bool" where
  "starts_any magics data = list_ex (\<lambda>m. starts_with m data) magics"

text \<open>The first executable signature the file starts with.\<close>

definition executable_header :: "string \<Rightarrow> (string \<times> string \<times> string list) option" where
  "executable_header data = find (\<lambda>(magic, _, _). starts_with magic data) magic_signatures"

text \<open>The first other format whose header the file has, when it lacks that of its own extension.\<close>

definition other_format :: "string \<Rightarrow> string \<Rightarrow> string option" where
  "other_format ext data = (case dget safe_signatures ext of
       None \<Rightarrow> None
     | Some expected \<Rightarrow>
         if starts_any expected data then None
         else map_option fst (find (\<lambda>(other, magics). other \<noteq> ext \<and> starts_any magics data) safe_signatures))"

definition verify_file_magic :: "string \<Rightarrow> string \<Rightarrow> magic_result" where
  "verify_file_magic filename data =
     (if data = [] \<or> filename = [] then \<lparr>is_extension_spoofed = False, detected_type = ''unknown'', magic_reason = []\<rparr>
      else let ext = splitext (lower filename) in
        case executable_header data of
          Some (_, label, valid_exts) \<Rightarrow>
            if ext \<notin> set valid_exts
            then \<lparr>is_extension_spoofed = True, detected_type = label,
                  magic_reason = ''file '' @ quoted filename @ '' has extension '' @ quoted ext @ '' but starts with '' @
                    label @ '' header magic bytes''\<rparr>
            else \<lparr>is_extension_spoofed = False, detected_type = label, magic_reason = []\<rparr>
        | None \<Rightarrow> (case other_format ext data of
            Some other \<Rightarrow> \<lparr>is_extension_spoofed = True, detected_type = ''mismatched ('' @ other @ '')'',
                magic_reason = ''file '' @ quoted filename @ '' claims extension '' @ quoted ext @ '' but starts with '' @
                  other @ '' magic bytes''\<rparr>
          | None \<Rightarrow> \<lparr>is_extension_spoofed = False, detected_type = ''normal'', magic_reason = []\<rparr>))"

lemma pe_header_spoofed:
  assumes "starts_with ''MZ'' data" "filename \<noteq> []"
  shows "is_extension_spoofed (verify_file_magic filename data) \<longleftrightarrow>
    splitext (lower filename) \<notin> {''.exe'', ''.dll'', ''.scr'', ''.pif'', ''.cpl'', ''.sys''}"
proof -
  have "data \<noteq> []" using assms(1) by (auto simp: starts_with_iff)
  with assms show ?thesis
    by (auto simp: verify_file_magic_def executable_header_def magic_signatures_def Let_def)
qed

subsection \<open>Polyglots\<close>

record polyglot_result =
  is_polyglot :: bool
  detected_formats :: "string list"
  polyglot_explanation :: string

definition format_signatures :: "(string \<times> string list) list" where
  "format_signatures =
     [(''GIF'', [''GIF89a'', ''GIF87a'']), (''ZIP'', [pk 3 4]), (''PDF'', [''%PDF-'']), (''PNG'', [png_header]),
      (''EXE'', [''MZ'']), (''JAVA'', [bytes [0xCA, 0xFE, 0xBA, 0xBE]]),
      (''RAR'', [''Rar!'' @ bytes [0x1A, 7, 0], ''Rar!'' @ bytes [0x1A, 7, 1, 0]])]"

definition has_format :: "string \<Rightarrow> string \<times> string list \<Rightarrow> bool" where
  "has_format data = (\<lambda>(fmt, sigs). list_ex (\<lambda>sig. contains sig data) sigs)"

definition formats_in :: "string \<Rightarrow> string list" where
  "formats_in data = map fst (filter (has_format data) format_signatures)"

definition detect_polyglot_file :: "string \<Rightarrow> polyglot_result" where
  "detect_polyglot_file data =
     (if data = [] \<or> length data < 10 then \<lparr>is_polyglot = False, detected_formats = [], polyglot_explanation = []\<rparr>
      else let detected = formats_in data;
               several = length detected > 1;
               usual = (''ZIP'' \<in> set detected \<and> length detected = 2 \<and>
                 list_ex (\<lambda>f. f \<in> set detected) [''JAR'', ''DOCX'', ''XLSX'']);
               poly = (several \<and> \<not> usual)
           in \<lparr>is_polyglot = poly, detected_formats = detected,
               polyglot_explanation = (if poly then ''Polyglot file evasion detected: file contains signatures for '' @
                 join '', '' detected else [])\<rparr>)"

text \<open>The exception for JAR and Office files is dead: no such format is ever detected.\<close>

lemma formats_in_names: "set (formats_in data) \<subseteq> {''GIF'', ''ZIP'', ''PDF'', ''PNG'', ''EXE'', ''JAVA'', ''RAR''}"
  by (auto simp: formats_in_def format_signatures_def)

lemma formats_distinct: "distinct (map fst format_signatures)"
  by (simp add: format_signatures_def)

lemma two_of_distinct:
  assumes "distinct (map fst ps)"
  shows "length (filter P ps) > 1 \<longleftrightarrow> (\<exists>p \<in> set ps. \<exists>q \<in> set ps. fst p \<noteq> fst q \<and> P p \<and> P q)"
proof
  assume "length (filter P ps) > 1"
  then obtain p q rest where f: "filter P ps = p # q # rest"
    by (cases "filter P ps" rule: list.exhaust; cases "tl (filter P ps)") auto
  have "distinct (map fst (filter P ps))" using assms by (rule distinct_map_filter)
  with f have "fst p \<noteq> fst q" by simp
  moreover have "{p, q} \<subseteq> set (filter P ps)" by (simp only: f) auto
  ultimately show "\<exists>p \<in> set ps. \<exists>q \<in> set ps. fst p \<noteq> fst q \<and> P p \<and> P q" by auto
next
  assume "\<exists>p \<in> set ps. \<exists>q \<in> set ps. fst p \<noteq> fst q \<and> P p \<and> P q"
  then obtain p q where "p \<in> set (filter P ps)" "q \<in> set (filter P ps)" "p \<noteq> q" by auto
  then have "card {p, q} \<le> card (set (filter P ps))"
    by (intro card_mono) (simp_all only: finite_set insert_subset empty_subsetI simp_thms)
  also have "\<dots> \<le> length (filter P ps)" by (rule card_length)
  finally show "length (filter P ps) > 1" using \<open>p \<noteq> q\<close> by simp
qed

text \<open>A file of at least ten bytes is a polyglot exactly if the signatures of two formats occur in it, at
  any place.\<close>
theorem polyglot_iff_two_formats:
  "is_polyglot (detect_polyglot_file data) \<longleftrightarrow> 10 \<le> length data \<and>
     (\<exists>p \<in> set format_signatures. \<exists>q \<in> set format_signatures. fst p \<noteq> fst q \<and>
        (\<exists>s \<in> set (snd p). sublist s data) \<and> (\<exists>s \<in> set (snd q). sublist s data))"
proof -
  have "is_polyglot (detect_polyglot_file data) \<longleftrightarrow> 10 \<le> length data \<and> length (formats_in data) > 1"
    using formats_in_names [of data] by (auto simp: detect_polyglot_file_def Let_def)
  moreover have "has_format data p \<longleftrightarrow> (\<exists>s \<in> set (snd p). sublist s data)" for p
    by (cases p) (simp add: has_format_def list_ex_iff contains_iff)
  ultimately show ?thesis
    using two_of_distinct [OF formats_distinct, of "has_format data"] by (simp add: formats_in_def)
qed

text \<open>A PDF with the letters \<open>MZ\<close> anywhere is reported.\<close>

lemma mz_in_pdf_is_polyglot: "is_polyglot (detect_polyglot_file (''%PDF-'' @ a @ ''MZ'' @ b @ ''12345''))"
proof -
  have "sublist ''%PDF-'' (''%PDF-'' @ a @ ''MZ'' @ b @ ''12345'')" "sublist ''MZ'' (''%PDF-'' @ a @ ''MZ'' @ b @ ''12345'')"
    using sublist_appendI [of "''%PDF-''" "[]"] sublist_appendI [of "''MZ''" "''%PDF-'' @ a" "b @ ''12345''"] by simp_all
  then show ?thesis
    unfolding polyglot_iff_two_formats by (auto simp: format_signatures_def)
qed

subsection \<open>Archives\<close>

datatype zip_exn = BadZipFile | ZipRuntimeError string | OtherZipError string

record zip_entry =
  ze_name :: string
  ze_encrypted :: bool

record zip_file =
  zf_entries :: "zip_entry list"
  zf_read :: "string \<Rightarrow> zip_exn + string"

text \<open>A member's content: \<^term>\<open>Inl ()\<close> where reading it raises, \<^term>\<open>Inr None\<close> where it has none.\<close>

record tar_member =
  tm_name :: string
  tm_isfile :: bool
  tm_content :: "unit + string option"

text \<open>\<open>zipfile.ZipFile\<close>, \<open>tarfile.open\<close> with \<open>getmembers\<close>, and \<open>bytes.decode("utf-8", errors="ignore")\<close>.\<close>

record file_libs =
  open_zip :: "string \<Rightarrow> zip_exn + zip_file"
  open_tar :: "string \<Rightarrow> tar_member list option"
  utf8_ignore :: "string \<Rightarrow> string"

record archive_result =
  is_archive :: bool
  is_encrypted :: bool
  children :: "attachment list"
  archive_reasons :: "string list"

definition archive_extensions :: "string list" where
  "archive_extensions = [''.zip'', ''.tar'', ''.gz'', ''.tgz'', ''.tar.gz'']"

definition child_of :: "string \<Rightarrow> string \<Rightarrow> attachment" where
  "child_of name content = \<lparr>at_name = (if basename name \<noteq> [] then basename name else name),
     at_data = content, at_type = ''application/octet-stream''\<rparr>"

definition too_many :: "string \<Rightarrow> int \<Rightarrow> string" where
  "too_many filename max_files =
     ''archive '' @ quoted filename @ '' contained more than '' @ int_str max_files @ '' files; remaining ignored''"

text \<open>The loop over a ZIP file's entries; \<open>out\<close> is what it has extracted, and as many it has counted.\<close>

datatype zip_outcome = ZipDone "attachment list" "string list" | ZipLocked string | ZipCorrupt | ZipRaises string

fun zip_scan :: "string \<Rightarrow> int \<Rightarrow> (string \<Rightarrow> zip_exn + string) \<Rightarrow> zip_entry list \<Rightarrow> attachment list \<Rightarrow> zip_outcome" where
  "zip_scan filename max_files read [] out = ZipDone out []"
| "zip_scan filename max_files read (e # es) out =
     (if ends_with ''/'' (ze_name e) then zip_scan filename max_files read es out
      else if ze_encrypted e
      then ZipLocked (''archive '' @ quoted filename @ '' is password-protected / encrypted (AV evasion risk)'')
      else if int (length out) \<ge> max_files then ZipDone out [too_many filename max_files]
      else case read (ze_name e) of
        Inr content \<Rightarrow> zip_scan filename max_files read es (out @ [child_of (ze_name e) content])
      | Inl (ZipRuntimeError exc) \<Rightarrow> ZipLocked (''archive '' @ quoted filename @ '' is password-protected ('' @ exc @ '')'')
      | Inl BadZipFile \<Rightarrow> ZipCorrupt
      | Inl (OtherZipError exc) \<Rightarrow> ZipRaises exc)"

definition zip_outcome_of :: "file_libs \<Rightarrow> string \<Rightarrow> string \<Rightarrow> int \<Rightarrow> zip_outcome" where
  "zip_outcome_of libs filename data max_files = (case open_zip libs data of
       Inl BadZipFile \<Rightarrow> ZipCorrupt
     | Inl (ZipRuntimeError exc) \<Rightarrow> ZipRaises exc
     | Inl (OtherZipError exc) \<Rightarrow> ZipRaises exc
     | Inr zf \<Rightarrow> zip_scan filename max_files (zf_read zf) (zf_entries zf) [])"

text \<open>The loop over a TAR file's members: what it extracted, its reasons, and whether it raised.\<close>

fun tar_scan :: "string \<Rightarrow> int \<Rightarrow> tar_member list \<Rightarrow> attachment list \<Rightarrow> attachment list \<times> string list \<times> bool" where
  "tar_scan filename max_files [] out = (out, [], False)"
| "tar_scan filename max_files (m # ms) out =
     (if \<not> tm_isfile m then tar_scan filename max_files ms out
      else if int (length out) \<ge> max_files then (out, [too_many filename max_files], False)
      else case tm_content m of
        Inl _ \<Rightarrow> (out, [], True)
      | Inr None \<Rightarrow> tar_scan filename max_files ms out
      | Inr (Some content) \<Rightarrow> tar_scan filename max_files ms (out @ [child_of (tm_name m) content]))"

definition tar_outcome :: "file_libs \<Rightarrow> string \<Rightarrow> string \<Rightarrow> int \<Rightarrow> archive_result" where
  "tar_outcome libs filename data max_files =
     (let (out, why, raised) = (case open_tar libs data of
            None \<Rightarrow> ([], [], True) | Some ms \<Rightarrow> tar_scan filename max_files ms [])
      in \<lparr>is_archive = True, is_encrypted = False, children = out,
          archive_reasons = why @
            (if raised then [''archive '' @ quoted filename @ '' tar extraction failed or is malformed''] else [])\<rparr>)"

definition inspect_and_extract_archive ::
  "file_libs \<Rightarrow> string \<Rightarrow> string \<Rightarrow> int \<Rightarrow> int \<Rightarrow> int \<Rightarrow> archive_result result" where
  "inspect_and_extract_archive libs filename data max_files max_depth current_depth =
     (let ext = splitext (lower filename) in
      if ext \<notin> set archive_extensions \<and> \<not> ends_with ''.tar.gz'' (lower filename)
      then Inr \<lparr>is_archive = False, is_encrypted = False, children = [], archive_reasons = []\<rparr>
      else if current_depth > max_depth
      then Inr \<lparr>is_archive = True, is_encrypted = False, children = [],
        archive_reasons = [''archive '' @ quoted filename @ '' exceeded max nesting depth limit ('' @ int_str max_depth @ '')'']\<rparr>
      else if ext = ''.zip'' \<or> starts_with (pk 3 4) data
      then (case zip_outcome_of libs filename data max_files of
          ZipDone out why \<Rightarrow> Inr \<lparr>is_archive = True, is_encrypted = False, children = out, archive_reasons = why\<rparr>
        | ZipLocked why \<Rightarrow> Inr \<lparr>is_archive = True, is_encrypted = True, children = [], archive_reasons = [why]\<rparr>
        | ZipCorrupt \<Rightarrow> Inr \<lparr>is_archive = True, is_encrypted = False, children = [],
            archive_reasons = [''archive '' @ quoted filename @ '' is a corrupted or malformed Zip file'']\<rparr>
        | ZipRaises exc \<Rightarrow> Inl (OtherError exc))
      else if ext \<in> {''.tar'', ''.gz'', ''.tgz''} \<or> ends_with ''.tar.gz'' (lower filename) \<or> starts_with (bytes [0x1F, 0x8B]) data
      then Inr (tar_outcome libs filename data max_files)
      else Inr \<lparr>is_archive = True, is_encrypted = False, children = [], archive_reasons = []\<rparr>)"

lemma zip_scan_children:
  assumes "zip_scan fn mx read es out = ZipDone cs why" "int (length out) \<le> max 0 mx"
  shows "int (length cs) \<le> max 0 mx"
  using assms
proof (induction es arbitrary: out)
  case (Cons e es)
  show ?case
  proof (cases "read (ze_name e)")
    case (Inl x)
    with Cons show ?thesis by (cases x) (auto split: if_splits)
  next
    case (Inr content)
    with Cons.prems Cons.IH [of out] Cons.IH [of "out @ [child_of (ze_name e) content]"] show ?thesis
      by (auto split: if_splits)
  qed
qed simp

lemma tar_scan_children:
  "int (length out) \<le> max 0 mx \<Longrightarrow> int (length (fst (tar_scan fn mx ms out))) \<le> max 0 mx"
proof (induction ms arbitrary: out)
  case (Cons m ms)
  then show ?case by (auto split: sum.split option.split)
qed simp

text \<open>At most \<open>max_files\<close> files come out of an archive, none out of an encrypted one.\<close>

lemma archive_children_bounded:
  assumes "inspect_and_extract_archive libs fn data mx md d = Inr r"
  shows "int (length (children r)) \<le> max 0 mx" "is_encrypted r \<Longrightarrow> children r = []" "\<not> is_archive r \<Longrightarrow> children r = []"
proof -
  have t: "int (length (children (tar_outcome libs fn data mx))) \<le> max 0 mx"
    using tar_scan_children [of "[]" mx fn] by (auto simp: tar_outcome_def split: option.split prod.split) (metis fst_conv)
  have z: "zip_outcome_of libs fn data mx = ZipDone cs why \<Longrightarrow> int (length cs) \<le> max 0 mx" for cs why
    by (auto simp: zip_outcome_of_def split: sum.splits zip_exn.splits dest: zip_scan_children)
  show "int (length (children r)) \<le> max 0 mx" "is_encrypted r \<Longrightarrow> children r = []" "\<not> is_archive r \<Longrightarrow> children r = []"
    using assms t z
    by (auto simp: inspect_and_extract_archive_def Let_def tar_outcome_def split: if_splits zip_outcome.splits prod.splits)
qed

subsection \<open>Links in documents\<close>

record link_result =
  extracted_urls :: "string list"
  url_count :: nat
  links_explanation :: string

definition link_scheme :: re where
  "link_scheme = seqs [lit ''http'', Opt (lit ''s''), lit ''://'']"

definition document_url_re :: re where
  "document_url_re = Seq link_scheme
     (plus (Sat (\<lambda>c. \<not> is_space c \<and> c \<notin> set [CHR ''<'', CHR ''>'', CHR 0x22, CHR 0x27])))"

definition pdf_uri_re :: re where
  "pdf_uri_re = seqs [lit ''/URI'', Star space, lit ''('',
     Cap 1 (Seq link_scheme (plus (Sat (\<lambda>c. c \<noteq> CHR '')'')))), lit '')'']"

definition target_re :: re where
  "target_re = seqs [lit ''Target='', lit [CHR 0x22],
     Cap 1 (Seq link_scheme (plus (Sat (\<lambda>c. c \<noteq> CHR 0x22)))), lit [CHR 0x22]]"

text \<open>\<open>re.findall\<close> of a pattern with one group.\<close>

definition groups1 :: "re \<Rightarrow> string \<Rightarrow> string list" where
  "groups1 r s = map (\<lambda>m. or_empty (group s m 1)) (find_all r s)"

definition add_link :: "string list \<Rightarrow> string \<Rightarrow> string list" where
  "add_link us x = (if x \<in> set us then us else us @ [x])"

text \<open>The loop over the names of an Office file; an exception ends it and keeps what was found.\<close>

fun relation_links :: "file_libs \<Rightarrow> zip_file \<Rightarrow> string list \<Rightarrow> string list \<Rightarrow> string list" where
  "relation_links libs zf [] us = us"
| "relation_links libs zf (item # items) us =
     (if ends_with ''.rels'' item \<or> ends_with ''.xml'' item then
        (case zf_read zf item of
           Inl _ \<Rightarrow> us
         | Inr content \<Rightarrow> relation_links libs zf items (foldl add_link us (groups1 target_re (utf8_ignore libs content))))
      else relation_links libs zf items us)"

definition structured_links :: "file_libs \<Rightarrow> string \<Rightarrow> string \<Rightarrow> string list" where
  "structured_links libs fn_lower data =
     (if ends_with ''.pdf'' fn_lower \<or> starts_with ''%PDF-'' data
      then foldl add_link [] (groups1 pdf_uri_re data)
      else if list_ex (\<lambda>ext. ends_with ext fn_lower) [''.docx'', ''.xlsx'', ''.pptx'', ''.docm'', ''.xlsm'']
        \<or> starts_with (pk 3 4) data
      then (case open_zip libs data of
          Inl _ \<Rightarrow> []
        | Inr zf \<Rightarrow> relation_links libs zf (map ze_name (zf_entries zf)) [])
      else [])"

definition extract_document_urls :: "file_libs \<Rightarrow> string \<Rightarrow> string \<Rightarrow> link_result" where
  "extract_document_urls libs filename data =
     (if data = [] then \<lparr>extracted_urls = [], url_count = 0, links_explanation = []\<rparr>
      else let links = structured_links libs (lower filename) data;
               raw_text = utf8_ignore libs data;
               us = (if links \<noteq> [] then links
                 else foldl (\<lambda>us x. if length x < 200 then add_link us x else us) links
                   (map (group0 raw_text) (find_all document_url_re raw_text)))
           in \<lparr>extracted_urls = us, url_count = length us,
               links_explanation = (if us \<noteq> [] then ''Extracted '' @ nat_str (length us) @
                 '' embedded URL(s) from document attachment '' @ filename else [])\<rparr>)"

lemma foldl_add_link_distinct: "distinct us \<Longrightarrow> distinct (foldl add_link us xs)"
  by (induction xs arbitrary: us) (auto simp: add_link_def)

lemma relation_links_distinct: "distinct us \<Longrightarrow> distinct (relation_links libs zf items us)"
  by (induction items arbitrary: us) (auto simp: foldl_add_link_distinct split: sum.split)

lemma links_distinct: "distinct (extracted_urls (extract_document_urls libs filename data))"
proof -
  have "distinct us \<Longrightarrow> distinct (foldl (\<lambda>us x. if length x < 200 then add_link us x else us) us xs)" for us xs
    by (induction xs arbitrary: us) (auto simp: add_link_def)
  moreover have "distinct (structured_links libs (lower filename) data)"
    by (auto simp: structured_links_def foldl_add_link_distinct relation_links_distinct split: sum.split)
  ultimately show ?thesis by (simp add: extract_document_urls_def Let_def)
qed

subsection \<open>Macros and active PDFs\<close>

record document_result =
  has_macros :: bool
  has_pdf_javascript :: bool
  has_pdf_auto_action :: bool
  has_pdf_embedded_files :: bool
  doc_reasons :: "string list"

definition plain_document :: document_result where
  "plain_document = \<lparr>has_macros = False, has_pdf_javascript = False, has_pdf_auto_action = False,
     has_pdf_embedded_files = False, doc_reasons = []\<rparr>"

text \<open>\<open>\b\<close> of a bytes pattern after a letter: no ASCII word character follows.\<close>

definition word_end :: re where
  "word_end = NotAhead (Sat (\<lambda>c. is_ascii_letter c \<or> is_digit c \<or> c = CHR ''_''))"

definition macro_routine_re :: re where
  "macro_routine_re = alts (map lit_ci
     [''autoopen'', ''workbook_open'', ''document_open'', ''shell'', ''powershell'', ''cmd.exe''])"

definition script_string_re :: re where
  "script_string_re = alts (map lit_ci [''autoopen'', ''workbook_open'', ''document_open'', ''wscript.shell''])"

definition pdf_javascript_re :: re where
  "pdf_javascript_re = Alt (lit_ci ''/javascript'') (Seq (lit_ci ''/js'') word_end)"

definition pdf_action_re :: re where
  "pdf_action_re = Alt (lit_ci ''/openaction'') (Seq (lit_ci ''/aa'') word_end)"

definition pdf_embedded_re :: re where
  "pdf_embedded_re = Alt (Seq (lit_ci ''/embeddedfiles'') word_end) (Seq (lit_ci ''/launch'') word_end)"

definition is_vba_name :: "string \<Rightarrow> bool" where
  "is_vba_name name = (contains ''vbaproject.bin'' name \<or> contains ''vba/'' name)"

definition runs_macro :: "zip_file \<Rightarrow> string \<Rightarrow> bool" where
  "runs_macro zf name = ((ends_with ''.xml'' name \<or> ends_with ''.bin'' name) \<and>
     (case zf_read zf name of Inl _ \<Rightarrow> False | Inr content \<Rightarrow> found macro_routine_re content))"

text \<open>\<open>_inspect_office_zip\<close>: only \<open>BadZipFile\<close> is caught around the whole.\<close>

definition inspect_office_zip :: "file_libs \<Rightarrow> string \<Rightarrow> string \<Rightarrow> document_result \<Rightarrow> document_result result" where
  "inspect_office_zip libs filename data r = (case open_zip libs data of
       Inl BadZipFile \<Rightarrow> Inr r
     | Inl (ZipRuntimeError exc) \<Rightarrow> Inl (OtherError exc)
     | Inl (OtherZipError exc) \<Rightarrow> Inl (OtherError exc)
     | Inr zf \<Rightarrow>
         let names = map ze_name (zf_entries zf) in
         (case find is_vba_name (map lower names) of
            None \<Rightarrow> Inr r
          | Some name \<Rightarrow> Inr (r\<lparr>has_macros := True, doc_reasons := doc_reasons r @
              [''Office document '' @ quoted filename @ '' contains embedded VBA macro project ('' @ name @ '')''] @
              (if list_ex (runs_macro zf) names
               then [''Office document '' @ quoted filename @ '' contains auto-executing macro routines''] else [])\<rparr>)))"

definition inspect_office_binary :: "string \<Rightarrow> string \<Rightarrow> document_result \<Rightarrow> document_result" where
  "inspect_office_binary filename data r =
     (let vba = (contains ''vbaProject.bin'' data \<or> contains ''VBA'' data \<or> contains ''_VBA_PROJECT'' data);
          script = found script_string_re data
      in r\<lparr>has_macros := has_macros r \<or> vba \<or> script, doc_reasons := doc_reasons r @
           (if vba then [''Legacy Office document '' @ quoted filename @ '' contains embedded VBA macros''] else []) @
           (if script then [''Legacy Office document '' @ quoted filename @
              '' contains suspicious auto-executing script strings''] else [])\<rparr>)"

definition inspect_pdf_structure :: "string \<Rightarrow> string \<Rightarrow> document_result \<Rightarrow> document_result" where
  "inspect_pdf_structure filename data r =
     (let js = found pdf_javascript_re data; act = found pdf_action_re data; emb = found pdf_embedded_re data
      in r\<lparr>has_pdf_javascript := has_pdf_javascript r \<or> js, has_pdf_auto_action := has_pdf_auto_action r \<or> act,
           has_pdf_embedded_files := has_pdf_embedded_files r \<or> emb, doc_reasons := doc_reasons r @
           (if js then [''PDF document '' @ quoted filename @
              '' contains embedded JavaScript code (/JavaScript or /JS object)''] else []) @
           (if act then [''PDF document '' @ quoted filename @
              '' contains auto-execution triggers (/OpenAction or /AA)''] else []) @
           (if emb then [''PDF document '' @ quoted filename @
              '' contains embedded file payload (/EmbeddedFiles or /Launch)''] else [])\<rparr>)"

definition inspect_document_attachment :: "file_libs \<Rightarrow> string \<Rightarrow> string \<Rightarrow> document_result result" where
  "inspect_document_attachment libs filename data =
     (let ext = lower (splitext filename) in
      if ext \<in> {''.docm'', ''.xlsm'', ''.pptm'', ''.docx'', ''.xlsx'', ''.zip''}
      then inspect_office_zip libs filename data plain_document
      else if ext \<in> {''.doc'', ''.xls'', ''.ppt''} then Inr (inspect_office_binary filename data plain_document)
      else if ext = ''.pdf'' \<or> starts_with ''%PDF-'' data then Inr (inspect_pdf_structure filename data plain_document)
      else Inr plain_document)"

text \<open>A presentation with macros saved as \<open>.pptx\<close> is not inspected.\<close>

lemma pptx_not_inspected:
  "\<not> starts_with ''%PDF-'' data \<Longrightarrow> inspect_document_attachment libs ''deck.pptx'' data = Inr plain_document"
  by (simp add: inspect_document_attachment_def splitext_def basename_def after_last_def lower_def lower_char_def Let_def)

subsection \<open>Policy and sandbox\<close>

record org_policy =
  blocked_extensions :: "string list"
  blocked_mimetypes :: "string list"
  allow_macros :: bool
  max_file_size_bytes :: int

definition default_policy :: "int \<Rightarrow> org_policy" where
  "default_policy max_size = \<lparr>
     blocked_extensions = [''.exe'', ''.scr'', ''.vbs'', ''.bat'', ''.cmd'', ''.ps1'', ''.jar'', ''.js'', ''.hta'', ''.iso'', ''.img'', ''.cpl''],
     blocked_mimetypes = [''application/x-msdownload'', ''application/x-executable'', ''application/x-dostype''],
     allow_macros = False, max_file_size_bytes = max_size\<rparr>"

record policy_result =
  pol_blocked :: bool
  pol_score :: int
  pol_reasons :: "string list"

definition policy_extension :: "string \<Rightarrow> string" where
  "policy_extension filename =
     (if CHR ''.'' \<in> set filename then CHR ''.'' # lower (after_last (CHR ''.'') filename) else [])"

definition evaluate_attachment_policy :: "string \<Rightarrow> int \<Rightarrow> bool \<Rightarrow> org_policy \<Rightarrow> policy_result" where
  "evaluate_attachment_policy filename size_bytes macros p =
     (let ext = policy_extension filename;
          bad_ext = (ext \<noteq> [] \<and> ext \<in> set (blocked_extensions p));
          bad_macros = (\<not> allow_macros p \<and> macros);
          too_big = (size_bytes > max_file_size_bytes p)
      in \<lparr>pol_blocked = (bad_ext \<or> bad_macros \<or> too_big),
          pol_score = (if bad_ext then 50 else 0) + (if bad_macros then 50 else 0) + (if too_big then 20 else 0),
          pol_reasons =
            (if bad_ext then [''Attachment '' @ filename @ '' blocked by org policy (forbidden extension '' @ quoted ext @ '')''] else []) @
            (if bad_macros then [''Attachment '' @ filename @ '' blocked by org policy (VBA macros disallowed)''] else []) @
            (if too_big then [''Attachment '' @ filename @ '' blocked by org policy (size '' @ int_str size_bytes @
               '' exceeds cap '' @ int_str (max_file_size_bytes p) @ '' bytes)''] else [])\<rparr>)"

lemma policy_score_iff:
  "pol_blocked (evaluate_attachment_policy f n m p) \<longleftrightarrow> 0 < pol_score (evaluate_attachment_policy f n m p)"
  "0 \<le> pol_score (evaluate_attachment_policy f n m p)"
  "pol_blocked (evaluate_attachment_policy f n m p) \<Longrightarrow> 20 \<le> pol_score (evaluate_attachment_policy f n m p)"
  by (auto simp: evaluate_attachment_policy_def Let_def)

record sandbox_result =
  is_submitted :: bool
  sb_malicious :: bool
  threat_score :: int
  malware_family :: string
  iocs :: "string list"
  sb_explanation :: string

definition submit_sample :: "string \<Rightarrow> string \<Rightarrow> string \<Rightarrow> sandbox_result" where
  "submit_sample provider filename data =
     (if provider = ''null'' \<or> data = []
      then \<lparr>is_submitted = False, sb_malicious = False, threat_score = 0, malware_family = [], iocs = [],
            sb_explanation = ''Sandbox dynamic analysis disabled (null provider)''\<rparr>
      else \<lparr>is_submitted = True, sb_malicious = False, threat_score = 0, malware_family = [], iocs = [],
            sb_explanation = ''Submitted '' @ filename @ '' to '' @ provider @ '' sandbox; dynamic analysis queued''\<rparr>)"

end
