(* ===== verification/AttachmentPipeline.thy ===== *)
theory AttachmentPipeline
  imports Attachments Reputation Scores
begin

text \<open>
  \<open>attachment_analysis/pipeline.py\<close>, \<open>reputation.py\<close> and \<open>models.py\<close>: the hash lookup and the virus scanner, and
  \<open>analyze_attachments\<close>, which unpacks one level of archives, examines the first files and adds up the
  points. The state is that of the two remote services.
\<close>

subsection \<open>The hash lookup and the virus scanner\<close>

definition null_file_check :: "moment \<Rightarrow> string \<Rightarrow> 's \<Rightarrow> (string \<times> string) result \<times> 's" where
  "null_file_check mo sha256 st = (Inr (''unknown'', ''no file reputation provider configured''), st)"

definition vt_file_check ::
  "string \<Rightarrow> (string \<Rightarrow> 'w \<Rightarrow> (http_exn + reply) \<times> 'w) \<Rightarrow>
   moment \<Rightarrow> string \<Rightarrow> 'w upstream \<Rightarrow> (string \<times> string) result \<times> 'w upstream" where
  "vt_file_check api_key http mo sha256 st =
     (if api_key = [] then (Inr (''unknown'', ''virustotal (no API key configured)''), st)
      else case guarded_fetch (http (''https://www.virustotal.com/api/v3/files/'' @ sha256)) mo st of
        (Inl Circuit_Open, st') \<Rightarrow>
          (Inr (''unknown'', ''virustotal (circuit open -- too many recent failures, skipping call)''), st')
      | (Inl Retries_Exhausted, st') \<Rightarrow> (Inr (''unknown'', ''virustotal (lookup error after retries)''), st')
      | (Inl (Escapes x), st') \<Rightarrow> (Inl (escaped x), st')
      | (Inr resp, st') \<Rightarrow>
          (if reply_status resp = 404
           then Inr (''unknown'', ''virustotal (hash not seen before -- not necessarily safe, just unknown)'')
           else if reply_status resp \<noteq> 200
           then Inr (''unknown'', ''virustotal (http '' @ int_str (reply_status resp) @ '')'')
           else vt_verdict (reply_json resp), st'))"

lemma vt_file_check_verdict: "fst (vt_file_check key http mo h s) = Inr (v, src) \<Longrightarrow> v \<in> set verdicts"
  by (auto simp: vt_file_check_def vt_verdict_def verdicts_def bind_InrD
      split: if_splits sum.splits prod.splits outage.splits py_exn.splits)

lemma null_file_verdict: "fst (null_file_check mo h s) = Inr (v, src) \<Longrightarrow> v \<in> set verdicts"
  by (simp add: null_file_check_def verdicts_def)

interpretation null_file: reputation_provider null_file_check "\<lambda>_. True"
  by unfold_locales (rule null_file_verdict)

interpretation vt_file: reputation_provider "vt_file_check key http" "\<lambda>_. True" for key http
  by unfold_locales (rule vt_file_check_verdict)

text \<open>\<open>clamd\<close>'s \<open>instream\<close>: the status and signature of the stream, \<^term>\<open>None\<close> where the answer lacks it, or the
  exception's text. \<open>scan\<close> fails open.\<close>

type_synonym 's clamd = "string \<Rightarrow> 's \<Rightarrow> (string + (string \<times> string) option) \<times> 's"

definition scan_sync :: "'s clamd \<Rightarrow> string \<Rightarrow> 's \<Rightarrow> (string + string) \<times> 's" where
  "scan_sync clamd data st = (case clamd data st of
       (Inl exc, st') \<Rightarrow> (Inl exc, st')
     | (Inr answer, st') \<Rightarrow>
         (let (status, signature) = (case answer of Some r \<Rightarrow> r | None \<Rightarrow> (''ERROR'', ''no result''))
          in (Inr (if status = ''OK'' then ''clean''
                   else if status = ''FOUND'' then ''infected:'' @ signature
                   else ''error:'' @ signature), st')))"

definition clamav_scan :: "string \<Rightarrow> 's clamd \<Rightarrow> string \<Rightarrow> 's \<Rightarrow> string \<times> 's" where
  "clamav_scan host clamd data st =
     (if host = [] then (''not_scanned'', st)
      else case scan_sync clamd data st of
        (Inl exc, st') \<Rightarrow> (''error:'' @ exc, st')
      | (Inr r, st') \<Rightarrow> (r, st'))"

text \<open>What a virus scanner answers.\<close>

locale virus_scanner =
  fixes scan :: "string \<Rightarrow> 's \<Rightarrow> string \<times> 's"
  assumes answer: "fst (scan data s) = ''clean'' \<or> fst (scan data s) = ''not_scanned'' \<or>
    starts_with ''infected:'' (fst (scan data s)) \<or> starts_with ''error:'' (fst (scan data s))"
begin

lemma infected_iff:
  "starts_with ''infected:'' (fst (scan data s)) \<longleftrightarrow>
   fst (scan data s) \<noteq> ''clean'' \<and> fst (scan data s) \<noteq> ''not_scanned'' \<and> \<not> starts_with ''error:'' (fst (scan data s))"
  using answer [of data s] by (auto simp: starts_with_iff)

end

interpretation clamav: virus_scanner "clamav_scan host clamd" for host clamd
  by unfold_locales (auto simp: clamav_scan_def scan_sync_def starts_with_iff split: prod.split sum.split option.split)

subsection \<open>Results\<close>

record attachment_finding =
  af_name :: string
  af_size :: int
  af_sha256 :: string
  af_md5 :: string
  af_oversized :: bool
  af_dangerous :: bool
  af_double :: bool
  af_reputation :: string
  af_source :: string
  af_clamav :: string
  af_polyglot :: bool
  af_urls :: "string list"
  af_sandbox :: "sandbox_result option"
  af_blocked :: bool

record attachment_verdict =
  atv_findings :: "attachment_finding list"
  atv_score :: int
  atv_reasons :: "string list"
  atv_urls :: "string list"

definition new_finding :: "string \<Rightarrow> int \<Rightarrow> bool \<Rightarrow> attachment_finding" where
  "new_finding filename bytes_count oversized = \<lparr>af_name = filename, af_size = bytes_count, af_sha256 = [], af_md5 = [],
     af_oversized = oversized, af_dangerous = False, af_double = False, af_reputation = ''unknown'', af_source = [],
     af_clamav = ''not_scanned'', af_polyglot = False, af_urls = [], af_sandbox = None, af_blocked = False\<rparr>"

definition finding_dict :: "attachment_finding \<Rightarrow> json" where
  "finding_dict f = JDict
     [(''filename'', JStr (af_name f)), (''size_bytes'', JInt (af_size f)), (''sha256'', JStr (af_sha256 f)),
      (''is_oversized'', JBool (af_oversized f)), (''is_dangerous_extension'', JBool (af_dangerous f)),
      (''is_double_extension'', JBool (af_double f)), (''file_reputation'', JStr (af_reputation f)),
      (''clamav_result'', JStr (af_clamav f)), (''is_polyglot'', JBool (af_polyglot f)),
      (''embedded_urls'', JList (map JStr (af_urls f))), (''policy_blocked'', JBool (af_blocked f))]"

definition attachments_as_dict :: "attachment_verdict \<Rightarrow> json" where
  "attachments_as_dict v = JDict
     [(''findings'', JList (map finding_dict (atv_findings v))), (''score_delta'', JInt (atv_score v)),
      (''reasons'', JList (map JStr (atv_reasons v))), (''extracted_embedded_urls'', JList (map JStr (atv_urls v)))]"

subsection \<open>One file\<close>

record file_env =
  fe_libs :: file_libs
  fe_sha256 :: "string \<Rightarrow> string"
  fe_md5 :: "string \<Rightarrow> string"
  fe_sandbox :: string
  fe_policy :: org_policy

record 's file_services =
  fs_hash :: "moment \<Rightarrow> string \<Rightarrow> 's \<Rightarrow> (string \<times> string) result \<times> 's"
  fs_scan :: "string \<Rightarrow> 's \<Rightarrow> string \<times> 's"

definition magic_part :: "attachment \<Rightarrow> string part" where
  "magic_part att = (let r = verify_file_magic (at_name att) (at_data att)
     in part_if (is_extension_spoofed r) 50 (at_name att @ '' extension spoofing: '' @ magic_reason r))"

definition extension_part :: "attachment \<Rightarrow> string part" where
  "extension_part att =
     (if is_double_extension (at_name att)
      then (40, [at_name att @ '' uses a double extension (extension-hiding pattern)''])
      else if is_dangerous_extension (at_name att)
      then (25, [at_name att @ '' has a high-risk executable extension''])
      else (0, []))"

definition polyglot_part :: "polyglot_result \<Rightarrow> string part" where
  "polyglot_part r = part_if (is_polyglot r) 45 (polyglot_explanation r)"

definition links_part :: "link_result \<Rightarrow> string part" where
  "links_part r = part_if (url_count r > 0) 10 (links_explanation r)"

definition document_part :: "document_result \<Rightarrow> string part" where
  "document_part r =
     (if has_macros r then (45, doc_reasons r)
      else if has_pdf_javascript r \<or> has_pdf_auto_action r \<or> has_pdf_embedded_files r
      then ((if has_pdf_javascript r then 35 else 0) + (if has_pdf_auto_action r then 40 else 0) +
            (if has_pdf_embedded_files r then 30 else 0), doc_reasons r)
      else (0, []))"

definition policy_part :: "policy_result \<Rightarrow> string part" where
  "policy_part r = (if pol_blocked r then (pol_score r, pol_reasons r) else (0, []))"

definition hash_part :: "attachment \<Rightarrow> string \<Rightarrow> string \<Rightarrow> string \<Rightarrow> string part" where
  "hash_part att sha256 verdict source =
     (if verdict = ''malicious''
      then (100, [at_name att @ '' (sha256:'' @ take 12 sha256 @ ''...) flagged malicious by '' @ source])
      else if verdict = ''suspicious'' then (40, [at_name att @ '' flagged suspicious by '' @ source])
      else (0, []))"

definition clamav_part :: "attachment \<Rightarrow> string \<Rightarrow> string part" where
  "clamav_part att r =
     (if starts_with ''infected:'' r then (100, [at_name att @ '' flagged by ClamAV: '' @ drop (length ''infected:'') r])
      else if starts_with ''error:'' r
      then (0, [at_name att @ '' ClamAV scan error (fail-open, not penalized): '' @ r])
      else (0, []))"

text \<open>Unknown files that look active go to the sandbox.\<close>

definition sandbox_of :: "file_env \<Rightarrow> attachment \<Rightarrow> string \<Rightarrow> bool \<Rightarrow> bool \<Rightarrow> sandbox_result option" where
  "sandbox_of env att verdict polyglot macros =
     (if verdict = ''unknown'' \<and> (is_dangerous_extension (at_name att) \<or> polyglot \<or> macros)
      then Some (submit_sample (fe_sandbox env) (at_name att) (at_data att)) else None)"

definition sandbox_part :: "sandbox_result option \<Rightarrow> string part" where
  "sandbox_part r = (case r of
       Some s \<Rightarrow> (0, if is_submitted s \<and> sb_explanation s \<noteq> [] then [sb_explanation s] else [])
     | None \<Rightarrow> (0, []))"

text \<open>The parts of a file that is examined, and its finding.\<close>

definition file_policy :: "file_env \<Rightarrow> attachment \<Rightarrow> document_result \<Rightarrow> policy_result" where
  "file_policy env att doc =
     evaluate_attachment_policy (at_name att) (int (length (at_data att))) (has_macros doc) (fe_policy env)"

definition file_sandbox :: "file_env \<Rightarrow> attachment \<Rightarrow> document_result \<Rightarrow> string \<Rightarrow> sandbox_result option" where
  "file_sandbox env att doc verdict =
     sandbox_of env att verdict (is_polyglot (detect_polyglot_file (at_data att))) (has_macros doc)"

definition file_sha :: "file_env \<Rightarrow> attachment \<Rightarrow> string" where
  "file_sha env att = hex_of (fe_sha256 env (at_data att))"

definition file_parts :: "file_env \<Rightarrow> attachment \<Rightarrow> document_result \<Rightarrow> string \<Rightarrow> string \<Rightarrow> string \<Rightarrow> string part list" where
  "file_parts env att doc verdict source clam =
     [magic_part att, extension_part att, polyglot_part (detect_polyglot_file (at_data att)),
      links_part (extract_document_urls (fe_libs env) (at_name att) (at_data att)), document_part doc,
      policy_part (file_policy env att doc), hash_part att (file_sha env att) verdict source, clamav_part att clam,
      sandbox_part (file_sandbox env att doc verdict)]"

definition file_finding :: "file_env \<Rightarrow> attachment \<Rightarrow> document_result \<Rightarrow> string \<Rightarrow> string \<Rightarrow> string \<Rightarrow> attachment_finding" where
  "file_finding env att doc verdict source clam =
     \<lparr>af_name = at_name att, af_size = int (length (at_data att)), af_sha256 = file_sha env att,
      af_md5 = hex_of (fe_md5 env (at_data att)), af_oversized = False,
      af_dangerous = is_dangerous_extension (at_name att), af_double = is_double_extension (at_name att),
      af_reputation = verdict, af_source = source, af_clamav = clam,
      af_polyglot = is_polyglot (detect_polyglot_file (at_data att)),
      af_urls = extracted_urls (extract_document_urls (fe_libs env) (at_name att) (at_data att)),
      af_sandbox = file_sandbox env att doc verdict, af_blocked = pol_blocked (file_policy env att doc)\<rparr>"

definition examine_file ::
  "file_env \<Rightarrow> 's file_services \<Rightarrow> moment \<Rightarrow> attachment \<Rightarrow> 's \<Rightarrow> (attachment_finding \<times> string part) result \<times> 's" where
  "examine_file env fs mo att st =
     (case inspect_document_attachment (fe_libs env) (at_name att) (at_data att) of
        Inl e \<Rightarrow> (Inl e, st)
      | Inr doc \<Rightarrow>
          (case fs_hash fs mo (file_sha env att) st of
             (Inl e, st1) \<Rightarrow> (Inl e, st1)
           | (Inr (verdict, source), st1) \<Rightarrow>
               (let (clam, st2) = fs_scan fs (at_data att) st1
                in (Inr (file_finding env att doc verdict source clam,
                         total_parts (file_parts env att doc verdict source clam)), st2))))"

text \<open>The loop body: a file that is too big is not looked at.\<close>

definition check_file ::
  "file_env \<Rightarrow> 's file_services \<Rightarrow> moment \<Rightarrow> int \<Rightarrow> attachment \<Rightarrow> 's \<Rightarrow>
   (attachment_finding \<times> string part) result \<times> 's" where
  "check_file env fs mo max_size att st =
     (if int (length (at_data att)) > max_size
      then (Inr (new_finding (at_name att) (int (length (at_data att))) True,
              10, [at_name att @ '' exceeds size limit ('' @ int_str (int (length (at_data att))) @
                   '' bytes) -- not hashed or scanned'']), st)
      else examine_file env fs mo att st)"

fun check_files ::
  "file_env \<Rightarrow> 's file_services \<Rightarrow> moment \<Rightarrow> int \<Rightarrow> attachment list \<Rightarrow> 's \<Rightarrow>
   (attachment_finding \<times> string part) list result \<times> 's" where
  "check_files env fs mo max_size [] st = (Inr [], st)"
| "check_files env fs mo max_size (att # atts) st =
     (case check_file env fs mo max_size att st of
        (Inl e, st1) \<Rightarrow> (Inl e, st1)
      | (Inr f, st1) \<Rightarrow>
          (case check_files env fs mo max_size atts st1 of
             (Inl e, st2) \<Rightarrow> (Inl e, st2)
           | (Inr rs, st2) \<Rightarrow> (Inr (f # rs), st2)))"

subsection \<open>All files\<close>

text \<open>The first loop: every attachment, followed by the files of the archive it is; files that come out of an
  archive are not unpacked again.\<close>

fun expand_attachments :: "file_libs \<Rightarrow> attachment list \<Rightarrow> (attachment list \<times> string part) result" where
  "expand_attachments libs [] = Inr ([], 0, [])"
| "expand_attachments libs (att # atts) =
     (case inspect_and_extract_archive libs (at_name att) (at_data att) 10 3 1 of
        Inl e \<Rightarrow> Inl e
      | Inr arc \<Rightarrow>
          (case expand_attachments libs atts of
             Inl e \<Rightarrow> Inl e
           | Inr (files, score, reasons) \<Rightarrow>
               if \<not> is_archive arc then Inr (att # files, score, reasons)
               else if is_encrypted arc then Inr (att # files, 45 + score, archive_reasons arc @ reasons)
               else Inr (att # children arc @ files, score, archive_reasons arc @ reasons)))"

text \<open>\<open>xs[:n]\<close>\<close>

definition first_n :: "int \<Rightarrow> 'a list \<Rightarrow> 'a list" where
  "first_n n xs = (if 0 \<le> n then take (nat n) xs else take (length xs - nat (- n)) xs)"

definition analyze_attachments ::
  "file_env \<Rightarrow> 's file_services \<Rightarrow> moment \<Rightarrow> int \<Rightarrow> int \<Rightarrow> attachment list \<Rightarrow> 's \<Rightarrow> attachment_verdict result \<times> 's" where
  "analyze_attachments env fs mo max_attachments max_size attachments st =
     (case expand_attachments (fe_libs env) attachments of
        Inl e \<Rightarrow> (Inl e, st)
      | Inr (expanded, arc_score, arc_reasons) \<Rightarrow>
          (case check_files env fs mo max_size (first_n max_attachments expanded) st of
             (Inl e, st') \<Rightarrow> (Inl e, st')
           | (Inr rs, st') \<Rightarrow>
               let truncated = int (length expanded) > max_attachments;
                   (score, reasons) = total_parts
                     ([(arc_score, arc_reasons),
                       part_if truncated 10 (''message had more than '' @ int_str max_attachments @
                         '' attachments/archive files; only the first '' @ int_str max_attachments @ '' were analyzed'')] @
                      map snd rs)
               in (Inr \<lparr>atv_findings = map fst rs, atv_score = score, atv_reasons = reasons,
                     atv_urls = concat (map (af_urls \<circ> fst) rs)\<rparr>, st')))"

subsection \<open>The score\<close>

lemma file_parts_nonneg:
  "0 \<le> fst (magic_part att)" "0 \<le> fst (extension_part att)" "0 \<le> fst (polyglot_part p)" "0 \<le> fst (links_part l)"
  "0 \<le> fst (document_part d)" "0 \<le> fst (hash_part att h v s)" "0 \<le> fst (clamav_part att c)" "0 \<le> fst (sandbox_part sb)"
  by (simp_all add: magic_part_def extension_part_def polyglot_part_def links_part_def document_part_def hash_part_def
      clamav_part_def sandbox_part_def part_if_def Let_def split: option.split)

lemma policy_part_score:
  "fst (policy_part (evaluate_attachment_policy f n m p)) = pol_score (evaluate_attachment_policy f n m p)"
  using policy_score_iff [of f n m p] by (auto simp: policy_part_def)

text \<open>What a finding is worth.\<close>

definition due :: "attachment_finding \<Rightarrow> int" where
  "due f = (if af_oversized f then 10
     else (if af_reputation f = ''malicious'' then 100 else if af_reputation f = ''suspicious'' then 40 else 0) +
       (if starts_with ''infected:'' (af_clamav f) then 100 else 0) +
       (if af_double f then 40 else if af_dangerous f then 25 else 0) +
       (if af_polyglot f then 45 else 0) + (if af_blocked f then 20 else 0))"

lemma due_nonneg: "0 \<le> due f"
  by (simp add: due_def)

lemma examine_file_Inr:
  assumes "examine_file env fs mo att st = (Inr r, st')"
  obtains doc verdict source clam where
    "r = (file_finding env att doc verdict source clam, total_parts (file_parts env att doc verdict source clam))"
  using assms by (auto simp: examine_file_def split: sum.splits prod.splits)

lemma policy_part_due:
  "(if pol_blocked (file_policy env att doc) then 20 else 0) \<le> fst (policy_part (file_policy env att doc))"
  unfolding file_policy_def policy_part_score
  using policy_score_iff(2,3) [of "at_name att" "int (length (at_data att))" "has_macros doc" "fe_policy env"] by simp

lemma examined_due:
  "due (file_finding env att doc verdict source clam) \<le> fst (total_parts (file_parts env att doc verdict source clam))"
proof -
  let ?f = "file_finding env att doc verdict source clam" and ?h = "hash_part att (file_sha env att) verdict source"
    and ?p = "polyglot_part (detect_polyglot_file (at_data att))"
  have w: "(if verdict = ''malicious'' then 100 else if verdict = ''suspicious'' then 40 else 0) = fst ?h"
    "(if starts_with ''infected:'' clam then 100 else 0) = fst (clamav_part att clam)"
    "(if is_double_extension (at_name att) then 40 else if is_dangerous_extension (at_name att) then 25 else 0) =
       fst (extension_part att)"
    "(if is_polyglot (detect_polyglot_file (at_data att)) then 45 else 0) = fst ?p"
    by (simp_all add: hash_part_def clamav_part_def extension_part_def polyglot_part_def part_if_def)
  have "due ?f = fst ?h + fst (clamav_part att clam) + fst (extension_part att) + fst ?p +
      (if pol_blocked (file_policy env att doc) then 20 else 0)"
    unfolding due_def file_finding_def attachment_finding.simps w by simp
  also have "\<dots> \<le> fst (total_parts (file_parts env att doc verdict source clam))"
    unfolding file_parts_def total_parts_simps
    using policy_part_due [of env att doc] file_parts_nonneg(1) [of att] file_parts_nonneg(5) [of doc]
      file_parts_nonneg(4) [of "extract_document_urls (fe_libs env) (at_name att) (at_data att)"]
      file_parts_nonneg(8) [of "file_sandbox env att doc verdict"] by linarith
  finally show ?thesis .
qed

lemma check_file_ok:
  assumes "check_file env fs mo mx att st = (Inr (f, p), st')"
  shows "af_name f = at_name att \<and> due f \<le> fst p"
proof (cases "int (length (at_data att)) > mx")
  case True
  from assms have "f = new_finding (at_name att) (int (length (at_data att))) True" "fst p = 10"
    unfolding check_file_def if_P [OF True] by (metis prod.inject sum.inject(2) fst_conv)+
  then show ?thesis by (simp add: new_finding_def due_def)
next
  case False
  with assms have "examine_file env fs mo att st = (Inr (f, p), st')" by (simp add: check_file_def)
  from examine_file_Inr [OF this] examined_due show ?thesis by (metis file_finding_def attachment_finding.select_convs(1) prod.inject)
qed

lemma check_files_ok:
  "check_files env fs mo mx atts st = (Inr rs, st') \<Longrightarrow>
   map (af_name \<circ> fst) rs = map at_name atts \<and> (\<forall>(f, p) \<in> set rs. due f \<le> fst p)"
proof (induction atts arbitrary: st rs st')
  case (Cons att atts)
  from Cons.prems obtain f p st1 rs1 where l: "check_file env fs mo mx att st = (Inr (f, p), st1)"
    "check_files env fs mo mx atts st1 = (Inr rs1, st')" "rs = (f, p) # rs1"
    by (auto split: prod.splits sum.splits)
  from check_file_ok [OF l(1)] Cons.IH [OF l(2)] l(3) show ?case by auto
qed simp

text \<open>The files an attachment stands for: itself, and the direct members of the archive it is.\<close>

definition members :: "file_libs \<Rightarrow> attachment \<Rightarrow> attachment list" where
  "members libs att = att # (case inspect_and_extract_archive libs (at_name att) (at_data att) 10 3 1 of
       Inl _ \<Rightarrow> [] | Inr arc \<Rightarrow> children arc)"

lemma expand_ok:
  "expand_attachments libs atts = Inr (files, score, reasons) \<Longrightarrow>
   files = concat (map (members libs) atts) \<and> 0 \<le> score"
proof (induction atts arbitrary: files score reasons)
  case (Cons att atts)
  from Cons.prems obtain arc files1 score1 reasons1 where a:
    "inspect_and_extract_archive libs (at_name att) (at_data att) 10 3 1 = Inr arc"
    "expand_attachments libs atts = Inr (files1, score1, reasons1)"
    by (auto split: sum.splits prod.splits)
  from Cons.IH [OF a(2)] archive_children_bounded(2,3) [OF a(1)] Cons.prems a show ?case
    by (auto simp: members_def split: if_splits)
qed simp

lemma analyze_files:
  assumes "analyze_attachments env fs mo n mx atts st = (Inr v, st')"
  obtains rs rest where "check_files env fs mo mx (first_n n (concat (map (members (fe_libs env)) atts))) st = (Inr rs, st')"
    "atv_findings v = map fst rs" "atv_score v = rest + fst (total_parts (map snd rs))" "0 \<le> rest"
proof -
  from assms obtain files score reasons where e: "expand_attachments (fe_libs env) atts = Inr (files, score, reasons)"
    by (auto simp: analyze_attachments_def split: sum.splits)
  note ok = expand_ok [OF e]
  from assms e obtain rs where c: "check_files env fs mo mx (first_n n files) st = (Inr rs, st')"
    by (auto simp: analyze_attachments_def split: sum.splits prod.splits)
  let ?t = "part_if (int (length files) > n) 10 (''message had more than '' @ int_str n @
    '' attachments/archive files; only the first '' @ int_str n @ '' were analyzed'')"
  have "atv_findings v = map fst rs" "atv_score v = (score + fst ?t) + fst (total_parts (map snd rs))"
    using assms by (auto simp: analyze_attachments_def e c split_beta Let_def)
  moreover have "0 \<le> score + fst ?t" using ok by (simp add: part_if_def)
  ultimately show ?thesis using that c ok by metis
qed

lemma file_score_at_least:
  assumes "analyze_attachments env fs mo n mx atts st = (Inr v, st')"
  shows "map af_name (atv_findings v) = map at_name (first_n n (concat (map (members (fe_libs env)) atts))) \<and>
    0 \<le> atv_score v \<and> (\<forall>f \<in> set (atv_findings v). due f \<le> atv_score v)"
proof -
  from analyze_files [OF assms] obtain rs rest where
    c: "check_files env fs mo mx (first_n n (concat (map (members (fe_libs env)) atts))) st = (Inr rs, st')"
    and f: "atv_findings v = map fst rs" and s: "atv_score v = rest + fst (total_parts (map snd rs))" "0 \<le> rest" by metis
  note ok = check_files_ok [OF c]
  have nn: "0 \<le> fst q" if "q \<in> set (map snd rs)" for q
  proof -
    from that obtain f where "(f, q) \<in> set rs" by auto
    with ok due_nonneg [of f] show ?thesis by fastforce
  qed
  have "due (fst r) \<le> atv_score v" if "r \<in> set rs" for r
  proof -
    from that have "snd r \<in> set (map snd rs)" by simp
    from total_parts_member [OF nn this] have "fst (snd r) \<le> atv_score v" using s by linarith
    moreover from that ok have "due (fst r) \<le> fst (snd r)" by (auto simp: split_beta)
    ultimately show ?thesis by linarith
  qed
  moreover have "0 \<le> atv_score v" using total_parts_nonneg [of "map snd rs"] nn s by fastforce
  moreover have "map af_name (atv_findings v) = map at_name (first_n n (concat (map (members (fe_libs env)) atts)))"
    using ok f by simp
  ultimately show ?thesis using f by auto
qed

text \<open>C32: The findings are those of the first \<open>max_attachments\<close> files, each attachment being followed by the direct
  members of its archive; the score of a message is never negative and at least what any one of the findings is
  due: 100 for a hash known as malicious, 100 for a virus found, 40 for a double and 25 for a dangerous
  extension, 45 for a polyglot, 20 for a file the policy blocks, 10 for one that is too big. These are the points of
  the code; \<open>docs/detection_changelog.md\<close> has 50 for a polyglot and \<open>docs/modules/attachment_analysis.md\<close> 30, and 30 to 50
  for a dangerous and 20 for a double extension.\<close>
theorem worst_file_scores:
  assumes "analyze_attachments env fs mo n mx atts st = (Inr v, st')"
  shows "map af_name (atv_findings v) = map at_name (first_n n (concat (map (members (fe_libs env)) atts))) \<and>
    0 \<le> atv_score v \<and> (\<forall>f \<in> set (atv_findings v). due f \<le> atv_score v)"
  using assms by (rule file_score_at_least)

text \<open>An example: one file with a double extension, no scanner and no reputation provider.\<close>

definition example_files :: file_env where
  "example_files = \<lparr>fe_libs = \<lparr>open_zip = (\<lambda>_. Inl BadZipFile), open_tar = (\<lambda>_. None), utf8_ignore = (\<lambda>_. [])\<rparr>,
     fe_sha256 = (\<lambda>_. []), fe_md5 = (\<lambda>_. []), fe_sandbox = ''null'', fe_policy = default_policy 1000\<rparr>"

definition example_scanners :: "unit file_services" where
  "example_scanners = \<lparr>fs_hash = null_file_check, fs_scan = (\<lambda>_ st. (''not_scanned'', st))\<rparr>"

definition example_file :: attachment where
  "example_file = \<lparr>at_name = ''invoice.pdf.exe'', at_data = ''abc'', at_type = ''application/octet-stream''\<rparr>"

lemma example_file_analysis:
  "is_ok (fst (analyze_attachments example_files example_scanners (at_time 0) 10 1000 [example_file] ()))"
  "map at_name (first_n 10 (concat (map (members (fe_libs example_files)) [example_file]))) = [''invoice.pdf.exe'']"
  by code_simp+

theorem worst_file_scores_witness:
  "\<exists>v. fst (analyze_attachments example_files example_scanners (at_time 0) 10 1000 [example_file] ()) = Inr v \<and>
     map af_name (atv_findings v) = [''invoice.pdf.exe''] \<and> 0 \<le> atv_score v"
proof -
  obtain v st' where a: "analyze_attachments example_files example_scanners (at_time 0) 10 1000 [example_file] () = (Inr v, st')"
    using example_file_analysis(1) by (cases "analyze_attachments example_files example_scanners (at_time 0) 10 1000 [example_file] ()")
      (auto simp: is_ok_iff)
  from worst_file_scores [OF a] example_file_analysis(2) show ?thesis by (simp add: a)
qed

subsection \<open>Failing open\<close>

lemma analyze_score:
  assumes "expand_attachments (fe_libs env) atts = Inr (files, score, reasons)"
    and "check_files env fs mo mx (first_n n files) st = (q, st')"
  shows "map_sum id atv_score (fst (analyze_attachments env fs mo n mx atts st)) =
    map_sum id (\<lambda>ps. score + (if int (length files) > n then 10 else 0) + sum_list ps)
      (map_sum id (map (fst \<circ> snd)) q)"
proof (cases q)
  case (Inr rs)
  then show ?thesis
    unfolding analyze_attachments_def assms sum.case prod.case Let_def total_parts_def part_if_def
    by (simp only: split_conv map_sum.simps fst_conv sum.case attachment_verdict.select_convs id_apply
        list.map sum_list.Cons append_Cons append_Nil if_distrib [of fst] map_map comp_apply add.assoc)
qed (simp add: analyze_attachments_def assms)

text \<open>Two scanners that leave the services alike and agree on what is infected give the same score.\<close>

locale agreeing_scanners =
  fixes scan1 scan2 :: "string \<Rightarrow> 's \<Rightarrow> string \<times> 's"
  assumes same_state: "snd (scan1 data s) = snd (scan2 data s)"
    and infected: "starts_with ''infected:'' (fst (scan1 data s)) = starts_with ''infected:'' (fst (scan2 data s))"
begin

abbreviation "with_scan scan h \<equiv> \<lparr>fs_hash = h, fs_scan = scan\<rparr>"

lemma clamav_points: "fst (clamav_part att (fst (scan1 data s))) = fst (clamav_part att (fst (scan2 data s)))"
  by (simp add: clamav_part_def infected)

lemma file_points:
  "map_sum id (fst \<circ> snd) (fst (check_file env (with_scan scan1 h) mo mx att st)) =
     map_sum id (fst \<circ> snd) (fst (check_file env (with_scan scan2 h) mo mx att st))"
  "snd (check_file env (with_scan scan1 h) mo mx att st) = snd (check_file env (with_scan scan2 h) mo mx att st)"
  by (auto simp: check_file_def examine_file_def file_parts_def split_beta same_state clamav_points split: sum.split)

lemma files_points:
  "map_sum id (map (fst \<circ> snd)) (fst (check_files env (with_scan scan1 h) mo mx atts st)) =
     map_sum id (map (fst \<circ> snd)) (fst (check_files env (with_scan scan2 h) mo mx atts st)) \<and>
   snd (check_files env (with_scan scan1 h) mo mx atts st) = snd (check_files env (with_scan scan2 h) mo mx atts st)"
proof (induction atts arbitrary: st)
  case (Cons att atts)
  obtain r1 st1 where 1: "check_file env (with_scan scan1 h) mo mx att st = (r1, st1)" by fastforce
  obtain r2 st2 where 2: "check_file env (with_scan scan2 h) mo mx att st = (r2, st2)" by fastforce
  have e: "st2 = st1" "map_sum id (fst \<circ> snd) r1 = map_sum id (fst \<circ> snd) r2"
    using file_points [of env h mo mx att st] by (simp_all add: 1 2)
  obtain q1 u1 where 3: "check_files env (with_scan scan1 h) mo mx atts st1 = (q1, u1)" by fastforce
  obtain q2 u2 where 4: "check_files env (with_scan scan2 h) mo mx atts st1 = (q2, u2)" by fastforce
  have "u1 = u2" "map_sum id (map (fst \<circ> snd)) q1 = map_sum id (map (fst \<circ> snd)) q2"
    using Cons.IH [of st1] unfolding 3 4 fst_conv snd_conv by blast+
  with e show ?case by (cases r1; cases r2; cases q1; cases q2) (simp_all add: 1 2 3 4 comp_def)
qed simp

lemma analysis_points:
  "map_sum id atv_score (fst (analyze_attachments env (with_scan scan1 h) mo n mx atts st)) =
   map_sum id atv_score (fst (analyze_attachments env (with_scan scan2 h) mo n mx atts st))"
proof (cases "expand_attachments (fe_libs env) atts")
  case (Inr x)
  then obtain files score reasons where e: "expand_attachments (fe_libs env) atts = Inr (files, score, reasons)"
    by (cases x) auto
  obtain q1 u1 where 3: "check_files env (with_scan scan1 h) mo mx (first_n n files) st = (q1, u1)" by fastforce
  obtain q2 u2 where 4: "check_files env (with_scan scan2 h) mo mx (first_n n files) st = (q2, u2)" by fastforce
  have "map_sum id (map (fst \<circ> snd)) q1 = map_sum id (map (fst \<circ> snd)) q2"
    using files_points [of env h mo mx "first_n n files" st] unfolding 3 4 fst_conv snd_conv by blast
  then show ?thesis
    unfolding analyze_score [OF e 3] analyze_score [OF e 4] by (cases q1; cases q2) simp_all
qed (simp add: analyze_attachments_def)

end

text \<open>A virus daemon that cannot be reached and one that finds every file clean.\<close>

definition down :: "string \<Rightarrow> 's clamd" where
  "down exc data st = (Inl exc, st)"

definition all_clean :: "'s clamd" where
  "all_clean data st = (Inr (Some (''OK'', [])), st)"

interpretation down_clean: agreeing_scanners "clamav_scan host (down exc)" "clamav_scan host all_clean" for host exc
  by unfold_locales (simp_all add: clamav_scan_def scan_sync_def down_def all_clean_def starts_with_iff)

text \<open>A virus daemon that cannot be reached costs no points: the score is the one it would be if every file had been
  found clean, whatever the files, the hash lookup and the limits.\<close>
theorem dead_scanner_costs_nothing:
  "map_sum id atv_score (fst (analyze_attachments env
     \<lparr>fs_hash = h, fs_scan = clamav_scan host (down exc)\<rparr> mo n mx atts st)) =
   map_sum id atv_score (fst (analyze_attachments env
     \<lparr>fs_hash = h, fs_scan = clamav_scan host all_clean\<rparr> mo n mx atts st))"
  by (rule down_clean.analysis_points)

end
