(* ===== verification/GatewayStages.thy ===== *)
theory GatewayStages
  imports ContentStage AttachmentPipeline
begin

text \<open>
  The gateway with both of its own stages: \<open>process_message\<close> of \<open>webhook_receiver/app.py\<close> with
  \<open>extract_attachments\<close> and \<open>analyze_attachments\<close> as it calls them, beside the content stage.
\<close>

subsection \<open>The attachment stage\<close>

record 'w attachment_site =
  as_env :: file_env
  as_parse :: mail_parser
  as_http :: "string \<Rightarrow> 'w \<Rightarrow> (http_exn + reply) \<times> 'w"
  as_vt_key :: string
  as_clam_host :: string
  as_clamd :: "'w upstream clamd"
  as_max :: int
  as_max_size :: int
  as_services :: "rat \<Rightarrow> string \<Rightarrow> 'w upstream"

text \<open>The services of \<open>app.py\<close>; no sandbox and no policy is passed, so both are the defaults.\<close>

definition site_scanners :: "'w attachment_site \<Rightarrow> 'w upstream file_services" where
  "site_scanners as = \<lparr>fs_hash = (if as_vt_key as \<noteq> [] then vt_file_check (as_vt_key as) (as_http as) else null_file_check),
     fs_scan = clamav_scan (as_clam_host as) (as_clamd as)\<rparr>"

definition site_files :: "'w attachment_site \<Rightarrow> file_env" where
  "site_files as = (as_env as)\<lparr>fe_sandbox := ''null'', fe_policy := default_policy (as_max_size as)\<rparr>"

definition attachments_verdict :: "attachment_verdict \<Rightarrow> verdict" where
  "attachments_verdict v = \<lparr>v_score = atv_score v, v_reasons = atv_reasons v, v_dict = attachments_as_dict v\<rparr>"

definition scanned_stage :: "'w attachment_site \<Rightarrow> rat \<Rightarrow> string \<Rightarrow> verdict result" where
  "scanned_stage as now raw_message = map_sum id attachments_verdict (fst (analyze_attachments (site_files as) (site_scanners as)
     (at_time now) (as_max as) (as_max_size as) (extract_attachments (as_parse as) raw_message)
     (as_services as now raw_message)))"

text \<open>The file reputation the gateway is configured with keeps its provider's promise.\<close>

interpretation site_hash: reputation_provider
  "if key \<noteq> [] then vt_file_check key http else null_file_check" "\<lambda>_. True" for key http
  by unfold_locales (auto split: if_splits dest: vt_file_check_verdict null_file_verdict)







subsection \<open>Known malware\<close>




subsection \<open>An archive that cannot be read\<close>

lemma expand_raises:
  assumes "att \<in> set atts" "inspect_and_extract_archive libs (at_name att) (at_data att) 10 3 1 = Inl e"
  shows "\<exists>e. expand_attachments libs atts = Inl e"
  using assms by (induction atts) (auto split: sum.split prod.split)

lemma unreadable_entry_raises:
  assumes "splitext (lower filename) = ''.zip''" "open_zip libs data = Inr zf" "zf_entries zf = e # es"
    and "\<not> ends_with ''/'' (ze_name e)" "\<not> ze_encrypted e" "zf_read zf (ze_name e) = Inl (OtherZipError exc)"
  shows "inspect_and_extract_archive libs filename data 10 3 1 = Inl (OtherError exc)"
  using assms by (simp add: inspect_and_extract_archive_def zip_outcome_of_def archive_extensions_def)

lemma attachment_crash:
  assumes "attachment_stage s (tk_now k) (in_raw m) = Inl e"
  shows "\<exists>e. fst (run_stages s k m g) = Inl e \<and> gw_scene (snd (run_stages s k m g)) = gw_scene g"
  using assms by (simp add: run_stages_def Let_def case_prod_beta split: sum.split)

text \<open>C31: A ZIP attachment with an entry \<open>zipfile\<close> cannot decompress (it raises \<open>zlib.error\<close>, which the code does
  not catch) makes \<open>process_message\<close> raise: the message is neither delivered nor held, and every later delivery of
  the same bytes within the time to live is skipped as a duplicate.\<close>
theorem unreadable_archive_loses_message:
  assumes "content_stage s = analyzed_stage cs" and "attachment_stage s = scanned_stage as"
    and "\<not> fst (is_bounce_or_ndr (in_from m) (in_from_header m))"
    and "mem_entry (gw_kv g) (tk_now k) (dedupe_key s (in_raw m)) = None" and "0 < dedupe_ttl s"
    and "att \<in> set (extract_attachments (as_parse as) (in_raw m))" and "splitext (lower (at_name att)) = ''.zip''"
    and "open_zip (fe_libs (as_env as)) (at_data att) = Inr zf" and "zf_entries zf = e # es"
    and "\<not> ends_with ''/'' (ze_name e)" and "\<not> ze_encrypted e" and "zf_read zf (ze_name e) = Inl (OtherZipError exc)"
    and "sorted (tk_now k # map (tk_now \<circ> fst) ms)"
    and "\<forall>(k', m') \<in> set ms. tk_now k' < tk_now k + of_int (dedupe_ttl s)"
  shows "let (r, g1) = process_message s k m g in \<not> is_ok r \<and> gw_scene g1 = gw_scene g \<and>
    (\<forall>(m', ga, r', gb) \<in> set (gateway_trace s ms g1). in_raw m' = in_raw m \<longrightarrow> skipped r' \<and> gw_scene gb = gw_scene ga)"
proof -
  have "inspect_and_extract_archive (fe_libs (site_files as)) (at_name att) (at_data att) 10 3 1 = Inl (OtherError exc)"
    using assms(8) by (intro unreadable_entry_raises [OF assms(7) _ assms(9-12)]) (simp add: site_files_def)
  from expand_raises [OF assms(6) this] obtain e' where
    "expand_attachments (fe_libs (site_files as)) (extract_attachments (as_parse as) (in_raw m)) = Inl e'" by blast
  then have crash: "attachment_stage s (tk_now k) (in_raw m) = Inl e'"
    by (simp add: assms(2) scanned_stage_def analyze_attachments_def)
  obtain r g1 where pm: "process_message s k m g = (r, g1)" by fastforce
  from process_new [OF assms(3,4)] obtain kv where
    "process_message s k m g = run_stages s k m (store_raw_message s (tk_raw_nonce k) (in_id m) (in_raw m) (g\<lparr>gw_kv := kv\<rparr>))"
    by metis
  with pm obtain q where q: "run_stages s k m q = (r, g1)" "gw_scene q = gw_scene g" by (simp add: store_raw_message_def)
  from attachment_crash [OF crash, of q] q have "\<not> is_ok r" "gw_scene g1 = gw_scene g" by auto
  moreover have "skipped r' \<and> gw_scene gb = gw_scene ga"
    if "(m', ga, r', gb) \<in> set (gateway_trace s ms g1)" "in_raw m' = in_raw m" for m' ga r' gb
  proof -
    from claimed_after_attempt [OF assms(1,3,4,5,13,14)] that pm have s: "skipped r'" "gb = ga\<lparr>gw_kv := gw_kv gb\<rparr>" by auto
    from arg_cong [OF s(2), of gw_scene] s(1) show ?thesis by simp
  qed
  ultimately show ?thesis by (auto simp: pm)
qed

subsection \<open>Instances\<close>

text \<open>A site whose virus daemon finds every file infected, with one attachment per message; and one whose ZIP
  attachment cannot be decompressed.\<close>

definition one_part :: "string \<Rightarrow> mail_parser" where
  "one_part filename raw_message = Some (True,
     [\<lparr>mp_multipart = False, mp_disposition = Some ''attachment'', mp_filename = Some filename,
       mp_type = ''application/octet-stream'', mp_payload = Some ''abc''\<rparr>])"

definition broken_zip :: zip_file where
  "broken_zip = \<lparr>zf_entries = [\<lparr>ze_name = ''a.txt'', ze_encrypted = False\<rparr>], zf_read = (\<lambda>_. Inl (OtherZipError ''zlib.error''))\<rparr>"

definition file_site :: "string \<Rightarrow> unit attachment_site" where
  "file_site filename = \<lparr>
     as_env = \<lparr>fe_libs = \<lparr>open_zip = (\<lambda>_. Inr broken_zip), open_tar = (\<lambda>_. None), utf8_ignore = (\<lambda>_. [])\<rparr>,
       fe_sha256 = (\<lambda>_. []), fe_md5 = (\<lambda>_. []), fe_sandbox = ''null'', fe_policy = default_policy 1000\<rparr>,
     as_parse = one_part filename, as_http = (\<lambda>_ w. (Inl (RequestError ''down''), w)), as_vt_key = [],
     as_clam_host = ''clamd'', as_clamd = (\<lambda>_ w. (Inr (Some (''FOUND'', ''Eicar'')), w)), as_max = 10, as_max_size = 1000,
     as_services = (\<lambda>_ _. \<lparr>up_breaker = cb_new ''virustotal_file'' 5 30, up_world = ()\<rparr>)\<rparr>"




theorem unreadable_archive_loses_message_witness:
  "let s = phish_site_with (scanned_stage (file_site ''a.zip''));
       (r, g1) = process_message s (example_tick 5) phish_message example_gateway;
       (r', g2) = process_message s (example_tick 9) phish_message g1
   in \<not> is_ok r \<and> skipped r' \<and> gw_scene g2 = gw_scene example_gateway"
proof -
  let ?s = "phish_site_with (scanned_stage (file_site ''a.zip''))"
  obtain r g where p: "process_message ?s (example_tick 5) phish_message example_gateway = (r, g)" by fastforce
  obtain r' g' where p': "process_message ?s (example_tick 9) phish_message g = (r', g')" by fastforce
  have nb: "\<not> fst (is_bounce_or_ndr (in_from phish_message) (in_from_header phish_message))"
    using example_not_bounce [of "[]"] by (simp add: phish_message_def example_inbound_def)
  have st: "content_stage ?s = analyzed_stage phish_content" "attachment_stage ?s = scanned_stage (file_site ''a.zip'')"
    by (simp_all add: phish_site_with_def)
  let ?att = "\<lparr>at_name = ''a.zip'', at_data = ''abc'', at_type = ''application/octet-stream''\<rparr>"
  have "?att \<in> set (extract_attachments (as_parse (file_site ''a.zip'')) (in_raw phish_message))"
    by (simp add: file_site_def extract_attachments_def one_part_def part_attachment_def or_empty_def map_filter_simps)
  moreover have "splitext (lower (at_name ?att)) = ''.zip''" by code_simp
  moreover have "open_zip (fe_libs (as_env (file_site ''a.zip''))) (at_data ?att) = Inr broken_zip"
    by (simp add: file_site_def)
  moreover have facts: "dedupe_ttl ?s = 100" "tk_now (example_tick t) = t" "\<not> ends_with ''/'' ''a.txt''"
    "zf_entries broken_zip = [\<lparr>ze_name = ''a.txt'', ze_encrypted = False\<rparr>]"
    "zf_read broken_zip x = Inl (OtherZipError ''zlib.error'')" for t x
    by (simp_all add: phish_site_with_def example_site_def example_tick_def broken_zip_def ends_with_def starts_with_def)
  ultimately show ?thesis
    using unreadable_archive_loses_message [OF st nb example_new, where k = "example_tick 5" and att = ?att and zf = broken_zip and
        e = "\<lparr>ze_name = ''a.txt'', ze_encrypted = False\<rparr>" and es = "[]" and exc = "''zlib.error''" and
        ms = "[(example_tick 9, phish_message)]"]
    by (simp add: p p' facts)
qed

end
