(* ===== verification/Compliance.thy ===== *)
theory Compliance
  imports Gateway Reputation
begin

text \<open>
  \<open>compliance/\<close>: legal holds and the retention purge (\<open>retention.py\<close>), the data-subject requests (\<open>gdpr.py\<close>)
  and the residency rules (\<open>residency.py\<close>). A stored item is the dictionary of its attributes; a store's
  \<open>delete\<close> is recorded as the identifiers it is called with, because no store of the repository has a
  \<open>list_all\<close>. A file of holds is the JSON value it encodes; an audit file is its lines, read by the
  parameter \<open>loads\<close> (\<open>json.loads\<close>); \<open>fromiso\<close> is \<open>datetime.fromisoformat(...).timestamp()\<close>.
\<close>

subsection \<open>Legal holds\<close>

record legal_hold =
  lh_id :: json
  lh_type :: json
  lh_value :: json
  lh_reason :: json
  lh_at :: json
  lh_by :: json

definition hold_fields :: "string list" where
  "hold_fields = [''hold_id'', ''target_type'', ''target_value'', ''reason'', ''created_at'', ''created_by'']"

definition hold_dict :: "legal_hold \<Rightarrow> json" where
  "hold_dict h = JDict (zip hold_fields [lh_id h, lh_type h, lh_value h, lh_reason h, lh_at h, lh_by h])"

text \<open>\<open>LegalHoldRecord(**h_dict)\<close>: each field once and nothing else.\<close>

definition hold_of_dict :: "json \<Rightarrow> legal_hold option" where
  "hold_of_dict j = (case j of
       JDict d \<Rightarrow> if set (dkeys d) = set hold_fields
         then (let f = (\<lambda>k. dgetd d k JNull) in Some \<lparr>lh_id = f ''hold_id'', lh_type = f ''target_type'',
           lh_value = f ''target_value'', lh_reason = f ''reason'', lh_at = f ''created_at'', lh_by = f ''created_by''\<rparr>)
         else None
     | _ \<Rightarrow> None)"

record hold_manager =
  hm_persists :: bool
  hm_holds :: "(string, legal_hold) dict"
  hm_file :: "json option"

text \<open>\<open>_load\<close> keeps what it had read when an entry fails.\<close>

fun load_holds :: "(string, json) dict \<Rightarrow> (string, legal_hold) dict \<Rightarrow> (string, legal_hold) dict" where
  "load_holds [] hs = hs"
| "load_holds ((i, j) # d) hs = (case hold_of_dict j of None \<Rightarrow> hs | Some h \<Rightarrow> load_holds d (dset hs i h))"

definition new_hold_manager :: "bool \<Rightarrow> json option \<Rightarrow> hold_manager" where
  "new_hold_manager persists file = \<lparr>hm_persists = persists,
     hm_holds = (if persists then (case file of Some (JDict d) \<Rightarrow> load_holds d [] | _ \<Rightarrow> []) else []), hm_file = file\<rparr>"

definition save_holds :: "hold_manager \<Rightarrow> hold_manager" where
  "save_holds hm = (if hm_persists hm then hm\<lparr>hm_file := Some (JDict (map (\<lambda>(i, h). (i, hold_dict h)) (hm_holds hm)))\<rparr> else hm)"

definition add_hold :: "string \<Rightarrow> string \<Rightarrow> string \<Rightarrow> string \<Rightarrow> string \<Rightarrow> string \<Rightarrow> hold_manager \<Rightarrow> legal_hold \<times> hold_manager" where
  "add_hold uid now target_type value reason by hm =
     (let i = ''hold_'' @ take 8 uid;
          h = \<lparr>lh_id = JStr i, lh_type = JStr target_type, lh_value = JStr (strip (lower value)), lh_reason = JStr reason,
               lh_at = JStr now, lh_by = JStr by\<rparr>
      in (h, save_holds (hm\<lparr>hm_holds := dset (hm_holds hm) i h\<rparr>)))"

definition remove_hold :: "string \<Rightarrow> hold_manager \<Rightarrow> bool \<times> hold_manager" where
  "remove_hold i hm = (if i \<in> set (dkeys (hm_holds hm)) then (True, save_holds (hm\<lparr>hm_holds := ddel (hm_holds hm) i\<rparr>))
     else (False, hm))"

text \<open>\<open>list_holds\<close> is declared without \<open>self\<close>: a call on a manager has an argument too many.\<close>

definition list_holds :: "hold_manager \<Rightarrow> legal_hold list result" where
  "list_holds hm = Inl (TypeError ''list_holds() takes 0 positional arguments but 1 was given'')"

text \<open>\<open>x and x.lower() == val\<close>\<close>

definition arg_matches :: "json \<Rightarrow> json \<Rightarrow> bool result" where
  "arg_matches x val = (if \<not> truthy x then Inr False
     else case x of JStr s \<Rightarrow> Inr (JStr (lower s) = val) | _ \<Rightarrow> Inl attribute_error)"

record held_query =
  hq_message :: json
  hq_email :: json
  hq_tenant :: json
  hq_quarantine :: json

definition no_query :: held_query where
  "no_query = \<lparr>hq_message = JNull, hq_email = JNull, hq_tenant = JNull, hq_quarantine = JNull\<rparr>"

definition hold_matches :: "legal_hold \<Rightarrow> held_query \<Rightarrow> bool result" where
  "hold_matches h q =
     (if lh_type h = JStr ''message_id'' then arg_matches (hq_message q) (lh_value h)
      else if lh_type h = JStr ''email'' then arg_matches (hq_email q) (lh_value h)
      else if lh_type h = JStr ''tenant'' then arg_matches (hq_tenant q) (lh_value h)
      else if lh_type h = JStr ''quarantine_id'' then arg_matches (hq_quarantine q) (lh_value h)
      else Inr False)"

fun any_hold :: "legal_hold list \<Rightarrow> held_query \<Rightarrow> bool result" where
  "any_hold [] q = Inr False"
| "any_hold (h # hs) q = (case hold_matches h q of Inr False \<Rightarrow> any_hold hs q | r \<Rightarrow> r)"

definition is_held :: "hold_manager \<Rightarrow> held_query \<Rightarrow> bool result" where
  "is_held hm q = any_hold (map snd (hm_holds hm)) q"

subsection \<open>The purge engine\<close>

record retention_policy =
  quarantine_days :: int
  raw_mail_days :: int
  audit_log_days :: int

definition default_retention :: retention_policy where
  "default_retention = \<lparr>quarantine_days = 30, raw_mail_days = 14, audit_log_days = 90\<rparr>"

definition max_age_sec :: "int \<Rightarrow> rat" where
  "max_age_sec days = of_int (days * 86400)"

type_synonym item = "(string, json) dict"

text \<open>A store of items as the engine sees it: what \<open>list_all\<close> returns, if it has one, and whether it has \<open>delete\<close>.\<close>

record item_store =
  is_items :: "item list option"
  is_deletes :: bool

definition store_items :: "item_store \<Rightarrow> item list" where
  "store_items st = (case is_items st of None \<Rightarrow> [] | Some its \<Rightarrow> its)"

definition iso_stamp :: "(string \<Rightarrow> rat option) \<Rightarrow> string \<Rightarrow> rat option" where
  "iso_stamp fromiso s = fromiso (replace_str ''Z'' ''+00:00'' s)"

definition item_created :: "(string \<Rightarrow> rat option) \<Rightarrow> rat \<Rightarrow> item \<Rightarrow> rat result" where
  "item_created fromiso now it =
     (case or_else (dgetd it ''timestamp'' (JInt 0)) (dgetd it ''created_at'' (JInt 0)) of
        JStr s \<Rightarrow> Inr (case iso_stamp fromiso s of None \<Rightarrow> now | Some t \<Rightarrow> t)
      | JInt i \<Rightarrow> Inr (of_int i)
      | JNum x \<Rightarrow> Inr x
      | JBool b \<Rightarrow> Inr (of_bool b)
      | _ \<Rightarrow> Inl (TypeError ''unsupported operand''))"

definition attr :: "item \<Rightarrow> string \<Rightarrow> json" where
  "attr it k = dgetd it k (JStr [])"

definition item_query :: "item \<Rightarrow> held_query" where
  "item_query it = \<lparr>hq_message = attr it ''message_id'', hq_email = attr it ''sender'', hq_tenant = attr it ''tenant_id'',
     hq_quarantine = attr it ''quarantine_id''\<rparr>"

definition recipient_query :: "item \<Rightarrow> held_query" where
  "recipient_query it = no_query\<lparr>hq_email := attr it ''recipient''\<rparr>"

definition purge_due :: "hold_manager \<Rightarrow> (string \<Rightarrow> rat option) \<Rightarrow> rat \<Rightarrow> rat \<Rightarrow> item \<Rightarrow> bool result" where
  "purge_due hm fromiso now max_age it =
     (case item_created fromiso now it of Inl e \<Rightarrow> Inl e | Inr created \<Rightarrow>
        if now - created > max_age then
          (case is_held hm (item_query it) of Inl e \<Rightarrow> Inl e | Inr True \<Rightarrow> Inr False | Inr False \<Rightarrow>
             (case is_held hm (recipient_query it) of Inl e \<Rightarrow> Inl e | Inr held \<Rightarrow> Inr (\<not> held)))
        else Inr False)"

text \<open>The count, or the exception that ends the loop, and the identifiers \<open>delete\<close> was called with.\<close>

fun purge_items :: "hold_manager \<Rightarrow> (string \<Rightarrow> rat option) \<Rightarrow> rat \<Rightarrow> rat \<Rightarrow> bool \<Rightarrow> item list \<Rightarrow> nat \<Rightarrow> json list \<Rightarrow>
    nat result \<times> json list" where
  "purge_items hm fromiso now max_age deletes [] n ds = (Inr n, ds)"
| "purge_items hm fromiso now max_age deletes (it # its) n ds =
     (case purge_due hm fromiso now max_age it of
        Inl e \<Rightarrow> (Inl e, ds)
      | Inr due \<Rightarrow> if due \<and> deletes
          then purge_items hm fromiso now max_age deletes its (n + 1) (ds @ [attr it ''quarantine_id''])
          else purge_items hm fromiso now max_age deletes its n ds)"

definition purge_quarantine_store :: "hold_manager \<Rightarrow> retention_policy \<Rightarrow> (string \<Rightarrow> rat option) \<Rightarrow> rat \<Rightarrow> item_store \<Rightarrow>
    nat result \<times> json list" where
  "purge_quarantine_store hm p fromiso now st =
     purge_items hm fromiso now (max_age_sec (quarantine_days p)) (is_deletes st) (store_items st) 0 []"

text \<open>A file under the directory of raw mail: its name, text (if it can be read), time of change and whether
  \<open>os.remove\<close> succeeds.\<close>

record mail_file =
  mf_name :: string
  mf_text :: "string option"
  mf_mtime :: rat
  mf_removable :: bool

fun purge_files :: "hold_manager \<Rightarrow> rat \<Rightarrow> rat \<Rightarrow> mail_file list \<Rightarrow> (nat \<times> mail_file list) result" where
  "purge_files hm now max_age [] = Inr (0, [])"
| "purge_files hm now max_age (f # fs) =
     (let keep = map_sum id (\<lambda>(n, kept). (n, f # kept)) (purge_files hm now max_age fs) in
      if now - mf_mtime f > max_age then
        (case is_held hm (no_query\<lparr>hq_message := JStr (mf_name f)\<rparr>) of
           Inl e \<Rightarrow> Inl e
         | Inr held \<Rightarrow> if \<not> held \<and> mf_removable f
             then map_sum id (\<lambda>(n, kept). (n + 1, kept)) (purge_files hm now max_age fs)
             else keep)
      else keep)"

definition purge_raw_mail_directory :: "hold_manager \<Rightarrow> retention_policy \<Rightarrow> rat \<Rightarrow> mail_file list \<Rightarrow> (nat \<times> mail_file list) result" where
  "purge_raw_mail_directory hm p now fs = purge_files hm now (max_age_sec (raw_mail_days p)) fs"

text \<open>Whether a line of the audit file goes; anything that raises keeps the line.\<close>

definition line_purged ::
    "hold_manager \<Rightarrow> (string \<Rightarrow> rat option) \<Rightarrow> (string \<Rightarrow> json option) \<Rightarrow> rat \<Rightarrow> rat \<Rightarrow> string \<Rightarrow> bool" where
  "line_purged hm fromiso loads now max_age line =
     (case loads line of
        Some (JDict d) \<Rightarrow>
          (case dgetd d ''timestamp'' (JStr []) of
             JStr ts \<Rightarrow>
               (case iso_stamp fromiso ts of
                  None \<Rightarrow> False
                | Some t \<Rightarrow> now - t > max_age \<and>
                    is_held hm (no_query\<lparr>hq_message := dgetd d ''message_id'' JNull, hq_email := dgetd d ''operator'' JNull\<rparr>) = Inr False)
           | _ \<Rightarrow> False)
      | _ \<Rightarrow> False)"

definition purge_audit_log_file ::
    "hold_manager \<Rightarrow> retention_policy \<Rightarrow> (string \<Rightarrow> rat option) \<Rightarrow> (string \<Rightarrow> json option) \<Rightarrow> rat \<Rightarrow> string list \<Rightarrow>
     nat \<times> string list" where
  "purge_audit_log_file hm p fromiso loads now ls =
     (let lines = filter (\<lambda>l. strip l \<noteq> []) ls;
          purged = line_purged hm fromiso loads now (max_age_sec (audit_log_days p))
      in (length (filter purged lines), filter (\<lambda>l. \<not> purged l) lines))"

text \<open>The repositories a run is given: a part that is not passed, or does not exist, is \<^const>\<open>None\<close>.\<close>

record repositories =
  rp_store :: "item_store option"
  rp_raw :: "mail_file list option"
  rp_audit :: "string list option"

record purge_summary =
  quarantine_items_purged :: nat
  quarantine_items_held :: nat
  raw_mail_files_purged :: nat
  raw_mail_files_held :: nat
  audit_logs_purged :: nat
  audit_logs_held :: nat

definition no_purge :: purge_summary where
  "no_purge = \<lparr>quarantine_items_purged = 0, quarantine_items_held = 0, raw_mail_files_purged = 0, raw_mail_files_held = 0,
     audit_logs_purged = 0, audit_logs_held = 0\<rparr>"

definition run_full_purge ::
    "hold_manager \<Rightarrow> retention_policy \<Rightarrow> (string \<Rightarrow> rat option) \<Rightarrow> (string \<Rightarrow> json option) \<Rightarrow> rat \<Rightarrow> repositories \<Rightarrow>
     purge_summary result \<times> json list \<times> repositories" where
  "run_full_purge hm p fromiso loads now rp =
     (case (case rp_store rp of None \<Rightarrow> (Inr 0, []) | Some st \<Rightarrow> purge_quarantine_store hm p fromiso now st) of
        (Inl e, ds) \<Rightarrow> (Inl e, ds, rp)
      | (Inr n, ds) \<Rightarrow>
          (case (case rp_raw rp of None \<Rightarrow> Inr (0, None)
                 | Some fs \<Rightarrow> map_sum id (map_prod id Some) (purge_raw_mail_directory hm p now fs)) of
             Inl e \<Rightarrow> (Inl e, ds, rp)
           | Inr (m, raw) \<Rightarrow>
               (let (k, audit) = (case rp_audit rp of None \<Rightarrow> (0, None)
                      | Some ls \<Rightarrow> map_prod id Some (purge_audit_log_file hm p fromiso loads now ls))
                in (Inr (no_purge\<lparr>quarantine_items_purged := n, raw_mail_files_purged := m, audit_logs_purged := k\<rparr>), ds,
                    rp\<lparr>rp_raw := raw, rp_audit := audit\<rparr>))))"

subsection \<open>gdpr.py\<close>

text \<open>\<open>s.replace(old, new)\<close> for any \<open>old\<close>: the empty text is found before each character and at the end.\<close>

definition py_replace :: "string \<Rightarrow> string \<Rightarrow> string \<Rightarrow> string" where
  "py_replace old new s = (if old = [] then concat (map (\<lambda>c. new @ [c]) s) @ new else replace_str old new s)"

definition subject_of :: "string \<Rightarrow> string" where
  "subject_of addr = strip (lower addr)"

text \<open>\<open>getattr(item, k, "").lower()\<close>\<close>

definition lower_attr :: "item \<Rightarrow> string \<Rightarrow> string result" where
  "lower_attr it k = (case attr it k of JStr s \<Rightarrow> Inr (lower s) | _ \<Rightarrow> Inl attribute_error)"

definition concerns :: "string \<Rightarrow> item \<Rightarrow> bool result" where
  "concerns target it = (case lower_attr it ''sender'' of Inl e \<Rightarrow> Inl e | Inr s \<Rightarrow>
     (case lower_attr it ''recipient'' of Inl e \<Rightarrow> Inl e | Inr r \<Rightarrow> Inr (target \<in> {s, r})))"

definition mentions :: "string \<Rightarrow> string \<Rightarrow> bool" where
  "mentions target s = contains target (lower s)"

definition file_mentions :: "string \<Rightarrow> mail_file \<Rightarrow> bool" where
  "file_mentions target f = (case mf_text f of None \<Rightarrow> False | Some t \<Rightarrow> mentions target t)"

fun select_items :: "string \<Rightarrow> item list \<Rightarrow> item list result" where
  "select_items target [] = Inr []"
| "select_items target (it # its) = (case concerns target it of Inl e \<Rightarrow> Inl e | Inr b \<Rightarrow>
     map_sum id (\<lambda>xs. if b then it # xs else xs) (select_items target its))"

definition rp_items :: "repositories \<Rightarrow> item list" where
  "rp_items rp = (case rp_store rp of None \<Rightarrow> [] | Some st \<Rightarrow> store_items st)"

definition rp_list :: "'a list option \<Rightarrow> 'a list" where
  "rp_list x = (case x of None \<Rightarrow> [] | Some xs \<Rightarrow> xs)"

definition export_subject_data ::
    "(string \<Rightarrow> json option) \<Rightarrow> string \<Rightarrow> string \<Rightarrow> repositories \<Rightarrow> (string, json) dict result" where
  "export_subject_data loads now addr rp =
     (let target = subject_of addr in
      case select_items target (rp_items rp) of
        Inl e \<Rightarrow> Inl e
      | Inr its \<Rightarrow> Inr [
          (''subject_email'', JStr target), (''export_timestamp'', JStr now),
          (''quarantine_records'', JList (map JDict its)),
          (''raw_mail_files'', JList (map (\<lambda>f. JStr (mf_name f)) (filter (file_mentions target) (rp_list (rp_raw rp))))),
          (''audit_log_entries'', JList (List.map_filter loads (filter (mentions target) (rp_list (rp_audit rp)))))])"

definition ANONYMIZED :: string where
  "ANONYMIZED = ''[ANONYMIZED_DATA_SUBJECT]''"

text \<open>The loop over the items: \<open>delete\<close> is called on each one that concerns the subject, until an item raises.\<close>

fun erase_items :: "string \<Rightarrow> bool \<Rightarrow> item list \<Rightarrow> json list \<Rightarrow> unit result \<times> json list" where
  "erase_items target deletes [] ds = (Inr (), ds)"
| "erase_items target deletes (it # its) ds = (case concerns target it of Inl e \<Rightarrow> (Inl e, ds) | Inr b \<Rightarrow>
     erase_items target deletes its (if b \<and> deletes then ds @ [attr it ''quarantine_id''] else ds))"

definition erased_file :: "string \<Rightarrow> mail_file \<Rightarrow> bool" where
  "erased_file target f \<longleftrightarrow> file_mentions target f \<and> mf_removable f"

definition anonymize_line :: "string \<Rightarrow> string \<Rightarrow> string" where
  "anonymize_line target l = (if mentions target l then py_replace target ANONYMIZED l else l)"

definition conflict_error :: "string \<Rightarrow> py_exn" where
  "conflict_error target = OtherError (''Cannot erase data for subject '' @ quoted target @ '': active Legal Hold in effect.'')"

definition erasure_report :: "(string \<Rightarrow> string) \<Rightarrow> string \<Rightarrow> string \<Rightarrow> string \<Rightarrow> string \<Rightarrow> string \<Rightarrow> nat \<Rightarrow> nat \<Rightarrow> nat \<Rightarrow>
    (string, json) dict" where
  "erasure_report sha now1 now2 target operator reason n m k =
     [(''subject_email'', JStr target), (''erasure_timestamp'', JStr now2), (''operator'', JStr operator), (''reason'', JStr reason),
      (''erased_quarantine_items'', JInt (int n)), (''erased_raw_mail_files'', JInt (int m)),
      (''anonymized_audit_logs'', JInt (int k)),
      (''erasure_proof_sha256'', JStr (hex_of (sha (target @ '':'' @ operator @ '':'' @ now1))))]"

text \<open>The two time stamps of the report are two readings of the clock.\<close>

definition erase_subject_data ::
    "(string \<Rightarrow> string) \<Rightarrow> hold_manager \<Rightarrow> string \<Rightarrow> string \<Rightarrow> string \<Rightarrow> string \<Rightarrow> string \<Rightarrow> repositories \<Rightarrow>
     (string, json) dict result \<times> json list \<times> repositories" where
  "erase_subject_data sha hm now1 now2 addr operator reason rp =
     (let target = subject_of addr in
      case is_held hm (no_query\<lparr>hq_email := JStr target\<rparr>) of
        Inl e \<Rightarrow> (Inl e, [], rp)
      | Inr True \<Rightarrow> (Inl (conflict_error target), [], rp)
      | Inr False \<Rightarrow>
          (let deletes = (case rp_store rp of None \<Rightarrow> False | Some st \<Rightarrow> is_deletes st) in
           case erase_items target deletes (rp_items rp) [] of
             (Inl e, ds) \<Rightarrow> (Inl e, ds, rp)
           | (Inr _, ds) \<Rightarrow>
               (Inr (erasure_report sha now1 now2 target operator reason (length ds)
                      (length (filter (erased_file target) (rp_list (rp_raw rp))))
                      (length (filter (mentions target) (rp_list (rp_audit rp))))),
                ds, rp\<lparr>rp_raw := map_option (filter (\<lambda>f. \<not> erased_file target f)) (rp_raw rp),
                       rp_audit := map_option (map (anonymize_line target)) (rp_audit rp)\<rparr>)))"

subsection \<open>residency.py\<close>

record residency_policy =
  rsp_tenant :: string
  rsp_primary :: string
  rsp_regions :: "string list"

record residency_manager =
  default_region :: string
  residency_policies :: "(string, residency_policy) dict"

definition new_residency_manager :: "string \<Rightarrow> residency_manager" where
  "new_residency_manager region = \<lparr>default_region = region, residency_policies = []\<rparr>"

text \<open>The list that is passed is extended in place when it lacks the primary region; the policy holds that list.\<close>

definition set_tenant_policy :: "string \<Rightarrow> string \<Rightarrow> string list option \<Rightarrow> residency_manager \<Rightarrow> residency_policy \<times> residency_manager" where
  "set_tenant_policy tid primary_region allowed_regions rm =
     (let regions = (case allowed_regions of Some (r # rs) \<Rightarrow> r # rs | _ \<Rightarrow> [primary_region]);
          regions = (if primary_region \<in> set regions then regions else regions @ [primary_region]);
          p = \<lparr>rsp_tenant = tid, rsp_primary = primary_region, rsp_regions = regions\<rparr>
      in (p, rm\<lparr>residency_policies := dset (residency_policies rm) tid p\<rparr>))"

definition get_tenant_policy :: "residency_manager \<Rightarrow> string \<Rightarrow> residency_policy" where
  "get_tenant_policy rm tid = (case dget (residency_policies rm) tid of
       Some p \<Rightarrow> p
     | None \<Rightarrow> \<lparr>rsp_tenant = tid, rsp_primary = default_region rm, rsp_regions = [default_region rm]\<rparr>)"

definition validate_storage_location :: "residency_manager \<Rightarrow> string \<Rightarrow> string \<Rightarrow> bool" where
  "validate_storage_location rm tid target \<longleftrightarrow> target \<in> set (rsp_regions (get_tenant_policy rm tid))"

definition residency_violation :: "string \<Rightarrow> string \<Rightarrow> py_exn" where
  "residency_violation tid target = OtherError (''Data residency violation for tenant '' @ quoted tid @ '': region '' @ quoted target)"

definition enforce_residency :: "residency_manager \<Rightarrow> string \<Rightarrow> string \<Rightarrow> unit result" where
  "enforce_residency rm tid target =
     (if validate_storage_location rm tid target then Inr () else Inl (residency_violation tid target))"

subsection \<open>Legal holds bind\<close>

text \<open>What a hold is meant to cover: the value of the hold is the attribute in lower case.\<close>

definition covers :: "legal_hold \<Rightarrow> string \<Rightarrow> json \<Rightarrow> bool" where
  "covers h ty x \<longleftrightarrow> lh_type h = JStr ty \<and> (case x of JStr s \<Rightarrow> s \<noteq> [] \<and> lh_value h = JStr (lower s) | _ \<Rightarrow> False)"

definition query_covered :: "legal_hold \<Rightarrow> held_query \<Rightarrow> bool" where
  "query_covered h q \<longleftrightarrow> covers h ''message_id'' (hq_message q) \<or> covers h ''email'' (hq_email q) \<or>
     covers h ''tenant'' (hq_tenant q) \<or> covers h ''quarantine_id'' (hq_quarantine q)"

definition item_held :: "hold_manager \<Rightarrow> item \<Rightarrow> bool" where
  "item_held hm it \<longleftrightarrow> (\<exists>h \<in> set (map snd (hm_holds hm)). covers h ''message_id'' (attr it ''message_id'') \<or>
     covers h ''email'' (attr it ''sender'') \<or> covers h ''email'' (attr it ''recipient'') \<or>
     covers h ''tenant'' (attr it ''tenant_id'') \<or> covers h ''quarantine_id'' (attr it ''quarantine_id''))"

lemma arg_matches_iff: "arg_matches x v = Inr b \<Longrightarrow>
    b \<longleftrightarrow> (case x of JStr s \<Rightarrow> s \<noteq> [] \<and> v = JStr (lower s) | _ \<Rightarrow> False)"
  by (cases x) (auto simp: arg_matches_def split: if_splits)

lemma hold_matches_iff: "hold_matches h q = Inr b \<Longrightarrow> b \<longleftrightarrow> query_covered h q"
  by (auto simp: hold_matches_def query_covered_def covers_def split: if_splits dest: arg_matches_iff)

lemma any_hold_iff: "any_hold hs q = Inr b \<Longrightarrow> b \<longleftrightarrow> (\<exists>h \<in> set hs. query_covered h q)"
  by (induction hs) (auto split: sum.splits bool.splits dest: hold_matches_iff)

lemma is_held_iff: "is_held hm q = Inr b \<Longrightarrow> b \<longleftrightarrow> (\<exists>h \<in> set (map snd (hm_holds hm)). query_covered h q)"
  unfolding is_held_def by (rule any_hold_iff)

text \<open>A query with texts only, or nothing, never raises.\<close>

definition texts :: "held_query \<Rightarrow> bool" where
  "texts q \<longleftrightarrow> list_all (\<lambda>x. case x of JStr s \<Rightarrow> True | JNull \<Rightarrow> True | _ \<Rightarrow> False)
     [hq_message q, hq_email q, hq_tenant q, hq_quarantine q]"

lemma arg_matches_text: "(case x of JStr s \<Rightarrow> True | JNull \<Rightarrow> True | _ \<Rightarrow> False) \<Longrightarrow> \<exists>b. arg_matches x v = Inr b"
  by (cases x) (auto simp: arg_matches_def)

lemma hold_matches_total: "texts q \<Longrightarrow> hold_matches h q = Inr (query_covered h q)"
proof -
  assume "texts q"
  then have "\<exists>b. arg_matches x v = Inr b" if "x \<in> {hq_message q, hq_email q, hq_tenant q, hq_quarantine q}" for x v
    using that by (intro arg_matches_text) (auto simp: texts_def)
  then have "\<exists>b. hold_matches h q = Inr b"
    unfolding hold_matches_def by (simp add: ex_bool_eq)
  then show ?thesis using hold_matches_iff by blast
qed

lemma is_held_total:
  assumes "texts q"
  shows "is_held hm q = Inr (\<exists>h \<in> set (map snd (hm_holds hm)). query_covered h q)"
proof -
  have "any_hold hs q = Inr (\<exists>h \<in> set hs. query_covered h q)" for hs
    by (induction hs) (auto simp: hold_matches_total [OF assms] split: bool.splits)
  then show ?thesis by (simp add: is_held_def)
qed

lemma covers_none [simp]: "\<not> covers h ty JNull"
  by (simp add: covers_def)

lemma purge_due_spec:
  assumes "purge_due hm fromiso now max_age it = Inr True"
  shows "\<not> item_held hm it \<and> (\<exists>c. item_created fromiso now it = Inr c \<and> now - c > max_age)"
proof -
  obtain c where c: "item_created fromiso now it = Inr c" "now - c > max_age"
    and h: "is_held hm (item_query it) = Inr False" "is_held hm (recipient_query it) = Inr False"
    using assms by (auto simp: purge_due_def split: sum.splits if_splits bool.splits)
  from is_held_iff [OF h(1)] is_held_iff [OF h(2)] have "\<not> item_held hm it"
    by (auto simp: item_held_def query_covered_def item_query_def recipient_query_def no_query_def)
  with c show ?thesis by blast
qed

lemma purge_items_deleted:
  "purge_items hm fromiso now max_age dl its n ds = (r, ds') \<Longrightarrow> q \<in> set ds' \<Longrightarrow>
   q \<in> set ds \<or> (\<exists>it \<in> set its. attr it ''quarantine_id'' = q \<and> purge_due hm fromiso now max_age it = Inr True)"
  by (induction hm fromiso now max_age dl its n ds rule: purge_items.induct) (auto split: sum.splits if_splits)

lemma purge_items_complete:
  "list_all (\<lambda>it. is_ok (purge_due hm fromiso now max_age it)) its \<Longrightarrow>
   purge_items hm fromiso now max_age True its n ds =
     (let due = filter (\<lambda>it. purge_due hm fromiso now max_age it = Inr True) its
      in (Inr (n + length due), ds @ map (\<lambda>it. attr it ''quarantine_id'') due))"
  by (induction its arbitrary: n ds) (auto simp: is_ok_iff Let_def)

text \<open>C33: Whatever happens in a purge, an exception included, an item is deleted only if an item with its identifier is older than
  the policy's limit and no hold covers that item's message, sender, recipient, tenant or identifier.
\<close>

theorem purge_respects_holds:
  assumes "purge_quarantine_store hm p fromiso now st = (r, deleted)" and "q \<in> set deleted"
  shows "\<exists>it \<in> set (store_items st). attr it ''quarantine_id'' = q \<and> \<not> item_held hm it \<and>
    (\<exists>c. item_created fromiso now it = Inr c \<and> now - c > max_age_sec (quarantine_days p))"
  using purge_items_deleted [OF assms(1) [unfolded purge_quarantine_store_def] assms(2)]
  by (auto dest!: purge_due_spec)

definition example_holds :: hold_manager where
  "example_holds = snd (add_hold ''abcdefgh'' ''now'' ''email'' ''Bob@x.com'' ''lawsuit'' ''admin'' (new_hold_manager False None))"

definition example_items :: item_store where
  "example_items = \<lparr>is_items = Some
     [[(''quarantine_id'', JStr ''q1''), (''timestamp'', JInt 1), (''recipient'', JStr ''amy@x.com'')],
      [(''quarantine_id'', JStr ''q2''), (''timestamp'', JInt 1), (''recipient'', JStr ''bob@x.com'')],
      [(''quarantine_id'', JStr ''q3''), (''timestamp'', JInt 10000000)]], is_deletes = True\<rparr>"

lemma example_purge: "purge_quarantine_store example_holds default_retention (\<lambda>_. None) 10000001 example_items = (Inr 1, [JStr ''q1''])"
  by code_simp

theorem purge_respects_holds_witness:
  "purge_quarantine_store example_holds default_retention (\<lambda>_. None) 10000001 example_items = (Inr 1, [JStr ''q1'']) \<and>
   (\<exists>it \<in> set (store_items example_items). attr it ''quarantine_id'' = JStr ''q1'' \<and> \<not> item_held example_holds it)"
  using example_purge purge_respects_holds [OF example_purge, of "JStr ''q1''"] by auto

subsection \<open>Holds survive a restart\<close>

lemma hold_round_trip: "hold_of_dict (hold_dict h) = Some h"
  by (simp add: hold_of_dict_def hold_dict_def hold_fields_def dgetd_def)

definition hold_list :: "(string, legal_hold) dict \<Rightarrow> json" where
  "hold_list hs = JDict (map (\<lambda>(i, h). (i, hold_dict h)) hs)"

lemma load_saved:
  "distinct (dkeys (acc @ hs)) \<Longrightarrow> load_holds (map (\<lambda>(i, h). (i, hold_dict h)) hs) acc = acc @ hs"
proof (induction hs arbitrary: acc)
  case (Cons x hs)
  obtain i h where x: "x = (i, h)" by (cases x)
  then have "dset acc i h = acc @ [(i, h)]" using Cons.prems by (induction acc) auto
  with Cons.IH [of "acc @ [(i, h)]"] Cons.prems show ?case by (simp add: x hold_round_trip)
qed simp

text \<open>What the file holds is what the manager holds.\<close>

definition saved :: "hold_manager \<Rightarrow> bool" where
  "saved hm \<longleftrightarrow> dict_ok (hm_holds hm) \<and> (hm_persists hm \<longrightarrow> hm_file hm = Some (hold_list (hm_holds hm)))"

lemma save_holds_saved: "dict_ok (hm_holds hm) \<Longrightarrow> saved (save_holds hm)"
  by (simp add: saved_def save_holds_def hold_list_def)

lemma saved_steps [inv_intros]:
  "saved hm \<Longrightarrow> saved (snd (add_hold uid now ty v why by hm))"
  "saved hm \<Longrightarrow> saved (snd (remove_hold i hm))"
proof -
  assume "saved hm"
  then have d: "dict_ok (hm_holds hm)" by (simp add: saved_def)
  show "saved (snd (add_hold uid now ty v why by hm))"
    unfolding add_hold_def Let_def snd_conv by (rule save_holds_saved) (simp add: d)
  show "saved (snd (remove_hold i hm))"
    unfolding remove_hold_def if_distrib [of snd] snd_conv using \<open>saved hm\<close>
    by (simp add: save_holds_saved d)
qed

theorem holds_survive_restart:
  assumes "saved hm" and "hm_persists hm"
  shows "new_hold_manager True (hm_file hm) = hm"
  using assms load_saved [of "[]" "hm_holds hm"] by (simp add: saved_def new_hold_manager_def hold_list_def dict_ok_def)

subsection \<open>What is never purged, and what is not kept\<close>

text \<open>The audit files \<open>AuditLogger\<close> writes.\<close>

inductive audit_trail :: "audit_log \<Rightarrow> bool" where
  trail_empty: "audit_trail []"
| trail_decision: "audit_trail lg \<Longrightarrow> audit_trail (audit_record now mid hash from act score reasons lg)"
| trail_admin: "audit_trail lg \<Longrightarrow> audit_trail (record_admin_action now operator act target note_text lg)"

lemma map_of_sort_key:
  fixes d :: "('k :: linorder \<times> 'v) list"
  assumes "distinct (map fst d)"
  shows "map_of (sort_key fst d) k = map_of d k"
proof -
  have "distinct (map fst (sort_key fst d))" using assms by (simp add: distinct_map)
  then have "map_of (sort_key fst d) k = Some v \<longleftrightarrow> map_of d k = Some v" for v
    using assms by simp
  then show ?thesis by (metis option.exhaust)
qed

lemma dget_redact_dict: "dget (redact_dict extra pii d) k =
    map_option (\<lambda>v. if sensitive_key extra k then JStr REDACTED else redact_value extra pii v) (dget d k)"
  by (induction d) (auto simp: redact_dict_def)

lemma timestamp_not_sensitive: "\<not> sensitive_key [] ''timestamp''"
  by code_simp

lemma audit_line_timestamp:
  assumes "distinct (map fst e)" "dget e ''timestamp'' = Some (JNum now)"
  shows "dgetd (audit_line e) ''timestamp'' v = JNum now"
proof -
  have "distinct (map fst (redact_dict [] True e))"
    using assms(1) by (simp add: redact_dict_def case_prod_beta comp_def)
  then have "dget (audit_line e) ''timestamp'' = dget (redact_dict [] True e) ''timestamp''"
    unfolding audit_line_def by (rule map_of_sort_key)
  with assms(2) show ?thesis by (simp only: dget_redact_dict timestamp_not_sensitive dgetd_def) simp
qed

lemma audit_trail_timestamps: "audit_trail lg \<Longrightarrow> e \<in> set lg \<Longrightarrow> \<exists>x. dgetd e ''timestamp'' (JStr []) = JNum x"
proof (induction rule: audit_trail.induct)
  case (trail_decision lg now mid hash sender act score reasons)
  have "dgetd (audit_line (audit_entry now mid hash sender act score reasons)) ''timestamp'' (JStr []) = JNum now"
    by (rule audit_line_timestamp) (simp_all add: audit_entry_def)
  with trail_decision show ?case by (auto simp: audit_record_def)
next
  case (trail_admin lg now operator act target note_text)
  let ?e = "[(''timestamp'', JNum now), (''event_type'', JStr ''admin_action''), (''operator'', JStr operator),
      (''action'', JStr act), (''target_id'', JStr target), (''note'', JStr note_text)]"
  have "dgetd (audit_line ?e) ''timestamp'' (JStr []) = JNum now"
    by (rule audit_line_timestamp) simp_all
  with trail_admin show ?case unfolding record_admin_action_def set_append by auto
qed simp

text \<open>
  The logger writes its time as a number; the purge takes the time for a text, and the exception this raises keeps the line.
  However old the file is, no line of it is purged.
\<close>

theorem audit_log_never_purged:
  assumes "audit_trail lg" and "list_all2 (\<lambda>l e. loads l = Some (JDict e) \<and> strip l \<noteq> []) ls lg"
  shows "purge_audit_log_file hm p fromiso loads now ls = (0, ls)"
proof -
  have "strip l \<noteq> [] \<and> \<not> line_purged hm fromiso loads now (max_age_sec (audit_log_days p)) l" if "l \<in> set ls" for l
  proof -
    from that assms(2) obtain e where e: "e \<in> set lg" "loads l = Some (JDict e)" "strip l \<noteq> []"
      unfolding list_all2_conv_all_nth in_set_conv_nth by metis
    obtain x where "dgetd e ''timestamp'' (JStr []) = JNum x" using audit_trail_timestamps [OF assms(1) e(1)] by blast
    with e show ?thesis by (simp add: line_purged_def)
  qed
  then show ?thesis by (simp add: purge_audit_log_file_def Let_def filter_id_conv filter_empty_conv)
qed

theorem audit_log_never_purged_witness:
  "purge_audit_log_file (new_hold_manager False None) default_retention (\<lambda>_. None)
     (\<lambda>_. Some (JDict (hd (record_admin_action 0 ''op'' ''act'' ''t'' ''n'' [])))) (10 ^ 10) [''{}''] = (0, [''{}''])"
proof (rule audit_log_never_purged [OF trail_admin [OF trail_empty]])
  show "list_all2 (\<lambda>l e. Some (JDict (hd (record_admin_action 0 ''op'' ''act'' ''t'' ''n'' []))) = Some (JDict e) \<and> strip l \<noteq> [])
      [''{}''] (record_admin_action 0 ''op'' ''act'' ''t'' ''n'' [])"
    by (simp add: record_admin_action_def strip_def rstrip_by_def lstrip_by_def is_space_def)
qed

lemma length_strip: "length (strip s) \<le> length s"
  unfolding strip_def rstrip_by_def lstrip_by_def by (metis length_dropWhile_le length_rev le_trans)

text \<open>A hold on a message does not keep the raw copy of it: the purge asks for the name of the file, which ends in \<open>.eml\<close>.\<close>

theorem message_hold_leaves_raw_mail:
  assumes "now - mf_mtime f > max_age_sec (raw_mail_days p)" and "mf_removable f" and "mf_name f = raw_file s mid"
  shows "purge_raw_mail_directory (snd (add_hold uid t ''message_id'' mid why who (new_hold_manager ps None))) p now [f] = Inr (1, [])"
proof -
  have "length (strip (lower mid)) < length (lower (raw_file s mid))"
    using length_strip [of "lower mid"] by (simp add: raw_file_def)
  then have ne: "lower (raw_file s mid) \<noteq> strip (lower mid)" by (metis less_irrefl)
  let ?hm = "snd (add_hold uid t ''message_id'' mid why who (new_hold_manager ps None))"
  have hs: "map snd (hm_holds ?hm) = [\<lparr>lh_id = JStr (''hold_'' @ take 8 uid), lh_type = JStr ''message_id'',
      lh_value = JStr (strip (lower mid)), lh_reason = JStr why, lh_at = JStr t, lh_by = JStr who\<rparr>]"
    unfolding add_hold_def save_holds_def new_hold_manager_def Let_def snd_conv by simp
  have "is_held ?hm (no_query\<lparr>hq_message := JStr (mf_name f)\<rparr>) = Inr False"
    unfolding is_held_def hs using ne assms(3)
    by (simp add: hold_matches_def arg_matches_def no_query_def)
  with assms show ?thesis by (simp add: purge_raw_mail_directory_def Let_def)
qed

subsection \<open>Erasure\<close>

text \<open>Only a hold on the address itself blocks an erasure.\<close>

lemma erasure_held_iff:
  "is_held hm (no_query\<lparr>hq_email := JStr target\<rparr>) =
   Inr (\<exists>h \<in> set (map snd (hm_holds hm)). covers h ''email'' (JStr target))"
  by (subst is_held_total) (simp_all add: texts_def no_query_def query_covered_def)

theorem erasure_outcome:
  assumes "erase_subject_data sha hm now1 now2 addr operator reason rp = (Inr report, ds, rp')"
  shows "\<forall>f \<in> set (rp_list (rp_raw rp')). \<not> erased_file (subject_of addr) f"
    and "rp_audit rp' = map_option (map (anonymize_line (subject_of addr))) (rp_audit rp)"
    and "\<not> (\<exists>h \<in> set (map snd (hm_holds hm)). covers h ''email'' (JStr (subject_of addr)))"
  using assms by (auto simp: erase_subject_data_def Let_def erasure_held_iff rp_list_def
    split: prod.splits sum.splits option.splits if_splits bool.splits)

lemma erasure_blocked:
  assumes "h \<in> set (map snd (hm_holds hm))" and "covers h ''email'' (JStr (subject_of addr))"
  shows "erase_subject_data sha hm now1 now2 addr operator reason rp = (Inl (conflict_error (subject_of addr)), [], rp)"
proof -
  have "is_held hm (no_query\<lparr>hq_email := JStr (subject_of addr)\<rparr>) = Inr True"
    using assms unfolding erasure_held_iff by blast
  then show ?thesis by (simp add: erase_subject_data_def Let_def)
qed

text \<open>An address that a line has in another case is found, and counted, but left where it is.\<close>

lemma other_case_survives:
  assumes "target \<noteq> []" and "\<not> contains target l"
  shows "anonymize_line target l = l"
  using assms by (simp add: anonymize_line_def py_replace_def replace_str_absent)

text \<open>An empty address is mentioned by every text: everything that can be removed is.\<close>

lemma empty_subject_mentions_all: "mentions [] s"
  by (cases "lower s") (simp_all add: mentions_def starts_with_def)

subsection \<open>Residency\<close>

theorem residency_enforced:
  assumes "set_tenant_policy tid primary regions rm = (p, rm')"
  shows "enforce_residency rm' tid target = Inr () \<longleftrightarrow> target = primary \<or> (\<exists>rs. regions = Some rs \<and> target \<in> set rs)"
    and "t \<noteq> tid \<Longrightarrow> enforce_residency rm' t target = enforce_residency rm t target"
  using assms
  by (auto simp: set_tenant_policy_def enforce_residency_def validate_storage_location_def get_tenant_policy_def Let_def
      residency_violation_def split: option.splits list.splits if_splits)

lemma residency_default: "dget (residency_policies rm) tid = None \<Longrightarrow>
    enforce_residency rm tid target = Inr () \<longleftrightarrow> target = default_region rm"
  by (simp add: enforce_residency_def validate_storage_location_def get_tenant_policy_def)

end
