(* ===== verification/TimeOfClick.thy ===== *)
theory TimeOfClick
  imports Parsers Codec Identity Regex Reputation
begin

text \<open>
  \<open>time_of_click/\<close>: the rewriting of links so that they lead through the gateway (\<open>rewriter.py\<close>), and the check of
  a rewritten link when it is clicked (\<open>service.py\<close>). The keyed digest is the \<open>crypto\<close> parameter of \<open>Identity\<close>.
\<close>

subsection \<open>UTF-8 back to text\<close>

text \<open>\<open>bytes.decode("utf-8")\<close>; text beyond Latin-1 is not represented, so its bytes are \<^const>\<open>None\<close> too.\<close>

fun from_utf8 :: "string \<Rightarrow> string option" where
  "from_utf8 [] = Some []"
| "from_utf8 (c # s) =
     (let n = (of_char c :: nat) in
      if n < 128 then map_option (Cons c) (from_utf8 s)
      else if n = 194 \<or> n = 195 then
        (case s of
           [] \<Rightarrow> None
         | d # t \<Rightarrow> (let k = (of_char d :: nat) in
             if 128 \<le> k \<and> k < 192 then map_option (Cons (char_of (64 * (n - 192) + (k - 128)))) (from_utf8 t) else None))
      else None)"

lemma utf8_Cons: "utf8 (c # s) = (let n = (of_char c :: nat) in
    if n < 128 then [c] else [char_of (192 + n div 64), char_of (128 + n mod 64)]) @ utf8 s"
  by (simp add: utf8_def)

lemma from_utf8_utf8 [simp]: "from_utf8 (utf8 s) = Some s"
proof (induction s)
  case Nil
  show ?case by (simp add: utf8_def)
next
  case (Cons c s)
  let ?n = "of_char c :: nat"
  show ?case
  proof (cases "?n < 128")
    case True
    with Cons show ?thesis by (simp add: utf8_Cons)
  next
    case False
    have n: "?n < 256" by (rule byte_bound)
    then have b: "?n div 64 < 4" "?n mod 64 < 64" by (simp_all add: less_mult_imp_div_less)
    then have d: "of_char (char_of (192 + ?n div 64) :: char) = 192 + ?n div 64"
        "of_char (char_of (128 + ?n mod 64) :: char) = 128 + ?n mod 64"
      by simp_all
    have "192 + ?n div 64 = 194 \<or> 192 + ?n div 64 = 195" using False b by linarith
    moreover have "64 * (192 + ?n div 64 - 192) + (128 + ?n mod 64 - 128) = ?n" by simp
    ultimately show ?thesis using False b Cons
      unfolding utf8_Cons Let_def if_not_P [OF False] append_Cons append_Nil from_utf8.simps d
      by simp
  qed
qed

lemma utf8_Nil_iff [simp]: "utf8 s = [] \<longleftrightarrow> s = []"
  by (cases s) (simp_all add: utf8_def Let_def)

lemma a2b_b64_encode: "a2b 0 l p (b64_encode bs) = Some bs"
proof (induction bs arbitrary: l p rule: b64_encode.induct)
  case (2 a)
  show ?case using a2b_b64_body [of 2 "[a]" l p] by (simp add: numeral_2_eq_2)
next
  case (3 a b)
  show ?case using a2b_b64_body [of 1 "[a, b]" l p] by simp
next
  case (4 a b c r)
  note n = sextets(1) [of a] sextets(4) [of a b] sextets(5) [of b c] sextets(6) [of c]
  have "char_of (of_char x :: nat) = x" for x :: char by simp
  then show ?case
    unfolding b64_encode.simps append_Cons a2b_digits(1) [OF n(1)] a2b_digits(2) [OF n(2)]
      a2b_digits(3) [OF n(3)] a2b_digits(4) [OF n(4)] octet_join(1-3) [OF byte_bound byte_bound byte_bound]
    by (simp add: 4)
qed simp

subsection \<open>rewriter.py\<close>

definition generate_url_signature :: "crypto \<Rightarrow> string \<Rightarrow> string \<Rightarrow> string" where
  "generate_url_signature cr target_url key = take 16 (hex_of (hmac_sha256 cr (utf8 key) (utf8 target_url)))"

definition create_toc_url :: "crypto \<Rightarrow> string \<Rightarrow> string \<Rightarrow> string \<Rightarrow> string" where
  "create_toc_url cr target_url gateway_base key =
     rstrip_char (CHR ''/'') gateway_base @ ''/toc/redirect?url='' @ b64_encode (utf8 target_url) @
     ''&sig='' @ generate_url_signature cr target_url key"

text \<open>\<open>pattern.sub(f, s)\<close> for a function of the match, and a pattern that matches no empty text.\<close>

function sub_with :: "re \<Rightarrow> (string \<Rightarrow> nat \<times> nat \<times> captures \<Rightarrow> string) \<Rightarrow> string \<Rightarrow> nat \<Rightarrow> string" where
  "sub_with r f s i =
     (if i \<ge> length s then []
      else case match_at r s i of
        Some (j, caps) \<Rightarrow> if j > i then f s (i, j, caps) @ sub_with r f s j else s ! i # sub_with r f s (Suc i)
      | None \<Rightarrow> s ! i # sub_with r f s (Suc i))"
  by pat_completeness auto
termination
  by (relation "measure (\<lambda>(r, f, s, i). length s - i)") auto

declare sub_with.simps [simp del]

definition toc_marker :: string where
  "toc_marker = ''/toc/redirect''"

definition one_not_of :: "string \<Rightarrow> re" where
  "one_not_of cs = Sat (\<lambda>c. c \<notin> set cs)"

definition quotes :: string where
  "quotes = [CHR 0x22, CHR 0x27]"

definition http_scheme :: "(string \<Rightarrow> re) \<Rightarrow> re" where
  "http_scheme l = seqs [l ''http'', Opt (l ''s''), l ''://'']"

definition href_url_re :: re where
  "href_url_re = seqs [
     Cap 1 (seqs [lit_ci ''<a'', plus space, Star (one_not_of ''>''), lit_ci ''href='', one_of quotes]),
     Cap 2 (seqs [http_scheme lit_ci, plus (one_not_of quotes)]),
     Cap 3 (seqs [one_of quotes, Star (one_not_of ''>''), lit ''>''])]"

definition group_text :: "string \<Rightarrow> nat \<times> nat \<times> captures \<Rightarrow> nat \<Rightarrow> string" where
  "group_text s m n = (case group s m n of None \<Rightarrow> [] | Some t \<Rightarrow> t)"

text \<open>Links already marked stay, the others lead through the gateway.\<close>

definition replace_href :: "crypto \<Rightarrow> string \<Rightarrow> string \<Rightarrow> string \<Rightarrow> nat \<times> nat \<times> captures \<Rightarrow> string" where
  "replace_href cr gateway_base key s m =
     (let url = group_text s m 2 in
      if contains toc_marker url then group0 s m
      else group_text s m 1 @ create_toc_url cr url gateway_base key @ group_text s m 3)"

definition rewrite_urls_in_html :: "crypto \<Rightarrow> string \<Rightarrow> string \<Rightarrow> string \<Rightarrow> string \<times> nat" where
  "rewrite_urls_in_html cr html_content gateway_base key =
     (if html_content = [] \<or> key = [] \<or> gateway_base = [] then (html_content, 0)
      else (sub_with href_url_re (replace_href cr gateway_base key) html_content 0,
            length (filter (\<lambda>m. \<not> contains toc_marker (group_text html_content m 2)) (find_all href_url_re html_content))))"

definition text_url_re :: re where
  "text_url_re = seqs [http_scheme lit, plus (Sat (\<lambda>c. \<not> is_space c \<and> c \<notin> set (''<>'' @ quotes)))]"

definition replace_url :: "crypto \<Rightarrow> string \<Rightarrow> string \<Rightarrow> string \<Rightarrow> nat \<times> nat \<times> captures \<Rightarrow> string" where
  "replace_url cr gateway_base key s m =
     (let url = group0 s m in if contains toc_marker url then url else create_toc_url cr url gateway_base key)"

definition rewrite_urls_in_text :: "crypto \<Rightarrow> string \<Rightarrow> string \<Rightarrow> string \<Rightarrow> string \<times> nat" where
  "rewrite_urls_in_text cr text_content gateway_base key =
     (if text_content = [] \<or> key = [] \<or> gateway_base = [] then (text_content, 0)
      else (sub_with text_url_re (replace_url cr gateway_base key) text_content 0,
            length (filter (\<lambda>m. \<not> contains toc_marker (group0 text_content m)) (find_all text_url_re text_content))))"

subsection \<open>service.py\<close>

definition decode_target :: "string \<Rightarrow> string option" where
  "decode_target encoded_url = Option.bind (a2b 0 0 0 (utf8 encoded_url)) from_utf8"

definition decode_and_verify :: "crypto \<Rightarrow> string \<Rightarrow> string \<Rightarrow> string \<Rightarrow> bool \<times> string" where
  "decode_and_verify cr key encoded_url signature =
     (if encoded_url = [] \<or> signature = [] then (False, [])
      else case decode_target encoded_url of
        None \<Rightarrow> (False, [])
      | Some target \<Rightarrow>
          if signature \<noteq> generate_url_signature cr target key then (False, target) else (True, target))"

text \<open>What \<open>check_url\<close> of a provider returns: an object with the two attributes the service reads, or a tuple.\<close>

datatype click_answer =
    VerdictObject bool string
  | Tuple string string

fun exn_text :: "py_exn \<Rightarrow> string" where
  "exn_text (ValueError s) = s"
| "exn_text (KeyError s) = quoted s"
| "exn_text (TypeError s) = s"
| "exn_text (PermissionError s) = s"
| "exn_text (RuntimeError s) = s"
| "exn_text (OtherError s) = s"

definition degraded :: "py_exn \<Rightarrow> bool \<times> string" where
  "degraded e = (True, ''Click-time check degraded ('' @ exn_text e @ ''); allowing redirect'')"

definition tuple_has_no_attribute :: py_exn where
  "tuple_has_no_attribute = OtherError (quoted ''tuple'' @ '' object has no attribute '' @ quoted ''is_malicious'')"

definition evaluate_click :: "(string \<Rightarrow> 's \<Rightarrow> click_answer result \<times> 's) option \<Rightarrow> string \<Rightarrow> 's \<Rightarrow> (bool \<times> string) \<times> 's" where
  "evaluate_click provider target_url s =
     (if target_url = [] then ((False, ''Empty or invalid URL''), s)
      else case provider of
        None \<Rightarrow> ((True, ''No live reputation provider configured; click allowed''), s)
      | Some check \<Rightarrow>
          (case check target_url s of
             (Inl e, s') \<Rightarrow> (degraded e, s')
           | (Inr (Tuple v d), s') \<Rightarrow> (degraded tuple_has_no_attribute, s')
           | (Inr (VerdictObject True threat), s') \<Rightarrow> ((False, ''URL flagged as malicious at click-time: '' @ threat), s')
           | (Inr (VerdictObject False threat), s') \<Rightarrow> ((True, ''URL verified clean at click-time''), s')))"

text \<open>The providers of \<open>content_analysis/reputation.py\<close> return tuples.\<close>

definition tuple_answers :: "(string \<Rightarrow> 's \<Rightarrow> (string \<times> string) result \<times> 's) \<Rightarrow> string \<Rightarrow> 's \<Rightarrow> click_answer result \<times> 's" where
  "tuple_answers check url s = (case check url s of (r, s') \<Rightarrow> (map_sum id (\<lambda>(v, d). Tuple v d) r, s'))"

subsection \<open>A link of the gateway, and only such a link, passes\<close>

lemma b64_encode_ascii: "is_ascii (b64_encode bs)"
proof -
  obtain k where "b64_encode bs = b64_body bs @ replicate k (CHR ''='')" using b64_encode_body by blast
  then show ?thesis using b64_body_ok(3) by (auto simp: is_ascii_def list_all_iff)
qed

lemma decode_target_encoded [simp]: "decode_target (b64_encode (utf8 url)) = Some url"
  by (simp add: decode_target_def utf8_ascii [OF b64_encode_ascii] a2b_b64_encode)

lemma b64_encode_Nil_iff [simp]: "b64_encode bs = [] \<longleftrightarrow> bs = []"
  by (cases bs rule: b64_encode.cases) simp_all

text \<open>A link is taken exactly if its signature is the one of the address it decodes to.\<close>

theorem link_verified_iff:
  "decode_and_verify cr key encoded_url signature = (True, target) \<longleftrightarrow>
   encoded_url \<noteq> [] \<and> signature \<noteq> [] \<and> decode_target encoded_url = Some target \<and>
   signature = generate_url_signature cr target key"
  by (auto simp: decode_and_verify_def split: option.splits if_splits)

lemma hex_of_Nil_iff [simp]: "hex_of bs = [] \<longleftrightarrow> bs = []"
  by (cases bs) (simp_all add: hex_of_def)

theorem rewritten_link_verifies:
  assumes "\<And>k m. length (hmac_sha256 cr k m) = 32" and "url \<noteq> []"
  shows "decode_and_verify cr key (b64_encode (utf8 url)) (generate_url_signature cr url key) = (True, url)"
proof -
  have "hmac_sha256 cr k m \<noteq> []" for k m using assms(1) [of k m] by auto
  then show ?thesis using assms(2) by (simp add: link_verified_iff generate_url_signature_def)
qed

theorem rewritten_link_verifies_witness:
  "decode_and_verify (toy_crypto\<lparr>hmac_sha256 := \<lambda>k m. replicate 32 (CHR ''s'')\<rparr>) ''key'' (b64_encode (utf8 ''http://a.b/''))
     (generate_url_signature (toy_crypto\<lparr>hmac_sha256 := \<lambda>k m. replicate 32 (CHR ''s'')\<rparr>) ''http://a.b/'' ''key'') =
   (True, ''http://a.b/'')"
  by (rule rewritten_link_verifies) simp_all

subsection \<open>The check at the click\<close>

text \<open>
  With a provider of the gateway the check never blocks: the verdict is a tuple, reading its \<open>is_malicious\<close> raises, and
  the exception allows the redirect, whatever the provider knows of the address.
\<close>

theorem click_never_blocked:
  assumes "url \<noteq> []"
  shows "fst (fst (evaluate_click (Some (tuple_answers (configured_check vt_key gsb_key http post mo))) url s))"
proof -
  obtain r s' where "configured_check vt_key gsb_key http post mo url s = (r, s')" by fastforce
  with assms show ?thesis
    by (cases r) (auto simp: evaluate_click_def tuple_answers_def degraded_def)
qed

subsection \<open>What the rewriting leaves\<close>

lemma sub_with_same:
  assumes "\<And>i j caps. match_at r s i = Some (j, caps) \<Longrightarrow> i < j \<Longrightarrow> f s (i, j, caps) = slice s i j"
  shows "sub_with r f s i = drop i s"
proof (induction "length s - i" arbitrary: i rule: less_induct)
  case less
  have later: "sub_with r f s j = drop j s" if "i < j" "i < length s" for j
    using that by (intro less) auto
  have cons: "i < length s \<Longrightarrow> s ! i # drop (Suc i) s = drop i s" by (rule Cons_nth_drop_Suc)
  have step: "slice s i j @ drop j s = drop i s" if "i < j" for j
    using that append_take_drop_id [of "j - i" "drop i s"] by (simp add: slice_def)
  show ?case
    by (subst sub_with.simps) (auto simp: later cons step assms split: option.split)
qed

text \<open>A text whose addresses all hold the marker, wherever they lead, is not touched.\<close>

theorem marked_links_untouched:
  assumes "\<And>i j caps. match_at text_url_re s i = Some (j, caps) \<Longrightarrow> contains toc_marker (slice s i j)"
  shows "fst (rewrite_urls_in_text cr s gateway_base key) = s"
proof -
  have "sub_with text_url_re (replace_url cr gateway_base key) s 0 = drop 0 s"
    by (rule sub_with_same) (simp add: replace_url_def group0_def assms)
  then show ?thesis by (simp add: rewrite_urls_in_text_def)
qed

end
