(* ===== verification/ThreatIntel.thy ===== *)
theory ThreatIntel
  imports URLs Regex Reputation Decimals
begin

text \<open>
  \<open>threat_intel/\<close>: indicator feeds (\<open>feed_ingestion.py\<close>) and the two clients that fill them (\<open>misp_integration.py\<close>,
  \<open>stix_taxii.py\<close>), the certificate-transparency monitor (\<open>ct_monitor.py\<close>), campaigns (\<open>campaign_tracker.py\<close>), sharing
  between tenants (\<open>cross_tenant_sharing.py\<close>) and newly registered domains (\<open>nrd_watchlist.py\<close>). \<open>json.loads\<close> is the
  parameter \<open>loads\<close>; sets of texts are lists without the order in which Python iterates them, which is a parameter
  where it matters. What an exception leaves behind is part of each result.
\<close>

definition clean :: "string \<Rightarrow> string" where
  "clean s = strip (lower s)"

subsection \<open>feed\_ingestion.py\<close>

record ioc_feed =
  ip_blocklist :: "string list"
  domain_blocklist :: "string list"
  hash_blocklist :: "string list"
  url_blocklist :: "string list"
  ioc_metadata :: "(string, string \<times> string) dict"

definition empty_feed :: ioc_feed where
  "empty_feed = \<lparr>ip_blocklist = [], domain_blocklist = [], hash_blocklist = [], url_blocklist = [], ioc_metadata = []\<rparr>"

datatype ioc_kind = IpKind | DomainKind | HashKind | UrlKind

definition ioc_kind_of :: "string \<Rightarrow> ioc_kind option" where
  "ioc_kind_of ty =
     (if ty \<in> {''ip'', ''ipv4'', ''ipv6''} then Some IpKind
      else if ty \<in> {''domain'', ''hostname''} then Some DomainKind
      else if ty \<in> {''hash'', ''md5'', ''sha256''} then Some HashKind
      else if ty \<in> {''url'', ''uri''} then Some UrlKind
      else None)"

fun blocklist :: "ioc_kind \<Rightarrow> ioc_feed \<Rightarrow> string list" where
  "blocklist IpKind fd = ip_blocklist fd"
| "blocklist DomainKind fd = domain_blocklist fd"
| "blocklist HashKind fd = hash_blocklist fd"
| "blocklist UrlKind fd = url_blocklist fd"

fun block :: "ioc_kind \<Rightarrow> string \<Rightarrow> ioc_feed \<Rightarrow> ioc_feed" where
  "block IpKind v fd = fd\<lparr>ip_blocklist := List.insert v (ip_blocklist fd)\<rparr>"
| "block DomainKind v fd = fd\<lparr>domain_blocklist := List.insert v (domain_blocklist fd)\<rparr>"
| "block HashKind v fd = fd\<lparr>hash_blocklist := List.insert v (hash_blocklist fd)\<rparr>"
| "block UrlKind v fd = fd\<lparr>url_blocklist := List.insert v (url_blocklist fd)\<rparr>"

definition add_ioc :: "string \<Rightarrow> string \<Rightarrow> string \<Rightarrow> ioc_feed \<Rightarrow> bool \<times> ioc_feed" where
  "add_ioc val ty source fd =
     (let v = clean val in
      if v = [] then (False, fd)
      else case ioc_kind_of ty of
        None \<Rightarrow> (False, fd)
      | Some k \<Rightarrow> (True, (block k v fd)\<lparr>ioc_metadata := dset (ioc_metadata fd) v (ty, source)\<rparr>))"

text \<open>The values a \<open>for\<close> takes from a decoded JSON value.\<close>

fun iterate :: "json \<Rightarrow> json list result" where
  "iterate (JList xs) = Inr xs"
| "iterate (JStr s) = Inr (map (\<lambda>c. JStr [c]) s)"
| "iterate (JDict d) = Inr (map (\<lambda>(k, _). JStr k) d)"
| "iterate _ = Inl (TypeError ''object is not iterable'')"

text \<open>\<open>j.get(k, default)\<close>\<close>

definition jget :: "json \<Rightarrow> string \<Rightarrow> json \<Rightarrow> json result" where
  "jget j k v = (case j of JDict d \<Rightarrow> Inr (dgetd d k v) | _ \<Rightarrow> Inl attribute_error)"

text \<open>\<open>val and self.add_ioc(val, ...)\<close>: a value that is not a text has no \<open>lower\<close>.\<close>

definition add_json_ioc :: "json \<Rightarrow> string \<Rightarrow> string \<Rightarrow> ioc_feed \<Rightarrow> bool result \<times> ioc_feed" where
  "add_json_ioc val ty source fd =
     (if \<not> truthy val then (Inr False, fd)
      else case val of
        JStr s \<Rightarrow> (let (b, fd') = add_ioc s ty source fd in (Inr b, fd'))
      | _ \<Rightarrow> (Inl attribute_error, fd))"

fun ingest_items :: "string \<Rightarrow> string \<Rightarrow> json list \<Rightarrow> nat \<Rightarrow> ioc_feed \<Rightarrow> nat result \<times> ioc_feed" where
  "ingest_items name ty [] n fd = (Inr n, fd)"
| "ingest_items name ty (item # items) n fd =
     (case (case item of JStr s \<Rightarrow> Inr item | _ \<Rightarrow> jget item ''value'' JNull) of
        Inl e \<Rightarrow> (Inl e, fd)
      | Inr val \<Rightarrow>
          (case add_json_ioc val ty name fd of
             (Inl e, fd') \<Rightarrow> (Inl e, fd')
           | (Inr b, fd') \<Rightarrow> ingest_items name ty items (if b then n + 1 else n) fd'))"

definition feed_items :: "json \<Rightarrow> json list result" where
  "feed_items data = (case data of JList xs \<Rightarrow> Inr xs
     | _ \<Rightarrow> (case jget data ''items'' (JList []) of Inl e \<Rightarrow> Inl e | Inr j \<Rightarrow> iterate j))"

text \<open>A line of a text feed: the indicator before a comment, if there is one.\<close>

definition feed_line :: "string \<Rightarrow> string option" where
  "feed_line line =
     (let l = strip line in
      if l = [] \<or> starts_with ''#'' l \<or> starts_with ''//'' l then None
      else let val = strip (hd (split_char (CHR '';'') (hd (split_char (CHR ''#'') l))))
           in if val = [] then None else Some val)"

fun ingest_lines :: "string \<Rightarrow> string \<Rightarrow> string list \<Rightarrow> nat \<Rightarrow> ioc_feed \<Rightarrow> nat \<times> ioc_feed" where
  "ingest_lines name ty [] n fd = (n, fd)"
| "ingest_lines name ty (l # ls) n fd =
     (case feed_line l of
        None \<Rightarrow> ingest_lines name ty ls n fd
      | Some val \<Rightarrow> (let (b, fd') = add_ioc val ty name fd in ingest_lines name ty ls (if b then n + 1 else n) fd'))"

definition ingest_feed :: "(string \<Rightarrow> json option) \<Rightarrow> string \<Rightarrow> string \<Rightarrow> string \<Rightarrow> ioc_feed \<Rightarrow> nat result \<times> ioc_feed" where
  "ingest_feed loads name feed_type content fd =
     (let ty = clean feed_type;
          as_lines = (let (n, fd') = ingest_lines name ty (splitlines content) 0 fd in (Inr n, fd'))
      in if starts_with ''{'' (strip content) \<or> starts_with ''['' (strip content)
         then (case loads content of
             None \<Rightarrow> as_lines
           | Some data \<Rightarrow> (case feed_items data of
               Inl e \<Rightarrow> (Inl e, fd)
             | Inr items \<Rightarrow> ingest_items name ty items 0 fd))
         else as_lines)"

definition check_kind :: "ioc_kind \<Rightarrow> string \<Rightarrow> ioc_feed \<Rightarrow> string \<Rightarrow> (string \<times> string) option" where
  "check_kind k label fd val =
     (let v = clean val in if v \<in> set (blocklist k fd) then Some (dgetd (ioc_metadata fd) v (label, ''known_bad'')) else None)"

definition check_ip :: "ioc_feed \<Rightarrow> string \<Rightarrow> (string \<times> string) option" where
  "check_ip = check_kind IpKind ''ip''"

definition check_domain :: "ioc_feed \<Rightarrow> string \<Rightarrow> (string \<times> string) option" where
  "check_domain = check_kind DomainKind ''domain''"

definition check_hash :: "ioc_feed \<Rightarrow> string \<Rightarrow> (string \<times> string) option" where
  "check_hash = check_kind HashKind ''hash''"

definition check_url :: "ioc_feed \<Rightarrow> string \<Rightarrow> (string \<times> string) option" where
  "check_url = check_kind UrlKind ''url''"

subsection \<open>misp\_integration.py\<close>

definition misp_kind :: "string \<Rightarrow> string option" where
  "misp_kind ty =
     (if ty \<in> {''domain'', ''hostname''} then Some ''domain''
      else if ty \<in> {''ip-src'', ''ip-dst'', ''ip''} then Some ''ip''
      else if ty \<in> {''url'', ''uri''} then Some ''url''
      else if ty \<in> {''sha256'', ''md5'', ''filename|sha256''} then Some ''hash''
      else None)"

text \<open>The value handed to \<open>add_ioc\<close>; of a hash only what follows the last bar.\<close>

definition misp_value :: "string \<Rightarrow> json \<Rightarrow> json result" where
  "misp_value kind val =
     (if kind \<noteq> ''hash'' then Inr val
      else case val of
        JStr s \<Rightarrow> Inr (JStr (if CHR ''|'' \<in> set s then after_last (CHR ''|'') s else s))
      | JList _ \<Rightarrow> Inl attribute_error
      | JDict _ \<Rightarrow> Inl attribute_error
      | _ \<Rightarrow> Inl (TypeError ''argument is not iterable''))"

definition misp_attribute :: "json \<Rightarrow> ioc_feed \<Rightarrow> bool result \<times> ioc_feed" where
  "misp_attribute a fd =
     (case (jget a ''value'' JNull, jget a ''type'' (JStr [])) of
        (Inr val, Inr (JStr ty)) \<Rightarrow>
          if \<not> truthy val then (Inr False, fd)
          else (case misp_kind (lower ty) of
              None \<Rightarrow> (Inr False, fd)
            | Some kind \<Rightarrow> (case misp_value kind val of
                Inl e \<Rightarrow> (Inl e, fd)
              | Inr v \<Rightarrow> add_json_ioc v kind ''misp'' fd))
      | _ \<Rightarrow> (Inl attribute_error, fd))"

fun misp_attributes :: "json list \<Rightarrow> nat \<Rightarrow> ioc_feed \<Rightarrow> nat result \<times> ioc_feed" where
  "misp_attributes [] n fd = (Inr n, fd)"
| "misp_attributes (a # as) n fd =
     (case misp_attribute a fd of
        (Inl e, fd') \<Rightarrow> (Inl e, fd')
      | (Inr b, fd') \<Rightarrow> misp_attributes as (if b then n + 1 else n) fd')"

definition event_attributes :: "json \<Rightarrow> json list result" where
  "event_attributes item =
     (case jget item ''Event'' item of
        Inl e \<Rightarrow> Inl e
      | Inr ev \<Rightarrow> (case jget ev ''Attribute'' (JList []) of Inl e \<Rightarrow> Inl e | Inr xs \<Rightarrow> iterate xs))"

fun misp_events :: "json list \<Rightarrow> nat \<Rightarrow> ioc_feed \<Rightarrow> nat result \<times> ioc_feed" where
  "misp_events [] n fd = (Inr n, fd)"
| "misp_events (item # items) n fd =
     (case event_attributes item of
        Inl e \<Rightarrow> (Inl e, fd)
      | Inr as \<Rightarrow> (case misp_attributes as n fd of
          (Inl e, fd') \<Rightarrow> (Inl e, fd')
        | (Inr m, fd') \<Rightarrow> misp_events items m fd'))"

definition parse_misp_event_response :: "(string \<Rightarrow> json option) \<Rightarrow> string \<Rightarrow> ioc_feed \<Rightarrow> nat result \<times> ioc_feed" where
  "parse_misp_event_response loads txt fd =
     (case loads txt of
        None \<Rightarrow> (Inr 0, fd)
      | Some data \<Rightarrow>
          (case jget data ''response'' (JList []) of
             Inl e \<Rightarrow> (Inl e, fd)
           | Inr events \<Rightarrow>
               (case (case events of JDict _ \<Rightarrow> Inr [events] | _ \<Rightarrow> iterate events) of
                  Inl e \<Rightarrow> (Inl e, fd)
                | Inr items \<Rightarrow> misp_events items 0 fd)))"

text \<open>An argument that is \<open>None\<close> or empty is the empty text.\<close>

definition export_attribute :: "string \<Rightarrow> string \<Rightarrow> string \<Rightarrow> json list" where
  "export_attribute ty category val = (if val = [] then []
     else [JDict [(''type'', JStr ty), (''category'', JStr category), (''value'', JStr val)]])"

definition format_export_event :: "string \<Rightarrow> string \<Rightarrow> string \<Rightarrow> string \<Rightarrow> string \<Rightarrow> string \<Rightarrow> int \<Rightarrow> json" where
  "format_export_event today info sender_ip domain url sha level =
     JDict [(''Event'', JDict [
       (''info'', JStr (''[Email Auth Gateway] '' @ info)),
       (''threat_level_id'', JStr (int_str level)), (''analysis'', JStr ''2''), (''distribution'', JStr ''0''),
       (''date'', JStr today),
       (''Attribute'', JList (export_attribute ''ip-src'' ''Network activity'' sender_ip @
          export_attribute ''domain'' ''Network activity'' domain @ export_attribute ''url'' ''Payload delivery'' url @
          export_attribute ''sha256'' ''Payload delivery'' sha))])]"

subsection \<open>stix\_taxii.py\<close>

definition quoted_value :: re where
  "quoted_value = seqs [Star space, lit ''='', Star space, Sat (\<lambda>c. c = CHR 0x27),
     Cap 1 (plus (Sat (\<lambda>c. c \<noteq> CHR 0x27))), Sat (\<lambda>c. c = CHR 0x27)]"

definition any_quote :: re where
  "any_quote = Opt (one_of [CHR 0x22, CHR 0x27])"

definition stix_patterns :: "(re \<times> string) list" where
  "stix_patterns = [
     (seqs [lit_ci ''domain-name:value'', quoted_value], ''domain''),
     (seqs [lit_ci ''ipv4-addr:value'', quoted_value], ''ip''),
     (seqs [lit_ci ''file:hashes.'', any_quote, alts [lit_ci ''SHA-256'', lit_ci ''MD5''], any_quote, quoted_value], ''hash''),
     (seqs [lit_ci ''url:value'', quoted_value], ''url'')]"

definition stix_values :: "string \<Rightarrow> (string \<times> string) list" where
  "stix_values p = concat (map (\<lambda>(r, ty). map (\<lambda>m. (case group p m 1 of None \<Rightarrow> [] | Some t \<Rightarrow> t, ty)) (find_all r p)) stix_patterns)"

definition add_all :: "(string \<times> string) list \<Rightarrow> ioc_feed \<Rightarrow> ioc_feed" where
  "add_all vs fd = foldl (\<lambda>fd (v, ty). snd (add_ioc v ty ''stix2.1'' fd)) fd vs"

text \<open>The values of one object: an indicator's pattern, searched with each pattern in turn.\<close>

definition stix_object :: "json \<Rightarrow> (string \<times> string) list result" where
  "stix_object obj =
     (case (jget obj ''type'' JNull, jget obj ''pattern'' (JStr [])) of
        (Inr ty, Inr p) \<Rightarrow>
          if ty \<noteq> JStr ''indicator'' \<or> \<not> truthy p then Inr []
          else (case p of JStr s \<Rightarrow> Inr (stix_values s) | _ \<Rightarrow> Inl (TypeError ''expected string''))
      | _ \<Rightarrow> Inl attribute_error)"

fun stix_objects :: "json list \<Rightarrow> (string \<times> string) list \<Rightarrow> ioc_feed \<Rightarrow> (string \<times> string) list result \<times> ioc_feed" where
  "stix_objects [] found_iocs fd = (Inr found_iocs, fd)"
| "stix_objects (obj # objs) found_iocs fd =
     (case stix_object obj of
        Inl e \<Rightarrow> (Inl e, fd)
      | Inr vs \<Rightarrow> stix_objects objs (found_iocs @ vs) (add_all vs fd))"

definition stix_bundle :: "json \<Rightarrow> ioc_feed \<Rightarrow> (string \<times> string) list result \<times> ioc_feed" where
  "stix_bundle bundle fd =
     (case iterate (case bundle of JDict d \<Rightarrow> dgetd d ''objects'' (JList []) | _ \<Rightarrow> JList []) of
        Inl e \<Rightarrow> (Inl e, fd)
      | Inr objs \<Rightarrow> stix_objects objs [] fd)"

definition parse_stix_bundle :: "(string \<Rightarrow> json option) \<Rightarrow> string \<Rightarrow> ioc_feed \<Rightarrow> (string \<times> string) list result \<times> ioc_feed" where
  "parse_stix_bundle loads txt fd = (case loads txt of None \<Rightarrow> (Inr [], fd) | Some bundle \<Rightarrow> stix_bundle bundle fd)"

text \<open>The objects are wrapped and read again, which gives the same value.\<close>

definition parse_taxii_collection_response :: "(string \<Rightarrow> json option) \<Rightarrow> string \<Rightarrow> ioc_feed \<Rightarrow> nat result \<times> ioc_feed" where
  "parse_taxii_collection_response loads txt fd =
     (case loads txt of
        None \<Rightarrow> (Inr 0, fd)
      | Some data \<Rightarrow>
          (case jget data ''objects'' (JList []) of
             Inl e \<Rightarrow> (Inl e, fd)
           | Inr objs \<Rightarrow>
               if \<not> truthy objs then (Inr 0, fd)
               else (case stix_bundle (JDict [(''type'', JStr ''bundle''), (''id'', JStr ''bundle--taxii''), (''objects'', objs)]) fd of
                   (r, fd') \<Rightarrow> (map_sum id length r, fd'))))"

subsection \<open>ct\_monitor.py\<close>

definition ct_cell :: "char \<Rightarrow> nat list \<Rightarrow> nat list \<Rightarrow> nat \<times> char \<Rightarrow> nat list" where
  "ct_cell c1 previous_row current_row jc =
     (let (j, c2) = jc;
          insertions = previous_row ! (j + 1) + 1;
          deletions = current_row ! j + 1;
          substitutions = previous_row ! j + of_bool (c1 \<noteq> c2)
      in current_row @ [min (min insertions deletions) substitutions])"

definition ct_row :: "string \<Rightarrow> nat list \<Rightarrow> nat \<times> char \<Rightarrow> nat list" where
  "ct_row s2 previous_row ic = foldl (ct_cell (snd ic) previous_row) [fst ic + 1] (enumerate 0 s2)"

definition ct_distance :: "string \<Rightarrow> string \<Rightarrow> nat" where
  "ct_distance s1 s2 =
     (if s2 = [] then length s1 else last (foldl (ct_row s2) [0..<Suc (length s2)] (enumerate 0 s1)))"

text \<open>The shorter text is the second.\<close>

definition levenshtein_distance :: "string \<Rightarrow> string \<Rightarrow> nat" where
  "levenshtein_distance s1 s2 = (if length s1 < length s2 then ct_distance s2 s1 else ct_distance s1 s2)"

record ct_monitor =
  ct_brands :: "string list"
  suspicious_certs :: "json list"

definition new_ct_monitor :: "string list \<Rightarrow> ct_monitor" where
  "new_ct_monitor brands = \<lparr>ct_brands = remdups (map clean brands), suspicious_certs = []\<rparr>"

definition add_brand_domain :: "string \<Rightarrow> ct_monitor \<Rightarrow> ct_monitor" where
  "add_brand_domain d ct = ct\<lparr>ct_brands := List.insert (clean d) (ct_brands ct)\<rparr>"

definition dot_head :: "string \<Rightarrow> string" where
  "dot_head s = hd (split_char (CHR ''.'') s)"

definition brand_match :: "string \<Rightarrow> string \<Rightarrow> (string \<times> nat) option" where
  "brand_match target brand =
     (let b = clean brand; target_name = dot_head target; brand_name = dot_head b in
      if target = b then None
      else let dist = levenshtein_distance target_name brand_name in
           if 1 \<le> dist \<and> dist \<le> 2 \<and> length brand_name > 3 then Some (b, dist)
           else if contains brand_name target_name \<and> target \<noteq> b then Some (b, 0)
           else None)"

fun first_match :: "string \<Rightarrow> string list \<Rightarrow> (string \<times> nat) option" where
  "first_match target [] = None"
| "first_match target (b # bs) = (case brand_match target b of None \<Rightarrow> first_match target bs | Some m \<Rightarrow> Some m)"

text \<open>\<open>order\<close> is the order in which the set of brands is iterated.\<close>

definition is_lookalike_domain :: "(string list \<Rightarrow> string list) \<Rightarrow> ct_monitor \<Rightarrow> string \<Rightarrow> (string \<times> nat) option" where
  "is_lookalike_domain order ct target_domain = first_match (clean target_domain) (order (ct_brands ct))"

definition ct_alert :: "(string, json) dict \<Rightarrow> string \<Rightarrow> string \<times> nat \<Rightarrow> json" where
  "ct_alert cert domain m =
     JDict [(''domain'', JStr domain), (''target_brand'', JStr (fst m)), (''distance'', JInt (int (snd m))),
       (''issuer'', dgetd cert ''issuer'' (JStr ''Unknown CA'')), (''serial_number'', dgetd cert ''serial_number'' (JStr [])),
       (''timestamp'', dgetd cert ''timestamp'' JNull), (''threat'', JStr ''proactive_phishing_cert_issuance'')]"

fun first_alert :: "(string list \<Rightarrow> string list) \<Rightarrow> (string, json) dict \<Rightarrow> json list \<Rightarrow> ct_monitor \<Rightarrow> json option result \<times> ct_monitor" where
  "first_alert order cert [] ct = (Inr None, ct)"
| "first_alert order cert (d # ds) ct =
     (case d of
        JStr domain \<Rightarrow>
          (case is_lookalike_domain order ct domain of
             None \<Rightarrow> first_alert order cert ds ct
           | Some m \<Rightarrow> (let a = ct_alert cert domain m in (Inr (Some a), ct\<lparr>suspicious_certs := suspicious_certs ct @ [a]\<rparr>)))
      | _ \<Rightarrow> (Inl attribute_error, ct))"

text \<open>The list of domains of the entry is the one the common name is appended to; the entry is read once.\<close>

definition process_ct_log_entry ::
    "(string list \<Rightarrow> string list) \<Rightarrow> (string, json) dict \<Rightarrow> ct_monitor \<Rightarrow> json option result \<times> ct_monitor" where
  "process_ct_log_entry order cert ct =
     (let domains = dgetd cert ''domains'' (JList []) in
      case dget cert ''cn'' of
        None \<Rightarrow> (case iterate domains of Inl e \<Rightarrow> (Inl e, ct) | Inr ds \<Rightarrow> first_alert order cert ds ct)
      | Some cn \<Rightarrow> (case domains of JList ds \<Rightarrow> first_alert order cert (ds @ [cn]) ct | _ \<Rightarrow> (Inl attribute_error, ct)))"

text \<open>The names of one entry of crt.sh, each once.\<close>

definition crtsh_names :: "(json list \<Rightarrow> json list) \<Rightarrow> json \<Rightarrow> json list result" where
  "crtsh_names order entry =
     (case (jget entry ''common_name'' (JStr []), jget entry ''name_value'' (JStr [])) of
        (Inr cn, Inr (JStr nv)) \<Rightarrow>
          (case cn of
             JList _ \<Rightarrow> Inl (TypeError ''unhashable type'')
           | JDict _ \<Rightarrow> Inl (TypeError ''unhashable type'')
           | _ \<Rightarrow> Inr (filter truthy (order (remdups (cn # JStr nv # map JStr (split_char (CHR 0x0A) nv))))))
      | _ \<Rightarrow> Inl attribute_error)"

definition crtsh_cert :: "json \<Rightarrow> json list \<Rightarrow> (string, json) dict" where
  "crtsh_cert entry ds = [(''domains'', JList ds),
     (''issuer'', (case entry of JDict d \<Rightarrow> dgetd d ''issuer_name'' (JStr []) | _ \<Rightarrow> JStr [])),
     (''serial_number'', (case entry of JDict d \<Rightarrow> dgetd d ''serial_number'' (JStr []) | _ \<Rightarrow> JStr []))]"

fun crtsh_entries ::
    "(json list \<Rightarrow> json list) \<Rightarrow> (string list \<Rightarrow> string list) \<Rightarrow> json list \<Rightarrow> json list \<Rightarrow> ct_monitor \<Rightarrow> json list result \<times> ct_monitor" where
  "crtsh_entries names order [] alerts ct = (Inr alerts, ct)"
| "crtsh_entries names order (e # es) alerts ct =
     (case crtsh_names names e of
        Inl x \<Rightarrow> (Inl x, ct)
      | Inr ds \<Rightarrow>
          (case process_ct_log_entry order (crtsh_cert e ds) ct of
             (Inl x, ct') \<Rightarrow> (Inl x, ct')
           | (Inr None, ct') \<Rightarrow> crtsh_entries names order es alerts ct'
           | (Inr (Some a), ct') \<Rightarrow> crtsh_entries names order es (alerts @ [a]) ct'))"

definition parse_crtsh_json_response ::
    "(json list \<Rightarrow> json list) \<Rightarrow> (string list \<Rightarrow> string list) \<Rightarrow> (string \<Rightarrow> json option) \<Rightarrow> string \<Rightarrow> ct_monitor \<Rightarrow>
     json list result \<times> ct_monitor" where
  "parse_crtsh_json_response names order loads txt ct =
     (case loads txt of Some (JList es) \<Rightarrow> crtsh_entries names order es [] ct | _ \<Rightarrow> (Inr [], ct))"

subsection \<open>campaign\_tracker.py\<close>

record tracked_campaign =
  tc_threat :: string
  tc_created :: rat
  tc_last_seen :: rat
  tc_incidents :: nat
  tc_iocs :: "string list"
  tc_subjects :: "string list"

record campaign_tracker =
  ct_campaigns :: "(string, tracked_campaign) dict"
  ct_of_ioc :: "(string, string) dict"

definition new_tracker :: campaign_tracker where
  "new_tracker = \<lparr>ct_campaigns = [], ct_of_ioc = []\<rparr>"

text \<open>An argument that is \<open>None\<close> or empty is the empty text; \<open>uid\<close> is the text of a fresh identifier.\<close>

definition incident_iocs :: "string \<Rightarrow> string \<Rightarrow> string \<Rightarrow> string list" where
  "incident_iocs ip domain hash = filter (\<lambda>i. i \<noteq> []) [ip, domain, hash]"

definition matched_campaign :: "campaign_tracker \<Rightarrow> string list \<Rightarrow> string option" where
  "matched_campaign tr iocs = (case List.map_filter (\<lambda>i. dget (ct_of_ioc tr) (clean i)) iocs of [] \<Rightarrow> None | c # _ \<Rightarrow> Some c)"

definition new_campaign :: "rat \<Rightarrow> string \<Rightarrow> tracked_campaign" where
  "new_campaign now threat = \<lparr>tc_threat = threat, tc_created = now, tc_last_seen = now, tc_incidents = 0, tc_iocs = [], tc_subjects = []\<rparr>"

definition count_incident :: "rat \<Rightarrow> string list \<Rightarrow> string \<Rightarrow> tracked_campaign \<Rightarrow> tracked_campaign" where
  "count_incident now iocs subject c =
     c\<lparr>tc_incidents := tc_incidents c + 1, tc_last_seen := now,
       tc_iocs := foldl (\<lambda>s i. List.insert (clean i) s) (tc_iocs c) iocs,
       tc_subjects := (if subject \<noteq> [] \<and> subject \<notin> set (tc_subjects c) then tc_subjects c @ [take 100 subject] else tc_subjects c)\<rparr>"

definition campaign_dict :: "string \<Rightarrow> tracked_campaign \<Rightarrow> json" where
  "campaign_dict cid c = JDict [(''campaign_id'', JStr cid), (''threat_type'', JStr (tc_threat c)),
     (''created_timestamp'', JNum (tc_created c)), (''last_seen_timestamp'', JNum (tc_last_seen c)),
     (''incident_count'', JInt (int (tc_incidents c))), (''associated_iocs'', JList (map JStr (tc_iocs c))),
     (''sample_subjects'', JList (map JStr (tc_subjects c)))]"

text \<open>\<open>self.campaigns[id]\<close> raises for an unknown id.\<close>

definition record_incident ::
    "string \<Rightarrow> rat \<Rightarrow> string \<Rightarrow> string \<Rightarrow> string \<Rightarrow> string \<Rightarrow> string \<Rightarrow> campaign_tracker \<Rightarrow> json result \<times> campaign_tracker" where
  "record_incident uid now ip domain hash subject threat tr =
     (let iocs = incident_iocs ip domain hash;
          fresh = ''Campaign-'' @ upper threat @ ''-'' @ take 6 uid;
          (cid, tr1) = (case matched_campaign tr iocs of
              Some c \<Rightarrow> if c \<noteq> [] then (c, tr) else (fresh, tr\<lparr>ct_campaigns := dset (ct_campaigns tr) fresh (new_campaign now threat)\<rparr>)
            | None \<Rightarrow> (fresh, tr\<lparr>ct_campaigns := dset (ct_campaigns tr) fresh (new_campaign now threat)\<rparr>))
      in case dget (ct_campaigns tr1) cid of
           None \<Rightarrow> (Inl (KeyError cid), tr1)
         | Some c \<Rightarrow>
             (let c' = count_incident now iocs subject c
              in (Inr (campaign_dict cid c'),
                  tr1\<lparr>ct_campaigns := dset (ct_campaigns tr1) cid c',
                      ct_of_ioc := foldl (\<lambda>m i. dset m (clean i) cid) (ct_of_ioc tr1) iocs\<rparr>)))"

definition get_campaign :: "campaign_tracker \<Rightarrow> string \<Rightarrow> json option" where
  "get_campaign tr cid = map_option (campaign_dict cid) (dget (ct_campaigns tr) cid)"

definition list_campaigns :: "campaign_tracker \<Rightarrow> json list" where
  "list_campaigns tr = map (\<lambda>(cid, c). campaign_dict cid c) (ct_campaigns tr)"

subsection \<open>cross\_tenant\_sharing.py\<close>

record shared_ioc =
  sh_value :: string
  sh_type :: string
  sh_confidence :: int
  sh_first :: rat
  sh_source :: string

record ioc_sharer =
  opted_in :: "string list"
  shared_iocs :: "(string, shared_ioc) dict"

definition new_sharer :: ioc_sharer where
  "new_sharer = \<lparr>opted_in = [], shared_iocs = []\<rparr>"

definition opt_in_tenant :: "string \<Rightarrow> ioc_sharer \<Rightarrow> ioc_sharer" where
  "opt_in_tenant t sh = sh\<lparr>opted_in := List.insert t (opted_in sh)\<rparr>"

definition opt_out_tenant :: "string \<Rightarrow> ioc_sharer \<Rightarrow> ioc_sharer" where
  "opt_out_tenant t sh = sh\<lparr>opted_in := removeAll t (opted_in sh)\<rparr>"

definition is_opted_in :: "ioc_sharer \<Rightarrow> string \<Rightarrow> bool" where
  "is_opted_in sh t \<longleftrightarrow> t \<in> set (opted_in sh)"

definition share_confirmed_ioc :: "rat \<Rightarrow> string \<Rightarrow> string \<Rightarrow> string \<Rightarrow> int \<Rightarrow> ioc_sharer \<Rightarrow> bool \<times> ioc_sharer" where
  "share_confirmed_ioc now t val ty confidence sh =
     (if \<not> is_opted_in sh t \<or> clean val = [] then (False, sh)
      else (True, sh\<lparr>shared_iocs := dset (shared_iocs sh) (clean val)
        \<lparr>sh_value = clean val, sh_type = ty, sh_confidence = confidence, sh_first = now, sh_source = ''network_threat_intel''\<rparr>\<rparr>))"

text \<open>No tenant, or the empty one, asks for everybody.\<close>

definition check_shared_ioc :: "ioc_sharer \<Rightarrow> string option \<Rightarrow> string \<Rightarrow> shared_ioc option" where
  "check_shared_ioc sh requesting val =
     (case requesting of
        Some (c # t) \<Rightarrow> if is_opted_in sh (c # t) then dget (shared_iocs sh) (clean val) else None
      | _ \<Rightarrow> dget (shared_iocs sh) (clean val))"

subsection \<open>nrd\_watchlist.py\<close>

record nrd_engine =
  nrd_max_days :: int
  nrd_store :: "(string, rat) dict"

definition nrd_stamp :: "rat option \<Rightarrow> rat \<Rightarrow> rat" where
  "nrd_stamp given now = (case given of None \<Rightarrow> now | Some t \<Rightarrow> if t = 0 then now else t)"

fun ingest_nrd_lines :: "rat \<Rightarrow> string list \<Rightarrow> nat \<Rightarrow> nrd_engine \<Rightarrow> nat \<times> nrd_engine" where
  "ingest_nrd_lines ts [] n e = (n, e)"
| "ingest_nrd_lines ts (l # ls) n e =
     (let d = lower (strip l) in
      if d = [] \<or> starts_with ''#'' d then ingest_nrd_lines ts ls n e
      else ingest_nrd_lines ts ls (n + 1) (e\<lparr>nrd_store := dset (nrd_store e) d ts\<rparr>))"

definition ingest_nrd_feed :: "rat \<Rightarrow> string \<Rightarrow> rat option \<Rightarrow> nrd_engine \<Rightarrow> nat \<times> nrd_engine" where
  "ingest_nrd_feed now content given e = ingest_nrd_lines (nrd_stamp given now) (splitlines content) 0 e"

definition add_nrd :: "rat \<Rightarrow> string \<Rightarrow> rat option \<Rightarrow> nrd_engine \<Rightarrow> nrd_engine" where
  "add_nrd now d given e = (let d = lower (strip d) in
     if d = [] then e else e\<lparr>nrd_store := dset (nrd_store e) d (nrd_stamp given now)\<rparr>)"

definition is_newly_registered :: "rat \<Rightarrow> nrd_engine \<Rightarrow> string \<Rightarrow> (string, json) dict option" where
  "is_newly_registered now e d =
     (let d = lower (strip d) in
      case dget (nrd_store e) d of
        None \<Rightarrow> None
      | Some reg \<Rightarrow>
          (let age_days = round_to 1 (max 0 (now - reg) / 86400) in
           if age_days \<le> of_int (nrd_max_days e)
           then Some [(''domain'', JStr d), (''is_nrd'', JBool True), (''age_days'', JNum age_days), (''registered_timestamp'', JNum reg)]
           else None))"

subsection \<open>Feeds\<close>

text \<open>Every blocked value has its metadata, so the default of the lookups is never given.\<close>

definition feed_ok :: "ioc_feed \<Rightarrow> bool" where
  "feed_ok fd \<longleftrightarrow> (\<forall>k. set (blocklist k fd) \<subseteq> set (dkeys (ioc_metadata fd)))"

lemma blocklist_block: "set (blocklist k (block k' v fd)) = (if k = k' then insert v (set (blocklist k fd)) else set (blocklist k fd))"
  by (cases k; cases k') simp_all

lemma blocklist_metadata [simp]: "blocklist k (fd\<lparr>ioc_metadata := m\<rparr>) = blocklist k fd"
  by (cases k) simp_all

lemma block_metadata [simp]: "ioc_metadata (block k v fd) = ioc_metadata fd"
  by (cases k) simp_all

lemma add_ioc_blocklist:
  "set (blocklist k (snd (add_ioc val ty source fd))) =
   (if clean val \<noteq> [] \<and> ioc_kind_of ty = Some k then insert (clean val) (set (blocklist k fd)) else set (blocklist k fd))"
  by (auto simp: add_ioc_def Let_def blocklist_block split: option.split)

lemma feed_ok_empty: "feed_ok empty_feed"
  unfolding feed_ok_def
proof
  show "set (blocklist k empty_feed) \<subseteq> set (dkeys (ioc_metadata empty_feed))" for k
    by (cases k) (simp_all add: empty_feed_def)
qed

lemma feed_ok_add [inv_intros]: "feed_ok fd \<Longrightarrow> feed_ok (snd (add_ioc val ty source fd))"
  by (auto simp: feed_ok_def add_ioc_def Let_def blocklist_block AList.dom_update subset_iff split: option.split)

lemma feed_ok_lines [inv_intros]: "feed_ok fd \<Longrightarrow> feed_ok (snd (ingest_lines name ty ls n fd))"
proof (induction ls arbitrary: n fd)
  case (Cons l ls)
  then show ?case by (auto simp: case_prod_beta Let_def feed_ok_add split: option.split)
qed simp

lemma feed_ok_json [inv_intros]: "feed_ok fd \<Longrightarrow> feed_ok (snd (add_json_ioc val ty source fd))"
  by (auto simp: add_json_ioc_def case_prod_beta Let_def feed_ok_add split: json.split)

lemma feed_ok_items [inv_intros]: "feed_ok fd \<Longrightarrow> feed_ok (snd (ingest_items name ty items n fd))"
proof (induction items arbitrary: n fd)
  case (Cons item items)
  have "feed_ok (snd (add_json_ioc val ty name fd))" for val using feed_ok_json [OF Cons.prems] .
  with Cons show ?case by (auto split: sum.split prod.split) (metis snd_conv)+
qed simp

lemma feed_ok_ingest [inv_intros]: "feed_ok fd \<Longrightarrow> feed_ok (snd (ingest_feed loads name ty content fd))"
  by (auto simp: ingest_feed_def Let_def case_prod_beta feed_ok_lines feed_ok_items split: option.split sum.split)

lemma feed_ok_stix [inv_intros]: "feed_ok fd \<Longrightarrow> feed_ok (add_all vs fd)"
  unfolding add_all_def by (induction vs arbitrary: fd) (auto simp: case_prod_beta feed_ok_add)

lemma checked_has_metadata:
  "feed_ok fd \<Longrightarrow> check_kind k label fd val = (if clean val \<in> set (blocklist k fd) then dget (ioc_metadata fd) (clean val) else None)"
proof -
  assume "feed_ok fd"
  then have "dget (ioc_metadata fd) (clean val) \<noteq> None" if "clean val \<in> set (blocklist k fd)"
    using that unfolding feed_ok_def map_of_eq_None_iff by (auto simp: subset_iff)
  then show ?thesis by (auto simp: check_kind_def dgetd_def Let_def)
qed

text \<open>A text feed blocks the indicators of its lines, in the list of its kind, and nothing else.\<close>

theorem text_feed_blocks_exactly:
  assumes "ioc_kind_of ty = Some k"
  shows "set (blocklist k' (snd (ingest_lines name ty ls n fd))) = set (blocklist k' fd) \<union>
    (if k' = k then {clean v | v. Some v \<in> feed_line ` set ls \<and> clean v \<noteq> []} else {})"
proof (induction ls arbitrary: n fd)
  case (Cons l ls)
  show ?case
  proof (cases "feed_line l")
    case None
    then have "{v. Some v \<in> feed_line ` set (l # ls)} = {v. Some v \<in> feed_line ` set ls}" by auto
    with None show ?thesis by (simp add: Cons.IH)
  next
    case (Some val)
    obtain b fd' where a: "add_ioc val ty name fd = (b, fd')" by fastforce
    have "set (blocklist k' fd') = (if clean val \<noteq> [] \<and> k = k' then insert (clean val) (set (blocklist k' fd)) else set (blocklist k' fd))"
      using add_ioc_blocklist [of k' val ty name fd] a assms by simp
    with Some a show ?thesis by (auto simp: Cons.IH)
  qed
qed simp

text \<open>An indicator that is added is found under its kind, with the type and source it was added with last.\<close>

theorem indicator_found:
  assumes "add_ioc val ty source fd = (True, fd')" and "ioc_kind_of ty = Some k" and "clean w = clean val"
  shows "check_kind k label fd' w = Some (ty, source)"
  using assms by (auto simp: add_ioc_def Let_def check_kind_def blocklist_block split: if_splits)

subsection \<open>The distance of the certificate monitor\<close>

lemma ed_sym: "ed xs ys = ed ys xs"
  by (induction xs ys rule: ed.induct) auto

definition ct_row_ok :: "string \<Rightarrow> string \<Rightarrow> nat list \<Rightarrow> bool" where
  "ct_row_ok s2 p row \<longleftrightarrow> row = map (\<lambda>j. ed p (take j s2)) [0..<Suc (length s2)]"

lemma ct_cells:
  assumes "ct_row_ok s2 p prev" and "k \<le> length s2"
  shows "foldl (ct_cell c prev) [Suc (length p)] (enumerate 0 (take k s2)) = map (\<lambda>j. ed (p @ [c]) (take j s2)) [0..<Suc k]"
  using assms(2)
proof (induction k)
  case 0
  show ?case by simp
next
  case (Suc k)
  then have k: "k < length s2" by simp
  have p: "prev ! j = ed p (take j s2)" if "j \<le> length s2" for j
    using assms(1) that by (simp add: ct_row_ok_def nth_append del: upt_Suc)
  have tk: "take (Suc k) s2 = take k s2 @ [s2 ! k]" using k by (rule take_Suc_conv_app_nth)
  let ?cur = "map (\<lambda>j. ed (p @ [c]) (take j s2)) [0..<Suc k]"
  have cur: "?cur ! k = ed (p @ [c]) (take k s2)" by (simp add: nth_append del: upt_Suc)
  have "foldl (ct_cell c prev) [Suc (length p)] (enumerate 0 (take (Suc k) s2)) = ct_cell c prev ?cur (k, s2 ! k)"
    using Suc k by (simp add: tk enumerate_append_eq del: upt_Suc)
  also have "\<dots> = ?cur @ [ed (p @ [c]) (take (Suc k) s2)]"
    using k by (simp add: ct_cell_def Let_def cur p tk ed_snoc del: upt_Suc)
  finally show ?case by simp
qed

lemma ct_rows:
  "ct_row_ok s2 p prev \<Longrightarrow> ct_row_ok s2 (p @ q) (foldl (ct_row s2) prev (enumerate (length p) q))"
proof (induction q arbitrary: p prev)
  case (Cons c q)
  have "ct_row_ok s2 (p @ [c]) (ct_row s2 prev (length p, c))"
    using ct_cells [OF Cons.prems, of "length s2" c] by (simp add: ct_row_ok_def ct_row_def)
  from Cons.IH [OF this] show ?case by simp
qed simp

lemma ct_distance_ed: "ct_distance s1 s2 = ed s1 s2"
proof -
  have "ct_row_ok s2 [] [0..<Suc (length s2)]"
    by (auto simp: ct_row_ok_def intro!: nth_equalityI simp del: upt_Suc)
  from ct_rows [OF this, of s1] have "ct_row_ok s2 s1 (foldl (ct_row s2) [0..<Suc (length s2)] (enumerate 0 s1))" by simp
  then show ?thesis by (simp add: ct_distance_def ct_row_ok_def)
qed

theorem monitor_distance_is_edit_distance: "levenshtein_distance s1 s2 \<le> n \<longleftrightarrow> (\<exists>k \<le> n. (edit ^^ k) s1 s2)"
  by (simp add: levenshtein_distance_def ct_distance_ed ed_sym [of s2 s1] ed_iff)

lemma levenshtein_distance_same: "levenshtein_distance s1 s2 = levenshtein s1 s2"
  by (simp add: levenshtein_distance_def ct_distance_ed levenshtein_ed ed_sym [of s2 s1])

text \<open>A certificate is reported if any brand is imitated, in whatever order the brands are tried.\<close>

definition imitates :: "string \<Rightarrow> string \<Rightarrow> bool" where
  "imitates target brand \<longleftrightarrow> target \<noteq> clean brand \<and>
     (levenshtein (dot_head target) (dot_head (clean brand)) \<in> {1, 2} \<and> length (dot_head (clean brand)) > 3 \<or>
      sublist (dot_head (clean brand)) (dot_head target))"

lemma brand_match_iff: "brand_match target brand \<noteq> None \<longleftrightarrow> imitates target brand"
  by (auto simp: brand_match_def imitates_def Let_def contains_iff levenshtein_distance_same)

lemma first_match_iff: "first_match target bs \<noteq> None \<longleftrightarrow> (\<exists>b \<in> set bs. imitates target b)"
proof (induction bs)
  case (Cons b bs)
  then show ?case using brand_match_iff [of target b] by (auto split: option.split)
qed simp

theorem lookalike_iff:
  assumes "set (order (ct_brands ct)) = set (ct_brands ct)"
  shows "is_lookalike_domain order ct d \<noteq> None \<longleftrightarrow> (\<exists>b \<in> set (ct_brands ct). imitates (clean d) b)"
  unfolding is_lookalike_domain_def first_match_iff assms ..

subsection \<open>Campaigns\<close>

definition tracker_ok :: "campaign_tracker \<Rightarrow> bool" where
  "tracker_ok tr \<longleftrightarrow> dict_ok (ct_campaigns tr) \<and>
     (\<forall>i c. dget (ct_of_ioc tr) i = Some c \<longrightarrow> c \<noteq> [] \<and> c \<in> set (dkeys (ct_campaigns tr)))"

definition all_incidents :: "campaign_tracker \<Rightarrow> nat" where
  "all_incidents tr = sum_list (map (\<lambda>(_, c). tc_incidents c) (ct_campaigns tr))"

lemma matched_known: "tracker_ok tr \<Longrightarrow> matched_campaign tr iocs = Some c \<Longrightarrow> c \<noteq> [] \<and> c \<in> set (dkeys (ct_campaigns tr))"
proof -
  assume ok: "tracker_ok tr" and "matched_campaign tr iocs = Some c"
  then have "c \<in> set (List.map_filter (\<lambda>i. dget (ct_of_ioc tr) (clean i)) iocs)"
    by (auto simp: matched_campaign_def split: list.splits)
  then obtain i where "dget (ct_of_ioc tr) (clean i) = Some c" by (auto simp: List.map_filter_def)
  with ok show ?thesis by (auto simp: tracker_ok_def)
qed

lemma foldl_dset_values: "dget (foldl (\<lambda>m i. dset m (f i) v) m is) i =
    (if i \<in> f ` set is then Some v else dget m i)"
  by (induction "is" arbitrary: m) auto

lemma sum_dset:
  "dict_ok d \<Longrightarrow> dget d k = Some v \<Longrightarrow> sum_list (map (\<lambda>(_, c). f c) (dset d k w)) + f v = sum_list (map (\<lambda>(_, c). f c) d) + (f w :: nat)"
  by (induction d) (auto simp: dict_ok_def)

lemma sum_dset_new:
  "dget d k = None \<Longrightarrow> sum_list (map (\<lambda>(_, c). f c) (dset d k w)) = sum_list (map (\<lambda>(_, c). f c) d) + (f w :: nat)"
  by (induction d) (auto split: if_splits)

text \<open>
  No incident raises, and each is counted in exactly one campaign, as long as the identifier of a new campaign is not
  one in use.
\<close>

theorem incident_counted:
  assumes "tracker_ok tr" and "''Campaign-'' @ upper threat @ ''-'' @ take 6 uid \<notin> set (dkeys (ct_campaigns tr))"
    and "record_incident uid now ip domain hash subject threat tr = (r, tr')"
  shows "is_ok r \<and> tracker_ok tr' \<and> all_incidents tr' = all_incidents tr + 1"
proof -
  let ?iocs = "incident_iocs ip domain hash"
  define fresh where "fresh = ''Campaign-'' @ upper threat @ ''-'' @ take 6 uid"
  have fresh: "fresh \<noteq> []" by (simp add: fresh_def)
  let ?fresh = fresh
  let ?add = "tr\<lparr>ct_campaigns := dset (ct_campaigns tr) ?fresh (new_campaign now threat)\<rparr>"
  define cid where "cid = (case matched_campaign tr ?iocs of None \<Rightarrow> ?fresh | Some c \<Rightarrow> c)"
  define tr1 where "tr1 = (case matched_campaign tr ?iocs of None \<Rightarrow> ?add | Some c \<Rightarrow> tr)"
  have none: "dget (ct_campaigns tr) ?fresh = None" using assms(2) unfolding fresh_def [symmetric] by (simp add: map_of_eq_None_iff)
  have okd: "dict_ok (ct_campaigns tr)" using assms(1) by (simp add: tracker_ok_def)
  have ok1: "dict_ok (ct_campaigns tr1)" "ct_of_ioc tr1 = ct_of_ioc tr" "all_incidents tr1 = all_incidents tr"
    "set (dkeys (ct_campaigns tr)) \<subseteq> set (dkeys (ct_campaigns tr1))" "cid \<in> set (dkeys (ct_campaigns tr1))" "cid \<noteq> []"
    using matched_known [OF assms(1), of ?iocs] okd sum_dset_new [OF none, of tc_incidents "new_campaign now threat"] fresh
    by (cases "matched_campaign tr ?iocs";
        simp add: tr1_def cid_def all_incidents_def new_campaign_def AList.dom_update subset_insertI)+
  then obtain c where c: "dget (ct_campaigns tr1) cid = Some c"
    by (metis map_of_eq_None_iff list.set_map option.exhaust)
  let ?c' = "count_incident now ?iocs subject c"
  have pair: "(case matched_campaign tr ?iocs of
      Some c \<Rightarrow> if c \<noteq> [] then (c, tr) else (?fresh, ?add) | None \<Rightarrow> (?fresh, ?add)) = (cid, tr1)"
    using matched_known [OF assms(1)] by (simp add: cid_def tr1_def split: option.split)
  have r: "r = Inr (campaign_dict cid ?c')" and tr': "tr' = tr1\<lparr>ct_campaigns := dset (ct_campaigns tr1) cid ?c',
      ct_of_ioc := foldl (\<lambda>m i. dset m (clean i) cid) (ct_of_ioc tr1) ?iocs\<rparr>"
    using assms(3) unfolding record_incident_def Let_def fresh_def [symmetric] pair prod.case c option.case by simp_all
  have "all_incidents tr' + tc_incidents c = all_incidents tr1 + tc_incidents ?c'"
    using sum_dset [OF ok1(1) c, of tc_incidents ?c'] by (simp add: tr' all_incidents_def)
  moreover have "tc_incidents ?c' = tc_incidents c + 1" by (simp add: count_incident_def)
  moreover have "tracker_ok tr'"
    using assms(1) ok1 by (auto simp: tracker_ok_def tr' foldl_dset_values AList.dom_update subset_iff split: if_splits)
  ultimately show ?thesis using ok1(3) by (simp add: r)
qed

text \<open>A long subject is stored cut and compared whole: it is stored again with every incident.\<close>

lemma long_subject_repeated:
  assumes "length subject > 100" and "\<forall>s \<in> set (tc_subjects c). length s \<le> 100"
  shows "tc_subjects (count_incident now iocs subject c) = tc_subjects c @ [take 100 subject]"
proof -
  have "subject \<notin> set (tc_subjects c)" using assms by auto
  then show ?thesis using assms(1) by (auto simp: count_incident_def)
qed

subsection \<open>Sharing between tenants\<close>

text \<open>What the pool holds does not depend on which of the participating tenants reported it.\<close>

theorem shared_pool_anonymous:
  assumes "is_opted_in sh t1" and "is_opted_in sh t2"
  shows "share_confirmed_ioc now t1 val ty conf sh = share_confirmed_ioc now t2 val ty conf sh"
  using assms by (simp add: share_confirmed_ioc_def)

lemma opted_out_gets_nothing:
  assumes "t \<noteq> []"
  shows "check_shared_ioc (opt_out_tenant t sh) (Some t) val = None"
    and "share_confirmed_ioc now t val ty conf (opt_out_tenant t sh) = (False, opt_out_tenant t sh)"
  using assms by (cases t, simp_all add: check_shared_ioc_def opt_out_tenant_def is_opted_in_def share_confirmed_ioc_def)

text \<open>Without a tenant, or with the empty one, anybody reads the pool.\<close>

lemma nameless_reads_pool: "check_shared_ioc sh (Some []) val = check_shared_ioc sh None val"
  by (simp add: check_shared_ioc_def)

subsection \<open>Newly registered domains\<close>

text \<open>The age is rounded to a tenth of a day before it is compared.\<close>

theorem newly_registered_window:
  assumes "is_newly_registered now e d = Some info" and "dget (nrd_store e) (lower (strip d)) = Some reg"
  shows "(now - reg) / 86400 \<le> of_int (nrd_max_days e) + 1 / 20"
proof -
  let ?a = "max 0 (now - reg) / 86400"
  have "round_to 1 ?a \<le> of_int (nrd_max_days e)"
    using assms by (auto simp: is_newly_registered_def Let_def split: if_splits)
  moreover have "\<bar>round_to 1 ?a - ?a\<bar> \<le> 1 / 20" using round_to_bounds [of 1 ?a] by simp
  moreover have "(now - reg) / 86400 \<le> ?a" by (rule divide_right_mono) simp_all
  ultimately show ?thesis by linarith
qed

end
