(* ===== verification/Reliability.thy ===== *)
theory Reliability
  imports Quarantine Reputation
begin

text \<open>
  \<open>reliability/\<close>: encrypted backups and their restoration (\<open>backup.py\<close>, \<open>restore.py\<close>), secrets with overlapping
  validity (\<open>key_rotation.py\<close>), regions (\<open>topology.py\<close>), fault injection (\<open>chaos_injector.py\<close>), the degradation
  matrix (\<open>degradation_matrix.py\<close>) and the providers' retry policies (\<open>inbound_failure_policy.py\<close>). \<open>tarfile\<close>, Fernet
  and SHA-256 are parameters; a file system is its directories and its files.
\<close>

subsection \<open>backup.py and restore.py\<close>

record file_system =
  fs_dirs :: "string list"
  fs_files :: "(string, string) dict"

text \<open>\<open>pack\<close> is the tar archive of a path, \<open>unpack\<close> the members of an archive with their contents.\<close>

record backup_libs =
  bl_fernet :: fernet
  bl_key_ok :: "string \<Rightarrow> bool"
  bl_pack :: "file_system \<Rightarrow> string \<Rightarrow> string option"
  bl_unpack :: "string \<Rightarrow> (string \<times> string) list option"
  bl_sha256 :: "string \<Rightarrow> string"

record backup_metadata =
  bm_id :: string
  bm_time :: rat
  bm_path :: string
  bm_size :: nat
  bm_sha256 :: string
  bm_key_id :: string

text \<open>\<open>os.path.dirname\<close>\<close>

definition dirname :: "string \<Rightarrow> string" where
  "dirname p = (case rcut (CHR ''/'') p of
       None \<Rightarrow> []
     | Some (a, _) \<Rightarrow> if list_all (\<lambda>c. c = CHR ''/'') a then a @ ''/'' else rstrip_char (CHR ''/'') a)"

text \<open>A relative file name has the empty directory, which is the current one: opening in it succeeds.\<close>

definition can_open :: "file_system \<Rightarrow> string \<Rightarrow> bool" where
  "can_open fs p \<longleftrightarrow> dirname p = [] \<or> dirname p \<in> set (fs_dirs fs)"

definition no_such_file :: py_exn where
  "no_such_file = OtherError ''FileNotFoundError''"

definition fernet_of :: "backup_libs \<Rightarrow> string \<Rightarrow> unit result" where
  "fernet_of lb key = (if bl_key_ok lb key then Inr () else Inl (ValueError ''Fernet key must be 32 url-safe base64-encoded bytes.''))"

definition read_file :: "file_system \<Rightarrow> string \<Rightarrow> string result" where
  "read_file fs p = (case dget (fs_files fs) p of None \<Rightarrow> Inl no_such_file | Some d \<Rightarrow> Inr d)"

definition sha256_file :: "backup_libs \<Rightarrow> string \<Rightarrow> string" where
  "sha256_file lb content = hex_of (bl_sha256 lb content)"

text \<open>
  The temporary archive is written beside the output, so the directory has to exist before \<open>makedirs\<close> is reached;
  the temporary file is removed again unless packing fails.
\<close>

definition create_backup ::
    "backup_libs \<Rightarrow> string \<Rightarrow> string \<Rightarrow> rat \<Rightarrow> string \<Rightarrow> string \<Rightarrow> string \<Rightarrow> string \<Rightarrow> file_system \<Rightarrow>
     backup_metadata result \<times> file_system" where
  "create_backup lb nonce uid now source output key key_id fs =
     (case fernet_of lb key of
        Inl e \<Rightarrow> (Inl e, fs)
      | Inr _ \<Rightarrow>
          if \<not> can_open fs output then (Inl no_such_file, fs)
          else case bl_pack lb fs source of
            None \<Rightarrow> (Inl no_such_file, fs)
          | Some raw \<Rightarrow>
              if dirname output = [] then (Inl no_such_file, fs)
              else let enc = f_encrypt (bl_fernet lb) key nonce raw
                   in (Inr \<lparr>bm_id = uid, bm_time = now, bm_path = output, bm_size = length enc,
                         bm_sha256 = sha256_file lb enc, bm_key_id = key_id\<rparr>,
                       fs\<lparr>fs_files := dset (fs_files fs) output enc\<rparr>))"

definition invalid_token :: py_exn where
  "invalid_token = OtherError ''InvalidToken''"

definition rotate_backup_key ::
    "backup_libs \<Rightarrow> string \<Rightarrow> string \<Rightarrow> string \<Rightarrow> string \<Rightarrow> file_system \<Rightarrow> string result \<times> file_system" where
  "rotate_backup_key lb nonce path old_key new_key fs =
     (case (fernet_of lb old_key, fernet_of lb new_key, read_file fs path) of
        (Inr _, Inr _, Inr enc) \<Rightarrow>
          (case f_decrypt (bl_fernet lb) old_key enc of
             None \<Rightarrow> (Inl invalid_token, fs)
           | Some raw \<Rightarrow> (let enc' = f_encrypt (bl_fernet lb) new_key nonce raw
               in (Inr (sha256_file lb enc'), fs\<lparr>fs_files := dset (fs_files fs) path enc'\<rparr>)))
      | (Inl e, _, _) \<Rightarrow> (Inl e, fs)
      | (_, Inl e, _) \<Rightarrow> (Inl e, fs)
      | (_, _, Inl e) \<Rightarrow> (Inl e, fs))"

text \<open>The members of the decrypted archive, if key and archive are good.\<close>

definition backup_members :: "backup_libs \<Rightarrow> file_system \<Rightarrow> string \<Rightarrow> string \<Rightarrow> (string \<times> string) list option" where
  "backup_members lb fs path key =
     (case (fernet_of lb key, read_file fs path) of
        (Inr _, Inr enc) \<Rightarrow> Option.bind (f_decrypt (bl_fernet lb) key enc) (bl_unpack lb)
      | _ \<Rightarrow> None)"

definition verify_backup_integrity :: "backup_libs \<Rightarrow> file_system \<Rightarrow> string \<Rightarrow> string \<Rightarrow> bool" where
  "verify_backup_integrity lb fs path key \<longleftrightarrow> backup_members lb fs path key \<noteq> None"

record restore_result =
  rr_success :: bool
  rr_files :: nat
  rr_bytes :: nat
  rr_dry_run :: bool
  rr_error :: string

definition extract_all :: "string \<Rightarrow> (string \<times> string) list \<Rightarrow> file_system \<Rightarrow> file_system" where
  "extract_all target ms fs = fs\<lparr>fs_dirs := List.insert target (fs_dirs fs),
     fs_files := foldl (\<lambda>d (name, content). dset d (target @ ''/'' @ name) content) (fs_files fs) ms\<rparr>"

definition restore_backup :: "backup_libs \<Rightarrow> string \<Rightarrow> string \<Rightarrow> string \<Rightarrow> bool \<Rightarrow> file_system \<Rightarrow> restore_result \<times> file_system" where
  "restore_backup lb path target key dry_run fs =
     (case backup_members lb fs path key of
        None \<Rightarrow> (\<lparr>rr_success = False, rr_files = 0, rr_bytes = 0, rr_dry_run = False,
            rr_error = ''Backup integrity verification failed (bad key or corrupt archive)''\<rparr>, fs)
      | Some ms \<Rightarrow> (\<lparr>rr_success = True, rr_files = length ms, rr_bytes = sum_list (map (\<lambda>(_, c). length c) ms),
            rr_dry_run = dry_run, rr_error = []\<rparr>, if dry_run then fs else extract_all target ms fs))"

subsection \<open>key\_rotation.py\<close>

record secret_version =
  sv_key :: string
  sv_created :: rat
  sv_expires :: "rat option"

type_synonym rotator = "(string, secret_version list) dict"

definition versions :: "rotator \<Rightarrow> string \<Rightarrow> secret_version list" where
  "versions ro name = (case dget ro name of None \<Rightarrow> [] | Some vs \<Rightarrow> vs)"

definition new_version :: "rat \<Rightarrow> string \<Rightarrow> secret_version" where
  "new_version now val = \<lparr>sv_key = val, sv_created = now, sv_expires = None\<rparr>"

definition set_primary_secret :: "rat \<Rightarrow> string \<Rightarrow> string \<Rightarrow> rotator \<Rightarrow> rotator" where
  "set_primary_secret now name val ro = dset ro name (new_version now val # versions ro name)"

definition rotate_secret :: "rat \<Rightarrow> string \<Rightarrow> string \<Rightarrow> rat \<Rightarrow> rotator \<Rightarrow> rotator" where
  "rotate_secret now name val grace ro =
     (case versions ro name of
        [] \<Rightarrow> set_primary_secret now name val ro
      | cur # vs \<Rightarrow> dset ro name (new_version now val # cur\<lparr>sv_expires := Some (now + grace)\<rparr> # vs))"

definition version_live :: "rat \<Rightarrow> secret_version \<Rightarrow> bool" where
  "version_live now v \<longleftrightarrow> (case sv_expires v of None \<Rightarrow> True | Some e \<Rightarrow> e > now)"

definition get_valid_secrets :: "rat \<Rightarrow> rotator \<Rightarrow> string \<Rightarrow> string list" where
  "get_valid_secrets now ro name = map sv_key (filter (version_live now) (versions ro name))"

definition is_valid_secret :: "rat \<Rightarrow> rotator \<Rightarrow> string \<Rightarrow> string \<Rightarrow> bool" where
  "is_valid_secret now ro name val \<longleftrightarrow> list_ex (\<lambda>v. sv_key v = val) (filter (version_live now) (versions ro name))"

subsection \<open>topology.py\<close>

record region_health =
  rh_name :: string
  rh_healthy :: bool
  rh_latency :: rat
  rh_connections :: int

definition new_region :: "string \<Rightarrow> region_health" where
  "new_region r = \<lparr>rh_name = r, rh_healthy = True, rh_latency = 12, rh_connections = 0\<rparr>"

record topology =
  tp_primary :: string
  tp_secondary :: "string list"
  tp_mode :: string
  tp_current :: string
  tp_health :: "(string, region_health) dict"

definition new_topology :: "string \<Rightarrow> string list option \<Rightarrow> string \<Rightarrow> topology" where
  "new_topology primary secondary mode =
     (let sec = (case secondary of Some (s # ss) \<Rightarrow> s # ss | _ \<Rightarrow> [''us-west-2'', ''eu-central-1''])
      in \<lparr>tp_primary = primary, tp_secondary = sec, tp_mode = lower mode, tp_current = primary,
          tp_health = foldl (\<lambda>d r. dset d r (new_region r)) [] (primary # sec)\<rparr>)"

definition region_healthy :: "topology \<Rightarrow> string \<Rightarrow> bool" where
  "region_healthy tp r \<longleftrightarrow> (case dget (tp_health tp) r of None \<Rightarrow> False | Some h \<Rightarrow> rh_healthy h)"

definition is_primary_healthy :: "topology \<Rightarrow> bool" where
  "is_primary_healthy tp \<longleftrightarrow> (case dget (tp_health tp) (tp_primary tp) of None \<Rightarrow> True | Some h \<Rightarrow> rh_healthy h)"

definition set_region_health :: "string \<Rightarrow> bool \<Rightarrow> rat \<Rightarrow> topology \<Rightarrow> topology" where
  "set_region_health r healthy latency tp =
     (case dget (tp_health tp) r of
        None \<Rightarrow> tp
      | Some h \<Rightarrow> tp\<lparr>tp_health := dset (tp_health tp) r (h\<lparr>rh_healthy := healthy, rh_latency := latency\<rparr>)\<rparr>)"

definition first_or :: "'a \<Rightarrow> 'a list \<Rightarrow> 'a" where
  "first_or d xs = (case xs of [] \<Rightarrow> d | x # _ \<Rightarrow> x)"

text \<open>\<open>self._region_health[sec]\<close> raises for an unknown region.\<close>

fun first_healthy :: "topology \<Rightarrow> string list \<Rightarrow> string option result" where
  "first_healthy tp [] = Inr None"
| "first_healthy tp (r # rs) =
     (case dget (tp_health tp) r of
        None \<Rightarrow> Inl (KeyError r)
      | Some h \<Rightarrow> if rh_healthy h then Inr (Some r) else first_healthy tp rs)"

definition get_active_region :: "topology \<Rightarrow> string result" where
  "get_active_region tp =
     (if tp_mode tp = ''active-active''
      then Inr (first_or (tp_primary tp) (map fst (filter (\<lambda>(_, h). rh_healthy h) (tp_health tp))))
      else if is_primary_healthy tp then Inr (tp_primary tp)
      else map_sum id (\<lambda>r. case r of None \<Rightarrow> tp_primary tp | Some s \<Rightarrow> s) (first_healthy tp (tp_secondary tp)))"

definition trigger_failover :: "string \<Rightarrow> topology \<Rightarrow> bool \<times> topology" where
  "trigger_failover r tp = (if region_healthy tp r then (True, tp\<lparr>tp_current := r\<rparr>) else (False, tp))"

definition get_topology_status :: "topology \<Rightarrow> json result" where
  "get_topology_status tp = map_sum id (\<lambda>r. JDict [(''mode'', JStr (tp_mode tp)), (''primary_region'', JStr (tp_primary tp)),
     (''active_region'', JStr r),
     (''regions'', JDict (map (\<lambda>(r, h). (r, JDict [(''is_healthy'', JBool (rh_healthy h)), (''latency_ms'', JNum (rh_latency h))]))
        (tp_health tp)))]) (get_active_region tp)"

subsection \<open>chaos\_injector.py\<close>

datatype chaos_exn = ChaosFault string | OtherFault string

record chaos_injector =
  chaos_enabled :: bool
  active_faults :: "string list"

definition supported_faults :: "string list" where
  "supported_faults = [''redis_down'', ''relay_down'', ''clamav_down'', ''db_locked'', ''network_timeout'']"

definition enable_fault :: "string \<Rightarrow> chaos_injector \<Rightarrow> chaos_injector" where
  "enable_fault f ci = (if f \<in> set supported_faults then ci\<lparr>active_faults := List.insert f (active_faults ci)\<rparr> else ci)"

definition disable_fault :: "string \<Rightarrow> chaos_injector \<Rightarrow> chaos_injector" where
  "disable_fault f ci = ci\<lparr>active_faults := removeAll f (active_faults ci)\<rparr>"

definition check_and_trigger :: "string \<Rightarrow> chaos_injector \<Rightarrow> chaos_exn + unit" where
  "check_and_trigger f ci = (if chaos_enabled ci \<and> f \<in> set (active_faults ci) then Inl (ChaosFault (''Simulated fault: '' @ f)) else Inr ())"

record fault_report =
  fr_fault :: string
  fr_injected :: bool
  fr_handled :: bool
  fr_preserved :: bool
  fr_error :: string

text \<open>The callback may ask the injector, and may change the world it works on.\<close>

definition verify_no_mail_loss ::
    "string \<Rightarrow> (chaos_injector \<Rightarrow> 'w \<Rightarrow> (chaos_exn + unit) \<times> 'w) \<Rightarrow> chaos_injector \<Rightarrow> 'w \<Rightarrow>
     fault_report \<times> chaos_injector \<times> 'w" where
  "verify_no_mail_loss f callback ci w =
     (let ci1 = enable_fault f ci; (r, w') = callback ci1 w;
          (ok, err) = (case r of Inr _ \<Rightarrow> (True, []) | Inl (ChaosFault m) \<Rightarrow> (True, m) | Inl (OtherFault m) \<Rightarrow> (False, m))
      in (\<lparr>fr_fault = f, fr_injected = True, fr_handled = ok, fr_preserved = ok, fr_error = err\<rparr>, disable_fault f ci1, w'))"

subsection \<open>degradation\_matrix.py\<close>

record degradation_report =
  dr_active :: "string list"
  dr_disabled :: "string list"
  dr_level :: string
  dr_safe :: bool
  dr_fallbacks :: "string list"

definition core_capabilities :: "string list" where
  "core_capabilities = [''spf_check'', ''dkim_check'', ''dmarc_alignment'', ''heuristic_rules'', ''local_quarantine'']"

definition external_dependencies :: "(string, string) dict" where
  "external_dependencies = [(''virustotal'', ''Cloud URL & Attachment Hash Reputation''), (''rdap'', ''Domain Age & Registrar Lookup''),
     (''clamav'', ''Antivirus Detonation Engine''), (''openai'', ''LLM Phishing & Sentiment Analysis''),
     (''threat_intel'', ''Live IP & Domain Threat Intelligence Feeds'')]"

definition evaluate_degraded_pipeline :: "string list \<Rightarrow> degradation_report" where
  "evaluate_degraded_pipeline down_services =
     (let down_set = map lower down_services;
          lost = filter (\<lambda>(svc, _). svc \<in> set down_set) external_dependencies;
          kept = filter (\<lambda>(svc, _). svc \<notin> set down_set) external_dependencies
      in \<lparr>dr_active = core_capabilities @ map fst kept,
          dr_disabled = map (\<lambda>(svc, desc). svc @ '' ('' @ desc @ '')'') lost,
          dr_level = (if lost = [] then ''FULL'' else if length lost < length external_dependencies then ''DEGRADED'' else ''CRITICAL''),
          dr_safe = True,
          dr_fallbacks = map (\<lambda>(svc, _). ''Fallback to heuristic & local rule checks for '' @ svc) lost\<rparr>)"

subsection \<open>inbound\_failure\_policy.py\<close>

record failure_policy =
  fp_provider :: string
  fp_hours :: int
  fp_backoff :: string
  fp_bounces :: bool
  fp_description :: string

definition provider_policies :: "(string, int \<times> string \<times> string) dict" where
  "provider_policies = [
     (''sendgrid'', 72, ''Exponential backoff up to 72 hours'',
      ''SendGrid queues inbound webhooks and retries delivery for up to 72 hours if gateway returns 5xx/4xx or times out.''),
     (''aws_ses'', 84, ''Exponential backoff up to 84 hours'',
      ''AWS SES / SNS retries webhook notifications for up to 84 hours with automatic fallback queues.''),
     (''mailgun'', 80, ''Exponential backoff up to 80 hours'',
      ''Mailgun retries failed webhook posts periodically over 80 hours before dropping the message notification.''),
     (''m365'', 24, ''Exponential backoff up to 24 hours'',
      ''Microsoft 365 Exchange Online retries outbound connector delivery for up to 24 hours.''),
     (''postfix'', 120, ''Configurable maximal_queue_lifetime (default 5d)'',
      ''Standard MTA (Postfix/Exim) queues undelivered mail in deferred queue for up to 5 days before generating DSN bounce.'')]"

definition get_provider_policy :: "string \<Rightarrow> failure_policy" where
  "get_provider_policy name =
     (let (hours, backoff, desc) = dgetd provider_policies (replace_str ''-'' ''_'' (lower name))
            (24, ''Standard 24h retry queue'', ''Generic provider policy for '' @ name)
      in \<lparr>fp_provider = name, fp_hours = hours, fp_backoff = backoff, fp_bounces = False, fp_description = desc\<rparr>)"

record outage_report =
  or_provider :: string
  or_hours :: rat
  or_lost :: bool
  or_retries :: bool
  or_explanation :: string

text \<open>\<open>show_hours\<close> is the text of a float in an f-string.\<close>

definition simulate_gateway_outage :: "(rat \<Rightarrow> string) \<Rightarrow> string \<Rightarrow> rat \<Rightarrow> outage_report" where
  "simulate_gateway_outage show_hours name hours =
     (let hrs = fp_hours (get_provider_policy name); lost = hours > of_int hrs
      in \<lparr>or_provider = name, or_hours = hours, or_lost = lost, or_retries = \<not> lost,
          or_explanation = (if lost
            then ''Outage duration ('' @ show_hours hours @ ''h) exceeded '' @ name @ CHR 0x27 # ''s max queue retry period ('' @
              int_str hrs @ ''h); messages will bounce or be dropped by sender MTA.''
            else ''Outage duration ('' @ show_hours hours @ ''h) is within '' @ name @ CHR 0x27 # ''s queue retry window ('' @
              int_str hrs @ ''h); provider will queue and deliver messages once gateway recovers.'')\<rparr>)"

subsection \<open>A backup comes back\<close>

text \<open>What \<open>tarfile\<close> promises of an archive it wrote itself.\<close>

definition archives :: "backup_libs \<Rightarrow> file_system \<Rightarrow> string \<Rightarrow> (string \<times> string) list \<Rightarrow> bool" where
  "archives lb fs source ms \<longleftrightarrow> (\<exists>raw. bl_pack lb fs source = Some raw \<and> bl_unpack lb raw = Some ms)"

lemma foldl_files:
  "distinct (map fst ms) \<Longrightarrow> (name, content) \<in> set ms \<Longrightarrow>
   dget (foldl (\<lambda>d (name, content). dset d (target @ ''/'' @ name) content) d ms) (target @ ''/'' @ name) = Some content"
proof (induction ms arbitrary: d)
  case (Cons m ms)
  obtain n c where m: "m = (n, c)" by fastforce
  show ?case
  proof (cases "(name, content) \<in> set ms")
    case True
    then show ?thesis using Cons by (simp add: m)
  next
    case False
    with Cons.prems m have eq: "n = name" "c = content" by auto
    then have "name \<notin> set (map fst ms)" using Cons.prems(1) m by simp
    then have "dget (foldl (\<lambda>d (name, content). dset d (target @ ''/'' @ name) content) d' ms) (target @ ''/'' @ name) =
        dget d' (target @ ''/'' @ name)" for d'
      by (induction ms arbitrary: d') auto
    then show ?thesis by (simp add: m eq)
  qed
qed simp

text \<open>
  What a backup packed is what a restoration with its key writes, also after the key of the file was rotated: then with
  the new key.
\<close>

theorem backup_restored:
  assumes "fernet_ok (bl_fernet lb)" and "archives lb fs source ms" and "distinct (map fst ms)"
    and "create_backup lb nonce uid now source output key kid fs = (Inr meta, fs1)"
    and "rotate_backup_key lb nonce' output key key' fs1 = (Inr digest, fs2)"
    and "restore_backup lb output target key' False fs2 = (res, fs3)" and "(name, content) \<in> set ms"
  shows "rr_success res \<and> rr_files res = length ms \<and> dget (fs_files fs3) (target @ ''/'' @ name) = Some content"
proof -
  obtain raw where raw: "bl_pack lb fs source = Some raw" "bl_unpack lb raw = Some ms" using assms(2) by (auto simp: archives_def)
  have dec: "f_decrypt (bl_fernet lb) k (f_encrypt (bl_fernet lb) k n d) = Some d" for k n d
    using assms(1) by (simp add: fernet_ok_def)
  have f1: "dget (fs_files fs1) output = Some (f_encrypt (bl_fernet lb) key nonce raw)"
    using assms(4) raw(1) by (auto simp: create_backup_def Let_def split: sum.splits if_splits)
  have f2: "dget (fs_files fs2) output = Some (f_encrypt (bl_fernet lb) key' nonce' raw)" "fernet_of lb key' = Inr ()"
    using assms(5) f1 dec by (auto simp: rotate_backup_key_def read_file_def Let_def split: sum.splits option.splits)
  have "backup_members lb fs2 output key' = Some ms"
    by (simp add: backup_members_def f2 read_file_def dec raw(2))
  then have "res = \<lparr>rr_success = True, rr_files = length ms, rr_bytes = sum_list (map (\<lambda>(_, c). length c) ms),
      rr_dry_run = False, rr_error = []\<rparr>" "fs3 = extract_all target ms fs2"
    using assms(6) by (simp_all add: restore_backup_def)
  then show ?thesis using foldl_files [OF assms(3,7)] by (simp add: extract_all_def)
qed

text \<open>A dry run, or a key that does not fit, writes nothing.\<close>

lemma restore_writes_nothing:
  assumes "dry_run \<or> backup_members lb fs path key = None"
  shows "snd (restore_backup lb path target key dry_run fs) = fs"
  using assms by (auto simp: restore_backup_def split: option.split)

text \<open>A backup into a directory that does not exist fails, although the code goes on to create it.\<close>

lemma new_directory_fails:
  assumes "dirname output \<notin> set (fs_dirs fs)"
  shows "\<not> is_ok (fst (create_backup lb nonce uid now source output key kid fs))"
  using assms by (auto simp: create_backup_def can_open_def split: sum.splits option.splits)

subsection \<open>Rotating a secret\<close>

lemma versions_dset [simp]: "versions (dset ro name vs) n = (if n = name then vs else versions ro n)"
  by (simp add: versions_def)

lemma valid_iff: "is_valid_secret now ro name val \<longleftrightarrow> val \<in> set (get_valid_secrets now ro name)"
  by (auto simp: is_valid_secret_def get_valid_secrets_def list_ex_iff)

text \<open>
  After a rotation the new secret is valid; the one it replaces is valid exactly until the period of grace is over; of the
  older ones nothing changes, and other names are not touched.
\<close>

theorem rotation_window:
  assumes "versions ro name = cur # old"
  shows "is_valid_secret t (rotate_secret now name val grace ro) name s \<longleftrightarrow>
      s = val \<or> (s = sv_key cur \<and> t < now + grace) \<or> (\<exists>v \<in> set old. sv_key v = s \<and> version_live t v)"
    and "n \<noteq> name \<Longrightarrow> is_valid_secret t (rotate_secret now name val grace ro) n s = is_valid_secret t ro n s"
  using assms by (auto simp: is_valid_secret_def rotate_secret_def new_version_def version_live_def list_ex_iff)

text \<open>A primary secret that is set over another one leaves it valid for ever, whatever is rotated later.\<close>

fun rotations :: "(rat \<times> string \<times> rat) list \<Rightarrow> string \<Rightarrow> rotator \<Rightarrow> rotator" where
  "rotations [] name ro = ro"
| "rotations ((now, val, grace) # rs) name ro = rotations rs name (rotate_secret now name val grace ro)"

lemma rotations_keep_tail:
  assumes "\<exists>cur old. versions ro name = cur # old \<and> v \<in> set old"
  shows "\<exists>cur old. versions (rotations rs name ro) name = cur # old \<and> v \<in> set old"
  using assms
proof (induction rs name ro rule: rotations.induct)
  case (2 now val grace rs name ro)
  from 2(2) obtain cur old where "versions ro name = cur # old" "v \<in> set old" by blast
  then have "\<exists>cur old. versions (rotate_secret now name val grace ro) name = cur # old \<and> v \<in> set old"
    by (simp add: rotate_secret_def)
  with 2(1) show ?case by simp
qed simp

theorem second_primary_keeps_first:
  assumes "versions ro name = v # old" and "sv_expires v = None"
  shows "is_valid_secret t (rotations rs name (set_primary_secret now name val ro)) name (sv_key v)"
proof -
  have "\<exists>cur tail. versions (set_primary_secret now name val ro) name = cur # tail \<and> v \<in> set tail"
    using assms(1) by (simp add: set_primary_secret_def)
  from rotations_keep_tail [OF this] obtain cur tail where
    "versions (rotations rs name (set_primary_secret now name val ro)) name = cur # tail" "v \<in> set tail" by blast
  with assms(2) show ?thesis by (auto simp: is_valid_secret_def version_live_def list_ex_iff)
qed

subsection \<open>Regions\<close>

definition topology_ok :: "topology \<Rightarrow> bool" where
  "topology_ok tp \<longleftrightarrow> set (tp_primary tp # tp_secondary tp) = set (dkeys (tp_health tp)) \<and> dict_ok (tp_health tp)"

lemma topology_ok_new: "topology_ok (new_topology primary secondary mode)"
proof -
  have "set (dkeys (foldl (\<lambda>d r. dset d r (new_region r)) d rs)) = set (dkeys d) \<union> set rs \<and>
      (dict_ok d \<longrightarrow> dict_ok (foldl (\<lambda>d r. dset d r (new_region r)) d rs))" for d rs
    by (induction rs arbitrary: d) (auto simp: AList.dom_update)
  from this [of "[]"] show ?thesis by (simp add: topology_ok_def new_topology_def Let_def del: foldl_Cons)
qed

lemma topology_ok_steps [inv_intros]:
  "topology_ok tp \<Longrightarrow> topology_ok (set_region_health r healthy latency tp)"
  "topology_ok tp \<Longrightarrow> topology_ok (snd (trigger_failover r tp))"
proof -
  assume ok: "topology_ok tp"
  have "r \<in> set (dkeys (tp_health tp))" if "dget (tp_health tp) r = Some h" for h
    using map_of_SomeD [OF that] by force
  with ok show "topology_ok (set_region_health r healthy latency tp)"
    by (auto simp: topology_ok_def set_region_health_def AList.dom_update insert_absorb split: option.split)
  from ok show "topology_ok (snd (trigger_failover r tp))"
    by (simp add: topology_ok_def trigger_failover_def)
qed

lemma first_healthy_some:
  "(\<And>r. r \<in> set rs \<Longrightarrow> dget (tp_health tp) r \<noteq> None) \<Longrightarrow>
   first_healthy tp rs = Inr (List.find (region_healthy tp) rs)"
  by (induction rs) (fastforce simp: region_healthy_def split: option.split)+

text \<open>As long as one region is healthy, a healthy one is active.\<close>

theorem active_region_healthy:
  assumes "topology_ok tp" and "region_healthy tp r"
  shows "\<exists>a. get_active_region tp = Inr a \<and> region_healthy tp a"
proof -
  have known: "dget (tp_health tp) s \<noteq> None" if "s = tp_primary tp \<or> s \<in> set (tp_secondary tp)" for s
    using assms(1) that by (auto simp: topology_ok_def map_of_eq_None_iff)
  have r: "r = tp_primary tp \<or> r \<in> set (tp_secondary tp)"
    using assms by (auto simp: topology_ok_def region_healthy_def map_of_eq_None_iff image_iff split: option.splits
        dest!: map_of_SomeD) (metis fst_conv image_eqI insertE)
  have prim: "is_primary_healthy tp = region_healthy tp (tp_primary tp)"
    using known [of "tp_primary tp"] by (auto simp: is_primary_healthy_def region_healthy_def)
  show ?thesis
  proof (cases "tp_mode tp = ''active-active''")
    case True
    obtain h where "dget (tp_health tp) r = Some h" "rh_healthy h"
      using assms(2) by (auto simp: region_healthy_def split: option.splits)
    then have "filter (\<lambda>(_, h). rh_healthy h) (tp_health tp) \<noteq> []" by (auto simp: filter_empty_conv dest!: map_of_SomeD)
    then obtain a h' rest where f: "filter (\<lambda>(_, h). rh_healthy h) (tp_health tp) = (a, h') # rest"
      by (metis list.exhaust surj_pair)
    then have "(a, h') \<in> set (filter (\<lambda>(_, h). rh_healthy h) (tp_health tp))" by simp
    then have "(a, h') \<in> set (tp_health tp)" "rh_healthy h'" by auto
    then have "region_healthy tp a" using assms(1) by (simp add: region_healthy_def topology_ok_def dict_ok_mem)
    with True f show ?thesis by (simp add: get_active_region_def first_or_def)
  next
    case False
    show ?thesis
    proof (cases "region_healthy tp (tp_primary tp)")
      case True
      with False show ?thesis by (simp add: get_active_region_def prim)
    next
      case sick: False
      then have "r \<in> set (tp_secondary tp)" using r assms(2) by auto
      then obtain a where a: "List.find (region_healthy tp) (tp_secondary tp) = Some a"
        using assms(2) by (metis find_None_iff option.exhaust)
      have "first_healthy tp (tp_secondary tp) = Inr (Some a)"
        using first_healthy_some [of "tp_secondary tp" tp] known a by simp
      moreover have "region_healthy tp a" using a by (auto simp: find_Some_iff)
      ultimately show ?thesis using False sick by (simp add: get_active_region_def prim)
    qed
  qed
qed

text \<open>A manual failover changes a field nobody reads: the active region stays.\<close>

theorem failover_without_effect: "get_active_region (snd (trigger_failover r tp)) = get_active_region tp"
proof -
  have "get_active_region (tp\<lparr>tp_current := r\<rparr>) = get_active_region tp"
  proof -
    have "first_healthy (tp\<lparr>tp_current := r\<rparr>) rs = first_healthy tp rs" for rs by (induction rs) (auto split: option.split)
    then show ?thesis by (simp add: get_active_region_def is_primary_healthy_def)
  qed
  then show ?thesis by (simp add: trigger_failover_def)
qed

subsection \<open>Reports\<close>

text \<open>
  A fault that leaves the callback counts as handled and the mail as preserved, whatever became of it; and a fault is
  reported as injected although the injector is off or does not know it.
\<close>

theorem chaos_report_blind:
  assumes "\<And>m. fst (callback (enable_fault f ci) w) \<noteq> Inl (OtherFault m)"
  shows "fr_preserved (fst (verify_no_mail_loss f callback ci w)) \<and> fr_injected (fst (verify_no_mail_loss f callback ci w))"
proof (cases "fst (callback (enable_fault f ci) w)")
  case (Inl e)
  then obtain m where "e = ChaosFault m" using assms by (cases e) auto
  with Inl show ?thesis by (cases "callback (enable_fault f ci) w") (simp add: verify_no_mail_loss_def Let_def)
next
  case (Inr u)
  then show ?thesis by (cases "callback (enable_fault f ci) w") (simp add: verify_no_mail_loss_def Let_def)
qed

lemma fault_switched_off: "f \<notin> set (active_faults (fst (snd (verify_no_mail_loss f callback ci w))))"
  by (simp add: verify_no_mail_loss_def Let_def disable_fault_def split: prod.split)

lemma degradation_always_safe: "dr_safe (evaluate_degraded_pipeline down)"
  by (simp add: evaluate_degraded_pipeline_def Let_def)

lemma degradation_partition:
  "length (dr_active (evaluate_degraded_pipeline down)) + length (dr_disabled (evaluate_degraded_pipeline down)) =
   length core_capabilities + length external_dependencies"
proof -
  have "length (filter (\<lambda>(svc, _). svc \<notin> X) d) + length (filter (\<lambda>(svc, _). svc \<in> X) d) = length d"
    for X and d :: "(string, string) dict"
    by (induction d) auto
  then show ?thesis by (simp add: evaluate_degraded_pipeline_def Let_def)
qed

lemma outage_lost_iff: "or_lost (simulate_gateway_outage sh name hours) \<longleftrightarrow> hours > of_int (fp_hours (get_provider_policy name))"
  by (simp add: simulate_gateway_outage_def Let_def)

end
