(* ===== verification/Observability.thy ===== *)
theory Observability
  imports TimeOfClick Decimals
begin

text \<open>
  \<open>observability/\<close>: metrics and their text format (\<open>metrics.py\<close>), API quotas (\<open>quota_tracker.py\<close>), service levels
  (\<open>slo.py\<close>), spans (\<open>tracing.py\<close>), the redacting log format (\<open>logging_handler.py\<close>) and the canary probe (\<open>canary.py\<close>).
  The clock and identifiers are arguments, a percentage is an exact rational.
\<close>

subsection \<open>metrics.py\<close>

record metrics =
  mx_messages :: "(string, nat) dict"
  mx_latency_sum :: "(string, rat) dict"
  mx_latency_count :: "(string, nat) dict"
  mx_api_errors :: "(string, nat) dict"
  mx_breakers :: "(string, string) dict"
  mx_queue :: int

definition new_metrics :: metrics where
  "new_metrics = \<lparr>mx_messages = [], mx_latency_sum = [], mx_latency_count = [], mx_api_errors = [], mx_breakers = [], mx_queue = 0\<rparr>"

definition bump :: "string \<Rightarrow> (string, nat) dict \<Rightarrow> (string, nat) dict" where
  "bump k d = dset d k (dgetd d k 0 + 1)"

definition record_message_processed :: "string \<Rightarrow> metrics \<Rightarrow> metrics" where
  "record_message_processed a mx = mx\<lparr>mx_messages := bump a (mx_messages mx)\<rparr>"

definition record_stage_latency :: "string \<Rightarrow> rat \<Rightarrow> metrics \<Rightarrow> metrics" where
  "record_stage_latency s t mx = mx\<lparr>mx_latency_sum := dset (mx_latency_sum mx) s (dgetd (mx_latency_sum mx) s 0 + t),
     mx_latency_count := bump s (mx_latency_count mx)\<rparr>"

definition record_api_error :: "string \<Rightarrow> metrics \<Rightarrow> metrics" where
  "record_api_error p mx = mx\<lparr>mx_api_errors := bump p (mx_api_errors mx)\<rparr>"

definition set_circuit_breaker_state :: "string \<Rightarrow> string \<Rightarrow> metrics \<Rightarrow> metrics" where
  "set_circuit_breaker_state b s mx = mx\<lparr>mx_breakers := dset (mx_breakers mx) b (upper s)\<rparr>"

definition set_queue_depth :: "int \<Rightarrow> metrics \<Rightarrow> metrics" where
  "set_queue_depth n mx = mx\<lparr>mx_queue := n\<rparr>"

text \<open>A sample: name, labels, value.\<close>

definition label_text :: "string \<times> string \<Rightarrow> string" where
  "label_text lv = fst lv @ ''='' @ CHR 0x22 # snd lv @ [CHR 0x22]"

definition sample :: "string \<Rightarrow> (string \<times> string) list \<Rightarrow> string \<Rightarrow> string" where
  "sample name labels val = name @ ''{'' @ join '','' (map label_text labels) @ ''} '' @ val"

definition metric_head :: "string \<Rightarrow> string \<Rightarrow> string \<Rightarrow> string list" where
  "metric_head name help kind = [''# HELP '' @ name @ '' '' @ help, ''# TYPE '' @ name @ '' '' @ kind]"

definition message_lines :: "metrics \<Rightarrow> string list" where
  "message_lines mx = metric_head ''gateway_messages_processed_total'' ''Total count of processed email messages by action.'' ''counter'' @
     map (\<lambda>(a, n). sample ''gateway_messages_processed_total'' [(''action'', a)] (nat_str n)) (mx_messages mx) @
     (if mx_messages mx = [] then [sample ''gateway_messages_processed_total'' [(''action'', ''total'')] ''0''] else [])"

definition latency_lines :: "metrics \<Rightarrow> string list" where
  "latency_lines mx = metric_head ''gateway_stage_latency_seconds_sum'' ''Total latency spent per processing stage in seconds.'' ''counter'' @
     map (\<lambda>(s, t). sample ''gateway_stage_latency_seconds_sum'' [(''stage'', s)] (fixed_str 4 t)) (mx_latency_sum mx) @
     metric_head ''gateway_stage_latency_seconds_count'' ''Total invocations per processing stage.'' ''counter'' @
     map (\<lambda>(s, n). sample ''gateway_stage_latency_seconds_count'' [(''stage'', s)] (nat_str n)) (mx_latency_count mx)"

definition api_error_lines :: "metrics \<Rightarrow> string list" where
  "api_error_lines mx = metric_head ''gateway_external_api_errors_total'' ''Total count of external provider API errors.'' ''counter'' @
     map (\<lambda>(p, n). sample ''gateway_external_api_errors_total'' [(''provider'', p)] (nat_str n)) (mx_api_errors mx)"

definition breaker_value :: "string \<Rightarrow> nat" where
  "breaker_value s = (if s = ''CLOSED'' then 1 else if s = ''HALF_OPEN'' then 2 else 0)"

definition breaker_lines :: "metrics \<Rightarrow> string list" where
  "breaker_lines mx = metric_head ''gateway_circuit_breaker_state'' ''Current state of circuit breakers (1 = active state).'' ''gauge'' @
     map (\<lambda>(b, s). sample ''gateway_circuit_breaker_state'' [(''breaker'', b), (''state'', s)] (nat_str (breaker_value s))) (mx_breakers mx)"

definition generate_prometheus_text :: "metrics \<Rightarrow> string" where
  "generate_prometheus_text mx =
     join [CHR 0x0A] (message_lines mx @ latency_lines mx @ api_error_lines mx @ breaker_lines mx @
       metric_head ''gateway_queue_depth'' ''Current processing queue depth.'' ''gauge'' @
       [''gateway_queue_depth '' @ int_str (mx_queue mx)]) @ [CHR 0x0A]"

subsection \<open>quota\_tracker.py\<close>

record quota =
  daily_limit :: int
  daily_used :: int
  monthly_limit :: int
  monthly_used :: int

type_synonym quotas = "(string, quota) dict"

definition set_provider_quota :: "string \<Rightarrow> int \<Rightarrow> int \<Rightarrow> quotas \<Rightarrow> quotas" where
  "set_provider_quota p day month qs = dset qs (lower p) \<lparr>daily_limit = day, daily_used = 0, monthly_limit = month, monthly_used = 0\<rparr>"

definition quota_pct :: "int \<Rightarrow> int \<Rightarrow> rat" where
  "quota_pct used limit = (if limit > 0 then of_int used / of_int limit * 100 else 0)"

definition quota_alert :: "string \<Rightarrow> rat \<Rightarrow> rat \<Rightarrow> json" where
  "quota_alert p day month =
     (let text = p @ '' quota usage at '' @ fixed_str 1 (max day month) @ ''% of limit'' in
      if day \<ge> 90 \<or> month \<ge> 90 then JStr (''CRITICAL: '' @ text)
      else if day \<ge> 80 \<or> month \<ge> 80 then JStr (''WARNING: '' @ text)
      else JNull)"

definition quota_of :: "quotas \<Rightarrow> string \<Rightarrow> quota" where
  "quota_of qs p = dgetd qs (lower p) \<lparr>daily_limit = 1000, daily_used = 0, monthly_limit = 30000, monthly_used = 0\<rparr>"

definition record_api_call :: "string \<Rightarrow> int \<Rightarrow> quotas \<Rightarrow> (string, json) dict \<times> quotas" where
  "record_api_call p n qs =
     (let q = (quota_of qs p)\<lparr>daily_used := daily_used (quota_of qs p) + n, monthly_used := monthly_used (quota_of qs p) + n\<rparr>;
          day = quota_pct (daily_used q) (daily_limit q); month = quota_pct (monthly_used q) (monthly_limit q)
      in ([(''provider'', JStr p), (''daily_used'', JInt (daily_used q)), (''daily_limit'', JInt (daily_limit q)),
           (''daily_pct'', JNum (round_to 1 day)), (''monthly_used'', JInt (monthly_used q)),
           (''monthly_limit'', JInt (monthly_limit q)), (''monthly_pct'', JNum (round_to 1 month)),
           (''alert'', quota_alert p day month)],
          dset qs (lower p) q))"

definition reset_daily_quotas :: "quotas \<Rightarrow> quotas" where
  "reset_daily_quotas qs = map (\<lambda>(p, q). (p, q\<lparr>daily_used := 0\<rparr>)) qs"

subsection \<open>slo.py\<close>

record slo_request =
  sr_time :: rat
  sr_success :: bool
  sr_latency :: rat
  sr_error :: bool

record slo_calculator =
  slo_target :: rat
  slo_latency :: rat
  slo_log :: "slo_request list"

definition new_slo :: "rat \<Rightarrow> rat \<Rightarrow> slo_calculator" where
  "new_slo target latency = \<lparr>slo_target = target, slo_latency = latency, slo_log = []\<rparr>"

definition record_request :: "rat \<Rightarrow> bool \<Rightarrow> rat \<Rightarrow> rat option \<Rightarrow> slo_calculator \<Rightarrow> slo_calculator" where
  "record_request now ok latency given sc =
     (let ts = (case given of Some t \<Rightarrow> if t = 0 then now else t | None \<Rightarrow> now)
      in sc\<lparr>slo_log := slo_log sc @ [\<lparr>sr_time = ts, sr_success = ok, sr_latency = latency,
           sr_error = (\<not> ok \<or> latency > slo_latency sc)\<rparr>]\<rparr>)"

definition recent_requests :: "rat \<Rightarrow> rat \<Rightarrow> slo_calculator \<Rightarrow> slo_request list" where
  "recent_requests now hours sc = filter (\<lambda>r. sr_time r \<ge> now - hours * 3600) (slo_log sc)"

definition burn_rate :: "rat \<Rightarrow> rat \<Rightarrow> slo_calculator \<Rightarrow> rat" where
  "burn_rate now hours sc =
     (let rs = recent_requests now hours sc; allowed = (100 - slo_target sc) / 100;
          actual = of_nat (length (filter sr_error rs)) / of_nat (length rs)
      in if allowed > 0 then actual / allowed else 0)"

definition slo_alert :: "rat \<Rightarrow> json" where
  "slo_alert burn =
     (if burn \<ge> 144 / 10 then JStr ''CRITICAL: Fast Burn Rate (14.4x) - 2% Error Budget Consumed in 1 Hour''
      else if burn \<ge> 6 then JStr ''WARNING: Slow Burn Rate (6.0x) - 5% Error Budget Consumed in 6 Hours''
      else JNull)"

definition calculate_slo_metrics :: "rat \<Rightarrow> rat \<Rightarrow> slo_calculator \<Rightarrow> (string, json) dict" where
  "calculate_slo_metrics now hours sc =
     (let rs = recent_requests now hours sc; total = length rs; errors = length (filter sr_error rs); burn = burn_rate now hours sc in
      if total = 0
      then [(''window_hours'', JNum hours), (''total_requests'', JInt 0), (''availability_pct'', JNum 100), (''error_count'', JInt 0),
            (''error_budget_remaining_pct'', JNum 100), (''burn_rate'', JNum 0), (''alert'', JNull)]
      else [(''window_hours'', JNum hours), (''total_requests'', JInt (int total)),
            (''availability_pct'', JNum (round_to 3 (100 - of_nat errors / of_nat total * 100))), (''error_count'', JInt (int errors)),
            (''burn_rate'', JNum (round_to 2 burn)), (''alert'', slo_alert burn)])"

subsection \<open>tracing.py\<close>

text \<open>A span is a value here: nothing changes it once it is finished.\<close>

record span =
  sn_trace :: string
  sn_id :: string
  sn_parent :: "string option"
  sn_name :: string
  sn_attributes :: "(string, json) dict"
  sn_start :: rat
  sn_end :: "rat option"
  sn_status :: string

definition new_span :: "string \<Rightarrow> string \<Rightarrow> rat \<Rightarrow> string \<Rightarrow> string option \<Rightarrow> (string, json) dict \<Rightarrow> span" where
  "new_span trace uid now name parent attrs = \<lparr>sn_trace = trace, sn_id = take 16 uid, sn_parent = parent, sn_name = name,
     sn_attributes = attrs, sn_start = now, sn_end = None, sn_status = ''IN_PROGRESS''\<rparr>"

definition set_attribute :: "string \<Rightarrow> json \<Rightarrow> span \<Rightarrow> span" where
  "set_attribute k v sn = sn\<lparr>sn_attributes := dset (sn_attributes sn) k v\<rparr>"

definition finish :: "rat \<Rightarrow> string \<Rightarrow> span \<Rightarrow> span" where
  "finish now status sn = sn\<lparr>sn_end := Some now, sn_status := status\<rparr>"

definition duration_ms :: "rat \<Rightarrow> span \<Rightarrow> rat" where
  "duration_ms now sn = ((case sn_end sn of Some t \<Rightarrow> if t = 0 then now else t | None \<Rightarrow> now) - sn_start sn) * 1000"

definition span_dict :: "rat \<Rightarrow> span \<Rightarrow> (string, json) dict" where
  "span_dict now sn = [(''trace_id'', JStr (sn_trace sn)), (''span_id'', JStr (sn_id sn)),
     (''parent_id'', (case sn_parent sn of None \<Rightarrow> JNull | Some p \<Rightarrow> JStr p)), (''name'', JStr (sn_name sn)),
     (''status'', JStr (sn_status sn)), (''duration_ms'', JNum (round_to 2 (duration_ms now sn))),
     (''attributes'', JDict (sn_attributes sn))]"

definition start_trace :: "string \<Rightarrow> string \<Rightarrow> rat \<Rightarrow> string \<Rightarrow> (string, json) dict \<Rightarrow> span" where
  "start_trace trace uid now name attrs = new_span trace uid now name None attrs"

definition start_child_span :: "span \<Rightarrow> string \<Rightarrow> string \<Rightarrow> rat \<Rightarrow> string \<Rightarrow> (string, json) dict \<Rightarrow> span" where
  "start_child_span parent trace uid now name attrs =
     (new_span trace uid now name (Some (sn_id parent)) attrs)\<lparr>sn_trace := sn_trace parent\<rparr>"

definition finish_span :: "rat \<Rightarrow> string \<Rightarrow> span \<Rightarrow> span list \<Rightarrow> span list" where
  "finish_span now status sn finished = finished @ [finish now status sn]"

definition get_trace_spans :: "rat \<Rightarrow> string \<Rightarrow> span list \<Rightarrow> (string, json) dict list" where
  "get_trace_spans now trace finished = map (span_dict now) (filter (\<lambda>s. sn_trace s = trace) finished)"

subsection \<open>logging\_handler.py\<close>

definition log_email_re :: re where
  "log_email_re = seqs [WordBoundary, plus (Sat (\<lambda>c. is_ascii_letter c \<or> is_digit c \<or> c \<in> set ''._%+-'')), lit ''@'',
     plus (Sat (\<lambda>c. is_ascii_letter c \<or> is_digit c \<or> c \<in> set ''.-'')), lit ''.'',
     times 2 (Sat (\<lambda>c. is_ascii_letter c \<or> c = CHR ''|'')), Star (Sat (\<lambda>c. is_ascii_letter c \<or> c = CHR ''|'')), WordBoundary]"

definition log_bearer_re :: re where
  "log_bearer_re = seqs [Cap 1 (seqs [lit_ci ''Bearer'', plus space]),
     plus (Sat (\<lambda>c. is_ascii_letter c \<or> is_digit c \<or> c \<in> set ''._~-+=/''))]"

definition log_secret_re :: re where
  "log_secret_re = (let q = Opt (one_of [CHR 0x22, CHR 0x27]) in
     seqs [Cap 1 (seqs [q, alts (map lit_ci [''secret'', ''password'', ''api_key'', ''token'']), q, Star space, one_of '':='', Star space, q]),
       Cap 2 (plus (Sat (\<lambda>c. \<not> is_space c \<and> c \<notin> {CHR 0x22, CHR 0x27}))), Cap 3 q])"

definition redact_text :: "string \<Rightarrow> string" where
  "redact_text txt =
     (if txt = [] then txt
      else let s = rsub log_email_re ''[REDACTED_EMAIL]'' txt;
               s = sub_with log_bearer_re (\<lambda>s m. group_text s m 1 @ ''[REDACTED_TOKEN]'') s 0
           in sub_with log_secret_re (\<lambda>s m. group_text s m 1 @ ''[REDACTED_SECRET]'' @ group_text s m 3) s 0)"

text \<open>What the formatter reads of a log record; the time is already the text \<open>strftime\<close> makes of it.\<close>

record log_record =
  lr_message :: string
  lr_time :: string
  lr_level :: string
  lr_logger :: string
  lr_file :: string
  lr_line :: int
  lr_trace :: "json option"
  lr_exception :: "string option"

definition format_record :: "log_record \<Rightarrow> (string, json) dict" where
  "format_record r =
     [(''timestamp'', JStr (lr_time r)), (''level'', JStr (lr_level r)), (''logger'', JStr (lr_logger r)),
      (''message'', JStr (redact_text (lr_message r))), (''filename'', JStr (lr_file r)), (''lineno'', JInt (lr_line r))] @
     (case lr_trace r of None \<Rightarrow> [] | Some t \<Rightarrow> [(''trace_id'', t)]) @
     (case lr_exception r of None \<Rightarrow> [] | Some e \<Rightarrow> [(''exception'', JStr e)])"

subsection \<open>canary.py\<close>

definition canary_payload :: "rat \<Rightarrow> (string, json) dict" where
  "canary_payload start =
     [(''message_id'', JStr (''canary_msg_'' @ int_str \<lfloor>start\<rfloor>)),
      (''envelope_from'', JStr ''canary-probe@gateway-health.local''),
      (''envelope_to'', JList [JStr ''synthetic-check@gateway-health.local'']),
      (''from_header'', JStr ''Synthetic Canary Probe <canary-probe@gateway-health.local>''),
      (''text_body'', JStr ''Gateway Synthetic Health Check Message.''),
      (''html_body'', JStr ''<html><body><p>Gateway Synthetic Health Check Message.</p></body></html>''),
      (''raw_message'', JStr (''Subject: Canary Probe'' @ [CHR 0x0D, CHR 0x0A, CHR 0x0D, CHR 0x0A] @ ''Gateway Synthetic Health Check Message.''))]"

definition canary_simulated :: json where
  "canary_simulated = JDict [(''action'', JStr ''deliver''), (''canary'', JBool True)]"

text \<open>Start and end are two readings of the clock; the result is also kept as the last one.\<close>

definition run_canary_check ::
    "((string, json) dict \<Rightarrow> 'w \<Rightarrow> json result \<times> 'w) option \<Rightarrow> rat \<Rightarrow> rat \<Rightarrow> 'w \<Rightarrow> (string, json) dict \<times> 'w" where
  "run_canary_check process start stop w =
     (let (status, err, res, w') = (case process of
          None \<Rightarrow> (''HEALTHY'', JNull, canary_simulated, w)
        | Some f \<Rightarrow> (case f (canary_payload start) w of
            (Inl e, w') \<Rightarrow> (''UNHEALTHY'', JStr (exn_text e), JNull, w')
          | (Inr j, w') \<Rightarrow> (''HEALTHY'', JNull, j, w')))
      in ([(''timestamp'', JNum start), (''status'', JStr status), (''latency_ms'', JNum (round_to 2 ((stop - start) * 1000))),
           (''error'', err), (''result'', res)], w'))"

text \<open>A call with keywords only: every parameter without a default has to be among them, and nothing else.\<close>

definition call_keywords :: "string list \<Rightarrow> string list \<Rightarrow> ((string, json) dict \<Rightarrow> 'w \<Rightarrow> json result \<times> 'w) \<Rightarrow>
    (string, json) dict \<Rightarrow> 'w \<Rightarrow> json result \<times> 'w" where
  "call_keywords required optional f given w =
     (if \<not> set required \<subseteq> set (dkeys given) then (Inl (TypeError ''missing required argument''), w)
      else if \<not> set (dkeys given) \<subseteq> set (required @ optional) then (Inl (TypeError ''unexpected keyword argument''), w)
      else f given w)"

text \<open>The parameters of \<open>process_message\<close>.\<close>

definition process_required :: "string list" where
  "process_required = [''message_id'', ''raw_message'', ''client_ip'', ''envelope_from'']"

definition process_optional :: "string list" where
  "process_optional = [''envelope_to'', ''text_body'', ''html_body'', ''from_header'', ''reply_to_header'', ''watchlist'',
     ''vip_display_names'', ''tenant_id'']"

subsection \<open>Counters count\<close>

lemma bump_count: "dgetd (bump k d) k' 0 = dgetd d k' 0 + (if k = k' then 1 else 0)"
  by (simp add: bump_def)

theorem messages_counted:
  "dgetd (mx_messages (fold record_message_processed as mx)) a 0 = dgetd (mx_messages mx) a 0 + count_list as a"
proof (induction as arbitrary: mx)
  case (Cons b as)
  have "dgetd (mx_messages (record_message_processed b mx)) a 0 = dgetd (mx_messages mx) a 0 + (if b = a then 1 else 0)"
    by (simp add: record_message_processed_def bump_count)
  with Cons.IH [of "record_message_processed b mx"] show ?case by simp
qed simp

text \<open>The sum and the number of latencies of a stage belong together.\<close>

lemma stage_latency_pair:
  "dgetd (mx_latency_count (record_stage_latency s t mx)) s' 0 = dgetd (mx_latency_count mx) s' 0 + (if s = s' then 1 else 0)"
  "dgetd (mx_latency_sum (record_stage_latency s t mx)) s' 0 = dgetd (mx_latency_sum mx) s' 0 + (if s = s' then t else 0)"
  by (simp_all add: record_stage_latency_def bump_count)

text \<open>A quotation mark in a label ends it: the action of a message is written as it is.\<close>

lemma label_not_escaped: "label_text (l, v @ [CHR 0x22] @ w) = l @ ''='' @ [CHR 0x22] @ v @ [CHR 0x22] @ w @ [CHR 0x22]"
  by (simp add: label_text_def)

subsection \<open>Quotas\<close>

fun api_calls :: "string \<Rightarrow> int list \<Rightarrow> quotas \<Rightarrow> quotas" where
  "api_calls p [] qs = qs"
| "api_calls p (n # ns) qs = api_calls p ns (snd (record_api_call p n qs))"

lemma quota_of_recorded: "quota_of (snd (record_api_call p n qs)) p' =
    (if lower p' = lower p then (quota_of qs p)\<lparr>daily_used := daily_used (quota_of qs p) + n, monthly_used := monthly_used (quota_of qs p) + n\<rparr>
     else quota_of qs p')"
  by (auto simp: record_api_call_def Let_def quota_of_def)

theorem usage_is_sum:
  "daily_used (quota_of (api_calls p ns qs) p) = daily_used (quota_of qs p) + sum_list ns"
  "monthly_used (quota_of (api_calls p ns qs) p) = monthly_used (quota_of qs p) + sum_list ns"
  by (induction p ns qs rule: api_calls.induct) (simp_all add: quota_of_recorded)

lemma dget_reset: "dget (reset_daily_quotas qs) p = map_option (\<lambda>q. q\<lparr>daily_used := 0\<rparr>) (dget qs p)"
  by (induction qs) (auto simp: reset_daily_quotas_def)

text \<open>The monthly use is never reset, so an exhausted month stays exhausted whatever is reset.\<close>

theorem month_never_ends:
  "monthly_used (quota_of (reset_daily_quotas qs) p) = monthly_used (quota_of qs p)"
  "daily_used (quota_of (reset_daily_quotas qs) p) = 0"
  by (simp_all add: quota_of_def dgetd_def dget_reset split: option.split)

lemma quota_alert_iff: "quota_alert p day month \<noteq> JNull \<longleftrightarrow> max day month \<ge> 80"
  by (auto simp: quota_alert_def Let_def)

subsection \<open>Service levels\<close>

lemma slo_alert_iff: "slo_alert burn \<noteq> JNull \<longleftrightarrow> burn \<ge> 6"
  by (simp add: slo_alert_def)

text \<open>With the default target of 99.9 percent, an alert is given exactly if six in a thousand requests of the window failed.\<close>

theorem slo_alert_threshold:
  assumes "slo_target sc = 999 / 10" and "recent_requests now hours sc \<noteq> []"
  shows "dget (calculate_slo_metrics now hours sc) ''alert'' \<noteq> Some JNull \<longleftrightarrow>
    1000 * length (filter sr_error (recent_requests now hours sc)) \<ge> 6 * length (recent_requests now hours sc)"
proof -
  let ?rs = "recent_requests now hours sc"
  let ?e = "length (filter sr_error ?rs)" and ?n = "length ?rs"
  have n: "0 < (of_nat ?n :: rat)" using assms(2) by simp
  have burn: "burn_rate now hours sc = of_nat ?e / of_nat ?n / (1 / 1000)"
    by (simp add: burn_rate_def Let_def assms(1))
  have "dget (calculate_slo_metrics now hours sc) ''alert'' = Some (slo_alert (burn_rate now hours sc))"
    using assms(2) by (simp add: calculate_slo_metrics_def Let_def)
  then have "dget (calculate_slo_metrics now hours sc) ''alert'' \<noteq> Some JNull \<longleftrightarrow> 6 \<le> of_nat ?e / of_nat ?n / (1 / 1000 :: rat)"
    by (simp add: slo_alert_iff burn)
  also have "\<dots> \<longleftrightarrow> (6 * of_nat ?n :: rat) \<le> 1000 * of_nat ?e"
    using n by (simp add: field_simps)
  also have "\<dots> \<longleftrightarrow> 6 * ?n \<le> 1000 * ?e"
    by (metis of_nat_le_iff of_nat_mult of_nat_numeral)
  finally show ?thesis .
qed

text \<open>The remaining error budget is reported only while there is no request.\<close>

lemma budget_missing:
  "recent_requests now hours sc \<noteq> [] \<Longrightarrow> dget (calculate_slo_metrics now hours sc) ''error_budget_remaining_pct'' = None"
  by (simp add: calculate_slo_metrics_def Let_def)

subsection \<open>Spans, logs and the canary\<close>

lemma child_in_trace:
  "get_trace_spans now (sn_trace parent) (finish_span t2 st2 parent (finish_span t1 st1 (start_child_span parent tr uid t0 name attrs) finished)) =
   get_trace_spans now (sn_trace parent) finished @
   [span_dict now (finish t1 st1 (start_child_span parent tr uid t0 name attrs)), span_dict now (finish t2 st2 parent)]"
  by (simp add: get_trace_spans_def finish_span_def start_child_span_def finish_def)

text \<open>Only the message is redacted: the text of an exception is logged as it is.\<close>

theorem exception_logged_unredacted:
  assumes "lr_exception r = Some e"
  shows "dget (format_record r) ''exception'' = Some (JStr e)"
  using assms by (simp add: format_record_def split: option.split)

text \<open>
  The probe passes no client address, which \<open>process_message\<close> requires: with the gateway's own function it never runs a
  message and always reports that the gateway is unhealthy.
\<close>

theorem canary_never_healthy:
  "snd (run_canary_check (Some (call_keywords process_required process_optional f)) start stop w) = w \<and>
   dget (fst (run_canary_check (Some (call_keywords process_required process_optional f)) start stop w)) ''status'' = Some (JStr ''UNHEALTHY'')"
proof -
  have "''client_ip'' \<notin> set (dkeys (canary_payload start))" by (simp add: canary_payload_def)
  moreover have "''client_ip'' \<in> set process_required" by (simp add: process_required_def)
  ultimately have "\<not> set process_required \<subseteq> set (dkeys (canary_payload start))" by blast
  then have "call_keywords process_required process_optional f (canary_payload start) w = (Inl (TypeError ''missing required argument''), w)"
    by (simp only: call_keywords_def if_True not_False_eq_True)
  then show ?thesis by (simp add: run_canary_check_def)
qed

end
