(* ===== verification/ScaleStores.thy ===== *)
theory ScaleStores
  imports Decimals TimeOfClick
begin

text \<open>
  The rest of \<open>scalability/\<close>: the SQL quarantine store (\<open>db_store.py\<close>), both batch resolvers (\<open>batch_dns.py\<close>,
  \<open>batch_resolver.py\<close>), both cache warmers (\<open>cache_warmer.py\<close>, \<open>cache_warmup.py\<close>), the HTTP client pool
  (\<open>http_pool.py\<close>) and the load test's figures (\<open>load_test.py\<close>). SQLite is what its statements say of a table with a
  primary key; the order in which it visits rows with equal sort keys, like the order of a Python set, is a parameter.
\<close>

subsection \<open>db\_store.py\<close>

record db_row =
  db_id :: string
  db_tenant :: string
  db_sender :: string
  db_recipient :: string
  db_subject :: string
  db_verdict :: string
  db_score :: rat
  db_status :: string
  db_created :: rat
  db_payload :: string

type_synonym db_table = "db_row list"

text \<open>The dictionary \<open>save\<close> takes: the keys it reads, each present or not, with values of the declared types.\<close>

record save_dict =
  sd_id :: string
  sd_msg_id :: string
  sd_tenant :: "string option"
  sd_sender :: "string option"
  sd_recipient :: "string option"
  sd_subject :: "string option"
  sd_action :: "string option"
  sd_verdict :: "string option"
  sd_score :: "rat option"
  sd_risk :: "rat option"
  sd_status :: "string option"
  sd_created :: "rat option"

definition given_or :: "'a option \<Rightarrow> 'a \<Rightarrow> 'a" where
  "given_or x d = (case x of None \<Rightarrow> d | Some v \<Rightarrow> v)"

text \<open>\<open>INSERT OR REPLACE\<close>: the row with the same primary key goes, the new one comes last.\<close>

definition save_record :: "rat \<Rightarrow> db_row \<Rightarrow> db_table \<Rightarrow> string \<times> db_table" where
  "save_record now r tb =
     (let row = r\<lparr>db_sender := lower (db_sender r), db_recipient := lower (db_recipient r),
        db_created := (if db_created r = 0 then now else db_created r)\<rparr>
      in (db_id r, filter (\<lambda>x. db_id x \<noteq> db_id r) tb @ [row]))"

definition save_row :: "string \<Rightarrow> string \<Rightarrow> rat \<Rightarrow> save_dict \<Rightarrow> db_row" where
  "save_row uid payload now sd =
     \<lparr>db_id = (if sd_id sd \<noteq> [] then sd_id sd else if sd_msg_id sd \<noteq> [] then sd_msg_id sd else uid),
      db_tenant = given_or (sd_tenant sd) ''default'', db_sender = given_or (sd_sender sd) [],
      db_recipient = given_or (sd_recipient sd) [], db_subject = given_or (sd_subject sd) [],
      db_verdict = given_or (sd_action sd) (given_or (sd_verdict sd) ''quarantine''),
      db_score = given_or (sd_score sd) (given_or (sd_risk sd) 0), db_status = given_or (sd_status sd) ''pending'',
      db_created = given_or (sd_created sd) now, db_payload = payload\<rparr>"

definition db_save :: "string \<Rightarrow> string \<Rightarrow> rat \<Rightarrow> save_dict \<Rightarrow> db_table \<Rightarrow> string \<times> db_table" where
  "db_save uid payload now sd tb = save_record now (save_row uid payload now sd) tb"

definition db_get_record :: "db_table \<Rightarrow> string \<Rightarrow> db_row option" where
  "db_get_record tb i = List.find (\<lambda>r. db_id r = i) tb"

definition row_dict :: "db_row \<Rightarrow> (string, json) dict" where
  "row_dict r = [(''msg_id'', JStr (db_id r)), (''tenant_id'', JStr (db_tenant r)), (''sender'', JStr (db_sender r)),
     (''recipient'', JStr (db_recipient r)), (''subject'', JStr (db_subject r)), (''verdict'', JStr (db_verdict r)),
     (''risk_score'', JNum (db_score r)), (''status'', JStr (db_status r)), (''created_at'', JNum (db_created r)),
     (''raw_payload'', JStr (db_payload r))]"

definition with_id :: "db_row \<Rightarrow> (string, json) dict" where
  "with_id r = row_dict r @ [(''id'', JStr (db_id r))]"

definition db_get :: "db_table \<Rightarrow> string \<Rightarrow> (string, json) dict option" where
  "db_get tb i = map_option with_id (db_get_record tb i)"

text \<open>SQL's \<open>LIKE\<close>: \<open>%\<close> is any text, \<open>_\<close> any character, ASCII letters match in either case.\<close>

definition ascii_fold :: "char \<Rightarrow> char" where
  "ascii_fold c = (if 65 \<le> (of_char c :: nat) \<and> of_char c \<le> (90 :: nat) then char_of (of_char c + 32 :: nat) else c)"

fun like :: "string \<Rightarrow> string \<Rightarrow> bool" where
  "like [] s = (s = [])"
| "like (p # ps) [] = (p = CHR ''%'' \<and> like ps [])"
| "like (p # ps) (c # s) =
     (if p = CHR ''%'' then like ps (c # s) \<or> like (p # ps) s
      else (p = CHR ''_'' \<or> ascii_fold p = ascii_fold c) \<and> like ps s)"

definition db_where :: "string \<Rightarrow> string \<Rightarrow> string \<Rightarrow> db_row \<Rightarrow> bool" where
  "db_where q tenant status r \<longleftrightarrow>
     (tenant = [] \<or> db_tenant r = tenant) \<and> (status = [] \<or> db_status r = status) \<and>
     (q = [] \<or> (let p = ''%'' @ lower q @ ''%'' in like p (db_sender r) \<or> like p (db_recipient r) \<or> like p (db_subject r)))"

text \<open>A negative limit is none, a negative offset is zero.\<close>

definition page :: "int \<Rightarrow> int \<Rightarrow> 'a list \<Rightarrow> 'a list" where
  "page limit offset xs = (let ys = drop (nat offset) xs in if limit < 0 then ys else take (nat limit) ys)"

definition search_quarantine :: "(db_row list \<Rightarrow> db_row list) \<Rightarrow> string \<Rightarrow> string \<Rightarrow> string \<Rightarrow> int \<Rightarrow> int \<Rightarrow> db_table \<Rightarrow> db_row list" where
  "search_quarantine scan q tenant status limit offset tb =
     page limit offset (sort_key (\<lambda>r. - db_created r) (scan (filter (db_where q tenant status) tb)))"

definition db_query :: "(db_row list \<Rightarrow> db_row list) \<Rightarrow> string \<Rightarrow> string \<Rightarrow> string \<Rightarrow> int \<Rightarrow> int \<Rightarrow> db_table \<Rightarrow> (string, json) dict list" where
  "db_query scan tenant status q limit offset tb = map with_id (search_quarantine scan q tenant status limit offset tb)"

definition db_list_pending :: "(db_row list \<Rightarrow> db_row list) \<Rightarrow> string \<Rightarrow> int \<Rightarrow> int \<Rightarrow> db_table \<Rightarrow> (string, json) dict list" where
  "db_list_pending scan tenant limit offset tb = db_query scan tenant ''pending'' [] limit offset tb"

definition update_status :: "string \<Rightarrow> string \<Rightarrow> db_table \<Rightarrow> bool \<times> db_table" where
  "update_status i status tb =
     (list_ex (\<lambda>r. db_id r = i) tb, map (\<lambda>r. if db_id r = i then r\<lparr>db_status := status\<rparr> else r) tb)"

subsection \<open>batch\_dns.py\<close>

text \<open>\<open>None\<close>: no address, or the look-up raised.\<close>

definition clean_domains :: "string list \<Rightarrow> string list" where
  "clean_domains ds = map (\<lambda>d. lower (strip d)) (filter (\<lambda>d. strip d \<noteq> []) ds)"

text \<open>
  The result of the whole batch; the inner \<^const>\<open>None\<close> is a call that never returns, because nobody passes a semaphore
  of zero.
\<close>

definition batch_resolve_domains ::
    "(string list \<Rightarrow> string list) \<Rightarrow> (string \<Rightarrow> string option) \<Rightarrow> int \<Rightarrow> string list \<Rightarrow> (string, string option) dict option result" where
  "batch_resolve_domains order resolve max_concurrency domains =
     (let unique_domains = order (remdups (clean_domains domains)) in
      if unique_domains = [] then Inr (Some [])
      else if max_concurrency < 0 then Inl (ValueError ''Semaphore initial value must be >= 0'')
      else if max_concurrency = 0 then Inr None
      else Inr (Some (map (\<lambda>d. (d, resolve d)) unique_domains)))"

definition resolution_dict :: "string \<Rightarrow> string option \<Rightarrow> (string, json) dict" where
  "resolution_dict d ip = [(''resolved'', JBool (ip \<noteq> None \<or> d = ''example.com'')),
     (''ip'', JStr (case ip of Some (c # a) \<Rightarrow> c # a | _ \<Rightarrow> ''93.184.216.34''))]"

definition resolve_batch_dns ::
    "(string list \<Rightarrow> string list) \<Rightarrow> (string \<Rightarrow> string option) \<Rightarrow> int \<Rightarrow> string list \<Rightarrow> (string, (string, json) dict) dict option result" where
  "resolve_batch_dns order resolve max_concurrency domains =
     map_sum id (map_option (map (\<lambda>(d, ip). (d, resolution_dict d ip)))) (batch_resolve_domains order resolve max_concurrency domains)"

subsection \<open>batch\_resolver.py\<close>

definition mock_resolve :: "string \<Rightarrow> json" where
  "mock_resolve d = JDict [(''domain'', JStr d), (''resolved'', JBool True), (''ip'', JStr ''192.0.2.1'')]"

definition resolve_batch :: "(string \<Rightarrow> json result) option \<Rightarrow> string list \<Rightarrow> (string, json) dict" where
  "resolve_batch resolve domains =
     (let run = (\<lambda>d. case resolve of None \<Rightarrow> Inr (mock_resolve d) | Some f \<Rightarrow> f d)
      in foldl (\<lambda>out d. dset out d (case run d of Inr j \<Rightarrow> j | Inl e \<Rightarrow> JDict [(''error'', JStr (exn_text e))])) [] (clean_domains domains))"

subsection \<open>cache\_warmer.py and cache\_warmup.py\<close>

definition default_frequent_domains :: "string list" where
  "default_frequent_domains = [''google.com'', ''microsoft.com'', ''github.com'', ''apple.com'', ''amazon.com'', ''docusign.com'', ''salesforce.com'']"

record cache_warmer =
  cw_domains :: "string list"
  cw_cached :: "(string, json) dict"

definition new_cache_warmer :: "string list option \<Rightarrow> cache_warmer" where
  "new_cache_warmer ds = \<lparr>cw_domains = given_or ds [], cw_cached = []\<rparr>"

definition add_frequent_domain :: "string \<Rightarrow> cache_warmer \<Rightarrow> cache_warmer" where
  "add_frequent_domain d cw = (if d \<in> set (cw_domains cw) then cw else cw\<lparr>cw_domains := cw_domains cw @ [d]\<rparr>)"

text \<open>The calls of one domain: an exception ends them, the calls before it are counted.\<close>

definition warm_domain ::
    "(string \<Rightarrow> 'w \<Rightarrow> bool \<times> 'w) option \<Rightarrow> (string \<Rightarrow> 'w \<Rightarrow> bool \<times> 'w) option \<Rightarrow> string \<Rightarrow> 'w \<Rightarrow> nat \<times> 'w" where
  "warm_domain age rep d w =
     (case age of
        None \<Rightarrow> (case rep of
            None \<Rightarrow> (1, w)
          | Some g \<Rightarrow> (case g (''https://'' @ d) w of (ok, w') \<Rightarrow> (of_bool ok, w')))
      | Some f \<Rightarrow> (case f d w of
            (False, w') \<Rightarrow> (0, w')
          | (True, w') \<Rightarrow> (case rep of
                None \<Rightarrow> (1, w')
              | Some g \<Rightarrow> (case g (''https://'' @ d) w' of (ok, w'') \<Rightarrow> (1 + of_bool ok, w'')))))"

fun warm_domains where
  "warm_domains age rep [] n w = (n, w)"
| "warm_domains age rep (d # ds) n w = (case warm_domain age rep d w of (k, w') \<Rightarrow> warm_domains age rep ds (n + k) w')"

definition warmed_info :: "string \<Rightarrow> json" where
  "warmed_info d = JDict [(''warmed'', JBool True), (''domain'', JStr d)]"

definition warm_cache ::
    "(string \<Rightarrow> 'w \<Rightarrow> bool \<times> 'w) option \<Rightarrow> (string \<Rightarrow> 'w \<Rightarrow> bool \<times> 'w) option \<Rightarrow> cache_warmer \<Rightarrow> 'w \<Rightarrow> nat \<times> cache_warmer \<times> 'w" where
  "warm_cache age rep cw w =
     (let ds = (if cw_domains cw = [] then default_frequent_domains else cw_domains cw);
          (n, w') = warm_domains age rep ds 0 w
      in (n, cw\<lparr>cw_cached := foldl (\<lambda>c d. dset c d (warmed_info d)) (cw_cached cw) ds\<rparr>, w'))"

definition get_cached_info :: "cache_warmer \<Rightarrow> string \<Rightarrow> json option" where
  "get_cached_info cw d = dget (cw_cached cw) d"

record warmup_engine =
  we_domains :: "string list"
  we_cache :: "(string, json) dict"

definition warmup_add :: "string \<Rightarrow> warmup_engine \<Rightarrow> warmup_engine" where
  "warmup_add d we = we\<lparr>we_domains := List.insert (lower (strip d)) (we_domains we)\<rparr>"

text \<open>Without a function the engine invents an answer; a function that raises ends the warm-up.\<close>

fun warmup_loop :: "(string \<Rightarrow> json result) option \<Rightarrow> string list \<Rightarrow> nat \<Rightarrow> (string, json) dict \<Rightarrow> nat result \<times> (string, json) dict" where
  "warmup_loop fetch [] n c = (Inr n, c)"
| "warmup_loop fetch (d # ds) n c =
     (case (case fetch of
          None \<Rightarrow> Inr (JDict [(''domain'', JStr d), (''warmed'', JBool True), (''age_days'', JInt 3650)])
        | Some f \<Rightarrow> f d) of
        Inl e \<Rightarrow> (Inl e, c)
      | Inr j \<Rightarrow> warmup_loop fetch ds (n + 1) (dset c d j))"

definition warmup_run :: "(string list \<Rightarrow> string list) \<Rightarrow> (string \<Rightarrow> json result) option \<Rightarrow> warmup_engine \<Rightarrow> nat result \<times> warmup_engine" where
  "warmup_run order fetch we = (case warmup_loop fetch (order (we_domains we)) 0 (we_cache we) of (r, c) \<Rightarrow> (r, we\<lparr>we_cache := c\<rparr>))"

definition warmup_info :: "warmup_engine \<Rightarrow> string \<Rightarrow> json option" where
  "warmup_info we d = dget (we_cache we) (lower (strip d))"

subsection \<open>http\_pool.py\<close>

record http_client =
  hc_timeout :: rat
  hc_closed :: bool

text \<open>The state of the one instance: its client, if there is one.\<close>

definition get_client :: "rat \<Rightarrow> rat \<Rightarrow> http_client option \<Rightarrow> http_client \<times> http_client option" where
  "get_client timeout_sec timeout_seconds pool =
     (let fresh = \<lparr>hc_timeout = (if timeout_sec \<noteq> 10 then timeout_sec else timeout_seconds), hc_closed = False\<rparr> in
      case pool of
        None \<Rightarrow> (fresh, Some fresh)
      | Some c \<Rightarrow> if hc_closed c then (fresh, Some fresh) else (c, Some c))"

definition close_client :: "http_client option \<Rightarrow> http_client option" where
  "close_client pool = (case pool of Some c \<Rightarrow> if hc_closed c then Some c else None | None \<Rightarrow> None)"

subsection \<open>load\_test.py\<close>

record load_report =
  ld_total :: int
  ld_successful :: nat
  ld_failed :: nat
  ld_duration :: rat
  ld_rps :: rat
  ld_p50 :: rat
  ld_p90 :: rat
  ld_p99 :: rat
  ld_target_met :: bool
  ld_latencies :: "rat list"

definition scaled_index :: "nat \<Rightarrow> rat \<Rightarrow> nat" where
  "scaled_index n q = nat \<lfloor>of_nat n * q\<rfloor>"

text \<open>The figures of a run, from the latencies of the calls in the order they ended, \<^const>\<open>None\<close> for one that raised.\<close>

definition load_figures :: "rat \<Rightarrow> rat option \<Rightarrow> rat \<Rightarrow> rat option list \<Rightarrow> load_report" where
  "load_figures default_p99 target total_duration outcomes =
     (let target_p99 = (case target of Some t \<Rightarrow> if t = 0 then default_p99 else t | None \<Rightarrow> default_p99);
          failed = length (filter (\<lambda>x. x = None) outcomes);
          ls = List.map_filter id outcomes;
          lats = sort (if ls = [] then [0] else ls); n = length lats;
          p99 = lats ! min (scaled_index n (99 / 100)) (n - 1)
      in \<lparr>ld_total = int (length outcomes), ld_successful = length ls, ld_failed = failed,
          ld_duration = round_to 3 total_duration,
          ld_rps = round_to 2 (of_nat (length outcomes) / max total_duration (1 / 1000)),
          ld_p50 = round_to 2 (lats ! scaled_index n (1 / 2)), ld_p90 = round_to 2 (lats ! scaled_index n (9 / 10)),
          ld_p99 = round_to 2 p99, ld_target_met = (p99 \<le> target_p99 \<and> failed = 0), ld_latencies = lats\<rparr>)"

subsection \<open>The table\<close>

definition table_ok :: "db_table \<Rightarrow> bool" where
  "table_ok tb \<longleftrightarrow> distinct (map db_id tb)"

lemma table_ok_save [inv_intros]: "table_ok tb \<Longrightarrow> table_ok (snd (save_record now r tb))"
  by (auto simp: table_ok_def save_record_def Let_def distinct_map_filter)

lemma table_ok_update [inv_intros]: "table_ok tb \<Longrightarrow> table_ok (snd (update_status i s tb))"
proof -
  have "map db_id (map (\<lambda>r. if db_id r = i then r\<lparr>db_status := s\<rparr> else r) tb) = map db_id tb" by simp
  then show "table_ok tb \<Longrightarrow> table_ok (snd (update_status i s tb))" by (simp only: table_ok_def update_status_def snd_conv)
qed

lemma find_filter_other: "i \<noteq> j \<Longrightarrow> List.find (\<lambda>r. db_id r = i) (filter (\<lambda>x. db_id x \<noteq> j) tb) = List.find (\<lambda>r. db_id r = i) tb"
  by (induction tb) auto

lemma find_append: "List.find P (xs @ ys) = (case List.find P xs of None \<Rightarrow> List.find P ys | Some x \<Rightarrow> Some x)"
  by (induction xs) auto

text \<open>A saved record is read back, its addresses in lower case; the others are as before.\<close>

theorem saved_record_found:
  assumes "save_record now r tb = (i, tb')"
  shows "i = db_id r" and "\<exists>row. db_get_record tb' i = Some row \<and> db_payload row = db_payload r \<and> db_status row = db_status r \<and>
      db_tenant row = db_tenant r \<and> db_sender row = lower (db_sender r)"
    and "j \<noteq> i \<Longrightarrow> db_get_record tb' j = db_get_record tb j"
proof -
  have gone: "List.find (\<lambda>x. db_id x = i) (filter (\<lambda>x. db_id x \<noteq> i) tb) = None" by (auto simp: find_None_iff)
  show "i = db_id r" using assms by (simp add: save_record_def Let_def)
  with gone assms show "\<exists>row. db_get_record tb' i = Some row \<and> db_payload row = db_payload r \<and> db_status row = db_status r \<and>
      db_tenant row = db_tenant r \<and> db_sender row = lower (db_sender r)"
    by (auto simp: save_record_def Let_def db_get_record_def find_append)
  show "j \<noteq> i \<Longrightarrow> db_get_record tb' j = db_get_record tb j"
    using assms by (auto simp: save_record_def Let_def db_get_record_def find_append find_filter_other split: option.split)
qed

text \<open>Saving a message again opens its case again: the status it had is lost.\<close>

lemma saving_again_reopens:
  assumes "sd_id sd \<noteq> []" and "sd_status sd = None"
  shows "map_option db_status (db_get_record (snd (db_save uid payload now sd tb)) (sd_id sd)) = Some ''pending''"
proof -
  obtain i tb' where s: "save_record now (save_row uid payload now sd) tb = (i, tb')" by fastforce
  have "i = sd_id sd" using saved_record_found(1) [OF s] assms(1) by (simp add: save_row_def)
  moreover have "db_status (save_row uid payload now sd) = ''pending''" using assms(2) by (simp add: save_row_def given_or_def)
  ultimately show ?thesis using saved_record_found(2) [OF s] s by (auto simp: db_save_def)
qed

text \<open>
  The pages of a search are its hits, newest first, each once; with a tenant only that tenant's.
\<close>

theorem search_pages:
  assumes "0 \<le> n" and "0 \<le> m"
  shows "search_quarantine scan q tenant status n 0 tb @ search_quarantine scan q tenant status m n tb =
    search_quarantine scan q tenant status (n + m) 0 tb"
  using assms by (simp add: search_quarantine_def page_def Let_def take_add nat_add_distrib)

lemma search_tenant_only:
  assumes "\<And>rs. set (scan rs) = set rs" and "tenant \<noteq> []" and "r \<in> set (search_quarantine scan q tenant status n k tb)"
  shows "r \<in> set tb \<and> db_tenant r = tenant"
proof -
  have "set (page n k xs) \<subseteq> set xs" for xs :: "db_row list"
    unfolding page_def Let_def by (auto dest: in_set_takeD in_set_dropD)
  then have "r \<in> set (filter (db_where q tenant status) tb)"
    using assms(1,3) unfolding search_quarantine_def by fastforce
  with assms(2) show ?thesis by (simp add: db_where_def)
qed

lemma search_newest_first: "sorted (map (\<lambda>r. - db_created r) (search_quarantine scan q tenant status n k tb))"
proof -
  have "sorted (map f (page n k (sort_key f xs)))" for f :: "db_row \<Rightarrow> rat" and xs
    by (simp add: page_def Let_def sorted_wrt_take sorted_wrt_drop drop_map [symmetric] take_map [symmetric])
  then show ?thesis by (simp add: search_quarantine_def)
qed

text \<open>A percent sign in the search text is a wildcard: it finds every record.\<close>

lemma like_percents: "like [CHR ''%'', CHR ''%'', CHR ''%''] s"
  by (induction s) auto

lemma percent_finds_all: "db_where ''%'' [] [] r"
proof -
  have "lower ''%'' = ''%''" by code_simp
  then show ?thesis by (simp add: db_where_def like_percents)
qed

subsection \<open>Resolvers, caches, the pool and the load test\<close>

text \<open>A domain without an address is given the address of example.com.\<close>

theorem unresolved_gets_example_address:
  assumes "batch_resolve_domains order resolve n ds = Inr (Some res)" and "(d, None) \<in> set res"
  shows "\<exists>out info. resolve_batch_dns order resolve n ds = Inr (Some out) \<and> (d, info) \<in> set out \<and>
    dget info ''ip'' = Some (JStr ''93.184.216.34'')"
proof -
  have "resolve_batch_dns order resolve n ds = Inr (Some (map (\<lambda>(d, ip). (d, resolution_dict d ip)) res))"
    using assms(1) by (simp add: resolve_batch_dns_def)
  moreover have "(d, resolution_dict d None) \<in> set (map (\<lambda>(d, ip). (d, resolution_dict d ip)) res)"
    using assms(2) by force
  moreover have "dget (resolution_dict d None) ''ip'' = Some (JStr ''93.184.216.34'')" by (simp add: resolution_dict_def)
  ultimately show ?thesis by blast
qed

lemma batch_hangs: "order (remdups (clean_domains ds)) \<noteq> [] \<Longrightarrow> batch_resolve_domains order resolve 0 ds = Inr None"
  by (simp add: batch_resolve_domains_def Let_def)

lemma first_timeout_stays:
  assumes "get_client a b pool = (c, pool')" and "\<not> hc_closed c"
  shows "get_client a' b' pool' = (c, pool')"
  using assms by (auto simp: get_client_def Let_def split: option.splits if_splits)

lemma scaled_index_less: "0 < n \<Longrightarrow> q < 1 \<Longrightarrow> 0 \<le> q \<Longrightarrow> scaled_index n q < n"
proof -
  assume "0 < n" "q < 1" "0 \<le> q"
  then have "of_nat n * q < (of_nat n :: rat)" "0 \<le> of_nat n * q" by simp_all
  then have "\<lfloor>of_nat n * q\<rfloor> < int n" by (simp add: floor_less_iff)
  then show ?thesis using \<open>0 < n\<close> by (simp add: scaled_index_def nat_less_iff)
qed

lemma scaled_index_mono: "p \<le> q \<Longrightarrow> scaled_index n p \<le> scaled_index n q"
  unfolding scaled_index_def by (intro nat_mono floor_mono mult_left_mono) simp_all

text \<open>The reported percentiles exist and are in order.\<close>

theorem percentiles_ordered:
  "ld_p50 (load_figures d t dur outs) \<le> ld_p90 (load_figures d t dur outs) \<and>
   ld_p90 (load_figures d t dur outs) \<le> ld_p99 (load_figures d t dur outs)"
proof -
  define lats where "lats = sort (if List.map_filter id outs = [] then [0] else List.map_filter id outs)"
  have n: "0 < length lats" by (simp add: lats_def)
  have s: "sorted lats" by (simp add: lats_def)
  let ?i = "\<lambda>q. scaled_index (length lats) q"
  have lt: "?i (1 / 2) < length lats" "?i (9 / 10) < length lats" "?i (99 / 100) < length lats"
    using n by (simp_all add: scaled_index_less)
  have le: "?i (1 / 2) \<le> ?i (9 / 10)" "?i (9 / 10) \<le> min (?i (99 / 100)) (length lats - 1)"
    using lt by (auto intro: scaled_index_mono)
  have "lats ! ?i (1 / 2) \<le> lats ! ?i (9 / 10)" "lats ! ?i (9 / 10) \<le> lats ! min (?i (99 / 100)) (length lats - 1)"
    using s le lt n by (auto intro!: sorted_nth_mono)
  moreover have "x \<le> y \<Longrightarrow> round_to 2 x \<le> round_to 2 y" for x y
    unfolding round_to_def by (intro divide_right_mono) (auto intro: round_even_mono)
  ultimately show ?thesis unfolding load_figures_def Let_def lats_def [symmetric] by simp
qed

end
