(* ===== verification/RedisStore.thy ===== *)
theory RedisStore
  imports KVStore Reputation
begin

text \<open>
  \<open>storage/redis_store.py\<close>: the key-value store over a Redis server. The client of the \<open>redis\<close> package is a parameter:
  each command gives an answer or an exception, and the server after it.
\<close>

subsection \<open>The client and the store\<close>

record 'r redis_client =
  rd_get :: "'r \<Rightarrow> rat \<Rightarrow> string \<Rightarrow> string option result \<times> 'r"
  rd_set :: "'r \<Rightarrow> rat \<Rightarrow> string \<Rightarrow> string \<Rightarrow> bool \<Rightarrow> int option \<Rightarrow> bool result \<times> 'r"
  rd_incr :: "'r \<Rightarrow> rat \<Rightarrow> string \<Rightarrow> int result \<times> 'r"
  rd_expire :: "'r \<Rightarrow> rat \<Rightarrow> string \<Rightarrow> int \<Rightarrow> unit result \<times> 'r"
  rd_delete :: "'r \<Rightarrow> rat \<Rightarrow> string \<Rightarrow> unit result \<times> 'r"
  rd_ping :: "'r \<Rightarrow> bool result"

definition redis_get :: "'r redis_client \<Rightarrow> 'r \<Rightarrow> rat \<Rightarrow> string \<Rightarrow> string option result \<times> 'r" where
  "redis_get rc r t k = rd_get rc r t k"

text \<open>\<open>SET\<close> with \<open>EX\<close>, and with \<open>NX\<close>: a set that was refused is the answer \<^const>\<open>False\<close>.\<close>

definition redis_set :: "'r redis_client \<Rightarrow> 'r \<Rightarrow> rat \<Rightarrow> string \<Rightarrow> string \<Rightarrow> int option \<Rightarrow> unit result \<times> 'r" where
  "redis_set rc r t k v ttl = (case rd_set rc r t k v False ttl of (a, r') \<Rightarrow> (map_sum id (\<lambda>_. ()) a, r'))"

definition redis_set_if_not_exists :: "'r redis_client \<Rightarrow> 'r \<Rightarrow> rat \<Rightarrow> string \<Rightarrow> string \<Rightarrow> int option \<Rightarrow> bool result \<times> 'r" where
  "redis_set_if_not_exists rc r t k v ttl = rd_set rc r t k v True ttl"

definition redis_incr :: "'r redis_client \<Rightarrow> 'r \<Rightarrow> rat \<Rightarrow> string \<Rightarrow> int option \<Rightarrow> int result \<times> 'r" where
  "redis_incr rc r t k ttl =
     (case rd_incr rc r t k of
        (Inl e, r1) \<Rightarrow> (Inl e, r1)
      | (Inr n, r1) \<Rightarrow>
          (case ttl of
             Some s \<Rightarrow>
               if n = 1 \<and> s \<noteq> 0
               then (case rd_expire rc r1 t k s of (Inl e, r2) \<Rightarrow> (Inl e, r2) | (Inr _, r2) \<Rightarrow> (Inr n, r2))
               else (Inr n, r1)
           | None \<Rightarrow> (Inr n, r1)))"

definition redis_delete :: "'r redis_client \<Rightarrow> 'r \<Rightarrow> rat \<Rightarrow> string \<Rightarrow> unit result \<times> 'r" where
  "redis_delete rc r t k = rd_delete rc r t k"

definition redis_ping :: "'r redis_client \<Rightarrow> 'r \<Rightarrow> bool" where
  "redis_ping rc r = (case rd_ping rc r of Inl _ \<Rightarrow> False | Inr b \<Rightarrow> b)"

subsection \<open>What Redis documents\<close>

text \<open>
  \<open>ent r t k\<close> is the value under a key and its deadline. An \<open>EX\<close> of zero or less is refused by the server, which the
  laws leave open.
\<close>

definition redis_laws :: "'r redis_client \<Rightarrow> ('r \<Rightarrow> rat \<Rightarrow> string \<Rightarrow> (string \<times> rat option) option) \<Rightarrow> bool" where
  "redis_laws rc ent \<longleftrightarrow>
     (\<forall>r t k. rd_get rc r t k = (Inr (map_option fst (ent r t k)), r)) \<and>
     (\<forall>r t k v nx ex. (\<forall>n. ex = Some n \<longrightarrow> 0 < n) \<longrightarrow>
        (let r' = snd (rd_set rc r t k v nx ex); ok = (\<not> nx \<or> ent r t k = None) in
         fst (rd_set rc r t k v nx ex) = Inr ok \<and>
         (\<forall>k'. ent r' t k' = (if k' = k \<and> ok then Some (v, deadline t ex) else ent r t k')))) \<and>
     (\<forall>r t k. ent r t k = None \<longrightarrow> fst (rd_incr rc r t k) = Inr 1 \<and>
        (\<forall>k'. ent (snd (rd_incr rc r t k)) t k' = (if k' = k then Some (''1'', None) else ent r t k'))) \<and>
     (\<forall>r t k n e. ent r t k = Some (int_str n, e) \<longrightarrow> fst (rd_incr rc r t k) = Inr (n + 1) \<and>
        (\<forall>k'. ent (snd (rd_incr rc r t k)) t k' = (if k' = k then Some (int_str (n + 1), e) else ent r t k'))) \<and>
     (\<forall>r t k n v e. 0 < n \<longrightarrow> ent r t k = Some (v, e) \<longrightarrow> fst (rd_expire rc r t k n) = Inr () \<and>
        (\<forall>k'. ent (snd (rd_expire rc r t k n)) t k' = (if k' = k then Some (v, Some (t + of_int n)) else ent r t k')))"

lemma redis_lawsD:
  assumes "redis_laws rc ent"
  shows "ent r t k = None \<Longrightarrow> fst (rd_incr rc r t k) = Inr 1"
    and "ent r t k = None \<Longrightarrow> ent (snd (rd_incr rc r t k)) t k' = (if k' = k then Some (''1'', None) else ent r t k')"
    and "ent r t k = Some (int_str n, e) \<Longrightarrow> fst (rd_incr rc r t k) = Inr (n + 1)"
    and "ent r t k = Some (int_str n, e) \<Longrightarrow> ent (snd (rd_incr rc r t k)) t k' =
        (if k' = k then Some (int_str (n + 1), e) else ent r t k')"
    and "0 < s \<Longrightarrow> ent r t k = Some (v, e) \<Longrightarrow> fst (rd_expire rc r t k s) = Inr ()"
    and "0 < s \<Longrightarrow> ent r t k = Some (v, e) \<Longrightarrow> ent (snd (rd_expire rc r t k s)) t k' =
        (if k' = k then Some (v, Some (t + of_int s)) else ent r t k')"
  using assms unfolding redis_laws_def by blast+

text \<open>C36: The counter of the Redis store is the one of the in-memory store: a new key starts at one with the deadline, a living one
  counts on and keeps its deadline.
\<close>

theorem redis_counts_as_memory:
  assumes "redis_laws rc ent" and "\<And>k. ent r t k = mem_entry d t k"
    and "0 < s" and "ent r t k = None \<or> (\<exists>n e. 0 < n \<and> ent r t k = Some (int_str n, e))"
  shows "fst (redis_incr rc r t k (Some s)) = fst (mem_incr d t k (Some s)) \<and>
    (\<forall>k'. ent (snd (redis_incr rc r t k (Some s))) t k' = mem_entry (snd (mem_incr d t k (Some s))) t k')"
  using assms(4)
proof
  note laws = redis_lawsD [OF assms(1)]
  assume none: "ent r t k = None"
  obtain r1 where i: "rd_incr rc r t k = (Inr 1, r1)" using laws(1) [OF none] by (metis prod.collapse)
  have e1: "ent r1 t k' = (if k' = k then Some (''1'', None) else ent r t k')" for k'
    using laws(2) [OF none] i by simp
  then have one: "ent r1 t k = Some (''1'', None)" by simp
  obtain r2 where x: "rd_expire rc r1 t k s = (Inr (), r2)" using laws(5) [OF assms(3) one] by (metis prod.collapse)
  have e2: "ent r2 t k' = (if k' = k then Some (''1'', Some (t + of_int s)) else ent r t k')" for k'
    using laws(6) [OF assms(3) one, of k'] x e1 by simp
  have m: "mem_entry d t k = None" using none assms(2) by simp
  have "t < t + of_int s" using assms(3) by simp
  then show ?thesis
    using i x e2 assms(2,3) is_live_entry [of t t d k]
    by (simp add: redis_incr_def mem_incr_absent [OF m] mem_entry_dset deadline_def fresh_def)
next
  note laws = redis_lawsD [OF assms(1)]
  assume "\<exists>n e. 0 < n \<and> ent r t k = Some (int_str n, e)"
  then obtain n e where n: "0 < n" "ent r t k = Some (int_str n, e)" by blast
  obtain r1 where i: "rd_incr rc r t k = (Inr (n + 1), r1)" using laws(3) [OF n(2)] by (metis prod.collapse)
  have e1: "ent r1 t k' = (if k' = k then Some (int_str (n + 1), e) else ent r t k')" for k'
    using laws(4) [OF n(2)] i by simp
  have m: "mem_entry d t k = Some (int_str n, e)" using n(2) assms(2) by simp
  have "fresh t (int_str (n + 1), e) = Some (int_str (n + 1), e)"
    using mem_entry_later [of t t d k] m by (auto simp: fresh_def split: option.splits if_splits)
  then show ?thesis
    using i e1 n(1) assms(2) is_live_entry [of t t d k]
    by (simp add: redis_incr_def mem_incr_live [OF m] mem_entry_dset)
qed

text \<open>Between the two commands the counter has no deadline: if the second fails, it never expires.\<close>

lemma counter_without_deadline:
  assumes "redis_laws rc ent" and "ent r t k = None" and "s \<noteq> 0"
    and "rd_expire rc (snd (rd_incr rc r t k)) t k s = (Inl e, snd (rd_incr rc r t k))"
  shows "fst (redis_incr rc r t k (Some s)) = Inl e \<and> ent (snd (redis_incr rc r t k (Some s))) t k = Some (''1'', None)"
proof -
  obtain r1 where i: "rd_incr rc r t k = (Inr 1, r1)" using redis_lawsD(1) [OF assms(1,2)] by (metis prod.collapse)
  moreover have "ent r1 t k = Some (''1'', None)" using redis_lawsD(2) [OF assms(1,2), of k] i by simp
  ultimately show ?thesis using assms(3,4) by (simp add: redis_incr_def)
qed

subsection \<open>The laws can hold\<close>

text \<open>A client of one process: the dictionary of \<open>InMemoryStore\<close> behind the commands.\<close>

definition memory_client :: "store redis_client" where
  "memory_client = \<lparr>rd_get = (\<lambda>r t k. (Inr (map_option fst (mem_entry r t k)), r)),
     rd_set = (\<lambda>r t k v nx ex. if nx \<and> mem_entry r t k \<noteq> None then (Inr False, r) else (Inr True, dset r k (v, deadline t ex))),
     rd_incr = (\<lambda>r t k. case mem_entry r t k of
         None \<Rightarrow> (Inr 1, dset r k (''1'', None))
       | Some (v, e) \<Rightarrow> (case py_int v of None \<Rightarrow> (Inl (int_error v), r) | Some n \<Rightarrow> (Inr (n + 1), dset r k (int_str (n + 1), e)))),
     rd_expire = (\<lambda>r t k n. case mem_entry r t k of None \<Rightarrow> (Inr (), r) | Some (v, _) \<Rightarrow> (Inr (), dset r k (v, Some (t + of_int n)))),
     rd_delete = (\<lambda>r t k. (Inr (), ddel r k)), rd_ping = (\<lambda>r. Inr True)\<rparr>"

lemma entry_fresh: "mem_entry r t k = Some (v, e) \<Longrightarrow> fresh t (w, e) = Some (w, e)"
  using mem_entry_later [of t t r k] by (auto simp: fresh_def split: option.splits if_splits)

lemma deadline_fresh: "(\<forall>n. ex = Some n \<longrightarrow> 0 < n) \<Longrightarrow> fresh t (v, deadline t ex) = Some (v, deadline t ex)"
  by (cases ex) (simp_all add: deadline_def fresh_def)

lemma memory_client_set:
  assumes "\<forall>n. ex = Some n \<longrightarrow> 0 < n"
  shows "fst (rd_set memory_client r t k v nx ex) = Inr (\<not> nx \<or> mem_entry r t k = None) \<and>
    (\<forall>k'. mem_entry (snd (rd_set memory_client r t k v nx ex)) t k' =
      (if k' = k \<and> (\<not> nx \<or> mem_entry r t k = None) then Some (v, deadline t ex) else mem_entry r t k'))"
  by (cases "nx \<and> mem_entry r t k \<noteq> None") (auto simp: memory_client_def mem_entry_dset deadline_fresh [OF assms] simp del: not_None_eq)

lemma memory_client_laws: "redis_laws memory_client mem_entry"
  unfolding redis_laws_def Let_def
proof (intro conjI allI impI)
  fix r t k v n e k' s
  show "rd_get memory_client r t k = (Inr (map_option fst (mem_entry r t k)), r)" by (simp add: memory_client_def)
  show "fst (rd_set memory_client r t k v nx ex) = Inr (\<not> nx \<or> mem_entry r t k = None)"
    "mem_entry (snd (rd_set memory_client r t k v nx ex)) t k' =
      (if k' = k \<and> (\<not> nx \<or> mem_entry r t k = None) then Some (v, deadline t ex) else mem_entry r t k')"
    if "\<forall>n. ex = Some n \<longrightarrow> 0 < n" for nx ex
    using memory_client_set [OF that] by blast+
  show "fst (rd_incr memory_client r t k) = Inr 1"
    "mem_entry (snd (rd_incr memory_client r t k)) t k' = (if k' = k then Some (''1'', None) else mem_entry r t k')"
    if "mem_entry r t k = None"
    using that by (simp_all add: memory_client_def mem_entry_dset fresh_def)
  show "fst (rd_incr memory_client r t k) = Inr (n + 1)"
    "mem_entry (snd (rd_incr memory_client r t k)) t k' = (if k' = k then Some (int_str (n + 1), e) else mem_entry r t k')"
    if "mem_entry r t k = Some (int_str n, e)"
    using that by (simp_all add: memory_client_def mem_entry_dset entry_fresh [OF that])
  show "fst (rd_expire memory_client r t k s) = Inr ()"
    "mem_entry (snd (rd_expire memory_client r t k s)) t k' = (if k' = k then Some (v, Some (t + of_int s)) else mem_entry r t k')"
    if "0 < s" "mem_entry r t k = Some (v, e)" for e
    using that by (simp_all add: memory_client_def mem_entry_dset fresh_def)
qed

theorem redis_counts_as_memory_witness:
  "fst (redis_incr memory_client [] 0 ''client'' (Some 60)) = fst (mem_incr [] 0 ''client'' (Some 60)) \<and>
   (\<forall>k'. mem_entry (snd (redis_incr memory_client [] 0 ''client'' (Some 60))) 0 k' =
     mem_entry (snd (mem_incr [] 0 ''client'' (Some 60))) 0 k')"
  by (rule redis_counts_as_memory [OF memory_client_laws]) (simp_all add: mem_entry_def)

end
