(* ===== verification/Secrets.thy ===== *)
theory Secrets
  imports Parsers
begin

text \<open>
  Secrets and settings: the providers and the caching facade of \<open>security/secrets_manager.py\<close>, the environment-based
  manager of \<open>security_hardening/secrets_manager.py\<close>, the defaults, aliases and validators of \<open>config/__init__.py\<close> and the
  TLS contexts of \<open>security/mtls.py\<close>. The environment is a dictionary; \<open>json.loads\<close> and \<open>json.dumps\<close>, the text of a
  float and the clients of the secret services are parameters. A missing key is the empty text: the code tests it for
  truth only, apart from its spelling in a message.
\<close>

subsection \<open>Errors and members of a JSON value\<close>

text \<open>The two errors of the module, and any other exception, which its callers do not expect.\<close>

datatype secret_exn =
    SecretNotFoundError string
  | SecretsManagerError string
  | Escaping py_exn

type_synonym 'w secret_source = "string \<Rightarrow> string \<Rightarrow> 'w \<Rightarrow> (secret_exn + string) \<times> 'w"

fun error_text :: "py_exn \<Rightarrow> string" where
  "error_text (ValueError m) = m"
| "error_text (KeyError m) = m"
| "error_text (TypeError m) = m"
| "error_text (PermissionError m) = m"
| "error_text (RuntimeError m) = m"
| "error_text (OtherError m) = m"

fun secret_text :: "secret_exn \<Rightarrow> string" where
  "secret_text (SecretNotFoundError m) = m"
| "secret_text (SecretsManagerError m) = m"
| "secret_text (Escaping e) = error_text e"

record json_lib =
  jl_loads :: "string \<Rightarrow> json result"
  jl_dumps :: "json \<Rightarrow> string"
  jl_float :: "rat \<Rightarrow> string"

text \<open>\<open>key in data\<close> and \<open>data[key]\<close>, for whatever JSON value \<open>data\<close> is.\<close>

definition key_in :: "string \<Rightarrow> json \<Rightarrow> bool result" where
  "key_in k j = (case j of
       JDict d \<Rightarrow> Inr (k \<in> set (dkeys d))
     | JList xs \<Rightarrow> Inr (JStr k \<in> set xs)
     | JStr s \<Rightarrow> Inr (contains k s)
     | _ \<Rightarrow> Inl (TypeError ''argument is not iterable''))"

definition subscript :: "json \<Rightarrow> string \<Rightarrow> json result" where
  "subscript j k = (case j of
       JDict d \<Rightarrow> (case dget d k of Some v \<Rightarrow> Inr v | None \<Rightarrow> Inl (KeyError k))
     | JList _ \<Rightarrow> Inl (TypeError ''list indices must be integers or slices, not str'')
     | JStr _ \<Rightarrow> Inl (TypeError ''string indices must be integers'')
     | _ \<Rightarrow> Inl (TypeError ''object is not subscriptable''))"

text \<open>The steps every provider takes for a key: \<open>data[key]\<close> as text if it is there, else the given error.\<close>

definition pick :: "json_lib \<Rightarrow> string \<Rightarrow> string \<Rightarrow> json \<Rightarrow> secret_exn + string" where
  "pick jl missing key data = (case key_in key data of
       Inl e \<Rightarrow> Inl (Escaping e)
     | Inr False \<Rightarrow> Inl (SecretNotFoundError missing)
     | Inr True \<Rightarrow> (case subscript data key of
          Inl e \<Rightarrow> Inl (Escaping e)
        | Inr v \<Rightarrow> Inr (py_str (jl_float jl) v)))"

lemma pick_dict:
  "pick jl m k (JDict d) = (case dget d k of Some v \<Rightarrow> Inr (py_str (jl_float jl) v) | None \<Rightarrow> Inl (SecretNotFoundError m))"
proof (cases "dget d k")
  case None
  then have "k \<notin> set (dkeys d)" by (simp add: map_of_eq_None_iff)
  then show ?thesis using None by (simp add: pick_def key_in_def del: set_map)
next
  case (Some v)
  then have "k \<in> set (dkeys d)" by (metis map_of_eq_None_iff option.distinct(1) set_map)
  then show ?thesis using Some by (simp add: pick_def key_in_def subscript_def del: set_map)
qed

subsection \<open>Providers\<close>

definition env_or :: "(string, string) dict \<Rightarrow> string \<Rightarrow> string \<Rightarrow> string option" where
  "env_or env a b = (case dget env a of Some v \<Rightarrow> if v \<noteq> [] then Some v else dget env b | None \<Rightarrow> dget env b)"

definition env_var_name :: "string \<Rightarrow> string \<Rightarrow> string" where
  "env_var_name pfx name = replace_str ''/'' ''_'' (replace_str ''-'' ''_'' (upper (pfx @ name)))"

definition env_get_secret :: "json_lib \<Rightarrow> (string, string) dict \<Rightarrow> string \<Rightarrow> 'w secret_source" where
  "env_get_secret jl env pfx name key w =
     ((case env_or env (env_var_name pfx name) name of
         None \<Rightarrow> Inl (SecretNotFoundError (''Secret '' @ quoted name @ '' (env var '' @ quoted (env_var_name pfx name) @
           '') not found in environment.''))
       | Some val \<Rightarrow>
           if key = [] then Inr val
           else (let missing = SecretNotFoundError (''Key '' @ quoted key @ '' not found in JSON secret payload for '' @
                   quoted name @ ''.'')
             in case jl_loads jl val of
                Inr (JDict d) \<Rightarrow> (case dget d key of Some v \<Rightarrow> Inr (py_str (jl_float jl) v) | None \<Rightarrow> Inl missing)
              | _ \<Rightarrow> Inl missing)), w)"

text \<open>A reply of Vault: what the request raises, or the status and the decoded body.\<close>

record 'w vault =
  va_url :: string
  va_token :: string
  va_mount :: string
  va_client :: "(string \<Rightarrow> (string \<times> string) list \<Rightarrow> 'w \<Rightarrow> (string + int \<times> json result) \<times> 'w) option"
  va_mock :: "(string, (string, json) dict) dict"

definition new_vault where
  "new_vault url token mount client =
     \<lparr>va_url = rstrip_char (CHR ''/'') url, va_token = token, va_mount = mount, va_client = client, va_mock = []\<rparr>"

definition vault_set_mock :: "string \<Rightarrow> (string, json) dict \<Rightarrow> 'w vault \<Rightarrow> 'w vault" where
  "vault_set_mock path data va = va\<lparr>va_mock := dset (va_mock va) path data\<rparr>"

definition vault_body :: "json_lib \<Rightarrow> string \<Rightarrow> string \<Rightarrow> json result \<Rightarrow> secret_exn + string" where
  "vault_body jl name key body =
     (case bind body (\<lambda>b. bind (jget b ''data'' (JDict [])) (\<lambda>d. jget d ''data'' (JDict []))) of
        Inl e \<Rightarrow> Inl (Escaping e)
      | Inr data \<Rightarrow>
          if key = [] then Inr (jl_dumps jl data)
          else pick jl (''Key '' @ quoted key @ '' not found in Vault path '' @ quoted name @ ''.'') key data)"

text \<open>\<open>except Exception\<close>, with and without the re-raise of \<open>SecretNotFoundError\<close>.\<close>

definition wrap_failure :: "bool \<Rightarrow> string \<Rightarrow> secret_exn + string \<Rightarrow> secret_exn + string" where
  "wrap_failure reraise what r = (case r of
       Inr v \<Rightarrow> Inr v
     | Inl (SecretNotFoundError m) \<Rightarrow>
         Inl (if reraise then SecretNotFoundError m else SecretsManagerError (what @ '' lookup failed: '' @ m))
     | Inl e \<Rightarrow> Inl (SecretsManagerError (what @ '' lookup failed: '' @ secret_text e)))"

definition vault_get_secret :: "json_lib \<Rightarrow> 'w vault \<Rightarrow> 'w secret_source" where
  "vault_get_secret jl va name key w =
     (let unavailable = Inl (SecretNotFoundError (''Vault secret '' @ quoted name @ '' unavailable.''))
      in case dget (va_mock va) name of
        Some data \<Rightarrow>
          (if key = [] then Inr (jl_dumps jl (JDict data))
           else pick jl (''Key '' @ quoted key @ '' not in Vault path '' @ quoted name @ ''.'') key (JDict data), w)
      | None \<Rightarrow> (case va_client va of
          None \<Rightarrow> (unavailable, w)
        | Some http \<Rightarrow>
            (case http (va_url va @ ''/v1/'' @ va_mount va @ ''/data/'' @ name) [(''X-Vault-Token'', va_token va)] w of
               (Inl e, w') \<Rightarrow> (Inl (SecretsManagerError (''Vault secret lookup failed: '' @ e)), w')
             | (Inr (status, body), w') \<Rightarrow>
                 (if status = 200 then wrap_failure True ''Vault secret'' (vault_body jl name key body)
                  else if status = 404 then Inl (SecretNotFoundError (''Vault path '' @ quoted name @ '' not found.''))
                  else unavailable, w'))))"

text \<open>The two cloud providers differ in their texts and in how the client names the secret.\<close>

record 'w cloud =
  cp_short :: string
  cp_long :: string
  cp_client :: "(string \<Rightarrow> 'w \<Rightarrow> (string + string) \<times> 'w) option"
  cp_mock :: "(string, string) dict"

definition aws_provider where
  "aws_provider client = \<lparr>cp_short = ''AWS'', cp_long = ''AWS Secrets Manager'', cp_client = client, cp_mock = []\<rparr>"

definition gcp_provider where
  "gcp_provider project client = \<lparr>cp_short = ''GCP'', cp_long = ''GCP Secret Manager'',
     cp_client = map_option (\<lambda>access name. access (''projects/'' @ project @ ''/secrets/'' @ name @ ''/versions/latest'')) client,
     cp_mock = []\<rparr>"

definition cloud_set_mock :: "string \<Rightarrow> string \<Rightarrow> 'w cloud \<Rightarrow> 'w cloud" where
  "cloud_set_mock name value cp = cp\<lparr>cp_mock := dset (cp_mock cp) name value\<rparr>"

definition cloud_value :: "json_lib \<Rightarrow> 'w cloud \<Rightarrow> string \<Rightarrow> string \<Rightarrow> string \<Rightarrow> secret_exn + string" where
  "cloud_value jl cp name key val =
     (if key = [] then Inr val
      else case jl_loads jl val of
        Inl e \<Rightarrow> Inl (Escaping e)
      | Inr data \<Rightarrow> pick jl (''Key '' @ quoted key @ '' not in '' @ cp_short cp @ '' secret '' @ quoted name @ ''.'') key data)"

definition cloud_get_secret :: "json_lib \<Rightarrow> 'w cloud \<Rightarrow> 'w secret_source" where
  "cloud_get_secret jl cp name key w =
     (case dget (cp_mock cp) name of
        Some val \<Rightarrow> (cloud_value jl cp name key val, w)
      | None \<Rightarrow> (case cp_client cp of
          None \<Rightarrow> (Inl (SecretNotFoundError (cp_short cp @ '' secret '' @ quoted name @ '' unavailable.'')), w)
        | Some client \<Rightarrow> (case client name w of
            (Inl e, w') \<Rightarrow> (Inl (SecretsManagerError (cp_long cp @ '' lookup failed: '' @ e)), w')
          | (Inr val, w') \<Rightarrow> (wrap_failure False (cp_long cp) (cloud_value jl cp name key val), w'))))"

definition aws_get_secret where
  "aws_get_secret jl client mock = cloud_get_secret jl ((aws_provider client)\<lparr>cp_mock := mock\<rparr>)"

definition gcp_get_secret where
  "gcp_get_secret jl project client mock = cloud_get_secret jl ((gcp_provider project client)\<lparr>cp_mock := mock\<rparr>)"

subsection \<open>The facade\<close>

record secrets_cache =
  sc_ttl :: int
  sc_entries :: "(string, string \<times> rat) dict"

definition secret_cache_key :: "string \<Rightarrow> string \<Rightarrow> string" where
  "secret_cache_key name key = name @ '':'' @ key"

text \<open>The first provider that answers; both errors of the module are passed over.\<close>

fun ask_chain :: "'w secret_source list \<Rightarrow> string \<Rightarrow> string \<Rightarrow> 'w \<Rightarrow> (secret_exn + string) \<times> 'w" where
  "ask_chain [] name key w = (Inl (SecretNotFoundError (''Secret '' @ quoted name @ '' (key='' @ quoted key @
     '') could not be resolved by any secret provider.'')), w)"
| "ask_chain (p # ps) name key w = (case p name key w of
      (Inr v, w') \<Rightarrow> (Inr v, w')
    | (Inl (Escaping e), w') \<Rightarrow> (Inl (Escaping e), w')
    | (Inl e, w') \<Rightarrow> ask_chain ps name key w')"

definition cached_secret :: "rat \<Rightarrow> bool \<Rightarrow> string \<Rightarrow> secrets_cache \<Rightarrow> string option" where
  "cached_secret now use_cache ck sc = (case dget (sc_entries sc) ck of
       Some (val, expiry) \<Rightarrow> if use_cache \<and> now < expiry then Some val else None
     | None \<Rightarrow> None)"

definition get_secret ::
    "'w secret_source list \<Rightarrow> rat \<Rightarrow> bool \<Rightarrow> string \<Rightarrow> string \<Rightarrow> secrets_cache \<times> 'w \<Rightarrow> (secret_exn + string) \<times> secrets_cache \<times> 'w" where
  "get_secret providers now use_cache name key s =
     (let (sc, w) = s; ck = secret_cache_key name key in
      case cached_secret now use_cache ck sc of
        Some v \<Rightarrow> (Inr v, sc, w)
      | None \<Rightarrow> (case ask_chain providers name key w of
          (Inr v, w') \<Rightarrow> (Inr v, if use_cache \<and> sc_ttl sc > 0
             then sc\<lparr>sc_entries := dset (sc_entries sc) ck (v, now + of_int (sc_ttl sc))\<rparr> else sc, w')
        | (Inl e, w') \<Rightarrow> (Inl e, sc, w')))"

definition clear_secret_cache :: "secrets_cache \<Rightarrow> secrets_cache" where
  "clear_secret_cache sc = sc\<lparr>sc_entries := []\<rparr>"

text \<open>\<open>providers or [EnvSecretsProvider()]\<close>, and the manager of the process, made when it is first asked for.\<close>

definition chain_of :: "json_lib \<Rightarrow> (string, string) dict \<Rightarrow> 'w secret_source list \<Rightarrow> 'w secret_source list" where
  "chain_of jl env ps = (if ps = [] then [env_get_secret jl env []] else ps)"

type_synonym 'w secrets_manager = "'w secret_source list \<times> secrets_cache"

definition get_secrets_manager ::
    "json_lib \<Rightarrow> (string, string) dict \<Rightarrow> 'w secrets_manager option \<Rightarrow> 'w secrets_manager \<times> 'w secrets_manager option" where
  "get_secrets_manager jl env g = (case g of
       Some m \<Rightarrow> (m, g)
     | None \<Rightarrow> (let m = ([env_get_secret jl env []], \<lparr>sc_ttl = 300, sc_entries = []\<rparr>) in (m, Some m)))"

subsection \<open>A chain of providers that keep their promise\<close>

text \<open>A provider answers with a secret or with one of the two errors. A chain of such providers answers with the first
  secret any of them has, and fails with \<open>SecretNotFoundError\<close> only when all of them fail.\<close>

locale secret_providers =
  fixes providers :: "'w secret_source list"
  assumes keeps: "p \<in> set providers \<Longrightarrow> fst (p name key w) \<noteq> Inl (Escaping e)"
begin

lemma chain_contained: "fst (ask_chain providers name key w) \<noteq> Inl (Escaping e)"
  using keeps
proof (induction providers arbitrary: w)
  case (Cons p ps)
  obtain a w' where p: "p name key w = (a, w')" by fastforce
  then show ?case using Cons.IH [of w'] Cons.prems(1) [of p name key w] Cons.prems(1)
    by (cases a) (auto split: secret_exn.splits)
qed simp

lemma chain_first_secret:
  "fst (ask_chain providers name key w) = Inr v \<longleftrightarrow>
     (\<exists>before p after w0 w1. providers = before @ p # after \<and> p name key w1 = (Inr v, w0) \<and>
        snd (ask_chain before name key w) = w1 \<and> (\<exists>m. fst (ask_chain before name key w) = Inl (SecretNotFoundError m)))"
  using keeps
proof (induction providers arbitrary: w)
  case (Cons p ps)
  obtain a w' where p: "p name key w = (a, w')" by fastforce
  have here: "a \<noteq> Inl (Escaping e)" for e using Cons.prems [of p name key w e] p by simp
  show ?case (is "?l \<longleftrightarrow> ?r")
  proof (cases a)
    case (Inr x)
    show ?thesis
    proof
      assume ?l
      then have "x = v" using p Inr by simp
      then have "p # ps = [] @ p # ps \<and> p name key w = (Inr v, w') \<and> snd (ask_chain [] name key w) = w \<and>
          (\<exists>m. fst (ask_chain [] name key w) = Inl (SecretNotFoundError m))"
        using p Inr by simp
      then show ?r by blast
    next
      assume ?r
      then obtain before q after w0 w1 where r: "p # ps = before @ q # after" "q name key w1 = (Inr v, w0)"
          "snd (ask_chain before name key w) = w1" "\<exists>m. fst (ask_chain before name key w) = Inl (SecretNotFoundError m)"
        by blast
      then have "before = []" using p Inr by (cases before) auto
      then show ?l using r p Inr by auto
    qed
  next
    case (Inl e)
    then have next_: "ask_chain (p # qs) name key w = ask_chain qs name key w'" for qs
      using p here by (cases e) auto
    have IH: "fst (ask_chain ps name key w') = Inr v \<longleftrightarrow> (\<exists>before q after w0 w1. ps = before @ q # after \<and>
        q name key w1 = (Inr v, w0) \<and> snd (ask_chain before name key w') = w1 \<and>
        (\<exists>m. fst (ask_chain before name key w') = Inl (SecretNotFoundError m)))"
      by (rule Cons.IH) (use Cons.prems in auto)
    show ?thesis
    proof
      assume ?l
      then obtain before q after w0 w1 where r: "ps = before @ q # after" "q name key w1 = (Inr v, w0)"
          "snd (ask_chain before name key w') = w1" "\<exists>m. fst (ask_chain before name key w') = Inl (SecretNotFoundError m)"
        using IH unfolding next_ by blast
      then have "p # ps = (p # before) @ q # after \<and> q name key w1 = (Inr v, w0) \<and>
          snd (ask_chain (p # before) name key w) = w1 \<and>
          (\<exists>m. fst (ask_chain (p # before) name key w) = Inl (SecretNotFoundError m))"
        unfolding next_ by simp
      then show ?r by blast
    next
      assume ?r
      then obtain before q after w0 w1 where r: "p # ps = before @ q # after" "q name key w1 = (Inr v, w0)"
          "snd (ask_chain before name key w) = w1" "\<exists>m. fst (ask_chain before name key w) = Inl (SecretNotFoundError m)"
        by blast
      then show ?l
      proof (cases before)
        case Nil
        then show ?thesis using r p Inl by simp
      next
        case (Cons b bs)
        then have "b = p" "ps = bs @ q # after" using r(1) by auto
        have "snd (ask_chain bs name key w') = w1" "\<exists>m. fst (ask_chain bs name key w') = Inl (SecretNotFoundError m)"
          using r(3,4) unfolding Cons \<open>b = p\<close> next_ by simp_all
        then show ?thesis using \<open>ps = bs @ q # after\<close> r(2) IH unfolding next_ by blast
      qed
    qed
  qed
qed simp

lemma facade_contained: "fst (get_secret providers now uc name key s) \<noteq> Inl (Escaping e)"
  using chain_contained [of name key "snd s" e]
  by (cases s) (auto simp: get_secret_def Let_def split: option.splits prod.splits sum.splits)

lemma facade_error:
  "fst (get_secret providers now uc name key s) = Inl x \<Longrightarrow> \<exists>m. x = SecretNotFoundError m"
proof -
  assume l: "fst (get_secret providers now uc name key s) = Inl x"
  have chain: "fst (ask_chain ps name key w) = Inl y \<Longrightarrow> (\<exists>m. y = SecretNotFoundError m) \<or> (\<exists>e. y = Escaping e)"
    for ps :: "'w secret_source list" and w y
    by (induction ps arbitrary: w) (auto split: prod.splits sum.splits secret_exn.splits)
  have "fst (ask_chain providers name key (snd s)) = Inl x"
    using l by (cases s) (auto simp: get_secret_def Let_def split: option.splits prod.splits sum.splits)
  then show ?thesis using chain [of providers "snd s" x] chain_contained [of name key "snd s"] by auto
qed

end

text \<open>The environment and Vault keep the promise.\<close>

lemma env_contained: "fst (env_get_secret jl env pfx name key w) \<noteq> Inl (Escaping e)"
  by (simp add: env_get_secret_def Let_def split: option.splits sum.splits json.splits)

lemma wrapped_contained: "wrap_failure b what r \<noteq> Inl (Escaping e)"
  by (simp add: wrap_failure_def split: sum.splits secret_exn.splits)

lemma vault_contained: "fst (vault_get_secret jl va name key w) \<noteq> Inl (Escaping e)"
  by (simp add: vault_get_secret_def Let_def pick_dict wrapped_contained split: option.splits prod.splits sum.splits)

lemma cloud_contained:
  "dget (cp_mock cp) name = None \<Longrightarrow> fst (cloud_get_secret jl cp name key w) \<noteq> Inl (Escaping e)"
  by (simp add: cloud_get_secret_def wrapped_contained split: option.splits prod.splits sum.splits)

interpretation vault_then_env: secret_providers "[vault_get_secret jl va, env_get_secret jl env pfx]" for jl va env pfx
  by unfold_locales (auto simp: vault_contained env_contained)

text \<open>Vault first and the environment as the fallback: every answer is a secret or \<open>SecretNotFoundError\<close>, whatever Vault's
  replies and the stored documents are.\<close>

theorem vault_chain_errors:
  "fst (get_secret [vault_get_secret jl va, env_get_secret jl env pfx] now uc name key s) = Inl x \<Longrightarrow>
     \<exists>m. x = SecretNotFoundError m"
  by (rule vault_then_env.facade_error)

text \<open>An answer of the last \<open>cache_ttl_seconds\<close> is given again without asking any provider.\<close>

lemma replayed_under_key:
  assumes "get_secret ps now True n1 k1 (sc, w) = (Inr v, sc', w')" "cached_secret now True (secret_cache_key n1 k1) sc = None"
    and "now' < now + of_int (sc_ttl sc)" "now \<le> now'" "secret_cache_key n2 k2 = secret_cache_key n1 k1"
  shows "get_secret qs now' True n2 k2 (sc', w'') = (Inr v, sc', w'')"
proof -
  have "0 < (of_int (sc_ttl sc) :: rat)" using assms(3,4) by linarith
  then have "sc_ttl sc > 0" by simp
  then have "sc' = sc\<lparr>sc_entries := dset (sc_entries sc) (secret_cache_key n1 k1) (v, now + of_int (sc_ttl sc))\<rparr>"
    using assms(1,2) by (auto simp: get_secret_def Let_def split: prod.splits sum.splits)
  then have "cached_secret now' True (secret_cache_key n1 k1) sc' = Some v"
    using assms(3) by (simp add: cached_secret_def dget_dset)
  then show ?thesis by (simp add: get_secret_def assms(5))
qed

theorem secret_replayed:
  assumes "get_secret ps now True name key (sc, w) = (Inr v, sc', w')" "cached_secret now True (secret_cache_key name key) sc = None"
    and "now' < now + of_int (sc_ttl sc)" "now \<le> now'"
  shows "get_secret qs now' True name key (sc', w'') = (Inr v, sc', w'')"
  by (rule replayed_under_key [OF assms refl])

text \<open>The cache key joins name and key with a colon, so two different secrets can share an entry: what was read as the key
  \<open>c\<close> of \<open>a:b\<close> is then handed out as the key \<open>b:c\<close> of \<open>a\<close>, whatever the providers hold there.\<close>

theorem secrets_share_cache_entry:
  assumes "get_secret ps now True (a @ '':'' @ b) c (sc, w) = (Inr v, sc', w')"
    and "cached_secret now True (secret_cache_key (a @ '':'' @ b) c) sc = None"
    and "now' < now + of_int (sc_ttl sc)" "now \<le> now'"
  shows "get_secret qs now' True a (b @ '':'' @ c) (sc', w'') = (Inr v, sc', w'')"
  by (rule replayed_under_key [OF assms]) (simp add: secret_cache_key_def)

text \<open>A simulated cloud secret that is no JSON document breaks the promise: asked for a key of it, the provider raises
  \<open>JSONDecodeError\<close>, and the chain ends there although the environment has the secret.\<close>

theorem bad_document_breaks_chain:
  assumes "dget (cp_mock cp) name = Some doc" "jl_loads jl doc = Inl e" "key \<noteq> []"
    and "cached_secret now uc (secret_cache_key name key) sc = None"
  shows "get_secret (cloud_get_secret jl cp # ps) now uc name key (sc, w) = (Inl (Escaping e), sc, w)"
  using assms by (simp add: get_secret_def cloud_get_secret_def cloud_value_def)

text \<open>Through the client the same provider hides what happened: a missing key is reported as a failed look-up.\<close>

theorem cloud_client_never_not_found:
  assumes "dget (cp_mock cp) name = None" "cp_client cp = Some client"
  shows "fst (cloud_get_secret jl cp name key w) \<noteq> Inl (SecretNotFoundError m)"
  using assms by (auto simp: cloud_get_secret_def wrap_failure_def split: prod.splits sum.splits secret_exn.splits)

subsection \<open>security\_hardening/secrets\_manager.py\<close>

record env_secrets =
  es_provider :: string
  es_ttl :: rat
  es_cache :: "(string, string \<times> rat) dict"

definition new_env_secrets :: "string \<Rightarrow> rat \<Rightarrow> env_secrets" where
  "new_env_secrets provider ttl = \<lparr>es_provider = lower provider, es_ttl = ttl, es_cache = []\<rparr>"

definition es_variable :: "string \<Rightarrow> string \<Rightarrow> string" where
  "es_variable provider key =
     (if provider = ''vault'' then ''VAULT_SECRET_'' @ upper key
      else if provider = ''aws_secrets_manager'' then ''AWS_SECRET_'' @ upper key
      else if provider = ''gcp_secret_manager'' then ''GCP_SECRET_'' @ upper key
      else key)"

definition es_lookup :: "(string, string) dict \<Rightarrow> rat \<Rightarrow> string \<Rightarrow> string \<Rightarrow> env_secrets \<Rightarrow> string \<times> env_secrets" where
  "es_lookup env now key dflt es =
     (let val = dgetd env (es_variable (es_provider es) key) dflt
      in (val, if val \<noteq> [] then es\<lparr>es_cache := dset (es_cache es) key (val, now)\<rparr> else es))"

definition es_get :: "(string, string) dict \<Rightarrow> rat \<Rightarrow> string \<Rightarrow> string \<Rightarrow> env_secrets \<Rightarrow> string \<times> env_secrets" where
  "es_get env now key dflt es = (case dget (es_cache es) key of
       Some (val, cached_at) \<Rightarrow> if now - cached_at < es_ttl es then (val, es) else es_lookup env now key dflt es
     | None \<Rightarrow> es_lookup env now key dflt es)"

definition es_set :: "rat \<Rightarrow> string \<Rightarrow> string \<Rightarrow> (string, string) dict \<times> env_secrets \<Rightarrow> (string, string) dict \<times> env_secrets" where
  "es_set now key value s = (dset (fst s) key value, (snd s)\<lparr>es_cache := dset (es_cache (snd s)) key (value, now)\<rparr>)"

definition mask_secret :: "string \<Rightarrow> string" where
  "mask_secret s = (if length s < 6 then ''******'' else take 3 s @ ''...'' @ drop (length s - 3) s)"

text \<open>A default is remembered like a secret: asked with a default while the variable is unset, the manager gives that
  default to later callers too, with other defaults or after the variable has been set.\<close>

theorem default_cached_as_secret:
  assumes "dget (es_cache es) key = None" "dget env (es_variable (es_provider es) key) = None" "d \<noteq> []"
    and "now' - now < es_ttl es" "es_get env now key d es = (v, es')"
  shows "es_get env' now' key d' es' = (d, es')"
  using assms by (auto simp: es_get_def es_lookup_def dgetd_def dget_dset Let_def)

text \<open>What was set is read back; once the entry is stale only the plain environment provider still finds it.\<close>

theorem set_secret_read_back:
  assumes "es_set now key value (env, es) = (env', es')"
  shows "now' - now < es_ttl es \<Longrightarrow> fst (es_get env' now' key d es') = value"
    and "es_variable (es_provider es) key = key \<Longrightarrow> fst (es_get env' now' key d es') = value"
  using assms by (auto simp: es_set_def es_get_def es_lookup_def dgetd_def dget_dset Let_def)

text \<open>The mask shows six characters; of a secret of six characters that is all of it.\<close>

theorem mask_shows_short_secret: "length s = 6 \<Longrightarrow> mask_secret s = take 3 s @ ''...'' @ drop 3 s"
  by (simp add: mask_secret_def)

end
