(* ===== verification/GatewayConfig.thy ===== *)
theory GatewayConfig
  imports Parsers
begin

text \<open>
  Settings and transport security: the defaults, aliases and validators of \<open>config/__init__.py\<close>, and the TLS contexts
  of \<open>security/mtls.py\<close>. How pydantic gathers the values is not part of the repository: the model has the tables it is
  given and the functions it calls. Environment variables and file names are dictionaries and predicates.
\<close>

subsection \<open>Defaults and alternative names\<close>

definition empty_list :: json where
  "empty_list = JList []"

definition setting_defaults :: "(string, json) dict" where
  "setting_defaults =
     [(''webhook_shared_secret'', JStr []), (''webhook_allowed_source_ips'', empty_list), (''mailgun_signing_key'', JStr []),
      (''max_message_size_bytes'', JInt (25 * 1024 * 1024)), (''max_urls_analyzed_per_message'', JInt 25),
      (''max_attachments_analyzed_per_message'', JInt 10), (''max_attachment_size_bytes'', JInt (40 * 1024 * 1024)),
      (''external_call_timeout_seconds'', JNum 8), (''rate_limit_max_requests'', JInt 120),
      (''rate_limit_window_seconds'', JInt 60), (''external_call_max_attempts'', JInt 3),
      (''external_call_backoff_base_seconds'', JNum (1 / 4)), (''circuit_breaker_failure_threshold'', JInt 5),
      (''circuit_breaker_reset_timeout_seconds'', JNum 30), (''domain_age_cache_ttl_seconds'', JInt (6 * 3600)),
      (''reputation_cache_ttl_seconds'', JInt 1800), (''redis_url'', JStr ''redis://localhost:6379/0''),
      (''use_redis'', JBool False), (''dedupe_ttl_seconds'', JInt 86400), (''raw_mail_log_dir'', JStr ''/tmp/email-gateway-raw''),
      (''raw_mail_encryption_key'', JStr []), (''audit_log_path'', JStr ''/tmp/email-gateway-audit.jsonl''),
      (''admin_audit_log_path'', JStr ''/tmp/email-gateway-admin-audit.jsonl''), (''relay_host'', JStr []),
      (''relay_port'', JInt 25), (''relay_use_tls'', JBool False), (''relay_start_tls'', JBool True),
      (''relay_username'', JStr []), (''relay_password'', JStr []), (''enable_tag_only_mode'', JBool False),
      (''quarantine_dir'', JStr ''/tmp/email-gateway-quarantine''), (''quarantine_notify_webhook_url'', JStr []),
      (''admin_shared_secret'', JStr []), (''admin_rate_limit_max_requests'', JInt 60), (''warn_threshold'', JInt 30),
      (''quarantine_threshold'', JInt 70), (''watchlist_domains'', empty_list), (''vip_display_names'', empty_list),
      (''vt_api_key'', JStr []), (''gsb_api_key'', JStr []), (''clamd_host'', JStr []), (''clamd_port'', JInt 3310)]"

definition alias_choices :: "(string, string list) dict" where
  "alias_choices =
     [(''mailgun_signing_key'', [''mailgun_signing_key'', ''MAILGUN_SIGNING_KEY'']),
      (''raw_mail_encryption_key'', [''raw_mail_encryption_key'', ''RAW_MAIL_ENCRYPTION_KEY'', ''encryption_key'', ''ENCRYPTION_KEY'']),
      (''relay_host'', [''relay_host'', ''RELAY_HOST'', ''smtp_host'', ''SMTP_HOST'']),
      (''relay_port'', [''relay_port'', ''RELAY_PORT'', ''smtp_port'', ''SMTP_PORT'']),
      (''relay_use_tls'', [''relay_use_tls'', ''RELAY_USE_TLS'', ''smtp_use_tls'', ''SMTP_USE_TLS'']),
      (''relay_username'', [''relay_username'', ''RELAY_USERNAME'', ''smtp_user'', ''SMTP_USER'']),
      (''relay_password'', [''relay_password'', ''RELAY_PASSWORD'', ''smtp_pass'', ''SMTP_PASS'']),
      (''vt_api_key'', [''vt_api_key'', ''VT_API_KEY'', ''virustotal_api_key'', ''VIRUSTOTAL_API_KEY'']),
      (''gsb_api_key'', [''gsb_api_key'', ''GSB_API_KEY'', ''safe_browsing_api_key'', ''SAFE_BROWSING_API_KEY'']),
      (''clamd_host'', [''clamd_host'', ''CLAMD_HOST'', ''clamav_host'', ''CLAMAV_HOST'']),
      (''clamd_port'', [''clamd_port'', ''CLAMD_PORT'', ''clamav_port'', ''CLAMAV_PORT''])]"

subsection \<open>The validator of the whole\<close>

definition alias_pairs :: "(string \<times> string list) list" where
  "alias_pairs =
     [(''vt_api_key'', [''virustotal_api_key'', ''VIRUSTOTAL_API_KEY'', ''VT_API_KEY'']),
      (''gsb_api_key'', [''safe_browsing_api_key'', ''SAFE_BROWSING_API_KEY'', ''GSB_API_KEY'']),
      (''clamd_host'', [''clamav_host'', ''CLAMAV_HOST'', ''CLAMD_HOST'']),
      (''raw_mail_encryption_key'', [''encryption_key'', ''ENCRYPTION_KEY'', ''RAW_MAIL_ENCRYPTION_KEY'']),
      (''relay_host'', [''smtp_host'', ''SMTP_HOST'', ''RELAY_HOST'']),
      (''relay_port'', [''smtp_port'', ''SMTP_PORT'', ''RELAY_PORT'']),
      (''relay_username'', [''smtp_user'', ''SMTP_USER'', ''RELAY_USERNAME'']),
      (''relay_password'', [''smtp_pass'', ''SMTP_PASS'', ''RELAY_PASSWORD''])]"

definition env_value :: "(string, string) dict \<Rightarrow> string \<Rightarrow> json" where
  "env_value env a = (case dget env a of None \<Rightarrow> JNull | Some v \<Rightarrow> JStr v)"

definition alias_value :: "(string, string) dict \<Rightarrow> (string, json) dict \<Rightarrow> string \<Rightarrow> json" where
  "alias_value env data a =
     or_else (dgetd data a JNull) (or_else (env_value env a) (or_else (env_value env (upper a)) (env_value env (lower a))))"

definition first_alias :: "(string, string) dict \<Rightarrow> (string, json) dict \<Rightarrow> string list \<Rightarrow> json option" where
  "first_alias env data as = List.find truthy (map (alias_value env data) as)"

definition resolve_target :: "(string, string) dict \<Rightarrow> string \<times> string list \<Rightarrow> (string, json) dict \<Rightarrow> (string, json) dict" where
  "resolve_target env ta data =
     (if truthy (dgetd data (fst ta) JNull) then data
      else case first_alias env data (snd ta) of Some v \<Rightarrow> dset data (fst ta) v | None \<Rightarrow> data)"

definition resolve_aliases_if_empty :: "(string, string) dict \<Rightarrow> json \<Rightarrow> json" where
  "resolve_aliases_if_empty env j = (case j of
       JDict data \<Rightarrow> JDict (fold (resolve_target env) alias_pairs data)
     | _ \<Rightarrow> j)"

text \<open>What each setting becomes, read off the settings as they came: it keeps a true value; otherwise it gets the first
  true value its aliases have in the settings or the environment.\<close>

definition resolved :: "(string, string) dict \<Rightarrow> (string, json) dict \<Rightarrow> string \<Rightarrow> json option" where
  "resolved env data k = (case map_of alias_pairs k of
       Some as \<Rightarrow> if truthy (dgetd data k JNull) then dget data k
         else (case first_alias env data as of Some v \<Rightarrow> Some v | None \<Rightarrow> dget data k)
     | None \<Rightarrow> dget data k)"

lemma resolve_target_other: "k \<noteq> fst ta \<Longrightarrow> dget (resolve_target env ta data) k = dget data k"
  by (simp add: resolve_target_def split: option.split)

lemma resolve_target_own:
  "dget (resolve_target env ta data) (fst ta) =
     (if truthy (dgetd data (fst ta) JNull) then dget data (fst ta)
      else case first_alias env data (snd ta) of Some v \<Rightarrow> Some v | None \<Rightarrow> dget data (fst ta))"
  by (simp add: resolve_target_def split: option.split)

lemma first_alias_cong:
  "(\<And>a. a \<in> set as \<Longrightarrow> dget d a = dget d' a) \<Longrightarrow> first_alias env d as = first_alias env d' as"
proof -
  assume "\<And>a. a \<in> set as \<Longrightarrow> dget d a = dget d' a"
  then have "map (alias_value env d) as = map (alias_value env d') as"
    by (simp add: alias_value_def dgetd_def)
  then show ?thesis by (simp only: first_alias_def)
qed

text \<open>Targets differ and none is an alias, so the order of the pairs does not matter.\<close>

lemma fold_targets:
  assumes "distinct (map fst ps)" "\<And>ta a. ta \<in> set ps \<Longrightarrow> a \<in> set (snd ta) \<Longrightarrow> a \<notin> fst ` set ps"
  shows "dget (fold (resolve_target env) ps data) k = (case map_of ps k of
       Some as \<Rightarrow> if truthy (dgetd data k JNull) then dget data k
         else (case first_alias env data as of Some v \<Rightarrow> Some v | None \<Rightarrow> dget data k)
     | None \<Rightarrow> dget data k)"
  using assms
proof (induction ps arbitrary: data)
  case (Cons p ps)
  let ?d = "resolve_target env p data"
  have IH: "dget (fold (resolve_target env) ps ?d) k = (case map_of ps k of
       Some as \<Rightarrow> if truthy (dgetd ?d k JNull) then dget ?d k
         else (case first_alias env ?d as of Some v \<Rightarrow> Some v | None \<Rightarrow> dget ?d k)
     | None \<Rightarrow> dget ?d k)"
    by (rule Cons.IH) (use Cons.prems in auto)
  show ?case
  proof (cases "fst p = k")
    case True
    then have "map_of ps k = None" using Cons.prems(1) by (auto simp: map_of_eq_None_iff)
    then show ?thesis using True IH resolve_target_own [of env p data] by (cases p) (auto split: option.split)
  next
    case False
    have d: "dget ?d k = dget data k" using False by (simp add: resolve_target_other)
    then have dd: "dgetd ?d k JNull = dgetd data k JNull" by (simp add: dgetd_def)
    have "first_alias env ?d as = first_alias env data as" if "map_of ps k = Some as" for as
    proof (rule first_alias_cong)
      fix a assume "a \<in> set as"
      moreover have "(k, as) \<in> set (p # ps)" using that by (simp add: map_of_SomeD)
      ultimately have "a \<noteq> fst p" using Cons.prems(2) [of "(k, as)" a] by auto
      then show "dget ?d a = dget data a" by (simp add: resolve_target_other)
    qed
    moreover have "map_of (p # ps) k = map_of ps k" using False by (cases p) simp
    ultimately show ?thesis using IH by (auto simp only: d dd fold_Cons comp_apply split: option.splits)
  qed
qed simp

lemma alias_pairs_targets: "distinct (map fst alias_pairs)"
  by code_simp

lemma alias_pairs_disjoint: "list_all (\<lambda>ta. list_all (\<lambda>a. a \<notin> set (map fst alias_pairs)) (snd ta)) alias_pairs"
  by code_simp

text \<open>The validator does exactly that for every setting, and nothing to the others.\<close>

theorem aliases_resolved:
  "resolve_aliases_if_empty env (JDict data) = JDict d \<Longrightarrow> dget d k = resolved env data k"
proof -
  assume "resolve_aliases_if_empty env (JDict data) = JDict d"
  then have "d = fold (resolve_target env) alias_pairs data" by (simp add: resolve_aliases_if_empty_def)
  moreover have "a \<notin> fst ` set alias_pairs" if "ta \<in> set alias_pairs" "a \<in> set (snd ta)" for ta a
    using alias_pairs_disjoint that by (auto simp: list_all_iff)
  ultimately show ?thesis by (simp add: resolved_def fold_targets [OF alias_pairs_targets])
qed

text \<open>A second validation changes nothing.\<close>

lemma resolved_again:
  assumes "\<And>k. dget d k = resolved env data k"
  shows "resolved env d k = dget d k"
proof (cases "map_of alias_pairs k")
  case (Some as)
  then have ka: "(k, as) \<in> set alias_pairs" by (rule map_of_SomeD)
  have "dget d a = dget data a" if "a \<in> set as" for a
  proof -
    have "a \<notin> fst ` set alias_pairs" using alias_pairs_disjoint ka that by (auto simp: list_all_iff)
    then have "map_of alias_pairs a = None" by (simp add: map_of_eq_None_iff)
    then show ?thesis using assms [of a] by (simp add: resolved_def)
  qed
  then have same: "first_alias env d as = first_alias env data as" by (rule first_alias_cong)
  show ?thesis
  proof (cases "truthy (dgetd d k JNull)")
    case True
    then show ?thesis using Some by (simp add: resolved_def)
  next
    case False
    have "first_alias env data as = None"
      using False assms [of k] Some
      by (auto simp: resolved_def first_alias_def dgetd_def find_Some_iff split: option.splits if_splits)
    then show ?thesis using Some same False by (simp add: resolved_def)
  qed
qed (simp add: resolved_def)

theorem resolving_is_idempotent:
  "resolve_aliases_if_empty env (JDict data) = JDict d \<Longrightarrow> resolve_aliases_if_empty env (JDict d) = JDict d' \<Longrightarrow>
     dget d' k = dget d k"
  using aliases_resolved resolved_again by metis

subsection \<open>Lists from text, and the secret that must be set\<close>

definition split_csv :: "json \<Rightarrow> json" where
  "split_csv v = (case v of
       JStr s \<Rightarrow> JList (map (\<lambda>item. JStr (strip item)) (filter (\<lambda>item. strip item \<noteq> []) (split_char (CHR '','') s)))
     | _ \<Rightarrow> v)"

definition require_webhook_secret :: "string \<Rightarrow> string result" where
  "require_webhook_secret secret =
     (if secret = [] then Inl (RuntimeError ''WEBHOOK_SHARED_SECRET is not set. Refusing to start with an unauthenticated inbound webhook'')
      else Inr secret)"

lemma strip_both:
  assumes "list_all is_space p" "list_all is_space q" "trimmed s"
  shows "strip (p @ s @ q) = s"
proof -
  have "strip (p @ s @ q) = rev (dropWhile is_space (rev (dropWhile is_space (s @ q))))"
    using assms(1) by (simp add: strip_def lstrip_by_def rstrip_by_def dropWhile_append list_all_iff)
  also have "\<dots> = s"
  proof (cases "s = []")
    case True
    then show ?thesis using assms(2) by (auto simp: list_all_iff dest: set_dropWhileD)
  next
    case False
    then have "dropWhile is_space (s @ q) = s @ q" using assms(3) by (cases s) (auto simp: trimmed_def)
    moreover have "dropWhile is_space (rev q @ rev s) = dropWhile is_space (rev s)"
      using assms(2) by (simp add: dropWhile_append list_all_iff)
    moreover have "dropWhile is_space (rev s) = rev s"
      using False assms(3) by (cases s rule: rev_cases) (auto simp: trimmed_def)
    ultimately show ?thesis by simp
  qed
  finally show ?thesis .
qed

text \<open>A list written with commas is read back, whatever blanks surround the items.\<close>

theorem csv_read_back:
  assumes "xs \<noteq> []" "\<And>p x q. (p, x, q) \<in> set xs \<Longrightarrow>
     x \<noteq> [] \<and> trimmed x \<and> list_all is_space p \<and> list_all is_space q \<and> CHR '','' \<notin> set (p @ x @ q)"
  shows "split_csv (JStr (join '','' (map (\<lambda>(p, x, q). p @ x @ q) xs))) = JList (map (\<lambda>(p, x, q). JStr x) xs)"
proof -
  let ?items = "map (\<lambda>(p, x, q). p @ x @ q) xs"
  have each: "strip (p @ x @ q) = x" "x \<noteq> []" "CHR '','' \<notin> set (p @ x @ q)" if "(p, x, q) \<in> set xs" for p x q
    using assms(2) [OF that] by (auto intro: strip_both)
  have "split_char (CHR '','') (join [CHR '',''] ?items) = ?items"
    by (rule split_char_join) (use assms(1) each(3) in auto)
  moreover have "filter (\<lambda>item. strip item \<noteq> []) ?items = ?items"
    using each(1,2) by (auto simp: filter_id_conv)
  moreover have "map (\<lambda>item. JStr (strip item)) ?items = map (\<lambda>(p, x, q). JStr x) xs"
    using each(1) by auto
  ultimately show ?thesis by (simp add: split_csv_def)
qed

definition example_csv :: "(string \<times> string \<times> string) list" where
  "example_csv = [([], ''10.0.0.1'', ''  ''), ('' '', ''10.0.0.2'', [])]"

theorem csv_read_back_witness:
  "split_csv (JStr (join '','' (map (\<lambda>(p, x, q). p @ x @ q) example_csv))) = JList (map (\<lambda>(p, x, q). JStr x) example_csv)"
  by (rule csv_read_back) (auto simp: example_csv_def trimmed_def is_space_def)

text \<open>The items of a list that was split never hold a comma, are never empty and never padded; a value that is not a
  text passes as it is, so splitting twice is splitting once.\<close>

theorem csv_idempotent: "split_csv (split_csv v) = split_csv v"
  by (simp add: split_csv_def split: json.splits)

subsection \<open>mtls.py\<close>

datatype verify_mode = CERT_OPTIONAL | CERT_REQUIRED

record tls_context =
  tc_server :: bool
  tc_cert :: string
  tc_key :: string
  tc_ca :: string
  tc_verify :: verify_mode
  tc_check_hostname :: bool
  tc_disabled :: "string list"

text \<open>Files and the \<open>ssl\<close> module: which paths exist, and what loading a certificate chain or an authority raises.\<close>

record tls_files =
  tf_exists :: "string \<Rightarrow> bool"
  tf_load_chain :: "string \<Rightarrow> string \<Rightarrow> py_exn option"
  tf_load_ca :: "string \<Rightarrow> py_exn option"

datatype tls_exn = MTLSError string | TLSLibrary py_exn

definition old_protocols :: "string list" where
  "old_protocols = [''SSLv2'', ''SSLv3'', ''TLSv1'', ''TLSv1.1'']"

definition load_material :: "tls_files \<Rightarrow> string \<Rightarrow> string \<Rightarrow> string \<Rightarrow> string \<Rightarrow> tls_exn option" where
  "load_material tf what cert key ca =
     (if \<not> tf_exists tf cert \<or> \<not> tf_exists tf key then Some (MTLSError (what @ '' not found: '' @ cert @ '', '' @ key))
      else if \<not> tf_exists tf ca then Some (MTLSError (''CA certificate file not found: '' @ ca))
      else case tf_load_chain tf cert key of
        Some e \<Rightarrow> Some (TLSLibrary e)
      | None \<Rightarrow> map_option TLSLibrary (tf_load_ca tf ca))"

definition build_server_context :: "tls_files \<Rightarrow> string \<Rightarrow> string \<Rightarrow> string \<Rightarrow> bool \<Rightarrow> tls_exn + tls_context" where
  "build_server_context tf cert key ca require_client_cert =
     (case load_material tf ''Certificate or key file'' cert key ca of
        Some e \<Rightarrow> Inl e
      | None \<Rightarrow> Inr \<lparr>tc_server = True, tc_cert = cert, tc_key = key, tc_ca = ca,
          tc_verify = (if require_client_cert then CERT_REQUIRED else CERT_OPTIONAL), tc_check_hostname = False,
          tc_disabled = old_protocols\<rparr>)"

definition build_client_context :: "tls_files \<Rightarrow> string \<Rightarrow> string \<Rightarrow> string \<Rightarrow> bool \<Rightarrow> tls_exn + tls_context" where
  "build_client_context tf cert key ca check_hostname =
     (case load_material tf ''Client certificate or key file'' cert key ca of
        Some e \<Rightarrow> Inl e
      | None \<Rightarrow> Inr \<lparr>tc_server = False, tc_cert = cert, tc_key = key, tc_ca = ca, tc_verify = CERT_REQUIRED,
          tc_check_hostname = check_hostname, tc_disabled = old_protocols\<rparr>)"

text \<open>A client always verifies the server; a server built with the default verifies the client. Missing files are
  reported before the library sees them.\<close>

theorem tls_contexts_verify:
  "build_client_context tf cert key ca ch = Inr c \<Longrightarrow> tc_verify c = CERT_REQUIRED \<and> tf_exists tf ca \<and> tc_disabled c = old_protocols"
  "build_server_context tf cert key ca True = Inr s \<Longrightarrow> tc_verify s = CERT_REQUIRED \<and> tf_exists tf ca \<and> tc_disabled s = old_protocols"
  by (auto simp: build_client_context_def build_server_context_def load_material_def split: option.splits if_splits)

end
