(* ===== verification/DashboardUI.thy ===== *)
theory DashboardUI
  imports AdminAPI TimeOfClick Observability
begin

text \<open>
  The browser side of the administration: the preview sanitizer (\<open>admin_ui/sanitizer.py\<close>), the figures of the dashboard
  (\<open>admin_ui/dashboard_analytics.py\<close>), and the routes of \<open>webhook_receiver/app.py\<close> that serve them with the health,
  metrics and click routes. The rendered dashboard page itself is not modelled. Time zones are a parameter: which names
  are known, and how an instant is written in one.
\<close>

subsection \<open>sanitizer.py\<close>

text \<open>\<open>\1\<close> repeats the tag name its own alternative has matched, so each alternative carries its end tag.\<close>

definition dangerous_tags :: "string list" where
  "dangerous_tags = [''script'', ''iframe'', ''object'', ''embed'', ''applet'', ''form'', ''meta'', ''link'', ''base'']"

definition tag_rest :: re where
  "tag_rest = Seq (LazyStar (one_not_of ''>'')) (lit ''>'')"

definition dangerous_tags_re :: re where
  "dangerous_tags_re = seqs [lit ''<'', Star space,
     alts (map (\<lambda>t. seqs [lit_ci t, tag_rest, LazyStar any_char, lit ''</'', Star space, lit_ci t, Star space, lit ''>'']) dangerous_tags)]"

definition single_dangerous_tags_re :: re where
  "single_dangerous_tags_re = seqs [lit ''<'', Star space, alts (map lit_ci dangerous_tags), tag_rest]"

definition ascii_letter_ci :: re where
  "ascii_letter_ci = Sat is_ascii_letter"

definition event_handler_re :: re where
  "event_handler_re = seqs [plus space, lit_ci ''on'', plus ascii_letter_ci, Star space, lit ''='', Star space,
     alts [seqs [one_of [CHR 0x27], Star (one_not_of [CHR 0x27]), one_of [CHR 0x27]],
           seqs [one_of [CHR 0x22], Star (one_not_of [CHR 0x22]), one_of [CHR 0x22]],
           plus (Sat (\<lambda>c. \<not> is_space c \<and> c \<noteq> CHR ''>''))]]"

definition dangerous_schemes_re :: re where
  "dangerous_schemes_re = seqs [Cap 1 (alts (map lit_ci [''href'', ''src'', ''action''])), Star space, lit ''='', Star space,
     Opt (one_of quotes), Star space, alts (map lit_ci [''javascript:'', ''data:text/html'', ''vbscript:'']),
     Star (one_not_of (quotes @ ''>'')), Opt (one_of quotes)]"

definition strip_markup :: "string \<Rightarrow> string" where
  "strip_markup html_content =
     (let s1 = rsub dangerous_tags_re [] html_content;
          s2 = rsub single_dangerous_tags_re [] s1;
          s3 = rsub event_handler_re [] s2
      in sub_with dangerous_schemes_re (\<lambda>s m. group_text s m 1 @ ''='' @ [CHR 0x22, CHR ''#'', CHR 0x22]) s3 0)"

definition div_open :: string where
  "div_open = ''<div class='' @ CHR 0x22 # ''sanitized-email-body'' @ CHR 0x22 # ''>''"

definition empty_preview :: "string \<Rightarrow> string" where
  "empty_preview what = ''<div class='' @ CHR 0x27 # ''email-preview-empty'' @ CHR 0x27 # ''><em>[No '' @ what @ '' Content]</em></div>''"

definition sanitize_html :: "string \<Rightarrow> string" where
  "sanitize_html html_content =
     (if html_content = [] then empty_preview ''HTML'' else div_open @ strip_markup html_content @ ''</div>'')"

text \<open>\<open>html.escape\<close>\<close>

definition escape_char :: "char \<Rightarrow> string" where
  "escape_char c = (if c = CHR ''&'' then ''&amp;'' else if c = CHR ''<'' then ''&lt;'' else if c = CHR ''>'' then ''&gt;''
     else if c = CHR 0x22 then ''&quot;'' else if c = CHR 0x27 then ''&#x27;'' else [c])"

definition html_escape :: "string \<Rightarrow> string" where
  "html_escape s = concat (map escape_char s)"

definition pre_open :: string where
  "pre_open = ''<pre class='' @ CHR 0x22 # ''sanitized-text-body'' @ CHR 0x22 # '' style='' @
     CHR 0x22 # ''white-space: pre-wrap; font-family: monospace;'' @ CHR 0x22 # ''>''"

definition render_plain_text :: "string \<Rightarrow> string" where
  "render_plain_text text_content =
     (if text_content = [] then empty_preview ''Text'' else pre_open @ html_escape text_content @ ''</pre>'')"

subsection \<open>dashboard\_analytics.py\<close>

text \<open>\<open>Counter\<close>: a dictionary in the order of first occurrence; \<open>most_common\<close> sorts stably.\<close>

definition count_up :: "(string, int) dict \<Rightarrow> string \<Rightarrow> (string, int) dict" where
  "count_up c k = dset c k (dgetd c k 0 + 1)"

definition counter :: "string list \<Rightarrow> (string, int) dict" where
  "counter xs = foldl count_up [] xs"

definition most_common :: "nat \<Rightarrow> (string, int) dict \<Rightarrow> (string, int) dict" where
  "most_common n c = take n (sort_key (\<lambda>p. - snd p) c)"

definition counter_json :: "(string, int) dict \<Rightarrow> json" where
  "counter_json c = JDict (map (\<lambda>(k, n). (k, JInt n)) c)"

definition sender_domain :: "string \<Rightarrow> string" where
  "sender_domain a = lower (after_last (CHR ''@'') a)"

definition status_count :: "string \<Rightarrow> quarantine_record list \<Rightarrow> nat" where
  "status_count s rs = length (filter (\<lambda>r. q_status r = s) rs)"

definition false_positive_rate :: "nat \<Rightarrow> nat \<Rightarrow> rat" where
  "false_positive_rate rel rej = (if rel + rej > 0 then of_nat rel / of_nat (rel + rej) * 100 else 0)"

definition summary_of :: "rat \<Rightarrow> quarantine_record list \<Rightarrow> (string, json) dict" where
  "summary_of now rs =
     (let rel = status_count ''released'' rs; rej = status_count ''rejected'' rs;
          froms = filter (\<lambda>a. a \<noteq> []) (map quarantine_record.envelope_from rs)
      in [(''timestamp'', JNum now),
          (''summary'', JDict
            [(''total_quarantined'', JInt (int (length rs))), (''pending_count'', JInt (int (length rs - rel - rej))),
             (''released_count'', JInt (int rel)), (''rejected_count'', JInt (int rej)),
             (''false_positive_rate_pct'', JNum (round_to 2 (false_positive_rate rel rej)))]),
          (''action_breakdown'', counter_json (counter (map q_action rs))),
          (''top_blocked_senders'', counter_json (most_common 5 (counter froms))),
          (''top_blocked_domains'',
            counter_json (most_common 5 (counter (map sender_domain (filter (\<lambda>a. CHR ''@'' \<in> set a) froms)))))])"

definition get_summary_metrics :: "rat \<Rightarrow> quarantine_store \<Rightarrow> (string, json) dict" where
  "get_summary_metrics now st = summary_of now (list_pending st)"

text \<open>A score, and what \<open>score < min_score\<close> makes of it: \<^term>\<open>None\<close> where Python cannot compare.\<close>

definition json_number :: "json \<Rightarrow> rat option" where
  "json_number j = (case j of JInt i \<Rightarrow> Some (of_int i) | JNum q \<Rightarrow> Some q | JBool b \<Rightarrow> Some (if b then 1 else 0) | _ \<Rightarrow> None)"

definition record_score :: "(string, json) dict \<Rightarrow> json" where
  "record_score rec = or_else (dgetd rec ''total_score'' JNull) (or_else (dgetd rec ''score'' JNull) (JInt 0))"

definition score_value :: "(string, json) dict \<Rightarrow> rat result" where
  "score_value rec = (case json_number (record_score rec) of
       Some q \<Rightarrow> Inr q | None \<Rightarrow> Inl (TypeError ''not supported between these types''))"

definition audit_match :: "(rat \<Rightarrow> string) \<Rightarrow> string \<Rightarrow> string \<Rightarrow> int option \<Rightarrow> (string, json) dict \<Rightarrow> bool result" where
  "audit_match fr q event_type min_score rec =
     (if event_type \<noteq> [] \<and> dgetd rec ''event_type'' JNull \<noteq> JStr event_type then Inr False
      else bind (case min_score of None \<Rightarrow> Inr True | Some m \<Rightarrow> bind (score_value rec) (\<lambda>x. Inr (\<not> x < of_int m)))
        (\<lambda>enough. Inr (enough \<and> (q = [] \<or> contains q (lower (py_repr fr (JDict rec)))))))"

fun keep_matching :: "('a \<Rightarrow> bool result) \<Rightarrow> 'a list \<Rightarrow> 'a list result" where
  "keep_matching f [] = Inr []"
| "keep_matching f (x # xs) = bind (f x) (\<lambda>b. bind (keep_matching f xs) (\<lambda>ys. Inr (if b then x # ys else ys)))"

definition search_audit_records ::
    "(rat \<Rightarrow> string) \<Rightarrow> (string, json) dict list \<Rightarrow> string \<Rightarrow> string \<Rightarrow> int option \<Rightarrow> (string, json) dict list result" where
  "search_audit_records fr records query event_type min_score =
     keep_matching (audit_match fr (strip (lower query)) event_type min_score) records"

definition get_realtime_threat_stream :: "(rat \<Rightarrow> string) \<Rightarrow> (string, json) dict list \<Rightarrow> int \<Rightarrow> (string, json) dict list result" where
  "get_realtime_threat_stream fr records min_score = search_audit_records fr records [] [] (Some min_score)"

record zones =
  zn_known :: "string \<Rightarrow> bool"
  zn_write :: "string \<Rightarrow> string \<Rightarrow> rat \<Rightarrow> string result"

definition zone_of :: "zones \<Rightarrow> string \<Rightarrow> string" where
  "zone_of zs name = (if zn_known zs name then name else ''UTC'')"

text \<open>An instant: a number, a \<open>datetime\<close> (one without a zone is taken as UTC), or something else with its text.\<close>

datatype instant = Epoch rat | Moment rat | Unknown string

definition format_timestamp_tz :: "zones \<Rightarrow> instant \<Rightarrow> string \<Rightarrow> string \<Rightarrow> string result" where
  "format_timestamp_tz zs ts tz_name fmt = (case ts of
       Epoch t \<Rightarrow> zn_write zs (zone_of zs tz_name) fmt t
     | Moment t \<Rightarrow> zn_write zs (zone_of zs tz_name) fmt t
     | Unknown s \<Rightarrow> Inr s)"

record trend =
  tr_daily :: "(string, int) dict"
  tr_hourly :: "(string, int) dict"
  tr_severity :: "(string, (string, int) dict) dict"

definition no_trend :: trend where
  "no_trend = \<lparr>tr_daily = [], tr_hourly = [], tr_severity = []\<rparr>"

text \<open>\<open>now\<close> stands for every reading of the clock during the call.\<close>

definition record_time :: "rat \<Rightarrow> (string, json) dict \<Rightarrow> rat" where
  "record_time now rec =
     (case json_number (or_else (dgetd rec ''timestamp'' JNull) (or_else (dgetd rec ''created_at'' JNull) (JNum now))) of
        Some t \<Rightarrow> t | None \<Rightarrow> now)"

definition severity_band :: "rat \<Rightarrow> string" where
  "severity_band score = (if score \<ge> 70 then ''high'' else if score \<ge> 30 then ''medium'' else ''low'')"

definition trend_add :: "zones \<Rightarrow> string \<Rightarrow> rat \<Rightarrow> (string, json) dict \<Rightarrow> trend \<Rightarrow> trend result" where
  "trend_add zs tz now rec tr =
     (let t = record_time now rec in
      bind (zn_write zs tz ''%Y-%m-%d %H:00'' t) (\<lambda>hour.
      bind (zn_write zs tz ''%Y-%m-%d'' t) (\<lambda>day.
      bind (score_value rec) (\<lambda>score.
        Inr \<lparr>tr_daily = count_up (tr_daily tr) day, tr_hourly = count_up (tr_hourly tr) hour,
             tr_severity = dset (tr_severity tr) hour (count_up (dgetd (tr_severity tr) hour []) (severity_band score))\<rparr>))))"

fun trend_of :: "zones \<Rightarrow> string \<Rightarrow> rat \<Rightarrow> (string, json) dict list \<Rightarrow> trend \<Rightarrow> trend result" where
  "trend_of zs tz now [] tr = Inr tr"
| "trend_of zs tz now (rec # recs) tr = bind (trend_add zs tz now rec tr) (trend_of zs tz now recs)"

definition aggregate_metrics_by_timezone :: "zones \<Rightarrow> rat \<Rightarrow> (string, json) dict list \<Rightarrow> string \<Rightarrow> (string, json) dict result" where
  "aggregate_metrics_by_timezone zs now records tz_name =
     (let tz = zone_of zs tz_name in
      bind (trend_of zs tz now records no_trend) (\<lambda>tr.
      bind (zn_write zs tz ''%Y-%m-%d %H:%M:%S %Z'' now) (\<lambda>made.
        Inr [(''timezone'', JStr tz_name), (''generated_at'', JStr made),
             (''daily_volume'', counter_json (tr_daily tr)), (''hourly_volume'', counter_json (tr_hourly tr)),
             (''severity_by_hour'', JDict (map (\<lambda>(h, c). (h, counter_json c)) (tr_severity tr)))])))"

subsection \<open>The routes\<close>

definition get_ui_analytics :: "admin_conf \<Rightarrow> call \<Rightarrow> 'w handler" where
  "get_ui_analytics cf c = guarded cf c None None (\<lambda>st. (ok (get_summary_metrics (cl_now c) (q_of st)), st))"

text \<open>\<open>decode\<close> is \<open>bytes.decode("utf-8", errors="replace")\<close>.\<close>

definition preview_body :: "(string \<Rightarrow> string) \<Rightarrow> string option \<Rightarrow> (string, json) dict" where
  "preview_body decode raw = (case raw of
       None \<Rightarrow> [(''html'', JStr ''<em>[Raw message missing]</em>''), (''text'', JStr [])]
     | Some m \<Rightarrow>
         if m = [] then [(''html'', JStr ''<em>[Raw message missing]</em>''), (''text'', JStr [])]
         else (let t = decode m in
           if contains ''<html'' (lower t) \<or> contains ''<body'' (lower t) \<or> contains ''<div>'' (lower t)
           then [(''html'', JStr (sanitize_html t)), (''text'', JStr [])]
           else [(''html'', JStr (render_plain_text t)), (''text'', JStr t)]))"

definition get_ui_preview :: "admin_conf \<Rightarrow> (string \<Rightarrow> string) \<Rightarrow> call \<Rightarrow> string \<Rightarrow> 'w handler" where
  "get_ui_preview cf decode c qid = guarded cf c None None (\<lambda>st. (case get_record (q_of st) qid of
       Inl e \<Rightarrow> Inl (ServerError e)
     | Inr None \<Rightarrow> Inl (HttpError 404 ''Quarantine record not found'')
     | Inr (Some _) \<Rightarrow> (case get_raw_message (ac_fernet cf) (q_of st) qid of
         Inl e \<Rightarrow> Inl (ServerError e)
       | Inr raw \<Rightarrow> ok (preview_body decode raw)), st))"

definition get_msp_dashboard ::
    "admin_conf \<Rightarrow> (string \<Rightarrow> bool) \<Rightarrow> (string, int) dict \<Rightarrow> call \<Rightarrow> isolation \<times> 'w admin \<Rightarrow> (http_error + json) \<times> isolation \<times> 'w admin" where
  "get_msp_dashboard cf valid counts c s = (case verify_admin cf c None None (snd s) of
     (Inl e, st) \<Rightarrow> (Inl e, fst s, st)
   | (Inr _, st) \<Rightarrow> (case generate_dashboard_summary valid (ad_tenants st) counts (cl_now c) (fst s) of
       (Inl e, held) \<Rightarrow> (Inl (ServerError e), held, st)
     | (Inr j, held) \<Rightarrow> (Inr j, held, st)))"

definition get_slo_metrics :: "admin_conf \<Rightarrow> slo_calculator \<Rightarrow> call \<Rightarrow> 'w handler" where
  "get_slo_metrics cf slo c = guarded cf c None None (\<lambda>st. (ok (calculate_slo_metrics (cl_now c) 1 slo), st))"

definition get_prometheus_metrics :: "metrics \<Rightarrow> string" where
  "get_prometheus_metrics mx = generate_prometheus_text mx"

definition healthz :: json where
  "healthz = JDict [(''status'', JStr ''ok'')]"

text \<open>\<open>ping\<close> is \<^term>\<open>None\<close> when Redis is not used. The answer has a status of its own.\<close>

definition readyz_checks :: "bool option \<Rightarrow> bool \<Rightarrow> bool \<Rightarrow> (string \<times> bool) list" where
  "readyz_checks ping clamav relay = (''store'', True) # (case ping of None \<Rightarrow> [] | Some b \<Rightarrow> [(''redis'', b)]) @
     [(''clamav_configured'', clamav), (''relay_configured'', relay)]"

definition readyz :: "bool option \<Rightarrow> bool \<Rightarrow> bool \<Rightarrow> int \<times> json" where
  "readyz ping clamav relay =
     (let checks = readyz_checks ping clamav relay; healthy = list_all snd checks
      in (if healthy then 200 else 503, JDict [(''status'', JStr (if healthy then ''ready'' else ''not_ready'')),
            (''checks'', JDict (map (\<lambda>(k, b). (k, JBool b)) checks))]))"

text \<open>The warning page names the reason and the address as they are.\<close>

datatype click_reply = Redirect307 string | Blocked403 string string

definition time_of_click_redirect ::
    "crypto \<Rightarrow> string \<Rightarrow> (string \<Rightarrow> 's \<Rightarrow> click_answer result \<times> 's) option \<Rightarrow> string \<Rightarrow> string \<Rightarrow> 's \<Rightarrow> (http_error + click_reply) \<times> 's" where
  "time_of_click_redirect cr key provider url sig s = (case decode_and_verify cr key url sig of
     (False, _) \<Rightarrow> (Inl (HttpError 400 ''Invalid or tampered Time-of-Click redirect link''), s)
   | (True, target_url) \<Rightarrow> (case evaluate_click provider target_url s of
       ((is_safe, reason), s') \<Rightarrow> (Inr (if is_safe then Redirect307 target_url else Blocked403 reason target_url), s')))"

record startup_settings =
  su_webhook_secret :: string
  su_encryption_key :: string
  su_relay_host :: string
  su_admin_secret :: string
  su_tag_only :: bool

datatype startup_note = UnauthenticatedWebhook | UnencryptedMail | DryRun | UnauthenticatedAdmin | TagOnly | RedisCheck bool

definition startup_checks :: "startup_settings \<Rightarrow> bool option \<Rightarrow> startup_note list" where
  "startup_checks su ping =
     (if su_webhook_secret su = [] then [UnauthenticatedWebhook] else []) @
     (if su_encryption_key su = [] then [UnencryptedMail] else []) @
     (if su_relay_host su = [] then [DryRun] else []) @
     (if su_admin_secret su = [] then [UnauthenticatedAdmin] else []) @
     (if su_tag_only su then [TagOnly] else []) @ (case ping of None \<Rightarrow> [] | Some b \<Rightarrow> [RedisCheck b])"

subsection \<open>What the preview shows\<close>

text \<open>Text is shown as text: no character of the escaped message is markup, and the message can be read off it.\<close>

theorem plain_preview_inert: "c \<in> set (html_escape t) \<Longrightarrow> c \<noteq> CHR ''<'' \<and> c \<noteq> CHR ''>'' \<and> c \<noteq> CHR 0x22 \<and> c \<noteq> CHR 0x27"
  by (auto simp: html_escape_def escape_char_def split: if_splits)

lemma escape_char_prefix_free: "escape_char c @ x = escape_char d @ y \<Longrightarrow> c = d \<and> x = y"
  by (auto simp: escape_char_def split: if_splits)

theorem html_escape_injective: "html_escape s = html_escape t \<Longrightarrow> s = t"
proof (induction s arbitrary: t)
  case Nil
  then show ?case by (cases t) (auto simp: html_escape_def escape_char_def split: if_splits)
next
  case (Cons c s)
  then obtain d t' where t: "t = d # t'"
    by (cases t) (auto simp: html_escape_def escape_char_def split: if_splits)
  then have "escape_char c @ html_escape s = escape_char d @ html_escape t'"
    using Cons.prems by (simp add: html_escape_def)
  then show ?case using escape_char_prefix_free Cons.IH t by blast
qed

text \<open>The sanitizer leaves a body alone that has neither tags nor attributes.\<close>

lemma sub_with_needs:
  assumes "needs P r" "\<forall>c \<in> set s. \<not> P c"
  shows "sub_with r f s 0 = s"
proof -
  have "match_at r s i \<noteq> Some m" for i m
    using rmatch_needs [OF match_at_in assms(1), of s i m] assms(2) by blast
  then show ?thesis by (subst sub_with_same) auto
qed

lemma patterns_need:
  "needs (\<lambda>c. c \<in> set ''<='') dangerous_tags_re" "needs (\<lambda>c. c \<in> set ''<='') single_dangerous_tags_re"
  "needs (\<lambda>c. c \<in> set ''<='') event_handler_re" "needs (\<lambda>c. c \<in> set ''<='') dangerous_schemes_re"
  by (simp_all add: dangerous_tags_re_def single_dangerous_tags_re_def event_handler_re_def dangerous_schemes_re_def lit_def)

theorem sanitizer_keeps_plain_bodies:
  assumes "CHR ''<'' \<notin> set b" "CHR ''='' \<notin> set b"
  shows "strip_markup b = b"
proof -
  have none: "\<forall>c \<in> set b. \<not> c \<in> set ''<=''" using assms by auto
  note keep = rsub_needs [OF _ none] sub_with_needs [OF _ none]
  show ?thesis by (simp only: strip_markup_def Let_def keep patterns_need)
qed

text \<open>It removes each kind of tag once. A tag cut in two around another one is put together by the removal, so the page
  the administrator sees holds a frame of the sender's choice.\<close>

definition split_frame :: string where
  "split_frame = ''<div><ifra<iframe>me src=x>''"

definition whole_frame :: string where
  "whole_frame = ''<div><iframe src=x>''"

lemma frame_reassembled: "rsub single_dangerous_tags_re [] split_frame = whole_frame"
  by code_simp

theorem sanitizer_reassembles_frame: "strip_markup split_frame = whole_frame"
proof -
  have p1: "rsub dangerous_tags_re [] split_frame = split_frame"
    by (rule rsub_needs [where P = "\<lambda>c. c = CHR ''/''"])
      (simp_all add: dangerous_tags_re_def dangerous_tags_def lit_def split_frame_def)
  have p3: "rsub event_handler_re [] whole_frame = whole_frame"
    by (rule rsub_needs [where P = "\<lambda>c. lower_char c = CHR ''o''"])
      (simp_all add: event_handler_re_def lit_ci_def whole_frame_def lower_char_def)
  have p4: "sub_with dangerous_schemes_re f whole_frame 0 = whole_frame" for f
    by (rule sub_with_needs [where P = "\<lambda>c. lower_char c = CHR '':''"])
      (simp_all add: dangerous_schemes_re_def lit_ci_def whole_frame_def lower_char_def)
  show ?thesis unfolding strip_markup_def Let_def p1 frame_reassembled p3 p4 ..
qed

theorem preview_serves_frame:
  assumes "decode m = split_frame" "m \<noteq> []"
  shows "dget (preview_body decode (Some m)) ''html'' = Some (JStr (div_open @ whole_frame @ ''</div>''))"
proof -
  have c: "contains ''<div>'' (lower split_frame)" by code_simp
  have n: "split_frame \<noteq> []" by (simp add: split_frame_def)
  show ?thesis using assms c n by (simp add: preview_body_def Let_def sanitize_html_def sanitizer_reassembles_frame)
qed

text \<open>A script that stands by itself goes with its content.\<close>

theorem sanitizer_removes_script: "strip_markup ''a<script>x</script>'' = ''a''"
  by code_simp

subsection \<open>What the figures count\<close>

lemma counter_count: "dgetd (counter xs) k 0 = int (count_list xs k)"
proof -
  have "dgetd (foldl count_up c xs) k 0 = dgetd c k 0 + int (count_list xs k)" for c
    by (induction xs arbitrary: c) (auto simp: count_up_def)
  then show ?thesis by (simp add: counter_def)
qed

lemma count_up_ok: "dict_ok c \<Longrightarrow> dict_ok (count_up c k)"
  by (simp add: count_up_def)

lemma counter_ok: "dict_ok (counter xs)"
proof -
  have "dict_ok c \<Longrightarrow> dict_ok (foldl count_up c xs)" for c
    by (induction xs arbitrary: c) (auto simp: count_up_ok)
  then show ?thesis by (simp add: counter_def)
qed

text \<open>No sender that is left out of the five has written more often than one that is listed.\<close>

lemma sorted_prefix_dominates:
  assumes "sorted (map f xs)" "p \<in> set (take n xs)" "q \<in> set (drop n xs)"
  shows "f p \<le> f q"
proof -
  have "sorted (map f (take n xs @ drop n xs))" using assms(1) by simp
  then show ?thesis using assms(2,3) by (auto simp only: map_append sorted_append set_map)
qed

theorem most_common_dominates:
  assumes "(k, m) \<in> set (most_common n (counter xs))" "k' \<in> set xs" "k' \<notin> fst ` set (most_common n (counter xs))"
  shows "m = int (count_list xs k) \<and> count_list xs k' \<le> count_list xs k"
proof -
  let ?c = "counter xs" and ?s = "sort_key (\<lambda>p. - snd p) (counter xs)"
  have val: "v = int (count_list xs x)" if "(x, v) \<in> set ?c" for x v
    using that counter_count [of xs x] counter_ok by (simp add: dict_ok_mem dgetd_def)
  have m: "(k, m) \<in> set ?c" using assms(1) set_take_subset [of n ?s] by (auto simp: most_common_def)
  have "dgetd ?c k' 0 \<noteq> 0" using assms(2) counter_count [of xs k'] by (simp add: count_list_0_iff)
  then obtain v where v: "(k', v) \<in> set ?c"
    by (auto simp: dgetd_def split: option.splits dest: map_of_SomeD)
  then have "(k', v) \<in> set (take n ?s @ drop n ?s)" by simp
  moreover have "(k', v) \<notin> set (take n ?s)"
    using assms(3) by (metis fst_conv image_eqI most_common_def)
  ultimately have "(k', v) \<in> set (drop n ?s)" by (simp only: set_append Un_iff simp_thms)
  then have "- m \<le> - v"
    using sorted_prefix_dominates [of "\<lambda>p. - snd p" ?s "(k, m)" n "(k', v)"] assms(1)
    by (simp add: most_common_def)
  then show ?thesis using val [OF m] val [OF v] by simp
qed

text \<open>The summary reads the pending records only, so it never counts a release, and its false positive rate is zero.\<close>

theorem false_positive_rate_always_zero:
  "status_count ''released'' (list_pending st) = 0" "status_count ''rejected'' (list_pending st) = 0"
  "false_positive_rate (status_count ''released'' (list_pending st)) (status_count ''rejected'' (list_pending st)) = 0"
proof -
  have p: "q_status r = ''pending''" if "r \<in> set (list_pending st)" for r
    using that by (auto simp: list_pending_def List.map_filter_def split: option.splits if_splits)
  show "status_count ''released'' (list_pending st) = 0" "status_count ''rejected'' (list_pending st) = 0"
    using p by (auto simp: status_count_def filter_empty_conv)
  then show "false_positive_rate (status_count ''released'' (list_pending st)) (status_count ''rejected'' (list_pending st)) = 0"
    by (simp add: false_positive_rate_def)
qed

text \<open>The search returns the matching records, in order. Where one record before the end carries a score that is a text
  the whole search fails.\<close>

lemma keep_matching_filter:
  "(\<And>x. x \<in> set xs \<Longrightarrow> f x = Inr (P x)) \<Longrightarrow> keep_matching f xs = Inr (filter P xs)"
  by (induction xs) auto

lemma keep_matching_fails: "x \<in> set xs \<Longrightarrow> f x = Inl e \<Longrightarrow> \<exists>e'. keep_matching f xs = Inl e'"
proof (induction xs)
  case (Cons a xs)
  show ?case
  proof (cases "f a")
    case (Inr b)
    then have "x \<in> set xs" using Cons.prems by auto
    then show ?thesis using Cons.IH Cons.prems(2) Inr by auto
  qed simp
qed simp

definition audit_hit :: "(rat \<Rightarrow> string) \<Rightarrow> string \<Rightarrow> string \<Rightarrow> int option \<Rightarrow> (string, json) dict \<Rightarrow> bool" where
  "audit_hit fr q event_type min_score rec \<longleftrightarrow>
     (event_type \<noteq> [] \<longrightarrow> dgetd rec ''event_type'' JNull = JStr event_type) \<and>
     (\<forall>m x. min_score = Some m \<longrightarrow> json_number (record_score rec) = Some x \<longrightarrow> of_int m \<le> x) \<and>
     (q = [] \<or> contains q (lower (py_repr fr (JDict rec))))"

theorem audit_search_filters:
  assumes "min_score = None \<or> (\<forall>rec \<in> set recs. json_number (record_score rec) \<noteq> None)"
  shows "search_audit_records fr recs q event_type min_score = Inr (filter (audit_hit fr (strip (lower q)) event_type min_score) recs)"
  unfolding search_audit_records_def
proof (rule keep_matching_filter)
  fix rec assume "rec \<in> set recs"
  then show "audit_match fr (strip (lower q)) event_type min_score rec = Inr (audit_hit fr (strip (lower q)) event_type min_score rec)"
    using assms by (cases min_score) (auto simp: audit_match_def audit_hit_def score_value_def not_less)
qed

theorem audit_search_fails:
  assumes "rec \<in> set recs" "dgetd rec ''total_score'' JNull = JStr s" "s \<noteq> []"
  shows "\<exists>e. get_realtime_threat_stream fr recs m = Inl e"
proof -
  have "\<exists>e. audit_match fr q [] (Some m) rec = Inl e" for q
    using assms(2,3) by (simp add: audit_match_def score_value_def record_score_def or_else_def json_number_def)
  then show ?thesis using keep_matching_fails [OF assms(1)]
    unfolding get_realtime_threat_stream_def search_audit_records_def by blast
qed

text \<open>Every record is counted in one day, one hour, and under one severity of that hour.\<close>

definition trend_consistent :: "nat \<Rightarrow> trend \<Rightarrow> bool" where
  "trend_consistent n tr \<longleftrightarrow>
     (\<Sum>p\<leftarrow>tr_daily tr. snd p) = int n \<and> (\<Sum>p\<leftarrow>tr_hourly tr. snd p) = int n \<and>
     (\<forall>h. let c = dgetd (tr_severity tr) h [] in
        dgetd c ''high'' 0 + dgetd c ''medium'' 0 + dgetd c ''low'' 0 = dgetd (tr_hourly tr) h 0)"

lemma count_up_total: "(\<Sum>p\<leftarrow>count_up c k. snd p) = (\<Sum>p\<leftarrow>c. snd p) + 1"
proof -
  have "(\<Sum>p\<leftarrow>AList.update k v c. snd p) = (\<Sum>p\<leftarrow>c. snd p) + v - dgetd c k 0" for v
    by (induction c) (auto simp: dgetd_def)
  then show ?thesis by (simp add: count_up_def)
qed

lemma trend_add_consistent:
  assumes "trend_add zs tz now rec tr = Inr tr'" "trend_consistent n tr"
  shows "trend_consistent (Suc n) tr'"
proof -
  obtain hour day score where tr':
    "tr' = \<lparr>tr_daily = count_up (tr_daily tr) day, tr_hourly = count_up (tr_hourly tr) hour,
       tr_severity = dset (tr_severity tr) hour (count_up (dgetd (tr_severity tr) hour []) (severity_band score))\<rparr>"
    using assms(1) by (auto simp: trend_add_def Let_def bind_def split: sum.splits)
  have up: "dgetd (count_up c k) x 0 = dgetd c x 0 + (if x = k then 1 else 0)" for c k x
    by (simp add: count_up_def)
  have one: "dgetd (count_up c (severity_band score)) ''high'' 0 + dgetd (count_up c (severity_band score)) ''medium'' 0 +
      dgetd (count_up c (severity_band score)) ''low'' 0 = dgetd c ''high'' 0 + dgetd c ''medium'' 0 + dgetd c ''low'' 0 + 1" for c
    unfolding up by (simp add: severity_band_def)
  have hours: "(let c = dgetd (tr_severity tr') h [] in dgetd c ''high'' 0 + dgetd c ''medium'' 0 + dgetd c ''low'' 0 =
      dgetd (tr_hourly tr') h 0)" for h
  proof (cases "h = hour")
    case True
    have "tr_severity tr' = dset (tr_severity tr) hour (count_up (dgetd (tr_severity tr) hour []) (severity_band score))"
      "tr_hourly tr' = count_up (tr_hourly tr) hour" by (simp_all add: tr')
    moreover have "dgetd (count_up (tr_hourly tr) hour) hour 0 = dgetd (tr_hourly tr) hour 0 + 1" by (simp add: up)
    ultimately show ?thesis
      using assms(2) True unfolding trend_consistent_def Let_def by (simp only: dgetd_dset one simp_thms if_True)
  next
    case False
    have "dgetd (tr_severity tr') h [] = dgetd (tr_severity tr) h []" "dgetd (tr_hourly tr') h 0 = dgetd (tr_hourly tr) h 0"
      using False by (simp_all add: tr' up)
    then show ?thesis using assms(2) unfolding trend_consistent_def Let_def by (simp only:)
  qed
  have "(\<Sum>p\<leftarrow>tr_daily tr'. snd p) = int (Suc n)" "(\<Sum>p\<leftarrow>tr_hourly tr'. snd p) = int (Suc n)"
    using assms(2) by (simp_all add: tr' trend_consistent_def count_up_total)
  then show ?thesis using hours by (simp add: trend_consistent_def)
qed

lemma trend_of_consistent:
  "trend_of zs tz now recs tr = Inr tr' \<Longrightarrow> trend_consistent n tr \<Longrightarrow> trend_consistent (n + length recs) tr'"
proof (induction recs arbitrary: tr n)
  case (Cons rec recs)
  then obtain t1 where "trend_add zs tz now rec tr = Inr t1" "trend_of zs tz now recs t1 = Inr tr'"
    by (auto simp: bind_def split: sum.splits)
  then show ?case using Cons.IH trend_add_consistent [OF _ Cons.prems(2)] by fastforce
qed simp

theorem trend_counts_every_record:
  "trend_of zs tz now recs no_trend = Inr tr \<Longrightarrow> trend_consistent (length recs) tr"
  using trend_of_consistent [of zs tz now recs no_trend tr 0] by (simp add: trend_consistent_def no_trend_def)

subsection \<open>Readiness and clicks\<close>

text \<open>The gateway is ready only with a virus scanner and a relay, both of which the settings leave out by default.\<close>

theorem readyz_needs_everything:
  "fst (readyz ping clamav relay) = 200 \<longleftrightarrow> ping \<noteq> Some False \<and> clamav \<and> relay"
  by (auto simp: readyz_def readyz_checks_def Let_def split: option.splits)

text \<open>The click route redirects only to addresses the gateway has signed.\<close>

theorem click_redirects_signed_only:
  assumes "time_of_click_redirect cr key provider url sig s = (Inr reply, s')"
  shows "\<exists>target. decode_target url = Some target \<and> sig = generate_url_signature cr target key \<and>
     (reply = Redirect307 target \<or> (\<exists>reason. reply = Blocked403 reason target))"
  using assms by (auto simp: time_of_click_redirect_def decode_and_verify_def split: prod.splits bool.splits option.splits if_splits)

end
