(* ===== verification/Mailboxes.thy ===== *)
theory Mailboxes
  imports PostDelivery Parsers
begin

text \<open>
  The clients behind the mailbox actions: \<open>webhook_receiver/m365_client.py\<close> and \<open>google_client.py\<close>, with their access
  tokens, requests and error handling, and what \<open>delivery/mailbox_actions.py\<close> does when it is given them. The HTTP client
  is a parameter: a request raises, or it gets a status, a body and the value of \<open>json()\<close>.
\<close>

subsection \<open>HTTP\<close>

record http_reply =
  hr_status :: int
  hr_json :: "json result"
  hr_content :: string

datatype http_body = NoBody | FormBody "(string \<times> string) list" | JsonBody json

type_synonym 'w http = "string \<Rightarrow> string \<Rightarrow> (string \<times> string) list \<Rightarrow> http_body \<Rightarrow> 'w \<Rightarrow> http_reply result \<times> 'w"

text \<open>\<open>raise_for_status\<close> lets pass what is a success.\<close>

definition raise_for_status :: "http_reply \<Rightarrow> http_reply result" where
  "raise_for_status r = (if 200 \<le> hr_status r \<and> hr_status r < 300 then Inr r
     else Inl (OtherError ''HTTPStatusError''))"

definition bearer :: "string \<Rightarrow> string \<times> string" where
  "bearer token = (''Authorization'', ''Bearer '' @ token)"

definition json_type :: "string \<times> string" where
  "json_type = (''Content-Type'', ''application/json'')"

text \<open>A request with a token, checked for its status, and one whose status is the answer.\<close>

definition checked :: "'w http \<Rightarrow> string \<Rightarrow> string \<Rightarrow> (string \<times> string) list \<Rightarrow> http_body \<Rightarrow> (http_reply \<Rightarrow> 'a result) \<Rightarrow>
    'w \<Rightarrow> 'a result \<times> 'w" where
  "checked http meth url headers body f w = (case http meth url headers body w of
     (r, w') \<Rightarrow> (bind (bind r raise_for_status) f, w'))"

definition status_ok :: "'w http \<Rightarrow> string \<Rightarrow> string \<Rightarrow> (string \<times> string) list \<Rightarrow> 'w \<Rightarrow> bool result \<times> 'w" where
  "status_ok http meth url headers w = (case http meth url headers NoBody w of
     (r, w') \<Rightarrow> (bind r (\<lambda>x. Inr (hr_status x = 200 \<or> hr_status x = 204)), w'))"

text \<open>The first step of every method: the token, which the client keeps.\<close>

definition with_token :: "('c \<times> 'w \<Rightarrow> string result \<times> 'c \<times> 'w) \<Rightarrow> (string \<Rightarrow> 'w \<Rightarrow> 'a result \<times> 'w) \<Rightarrow>
    'c \<times> 'w \<Rightarrow> 'a result \<times> 'c \<times> 'w" where
  "with_token get_token act s = (case get_token s of
     (Inl e, s') \<Rightarrow> (Inl e, s')
   | (Inr token, cl, w) \<Rightarrow> (case act token w of (r, w') \<Rightarrow> (r, cl, w')))"

subsection \<open>m365\_client.py\<close>

record m365 =
  ms_client_id :: string
  ms_client_secret :: string
  ms_token_url :: string
  ms_base_url :: string
  ms_token :: json

definition new_m365 :: "string \<Rightarrow> string \<Rightarrow> string \<Rightarrow> string \<Rightarrow> string \<Rightarrow> m365" where
  "new_m365 directory client_id secret token_url base =
     \<lparr>ms_client_id = client_id, ms_client_secret = secret,
      ms_token_url = (if token_url \<noteq> [] then token_url
        else ''https://login.microsoftonline.com/'' @ directory @ ''/oauth2/v2.0/token''),
      ms_base_url = rstrip_char (CHR ''/'') base, ms_token = JNull\<rparr>"

text \<open>A token of a type other than text is kept as it is; its text goes into the header.\<close>

definition m365_get_access_token :: "(rat \<Rightarrow> string) \<Rightarrow> 'w http \<Rightarrow> m365 \<times> 'w \<Rightarrow> string result \<times> m365 \<times> 'w" where
  "m365_get_access_token fr http s = (let (cl, w) = s in
     if truthy (ms_token cl) then (Inr (py_str fr (ms_token cl)), s)
     else (case checked http ''POST'' (ms_token_url cl) []
             (FormBody [(''grant_type'', ''client_credentials''), (''client_id'', ms_client_id cl),
                (''client_secret'', ms_client_secret cl), (''scope'', ''https://graph.microsoft.com/.default'')])
             (\<lambda>r. bind (hr_json r) (\<lambda>j. jget j ''access_token'' (JStr []))) w of
         (Inl e, w') \<Rightarrow> (Inl e, cl, w')
       | (Inr tok, w') \<Rightarrow> (Inr (py_str fr (or_else tok (JStr []))), cl\<lparr>ms_token := tok\<rparr>, w')))"

definition m365_url :: "m365 \<Rightarrow> string \<Rightarrow> string \<Rightarrow> string \<Rightarrow> string" where
  "m365_url cl user mid tail = ms_base_url cl @ ''/users/'' @ user @ ''/messages/'' @ mid @ tail"

definition m365_get_message_mime :: "(rat \<Rightarrow> string) \<Rightarrow> 'w http \<Rightarrow> string \<Rightarrow> string \<Rightarrow> m365 \<times> 'w \<Rightarrow> string result \<times> m365 \<times> 'w" where
  "m365_get_message_mime fr http user mid s = with_token (m365_get_access_token fr http) (\<lambda>token.
     checked http ''GET'' (m365_url (fst s) user mid ''/$value'') [bearer token] NoBody (\<lambda>r. Inr (hr_content r))) s"

definition m365_move_to_junk :: "(rat \<Rightarrow> string) \<Rightarrow> 'w http \<Rightarrow> string \<Rightarrow> string \<Rightarrow> m365 \<times> 'w \<Rightarrow> json result \<times> m365 \<times> 'w" where
  "m365_move_to_junk fr http user mid s = with_token (m365_get_access_token fr http) (\<lambda>token.
     checked http ''POST'' (m365_url (fst s) user mid ''/move'') [bearer token, json_type]
       (JsonBody (JDict [(''destinationId'', JStr ''junkemail'')])) hr_json) s"

definition m365_delete_message :: "(rat \<Rightarrow> string) \<Rightarrow> 'w http \<Rightarrow> string \<Rightarrow> string \<Rightarrow> m365 \<times> 'w \<Rightarrow> bool result \<times> m365 \<times> 'w" where
  "m365_delete_message fr http user mid s = with_token (m365_get_access_token fr http) (\<lambda>token.
     status_ok http ''DELETE'' (m365_url (fst s) user mid []) [bearer token]) s"

subsection \<open>google\_client.py\<close>

record google =
  gg_base_url :: string
  gg_token :: string

definition new_google :: "string \<Rightarrow> google" where
  "new_google base = \<lparr>gg_base_url = rstrip_char (CHR ''/'') base, gg_token = []\<rparr>"

text \<open>The service account and its key are not used: the token is a constant.\<close>

definition google_get_access_token :: "google \<times> 'w \<Rightarrow> string result \<times> google \<times> 'w" where
  "google_get_access_token s = (let (cl, w) = s in
     if gg_token cl \<noteq> [] then (Inr (gg_token cl), s)
     else (Inr ''google_sa_access_token_mock'', cl\<lparr>gg_token := ''google_sa_access_token_mock''\<rparr>, w))"

definition google_url :: "google \<Rightarrow> string \<Rightarrow> string \<Rightarrow> string \<Rightarrow> string" where
  "google_url cl user mid tail = gg_base_url cl @ ''/users/'' @ user @ ''/messages/'' @ mid @ tail"

definition raw_of_reply :: "http_reply \<Rightarrow> string result" where
  "raw_of_reply r = bind (hr_json r) (\<lambda>j. bind (jget j ''raw'' (JStr [])) (\<lambda>raw.
     if \<not> truthy raw then Inr []
     else case raw of
       JStr s \<Rightarrow> (case urlsafe_b64decode (s @ ''=='') of None \<Rightarrow> Inl (ValueError ''Incorrect padding'') | Some bs \<Rightarrow> Inr bs)
     | _ \<Rightarrow> Inl (TypeError ''unsupported operand type(s) for +'')))"

definition google_get_message_raw :: "'w http \<Rightarrow> string \<Rightarrow> string \<Rightarrow> google \<times> 'w \<Rightarrow> string result \<times> google \<times> 'w" where
  "google_get_message_raw http user mid s = with_token google_get_access_token (\<lambda>token.
     checked http ''GET'' (google_url (fst s) user mid ''?format=raw'') [bearer token] NoBody raw_of_reply) s"

definition google_move_to_spam :: "'w http \<Rightarrow> string \<Rightarrow> string \<Rightarrow> google \<times> 'w \<Rightarrow> json result \<times> google \<times> 'w" where
  "google_move_to_spam http user mid s = with_token google_get_access_token (\<lambda>token.
     checked http ''POST'' (google_url (fst s) user mid ''/modify'') [bearer token, json_type]
       (JsonBody (JDict [(''addLabelIds'', JList [JStr ''SPAM'']), (''removeLabelIds'', JList [JStr ''INBOX''])])) hr_json) s"

definition google_delete_message :: "'w http \<Rightarrow> string \<Rightarrow> string \<Rightarrow> google \<times> 'w \<Rightarrow> bool result \<times> google \<times> 'w" where
  "google_delete_message http user mid s = with_token google_get_access_token (\<lambda>token.
     status_ok http ''POST'' (google_url (fst s) user mid ''/trash'') [bearer token]) s"

subsection \<open>The clients as the mailbox service sees them\<close>

text \<open>Both clients over one world. Python finds a method by its name when it is called: the Google client has no
  \<open>trash_message\<close> and the Microsoft client none either.\<close>

definition no_method :: "string \<Rightarrow> py_exn" where
  "no_method name = OtherError (''object has no attribute '' @ quoted name)"

definition as_dict_result :: "json result \<Rightarrow> (string, json) dict result" where
  "as_dict_result r = bind r (\<lambda>j. case j of JDict d \<Rightarrow> Inr d | _ \<Rightarrow> Inl no_get)"

type_synonym 'w mailboxes = "m365 \<times> google \<times> 'w"

definition on_m365 :: "(m365 \<times> 'w \<Rightarrow> 'a result \<times> m365 \<times> 'w) \<Rightarrow> 'w mailboxes \<Rightarrow> 'a result \<times> 'w mailboxes" where
  "on_m365 f s = (case s of (m, g, w) \<Rightarrow> (case f (m, w) of (r, m', w') \<Rightarrow> (r, m', g, w')))"

definition on_google :: "(google \<times> 'w \<Rightarrow> 'a result \<times> google \<times> 'w) \<Rightarrow> 'w mailboxes \<Rightarrow> 'a result \<times> 'w mailboxes" where
  "on_google f s = (case s of (m, g, w) \<Rightarrow> (case f (g, w) of (r, g', w') \<Rightarrow> (r, m, g', w')))"

definition m365_mailbox :: "(rat \<Rightarrow> string) \<Rightarrow> 'w http \<Rightarrow> 'w mailboxes mailbox_client" where
  "m365_mailbox fr http =
     \<lparr>mc_move = (\<lambda>user mid s. case on_m365 (m365_move_to_junk fr http user mid) s of (r, s') \<Rightarrow> (as_dict_result r, s')),
      mc_trash = (\<lambda>user mid s. (Inl (no_method ''trash_message''), s)),
      mc_delete = (\<lambda>user mid. on_m365 (m365_delete_message fr http user mid))\<rparr>"

definition google_mailbox :: "'w http \<Rightarrow> 'w mailboxes mailbox_client" where
  "google_mailbox http =
     \<lparr>mc_move = (\<lambda>user mid s. (Inl (no_method ''move_to_junk''), s)),
      mc_trash = (\<lambda>user mid s. (Inl (no_method ''trash_message''), s)),
      mc_delete = (\<lambda>user mid. on_google (google_delete_message http user mid))\<rparr>"

definition live_mailboxes :: "(rat \<Rightarrow> string) \<Rightarrow> 'w http \<Rightarrow> 'w mailboxes mailbox_service" where
  "live_mailboxes fr http = \<lparr>m365_client = Some (m365_mailbox fr http), google_client = Some (google_mailbox http)\<rparr>"

text \<open>Moving a Google message to junk raises, whatever Google would answer, and no request is sent; without a client the
  same call reports a simulated success.\<close>

theorem google_junk_always_raises:
  assumes "lower provider \<in> set google_names"
  shows "move_to_junk (live_mailboxes fr http) provider user mid s = (Inl (no_method ''trash_message''), s)"
proof -
  have "set m365_names \<inter> set google_names = {}" by (simp add: m365_names_def google_names_def)
  then have "lower provider \<notin> set m365_names" using assms by blast
  then show ?thesis using assms by (simp add: move_to_junk_def live_mailboxes_def google_mailbox_def)
qed

text \<open>Deleting does reach Google, and says it worked exactly when Google answers 200 or 204.\<close>

theorem google_delete_reports_status:
  assumes "lower provider \<in> set google_names" "gg_token g \<noteq> []"
    and "http ''POST'' (google_url g user mid ''/trash'') [bearer (gg_token g)] NoBody w = (Inr r, w')"
  shows "delete_message (live_mailboxes fr http) provider user mid (m, g, w) =
     (Inr (hr_status r = 200 \<or> hr_status r = 204), m, g, w')"
proof -
  have "set m365_names \<inter> set google_names = {}" by (simp add: m365_names_def google_names_def)
  then have "lower provider \<notin> set m365_names" using assms(1) by blast
  then show ?thesis using assms
    by (simp add: delete_message_def live_mailboxes_def google_mailbox_def on_google_def google_delete_message_def
        with_token_def google_get_access_token_def status_ok_def)
qed

subsection \<open>What a reported zap means\<close>

text \<open>An HTTP client that keeps a log of its requests and the answers.\<close>

type_synonym http_log = "(string \<times> string \<times> http_reply result) list"

definition logged :: "'w http \<Rightarrow> ('w \<times> http_log) http" where
  "logged http meth url headers body s = (case s of (w, lg) \<Rightarrow> (case http meth url headers body w of
     (r, w') \<Rightarrow> (r, w', lg @ [(meth, url, r)])))"

text \<open>The provider was asked to delete (or trash) this very copy and answered 200 or 204.\<close>

definition answered_ok :: "string \<Rightarrow> string \<Rightarrow> http_log \<Rightarrow> bool" where
  "answered_ok meth url lg \<longleftrightarrow> (\<exists>r. (meth, url, Inr r) \<in> set lg \<and> hr_status r \<in> {200, 204})"

definition deleted_at_provider :: "string \<Rightarrow> string \<Rightarrow> string \<Rightarrow> ('w \<times> http_log) mailboxes \<Rightarrow> bool" where
  "deleted_at_provider p user mid s = (case s of (m, g, w, lg) \<Rightarrow>
     (lower p \<in> set m365_names \<and> answered_ok ''DELETE'' (m365_url m user mid []) lg) \<or>
     (lower p \<in> set google_names \<and> answered_ok ''POST'' (google_url g user mid ''/trash'') lg))"

lemma answered_ok_append: "answered_ok meth url lg \<Longrightarrow> answered_ok meth url (lg @ lg')"
  by (auto simp: answered_ok_def)

text \<open>Neither client forgets where it is, and the log only grows.\<close>

lemma m365_delete_effect:
  assumes "m365_delete_message fr (logged http) user mid (m, w, lg) = (r, m', w', lg')"
  shows "ms_base_url m' = ms_base_url m \<and> (\<exists>l. lg' = lg @ l) \<and>
    (r = Inr True \<longrightarrow> answered_ok ''DELETE'' (m365_url m user mid []) lg')"
  using assms
  by (auto simp: m365_delete_message_def with_token_def m365_get_access_token_def checked_def status_ok_def logged_def
      answered_ok_def m365_url_def Let_def bind_def split: prod.splits sum.splits if_splits)

lemma google_delete_effect:
  assumes "google_delete_message (logged http) user mid (g, w, lg) = (r, g', w', lg')"
  shows "gg_base_url g' = gg_base_url g \<and> (\<exists>l. lg' = lg @ l) \<and>
    (r = Inr True \<longrightarrow> answered_ok ''POST'' (google_url g user mid ''/trash'') lg')"
  using assms
  by (auto simp: google_delete_message_def with_token_def google_get_access_token_def status_ok_def logged_def
      answered_ok_def google_url_def Let_def bind_def split: prod.splits sum.splits if_splits)

lemma m365_keeps_deleted:
  assumes "deleted_at_provider p user mid (m, g, w, lg)" "ms_base_url m' = ms_base_url m" "gg_base_url g' = gg_base_url g"
  shows "deleted_at_provider p user mid (m', g', w', lg @ l)"
  using assms by (auto simp: deleted_at_provider_def m365_url_def google_url_def intro: answered_ok_append)

lemma names_apart: "lower p \<in> set google_names \<Longrightarrow> lower p \<notin> set m365_names"
  by (auto simp: m365_names_def google_names_def)

lemma live_deletion:
  assumes "delete_message (live_mailboxes fr (logged http)) p user mid (m, g, w, lg) = (r, m', g', w', lg')"
  shows "ms_base_url m' = ms_base_url m \<and> gg_base_url g' = gg_base_url g \<and> (\<exists>l. lg' = lg @ l) \<and>
    (r = Inr True \<longrightarrow> deleted_at_provider p user mid (m', g', w', lg'))"
proof (cases "lower p \<in> set m365_names")
  case True
  obtain r1 m1 w1 l1 where d: "m365_delete_message fr (logged http) user mid (m, w, lg) = (r1, m1, w1, l1)"
    by (metis prod_cases4)
  with True assms m365_delete_effect [OF d] show ?thesis
    by (auto simp: delete_message_def live_mailboxes_def m365_mailbox_def on_m365_def deleted_at_provider_def m365_url_def)
next
  case False
  obtain r1 g1 w1 l1 where d: "google_delete_message (logged http) user mid (g, w, lg) = (r1, g1, w1, l1)"
    by (metis prod_cases4)
  with False assms google_delete_effect [OF d] show ?thesis
    by (auto simp: delete_message_def live_mailboxes_def google_mailbox_def on_google_def deleted_at_provider_def google_url_def
        split: if_splits)
qed

lemma live_service_ok: "service_ok deleted_at_provider (live_mailboxes fr (logged http))"
proof (unfold service_ok_def, intro conjI allI impI)
  fix p user mid and s s' :: "('a \<times> http_log) mailboxes"
  assume d: "delete_message (live_mailboxes fr (logged http)) p user mid s = (Inr True, s')"
  obtain m g w lg m' g' w' lg' where "s = (m, g, w, lg)" "s' = (m', g', w', lg')" by (metis prod_cases4)
  then show "deleted_at_provider p user mid s'"
    using live_deletion [of fr http p user mid m g w lg "Inr True" m' g' w' lg'] d by simp
next
  fix p user mid p' user' mid' and s :: "('a \<times> http_log) mailboxes"
  assume old: "deleted_at_provider p user mid s"
  obtain m g w lg where s: "s = (m, g, w, lg)" by (metis prod_cases4)
  obtain r m' g' w' lg' where d: "delete_message (live_mailboxes fr (logged http)) p' user' mid' s = (r, m', g', w', lg')"
    by (metis prod_cases5)
  from live_deletion [OF d [unfolded s]] m365_keeps_deleted [OF old [unfolded s], of m' g' w']
  show "deleted_at_provider p user mid (snd (delete_message (live_mailboxes fr (logged http)) p' user' mid' s))"
    by (auto simp: d)
qed

text \<open>The mailbox service of \<open>webhook_receiver/app.py\<close>: \<open>DirectMailboxService()\<close> without clients.\<close>

definition gateway_mailboxes :: "'w mailbox_service" where
  "gateway_mailboxes = \<lparr>m365_client = None, google_client = None\<rparr>"

text \<open>C24: A reported zap is a deletion only where mailbox clients are configured. With the Microsoft 365 and Google
  clients, every recipient's copy of a message that is reported as zapped was the object of a deletion request to that
  recipient's provider, sent by this call and answered 200 or 204, and the message had matched the URL, had not been
  zapped before and is marked with the reason. The gateway configures no client: its own service reports every
  matching message of the known providers as zapped, marks it, and does nothing else.\<close>
theorem zap_deletes_only_with_clients:
  assumes "trigger_zap_by_url (live_mailboxes fr (logged http)) target reason recs (m, g, w, []) = (ids, recs', s')"
    and "k \<in> set ids" "\<forall>q \<in> set own. known_providers (snd q)"
  shows "(\<exists>rec. (k, rec) \<in> set recs \<and> \<not> zapped rec \<and> url_hit target rec \<and>
      (k, rec\<lparr>zapped := True, zap_reason := reason\<rparr>) \<in> set recs' \<and>
      (\<forall>(p, user, mid) \<in> set (dm_recipients rec). deleted_at_provider p user mid s')) \<and>
    trigger_zap_by_url gateway_mailboxes target reason own v =
      (map fst (filter (\<lambda>q. \<not> zapped (snd q) \<and> url_hit target (snd q)) own),
       map (\<lambda>(i, rec). if zapped rec \<or> \<not> url_hit target rec then (i, rec)
         else (i, rec\<lparr>zapped := True, zap_reason := reason\<rparr>)) own, v)"
  using zap_matching_gone [OF live_service_ok, of k fr http "url_hit target" reason recs "(m, g, w, [])"] assms(1,2)
    zap_matching_without_clients [OF assms(3), of "url_hit target" reason v]
  by (simp add: trigger_zap_by_url_def gateway_mailboxes_def)

text \<open>Both providers answer every request with 204 and a token.\<close>

definition obliging_http :: "unit http" where
  "obliging_http meth url headers body w =
     (Inr \<lparr>hr_status = 204, hr_json = Inr (JDict [(''access_token'', JStr ''t'')]), hr_content = []\<rparr>, w)"

definition example_m365 :: m365 where
  "example_m365 = new_m365 ''d'' ''c'' ''s'' [] ''https://graph.example/v1.0''"

definition example_google :: google where
  "example_google = new_google ''https://gmail.example/v1''"

theorem zap_deletes_only_with_clients_witness:
  "(let (ids, recs, s) = trigger_zap_by_url (live_mailboxes (\<lambda>_. []) (logged obliging_http)) ''https://evil.io/a'' ''r''
        example_delivered (example_m365, example_google, (), [])
    in ids = [''m1''] \<and> deleted_at_provider ''m365'' ''joe'' ''x1'' s \<and> deleted_at_provider ''gmail'' ''ann'' ''x2'' s) \<and>
   fst (trigger_zap_by_url gateway_mailboxes ''https://evil.io/a'' ''r'' example_delivered ()) = [''m1'']"
proof -
  have names: "lower ''m365'' = ''m365''" "lower ''gmail'' = ''gmail''" by code_simp+
  obtain ids recs s where z: "trigger_zap_by_url (live_mailboxes (\<lambda>_. []) (logged obliging_http)) ''https://evil.io/a'' ''r''
      example_delivered (example_m365, example_google, (), []) = (ids, recs, s)"
    by (metis prod_cases3)
  have ids: "ids = [''m1'']"
    using z names
    by (simp add: trigger_zap_by_url_def example_delivered_def register_delivery_def url_hit_def contains_iff execute_zap_def
        delete_message_def m365_names_def google_names_def live_mailboxes_def m365_mailbox_def google_mailbox_def on_m365_def
        on_google_def m365_delete_message_def google_delete_message_def with_token_def m365_get_access_token_def
        google_get_access_token_def checked_def status_ok_def logged_def obliging_http_def example_m365_def new_m365_def
        example_google_def new_google_def raise_for_status_def jget_def dgetd_def or_else_def py_str_def bind_def)
  have "''m1'' \<in> set ids" "\<forall>q \<in> set example_delivered. known_providers (snd q)"
    using ids names by (simp_all add: example_delivered_def register_delivery_def known_providers_def m365_names_def google_names_def)
  note both = zap_deletes_only_with_clients [OF z this, of "()"]
  have "deleted_at_provider ''m365'' ''joe'' ''x1'' s \<and> deleted_at_provider ''gmail'' ''ann'' ''x2'' s"
    using both [THEN conjunct1] by (auto simp: example_delivered_def register_delivery_def)
  moreover have "fst (trigger_zap_by_url gateway_mailboxes ''https://evil.io/a'' ''r'' example_delivered ()) = [''m1'']"
    unfolding both [THEN conjunct2] by (simp add: example_delivered_def register_delivery_def url_hit_def contains_iff)
  ultimately show ?thesis unfolding z using ids by simp
qed

subsection \<open>Tokens\<close>

text \<open>The Microsoft client asks for a token once and keeps it: a second call takes no further request, however much later
  it is and although the service has stopped accepting the token.\<close>

theorem m365_token_kept:
  assumes "m365_get_access_token fr http (cl, w) = (Inr t, cl', w')" "t \<noteq> []"
  shows "m365_get_access_token fr http' (cl', w'') = (Inr t, cl', w'')"
proof (cases "truthy (ms_token cl)")
  case True
  then show ?thesis using assms by (auto simp: m365_get_access_token_def)
next
  case False
  then obtain tok where "cl' = cl\<lparr>ms_token := tok\<rparr>" "t = py_str fr (or_else tok (JStr []))"
    using assms(1) by (auto simp: m365_get_access_token_def split: prod.splits sum.splits)
  moreover from this have "truthy tok" using assms(2) by (cases "truthy tok") (auto simp: or_else_def py_str_def)
  ultimately show ?thesis by (simp add: m365_get_access_token_def or_else_def)
qed

text \<open>A refused token request is passed on and nothing is kept.\<close>

theorem m365_refused_token:
  assumes "\<not> truthy (ms_token cl)" "\<And>b. http ''POST'' (ms_token_url cl) [] b w = (Inr r, w')" "hr_status r = 401"
  shows "m365_delete_message fr http user mid (cl, w) = (Inl (OtherError ''HTTPStatusError''), cl, w')"
  using assms by (simp add: m365_delete_message_def with_token_def m365_get_access_token_def checked_def raise_for_status_def)

subsection \<open>Raw messages\<close>

lemma a2b_padding: "a2b 0 l p (replicate k (CHR ''='')) = Some []"
  by (induction k) simp_all

lemma a2b_enough_padding: "a2b 0 l p (b64_body bs @ CHR ''='' # CHR ''='' # replicate k (CHR ''='')) = Some bs"
proof (induction bs arbitrary: l p rule: b64_body.induct)
  case 1
  then show ?case using a2b_padding [of l p "Suc (Suc k)"] by simp
next
  case (2 a)
  have "char_of (of_char a :: nat) = a" by simp
  then show ?case
    unfolding b64_body.simps append_Cons append_Nil a2b_digits(1) [OF sextets(1)]
      a2b_digits(2) [OF sextets(2)] octet_join(4) [OF byte_bound byte_bound byte_bound]
    by simp
next
  case (3 a b)
  have "char_of (of_char x :: nat) = x" for x :: char by simp
  then show ?case
    unfolding b64_body.simps append_Cons append_Nil a2b_digits(1) [OF sextets(1)]
      a2b_digits(2) [OF sextets(4)] a2b_digits(3) [OF sextets(3)]
      octet_join(1,5) [OF byte_bound byte_bound byte_bound]
    by simp
next
  case (4 a b c r)
  show ?case unfolding a2b_three using "4.IH" by simp
qed

text \<open>Google sends the message in URL-safe base 64, with or without padding; the client gets back every byte of it.\<close>

theorem gmail_raw_roundtrip:
  assumes "hr_json r = Inr (JDict d)" "dget d ''raw'' = Some (JStr enc)" "enc \<in> {b64_body bs, b64_encode bs}"
  shows "raw_of_reply r = Inr bs"
proof (cases "enc = []")
  case True
  then have "bs = []" using assms(3) by (cases bs rule: b64_body.cases) auto
  then show ?thesis using assms True by (simp add: raw_of_reply_def jget_def dgetd_def)
next
  case False
  obtain k where "b64_encode bs = b64_body bs @ replicate k (CHR ''='')" using b64_encode_body by blast
  then obtain j where enc: "enc @ ''=='' = b64_body bs @ CHR ''='' # CHR ''='' # replicate j (CHR ''='')"
  proof -
    assume a: "\<And>j. enc @ ''=='' = b64_body bs @ CHR ''='' # CHR ''='' # replicate j (CHR ''='') \<Longrightarrow> thesis"
      and b: "b64_encode bs = b64_body bs @ replicate k (CHR ''='')"
    have "replicate k x @ [x, x] = x # x # replicate k x" for x :: char by (induction k) auto
    then have "b64_encode bs @ ''=='' = b64_body bs @ CHR ''='' # CHR ''='' # replicate k (CHR ''='')" using b by simp
    then show thesis using a [of k] a [of 0] assms(3) by auto
  qed
  have "is_ascii (enc @ ''=='')"
    unfolding enc using b64_body_ok(3) [of _ bs] by (auto simp: is_ascii_def list_all_iff)
  then have "urlsafe_b64decode (enc @ ''=='') = Some bs"
    by (simp only: urlsafe_b64decode_def if_True enc a2b_enough_padding)
  then show ?thesis using assms(1,2) False by (simp add: raw_of_reply_def jget_def dgetd_def)
qed

end
