(* ===== verification/Hardening.thy ===== *)
theory Hardening
  imports Regex Parsers
begin

unbundle bit_operations_syntax

text \<open>
  The repository's own attack tools and audits: the fuzzer (\<open>security/fuzzer.py\<close>), the payload harness and the runner
  against a client (\<open>security_hardening/pen_testing_harness.py\<close>, \<open>security/pen_tester.py\<close>), the scans of Dockerfiles and
  sources (\<open>container_scanner.py\<close>, \<open>vulnerability_scanner.py\<close>), the DNSSEC check (\<open>auth_checker/dnssec.py\<close>) and the two
  applications of \<open>webhook_receiver/segmentation.py\<close>. Random choices, files and the functions under test are parameters.
\<close>

subsection \<open>security/fuzzer.py\<close>

datatype mutation = Flip | Replace | Insert | Delete

text \<open>One round of the loop: the kind of change and what the two further draws give, reduced to their ranges.\<close>

record fuzz_draw =
  fz_kind :: mutation
  fz_pos :: nat
  fz_byte :: nat

definition flip_byte :: "nat \<Rightarrow> char \<Rightarrow> char" where
  "flip_byte m c = char_of (of_char c XOR m)"

definition mutate_once :: "fuzz_draw \<Rightarrow> string \<Rightarrow> string" where
  "mutate_once d m = (let pos = fz_pos d mod length m in
     case fz_kind d of
       Flip \<Rightarrow> m[pos := flip_byte (1 + fz_byte d mod 255) (m ! pos)]
     | Replace \<Rightarrow> m[pos := char_of (fz_byte d mod 256)]
     | Insert \<Rightarrow> take pos m @ char_of (fz_byte d mod 256) # drop pos m
     | Delete \<Rightarrow> if length m > 1 then take pos m @ drop (Suc pos) m else m)"

definition num_mutations :: "string \<Rightarrow> rat \<Rightarrow> nat" where
  "num_mutations s rate = nat (max 1 (trunc_rat (of_nat (length s) * rate)))"

definition fake_mime :: string where
  "fake_mime = ''FAKEMIME'' @ crlf @ crlf @ ''corrupted''"

definition mutate_bytes :: "(nat \<Rightarrow> fuzz_draw) \<Rightarrow> string \<Rightarrow> rat \<Rightarrow> string" where
  "mutate_bytes draws s rate =
     (if s = [] then fake_mime else fold (\<lambda>i. mutate_once (draws i)) [0..<num_mutations s rate] s)"

definition boundary_text :: string where
  "boundary_text = replicate 50 (CHR ''='')"

definition lf :: string where
  "lf = [CHR 0x0A]"

definition malformed_headers :: "string list" where
  "malformed_headers =
     [''From: '' @ replicate 200 (CHR ''a'') @ ''@example.com'',
      ''To: victim'' @ concat (replicate 10 ''@example.com''),
      ''Subject: '' @ concat (replicate 5 ''=?UTF-8?B? invalid_base64_blob!?=''),
      ''Content-Type: multipart/mixed; boundary='' @ CHR 0x22 # boundary_text @ [CHR 0x22],
      ''MIME-Version: 1.0'']"

text \<open>\<open>noise i\<close>: the random bytes of one part.\<close>

definition malformed_parts :: "(nat \<Rightarrow> string) \<Rightarrow> nat \<Rightarrow> string list" where
  "malformed_parts noise i =
     [''--'' @ boundary_text @ lf @ ''Content-Type: text/plain; charset=utf-8'' @ lf @ lf @ ''Nested part '' @ nat_str i,
      ''--'' @ boundary_text @ lf @ ''Content-Type: application/x-executable'' @ lf @
        ''Content-Disposition: attachment; filename='' @ CHR 0x22 # ''test_'' @ nat_str i @ ''.exe'' @ CHR 0x22 # lf @ lf @
        CHR 0x7F # ''ELF'' @ [CHR 0x01, CHR 0x01, CHR 0x01, CHR 0x00] @ noise i]"

definition generate_malformed_mime :: "(nat \<Rightarrow> string) \<Rightarrow> nat \<Rightarrow> string" where
  "generate_malformed_mime noise depth =
     utf8 (join crlf malformed_headers @ crlf @ crlf @ join crlf (concat (map (malformed_parts noise) [0..<depth])))"

text \<open>One iteration: the index of the seed, the rate, the draws of the mutation and the noise of a generated seed.\<close>

record fuzz_round =
  fr_seed :: nat
  fr_rate :: rat
  fr_draws :: "nat \<Rightarrow> fuzz_draw"
  fr_noise :: "nat \<Rightarrow> string"

definition round_payload :: "string list \<Rightarrow> fuzz_round \<Rightarrow> string" where
  "round_payload corpus r =
     mutate_bytes (fr_draws r) (if corpus \<noteq> [] then corpus ! (fr_seed r mod length corpus) else generate_malformed_mime (fr_noise r) 5)
       (fr_rate r)"

definition fuzz_target :: "(string \<Rightarrow> py_exn option) \<Rightarrow> string list \<Rightarrow> fuzz_round list \<Rightarrow> (string \<times> py_exn) list" where
  "fuzz_target target corpus rounds =
     List.map_filter (\<lambda>r. let p = round_payload corpus r in map_option (\<lambda>e. (p, e)) (target p)) rounds"

lemma mutate_once_length:
  assumes "m \<noteq> []"
  shows "mutate_once d m \<noteq> []" "length (mutate_once d m) \<le> Suc (length m)" "length m \<le> Suc (length (mutate_once d m))"
proof -
  have pos: "fz_pos d mod length m < length m" using assms by simp
  then have "min (length m) (fz_pos d mod length m) = fz_pos d mod length m" "\<not> length m \<le> fz_pos d mod length m" by simp_all
  then have "length (mutate_once d m) \<in> {length m, Suc (length m), length m - 1}" "length (mutate_once d m) > 0"
    using assms by (auto simp: mutate_once_def Let_def split: mutation.splits)
  then show "mutate_once d m \<noteq> []" "length (mutate_once d m) \<le> Suc (length m)" "length m \<le> Suc (length (mutate_once d m))"
    by auto
qed

lemma mutations_length:
  "m \<noteq> [] \<Longrightarrow> fold (\<lambda>i. mutate_once (draws i)) is m \<noteq> [] \<and>
     length (fold (\<lambda>i. mutate_once (draws i)) is m) \<le> length m + length is \<and>
     length m \<le> length (fold (\<lambda>i. mutate_once (draws i)) is m) + length is"
proof (induction "is" arbitrary: m)
  case (Cons i js)
  note one = mutate_once_length [OF Cons.prems, of "draws i"]
  show ?case using Cons.IH [OF one(1)] one(2,3) by auto
qed simp

text \<open>A payload is never empty, and each change moves the length by one at most.\<close>

theorem mutated_payload_bounds:
  assumes "s \<noteq> []"
  shows "mutate_bytes draws s rate \<noteq> []"
    "length (mutate_bytes draws s rate) \<le> length s + num_mutations s rate"
    "length s \<le> length (mutate_bytes draws s rate) + num_mutations s rate"
  using mutations_length [OF assms, of draws "[0..<num_mutations s rate]"] assms by (simp_all add: mutate_bytes_def)

text \<open>A flip really changes its byte, since it never flips with zero, and the same flip undoes it.\<close>

theorem flip_changes:
  assumes "0 < m" "m < 256"
  shows "flip_byte m c \<noteq> c" "flip_byte m (flip_byte m c) = c"
proof -
  have c: "take_bit 8 (of_char c :: nat) = of_char c" "take_bit 8 m = m"
    using assms(2) by (simp_all add: take_bit_nat_eq_self)
  have "of_char (flip_byte m c) = take_bit 8 (of_char c XOR m :: nat)"
    by (simp add: flip_byte_def take_bit_eq_mod)
  then have val: "of_char (flip_byte m c) = (of_char c XOR m :: nat)" by (simp only: take_bit_xor c)
  show "flip_byte m c \<noteq> c"
  proof
    assume "flip_byte m c = c"
    then have "of_char c XOR m = (of_char c :: nat)" using val by simp
    then have "(of_char c XOR m) XOR of_char c = (0 :: nat)" by simp
    then have "m = 0" by (simp add: ac_simps)
    then show False using assms(1) by simp
  qed
  show "flip_byte m (flip_byte m c) = c"
    using val by (simp add: flip_byte_def [of m "flip_byte m c"] xor.assoc)
qed

text \<open>The fuzzer reports exactly the payloads on which the target raised.\<close>

theorem fuzz_reports_crashes:
  "(p, e) \<in> set (fuzz_target target corpus rounds) \<longleftrightarrow> (\<exists>r \<in> set rounds. p = round_payload corpus r \<and> target p = Some e)"
  by (force simp: fuzz_target_def List.map_filter_def Let_def)

subsection \<open>pen\_testing\_harness.py\<close>

definition foul_payloads :: "string list" where
  "foul_payloads =
     [CHR 0x27 # '' OR '' @ quoted ''1'' @ ''='' @ CHR 0x27 # ''1'', CHR 0x27 # ''; DROP TABLE quarantine; --'',
      ''; cat /etc/passwd'', ''$(whoami)'', CHR 0x60 # ''id'' @ [CHR 0x60], ''../../../../etc/passwd'',
      join [CHR 0x5C] [''..'', ''..'', ''..'', ''windows'', ''system32'', ''drivers'', ''etc'', ''hosts''],
      ''<script>alert('' @ quoted ''xss'' @ '')</script>'', ''<iframe src=javascript:alert(1)>'',
      replicate 100000 (CHR ''A''), ''(a+)+$'']"

record harness_result =
  hn_total :: nat
  hn_passed :: nat
  hn_failed :: nat
  hn_vulns :: "(string \<times> string) list"

text \<open>The target raises an exception with a text, or returns a text or something else.\<close>

definition judge :: "string + string option \<Rightarrow> string option" where
  "judge res = (case res of
       Inr (Some t) \<Rightarrow> if contains ''sqlite3.OperationalError'' t \<or> contains ''Traceback'' t
         then Some ''Unhandled exception or SQL leakage in output'' else None
     | Inr None \<Rightarrow> None
     | Inl e \<Rightarrow> if contains ''sqlite3'' e \<or> contains ''SyntaxError'' e then Some (''Database or syntax error: '' @ e) else None)"

fun harness_loop :: "(string \<Rightarrow> 's \<Rightarrow> (string + string option) \<times> 's) \<Rightarrow> string list \<Rightarrow> harness_result \<Rightarrow> 's \<Rightarrow> harness_result \<times> 's" where
  "harness_loop target [] hn s = (hn, s)"
| "harness_loop target (p # ps) hn s = (case target p s of (res, s') \<Rightarrow> (case judge res of
      None \<Rightarrow> harness_loop target ps (hn\<lparr>hn_passed := Suc (hn_passed hn)\<rparr>) s'
    | Some issue \<Rightarrow> harness_loop target ps (hn\<lparr>hn_failed := Suc (hn_failed hn), hn_vulns := hn_vulns hn @ [(p, issue)]\<rparr>) s'))"

definition run_fuzz_test :: "(string \<Rightarrow> 's \<Rightarrow> (string + string option) \<times> 's) \<Rightarrow> 's \<Rightarrow> harness_result \<times> 's" where
  "run_fuzz_test target s =
     harness_loop target foul_payloads \<lparr>hn_total = length foul_payloads, hn_passed = 0, hn_failed = 0, hn_vulns = []\<rparr> s"

lemma harness_accounts:
  "fst (harness_loop target ps hn s) = hn' \<Longrightarrow>
     hn_passed hn' + hn_failed hn' = hn_passed hn + hn_failed hn + length ps \<and> hn_total hn' = hn_total hn \<and>
     length (hn_vulns hn') + hn_failed hn = hn_failed hn' + length (hn_vulns hn)"
proof (induction ps arbitrary: hn s)
  case (Cons p ps)
  obtain res s' where t: "target p s = (res, s')" by fastforce
  show ?case
  proof (cases "judge res")
    case None
    then show ?thesis using Cons.IH [of "hn\<lparr>hn_passed := Suc (hn_passed hn)\<rparr>" s'] Cons.prems t by simp
  next
    case (Some issue)
    then show ?thesis
      using Cons.IH [of "hn\<lparr>hn_failed := Suc (hn_failed hn), hn_vulns := hn_vulns hn @ [(p, issue)]\<rparr>" s'] Cons.prems t by simp
  qed
qed simp

text \<open>Every payload either passes or is reported.\<close>

theorem harness_accounts_for_payloads:
  "fst (run_fuzz_test target s) = hn \<Longrightarrow> hn_passed hn + hn_failed hn = hn_total hn \<and> length (hn_vulns hn) = hn_failed hn"
  using harness_accounts [of target foul_payloads "\<lparr>hn_total = length foul_payloads, hn_passed = 0, hn_failed = 0, hn_vulns = []\<rparr>" s hn]
  by (simp add: run_fuzz_test_def)

text \<open>A target that answers each payload with the payload passes: reflecting a script is no failure.\<close>

lemma contains_chars: "contains p s \<Longrightarrow> set p \<subseteq> set s"
  by (auto simp: contains_iff dest: set_mono_sublist)

lemma harness_all_pass:
  "(\<And>p s. p \<in> set ps \<Longrightarrow> judge (fst (target p s)) = None) \<Longrightarrow> hn_failed (fst (harness_loop target ps hn s)) = hn_failed hn"
proof (induction ps arbitrary: hn s)
  case (Cons p ps)
  obtain res s' where t: "target p s = (res, s')" by fastforce
  then have "judge res = None" using Cons.prems [of p s] by simp
  then show ?case using Cons.IH [of "hn\<lparr>hn_passed := Suc (hn_passed hn)\<rparr>" s'] Cons.prems t by simp
qed simp

lemma foul_payloads_quiet: "p \<in> set foul_payloads \<Longrightarrow> judge (Inr (Some p)) = None"
proof -
  have long: "judge (Inr (Some (replicate n (CHR ''A'')))) = None" for n
    using contains_chars [of "''sqlite3.OperationalError''" "replicate n (CHR ''A'')"] contains_chars [of "''Traceback''" "replicate n (CHR ''A'')"]
    by (auto simp: judge_def set_replicate_conv_if split: if_splits)
  let ?short = "[CHR 0x27 # '' OR '' @ quoted ''1'' @ ''='' @ CHR 0x27 # ''1'', CHR 0x27 # ''; DROP TABLE quarantine; --'',
      ''; cat /etc/passwd'', ''$(whoami)'', CHR 0x60 # ''id'' @ [CHR 0x60], ''../../../../etc/passwd'',
      join [CHR 0x5C] [''..'', ''..'', ''..'', ''windows'', ''system32'', ''drivers'', ''etc'', ''hosts''],
      ''<script>alert('' @ quoted ''xss'' @ '')</script>'', ''<iframe src=javascript:alert(1)>'', ''(a+)+$'']"
  have quiet: "list_all (\<lambda>p. judge (Inr (Some p)) = None) ?short" by code_simp
  have "set foul_payloads = insert (replicate 100000 (CHR ''A'')) (set ?short)"
    by (simp only: foul_payloads_def list.simps(15) list.set(1) insert_commute)
  moreover assume "p \<in> set foul_payloads"
  ultimately have "p = replicate 100000 (CHR ''A'') \<or> p \<in> set ?short" by (simp only: insert_iff)
  then show ?thesis using long quiet by (auto simp only: list_all_iff)
qed

theorem reflection_passes: "hn_failed (fst (run_fuzz_test (\<lambda>p s. (Inr (Some p), s)) ())) = 0"
  unfolding run_fuzz_test_def by (subst harness_all_pass) (simp_all add: foul_payloads_quiet)

subsection \<open>pen\_tester.py\<close>

record pen_finding =
  pf_name :: string
  pf_endpoint :: string
  pf_severity :: string
  pf_passed :: bool
  pf_details :: string

text \<open>One request of the runner, and what it makes of the status and the body.\<close>

record probe =
  pb_name :: string
  pb_endpoint :: string
  pb_severity :: string
  pb_method :: string
  pb_path :: string
  pb_headers :: "(string \<times> string) list"
  pb_body :: string
  pb_pass :: "int \<Rightarrow> string \<Rightarrow> bool"
  pb_details :: "int \<Rightarrow> string \<Rightarrow> string"

type_synonym 'w test_client = "string \<Rightarrow> string \<Rightarrow> (string \<times> string) list \<Rightarrow> string \<Rightarrow> 'w \<Rightarrow> (py_exn + int \<times> string) \<times> 'w"

definition admin_endpoints :: "(string \<times> string) list" where
  "admin_endpoints =
     [(''/admin/quarantine'', ''GET''), (''/admin/quarantine/test-123'', ''GET''),
      (''/admin/quarantine/test-123/release'', ''POST''), (''/admin/quarantine/test-123/reject'', ''POST''),
      (''/admin/tenants'', ''GET''), (''/admin/zap'', ''POST'')]"

definition admin_probe :: "string \<Rightarrow> string \<Rightarrow> (string \<times> string) list \<Rightarrow> string \<times> string \<Rightarrow> probe" where
  "admin_probe name what headers e =
     \<lparr>pb_name = name, pb_endpoint = snd e @ '' '' @ fst e, pb_severity = ''P0 - Critical'', pb_method = snd e, pb_path = fst e,
      pb_headers = headers, pb_body = [], pb_pass = (\<lambda>st _. st \<in> {401, 403, 429}),
      pb_details = (\<lambda>st _. ''Expected 401/403/429 '' @ what @ '', got '' @ int_str st)\<rparr>"

definition bogus_token :: "(string \<times> string) list" where
  "bogus_token = [(''Authorization'', ''Bearer bogus_token_123'')]"

definition no_header_probe :: "string \<times> string \<Rightarrow> probe" where
  "no_header_probe = admin_probe ''Unauthenticated Admin Access'' ''without auth header'' []"

definition forged_probe :: "string \<times> string \<Rightarrow> probe" where
  "forged_probe = admin_probe ''Forged Token Admin Access'' ''with bogus token'' bogus_token"

definition unauthenticated_probes :: "probe list" where
  "unauthenticated_probes = concat (map (\<lambda>e. [no_header_probe e, forged_probe e]) admin_endpoints)"

definition traversal_payloads :: "string list" where
  "traversal_payloads = [''../../../../etc/passwd'', ''..%2f..%2f..%2fetc%2fpasswd'', ''....//....//....//etc/passwd'', ''~/.ssh/id_rsa'']"

definition traversal_probes :: "probe list" where
  "traversal_probes = map (\<lambda>p.
     \<lparr>pb_name = ''Path Traversal Attempt'', pb_endpoint = ''GET /admin/quarantine/'' @ p, pb_severity = ''P0 - High'',
      pb_method = ''GET'', pb_path = ''/admin/quarantine/'' @ p, pb_headers = [(''Authorization'', ''Bearer invalid'')], pb_body = [],
      pb_pass = (\<lambda>st t. st \<in> {400, 401, 403, 404, 429} \<and> \<not> contains ''root:'' t),
      pb_details = (\<lambda>st t. ''Status: '' @ int_str st @ '', Body snippet: '' @ take 100 t)\<rparr>) traversal_payloads"

definition smuggling_probes :: "probe list" where
  "smuggling_probes = [
     \<lparr>pb_name = ''CRLF Header Injection'', pb_endpoint = ''GET /healthz'', pb_severity = ''P1 - Medium'',
      pb_method = ''GET'', pb_path = ''/healthz'',
      pb_headers = [(''X-Forwarded-For'', ''127.0.0.1'' @ crlf @ ''Set-Cookie: admin=true''), (''X-Original-IP'', ''10.0.0.1''),
        (''Authorization'', ''Bearer admin_secret_key'' @ crlf @ ''Header-Injection: 1'')], pb_body = [],
      pb_pass = (\<lambda>st _. st \<in> {200, 400}), pb_details = (\<lambda>st _. ''Status: '' @ int_str st)\<rparr>]"

definition large_body :: string where
  "large_body = replicate (15 * 1024 * 1024) (CHR ''A'')"

definition oversized_probes :: "string \<Rightarrow> probe list" where
  "oversized_probes webhook_secret = [
     \<lparr>pb_name = ''Oversized Payload DoS Defense'', pb_endpoint = ''POST /webhooks/sendgrid/inbound/...'', pb_severity = ''P0 - High'',
      pb_method = ''POST'', pb_path = ''/webhooks/sendgrid/inbound/'' @ (if webhook_secret \<noteq> [] then webhook_secret else ''test_secret''),
      pb_headers = [(''Content-Type'', ''application/x-www-form-urlencoded''), (''Content-Length'', nat_str (length large_body))],
      pb_body = large_body, pb_pass = (\<lambda>st _. st \<in> {400, 401, 403, 413, 429}),
      pb_details = (\<lambda>st _. ''Expected status 400/401/403/413/429 for 15MB payload, got '' @ int_str st)\<rparr>]"

definition finding_of :: "probe \<Rightarrow> int \<Rightarrow> string \<Rightarrow> pen_finding" where
  "finding_of p st t = \<lparr>pf_name = pb_name p, pf_endpoint = pb_endpoint p, pf_severity = pb_severity p,
     pf_passed = pb_pass p st t, pf_details = pb_details p st t\<rparr>"

fun run_probes :: "'w test_client \<Rightarrow> probe list \<Rightarrow> 'w \<Rightarrow> pen_finding list result \<times> 'w" where
  "run_probes client [] w = (Inr [], w)"
| "run_probes client (p # ps) w = (case client (pb_method p) (pb_path p) (pb_headers p) (pb_body p) w of
      (Inl e, w') \<Rightarrow> (Inl e, w')
    | (Inr (st, t), w') \<Rightarrow> (case run_probes client ps w' of
        (Inl e, w'') \<Rightarrow> (Inl e, w'')
      | (Inr fs, w'') \<Rightarrow> (Inr (finding_of p st t # fs), w'')))"

definition all_probes :: "string \<Rightarrow> probe list" where
  "all_probes webhook_secret = unauthenticated_probes @ traversal_probes @ smuggling_probes @ oversized_probes webhook_secret"

text \<open>\<open>run_all\<close>: the application sees a test secret where none is set; \<open>finally\<close> puts the old one back.\<close>

definition run_all :: "(string \<Rightarrow> 'w test_client) \<Rightarrow> string \<Rightarrow> string \<times> 'w \<Rightarrow> pen_finding list result \<times> string \<times> 'w" where
  "run_all app webhook_secret s = (let (admin_secret, w) = s;
       used = (if admin_secret = [] then ''test_admin_shared_secret_123'' else admin_secret)
     in case run_probes (app used) (all_probes webhook_secret) w of (r, w') \<Rightarrow> (r, admin_secret, w'))"

text \<open>Whatever the requests do, the settings are as before.\<close>

theorem run_all_restores_secret: "fst (snd (run_all app ws (secret, w))) = secret"
  by (simp add: run_all_def split: prod.split)

text \<open>A clean report says that each administration endpoint refused the request without credentials and the one with the
  forged token; the client here answers each request on its own.\<close>

lemma run_probes_findings:
  assumes "\<And>m p h b w. client m p h b w = (Inr (answer m p h b), w)"
  shows "run_probes client ps w =
     (Inr (map (\<lambda>p. case answer (pb_method p) (pb_path p) (pb_headers p) (pb_body p) of (st, t) \<Rightarrow> finding_of p st t) ps), w)"
  by (induction ps) (simp_all add: assms split: prod.split)

theorem clean_report_means_refused:
  assumes "\<And>m p h b w. app used m p h b w = (Inr (answer m p h b), w)"
    and "used = (if secret = [] then ''test_admin_shared_secret_123'' else secret)"
    and "run_all app ws (secret, w) = (Inr fs, s')" "list_all pf_passed fs" "(path, meth) \<in> set admin_endpoints"
  shows "fst (answer meth path [] []) \<in> {401, 403, 429}"
    "fst (answer meth path bogus_token []) \<in> {401, 403, 429}"
proof -
  let ?f = "\<lambda>p. case answer (pb_method p) (pb_path p) (pb_headers p) (pb_body p) of (st, t) \<Rightarrow> finding_of p st t"
  have fs: "fs = map ?f (all_probes ws)"
    using assms(3) run_probes_findings [of "app used" answer "all_probes ws" w, OF assms(1)]
    unfolding run_all_def Let_def prod.case assms(2) [symmetric] by simp
  have "pf_passed (?f p)" if "p \<in> set unauthenticated_probes" for p
  proof -
    have "p \<in> set (all_probes ws)" using that unfolding all_probes_def by (simp only: set_append Un_iff simp_thms)
    then have "?f p \<in> set fs" unfolding fs set_map by (rule imageI)
    then show ?thesis using assms(4) unfolding list_all_iff by (rule bspec [rotated])
  qed
  moreover have "no_header_probe (path, meth) \<in> set unauthenticated_probes" "forged_probe (path, meth) \<in> set unauthenticated_probes"
    unfolding unauthenticated_probes_def set_concat set_map using assms(5)
    by (blast intro: UN_I [OF imageI] list.set_intros)+
  ultimately have "pf_passed (?f (no_header_probe (path, meth)))" "pf_passed (?f (forged_probe (path, meth)))" by blast+
  then show "fst (answer meth path [] []) \<in> {401, 403, 429}" "fst (answer meth path bogus_token []) \<in> {401, 403, 429}"
    unfolding no_header_probe_def forged_probe_def admin_probe_def finding_of_def
    by (simp_all add: split_beta)
qed

subsection \<open>container\_scanner.py\<close>

record audit_finding =
  af_line :: nat
  af_severity :: string
  af_issue :: string

definition note_at :: "nat \<Rightarrow> string \<Rightarrow> string \<Rightarrow> audit_finding" where
  "note_at line severity issue = \<lparr>af_line = line, af_severity = severity, af_issue = issue\<rparr>"

definition line_findings :: "nat \<Rightarrow> string \<Rightarrow> audit_finding list" where
  "line_findings idx line = (let s = strip line in
     (if starts_with ''FROM'' s \<and> contains '':latest'' s
      then [note_at idx ''MEDIUM'' (''Base image uses mutable '' @ quoted '':latest'' @ '' tag instead of specific version hash/tag'')] else []) @
     (if list_ex (\<lambda>k. contains k (upper s)) [''ENV SECRET'', ''ENV PASSWORD'', ''ENV API_KEY'']
      then [note_at idx ''HIGH'' ''Hardcoded secret exposed in Dockerfile ENV instruction''] else []))"

definition sets_user :: "string \<Rightarrow> bool" where
  "sets_user line = (let s = strip line in starts_with ''USER'' s \<and> \<not> contains ''root'' (lower s))"

definition sets_healthcheck :: "string \<Rightarrow> bool" where
  "sets_healthcheck line = starts_with ''HEALTHCHECK'' (strip line)"

definition runs_as_root :: audit_finding where
  "runs_as_root = note_at 0 ''HIGH'' ''Container runs as root user; missing non-root USER instruction''"

definition no_healthcheck :: audit_finding where
  "no_healthcheck = note_at 0 ''LOW'' ''Missing HEALTHCHECK instruction in Dockerfile''"

text \<open>The lines of the file, \<^term>\<open>None\<close> when it does not exist.\<close>

definition scan_dockerfile :: "string list option \<Rightarrow> audit_finding list" where
  "scan_dockerfile file = (case file of
       None \<Rightarrow> []
     | Some lines \<Rightarrow> concat (map (\<lambda>(i, l). line_findings i l) (zip [1..<Suc (length lines)] lines)) @
         (if list_ex sets_user lines then [] else [runs_as_root]) @
         (if list_ex sets_healthcheck lines then [] else [no_healthcheck]))"

text \<open>Only the user a Dockerfile ends with counts, but the scan is content with any: an image that switches to a user and
  back to root is not reported.\<close>

lemma line_finding_lines: "f \<in> set (concat (map (\<lambda>(i, l). line_findings i l) (zip [1..<Suc n] lines))) \<Longrightarrow> af_line f \<noteq> 0"
  by (auto simp: line_findings_def note_at_def Let_def dest!: set_zip_leftD split: if_splits)

theorem root_reported_iff: "runs_as_root \<in> set (scan_dockerfile (Some lines)) \<longleftrightarrow> \<not> list_ex sets_user lines"
proof -
  have "af_line runs_as_root = 0" by (simp add: runs_as_root_def note_at_def)
  then have "runs_as_root \<notin> set (concat (map (\<lambda>(i, l). line_findings i l) (zip [1..<Suc (length lines)] lines)))"
    using line_finding_lines by metis
  moreover have "runs_as_root \<noteq> no_healthcheck" by (simp add: runs_as_root_def no_healthcheck_def note_at_def)
  ultimately show ?thesis by (simp add: scan_dockerfile_def del: upt_Suc)
qed

theorem return_to_root_unreported: "runs_as_root \<notin> set (scan_dockerfile (Some (ls @ [''USER app'', ''USER root''])))"
proof -
  have "sets_user ''USER app''" by code_simp
  then show ?thesis by (simp add: root_reported_iff)
qed

subsection \<open>vulnerability\_scanner.py\<close>

record vulnerability =
  vf_severity :: string
  vf_type :: string
  vf_path :: string
  vf_line :: nat
  vf_description :: string

definition call_re :: "string \<Rightarrow> re" where
  "call_re name = seqs [lit name, Star space, lit ''('']"

definition secret_char :: re where
  "secret_char = Sat (\<lambda>c. is_ascii_letter c \<or> is_digit c \<or> c = CHR ''_'' \<or> c = CHR ''-'')"

definition quote_char :: re where
  "quote_char = one_of [CHR 0x27, CHR 0x22]"

definition hardcoded_re :: re where
  "hardcoded_re = seqs [alts (map lit_ci [''secret'', ''password'', ''api_key'']), Star space, lit ''='', Star space,
     quote_char, times 8 secret_char, Star secret_char, quote_char]"

definition dangerous_patterns :: "(re \<times> string \<times> string) list" where
  "dangerous_patterns =
     [(call_re ''eval'', ''HIGH'', ''Use of unsafe eval() call''), (call_re ''exec'', ''HIGH'', ''Use of unsafe exec() call''),
      (call_re ''os.system'', ''MEDIUM'', ''Use of os.system() instead of subprocess with shell=False''),
      (call_re ''pickle.loads'', ''CRITICAL'', ''Unsafe pickle deserialization''),
      (hardcoded_re, ''HIGH'', ''Possible hardcoded secret/API key'')]"

definition scan_line :: "string \<Rightarrow> nat \<Rightarrow> string \<Rightarrow> vulnerability list" where
  "scan_line path idx line = map (\<lambda>(r, severity, desc). \<lparr>vf_severity = severity, vf_type = ''SAST_FINDING'', vf_path = path,
     vf_line = idx, vf_description = desc\<rparr>) (filter (\<lambda>(r, _). found r line) dangerous_patterns)"

text \<open>\<open>os.walk\<close>: each directory with its files; a file's lines are \<^term>\<open>None\<close> where reading it raises.\<close>

type_synonym walk = "(string \<times> (string \<times> string list option) list) list"

definition skipped_dir :: "string \<Rightarrow> bool" where
  "skipped_dir base \<longleftrightarrow> contains ''.venv'' base \<or> contains ''.git'' base \<or> contains ''__pycache__'' base"

definition scan_file :: "string \<Rightarrow> string \<times> string list option \<Rightarrow> vulnerability list" where
  "scan_file base f = (if \<not> ends_with ''.py'' (fst f) then []
     else case snd f of
       None \<Rightarrow> []
     | Some lines \<Rightarrow> concat (map (\<lambda>(i, l). scan_line (base @ ''/'' @ fst f) i l) (zip [1..<Suc (length lines)] lines)))"

definition run_sast_scan :: "walk \<Rightarrow> vulnerability list" where
  "run_sast_scan dirs = concat (map (\<lambda>(base, files). if skipped_dir base then [] else concat (map (scan_file base) files)) dirs)"

definition audit_dependencies :: "string list option \<Rightarrow> (string \<times> string \<times> string) list" where
  "audit_dependencies file = (case file of
       None \<Rightarrow> []
     | Some lines \<Rightarrow> map (\<lambda>l. (l, ''LOW'', ''Unpinned dependency version''))
         (filter (\<lambda>l. l \<noteq> [] \<and> \<not> starts_with ''#'' l \<and> \<not> contains ''=='' l \<and> \<not> contains ''>='' l) (map strip lines)))"

text \<open>Under a directory whose path merely contains \<open>.git\<close>, as \<open>/home/user/site.github.io\<close>, nothing is scanned at all.\<close>

lemma contains_more: "contains p s \<Longrightarrow> contains p (s @ t)"
  unfolding contains_iff sublist_def by (metis append_assoc)

theorem blind_under_git_path:
  assumes "\<And>base files. (base, files) \<in> set dirs \<Longrightarrow> \<exists>rest. base = root_dir @ rest" "contains ''.git'' root_dir"
  shows "run_sast_scan dirs = []"
proof -
  have "skipped_dir base" if "(base, files) \<in> set dirs" for base files
    using assms(1) [OF that] contains_more [OF assms(2)] unfolding skipped_dir_def by metis
  then show ?thesis by (auto simp: run_sast_scan_def concat_eq_Nil_conv)
qed

lemma numbered_lines:
  "v \<in> set (concat (map (\<lambda>(i, l). f i l) (zip [1..<Suc (length lines)] lines))) \<longleftrightarrow>
     (\<exists>i < length lines. v \<in> set (f (Suc i) (lines ! i)))"
proof -
  have "zip [1..<Suc (length lines)] lines = map (\<lambda>i. (Suc i, lines ! i)) [0..<length lines]"
    by (rule nth_equalityI) (simp_all add: nth_upt del: upt_Suc)
  then show ?thesis by (auto simp del: upt_Suc)
qed

text \<open>Elsewhere a line is reported for each pattern it matches, and for nothing else.\<close>

theorem sast_reports_matches:
  "v \<in> set (run_sast_scan dirs) \<longleftrightarrow> (\<exists>base files name lines i r sev desc.
     (base, files) \<in> set dirs \<and> \<not> skipped_dir base \<and> (name, Some lines) \<in> set files \<and> ends_with ''.py'' name \<and>
     i < length lines \<and> (r, sev, desc) \<in> set dangerous_patterns \<and> found r (lines ! i) \<and>
     v = \<lparr>vf_severity = sev, vf_type = ''SAST_FINDING'', vf_path = base @ ''/'' @ name, vf_line = Suc i, vf_description = desc\<rparr>)"
proof -
  have line: "v \<in> set (scan_line p k l) \<longleftrightarrow> (\<exists>r sev desc. (r, sev, desc) \<in> set dangerous_patterns \<and> found r l \<and>
      v = \<lparr>vf_severity = sev, vf_type = ''SAST_FINDING'', vf_path = p, vf_line = k, vf_description = desc\<rparr>)" for p k l
    by (force simp: scan_line_def)
  have per_file: "v \<in> set (scan_file base f) \<longleftrightarrow> (\<exists>lines i. ends_with ''.py'' (fst f) \<and> snd f = Some lines \<and> i < length lines \<and>
      v \<in> set (scan_line (base @ ''/'' @ fst f) (Suc i) (lines ! i)))" for base f
  proof (cases "ends_with ''.py'' (fst f)")
    case True
    then show ?thesis
      by (cases "snd f") (simp_all only: scan_file_def numbered_lines option.case not_True_eq_False if_False, auto)
  qed (simp add: scan_file_def)
  have "v \<in> set (run_sast_scan dirs) \<longleftrightarrow> (\<exists>base files f. (base, files) \<in> set dirs \<and> \<not> skipped_dir base \<and> f \<in> set files \<and>
      v \<in> set (scan_file base f))"
    by (force simp: run_sast_scan_def split: if_splits)
  then show ?thesis unfolding per_file line by (auto; metis)
qed

subsection \<open>dnssec.py\<close>

text \<open>The resolver raises an exception with a text, or answers with the flags of the response, if there is one, and the
  records.\<close>

definition AD_flag :: nat where
  "AD_flag = 0x20"

definition is_dnssec_authenticated :: "nat option \<times> string list \<Rightarrow> bool" where
  "is_dnssec_authenticated answer = (case answer of (flags, records) \<Rightarrow> (case flags of
       None \<Rightarrow> False
     | Some f \<Rightarrow> records \<noteq> [] \<and> f AND AD_flag \<noteq> 0))"

definition resolve_with_dnssec :: "(string + nat option \<times> string list) \<Rightarrow> string list \<times> bool \<times> string" where
  "resolve_with_dnssec answer = (case answer of
       Inl e \<Rightarrow> ([], False, ''DNS query error: '' @ e)
     | Inr a \<Rightarrow> (let secure = is_dnssec_authenticated a in
         (snd a, secure, if secure then ''DNSSEC validated (AD flag set)'' else ''DNSSEC not enforced by resolver (no AD flag)'')))"

text \<open>An answer counts as secure exactly when the sixth bit of the flags is set; a failed query gives no record.\<close>

theorem dnssec_secure_iff:
  "fst (snd (resolve_with_dnssec r)) \<longleftrightarrow> (\<exists>f rs. r = Inr (Some f, rs) \<and> rs \<noteq> [] \<and> bit f 5)"
proof -
  have ad: "AD_flag = 2 ^ 5" by (simp add: AD_flag_def)
  have "f AND AD_flag \<noteq> 0 \<longleftrightarrow> bit f 5" for f :: nat
    unfolding ad by (simp only: and_exp_eq_0_iff_not_bit not_not)
  then have "is_dnssec_authenticated a \<longleftrightarrow> (\<exists>f rs. a = (Some f, rs) \<and> rs \<noteq> [] \<and> bit f 5)" for a
    unfolding is_dnssec_authenticated_def by (cases a) (simp split: option.split)
  then show ?thesis
    by (cases r) (simp_all add: resolve_with_dnssec_def Let_def)
qed

subsection \<open>segmentation.py\<close>

type_synonym routes = "(string \<times> string \<times> string) list"

text \<open>Method, path and the handler of \<open>app.py\<close>.\<close>

definition core_routes :: routes where
  "core_routes = [(''GET'', ''/healthz'', ''healthz''), (''GET'', ''/readyz'', ''readyz'')]"

definition inbound_app :: routes where
  "inbound_app = core_routes @
     [(''POST'', ''/webhooks/sendgrid/inbound/{secret}'', ''sendgrid_inbound''), (''POST'', ''/webhooks/mailgun/inbound'', ''mailgun_inbound''),
      (''POST'', ''/webhooks/aws/ses'', ''aws_ses_inbound''), (''POST'', ''/webhooks/postmark/inbound'', ''postmark_inbound''),
      (''POST'', ''/webhooks/m365/graph'', ''m365_graph_inbound''), (''POST'', ''/webhooks/google/pubsub'', ''google_pubsub_inbound''),
      (''GET'', ''/toc/redirect'', ''time_of_click_redirect''), (''POST'', ''/api/v1/report-phish'', ''report_phish_endpoint'')]"

definition admin_app :: routes where
  "admin_app = core_routes @
     [(''GET'', ''/admin/quarantine'', ''list_quarantine''), (''GET'', ''/admin/quarantine/{quarantine_id}'', ''get_quarantine_item''),
      (''POST'', ''/admin/quarantine/{quarantine_id}/release'', ''release_quarantine_item''),
      (''POST'', ''/admin/quarantine/{quarantine_id}/reject'', ''reject_quarantine_item''),
      (''POST'', ''/admin/zap'', ''admin_zap_endpoint''), (''POST'', ''/admin/digest/send'', ''send_quarantine_digest''),
      (''GET'', ''/admin/tenants'', ''list_tenants''), (''POST'', ''/admin/tenants'', ''create_tenant''),
      (''GET'', ''/admin/tenants/{tenant_id}'', ''get_tenant''), (''PUT'', ''/admin/tenants/{tenant_id}'', ''update_tenant'')]"

definition create_gateway_apps :: "routes \<times> routes" where
  "create_gateway_apps = (inbound_app, admin_app)"

text \<open>The two applications share the health checks only: no administration path is reachable from outside, and no webhook
  from inside. Each path and method has one handler.\<close>

theorem applications_are_separate:
  "r \<in> set inbound_app \<Longrightarrow> \<not> starts_with ''/admin'' (fst (snd r))"
  "r \<in> set admin_app \<Longrightarrow> \<not> starts_with ''/webhooks'' (fst (snd r))"
  "set inbound_app \<inter> set admin_app = set core_routes"
  "distinct (map (\<lambda>(m, p, h). (m, p)) inbound_app)" "distinct (map (\<lambda>(m, p, h). (m, p)) admin_app)"
proof -
  have i: "list_all (\<lambda>r. \<not> starts_with ''/admin'' (fst (snd r))) inbound_app" by code_simp
  have a: "list_all (\<lambda>r. \<not> starts_with ''/webhooks'' (fst (snd r))) admin_app" by code_simp
  show "r \<in> set inbound_app \<Longrightarrow> \<not> starts_with ''/admin'' (fst (snd r))" using i by (simp add: list_all_iff)
  show "r \<in> set admin_app \<Longrightarrow> \<not> starts_with ''/webhooks'' (fst (snd r))" using a by (simp add: list_all_iff)
  have "filter (\<lambda>r. r \<in> set admin_app) inbound_app = core_routes" by code_simp
  moreover have "set inbound_app \<inter> set admin_app = set (filter (\<lambda>r. r \<in> set admin_app) inbound_app)"
    by (simp only: set_filter) blast
  ultimately show "set inbound_app \<inter> set admin_app = set core_routes" by (simp only:)
  show "distinct (map (\<lambda>(m, p, h). (m, p)) inbound_app)" by code_simp
  show "distinct (map (\<lambda>(m, p, h). (m, p)) admin_app)" by code_simp
qed

text \<open>But no one can log in at the separate administration application, and the figures its description promises are not
  there: neither route is registered.\<close>

theorem admin_app_lacks_login:
  "\<not> list_ex (\<lambda>r. starts_with ''/admin/auth'' (fst (snd r)) \<or> starts_with ''/admin/ui'' (fst (snd r))) admin_app"
  by code_simp

end
