(* ===== verification/Translations.thy ===== *)
theory Translations
  imports UnicodeText
begin

text \<open>
  \<open>admin_ui/i18n.py\<close>: the texts of the dashboard in seven languages and the functions that look them up. A text is a
  list of code points; a locale is a dictionary from keys to texts.
\<close>

subsection \<open>The tables\<close>

type_synonym text_table = "(string, utext) dict"

definition en_texts :: text_table where
  "en_texts = [
     (''brand'', u ''Email Auth Gateway SOC''),
     (''tab_dashboard'', u ''Dashboard''),
     (''tab_quarantine'', u ''Quarantine Queue''),
     (''tab_audit'', u ''Audit Logs''),
     (''tab_alerts'', u ''High-Risk Alerts''),
     (''tab_policy'', u ''Policy Config''),
     (''metric_total_24h'', u ''Total Processed (24h)''),
     (''metric_total_sub'', u ''+12% vs yesterday''),
     (''metric_pending'', u ''Pending Quarantine''),
     (''metric_pending_sub'', u ''Requires analyst review''),
     (''metric_fp'', u ''False Positive Rate''),
     (''metric_fp_sub'', u ''Derived from release actions''),
     (''metric_alerts'', u ''High-Risk Threat Detections''),
     (''metric_alerts_sub'', u ''Phishing / BEC / Malware''),
     (''search_quarantine_placeholder'', u ''Search by sender, subject, score...''),
     (''release_selected'', u ''Release Selected''),
     (''reject_selected'', u ''Reject Selected''),
     (''search_audit_placeholder'', u ''Search audit trail...''),
     (''search_audit_btn'', u ''Search Audit Logs''),
     (''th_select'', u ''Select''),
     (''th_id'', u ''Quarantine ID''),
     (''th_sender'', u ''Sender''),
     (''th_recipient'', u ''Recipient(s)''),
     (''th_score'', u ''Risk Score''),
     (''th_action'', u ''Action''),
     (''th_actions'', u ''Actions''),
     (''th_timestamp'', u ''Timestamp''),
     (''th_actor'', u ''Actor''),
     (''th_event_type'', u ''Event Type''),
     (''th_details'', u ''Details''),
     (''th_subject'', u ''Subject''),
     (''th_threat_reasons'', u ''Threat Reasons''),
     (''btn_preview'', u ''Preview''),
     (''btn_release'', u ''Release''),
     (''btn_reject'', u ''Reject''),
     (''btn_close'', u ''Close''),
     (''modal_preview_title'', u ''Sanitized Safe Email Preview''),
     (''modal_loading'', u ''Loading sanitized preview...''),
     (''policy_title'', u ''Dynamic Policy & Threshold Configurator''),
     (''policy_desc'', u ''Adjust dynamic threat scoring thresholds without requiring system restarts.''),
     (''policy_warn_label'', u ''Warn Threshold Score:''),
     (''policy_quarantine_label'', u ''Quarantine Threshold Score:''),
     (''btn_save_policy'', u ''Save Policy Configuration''),
     (''lang_selector_label'', u ''Language''),
     (''tz_selector_label'', u ''Timezone''),
     (''audit_empty_hint'', u ''Enter query to search audit logs.'')]"

definition es_texts :: text_table where
  "es_texts = [
     (''brand'', u ''SOC Pasarela de Autenticaci'' @ [243] @ u ''n de Correo''),
     (''tab_dashboard'', u ''Panel de Control''),
     (''tab_quarantine'', u ''Cola de Cuarentena''),
     (''tab_audit'', u ''Registros de Auditor'' @ [237] @ u ''a''),
     (''tab_alerts'', u ''Alertas de Alto Riesgo''),
     (''tab_policy'', u ''Configuraci'' @ [243] @ u ''n de Pol'' @ [237] @ u ''ticas''),
     (''metric_total_24h'', u ''Total Procesado (24h)''),
     (''metric_total_sub'', u ''+12% vs ayer''),
     (''metric_pending'', u ''En Cuarentena Pendiente''),
     (''metric_pending_sub'', u ''Requiere revisi'' @ [243] @ u ''n de analista''),
     (''metric_fp'', u ''Tasa de Falsos Positivos''),
     (''metric_fp_sub'', u ''Derivado de liberaciones''),
     (''metric_alerts'', u ''Amenazas de Alto Riesgo''),
     (''metric_alerts_sub'', u ''Phishing / BEC / Malware''),
     (''search_quarantine_placeholder'', u ''Buscar por remitente, asunto, puntaje...''),
     (''release_selected'', u ''Liberar Seleccionados''),
     (''reject_selected'', u ''Rechazar Seleccionados''),
     (''search_audit_placeholder'', u ''Buscar en registros de auditor'' @ [237] @ u ''a...''),
     (''search_audit_btn'', u ''Buscar Auditor'' @ [237] @ u ''a''),
     (''th_select'', u ''Seleccionar''),
     (''th_id'', u ''ID de Cuarentena''),
     (''th_sender'', u ''Remitente''),
     (''th_recipient'', u ''Destinatario(s)''),
     (''th_score'', u ''Puntuaci'' @ [243] @ u ''n de Riesgo''),
     (''th_action'', u ''Acci'' @ [243] @ u ''n''),
     (''th_actions'', u ''Acciones''),
     (''th_timestamp'', u ''Marca de Tiempo''),
     (''th_actor'', u ''Actor''),
     (''th_event_type'', u ''Tipo de Evento''),
     (''th_details'', u ''Detalles''),
     (''th_subject'', u ''Asunto''),
     (''th_threat_reasons'', u ''Razones de Amenaza''),
     (''btn_preview'', u ''Vista Previa''),
     (''btn_release'', u ''Liberar''),
     (''btn_reject'', u ''Rechazar''),
     (''btn_close'', u ''Cerrar''),
     (''modal_preview_title'', u ''Vista Previa Segura y Sanitizada''),
     (''modal_loading'', u ''Cargando vista previa...''),
     (''policy_title'', u ''Configurador Din'' @ [225] @ u ''mico de Pol'' @ [237] @ u ''ticas y Umbrales''),
     (''policy_desc'', u ''Ajuste los umbrales de puntuaci'' @ [243] @ u ''n de amenazas sin reiniciar el sistema.''),
     (''policy_warn_label'', u ''Puntuaci'' @ [243] @ u ''n de Advertencia:''),
     (''policy_quarantine_label'', u ''Puntuaci'' @ [243] @ u ''n de Cuarentena:''),
     (''btn_save_policy'', u ''Guardar Configuraci'' @ [243] @ u ''n de Pol'' @ [237] @ u ''tica''),
     (''lang_selector_label'', u ''Idioma''),
     (''tz_selector_label'', u ''Zona Horaria''),
     (''audit_empty_hint'', u ''Ingrese una consulta para buscar registros de auditor'' @ [237] @ u ''a.'')]"

definition de_texts :: text_table where
  "de_texts = [
     (''brand'', u ''E-Mail-Auth-Gateway SOC''),
     (''tab_dashboard'', [220] @ u ''bersicht''),
     (''tab_quarantine'', u ''Quarant'' @ [228] @ u ''ne-Warteschlange''),
     (''tab_audit'', u ''Audit-Protokolle''),
     (''tab_alerts'', u ''Hochrisiko-Warnungen''),
     (''tab_policy'', u ''Richtlinienkonfiguration''),
     (''metric_total_24h'', u ''Gesamt verarbeitet (24h)''),
     (''metric_total_sub'', u ''+12% gg'' @ [252] @ u ''. gestern''),
     (''metric_pending'', u ''Ausstehende Quarant'' @ [228] @ u ''ne''),
     (''metric_pending_sub'', u ''Analystenpr'' @ [252] @ u ''fung erforderlich''),
     (''metric_fp'', u ''Falsch-Positiv-Rate''),
     (''metric_fp_sub'', u ''Aus Freigaben abgeleitet''),
     (''metric_alerts'', u ''Hochrisiko-Bedrohungen''),
     (''metric_alerts_sub'', u ''Phishing / BEC / Schadsoftware''),
     (''search_quarantine_placeholder'', u ''Nach Absender, Betreff, Punktzahl suchen...''),
     (''release_selected'', u ''Ausgew'' @ [228] @ u ''hlte freigeben''),
     (''reject_selected'', u ''Ausgew'' @ [228] @ u ''hlte ablehnen''),
     (''search_audit_placeholder'', u ''Audit-Protokolle durchsuchen...''),
     (''search_audit_btn'', u ''Audit durchsuchen''),
     (''th_select'', u ''Ausw'' @ [228] @ u ''hlen''),
     (''th_id'', u ''Quarant'' @ [228] @ u ''ne-ID''),
     (''th_sender'', u ''Absender''),
     (''th_recipient'', u ''Empf'' @ [228] @ u ''nger''),
     (''th_score'', u ''Risikobewertung''),
     (''th_action'', u ''Aktion''),
     (''th_actions'', u ''Aktionen''),
     (''th_timestamp'', u ''Zeitstempel''),
     (''th_actor'', u ''Akteur''),
     (''th_event_type'', u ''Ereignistyp''),
     (''th_details'', u ''Details''),
     (''th_subject'', u ''Betreff''),
     (''th_threat_reasons'', u ''Bedrohungsgr'' @ [252] @ u ''nde''),
     (''btn_preview'', u ''Vorschau''),
     (''btn_release'', u ''Freigeben''),
     (''btn_reject'', u ''Ablehnen''),
     (''btn_close'', u ''Schlie'' @ [223] @ u ''en''),
     (''modal_preview_title'', u ''Bereinigte sichere E-Mail-Vorschau''),
     (''modal_loading'', u ''Vorschau wird geladen...''),
     (''policy_title'', u ''Dynamische Richtlinien- und Schwellenwertkonfiguration''),
     (''policy_desc'', u ''Passen Sie Bewertungsschwellen ohne Systemneustart an.''),
     (''policy_warn_label'', u ''Warnschwellenwert:''),
     (''policy_quarantine_label'', u ''Quarant'' @ [228] @ u ''ne-Schwellenwert:''),
     (''btn_save_policy'', u ''Richtlinie speichern''),
     (''lang_selector_label'', u ''Sprache''),
     (''tz_selector_label'', u ''Zeitzone''),
     (''audit_empty_hint'', u ''Geben Sie eine Suchanfrage f'' @ [252] @ u ''r Audit-Protokolle ein.'')]"

definition fr_texts :: text_table where
  "fr_texts = [
     (''brand'', u ''SOC Passerelle d'' @ [39] @ u ''Authentification Email''),
     (''tab_dashboard'', u ''Tableau de Bord''),
     (''tab_quarantine'', u ''File de Quarantaine''),
     (''tab_audit'', u ''Journaux d'' @ [39] @ u ''Audit''),
     (''tab_alerts'', u ''Alertes '' @ [224] @ u '' Haut Risque''),
     (''tab_policy'', u ''Configuration des Politiques''),
     (''metric_total_24h'', u ''Total Trait'' @ [233] @ u '' (24h)''),
     (''metric_total_sub'', u ''+12% vs hier''),
     (''metric_pending'', u ''En Attente de Quarantaine''),
     (''metric_pending_sub'', u ''N'' @ [233] @ u ''cessite examen analyste''),
     (''metric_fp'', u ''Taux de Faux Positifs''),
     (''metric_fp_sub'', u ''D'' @ [233] @ u ''riv'' @ [233] @ u '' des lib'' @ [233] @ u ''rations''),
     (''metric_alerts'', u ''Menaces '' @ [224] @ u '' Haut Risque''),
     (''metric_alerts_sub'', u ''Hame'' @ [231] @ u ''onnage / BEC / Maliciel''),
     (''search_quarantine_placeholder'', u ''Recherche par exp'' @ [233] @ u ''diteur, objet, score...''),
     (''release_selected'', u ''Lib'' @ [233] @ u ''rer la S'' @ [233] @ u ''lection''),
     (''reject_selected'', u ''Rejeter la S'' @ [233] @ u ''lection''),
     (''search_audit_placeholder'', u ''Rechercher dans les journaux d'' @ [39] @ u ''audit...''),
     (''search_audit_btn'', u ''Rechercher l'' @ [39] @ u ''Audit''),
     (''th_select'', u ''S'' @ [233] @ u ''lectionner''),
     (''th_id'', u ''ID de Quarantaine''),
     (''th_sender'', u ''Exp'' @ [233] @ u ''diteur''),
     (''th_recipient'', u ''Destinataire(s)''),
     (''th_score'', u ''Score de Risque''),
     (''th_action'', u ''Action''),
     (''th_actions'', u ''Actions''),
     (''th_timestamp'', u ''Horodatage''),
     (''th_actor'', u ''Acteur''),
     (''th_event_type'', u ''Type d'' @ [39, 201] @ u ''v'' @ [233] @ u ''nement''),
     (''th_details'', u ''D'' @ [233] @ u ''tails''),
     (''th_subject'', u ''Objet''),
     (''th_threat_reasons'', u ''Raisons de la Menace''),
     (''btn_preview'', u ''Aper'' @ [231] @ u ''u''),
     (''btn_release'', u ''Lib'' @ [233] @ u ''rer''),
     (''btn_reject'', u ''Rejeter''),
     (''btn_close'', u ''Fermer''),
     (''modal_preview_title'', u ''Aper'' @ [231] @ u ''u Email S'' @ [233] @ u ''curis'' @ [233] @ u '' et Assaini''),
     (''modal_loading'', u ''Chargement de l'' @ [39] @ u ''aper'' @ [231] @ u ''u...''),
     (''policy_title'', u ''Configurateur Dynamique de Politiques et Seuils''),
     (''policy_desc'', u ''Ajustez les seuils d'' @ [39, 233] @ u ''valuation des menaces sans red'' @ [233] @ u ''marrer le syst'' @ [232] @ u ''me.''),
     (''policy_warn_label'', u ''Seuil d'' @ [39] @ u ''Avertissement:''),
     (''policy_quarantine_label'', u ''Seuil de Quarantaine:''),
     (''btn_save_policy'', u ''Enregistrer la Politique''),
     (''lang_selector_label'', u ''Langue''),
     (''tz_selector_label'', u ''Fuseau Horaire''),
     (''audit_empty_hint'', u ''Saisissez une requ'' @ [234] @ u ''te pour rechercher les journaux d'' @ [39] @ u ''audit.'')]"

definition ja_texts :: text_table where
  "ja_texts = [
     (''brand'', [12513, 12540, 12523, 35469, 35388, 12466, 12540, 12488, 12454, 12455, 12452] @ u '' SOC''),
     (''tab_dashboard'', [12480, 12483, 12471, 12517, 12508, 12540, 12489]),
     (''tab_quarantine'', [38548, 38626, 12461, 12517, 12540]),
     (''tab_audit'', [30435, 26619, 12525, 12464]),
     (''tab_alerts'', [39640, 12522, 12473, 12463, 12450, 12521, 12540, 12488]),
     (''tab_policy'', [12509, 12522, 12471, 12540, 35373, 23450]),
     (''metric_total_24h'', [20966, 29702, 28168, 12415, 32207, 25968] @ u '' (24h)''),
     (''metric_total_sub'', [21069, 26085, 27604] @ u '' +12%''),
     (''metric_pending'', [20445, 30041, 20013, 12398, 38548, 38626]),
     (''metric_pending_sub'', [12450, 12490, 12522, 12473, 12488, 12398, 30906, 35469, 12364, 24517, 35201]),
     (''metric_fp'', [35492, 26908, 30693, 29575]),
     (''metric_fp_sub'', [38548, 38626, 35299, 38500, 12450, 12463, 12471, 12519, 12531, 12363, 12425, 31639, 20986]),
     (''metric_alerts'', [39640, 12522, 12473, 12463, 33029, 23041, 26908, 20986, 25968]),
     (''metric_alerts_sub'', [12501, 12451, 12483, 12471, 12531, 12464] @ u '' / BEC / '' @ [12510, 12523, 12454, 12455, 12450]),
     (''search_quarantine_placeholder'', [36865, 20449, 32773, 12289, 20214, 21517, 12289, 12473, 12467, 12450, 12391, 26908, 32034] @ u ''...''),
     (''release_selected'', [36984, 25246, 38917, 30446, 12434, 35299, 38500]),
     (''reject_selected'', [36984, 25246, 38917, 30446, 12434, 25298, 21542]),
     (''search_audit_placeholder'', [30435, 26619, 12525, 12464, 12434, 26908, 32034] @ u ''...''),
     (''search_audit_btn'', [30435, 26619, 12525, 12464, 12434, 26908, 32034]),
     (''th_select'', [36984, 25246]),
     (''th_id'', [38548, 38626] @ u ''ID''),
     (''th_sender'', [36865, 20449, 32773]),
     (''th_recipient'', [23451, 20808]),
     (''th_score'', [12522, 12473, 12463, 12473, 12467, 12450]),
     (''th_action'', [12450, 12463, 12471, 12519, 12531]),
     (''th_actions'', [25805, 20316]),
     (''th_timestamp'', [12479, 12452, 12512, 12473, 12479, 12531, 12503]),
     (''th_actor'', [23455, 34892, 32773]),
     (''th_event_type'', [12452, 12505, 12531, 12488, 31278, 21029]),
     (''th_details'', [35443, 32048]),
     (''th_subject'', [20214, 21517]),
     (''th_threat_reasons'', [33029, 23041, 26908, 20986, 29702, 30001]),
     (''btn_preview'', [12503, 12524, 12499, 12517, 12540]),
     (''btn_release'', [35299, 38500]),
     (''btn_reject'', [25298, 21542]),
     (''btn_close'', [38281, 12376, 12427]),
     (''modal_preview_title'', [28961, 23475, 21270, 28168, 12415, 23433, 20840, 12513, 12540, 12523, 12503, 12524, 12499, 12517, 12540]),
     (''modal_loading'', [23433, 20840, 12394, 12503, 12524, 12499, 12517, 12540, 12434, 35501, 12415, 36796, 12415, 20013] @ u ''...''),
     (''policy_title'', [21205, 30340, 12509, 12522, 12471, 12540, 12362, 12424, 12403, 12375, 12365, 12356, 20516, 35373, 23450]),
     (''policy_desc'', [12471, 12473, 12486, 12512, 12434, 20877, 36215, 21205, 12377, 12427, 12371, 12392, 12394, 12367, 12289, 33029, 23041, 12473, 12467, 12450, 12398, 12375, 12365, 12356, 20516, 12434, 35519, 25972, 12375, 12414, 12377, 12290]),
     (''policy_warn_label'', [35686, 21578, 12375, 12365, 12356, 20516, 12473, 12467, 12450] @ u '':''),
     (''policy_quarantine_label'', [38548, 38626, 12375, 12365, 12356, 20516, 12473, 12467, 12450] @ u '':''),
     (''btn_save_policy'', [12509, 12522, 12471, 12540, 35373, 23450, 12434, 20445, 23384]),
     (''lang_selector_label'', [35328, 35486]),
     (''tz_selector_label'', [12479, 12452, 12512, 12478, 12540, 12531]),
     (''audit_empty_hint'', [12463, 12456, 12522, 12434, 20837, 21147, 12375, 12390, 30435, 26619, 12525, 12464, 12434, 26908, 32034, 12375, 12390, 12367, 12384, 12373, 12356, 12290])]"

definition zh_texts :: text_table where
  "zh_texts = [
     (''brand'', [37038, 20214, 23433, 20840, 35748, 35777, 32593, 20851] @ u '' SOC''),
     (''tab_dashboard'', [20202, 34920, 26495]),
     (''tab_quarantine'', [38548, 31163, 38431, 21015]),
     (''tab_audit'', [23457, 35745, 26085, 24535]),
     (''tab_alerts'', [39640, 21361, 21578, 35686]),
     (''tab_policy'', [31574, 30053, 37197, 32622]),
     (''metric_total_24h'', u ''24'' @ [23567, 26102, 22788, 29702, 24635, 37327]),
     (''metric_total_sub'', [36739, 26152, 26085] @ u '' +12%''),
     (''metric_pending'', [24453, 23457, 26680, 38548, 31163]),
     (''metric_pending_sub'', [38656, 35201, 20998, 26512, 24072, 23457, 26597]),
     (''metric_fp'', [35823, 25253, 29575]),
     (''metric_fp_sub'', [28304, 33258, 25918, 34892, 25805, 20316]),
     (''metric_alerts'', [39640, 21361, 23041, 32961, 26816, 20986, 25968]),
     (''metric_alerts_sub'', [38035, 40060] @ u '' / BEC / '' @ [24694, 24847, 36719, 20214]),
     (''search_quarantine_placeholder'', [25353, 21457, 20214, 20154, 12289, 20027, 39064, 12289, 35780, 20998, 25628, 32034] @ u ''...''),
     (''release_selected'', [25918, 34892, 25152, 36873]),
     (''reject_selected'', [25298, 32477, 25152, 36873]),
     (''search_audit_placeholder'', [25628, 32034, 23457, 35745, 26085, 24535] @ u ''...''),
     (''search_audit_btn'', [25628, 32034, 26085, 24535]),
     (''th_select'', [36873, 25321]),
     (''th_id'', [38548, 31163] @ u ''ID''),
     (''th_sender'', [21457, 20214, 20154]),
     (''th_recipient'', [25910, 20214, 20154]),
     (''th_score'', [39118, 38505, 35780, 20998]),
     (''th_action'', [21160, 20316]),
     (''th_actions'', [25805, 20316]),
     (''th_timestamp'', [26102, 38388, 25139]),
     (''th_actor'', [25805, 20316, 21592]),
     (''th_event_type'', [20107, 20214, 31867, 22411]),
     (''th_details'', [35814, 24773]),
     (''th_subject'', [20027, 39064]),
     (''th_threat_reasons'', [23041, 32961, 21407, 22240]),
     (''btn_preview'', [39044, 35272]),
     (''btn_release'', [25918, 34892]),
     (''btn_reject'', [25298, 32477]),
     (''btn_close'', [20851, 38381]),
     (''modal_preview_title'', [24050, 20928, 21270, 23433, 20840, 37038, 20214, 39044, 35272]),
     (''modal_loading'', [27491, 22312, 21152, 36733, 39044, 35272] @ u ''...''),
     (''policy_title'', [21160, 24577, 31574, 30053, 19982, 38408, 20540, 37197, 32622, 22120]),
     (''policy_desc'', [26080, 38656, 37325, 21551, 31995, 32479, 21363, 21487, 35843, 25972, 23041, 32961, 35780, 20998, 38408, 20540, 12290]),
     (''policy_warn_label'', [35686, 21578, 38408, 20540, 35780, 20998] @ u '':''),
     (''policy_quarantine_label'', [38548, 31163, 38408, 20540, 35780, 20998] @ u '':''),
     (''btn_save_policy'', [20445, 23384, 31574, 30053, 37197, 32622]),
     (''lang_selector_label'', [35821, 35328]),
     (''tz_selector_label'', [26102, 21306]),
     (''audit_empty_hint'', [35831, 36755, 20837, 26597, 35810, 20851, 38190, 35789, 20197, 25628, 32034, 23457, 35745, 26085, 24535, 12290])]"

definition pt_texts :: text_table where
  "pt_texts = [
     (''brand'', u ''SOC Gateway de Autentica'' @ [231, 227] @ u ''o de E-mail''),
     (''tab_dashboard'', u ''Painel de Controle''),
     (''tab_quarantine'', u ''Fila de Quarentena''),
     (''tab_audit'', u ''Logs de Auditoria''),
     (''tab_alerts'', u ''Alertas de Alto Risco''),
     (''tab_policy'', u ''Configura'' @ [231, 227] @ u ''o de Pol'' @ [237] @ u ''ticas''),
     (''metric_total_24h'', u ''Total Processado (24h)''),
     (''metric_total_sub'', u ''+12% vs ontem''),
     (''metric_pending'', u ''Quarentena Pendente''),
     (''metric_pending_sub'', u ''Requer revis'' @ [227] @ u ''o de analista''),
     (''metric_fp'', u ''Taxa de Falsos Positivos''),
     (''metric_fp_sub'', u ''Derivado de libera'' @ [231, 245] @ u ''es''),
     (''metric_alerts'', u ''Amea'' @ [231] @ u ''as de Alto Risco''),
     (''metric_alerts_sub'', u ''Phishing / BEC / Malware''),
     (''search_quarantine_placeholder'', u ''Pesquisar por remetente, assunto, pontua'' @ [231, 227] @ u ''o...''),
     (''release_selected'', u ''Liberar Selecionados''),
     (''reject_selected'', u ''Rejeitar Selecionados''),
     (''search_audit_placeholder'', u ''Pesquisar logs de auditoria...''),
     (''search_audit_btn'', u ''Pesquisar Auditoria''),
     (''th_select'', u ''Selecionar''),
     (''th_id'', u ''ID de Quarentena''),
     (''th_sender'', u ''Remetente''),
     (''th_recipient'', u ''Destinat'' @ [225] @ u ''rio(s)''),
     (''th_score'', u ''Pontua'' @ [231, 227] @ u ''o de Risco''),
     (''th_action'', u ''A'' @ [231, 227] @ u ''o''),
     (''th_actions'', u ''A'' @ [231, 245] @ u ''es''),
     (''th_timestamp'', u ''Carimbo de Data/Hora''),
     (''th_actor'', u ''Autor''),
     (''th_event_type'', u ''Tipo de Evento''),
     (''th_details'', u ''Detalhes''),
     (''th_subject'', u ''Assunto''),
     (''th_threat_reasons'', u ''Motivos da Amea'' @ [231] @ u ''a''),
     (''btn_preview'', u ''Visualizar''),
     (''btn_release'', u ''Liberar''),
     (''btn_reject'', u ''Rejeitar''),
     (''btn_close'', u ''Fechar''),
     (''modal_preview_title'', u ''Visualiza'' @ [231, 227] @ u ''o Segura e Higienizada de E-mail''),
     (''modal_loading'', u ''Carregando visualiza'' @ [231, 227] @ u ''o...''),
     (''policy_title'', u ''Configurador Din'' @ [226] @ u ''mico de Pol'' @ [237] @ u ''ticas e Limiares''),
     (''policy_desc'', u ''Ajuste os limiares de pontua'' @ [231, 227] @ u ''o de amea'' @ [231] @ u ''as sem reiniciar o sistema.''),
     (''policy_warn_label'', u ''Pontua'' @ [231, 227] @ u ''o de Alerta:''),
     (''policy_quarantine_label'', u ''Pontua'' @ [231, 227] @ u ''o de Quarentena:''),
     (''btn_save_policy'', u ''Salvar Pol'' @ [237] @ u ''tica''),
     (''lang_selector_label'', u ''Idioma''),
     (''tz_selector_label'', u ''Fuso Hor'' @ [225] @ u ''rio''),
     (''audit_empty_hint'', u ''Insira uma consulta para pesquisar logs de auditoria.'')]"

definition supported_locales :: "string list" where
  "supported_locales = [''en'', ''es'', ''de'', ''fr'', ''ja'', ''zh'', ''pt'']"

definition all_texts :: "(string, text_table) dict" where
  "all_texts = [(''en'', en_texts), (''es'', es_texts), (''de'', de_texts), (''fr'', fr_texts), (''ja'', ja_texts), (''zh'', zh_texts), (''pt'', pt_texts)]"

subsection \<open>The functions\<close>

definition texts_of :: "string \<Rightarrow> text_table" where
  "texts_of lang = (case dget all_texts lang of Some b \<Rightarrow> if b = [] then en_texts else b | None \<Rightarrow> en_texts)"

definition get_translation :: "string \<Rightarrow> string \<Rightarrow> utext" where
  "get_translation key lang = (case dget (texts_of lang) key of
       Some t \<Rightarrow> if t \<noteq> [] then t else dgetd en_texts key (u key)
     | None \<Rightarrow> dgetd en_texts key (u key))"

definition get_translations_bundle :: "string \<Rightarrow> text_table" where
  "get_translations_bundle lang = (case dget all_texts lang of
       Some b \<Rightarrow> if lang \<noteq> ''en'' then foldl (\<lambda>d kv. dset d (fst kv) (snd kv)) en_texts b else en_texts
     | None \<Rightarrow> en_texts)"

definition get_all_translations :: "(string, text_table) dict" where
  "get_all_translations = all_texts"

subsection \<open>Completeness\<close>

text \<open>Every supported locale has a table, with the keys of the English one in their order, and no text is empty.\<close>

lemma locales_present: "map fst all_texts = supported_locales"
  by (simp add: all_texts_def supported_locales_def)

lemma tables_complete: "list_all (\<lambda>b. map fst (snd b) = map fst en_texts \<and> list_all (\<lambda>kv. snd kv \<noteq> []) (snd b)) all_texts"
  by code_simp

lemma keys_distinct: "distinct (map fst en_texts)"
  by code_simp

lemma locale_table:
  assumes "lang \<in> set supported_locales"
  shows "\<exists>b. dget all_texts lang = Some b \<and> map fst b = map fst en_texts \<and> (\<forall>k t. dget b k = Some t \<longrightarrow> t \<noteq> []) \<and> b \<noteq> []"
proof -
  have "lang \<in> set (map fst all_texts)" unfolding locales_present by (rule assms)
  then obtain b where b: "dget all_texts lang = Some b" by (metis map_of_eq_None_iff not_None_eq set_map)
  then have "(lang, b) \<in> set all_texts" by (rule map_of_SomeD)
  then have c: "map fst b = map fst en_texts" "\<forall>kv \<in> set b. snd kv \<noteq> []"
    using tables_complete unfolding list_all_iff by (metis snd_conv)+
  then have "t \<noteq> []" if "dget b k = Some t" for k t
    using map_of_SomeD [OF that] by (metis snd_conv)
  moreover have "b \<noteq> []" using c(1) by (auto simp: en_texts_def)
  ultimately show ?thesis using b c(1) by blast
qed

text \<open>So a known key of a supported locale is always shown in that locale: the fallback to English is never taken.\<close>

theorem supported_locale_translated:
  assumes "lang \<in> set supported_locales" "key \<in> fst ` set en_texts"
  shows "\<exists>b t. dget all_texts lang = Some b \<and> dget b key = Some t \<and> t \<noteq> [] \<and> get_translation key lang = t"
proof -
  obtain b where b: "dget all_texts lang = Some b" "map fst b = map fst en_texts"
      "\<And>k t. dget b k = Some t \<Longrightarrow> t \<noteq> []" "b \<noteq> []"
    using locale_table [OF assms(1)] by blast
  have "key \<in> fst ` set b" using assms(2) b(2) by (metis set_map)
  then obtain t where t: "dget b key = Some t" by (metis map_of_eq_None_iff not_None_eq)
  have "texts_of lang = b" using b(1,4) by (simp add: texts_of_def)
  then show ?thesis using b(1,3) t by (auto simp: get_translation_def)
qed

text \<open>Elsewhere the text is the English one, and a key nobody knows is shown itself.\<close>

theorem unknown_locale_english:
  assumes "lang \<notin> set supported_locales"
  shows "get_translation key lang = dgetd en_texts key (u key)" "get_translations_bundle lang = en_texts"
proof -
  have "lang \<notin> set (map fst all_texts)" unfolding locales_present by (rule assms)
  then have n: "dget all_texts lang = None" by (metis map_of_eq_None_iff set_map)
  then show "get_translations_bundle lang = en_texts" by (simp add: get_translations_bundle_def)
  show "get_translation key lang = dgetd en_texts key (u key)"
    using n by (auto simp: get_translation_def texts_of_def dgetd_def split: option.split)
qed

text \<open>The bundle of a supported locale answers every key as that locale does.\<close>

lemma foldl_dset: "distinct (map fst b) \<Longrightarrow> dget (foldl (\<lambda>d kv. dset d (fst kv) (snd kv)) d b) k =
    (case dget b k of Some t \<Rightarrow> Some t | None \<Rightarrow> dget d k)"
proof (induction b arbitrary: d)
  case (Cons kv b)
  have "dget b (fst kv) = None" using Cons.prems by (simp add: map_of_eq_None_iff)
  then show ?case using Cons by (cases kv) (auto split: option.split)
qed simp

theorem bundle_is_locale:
  assumes "lang \<in> set supported_locales" "dget all_texts lang = Some b"
  shows "dget (get_translations_bundle lang) key = dget b key"
proof -
  obtain b' where b': "dget all_texts lang = Some b'" "map fst b' = map fst en_texts"
    using locale_table [OF assms(1)] by blast
  then have keys: "map fst b = map fst en_texts" using assms(2) by simp
  then have d: "distinct (map fst b)" using keys_distinct by simp
  have none: "dget b key = None \<longleftrightarrow> dget en_texts key = None"
    using keys by (metis map_of_eq_None_iff set_map)
  show ?thesis
  proof (cases "lang = ''en''")
    case True
    then have "b = en_texts" using assms(2) by (simp add: all_texts_def)
    then show ?thesis using assms(2) True by (simp add: get_translations_bundle_def)
  next
    case False
    then have "get_translations_bundle lang = foldl (\<lambda>d kv. dset d (fst kv) (snd kv)) en_texts b"
      using assms(2) by (simp add: get_translations_bundle_def)
    then show ?thesis using none by (cases "dget b key") (simp_all only: foldl_dset [OF d] option.case simp_thms)
  qed
qed

end
