(* ===== verification/Rewriting.thy ===== *)
theory Rewriting
  imports Delivery
begin

text \<open>
  The rewriting of whole messages in \<open>delivery/modify.py\<close>: the subject warning, the stripping of attachments, the
  defanging of every text part, and the tag headers. A parsed message is its headers and a tree of parts, with the
  documented behaviour of \<open>email.message.EmailMessage\<close>; the parser and the generator of the \<open>email\<close> package are parameters.
\<close>

subsection \<open>Messages\<close>

text \<open>Of a part's headers, what the code and the methods it calls read. A leaf has the value of \<open>get_content()\<close> as a text,
  or what that raises; a part with sub-parts is no text.\<close>

record part_head =
  ph_main :: string
  ph_sub :: string
  ph_attachment :: bool
  ph_filename :: string
  ph_cid :: string
  ph_start :: string

datatype mime = Leaf (head_of: part_head) "string result" | Multi (head_of: part_head) "mime list"

record email =
  em_headers :: "(string \<times> string) list"
  em_body :: mime

definition is_header :: "string \<Rightarrow> string \<times> string \<Rightarrow> bool" where
  "is_header name h \<longleftrightarrow> lower (fst h) = lower name"

definition get_header :: "(string \<times> string) list \<Rightarrow> string \<Rightarrow> string option" where
  "get_header hs name = map_option snd (List.find (is_header name) hs)"

definition del_header :: "string \<Rightarrow> (string \<times> string) list \<Rightarrow> (string \<times> string) list" where
  "del_header name hs = filter (\<lambda>h. \<not> is_header name h) hs"

text \<open>\<open>msg[name] = value\<close> under \<open>policy.default\<close> adds a header; a value of more than one line is refused.\<close>

definition set_header :: "string \<Rightarrow> string \<Rightarrow> (string \<times> string) list \<Rightarrow> (string \<times> string) list result" where
  "set_header name val hs =
     (if length (splitlines val) > 1
      then Inl (ValueError ''Header values may not contain linefeed or carriage return characters'')
      else Inr (hs @ [(name, val)]))"

text \<open>\<open>set_content\<close> of a text: the part loses its content headers, the lines end in line feeds. A multipart refuses it.\<close>

fun unix_lines :: "bool \<Rightarrow> string \<Rightarrow> string" where
  "unix_lines after_cr [] = []"
| "unix_lines after_cr (c # s) =
     (if c = CHR 0x0D then CHR 0x0A # unix_lines True s
      else if c = CHR 0x0A \<and> after_cr then unix_lines False s
      else c # unix_lines False s)"

definition body_text :: "string \<Rightarrow> string" where
  "body_text s = (let t = unix_lines False s in if t \<noteq> [] \<and> last t = CHR 0x0A then t else t @ [CHR 0x0A])"

definition text_part :: "string \<Rightarrow> string \<Rightarrow> mime" where
  "text_part sub s = Leaf \<lparr>ph_main = ''text'', ph_sub = sub, ph_attachment = False, ph_filename = [], ph_cid = [], ph_start = []\<rparr>
     (Inr (body_text s))"

definition set_content :: "mime \<Rightarrow> string \<Rightarrow> string \<Rightarrow> mime result" where
  "set_content p sub s =
     (if ph_main (head_of p) = ''multipart'' then Inl (TypeError ''set_content not valid on multipart'') else Inr (text_part sub s))"

text \<open>\<open>iter_attachments\<close>, as a mark for each sub-part. The first part of each kind that may be the body is none.\<close>

definition body_type :: "part_head \<Rightarrow> bool" where
  "body_type h \<longleftrightarrow> (ph_main h, ph_sub h) \<in>
     {(''text'', ''plain''), (''text'', ''html''), (''multipart'', ''related''), (''multipart'', ''alternative'')}"

fun mark_parts :: "string list \<Rightarrow> mime list \<Rightarrow> bool list" where
  "mark_parts seen [] = []"
| "mark_parts seen (p # ps) =
     (let h = head_of p in
      if body_type h \<and> \<not> ph_attachment h \<and> ph_sub h \<notin> set seen then False # mark_parts (ph_sub h # seen) ps
      else True # mark_parts seen ps)"

definition attachment_marks :: "part_head \<Rightarrow> mime list \<Rightarrow> bool list result" where
  "attachment_marks h ps =
     (if ph_main h \<noteq> ''multipart'' \<or> ph_sub h = ''alternative'' then Inr (map (\<lambda>_. False) ps)
      else if ph_sub h = ''related'' then
        (if ph_start h \<noteq> [] \<and> list_ex (\<lambda>p. ph_cid (head_of p) = ph_start h) ps
         then Inr (map (\<lambda>p. ph_cid (head_of p) \<noteq> ph_start h) ps)
         else case ps of [] \<Rightarrow> Inl (OtherError ''pop from empty list'') | _ # qs \<Rightarrow> Inr (False # map (\<lambda>_. True) qs))
      else Inr (mark_parts [] ps))"

subsection \<open>modify.py\<close>

definition add_subject_warning :: "string \<Rightarrow> (string \<times> string) list \<Rightarrow> (string \<times> string) list result" where
  "add_subject_warning pre hs =
     (let subject = (case get_header hs ''Subject'' of Some s \<Rightarrow> s | None \<Rightarrow> []) in
      if starts_with pre subject then Inr hs
      else set_header ''Subject'' (subject_warning pre subject) (del_header ''Subject'' hs))"

definition removed_name :: "mime \<Rightarrow> string" where
  "removed_name p = (if ph_filename (head_of p) \<noteq> [] then ph_filename (head_of p) else ''unnamed-attachment'')"

definition removal_note :: "string \<Rightarrow> string" where
  "removal_note name = ''[Attachment removed by security gateway: '' @ name @ '']''"

fun strip_marked :: "(mime \<times> bool) list \<Rightarrow> (mime list \<times> string list) result" where
  "strip_marked [] = Inr ([], [])"
| "strip_marked ((p, attached) # ps) =
     (case (if attached then set_content p ''plain'' (removal_note (removed_name p)) else Inr p) of
        Inl e \<Rightarrow> Inl e
      | Inr q \<Rightarrow> (case strip_marked ps of
          Inl e \<Rightarrow> Inl e
        | Inr (qs, names) \<Rightarrow> Inr (q # qs, if attached then removed_name p # names else names)))"

definition strip_attachments :: "mime \<Rightarrow> (mime \<times> string list) result" where
  "strip_attachments m = (case m of
       Leaf _ _ \<Rightarrow> Inr (m, [])
     | Multi h ps \<Rightarrow> (case attachment_marks h ps of
         Inl e \<Rightarrow> Inl e
       | Inr marks \<Rightarrow> (case strip_marked (zip ps marks) of
           Inl e \<Rightarrow> Inl e
         | Inr (qs, names) \<Rightarrow> Inr (Multi h qs, names))))"

text \<open>The walk over the text parts, in order.\<close>

fun defang_part :: "mime \<Rightarrow> mime result" and defang_parts :: "mime list \<Rightarrow> mime list result" where
  "defang_part (Leaf h c) =
     (if ph_main h = ''text'' \<and> ph_sub h = ''html'' then map_sum id (\<lambda>t. text_part ''html'' (defang_html_links t)) c
      else if ph_main h = ''text'' \<and> ph_sub h = ''plain'' then map_sum id (\<lambda>t. text_part ''plain'' (defang_text_links t)) c
      else Inr (Leaf h c))"
| "defang_part (Multi h ps) = map_sum id (Multi h) (defang_parts ps)"
| "defang_parts [] = Inr []"
| "defang_parts (p # ps) = (case defang_part p of
      Inl e \<Rightarrow> Inl e
    | Inr q \<Rightarrow> map_sum id (\<lambda>qs. q # qs) (defang_parts ps))"

definition rewrite_email :: "string \<Rightarrow> email \<Rightarrow> (email \<times> string list) result" where
  "rewrite_email pre m =
     (case add_subject_warning pre (em_headers m) of
        Inl e \<Rightarrow> Inl e
      | Inr hs \<Rightarrow> (case strip_attachments (em_body m) of
          Inl e \<Rightarrow> Inl e
        | Inr (body, names) \<Rightarrow> map_sum id (\<lambda>b. (\<lparr>em_headers = hs, em_body = b\<rparr>, names)) (defang_part body)))"

record mime_codec =
  mc_parse :: "string \<Rightarrow> email result"
  mc_bytes :: "email \<Rightarrow> string result"

definition default_subject_prefix :: string where
  "default_subject_prefix = ''[SUSPICIOUS] ''"

definition apply_warn_and_strip :: "mime_codec \<Rightarrow> string \<Rightarrow> string \<Rightarrow> (string \<times> string list) result" where
  "apply_warn_and_strip mc pre raw = (case mc_parse mc raw of
       Inl e \<Rightarrow> Inl e
     | Inr m \<Rightarrow> (case rewrite_email pre m of
         Inl e \<Rightarrow> Inl e
       | Inr (m', names) \<Rightarrow> map_sum id (\<lambda>b. (b, names)) (mc_bytes mc m')))"

text \<open>The headers of tag-only mode; only the parsing is guarded.\<close>

definition tag_headers :: "int \<Rightarrow> string \<Rightarrow> string list \<Rightarrow> (string \<times> string) list \<Rightarrow> (string \<times> string) list result" where
  "tag_headers score act reasons hs0 =
     (let hs = del_header ''X-Gateway-Score'' (del_header ''X-Gateway-Verdict'' hs0) in
      case set_header ''X-Gateway-Verdict'' act hs of
        Inl e \<Rightarrow> Inl e
      | Inr h1 \<Rightarrow> (case set_header ''X-Gateway-Score'' (int_str score) h1 of
          Inl e \<Rightarrow> Inl e
        | Inr h2 \<Rightarrow> set_header ''X-Gateway-Reasons'' (take 250 (join ''; '' (take 5 reasons))) h2))"

definition apply_tag_only :: "mime_codec \<Rightarrow> string \<Rightarrow> int \<Rightarrow> string \<Rightarrow> string list \<Rightarrow> string result" where
  "apply_tag_only mc raw score act reasons = (case mc_parse mc raw of
       Inl _ \<Rightarrow> Inr raw
     | Inr m \<Rightarrow> (case tag_headers score act reasons (em_headers m) of
         Inl e \<Rightarrow> Inl e
       | Inr hs \<Rightarrow> mc_bytes mc (m\<lparr>em_headers := hs\<rparr>)))"

fun exn_str :: "py_exn \<Rightarrow> string" where
  "exn_str (ValueError s) = s"
| "exn_str (KeyError s) = quoted s"
| "exn_str (TypeError s) = s"
| "exn_str (PermissionError s) = s"
| "exn_str (RuntimeError s) = s"
| "exn_str (OtherError s) = s"

text \<open>What \<open>deliver\<close> takes from this module.\<close>

definition with_rewriting :: "mime_codec \<Rightarrow> 'w outside \<Rightarrow> 'w outside" where
  "with_rewriting mc out = out\<lparr>
     o_warn_and_strip := (\<lambda>raw. map_sum exn_str id (apply_warn_and_strip mc default_subject_prefix raw)),
     o_tag_only := apply_tag_only mc\<rparr>"

subsection \<open>What is removed\<close>

text \<open>The parts a recipient could still open: every leaf that is no text.\<close>

fun payloads :: "mime \<Rightarrow> part_head list" where
  "payloads (Leaf h c) = (if ph_main h = ''text'' then [] else [h])"
| "payloads (Multi h ps) = concat (map payloads ps)"

lemma text_part_payloads [simp]: "payloads (text_part sub s) = []"
  by (simp add: text_part_def)

lemma map_sum_Inr: "map_sum id f x = Inr y \<longleftrightarrow> (\<exists>z. x = Inr z \<and> y = f z)"
  by (cases x) auto

lemma defang_payloads:
  "defang_part p = Inr q \<Longrightarrow> payloads q = payloads p"
  "defang_parts ps = Inr qs \<Longrightarrow> concat (map payloads qs) = concat (map payloads ps)"
proof (induction p and ps arbitrary: q and qs rule: defang_part_defang_parts.induct)
  case (1 h c)
  consider "ph_main h = ''text''" "ph_sub h = ''html''" | "ph_main h = ''text''" "ph_sub h = ''plain''"
    | "\<not> (ph_main h = ''text'' \<and> ph_sub h = ''html'')" "\<not> (ph_main h = ''text'' \<and> ph_sub h = ''plain'')" by blast
  then show ?case
  proof cases
    case 1
    with \<open>defang_part (Leaf h c) = Inr q\<close> obtain t where "q = text_part ''html'' t" by (auto simp: map_sum_Inr)
    then show ?thesis using 1 by simp
  next
    case 2
    with \<open>defang_part (Leaf h c) = Inr q\<close> obtain t where "q = text_part ''plain'' t" by (auto simp: map_sum_Inr)
    then show ?thesis using 2 by simp
  next
    case 3
    then have "defang_part (Leaf h c) = Inr (Leaf h c)" by (simp only: defang_part.simps if_False)
    then show ?thesis using \<open>defang_part (Leaf h c) = Inr q\<close> by simp
  qed
next
  case (2 h ps)
  then show ?case by (auto simp: map_sum_Inr)
next
  case (4 p ps)
  then obtain q' qs' where "defang_part p = Inr q'" "defang_parts ps = Inr qs'" "qs = q' # qs'"
    by (auto simp: map_sum_Inr split: sum.splits)
  then show ?case using "4.IH" by simp
qed simp

lemma rewritten:
  "rewrite_email pre m = Inr (m', names) \<Longrightarrow> add_subject_warning pre (em_headers m) = Inr (em_headers m') \<and>
     (\<exists>body. strip_attachments (em_body m) = Inr (body, names) \<and> defang_part body = Inr (em_body m'))"
  by (auto simp: rewrite_email_def map_sum_Inr split: sum.splits)

text \<open>In a plain mixed message every part that is not a body goes: no payload is left.\<close>

definition flat_mixed :: "mime \<Rightarrow> bool" where
  "flat_mixed m \<longleftrightarrow> (\<exists>h ps. m = Multi h ps \<and> ph_main h = ''multipart'' \<and> ph_sub h \<noteq> ''alternative'' \<and> ph_sub h \<noteq> ''related'' \<and>
     (\<forall>p \<in> set ps. \<exists>k c. p = Leaf k c \<and> ph_main k \<noteq> ''multipart''))"

lemma mark_parts_length [simp]: "length (mark_parts seen ps) = length ps"
  by (induction ps arbitrary: seen) (simp_all add: Let_def)

lemma strip_marked_payloads:
  assumes "\<forall>p \<in> set ps. \<exists>k c. p = Leaf k c \<and> ph_main k \<noteq> ''multipart''"
  shows "\<exists>qs names. strip_marked (zip ps (mark_parts seen ps)) = Inr (qs, names) \<and> concat (map payloads qs) = []"
  using assms
proof (induction ps arbitrary: seen)
  case (Cons p ps)
  then obtain k c where p: "p = Leaf k c" "ph_main k \<noteq> ''multipart''" by auto
  have IH: "\<exists>qs names. strip_marked (zip ps (mark_parts s ps)) = Inr (qs, names) \<and> concat (map payloads qs) = []" for s
    using Cons by simp
  show ?case
  proof (cases "body_type k \<and> \<not> ph_attachment k \<and> ph_sub k \<notin> set seen")
    case True
    then have "ph_main k = ''text''" using p(2) by (auto simp: body_type_def)
    then have "payloads p = []" using p(1) by simp
    then show ?thesis using IH [of "ph_sub k # seen"] True p(1) by auto
  next
    case False
    have "set_content p ''plain'' (removal_note (removed_name p)) = Inr (text_part ''plain'' (removal_note (removed_name p)))"
      using p by (simp add: set_content_def)
    then show ?thesis using IH [of seen] False p(1) by auto
  qed
qed simp

lemma flat_stripped:
  assumes "flat_mixed m"
  shows "\<exists>m' names. strip_attachments m = Inr (m', names) \<and> payloads m' = []"
proof -
  obtain h ps where m: "m = Multi h ps" "ph_main h = ''multipart''" "ph_sub h \<noteq> ''alternative''" "ph_sub h \<noteq> ''related''"
      "\<forall>p \<in> set ps. \<exists>k c. p = Leaf k c \<and> ph_main k \<noteq> ''multipart''"
    using assms by (auto simp: flat_mixed_def)
  then show ?thesis using strip_marked_payloads [OF m(5), of "[]"] by (auto simp: strip_attachments_def attachment_marks_def)
qed

theorem flat_message_loses_payloads:
  assumes "flat_mixed (em_body m)" "rewrite_email pre m = Inr (m', names)"
  shows "payloads (em_body m') = []"
  using flat_stripped [OF assms(1)] rewritten [OF assms(2)] defang_payloads(1) by auto

text \<open>Only the immediate parts are looked at. What lies in a related or alternative body is taken for its text: the
  payloads in it reach the recipient as they were sent, and the report names no attachment.\<close>

definition body_container :: "mime \<Rightarrow> bool" where
  "body_container p \<longleftrightarrow> (\<exists>k qs. p = Multi k qs \<and> ph_main k = ''multipart'' \<and> ph_sub k \<in> {''related'', ''alternative''} \<and> \<not> ph_attachment k)"

lemma container_untouched:
  assumes "ph_main h = ''multipart''" "ph_sub h = ''mixed''" "body_container p"
  shows "strip_attachments (Multi h [p]) = Inr (Multi h [p], [])"
  using assms by (auto simp: body_container_def strip_attachments_def attachment_marks_def body_type_def Let_def)

theorem nested_payloads_survive:
  assumes "em_body m = Multi h [p]" "ph_main h = ''multipart''" "ph_sub h = ''mixed''" "body_container p"
    and "rewrite_email pre m = Inr (m', names)"
  shows "payloads (em_body m') = payloads p \<and> names = []"
proof -
  have "strip_attachments (em_body m) = Inr (Multi h [p], [])" unfolding assms(1) by (rule container_untouched [OF assms(2-4)])
  then have "defang_part (Multi h [p]) = Inr (em_body m')" "names = []" using rewritten [OF assms(5)] by auto
  then show ?thesis using defang_payloads(1) by fastforce
qed

text \<open>A message that is an alternative itself loses nothing at all.\<close>

lemma strip_unmarked: "strip_marked (zip ps (map (\<lambda>_. False) ps)) = Inr (ps, [])"
  by (induction ps) simp_all

theorem alternative_message_untouched:
  assumes "em_body m = Multi h ps" "ph_sub h = ''alternative''" "rewrite_email pre m = Inr (m', names)"
  shows "payloads (em_body m') = payloads (em_body m) \<and> names = []"
proof -
  have "strip_attachments (em_body m) = Inr (em_body m, [])"
    using assms(1,2) by (simp add: strip_attachments_def attachment_marks_def strip_unmarked)
  then have "defang_part (em_body m) = Inr (em_body m')" "names = []" using rewritten [OF assms(3)] by auto
  then show ?thesis using defang_payloads(1) by simp
qed

text \<open>An attached container cannot be replaced: the rewriting raises, and \<open>deliver\<close> quarantines the message.\<close>

lemma strip_marked_raises:
  assumes "(p, True) \<in> set ps" "ph_main (head_of p) = ''multipart''"
  shows "\<exists>e. strip_marked ps = Inl e"
  using assms
proof (induction ps rule: strip_marked.induct)
  case (2 q b ps)
  show ?case
  proof (cases "if b then set_content q ''plain'' (removal_note (removed_name q)) else Inr q")
    case (Inr x)
    then have "(q, b) \<noteq> (p, True)" using 2(3) by (auto simp: set_content_def)
    then have "\<exists>e. strip_marked ps = Inl e" using 2 Inr by auto
    then show ?thesis using Inr by auto
  qed auto
qed simp

theorem attached_container_raises:
  assumes "em_body m = Multi h ps" "ph_main h = ''multipart''" "ph_sub h = ''mixed''" "p \<in> set ps"
    and "ph_main (head_of p) = ''multipart''" "ph_sub (head_of p) \<notin> {''related'', ''alternative''}"
  shows "\<exists>e. rewrite_email pre m = Inl e"
proof -
  have "(p, True) \<in> set (zip ps (mark_parts seen ps))" for seen
    using assms(4)
  proof (induction ps arbitrary: seen)
    case (Cons a ps)
    show ?case
    proof (cases "a = p")
      case True
      have "\<not> body_type (head_of p)" using assms(5,6) by (auto simp: body_type_def)
      then show ?thesis using True by (simp add: Let_def)
    next
      case False
      then show ?thesis using Cons by (simp add: Let_def)
    qed
  qed simp
  then obtain e where "strip_marked (zip ps (mark_parts [] ps)) = Inl e" using strip_marked_raises [OF _ assms(5)] by metis
  then have "strip_attachments (em_body m) = Inl e"
    using assms(1-3) by (simp add: strip_attachments_def attachment_marks_def)
  then show ?thesis by (auto simp: rewrite_email_def split: sum.splits)
qed

subsection \<open>What is marked\<close>

lemma get_set_header:
  assumes "set_header name val (del_header name hs) = Inr hs'"
  shows "get_header hs' name = Some val"
proof -
  have "List.find (is_header name) (del_header name hs) = None" by (simp add: del_header_def find_None_iff)
  moreover have "List.find P (xs @ [x]) = (case List.find P xs of Some y \<Rightarrow> Some y | None \<Rightarrow> if P x then Some x else None)"
    for P xs and x :: "string \<times> string"
    by (induction xs) auto
  ultimately show ?thesis using assms by (auto simp: set_header_def get_header_def is_header_def split: if_splits)
qed

text \<open>A rewritten message carries the warning in its subject.\<close>

theorem rewritten_subject_warns:
  assumes "rewrite_email pre m = Inr (m', names)" "pre \<noteq> []"
  shows "\<exists>subject. get_header (em_headers m') ''Subject'' = Some subject \<and> starts_with (rstrip_by is_space pre) subject"
proof -
  let ?s = "case get_header (em_headers m) ''Subject'' of Some s \<Rightarrow> s | None \<Rightarrow> []"
  have hs: "add_subject_warning pre (em_headers m) = Inr (em_headers m')"
    using rewritten [OF assms(1)] by simp
  show ?thesis
  proof (cases "starts_with pre ?s")
    case True
    then obtain s where "get_header (em_headers m) ''Subject'' = Some s"
      using assms(2) by (cases "get_header (em_headers m) ''Subject''") (auto simp: starts_with_iff)
    moreover from this True have "starts_with (rstrip_by is_space pre) s"
      using subject_warning_prefixed [of pre s] by (simp add: subject_warning_def)
    ultimately show ?thesis using hs True by (simp add: add_subject_warning_def Let_def)
  next
    case False
    then have "set_header ''Subject'' (subject_warning pre ?s) (del_header ''Subject'' (em_headers m)) = Inr (em_headers m')"
      using hs by (simp add: add_subject_warning_def Let_def)
    then show ?thesis using get_set_header subject_warning_prefixed by blast
  qed
qed

text \<open>In tag-only mode the verdict and the score are the gateway's, but the reasons a recipient reads first are those the
  sender has put in.\<close>

lemma get_other_header: "set_header n v hs = Inr hs' \<Longrightarrow> lower n \<noteq> lower name \<Longrightarrow> get_header hs' name = get_header hs name"
proof -
  assume a: "set_header n v hs = Inr hs'" "lower n \<noteq> lower name"
  have "List.find P (xs @ [x]) = (if P x then (case List.find P xs of Some y \<Rightarrow> Some y | None \<Rightarrow> Some x) else List.find P xs)"
    for P xs and x :: "string \<times> string"
    by (induction xs) auto
  then show ?thesis using a by (auto simp: set_header_def get_header_def is_header_def split: if_splits)
qed

lemma get_first_header: "set_header n v hs = Inr hs' \<Longrightarrow> get_header hs name = Some x \<Longrightarrow> get_header hs' name = Some x"
proof -
  assume a: "set_header n v hs = Inr hs'" "get_header hs name = Some x"
  have "List.find P xs = Some y \<Longrightarrow> List.find P (xs @ zs) = Some y" for P xs zs and y :: "string \<times> string"
    by (induction xs) (auto split: if_splits)
  then show ?thesis using a by (auto simp: set_header_def get_header_def split: if_splits)
qed

lemma get_deleted_other: "lower n \<noteq> lower name \<Longrightarrow> get_header (del_header n hs) name = get_header hs name"
proof -
  assume a: "lower n \<noteq> lower name"
  have "List.find (is_header name) (filter (\<lambda>h. \<not> is_header n h) hs) = List.find (is_header name) hs"
    using a by (induction hs) (auto simp: is_header_def)
  then show ?thesis by (simp add: get_header_def del_header_def)
qed

lemma tag_names_differ:
  "lower ''X-Gateway-Verdict'' \<noteq> lower ''X-Gateway-Reasons''" "lower ''X-Gateway-Score'' \<noteq> lower ''X-Gateway-Reasons''"
  "lower ''X-Gateway-Verdict'' \<noteq> lower ''X-Gateway-Score''"
  by code_simp+

theorem forged_reasons_survive:
  assumes "tag_headers score act reasons hs = Inr hs'" "get_header hs ''X-Gateway-Reasons'' = Some forged"
  shows "get_header hs' ''X-Gateway-Reasons'' = Some forged"
proof -
  let ?d = "del_header ''X-Gateway-Score'' (del_header ''X-Gateway-Verdict'' hs)"
  have d: "get_header ?d ''X-Gateway-Reasons'' = Some forged"
    using assms(2) by (simp only: get_deleted_other tag_names_differ not_False_eq_True)
  obtain h1 h2 where s: "set_header ''X-Gateway-Verdict'' act ?d = Inr h1" "set_header ''X-Gateway-Score'' (int_str score) h1 = Inr h2"
      "set_header ''X-Gateway-Reasons'' (take 250 (join ''; '' (take 5 reasons))) h2 = Inr hs'"
    using assms(1) unfolding tag_headers_def Let_def by (auto split: sum.splits)
  show ?thesis by (rule get_first_header [OF s(3)], rule get_first_header [OF s(2)], rule get_first_header [OF s(1) d])
qed

text \<open>A reason with a line break, as the name of an attachment can put it there, makes the tagging raise; outside the guarded
  parsing nothing catches it, so \<open>deliver\<close> neither relays nor holds the message.\<close>

theorem broken_reason_loses_message:
  assumes "mc_parse mc (m_raw m) = Inr e" "length (splitlines (take 250 (join ''; '' (take 5 (m_reasons m))))) > 1" "act \<noteq> FORWARD"
    and "length (splitlines (action_value act)) \<le> 1" "length (splitlines (int_str (m_score m))) \<le> 1"
  shows "\<exists>x. deliver f nonce qid now (with_rewriting mc out) act m True soc sc = (Inl x, sc)"
  using assms by (simp add: deliver_def with_rewriting_def apply_tag_only_def tag_headers_def set_header_def Let_def)

subsection \<open>Delivered with its payload\<close>














subsection \<open>Links that stay\<close>

text \<open>An address in capitals is found but only its dots are changed; a link without quotation marks is not found.\<close>

theorem capital_scheme_kept: "defang_text_links ''HTTP://h/x'' = ''[LINK REMOVED: HTTP://h/x]''"
  by code_simp

theorem unquoted_link_kept: "defang_html_links ''<a href=http://h.x/>'' = ''<a href=http://h.x/>''"
  by code_simp

end
