(* ===== verification/Spec2Isabelle.thy ===== *)
theory Spec2Isabelle
  imports Resilience AdminAPI MessageQueue WorkQueue SMTPReceiver DLP GatewayStages Compliance TimeOfClick ThreatIntel Reliability Observability ScaleStores RedisStore Secrets GatewayConfig DashboardUI Mailboxes Hardening Translations Rewriting
begin

text \<open>
  The email security gateway: a service that receives mail (over SMTP or as provider webhooks), checks its sender,
  its text, links and attachments, decides what to do with it, and delivers, rewrites or quarantines it. This
  library models the Python code under \<open>src/\<close> and proves what makes its components correct.

  \<^bold>\<open>How the program works and where it is modelled.\<close> Every theory opens with the files it translates.

  \<^item> \<^emph>\<open>Common ground.\<close> \<open>Prelude\<close> holds Python strings (lists of code points below 256), dictionaries (association
    lists in insertion order), JSON values, exceptions (\<open>py_exn\<close>, in the left part of a sum) and their lemmas;
    \<open>Decimals\<close> rounding and number formats; \<open>Codec\<close> hex, base 64 and base 32; \<open>Regex\<close> a
    backtracking matcher with captures for the patterns of the code; \<open>IPAddress\<close> the \<open>ipaddress\<close> module on machine
    words of 32 and 128 bits; \<open>UnicodeText\<close> texts of code points beyond Latin-1.
  \<^item> \<^emph>\<open>State and protection.\<close> \<open>KVStore\<close> (\<open>storage/memory.py\<close>) and \<open>RedisStore\<close> (\<open>storage/redis_store.py\<close>) provide the
    interface \<open>kv_store\<close>; \<open>RateLimit\<close> (\<open>security/rate_limit.py\<close>, \<open>multi_tenancy/rate_limiter.py\<close>) is a client of it;
    \<open>Resilience\<close> (\<open>resilience/\<close>) has the circuit breaker, also as a transition system of interleaved calls, and the
    retry loop.
  \<^item> \<^emph>\<open>Sender authentication\<close> (\<open>auth_checker/\<close>): \<open>SPF\<close>, \<open>DMARC\<close>, \<open>AuthChecks\<close>, \<open>SenderBaseline\<close> and their
    composition \<open>AuthPipeline\<close>.
  \<^item> \<^emph>\<open>Content\<close> (\<open>content_analysis/\<close>): \<open>URLs\<close>, \<open>ContentSignals\<close>, \<open>Reputation\<close>, \<open>Scores\<close> and \<open>ContentPipeline\<close>.
    \<^emph>\<open>Attachments\<close> (\<open>attachment_analysis/\<close>): \<open>Attachments\<close>, \<open>AttachmentPipeline\<close>.
  \<^item> \<^emph>\<open>Decision\<close> (\<open>decision_engine/\<close>): \<open>DecisionModel\<close>, \<open>Campaign\<close>, \<open>Decide\<close>.
  \<^item> \<^emph>\<open>Delivery\<close> (\<open>delivery/\<close>): \<open>Quarantine\<close>, \<open>Delivery\<close>, \<open>Rewriting\<close> (\<open>modify.py\<close> on whole messages),
    \<open>PostDelivery\<close>, \<open>DLP\<close>, \<open>SMTPReceiver\<close>; \<open>Mailboxes\<close> has the clients of the mail providers (\<open>m365_client.py\<close>,
    \<open>google_client.py\<close>).
  \<^item> \<^emph>\<open>The service\<close> (\<open>webhook_receiver/\<close>): \<open>Parsers\<close> turns a provider's payload into a message, \<open>WebhookSecurity\<close>
    checks the caller, \<open>Gateway\<close> is \<open>process_message\<close> over abstract stages, \<open>ContentStage\<close> and \<open>GatewayStages\<close> put the
    code's own stages in, \<open>Receiver\<close> has the inbound handlers, \<open>AdminAPI\<close> the administration routes, \<open>TimeOfClick\<close> the
    rewritten links (\<open>time_of_click/\<close>). \<open>DashboardUI\<close> has the preview sanitizer and the analytics of \<open>admin_ui/\<close> with the
    remaining routes of \<open>app.py\<close>, \<open>Translations\<close> the catalogue of \<open>admin_ui/i18n.py\<close>.
  \<^item> \<^emph>\<open>Accounts and tenants\<close> (\<open>identity/\<close>, \<open>multi_tenancy/\<close>): \<open>Identity\<close>, \<open>Tokens\<close>, \<open>AuthManager\<close>, \<open>Tenancy\<close>.
  \<^item> \<^emph>\<open>Operation\<close>: \<open>AuditLog\<close> (\<open>audit/\<close>, \<open>security/redact.py\<close>), \<open>Compliance\<close>, \<open>ThreatIntel\<close>, \<open>Reliability\<close>,
    \<open>Observability\<close>, \<open>MessageQueue\<close> and \<open>WorkQueue\<close> and \<open>ScaleStores\<close> (\<open>scalability/\<close>), \<open>Secrets\<close> (the two secrets managers),
    \<open>GatewayConfig\<close> (\<open>config/\<close>, \<open>security/mtls.py\<close>), \<open>Hardening\<close> (fuzzer, penetration tests and checks of
    \<open>security_hardening/\<close>, the DNSSEC set-up, network segmentation).

  A message runs through the parts in this order: \<open>Receiver\<close> or \<open>SMTPReceiver\<close>, the duplicate check in the store, the
  bounce check, \<open>run_auth_checks\<close>, the content stage, the attachment stage, \<open>decide\<close>, \<open>deliver\<close>, and an audit line. Each
  stage returns a score and reasons; an exception of a stage is a value of the model and is handled as
  \<open>process_message\<close> handles it.

  \<^bold>\<open>Conventions.\<close> A class is a record of its fields, a method a function from the record to its result and the new
  record; a raised exception is the left part of a sum. Times are rational seconds and the clock is an argument, read as
  often as the code reads it; random draws and generated identifiers are arguments as well. Floats are exact rationals.
  The outside world is a state of type \<open>'w\<close> threaded through the calls. Code that is not in the repository is a parameter:
  DNS, HTTP, SMTP, dkimpy, publicsuffix2, cryptographic primitives (PBKDF2, HMAC, SHA-256, Fernet), the MIME and HTML
  parsers, the archive and image libraries, clamd, Redis. What a theorem needs of such a parameter is a hypothesis of the
  theorem or of a locale, with a witness where it holds.

  \<^bold>\<open>Interfaces.\<close> A locale states what a client relies on and is interpreted on the code's model: the key-value store
  with its atomic counter (memory and Redis), the virus scanner that never raises, providers behind a breaker and a cache,
  quarantine as a map, the secret providers, and others; properties use the facts of the interpretation.

  \<^bold>\<open>What the lemmas show.\<close> The decision never lets blocked or highly scored mail through and is monotone; the breaker's
  reachable states are consistent, also when calls are cancelled, and it stops calls to a failing service; a rate window
  admits its limit; SPF needs a matching mechanism, counts at most ten look-ups and asks at most one question more; DMARC
  passes only on an aligned identity; scores stay in their bounds; the quarantine refines a map; an accepted message is
  stored, audited and held, relayed, or (relay refusing or missing) neither; an SMTP transaction delivers what was sent, but
  a task that ends between two chunks mutilates the next message; every queued message is accounted for, lost ones
  included, and a pool whose workers put failed tasks back into a full queue deadlocks; log-in needs every factor; tokens
  live for their lifetime; a tenant's mail is written under its own key into a directory of its own, for ids that are
  plain names; a reported zap is a deletion only where mailbox clients are configured; the redirect resolver is kept from
  exactly the listed networks; edit distance, look-alikes and HTML evasion (text off the screen apart) agree with reference
  definitions; cached verdicts are replayed; a purge respects legal holds; stripping leaves what is nested in the first
  related or alternative body. Where the documents or comments of the repository say something else than the code, the text of the
  theorem says so.

  \<^bold>\<open>Bounds and fuel.\<close> Recursion is structural or on a measure. SPF recursion is bounded by the look-up budget itself. The
  star of the regular expressions iterates at most once per remaining character, and an iteration that consumes nothing
  ends it, so this is no restriction. Redirects are followed at most the configured number of times, retries at most
  \<open>max_attempts\<close>. A worker's loop is modelled turn by turn; termination of a turn is a theorem.

  \<^bold>\<open>Not modelled.\<close> Opening sockets, process start-up, the web framework's routing and HTML pages (\<open>ui_app.py\<close>),
  the generation of test certificates, files handed to third-party tools, and load-generating or documentation scripts: they hold no state and
  only call libraries or print constants. Concurrent tasks are taken one by one except where interleaving is the subject
  (breaker, message queue, SMTP message tasks). File systems have no symbolic links. Characters beyond Latin-1 exist only in the theories that look at them.
  Floating-point rounding is not modelled. The manifest lists every part with its status.
\<close>

end
